(* ===== verification/PyStdlib.thy ===== *)
theory PyStdlib
  imports Prelude
begin

text \<open>
  The parts of Python's standard library that the modelled code computes with: JSON values
  and their encodings (\<^verbatim>\<open>json.dumps(v, sort_keys=True, separators=(",", ":"))\<close> and
  \<^verbatim>\<open>json.dumps(v, indent=2, sort_keys=True)\<close> and \<^verbatim>\<open>json.dumps(v)\<close>), and \<^verbatim>\<open>hashlib.sha256\<close>. The hash is the real
  function, not an abstract one; the component proofs use only that a hex digest is 64
  lowercase hexadecimal digits.
\<close>

unbundle bit_operations_syntax

section \<open>JSON values\<close>

text \<open>
  A float keeps the text \<^verbatim>\<open>repr\<close> prints, since the code only ever rejects or re-emits one.
  An object is a dictionary: keys are distinct and in insertion order.
\<close>

datatype json =
    JNull
  | JBool bool
  | JInt int
  | JFloat string
  | JStr string
  | JArr "json list"
  | JObj "(string \<times> json) list"

definition hex_char :: "nat \<Rightarrow> char" where
  "hex_char d = ''0123456789abcdef'' ! (d mod 16)"

text \<open>\<^verbatim>\<open>ensure_ascii=True\<close>: everything outside printable ASCII is escaped.\<close>

definition json_escape_char :: "char \<Rightarrow> string" where
  "json_escape_char c =
     (let n = of_char c :: nat; bs = char_of (92 :: nat) in
      if n = 34 then [bs, c]
      else if n = 92 then [bs, bs]
      else if n = 10 then [bs, CHR ''n'']
      else if n = 13 then [bs, CHR ''r'']
      else if n = 9 then [bs, CHR ''t'']
      else if n = 12 then [bs, CHR ''f'']
      else if n = 8 then [bs, CHR ''b'']
      else if 32 \<le> n \<and> n \<le> 126 then [c]
      else [bs, CHR ''u'', CHR ''0'', CHR ''0'', hex_char (n div 16), hex_char (n mod 16)])"

definition json_quote :: "string \<Rightarrow> string" where
  "json_quote s = [char_of (34 :: nat)] @ concat (map json_escape_char s) @ [char_of (34 :: nat)]"

fun join_with :: "string \<Rightarrow> string list \<Rightarrow> string" where
  "join_with sep [] = []"
| "join_with sep [x] = x"
| "join_with sep (x # y # zs) = x @ sep @ join_with sep (y # zs)"

definition json_bool :: "bool \<Rightarrow> string" where
  "json_bool b = (if b then ''true'' else ''false'')"

fun dumps_canonical :: "json \<Rightarrow> string" where
  "dumps_canonical JNull = ''null''"
| "dumps_canonical (JBool b) = json_bool b"
| "dumps_canonical (JInt k) = int_str k"
| "dumps_canonical (JFloat r) = r"
| "dumps_canonical (JStr s) = json_quote s"
| "dumps_canonical (JArr vs) = ''['' @ join_with '','' (map dumps_canonical vs) @ '']''"
| "dumps_canonical (JObj kvs) =
     ''{'' @ join_with '',''
       (map (\<lambda>(k, t). json_quote k @ '':'' @ t)
         (sort_key fst (map (\<lambda>(k, v). (k, dumps_canonical v)) kvs))) @ ''}''"

text \<open>\<^verbatim>\<open>json.dumps(v)\<close>\<close>

fun dumps_plain :: "json \<Rightarrow> string" where
  "dumps_plain JNull = ''null''"
| "dumps_plain (JBool b) = json_bool b"
| "dumps_plain (JInt k) = int_str k"
| "dumps_plain (JFloat r) = r"
| "dumps_plain (JStr s) = json_quote s"
| "dumps_plain (JArr vs) = ''['' @ join_with '', '' (map dumps_plain vs) @ '']''"
| "dumps_plain (JObj kvs) =
     ''{'' @ join_with '', ''
       (map (\<lambda>(k, t). json_quote k @ '': '' @ t) (map (\<lambda>(k, v). (k, dumps_plain v)) kvs)) @ ''}''"

definition newline_indent :: "nat \<Rightarrow> string" where
  "newline_indent level = char_of (10 :: nat) # replicate (2 * level) (CHR '' '')"

fun dumps_indent :: "nat \<Rightarrow> json \<Rightarrow> string" where
  "dumps_indent level JNull = ''null''"
| "dumps_indent level (JBool b) = json_bool b"
| "dumps_indent level (JInt k) = int_str k"
| "dumps_indent level (JFloat r) = r"
| "dumps_indent level (JStr s) = json_quote s"
| "dumps_indent level (JArr vs) =
     (if vs = [] then ''[]''
      else ''['' @ newline_indent (Suc level)
        @ join_with ('','' @ newline_indent (Suc level)) (map (dumps_indent (Suc level)) vs)
        @ newline_indent level @ '']'')"
| "dumps_indent level (JObj kvs) =
     (if kvs = [] then ''{}''
      else ''{'' @ newline_indent (Suc level)
        @ join_with ('','' @ newline_indent (Suc level))
            (map (\<lambda>(k, t). json_quote k @ '': '' @ t)
              (sort_key fst (map (\<lambda>(k, v). (k, dumps_indent (Suc level) v)) kvs)))
        @ newline_indent level @ ''}'')"

text \<open>\<^verbatim>\<open>isinstance(v, str)\<close>, \<^verbatim>\<open>type(v) is int\<close> and \<^verbatim>\<open>isinstance(v, dict)\<close> read as partial views.\<close>

fun as_str :: "json \<Rightarrow> string option" where
  "as_str (JStr s) = Some s"
| "as_str _ = None"

fun as_int :: "json \<Rightarrow> int option" where
  "as_int (JInt k) = Some k"
| "as_int _ = None"

fun as_obj :: "json \<Rightarrow> (string \<times> json) list option" where
  "as_obj (JObj d) = Some d"
| "as_obj _ = None"

fun as_arr :: "json \<Rightarrow> json list option" where
  "as_arr (JArr vs) = Some vs"
| "as_arr _ = None"

lemma json_view_iff [simp]:
  "as_str v = Some s \<longleftrightarrow> v = JStr s"
  "as_int v = Some k \<longleftrightarrow> v = JInt k"
  "as_obj v = Some d \<longleftrightarrow> v = JObj d"
  "as_arr v = Some vs \<longleftrightarrow> v = JArr vs"
  by (cases v; simp)+

text \<open>\<^verbatim>\<open>document.get(key)\<close>: absent keys read as \<^verbatim>\<open>None\<close>, the same as a JSON null.\<close>

definition doc_get :: "(string \<times> json) list \<Rightarrow> string \<Rightarrow> json" where
  "doc_get d k = dict_get d k JNull"

section \<open>SHA-256\<close>

type_synonym u32 = "32 word"
type_synonym sha_state = "u32 \<times> u32 \<times> u32 \<times> u32 \<times> u32 \<times> u32 \<times> u32 \<times> u32"

text \<open>
  The constants of SHA-256 are the first 32 fractional bits of the cube roots of the first 64
  primes and of the square roots of the first 8; they are computed here. \<open>integer_root d n\<close>
  is the largest 35-bit number whose \<open>d\<close>-th power is within \<open>n\<close>.
\<close>

definition integer_root :: "nat \<Rightarrow> nat \<Rightarrow> nat" where
  "integer_root d n = foldl (\<lambda>r b. if (r + 2 ^ b) ^ d \<le> n then r + 2 ^ b else r) 0 (rev [0..<35])"

definition small_primes :: "nat list" where
  "small_primes = filter (\<lambda>n. list_all (\<lambda>m. n mod m \<noteq> 0) [2..<n]) [2..<312]"

definition fraction_bits :: "nat \<Rightarrow> nat \<Rightarrow> u32" where
  "fraction_bits d p = of_nat (integer_root d (p * 2 ^ (32 * d)))"

definition sha_k :: "u32 list" where
  "sha_k = map (fraction_bits 3) small_primes"

definition sha_init :: sha_state where
  "sha_init =
     (let h = fraction_bits 2 in (h 2, h 3, h 5, h 7, h 11, h 13, h 17, h 19))"

definition small_sigma0 :: "u32 \<Rightarrow> u32" where
  "small_sigma0 x = word_rotr 7 x XOR word_rotr 18 x XOR drop_bit 3 x"

definition small_sigma1 :: "u32 \<Rightarrow> u32" where
  "small_sigma1 x = word_rotr 17 x XOR word_rotr 19 x XOR drop_bit 10 x"

definition big_sigma0 :: "u32 \<Rightarrow> u32" where
  "big_sigma0 x = word_rotr 2 x XOR word_rotr 13 x XOR word_rotr 22 x"

definition big_sigma1 :: "u32 \<Rightarrow> u32" where
  "big_sigma1 x = word_rotr 6 x XOR word_rotr 11 x XOR word_rotr 25 x"

text \<open>The schedule grows from the right: the newest word is the head of the list.\<close>

fun sha_schedule :: "nat \<Rightarrow> u32 list \<Rightarrow> u32 list" where
  "sha_schedule 0 ws = ws"
| "sha_schedule (Suc n) ws =
     sha_schedule n
       ((small_sigma1 (ws ! 1) + ws ! 6 + small_sigma0 (ws ! 14) + ws ! 15) # ws)"

fun sha_round :: "sha_state \<Rightarrow> u32 \<times> u32 \<Rightarrow> sha_state" where
  "sha_round (a, b, c, d, e, f, g, h) (k, w) =
     (let t1 = h + big_sigma1 e + ((e AND f) XOR (NOT e AND g)) + k + w;
          t2 = big_sigma0 a + ((a AND b) XOR (a AND c) XOR (b AND c))
      in (t1 + t2, a, b, c, d + t1, e, f, g))"

fun sha_add :: "sha_state \<Rightarrow> sha_state \<Rightarrow> sha_state" where
  "sha_add (a, b, c, d, e, f, g, h) (a', b', c', d', e', f', g', h') =
     (a + a', b + b', c + c', d + d', e + e', f + f', g + g', h + h')"

definition be_word :: "char list \<Rightarrow> u32" where
  "be_word cs = foldl (\<lambda>w c. push_bit 8 w OR of_nat (of_char c)) 0 cs"

fun groups :: "nat \<Rightarrow> nat \<Rightarrow> 'a list \<Rightarrow> 'a list list" where
  "groups 0 k xs = []"
| "groups (Suc n) k xs = take k xs # groups n k (drop k xs)"

definition sha_block :: "sha_state \<Rightarrow> char list \<Rightarrow> sha_state" where
  "sha_block st block =
     sha_add st (foldl sha_round st
       (zip sha_k (rev (sha_schedule 48 (rev (map be_word (groups 16 4 block)))))))"

definition be_bytes :: "nat \<Rightarrow> nat \<Rightarrow> char list" where
  "be_bytes k n = map (\<lambda>i. char_of (n div 256 ^ i mod 256)) (rev [0..<k])"

definition sha_pad :: "char list \<Rightarrow> char list" where
  "sha_pad m =
     m @ [char_of (128 :: nat)]
       @ replicate ((119 - length m mod 64) mod 64) (char_of (0 :: nat))
       @ be_bytes 8 (8 * length m)"

definition sha256 :: "char list \<Rightarrow> sha_state" where
  "sha256 m = (let p = sha_pad m in foldl sha_block sha_init (groups (length p div 64) 64 p))"

definition word_hex :: "u32 \<Rightarrow> string" where
  "word_hex w = map (\<lambda>i. hex_char (unat w div 16 ^ i mod 16)) (rev [0..<8])"

fun state_hex :: "sha_state \<Rightarrow> string" where
  "state_hex (a, b, c, d, e, f, g, h) =
     concat (map word_hex [a, b, c, d, e, f, g, h])"

definition sha256_hexdigest :: "char list \<Rightarrow> string" where
  "sha256_hexdigest m = state_hex (sha256 m)"

lemma hex_digit_hex_char: "hex_digit (hex_char d)"
  unfolding hex_digit_def hex_char_def by (rule nth_mem) simp

lemma all_hex_word_hex: "all_hex 8 (word_hex w)"
  by (simp add: all_hex_def word_hex_def list_all_iff hex_digit_hex_char)

lemma all_hex_append: "all_hex m s \<Longrightarrow> all_hex n t \<Longrightarrow> all_hex (m + n) (s @ t)"
  by (simp add: all_hex_def)

lemma all_hex_Nil: "all_hex 0 []"
  by (simp add: all_hex_def)

lemma sha256_hexdigest_hex: "all_hex 64 (sha256_hexdigest m)"
proof -
  obtain a b c d e f g h where st: "sha256 m = (a, b, c, d, e, f, g, h)"
    by (cases "sha256 m") auto
  have "all_hex (8 + (8 + (8 + (8 + (8 + (8 + (8 + (8 + 0))))))))
      (concat (map word_hex [a, b, c, d, e, f, g, h]))"
    unfolding list.map concat.simps
    by (intro all_hex_append all_hex_word_hex all_hex_Nil)
  then show ?thesis
    by (simp add: sha256_hexdigest_def st)
qed

end
