(* ===== verification/Identifiers.thy ===== *)
theory Identifiers
  imports PyStdlib
begin

text \<open>
  Portable durable identifiers and filesystem keys: \<^verbatim>\<open>identifiers.py\<close> and the identifier
  helpers of \<^verbatim>\<open>queue_layout.py\<close>. A durable identifier is what every record family uses as a
  file name; a filesystem key maps an arbitrary operator label to such a name. The lemmas
  show that keys are themselves durable identifiers and that two labels share a key only
  through a SHA-256 collision.
\<close>

datatype py_error =
    TypeError string
  | ValueError string
  | QueueConflictError string
  | ConfigurationError string
  | NotFoundError string
  | OSError string

definition durable_first_char :: "char \<Rightarrow> bool" where
  "durable_first_char c \<longleftrightarrow> c \<in> set ''abcdefghijklmnopqrstuvwxyz0123456789''"

definition durable_char :: "char \<Rightarrow> bool" where
  "durable_char c \<longleftrightarrow> c \<in> set ''abcdefghijklmnopqrstuvwxyz0123456789_-''"

text \<open>\<^verbatim>\<open>re.fullmatch(r"^[a-z0-9][a-z0-9_-]{0,127}$", value)\<close>\<close>

definition DURABLE_RECORD_ID_PATTERN :: "string \<Rightarrow> bool" where
  "DURABLE_RECORD_ID_PATTERN s \<longleftrightarrow>
     (case s of
        [] \<Rightarrow> False
      | c # cs \<Rightarrow> durable_first_char c \<and> list_all durable_char cs \<and> length cs \<le> 127)"

definition WINDOWS_RESERVED_DEVICE_BASENAMES :: "string list" where
  "WINDOWS_RESERVED_DEVICE_BASENAMES =
     [''aux'', ''con'', ''nul'', ''prn''] @
     map (\<lambda>d. ''com'' @ [d]) ''123456789'' @
     map (\<lambda>d. ''lpt'' @ [d]) ''123456789''"

definition DURABLE_RECORD_ID_MAX_BYTES :: nat where
  "DURABLE_RECORD_ID_MAX_BYTES = 128"

definition validate_durable_record_id :: "json \<Rightarrow> py_error + string" where
  "validate_durable_record_id value =
     (case as_str value of
        None \<Rightarrow> Inl (TypeError ''durable record ID must be a string'')
      | Some s \<Rightarrow>
          if length (utf8_encode s) > DURABLE_RECORD_ID_MAX_BYTES
          then Inl (ValueError ''durable record ID must be at most 128 UTF-8 bytes'')
          else if \<not> DURABLE_RECORD_ID_PATTERN s
          then Inl (ValueError ''durable record ID must match its portable ASCII pattern'')
          else if s \<in> set WINDOWS_RESERVED_DEVICE_BASENAMES
          then Inl (ValueError ''durable record ID is a reserved Windows device basename'')
          else Inr s)"

definition require_durable_record_id :: "string \<Rightarrow> string \<Rightarrow> py_error + string" where
  "require_durable_record_id value fld =
     (case validate_durable_record_id (JStr value) of
        Inl (ValueError m) \<Rightarrow> Inl (ValueError (''invalid '' @ fld @ '': '' @ m))
      | r \<Rightarrow> r)"

definition safe_global_record_id :: "json \<Rightarrow> bool" where
  "safe_global_record_id v =
     (case as_str v of
        None \<Rightarrow> False
      | Some s \<Rightarrow> (case validate_durable_record_id v of Inl _ \<Rightarrow> False | Inr _ \<Rightarrow> True))"

text \<open>\<^verbatim>\<open>re.compile(r"[a-z][a-z0-9_.-]{0,63}\Z").fullmatch(domain)\<close>\<close>

definition FILESYSTEM_KEY_DOMAIN :: "string \<Rightarrow> bool" where
  "FILESYSTEM_KEY_DOMAIN s \<longleftrightarrow>
     (case s of
        [] \<Rightarrow> False
      | c # cs \<Rightarrow> c \<in> set ''abcdefghijklmnopqrstuvwxyz''
          \<and> list_all (\<lambda>x. durable_char x \<or> x = CHR ''.'') cs \<and> length cs \<le> 63)"

definition FILESYSTEM_KEY_PREFIX :: string where
  "FILESYSTEM_KEY_PREFIX = ''k2-''"

definition portable_passthrough_key :: "string \<Rightarrow> bool" where
  "portable_passthrough_key value =
     (if take (length FILESYSTEM_KEY_PREFIX) value = FILESYSTEM_KEY_PREFIX then False
      else (case validate_durable_record_id (JStr value) of Inl _ \<Rightarrow> False | Inr _ \<Rightarrow> True))"

definition fs_key_material :: "string \<Rightarrow> string \<Rightarrow> char list" where
  "fs_key_material domain value =
     ''clio-relay.fs-key.v2'' @ [char_of (0 :: nat)] @ domain @ [char_of (0 :: nat)]
       @ utf8_encode value"

definition filesystem_key :: "json \<Rightarrow> string \<Rightarrow> py_error + string" where
  "filesystem_key value domain =
     (if \<not> FILESYSTEM_KEY_DOMAIN domain
      then Inl (ValueError ''filesystem key domain is invalid'')
      else (case as_str value of
              None \<Rightarrow> Inl (TypeError ''filesystem key value must be a string'')
            | Some s \<Rightarrow>
                if s = [] then Inl (ValueError ''filesystem key value must not be empty'')
                else if portable_passthrough_key s then Inr s
                else Inr (FILESYSTEM_KEY_PREFIX @ sha256_hexdigest (fs_key_material domain s))))"

section \<open>Durable identifiers\<close>

abbreviation durable_id :: "string \<Rightarrow> bool" where
  "durable_id s \<equiv> safe_global_record_id (JStr s)"

lemma durable_id_iff:
  "durable_id s \<longleftrightarrow>
     DURABLE_RECORD_ID_PATTERN s \<and> length (utf8_encode s) \<le> 128
       \<and> s \<notin> set WINDOWS_RESERVED_DEVICE_BASENAMES"
  by (auto simp: safe_global_record_id_def validate_durable_record_id_def
      DURABLE_RECORD_ID_MAX_BYTES_def)

lemma validate_durable_record_id_Inr [result_iff]:
  "validate_durable_record_id v = Inr s \<longleftrightarrow> v = JStr s \<and> durable_id s"
  unfolding durable_id_iff
  by (auto simp: validate_durable_record_id_def DURABLE_RECORD_ID_MAX_BYTES_def
      split: option.splits if_splits)

lemma validate_durable_id: "durable_id s \<Longrightarrow> validate_durable_record_id (JStr s) = Inr s"
  by (simp add: result_iff)

lemma require_durable_record_id_Inr [result_iff]:
  "require_durable_record_id s fld = Inr t \<longleftrightarrow> t = s \<and> durable_id s"
proof (cases "durable_id s")
  case True
  then show ?thesis
    by (auto simp: require_durable_record_id_def validate_durable_id)
next
  case False
  then show ?thesis
    by (auto simp: require_durable_record_id_def validate_durable_record_id_Inr
        split: sum.splits py_error.splits)
qed

lemma require_durable_id [simp]: "durable_id s \<Longrightarrow> require_durable_record_id s fld = Inr s"
  by (simp add: result_iff)

lemma durable_char_ascii: "durable_char c \<Longrightarrow> of_char c < (128 :: nat)"
  by (auto simp: durable_char_def)

lemma durable_first_char_durable: "durable_first_char c \<Longrightarrow> durable_char c"
  by (auto simp: durable_first_char_def durable_char_def)

lemma pattern_ascii: "DURABLE_RECORD_ID_PATTERN s \<Longrightarrow> ascii s"
  by (auto simp: DURABLE_RECORD_ID_PATTERN_def ascii_def list_all_iff
      split: list.splits intro: durable_char_ascii durable_first_char_durable)

lemma durable_id_pattern:
  "durable_id s \<longleftrightarrow>
     DURABLE_RECORD_ID_PATTERN s \<and> s \<notin> set WINDOWS_RESERVED_DEVICE_BASENAMES"
proof -
  have "DURABLE_RECORD_ID_PATTERN s \<Longrightarrow> length s \<le> 128"
    by (auto simp: DURABLE_RECORD_ID_PATTERN_def split: list.splits)
  then show ?thesis
    by (auto simp: durable_id_iff utf8_encode_ascii pattern_ascii)
qed

lemma reserved_names_short: "s \<in> set WINDOWS_RESERVED_DEVICE_BASENAMES \<Longrightarrow> length s \<le> 4"
  by (auto simp: WINDOWS_RESERVED_DEVICE_BASENAMES_def)

lemma hex_digit_durable: "hex_digit c \<Longrightarrow> durable_char c"
  by (auto simp: hex_digit_def durable_char_def)

lemma encoded_key_durable:
  assumes "all_hex 64 h"
  shows "durable_id (FILESYSTEM_KEY_PREFIX @ h)"
proof -
  from assms have "list_all durable_char h" and "length h = 64"
    by (auto simp: all_hex_def list_all_iff intro: hex_digit_durable)
  moreover have "durable_first_char (CHR ''k'')" "durable_char (CHR ''2'')" "durable_char (CHR ''-'')"
    by (simp_all add: durable_first_char_def durable_char_def)
  ultimately have "DURABLE_RECORD_ID_PATTERN (FILESYSTEM_KEY_PREFIX @ h)"
    by (simp add: DURABLE_RECORD_ID_PATTERN_def FILESYSTEM_KEY_PREFIX_def)
  moreover from \<open>length h = 64\<close>
  have "FILESYSTEM_KEY_PREFIX @ h \<notin> set WINDOWS_RESERVED_DEVICE_BASENAMES"
    using reserved_names_short [of "FILESYSTEM_KEY_PREFIX @ h"]
    by (auto simp: FILESYSTEM_KEY_PREFIX_def)
  ultimately show ?thesis by (simp add: durable_id_pattern)
qed

lemma passthrough_durable: "portable_passthrough_key s \<Longrightarrow> durable_id s"
  by (auto simp: portable_passthrough_key_def result_iff split: if_splits sum.splits)

lemma passthrough_not_encoded: "\<not> portable_passthrough_key (FILESYSTEM_KEY_PREFIX @ h)"
  by (simp add: portable_passthrough_key_def)

lemma filesystem_key_Inr:
  "filesystem_key v d = Inr k \<longleftrightarrow>
     FILESYSTEM_KEY_DOMAIN d \<and>
     (\<exists>s. v = JStr s \<and> s \<noteq> [] \<and>
       k = (if portable_passthrough_key s then s
            else FILESYSTEM_KEY_PREFIX @ sha256_hexdigest (fs_key_material d s)))"
  by (auto simp: filesystem_key_def split: option.splits)

text \<open>
  Every key \<^verbatim>\<open>filesystem_key\<close> returns is itself a valid portable durable identifier, so it
  can be used as a path component on every platform, whatever the label was.
\<close>

theorem filesystem_key_portable:
  assumes "filesystem_key v d = Inr k"
  shows "validate_durable_record_id (JStr k) = Inr k"
proof (rule validate_durable_id)
  from assms obtain s where k: "k = (if portable_passthrough_key s then s
      else FILESYSTEM_KEY_PREFIX @ sha256_hexdigest (fs_key_material d s))"
    by (auto simp: filesystem_key_Inr)
  show "durable_id k"
    unfolding k using passthrough_durable encoded_key_durable [OF sha256_hexdigest_hex]
    by (cases "portable_passthrough_key s") simp_all
qed

theorem filesystem_key_portable_witness:
  "validate_durable_record_id (JStr ''job_1'') = Inr ''job_1''"
  using filesystem_key_portable [of "JStr ''job_1''" "''label''" "''job_1''"]
  by (simp add: filesystem_key_Inr FILESYSTEM_KEY_DOMAIN_def portable_passthrough_key_def
      validate_durable_record_id_def DURABLE_RECORD_ID_MAX_BYTES_def
      DURABLE_RECORD_ID_PATTERN_def durable_first_char_def durable_char_def
      WINDOWS_RESERVED_DEVICE_BASENAMES_def FILESYSTEM_KEY_PREFIX_def utf8_char_def)

text \<open>UTF-8 is injective, and a domain holds no NUL, so distinct labels have distinct key material.\<close>

lemma utf8_char_lead:
  "\<exists>b bs. utf8_char c = b # bs \<and> (if of_char c < (128 :: nat) then b = c \<and> bs = [] else 128 \<le> (of_char b :: nat)
     \<and> bs = [char_of (128 + of_char c mod 64 :: nat)] \<and> (of_char b :: nat) = 192 + of_char c div 64)"
proof -
  have "(of_char c :: nat) < 256" by simp
  then have "(of_char c :: nat) div 64 < 4" by (simp add: div_less_iff_less_mult)
  then show ?thesis by (simp add: utf8_char_def Let_def)
qed

lemma utf8_char_free:
  assumes "utf8_char c @ x = utf8_char d @ y"
  shows "c = d \<and> x = y"
proof (cases "of_char c < (128 :: nat)")
  case True
  then show ?thesis using assms utf8_char_lead [of c] utf8_char_lead [of d] by (auto split: if_splits)
next
  case False
  then have d: "\<not> of_char d < (128 :: nat)"
    using assms utf8_char_lead [of c] utf8_char_lead [of d] by (auto split: if_splits)
  have m: "128 + of_char e mod 64 < (256 :: nat)" for e :: char
    using mod_less_divisor [of 64 "of_char e :: nat"] by linarith
  from False d assms utf8_char_lead [of c] utf8_char_lead [of d]
  have q: "(of_char c :: nat) div 64 = of_char d div 64" and x: "x = y"
    and e: "char_of (128 + of_char c mod 64 :: nat) = (char_of (128 + of_char d mod 64 :: nat) :: char)" by auto
  have "(of_char c :: nat) mod 64 = of_char d mod 64"
    using arg_cong [OF e, of "of_char :: char \<Rightarrow> nat"] m [of c] m [of d] by simp
  with q have "(of_char c :: nat) = of_char d" by (metis div_mult_mod_eq)
  with x show ?thesis by simp
qed

lemma utf8_encode_inj: "utf8_encode s = utf8_encode t \<longleftrightarrow> s = t"
proof
  show "s = t" if "utf8_encode s = utf8_encode t"
    using that
  proof (induction s arbitrary: t)
    case Nil
    then show ?case using utf8_char_lead [of "hd t"] by (cases t) auto
  next
    case (Cons c s)
    then obtain d t' where t: "t = d # t'" using utf8_char_lead [of c] by (cases t) auto
    from utf8_char_free [of c "utf8_encode s" d "utf8_encode t'"] Cons t show ?case by auto
  qed
qed simp

lemma domain_no_nul: "FILESYSTEM_KEY_DOMAIN d \<Longrightarrow> char_of (0 :: nat) \<notin> set d"
  by (auto simp: FILESYSTEM_KEY_DOMAIN_def list_all_iff durable_char_def char_of_def split: list.splits)

lemma first_separator:
  "c \<notin> set x \<Longrightarrow> c \<notin> set x' \<Longrightarrow> x @ c # y = x' @ c # y' \<longleftrightarrow> x = x' \<and> y = y'"
  by (induction x arbitrary: x') (rename_tac x', case_tac x', auto)+

lemma fs_key_material_inj:
  assumes "FILESYSTEM_KEY_DOMAIN d" "FILESYSTEM_KEY_DOMAIN d'"
  shows "fs_key_material d s = fs_key_material d' t \<longleftrightarrow> d = d' \<and> s = t"
  using domain_no_nul [OF assms(1)] domain_no_nul [OF assms(2)]
  by (auto simp: fs_key_material_def first_separator utf8_encode_inj)

text \<open>
  C39: filesystem keys collide only where SHA-256 does. If two labels, each in a domain, get the same
  key, then either they are the same label, in the same domain or passed through unencoded in
  both, or both are encoded and their key materials are two different byte strings with
  the same SHA-256 digest. So two different labels of one domain share a key only through a hash collision, a
  readable label never shares one with an encoded label, and the domains are kept apart.
\<close>

theorem filesystem_key_collision_free:
  assumes "filesystem_key (JStr s) d = Inr k" and "filesystem_key (JStr t) d' = Inr k"
  shows "s = t \<and> (d = d' \<or> portable_passthrough_key s)
    \<or> \<not> portable_passthrough_key s \<and> \<not> portable_passthrough_key t
      \<and> fs_key_material d s \<noteq> fs_key_material d' t
      \<and> sha256_hexdigest (fs_key_material d s) = sha256_hexdigest (fs_key_material d' t)"
proof -
  have "FILESYSTEM_KEY_DOMAIN d" "FILESYSTEM_KEY_DOMAIN d'" using assms by (simp_all add: filesystem_key_Inr)
  from fs_key_material_inj [OF this] assms passthrough_not_encoded show ?thesis
    by (auto simp: filesystem_key_Inr split: if_splits)
qed

theorem filesystem_key_collision_free_witness:
  "\<exists>k. filesystem_key (JStr ''A'') ''label'' = Inr k \<and> \<not> portable_passthrough_key ''A''
     \<and> filesystem_key (JStr ''a'') ''label'' = Inr ''a'' \<and> k \<noteq> ''a''"
proof -
  note eqs = FILESYSTEM_KEY_DOMAIN_def portable_passthrough_key_def validate_durable_record_id_def
    DURABLE_RECORD_ID_MAX_BYTES_def DURABLE_RECORD_ID_PATTERN_def durable_first_char_def durable_char_def
    WINDOWS_RESERVED_DEVICE_BASENAMES_def FILESYSTEM_KEY_PREFIX_def utf8_char_def
  have a: "filesystem_key (JStr ''a'') ''label'' = Inr ''a''" by (simp add: filesystem_key_Inr eqs)
  have A: "\<not> portable_passthrough_key ''A''" by (simp add: eqs)
  obtain k where k: "filesystem_key (JStr ''A'') ''label'' = Inr k"
    by (simp add: filesystem_key_Inr eqs)
  have "k \<noteq> ''a''"
  proof
    assume "k = ''a''"
    with k have "filesystem_key (JStr ''A'') ''label'' = Inr ''a''" by simp
    from filesystem_key_collision_free [OF this a] show False by (simp add: eqs)
  qed
  with k A a show ?thesis by blast
qed

end
