(* ===== verification/StorageTypes.thy ===== *)
theory StorageTypes
  imports Identifiers
begin

text \<open>
  Wire types, limits and error vocabulary of the storage admission policy:
  \<^verbatim>\<open>storage_policy_types.py\<close>. The records keep the dataclasses' fields; a prefix keeps the
  selectors of different records apart. \<open>details\<close> mappings are JSON dictionaries, and an
  absent mapping is the empty one, as \<^verbatim>\<open>dict(details or {})\<close> makes it.
\<close>

datatype StorageReason =
    HEALTHY | RESERVED | RESERVATION_IDEMPOTENT | RESERVATION_RELEASED | RESERVATION_ABSENT
  | RECONCILED | JOB_RESERVATION_EXCEEDED | INVALID_REQUEST | RESERVATION_CONFLICT
  | PER_JOB_LIMIT | CORE_HIGH_WATER | SPOOL_HIGH_WATER | TOTAL_HIGH_WATER
  | FILESYSTEM_FREE_RESERVE | LEDGER_MALFORMED | LEDGER_OVERSIZED | LEDGER_UNSAFE
  | LEDGER_CAPACITY | LOCK_TIMEOUT | PERSISTENCE_FAILURE | SCAN_ROOT_INVALID
  | SCAN_UNSAFE_ENTRY | SCAN_CHANGED | SCAN_IO_ERROR | SCAN_ENTRY_LIMIT | SCAN_DEPTH_LIMIT
  | SCAN_BYTE_LIMIT | FILESYSTEM_QUERY_FAILED

record StoragePolicyError =
  spe_reason :: StorageReason
  spe_message :: string
  spe_details :: "(string \<times> json) list"

definition policy_error :: "StorageReason \<Rightarrow> string \<Rightarrow> (string \<times> json) list \<Rightarrow> StoragePolicyError" where
  "policy_error r m d = \<lparr>spe_reason = r, spe_message = m, spe_details = d\<rparr>"

lemma policy_error_simps [simp]:
  "spe_reason (policy_error r m d) = r"
  "spe_message (policy_error r m d) = m"
  "spe_details (policy_error r m d) = d"
  by (simp_all add: policy_error_def)

text \<open>
  What a storage operation can raise: a \<open>StoragePolicyError\<close>, which the public operations
  catch and turn into a denied decision, or a \<^verbatim>\<open>ValueError\<close> or \<^verbatim>\<open>TypeError\<close>, which escapes to the caller.
\<close>

datatype storage_exn = PolicyExn StoragePolicyError | ValueExn string | TypeExn string

definition lift_policy :: "StoragePolicyError + 'a \<Rightarrow> storage_exn + 'a" where
  "lift_policy r = (case r of Inl e \<Rightarrow> Inl (PolicyExn e) | Inr x \<Rightarrow> Inr x)"

lemma lift_policy_Inr [result_iff]: "lift_policy r = Inr x \<longleftrightarrow> r = Inr x"
  by (cases r) (simp_all add: lift_policy_def)

lemma lift_policy_simps [simp]:
  "lift_policy (Inr x) = Inr x"
  "lift_policy (Inl e) = Inl (PolicyExn e)"
  by (simp_all add: lift_policy_def)

record StorageLimits =
  core_high_water_bytes :: int
  spool_high_water_bytes :: int
  total_high_water_bytes :: int
  minimum_free_bytes :: int
  max_job_reservation_bytes :: int
  max_scan_entries :: int
  max_scan_depth :: int
  max_scan_accounted_bytes :: int
  max_ledger_bytes :: int
  max_reservations :: int
  lock_timeout_seconds :: rat

definition integer_fields :: "StorageLimits \<Rightarrow> (string \<times> int) list" where
  "integer_fields l =
     [(''core_high_water_bytes'', core_high_water_bytes l),
      (''spool_high_water_bytes'', spool_high_water_bytes l),
      (''total_high_water_bytes'', total_high_water_bytes l),
      (''minimum_free_bytes'', minimum_free_bytes l),
      (''max_job_reservation_bytes'', max_job_reservation_bytes l),
      (''max_scan_entries'', max_scan_entries l),
      (''max_scan_depth'', max_scan_depth l),
      (''max_scan_accounted_bytes'', max_scan_accounted_bytes l),
      (''max_ledger_bytes'', max_ledger_bytes l),
      (''max_reservations'', max_reservations l)]"

definition positive_fields :: "StorageLimits \<Rightarrow> (string \<times> int) list" where
  "positive_fields l =
     [(''core_high_water_bytes'', core_high_water_bytes l),
      (''spool_high_water_bytes'', spool_high_water_bytes l),
      (''total_high_water_bytes'', total_high_water_bytes l),
      (''max_job_reservation_bytes'', max_job_reservation_bytes l),
      (''max_scan_entries'', max_scan_entries l),
      (''max_scan_depth'', max_scan_depth l),
      (''max_scan_accounted_bytes'', max_scan_accounted_bytes l),
      (''max_ledger_bytes'', max_ledger_bytes l),
      (''max_reservations'', max_reservations l)]"

text \<open>
  \<^verbatim>\<open>__post_init__\<close> of a value whose fields have the types the class declares: its checks \<^verbatim>\<open>type(value) is not int\<close> and
  \<^verbatim>\<open>isinstance(value, (int, float))\<close>, which refuse booleans and other objects, are the types of the record here.
\<close>

definition StorageLimits_post_init :: "StorageLimits \<Rightarrow> py_error + unit" where
  "StorageLimits_post_init l =
     rbind (rall (\<lambda>(name, v). check (0 \<le> v)
              (ValueError (name @ '' must be a non-negative integer''))) (integer_fields l)) (\<lambda>_.
     rbind (rall (\<lambda>(name, v). check (v \<noteq> 0)
              (ValueError (name @ '' must be greater than zero''))) (positive_fields l)) (\<lambda>_.
     rbind (check (0 < lock_timeout_seconds l \<and> lock_timeout_seconds l \<le> 300)
              (ValueError ''lock_timeout_seconds must be greater than zero and at most 300'')) (\<lambda>_.
     rbind (check (\<not> total_high_water_bytes l
                      < max (core_high_water_bytes l) (spool_high_water_bytes l))
              (ValueError
                ''total_high_water_bytes must be at least each individual high-water limit'')) (\<lambda>_.
     check (\<not> max_scan_accounted_bytes l < max_job_reservation_bytes l)
        (ValueError
          ''max_scan_accounted_bytes must be at least max_job_reservation_bytes'')))))"

definition MIB :: int where "MIB = 1024 ^ 2"
definition GIB :: int where "GIB = 1024 ^ 3"
definition TIB :: int where "TIB = 1024 ^ 4"

definition default_limits :: StorageLimits where
  "default_limits =
     \<lparr>core_high_water_bytes = 10 * GIB, spool_high_water_bytes = 100 * GIB,
      total_high_water_bytes = 110 * GIB, minimum_free_bytes = GIB,
      max_job_reservation_bytes = 10 * GIB, max_scan_entries = 1000000, max_scan_depth = 64,
      max_scan_accounted_bytes = 2 * TIB, max_ledger_bytes = 8 * MIB,
      max_reservations = 50000, lock_timeout_seconds = 5\<rparr>"

record ReservationRecord =
  rr_job_id :: string
  rr_core_bytes :: int
  rr_spool_bytes :: int
  rr_created_at :: string

definition ReservationRecord_to_dict :: "ReservationRecord \<Rightarrow> json" where
  "ReservationRecord_to_dict r =
     JObj [(''job_id'', JStr (rr_job_id r)), (''core_bytes'', JInt (rr_core_bytes r)),
           (''spool_bytes'', JInt (rr_spool_bytes r)), (''created_at'', JStr (rr_created_at r))]"

record TreeUsage =
  tu_root :: string
  tu_bytes :: int
  tu_files :: int
  tu_links :: int
  tu_directories :: int
  tu_entries :: int

definition TreeUsage_to_dict :: "TreeUsage \<Rightarrow> json" where
  "TreeUsage_to_dict u =
     JObj [(''root'', JStr (tu_root u)), (''bytes'', JInt (tu_bytes u)),
           (''files'', JInt (tu_files u)), (''links'', JInt (tu_links u)),
           (''directories'', JInt (tu_directories u)), (''entries'', JInt (tu_entries u)),
           (''complete'', JBool True)]"

record StorageTreeSnapshot =
  sts_core :: TreeUsage
  sts_spool :: TreeUsage

record VolumeStatus =
  vs_volume_id :: string
  vs_storage_families :: "string list"
  vs_free_bytes :: int
  vs_reserved_bytes :: int
  vs_available_after_reservations_bytes :: int
  vs_minimum_free_bytes :: int

definition VolumeStatus_healthy :: "VolumeStatus \<Rightarrow> bool" where
  "VolumeStatus_healthy v \<longleftrightarrow> vs_available_after_reservations_bytes v \<ge> vs_minimum_free_bytes v"

record StorageStatus =
  ss_healthy :: bool
  ss_reason :: StorageReason
  ss_core :: TreeUsage
  ss_spool :: TreeUsage
  ss_reserved_core_bytes :: int
  ss_reserved_spool_bytes :: int
  ss_reservation_count :: nat
  ss_ledger_generation :: int
  ss_volumes :: "VolumeStatus list"
  ss_limits :: StorageLimits

record StorageDecision =
  sd_allowed :: bool
  sd_reason :: StorageReason
  sd_message :: string
  sd_status :: "StorageStatus option"
  sd_details :: "(string \<times> json) list"

record LedgerState =
  ls_generation :: int
  ls_reservations :: "ReservationRecord list"

definition error_decision :: "StoragePolicyError \<Rightarrow> StorageDecision" where
  "error_decision e =
     \<lparr>sd_allowed = False, sd_reason = spe_reason e, sd_message = spe_message e,
      sd_status = None, sd_details = spe_details e\<rparr>"

section \<open>Validated limits\<close>

lemma StorageLimits_post_init_iff:
  "StorageLimits_post_init l = Inr u \<longleftrightarrow>
     (\<forall>(n, v) \<in> set (integer_fields l). 0 \<le> v) \<and> (\<forall>(n, v) \<in> set (positive_fields l). v \<noteq> 0)
     \<and> 0 < lock_timeout_seconds l \<and> lock_timeout_seconds l \<le> 300
     \<and> max (core_high_water_bytes l) (spool_high_water_bytes l) \<le> total_high_water_bytes l
     \<and> max_job_reservation_bytes l \<le> max_scan_accounted_bytes l"
  by (auto simp: StorageLimits_post_init_def result_iff not_less split: prod.splits)

abbreviation valid_limits :: "StorageLimits \<Rightarrow> bool" where
  "valid_limits l \<equiv> StorageLimits_post_init l = Inr ()"

lemma valid_limits_bounds:
  assumes "valid_limits l"
  shows "0 < max_scan_entries l" "0 < max_scan_depth l" "0 < max_scan_accounted_bytes l"
    "0 < max_job_reservation_bytes l" "0 < max_reservations l"
    "max_job_reservation_bytes l \<le> max_scan_accounted_bytes l"
  using assms unfolding StorageLimits_post_init_iff positive_fields_def integer_fields_def
  by (simp_all only: list.set ball_simps prod.case simp_thms) linarith+

lemma default_limits_valid: "valid_limits default_limits"
  unfolding StorageLimits_post_init_iff positive_fields_def integer_fields_def default_limits_def
    MIB_def GIB_def TIB_def
  by simp

end
