(* ===== verification/StorageScan.thy ===== *)
theory StorageScan
  imports StorageTypes
begin

text \<open>
  Bounded accounting of one storage tree: \<^verbatim>\<open>scan_tree\<close> of \<^verbatim>\<open>storage_policy.py\<close>. The filesystem
  is an input of the model: each directory lists the entries \<^verbatim>\<open>os.scandir\<close> yields together
  with the policy error, if any, that \<^verbatim>\<open>_scandir_verified\<close> or the iteration raises after them
  (a directory that cannot be opened yields none). The scan is the code's explicit-stack loop;
  the lemmas relate it to a recursive reference accounting.
\<close>

datatype fs_entry =
    EntryGone \<comment> \<open>\<^verbatim>\<open>stat\<close> raises \<^verbatim>\<open>FileNotFoundError\<close>\<close>
  | EntryStatError string \<comment> \<open>\<^verbatim>\<open>stat\<close> raises another \<^verbatim>\<open>OSError\<close> of this type name\<close>
  | EntryLink int \<comment> \<open>link or reparse point with its own \<^verbatim>\<open>st_size\<close>\<close>
  | EntryFile int \<comment> \<open>regular file with its \<^verbatim>\<open>st_size\<close>\<close>
  | EntryOther \<comment> \<open>any other file type\<close>
  | EntryDir "fs_entry list" "StoragePolicyError option"

datatype fs_root =
    RootFault StoragePolicyError \<comment> \<open>\<^verbatim>\<open>_safe_lstat(root)\<close> raises\<close>
  | RootNotDir
  | RootDir "fs_entry list" "StoragePolicyError option"

datatype link_policy = Reject | Count

lemma not_Reject [simp]: "p \<noteq> Reject \<longleftrightarrow> p = Count"
  by (cases p) simp_all

record scan_bounds =
  sb_root :: string
  sb_max_entries :: int
  sb_max_depth :: int
  sb_max_accounted_bytes :: int
  sb_link_policy :: link_policy

type_synonym pending_dir = "fs_entry list \<times> StoragePolicyError option \<times> int"

record scan_state =
  sc_total_bytes :: int
  sc_file_count :: int
  sc_link_count :: int
  sc_directory_count :: int
  sc_entry_count :: int
  sc_stack :: "pending_dir list"

definition root_detail :: "scan_bounds \<Rightarrow> string \<times> json" where
  "root_detail b = (''root'', JStr (sb_root b))"

definition byte_limit_error :: "scan_bounds \<Rightarrow> StoragePolicyError" where
  "byte_limit_error b =
     policy_error SCAN_BYTE_LIMIT ''storage tree exceeds the configured accounting byte limit''
       [root_detail b, (''max_accounted_bytes'', JInt (sb_max_accounted_bytes b))]"

text \<open>One iteration of the entry loop. The entry is counted before anything else is checked.\<close>

definition scan_entry ::
  "scan_bounds \<Rightarrow> int \<Rightarrow> fs_entry \<Rightarrow> scan_state \<Rightarrow> StoragePolicyError + scan_state" where
  "scan_entry b depth e st0 =
     (let st = st0\<lparr>sc_entry_count := sc_entry_count st0 + 1\<rparr> in
      if sc_entry_count st > sb_max_entries b
      then Inl (policy_error SCAN_ENTRY_LIMIT
                  ''storage tree exceeds the configured entry scan limit''
                  [root_detail b, (''max_entries'', JInt (sb_max_entries b))])
      else (case e of
        EntryGone \<Rightarrow>
          Inl (policy_error SCAN_CHANGED ''storage tree changed while it was being accounted''
                 [root_detail b])
      | EntryStatError name \<Rightarrow>
          Inl (policy_error SCAN_IO_ERROR ''storage entry could not be inspected''
                 [root_detail b, (''error'', JStr name)])
      | EntryLink n \<Rightarrow>
          if sb_link_policy b = Reject
          then Inl (policy_error SCAN_UNSAFE_ENTRY
                      ''storage tree contains a link or reparse point'' [root_detail b])
          else (let st = st\<lparr>sc_link_count := sc_link_count st + 1,
                            sc_total_bytes := sc_total_bytes st + max 0 n\<rparr> in
                if sc_total_bytes st > sb_max_accounted_bytes b
                then Inl (byte_limit_error b) else Inr st)
      | EntryDir es fault \<Rightarrow>
          if depth + 1 > sb_max_depth b
          then Inl (policy_error SCAN_DEPTH_LIMIT
                      ''storage tree exceeds the configured depth limit''
                      [root_detail b, (''max_depth'', JInt (sb_max_depth b))])
          else Inr (st\<lparr>sc_directory_count := sc_directory_count st + 1,
                       sc_stack := (es, fault, depth + 1) # sc_stack st\<rparr>)
      | EntryFile n \<Rightarrow>
          if n < 0
          then Inl (policy_error SCAN_UNSAFE_ENTRY ''storage entry reported a negative size''
                      [root_detail b])
          else (let st = st\<lparr>sc_file_count := sc_file_count st + 1,
                            sc_total_bytes := sc_total_bytes st + n\<rparr> in
                if sc_total_bytes st > sb_max_accounted_bytes b
                then Inl (byte_limit_error b) else Inr st)
      | EntryOther \<Rightarrow>
          Inl (policy_error SCAN_UNSAFE_ENTRY ''storage tree contains a non-regular entry''
                 [root_detail b])))"

definition scan_directory ::
  "scan_bounds \<Rightarrow> pending_dir \<Rightarrow> scan_state \<Rightarrow> StoragePolicyError + scan_state" where
  "scan_directory b d st =
     (case d of (es, fault, depth) \<Rightarrow>
        rbind (rfold (scan_entry b depth) es st)
          (\<lambda>st'. case fault of None \<Rightarrow> Inr st' | Some e \<Rightarrow> Inl e))"

fun entry_weight :: "fs_entry \<Rightarrow> nat" where
  "entry_weight (EntryDir es fault) = Suc (sum_list (map entry_weight es))"
| "entry_weight _ = 0"

definition dir_weight :: "pending_dir \<Rightarrow> nat" where
  "dir_weight d = Suc (sum_list (map entry_weight (fst d)))"

definition stack_weight :: "scan_state \<Rightarrow> nat" where
  "stack_weight st = sum_list (map dir_weight (sc_stack st))"

lemma scan_entry_weight:
  "scan_entry b d e st = Inr st' \<Longrightarrow> stack_weight st' = stack_weight st + entry_weight e"
  by (cases e) (auto simp: scan_entry_def stack_weight_def dir_weight_def Let_def split: if_splits)

lemma rfold_scan_entry_weight:
  "rfold (scan_entry b d) es st = Inr st' \<Longrightarrow>
     stack_weight st' = stack_weight st + sum_list (map entry_weight es)"
  by (induction es arbitrary: st) (auto simp: result_iff dest!: scan_entry_weight)

lemma scan_directory_weight:
  "scan_directory b d st = Inr st' \<Longrightarrow> stack_weight st' < stack_weight st + dir_weight d"
  by (cases d) (auto simp: scan_directory_def result_iff dir_weight_def
      dest!: rfold_scan_entry_weight split: option.splits)

text \<open>The \<^verbatim>\<open>while stack\<close> loop: pop the newest directory, scan it, push its subdirectories.\<close>

function scan_loop :: "scan_bounds \<Rightarrow> scan_state \<Rightarrow> StoragePolicyError + scan_state" where
  "scan_loop b st =
     (case sc_stack st of
        [] \<Rightarrow> Inr st
      | d # rest \<Rightarrow>
          (case scan_directory b d (st\<lparr>sc_stack := rest\<rparr>) of
             Inl e \<Rightarrow> Inl e
           | Inr st' \<Rightarrow> scan_loop b st'))"
  by pat_completeness auto
termination
proof (relation "measure (\<lambda>(b, st). stack_weight st)")
  fix b st d rest st'
  assume "sc_stack st = d # rest" and "scan_directory b d (st\<lparr>sc_stack := rest\<rparr>) = Inr st'"
  then show "((b, st'), b, st) \<in> measure (\<lambda>(b, st). stack_weight st)"
    by (auto simp: stack_weight_def dest!: scan_directory_weight)
qed simp

declare scan_loop.simps [simp del]

definition require_positive_bound :: "string \<Rightarrow> int \<Rightarrow> storage_exn + unit" where
  "require_positive_bound name v =
     check (\<not> v \<le> 0) (ValueExn (name @ '' must be a positive integer''))"

definition initial_scan :: "fs_entry list \<Rightarrow> StoragePolicyError option \<Rightarrow> scan_state" where
  "initial_scan es fault =
     \<lparr>sc_total_bytes = 0, sc_file_count = 0, sc_link_count = 0, sc_directory_count = 1,
      sc_entry_count = 0, sc_stack = [(es, fault, 0)]\<rparr>"

definition scan_usage :: "string \<Rightarrow> scan_state \<Rightarrow> TreeUsage" where
  "scan_usage rt st =
     \<lparr>tu_root = rt, tu_bytes = sc_total_bytes st, tu_files = sc_file_count st,
      tu_links = sc_link_count st, tu_directories = sc_directory_count st,
      tu_entries = sc_entry_count st\<rparr>"

definition scan_tree ::
  "string \<Rightarrow> fs_root \<Rightarrow> int \<Rightarrow> int \<Rightarrow> int \<Rightarrow> link_policy \<Rightarrow> storage_exn + TreeUsage" where
  "scan_tree rt tree max_entries max_depth max_accounted_bytes policy =
     rbind (require_positive_bound ''max_entries'' max_entries) (\<lambda>_.
     rbind (require_positive_bound ''max_depth'' max_depth) (\<lambda>_.
     rbind (require_positive_bound ''max_accounted_bytes'' max_accounted_bytes) (\<lambda>_.
       (case tree of
          RootFault e \<Rightarrow> Inl (PolicyExn e)
        | RootNotDir \<Rightarrow>
            Inl (PolicyExn (policy_error SCAN_ROOT_INVALID ''storage root is not a directory''
                   [(''root'', JStr rt)]))
        | RootDir es fault \<Rightarrow>
            (case scan_loop
                \<lparr>sb_root = rt, sb_max_entries = max_entries, sb_max_depth = max_depth,
                 sb_max_accounted_bytes = max_accounted_bytes, sb_link_policy = policy\<rparr>
                (initial_scan es fault) of
               Inl e \<Rightarrow> Inl (PolicyExn e)
             | Inr st \<Rightarrow> Inr (scan_usage rt st))))))"

section \<open>Reference accounting\<close>

text \<open>What a complete walk of the tree would add up, with no bounds and no order.\<close>

fun entry_bytes :: "fs_entry \<Rightarrow> int" where
  "entry_bytes (EntryLink n) = max 0 n"
| "entry_bytes (EntryFile n) = n"
| "entry_bytes (EntryDir es fault) = sum_list (map entry_bytes es)"
| "entry_bytes _ = 0"

fun entry_files :: "fs_entry \<Rightarrow> int" where
  "entry_files (EntryFile n) = 1"
| "entry_files (EntryDir es fault) = sum_list (map entry_files es)"
| "entry_files _ = 0"

fun entry_links :: "fs_entry \<Rightarrow> int" where
  "entry_links (EntryLink n) = 1"
| "entry_links (EntryDir es fault) = sum_list (map entry_links es)"
| "entry_links _ = 0"

fun entry_dirs :: "fs_entry \<Rightarrow> int" where
  "entry_dirs (EntryDir es fault) = 1 + sum_list (map entry_dirs es)"
| "entry_dirs _ = 0"

fun entry_count :: "fs_entry \<Rightarrow> int" where
  "entry_count (EntryDir es fault) = 1 + sum_list (map entry_count es)"
| "entry_count _ = 1"

text \<open>A tree the scan accepts apart from its totals, at a given depth of the directory.\<close>

fun entry_ok :: "link_policy \<Rightarrow> int \<Rightarrow> int \<Rightarrow> fs_entry \<Rightarrow> bool" where
  "entry_ok p maxd d (EntryLink n) \<longleftrightarrow> p = Count"
| "entry_ok p maxd d (EntryFile n) \<longleftrightarrow> 0 \<le> n"
| "entry_ok p maxd d (EntryDir es fault) \<longleftrightarrow>
     d + 1 \<le> maxd \<and> fault = None \<and> list_all (entry_ok p maxd (d + 1)) es"
| "entry_ok p maxd d _ \<longleftrightarrow> False"

lemma entry_count_ge_1: "1 \<le> entry_count e"
proof (induction e)
  case (EntryDir es fault)
  then have "0 \<le> sum_list (map entry_count es)" by (intro sum_list_nonneg) force
  then show ?case by simp
qed simp_all

lemma entry_count_pos: "0 \<le> entry_count e"
  using entry_count_ge_1 [of e] by simp

lemma entry_bytes_nonneg: "entry_ok p m d e \<Longrightarrow> 0 \<le> entry_bytes e"
proof (induction e arbitrary: d)
  case (EntryDir es fault)
  then have "\<forall>e \<in> set es. 0 \<le> entry_bytes e" by (auto simp: list_all_iff)
  then have "0 \<le> sum_list (map entry_bytes es)" by (intro sum_list_nonneg) auto
  then show ?case by simp
qed simp_all

abbreviation sum_on :: "('a \<Rightarrow> int) \<Rightarrow> 'a list \<Rightarrow> int" where
  "sum_on f xs \<equiv> sum_list (map f xs)"

abbreviation pending :: "(fs_entry \<Rightarrow> int) \<Rightarrow> scan_state \<Rightarrow> int" where
  "pending f st \<equiv> sum_on (\<lambda>d. sum_on f (fst d)) (sc_stack st)"

definition pending_ok :: "scan_bounds \<Rightarrow> pending_dir \<Rightarrow> bool" where
  "pending_ok b d \<longleftrightarrow>
     fst (snd d) = None \<and>
     list_all (entry_ok (sb_link_policy b) (sb_max_depth b) (snd (snd d))) (fst d)"

definition within_bounds :: "scan_bounds \<Rightarrow> scan_state \<Rightarrow> bool" where
  "within_bounds b st \<longleftrightarrow>
     sc_entry_count st \<le> sb_max_entries b \<and> sc_total_bytes st \<le> sb_max_accounted_bytes b"

text \<open>
  The remaining work can be completed: everything pending is acceptable and the totals with
  everything pending added stay within the bounds.
\<close>

definition completable :: "scan_bounds \<Rightarrow> scan_state \<Rightarrow> bool" where
  "completable b st \<longleftrightarrow>
     list_all (pending_ok b) (sc_stack st)
     \<and> sc_entry_count st + pending entry_count st \<le> sb_max_entries b
     \<and> sc_total_bytes st + pending entry_bytes st \<le> sb_max_accounted_bytes b"

text \<open>The totals that never change while work moves from the stack into the counters.\<close>

definition scan_totals :: "scan_state \<Rightarrow> int list" where
  "scan_totals st =
     [sc_total_bytes st + pending entry_bytes st, sc_file_count st + pending entry_files st,
      sc_link_count st + pending entry_links st, sc_directory_count st + pending entry_dirs st,
      sc_entry_count st + pending entry_count st]"

lemma pending_count_nonneg: "0 \<le> pending entry_count st"
  by (auto intro!: sum_list_nonneg entry_count_pos)

lemma ok_bytes_nonneg:
  assumes "list_all (entry_ok p m d) es"
  shows "0 \<le> sum_on entry_bytes es"
proof (rule sum_list_nonneg)
  fix x
  assume "x \<in> set (map entry_bytes es)"
  with assms show "0 \<le> x" by (auto simp: list_all_iff intro: entry_bytes_nonneg)
qed

lemma pending_bytes_nonneg:
  assumes "list_all (pending_ok b) (sc_stack st)"
  shows "0 \<le> pending entry_bytes st"
proof (rule sum_list_nonneg)
  fix x
  assume "x \<in> set (map (\<lambda>d. sum_on entry_bytes (fst d)) (sc_stack st))"
  then obtain d where "d \<in> set (sc_stack st)" and x: "x = sum_on entry_bytes (fst d)"
    by auto
  with assms have "list_all (entry_ok (sb_link_policy b) (sb_max_depth b) (snd (snd d))) (fst d)"
    by (auto simp: list_all_iff pending_ok_def)
  then show "0 \<le> x" unfolding x by (rule ok_bytes_nonneg)
qed

text \<open>A directory in the middle of its entry loop: the unread entries on top of the stack.\<close>

abbreviation resume :: "fs_entry list \<Rightarrow> int \<Rightarrow> scan_state \<Rightarrow> scan_state" where
  "resume es d st \<equiv> st\<lparr>sc_stack := (es, None, d) # sc_stack st\<rparr>"

lemma scan_entry_step:
  assumes "within_bounds b st"
  shows "case scan_entry b d e st of
      Inl _ \<Rightarrow> \<not> completable b (resume (e # es) d st)
    | Inr st' \<Rightarrow> within_bounds b st' \<and> scan_totals (resume es d st') = scan_totals (resume (e # es) d st)
        \<and> (completable b (resume es d st') \<longleftrightarrow> completable b (resume (e # es) d st))"
proof -
  have es: "list_all (entry_ok (sb_link_policy b) (sb_max_depth b) d) es \<Longrightarrow> 0 \<le> sum_on entry_bytes es"
    by (rule ok_bytes_nonneg)
  have cs: "0 \<le> sum_on entry_count es"
    by (auto intro!: sum_list_nonneg entry_count_pos)
  note facts = es cs pending_count_nonneg [of st] pending_bytes_nonneg [of b st] assms entry_count_ge_1 [of e]
  show ?thesis
    by (cases e; use facts in \<open>auto simp: scan_entry_def Let_def completable_def within_bounds_def
      scan_totals_def pending_ok_def algebra_simps\<close>)
qed

lemma rfold_scan_entry_step:
  assumes "within_bounds b st"
  shows "case rfold (scan_entry b d) es st of
      Inl _ \<Rightarrow> \<not> completable b (resume es d st)
    | Inr st' \<Rightarrow> within_bounds b st' \<and> scan_totals st' = scan_totals (resume es d st)
        \<and> (completable b st' \<longleftrightarrow> completable b (resume es d st))"
  using assms
proof (induction es arbitrary: st)
  case Nil
  then show ?case
    by (simp add: scan_totals_def completable_def pending_ok_def)
next
  case (Cons e es)
  show ?case
  proof (cases "scan_entry b d e st")
    case (Inl err)
    with scan_entry_step [OF Cons.prems, where d = d and e = e and es = es] show ?thesis by simp
  next
    case (Inr st1)
    with scan_entry_step [OF Cons.prems, where d = d and e = e and es = es] have
      w: "within_bounds b st1" and t: "scan_totals (resume es d st1) = scan_totals (resume (e # es) d st)"
      and c: "completable b (resume es d st1) \<longleftrightarrow> completable b (resume (e # es) d st)"
      by simp_all
    from Cons.IH [OF w] show ?thesis
      by (simp only: rfold.simps Inr rbind_simps t c)
  qed
qed

lemma scan_directory_step:
  assumes "within_bounds b st" and "sc_stack st = d # rest"
  shows "case scan_directory b d (st\<lparr>sc_stack := rest\<rparr>) of
      Inl _ \<Rightarrow> \<not> completable b st
    | Inr st' \<Rightarrow> within_bounds b st' \<and> scan_totals st' = scan_totals st
        \<and> (completable b st' \<longleftrightarrow> completable b st)"
proof -
  obtain es fault depth where d: "d = (es, fault, depth)" by (cases d)
  have w: "within_bounds b (st\<lparr>sc_stack := rest\<rparr>)"
    using assms(1) by (simp add: within_bounds_def)
  have same: "scan_totals (resume es depth (st\<lparr>sc_stack := rest\<rparr>)) = scan_totals st"
    using assms(2) by (simp add: scan_totals_def d)
  have compl: "fault = None \<Longrightarrow>
      completable b (resume es depth (st\<lparr>sc_stack := rest\<rparr>)) \<longleftrightarrow> completable b st"
    and faulty: "fault \<noteq> None \<Longrightarrow> \<not> completable b st"
    and weaker: "completable b st \<Longrightarrow> completable b (resume es depth (st\<lparr>sc_stack := rest\<rparr>))"
    using assms(2) by (auto simp: completable_def pending_ok_def d)
  from rfold_scan_entry_step [OF w, where d = depth and es = es] same compl faulty weaker show ?thesis
    unfolding scan_directory_def d
    by (cases "rfold (scan_entry b depth) es (st\<lparr>sc_stack := rest\<rparr>)"; cases fault) auto
qed

lemma scan_loop_exact:
  assumes "within_bounds b st"
  shows "case scan_loop b st of
      Inl _ \<Rightarrow> \<not> completable b st
    | Inr st' \<Rightarrow> completable b st \<and> sc_stack st' = [] \<and> scan_totals st' = scan_totals st"
  using assms
proof (induction b st rule: scan_loop.induct)
  case (1 b st)
  show ?case
  proof (cases "sc_stack st")
    case Nil
    with "1.prems" show ?thesis
      by (simp add: scan_loop.simps [of b st] completable_def within_bounds_def)
  next
    case (Cons d rest)
    show ?thesis
    proof (cases "scan_directory b d (st\<lparr>sc_stack := rest\<rparr>)")
      case (Inl e)
      with scan_directory_step [OF "1.prems" Cons] Cons show ?thesis
        by (simp add: scan_loop.simps [of b st])
    next
      case (Inr st1)
      with scan_directory_step [OF "1.prems" Cons] have
        w: "within_bounds b st1" and t: "scan_totals st1 = scan_totals st"
        and c: "completable b st1 \<longleftrightarrow> completable b st" by simp_all
      from "1.IH" [OF Cons Inr w] show ?thesis
        by (simp only: scan_loop.simps [of b st] Cons Inr list.case sum.case t c)
    qed
  qed
qed

definition tree_fits :: "fs_root \<Rightarrow> int \<Rightarrow> int \<Rightarrow> int \<Rightarrow> link_policy \<Rightarrow> bool" where
  "tree_fits tree max_entries max_depth max_bytes p =
     (case tree of
        RootDir es fault \<Rightarrow>
          fault = None \<and> list_all (entry_ok p max_depth 0) es
          \<and> sum_on entry_count es \<le> max_entries \<and> sum_on entry_bytes es \<le> max_bytes
      | _ \<Rightarrow> False)"

definition reference_usage :: "string \<Rightarrow> fs_root \<Rightarrow> TreeUsage" where
  "reference_usage rt tree =
     (let es = (case tree of RootDir es _ \<Rightarrow> es | _ \<Rightarrow> []) in
      \<lparr>tu_root = rt, tu_bytes = sum_on entry_bytes es, tu_files = sum_on entry_files es,
       tu_links = sum_on entry_links es, tu_directories = 1 + sum_on entry_dirs es,
       tu_entries = sum_on entry_count es\<rparr>)"

lemma scan_tree_reference:
  assumes "0 < max_entries" and "0 < max_depth" and "0 < max_bytes"
  shows "if tree_fits tree max_entries max_depth max_bytes p
    then scan_tree rt tree max_entries max_depth max_bytes p = Inr (reference_usage rt tree)
    else (\<exists>e. scan_tree rt tree max_entries max_depth max_bytes p = Inl (PolicyExn e))"
proof (cases tree)
  case (RootDir es fault)
  let ?b = "\<lparr>sb_root = rt, sb_max_entries = max_entries, sb_max_depth = max_depth,
             sb_max_accounted_bytes = max_bytes, sb_link_policy = p\<rparr>"
  let ?st = "initial_scan es fault"
  have w: "within_bounds ?b ?st"
    using assms by (simp add: within_bounds_def initial_scan_def)
  have c: "completable ?b ?st \<longleftrightarrow> tree_fits tree max_entries max_depth max_bytes p"
    by (simp add: completable_def pending_ok_def initial_scan_def tree_fits_def RootDir conj_assoc)
  from scan_loop_exact [OF w] assms show ?thesis
    unfolding c
    by (cases "scan_loop ?b ?st")
      (auto simp: scan_tree_def require_positive_bound_def RootDir scan_totals_def
        initial_scan_def scan_usage_def reference_usage_def)
qed (use assms in \<open>simp_all add: scan_tree_def require_positive_bound_def tree_fits_def\<close>)

text \<open>
  C33: with positive bounds, the explicit-stack scan succeeds exactly on the trees that have no
  unsafe or vanished entry and stay within the entry, depth and byte bounds, and then reports
  precisely the totals of a complete recursive walk; otherwise it reports a policy error.
\<close>

theorem scan_tree_equals_reference:
  assumes "0 < max_entries" and "0 < max_depth" and "0 < max_bytes"
  shows "if tree_fits tree max_entries max_depth max_bytes p
    then scan_tree rt tree max_entries max_depth max_bytes p = Inr (reference_usage rt tree)
    else (\<exists>e. scan_tree rt tree max_entries max_depth max_bytes p = Inl (PolicyExn e))"
  by (rule scan_tree_reference [OF assms])

theorem scan_tree_equals_reference_witness:
  "scan_tree ''/core'' (RootDir [EntryFile 7, EntryDir [EntryFile 5] None] None) 10 2 100 Reject
     = Inr \<lparr>tu_root = ''/core'', tu_bytes = 12, tu_files = 2, tu_links = 0,
            tu_directories = 2, tu_entries = 3\<rparr>"
  using scan_tree_equals_reference [of 10 2 100
      "RootDir [EntryFile 7, EntryDir [EntryFile 5] None] None" Reject "''/core''"]
  by (simp add: tree_fits_def reference_usage_def)

end
