(* ===== verification/StorageLedgerCodec.thy ===== *)
theory StorageLedgerCodec
  imports StorageTypes
begin

text \<open>
  Content rules of the durable reservation ledger: \<^verbatim>\<open>storage_ledger_codec.py\<close>. The decoder works
  on the parsed JSON document. \<^verbatim>\<open>datetime.fromisoformat\<close> is an argument of the definitions that
  use it (\<open>None\<close> for its \<^verbatim>\<open>ValueError\<close>, otherwise the UTC offset in seconds if the result is
  aware): the ledger only checks that a stored timestamp parses and is in UTC. A clock reading is
  represented by what the code uses of it, whether it is aware and its UTC ISO text.
\<close>

type_synonym iso_parser = "string \<Rightarrow> int option option"

record py_datetime =
  dt_aware :: bool
  dt_utc_iso :: string

definition LEDGER_SCHEMA :: string where
  "LEDGER_SCHEMA = ''clio-relay.storage-reservations.v1''"

definition validate_job_id :: "json \<Rightarrow> StoragePolicyError + string" where
  "validate_job_id job_id =
     (case validate_durable_record_id job_id of
        Inl _ \<Rightarrow> Inl (policy_error INVALID_REQUEST
                  ''job_id must be a lowercase portable durable record ID'' [])
      | Inr s \<Rightarrow> Inr s)"

definition validate_reservation_bytes :: "int \<Rightarrow> int \<Rightarrow> StorageLimits \<Rightarrow> StoragePolicyError + unit" where
  "validate_reservation_bytes core_bytes spool_bytes limits =
     rbind (rall (\<lambda>(name, v). check (0 \<le> v)
              (policy_error INVALID_REQUEST (name @ '' must be a non-negative integer'') []))
              [(''core_bytes'', core_bytes), (''spool_bytes'', spool_bytes)]) (\<lambda>_.
     let total = core_bytes + spool_bytes in
     rbind (check (total \<noteq> 0)
              (policy_error INVALID_REQUEST
                ''a storage reservation must request at least one byte'' [])) (\<lambda>_.
     check (\<not> total > max_job_reservation_bytes limits)
       (policy_error PER_JOB_LIMIT
         ''job storage reservation exceeds the configured per-job limit''
         [(''requested_bytes'', JInt total),
          (''max_job_reservation_bytes'', JInt (max_job_reservation_bytes limits))])))"

text \<open>\<^verbatim>\<open>s.replace(old, new)\<close>\<close>

function str_replace :: "string \<Rightarrow> string \<Rightarrow> string \<Rightarrow> string" where
  "str_replace old new [] = []"
| "str_replace old new (c # s) =
     (if old \<noteq> [] \<and> take (length old) (c # s) = old
      then new @ str_replace old new (drop (length old) (c # s))
      else c # str_replace old new s)"
  by pat_completeness auto
termination
  by (relation "measure (\<lambda>(old, new, s). length s)") (auto simp: neq_Nil_conv)

definition format_timestamp :: "py_datetime \<Rightarrow> StoragePolicyError + string" where
  "format_timestamp value =
     (if \<not> dt_aware value
      then Inl (policy_error INVALID_REQUEST
                  ''storage policy clock must return a timezone-aware datetime'' [])
      else Inr (str_replace ''+00:00'' ''Z'' (dt_utc_iso value)))"

definition parse_timestamp :: "iso_parser \<Rightarrow> json \<Rightarrow> StoragePolicyError + string" where
  "parse_timestamp fromisoformat value =
     (case as_str value of
        None \<Rightarrow> Inl (policy_error LEDGER_MALFORMED
                  ''reservation created_at must be an RFC 3339 UTC timestamp'' [])
      | Some s \<Rightarrow>
          if s = [] \<or> last s \<noteq> CHR ''Z''
          then Inl (policy_error LEDGER_MALFORMED
                      ''reservation created_at must be an RFC 3339 UTC timestamp'' [])
          else (case fromisoformat (butlast s @ ''+00:00'') of
                  None \<Rightarrow> Inl (policy_error LEDGER_MALFORMED ''reservation created_at is invalid'' [])
                | Some offset \<Rightarrow>
                    if offset \<noteq> Some 0
                    then Inl (policy_error LEDGER_MALFORMED
                                ''reservation created_at must use UTC'' [])
                    else Inr s))"

definition canonical_json :: "json \<Rightarrow> char list" where
  "canonical_json v = utf8_encode (dumps_canonical v)"

definition ledger_payload :: "json \<Rightarrow> int \<Rightarrow> json list \<Rightarrow> (string \<times> json) list" where
  "ledger_payload schema generation reservations =
     [(''schema'', schema), (''generation'', JInt generation), (''reservations'', JArr reservations)]"

definition ledger_checksum :: "(string \<times> json) list \<Rightarrow> string" where
  "ledger_checksum payload = ''sha256:'' @ sha256_hexdigest (canonical_json (JObj payload))"

definition ledger_envelope :: "LedgerState \<Rightarrow> json" where
  "ledger_envelope ledger =
     (let payload = ledger_payload (JStr LEDGER_SCHEMA) (ls_generation ledger)
                      (map ReservationRecord_to_dict (ls_reservations ledger))
      in JObj (payload @ [(''checksum'', JStr (ledger_checksum payload))]))"

definition encode_ledger :: "LedgerState \<Rightarrow> char list" where
  "encode_ledger ledger =
     utf8_encode (dumps_indent 0 (ledger_envelope ledger)) @ [char_of (10 :: nat)]"

definition malformed :: "string \<Rightarrow> StoragePolicyError" where
  "malformed m = policy_error LEDGER_MALFORMED m []"

text \<open>
  One record of the reservation loop. \<open>records\<close> are the records decoded so far; their job ids are
  the code's \<^verbatim>\<open>seen\<close> set.
\<close>

definition decode_record ::
  "iso_parser \<Rightarrow> StorageLimits \<Rightarrow> json \<Rightarrow> ReservationRecord list
     \<Rightarrow> StoragePolicyError + ReservationRecord list" where
  "decode_record fromisoformat limits raw_record records =
     (case as_obj raw_record of
        None \<Rightarrow> Inl (malformed ''storage reservation ledger contains an invalid record'')
      | Some d \<Rightarrow>
          if \<not> keys_are d [''job_id'', ''core_bytes'', ''spool_bytes'', ''created_at'']
          then Inl (malformed ''storage reservation ledger contains an invalid record'')
          else (case validate_job_id (doc_get d ''job_id'') of
            Inl _ \<Rightarrow> Inl (malformed ''storage reservation ledger contains an invalid job id'')
          | Inr job_id \<Rightarrow>
              if job_id \<in> set (map rr_job_id records)
              then Inl (malformed ''storage reservation ledger contains duplicate job ids'')
              else (case as_int (doc_get d ''core_bytes'') of
                None \<Rightarrow> Inl (malformed ''storage reservation core_bytes is invalid'')
              | Some core_bytes \<Rightarrow>
                  if core_bytes < 0 then Inl (malformed ''storage reservation core_bytes is invalid'')
                  else (case as_int (doc_get d ''spool_bytes'') of
                    None \<Rightarrow> Inl (malformed ''storage reservation spool_bytes is invalid'')
                  | Some spool_bytes \<Rightarrow>
                      if spool_bytes < 0
                      then Inl (malformed ''storage reservation spool_bytes is invalid'')
                      else if core_bytes + spool_bytes = 0
                      then Inl (malformed ''storage reservation cannot be empty'')
                      else if core_bytes + spool_bytes > max_job_reservation_bytes limits
                      then Inl (malformed ''stored reservation exceeds the configured per-job limit'')
                      else rbind (parse_timestamp fromisoformat (doc_get d ''created_at''))
                        (\<lambda>created_at. Inr (records @
                          [\<lparr>rr_job_id = job_id, rr_core_bytes = core_bytes,
                            rr_spool_bytes = spool_bytes, rr_created_at = created_at\<rparr>]))))))"

text \<open>
  \<^verbatim>\<open>hmac.compare_digest\<close> of two \<^verbatim>\<open>str\<close> raises a \<^verbatim>\<open>TypeError\<close> when one has a character outside ASCII; the expected
  checksum never has.
\<close>

definition compare_digest :: "string \<Rightarrow> string \<Rightarrow> storage_exn + bool" where
  "compare_digest x y =
     (if \<not> ascii x \<or> \<not> ascii y
      then Inl (TypeExn ''comparing strings with non-ASCII characters is not supported'')
      else Inr (x = y))"

definition checksum_matches :: "json \<Rightarrow> string \<Rightarrow> storage_exn + bool" where
  "checksum_matches checksum expected =
     (case as_str checksum of None \<Rightarrow> Inr False | Some c \<Rightarrow> compare_digest c expected)"

definition decode_ledger ::
  "iso_parser \<Rightarrow> json \<Rightarrow> StorageLimits \<Rightarrow> storage_exn + LedgerState" where
  "decode_ledger fromisoformat value limits =
     (case as_obj value of
        None \<Rightarrow> Inl (PolicyExn (malformed ''storage reservation ledger has an invalid envelope''))
      | Some envelope \<Rightarrow>
          if \<not> keys_are envelope [''schema'', ''generation'', ''reservations'', ''checksum'']
          then Inl (PolicyExn (malformed ''storage reservation ledger has an invalid envelope''))
          else if doc_get envelope ''schema'' \<noteq> JStr LEDGER_SCHEMA
          then Inl (PolicyExn (malformed ''storage reservation ledger has an unsupported schema''))
          else (case as_int (doc_get envelope ''generation'') of
            None \<Rightarrow> Inl (PolicyExn (malformed ''storage reservation ledger generation is invalid''))
          | Some generation \<Rightarrow>
              if generation < 0
              then Inl (PolicyExn (malformed ''storage reservation ledger generation is invalid''))
              else (case as_arr (doc_get envelope ''reservations'') of
                None \<Rightarrow> Inl (PolicyExn (malformed ''storage reservation ledger records must be a list''))
              | Some raw_reservations \<Rightarrow>
                  if int (length raw_reservations) > max_reservations limits
                  then Inl (PolicyExn (policy_error LEDGER_CAPACITY
                              ''storage reservation ledger exceeds its configured record limit''
                              [(''max_reservations'', JInt (max_reservations limits))]))
                  else rbind (checksum_matches (doc_get envelope ''checksum'')
                      (ledger_checksum (ledger_payload (doc_get envelope ''schema'') generation
                              raw_reservations))) (\<lambda>matches.
                    if \<not> matches
                    then Inl (PolicyExn (malformed
                                ''storage reservation ledger checksum does not match its content''))
                    else rbind (lift_policy (rfold (decode_record fromisoformat limits) raw_reservations []))
                      (\<lambda>records.
                        if map rr_job_id records \<noteq> sort (map rr_job_id records)
                        then Inl (PolicyExn (malformed
                          ''storage reservation ledger records are not in canonical order''))
                        else Inr \<lparr>ls_generation = generation, ls_reservations = records\<rparr>)))))"

section \<open>Well-formed ledgers\<close>

definition wf_record :: "iso_parser \<Rightarrow> StorageLimits \<Rightarrow> ReservationRecord \<Rightarrow> bool" where
  "wf_record fiso limits r \<longleftrightarrow>
     durable_id (rr_job_id r) \<and> 0 \<le> rr_core_bytes r \<and> 0 \<le> rr_spool_bytes r
     \<and> rr_core_bytes r + rr_spool_bytes r \<noteq> 0
     \<and> rr_core_bytes r + rr_spool_bytes r \<le> max_job_reservation_bytes limits
     \<and> parse_timestamp fiso (JStr (rr_created_at r)) = Inr (rr_created_at r)"

definition wf_ledger :: "iso_parser \<Rightarrow> StorageLimits \<Rightarrow> LedgerState \<Rightarrow> bool" where
  "wf_ledger fiso limits l \<longleftrightarrow>
     0 \<le> ls_generation l \<and> int (length (ls_reservations l)) \<le> max_reservations limits
     \<and> list_all (wf_record fiso limits) (ls_reservations l)
     \<and> sorted (map rr_job_id (ls_reservations l)) \<and> distinct (map rr_job_id (ls_reservations l))"

lemma validate_job_id_Inr [result_iff]:
  "validate_job_id v = Inr s \<longleftrightarrow> v = JStr s \<and> durable_id s"
  by (auto simp: validate_job_id_def result_iff validate_durable_id split: sum.splits)

lemma validate_reservation_bytes_Inr [result_iff]:
  "validate_reservation_bytes c s l = Inr u \<longleftrightarrow>
     0 \<le> c \<and> 0 \<le> s \<and> c + s \<noteq> 0 \<and> c + s \<le> max_job_reservation_bytes l"
  by (auto simp: validate_reservation_bytes_def result_iff Let_def)

lemma parse_timestamp_Inr:
  "parse_timestamp fiso v = Inr s \<Longrightarrow> parse_timestamp fiso (JStr s) = Inr s"
  by (auto simp: parse_timestamp_def split: option.splits if_splits)

lemma decode_record_Inr:
  assumes "decode_record fiso limits raw rs = Inr rs'"
  shows "\<exists>r. rs' = rs @ [r] \<and> wf_record fiso limits r \<and> rr_job_id r \<notin> set (map rr_job_id rs)"
  using assms
  by (auto simp: decode_record_def wf_record_def result_iff
      split: option.splits if_splits sum.splits dest: parse_timestamp_Inr)

lemma decode_record_to_dict:
  assumes "wf_record fiso limits r" and "rr_job_id r \<notin> set (map rr_job_id rs)"
  shows "decode_record fiso limits (ReservationRecord_to_dict r) rs = Inr (rs @ [r])"
  using assms
  by (simp add: decode_record_def ReservationRecord_to_dict_def wf_record_def keys_are_def
      doc_get_def dict_get_def validate_job_id_def validate_durable_id)

lemma rfold_decode_record_Inr:
  assumes "rfold (decode_record fiso limits) raws rs = Inr rs'"
    and "list_all (wf_record fiso limits) rs" and "distinct (map rr_job_id rs)"
  shows "list_all (wf_record fiso limits) rs' \<and> distinct (map rr_job_id rs')
    \<and> length rs' = length rs + length raws"
  using assms
proof (induction raws arbitrary: rs)
  case (Cons raw raws)
  then obtain rs1 where "decode_record fiso limits raw rs = Inr rs1"
    and rest: "rfold (decode_record fiso limits) raws rs1 = Inr rs'"
    by (auto simp: result_iff)
  with Cons.prems obtain r where "rs1 = rs @ [r]" "wf_record fiso limits r"
    "rr_job_id r \<notin> set (map rr_job_id rs)"
    by (auto dest: decode_record_Inr)
  with Cons.prems Cons.IH [OF rest] show ?case by auto
qed simp

lemma rfold_decode_record_to_dict:
  assumes "list_all (wf_record fiso limits) rs" and "distinct (map rr_job_id (ps @ rs))"
  shows "rfold (decode_record fiso limits) (map ReservationRecord_to_dict rs) ps = Inr (ps @ rs)"
  using assms
proof (induction rs arbitrary: ps)
  case (Cons r rs)
  then have "decode_record fiso limits (ReservationRecord_to_dict r) ps = Inr (ps @ [r])"
    by (intro decode_record_to_dict) auto
  with Cons show ?case by simp
qed simp

lemma checksum_ascii: "ascii (ledger_checksum p)"
proof -
  have "hex_digit c \<Longrightarrow> of_char c < (128 :: nat)" for c by (auto simp: hex_digit_def)
  with sha256_hexdigest_hex have "ascii (sha256_hexdigest v)" for v
    by (force simp: ascii_def all_hex_def list_all_iff)
  then show ?thesis by (simp add: ledger_checksum_def ascii_def)
qed

lemma decode_ledger_wf:
  assumes "decode_ledger fiso v limits = Inr l"
  shows "wf_ledger fiso limits l"
proof -
  from assms obtain raws where
    gen: "0 \<le> ls_generation l" and len: "int (length raws) \<le> max_reservations limits"
    and fold: "rfold (decode_record fiso limits) raws [] = Inr (ls_reservations l)"
    and srt: "map rr_job_id (ls_reservations l) = sort (map rr_job_id (ls_reservations l))"
    by (auto simp: decode_ledger_def result_iff not_less split: option.splits if_splits)
  from srt have "sorted (map rr_job_id (ls_reservations l))" by (metis sorted_sort)
  with gen len rfold_decode_record_Inr [OF fold] show ?thesis
    by (simp add: wf_ledger_def)
qed

lemma decode_ledger_envelope:
  assumes "wf_ledger fiso limits l"
  shows "decode_ledger fiso (ledger_envelope l) limits = Inr l"
proof -
  from assms have fold: "rfold (decode_record fiso limits)
      (map ReservationRecord_to_dict (ls_reservations l)) [] = Inr (ls_reservations l)"
    using rfold_decode_record_to_dict [of fiso limits "ls_reservations l" "[]"]
    by (simp add: wf_ledger_def)
  from assms have srt: "sort (map rr_job_id (ls_reservations l)) = map rr_job_id (ls_reservations l)"
    by (simp add: wf_ledger_def sorted_sort_id)
  from assms show ?thesis
    by (simp add: decode_ledger_def ledger_envelope_def ledger_payload_def Let_def keys_are_def
        doc_get_def dict_get_def fold srt wf_ledger_def insert_commute checksum_matches_def compare_digest_def
        checksum_ascii)
qed

text \<open>
  C32: writing a ledger and reading it back gives the same ledger, for every well-formed one; and
  whatever document the decoder accepts is a well-formed ledger: bounded record count, valid
  unique job identifiers in canonical order, positive per-job reservations within the limit.
\<close>

theorem ledger_round_trip:
  "(wf_ledger fiso limits l \<longleftrightarrow> decode_ledger fiso (ledger_envelope l) limits = Inr l)
   \<and> (\<forall>v l'. decode_ledger fiso v limits = Inr l' \<longrightarrow> wf_ledger fiso limits l')"
  using decode_ledger_envelope decode_ledger_wf by blast

definition demo_record :: ReservationRecord where
  "demo_record = \<lparr>rr_job_id = ''job_a'', rr_core_bytes = 10, rr_spool_bytes = 20, rr_created_at = ''2026-01-01T00:00:00Z''\<rparr>"

theorem ledger_round_trip_witness:
  "wf_ledger (\<lambda>_. Some (Some 0)) default_limits \<lparr>ls_generation = 3, ls_reservations = [demo_record]\<rparr>
   \<and> decode_ledger (\<lambda>_. Some (Some 0)) (ledger_envelope \<lparr>ls_generation = 3, ls_reservations = [demo_record]\<rparr>)
       default_limits = Inr \<lparr>ls_generation = 3, ls_reservations = [demo_record]\<rparr>"
proof -
  have "durable_id ''job_a''" by code_simp
  then have "wf_ledger (\<lambda>_. Some (Some 0)) default_limits \<lparr>ls_generation = 3, ls_reservations = [demo_record]\<rparr>"
    by (simp add: wf_ledger_def wf_record_def demo_record_def default_limits_def GIB_def parse_timestamp_def)
  then show ?thesis
    using ledger_round_trip [of "\<lambda>_. Some (Some 0)" default_limits "\<lparr>ls_generation = 3, ls_reservations = [demo_record]\<rparr>"] by blast
qed

end
