(* ===== verification/StorageLedger.thy ===== *)
theory StorageLedger
  imports StorageScan StorageLedgerCodec
begin

text \<open>
  The storage policy over its durable ledger: \<^verbatim>\<open>storage_snapshot.py\<close>, \<^verbatim>\<open>storage_reservation_ledger.py\<close>
  and the facade part of \<^verbatim>\<open>storage_policy.py\<close>. The state is the ledger file; what one operation
  observes of the machine (clock, trees, volumes, lock, the outcome of the atomic replacement) is
  its environment. Operations are state-passing computations whose policy errors become denied
  decisions, as the code's \<^verbatim>\<open>except StoragePolicyError\<close> makes them.
\<close>

datatype ledger_file =
    LedgerAbsent
  | LedgerUninspectable string \<comment> \<open>\<^verbatim>\<open>lstat\<close> raises an \<^verbatim>\<open>OSError\<close> of this type name\<close>
  | LedgerUnreadable StoragePolicyError \<comment> \<open>what \<^verbatim>\<open>_bounded_read_regular_file\<close> raises\<close>
  | LedgerNotJson
  | LedgerDoc json

datatype write_outcome =
    WriteOk
  | WriteFailedBefore StoragePolicyError \<comment> \<open>the replacement did not happen\<close>
  | WriteUnsynced StoragePolicyError \<comment> \<open>replaced, then reading back or syncing the directory failed\<close>
  | WriteFailedAfter StoragePolicyError ledger_file \<comment> \<open>replaced, then the read-back found this file instead\<close>

record storage_env =
  se_limits :: StorageLimits
  se_core_root :: string
  se_spool_root :: string
  se_clock :: py_datetime
  se_fromisoformat :: iso_parser
  se_lock_fault :: "StoragePolicyError option"
  se_write :: write_outcome
  se_core_tree :: "nat \<Rightarrow> fs_root" \<comment> \<open>the core tree at each scan attempt\<close>
  se_spool_tree :: "nat \<Rightarrow> fs_root"
  se_core_volume :: "StoragePolicyError + string" \<comment> \<open>\<^verbatim>\<open>_volume_id(root, _safe_lstat(root))\<close>\<close>
  se_spool_volume :: "StoragePolicyError + string"
  se_disk_free :: "string \<Rightarrow> string + int" \<comment> \<open>\<^verbatim>\<open>disk_usage(root).free\<close> or the \<^verbatim>\<open>OSError\<close> type name\<close>

type_synonym 'a ledger_op = "(ledger_file, storage_exn, 'a) op"

section \<open>Volumes and snapshots\<close>

definition roots_of :: "storage_env \<Rightarrow> int \<Rightarrow> int
    \<Rightarrow> (string \<times> string \<times> (StoragePolicyError + string) \<times> int) list" where
  "roots_of env reserved_core reserved_spool =
     [(''core'', se_core_root env, se_core_volume env, reserved_core),
      (''spool'', se_spool_root env, se_spool_volume env, reserved_spool)]"

type_synonym volume_members = "(string \<times> string \<times> int) list"

definition group_volumes ::
  "(string \<times> string \<times> (StoragePolicyError + string) \<times> int) list
     \<Rightarrow> StoragePolicyError + (string \<times> volume_members) list" where
  "group_volumes roots =
     rfold (\<lambda>(family, path, volume, reserved) grouped.
        rbind volume (\<lambda>volume_id.
          Inr (AList.update volume_id (dict_get grouped volume_id [] @ [(family, path, reserved)])
                 grouped))) roots []"

definition disk_free :: "storage_env \<Rightarrow> string \<Rightarrow> string \<Rightarrow> StoragePolicyError + int" where
  "disk_free env volume_id path =
     (case se_disk_free env path of
        Inl name \<Rightarrow> Inl (policy_error FILESYSTEM_QUERY_FAILED
            ''filesystem free space could not be queried''
            [(''volume_id'', JStr volume_id), (''error'', JStr name)])
      | Inr free \<Rightarrow> Inr free)"

definition volume_status ::
  "storage_env \<Rightarrow> int \<Rightarrow> int \<Rightarrow> StoragePolicyError + VolumeStatus list" where
  "volume_status env reserved_core reserved_spool =
     rbind (group_volumes (roots_of env reserved_core reserved_spool)) (\<lambda>grouped.
       rmap (\<lambda>volume_id.
          let members = dict_get grouped volume_id [] in
          rbind (disk_free env volume_id (fst (snd (hd members)))) (\<lambda>free.
            let reserved = sum_list (map (\<lambda>m. snd (snd m)) members) in
            Inr \<lparr>vs_volume_id = volume_id, vs_storage_families = sort (map fst members),
                 vs_free_bytes = free, vs_reserved_bytes = reserved,
                 vs_available_after_reservations_bytes = free - reserved,
                 vs_minimum_free_bytes = minimum_free_bytes (se_limits env)\<rparr>))
         (sort (map fst grouped)))"

record runtime_volume =
  rv_volume_id :: string
  rv_storage_families :: "string list"
  rv_free_bytes :: int
  rv_minimum_free_bytes :: int
  rv_healthy :: bool

definition runtime_volume_json :: "runtime_volume \<Rightarrow> json" where
  "runtime_volume_json v =
     JObj [(''volume_id'', JStr (rv_volume_id v)),
           (''storage_families'', JArr (map JStr (rv_storage_families v))),
           (''free_bytes'', JInt (rv_free_bytes v)),
           (''minimum_free_bytes'', JInt (rv_minimum_free_bytes v)),
           (''healthy'', JBool (rv_healthy v))]"

text \<open>The loop queries the free space of each volume once, when its first root is met.\<close>

definition runtime_volume_step ::
  "storage_env \<Rightarrow> string \<times> string \<times> (StoragePolicyError + string) \<times> int
     \<Rightarrow> (string \<times> int) list \<times> (string \<times> string list) list
     \<Rightarrow> StoragePolicyError + (string \<times> int) list \<times> (string \<times> string list) list" where
  "runtime_volume_step env r acc =
     (case r of (family, path, volume, _) \<Rightarrow>
        rbind volume (\<lambda>volume_id.
          let families = AList.update volume_id
                (dict_get (snd acc) volume_id [] @ [family]) (snd acc) in
          if map_of (fst acc) volume_id \<noteq> None then Inr (fst acc, families)
          else rbind (disk_free env volume_id path) (\<lambda>free.
            Inr (AList.update volume_id free (fst acc), families))))"

definition runtime_volume_status :: "storage_env \<Rightarrow> StoragePolicyError + runtime_volume list" where
  "runtime_volume_status env =
     rbind (rfold (runtime_volume_step env) (roots_of env 0 0) ([], [])) (\<lambda>(volume_free, families).
       Inr (map (\<lambda>(volume_id, free).
              \<lparr>rv_volume_id = volume_id,
               rv_storage_families = sort (dict_get families volume_id []),
               rv_free_bytes = free,
               rv_minimum_free_bytes = minimum_free_bytes (se_limits env),
               rv_healthy = (free \<ge> minimum_free_bytes (se_limits env))\<rparr>)
            (sort_key fst volume_free)))"

definition STORAGE_SNAPSHOT_SCAN_ATTEMPTS :: nat where
  "STORAGE_SNAPSHOT_SCAN_ATTEMPTS = 25"

definition scan_pair :: "storage_env \<Rightarrow> nat \<Rightarrow> storage_exn + (TreeUsage \<times> TreeUsage)" where
  "scan_pair env attempt =
     (let l = se_limits env in
      rbind (scan_tree (se_core_root env) (se_core_tree env attempt)
               (max_scan_entries l) (max_scan_depth l) (max_scan_accounted_bytes l) Reject) (\<lambda>core.
      rbind (scan_tree (se_spool_root env) (se_spool_tree env attempt)
               (max_scan_entries l) (max_scan_depth l) (max_scan_accounted_bytes l) Count) (\<lambda>spool.
      Inr (core, spool))))"

definition is_scan_changed :: "storage_exn \<Rightarrow> bool" where
  "is_scan_changed x = (case x of PolicyExn e \<Rightarrow> spe_reason e = SCAN_CHANGED | _ \<Rightarrow> False)"

fun scan_attempts :: "storage_env \<Rightarrow> nat \<Rightarrow> nat \<Rightarrow> storage_exn + (TreeUsage \<times> TreeUsage)" where
  "scan_attempts env attempt 0 =
     Inl (ValueExn ''bounded storage snapshot loop did not return or raise'')"
| "scan_attempts env attempt (Suc remaining) =
     (case scan_pair env attempt of
        Inr pair \<Rightarrow> Inr pair
      | Inl x \<Rightarrow>
          if \<not> is_scan_changed x \<or> remaining = 0 then Inl x
          else scan_attempts env (Suc attempt) remaining)"

definition stable_tree_snapshot :: "storage_env \<Rightarrow> storage_exn + (TreeUsage \<times> TreeUsage)" where
  "stable_tree_snapshot env = scan_attempts env 0 STORAGE_SNAPSHOT_SCAN_ATTEMPTS"

definition capture_admission_snapshot :: "storage_env \<Rightarrow> storage_exn + StorageTreeSnapshot" where
  "capture_admission_snapshot env =
     rbind (stable_tree_snapshot env) (\<lambda>(core, spool). Inr \<lparr>sts_core = core, sts_spool = spool\<rparr>)"

definition snapshot_reason ::
  "StorageLimits \<Rightarrow> TreeUsage \<Rightarrow> TreeUsage \<Rightarrow> int \<Rightarrow> int \<Rightarrow> VolumeStatus list \<Rightarrow> StorageReason" where
  "snapshot_reason l core spool reserved_core reserved_spool volumes =
     (if tu_bytes core + reserved_core > core_high_water_bytes l then CORE_HIGH_WATER
      else if tu_bytes spool + reserved_spool > spool_high_water_bytes l then SPOOL_HIGH_WATER
      else if tu_bytes core + tu_bytes spool + reserved_core + reserved_spool
              > total_high_water_bytes l then TOTAL_HIGH_WATER
      else if \<not> list_all VolumeStatus_healthy volumes then FILESYSTEM_FREE_RESERVE
      else HEALTHY)"

definition reserved_core_of :: "ReservationRecord list \<Rightarrow> int" where
  "reserved_core_of rs = sum_list (map rr_core_bytes rs)"

definition reserved_spool_of :: "ReservationRecord list \<Rightarrow> int" where
  "reserved_spool_of rs = sum_list (map rr_spool_bytes rs)"

definition snapshot ::
  "storage_env \<Rightarrow> ReservationRecord list \<Rightarrow> int \<Rightarrow> StorageTreeSnapshot option
     \<Rightarrow> storage_exn + StorageStatus" where
  "snapshot env reservations generation tree_snapshot =
     rbind (case tree_snapshot of
              None \<Rightarrow> stable_tree_snapshot env
            | Some t \<Rightarrow>
                if tu_root (sts_core t) \<noteq> se_core_root env \<or> tu_root (sts_spool t) \<noteq> se_spool_root env
                then Inl (PolicyExn (policy_error INVALID_REQUEST
                       ''storage tree snapshot belongs to different configured roots'' []))
                else Inr (sts_core t, sts_spool t)) (\<lambda>(core, spool).
     let reserved_core = reserved_core_of reservations;
         reserved_spool = reserved_spool_of reservations in
     rbind (lift_policy (volume_status env reserved_core reserved_spool)) (\<lambda>volumes.
     let reason = snapshot_reason (se_limits env) core spool reserved_core reserved_spool volumes in
     Inr \<lparr>ss_healthy = (reason = HEALTHY), ss_reason = reason, ss_core = core, ss_spool = spool,
          ss_reserved_core_bytes = reserved_core, ss_reserved_spool_bytes = reserved_spool,
          ss_reservation_count = length reservations, ss_ledger_generation = generation,
          ss_volumes = volumes, ss_limits = se_limits env\<rparr>))"

section \<open>The ledger file\<close>

definition ledger_lock :: "storage_env \<Rightarrow> 'a ledger_op \<Rightarrow> 'a ledger_op" where
  "ledger_lock env body =
     (case se_lock_fault env of None \<Rightarrow> body | Some e \<Rightarrow> mraise (PolicyExn e))"

definition read_ledger :: "storage_env \<Rightarrow> LedgerState ledger_op" where
  "read_ledger env = (\<lambda>file. (case file of
       LedgerAbsent \<Rightarrow> Inr \<lparr>ls_generation = 0, ls_reservations = []\<rparr>
     | LedgerUninspectable name \<Rightarrow>
         Inl (PolicyExn (policy_error LEDGER_UNSAFE ''storage reservation ledger could not be inspected''
                [(''error'', JStr name)]))
     | LedgerUnreadable e \<Rightarrow> Inl (PolicyExn e)
     | LedgerNotJson \<Rightarrow>
         Inl (PolicyExn (malformed ''storage reservation ledger is not valid UTF-8 JSON''))
     | LedgerDoc d \<Rightarrow> decode_ledger (se_fromisoformat env) d (se_limits env), file))"

definition write_ledger :: "storage_env \<Rightarrow> LedgerState \<Rightarrow> unit ledger_op" where
  "write_ledger env ledger =
     (if int (length (encode_ledger ledger)) > max_ledger_bytes (se_limits env)
      then mraise (PolicyExn (policy_error LEDGER_OVERSIZED
             ''encoded storage reservation ledger exceeds its configured byte limit''
             [(''max_ledger_bytes'', JInt (max_ledger_bytes (se_limits env)))]))
      else (case se_write env of
              WriteOk \<Rightarrow> mupd (\<lambda>_. LedgerDoc (ledger_envelope ledger))
            | WriteFailedBefore e \<Rightarrow> mraise (PolicyExn e)
            | WriteUnsynced e \<Rightarrow>
                mbind (mupd (\<lambda>_. LedgerDoc (ledger_envelope ledger))) (\<lambda>_. mraise (PolicyExn e))
            | WriteFailedAfter e file \<Rightarrow> mbind (mupd (\<lambda>_. file)) (\<lambda>_. mraise (PolicyExn e))))"

text \<open>\<^verbatim>\<open>except StoragePolicyError as exc: return _error_decision(exc)\<close>\<close>

definition catch_policy :: "StorageDecision ledger_op \<Rightarrow> StorageDecision ledger_op" where
  "catch_policy body = (\<lambda>file. case body file of
       (Inl (PolicyExn e), file') \<Rightarrow> (Inr (error_decision e), file')
     | r \<Rightarrow> r)"

definition decision ::
  "bool \<Rightarrow> StorageReason \<Rightarrow> string \<Rightarrow> StorageStatus option \<Rightarrow> (string \<times> json) list
     \<Rightarrow> StorageDecision" where
  "decision allowed reason message status details =
     \<lparr>sd_allowed = allowed, sd_reason = reason, sd_message = message, sd_status = status,
      sd_details = details\<rparr>"

lemma decision_simps [simp]:
  "sd_allowed (decision a r m s d) = a"
  "sd_reason (decision a r m s d) = r"
  "sd_status (decision a r m s d) = s"
  "sd_details (decision a r m s d) = d"
  by (simp_all add: decision_def)

definition find_reservation :: "ReservationRecord list \<Rightarrow> string \<Rightarrow> ReservationRecord option" where
  "find_reservation rs job_id = find (\<lambda>r. rr_job_id r = job_id) rs"

section \<open>Public operations\<close>

definition status :: "storage_env \<Rightarrow> StorageDecision ledger_op" where
  "status env = catch_policy (
     mbind (mlift (capture_admission_snapshot env)) (\<lambda>tree.
     mbind (ledger_lock env
       (mbind (read_ledger env) (\<lambda>ledger.
          mlift (snapshot env (ls_reservations ledger) (ls_generation ledger) (Some tree))))) (\<lambda>snap.
     mret (decision (ss_healthy snap) (ss_reason snap)
       (if ss_healthy snap then ''storage policy is healthy''
        else ''storage policy is over a configured safety threshold'') (Some snap) []))))"

definition reserve_existing ::
  "storage_env \<Rightarrow> LedgerState \<Rightarrow> ReservationRecord \<Rightarrow> int \<Rightarrow> int \<Rightarrow> StorageTreeSnapshot
     \<Rightarrow> StorageDecision ledger_op" where
  "reserve_existing env ledger existing core_bytes spool_bytes tree =
     (if rr_core_bytes existing \<noteq> core_bytes \<or> rr_spool_bytes existing \<noteq> spool_bytes
      then mret (decision False RESERVATION_CONFLICT
             ''job already has a different durable storage reservation'' None
             [(''reservation'', ReservationRecord_to_dict existing)])
      else mbind (mlift (snapshot env (ls_reservations ledger) (ls_generation ledger) (Some tree)))
        (\<lambda>snap.
          if \<not> ss_healthy snap
          then mret (decision False (ss_reason snap)
            ''existing reservation is idempotent, but current storage pressure denies admission''
            (Some snap)
            [(''reservation'', ReservationRecord_to_dict existing), (''idempotent'', JBool True)])
          else mret (decision True RESERVATION_IDEMPOTENT
            ''the requested storage reservation already exists'' (Some snap)
            [(''reservation'', ReservationRecord_to_dict existing)])))"

definition reserve_new ::
  "storage_env \<Rightarrow> LedgerState \<Rightarrow> string \<Rightarrow> int \<Rightarrow> int \<Rightarrow> StorageTreeSnapshot
     \<Rightarrow> StorageDecision ledger_op" where
  "reserve_new env ledger job_id core_bytes spool_bytes tree =
     (if int (length (ls_reservations ledger)) \<ge> max_reservations (se_limits env)
      then mret (decision False LEDGER_CAPACITY
             ''reservation ledger reached its configured record limit'' None
             [(''max_reservations'', JInt (max_reservations (se_limits env)))])
      else
        mbind (mlift (lift_policy (format_timestamp (se_clock env)))) (\<lambda>created_at.
        let r = \<lparr>rr_job_id = job_id, rr_core_bytes = core_bytes, rr_spool_bytes = spool_bytes,
                 rr_created_at = created_at\<rparr>;
            proposed = sort_key rr_job_id (ls_reservations ledger @ [r]) in
        mbind (mlift (snapshot env proposed (ls_generation ledger + 1) (Some tree))) (\<lambda>snap.
          if \<not> ss_healthy snap
          then mret (decision False (ss_reason snap)
                 ''storage reservation would violate a configured safety threshold''
                 (Some snap) [(''reservation'', ReservationRecord_to_dict r)])
          else mbind (write_ledger env
                   \<lparr>ls_generation = ls_generation ledger + 1, ls_reservations = proposed\<rparr>) (\<lambda>_.
               mret (decision True RESERVED ''storage was reserved for the job'' (Some snap)
                 [(''reservation'', ReservationRecord_to_dict r)])))))"

definition reserve_ledger ::
  "storage_env \<Rightarrow> string \<Rightarrow> int \<Rightarrow> int \<Rightarrow> StorageTreeSnapshot \<Rightarrow> LedgerState
     \<Rightarrow> StorageDecision ledger_op" where
  "reserve_ledger env job_id core_bytes spool_bytes tree ledger =
     (case find_reservation (ls_reservations ledger) job_id of
        Some existing \<Rightarrow> reserve_existing env ledger existing core_bytes spool_bytes tree
      | None \<Rightarrow> reserve_new env ledger job_id core_bytes spool_bytes tree)"

definition reserve ::
  "storage_env \<Rightarrow> string \<Rightarrow> int \<Rightarrow> int \<Rightarrow> StorageTreeSnapshot option \<Rightarrow> StorageDecision ledger_op" where
  "reserve env job_id core_bytes spool_bytes tree_snapshot = catch_policy (
     mbind (mlift (lift_policy (validate_job_id (JStr job_id)))) (\<lambda>_.
     mbind (mlift (lift_policy (validate_reservation_bytes core_bytes spool_bytes (se_limits env)))) (\<lambda>_.
     mbind (mlift (case tree_snapshot of None \<Rightarrow> capture_admission_snapshot env
                                       | Some t \<Rightarrow> Inr t)) (\<lambda>tree.
     ledger_lock env (mbind (read_ledger env)
       (reserve_ledger env job_id core_bytes spool_bytes tree))))))"

definition release_ledger :: "storage_env \<Rightarrow> string \<Rightarrow> LedgerState \<Rightarrow> StorageDecision ledger_op" where
  "release_ledger env job_id ledger =
     (case find_reservation (ls_reservations ledger) job_id of
        None \<Rightarrow> mret (decision True RESERVATION_ABSENT ''job has no storage reservation'' None
                  [(''job_id'', JStr job_id), (''ledger_generation'', JInt (ls_generation ledger))])
      | Some existing \<Rightarrow>
          let retained = filter (\<lambda>r. rr_job_id r \<noteq> job_id) (ls_reservations ledger);
              generation = ls_generation ledger + 1 in
          mbind (write_ledger env \<lparr>ls_generation = generation, ls_reservations = retained\<rparr>) (\<lambda>_.
          mret (decision True RESERVATION_RELEASED ''job storage reservation was released'' None
            [(''reservation'', ReservationRecord_to_dict existing),
             (''ledger_generation'', JInt generation)])))"

definition release :: "storage_env \<Rightarrow> string \<Rightarrow> StorageDecision ledger_op" where
  "release env job_id = catch_policy (
     mbind (mlift (lift_policy (validate_job_id (JStr job_id)))) (\<lambda>_.
     ledger_lock env (mbind (read_ledger env) (release_ledger env job_id))))"

definition verify_reservation :: "storage_env \<Rightarrow> string \<Rightarrow> int \<Rightarrow> int \<Rightarrow> StorageDecision ledger_op" where
  "verify_reservation env job_id core_bytes spool_bytes = catch_policy (
     mbind (mlift (lift_policy (validate_job_id (JStr job_id)))) (\<lambda>_.
     mbind (mlift (lift_policy (validate_reservation_bytes core_bytes spool_bytes (se_limits env)))) (\<lambda>_.
     mbind (ledger_lock env (read_ledger env)) (\<lambda>ledger.
       case find_reservation (ls_reservations ledger) job_id of
         None \<Rightarrow> mret (decision False RESERVATION_ABSENT
                   ''active job has no durable storage reservation'' None
                   [(''job_id'', JStr job_id)])
       | Some existing \<Rightarrow>
           if rr_core_bytes existing \<noteq> core_bytes \<or> rr_spool_bytes existing \<noteq> spool_bytes
           then mret (decision False RESERVATION_CONFLICT
                  ''active job disagrees with its durable storage reservation'' None
                  [(''reservation'', ReservationRecord_to_dict existing),
                   (''requested'', JObj [(''core_bytes'', JInt core_bytes),
                                         (''spool_bytes'', JInt spool_bytes)])])
           else mret (decision True RESERVATION_IDEMPOTENT
                  ''active job storage reservation is present'' None
                  [(''reservation'', ReservationRecord_to_dict existing),
                   (''ledger_generation'', JInt (ls_generation ledger))])))))"

definition reconcile_active :: "storage_env \<Rightarrow> string list \<Rightarrow> LedgerState \<Rightarrow> StorageDecision ledger_op" where
  "reconcile_active env active ledger =
     (let released = sort (map rr_job_id
            (filter (\<lambda>r. rr_job_id r \<notin> set active) (ls_reservations ledger))) in
      if released = []
      then mret (decision True RECONCILED
             ''reservation ledger already matches the active job set'' None
             [(''released_job_ids'', JArr []), (''ledger_generation'', JInt (ls_generation ledger))])
      else
        let retained = filter (\<lambda>r. rr_job_id r \<in> set active) (ls_reservations ledger);
            generation = ls_generation ledger + 1 in
        mbind (write_ledger env \<lparr>ls_generation = generation, ls_reservations = retained\<rparr>) (\<lambda>_.
        mret (decision True RECONCILED ''stale storage reservations were released'' None
          [(''released_job_ids'', JArr (map JStr released)),
           (''ledger_generation'', JInt generation)])))"

text \<open>\<open>active_job_ids\<close> is the caller's iterable; the code first makes a set of it.\<close>

definition reconcile :: "storage_env \<Rightarrow> string list \<Rightarrow> StorageDecision ledger_op" where
  "reconcile env active_job_ids = catch_policy (
     let active = remdups active_job_ids in
     mbind (mcheck (\<not> int (length active) > max_reservations (se_limits env))
       (PolicyExn (policy_error INVALID_REQUEST
          ''active job set exceeds the configured reservation bound''
          [(''max_reservations'', JInt (max_reservations (se_limits env)))]))) (\<lambda>_.
     mbind (mlift (lift_policy (rmap (\<lambda>j. validate_job_id (JStr j)) active))) (\<lambda>_.
     ledger_lock env (mbind (read_ledger env) (reconcile_active env active)))))"

text \<open>
  The values of the caller's mapping are arbitrary objects; the code accepts tuples of two
  integers only. \<open>JInt\<close> is a Python \<^verbatim>\<open>int\<close> that is not a \<^verbatim>\<open>bool\<close>, which is what
  \<^verbatim>\<open>type(x) is int\<close> tests.
\<close>

datatype py_amounts = AmountsTuple "json list" | AmountsOther

definition two_integers :: "py_amounts \<Rightarrow> (int \<times> int) option" where
  "two_integers a =
     (case a of
        AmountsTuple [x, y] \<Rightarrow>
          (case as_int x of None \<Rightarrow> None
           | Some core \<Rightarrow> (case as_int y of None \<Rightarrow> None | Some spool \<Rightarrow> Some (core, spool)))
      | _ \<Rightarrow> None)"

definition normalize_reservation ::
  "StorageLimits \<Rightarrow> string \<times> py_amounts \<Rightarrow> (string \<times> int \<times> int) list
     \<Rightarrow> StoragePolicyError + (string \<times> int \<times> int) list" where
  "normalize_reservation limits item normalized =
     (case item of (job_id, amounts) \<Rightarrow>
        rbind (validate_job_id (JStr job_id)) (\<lambda>_.
          case two_integers amounts of
            None \<Rightarrow> Inl (policy_error INVALID_REQUEST
                      ''active reservation amounts must be a two-integer tuple''
                      [(''job_id'', JStr job_id)])
          | Some (core_bytes, spool_bytes) \<Rightarrow>
              rbind (validate_reservation_bytes core_bytes spool_bytes limits) (\<lambda>_.
                Inr (AList.update job_id (core_bytes, spool_bytes) normalized))))"

definition reservation_conflict ::
  "ReservationRecord list \<Rightarrow> string \<times> int \<times> int \<Rightarrow> json list" where
  "reservation_conflict existing_by_job item =
     (case item of (job_id, core_bytes, spool_bytes) \<Rightarrow>
        (case find_reservation existing_by_job job_id of
           None \<Rightarrow> []
         | Some existing \<Rightarrow>
             if rr_core_bytes existing \<noteq> core_bytes \<or> rr_spool_bytes existing \<noteq> spool_bytes
             then [JObj [(''job_id'', JStr job_id),
                         (''existing'', ReservationRecord_to_dict existing),
                         (''requested'', JObj [(''core_bytes'', JInt core_bytes),
                                               (''spool_bytes'', JInt spool_bytes)])]]
             else []))"

definition adopt_or_keep ::
  "ReservationRecord list \<Rightarrow> string \<Rightarrow> string \<times> int \<times> int \<Rightarrow> ReservationRecord" where
  "adopt_or_keep existing_by_job now item =
     (case item of (job_id, core_bytes, spool_bytes) \<Rightarrow>
        (case find_reservation existing_by_job job_id of
           Some existing \<Rightarrow> existing
         | None \<Rightarrow> \<lparr>rr_job_id = job_id, rr_core_bytes = core_bytes, rr_spool_bytes = spool_bytes,
                    rr_created_at = now\<rparr>))"

definition reconcile_ledger ::
  "storage_env \<Rightarrow> (string \<times> int \<times> int) list \<Rightarrow> LedgerState \<Rightarrow> StorageDecision ledger_op" where
  "reconcile_ledger env normalized ledger =
     (let existing = ls_reservations ledger;
          items = sort_key fst normalized;
          conflicts = concat (map (reservation_conflict existing) items) in
      if conflicts \<noteq> []
      then mret (decision False RESERVATION_CONFLICT
             ''active jobs disagree with durable storage reservations'' None
             [(''conflicts'', JArr conflicts)])
      else mbind (mlift (lift_policy (format_timestamp (se_clock env)))) (\<lambda>now.
        let proposed = map (adopt_or_keep existing now) items;
            adopted = map fst (filter (\<lambda>i. find_reservation existing (fst i) = None) items);
            released = sort (map rr_job_id
              (filter (\<lambda>r. rr_job_id r \<notin> set (map fst normalized)) existing));
            changed = (adopted \<noteq> [] \<or> released \<noteq> []);
            generation = ls_generation ledger + (if changed then 1 else 0);
            persist = (if changed
              then write_ledger env \<lparr>ls_generation = generation, ls_reservations = proposed\<rparr>
              else mret ()) in
        mbind (mlift (snapshot env proposed generation None)) (\<lambda>snap.
        mbind persist (\<lambda>_.
          if \<not> ss_healthy snap
          then mret (decision False (ss_reason snap)
                 ''active storage reservations violate a configured safety threshold'' (Some snap)
                 [(''adopted_job_ids'', JArr (map JStr adopted)),
                  (''released_job_ids'', JArr (map JStr released)), (''persisted'', JBool changed)])
          else mret (decision True RECONCILED
                 (if changed then ''active jobs and storage reservations were reconciled''
                  else ''reservation ledger already matches active jobs'') (Some snap)
                 [(''adopted_job_ids'', JArr (map JStr adopted)),
                  (''released_job_ids'', JArr (map JStr released)),
                  (''ledger_generation'', JInt generation), (''persisted'', JBool changed)])))))"

definition reconcile_reservations ::
  "storage_env \<Rightarrow> (string \<times> py_amounts) list \<Rightarrow> StorageDecision ledger_op" where
  "reconcile_reservations env active_reservations = catch_policy (
     mbind (mcheck (\<not> int (length active_reservations) > max_reservations (se_limits env))
       (PolicyExn (policy_error INVALID_REQUEST
          ''active reservation set exceeds the configured reservation bound''
          [(''max_reservations'', JInt (max_reservations (se_limits env)))]))) (\<lambda>_.
     mbind (mlift (lift_policy
         (rfold (normalize_reservation (se_limits env)) active_reservations []))) (\<lambda>normalized.
     ledger_lock env (mbind (read_ledger env) (reconcile_ledger env normalized)))))"

end
