(* ===== verification/StorageReservations.thy ===== *)
theory StorageReservations
  imports StorageLedger
begin

text \<open>
  What the reservation ledger promises. The ledger file is abstracted to the map from jobs to
  reserved amounts (\<open>reserved_in\<close>); the interface \<open>reservation_store\<close> states the laws a store of
  reservations keeps, and the operations of \<^verbatim>\<open>storage_reservation_ledger.py\<close> are shown to obey
  them. The header lemmas invert each operation into the guard it passed and the file it left.
\<close>

section \<open>Inversion of the ledger operations\<close>

definition ledger_of :: "iso_parser \<Rightarrow> StorageLimits \<Rightarrow> ledger_file \<Rightarrow> LedgerState option" where
  "ledger_of fiso limits file =
     (case file of
        LedgerAbsent \<Rightarrow> Some \<lparr>ls_generation = 0, ls_reservations = []\<rparr>
      | LedgerDoc d \<Rightarrow> (case decode_ledger fiso d limits of Inl _ \<Rightarrow> None | Inr l \<Rightarrow> Some l)
      | _ \<Rightarrow> None)"

abbreviation ledger_in :: "storage_env \<Rightarrow> ledger_file \<Rightarrow> LedgerState option" where
  "ledger_in env \<equiv> ledger_of (se_fromisoformat env) (se_limits env)"

definition amounts_in :: "LedgerState \<Rightarrow> string \<Rightarrow> (int \<times> int) option" where
  "amounts_in l job_id =
     map_option (\<lambda>r. (rr_core_bytes r, rr_spool_bytes r)) (find_reservation (ls_reservations l) job_id)"

definition reserved_in :: "iso_parser \<Rightarrow> StorageLimits \<Rightarrow> ledger_file \<Rightarrow> string \<Rightarrow> (int \<times> int) option" where
  "reserved_in fiso limits file =
     (case ledger_of fiso limits file of None \<Rightarrow> Map.empty | Some l \<Rightarrow> amounts_in l)"

lemma mbind_eq_Inl:
  "mbind m f s = (Inl e, s') \<longleftrightarrow>
     m s = (Inl e, s') \<or> (\<exists>x s1. m s = (Inr x, s1) \<and> f x s1 = (Inl e, s'))"
  by (cases "m s"; cases "fst (m s)") (auto simp: mbind_app)

lemma read_ledger_Inr [result_iff]:
  "read_ledger env file = (Inr l, file') \<longleftrightarrow> ledger_in env file = Some l \<and> file' = file"
  by (auto simp: read_ledger_def ledger_of_def split: ledger_file.splits sum.splits)

lemma read_ledger_Inl: "read_ledger env file = (Inl e, file') \<Longrightarrow> file' = file"
  by (simp add: read_ledger_def)

lemma write_ledger_Inr [result_iff]:
  "write_ledger env l file = (Inr u, file') \<longleftrightarrow>
     int (length (encode_ledger l)) \<le> max_ledger_bytes (se_limits env)
     \<and> se_write env = WriteOk \<and> file' = LedgerDoc (ledger_envelope l)"
  by (auto simp: write_ledger_def split: write_outcome.splits)

definition atomic_writes :: "storage_env \<Rightarrow> bool" where
  "atomic_writes env = (case se_write env of WriteOk \<Rightarrow> True | WriteFailedBefore _ \<Rightarrow> True | _ \<Rightarrow> False)"

lemma write_ledger_Inl:
  "write_ledger env l file = (Inl e, file') \<Longrightarrow> atomic_writes env \<Longrightarrow> file' = file"
  by (auto simp: write_ledger_def atomic_writes_def split: write_outcome.splits if_splits)

lemma ledger_lock_Inr [result_iff]:
  "ledger_lock env body file = (Inr x, file') \<longleftrightarrow>
     se_lock_fault env = None \<and> body file = (Inr x, file')"
  by (auto simp: ledger_lock_def split: option.splits)

lemma ledger_lock_Inl:
  "ledger_lock env body file = (Inl e, file') \<longleftrightarrow>
     (\<exists>p. se_lock_fault env = Some p \<and> e = PolicyExn p \<and> file' = file)
     \<or> (se_lock_fault env = None \<and> body file = (Inl e, file'))"
  by (auto simp: ledger_lock_def split: option.splits)

lemma catch_policy_Inr [result_iff]:
  "catch_policy body file = (Inr d, file') \<longleftrightarrow>
     body file = (Inr d, file')
     \<or> (\<exists>e. body file = (Inl (PolicyExn e), file') \<and> d = error_decision e)"
  by (auto simp: catch_policy_def split: prod.splits sum.splits storage_exn.splits)

lemma catch_policy_allowed:
  "catch_policy body file = (Inr d, file') \<Longrightarrow> sd_allowed d \<Longrightarrow> body file = (Inr d, file')"
  by (auto simp: catch_policy_Inr error_decision_def)

lemma catch_policy_Inl:
  "catch_policy body file = (Inl e, file') \<Longrightarrow> body file = (Inl e, file')"
  by (auto simp: catch_policy_def split: prod.splits sum.splits storage_exn.splits)

lemma ledger_of_wf:
  "ledger_of fiso limits file = Some l \<Longrightarrow> valid_limits limits \<Longrightarrow> wf_ledger fiso limits l"
  by (auto simp: ledger_of_def wf_ledger_def dest: valid_limits_bounds
      split: ledger_file.splits sum.splits dest!: decode_ledger_wf)

lemma ledger_of_envelope:
  "wf_ledger fiso limits l \<Longrightarrow> ledger_of fiso limits (LedgerDoc (ledger_envelope l)) = Some l"
  by (simp add: ledger_of_def decode_ledger_envelope)

lemma find_reservation_Some:
  "find_reservation rs j = Some r \<Longrightarrow> r \<in> set rs \<and> rr_job_id r = j"
  by (auto simp: find_reservation_def find_Some_iff)

lemma find_reservation_None:
  "find_reservation rs j = None \<longleftrightarrow> j \<notin> rr_job_id ` set rs"
  by (auto simp: find_reservation_def find_None_iff)

lemma find_reservation_iff:
  "distinct (map rr_job_id rs) \<Longrightarrow>
     find_reservation rs j = Some r \<longleftrightarrow> r \<in> set rs \<and> rr_job_id r = j"
  unfolding find_reservation_def
  by (induction rs) (auto simp: image_iff)

lemma find_reservation_filter:
  "find_reservation (filter (\<lambda>r. P (rr_job_id r)) rs) j =
     (if P j then find_reservation rs j else None)"
  by (induction rs) (auto simp: find_reservation_def)

lemma find_reservation_cong_set:
  assumes "distinct (map rr_job_id rs)" "distinct (map rr_job_id rs')" "set rs = set rs'"
  shows "find_reservation rs j = find_reservation rs' j"
  using assms by (metis (no_types, lifting) find_reservation_iff not_Some_eq)

lemma distinct_map_sort_key: "distinct (map f (sort_key f xs)) = distinct (map f xs)"
  by (simp add: distinct_map)

lemma find_reservation_insert:
  assumes "distinct (map rr_job_id rs)" "rr_job_id r \<notin> rr_job_id ` set rs"
  shows "find_reservation (sort_key rr_job_id (rs @ [r])) j =
     (if j = rr_job_id r then Some r else find_reservation rs j)"
proof -
  have d: "distinct (map rr_job_id (sort_key rr_job_id (rs @ [r])))"
    unfolding distinct_map_sort_key using assms by simp
  have "find_reservation (sort_key rr_job_id (rs @ [r])) j = find_reservation (rs @ [r]) j"
    using d assms by (intro find_reservation_cong_set) simp_all
  also have "\<dots> = (if j = rr_job_id r then Some r else find_reservation rs j)"
    using assms(2) by (induction rs) (auto simp: find_reservation_def)
  finally show ?thesis .
qed

section \<open>Well-formed successors\<close>

definition clock_ok :: "storage_env \<Rightarrow> bool" where
  "clock_ok env =
     (case format_timestamp (se_clock env) of
        Inl _ \<Rightarrow> True
      | Inr s \<Rightarrow> parse_timestamp (se_fromisoformat env) (JStr s) = Inr s)"

text \<open>
  What an operation relies on: validated limits, a clock whose text \<^verbatim>\<open>fromisoformat\<close> reads back, and
  a replacement that either happens or does not.
\<close>

definition env_ok :: "storage_env \<Rightarrow> bool" where
  "env_ok env \<longleftrightarrow> valid_limits (se_limits env) \<and> clock_ok env \<and> atomic_writes env"

abbreviation wf_in :: "storage_env \<Rightarrow> LedgerState \<Rightarrow> bool" where
  "wf_in env \<equiv> wf_ledger (se_fromisoformat env) (se_limits env)"

lemma clock_okD:
  "clock_ok env \<Longrightarrow> format_timestamp (se_clock env) = Inr s \<Longrightarrow>
     parse_timestamp (se_fromisoformat env) (JStr s) = Inr s"
  by (simp add: clock_ok_def)

lemma wf_ledger_filter:
  assumes "wf_ledger fiso limits l"
  shows "wf_ledger fiso limits
    \<lparr>ls_generation = ls_generation l + 1,
     ls_reservations = filter (\<lambda>r. P (rr_job_id r)) (ls_reservations l)\<rparr>"
proof -
  from assms have "int (length (ls_reservations l)) \<le> max_reservations limits"
    by (simp add: wf_ledger_def)
  then have "int (length (filter (\<lambda>r. P (rr_job_id r)) (ls_reservations l))) \<le> max_reservations limits"
    using length_filter_le [of "\<lambda>r. P (rr_job_id r)" "ls_reservations l"] by linarith
  with assms show ?thesis
    by (auto simp: wf_ledger_def list_all_iff sorted_filter distinct_map_filter)
qed

lemma wf_ledger_insert:
  assumes "wf_ledger fiso limits l" "wf_record fiso limits r"
    and "find_reservation (ls_reservations l) (rr_job_id r) = None"
    and "\<not> int (length (ls_reservations l)) \<ge> max_reservations limits"
  shows "wf_ledger fiso limits
    \<lparr>ls_generation = ls_generation l + 1,
     ls_reservations = sort_key rr_job_id (ls_reservations l @ [r])\<rparr>"
  using assms
  by (simp add: wf_ledger_def list_all_iff find_reservation_None distinct_map_sort_key)

section \<open>Granted, denied and released reservations\<close>

lemma reserve_existing_state: "reserve_existing env l r c s t file = (x, file') \<Longrightarrow> file' = file"
  by (auto simp: reserve_existing_def mbind_app split: prod.splits sum.splits if_splits)

lemma reserve_new_Inl:
  "reserve_new env l j c s t file = (Inl e, file') \<Longrightarrow> atomic_writes env \<Longrightarrow> file' = file"
  by (auto simp: reserve_new_def mbind_eq_Inl Let_def split: if_splits dest: write_ledger_Inl)

lemma reserve_new_denied:
  "reserve_new env l j c s t file = (Inr d, file') \<Longrightarrow> \<not> sd_allowed d \<Longrightarrow> file' = file"
  by (auto simp: reserve_new_def result_iff Let_def split: if_splits)

lemma reserve_new_allowed:
  assumes "reserve_new env l j c s t file = (Inr d, file')" "sd_allowed d"
  obtains now r snap where
    "format_timestamp (se_clock env) = Inr now"
    "r = \<lparr>rr_job_id = j, rr_core_bytes = c, rr_spool_bytes = s, rr_created_at = now\<rparr>"
    "int (length (ls_reservations l)) < max_reservations (se_limits env)"
    "snapshot env (sort_key rr_job_id (ls_reservations l @ [r])) (ls_generation l + 1) (Some t)
       = Inr snap" "ss_healthy snap" "sd_reason d = RESERVED" "sd_status d = Some snap"
    "file' = LedgerDoc (ledger_envelope \<lparr>ls_generation = ls_generation l + 1,
       ls_reservations = sort_key rr_job_id (ls_reservations l @ [r])\<rparr>)"
  using assms by (auto simp: reserve_new_def result_iff Let_def split: if_splits)

lemma reserve_existing_allowed:
  assumes "reserve_existing env l r c s t file = (Inr d, file')" "sd_allowed d"
  shows "rr_core_bytes r = c \<and> rr_spool_bytes r = s \<and> file' = file
    \<and> sd_reason d = RESERVATION_IDEMPOTENT"
  using assms by (auto simp: reserve_existing_def result_iff split: if_splits)

lemma reserve_ledger_Inl:
  "reserve_ledger env j c s t l file = (Inl e, file') \<Longrightarrow> atomic_writes env \<Longrightarrow> file' = file"
  by (auto simp: reserve_ledger_def split: option.splits
      dest: reserve_new_Inl reserve_existing_state)

lemma reserve_ledger_denied:
  "reserve_ledger env j c s t l file = (Inr d, file') \<Longrightarrow> \<not> sd_allowed d \<Longrightarrow> file' = file"
  by (auto simp: reserve_ledger_def split: option.splits
      dest: reserve_new_denied reserve_existing_state)

lemma reserve_body:
  assumes "reserve env j c s ts file = (Inr d, file')"
  obtains (error) e where "d = error_decision e" "atomic_writes env \<Longrightarrow> file' = file"
  | (locked) l t where "ledger_in env file = Some l" "durable_id j"
      "0 \<le> c" "0 \<le> s" "c + s \<noteq> 0" "c + s \<le> max_job_reservation_bytes (se_limits env)"
      "reserve_ledger env j c s t l file = (Inr d, file')"
  using assms unfolding reserve_def catch_policy_Inr
proof (elim disjE exE conjE, goal_cases)
  case 1
  then show ?case by (auto simp: result_iff)
next
  case (2 e)
  then have "atomic_writes env \<longrightarrow> file' = file"
    by (auto simp: result_iff mbind_eq_Inl ledger_lock_Inl dest: read_ledger_Inl reserve_ledger_Inl)
  with 2 show ?case by blast
qed

lemma reserve_Inl:
  "reserve env j c s ts file = (Inl e, file') \<Longrightarrow> atomic_writes env \<Longrightarrow> file' = file"
  unfolding reserve_def
  by (auto dest!: catch_policy_Inl simp: result_iff mbind_eq_Inl ledger_lock_Inl
      dest: read_ledger_Inl reserve_ledger_Inl)

lemma release_ledger_Inl:
  "release_ledger env j l file = (Inl e, file') \<Longrightarrow> atomic_writes env \<Longrightarrow> file' = file"
  by (auto simp: release_ledger_def mbind_eq_Inl Let_def split: option.splits dest: write_ledger_Inl)

lemma release_ledger_Inr:
  "release_ledger env j l file = (Inr d, file') \<Longrightarrow>
     sd_allowed d \<and>
     (case find_reservation (ls_reservations l) j of
        None \<Rightarrow> file' = file \<and> sd_reason d = RESERVATION_ABSENT
      | Some r \<Rightarrow> sd_reason d = RESERVATION_RELEASED
          \<and> file' = LedgerDoc (ledger_envelope \<lparr>ls_generation = ls_generation l + 1,
               ls_reservations = filter (\<lambda>r. rr_job_id r \<noteq> j) (ls_reservations l)\<rparr>))"
  by (auto simp: release_ledger_def result_iff Let_def split: option.splits)

lemma release_body:
  assumes "release env j file = (Inr d, file')"
  obtains (error) e where "d = error_decision e" "atomic_writes env \<Longrightarrow> file' = file"
  | (locked) l where "ledger_in env file = Some l" "durable_id j"
      "release_ledger env j l file = (Inr d, file')"
  using assms unfolding release_def catch_policy_Inr
proof (elim disjE exE conjE, goal_cases)
  case 1
  then show ?case by (auto simp: result_iff)
next
  case (2 e)
  then have "atomic_writes env \<longrightarrow> file' = file"
    by (auto simp: result_iff mbind_eq_Inl ledger_lock_Inl dest: read_ledger_Inl release_ledger_Inl)
  with 2 show ?case by blast
qed

lemma release_Inl:
  "release env j file = (Inl e, file') \<Longrightarrow> atomic_writes env \<Longrightarrow> file' = file"
  unfolding release_def
  by (auto dest!: catch_policy_Inl simp: result_iff mbind_eq_Inl ledger_lock_Inl
      dest: read_ledger_Inl release_ledger_Inl)

lemma amounts_in_insert:
  assumes "distinct (map rr_job_id (ls_reservations l))"
    and "find_reservation (ls_reservations l) (rr_job_id r) = None"
  shows "amounts_in \<lparr>ls_generation = g,
      ls_reservations = sort_key rr_job_id (ls_reservations l @ [r])\<rparr> =
    (amounts_in l)(rr_job_id r \<mapsto> (rr_core_bytes r, rr_spool_bytes r))"
  using assms by (auto simp: amounts_in_def find_reservation_insert find_reservation_None)

section \<open>The interface of a reservation store\<close>

datatype reservation_request = Reserve string "int \<times> int" | Release string

fun request_job :: "reservation_request \<Rightarrow> string" where
  "request_job (Reserve j a) = j"
| "request_job (Release j) = j"

text \<open>The abstract specification: a granted request updates the map, a denied one does nothing.\<close>

fun apply_request ::
  "reservation_request \<times> bool \<Rightarrow> (string \<Rightarrow> (int \<times> int) option) \<Rightarrow> string \<Rightarrow> (int \<times> int) option" where
  "apply_request (Reserve j a, granted) m = (if granted then m(j \<mapsto> a) else m)"
| "apply_request (Release j, granted) m = (if granted then m(j := None) else m)"

fun run_requests ::
  "('env \<Rightarrow> reservation_request \<Rightarrow> 's \<Rightarrow> bool \<times> 's) \<Rightarrow> ('env \<times> reservation_request) list \<Rightarrow> 's
     \<Rightarrow> bool list \<times> 's" where
  "run_requests step [] s = ([], s)"
| "run_requests step ((env, q) # rest) s =
     (case step env q s of (granted, s1) \<Rightarrow>
        (case run_requests step rest s1 of (gs, s2) \<Rightarrow> (granted # gs, s2)))"

locale reservation_store =
  fixes good :: "'cfg \<Rightarrow> 's \<Rightarrow> bool"
    and view :: "'cfg \<Rightarrow> 's \<Rightarrow> string \<Rightarrow> (int \<times> int) option"
    and cfg_of :: "'env \<Rightarrow> 'cfg"
    and ok :: "'env \<Rightarrow> bool"
    and step :: "'env \<Rightarrow> reservation_request \<Rightarrow> 's \<Rightarrow> bool \<times> 's"
  assumes step_good: "ok env \<Longrightarrow> good (cfg_of env) s \<Longrightarrow> step env q s = (g, s') \<Longrightarrow> good (cfg_of env) s'"
    and step_view: "ok env \<Longrightarrow> good (cfg_of env) s \<Longrightarrow> step env q s = (g, s') \<Longrightarrow>
      view (cfg_of env) s' = apply_request (q, g) (view (cfg_of env) s)"
    and no_resize: "ok env \<Longrightarrow> good (cfg_of env) s \<Longrightarrow> step env (Reserve j a) s = (True, s') \<Longrightarrow>
      view (cfg_of env) s j = None \<or> view (cfg_of env) s j = Some a"
begin

lemma run_refines:
  assumes "run_requests step qs s = (gs, s')" "good c s"
    and "list_all (\<lambda>(env, q). ok env \<and> cfg_of env = c) qs"
  shows "good c s' \<and> view c s' = fold apply_request (zip (map snd qs) gs) (view c s)"
  using assms
proof (induction qs arbitrary: s gs)
  case (Cons eq qs)
  obtain env q where eq: "eq = (env, q)" by (cases eq)
  obtain g s1 where st: "step env q s = (g, s1)" by fastforce
  obtain gs1 where run: "run_requests step qs s1 = (gs1, s')" and gs: "gs = g # gs1"
    using Cons.prems(1) by (auto simp: eq st split: prod.splits)
  have "ok env" "cfg_of env = c" using Cons.prems(3) by (auto simp: eq)
  with st Cons.prems(2) step_good step_view
  have "good c s1" "view c s1 = apply_request (q, g) (view c s)" by metis+
  with Cons.IH [OF run] Cons.prems(3) show ?case by (simp add: eq gs)
qed simp

lemma run_frame:
  assumes "run_requests step qs s = (gs, s')" "good c s"
    and "list_all (\<lambda>(env, q). ok env \<and> cfg_of env = c) qs" "j \<notin> request_job ` snd ` set qs"
  shows "view c s' j = view c s j"
proof -
  have "j \<notin> request_job ` set rs \<Longrightarrow> fold apply_request (zip rs gs) m j = m j" for rs gs m
  proof (induction rs arbitrary: gs m)
    case (Cons r rs)
    then show ?case by (cases gs; cases r) auto
  qed simp
  with run_refines [OF assms(1-3)] assms(4) show ?thesis by (simp add: image_image)
qed

lemma reserve_release:
  assumes "ok e1" "ok e2" "cfg_of e1 = c" "cfg_of e2 = c" "good c s" "view c s j = None"
    and "step e1 (Reserve j a) s = (True, s1)" "step e2 (Release j) s1 = (True, s2)"
  shows "view c s2 = view c s"
proof -
  have "view c s1 = (view c s)(j \<mapsto> a)" "good c s1"
    using assms step_view [of e1 s] step_good [of e1 s] by auto
  with assms step_view [of e2 s1] show ?thesis by auto
qed

end

section \<open>The ledger is a reservation store\<close>

type_synonym ledger_cfg = "iso_parser \<times> StorageLimits"
type_synonym ledger_env = "storage_env \<times> StorageTreeSnapshot option"

definition ledger_cfg_of :: "ledger_env \<Rightarrow> ledger_cfg" where
  "ledger_cfg_of env = (se_fromisoformat (fst env), se_limits (fst env))"

definition ledger_good :: "ledger_cfg \<Rightarrow> ledger_file \<Rightarrow> bool" where
  "ledger_good cfg file \<longleftrightarrow> ledger_of (fst cfg) (snd cfg) file \<noteq> None"

definition ledger_view :: "ledger_cfg \<Rightarrow> ledger_file \<Rightarrow> string \<Rightarrow> (int \<times> int) option" where
  "ledger_view cfg file = reserved_in (fst cfg) (snd cfg) file"

definition granted :: "(storage_exn + StorageDecision) \<times> ledger_file \<Rightarrow> bool \<times> ledger_file" where
  "granted r = ((case fst r of Inl _ \<Rightarrow> False | Inr d \<Rightarrow> sd_allowed d), snd r)"

lemma granted_cases:
  assumes "granted r = (g, file')"
  obtains (granted) d where "r = (Inr d, file')" "sd_allowed d" "g"
  | (denied) x where "r = (x, file')" "\<forall>d. x = Inr d \<longrightarrow> \<not> sd_allowed d" "\<not> g"
  using assms by (cases r; cases "fst r") (auto simp: granted_def)

fun ledger_step :: "ledger_env \<Rightarrow> reservation_request \<Rightarrow> ledger_file \<Rightarrow> bool \<times> ledger_file" where
  "ledger_step (env, tree) (Reserve j (c, s)) file = granted (reserve env j c s tree file)"
| "ledger_step (env, tree) (Release j) file = granted (release env j file)"

lemma reserve_new_granted:
  assumes "reserve_new env l j c s t file = (Inr d, file')" "sd_allowed d" "env_ok env"
    and "wf_in env l" "durable_id j" "0 \<le> c" "0 \<le> s" "c + s \<noteq> 0"
    and "c + s \<le> max_job_reservation_bytes (se_limits env)"
    and "find_reservation (ls_reservations l) j = None"
  shows "\<exists>r snap. rr_job_id r = j \<and> rr_core_bytes r = c \<and> rr_spool_bytes r = s
    \<and> snapshot env (sort_key rr_job_id (ls_reservations l @ [r])) (ls_generation l + 1) (Some t)
        = Inr snap \<and> ss_healthy snap \<and> sd_status d = Some snap
    \<and> ledger_in env file' = Some \<lparr>ls_generation = ls_generation l + 1,
         ls_reservations = sort_key rr_job_id (ls_reservations l @ [r])\<rparr>
    \<and> wf_in env \<lparr>ls_generation = ls_generation l + 1,
         ls_reservations = sort_key rr_job_id (ls_reservations l @ [r])\<rparr>"
proof -
  from assms(1,2) obtain now r snap where now: "format_timestamp (se_clock env) = Inr now"
    and r: "r = \<lparr>rr_job_id = j, rr_core_bytes = c, rr_spool_bytes = s, rr_created_at = now\<rparr>"
    and len: "int (length (ls_reservations l)) < max_reservations (se_limits env)"
    and snap: "snapshot env (sort_key rr_job_id (ls_reservations l @ [r])) (ls_generation l + 1) (Some t)
       = Inr snap" "ss_healthy snap" "sd_status d = Some snap"
    and file': "file' = LedgerDoc (ledger_envelope \<lparr>ls_generation = ls_generation l + 1,
           ls_reservations = sort_key rr_job_id (ls_reservations l @ [r])\<rparr>)"
    by (rule reserve_new_allowed)
  have "wf_record (se_fromisoformat env) (se_limits env) r"
    using assms now by (auto simp: r wf_record_def env_ok_def dest: clock_okD)
  then have "wf_in env \<lparr>ls_generation = ls_generation l + 1,
      ls_reservations = sort_key rr_job_id (ls_reservations l @ [r])\<rparr>"
    using assms len by (intro wf_ledger_insert) (auto simp: r)
  with snap show ?thesis by (intro exI [of _ r]) (simp add: file' ledger_of_envelope, simp add: r)
qed

lemma reserve_allowed:
  assumes "reserve env j c s ts file = (Inr d, file')" "sd_allowed d" "env_ok env"
  shows "\<exists>l l'. ledger_in env file = Some l \<and> ledger_in env file' = Some l' \<and> wf_in env l'
    \<and> (amounts_in l j = None \<or> amounts_in l j = Some (c, s))
    \<and> amounts_in l' = (amounts_in l)(j \<mapsto> (c, s))"
  using assms(1)
proof (cases rule: reserve_body)
  case (error e)
  with assms show ?thesis by (simp add: error_decision_def)
next
  case (locked l t)
  from locked(1) assms(3) have wf: "wf_in env l" by (simp add: ledger_of_wf env_ok_def)
  show ?thesis
  proof (cases "find_reservation (ls_reservations l) j")
    case (Some r)
    with locked assms(2) have "rr_core_bytes r = c \<and> rr_spool_bytes r = s \<and> file' = file"
      using reserve_existing_allowed by (fastforce simp: reserve_ledger_def)
    with Some locked(1) wf show ?thesis by (auto simp: amounts_in_def fun_eq_iff)
  next
    case None
    with locked have "reserve_new env l j c s t file = (Inr d, file')"
      by (simp add: reserve_ledger_def)
    then obtain r l' where r: "rr_job_id r = j" "rr_core_bytes r = c" "rr_spool_bytes r = s"
      and l': "l' = \<lparr>ls_generation = ls_generation l + 1,
             ls_reservations = sort_key rr_job_id (ls_reservations l @ [r])\<rparr>"
      and wf': "ledger_in env file' = Some l'" "wf_in env l'"
      using reserve_new_granted [OF _ assms(2,3) wf locked(2-6) None] by blast
    have "amounts_in l' = (amounts_in l)(j \<mapsto> (c, s))"
      using None wf amounts_in_insert [of l r] by (simp add: r wf_ledger_def l')
    with None locked(1) wf' show ?thesis by (auto simp: amounts_in_def)
  qed
qed

lemma reserve_denied:
  assumes "reserve env j c s ts file = (x, file')" "\<forall>d. x = Inr d \<longrightarrow> \<not> sd_allowed d"
    and "atomic_writes env"
  shows "file' = file"
proof (cases x)
  case (Inl e)
  with assms show ?thesis by (auto dest: reserve_Inl)
next
  case (Inr d)
  with assms(1) have "reserve env j c s ts file = (Inr d, file')" by simp
  then show ?thesis
    using assms Inr by (cases rule: reserve_body) (auto dest: reserve_ledger_denied)
qed

lemma release_allowed:
  assumes "release env j file = (Inr d, file')" "sd_allowed d" "env_ok env"
  shows "\<exists>l l'. ledger_in env file = Some l \<and> ledger_in env file' = Some l' \<and> wf_in env l'
    \<and> amounts_in l' = (amounts_in l)(j := None)"
  using assms(1)
proof (cases rule: release_body)
  case (error e)
  with assms show ?thesis by (simp add: error_decision_def)
next
  case (locked l)
  from locked(1) assms(3) have wf: "wf_in env l" by (simp add: ledger_of_wf env_ok_def)
  show ?thesis
  proof (cases "find_reservation (ls_reservations l) j")
    case None
    with locked wf show ?thesis
      by (auto dest!: release_ledger_Inr simp: amounts_in_def fun_eq_iff)
  next
    case (Some r)
    have "amounts_in \<lparr>ls_generation = g,
        ls_reservations = filter (\<lambda>r. rr_job_id r \<noteq> j) (ls_reservations l)\<rparr> =
        (amounts_in l)(j := None)" for g
      using find_reservation_filter [of "\<lambda>i. i \<noteq> j"] by (auto simp: amounts_in_def fun_eq_iff)
    with Some locked wf wf_ledger_filter [OF wf, of "\<lambda>i. i \<noteq> j"] show ?thesis
      by (auto dest!: release_ledger_Inr simp: ledger_of_envelope)
  qed
qed

lemma release_denied:
  assumes "release env j file = (x, file')" "\<forall>d. x = Inr d \<longrightarrow> \<not> sd_allowed d"
    and "atomic_writes env"
  shows "file' = file"
proof (cases x)
  case (Inl e)
  with assms show ?thesis by (auto dest: release_Inl)
next
  case (Inr d)
  with assms(1) have "release env j file = (Inr d, file')" by simp
  then show ?thesis
    using assms Inr by (cases rule: release_body) (auto dest: release_ledger_Inr)
qed

lemma ledger_step_cases:
  assumes "ledger_step e q file = (g, file')" "env_ok (fst e)"
  obtains (denied) "\<not> g" "file' = file"
  | (granted) l l' where "g" "ledger_in (fst e) file = Some l" "ledger_in (fst e) file' = Some l'"
      "amounts_in l' = apply_request (q, True) (amounts_in l)"
      "\<And>j a. q = Reserve j a \<Longrightarrow> amounts_in l j = None \<or> amounts_in l j = Some a"
proof -
  obtain env tree where e: "e = (env, tree)" by (cases e)
  have ok: "env_ok env" "atomic_writes env" using assms(2) by (simp_all add: e env_ok_def)
  show ?thesis
  proof (cases q)
    case (Reserve j a)
    obtain c s where a: "a = (c, s)" by (cases a)
    with assms(1) Reserve have st: "granted (reserve env j c s tree file) = (g, file')"
      by (simp add: e)
    from st show ?thesis
    proof (cases rule: granted_cases)
      case (granted d)
      with reserve_allowed ok obtain l l' where "ledger_in env file = Some l"
        "ledger_in env file' = Some l'" "amounts_in l j = None \<or> amounts_in l j = Some (c, s)"
        "amounts_in l' = (amounts_in l)(j \<mapsto> (c, s))"
        by meson
      with granted show ?thesis by (intro that(2) [of l l']) (auto simp: Reserve a e)
    next
      case (denied x)
      with ok show ?thesis by (intro that(1)) (auto dest: reserve_denied)
    qed
  next
    case (Release j)
    with assms(1) have st: "granted (release env j file) = (g, file')" by (simp add: e)
    from st show ?thesis
    proof (cases rule: granted_cases)
      case (granted d)
      with release_allowed ok obtain l l' where "ledger_in env file = Some l"
        "ledger_in env file' = Some l'" "amounts_in l' = (amounts_in l)(j := None)"
        by meson
      with granted show ?thesis by (intro that(2) [of l l']) (auto simp: Release e)
    next
      case (denied x)
      with ok show ?thesis by (intro that(1)) (auto dest: release_denied)
    qed
  qed
qed

interpretation ledger_store: reservation_store ledger_good ledger_view ledger_cfg_of
    "\<lambda>e. env_ok (fst e)" ledger_step
proof
  fix e s q g s'
  assume ok: "env_ok (fst e)" and good: "ledger_good (ledger_cfg_of e) s"
    and st: "ledger_step e q s = (g, s')"
  from st ok show "ledger_good (ledger_cfg_of e) s'"
    by (cases rule: ledger_step_cases) (use good in \<open>auto simp: ledger_good_def ledger_cfg_of_def\<close>)
  from st ok show "ledger_view (ledger_cfg_of e) s' = apply_request (q, g) (ledger_view (ledger_cfg_of e) s)"
    by (cases rule: ledger_step_cases; cases q)
       (auto simp: ledger_view_def reserved_in_def ledger_cfg_of_def)
next
  fix e s j a s'
  assume "env_ok (fst e)" "ledger_step e (Reserve j a) s = (True, s')"
  then show "ledger_view (ledger_cfg_of e) s j = None \<or> ledger_view (ledger_cfg_of e) s j = Some a"
    by (elim ledger_step_cases) (auto simp: ledger_view_def reserved_in_def ledger_cfg_of_def)
qed

section \<open>Encoded size of a small ledger\<close>

lemma length_json_quote: "length (json_quote s) \<le> 6 * length s + 2"
proof -
  have "length (concat (map json_escape_char s)) \<le> 6 * length s"
    by (induction s) (auto simp: json_escape_char_def Let_def)
  then show ?thesis by (simp add: json_quote_def)
qed

lemma length_utf8_encode: "length (utf8_encode s) \<le> 2 * length s"
  by (induction s) (auto simp: utf8_char_def Let_def)

lemma length_ledger_checksum: "length (ledger_checksum p) = 71"
  using sha256_hexdigest_hex by (simp add: ledger_checksum_def all_hex_def)


lemma length_utf8_encode_le: "2 * length s \<le> n \<Longrightarrow> length (utf8_encode s) \<le> n"
  using length_utf8_encode [of s] by linarith


lemma length_encode_one_record:
  assumes "length job \<le> 60" "length made \<le> 40" "0 \<le> c" "c < 10 ^ 18" "0 \<le> s" "s < 10 ^ 18" "0 \<le> g" "g < 10 ^ 18"
  shows "length (encode_ledger \<lparr>ls_generation = g, ls_reservations =
      [\<lparr>rr_job_id = job, rr_core_bytes = c, rr_spool_bytes = s, rr_created_at = made\<rparr>]\<rparr>) \<le> 8192"
proof -
  define h where "h = ledger_checksum (ledger_payload (JStr LEDGER_SCHEMA) g [ReservationRecord_to_dict
    \<lparr>rr_job_id = job, rr_core_bytes = c, rr_spool_bytes = s, rr_created_at = made\<rparr>])"
  have h: "length h = 71" by (simp add: h_def length_ledger_checksum)
  have "length (int_str k) \<le> 18" if "0 \<le> k" "k < 10 ^ 18" for k
    using that length_nat_digits [of "nat k" 18] by (simp add: int_str_def nat_less_iff)
  with assms have "length (int_str c) \<le> 18" "length (int_str s) \<le> 18" "length (int_str g) \<le> 18"
    by simp_all
  note bounds = this assms(1,2) length_json_quote [of "''schema''"]
    length_json_quote [of "''generation''"] length_json_quote [of "''reservations''"]
    length_json_quote [of "''checksum''"] length_json_quote [of "''job_id''"]
    length_json_quote [of "''core_bytes''"] length_json_quote [of "''spool_bytes''"]
    length_json_quote [of "''created_at''"] length_json_quote [of LEDGER_SCHEMA]
    length_json_quote [of job] length_json_quote [of made] length_json_quote [of h]
  show ?thesis
    unfolding encode_ledger_def ledger_envelope_def Let_def
    using bounds
    by (simp add: h_def [symmetric] del: utf8_encode_simps)
       (simp add: ledger_payload_def ReservationRecord_to_dict_def newline_indent_def h
          LEDGER_SCHEMA_def length_utf8_encode_le del: utf8_encode_simps)
qed

section \<open>Thresholds\<close>

text \<open>What a healthy snapshot means for usage, reservations and free space.\<close>

definition within_thresholds :: "StorageLimits \<Rightarrow> StorageStatus \<Rightarrow> ReservationRecord list \<Rightarrow> bool" where
  "within_thresholds limits snap rs \<longleftrightarrow>
     tu_bytes (ss_core snap) + reserved_core_of rs \<le> core_high_water_bytes limits
     \<and> tu_bytes (ss_spool snap) + reserved_spool_of rs \<le> spool_high_water_bytes limits
     \<and> tu_bytes (ss_core snap) + tu_bytes (ss_spool snap) + reserved_core_of rs + reserved_spool_of rs
         \<le> total_high_water_bytes limits
     \<and> list_all (\<lambda>v. minimum_free_bytes limits \<le> vs_free_bytes v - vs_reserved_bytes v) (ss_volumes snap)
     \<and> sum_list (map vs_reserved_bytes (ss_volumes snap)) = reserved_core_of rs + reserved_spool_of rs"

lemma volume_status_reserved:
  assumes "volume_status env rc rs = Inr vs"
  shows "sum_list (map vs_reserved_bytes vs) = rc + rs
    \<and> list_all (\<lambda>v. vs_available_after_reservations_bytes v = vs_free_bytes v - vs_reserved_bytes v
         \<and> vs_minimum_free_bytes v = minimum_free_bytes (se_limits env)) vs"
proof -
  obtain v1 v2 where v: "se_core_volume env = Inr v1" "se_spool_volume env = Inr v2"
    using assms by (auto simp: volume_status_def group_volumes_def roots_of_def result_iff)
  show ?thesis
    using assms
    by (cases "v1 = v2"; cases "v1 \<le> v2")
       (auto simp: volume_status_def group_volumes_def roots_of_def result_iff v Let_def dict_get_def)
qed

lemma snapshot_healthy:
  assumes "snapshot env rs g t = Inr snap" "ss_healthy snap"
  shows "within_thresholds (se_limits env) snap rs"
  using assms
  by (auto simp: snapshot_def result_iff Let_def snapshot_reason_def within_thresholds_def not_less
      VolumeStatus_healthy_def list_all_iff split: if_splits dest!: volume_status_reserved)

lemma reserve_within_thresholds:
  assumes "reserve env j c s ts file = (Inr d, file')" "sd_allowed d" "env_ok env"
  shows "\<exists>l' snap. ledger_in env file' = Some l' \<and> sd_status d = Some snap
    \<and> within_thresholds (se_limits env) snap (ls_reservations l')"
  using assms(1)
proof (cases rule: reserve_body)
  case (error e)
  with assms show ?thesis by (simp add: error_decision_def)
next
  case (locked l t)
  show ?thesis
  proof (cases "find_reservation (ls_reservations l) j")
    case (Some r)
    with locked assms(2) show ?thesis
      by (auto simp: reserve_ledger_def reserve_existing_def result_iff split: if_splits
          dest: snapshot_healthy)
  next
    case None
    with locked have "reserve_new env l j c s t file = (Inr d, file')"
      by (simp add: reserve_ledger_def)
    with reserve_new_granted assms(2,3) locked None ledger_of_wf [OF locked(1)] obtain l' snap g
      where "snapshot env (ls_reservations l') g (Some t) = Inr snap" "ss_healthy snap"
        "sd_status d = Some snap" "ledger_in env file' = Some l'"
      by (metis LedgerState.select_convs(2) env_ok_def)
    then show ?thesis by (auto dest: snapshot_healthy)
  qed
qed

section \<open>Reconciliation\<close>

lemma reconcile_active_Inr:
  assumes "reconcile_active env active l file = (Inr d, file')" "wf_in env l"
    and "ledger_in env file = Some l"
  shows "\<exists>l'. ledger_in env file' = Some l'
    \<and> ls_reservations l' = filter (\<lambda>r. rr_job_id r \<in> set active) (ls_reservations l)"
proof (cases "filter (\<lambda>r. rr_job_id r \<notin> set active) (ls_reservations l) = []")
  case True
  then have "filter (\<lambda>r. rr_job_id r \<in> set active) (ls_reservations l) = ls_reservations l"
    by (simp add: filter_empty_conv)
  with True assms show ?thesis by (auto simp: reconcile_active_def)
next
  case False
  have "file' = LedgerDoc (ledger_envelope \<lparr>ls_generation = ls_generation l + 1,
      ls_reservations = filter (\<lambda>r. rr_job_id r \<in> set active) (ls_reservations l)\<rparr>)"
    using assms(1) False by (simp add: reconcile_active_def Let_def result_iff sort_key_Nil_iff)
  with wf_ledger_filter [OF assms(2), of "\<lambda>j. j \<in> set active"] show ?thesis
    by (auto simp: ledger_of_envelope)
qed

lemma normalize_reservation_Inr:
  assumes "normalize_reservation limits item n = Inr n'"
  shows "\<exists>c s. two_integers (snd item) = Some (c, s) \<and> n' = AList.update (fst item) (c, s) n
    \<and> durable_id (fst item) \<and> 0 \<le> c \<and> 0 \<le> s \<and> c + s \<noteq> 0 \<and> c + s \<le> max_job_reservation_bytes limits"
  using assms
  by (cases item) (auto simp: normalize_reservation_def result_iff split: option.splits)

definition valid_amounts :: "StorageLimits \<Rightarrow> (string \<times> int \<times> int) list \<Rightarrow> bool" where
  "valid_amounts limits n \<longleftrightarrow>
     distinct (map fst n) \<and>
     (\<forall>(j, c, s) \<in> set n. durable_id j \<and> 0 \<le> c \<and> 0 \<le> s \<and> c + s \<noteq> 0
        \<and> c + s \<le> max_job_reservation_bytes limits)"

lemma valid_amounts_update:
  assumes "valid_amounts limits n" "durable_id j" "0 \<le> c" "0 \<le> s" "c + s \<noteq> 0"
    and "c + s \<le> max_job_reservation_bytes limits"
  shows "valid_amounts limits (AList.update j (c, s) n)"
  using assms set_aupdate [of j "(c, s)" n] unfolding valid_amounts_def
  by (auto simp: distinct_aupdate)

lemma rfold_normalize:
  assumes "rfold (normalize_reservation limits) items n = Inr n'" "valid_amounts limits n"
    and "distinct (map fst items)" "fst ` set items \<inter> fst ` set n = {}"
  shows "valid_amounts limits n' \<and> length n' = length n + length items
    \<and> fst ` set n' = fst ` set n \<union> fst ` set items
    \<and> map_of n' = map_of n ++ (\<lambda>j. Option.bind (map_of items j) two_integers)"
  using assms
proof (induction items arbitrary: n)
  case (Cons item items)
  obtain n1 where n1: "normalize_reservation limits item n = Inr n1"
    and rest: "rfold (normalize_reservation limits) items n1 = Inr n'"
    using Cons.prems(1) by (auto simp: result_iff)
  obtain c s where cs: "two_integers (snd item) = Some (c, s)"
    and upd: "n1 = AList.update (fst item) (c, s) n" "valid_amounts limits n1"
    using normalize_reservation_Inr [OF n1] Cons.prems(2) valid_amounts_update by blast
  have new: "fst item \<notin> fst ` set n" "fst item \<notin> fst ` set items"
    using Cons.prems(3,4) by auto
  then have "length n1 = Suc (length n)" "fst ` set items \<inter> fst ` set n1 = {}"
    using Cons.prems(4) by (auto simp: upd aupdate_new)
  with Cons.IH [OF rest upd(2)] Cons.prems(3) new(2) cs show ?case
    by (cases item) (auto simp: upd(1) fun_eq_iff map_add_def map_of_eq_None_iff [symmetric]
        fst_aupdate split: option.splits)
qed (simp add: map_add_def)

lemma adopt_or_keep_job: "rr_job_id (adopt_or_keep ex now item) = fst item"
  by (auto simp: adopt_or_keep_def split: prod.splits option.splits dest: find_reservation_Some)

lemma find_adopted:
  "find_reservation (map (adopt_or_keep ex now) items) j =
     map_option (\<lambda>a. adopt_or_keep ex now (j, a)) (map_of items j)"
  by (induction items) (auto simp: find_reservation_def adopt_or_keep_job)

lemma map_of_sort_key:
  "distinct (map fst xs) \<Longrightarrow> map_of (sort_key fst xs) = map_of xs"
  by (rule map_of_inject_set [THEN iffD2]) (simp_all add: distinct_map_sort_key)

lemma adopted_amounts:
  assumes "concat (map (reservation_conflict ex) (sort_key fst n)) = []" "distinct (map fst n)"
  shows "amounts_in \<lparr>ls_generation = g,
    ls_reservations = map (adopt_or_keep ex now) (sort_key fst n)\<rparr> = map_of n"
proof
  fix j
  show "amounts_in \<lparr>ls_generation = g,
    ls_reservations = map (adopt_or_keep ex now) (sort_key fst n)\<rparr> j = map_of n j"
  proof (cases "map_of n j")
    case (Some a)
    then have "(j, a) \<in> set n" by (rule map_of_SomeD)
    with assms(1) have "find_reservation ex j = Some r \<Longrightarrow> a = (rr_core_bytes r, rr_spool_bytes r)" for r
      by (cases a) (fastforce simp: reservation_conflict_def split: if_splits)
    with Some assms(2) show ?thesis
      by (cases a) (auto simp: amounts_in_def find_adopted map_of_sort_key adopt_or_keep_def
          split: option.splits)
  qed (simp add: amounts_in_def find_adopted map_of_sort_key assms(2))
qed

lemma wf_adopted:
  assumes "wf_in env l" "valid_amounts (se_limits env) n" "clock_ok env"
    and "int (length n) \<le> max_reservations (se_limits env)"
    and "format_timestamp (se_clock env) = Inr now" "0 \<le> g"
  shows "wf_in env \<lparr>ls_generation = g,
    ls_reservations = map (adopt_or_keep (ls_reservations l) now) (sort_key fst n)\<rparr>"
proof -
  have "wf_record (se_fromisoformat env) (se_limits env) (adopt_or_keep (ls_reservations l) now (j, c, s))"
    if "(j, c, s) \<in> set n" for j c s
    using that assms clock_okD [OF assms(3,5)]
    by (auto simp: adopt_or_keep_def wf_ledger_def list_all_iff wf_record_def valid_amounts_def
        split: option.splits dest: find_reservation_Some)
  moreover have "rr_job_id \<circ> adopt_or_keep (ls_reservations l) now = fst"
    by (simp add: fun_eq_iff adopt_or_keep_job)
  ultimately show ?thesis
    using assms by (auto simp: wf_ledger_def list_all_iff valid_amounts_def distinct_map_sort_key)
qed

lemma reconcile_ledger_state:
  assumes "reconcile_ledger env n l file = (Inr d, file')" "sd_status d \<noteq> None"
    and "wf_in env l" "ledger_in env file = Some l" "valid_amounts (se_limits env) n" "clock_ok env"
    and "int (length n) \<le> max_reservations (se_limits env)"
  shows "\<exists>l'. ledger_in env file' = Some l' \<and> amounts_in l' = map_of n
    \<and> (\<forall>j r. find_reservation (ls_reservations l) j = Some r \<and> j \<in> fst ` set n \<longrightarrow>
         find_reservation (ls_reservations l') j = Some r)"
proof -
  let ?ex = "ls_reservations l" and ?items = "sort_key fst n"
  define changed where "changed \<longleftrightarrow> filter (\<lambda>i. find_reservation ?ex (fst i) = None) ?items \<noteq> []
    \<or> filter (\<lambda>r. rr_job_id r \<notin> set (map fst n)) ?ex \<noteq> []"
  have ok: "concat (map (reservation_conflict ?ex) ?items) = []"
    using assms(1,2)
    by (cases "concat (map (reservation_conflict ?ex) ?items) = []")
       (simp_all only: reconcile_ledger_def Let_def if_True if_False simp_thms mret_app prod.inject
          sum.inject, auto)
  obtain now where now: "format_timestamp (se_clock env) = Inr now"
    and file': "file' = (if changed then LedgerDoc (ledger_envelope
       \<lparr>ls_generation = ls_generation l + 1, ls_reservations = map (adopt_or_keep ?ex now) ?items\<rparr>)
       else file)"
    using assms(1) ok
    by (auto simp: reconcile_ledger_def changed_def Let_def result_iff sort_key_Nil_iff split: if_splits)
  have dn: "distinct (map fst n)" using assms(5) by (simp add: valid_amounts_def)
  have wf: "wf_in env \<lparr>ls_generation = ls_generation l + 1,
      ls_reservations = map (adopt_or_keep ?ex now) ?items\<rparr>"
    using assms(3) by (intro wf_adopted [OF assms(3,5,6,7) now]) (simp add: wf_ledger_def)
  show ?thesis
  proof (cases changed)
    case True
    have "find_reservation ?ex j = Some r \<Longrightarrow> j \<in> fst ` set n \<Longrightarrow>
        find_reservation (map (adopt_or_keep ?ex now) ?items) j = Some r" for j r
      using dn by (fastforce simp: find_adopted map_of_sort_key adopt_or_keep_def split: prod.splits)
    with True wf adopted_amounts [OF ok dn] show ?thesis
      by (auto simp: file' ledger_of_envelope)
  next
    case False
    have "amounts_in l j = map_of n j" for j
    proof (cases "map_of n j")
      case None
      with False have "find_reservation ?ex j = None"
        by (fastforce simp: changed_def find_reservation_None filter_empty_conv map_of_eq_None_iff)
      with None show ?thesis by (simp add: amounts_in_def)
    next
      case (Some a)
      then have a: "(j, a) \<in> set n" by (rule map_of_SomeD)
      with False obtain r where r: "find_reservation ?ex j = Some r"
        by (force simp: changed_def filter_empty_conv)
      with a ok Some show ?thesis
        by (cases a) (fastforce simp: amounts_in_def reservation_conflict_def split: if_splits)
    qed
    with False assms(4) show ?thesis by (auto simp: file')
  qed
qed

section \<open>Properties\<close>

text \<open>A concrete relay: default limits, one volume with a tebibyte free, small trees.\<close>

definition demo_env :: storage_env where
  "demo_env =
     \<lparr>se_limits = default_limits, se_core_root = ''/core'', se_spool_root = ''/spool'',
      se_clock = \<lparr>dt_aware = True, dt_utc_iso = ''2026-01-01T00:00:00+00:00''\<rparr>,
      se_fromisoformat = (\<lambda>_. Some (Some 0)), se_lock_fault = None, se_write = WriteOk,
      se_core_tree = (\<lambda>_. RootDir [] None), se_spool_tree = (\<lambda>_. RootDir [] None),
      se_core_volume = Inr ''dev:1'', se_spool_volume = Inr ''dev:1'',
      se_disk_free = (\<lambda>_. Inr 1099511627776)\<rparr>"

definition demo_tree :: StorageTreeSnapshot where
  "demo_tree =
     \<lparr>sts_core = \<lparr>tu_root = ''/core'', tu_bytes = 500, tu_files = 1, tu_links = 0,
                  tu_directories = 0, tu_entries = 1\<rparr>,
      sts_spool = \<lparr>tu_root = ''/spool'', tu_bytes = 900, tu_files = 2, tu_links = 0,
                   tu_directories = 1, tu_entries = 3\<rparr>\<rparr>"

definition demo_ledger :: LedgerState where
  "demo_ledger =
     \<lparr>ls_generation = 1, ls_reservations =
        [\<lparr>rr_job_id = ''job_a'', rr_core_bytes = 10, rr_spool_bytes = 20,
          rr_created_at = ''2026-01-01T00:00:00Z''\<rparr>]\<rparr>"

lemma demo_job_id: "durable_id ''job_a''" by code_simp

lemma demo_timestamp: "format_timestamp (se_clock demo_env) = Inr ''2026-01-01T00:00:00Z''"
  by (simp add: format_timestamp_def demo_env_def)

lemma demo_env_ok: "env_ok demo_env"
proof -
  have "clock_ok demo_env"
    by (simp only: clock_ok_def demo_timestamp sum.case)
       (simp add: parse_timestamp_def demo_env_def)
  then show ?thesis
    by (simp add: env_ok_def atomic_writes_def demo_env_def default_limits_valid)
qed

lemma demo_snapshot:
  "snapshot demo_env (ls_reservations demo_ledger) g (Some demo_tree) = Inr
     \<lparr>ss_healthy = True, ss_reason = HEALTHY, ss_core = sts_core demo_tree,
      ss_spool = sts_spool demo_tree, ss_reserved_core_bytes = 10, ss_reserved_spool_bytes = 20,
      ss_reservation_count = 1, ss_ledger_generation = g,
      ss_volumes = [\<lparr>vs_volume_id = ''dev:1'', vs_storage_families = [''core'', ''spool''],
        vs_free_bytes = 1099511627776, vs_reserved_bytes = 30,
        vs_available_after_reservations_bytes = 1099511627746,
        vs_minimum_free_bytes = 1073741824\<rparr>],
      ss_limits = default_limits\<rparr>"
  by (simp add: snapshot_def demo_ledger_def demo_tree_def demo_env_def reserved_core_of_def
      reserved_spool_of_def volume_status_def group_volumes_def roots_of_def dict_get_def Let_def
      disk_free_def snapshot_reason_def VolumeStatus_healthy_def default_limits_def GIB_def)

lemma demo_reserve_from:
  assumes "snapshot demo_env (ls_reservations demo_ledger) 1 (Some tree) = Inr snap" "ss_healthy snap"
  shows "\<exists>d. reserve demo_env ''job_a'' 10 20 (Some tree) LedgerAbsent
         = (Inr d, LedgerDoc (ledger_envelope demo_ledger)) \<and> sd_allowed d"
proof -
  have fits: "int (length (encode_ledger demo_ledger)) \<le> max_ledger_bytes (se_limits demo_env)"
    using length_encode_one_record [of "''job_a''" "''2026-01-01T00:00:00Z''" 10 20 1]
    by (simp add: demo_ledger_def demo_env_def default_limits_def MIB_def)
  have read: "read_ledger demo_env LedgerAbsent = (Inr \<lparr>ls_generation = 0, ls_reservations = []\<rparr>, LedgerAbsent)"
    by (simp add: read_ledger_def)
  have bytes: "validate_reservation_bytes 10 20 (se_limits demo_env) = Inr ()"
    by (simp add: validate_reservation_bytes_Inr demo_env_def default_limits_def GIB_def)
  have env: "se_lock_fault demo_env = None" "se_write demo_env = WriteOk"
    "\<not> max_reservations (se_limits demo_env) \<le> 0"
    by (simp_all add: demo_env_def default_limits_def)
  have "\<exists>d. reserve_new demo_env \<lparr>ls_generation = 0, ls_reservations = []\<rparr> ''job_a'' 10 20 tree
      LedgerAbsent = (Inr d, LedgerDoc (ledger_envelope demo_ledger)) \<and> sd_allowed d"
    using fits assms env unfolding demo_ledger_def
    by (simp add: reserve_new_def mbind_app demo_timestamp write_ledger_def Let_def)
  then show ?thesis
    using demo_job_id
    by (auto simp: reserve_def mbind_app read bytes ledger_lock_def reserve_ledger_def env
        find_reservation_def catch_policy_def validate_job_id_def validate_durable_id)
qed

lemma demo_reserve:
  "\<exists>d. reserve demo_env ''job_a'' 10 20 (Some demo_tree) LedgerAbsent
         = (Inr d, LedgerDoc (ledger_envelope demo_ledger)) \<and> sd_allowed d"
  by (rule demo_reserve_from [OF demo_snapshot]) simp

text \<open>
  C19: admission safety. When \<^verbatim>\<open>reserve\<close> grants (newly or by idempotent replay), the ledger it
  leaves holds exactly the requested amounts for the job, and with all its reservations added the
  core, spool and total high-water marks and every volume's free-space reserve are respected, the
  volumes accounting for every reserved byte.
\<close>

theorem reserve_grants_within_thresholds:
  assumes "env_ok env"
    and "reserve env job_id core_bytes spool_bytes tree file = (Inr d, file')" and "sd_allowed d"
  shows "reserved_in (se_fromisoformat env) (se_limits env) file' job_id = Some (core_bytes, spool_bytes)
    \<and> (\<exists>l snap. ledger_of (se_fromisoformat env) (se_limits env) file' = Some l
         \<and> sd_status d = Some snap
         \<and> within_thresholds (se_limits env) snap (ls_reservations l))"
  using reserve_allowed [OF assms(2,3,1)] reserve_within_thresholds [OF assms(2,3,1)]
  by (auto simp: reserved_in_def)

theorem reserve_grants_within_thresholds_witness:
  "reserved_in (se_fromisoformat demo_env) (se_limits demo_env)
     (LedgerDoc (ledger_envelope demo_ledger)) ''job_a'' = Some (10, 20)"
  using demo_reserve reserve_grants_within_thresholds [OF demo_env_ok] by blast

section \<open>Writes that happened but were reported as failed\<close>

text \<open>
  When reading the replaced ledger back or syncing its directory fails, the call is denied although the
  ledger has changed. Such a call leaves the file the same call leaves when that step succeeds.
\<close>

definition resynced :: "storage_env \<Rightarrow> storage_env" where
  "resynced env = (case se_write env of WriteUnsynced _ \<Rightarrow> env\<lparr>se_write := WriteOk\<rparr> | _ \<Rightarrow> env)"

definition own_writes :: "storage_env \<Rightarrow> bool" where
  "own_writes env = (case se_write env of WriteFailedAfter _ _ \<Rightarrow> False | _ \<Rightarrow> True)"

lemma write_irrelevant [simp]:
  "roots_of (env\<lparr>se_write := w\<rparr>) = roots_of env"
  "disk_free (env\<lparr>se_write := w\<rparr>) = disk_free env"
  "scan_pair (env\<lparr>se_write := w\<rparr>) = scan_pair env"
  "read_ledger (env\<lparr>se_write := w\<rparr>) = read_ledger env"
  "ledger_lock (env\<lparr>se_write := w\<rparr>) = ledger_lock env"
  by (simp_all add: fun_eq_iff roots_of_def disk_free_def scan_pair_def read_ledger_def ledger_lock_def split: ledger_file.split)

lemma write_irrelevant_snapshots [simp]:
  "capture_admission_snapshot (env\<lparr>se_write := w\<rparr>) = capture_admission_snapshot env"
  "snapshot (env\<lparr>se_write := w\<rparr>) rs g t = snapshot env rs g t"
proof -
  have "scan_attempts (env\<lparr>se_write := w\<rparr>) n m = scan_attempts env n m" for n m
    by (induction m arbitrary: n) (simp_all split: sum.split)
  then have "stable_tree_snapshot (env\<lparr>se_write := w\<rparr>) = stable_tree_snapshot env" by (simp add: stable_tree_snapshot_def)
  then show "capture_admission_snapshot (env\<lparr>se_write := w\<rparr>) = capture_admission_snapshot env"
    "snapshot (env\<lparr>se_write := w\<rparr>) rs g t = snapshot env rs g t"
    by (simp_all add: capture_admission_snapshot_def snapshot_def volume_status_def split: option.split)
qed

text \<open>The same state, and the same result unless a policy error replaces it.\<close>

definition fails_late :: "'a ledger_op \<Rightarrow> 'a ledger_op \<Rightarrow> bool" where
  "fails_late m m' \<longleftrightarrow> (\<forall>file. snd (m file) = snd (m' file)
     \<and> (m file = m' file \<or> (\<exists>e. fst (m file) = Inl (PolicyExn e))))"

lemma fails_late_refl [intro]: "fails_late m m"
  by (simp add: fails_late_def)

lemma fails_late_mbind: "(\<And>x. fails_late (f x) (f' x)) \<Longrightarrow> fails_late (mbind m f) (mbind m f')"
  by (simp add: fails_late_def mbind_app split: prod.split sum.split)

lemma fails_late_lock: "fails_late m m' \<Longrightarrow> fails_late (ledger_lock env m) (ledger_lock env m')"
  by (simp add: ledger_lock_def fails_late_refl split: option.split)

lemma fails_late_granted:
  assumes "fails_late m m'" "granted (catch_policy m fl) = (g, file')"
  shows "\<exists>g'. granted (catch_policy m' fl) = (g', file') \<and> (g \<longrightarrow> g')"
proof -
  have "snd (m fl) = snd (m' fl) \<and> (m fl = m' fl \<or> (\<exists>e. fst (m fl) = Inl (PolicyExn e)))"
    using assms(1) by (simp add: fails_late_def)
  with assms(2) show ?thesis
    by (cases "m fl"; cases "m' fl")
       (auto simp: granted_def catch_policy_def error_decision_def split: sum.splits storage_exn.splits)
qed

lemma unsynced_write:
  assumes "se_write env = WriteUnsynced e"
  shows "fails_late (mbind (write_ledger env l) (\<lambda>_. mret x)) (mbind (write_ledger (env\<lparr>se_write := WriteOk\<rparr>) l) (\<lambda>_. mret x))"
  by (simp add: fails_late_def write_ledger_def assms mbind_app)

lemma unsynced_step:
  assumes "se_write env = WriteUnsynced e" "ledger_step (env, tree) q file = (g, file')"
  shows "\<exists>g'. ledger_step (env\<lparr>se_write := WriteOk\<rparr>, tree) q file = (g', file') \<and> (g \<longrightarrow> g')"
proof (cases q)
  case (Reserve j a)
  obtain c s where a: "a = (c, s)" by (cases a)
  let ?env = "env\<lparr>se_write := WriteOk\<rparr>"
  have new: "fails_late (reserve_new env l j c s t) (reserve_new ?env l j c s t)" for l t
    unfolding reserve_new_def Let_def by (auto intro!: fails_late_mbind unsynced_write [OF assms(1)])
  have "reserve_existing ?env l r c s t = reserve_existing env l r c s t" for l r t
    by (simp add: reserve_existing_def)
  with new have body: "fails_late (reserve_ledger env j c s t l) (reserve_ledger ?env j c s t l)" for t l
    by (auto simp: reserve_ledger_def split: option.split)
  from assms(2) show ?thesis
    unfolding Reserve a ledger_step.simps reserve_def
    by (rule fails_late_granted [rotated], cases tree) (auto intro!: fails_late_mbind fails_late_lock body)
next
  case (Release j)
  have body: "fails_late (release_ledger env j l) (release_ledger (env\<lparr>se_write := WriteOk\<rparr>) j l)" for l
    unfolding release_ledger_def Let_def by (auto intro!: unsynced_write [OF assms(1)] split: option.split)
  from assms(2) show ?thesis
    unfolding Release ledger_step.simps release_def
    by (rule fails_late_granted [rotated]) (auto intro!: fails_late_mbind fails_late_lock body)
qed

lemma resynced_step:
  assumes "ledger_step (env, tree) q file = (g, file')"
  shows "\<exists>g'. ledger_step (resynced env, tree) q file = (g', file') \<and> (g \<longrightarrow> g')
    \<and> (g' \<noteq> g \<longrightarrow> (\<exists>e. se_write env = WriteUnsynced e))"
  using unsynced_step [OF _ assms] assms by (cases "se_write env") (auto simp: resynced_def)

lemma resynced_run:
  assumes "run_requests ledger_step requests fl = (flags, file')"
  shows "\<exists>effects. run_requests ledger_step (map (\<lambda>((env, tree), q). ((resynced env, tree), q)) requests) fl = (effects, file')
    \<and> length effects = length requests \<and> (\<forall>i < length requests. (flags ! i \<longrightarrow> effects ! i)
      \<and> (effects ! i \<noteq> flags ! i \<longrightarrow> (\<exists>e. se_write (fst (fst (requests ! i))) = WriteUnsynced e)))"
  using assms
proof (induction requests arbitrary: fl flags)
  case (Cons r requests)
  obtain env tree q where r: "r = ((env, tree), q)" by (metis prod.exhaust)
  obtain g file1 where st: "ledger_step (env, tree) q fl = (g, file1)" by fastforce
  obtain flags1 where run: "run_requests ledger_step requests file1 = (flags1, file')" and flags: "flags = g # flags1"
    using Cons.prems by (auto simp: r st split: prod.splits)
  obtain g' where g': "ledger_step (resynced env, tree) q fl = (g', file1)" "g \<longrightarrow> g'"
    "g' \<noteq> g \<longrightarrow> (\<exists>e. se_write env = WriteUnsynced e)" using resynced_step [OF st] by blast
  obtain effects where effects:
    "run_requests ledger_step (map (\<lambda>((env, tree), q). ((resynced env, tree), q)) requests) file1 = (effects, file')"
    "length effects = length requests" "\<forall>i < length requests. (flags1 ! i \<longrightarrow> effects ! i)
      \<and> (effects ! i \<noteq> flags1 ! i \<longrightarrow> (\<exists>e. se_write (fst (fst (requests ! i))) = WriteUnsynced e))"
    using Cons.IH [OF run] by blast
  show ?case
  proof (intro exI [of _ "g' # effects"] conjI allI impI)
    fix i assume "i < length (r # requests)"
    then show "\<exists>e. se_write (fst (fst ((r # requests) ! i))) = WriteUnsynced e"
      if "(g' # effects) ! i \<noteq> flags ! i" using that effects(3) g'(2,3) by (cases i) (auto simp: r flags)
    show "(g' # effects) ! i" if "flags ! i" using \<open>i < _\<close> that effects(3) g'(2) by (cases i) (auto simp: flags)
  qed (use effects(1,2) g'(1) in \<open>simp_all add: r\<close>)
qed simp

lemma resynced_ok:
  assumes "valid_limits (se_limits env)" "clock_ok env" "own_writes env"
  shows "env_ok (resynced env)"
  using assms by (cases "se_write env") (auto simp: env_ok_def resynced_def own_writes_def atomic_writes_def clock_ok_def split: sum.splits)

lemma resynced_cfg: "ledger_cfg_of (resynced env, tree) = ledger_cfg_of (env, tree)"
  by (cases "se_write env") (simp_all add: resynced_def ledger_cfg_of_def)

text \<open>
  C20: the ledger refines the abstract reservation map. Whatever sequence of reserve and release
  calls is made, under whatever clocks, trees, volumes and lock or write faults, the readable
  ledger stays readable and its reservations are those of the abstract map in which each call either is
  a map update or does nothing: a granted call is the update, and a denied call does nothing, unless
  the replacement of the file had happened and reading it back or syncing the directory then
  failed, where the call is reported as denied and may have been the update. The one
  write fault left out is a read-back that finds bytes the relay did not write, after which the
  ledger is that foreign file.
\<close>

theorem ledger_requests_refine_map:
  assumes "run_requests ledger_step requests file = (granted_flags, file')"
    and "ledger_of fiso limits file \<noteq> None"
    and "\<forall>((env, tree), q) \<in> set requests. valid_limits (se_limits env) \<and> clock_ok env \<and> own_writes env
           \<and> se_fromisoformat env = fiso \<and> se_limits env = limits"
  shows "ledger_of fiso limits file' \<noteq> None
    \<and> (\<exists>effects. length effects = length requests
        \<and> reserved_in fiso limits file' =
            fold apply_request (zip (map snd requests) effects) (reserved_in fiso limits file)
        \<and> (\<forall>i < length requests. (granted_flags ! i \<longrightarrow> effects ! i)
            \<and> (effects ! i \<noteq> granted_flags ! i \<longrightarrow> (\<exists>e. se_write (fst (fst (requests ! i))) = WriteUnsynced e))))"
proof -
  let ?resynced = "map (\<lambda>((env, tree), q). ((resynced env, tree), q)) requests"
  obtain effects where run: "run_requests ledger_step ?resynced file = (effects, file')" "length effects = length requests"
    "\<forall>i < length requests. (granted_flags ! i \<longrightarrow> effects ! i)
      \<and> (effects ! i \<noteq> granted_flags ! i \<longrightarrow> (\<exists>e. se_write (fst (fst (requests ! i))) = WriteUnsynced e))"
    using resynced_run [OF assms(1)] by blast
  have "env_ok (resynced env) \<and> ledger_cfg_of (resynced env, tree) = (fiso, limits)" if "((env, tree), q) \<in> set requests" for env tree q
    using assms(3) that resynced_ok [of env] resynced_cfg [of env tree] by (auto simp: ledger_cfg_of_def)
  then have "list_all (\<lambda>(env, q). env_ok (fst env) \<and> ledger_cfg_of env = (fiso, limits)) ?resynced"
    by (auto simp: list_all_iff)
  from ledger_store.run_refines [OF run(1) _ this] assms(2)
  have "ledger_of fiso limits file' \<noteq> None"
    "reserved_in fiso limits file' = fold apply_request (zip (map snd ?resynced) effects) (reserved_in fiso limits file)"
    by (simp_all add: ledger_good_def ledger_view_def)
  moreover have "map snd ?resynced = map snd requests" by auto
  ultimately show ?thesis using run(2,3) by metis
qed

lemma ledger_absent:
  "ledger_of fiso limits LedgerAbsent = Some \<lparr>ls_generation = 0, ls_reservations = []\<rparr>"
  "reserved_in fiso limits LedgerAbsent = Map.empty"
  by (auto simp: ledger_of_def reserved_in_def amounts_in_def find_reservation_def fun_eq_iff)

lemma demo_step:
  "ledger_step (demo_env, Some demo_tree) (Reserve ''job_a'' (10, 20)) LedgerAbsent
     = (True, LedgerDoc (ledger_envelope demo_ledger))"
  using demo_reserve by (auto simp: granted_def)

text \<open>
  A reservation is never resized, stolen or leaked by another job's calls: in any run of
  reserve and release calls, a job none of them names keeps its reservation unchanged.
\<close>

theorem ledger_requests_frame:
  assumes "run_requests ledger_step requests file = (granted_flags, file')"
    and "ledger_of fiso limits file \<noteq> None"
    and "\<forall>((env, tree), q) \<in> set requests.
           env_ok env \<and> se_fromisoformat env = fiso \<and> se_limits env = limits"
    and "job_id \<notin> request_job ` snd ` set requests"
  shows "reserved_in fiso limits file' job_id = reserved_in fiso limits file job_id"
proof -
  have "list_all (\<lambda>(env, q). env_ok (fst env) \<and> ledger_cfg_of env = (fiso, limits)) requests"
    using assms(3) by (fastforce simp: list_all_iff ledger_cfg_of_def)
  from ledger_store.run_frame [OF assms(1) _ this assms(4)] assms(2) show ?thesis
    by (simp add: ledger_good_def ledger_view_def)
qed

theorem ledger_requests_frame_witness:
  "reserved_in (se_fromisoformat demo_env) (se_limits demo_env)
     (LedgerDoc (ledger_envelope demo_ledger)) ''job_b'' = None"
  using ledger_requests_frame
    [of "[((demo_env, Some demo_tree), Reserve ''job_a'' (10, 20))]" LedgerAbsent "[True]"
      "LedgerDoc (ledger_envelope demo_ledger)" "se_fromisoformat demo_env" "se_limits demo_env"
      "''job_b''"]
    demo_env_ok demo_step
  by (simp add: ledger_absent)

text \<open>
  Releasing a job after reserving it restores the ledger's reservations exactly, whatever
  else was reserved before.
\<close>

theorem reserve_then_release:
  assumes "env_ok env1" and "env_ok env2"
    and "se_fromisoformat env2 = se_fromisoformat env1" and "se_limits env2 = se_limits env1"
    and "reserved_in (se_fromisoformat env1) (se_limits env1) file job_id = None"
    and "reserve env1 job_id core_bytes spool_bytes tree file = (Inr d1, file1)" and "sd_allowed d1"
    and "release env2 job_id file1 = (Inr d2, file2)" and "sd_allowed d2"
  shows "reserved_in (se_fromisoformat env1) (se_limits env1) file2 =
         reserved_in (se_fromisoformat env1) (se_limits env1) file"
  using reserve_allowed [OF assms(6,7,1)] release_allowed [OF assms(8,9,2)] assms(3,4,5)
  by (auto simp: reserved_in_def fun_eq_iff)

text \<open>
  \<^verbatim>\<open>reconcile\<close> keeps exactly the reservations of the active jobs, as they were, and releases
  all others; when it is denied the ledger is untouched.
\<close>

theorem reconcile_keeps_exactly_active:
  assumes "env_ok env" and "reconcile env active file = (Inr d, file')"
  shows "if sd_allowed d
    then \<exists>l l'. ledger_of (se_fromisoformat env) (se_limits env) file = Some l
           \<and> ledger_of (se_fromisoformat env) (se_limits env) file' = Some l'
           \<and> ls_reservations l' = filter (\<lambda>r. rr_job_id r \<in> set active) (ls_reservations l)
    else file' = file"
proof -
  have aw: "atomic_writes env" using assms(1) by (simp add: env_ok_def)
  have keep: "reconcile_active env a l f = (Inl e, f') \<Longrightarrow> f' = f" for a l f e f'
    using aw by (auto simp: reconcile_active_def Let_def mbind_eq_Inl split: if_splits
        dest: write_ledger_Inl)
  have allowed: "reconcile_active env a l f = (Inr d, f') \<Longrightarrow> sd_allowed d" for a l f f'
    by (auto simp: reconcile_active_def Let_def result_iff split: if_splits)
  from assms(2) show ?thesis
    unfolding reconcile_def catch_policy_Inr Let_def
  proof (elim disjE exE conjE, goal_cases)
    case 1
    then obtain l where l: "ledger_in env file = Some l"
      and run: "reconcile_active env (remdups active) l file = (Inr d, file')"
      by (auto simp: result_iff split: if_splits)
    from reconcile_active_Inr [OF run _ l] ledger_of_wf [OF l] assms(1) allowed [OF run] l
    show ?case by (auto simp: env_ok_def)
  next
    case (2 e)
    then have "file' = file"
      by (auto simp: result_iff mbind_eq_Inl ledger_lock_Inl split: if_splits
          dest: read_ledger_Inl keep)
    with 2 show ?case by (simp add: error_decision_def)
  qed
qed

lemma reconcile_reservations_adopts:
  assumes "env_ok env" and "distinct (map fst active)"
    and "reconcile_reservations env active file = (Inr d, file')" and "sd_status d \<noteq> None"
  shows "reserved_in (se_fromisoformat env) (se_limits env) file' =
           (\<lambda>job_id. Option.bind (map_of active job_id) two_integers)
    \<and> (\<exists>l l'. ledger_of (se_fromisoformat env) (se_limits env) file = Some l
         \<and> ledger_of (se_fromisoformat env) (se_limits env) file' = Some l'
         \<and> (\<forall>job_id r. find_reservation (ls_reservations l) job_id = Some r
              \<and> job_id \<in> fst ` set active \<longrightarrow>
              find_reservation (ls_reservations l') job_id = Some r))"
proof -
  have "\<exists>n l. rfold (normalize_reservation (se_limits env)) active [] = Inr n
    \<and> int (length active) \<le> max_reservations (se_limits env) \<and> ledger_in env file = Some l
    \<and> reconcile_ledger env n l file = (Inr d, file')"
    using assms(3,4) unfolding reconcile_reservations_def
    by (auto simp: result_iff error_decision_def split: if_splits)
  then obtain n l where n: "rfold (normalize_reservation (se_limits env)) active [] = Inr n"
    and len: "int (length active) \<le> max_reservations (se_limits env)"
    and l: "ledger_in env file = Some l"
    and run: "reconcile_ledger env n l file = (Inr d, file')" by blast
  have nv: "valid_amounts (se_limits env) n" "length n = length active"
    "map_of n = (\<lambda>j. Option.bind (map_of active j) two_integers)" "fst ` set n = fst ` set active"
    using rfold_normalize [OF n _ assms(2)] by (simp_all add: valid_amounts_def)
  have "wf_in env l" "clock_ok env" using assms(1) l by (simp_all add: env_ok_def ledger_of_wf)
  from reconcile_ledger_state [OF run assms(4) this(1) l nv(1) this(2)] len nv(2) obtain l'
    where l': "ledger_in env file' = Some l'" "amounts_in l' = map_of n"
      "\<forall>j r. find_reservation (ls_reservations l) j = Some r \<and> j \<in> fst ` set n \<longrightarrow>
         find_reservation (ls_reservations l') j = Some r"
    by auto
  with l nv(3,4) show ?thesis by (auto simp: reserved_in_def)
qed

lemma reconcile_reservations_allowed_status:
  assumes "reconcile_reservations env active file = (Inr d, file')" "sd_allowed d"
  shows "sd_status d \<noteq> None"
  using assms unfolding reconcile_reservations_def
  by (auto simp: result_iff error_decision_def reconcile_ledger_def Let_def split: if_splits)

text \<open>
  C34: startup reconciliation adopts reality. Whenever \<^verbatim>\<open>reconcile_reservations\<close> gets as far as a
  storage snapshot (granted, or refused under pressure), the ledger it leaves reserves exactly
  the amounts of the active jobs and of no other, and every existing reservation of an active job
  is kept as it was, timestamp included.
\<close>

theorem reconcile_reservations_adopts_active:
  assumes "env_ok env" and "distinct (map fst active)"
    and "reconcile_reservations env active file = (Inr d, file')" and "sd_status d \<noteq> None"
  shows "reserved_in (se_fromisoformat env) (se_limits env) file' =
           (\<lambda>job_id. Option.bind (map_of active job_id) two_integers)
    \<and> (\<exists>l l'. ledger_of (se_fromisoformat env) (se_limits env) file = Some l
         \<and> ledger_of (se_fromisoformat env) (se_limits env) file' = Some l'
         \<and> (\<forall>job_id r. find_reservation (ls_reservations l) job_id = Some r
              \<and> job_id \<in> fst ` set active \<longrightarrow>
              find_reservation (ls_reservations l') job_id = Some r))"
  by (rule reconcile_reservations_adopts [OF assms])

section \<open>Witnesses\<close>

lemma length_encode_no_record:
  assumes "0 \<le> g" "g < 10 ^ 18"
  shows "length (encode_ledger \<lparr>ls_generation = g, ls_reservations = []\<rparr>) \<le> 8192"
proof -
  define h where "h = ledger_checksum (ledger_payload (JStr LEDGER_SCHEMA) g [])"
  have h: "length h = 71" by (simp add: h_def length_ledger_checksum)
  have "length (int_str g) \<le> 18"
    using assms length_nat_digits [of "nat g" 18] by (simp add: int_str_def nat_less_iff)
  note bounds = this length_json_quote [of "''schema''"]
    length_json_quote [of "''generation''"] length_json_quote [of "''reservations''"]
    length_json_quote [of "''checksum''"] length_json_quote [of LEDGER_SCHEMA] length_json_quote [of h]
  show ?thesis
    unfolding encode_ledger_def ledger_envelope_def Let_def
    using bounds
    by (simp add: h_def [symmetric] del: utf8_encode_simps)
       (simp add: ledger_payload_def newline_indent_def h LEDGER_SCHEMA_def length_utf8_encode_le
          del: utf8_encode_simps)
qed

lemma demo_ledger_in: "ledger_in demo_env (LedgerDoc (ledger_envelope demo_ledger)) = Some demo_ledger"
proof -
  have "wf_in demo_env demo_ledger"
    using demo_job_id by (simp add: wf_ledger_def wf_record_def demo_ledger_def demo_env_def
        parse_timestamp_def default_limits_def GIB_def)
  then show ?thesis by (rule ledger_of_envelope)
qed

lemma demo_env_fields:
  "se_lock_fault demo_env = None" "se_write demo_env = WriteOk"
  "max_ledger_bytes (se_limits demo_env) = 8388608" "max_reservations (se_limits demo_env) = 50000"
  by (simp_all add: demo_env_def default_limits_def MIB_def)

lemma demo_read:
  "read_ledger demo_env (LedgerDoc (ledger_envelope demo_ledger))
     = (Inr demo_ledger, LedgerDoc (ledger_envelope demo_ledger))"
  using demo_ledger_in by (simp add: read_ledger_Inr)

lemma demo_validate: "validate_job_id (JStr ''job_a'') = Inr ''job_a''"
  using demo_job_id by (simp add: validate_job_id_Inr)

lemma demo_release:
  "\<exists>d. release demo_env ''job_a'' (LedgerDoc (ledger_envelope demo_ledger))
         = (Inr d, LedgerDoc (ledger_envelope \<lparr>ls_generation = 2, ls_reservations = []\<rparr>)) \<and> sd_allowed d"
  using length_encode_no_record [of 2]
  by (simp add: release_def mbind_app demo_validate ledger_lock_def demo_env_fields demo_read
      release_ledger_def find_reservation_def write_ledger_def catch_policy_def)
     (simp add: demo_ledger_def mbind_app write_ledger_def demo_env_fields)

definition demo_unsynced :: storage_env where
  "demo_unsynced = demo_env\<lparr>se_write := WriteUnsynced (policy_error PERSISTENCE_FAILURE
     ''storage reservation ledger could not be persisted atomically'' [(''error'', JStr ''OSError'')])\<rparr>"

lemma demo_unsynced_release:
  "ledger_step (demo_unsynced, None) (Release ''job_a'') (LedgerDoc (ledger_envelope demo_ledger))
     = (False, LedgerDoc (ledger_envelope \<lparr>ls_generation = 2, ls_reservations = []\<rparr>))"
proof -
  have "release_ledger demo_unsynced ''job_a'' demo_ledger (LedgerDoc (ledger_envelope demo_ledger))
      = (Inl (PolicyExn (policy_error PERSISTENCE_FAILURE ''storage reservation ledger could not be persisted atomically''
          [(''error'', JStr ''OSError'')])), LedgerDoc (ledger_envelope \<lparr>ls_generation = 2, ls_reservations = []\<rparr>))"
    using length_encode_no_record [of 2]
    by (simp add: release_ledger_def demo_ledger_def find_reservation_def mbind_app write_ledger_def demo_unsynced_def demo_env_fields)
  moreover have "read_ledger demo_unsynced = read_ledger demo_env" "se_lock_fault demo_unsynced = None"
    by (simp_all add: demo_unsynced_def demo_env_fields)
  ultimately show ?thesis
    by (simp add: release_def mbind_app demo_validate ledger_lock_def demo_env_fields demo_read catch_policy_def granted_def
        error_decision_def)
qed

text \<open>A reservation, and a release whose directory could not be synced: denied, and the ledger is empty.\<close>

theorem ledger_requests_refine_map_witness:
  "\<exists>effects. run_requests ledger_step [((demo_env, Some demo_tree), Reserve ''job_a'' (10, 20)), ((demo_unsynced, None), Release ''job_a'')]
       LedgerAbsent = ([True, False], LedgerDoc (ledger_envelope \<lparr>ls_generation = 2, ls_reservations = []\<rparr>))
     \<and> length effects = 2 \<and> effects ! 0
     \<and> reserved_in (se_fromisoformat demo_env) (se_limits demo_env)
         (LedgerDoc (ledger_envelope \<lparr>ls_generation = 2, ls_reservations = []\<rparr>))
       = fold apply_request (zip [Reserve ''job_a'' (10, 20), Release ''job_a''] effects) Map.empty"
proof -
  let ?rs = "[((demo_env, Some demo_tree), Reserve ''job_a'' (10, 20)), ((demo_unsynced, None), Release ''job_a'')]"
  have run: "run_requests ledger_step ?rs LedgerAbsent
      = ([True, False], LedgerDoc (ledger_envelope \<lparr>ls_generation = 2, ls_reservations = []\<rparr>))"
    using demo_step demo_unsynced_release by (simp del: ledger_step.simps)
  have ok: "valid_limits (se_limits demo_env)" "clock_ok demo_env" "own_writes demo_env"
    using demo_env_ok by (simp_all add: env_ok_def own_writes_def demo_env_fields)
  then have "clock_ok demo_unsynced" by (simp add: demo_unsynced_def clock_ok_def split: sum.splits)
  with ok have all: "\<forall>((env, tree), q) \<in> set ?rs. valid_limits (se_limits env) \<and> clock_ok env \<and> own_writes env
      \<and> se_fromisoformat env = se_fromisoformat demo_env \<and> se_limits env = se_limits demo_env"
    by (simp add: demo_unsynced_def own_writes_def)
  have absent: "ledger_of (se_fromisoformat demo_env) (se_limits demo_env) LedgerAbsent \<noteq> None" by (simp add: ledger_absent)
  from ledger_requests_refine_map [OF run absent all] obtain effects where e: "length effects = length ?rs"
    "reserved_in (se_fromisoformat demo_env) (se_limits demo_env)
         (LedgerDoc (ledger_envelope \<lparr>ls_generation = 2, ls_reservations = []\<rparr>))
       = fold apply_request (zip (map snd ?rs) effects) (reserved_in (se_fromisoformat demo_env) (se_limits demo_env) LedgerAbsent)"
    "\<forall>i < length ?rs. [True, False] ! i \<longrightarrow> effects ! i" by blast
  have "effects ! 0" using e(3) [rule_format, of 0] by simp
  with e(1,2) run show ?thesis by (intro exI [of _ effects]) (simp add: ledger_absent)
qed

theorem reserve_then_release_witness:
  "reserved_in (se_fromisoformat demo_env) (se_limits demo_env)
     (LedgerDoc (ledger_envelope \<lparr>ls_generation = 2, ls_reservations = []\<rparr>)) = Map.empty"
  using demo_reserve demo_release
    reserve_then_release [OF demo_env_ok demo_env_ok refl refl, of LedgerAbsent "''job_a''"]
  by (auto simp: ledger_absent)

theorem reconcile_keeps_exactly_active_witness:
  "\<exists>l'. ledger_of (se_fromisoformat demo_env) (se_limits demo_env)
     (LedgerDoc (ledger_envelope \<lparr>ls_generation = 2, ls_reservations = []\<rparr>)) = Some l'
     \<and> ls_reservations l' = []"
proof -
  have "\<exists>d. reconcile demo_env [] (LedgerDoc (ledger_envelope demo_ledger))
         = (Inr d, LedgerDoc (ledger_envelope \<lparr>ls_generation = 2, ls_reservations = []\<rparr>)) \<and> sd_allowed d"
    using length_encode_no_record [of 2]
    by (simp add: reconcile_def mbind_app ledger_lock_def demo_env_fields demo_read
        reconcile_active_def write_ledger_def catch_policy_def)
       (simp add: demo_ledger_def mbind_app write_ledger_def demo_env_fields)
  with reconcile_keeps_exactly_active [OF demo_env_ok] show ?thesis by fastforce
qed

lemma demo_scan: "scan_pair demo_env attempt = Inr
   (\<lparr>tu_root = ''/core'', tu_bytes = 0, tu_files = 0, tu_links = 0, tu_directories = 1, tu_entries = 0\<rparr>,
    \<lparr>tu_root = ''/spool'', tu_bytes = 0, tu_files = 0, tu_links = 0, tu_directories = 1, tu_entries = 0\<rparr>)"
  by (simp add: scan_pair_def demo_env_def default_limits_def TIB_def) code_simp

lemma demo_reconcile:
  "\<exists>d. reconcile_reservations demo_env [(''job_a'', AmountsTuple [JInt 10, JInt 20])] LedgerAbsent
         = (Inr d, LedgerDoc (ledger_envelope demo_ledger)) \<and> sd_allowed d \<and> sd_status d \<noteq> None"
proof -
  have bytes: "validate_reservation_bytes 10 20 (se_limits demo_env) = Inr ()"
    by (simp add: validate_reservation_bytes_Inr demo_env_def default_limits_def GIB_def)
  have "snapshot_reason (se_limits demo_env)
      \<lparr>tu_root = ''/core'', tu_bytes = 0, tu_files = 0, tu_links = 0, tu_directories = 1, tu_entries = 0\<rparr>
      \<lparr>tu_root = ''/spool'', tu_bytes = 0, tu_files = 0, tu_links = 0, tu_directories = 1, tu_entries = 0\<rparr>
      10 20 vs = HEALTHY" if "list_all VolumeStatus_healthy vs" for vs
    using that by (simp add: snapshot_reason_def demo_env_def default_limits_def GIB_def)
  then have snap: "\<exists>s. snapshot demo_env (ls_reservations demo_ledger) 1 None = Inr s \<and> ss_healthy s"
    using demo_snapshot [of 1]
    by (auto simp: snapshot_def stable_tree_snapshot_def STORAGE_SNAPSHOT_SCAN_ATTEMPTS_def
        eval_nat_numeral demo_scan result_iff Let_def VolumeStatus_healthy_def split: prod.splits if_splits)
  show ?thesis
    using snap length_encode_one_record [of "''job_a''" "''2026-01-01T00:00:00Z''" 10 20 1]
    by (auto simp: reconcile_reservations_def mbind_app demo_validate normalize_reservation_def
        two_integers_def bytes ledger_lock_def demo_env_fields read_ledger_def reconcile_ledger_def
        reservation_conflict_def find_reservation_def demo_timestamp adopt_or_keep_def Let_def
        write_ledger_def catch_policy_def demo_ledger_def)
qed

theorem reconcile_reservations_adopts_active_witness:
  "reserved_in (se_fromisoformat demo_env) (se_limits demo_env)
     (LedgerDoc (ledger_envelope demo_ledger)) = [''job_a'' \<mapsto> (10, 20)]"
  using demo_reconcile reconcile_reservations_adopts_active
    [OF demo_env_ok, of "[(''job_a'', AmountsTuple [JInt 10, JInt 20])]"]
  by (fastforce simp: two_integers_def fun_eq_iff)

section \<open>A damaged checksum\<close>

definition with_checksum :: "LedgerState \<Rightarrow> string \<Rightarrow> json" where
  "with_checksum l checksum = JObj (ledger_payload (JStr LEDGER_SCHEMA) (ls_generation l)
     (map ReservationRecord_to_dict (ls_reservations l)) @ [(''checksum'', JStr checksum)])"

definition damaged :: "LedgerState \<Rightarrow> string \<Rightarrow> bool" where
  "damaged l checksum \<longleftrightarrow> with_checksum l checksum \<noteq> ledger_envelope l"

definition damage_error :: "string \<Rightarrow> storage_exn" where
  "damage_error checksum =
     (if ascii checksum then PolicyExn (malformed ''storage reservation ledger checksum does not match its content'')
      else TypeExn ''comparing strings with non-ASCII characters is not supported'')"

lemma read_damaged:
  assumes "wf_ledger (se_fromisoformat env) (se_limits env) l" "damaged l checksum"
  shows "read_ledger env (LedgerDoc (with_checksum l checksum)) = (Inl (damage_error checksum), LedgerDoc (with_checksum l checksum))"
proof -
  have "checksum \<noteq> ledger_checksum (ledger_payload (JStr LEDGER_SCHEMA) (ls_generation l) (map ReservationRecord_to_dict (ls_reservations l)))"
    using assms(2) by (auto simp: damaged_def with_checksum_def ledger_envelope_def Let_def)
  with assms(1) checksum_ascii show ?thesis
    by (auto simp: read_ledger_def with_checksum_def decode_ledger_def ledger_payload_def keys_are_def doc_get_def dict_get_def
        wf_ledger_def insert_commute checksum_matches_def compare_digest_def damage_error_def)
qed

text \<open>
  C40: a ledger with a damaged checksum is refused, but not always by a decision. Take a well-formed ledger whose checksum
  has been replaced by another string. Reserving, releasing and verifying leave the file as it is; if the
  string is ASCII, each returns the denied decision of a malformed ledger, as every other damage does; if it has a
  character outside ASCII, each raises the \<^verbatim>\<open>TypeError\<close> of \<^verbatim>\<open>hmac.compare_digest\<close>, which the operations do not catch.
\<close>

theorem damaged_checksum_outcome:
  assumes "wf_ledger (se_fromisoformat env) (se_limits env) l" "damaged l checksum" "se_lock_fault env = None"
    and "durable_id j" "validate_reservation_bytes c s (se_limits env) = Inr ()"
    and "file = LedgerDoc (with_checksum l checksum)"
    and "r = (if ascii checksum
       then Inr (error_decision (malformed ''storage reservation ledger checksum does not match its content''))
       else Inl (TypeExn ''comparing strings with non-ASCII characters is not supported''))"
  shows "reserve env j c s (Some tree) file = (r, file) \<and> release env j file = (r, file)
    \<and> verify_reservation env j c s file = (r, file)"
proof -
  have "validate_job_id (JStr j) = Inr j" using assms(4) by (simp add: validate_job_id_Inr)
  with assms(3,5,6,7) read_damaged [OF assms(1,2)] show ?thesis
    by (simp add: reserve_def release_def verify_reservation_def mbind_app ledger_lock_def catch_policy_def damage_error_def)
qed

theorem damaged_checksum_outcome_witness:
  "release demo_env ''job_a'' (LedgerDoc (with_checksum demo_ledger [char_of (233 :: nat)]))
     = (Inl (TypeExn ''comparing strings with non-ASCII characters is not supported''),
        LedgerDoc (with_checksum demo_ledger [char_of (233 :: nat)]))
   \<and> release demo_env ''job_a'' (LedgerDoc (with_checksum demo_ledger ''e''))
     = (Inr (error_decision (malformed ''storage reservation ledger checksum does not match its content'')),
        LedgerDoc (with_checksum demo_ledger ''e''))"
proof -
  have wf: "wf_ledger (se_fromisoformat demo_env) (se_limits demo_env) demo_ledger"
    using demo_ledger_in ledger_of_wf demo_env_ok by (auto simp: env_ok_def)
  have damaged: "damaged demo_ledger [x]" for x
    using length_ledger_checksum [of "ledger_payload (JStr LEDGER_SCHEMA) (ls_generation demo_ledger)
      (map ReservationRecord_to_dict (ls_reservations demo_ledger))"]
    by (auto simp: damaged_def with_checksum_def ledger_envelope_def Let_def dest!: arg_cong [where f = length])
  have bytes: "validate_reservation_bytes 10 20 (se_limits demo_env) = Inr ()"
    by (simp add: validate_reservation_bytes_Inr demo_env_def default_limits_def GIB_def)
  note out = damaged_checksum_outcome [OF wf damaged demo_env_fields(1) demo_job_id bytes refl refl, THEN conjunct2, THEN conjunct1]
  have "\<not> ascii [char_of (233 :: nat)]" "ascii ''e''" by (simp_all add: ascii_def)
  with out [of "char_of (233 :: nat)"] out [of "CHR ''e''"] show ?thesis by simp
qed

end
