(* ===== verification/Models.thy ===== *)
theory Models
  imports Identifiers
begin

text \<open>
  The durable records of the queue: \<^verbatim>\<open>models_enums.py\<close>, \<^verbatim>\<open>models_job_specs.py\<close>, \<^verbatim>\<open>models_shared.py\<close>,
  \<^verbatim>\<open>models_job.py\<close> and \<^verbatim>\<open>models_job_telemetry.py\<close>, with the validators the relay itself wrote. An
  aware UTC \<^verbatim>\<open>datetime\<close> is its number of microseconds since the epoch. The queue model stores
  these records directly: what pydantic dumps and validates back is the record itself.
\<close>

type_synonym timestamp = int

section \<open>Enumerations\<close>

datatype JobKind = JARVIS | REMOTE_AGENT | MCP_CALL | INPUT_INGEST

definition all_job_kinds :: "JobKind list" where
  "all_job_kinds = [JARVIS, REMOTE_AGENT, MCP_CALL, INPUT_INGEST]"

fun JobKind_value :: "JobKind \<Rightarrow> string" where
  "JobKind_value JARVIS = ''jarvis''"
| "JobKind_value REMOTE_AGENT = ''remote_agent''"
| "JobKind_value MCP_CALL = ''mcp_call''"
| "JobKind_value INPUT_INGEST = ''input_ingest''"

text \<open>\<^verbatim>\<open>JobKind(value)\<close>; \<open>None\<close> is its \<^verbatim>\<open>ValueError\<close>.\<close>

definition JobKind_of_value :: "string \<Rightarrow> JobKind option" where
  "JobKind_of_value s = find (\<lambda>k. JobKind_value k = s) all_job_kinds"

datatype JobState = QUEUED | LEASED | RUNNING | SUCCEEDED | FAILED | CANCELED

fun JobState_value :: "JobState \<Rightarrow> string" where
  "JobState_value QUEUED = ''queued''"
| "JobState_value LEASED = ''leased''"
| "JobState_value RUNNING = ''running''"
| "JobState_value SUCCEEDED = ''succeeded''"
| "JobState_value FAILED = ''failed''"
| "JobState_value CANCELED = ''canceled''"

definition TERMINAL_STATES :: "JobState list" where
  "TERMINAL_STATES = [SUCCEEDED, FAILED, CANCELED]"

abbreviation terminal :: "JobState \<Rightarrow> bool" where
  "terminal s \<equiv> s \<in> set TERMINAL_STATES"

datatype McpOperation = TOOLS_CALL | TOOLS_LIST
datatype McpAdmissionClass = WORKLOAD | CONTROL_QUERY

lemma JobKind_all: "k \<in> set all_job_kinds"
  by (cases k) (simp_all add: all_job_kinds_def)

lemma JobKind_of_value_value [simp]: "JobKind_of_value (JobKind_value k) = Some k"
  by (cases k) (simp_all add: JobKind_of_value_def all_job_kinds_def)

lemma JobKind_of_value_Some: "JobKind_of_value s = Some k \<longleftrightarrow> s = JobKind_value k"
proof
  assume "JobKind_of_value s = Some k"
  then show "s = JobKind_value k" by (auto simp: JobKind_of_value_def find_Some_iff)
qed simp

lemma JobKind_value_inj: "JobKind_value k = JobKind_value k' \<longleftrightarrow> k = k'"
  by (metis JobKind_of_value_value option.inject)

section \<open>Job specifications\<close>

definition lower_ascii :: "string \<Rightarrow> string" where
  "lower_ascii s = map (\<lambda>c. if 65 \<le> (of_char c :: nat) \<and> of_char c \<le> (90 :: nat)
                            then char_of (of_char c + 32 :: nat) else c) s"

text \<open>
  \<^verbatim>\<open>str.upper\<close> as the code uses it, to compare with upper-case ASCII names: a letter outside ASCII
  never becomes one of theirs, so leaving it alone decides the comparison the same way.
\<close>

definition upper_ascii :: "string \<Rightarrow> string" where
  "upper_ascii s = map (\<lambda>c. if 97 \<le> (of_char c :: nat) \<and> of_char c \<le> (122 :: nat)
                            then char_of (of_char c - 32 :: nat) else c) s"

definition RESERVED_FILENAMES :: "string list" where
  "RESERVED_FILENAMES =
     [''CON'', ''PRN'', ''AUX'', ''NUL'']
     @ map (\<lambda>n. ''COM'' @ nat_digits n) [1..<10] @ map (\<lambda>n. ''LPT'' @ nat_digits n) [1..<10]"

definition reserved_stem :: "string \<Rightarrow> bool" where
  "reserved_stem s \<longleftrightarrow> upper_ascii (hd (split_char (CHR ''.'') s)) \<in> set RESERVED_FILENAMES"

record InputArtifactSpec =
  ias_logical_name :: string
  ias_size_bytes :: int
  ias_sha256 :: string

definition logical_name_must_be_a_safe_filename :: "string \<Rightarrow> py_error + string" where
  "logical_name_must_be_a_safe_filename v =
     (if v = ''.'' \<or> v = ''..'' \<or> (v \<noteq> [] \<and> (last v = CHR '' '' \<or> last v = CHR ''.''))
      then Inl (ValueError ''logical_name must be a portable regular-file name'')
      else if list_ex (\<lambda>c. c \<in> {CHR ''/'', char_of (92 :: nat), char_of (0 :: nat), CHR '':''}) v
      then Inl (ValueError ''logical_name must not contain path separators or drive syntax'')
      else if list_ex (\<lambda>c. (of_char c :: nat) < 32 \<or> of_char c = (127 :: nat)) v
      then Inl (ValueError ''logical_name must not contain control characters'')
      else if reserved_stem v
      then Inl (ValueError ''logical_name must not be a reserved filename'')
      else Inr v)"

definition deterministic_input_artifact_id :: "string \<Rightarrow> py_error + string" where
  "deterministic_input_artifact_id job_id =
     rbind (validate_durable_record_id (JStr job_id)) (\<lambda>validated_job_id.
       let digest = sha256_hexdigest
             (utf8_encode (''clio-relay.input-artifact.v1'' @ [char_of (0 :: nat)] @ validated_job_id))
       in validate_durable_record_id (JStr (''artifact_'' @ take 32 digest)))"

record JarvisRunSpec =
  jrs_pipeline_yaml :: "string option"
  jrs_pipeline_path :: "string option"
  jrs_pipeline_name :: "string option"
  jrs_package :: "string option"
  jrs_command :: "string list option"
  jrs_timeout_seconds :: "int option"

definition command_must_not_be_empty :: "string list option \<Rightarrow> py_error + string list option" where
  "command_must_not_be_empty v =
     (if v = Some [] then Inl (ValueError ''command must not be empty'') else Inr v)"

definition exactly_one_pipeline_source :: "JarvisRunSpec \<Rightarrow> py_error + JarvisRunSpec" where
  "exactly_one_pipeline_source s =
     (let sources = [jrs_pipeline_yaml s \<noteq> None, jrs_pipeline_path s \<noteq> None,
                     jrs_pipeline_name s \<noteq> None, jrs_command s \<noteq> None] in
      if length (filter id sources) \<noteq> 1
      then Inl (ValueError ''exactly one of pipeline_yaml, pipeline_path, pipeline_name, or command is required'')
      else Inr s)"

record RemoteAgentTaskSpec =
  rat_prompt_path :: string
  rat_mcp_config_path :: "string option"
  rat_model :: "string option"
  rat_workdir :: "string option"
  rat_timeout_seconds :: "int option"

text \<open>Of the manifest of a bound JARVIS run, what the call specification reads.\<close>

record JarvisRunInputManifest =
  jim_route_pipeline_id :: string

record McpCallSpec =
  mcs_server :: string
  mcs_server_args :: "string list"
  mcs_env_from :: "(string \<times> string) list"
  mcs_expected_server_artifact_digest :: "string option"
  mcs_expected_registered_contract :: "string option"
  mcs_expected_jarvis_cd_lock_binding :: "(string \<times> string) list option"
  mcs_admission_class :: McpAdmissionClass
  mcs_operation :: McpOperation
  mcs_tool :: "string option"
  mcs_arguments :: "(string \<times> json) list"
  mcs_jarvis_input_manifest :: "JarvisRunInputManifest option"
  mcs_timeout_seconds :: "int option"

definition RELAY_CREDENTIAL_ENV_NAMES :: "string list" where
  "RELAY_CREDENTIAL_ENV_NAMES =
     [''CLIO_RELAY_API_TOKEN'', ''CLIO_RELAY_FRP_TOKEN'', ''CLIO_RELAY_PROGRESS_TOKEN'',
      ''CLIO_RELAY_RUNTIME_METADATA_TOKEN'', ''CLIO_RELAY_STCP_SECRET'']"

text \<open>\<^verbatim>\<open>str.isalpha\<close> and \<^verbatim>\<open>str.isalnum\<close> of one Latin-1 character.\<close>

definition isalpha :: "char \<Rightarrow> bool" where
  "isalpha c = (let n = of_char c :: nat in
     (65 \<le> n \<and> n \<le> 90) \<or> (97 \<le> n \<and> n \<le> 122) \<or> n \<in> {170, 181, 186}
     \<or> (192 \<le> n \<and> n \<noteq> 215 \<and> n \<noteq> 247))"

definition isalnum :: "char \<Rightarrow> bool" where
  "isalnum c \<longleftrightarrow> isalpha c \<or> is_digit c \<or> (of_char c :: nat) \<in> {178, 179, 185, 188, 189, 190}"

definition valid_environment_name :: "string \<Rightarrow> bool" where
  "valid_environment_name v \<longleftrightarrow>
     v \<noteq> [] \<and> (isalpha (hd v) \<or> hd v = CHR ''_'') \<and> list_all (\<lambda>c. isalnum c \<or> c = CHR ''_'') v"

definition starts_with :: "string \<Rightarrow> string \<Rightarrow> bool" where
  "starts_with p s \<longleftrightarrow> take (length p) s = p"

definition ends_with :: "string \<Rightarrow> string \<Rightarrow> bool" where
  "ends_with p s \<longleftrightarrow> length p \<le> length s \<and> drop (length s - length p) s = p"

definition relay_credential_name :: "string \<Rightarrow> bool" where
  "relay_credential_name n \<longleftrightarrow>
     n \<in> set RELAY_CREDENTIAL_ENV_NAMES
     \<or> (starts_with ''CLIO_RELAY_'' n \<and> (ends_with ''_TOKEN'' n \<or> ends_with ''_SECRET'' n))"

definition validate_mcp_env_from :: "(string \<times> string) list \<Rightarrow> py_error + (string \<times> string) list" where
  "validate_mcp_env_from v =
     rbind (rall (\<lambda>(child_name, source_name).
        rbind (check (valid_environment_name child_name \<and> valid_environment_name source_name)
                (ValueError ''MCP env_from keys and values must be environment names'')) (\<lambda>_.
        let forbidden = filter relay_credential_name [child_name, source_name] in
        check (forbidden = [])
          (ValueError (''MCP env_from cannot expose relay credential '' @ hd (sort forbidden))))) v)
       (\<lambda>_. Inr v)"

definition validate_expected_server_artifact_digest :: "string option \<Rightarrow> py_error + string option" where
  "validate_expected_server_artifact_digest v =
     (case v of
        None \<Rightarrow> Inr None
      | Some s \<Rightarrow>
          let normalized = lower_ascii s in
          if length normalized \<noteq> 64 \<or> list_ex (\<lambda>c. \<not> hex_digit c) normalized
          then Inl (ValueError ''expected_server_artifact_digest must be a SHA-256'')
          else Inr (Some normalized))"

definition REGISTERED_JARVIS_USER_CONTRACT :: string where
  "REGISTERED_JARVIS_USER_CONTRACT = ''clio-kit-jarvis-user-v3.7.2''"

definition REGISTERED_JARVIS_EXECUTION_CONTRACTS :: "string list" where
  "REGISTERED_JARVIS_EXECUTION_CONTRACTS =
     [''clio-kit-jarvis-user-v3.6'', REGISTERED_JARVIS_USER_CONTRACT]"

definition validate_expected_jarvis_cd_lock_binding ::
  "(string \<times> string) list option \<Rightarrow> py_error + (string \<times> string) list option" where
  "validate_expected_jarvis_cd_lock_binding v =
     (case v of
        None \<Rightarrow> Inr None
      | Some d \<Rightarrow>
          if \<not> keys_are d [''schema_version'', ''version'', ''url'', ''sha256'']
             \<or> list_ex (\<lambda>(k, item). item = []) d
          then Inl (ValueError ''expected_jarvis_cd_lock_binding must be a complete identity'')
          else if map_of d ''schema_version'' \<noteq> Some ''clio-relay.jarvis-cd-lock-expectation.v1''
          then Inl (ValueError ''expected_jarvis_cd_lock_binding schema is unsupported'')
          else
            let sha256 = lower_ascii (the (map_of d ''sha256'')) in
            if length sha256 \<noteq> 64 \<or> list_ex (\<lambda>c. \<not> hex_digit c) sha256
            then Inl (ValueError ''expected_jarvis_cd_lock_binding SHA-256 is invalid'')
            else Inr (Some (AList.update ''sha256'' sha256 d)))"

definition validate_tools_call :: "McpCallSpec \<Rightarrow> py_error + McpCallSpec" where
  "validate_tools_call s =
     (if mcs_tool s = None \<or> mcs_tool s = Some []
      then Inl (ValueError ''tool is required for tools/call'')
      else if mcs_admission_class s = CONTROL_QUERY \<and> mcs_expected_server_artifact_digest s = None
      then Inl (ValueError ''control_query MCP calls require an expected server artifact digest'')
      else if mcs_expected_registered_contract s \<noteq> None \<and> mcs_expected_server_artifact_digest s = None
      then Inl (ValueError
             ''registered MCP contract binding requires an expected server artifact digest'')
      else if mcs_expected_registered_contract s \<noteq> None
              \<and> mcs_expected_jarvis_cd_lock_binding s \<noteq> None
      then Inl (ValueError
             ''registered MCP contract binding and built-in JARVIS lock pin are exclusive'')
      else if (case mcs_jarvis_input_manifest s of
                 None \<Rightarrow> False
               | Some m \<Rightarrow>
                   mcs_tool s \<noteq> Some ''jarvis_run''
                   \<or> mcs_expected_registered_contract s \<noteq> Some REGISTERED_JARVIS_USER_CONTRACT
                   \<or> mcs_expected_jarvis_cd_lock_binding s \<noteq> None
                   \<or> doc_get (mcs_arguments s) ''pipeline_id'' \<noteq> JStr (jim_route_pipeline_id m))
      then Inl (ValueError
             ''JARVIS input manifests require the exact registered jarvis_run pipeline'')
      else Inr s)"

definition validate_operation_contract :: "McpCallSpec \<Rightarrow> py_error + McpCallSpec" where
  "validate_operation_contract s =
     (if mcs_operation s = TOOLS_CALL then validate_tools_call s
      else if mcs_tool s \<noteq> None
      then Inl (ValueError ''tool must be omitted for tools/list'')
      else if mcs_arguments s \<noteq> []
      then Inl (ValueError ''arguments must be empty for tools/list'')
      else if mcs_expected_registered_contract s \<noteq> None
      then Inl (ValueError ''expected_registered_contract must be omitted for tools/list'')
      else if mcs_jarvis_input_manifest s \<noteq> None
      then Inl (ValueError ''jarvis_input_manifest must be omitted for tools/list'')
      else Inr s)"

datatype JobSpec =
    JarvisRun JarvisRunSpec
  | RemoteAgentTask RemoteAgentTaskSpec
  | McpCall McpCallSpec
  | InputArtifact InputArtifactSpec

text \<open>
  \<^verbatim>\<open>json.dumps(..., ensure_ascii=False)\<close> of a flat object of strings, keys sorted: only quotes,
  backslashes and control characters are escaped.
\<close>

definition json_escape_raw :: "char \<Rightarrow> string" where
  "json_escape_raw c = (if (of_char c :: nat) \<ge> 127 then [c] else json_escape_char c)"

definition json_quote_raw :: "string \<Rightarrow> string" where
  "json_quote_raw s = [char_of (34 :: nat)] @ concat (map json_escape_raw s) @ [char_of (34 :: nat)]"

definition dumps_strings_raw :: "(string \<times> string) list \<Rightarrow> string" where
  "dumps_strings_raw kvs =
     ''{'' @ join_with '','' (map (\<lambda>(k, v). json_quote_raw k @ '':'' @ json_quote_raw v)
                              (sort_key fst kvs)) @ ''}''"

definition deterministic_jarvis_execution_id :: "string \<Rightarrow> string \<Rightarrow> string \<Rightarrow> string" where
  "deterministic_jarvis_execution_id cluster idempotency_key job_id =
     ''jarvis_'' @ take 32 (sha256_hexdigest (utf8_encode (dumps_strings_raw
       [(''schema_version'', ''clio-relay.jarvis-run-execution-identity.v2''),
        (''cluster'', cluster), (''idempotency_key'', idempotency_key), (''job_id'', job_id)])))"

definition is_owned_jarvis_run_spec :: "JobKind \<Rightarrow> JobSpec \<Rightarrow> bool" where
  "is_owned_jarvis_run_spec kind spec =
     (case spec of
        McpCall s \<Rightarrow>
          if kind \<noteq> MCP_CALL then False
          else
            let normalized_tool = lower_ascii (map (\<lambda>c. if c = CHR ''-'' then CHR ''_'' else c)
                  (case mcs_tool s of None \<Rightarrow> [] | Some t \<Rightarrow> t));
                artifact_bound_jarvis = (mcs_operation s = TOOLS_CALL
                  \<and> normalized_tool = ''jarvis_run''
                  \<and> mcs_expected_server_artifact_digest s \<noteq> None) in
            if \<not> artifact_bound_jarvis then False
            else (mcs_expected_jarvis_cd_lock_binding s \<noteq> None
                    \<and> mcs_expected_registered_contract s = None)
               \<or> (mcs_expected_jarvis_cd_lock_binding s = None
                    \<and> mcs_expected_registered_contract s
                        \<in> Some ` set REGISTERED_JARVIS_EXECUTION_CONTRACTS)
      | _ \<Rightarrow> False)"

definition is_ascii_alnum :: "char \<Rightarrow> bool" where
  "is_ascii_alnum c = (let n = of_char c :: nat in
     (48 \<le> n \<and> n \<le> 57) \<or> (65 \<le> n \<and> n \<le> 90) \<or> (97 \<le> n \<and> n \<le> 122))"

text \<open>\<^verbatim>\<open>re.fullmatch(r"[A-Za-z0-9][A-Za-z0-9._-]{0,127}", value)\<close>\<close>

definition execution_id_pattern :: "string \<Rightarrow> bool" where
  "execution_id_pattern s \<longleftrightarrow>
     s \<noteq> [] \<and> is_ascii_alnum (hd s) \<and> length s \<le> 128
     \<and> list_all (\<lambda>c. is_ascii_alnum c \<or> c \<in> {CHR ''.'', CHR ''_'', CHR ''-''}) (tl s)"

definition validate_jarvis_execution_id :: "json \<Rightarrow> py_error + string" where
  "validate_jarvis_execution_id v =
     (case as_str v of
        None \<Rightarrow> Inl (ValueError
                  ''trusted jarvis_run execution_id must be 1-128 portable ASCII characters'')
      | Some s \<Rightarrow>
          if \<not> execution_id_pattern s
          then Inl (ValueError
                 ''trusted jarvis_run execution_id must be 1-128 portable ASCII characters'')
          else if last s = CHR ''.'' \<or> reserved_stem s
          then Inl (ValueError
                 ''trusted jarvis_run execution_id is not a portable path component'')
          else Inr s)"

section \<open>Jobs, events and leases\<close>

record StorageReservationEstimate =
  sre_core_bytes :: int
  sre_spool_bytes :: int

definition require_nonzero_total ::
  "StorageReservationEstimate \<Rightarrow> py_error + StorageReservationEstimate" where
  "require_nonzero_total e =
     (if sre_core_bytes e + sre_spool_bytes e \<le> 0
      then Inl (ValueError ''storage reservation must contain at least one byte'')
      else Inr e)"

datatype ArtifactUseEvidence = SCHEMA_ARG | HASH_PAIR | LEASE_WINDOW | AUTHORITY | ASSERTION

record ArtifactUseProvenance =
  aup_evidence :: ArtifactUseEvidence
  aup_authority :: string
  aup_external_ref :: string
  aup_arg :: string
  aup_note :: string

record ArtifactUse =
  au_artifact_id :: string
  au_sha256 :: string
  au_provenance :: "ArtifactUseProvenance option"

definition sha256_must_be_canonical :: "string \<Rightarrow> py_error + string" where
  "sha256_must_be_canonical v =
     (let normalized = lower_ascii v in
      if list_ex (\<lambda>c. \<not> hex_digit c) normalized
      then Inl (ValueError ''sha256 must be a SHA-256 digest'') else Inr normalized)"

record RelayJob =
  rj_job_id :: string
  rj_cluster :: string
  rj_kind :: JobKind
  rj_state :: JobState
  rj_spec :: JobSpec
  rj_idempotency_key :: string
  rj_owner_session_id :: "string option"
  rj_owner_session_generation_id :: "string option"
  rj_used_artifact_refs :: "ArtifactUse list"
  rj_submission_digest :: "string option"
  rj_created_at :: timestamp
  rj_updated_at :: timestamp
  rj_leased_by :: "string option"
  rj_attempts :: int
  rj_last_error :: "string option"
  rj_storage_reservation :: "StorageReservationEstimate option"
  rj_metadata :: "(string \<times> json) list"

definition owner_session_identity_must_be_complete :: "RelayJob \<Rightarrow> py_error + RelayJob" where
  "owner_session_identity_must_be_complete j =
     (if (rj_owner_session_id j = None) \<noteq> (rj_owner_session_generation_id j = None)
      then Inl (ValueError
             ''owner_session_id and owner_session_generation_id must be supplied together'')
      else Inr j)"

text \<open>The outcome a bounded wait reports: \<open>True\<close> for \<^verbatim>\<open>"terminal"\<close>.\<close>

definition observation_must_match_durable_state :: "RelayJob \<Rightarrow> bool \<Rightarrow> py_error + RelayJob" where
  "observation_must_match_durable_state j outcome_terminal =
     (if outcome_terminal \<noteq> terminal (rj_state j)
      then Inl (ValueError ''wait observation outcome disagrees with durable job state'')
      else Inr j)"

definition prepare_owned_jarvis_run_submission :: "RelayJob \<Rightarrow> py_error + RelayJob" where
  "prepare_owned_jarvis_run_submission j =
     (if \<not> is_owned_jarvis_run_spec (rj_kind j) (rj_spec j) then Inr j
      else (case rj_spec j of
        McpCall s \<Rightarrow>
          if map_of (mcs_arguments s) ''wait'' \<noteq> None
          then Inl (ValueError ''trusted jarvis_run does not accept internal wait; query the returned execution with jarvis_get_execution'')
          else
            let expected_execution_id =
                  deterministic_jarvis_execution_id (rj_cluster j) (rj_idempotency_key j) (rj_job_id j);
                supplied_execution_id = doc_get (mcs_arguments s) ''execution_id'' in
            rbind (if supplied_execution_id \<noteq> JNull
                   then rbind (validate_jarvis_execution_id supplied_execution_id) (\<lambda>validated.
                     check (\<not> validated \<noteq> expected_execution_id)
                       (ValueError ''trusted jarvis_run execution_id must match the relay-owned cluster and idempotency identity''))
                   else Inr ()) (\<lambda>_.
            Inr (j\<lparr>rj_spec := McpCall (s\<lparr>mcs_arguments :=
                    AList.update ''execution_id'' (JStr expected_execution_id) (mcs_arguments s)\<rparr>)\<rparr>))
      | _ \<Rightarrow> Inr j))"

datatype EventLevel = LevelInfo | LevelWarning | LevelError

record RelayEvent =
  re_job_id :: string
  re_seq :: int
  re_event_type :: string
  re_message :: string
  re_level :: EventLevel
  re_created_at :: timestamp
  re_payload :: "(string \<times> json) list"

record Lease =
  le_lease_id :: string
  le_job_id :: string
  le_endpoint_id :: string
  le_acquired_at :: timestamp
  le_expires_at :: timestamp

definition Lease_new :: "timestamp \<Rightarrow> string \<Rightarrow> string \<Rightarrow> string \<Rightarrow> int \<Rightarrow> Lease" where
  "Lease_new now lease_id job_id endpoint_id ttl_seconds =
     \<lparr>le_lease_id = lease_id, le_job_id = job_id, le_endpoint_id = endpoint_id,
      le_acquired_at = now, le_expires_at = now + ttl_seconds * 1000000\<rparr>"

definition is_expired :: "Lease \<Rightarrow> timestamp \<Rightarrow> bool" where
  "is_expired l now \<longleftrightarrow> now \<ge> le_expires_at l"

section \<open>Relay-owned execution identities\<close>

lemma hex_digit_code:
  "hex_digit c \<Longrightarrow> (48 \<le> (of_char c :: nat) \<and> of_char c \<le> (57 :: nat))
     \<or> (97 \<le> (of_char c :: nat) \<and> of_char c \<le> (102 :: nat))"
  by (auto simp: hex_digit_def)

lemma hex_digit_alnum: "hex_digit c \<Longrightarrow> is_ascii_alnum c"
  by (drule hex_digit_code) (auto simp: is_ascii_alnum_def Let_def)

lemma hex_digit_not_dot: "hex_digit c \<Longrightarrow> c \<noteq> CHR ''.''"
  by (auto simp: hex_digit_def)

lemma reserved_short: "s \<in> set RESERVED_FILENAMES \<Longrightarrow> length s \<le> 4"
  by (auto simp: RESERVED_FILENAMES_def nat_digits.simps)

lemma jarvis_execution_id_portable:
  assumes "all_hex 32 h"
  shows "validate_jarvis_execution_id (JStr (''jarvis_'' @ h)) = Inr (''jarvis_'' @ h)"
proof -
  have h: "list_all hex_digit h" "length h = 32" using assms by (simp_all add: all_hex_def)
  then have "h \<noteq> []" by auto
  moreover from this h have "hex_digit (last h)" by (simp add: list_all_iff)
  ultimately have "last (''jarvis_'' @ h) \<noteq> CHR ''.''" by (simp add: hex_digit_not_dot)
  moreover have "execution_id_pattern (''jarvis_'' @ h)"
    using h hex_digit_alnum
    by (auto simp: execution_id_pattern_def is_ascii_alnum_def Let_def list_all_iff)
  moreover have "CHR ''.'' \<notin> set (''jarvis_'' @ h)"
    using h(1) hex_digit_not_dot by (auto simp: list_all_iff)
  then have "\<not> reserved_stem (''jarvis_'' @ h)"
    using h(2) reserved_short [of "upper_ascii (''jarvis_'' @ h)"]
    by (auto simp: reserved_stem_def split_char_no_sep upper_ascii_def)
  ultimately show ?thesis by (simp add: validate_jarvis_execution_id_def)
qed

lemma deterministic_execution_id_valid:
  "validate_jarvis_execution_id (JStr (deterministic_jarvis_execution_id c k j))
     = Inr (deterministic_jarvis_execution_id c k j)"
  unfolding deterministic_jarvis_execution_id_def
  by (intro jarvis_execution_id_portable all_hex_take [OF sha256_hexdigest_hex]) simp

text \<open>What the admission step leaves of a trusted run: the caller's arguments with the owned id.\<close>

lemma owned_McpCall: "is_owned_jarvis_run_spec k sp \<Longrightarrow> \<exists>s. sp = McpCall s"
  by (cases sp) (simp_all add: is_owned_jarvis_run_spec_def)

lemma validate_jarvis_execution_id_Inr: "validate_jarvis_execution_id v = Inr s \<Longrightarrow> v = JStr s"
  by (auto simp: validate_jarvis_execution_id_def split: option.splits if_splits)

lemma prepare_owned_Inr:
  assumes "prepare_owned_jarvis_run_submission j = Inr j'"
    and "is_owned_jarvis_run_spec (rj_kind j) (McpCall s)" "rj_spec j = McpCall s"
    and "eid = deterministic_jarvis_execution_id (rj_cluster j) (rj_idempotency_key j) (rj_job_id j)"
  shows "map_of (mcs_arguments s) ''wait'' = None
    \<and> doc_get (mcs_arguments s) ''execution_id'' \<in> {JNull, JStr eid}
    \<and> j' = j\<lparr>rj_spec := McpCall (s\<lparr>mcs_arguments :=
         AList.update ''execution_id'' (JStr eid) (mcs_arguments s)\<rparr>)\<rparr>"
  using assms(1) unfolding assms(4)
  by (auto simp: prepare_owned_jarvis_run_submission_def assms(2,3) Let_def rbind_eq_Inr
      check_eq_Inr split: if_splits dest: validate_jarvis_execution_id_Inr)

lemma owned_spec_arguments:
  "is_owned_jarvis_run_spec k (McpCall (s\<lparr>mcs_arguments := a\<rparr>)) = is_owned_jarvis_run_spec k (McpCall s)"
  by (simp add: is_owned_jarvis_run_spec_def)

text \<open>
  Admission of a trusted JARVIS run binds it to the execution identity derived from its
  cluster, idempotency key and job id: a valid portable identifier, carried in the arguments of
  the admitted job, every other argument and field unchanged; a job that asked for \<^verbatim>\<open>wait\<close> or for
  another execution id is refused; admitting an admitted job again changes nothing.
\<close>

theorem owned_jarvis_run_bound_once:
  assumes "prepare_owned_jarvis_run_submission j = Inr j'"
  shows "prepare_owned_jarvis_run_submission j' = Inr j'
    \<and> rj_job_id j' = rj_job_id j \<and> rj_cluster j' = rj_cluster j \<and> rj_kind j' = rj_kind j
    \<and> rj_idempotency_key j' = rj_idempotency_key j \<and> rj_state j' = rj_state j
    \<and> (is_owned_jarvis_run_spec (rj_kind j) (rj_spec j) \<longrightarrow>
        (\<exists>s s' eid. rj_spec j = McpCall s \<and> rj_spec j' = McpCall s'
          \<and> eid = deterministic_jarvis_execution_id (rj_cluster j) (rj_idempotency_key j) (rj_job_id j)
          \<and> validate_jarvis_execution_id (JStr eid) = Inr eid
          \<and> map_of (mcs_arguments s') ''execution_id'' = Some (JStr eid)
          \<and> map_of (mcs_arguments s) ''wait'' = None
          \<and> (map_of (mcs_arguments s) ''execution_id'' \<in> {None, Some JNull, Some (JStr eid)})
          \<and> (\<forall>k. k \<noteq> ''execution_id'' \<longrightarrow> map_of (mcs_arguments s') k = map_of (mcs_arguments s) k)))"
proof (cases "is_owned_jarvis_run_spec (rj_kind j) (rj_spec j)")
  case False
  with assms show ?thesis by (simp add: prepare_owned_jarvis_run_submission_def)
next
  case True
  define eid where "eid = deterministic_jarvis_execution_id (rj_cluster j) (rj_idempotency_key j) (rj_job_id j)"
  from True obtain s where s: "rj_spec j = McpCall s" by (blast dest: owned_McpCall)
  note r = prepare_owned_Inr [OF assms True [unfolded s] s eid_def]
  have valid: "validate_jarvis_execution_id (JStr eid) = Inr eid"
    by (simp add: eid_def deterministic_execution_id_valid)
  have arg: "map_of (mcs_arguments s) ''execution_id'' \<in> {None, Some JNull, Some (JStr eid)}"
    using r by (auto simp: doc_get_def dict_get_def split: option.splits)
  have "prepare_owned_jarvis_run_submission j' = Inr j'"
    using r True s valid
    by (simp add: prepare_owned_jarvis_run_submission_def owned_spec_arguments doc_get_def
        dict_get_def eid_def [symmetric])
  with r arg s valid show ?thesis by (auto simp: eid_def)
qed

definition demo_owned_job :: RelayJob where
  "demo_owned_job =
     \<lparr>rj_job_id = ''job_a'', rj_cluster = ''ares'', rj_kind = MCP_CALL, rj_state = QUEUED,
      rj_spec = McpCall
        \<lparr>mcs_server = ''jarvis'', mcs_server_args = [], mcs_env_from = [],
         mcs_expected_server_artifact_digest = Some (replicate 64 (CHR ''a'')),
         mcs_expected_registered_contract = Some REGISTERED_JARVIS_USER_CONTRACT,
         mcs_expected_jarvis_cd_lock_binding = None, mcs_admission_class = WORKLOAD,
         mcs_operation = TOOLS_CALL, mcs_tool = Some ''jarvis_run'',
         mcs_arguments = [(''pipeline_id'', JStr ''p'')], mcs_jarvis_input_manifest = None,
         mcs_timeout_seconds = None\<rparr>,
      rj_idempotency_key = ''k'', rj_owner_session_id = None, rj_owner_session_generation_id = None,
      rj_used_artifact_refs = [], rj_submission_digest = None, rj_created_at = 0, rj_updated_at = 0, rj_leased_by = None, rj_attempts = 0,
      rj_last_error = None, rj_storage_reservation = None, rj_metadata = []\<rparr>"

theorem owned_jarvis_run_bound_once_witness:
  "\<exists>j' s'. prepare_owned_jarvis_run_submission demo_owned_job = Inr j' \<and> rj_spec j' = McpCall s'
     \<and> map_of (mcs_arguments s') ''execution_id'' =
         Some (JStr (deterministic_jarvis_execution_id ''ares'' ''k'' ''job_a''))
     \<and> map_of (mcs_arguments s') ''pipeline_id'' = Some (JStr ''p'')"
proof -
  have owned: "is_owned_jarvis_run_spec (rj_kind demo_owned_job) (rj_spec demo_owned_job)"
    by (simp add: demo_owned_job_def is_owned_jarvis_run_spec_def lower_ascii_def
        REGISTERED_JARVIS_EXECUTION_CONTRACTS_def)
  have "\<exists>j'. prepare_owned_jarvis_run_submission demo_owned_job = Inr j'"
    unfolding prepare_owned_jarvis_run_submission_def using owned
    by (simp add: demo_owned_job_def doc_get_def dict_get_def)
  then obtain j' where j': "prepare_owned_jarvis_run_submission demo_owned_job = Inr j'" by blast
  from owned_jarvis_run_bound_once [OF j'] owned obtain s s' where
    "rj_spec demo_owned_job = McpCall s" "rj_spec j' = McpCall s'"
    "map_of (mcs_arguments s') ''execution_id'' = Some (JStr (deterministic_jarvis_execution_id
       (rj_cluster demo_owned_job) (rj_idempotency_key demo_owned_job) (rj_job_id demo_owned_job)))"
    "\<forall>k. k \<noteq> ''execution_id'' \<longrightarrow> map_of (mcs_arguments s') k = map_of (mcs_arguments s) k"
    by blast
  with j' show ?thesis by (auto simp: demo_owned_job_def)
qed

end
