(* ===== verification/WorkerConcurrency.thy ===== *)
theory WorkerConcurrency
  imports Models
begin

text \<open>
  Worker job-kind concurrency limits: \<^verbatim>\<open>worker_concurrency.py\<close>. A mapping is given as its items; a
  key is a \<open>JobKind\<close> or a string, a value any Python object, of which the code accepts integers
  that are not booleans (\<open>JInt\<close>).
\<close>

datatype kind_key = KindEnum JobKind | KindText string

definition expected_kinds :: string where
  "expected_kinds = join_with '', '' (map JobKind_value all_job_kinds)"

definition kind_key_text :: "kind_key \<Rightarrow> string" where
  "kind_key_text k = (case k of KindEnum e \<Rightarrow> JobKind_value e | KindText s \<Rightarrow> s)"

definition resolve_kind :: "kind_key \<Rightarrow> py_error + JobKind" where
  "resolve_kind raw_kind =
     (case raw_kind of
        KindEnum k \<Rightarrow> Inr k
      | KindText s \<Rightarrow> (case JobKind_of_value s of
            Some k \<Rightarrow> Inr k
          | None \<Rightarrow> Inl (ConfigurationError (''unknown job kind for worker concurrency: '' @ s
                      @ ''; expected one of '' @ expected_kinds))))"

definition normalize_kind_step ::
  "kind_key \<times> json \<Rightarrow> (JobKind \<times> int) list \<Rightarrow> py_error + (JobKind \<times> int) list" where
  "normalize_kind_step item normalized =
     (case item of (raw_kind, limit) \<Rightarrow>
        rbind (resolve_kind raw_kind) (\<lambda>kind.
          case as_int limit of
            None \<Rightarrow> Inl (ConfigurationError (''worker concurrency limit for '' @ JobKind_value kind
                      @ '' must be an integer''))
          | Some n \<Rightarrow>
              if n < 1
              then Inl (ConfigurationError (''worker concurrency limit for '' @ JobKind_value kind
                     @ '' must be at least 1''))
              else Inr (AList.update kind n normalized)))"

definition normalize_kind_concurrency ::
  "(kind_key \<times> json) list option \<Rightarrow> py_error + (JobKind \<times> int) list" where
  "normalize_kind_concurrency limits =
     rfold normalize_kind_step (case limits of None \<Rightarrow> [] | Some l \<Rightarrow> l) []"

text \<open>\<^verbatim>\<open>str.strip\<close> and \<^verbatim>\<open>str.partition\<close> on Latin-1 text.\<close>

definition is_space :: "char \<Rightarrow> bool" where
  "is_space c \<longleftrightarrow> (of_char c :: nat) \<in> {9, 10, 11, 12, 13, 28, 29, 30, 31, 32, 133, 160}"

definition strip :: "string \<Rightarrow> string" where
  "strip s = rev (dropWhile is_space (rev (dropWhile is_space s)))"

definition partition_char :: "char \<Rightarrow> string \<Rightarrow> string \<times> string \<times> string" where
  "partition_char sep s =
     (if sep \<in> set s
      then (takeWhile (\<lambda>c. c \<noteq> sep) s, [sep], tl (dropWhile (\<lambda>c. c \<noteq> sep) s))
      else (s, [], []))"

text \<open>
  \<^verbatim>\<open>int(text)\<close> on stripped text: an optional sign, then decimal digits, single underscores allowed
  between digits, at most 4300 of them. \<open>None\<close> is its \<^verbatim>\<open>ValueError\<close>.
\<close>

fun digit_groups :: "bool \<Rightarrow> string \<Rightarrow> bool" where
  "digit_groups after_digit [] = after_digit"
| "digit_groups after_digit (c # s) =
     (if is_digit c then digit_groups True s
      else if c = CHR ''_'' \<and> after_digit then digit_groups False s
      else False)"

definition parse_digits :: "string \<Rightarrow> int option" where
  "parse_digits s =
     (if digit_groups False s \<and> length (filter is_digit s) \<le> 4300
      then Some (int (digits_value (filter is_digit s))) else None)"

definition py_int :: "string \<Rightarrow> int option" where
  "py_int s =
     (case s of
        c # rest \<Rightarrow>
          if c = CHR ''-'' then map_option uminus (parse_digits rest)
          else if c = CHR ''+'' then parse_digits rest
          else parse_digits s
      | [] \<Rightarrow> None)"

definition parse_kind_step :: "string \<Rightarrow> (JobKind \<times> int) list \<Rightarrow> py_error + (JobKind \<times> int) list" where
  "parse_kind_step v parsed =
     (case partition_char (CHR ''='') v of (before, separator, after) \<Rightarrow>
        let raw_kind = strip before; raw_limit = strip after in
        if separator = [] \<or> raw_kind = [] \<or> raw_limit = []
        then Inl (ConfigurationError ''worker kind concurrency entries must use KIND=LIMIT'')
        else rbind (resolve_kind (KindText raw_kind)) (\<lambda>kind.
          if map_of parsed kind \<noteq> None
          then Inl (ConfigurationError
                 (''worker kind concurrency was repeated for '' @ JobKind_value kind))
          else (case py_int raw_limit of
              None \<Rightarrow> Inl (ConfigurationError (''worker concurrency limit for ''
                       @ JobKind_value kind @ '' must be an integer''))
            | Some limit \<Rightarrow> Inr (AList.update kind limit parsed))))"

definition parse_kind_concurrency_options :: "string list option \<Rightarrow> py_error + (JobKind \<times> int) list" where
  "parse_kind_concurrency_options values =
     rbind (rfold parse_kind_step (case values of None \<Rightarrow> [] | Some vs \<Rightarrow> vs) []) (\<lambda>parsed.
       normalize_kind_concurrency (Some (map (\<lambda>(k, n). (KindEnum k, JInt n)) parsed)))"

definition kind_concurrency_metadata ::
  "(kind_key \<times> json) list option \<Rightarrow> py_error + (string \<times> int) list" where
  "kind_concurrency_metadata limits =
     rbind (normalize_kind_concurrency limits) (\<lambda>normalized.
       Inr (concat (map (\<lambda>k. case map_of normalized k of
                               None \<Rightarrow> [] | Some n \<Rightarrow> [(JobKind_value k, n)]) all_job_kinds)))"

section \<open>Validated limits\<close>

definition valid_kind_limits :: "(JobKind \<times> int) list \<Rightarrow> bool" where
  "valid_kind_limits l \<longleftrightarrow> distinct (map fst l) \<and> (\<forall>(k, n) \<in> set l. 1 \<le> n)"

lemma valid_kind_limits_update:
  "valid_kind_limits l \<Longrightarrow> 1 \<le> n \<Longrightarrow> valid_kind_limits (AList.update k n l)"
  using set_aupdate [of k n l] by (auto simp: valid_kind_limits_def distinct_aupdate)

lemma normalize_valid:
  assumes "normalize_kind_concurrency limits = Inr l"
  shows "valid_kind_limits l"
proof -
  have "normalize_kind_step x s = Inr s' \<Longrightarrow> valid_kind_limits s \<Longrightarrow> valid_kind_limits s'" for x s s'
    by (cases x; cases "resolve_kind (fst x)"; cases "as_int (snd x)")
       (auto simp: normalize_kind_step_def valid_kind_limits_update split: if_splits)
  with assms show ?thesis
    unfolding normalize_kind_concurrency_def
    by (elim rfold_invariant) (auto simp: valid_kind_limits_def)
qed

lemma normalize_fixes_valid:
  assumes "valid_kind_limits (acc @ l)"
  shows "rfold normalize_kind_step (map (\<lambda>(k, n). (KindEnum k, JInt n)) l) acc = Inr (acc @ l)"
  using assms
proof (induction l arbitrary: acc)
  case (Cons kn l)
  obtain k n where kn: "kn = (k, n)" by (cases kn)
  with Cons.prems have "k \<notin> fst ` set acc" "1 \<le> n" by (auto simp: valid_kind_limits_def)
  then have "normalize_kind_step (KindEnum k, JInt n) acc = Inr (acc @ [(k, n)])"
    by (simp add: normalize_kind_step_def resolve_kind_def aupdate_new)
  with Cons.IH [of "acc @ [(k, n)]"] Cons.prems show ?case by (simp add: kn)
qed simp

text \<open>
  Whatever mapping or \<^verbatim>\<open>KIND=LIMIT\<close> options a worker is given, accepted limits are one
  positive integer per job kind, and normalizing accepted limits again changes nothing; what the
  command line parser accepts has the same property.
\<close>

theorem kind_concurrency_normal_form:
  "(normalize_kind_concurrency limits = Inr l \<or> parse_kind_concurrency_options options = Inr l)
   \<longrightarrow> distinct (map fst l) \<and> (\<forall>(k, n) \<in> set l. 1 \<le> n)
     \<and> normalize_kind_concurrency (Some (map (\<lambda>(k, n). (KindEnum k, JInt n)) l)) = Inr l"
proof
  assume "normalize_kind_concurrency limits = Inr l \<or> parse_kind_concurrency_options options = Inr l"
  then have "valid_kind_limits l"
    by (auto simp: parse_kind_concurrency_options_def result_iff dest: normalize_valid)
  with normalize_fixes_valid [of "[]" l]
  show "distinct (map fst l) \<and> (\<forall>(k, n) \<in> set l. 1 \<le> n)
     \<and> normalize_kind_concurrency (Some (map (\<lambda>(k, n). (KindEnum k, JInt n)) l)) = Inr l"
    by (simp add: normalize_kind_concurrency_def valid_kind_limits_def)
qed

theorem kind_concurrency_normal_form_witness:
  "parse_kind_concurrency_options (Some ['' mcp_call = 4'', ''jarvis=+1_0'']) = Inr [(MCP_CALL, 4), (JARVIS, 10)]
   \<and> normalize_kind_concurrency (Some [(KindEnum MCP_CALL, JInt 4), (KindEnum JARVIS, JInt 10)])
       = Inr [(MCP_CALL, 4), (JARVIS, 10)]"
proof -
  have p: "parse_kind_concurrency_options (Some ['' mcp_call = 4'', ''jarvis=+1_0''])
      = Inr [(MCP_CALL, 4), (JARVIS, 10)]" by code_simp
  with kind_concurrency_normal_form [of None "[(MCP_CALL, 4), (JARVIS, 10)]"
      "Some ['' mcp_call = 4'', ''jarvis=+1_0'']"]
  show ?thesis by simp
qed

end
