(* ===== verification/StorageRuntime.thy ===== *)
theory StorageRuntime
  imports StorageReservations Models
begin

text \<open>
  The storage runtime: the running-job checks of \<^verbatim>\<open>storage_policy.py\<close> and \<^verbatim>\<open>storage_snapshot.py\<close>, and
  \<^verbatim>\<open>storage_runtime_core.py\<close> with its error helpers from \<^verbatim>\<open>storage_runtime_errors.py\<close>. The runtime
  state is the ledger file, the startup decision and the per-job time of the last tree scan.
  Paths given to the model are absolute, as \<^verbatim>\<open>os.path.abspath\<close> makes them.
\<close>

section \<open>Running-job checks\<close>

definition check_runtime_free_space :: "storage_env \<Rightarrow> StorageDecision ledger_op" where
  "check_runtime_free_space env = catch_policy (
     mbind (mlift (lift_policy (runtime_volume_status env))) (\<lambda>volumes.
       let unsafe_volumes = filter (\<lambda>v. \<not> rv_healthy v) volumes in
       if unsafe_volumes \<noteq> []
       then mret (decision False FILESYSTEM_FREE_RESERVE
              ''filesystem free space crossed the runtime safety reserve'' None
              [(''volumes'', JArr (map runtime_volume_json unsafe_volumes))])
       else mret (decision True HEALTHY ''runtime filesystem free-space guard is healthy'' None
              [(''volumes'', JArr (map runtime_volume_json volumes))])))"

definition job_spool_path :: "storage_env \<Rightarrow> string \<Rightarrow> string" where
  "job_spool_path env job_id = se_spool_root env @ ''/'' @ job_id"

definition reservation_exceeded :: "string \<Rightarrow> ReservationRecord \<Rightarrow> TreeUsage option \<Rightarrow> StorageDecision" where
  "reservation_exceeded job_id r usage =
     decision False JOB_RESERVATION_EXCEEDED ''job spool exceeded its durable storage reservation'' None
       ([(''job_id'', JStr job_id)]
        @ (case usage of None \<Rightarrow> [] | Some u \<Rightarrow> [(''spool_usage'', TreeUsage_to_dict u)])
        @ [(''reserved_spool_bytes'', JInt (rr_spool_bytes r))])"

definition check_job_usage ::
  "storage_env \<Rightarrow> string \<Rightarrow> ReservationRecord \<Rightarrow> TreeUsage \<Rightarrow> storage_exn + StorageDecision" where
  "check_job_usage env job_id r usage =
     (if tu_bytes usage > rr_spool_bytes r then Inr (reservation_exceeded job_id r (Some usage))
      else rbind (lift_policy (runtime_volume_status env)) (\<lambda>volumes.
        let unsafe_volumes = filter (\<lambda>v. \<not> rv_healthy v) volumes in
        if unsafe_volumes \<noteq> []
        then Inr (decision False FILESYSTEM_FREE_RESERVE
               ''filesystem free space crossed the runtime safety reserve'' None
               [(''job_id'', JStr job_id),
                (''volumes'', JArr (map runtime_volume_json unsafe_volumes))])
        else Inr (decision True HEALTHY ''runtime storage guard is healthy'' None
               [(''job_id'', JStr job_id), (''reservation'', ReservationRecord_to_dict r),
                (''spool_usage'', TreeUsage_to_dict usage),
                (''volumes'', JArr (map runtime_volume_json volumes))])))"

text \<open>\<open>job_tree\<close> is what the scan of the job's own spool directory meets.\<close>

definition check_reserved_job ::
  "storage_env \<Rightarrow> fs_root \<Rightarrow> string \<Rightarrow> ReservationRecord \<Rightarrow> storage_exn + StorageDecision" where
  "check_reserved_job env job_tree job_id r =
     (let l = se_limits env;
          reservation_scan_bound = rr_spool_bytes r + 1;
          scan_bound = min (max_scan_accounted_bytes l) (max 1 reservation_scan_bound) in
      case scan_tree (job_spool_path env job_id) job_tree (max_scan_entries l) (max_scan_depth l)
             scan_bound Count of
        Inl (PolicyExn e) \<Rightarrow>
          if spe_reason e = SCAN_BYTE_LIMIT \<and> reservation_scan_bound \<le> max_scan_accounted_bytes l
          then Inr (reservation_exceeded job_id r None)
          else Inl (PolicyExn e)
      | Inl x \<Rightarrow> Inl x
      | Inr usage \<Rightarrow> check_job_usage env job_id r usage)"

definition check_runtime_job ::
  "storage_env \<Rightarrow> fs_root \<Rightarrow> string \<Rightarrow> string \<Rightarrow> StorageDecision ledger_op" where
  "check_runtime_job env job_tree job_id spool_path = catch_policy (
     mbind (mlift (lift_policy (validate_job_id (JStr job_id)))) (\<lambda>_.
     mbind (mcheck (\<not> spool_path \<noteq> job_spool_path env job_id)
       (PolicyExn (policy_error INVALID_REQUEST
          ''runtime spool path does not match the reserved job identity''
          [(''job_id'', JStr job_id)]))) (\<lambda>_.
     mbind (ledger_lock env (read_ledger env)) (\<lambda>ledger.
       case find_reservation (ls_reservations ledger) job_id of
         None \<Rightarrow> mret (decision False RESERVATION_ABSENT
                   ''active job has no durable storage reservation'' None [(''job_id'', JStr job_id)])
       | Some r \<Rightarrow> mlift (check_reserved_job env job_tree job_id r)))))"

section \<open>Configuration\<close>

record StorageRuntimeConfig =
  src_core_root :: string
  src_spool_root :: string
  src_max_log_bytes_per_job :: int
  src_job_core_allowance_bytes :: int
  src_job_result_allowance_bytes :: int
  src_runtime_check_interval_seconds :: rat
  src_limits :: StorageLimits

definition default_core_bytes :: "StorageRuntimeConfig \<Rightarrow> int" where
  "default_core_bytes c = src_max_log_bytes_per_job c + src_job_core_allowance_bytes c"

definition default_spool_bytes :: "StorageRuntimeConfig \<Rightarrow> int" where
  "default_spool_bytes c = src_max_log_bytes_per_job c + src_job_result_allowance_bytes c"

definition StorageRuntimeConfig_post_init :: "StorageRuntimeConfig \<Rightarrow> py_error + unit" where
  "StorageRuntimeConfig_post_init c =
     rbind (rall (\<lambda>(name, v). check (0 < v) (ValueError (name @ '' must be a positive integer'')))
       [(''max_log_bytes_per_job'', src_max_log_bytes_per_job c),
        (''job_core_allowance_bytes'', src_job_core_allowance_bytes c),
        (''job_result_allowance_bytes'', src_job_result_allowance_bytes c)]) (\<lambda>_.
     rbind (check (0 < src_runtime_check_interval_seconds c \<and> src_runtime_check_interval_seconds c \<le> 300)
       (ValueError ''runtime_check_interval_seconds must be greater than zero and at most 300'')) (\<lambda>_.
     rbind (check (\<not> default_core_bytes c + default_spool_bytes c
                       > max_job_reservation_bytes (src_limits c))
       (ValueError ''default log and allowance reservation exceeds max_job_reservation_bytes'')) (\<lambda>_.
     rbind (check (\<not> default_core_bytes c > core_high_water_bytes (src_limits c))
       (ValueError ''default core reservation exceeds core_high_water_bytes'')) (\<lambda>_.
     rbind (check (\<not> default_spool_bytes c > spool_high_water_bytes (src_limits c))
       (ValueError ''default spool reservation exceeds spool_high_water_bytes'')) (\<lambda>_.
     check (\<not> default_core_bytes c + default_spool_bytes c > total_high_water_bytes (src_limits c))
       (ValueError ''default storage reservation exceeds total_high_water_bytes''))))))"

section \<open>The runtime\<close>

definition denied_decision :: "StorageReason \<Rightarrow> string \<Rightarrow> (string \<times> json) list \<Rightarrow> StorageDecision" where
  "denied_decision reason message details = decision False reason message None details"

datatype runtime_exn = StorageAdmissionError StorageDecision | RuntimeValueError string | LedgerExn storage_exn

record runtime_state =
  rts_ledger :: ledger_file
  rts_startup :: "StorageDecision option"
  rts_last_job_check :: "(string \<times> rat) list"

type_synonym 'a runtime_op = "(runtime_state, runtime_exn, 'a) op"

definition on_ledger :: "'a ledger_op \<Rightarrow> 'a runtime_op" where
  "on_ledger f = (\<lambda>st. case f (rts_ledger st) of
       (Inl x, file) \<Rightarrow> (Inl (LedgerExn x), st\<lparr>rts_ledger := file\<rparr>)
     | (Inr d, file) \<Rightarrow> (Inr d, st\<lparr>rts_ledger := file\<rparr>))"

definition estimate :: "StorageRuntimeConfig \<Rightarrow> RelayJob \<Rightarrow> runtime_exn + StorageReservationEstimate" where
  "estimate c job =
     (let e = (case rj_storage_reservation job of
                 Some e \<Rightarrow> e
               | None \<Rightarrow> \<lparr>sre_core_bytes = default_core_bytes c,
                          sre_spool_bytes = default_spool_bytes c\<rparr>);
          per_job = max_job_reservation_bytes (src_limits c) in
      if sre_core_bytes e < default_core_bytes c
      then Inl (StorageAdmissionError (denied_decision INVALID_REQUEST
             ''core estimate is below the configured log and record floor''
             [(''requested_core_bytes'', JInt (sre_core_bytes e)),
              (''minimum_core_bytes'', JInt (default_core_bytes c))]))
      else if sre_spool_bytes e < default_spool_bytes c
      then Inl (StorageAdmissionError (denied_decision INVALID_REQUEST
             ''spool estimate is below the configured log and result floor''
             [(''requested_spool_bytes'', JInt (sre_spool_bytes e)),
              (''minimum_spool_bytes'', JInt (default_spool_bytes c))]))
      else if sre_core_bytes e + sre_spool_bytes e > per_job
      then Inl (StorageAdmissionError (denied_decision PER_JOB_LIMIT
             ''job estimate exceeds the configured per-job reservation limit''
             [(''requested_total_bytes'', JInt (sre_core_bytes e + sre_spool_bytes e)),
              (''max_job_reservation_bytes'', JInt per_job)]))
      else Inr e)"

definition estimate_active ::
  "StorageRuntimeConfig \<Rightarrow> RelayJob \<Rightarrow> (string \<times> py_amounts) list \<Rightarrow> runtime_exn + (string \<times> py_amounts) list" where
  "estimate_active c job reservations =
     rbind (estimate c job) (\<lambda>e.
       Inr (AList.update (rj_job_id job)
              (AmountsTuple [JInt (sre_core_bytes e), JInt (sre_spool_bytes e)]) reservations))"

definition set_startup :: "StorageDecision \<Rightarrow> StorageDecision runtime_op" where
  "set_startup d = mbind (mupd (\<lambda>st. st\<lparr>rts_startup := Some d\<rparr>)) (\<lambda>_. mret d)"

text \<open>\<open>active_jobs\<close> and \<open>truncated\<close> are what \<^verbatim>\<open>queue.scan_active_jobs(limit=max_reservations + 1)\<close> returned.\<close>

definition reconcile_startup ::
  "StorageRuntimeConfig \<Rightarrow> storage_env \<Rightarrow> RelayJob list \<Rightarrow> bool \<Rightarrow> StorageDecision runtime_op" where
  "reconcile_startup c env active_jobs truncated =
     (if truncated \<or> int (length active_jobs) > max_reservations (src_limits c)
      then set_startup (denied_decision LEDGER_CAPACITY
             ''active job index exceeds the configured reservation capacity''
             [(''max_reservations'', JInt (max_reservations (src_limits c))),
              (''observed_at_least'', JInt (int (length active_jobs)))])
      else (case rfold (estimate_active c) active_jobs [] of
          Inl (StorageAdmissionError d) \<Rightarrow> set_startup d
        | Inl x \<Rightarrow> mraise x
        | Inr reservations \<Rightarrow>
            mbind (on_ledger (reconcile_reservations env reservations)) set_startup))"

definition ensure_new_intake_allowed :: "unit runtime_op" where
  "ensure_new_intake_allowed =
     mbind mget (\<lambda>st.
       case rts_startup st of
         None \<Rightarrow> mraise (StorageAdmissionError (denied_decision INVALID_REQUEST
                   ''storage startup reconciliation has not completed'' []))
       | Some d \<Rightarrow> if \<not> sd_allowed d then mraise (StorageAdmissionError d) else mret ())"

definition block_new_intake :: "StorageDecision \<Rightarrow> unit runtime_op" where
  "block_new_intake d =
     (if sd_allowed d
      then mraise (RuntimeValueError ''intake can only be blocked with a denied storage decision'')
      else mupd (\<lambda>st. st\<lparr>rts_startup := Some d\<rparr>))"

text \<open>\<open>observed_at\<close> is the monotonic clock reading, or the caller's \<^verbatim>\<open>now\<close>.\<close>

definition scan_due :: "StorageRuntimeConfig \<Rightarrow> runtime_state \<Rightarrow> string \<Rightarrow> rat \<Rightarrow> bool \<Rightarrow> bool" where
  "scan_due c st job_id observed_at force_job_scan =
     (case map_of (rts_last_job_check st) job_id of
        None \<Rightarrow> True
      | Some last_checked \<Rightarrow> force_job_scan
          \<or> observed_at - last_checked \<ge> src_runtime_check_interval_seconds c)"

definition check_running_job ::
  "StorageRuntimeConfig \<Rightarrow> storage_env \<Rightarrow> fs_root \<Rightarrow> string \<Rightarrow> string \<Rightarrow> rat \<Rightarrow> bool
     \<Rightarrow> StorageDecision runtime_op" where
  "check_running_job c env job_tree job_id spool_path observed_at force_job_scan =
     mbind (on_ledger (check_runtime_free_space env)) (\<lambda>free_space.
       if \<not> sd_allowed free_space then mret free_space
       else mbind mget (\<lambda>st.
         if \<not> scan_due c st job_id observed_at force_job_scan then mret free_space
         else mbind (mupd (\<lambda>st. st\<lparr>rts_last_job_check :=
                  AList.update job_id observed_at (rts_last_job_check st)\<rparr>)) (\<lambda>_.
              on_ledger (check_runtime_job env job_tree job_id spool_path))))"

definition forget_running_job :: "string \<Rightarrow> unit runtime_op" where
  "forget_running_job job_id =
     mupd (\<lambda>st. st\<lparr>rts_last_job_check := AList.delete job_id (rts_last_job_check st)\<rparr>)"

section \<open>Estimates\<close>

lemma post_init_bounds:
  assumes "StorageRuntimeConfig_post_init c = Inr u"
  shows "0 < default_core_bytes c" "0 < default_spool_bytes c"
    "default_core_bytes c + default_spool_bytes c \<le> max_job_reservation_bytes (src_limits c)"
  using assms
  by (auto simp: StorageRuntimeConfig_post_init_def result_iff default_core_bytes_def
      default_spool_bytes_def split: if_splits)

lemma estimate_Inr:
  "estimate c job = Inr e \<longleftrightarrow>
     e = (case rj_storage_reservation job of
            Some e \<Rightarrow> e
          | None \<Rightarrow> \<lparr>sre_core_bytes = default_core_bytes c, sre_spool_bytes = default_spool_bytes c\<rparr>)
     \<and> default_core_bytes c \<le> sre_core_bytes e \<and> default_spool_bytes c \<le> sre_spool_bytes e
     \<and> sre_core_bytes e + sre_spool_bytes e \<le> max_job_reservation_bytes (src_limits c)"
  by (auto simp: estimate_def Let_def)

lemma estimate_active_Inr:
  "estimate_active c job acc = Inr acc' \<longleftrightarrow>
     (\<exists>e. estimate c job = Inr e \<and> acc' = AList.update (rj_job_id job)
        (AmountsTuple [JInt (sre_core_bytes e), JInt (sre_spool_bytes e)]) acc)"
  by (auto simp: estimate_active_def result_iff)

lemma estimate_active_map:
  assumes "rfold (estimate_active c) jobs acc = Inr rs" "distinct (map rj_job_id jobs)"
    and "fst ` set acc \<inter> rj_job_id ` set jobs = {}"
  shows "\<exists>es. rmap (estimate c) jobs = Inr es \<and> rs = acc @ map2 (\<lambda>job e.
     (rj_job_id job, AmountsTuple [JInt (sre_core_bytes e), JInt (sre_spool_bytes e)])) jobs es"
  using assms
proof (induction jobs arbitrary: acc)
  case (Cons job jobs)
  then obtain e where e: "estimate c job = Inr e"
    and rest: "rfold (estimate_active c) jobs (AList.update (rj_job_id job)
      (AmountsTuple [JInt (sre_core_bytes e), JInt (sre_spool_bytes e)]) acc) = Inr rs"
    by (auto simp: estimate_active_Inr rbind_eq_Inr)
  have new: "rj_job_id job \<notin> fst ` set acc" using Cons.prems(3) by auto
  note up = aupdate_new [OF new]
  from Cons.IH [OF rest] Cons.prems(2,3) obtain es where "rmap (estimate c) jobs = Inr es"
    "rs = acc @ (rj_job_id job, AmountsTuple [JInt (sre_core_bytes e), JInt (sre_spool_bytes e)])
       # map2 (\<lambda>job e. (rj_job_id job, AmountsTuple [JInt (sre_core_bytes e), JInt (sre_spool_bytes e)])) jobs es"
    by (auto simp: up)
  with e show ?case by simp
qed simp

lemma map_of_map2_key:
  assumes "rmap f xs = Inr ys" "distinct (map k xs)" "x \<in> set xs" "f x = Inr y"
  shows "map_of (map2 (\<lambda>a b. (k a, g b)) xs ys) (k x) = Some (g y)"
  using assms
proof (induction xs arbitrary: ys)
  case (Cons a xs)
  then have "x \<in> set xs \<Longrightarrow> k a \<noteq> k x" by (auto simp: image_iff)
  with Cons show ?case by (auto simp: result_iff)
qed simp

lemma reconcile_startup_allowed:
  assumes "reconcile_startup c env jobs truncated st = (Inr d, st')" "sd_allowed d"
  obtains rs where "rfold (estimate_active c) jobs [] = Inr rs"
    "reconcile_reservations env rs (rts_ledger st) = (Inr d, rts_ledger st')"
    "rts_startup st' = Some d"
proof (cases "rfold (estimate_active c) jobs []")
  case (Inl x)
  have "\<exists>d'. x = StorageAdmissionError d' \<and> \<not> sd_allowed d'" 
  proof -
    have est: "estimate c j = Inl y \<Longrightarrow> \<exists>d'. y = StorageAdmissionError d' \<and> \<not> sd_allowed d'" for j y
      by (auto simp: estimate_def Let_def denied_decision_def split: if_splits)
    have "rfold (estimate_active c) js acc = Inl x \<Longrightarrow> ?thesis" for js acc
      by (induction js arbitrary: acc) (auto simp: rbind_eq_Inl estimate_active_def dest: est)
    from this [OF Inl] show ?thesis .
  qed
  with Inl assms show ?thesis
    by (auto simp: reconcile_startup_def set_startup_def denied_decision_def split: if_splits)
next
  case (Inr rs)
  with assms show ?thesis
    by (intro that [of rs])
       (auto simp: reconcile_startup_def set_startup_def denied_decision_def on_ledger_def result_iff
         split: if_splits prod.splits sum.splits)
qed

lemma reconcile_startup_records:
  "reconcile_startup c env jobs truncated st = (Inr d, st') \<Longrightarrow> rts_startup st' = Some d"
  by (auto simp: reconcile_startup_def set_startup_def result_iff
      split: if_splits sum.splits runtime_exn.splits)

lemma rmap_total: "rmap f xs = Inr ys \<Longrightarrow> x \<in> set xs \<Longrightarrow> \<exists>y. f x = Inr y"
  by (induction xs arbitrary: ys) (auto simp: result_iff)

lemma startup_reserves_estimates:
  assumes "env_ok env" and "distinct (map rj_job_id jobs)"
    and "reconcile_startup c env jobs truncated st = (Inr d, st')" and "sd_allowed d"
  shows "(\<forall>job \<in> set jobs. \<exists>e. estimate c job = Inr e
           \<and> reserved_in (se_fromisoformat env) (se_limits env) (rts_ledger st') (rj_job_id job)
               = Some (sre_core_bytes e, sre_spool_bytes e))
    \<and> dom (reserved_in (se_fromisoformat env) (se_limits env) (rts_ledger st')) = rj_job_id ` set jobs"
proof -
  let ?t = "\<lambda>e. AmountsTuple [JInt (sre_core_bytes e), JInt (sre_spool_bytes e)]"
  from reconcile_startup_allowed [OF assms(3,4)] obtain rs where
    rs: "rfold (estimate_active c) jobs [] = Inr rs"
    and run: "reconcile_reservations env rs (rts_ledger st) = (Inr d, rts_ledger st')" by blast
  from estimate_active_map [OF rs assms(2)] obtain es where es: "rmap (estimate c) jobs = Inr es"
    and rs_eq: "rs = map2 (\<lambda>job e. (rj_job_id job, ?t e)) jobs es" by auto
  have keys: "map fst rs = map rj_job_id jobs"
    using rmap_length [OF es] unfolding rs_eq by (induction jobs es rule: list_induct2') auto
  have res: "reserved_in (se_fromisoformat env) (se_limits env) (rts_ledger st') =
      (\<lambda>j. Option.bind (map_of rs j) two_integers)"
    using reconcile_reservations_adopts [OF assms(1) _ run]
      reconcile_reservations_allowed_status [OF run assms(4)] keys assms(2) by simp
  have job: "\<exists>e. estimate c job = Inr e \<and> map_of rs (rj_job_id job) = Some (?t e)"
    if "job \<in> set jobs" for job
    using rmap_total [OF es that] map_of_map2_key [OF es assms(2) that, of _ ?t] by (auto simp: rs_eq)
  have "dom (map_of rs) = rj_job_id ` set jobs"
    using keys by (metis dom_map_of_conv_image_fst list.set_map)
  moreover have "dom (\<lambda>j. Option.bind (map_of rs j) two_integers) = dom (map_of rs)"
  proof
    show "dom (map_of rs) \<subseteq> dom (\<lambda>j. Option.bind (map_of rs j) two_integers)"
    proof
      fix j
      assume "j \<in> dom (map_of rs)"
      with \<open>dom (map_of rs) = rj_job_id ` set jobs\<close> obtain k where "k \<in> set jobs" "j = rj_job_id k"
        by auto
      with job [of k] show "j \<in> dom (\<lambda>j. Option.bind (map_of rs j) two_integers)"
        by (auto simp: two_integers_def)
    qed
  qed (auto split: bind_splits)
  ultimately show ?thesis using job by (fastforce simp: res two_integers_def)
qed

lemma ensure_new_intake_iff:
  "ensure_new_intake_allowed st = (Inr (), st) \<longleftrightarrow> (\<exists>d. rts_startup st = Some d \<and> sd_allowed d)"
  by (auto simp: ensure_new_intake_allowed_def split: option.splits if_splits)

text \<open>
  Storage estimates. A configuration that passes validation admits every job that states no
  reservation of its own, with the configured defaults; an accepted estimate is never below the
  configured log floors, never empty and never above the per-job limit, so the ledger's own
  validation accepts it.
\<close>

theorem estimate_sound:
  assumes "StorageRuntimeConfig_post_init c = Inr ()"
  shows "(rj_storage_reservation job = None \<longrightarrow>
            estimate c job = Inr \<lparr>sre_core_bytes = default_core_bytes c,
                                  sre_spool_bytes = default_spool_bytes c\<rparr>)
    \<and> (\<forall>e. estimate c job = Inr e \<longrightarrow>
         default_core_bytes c \<le> sre_core_bytes e \<and> default_spool_bytes c \<le> sre_spool_bytes e
         \<and> validate_reservation_bytes (sre_core_bytes e) (sre_spool_bytes e) (src_limits c) = Inr ())"
  using post_init_bounds [OF assms] by (auto simp: estimate_Inr validate_reservation_bytes_Inr)

definition demo_config :: StorageRuntimeConfig where
  "demo_config =
     \<lparr>src_core_root = ''/core'', src_spool_root = ''/spool'', src_max_log_bytes_per_job = 4,
      src_job_core_allowance_bytes = 6, src_job_result_allowance_bytes = 16,
      src_runtime_check_interval_seconds = 5, src_limits = default_limits\<rparr>"

lemma demo_config_valid: "StorageRuntimeConfig_post_init demo_config = Inr ()"
  by (simp add: StorageRuntimeConfig_post_init_def demo_config_def default_core_bytes_def
      default_spool_bytes_def default_limits_def GIB_def)

theorem estimate_sound_witness:
  "estimate demo_config demo_owned_job = Inr \<lparr>sre_core_bytes = 10, sre_spool_bytes = 20\<rparr>"
  using estimate_sound [OF demo_config_valid, of demo_owned_job]
  by (simp add: demo_owned_job_def demo_config_def default_core_bytes_def default_spool_bytes_def)

lemma reconcile_startup_raises:
  assumes "reconcile_startup c env jobs truncated st = (Inl x, st')"
  shows "rts_startup st' = rts_startup st"
  using assms
  by (auto simp: reconcile_startup_def set_startup_def mbind_app mupd_def mret_def mraise_def on_ledger_def
      split: if_splits sum.splits runtime_exn.splits prod.splits)

lemma ensure_new_intake_eq:
  "ensure_new_intake_allowed st = (case rts_startup st of
     None \<Rightarrow> Inl (StorageAdmissionError (denied_decision INVALID_REQUEST
               ''storage startup reconciliation has not completed'' []))
   | Some d \<Rightarrow> if sd_allowed d then Inr () else Inl (StorageAdmissionError d), st)"
  by (simp add: ensure_new_intake_allowed_def mbind_app mget_def mraise_def mret_def split: option.split)

text \<open>
  C38: intake opens only on a reconciled ledger. Before any reconciliation has run every new
  intake is refused, with the error that startup reconciliation has not completed, and a
  reconciliation that raises leaves the answer to new intake as it was. When startup reconciliation of
  the queue's active jobs returns a decision, new intake is permitted if it is allowed and
  refused with exactly this decision otherwise; and when it is allowed, the ledger reserves for each
  active job exactly its estimate and reserves nothing for any other job.
\<close>

theorem startup_reconciliation_opens_intake:
  assumes "env_ok env" and "distinct (map rj_job_id jobs)"
    and "reconcile_startup c env jobs truncated st = (r, st')"
  shows "(rts_startup st = None \<longrightarrow> ensure_new_intake_allowed st = (Inl (StorageAdmissionError
        (denied_decision INVALID_REQUEST ''storage startup reconciliation has not completed'' [])), st))
    \<and> (\<forall>x. r = Inl x \<longrightarrow> fst (ensure_new_intake_allowed st') = fst (ensure_new_intake_allowed st))
    \<and> (\<forall>d. r = Inr d \<longrightarrow>
        ensure_new_intake_allowed st' = (if sd_allowed d then Inr () else Inl (StorageAdmissionError d), st')
        \<and> (sd_allowed d \<longrightarrow>
            (\<forall>job \<in> set jobs. \<exists>e. estimate c job = Inr e
               \<and> reserved_in (se_fromisoformat env) (se_limits env) (rts_ledger st') (rj_job_id job)
                   = Some (sre_core_bytes e, sre_spool_bytes e))
            \<and> dom (reserved_in (se_fromisoformat env) (se_limits env) (rts_ledger st'))
                = rj_job_id ` set jobs))"
proof (intro conjI allI impI ballI)
  show "ensure_new_intake_allowed st = (Inl (StorageAdmissionError
        (denied_decision INVALID_REQUEST ''storage startup reconciliation has not completed'' [])), st)"
    if "rts_startup st = None" using that by (simp add: ensure_new_intake_eq)
  show "fst (ensure_new_intake_allowed st') = fst (ensure_new_intake_allowed st)" if "r = Inl x" for x
    using reconcile_startup_raises [of c env jobs truncated st x st'] assms(3) that by (simp add: ensure_new_intake_eq)
  fix d assume "r = Inr d"
  with assms(3) have run: "reconcile_startup c env jobs truncated st = (Inr d, st')" by simp
  show "ensure_new_intake_allowed st' = (if sd_allowed d then Inr () else Inl (StorageAdmissionError d), st')"
    using reconcile_startup_records [OF run] by (simp add: ensure_new_intake_eq)
  assume "sd_allowed d"
  with startup_reserves_estimates [OF assms(1,2) run]
  show "\<exists>e. estimate c job = Inr e
      \<and> reserved_in (se_fromisoformat env) (se_limits env) (rts_ledger st') (rj_job_id job)
          = Some (sre_core_bytes e, sre_spool_bytes e)" if "job \<in> set jobs" for job using that by blast
  show "dom (reserved_in (se_fromisoformat env) (se_limits env) (rts_ledger st')) = rj_job_id ` set jobs"
    using startup_reserves_estimates [OF assms(1,2) run] \<open>sd_allowed d\<close> by blast
qed

theorem startup_reconciliation_opens_intake_witness:
  "\<exists>d st'. reconcile_startup demo_config demo_env [demo_owned_job] False
     \<lparr>rts_ledger = LedgerAbsent, rts_startup = None, rts_last_job_check = []\<rparr> = (Inr d, st')
   \<and> fst (ensure_new_intake_allowed \<lparr>rts_ledger = LedgerAbsent, rts_startup = None, rts_last_job_check = []\<rparr>) \<noteq> Inr ()
   \<and> ensure_new_intake_allowed st' = (Inr (), st')
   \<and> reserved_in (se_fromisoformat demo_env) (se_limits demo_env) (rts_ledger st') ''job_a'' = Some (10, 20)"
proof -
  let ?st = "\<lparr>rts_ledger = LedgerAbsent, rts_startup = None, rts_last_job_check = []\<rparr>"
  have e: "estimate demo_config demo_owned_job = Inr \<lparr>sre_core_bytes = 10, sre_spool_bytes = 20\<rparr>"
    by (simp add: estimate_Inr demo_owned_job_def demo_config_def default_core_bytes_def
        default_spool_bytes_def default_limits_def GIB_def)
  have j: "rj_job_id demo_owned_job = ''job_a''" by (simp add: demo_owned_job_def)
  have lim: "max_reservations (src_limits demo_config) = 50000"
    by (simp add: demo_config_def default_limits_def)
  obtain d st' where run: "reconcile_startup demo_config demo_env [demo_owned_job] False ?st = (Inr d, st')"
    and ok: "sd_allowed d"
    using demo_reconcile lim
    by (auto simp: reconcile_startup_def estimate_active_def e j on_ledger_def mbind_app set_startup_def)
  from startup_reconciliation_opens_intake [OF demo_env_ok _ run] ok e j run show ?thesis by auto
qed

section \<open>The running-job guard\<close>

lemma runtime_volumes_minimum:
  assumes "runtime_volume_status env = Inr vs"
  shows "list_all (\<lambda>v. rv_healthy v = (minimum_free_bytes (se_limits env) \<le> rv_free_bytes v)) vs"
  using assms
  by (auto simp: runtime_volume_status_def result_iff list_all_iff split: prod.splits)

lemma check_job_usage_allowed:
  assumes "check_job_usage env j r usage = Inr d" "sd_allowed d"
  shows "tu_bytes usage \<le> rr_spool_bytes r
    \<and> (\<exists>vs. runtime_volume_status env = Inr vs
         \<and> list_all (\<lambda>v. minimum_free_bytes (se_limits env) \<le> rv_free_bytes v) vs)"
  using assms runtime_volumes_minimum [of env]
  by (auto simp: check_job_usage_def reservation_exceeded_def Let_def result_iff list_all_iff
      filter_empty_conv not_less split: if_splits)

lemma check_reserved_job_allowed:
  assumes "check_reserved_job env tree j r = Inr d" "sd_allowed d" "valid_limits (se_limits env)"
  shows "\<exists>es. tree = RootDir es None \<and> sum_list (map entry_bytes es) \<le> rr_spool_bytes r
    \<and> (\<exists>vs. runtime_volume_status env = Inr vs
         \<and> list_all (\<lambda>v. minimum_free_bytes (se_limits env) \<le> rv_free_bytes v) vs)"
proof -
  let ?l = "se_limits env"
  let ?bound = "min (max_scan_accounted_bytes ?l) (max 1 (rr_spool_bytes r + 1))"
  let ?scan = "scan_tree (job_spool_path env j) tree (max_scan_entries ?l) (max_scan_depth ?l) ?bound Count"
  have "0 < max_scan_entries ?l" "0 < max_scan_depth ?l" "0 < ?bound"
    using valid_limits_bounds [OF assms(3)] by simp_all
  note ref = scan_tree_reference [OF this, of tree Count "job_spool_path env j"]
  obtain usage where u: "?scan = Inr usage" "check_job_usage env j r usage = Inr d"
    using assms(1,2)
    by (auto simp: check_reserved_job_def reservation_exceeded_def Let_def
        split: sum.splits storage_exn.splits if_splits)
  have fits: "tree_fits tree (max_scan_entries ?l) (max_scan_depth ?l) ?bound Count"
    using ref u(1) by (auto split: if_splits)
  then obtain es where es: "tree = RootDir es None" by (auto simp: tree_fits_def split: fs_root.splits)
  have "usage = reference_usage (job_spool_path env j) tree" using ref u(1) fits by simp
  then have "tu_bytes usage = sum_list (map entry_bytes es)" by (simp add: reference_usage_def es)
  with check_job_usage_allowed [OF u(2) assms(2)] es show ?thesis by auto
qed

text \<open>
  C37: the running-job guard. Checking a running job never changes the ledger, and it reports the
  job safe only when the job has a durable reservation, the complete walk of its own spool
  directory adds up to no more than the reserved spool bytes, and every volume still has the
  configured free-space reserve.
\<close>

theorem running_job_guard:
  assumes "valid_limits (se_limits env)"
    and "check_runtime_job env tree job_id spool_path file = (Inr d, file')"
  shows "file' = file
    \<and> (sd_allowed d \<longrightarrow>
        spool_path = job_spool_path env job_id
        \<and> (\<exists>l r es vs. ledger_of (se_fromisoformat env) (se_limits env) file = Some l
             \<and> find_reservation (ls_reservations l) job_id = Some r
             \<and> tree = RootDir es None \<and> sum_list (map entry_bytes es) \<le> rr_spool_bytes r
             \<and> runtime_volume_status env = Inr vs
             \<and> list_all (\<lambda>v. minimum_free_bytes (se_limits env) \<le> rv_free_bytes v) vs))"
proof -
  let ?body = "\<lambda>l. case find_reservation (ls_reservations l) job_id of
         None \<Rightarrow> mret (decision False RESERVATION_ABSENT
                   ''active job has no durable storage reservation'' None [(''job_id'', JStr job_id)])
       | Some r \<Rightarrow> mlift (check_reserved_job env tree job_id r)"
  have st: "?body l f = (x, f') \<Longrightarrow> f' = f" for l f x f' by (auto split: option.splits)
  have same: "file' = file"
    using assms(2) unfolding check_runtime_job_def
    by (auto simp: result_iff mbind_eq_Inl ledger_lock_Inl split: if_splits dest: read_ledger_Inl st)
  moreover {
    assume ok: "sd_allowed d"
    with assms(2) obtain l where path: "spool_path = job_spool_path env job_id"
      and l: "ledger_in env file = Some l" and run: "?body l file = (Inr d, file')"
      unfolding check_runtime_job_def
      by (auto simp: result_iff error_decision_def split: if_splits)
    from run ok obtain r where "find_reservation (ls_reservations l) job_id = Some r"
      "check_reserved_job env tree job_id r = Inr d" by (auto split: option.splits)
    with check_reserved_job_allowed [OF _ ok assms(1)] path l have ?thesis
      using same by blast
  }
  ultimately show ?thesis by blast
qed

theorem running_job_guard_witness:
  "\<exists>d. check_runtime_job demo_env (RootDir [EntryFile 7] None) ''job_a'' ''/spool/job_a''
      (LedgerDoc (ledger_envelope demo_ledger)) = (Inr d, LedgerDoc (ledger_envelope demo_ledger))
    \<and> sd_allowed d \<and> sum_list (map entry_bytes [EntryFile 7]) \<le> 20"
proof -
  have path: "job_spool_path demo_env ''job_a'' = ''/spool/job_a''"
    by (simp add: job_spool_path_def demo_env_def)
  have lim: "valid_limits (se_limits demo_env)" using demo_env_ok by (simp add: env_ok_def)
  have r: "find_reservation (ls_reservations demo_ledger) ''job_a'' =
      Some \<lparr>rr_job_id = ''job_a'', rr_core_bytes = 10, rr_spool_bytes = 20,
            rr_created_at = ''2026-01-01T00:00:00Z''\<rparr>"
    by (simp add: demo_ledger_def find_reservation_def)
  have scan: "scan_tree ''/spool/job_a'' (RootDir [EntryFile 7] None) 1000000 64 21 Count =
      Inr (reference_usage ''/spool/job_a'' (RootDir [EntryFile 7] None))"
    using scan_tree_reference [of 1000000 64 21 "RootDir [EntryFile 7] None" Count "''/spool/job_a''"]
    by (simp add: tree_fits_def)
  have bounds: "max_scan_entries (se_limits demo_env) = 1000000" "max_scan_depth (se_limits demo_env) = 64"
    "max_scan_accounted_bytes (se_limits demo_env) = 2199023255552"
    by (simp_all add: demo_env_def default_limits_def TIB_def)
  have vol: "runtime_volume_status demo_env = Inr [\<lparr>rv_volume_id = ''dev:1'',
      rv_storage_families = [''core'', ''spool''], rv_free_bytes = 1099511627776,
      rv_minimum_free_bytes = 1073741824, rv_healthy = True\<rparr>]"
    by (simp add: runtime_volume_status_def runtime_volume_step_def roots_of_def demo_env_def
        disk_free_def dict_get_def default_limits_def GIB_def Let_def)
  have "\<exists>d. check_reserved_job demo_env (RootDir [EntryFile 7] None) ''job_a''
      \<lparr>rr_job_id = ''job_a'', rr_core_bytes = 10, rr_spool_bytes = 20,
       rr_created_at = ''2026-01-01T00:00:00Z''\<rparr> = Inr d \<and> sd_allowed d"
    using scan vol bounds
    by (simp add: check_reserved_job_def path check_job_usage_def reference_usage_def)
  then obtain d where "check_runtime_job demo_env (RootDir [EntryFile 7] None) ''job_a'' ''/spool/job_a''
      (LedgerDoc (ledger_envelope demo_ledger)) = (Inr d, LedgerDoc (ledger_envelope demo_ledger))"
      "sd_allowed d"
    by (auto simp: check_runtime_job_def mbind_app demo_validate path ledger_lock_def demo_env_fields
        demo_read r catch_policy_def)
  with running_job_guard [OF lim this(1)] r demo_ledger_in show ?thesis by fastforce
qed

end
