(* ===== verification/LeaseRecords.thy ===== *)
theory LeaseRecords
  imports Models
begin

text \<open>
  Lease index and capacity record codecs: \<^verbatim>\<open>queue_lease_records.py\<close>, with the constants it takes from
  \<^verbatim>\<open>queue_layout.py\<close>. Documents are JSON values. A dictionary of counts is an association list;
  two dictionaries are equal as Python compares them, whatever the order of their keys
  (\<open>dict_eq\<close>). \<^verbatim>\<open>datetime.isoformat\<close> and \<^verbatim>\<open>datetime.fromisoformat\<close> are arguments of the index
  document codec: a parse gives \<open>None\<close> for a \<^verbatim>\<open>ValueError\<close>, \<open>Some None\<close> for a naive time.
\<close>

definition LEASE_OPERATIONAL_INDEX_SCHEMA :: string where
  "LEASE_OPERATIONAL_INDEX_SCHEMA = ''clio-relay.lease-operational-index.v2''"
definition LEASE_CAPACITY_AGGREGATE_SCHEMA :: string where
  "LEASE_CAPACITY_AGGREGATE_SCHEMA = ''clio-relay.lease-capacity-aggregate.v1''"
definition LEASE_CAPACITY_CHECKPOINT_SCHEMA :: string where
  "LEASE_CAPACITY_CHECKPOINT_SCHEMA = ''clio-relay.lease-capacity-checkpoint.v1''"
definition MAX_ACTIVE_JOB_RECORDS :: int where
  "MAX_ACTIVE_JOB_RECORDS = 10000"
definition MAX_LIVE_LEASE_RECORDS :: int where
  "MAX_LIVE_LEASE_RECORDS = MAX_ACTIVE_JOB_RECORDS"
definition MAX_LEASE_CAPACITY_SCOPES :: int where
  "MAX_LEASE_CAPACITY_SCOPES = MAX_LIVE_LEASE_RECORDS"

definition is_sha256_digest :: "json \<Rightarrow> bool" where
  "is_sha256_digest v = (case as_str v of None \<Rightarrow> False | Some s \<Rightarrow> all_hex 64 s)"

record LeaseIndexIdentity =
  li_lease_id :: string
  li_job_id :: string
  li_endpoint_id :: string
  li_cluster :: string
  li_job_kind :: JobKind
  li_expires_at :: timestamp

type_synonym kind_counts = "(JobKind \<times> int) list"
type_synonym scope_counts = "(string \<times> kind_counts) list"

record LeaseCapacityAggregate =
  ca_epoch_id :: string
  ca_generation :: int
  ca_checkpoint_id :: string
  ca_global_live_leases :: int
  ca_cluster_kind_counts :: scope_counts
  ca_document_sha256 :: string

record LeaseCapacityCheckpoint =
  cc_epoch_id :: string
  cc_generation :: int
  cc_checkpoint_id :: string
  cc_aggregate_document_sha256 :: string
  cc_document_sha256 :: string

record LeaseCapacityPair =
  cp_aggregate :: LeaseCapacityAggregate
  cp_checkpoint :: LeaseCapacityCheckpoint

section \<open>Reference tokens and names\<close>

definition stable_ref_token :: "string list \<Rightarrow> string" where
  "stable_ref_token values =
     take 32 (sha256_hexdigest (utf8_encode (join_with [char_of (0 :: nat)] values)))"

definition lease_index_token :: "string \<Rightarrow> string" where
  "lease_index_token lease_id = take 16 (stable_ref_token [''lease'', lease_id])"
definition lease_job_token :: "string \<Rightarrow> string" where
  "lease_job_token job_id = take 16 (stable_ref_token [''job'', job_id])"
definition lease_endpoint_token :: "string \<Rightarrow> string" where
  "lease_endpoint_token endpoint_id = take 16 (stable_ref_token [''endpoint'', endpoint_id])"
definition lease_cluster_token :: "string \<Rightarrow> string" where
  "lease_cluster_token cluster = take 16 (stable_ref_token [''cluster'', cluster])"

text \<open>The key of an aware time is its number of microseconds since the epoch.\<close>

definition lease_expiry_key :: "timestamp \<Rightarrow> int" where
  "lease_expiry_key t = t"

text \<open>\<^verbatim>\<open>f"{k:020d}"\<close>\<close>

definition format_020d :: "int \<Rightarrow> string" where
  "format_020d k =
     (if k < 0 then CHR ''-'' # zero_pad 19 (nat_digits (nat (- k)))
      else zero_pad 20 (nat_digits (nat k)))"

fun lease_kind_code :: "JobKind \<Rightarrow> string" where
  "lease_kind_code JARVIS = ''j''"
| "lease_kind_code REMOTE_AGENT = ''r''"
| "lease_kind_code MCP_CALL = ''m''"
| "lease_kind_code INPUT_INGEST = ''i''"

definition kind_of_code :: "string \<Rightarrow> JobKind option" where
  "kind_of_code s =
     map_of [(''j'', JARVIS), (''r'', REMOTE_AGENT), (''m'', MCP_CALL), (''i'', INPUT_INGEST)] s"

definition lease_identity_token_from_parts ::
  "int \<Rightarrow> string \<Rightarrow> string \<Rightarrow> string \<Rightarrow> string \<Rightarrow> string \<Rightarrow> string" where
  "lease_identity_token_from_parts expires_key cluster_token kind_code endpoint_token job_token lease_token =
     take 16 (stable_ref_token [''lease-identity-v2'', format_020d expires_key, cluster_token,
       kind_code, endpoint_token, job_token, lease_token])"

definition lease_identity_token :: "LeaseIndexIdentity \<Rightarrow> string" where
  "lease_identity_token i =
     lease_identity_token_from_parts (lease_expiry_key (li_expires_at i))
       (lease_cluster_token (li_cluster i)) (lease_kind_code (li_job_kind i))
       (lease_endpoint_token (li_endpoint_id i)) (lease_job_token (li_job_id i))
       (lease_index_token (li_lease_id i))"

definition lease_reference :: "LeaseIndexIdentity \<Rightarrow> string \<times> string" where
  "lease_reference i = (lease_index_token (li_lease_id i), lease_identity_token i)"

definition dot :: string where "dot = ''.''"

definition lease_scope_ref_name_from_tokens :: "string \<Rightarrow> string \<Rightarrow> string list \<Rightarrow> string" where
  "lease_scope_ref_name_from_tokens lease_token identity_token scope =
     join_with dot [lease_token, identity_token,
       take 16 (stable_ref_token ([''lease-scope'', lease_token, identity_token] @ scope)), ''ref'']"

definition lease_scope_ref_name :: "LeaseIndexIdentity \<Rightarrow> string list \<Rightarrow> string" where
  "lease_scope_ref_name i scope =
     lease_scope_ref_name_from_tokens (fst (lease_reference i)) (snd (lease_reference i)) scope"

definition is_short_ref_token :: "string \<Rightarrow> bool" where
  "is_short_ref_token s \<longleftrightarrow> all_hex 16 s"

definition is_capacity_identity :: "json \<Rightarrow> bool" where
  "is_capacity_identity v = (case as_str v of None \<Rightarrow> False | Some s \<Rightarrow> all_hex 32 s)"

definition lease_reference_from_scope_ref :: "string \<Rightarrow> string list \<Rightarrow> (string \<times> string) option" where
  "lease_reference_from_scope_ref name scope =
     (case split_char (CHR ''.'') name of
        [lease_token, identity_token, scope_token, suffix] \<Rightarrow>
          if suffix \<noteq> ''ref'' then None
          else if \<not> list_all is_short_ref_token [lease_token, identity_token, scope_token] then None
          else if name \<noteq> lease_scope_ref_name_from_tokens lease_token identity_token scope then None
          else Some (lease_token, identity_token)
      | _ \<Rightarrow> None)"

definition parse_lease_reference_key :: "string \<Rightarrow> (string \<times> string) option" where
  "parse_lease_reference_key v =
     (case split_char (CHR ''.'') v of
        [a, b] \<Rightarrow> if is_short_ref_token a \<and> is_short_ref_token b then Some (a, b) else None
      | _ \<Rightarrow> None)"

definition parse_lease_identity_ref_name :: "string \<Rightarrow> (string \<times> string) option" where
  "parse_lease_identity_ref_name name =
     (if \<not> ends_with ''.ref'' name then None
      else parse_lease_reference_key (take (length name - 4) name))"

definition lease_expiry_ref_name :: "LeaseIndexIdentity \<Rightarrow> string" where
  "lease_expiry_ref_name i =
     join_with dot [format_020d (lease_expiry_key (li_expires_at i)),
       lease_cluster_token (li_cluster i), lease_kind_code (li_job_kind i),
       lease_endpoint_token (li_endpoint_id i), lease_job_token (li_job_id i),
       fst (lease_reference i), snd (lease_reference i), ''ref'']"

type_synonym LeaseExpiryReference =
  "int \<times> string \<times> JobKind \<times> string \<times> string \<times> string \<times> string"

text \<open>
  A negative \<^verbatim>\<open>int(expires_raw)\<close> has a sign, which \<^verbatim>\<open>isdigit\<close> rejects, and what is left after
  \<^verbatim>\<open>isdigit\<close> and the length test is a plain decimal; text \<^verbatim>\<open>int\<close> refuses is rejected either way.
\<close>

definition parse_lease_expiry_ref_name :: "string \<Rightarrow> LeaseExpiryReference option" where
  "parse_lease_expiry_ref_name name =
     (case split_char (CHR ''.'') name of
        [expires_raw, cluster_token, kind_code, endpoint_token, job_token, lease_token,
         identity_token, suffix] \<Rightarrow>
          if suffix \<noteq> ''ref'' then None
          else (case kind_of_code kind_code of
              None \<Rightarrow> None
            | Some job_kind \<Rightarrow>
                let expires_key = int (digits_value expires_raw) in
                if length expires_raw \<noteq> 20 \<or> \<not> list_all is_digit expires_raw
                   \<or> \<not> list_all is_short_ref_token
                        [cluster_token, endpoint_token, job_token, lease_token, identity_token]
                   \<or> identity_token \<noteq> lease_identity_token_from_parts expires_key cluster_token
                        kind_code endpoint_token job_token lease_token
                then None
                else Some (expires_key, cluster_token, job_kind, endpoint_token, job_token,
                       lease_token, identity_token))
      | _ \<Rightarrow> None)"

section \<open>Index and capacity documents\<close>

definition lease_index_document :: "(timestamp \<Rightarrow> string) \<Rightarrow> LeaseIndexIdentity \<Rightarrow> json" where
  "lease_index_document isoformat i =
     JObj [(''schema_version'', JStr LEASE_OPERATIONAL_INDEX_SCHEMA),
           (''lease_id'', JStr (li_lease_id i)), (''job_id'', JStr (li_job_id i)),
           (''endpoint_id'', JStr (li_endpoint_id i)), (''cluster'', JStr (li_cluster i)),
           (''job_kind'', JStr (JobKind_value (li_job_kind i))),
           (''expires_at'', JStr (isoformat (li_expires_at i)))]"

definition serialized_lease_capacity_counts :: "scope_counts \<Rightarrow> json" where
  "serialized_lease_capacity_counts counts =
     JObj (map (\<lambda>(cluster_token, kcs). (cluster_token,
             JObj (map (\<lambda>(k, n). (JobKind_value k, JInt n))
                       (sort_key (\<lambda>(k, n). JobKind_value k) kcs))))
           (sort_key fst counts))"

definition lease_capacity_aggregate_digest_payload ::
  "string \<Rightarrow> int \<Rightarrow> string \<Rightarrow> int \<Rightarrow> scope_counts \<Rightarrow> (string \<times> json) list" where
  "lease_capacity_aggregate_digest_payload epoch_id generation checkpoint_id global_live counts =
     [(''schema_version'', JStr LEASE_CAPACITY_AGGREGATE_SCHEMA), (''epoch_id'', JStr epoch_id),
      (''generation'', JInt generation), (''checkpoint_id'', JStr checkpoint_id),
      (''global_live_leases'', JInt global_live),
      (''cluster_kind_counts'', serialized_lease_capacity_counts counts)]"

definition lease_capacity_aggregate_document :: "LeaseCapacityAggregate \<Rightarrow> json" where
  "lease_capacity_aggregate_document a =
     JObj (lease_capacity_aggregate_digest_payload (ca_epoch_id a) (ca_generation a)
             (ca_checkpoint_id a) (ca_global_live_leases a) (ca_cluster_kind_counts a)
           @ [(''document_sha256'', JStr (ca_document_sha256 a))])"

definition lease_capacity_checkpoint_digest_payload ::
  "string \<Rightarrow> int \<Rightarrow> string \<Rightarrow> string \<Rightarrow> (string \<times> json) list" where
  "lease_capacity_checkpoint_digest_payload epoch_id generation checkpoint_id aggregate_sha =
     [(''schema_version'', JStr LEASE_CAPACITY_CHECKPOINT_SCHEMA), (''epoch_id'', JStr epoch_id),
      (''generation'', JInt generation), (''checkpoint_id'', JStr checkpoint_id),
      (''aggregate_document_sha256'', JStr aggregate_sha)]"

definition lease_capacity_checkpoint_document :: "LeaseCapacityCheckpoint \<Rightarrow> json" where
  "lease_capacity_checkpoint_document c =
     JObj (lease_capacity_checkpoint_digest_payload (cc_epoch_id c) (cc_generation c)
             (cc_checkpoint_id c) (cc_aggregate_document_sha256 c)
           @ [(''document_sha256'', JStr (cc_document_sha256 c))])"

definition canonical_document_sha256 :: "(string \<times> json) list \<Rightarrow> string" where
  "canonical_document_sha256 d = sha256_hexdigest (utf8_encode (dumps_canonical (JObj d)))"

text \<open>One job-kind count, one cluster scope, then the whole dictionary.\<close>

definition normalize_kind_count ::
  "JobKind \<times> int \<Rightarrow> kind_counts \<times> int \<times> int \<Rightarrow> py_error + kind_counts \<times> int \<times> int" where
  "normalize_kind_count item acc =
     (case item of (k, n) \<Rightarrow> (case acc of (selected, scopes, live) \<Rightarrow>
        if n \<le> 0
        then Inl (QueueConflictError ''lease capacity aggregate counts must be positive integers'')
        else if map_of selected k \<noteq> None
        then Inl (QueueConflictError ''lease capacity aggregate repeats a job kind'')
        else Inr (AList.update k n selected, scopes + 1, live + n)))"

definition normalize_cluster_scope ::
  "string \<times> kind_counts \<Rightarrow> scope_counts \<times> int \<times> int \<Rightarrow> py_error + scope_counts \<times> int \<times> int" where
  "normalize_cluster_scope item acc =
     (case item of (cluster_token, kcs) \<Rightarrow> (case acc of (normalized, scopes, live) \<Rightarrow>
        if \<not> is_short_ref_token cluster_token
        then Inl (QueueConflictError ''lease capacity aggregate has an invalid cluster scope'')
        else rbind (rfold normalize_kind_count kcs ([], scopes, live)) (\<lambda>(selected, scopes', live').
          if selected = []
          then Inl (QueueConflictError ''lease capacity aggregate contains an empty cluster scope'')
          else Inr (AList.update cluster_token selected normalized, scopes', live'))))"

definition normalize_lease_capacity_counts :: "scope_counts \<Rightarrow> py_error + scope_counts" where
  "normalize_lease_capacity_counts counts =
     rbind (rfold normalize_cluster_scope counts ([], 0, 0)) (\<lambda>(normalized, scopes, live).
       if scopes > MAX_LEASE_CAPACITY_SCOPES
       then Inl (QueueConflictError (''lease capacity aggregate exceeds its nonzero scope bound of ''
              @ int_str MAX_LEASE_CAPACITY_SCOPES))
       else if live > MAX_LIVE_LEASE_RECORDS
       then Inl (QueueConflictError (''lease capacity aggregate exceeds its live lease bound of ''
              @ int_str MAX_LIVE_LEASE_RECORDS))
       else Inr normalized)"

definition scope_total :: "scope_counts \<Rightarrow> int" where
  "scope_total counts = sum_list (map (\<lambda>(c, kcs). sum_list (map snd kcs)) counts)"

text \<open>
  \<open>epoch\<close> and \<open>checkpoint\<close> are the identities the call selected: the caller's, or a fresh
  \<^verbatim>\<open>uuid4().hex\<close> where it passed none.
\<close>

definition new_lease_capacity_pair ::
  "scope_counts \<Rightarrow> string \<Rightarrow> int \<Rightarrow> string \<Rightarrow> py_error + LeaseCapacityPair" where
  "new_lease_capacity_pair counts epoch generation checkpoint =
     rbind (normalize_lease_capacity_counts counts) (\<lambda>normalized.
       let global_total = scope_total normalized;
           aggregate_digest = canonical_document_sha256
             (lease_capacity_aggregate_digest_payload epoch generation checkpoint global_total normalized);
           checkpoint_digest = canonical_document_sha256
             (lease_capacity_checkpoint_digest_payload epoch generation checkpoint aggregate_digest) in
       Inr \<lparr>cp_aggregate = \<lparr>ca_epoch_id = epoch, ca_generation = generation,
              ca_checkpoint_id = checkpoint, ca_global_live_leases = global_total,
              ca_cluster_kind_counts = normalized, ca_document_sha256 = aggregate_digest\<rparr>,
            cp_checkpoint = \<lparr>cc_epoch_id = epoch, cc_generation = generation,
              cc_checkpoint_id = checkpoint, cc_aggregate_document_sha256 = aggregate_digest,
              cc_document_sha256 = checkpoint_digest\<rparr>\<rparr>)"

definition lease_index_identity_from_document ::
  "(string \<Rightarrow> timestamp option option) \<Rightarrow> json \<Rightarrow> string \<Rightarrow> py_error + LeaseIndexIdentity" where
  "lease_index_identity_from_document fromisoformat v label =
     (case as_obj v of
        None \<Rightarrow> Inl (QueueConflictError (label @ '' is not an object''))
      | Some d \<Rightarrow>
          (case (as_str (doc_get d ''expires_at''), as_str (doc_get d ''job_kind'')) of
             (Some expires_text, Some kind_text) \<Rightarrow>
               (case fromisoformat expires_text of
                  None \<Rightarrow> Inl (QueueConflictError (label @ '' has invalid fields''))
                | Some expires_at \<Rightarrow>
                    (case JobKind_of_value kind_text of
                       None \<Rightarrow> Inl (QueueConflictError (label @ '' has invalid fields''))
                     | Some job_kind \<Rightarrow>
                         if doc_get d ''schema_version'' \<noteq> JStr LEASE_OPERATIONAL_INDEX_SCHEMA
                            \<or> \<not> safe_global_record_id (doc_get d ''lease_id'')
                            \<or> \<not> safe_global_record_id (doc_get d ''job_id'')
                            \<or> \<not> safe_global_record_id (doc_get d ''endpoint_id'')
                            \<or> as_str (doc_get d ''cluster'') \<in> {None, Some []}
                            \<or> expires_at = None
                         then Inl (QueueConflictError (label @ '' identity mismatch''))
                         else Inr \<lparr>li_lease_id = the (as_str (doc_get d ''lease_id'')),
                                   li_job_id = the (as_str (doc_get d ''job_id'')),
                                   li_endpoint_id = the (as_str (doc_get d ''endpoint_id'')),
                                   li_cluster = the (as_str (doc_get d ''cluster'')),
                                   li_job_kind = job_kind, li_expires_at = the expires_at\<rparr>))
           | _ \<Rightarrow> Inl (QueueConflictError (label @ '' has invalid fields''))))"

definition parse_kind_count :: "string \<Rightarrow> string \<times> json \<Rightarrow> kind_counts \<Rightarrow> py_error + kind_counts" where
  "parse_kind_count label item parsed =
     (case item of (raw_kind, raw_count) \<Rightarrow>
        (case JobKind_of_value raw_kind of
           None \<Rightarrow> Inl (QueueConflictError (label @ '' has an invalid job kind''))
         | Some k \<Rightarrow>
             if JobKind_value k \<noteq> raw_kind
             then Inl (QueueConflictError (label @ '' has a noncanonical job kind''))
             else (case as_int raw_count of
                 None \<Rightarrow> Inl (QueueConflictError (label @ '' has an invalid lease count''))
               | Some n \<Rightarrow> Inr (AList.update k n parsed))))"

definition parse_cluster_scope :: "string \<Rightarrow> string \<times> json \<Rightarrow> scope_counts \<Rightarrow> py_error + scope_counts" where
  "parse_cluster_scope label item counts =
     (case item of (cluster_token, raw_kind_counts) \<Rightarrow>
        (case as_obj raw_kind_counts of
           None \<Rightarrow> Inl (QueueConflictError (label @ '' has an invalid cluster scope''))
         | Some kvs \<Rightarrow> rbind (rfold (parse_kind_count label) kvs []) (\<lambda>parsed.
             Inr (AList.update cluster_token parsed counts))))"

definition aggregate_fields :: "string list" where
  "aggregate_fields = [''schema_version'', ''epoch_id'', ''generation'', ''checkpoint_id'',
     ''global_live_leases'', ''cluster_kind_counts'', ''document_sha256'']"

definition int_field_ok :: "json \<Rightarrow> (int \<Rightarrow> bool) \<Rightarrow> bool" where
  "int_field_ok v P = (case as_int v of None \<Rightarrow> False | Some n \<Rightarrow> P n)"

definition lease_capacity_aggregate_from_document :: "json \<Rightarrow> string \<Rightarrow> py_error + LeaseCapacityAggregate" where
  "lease_capacity_aggregate_from_document v label =
     (case as_obj v of
        None \<Rightarrow> Inl (QueueConflictError (label @ '' is not an object''))
      | Some d \<Rightarrow>
          if \<not> keys_are d aggregate_fields
             \<or> doc_get d ''schema_version'' \<noteq> JStr LEASE_CAPACITY_AGGREGATE_SCHEMA
          then Inl (QueueConflictError (label @ '' has an unsupported schema or fields''))
          else if \<not> is_capacity_identity (doc_get d ''epoch_id'')
             \<or> \<not> int_field_ok (doc_get d ''generation'') (\<lambda>n. 0 \<le> n)
             \<or> \<not> is_capacity_identity (doc_get d ''checkpoint_id'')
             \<or> \<not> int_field_ok (doc_get d ''global_live_leases'')
                  (\<lambda>n. 0 \<le> n \<and> n \<le> MAX_LIVE_LEASE_RECORDS)
             \<or> as_obj (doc_get d ''cluster_kind_counts'') = None
             \<or> \<not> is_sha256_digest (doc_get d ''document_sha256'')
          then Inl (QueueConflictError (label @ '' has invalid identity or count fields''))
          else
            let epoch_id = the (as_str (doc_get d ''epoch_id''));
                generation = the (as_int (doc_get d ''generation''));
                checkpoint_id = the (as_str (doc_get d ''checkpoint_id''));
                global_total = the (as_int (doc_get d ''global_live_leases''));
                raw_counts = the (as_obj (doc_get d ''cluster_kind_counts''));
                digest = the (as_str (doc_get d ''document_sha256'')) in
            rbind (rfold (parse_cluster_scope label) raw_counts []) (\<lambda>counts.
            rbind (normalize_lease_capacity_counts counts) (\<lambda>normalized.
              if scope_total normalized \<noteq> global_total
              then Inl (QueueConflictError (label @ '' global and scoped counts disagree''))
              else if canonical_document_sha256 (lease_capacity_aggregate_digest_payload epoch_id
                        generation checkpoint_id global_total normalized) \<noteq> digest
              then Inl (QueueConflictError (label @ '' checksum mismatch''))
              else Inr \<lparr>ca_epoch_id = epoch_id, ca_generation = generation,
                     ca_checkpoint_id = checkpoint_id, ca_global_live_leases = global_total,
                     ca_cluster_kind_counts = normalized, ca_document_sha256 = digest\<rparr>)))"

definition checkpoint_fields :: "string list" where
  "checkpoint_fields = [''schema_version'', ''epoch_id'', ''generation'', ''checkpoint_id'',
     ''aggregate_document_sha256'', ''document_sha256'']"

definition lease_capacity_checkpoint_from_document :: "json \<Rightarrow> string \<Rightarrow> py_error + LeaseCapacityCheckpoint" where
  "lease_capacity_checkpoint_from_document v label =
     (case as_obj v of
        None \<Rightarrow> Inl (QueueConflictError (label @ '' is not an object''))
      | Some d \<Rightarrow>
          if \<not> keys_are d checkpoint_fields
             \<or> doc_get d ''schema_version'' \<noteq> JStr LEASE_CAPACITY_CHECKPOINT_SCHEMA
          then Inl (QueueConflictError (label @ '' has an unsupported schema or fields''))
          else if \<not> is_capacity_identity (doc_get d ''epoch_id'')
             \<or> \<not> int_field_ok (doc_get d ''generation'') (\<lambda>n. 0 \<le> n)
             \<or> \<not> is_capacity_identity (doc_get d ''checkpoint_id'')
             \<or> \<not> is_sha256_digest (doc_get d ''aggregate_document_sha256'')
             \<or> \<not> is_sha256_digest (doc_get d ''document_sha256'')
          then Inl (QueueConflictError (label @ '' has invalid identity fields''))
          else
            let epoch_id = the (as_str (doc_get d ''epoch_id''));
                generation = the (as_int (doc_get d ''generation''));
                checkpoint_id = the (as_str (doc_get d ''checkpoint_id''));
                aggregate_digest = the (as_str (doc_get d ''aggregate_document_sha256''));
                digest = the (as_str (doc_get d ''document_sha256'')) in
            if canonical_document_sha256 (lease_capacity_checkpoint_digest_payload epoch_id
                 generation checkpoint_id aggregate_digest) \<noteq> digest
            then Inl (QueueConflictError (label @ '' checksum mismatch''))
            else Inr \<lparr>cc_epoch_id = epoch_id, cc_generation = generation,
                   cc_checkpoint_id = checkpoint_id,
                   cc_aggregate_document_sha256 = aggregate_digest, cc_document_sha256 = digest\<rparr>)"

definition validate_lease_capacity_pair :: "LeaseCapacityPair \<Rightarrow> string \<Rightarrow> py_error + unit" where
  "validate_lease_capacity_pair p label =
     (let a = cp_aggregate p; c = cp_checkpoint p in
      check (\<not> (cc_epoch_id c \<noteq> ca_epoch_id a \<or> cc_generation c \<noteq> ca_generation a
                \<or> cc_checkpoint_id c \<noteq> ca_checkpoint_id a
                \<or> cc_aggregate_document_sha256 c \<noteq> ca_document_sha256 a))
        (QueueConflictError (label @ '' aggregate and checkpoint disagree'')))"

definition lease_capacity_pair_payload :: "LeaseCapacityPair \<Rightarrow> json" where
  "lease_capacity_pair_payload p =
     JObj [(''aggregate'', lease_capacity_aggregate_document (cp_aggregate p)),
           (''checkpoint'', lease_capacity_checkpoint_document (cp_checkpoint p))]"

definition lease_capacity_pair_from_payload :: "json \<Rightarrow> string \<Rightarrow> py_error + LeaseCapacityPair" where
  "lease_capacity_pair_from_payload v label =
     (case as_obj v of
        None \<Rightarrow> Inl (QueueConflictError (label @ '' is not a lease capacity pair''))
      | Some d \<Rightarrow>
          if \<not> keys_are d [''aggregate'', ''checkpoint'']
          then Inl (QueueConflictError (label @ '' is not a lease capacity pair''))
          else
            rbind (lease_capacity_aggregate_from_document (doc_get d ''aggregate'')
                     (label @ '' aggregate'')) (\<lambda>aggregate.
            rbind (lease_capacity_checkpoint_from_document (doc_get d ''checkpoint'')
                     (label @ '' checkpoint'')) (\<lambda>checkpoint.
            let pair = \<lparr>cp_aggregate = aggregate, cp_checkpoint = checkpoint\<rparr> in
            rbind (validate_lease_capacity_pair pair label) (\<lambda>_. Inr pair))))"

end
