(* ===== verification/LeaseRecordsCodec.thy ===== *)
theory LeaseRecordsCodec
  imports LeaseRecords "HOL-Library.Multiset"
begin

text \<open>
  Round trips of the lease record codecs: reference file names, the operational index document
  and the capacity aggregate with its checkpoint. Every decoder accepts what its encoder wrote,
  and what a decoder accepts is bound to its own checksum and to the queue's bounds.
\<close>

section \<open>Reference names\<close>

lemma stable_ref_token_hex: "all_hex 32 (stable_ref_token vs)"
  unfolding stable_ref_token_def by (rule all_hex_take [OF sha256_hexdigest_hex]) simp

lemma short_token_hex: "is_short_ref_token (take 16 (stable_ref_token vs))"
  unfolding is_short_ref_token_def by (rule all_hex_take [OF stable_ref_token_hex]) simp

lemma lease_tokens_short [simp]:
  "is_short_ref_token (lease_index_token x)" "is_short_ref_token (lease_job_token x)"
  "is_short_ref_token (lease_endpoint_token x)" "is_short_ref_token (lease_cluster_token x)"
  "is_short_ref_token (lease_identity_token i)"
  by (simp_all add: lease_index_token_def lease_job_token_def lease_endpoint_token_def
      lease_cluster_token_def lease_identity_token_def lease_identity_token_from_parts_def
      short_token_hex)

lemma short_token_no_dot: "is_short_ref_token s \<Longrightarrow> CHR ''.'' \<notin> set s"
  using hex_digit_not_dot by (auto simp: is_short_ref_token_def all_hex_def list_all_iff)

lemma split_join_dot:
  assumes "ws \<noteq> []" "list_all (\<lambda>w. CHR ''.'' \<notin> set w) ws"
  shows "split_char (CHR ''.'') (join_with dot ws) = ws"
  using assms
proof (induction ws rule: induct_list012)
  case (2 w)
  then show ?case by (simp add: split_char_no_sep)
next
  case (3 w v ws)
  then show ?case by (simp add: dot_def split_char_append)
qed simp

lemma kind_code_no_dot: "CHR ''.'' \<notin> set (lease_kind_code k)"
  by (cases k) simp_all

lemma kind_of_code_code [simp]: "kind_of_code (lease_kind_code k) = Some k"
  by (cases k) (simp_all add: kind_of_code_def)

lemma format_020d_nonneg:
  assumes "0 \<le> k" "k < 10 ^ 20"
  shows "length (format_020d k) = 20" "list_all is_digit (format_020d k)"
    "int (digits_value (format_020d k)) = k" "CHR ''.'' \<notin> set (format_020d k)"
proof -
  have "nat k < 10 ^ 20" using assms by (simp add: nat_less_iff)
  then have "length (nat_digits (nat k)) \<le> 20" by (rule length_nat_digits) simp
  with assms show "length (format_020d k) = 20" by (simp add: format_020d_def length_zero_pad)
  show d: "list_all is_digit (format_020d k)"
    using assms by (simp add: format_020d_def zero_pad_digits nat_digits_digits)
  show "int (digits_value (format_020d k)) = k" using assms by (simp add: format_020d_def)
  show "CHR ''.'' \<notin> set (format_020d k)" using d by (auto simp: list_all_iff is_digit_def)
qed

lemma ref_no_dot: "CHR ''.'' \<notin> set ''ref''" by simp

lemma parse_expiry_ref_name:
  assumes "0 \<le> li_expires_at i" "li_expires_at i < 10 ^ 20"
  shows "parse_lease_expiry_ref_name (lease_expiry_ref_name i) =
    Some (li_expires_at i, lease_cluster_token (li_cluster i), li_job_kind i,
      lease_endpoint_token (li_endpoint_id i), lease_job_token (li_job_id i),
      lease_index_token (li_lease_id i), lease_identity_token i)"
proof -
  note f = format_020d_nonneg [OF assms]
  have split: "split_char (CHR ''.'') (lease_expiry_ref_name i) =
    [format_020d (li_expires_at i), lease_cluster_token (li_cluster i),
     lease_kind_code (li_job_kind i), lease_endpoint_token (li_endpoint_id i),
     lease_job_token (li_job_id i), lease_index_token (li_lease_id i), lease_identity_token i, ''ref'']"
    unfolding lease_expiry_ref_name_def lease_expiry_key_def lease_reference_def fst_conv snd_conv
    by (rule split_join_dot) (simp_all add: f(4) kind_code_no_dot short_token_no_dot)
  show ?thesis
    by (simp add: parse_lease_expiry_ref_name_def split f Let_def)
       (simp add: lease_identity_token_def lease_expiry_key_def)
qed

lemma parse_scope_ref_name:
  "lease_reference_from_scope_ref (lease_scope_ref_name i scope) scope = Some (lease_reference i)"
proof -
  let ?t = "take 16 (stable_ref_token ([''lease-scope'', lease_index_token (li_lease_id i),
    lease_identity_token i] @ scope))"
  have split: "split_char (CHR ''.'') (lease_scope_ref_name i scope) =
      [lease_index_token (li_lease_id i), lease_identity_token i, ?t, ''ref'']"
    unfolding lease_scope_ref_name_def lease_scope_ref_name_from_tokens_def lease_reference_def
      fst_conv snd_conv
    by (rule split_join_dot) (simp_all add: short_token_no_dot short_token_hex)
  show ?thesis
    using short_token_hex [of "[''lease-scope'', lease_index_token (li_lease_id i), lease_identity_token i] @ scope"]
    by (simp add: lease_reference_from_scope_ref_def split)
       (simp add: lease_scope_ref_name_def lease_reference_def)
qed

lemma parse_identity_ref_name:
  "parse_lease_identity_ref_name (join_with dot [lease_index_token l, lease_identity_token i, ''ref''])
     = Some (lease_index_token l, lease_identity_token i)"
proof -
  let ?key = "join_with dot [lease_index_token l, lease_identity_token i]"
  have name: "join_with dot [lease_index_token l, lease_identity_token i, ''ref''] = ?key @ ''.ref''"
    by (simp add: dot_def)
  have "split_char (CHR ''.'') ?key = [lease_index_token l, lease_identity_token i]"
    by (rule split_join_dot) (simp_all add: short_token_no_dot)
  then show ?thesis
    unfolding name parse_lease_identity_ref_name_def
    by (simp add: ends_with_def parse_lease_reference_key_def)
qed

text \<open>
  The names under which a lease is indexed are exact. Decoding the expiry reference of any
  identity with a representable expiry gives back its expiry, kind and every token; decoding its
  endpoint or cluster-kind reference in the same scope gives back its lease and identity tokens.
\<close>

theorem lease_reference_names_round_trip:
  assumes "0 \<le> li_expires_at i" and "li_expires_at i < 10 ^ 20"
  shows "parse_lease_expiry_ref_name (lease_expiry_ref_name i) =
      Some (lease_expiry_key (li_expires_at i), lease_cluster_token (li_cluster i), li_job_kind i,
        lease_endpoint_token (li_endpoint_id i), lease_job_token (li_job_id i),
        fst (lease_reference i), snd (lease_reference i))
    \<and> lease_reference_from_scope_ref (lease_scope_ref_name i scope) scope = Some (lease_reference i)"
  using parse_expiry_ref_name [OF assms] parse_scope_ref_name
  by (simp add: lease_expiry_key_def lease_reference_def)

definition demo_identity :: LeaseIndexIdentity where
  "demo_identity = \<lparr>li_lease_id = ''lease_a'', li_job_id = ''job_a'', li_endpoint_id = ''worker_a'',
     li_cluster = ''ares'', li_job_kind = JARVIS, li_expires_at = 1767225600000000\<rparr>"

theorem lease_reference_names_round_trip_witness:
  "lease_reference_from_scope_ref (lease_scope_ref_name demo_identity [''endpoint'', ''x'']) [''endpoint'', ''x'']
     = Some (lease_reference demo_identity)
   \<and> parse_lease_expiry_ref_name (lease_expiry_ref_name demo_identity) \<noteq> None"
  using lease_reference_names_round_trip [of demo_identity "[''endpoint'', ''x'']"]
  by (simp add: demo_identity_def)

section \<open>Capacity counts\<close>

definition valid_kind_counts :: "kind_counts \<Rightarrow> bool" where
  "valid_kind_counts kcs \<longleftrightarrow> kcs \<noteq> [] \<and> distinct (map fst kcs) \<and> (\<forall>(k, n) \<in> set kcs. 0 < n)"

definition valid_counts :: "scope_counts \<Rightarrow> bool" where
  "valid_counts counts \<longleftrightarrow>
     distinct (map fst counts)
     \<and> (\<forall>(c, kcs) \<in> set counts. is_short_ref_token c \<and> valid_kind_counts kcs)
     \<and> int (sum_list (map (\<lambda>(c, kcs). length kcs) counts)) \<le> MAX_LEASE_CAPACITY_SCOPES
     \<and> scope_total counts \<le> MAX_LIVE_LEASE_RECORDS"

lemma rfold_normalize_kind_count:
  assumes "distinct (map fst (sel @ kcs))"
  shows "rfold normalize_kind_count kcs (sel, sc, tot) =
    (if \<forall>(k, n) \<in> set kcs. 0 < n
     then Inr (sel @ kcs, sc + int (length kcs), tot + sum_list (map snd kcs))
     else Inl (QueueConflictError ''lease capacity aggregate counts must be positive integers''))"
  using assms
proof (induction kcs arbitrary: sel sc tot)
  case (Cons kn kcs)
  obtain k n where kn: "kn = (k, n)" by (cases kn)
  have new: "k \<notin> fst ` set sel" using Cons.prems by (auto simp: kn)
  then have none: "map_of sel k = None" by (simp add: map_of_eq_None_iff)
  show ?case
  proof (cases "0 < n")
    case True
    then have "normalize_kind_count kn (sel, sc, tot) = Inr (sel @ [(k, n)], sc + 1, tot + n)"
      by (simp add: normalize_kind_count_def kn none aupdate_new [OF new])
    with Cons.IH [of "sel @ [(k, n)]" "sc + 1" "tot + n"] Cons.prems True show ?thesis
      by (simp add: kn)
  next
    case False
    then show ?thesis by (simp add: normalize_kind_count_def kn)
  qed
qed simp

lemma normalize_cluster_scope_Inr:
  assumes "normalize_cluster_scope (c, kcs) (acc, sc, tot) = Inr r"
    and "c \<notin> fst ` set acc" "distinct (map fst kcs)"
  shows "is_short_ref_token c \<and> valid_kind_counts kcs
    \<and> r = (acc @ [(c, kcs)], sc + int (length kcs), tot + sum_list (map snd kcs))"
  using assms
  by (auto simp: normalize_cluster_scope_def rfold_normalize_kind_count aupdate_new
      valid_kind_counts_def split: if_splits)

lemma rfold_normalize_cluster_scope:
  assumes "distinct (map fst (acc @ counts))" "\<forall>(c, kcs) \<in> set counts. distinct (map fst kcs)"
    and "rfold normalize_cluster_scope counts (acc, sc, tot) = Inr (n, sc', tot')"
  shows "n = acc @ counts \<and> (\<forall>(c, kcs) \<in> set counts. is_short_ref_token c \<and> valid_kind_counts kcs)
    \<and> sc' = sc + int (sum_list (map (\<lambda>(c, kcs). length kcs) counts)) \<and> tot' = tot + scope_total counts"
  using assms
proof (induction counts arbitrary: acc sc tot)
  case Nil
  then show ?case by (simp add: scope_total_def)
next
  case (Cons ck counts)
  obtain c kcs where ck: "ck = (c, kcs)" by (cases ck)
  have new: "c \<notin> fst ` set acc" and dk: "distinct (map fst kcs)"
    using Cons.prems(1,2) by (auto simp: ck)
  from Cons.prems(3) obtain r where "normalize_cluster_scope (c, kcs) (acc, sc, tot) = Inr r"
    and "rfold normalize_cluster_scope counts r = Inr (n, sc', tot')"
    by (auto simp: ck rbind_eq_Inr)
  with normalize_cluster_scope_Inr [OF _ new dk]
  have tok: "is_short_ref_token c" "valid_kind_counts kcs"
    and rest: "rfold normalize_cluster_scope counts (acc @ [(c, kcs)], sc + int (length kcs),
      tot + sum_list (map snd kcs)) = Inr (n, sc', tot')"
    by blast+
  from Cons.IH [OF _ _ rest] Cons.prems(1,2) tok show ?case
    by (auto simp: ck scope_total_def)
qed

lemma rfold_normalize_cluster_scope_valid:
  assumes "distinct (map fst (acc @ counts))"
    and "\<forall>(c, kcs) \<in> set counts. is_short_ref_token c \<and> valid_kind_counts kcs"
  shows "rfold normalize_cluster_scope counts (acc, sc, tot) =
    Inr (acc @ counts, sc + int (sum_list (map (\<lambda>(c, kcs). length kcs) counts)), tot + scope_total counts)"
  using assms
proof (induction counts arbitrary: acc sc tot)
  case Nil
  then show ?case by (simp add: scope_total_def)
next
  case (Cons ck counts)
  obtain c kcs where ck: "ck = (c, kcs)" by (cases ck)
  have new: "c \<notin> fst ` set acc" and vk: "valid_kind_counts kcs" "is_short_ref_token c"
    using Cons.prems by (auto simp: ck)
  then have "normalize_cluster_scope ck (acc, sc, tot) =
      Inr (acc @ [(c, kcs)], sc + int (length kcs), tot + sum_list (map snd kcs))"
    by (simp add: normalize_cluster_scope_def ck valid_kind_counts_def rfold_normalize_kind_count
        aupdate_new)
  with Cons.IH [of "acc @ [(c, kcs)]"] Cons.prems show ?case
    by (simp add: ck scope_total_def)
qed

lemma normalize_counts_iff:
  assumes "distinct (map fst counts)" "\<forall>(c, kcs) \<in> set counts. distinct (map fst kcs)"
  shows "normalize_lease_capacity_counts counts = Inr n \<longleftrightarrow> n = counts \<and> valid_counts counts"
proof
  assume "normalize_lease_capacity_counts counts = Inr n"
  then obtain sc tot where "rfold normalize_cluster_scope counts ([], 0, 0) = Inr (n, sc, tot)"
    "\<not> sc > MAX_LEASE_CAPACITY_SCOPES" "\<not> tot > MAX_LIVE_LEASE_RECORDS"
    by (auto simp: normalize_lease_capacity_counts_def result_iff split: if_splits)
  with rfold_normalize_cluster_scope [of "[]" counts 0 0] assms
  show "n = counts \<and> valid_counts counts" by (auto simp: valid_counts_def)
next
  assume "n = counts \<and> valid_counts counts"
  with rfold_normalize_cluster_scope_valid [of "[]" counts 0 0]
  show "normalize_lease_capacity_counts counts = Inr n"
    by (auto simp: normalize_lease_capacity_counts_def valid_counts_def)
qed

lemma normalize_valid_counts: "valid_counts counts \<Longrightarrow> normalize_lease_capacity_counts counts = Inr counts"
  by (subst normalize_counts_iff) (auto simp: valid_counts_def valid_kind_counts_def)

section \<open>Canonical key order\<close>

definition canonical_counts :: "scope_counts \<Rightarrow> scope_counts" where
  "canonical_counts counts =
     map (\<lambda>(c, kcs). (c, sort_key (\<lambda>(k, n). JobKind_value k) kcs)) (sort_key fst counts)"

definition counts_json :: "scope_counts \<Rightarrow> (string \<times> json) list" where
  "counts_json counts =
     map (\<lambda>(c, kcs). (c, JObj (map (\<lambda>(k, n). (JobKind_value k, JInt n)) kcs))) counts"

lemma serialized_canonical:
  "serialized_lease_capacity_counts counts = JObj (counts_json (canonical_counts counts))"
  by (simp add: serialized_lease_capacity_counts_def counts_json_def canonical_counts_def case_prod_beta
      comp_def)

lemma sort_key_idem: "sort_key f (sort_key f xs) = sort_key f xs"
  by (rule sort_key_id_if_sorted) simp

lemma canonical_counts_idem: "canonical_counts (canonical_counts counts) = canonical_counts counts"
proof -
  have "sorted (map fst (canonical_counts counts))"
    by (simp add: canonical_counts_def comp_def case_prod_beta sorted_sort_key)
  then have "sort_key fst (canonical_counts counts) = canonical_counts counts"
    by (rule sort_key_id_if_sorted)
  then show ?thesis
    by (simp add: canonical_counts_def comp_def case_prod_beta sort_key_idem)
qed

lemma sum_list_sort_key: "sum_list (map f (sort_key g xs)) = (sum_list (map f xs) :: 'a :: comm_monoid_add)"
  by (metis mset_map mset_sort sum_mset_sum_list)

lemma canonical_counts_fst: "map fst (canonical_counts counts) = map fst (sort_key fst counts)"
  by (simp add: canonical_counts_def case_prod_beta comp_def)

lemma scope_total_canonical: "scope_total (canonical_counts counts) = scope_total counts"
  by (simp add: scope_total_def canonical_counts_def case_prod_beta' comp_def sum_list_sort_key)

lemma valid_kind_counts_sort: "valid_kind_counts (sort_key f kcs) = valid_kind_counts kcs"
  by (auto simp: valid_kind_counts_def distinct_map sort_key_Nil_iff)

lemma valid_canonical: "valid_counts counts \<Longrightarrow> valid_counts (canonical_counts counts)"
  unfolding valid_counts_def canonical_counts_fst scope_total_canonical
  by (auto simp: canonical_counts_def case_prod_beta' comp_def sum_list_sort_key distinct_map
      valid_kind_counts_sort)

text \<open>Canonical counts are the same dictionary.\<close>

lemma map_of_canonical:
  assumes "distinct (map fst counts)"
  shows "map_of (canonical_counts counts) c =
    map_option (sort_key (\<lambda>(k, n). JobKind_value k)) (map_of counts c)"
proof -
  have "map_of (canonical_counts counts) c =
      map_option (sort_key (\<lambda>(k, n). JobKind_value k)) (map_of (sort_key fst counts) c)"
    by (simp add: canonical_counts_def map_of_map)
  also have "map_of (sort_key fst counts) = map_of counts"
    using assms by (intro map_of_inject_set [THEN iffD2]) (simp_all add: distinct_map)
  finally show ?thesis .
qed

section \<open>Capacity documents\<close>

lemma rfold_parse_kind_count:
  assumes "distinct (map fst (acc @ kcs))"
  shows "rfold (parse_kind_count label) (map (\<lambda>(k, n). (JobKind_value k, JInt n)) kcs) acc = Inr (acc @ kcs)"
  using assms
proof (induction kcs arbitrary: acc)
  case (Cons kn kcs)
  then show ?case
    by (cases kn) (auto simp: parse_kind_count_def aupdate_new)
qed simp

lemma rfold_parse_cluster_scope:
  assumes "distinct (map fst (acc @ counts))" "\<forall>(c, kcs) \<in> set counts. distinct (map fst kcs)"
  shows "rfold (parse_cluster_scope label) (counts_json counts) acc = Inr (acc @ counts)"
  using assms
proof (induction counts arbitrary: acc)
  case (Cons ck counts)
  then show ?case
    by (cases ck) (auto simp: parse_cluster_scope_def counts_json_def aupdate_new
        rfold_parse_kind_count [of "[]", simplified])
qed (simp add: counts_json_def)

definition wf_aggregate :: "LeaseCapacityAggregate \<Rightarrow> bool" where
  "wf_aggregate a \<longleftrightarrow>
     all_hex 32 (ca_epoch_id a) \<and> 0 \<le> ca_generation a \<and> all_hex 32 (ca_checkpoint_id a)
     \<and> valid_counts (ca_cluster_kind_counts a)
     \<and> ca_global_live_leases a = scope_total (ca_cluster_kind_counts a)
     \<and> ca_document_sha256 a = canonical_document_sha256 (lease_capacity_aggregate_digest_payload
          (ca_epoch_id a) (ca_generation a) (ca_checkpoint_id a) (ca_global_live_leases a)
          (ca_cluster_kind_counts a))"

definition wf_checkpoint :: "LeaseCapacityCheckpoint \<Rightarrow> bool" where
  "wf_checkpoint c \<longleftrightarrow>
     all_hex 32 (cc_epoch_id c) \<and> 0 \<le> cc_generation c \<and> all_hex 32 (cc_checkpoint_id c)
     \<and> all_hex 64 (cc_aggregate_document_sha256 c)
     \<and> cc_document_sha256 c = canonical_document_sha256 (lease_capacity_checkpoint_digest_payload
          (cc_epoch_id c) (cc_generation c) (cc_checkpoint_id c) (cc_aggregate_document_sha256 c))"

definition canonical_aggregate :: "LeaseCapacityAggregate \<Rightarrow> LeaseCapacityAggregate" where
  "canonical_aggregate a = a\<lparr>ca_cluster_kind_counts := canonical_counts (ca_cluster_kind_counts a)\<rparr>"

lemma canonical_document_sha256_hex: "all_hex 64 (canonical_document_sha256 d)"
  by (simp add: canonical_document_sha256_def sha256_hexdigest_hex)

lemma scope_total_nonneg: "valid_counts counts \<Longrightarrow> 0 \<le> scope_total counts"
  unfolding scope_total_def valid_counts_def valid_kind_counts_def
  by (intro sum_list_nonneg) (fastforce intro!: sum_list_nonneg)

lemma digest_payload_canonical:
  "lease_capacity_aggregate_digest_payload e g c t (canonical_counts counts) =
   lease_capacity_aggregate_digest_payload e g c t counts"
  by (simp add: lease_capacity_aggregate_digest_payload_def serialized_canonical canonical_counts_idem)

lemma aggregate_document_round_trip:
  assumes "wf_aggregate a"
  shows "lease_capacity_aggregate_from_document (lease_capacity_aggregate_document a) label
    = Inr (canonical_aggregate a)"
proof -
  let ?n = "canonical_counts (ca_cluster_kind_counts a)"
  have v: "valid_counts ?n" using assms by (simp add: wf_aggregate_def valid_canonical)
  then have parse: "rfold (parse_cluster_scope label) (counts_json ?n) [] = Inr ?n"
    using rfold_parse_cluster_scope [of "[]" ?n label]
    by (auto simp: valid_counts_def valid_kind_counts_def)
  have total: "0 \<le> ca_global_live_leases a" "ca_global_live_leases a \<le> MAX_LIVE_LEASE_RECORDS"
    using assms scope_total_nonneg by (auto simp: wf_aggregate_def valid_counts_def)
  have sha: "all_hex 64 (ca_document_sha256 a)"
    using assms by (simp add: wf_aggregate_def canonical_document_sha256_hex)
  from assms total sha parse normalize_valid_counts [OF v] show ?thesis
    unfolding lease_capacity_aggregate_document_def lease_capacity_aggregate_from_document_def
    by (cases a) (simp add: Let_def lease_capacity_aggregate_digest_payload_def keys_are_def aggregate_fields_def
        doc_get_def dict_get_def is_capacity_identity_def is_sha256_digest_def int_field_ok_def
        serialized_canonical scope_total_canonical
        canonical_counts_idem wf_aggregate_def canonical_aggregate_def insert_commute)
qed

lemma checkpoint_document_round_trip:
  assumes "wf_checkpoint c"
  shows "lease_capacity_checkpoint_from_document (lease_capacity_checkpoint_document c) label = Inr c"
  using assms canonical_document_sha256_hex
  unfolding lease_capacity_checkpoint_document_def lease_capacity_checkpoint_from_document_def
  by (cases c) (simp add: Let_def lease_capacity_checkpoint_digest_payload_def keys_are_def checkpoint_fields_def
      doc_get_def dict_get_def is_capacity_identity_def is_sha256_digest_def int_field_ok_def
      wf_checkpoint_def insert_commute)

definition bound_pair :: "LeaseCapacityPair \<Rightarrow> bool" where
  "bound_pair p \<longleftrightarrow> wf_aggregate (cp_aggregate p) \<and> wf_checkpoint (cp_checkpoint p)
     \<and> cc_epoch_id (cp_checkpoint p) = ca_epoch_id (cp_aggregate p)
     \<and> cc_generation (cp_checkpoint p) = ca_generation (cp_aggregate p)
     \<and> cc_checkpoint_id (cp_checkpoint p) = ca_checkpoint_id (cp_aggregate p)
     \<and> cc_aggregate_document_sha256 (cp_checkpoint p) = ca_document_sha256 (cp_aggregate p)"

definition canonical_pair :: "LeaseCapacityPair \<Rightarrow> LeaseCapacityPair" where
  "canonical_pair p = p\<lparr>cp_aggregate := canonical_aggregate (cp_aggregate p)\<rparr>"

lemma validate_pair_Inr [result_iff]:
  "validate_lease_capacity_pair p label = Inr u \<longleftrightarrow>
     cc_epoch_id (cp_checkpoint p) = ca_epoch_id (cp_aggregate p)
     \<and> cc_generation (cp_checkpoint p) = ca_generation (cp_aggregate p)
     \<and> cc_checkpoint_id (cp_checkpoint p) = ca_checkpoint_id (cp_aggregate p)
     \<and> cc_aggregate_document_sha256 (cp_checkpoint p) = ca_document_sha256 (cp_aggregate p)"
  by (auto simp: validate_lease_capacity_pair_def Let_def check_eq_Inr)

lemma pair_payload_round_trip:
  assumes "bound_pair p"
  shows "lease_capacity_pair_from_payload (lease_capacity_pair_payload p) label = Inr (canonical_pair p)"
  using assms
  unfolding lease_capacity_pair_payload_def lease_capacity_pair_from_payload_def bound_pair_def
  by (cases p) (simp add: keys_are_def doc_get_def dict_get_def aggregate_document_round_trip
      checkpoint_document_round_trip rbind_eq_Inr validate_pair_Inr canonical_pair_def
      canonical_aggregate_def Let_def)

lemma wf_aggregate_canonical: "wf_aggregate a \<Longrightarrow> wf_aggregate (canonical_aggregate a)"
  by (simp add: wf_aggregate_def canonical_aggregate_def valid_canonical scope_total_canonical
      digest_payload_canonical)

lemma bound_pair_canonical: "bound_pair p \<Longrightarrow> bound_pair (canonical_pair p)"
  by (simp add: bound_pair_def canonical_pair_def wf_aggregate_canonical)
     (simp add: canonical_aggregate_def)

lemma canonical_pair_idem: "canonical_pair (canonical_pair p) = canonical_pair p"
  by (simp add: canonical_pair_def canonical_aggregate_def canonical_counts_idem)

lemma parsed_counts_distinct:
  assumes "rfold (parse_cluster_scope label) raw [] = Inr counts"
  shows "distinct (map fst counts) \<and> (\<forall>(c, kcs) \<in> set counts. distinct (map fst kcs))"
proof -
  have kind: "distinct (map fst acc)" if "rfold (parse_kind_count label) kvs [] = Inr acc" for kvs acc
    using that
  proof (rule rfold_invariant)
    fix x :: "string \<times> json" and s s'
    assume "distinct (map fst s)" "parse_kind_count label x s = Inr s'"
    then show "distinct (map fst s')"
      by (cases x; cases "JobKind_of_value (fst x)"; cases "as_int (snd x)")
         (auto simp: parse_kind_count_def distinct_aupdate split: if_splits)
  qed simp
  let ?P = "\<lambda>counts :: scope_counts. distinct (map fst counts) \<and> (\<forall>(c, kcs) \<in> set counts. distinct (map fst kcs))"
  show ?thesis
    using assms
  proof (rule rfold_invariant [where P = ?P])
    fix x :: "string \<times> json" and s s'
    assume P: "?P s" and step: "parse_cluster_scope label x s = Inr s'"
    obtain c v where x: "x = (c, v)" by (cases x)
    from step obtain kvs p where "v = JObj kvs" "rfold (parse_kind_count label) kvs [] = Inr p"
      "s' = AList.update c p s"
      by (auto simp: parse_cluster_scope_def x rbind_eq_Inr split: option.splits)
    with P kind set_aupdate [of c p s] show "?P s'"
      by (auto simp: distinct_aupdate)
  qed simp
qed

lemma int_field_ok_iff: "int_field_ok v P \<longleftrightarrow> (\<exists>n. v = JInt n \<and> P n)"
  by (auto simp: int_field_ok_def split: option.splits)

lemma is_capacity_identity_iff: "is_capacity_identity v \<longleftrightarrow> (\<exists>s. v = JStr s \<and> all_hex 32 s)"
  by (auto simp: is_capacity_identity_def split: option.splits)

lemma is_sha256_digest_iff: "is_sha256_digest v \<longleftrightarrow> (\<exists>s. v = JStr s \<and> all_hex 64 s)"
  by (auto simp: is_sha256_digest_def split: option.splits)

lemma aggregate_from_document_wf:
  assumes "lease_capacity_aggregate_from_document v label = Inr a"
  shows "wf_aggregate a"
proof -
  from assms obtain counts raw where
    "rfold (parse_cluster_scope label) raw [] = Inr counts"
    and n: "normalize_lease_capacity_counts counts = Inr (ca_cluster_kind_counts a)"
    and rest: "all_hex 32 (ca_epoch_id a)" "0 \<le> ca_generation a" "all_hex 32 (ca_checkpoint_id a)"
      "scope_total (ca_cluster_kind_counts a) = ca_global_live_leases a"
      "ca_document_sha256 a = canonical_document_sha256 (lease_capacity_aggregate_digest_payload
          (ca_epoch_id a) (ca_generation a) (ca_checkpoint_id a) (ca_global_live_leases a)
          (ca_cluster_kind_counts a))"
    unfolding lease_capacity_aggregate_from_document_def
    by (auto simp: int_field_ok_iff is_capacity_identity_iff is_sha256_digest_iff Let_def rbind_eq_Inr
        split: option.splits if_splits)
  then show ?thesis
    using parsed_counts_distinct normalize_counts_iff [of counts "ca_cluster_kind_counts a"]
    by (auto simp: wf_aggregate_def)
qed

lemma checkpoint_from_document_wf:
  "lease_capacity_checkpoint_from_document v label = Inr c \<Longrightarrow> wf_checkpoint c"
  unfolding lease_capacity_checkpoint_from_document_def
  by (auto simp: int_field_ok_iff is_capacity_identity_iff is_sha256_digest_iff Let_def
      wf_checkpoint_def split: option.splits if_splits)

lemma pair_from_payload_bound:
  "lease_capacity_pair_from_payload v label = Inr p \<Longrightarrow> bound_pair p"
  unfolding lease_capacity_pair_from_payload_def bound_pair_def
  by (auto simp: rbind_eq_Inr Let_def validate_pair_Inr split: option.splits if_splits
      dest: aggregate_from_document_wf checkpoint_from_document_wf)

lemma new_pair_bound:
  assumes "new_lease_capacity_pair counts epoch generation checkpoint = Inr p"
    and "distinct (map fst counts)" "\<forall>(c, kcs) \<in> set counts. distinct (map fst kcs)"
    and "all_hex 32 epoch" "all_hex 32 checkpoint" "0 \<le> generation"
  shows "bound_pair p \<and> ca_cluster_kind_counts (cp_aggregate p) = counts \<and> valid_counts counts
    \<and> ca_epoch_id (cp_aggregate p) = epoch \<and> ca_generation (cp_aggregate p) = generation
    \<and> ca_global_live_leases (cp_aggregate p) = scope_total counts"
  using assms
  by (auto simp: new_lease_capacity_pair_def rbind_eq_Inr normalize_counts_iff Let_def bound_pair_def
      wf_aggregate_def wf_checkpoint_def canonical_document_sha256_hex)

text \<open>
  Capacity records survive their journal. A freshly made aggregate and checkpoint pair is
  mutually bound; writing it to a transition payload and reading it back gives the same pair with
  its counts in canonical key order; and whatever payload the decoder accepts is a bound pair
  whose counts are positive, within the queue's bounds, add up to the global total and match
  their own digests.
\<close>

theorem capacity_pair_round_trip:
  "(distinct (map fst counts) \<and> (\<forall>(c, kcs) \<in> set counts. distinct (map fst kcs))
      \<and> all_hex 32 epoch \<and> all_hex 32 checkpoint \<and> 0 \<le> generation
      \<and> new_lease_capacity_pair counts epoch generation checkpoint = Inr p
    \<longrightarrow> lease_capacity_pair_from_payload (lease_capacity_pair_payload p) label = Inr (canonical_pair p)
      \<and> ca_global_live_leases (cp_aggregate p) = scope_total counts)
   \<and> (lease_capacity_pair_from_payload v label = Inr q \<longrightarrow> bound_pair q)"
  using new_pair_bound [of counts epoch generation checkpoint p] pair_payload_round_trip
    pair_from_payload_bound by blast

lemma all_hex_replicate: "hex_digit c \<Longrightarrow> all_hex n (replicate n c)"
  by (simp add: all_hex_def list_all_iff)

definition demo_hex :: string where
  "demo_hex = replicate 32 (CHR ''a'')"

definition demo_counts :: scope_counts where
  "demo_counts = [(replicate 16 (CHR ''b''), [(MCP_CALL, 2), (JARVIS, 1)])]"

lemma demo_counts_valid: "valid_counts demo_counts"
  by (simp add: valid_counts_def demo_counts_def is_short_ref_token_def all_hex_replicate hex_digit_def
      valid_kind_counts_def scope_total_def MAX_LEASE_CAPACITY_SCOPES_def MAX_LIVE_LEASE_RECORDS_def
      MAX_ACTIVE_JOB_RECORDS_def)

theorem capacity_pair_round_trip_witness:
  "\<exists>p. new_lease_capacity_pair demo_counts demo_hex 4 demo_hex = Inr p
     \<and> lease_capacity_pair_from_payload (lease_capacity_pair_payload p) ''x'' = Inr (canonical_pair p)
     \<and> ca_global_live_leases (cp_aggregate p) = 3"
proof -
  obtain p where "new_lease_capacity_pair demo_counts demo_hex 4 demo_hex = Inr p"
    using normalize_valid_counts [OF demo_counts_valid] by (simp add: new_lease_capacity_pair_def Let_def)
  moreover have "all_hex 32 demo_hex" by (simp add: demo_hex_def all_hex_replicate hex_digit_def)
  moreover have "scope_total demo_counts = 3" by (simp add: demo_counts_def scope_total_def)
  ultimately show ?thesis
    using capacity_pair_round_trip [of demo_counts demo_hex demo_hex 4 p "''x''"]
    by (simp add: demo_counts_def)
qed

end
