(* ===== verification/LeaseCapacity.thy ===== *)
theory LeaseCapacity
  imports LeaseRecordsCodec
begin

text \<open>
  The journaled lease-capacity pair: \<^verbatim>\<open>queue_lease_capacity_state.py\<close>. The state is the fixed two-file
  directory \<^verbatim>\<open>lease_capacity\<close>, each file a JSON document or absent; an inventory the code refuses
  (a link, a foreign file, an oversized record) is a fault. The two replacements of a write are
  separate steps, so a crash between them leaves a torn pair, which the journaled transition of
  the caller later converges.
\<close>

record capacity_files =
  cf_fault :: "py_error option"
  cf_aggregate :: "json option"
  cf_checkpoint :: "json option"

type_synonym 'a capacity_op = "(capacity_files, py_error, 'a) op"

text \<open>\<^verbatim>\<open>sorted(allowed - set(paths))\<close>\<close>

definition missing_records :: "capacity_files \<Rightarrow> string list" where
  "missing_records f =
     (if cf_aggregate f = None then [''aggregate.json''] else [])
     @ (if cf_checkpoint f = None then [''checkpoint.json''] else [])"

definition lease_capacity_record_paths :: "bool \<Rightarrow> unit capacity_op" where
  "lease_capacity_record_paths allow_missing =
     mbind mget (\<lambda>f.
       case cf_fault f of
         Some e \<Rightarrow> mraise e
       | None \<Rightarrow> mcheck (allow_missing \<or> missing_records f = [])
           (QueueConflictError (''lease capacity pair is incomplete; missing ''
              @ join_with '', '' (missing_records f))))"

definition decode_optional :: "(json \<Rightarrow> string \<Rightarrow> py_error + 'a) \<Rightarrow> json option \<Rightarrow> string \<Rightarrow> py_error + 'a option" where
  "decode_optional decode doc label =
     (case doc of None \<Rightarrow> Inr None | Some d \<Rightarrow> rbind (decode d label) (\<lambda>x. Inr (Some x)))"

definition read_lease_capacity_components ::
  "bool \<Rightarrow> (LeaseCapacityAggregate option \<times> LeaseCapacityCheckpoint option) capacity_op" where
  "read_lease_capacity_components allow_missing =
     mbind (lease_capacity_record_paths allow_missing) (\<lambda>_.
     mbind mget (\<lambda>f.
     mbind (mlift (decode_optional lease_capacity_aggregate_from_document (cf_aggregate f)
              ''lease capacity aggregate'')) (\<lambda>aggregate.
     mbind (mlift (decode_optional lease_capacity_checkpoint_from_document (cf_checkpoint f)
              ''lease capacity checkpoint'')) (\<lambda>checkpoint.
     mret (aggregate, checkpoint)))))"

definition read_lease_capacity_aggregate :: "LeaseCapacityPair capacity_op" where
  "read_lease_capacity_aggregate =
     mbind (read_lease_capacity_components False) (\<lambda>(aggregate, checkpoint).
       case (aggregate, checkpoint) of
         (Some a, Some c) \<Rightarrow>
           let pair = \<lparr>cp_aggregate = a, cp_checkpoint = c\<rparr> in
           mbind (mlift (validate_lease_capacity_pair pair ''lease capacity pair'')) (\<lambda>_. mret pair)
       | _ \<Rightarrow> mraise (QueueConflictError ''lease capacity pair is incomplete''))"

definition write_aggregate_file :: "LeaseCapacityAggregate \<Rightarrow> unit capacity_op" where
  "write_aggregate_file a =
     mupd (\<lambda>f. f\<lparr>cf_aggregate := Some (lease_capacity_aggregate_document a)\<rparr>)"

definition write_checkpoint_file :: "LeaseCapacityCheckpoint \<Rightarrow> unit capacity_op" where
  "write_checkpoint_file c =
     mupd (\<lambda>f. f\<lparr>cf_checkpoint := Some (lease_capacity_checkpoint_document c)\<rparr>)"

definition write_lease_capacity_pair :: "LeaseCapacityPair \<Rightarrow> unit capacity_op" where
  "write_lease_capacity_pair pair =
     mbind (mlift (validate_lease_capacity_pair pair ''lease capacity write'')) (\<lambda>_.
     mbind (write_aggregate_file (cp_aggregate pair)) (\<lambda>_.
     write_checkpoint_file (cp_checkpoint pair)))"

section \<open>Transitions\<close>

type_synonym scope_deltas = "((string \<times> JobKind) \<times> int) list"

definition apply_delta :: "(string \<times> JobKind) \<times> int \<Rightarrow> scope_counts \<Rightarrow> py_error + scope_counts" where
  "apply_delta item counts =
     (case item of ((cluster, kind), delta) \<Rightarrow>
        if delta = 0
        then Inl (QueueConflictError ''lease capacity transition delta must be a nonzero integer'')
        else
          let cluster_token = lease_cluster_token cluster;
              kcs = dict_get counts cluster_token [];
              next_count = dict_get kcs kind 0 + delta in
          if next_count < 0
          then Inl (QueueConflictError (''lease capacity transition underflow: '' @ cluster @ ''/''
                 @ JobKind_value kind))
          else
            let kcs' = (if next_count = 0 then AList.delete kind kcs
                        else AList.update kind next_count kcs) in
            Inr (if kcs' = [] then AList.delete cluster_token counts
                 else AList.update cluster_token kcs' counts))"

text \<open>\<open>fresh_after\<close> and \<open>fresh_rollback\<close> are the checkpoint identities drawn with \<^verbatim>\<open>uuid4().hex\<close>.\<close>

definition prepare_lease_capacity_transition ::
  "string \<Rightarrow> string \<Rightarrow> scope_deltas \<Rightarrow> bool \<Rightarrow> json capacity_op" where
  "prepare_lease_capacity_transition fresh_after fresh_rollback deltas include_rollback =
     mbind read_lease_capacity_aggregate (\<lambda>before.
     let a = cp_aggregate before in
     mbind (mlift (rfold apply_delta deltas (ca_cluster_kind_counts a))) (\<lambda>counts.
     mbind (mlift (new_lease_capacity_pair counts (ca_epoch_id a) (ca_generation a + 1) fresh_after)) (\<lambda>after.
     let transition = [(''before'', lease_capacity_pair_payload before),
                       (''after'', lease_capacity_pair_payload after)] in
     if include_rollback
     then mbind (mlift (new_lease_capacity_pair (ca_cluster_kind_counts a) (ca_epoch_id a)
              (ca_generation (cp_aggregate after) + 1) fresh_rollback)) (\<lambda>rollback.
            mret (JObj (transition @ [(''rollback'', lease_capacity_pair_payload rollback)])))
     else mret (JObj transition))))"

definition dict_eq :: "('v \<Rightarrow> 'v \<Rightarrow> bool) \<Rightarrow> ('k \<times> 'v) list \<Rightarrow> ('k \<times> 'v) list \<Rightarrow> bool" where
  "dict_eq eqv d1 d2 \<longleftrightarrow>
     set (map fst d1) = set (map fst d2)
     \<and> list_all (\<lambda>k. case (map_of d1 k, map_of d2 k) of (Some v, Some w) \<Rightarrow> eqv v w | _ \<Rightarrow> False)
         (map fst d1)"

definition aggregate_eq :: "LeaseCapacityAggregate \<Rightarrow> LeaseCapacityAggregate \<Rightarrow> bool" where
  "aggregate_eq a b \<longleftrightarrow>
     ca_epoch_id a = ca_epoch_id b \<and> ca_generation a = ca_generation b
     \<and> ca_checkpoint_id a = ca_checkpoint_id b
     \<and> ca_global_live_leases a = ca_global_live_leases b
     \<and> dict_eq (dict_eq (=)) (ca_cluster_kind_counts a) (ca_cluster_kind_counts b)
     \<and> ca_document_sha256 a = ca_document_sha256 b"

definition authorized :: "('a \<Rightarrow> 'a \<Rightarrow> bool) \<Rightarrow> 'a option \<Rightarrow> 'a list \<Rightarrow> bool" where
  "authorized eqv current allowed = (case current of None \<Rightarrow> True | Some x \<Rightarrow> list_ex (eqv x) allowed)"

definition decode_transition :: "json \<Rightarrow> string \<Rightarrow> py_error + (string \<times> LeaseCapacityPair) list" where
  "decode_transition transition_value label =
     (case as_obj transition_value of
        None \<Rightarrow> Inl (QueueConflictError (label @ '' has no lease capacity transition''))
      | Some transition \<Rightarrow>
          if \<not> {''before'', ''after''} \<subseteq> set (map fst transition)
             \<or> \<not> set (map fst transition) \<subseteq> {''before'', ''after'', ''rollback''}
          then Inl (QueueConflictError (label @ '' lease capacity transition is invalid''))
          else rmap (\<lambda>(name, v). rbind (lease_capacity_pair_from_payload v (label @ '' '' @ name))
                                  (\<lambda>p. Inr (name, p))) transition)"

text \<open>The part of \<^verbatim>\<open>_apply_lease_capacity_transition_unlocked\<close> before its write.\<close>

definition authorize_lease_capacity_transition ::
  "json \<Rightarrow> string \<Rightarrow> string \<Rightarrow> LeaseCapacityPair capacity_op" where
  "authorize_lease_capacity_transition transition_value target label =
     mbind (mlift (decode_transition transition_value label)) (\<lambda>pairs.
       case map_of pairs target of
         None \<Rightarrow> mraise (QueueConflictError (label @ '' has no authorized '' @ target
                   @ '' capacity generation''))
       | Some selected \<Rightarrow>
           mbind (read_lease_capacity_components True) (\<lambda>(current_aggregate, current_checkpoint).
           if \<not> authorized aggregate_eq current_aggregate (map (\<lambda>p. cp_aggregate (snd p)) pairs)
           then mraise (QueueConflictError (label @ '' found an unauthorized aggregate generation''))
           else if \<not> authorized (=) current_checkpoint (map (\<lambda>p. cp_checkpoint (snd p)) pairs)
           then mraise (QueueConflictError (label @ '' found an unauthorized checkpoint generation''))
           else if current_aggregate = None \<and> current_checkpoint = None
           then mraise (QueueConflictError (label @ '' found both capacity records missing''))
           else mret selected))"

definition apply_lease_capacity_transition ::
  "json \<Rightarrow> string \<Rightarrow> string \<Rightarrow> LeaseCapacityPair capacity_op" where
  "apply_lease_capacity_transition transition_value target label =
     mbind (authorize_lease_capacity_transition transition_value target label) (\<lambda>selected.
     mbind (write_lease_capacity_pair selected) (\<lambda>_. mret selected))"

definition lease_capacity_snapshot :: "string \<Rightarrow> (kind_counts \<times> int) capacity_op" where
  "lease_capacity_snapshot cluster =
     mbind read_lease_capacity_aggregate (\<lambda>pair.
       mret (dict_get (ca_cluster_kind_counts (cp_aggregate pair)) (lease_cluster_token cluster) [],
             ca_global_live_leases (cp_aggregate pair)))"

section \<open>Reading what was written\<close>

definition pair_files :: "LeaseCapacityPair \<Rightarrow> capacity_files" where
  "pair_files p = \<lparr>cf_fault = None, cf_aggregate = Some (lease_capacity_aggregate_document (cp_aggregate p)),
     cf_checkpoint = Some (lease_capacity_checkpoint_document (cp_checkpoint p))\<rparr>"

lemma read_pair_files:
  assumes "bound_pair p"
  shows "read_lease_capacity_aggregate (pair_files p) = (Inr (canonical_pair p), pair_files p)"
proof -
  have "read_lease_capacity_components False (pair_files p) =
      (Inr (Some (canonical_aggregate (cp_aggregate p)), Some (cp_checkpoint p)), pair_files p)"
    using assms
    by (simp add: read_lease_capacity_components_def lease_capacity_record_paths_def pair_files_def
        missing_records_def decode_optional_def mbind_app aggregate_document_round_trip
        checkpoint_document_round_trip bound_pair_def)
  moreover have "validate_lease_capacity_pair
      \<lparr>cp_aggregate = canonical_aggregate (cp_aggregate p), cp_checkpoint = cp_checkpoint p\<rparr>
      ''lease capacity pair'' = Inr ()"
    using assms by (simp add: validate_pair_Inr bound_pair_def canonical_aggregate_def)
  ultimately show ?thesis
    by (cases p) (simp add: read_lease_capacity_aggregate_def mbind_app canonical_pair_def)
qed

lemma pair_files_canonical: "pair_files (canonical_pair p) = pair_files p"
  by (simp add: pair_files_def canonical_pair_def canonical_aggregate_def
      lease_capacity_aggregate_document_def digest_payload_canonical)

lemma write_pair_files:
  assumes "bound_pair p" "cf_fault f = None"
  shows "write_lease_capacity_pair p f = (Inr (), pair_files p)"
proof -
  have "validate_lease_capacity_pair p ''lease capacity write'' = Inr ()"
    using assms(1) by (simp add: validate_pair_Inr bound_pair_def)
  with assms(2) show ?thesis
    by (cases f) (simp add: write_lease_capacity_pair_def write_aggregate_file_def
        write_checkpoint_file_def mbind_app pair_files_def)
qed

section \<open>Transitions are authorized by their journal\<close>

definition transition_json :: "(string \<times> LeaseCapacityPair) list \<Rightarrow> json" where
  "transition_json ps = JObj (map (\<lambda>(name, p). (name, lease_capacity_pair_payload p)) ps)"

definition transition_names :: "(string \<times> LeaseCapacityPair) list \<Rightarrow> bool" where
  "transition_names ps \<longleftrightarrow> {''before'', ''after''} \<subseteq> set (map fst ps)
     \<and> set (map fst ps) \<subseteq> {''before'', ''after'', ''rollback''}"

lemma decode_transition_json:
  assumes "transition_names ps" "\<forall>(name, p) \<in> set ps. bound_pair p"
  shows "decode_transition (transition_json ps) label = Inr (map (\<lambda>(name, p). (name, canonical_pair p)) ps)"
proof -
  have "rmap (\<lambda>(name, v). rbind (lease_capacity_pair_from_payload v (label @ '' '' @ name)) (\<lambda>p. Inr (name, p)))
      (map (\<lambda>(name, p). (name, lease_capacity_pair_payload p)) ps)
      = Inr (map (\<lambda>(name, p). (name, canonical_pair p)) ps)"
    using assms(2) by (induction ps) (auto simp: pair_payload_round_trip)
  moreover have "map fst (map (\<lambda>(name, p). (name, lease_capacity_pair_payload p)) ps) = map fst ps"
    by (simp add: case_prod_beta)
  ultimately show ?thesis
    using assms(1)
    by (simp add: decode_transition_def transition_json_def transition_names_def del: map_map)
qed

lemma dict_eq_refl: "(\<And>v. eqv v v) \<Longrightarrow> dict_eq eqv d d"
  by (auto simp: dict_eq_def list_all_iff weak_map_of_SomeI split: option.splits)

lemma aggregate_eq_refl: "aggregate_eq a a"
  by (simp add: aggregate_eq_def dict_eq_refl)

text \<open>
  The states a crash can leave while a journaled transition between the pairs \<open>ps\<close> is being
  written: each of the two files is one of theirs, or one of the two is missing.
\<close>

definition torn :: "LeaseCapacityPair list \<Rightarrow> capacity_files \<Rightarrow> bool" where
  "torn ps f \<longleftrightarrow> cf_fault f = None
     \<and> (cf_aggregate f \<noteq> None \<or> cf_checkpoint f \<noteq> None)
     \<and> (\<forall>d. cf_aggregate f = Some d \<longrightarrow> d \<in> (\<lambda>p. lease_capacity_aggregate_document (cp_aggregate p)) ` set ps)
     \<and> (\<forall>d. cf_checkpoint f = Some d \<longrightarrow> d \<in> (\<lambda>p. lease_capacity_checkpoint_document (cp_checkpoint p)) ` set ps)"

lemma torn_components:
  assumes "torn ps f" "\<forall>p \<in> set ps. bound_pair p"
  obtains ca cc where "read_lease_capacity_components True f = (Inr (ca, cc), f)"
    "ca \<noteq> None \<or> cc \<noteq> None"
    "authorized aggregate_eq ca (map (\<lambda>p. cp_aggregate (canonical_pair p)) ps)"
    "authorized (=) cc (map (\<lambda>p. cp_checkpoint (canonical_pair p)) ps)"
proof -
  have agg: "\<exists>ca. decode_optional lease_capacity_aggregate_from_document (cf_aggregate f)
      ''lease capacity aggregate'' = Inr ca \<and> (ca = None \<longleftrightarrow> cf_aggregate f = None)
      \<and> authorized aggregate_eq ca (map (\<lambda>p. cp_aggregate (canonical_pair p)) ps)"
    using assms
    by (cases "cf_aggregate f")
       (auto simp: torn_def decode_optional_def authorized_def aggregate_document_round_trip
         bound_pair_def list_ex_iff canonical_pair_def intro!: aggregate_eq_refl)
  have chk: "\<exists>cc. decode_optional lease_capacity_checkpoint_from_document (cf_checkpoint f)
      ''lease capacity checkpoint'' = Inr cc \<and> (cc = None \<longleftrightarrow> cf_checkpoint f = None)
      \<and> authorized (=) cc (map (\<lambda>p. cp_checkpoint (canonical_pair p)) ps)"
    using assms
    by (cases "cf_checkpoint f")
       (auto simp: torn_def decode_optional_def authorized_def checkpoint_document_round_trip
         bound_pair_def list_ex_iff canonical_pair_def)
  from agg chk assms(1) show ?thesis
    by (auto intro!: that simp: read_lease_capacity_components_def lease_capacity_record_paths_def
        mbind_app torn_def)
qed

lemma authorize_transition_torn:
  assumes "transition_names ps" "\<forall>(name, p) \<in> set ps. bound_pair p" "distinct (map fst ps)"
    and "(target, q) \<in> set ps" "torn (map snd ps) f"
  shows "authorize_lease_capacity_transition (transition_json ps) target label f = (Inr (canonical_pair q), f)"
proof -
  have bp: "\<forall>p \<in> set (map snd ps). bound_pair p" using assms(2) by auto
  from torn_components [OF assms(5) bp] obtain ca cc where
    comps: "read_lease_capacity_components True f = (Inr (ca, cc), f)" "ca \<noteq> None \<or> cc \<noteq> None"
      "authorized aggregate_eq ca (map (\<lambda>p. cp_aggregate (canonical_pair p)) (map snd ps))"
      "authorized (=) cc (map (\<lambda>p. cp_checkpoint (canonical_pair p)) (map snd ps))" by blast
  have "map_of (map (\<lambda>(name, p). (name, canonical_pair p)) ps) target = Some (canonical_pair q)"
    using assms(3,4) by (simp add: map_of_map)
  with comps show ?thesis
    by (auto simp: authorize_lease_capacity_transition_def decode_transition_json [OF assms(1,2)]
        mbind_app comp_def case_prod_beta)
qed

lemma apply_transition_converges:
  assumes "transition_names ps" "\<forall>(name, p) \<in> set ps. bound_pair p" "distinct (map fst ps)"
    and "(target, q) \<in> set ps" "torn (map snd ps) f"
  shows "apply_lease_capacity_transition (transition_json ps) target label f =
    (Inr (canonical_pair q), pair_files q)"
proof -
  have "bound_pair q" using assms(2,4) by auto
  then have "write_lease_capacity_pair (canonical_pair q) f = (Inr (), pair_files q)"
    using assms(5) by (simp add: write_pair_files bound_pair_canonical torn_def pair_files_canonical)
  with authorize_transition_torn [OF assms] show ?thesis
    by (simp add: apply_lease_capacity_transition_def mbind_app)
qed

section \<open>Prepared transitions\<close>

definition good_dict :: "scope_counts \<Rightarrow> bool" where
  "good_dict counts \<longleftrightarrow> distinct (map fst counts) \<and> (\<forall>(c, kcs) \<in> set counts. distinct (map fst kcs))"

definition scope_count :: "scope_counts \<Rightarrow> string \<Rightarrow> JobKind \<Rightarrow> int" where
  "scope_count counts token k = dict_get (dict_get counts token []) k 0"

lemma good_dict_inner:
  "good_dict counts \<Longrightarrow> distinct (map fst (dict_get counts c []))"
  by (auto simp: good_dict_def dict_get_def split: option.splits dest: map_of_SomeD)

lemma scope_count_aupdate:
  "scope_count (AList.update t kcs counts) t' k =
     (if t' = t then dict_get kcs k 0 else scope_count counts t' k)"
  by (simp add: scope_count_def dict_get_def)

lemma scope_count_adelete:
  "scope_count (AList.delete t counts) t' k = (if t' = t then 0 else scope_count counts t' k)"
  by (simp add: scope_count_def dict_get_def)

lemma apply_delta_Inr:
  assumes "apply_delta ((cluster, kind), delta) counts = Inr counts'" "good_dict counts"
  shows "good_dict counts'
    \<and> (\<forall>t k. scope_count counts' t k =
          scope_count counts t k + (if t = lease_cluster_token cluster \<and> k = kind then delta else 0))
    \<and> 0 \<le> scope_count counts' (lease_cluster_token cluster) kind"
proof -
  let ?t = "lease_cluster_token cluster"
  let ?kcs = "dict_get counts ?t []"
  define n where "n = dict_get ?kcs kind 0 + delta"
  define kcs' where "kcs' = (if n = 0 then AList.delete kind ?kcs else AList.update kind n ?kcs)"
  have n: "0 \<le> n" and c': "counts' = (if kcs' = [] then AList.delete ?t counts else AList.update ?t kcs' counts)"
    using assms(1) by (auto simp: apply_delta_def Let_def n_def kcs'_def split: if_splits)
  have d: "distinct (map fst kcs')"
    using good_dict_inner [OF assms(2), of ?t]
    by (simp add: kcs'_def distinct_aupdate distinct_adelete)
  have "good_dict counts'"
    using assms(2) d set_aupdate [of ?t kcs' counts] set_adelete [of ?t counts]
    by (auto simp: c' good_dict_def distinct_aupdate distinct_adelete)
  moreover have "scope_count counts' t k = (if t = ?t then dict_get kcs' k 0 else scope_count counts t k)" for t k
  proof (cases "kcs' = []")
    case True
    then have "dict_get kcs' k 0 = 0" by (simp add: dict_get_def)
    with True show ?thesis by (simp add: c' scope_count_adelete)
  qed (simp add: c' scope_count_aupdate)
  moreover have "dict_get kcs' k 0 = (if k = kind then n else dict_get ?kcs k 0)" for k
    by (auto simp: kcs'_def dict_get_def)
  ultimately show ?thesis using n by (auto simp: n_def scope_count_def)
qed

lemma rfold_apply_delta_good:
  assumes "rfold apply_delta deltas counts = Inr counts'" "good_dict counts"
  shows "good_dict counts'"
  using assms
proof (rule rfold_invariant)
  fix x :: "(string \<times> JobKind) \<times> int" and s s'
  assume "good_dict s" "apply_delta x s = Inr s'"
  then show "good_dict s'" by (cases x; cases "fst x") (auto dest: apply_delta_Inr)
qed

lemma valid_counts_good: "valid_counts c \<Longrightarrow> good_dict c"
  by (auto simp: valid_counts_def valid_kind_counts_def good_dict_def)

lemma bound_pair_counts: "bound_pair p \<Longrightarrow> valid_counts (ca_cluster_kind_counts (cp_aggregate p))"
  by (simp add: bound_pair_def wf_aggregate_def)

text \<open>What preparing a transition from a bound pair of files produces.\<close>

lemma prepare_transition_Inr:
  assumes "bound_pair p" "all_hex 32 fresh_after" "all_hex 32 fresh_rollback"
    and "prepare_lease_capacity_transition fresh_after fresh_rollback deltas include_rollback (pair_files p)
      = (Inr t, f)"
  obtains before after rollback where "before = canonical_pair p" "f = pair_files p"
    "t = transition_json ([(''before'', before), (''after'', after)]
           @ (if include_rollback then [(''rollback'', rollback)] else []))"
    "bound_pair before" "bound_pair after" "include_rollback \<Longrightarrow> bound_pair rollback"
    "rfold apply_delta deltas (ca_cluster_kind_counts (cp_aggregate before))
       = Inr (ca_cluster_kind_counts (cp_aggregate after))"
    "ca_generation (cp_aggregate after) = ca_generation (cp_aggregate p) + 1"
    "ca_epoch_id (cp_aggregate after) = ca_epoch_id (cp_aggregate p)"
    "include_rollback \<Longrightarrow> ca_cluster_kind_counts (cp_aggregate rollback)
       = ca_cluster_kind_counts (cp_aggregate before)"
    "include_rollback \<Longrightarrow> ca_generation (cp_aggregate rollback) = ca_generation (cp_aggregate p) + 2"
proof -
  let ?b = "canonical_pair p" and ?a = "cp_aggregate (canonical_pair p)"
  have bb: "bound_pair ?b" by (rule bound_pair_canonical [OF assms(1)])
  have fields: "ca_epoch_id ?a = ca_epoch_id (cp_aggregate p)" "ca_generation ?a = ca_generation (cp_aggregate p)"
    by (simp_all add: canonical_pair_def canonical_aggregate_def)
  have hexgen: "all_hex 32 (ca_epoch_id ?a)" "0 \<le> ca_generation ?a"
    using bb by (simp_all add: bound_pair_def wf_aggregate_def)
  from assms(4) obtain counts after where
    counts: "rfold apply_delta deltas (ca_cluster_kind_counts ?a) = Inr counts"
    and after: "new_lease_capacity_pair counts (ca_epoch_id ?a) (ca_generation ?a + 1) fresh_after = Inr after"
    and f: "f = pair_files p"
    and t: "if include_rollback then \<exists>rb. new_lease_capacity_pair (ca_cluster_kind_counts ?a) (ca_epoch_id ?a)
          (ca_generation (cp_aggregate after) + 1) fresh_rollback = Inr rb
        \<and> t = transition_json [(''before'', ?b), (''after'', after), (''rollback'', rb)]
      else t = transition_json [(''before'', ?b), (''after'', after)]"
    by (auto simp: prepare_lease_capacity_transition_def read_pair_files [OF assms(1)] mbind_eq_Inr Let_def
        transition_json_def split: if_splits)
  have good: "good_dict counts"
    using rfold_apply_delta_good [OF counts] bound_pair_counts [OF bb] valid_counts_good by blast
  then have ab: "bound_pair after" "ca_cluster_kind_counts (cp_aggregate after) = counts"
    "ca_epoch_id (cp_aggregate after) = ca_epoch_id ?a" "ca_generation (cp_aggregate after) = ca_generation ?a + 1"
    using new_pair_bound [OF after] hexgen assms(2) by (auto simp: good_dict_def)
  show ?thesis
  proof (cases include_rollback)
    case True
    with t obtain rb where
      rb: "new_lease_capacity_pair (ca_cluster_kind_counts ?a) (ca_epoch_id ?a)
          (ca_generation (cp_aggregate after) + 1) fresh_rollback = Inr rb"
      and tt: "t = transition_json [(''before'', ?b), (''after'', after), (''rollback'', rb)]" by auto
    have "good_dict (ca_cluster_kind_counts ?a)" using bound_pair_counts [OF bb] valid_counts_good by blast
    with new_pair_bound [OF rb] hexgen assms(3) ab(4) have
      "bound_pair rb" "ca_cluster_kind_counts (cp_aggregate rb) = ca_cluster_kind_counts ?a"
      "ca_generation (cp_aggregate rb) = ca_generation (cp_aggregate after) + 1"
      by (auto simp: good_dict_def)
    with True tt bb ab counts f show ?thesis by (intro that [of ?b after rb]) (simp_all add: fields)
  next
    case False
    with t bb ab counts f show ?thesis by (intro that [of ?b after p]) (simp_all add: fields)
  qed
qed

lemma scope_count_canonical:
  assumes "valid_counts counts"
  shows "scope_count (canonical_counts counts) t k = scope_count counts t k"
proof -
  have d: "distinct (map fst counts)" using assms by (simp add: valid_counts_def)
  have "map_of (sort_key f kcs) = map_of kcs" if "map_of counts t = Some kcs"
    for kcs and f :: "JobKind \<times> int \<Rightarrow> string"
  proof -
    have "distinct (map fst kcs)"
      using map_of_SomeD [OF that] assms by (auto simp: valid_counts_def valid_kind_counts_def)
    then show ?thesis by (intro map_of_inject_set [THEN iffD2]) (simp_all add: distinct_map)
  qed
  then show ?thesis
    by (auto simp: scope_count_def dict_get_def map_of_canonical [OF d] split: option.splits)
qed

lemma torn_canonical:
  "torn (canonical_pair p # ps) f = torn (p # ps) f"
proof -
  have "lease_capacity_aggregate_document (cp_aggregate (canonical_pair p)) =
      lease_capacity_aggregate_document (cp_aggregate p)"
    "cp_checkpoint (canonical_pair p) = cp_checkpoint p"
    using pair_files_canonical [of p] by (simp_all add: pair_files_def canonical_pair_def)
  then show ?thesis by (simp add: torn_def)
qed

text \<open>
  C21: a journaled capacity transition survives any crash. Preparing a change of one scope from a
  bound pair yields an after and a rollback generation such that from every state a crash can
  leave, old, new, torn between them or with one file lost, replaying the journal towards either
  target ends in exactly that generation. The after generation has the scope's count changed by
  exactly the delta and every other scope unchanged, never negative; the rollback generation has
  the original counts.
\<close>

theorem capacity_transition_crash_safe:
  assumes "bound_pair p" and "all_hex 32 fresh_after" and "all_hex 32 fresh_rollback"
    and "prepare_lease_capacity_transition fresh_after fresh_rollback [((cluster, kind), delta)] True
           (pair_files p) = (Inr t, f)"
  shows "\<exists>after rollback.
    (\<forall>f' label. torn [p, after, rollback] f' \<longrightarrow>
        apply_lease_capacity_transition t ''after'' label f' = (Inr (canonical_pair after), pair_files after)
        \<and> apply_lease_capacity_transition t ''rollback'' label f' = (Inr (canonical_pair rollback), pair_files rollback))
    \<and> (\<forall>tok k. scope_count (ca_cluster_kind_counts (cp_aggregate after)) tok k =
         scope_count (ca_cluster_kind_counts (cp_aggregate p)) tok k
         + (if tok = lease_cluster_token cluster \<and> k = kind then delta else 0))
    \<and> 0 \<le> scope_count (ca_cluster_kind_counts (cp_aggregate after)) (lease_cluster_token cluster) kind
    \<and> (\<forall>tok k. scope_count (ca_cluster_kind_counts (cp_aggregate rollback)) tok k =
         scope_count (ca_cluster_kind_counts (cp_aggregate p)) tok k)
    \<and> ca_generation (cp_aggregate p) < ca_generation (cp_aggregate after)
    \<and> ca_generation (cp_aggregate after) < ca_generation (cp_aggregate rollback)"
proof (rule prepare_transition_Inr [OF assms], goal_cases)
  case (1 before after rollback)
  then have b: "before = canonical_pair p"
    and t: "t = transition_json [(''before'', before), (''after'', after), (''rollback'', rollback)]"
    and bound: "bound_pair before" "bound_pair after" "bound_pair rollback"
    and counts: "rfold apply_delta [((cluster, kind), delta)] (ca_cluster_kind_counts (cp_aggregate before))
      = Inr (ca_cluster_kind_counts (cp_aggregate after))"
    and gen: "ca_generation (cp_aggregate after) = ca_generation (cp_aggregate p) + 1"
      "ca_generation (cp_aggregate rollback) = ca_generation (cp_aggregate p) + 2"
    and rb: "ca_cluster_kind_counts (cp_aggregate rollback) = ca_cluster_kind_counts (cp_aggregate before)"
    by simp_all
  let ?ps = "[(''before'', before), (''after'', after), (''rollback'', rollback)]"
  have conv: "torn [p, after, rollback] f' \<Longrightarrow> (target, q) \<in> set ?ps \<Longrightarrow>
      apply_lease_capacity_transition t target label f' = (Inr (canonical_pair q), pair_files q)"
    for f' target q label
    unfolding t using bound
    by (intro apply_transition_converges) (auto simp: transition_names_def b torn_canonical)
  have same: "scope_count (ca_cluster_kind_counts (cp_aggregate before)) tok k =
      scope_count (ca_cluster_kind_counts (cp_aggregate p)) tok k" for tok k
    using scope_count_canonical [OF bound_pair_counts [OF assms(1)]]
    by (simp add: b canonical_pair_def canonical_aggregate_def)
  have "apply_delta ((cluster, kind), delta) (ca_cluster_kind_counts (cp_aggregate before))
      = Inr (ca_cluster_kind_counts (cp_aggregate after))"
    using counts by (simp add: rbind_eq_Inr)
  note delta = apply_delta_Inr [OF this valid_counts_good [OF bound_pair_counts [OF bound(1)]]]
  show ?thesis
    using conv delta gen rb by (intro exI [of _ after] exI [of _ rollback]) (auto simp: same)
qed

lemma demo_hex_ok: "all_hex 32 demo_hex"
  by (simp add: demo_hex_def all_hex_replicate hex_digit_def)

lemma empty_pair:
  "\<exists>p. new_lease_capacity_pair [] demo_hex 0 demo_hex = Inr p \<and> bound_pair p
     \<and> ca_cluster_kind_counts (cp_aggregate p) = [] \<and> ca_epoch_id (cp_aggregate p) = demo_hex
     \<and> ca_generation (cp_aggregate p) = 0"
proof -
  have "valid_counts []"
    by (simp add: valid_counts_def scope_total_def MAX_LEASE_CAPACITY_SCOPES_def
        MAX_LIVE_LEASE_RECORDS_def MAX_ACTIVE_JOB_RECORDS_def)
  from normalize_valid_counts [OF this] obtain p where
    p: "new_lease_capacity_pair [] demo_hex 0 demo_hex = Inr p"
    by (simp add: new_lease_capacity_pair_def Let_def)
  with new_pair_bound [OF p] demo_hex_ok show ?thesis by auto
qed

theorem capacity_transition_crash_safe_witness:
  "\<exists>p t f after. prepare_lease_capacity_transition demo_hex demo_hex [((''ares'', JARVIS), 1)] True
       (pair_files p) = (Inr t, f)
     \<and> scope_count (ca_cluster_kind_counts (cp_aggregate after)) (lease_cluster_token ''ares'') JARVIS = 1
     \<and> apply_lease_capacity_transition t ''after'' ''x'' (pair_files p)
         = (Inr (canonical_pair after), pair_files after)"
proof -
  obtain p where p: "bound_pair p" "ca_cluster_kind_counts (cp_aggregate p) = []"
    "ca_epoch_id (cp_aggregate p) = demo_hex" "ca_generation (cp_aggregate p) = 0"
    using empty_pair by blast
  let ?c = "[(lease_cluster_token ''ares'', [(JARVIS, 1)])]"
  have valid: "valid_counts ?c" "valid_counts []"
    by (simp_all add: valid_counts_def valid_kind_counts_def scope_total_def MAX_LEASE_CAPACITY_SCOPES_def
        MAX_LIVE_LEASE_RECORDS_def MAX_ACTIVE_JOB_RECORDS_def)
  have "\<exists>t. prepare_lease_capacity_transition demo_hex demo_hex [((''ares'', JARVIS), 1)] True
      (pair_files p) = (Inr t, pair_files p)"
    using p valid
    by (simp add: prepare_lease_capacity_transition_def mbind_app read_pair_files canonical_pair_def
        canonical_aggregate_def canonical_counts_def apply_delta_def dict_get_def Let_def
        new_lease_capacity_pair_def normalize_valid_counts)
  then obtain t where t: "prepare_lease_capacity_transition demo_hex demo_hex [((''ares'', JARVIS), 1)] True
      (pair_files p) = (Inr t, pair_files p)" by blast
  have torn: "torn [p, q, r] (pair_files p)" for q r by (simp add: torn_def pair_files_def)
  have zero: "scope_count (ca_cluster_kind_counts (cp_aggregate p)) tok k = 0" for tok k
    by (simp add: p(2) scope_count_def dict_get_def)
  from capacity_transition_crash_safe [OF p(1) demo_hex_ok demo_hex_ok t] obtain after rollback where
    conv: "\<forall>f' label. torn [p, after, rollback] f' \<longrightarrow>
      apply_lease_capacity_transition t ''after'' label f' = (Inr (canonical_pair after), pair_files after)
      \<and> apply_lease_capacity_transition t ''rollback'' label f' = (Inr (canonical_pair rollback), pair_files rollback)"
    and count: "\<forall>tok k. scope_count (ca_cluster_kind_counts (cp_aggregate after)) tok k =
      scope_count (ca_cluster_kind_counts (cp_aggregate p)) tok k
      + (if tok = lease_cluster_token ''ares'' \<and> k = JARVIS then 1 else 0)"
    by blast
  have "scope_count (ca_cluster_kind_counts (cp_aggregate after)) (lease_cluster_token ''ares'') JARVIS = 1"
    by (simp add: count zero)
  with t torn conv show ?thesis by blast
qed

text \<open>
  A capacity transition is all or nothing and authorized: either it writes both records of a
  pair its journal names, every record that was there before being one the journal names, or it
  reports an error and writes nothing.
\<close>

theorem capacity_transition_all_or_nothing:
  "case apply_lease_capacity_transition t target label f of
     (Inl e, f') \<Rightarrow> f' = f
   | (Inr q, f') \<Rightarrow>
       bound_pair q \<and> f' = (pair_files q)\<lparr>cf_fault := cf_fault f\<rparr>
       \<and> (\<exists>pairs ca cc. decode_transition t label = Inr pairs \<and> (target, q) \<in> set pairs
            \<and> read_lease_capacity_components True f = (Inr (ca, cc), f)
            \<and> authorized aggregate_eq ca (map (\<lambda>p. cp_aggregate (snd p)) pairs)
            \<and> authorized (=) cc (map (\<lambda>p. cp_checkpoint (snd p)) pairs))"
proof -
  have read: "read_lease_capacity_components b f = (x, f') \<Longrightarrow> f' = f" for b x f'
    by (auto simp: read_lease_capacity_components_def lease_capacity_record_paths_def mbind_app
        split: option.splits sum.splits prod.splits if_splits)
  have bound: "decode_transition t label = Inr pairs \<Longrightarrow> (n, q) \<in> set pairs \<Longrightarrow> bound_pair q" for pairs n q
    by (auto simp: decode_transition_def rbind_eq_Inr split: option.splits if_splits
        dest!: rmap_set dest: pair_from_payload_bound)
  have stored: "bound_pair q \<Longrightarrow> write_lease_capacity_pair q f = (Inr (), (pair_files q)\<lparr>cf_fault := cf_fault f\<rparr>)" for q
    by (cases f) (simp add: write_lease_capacity_pair_def write_aggregate_file_def write_checkpoint_file_def
        mbind_app pair_files_def bound_pair_def validate_lease_capacity_pair_def Let_def)
  show ?thesis
  proof (cases "decode_transition t label")
    case (Inr pairs)
    show ?thesis
    proof (cases "map_of pairs target")
      case (Some q)
      then have q: "(target, q) \<in> set pairs" by (rule map_of_SomeD)
      note bq = bound [OF Inr q]
      obtain x f' where r: "read_lease_capacity_components True f = (x, f')" by fastforce
      with read have f': "f' = f" by blast
      show ?thesis
        using Inr Some q bq stored [OF bq] r unfolding f'
        by (cases x) (auto simp: apply_lease_capacity_transition_def authorize_lease_capacity_transition_def mbind_app split: prod.splits)
    qed (simp add: apply_lease_capacity_transition_def authorize_lease_capacity_transition_def Inr mbind_app)
  qed (simp add: apply_lease_capacity_transition_def authorize_lease_capacity_transition_def mbind_app)
qed

section \<open>Preparing within the bound always succeeds\<close>

lemma sum_aupdate:
  fixes g :: "'v \<Rightarrow> int"
  assumes "distinct (map fst xs)"
  shows "sum_list (map (\<lambda>(c, v). g v) (AList.update t w xs)) =
    sum_list (map (\<lambda>(c, v). g v) xs) + g w - (case map_of xs t of None \<Rightarrow> 0 | Some v \<Rightarrow> g v)"
  using assms by (induction xs) (auto split: option.splits dest: weak_map_of_SomeI)

lemma sum_adelete:
  fixes g :: "'v \<Rightarrow> int"
  assumes "distinct (map fst xs)"
  shows "sum_list (map (\<lambda>(c, v). g v) (AList.delete t xs)) =
    sum_list (map (\<lambda>(c, v). g v) xs) - (case map_of xs t of None \<Rightarrow> 0 | Some v \<Rightarrow> g v)"
  using assms
proof (induction xs)
  case (Cons x xs)
  show ?case
  proof (cases "fst x = t")
    case True
    then have "t \<notin> fst ` set xs" using Cons.prems by auto
    then have "AList.delete t xs = xs" by (simp add: AList.delete_eq filter_id_conv) force
    with True show ?thesis by (cases x) simp
  next
    case False
    with Cons show ?thesis by (cases x) simp
  qed
qed simp

lemma positive_sum: "\<forall>(k, n) \<in> set kcs. 0 < n \<Longrightarrow> int (length kcs) \<le> sum_list (map snd kcs)"
  by (induction kcs) fastforce+

lemma scopes_le_total:
  "\<forall>(c, kcs) \<in> set counts. valid_kind_counts kcs \<Longrightarrow>
    int (sum_list (map (\<lambda>(c, kcs). length kcs) counts)) \<le> scope_total counts"
proof (induction counts)
  case (Cons ck counts)
  obtain c kcs where [simp]: "ck = (c, kcs)" by (cases ck)
  have "int (length kcs) \<le> sum_list (map snd kcs)"
    using Cons.prems by (intro positive_sum) (simp add: valid_kind_counts_def)
  with Cons show ?case by (simp add: scope_total_def)
qed (simp add: scope_total_def)

lemma apply_delta_total:
  assumes valid: "valid_counts counts" and "delta \<noteq> 0"
    and low: "0 \<le> scope_count counts (lease_cluster_token cluster) kind + delta"
    and high: "scope_total counts + delta \<le> MAX_LIVE_LEASE_RECORDS"
  shows "\<exists>counts'. apply_delta ((cluster, kind), delta) counts = Inr counts' \<and> valid_counts counts'
    \<and> scope_total counts' = scope_total counts + delta"
proof -
  let ?t = "lease_cluster_token cluster"
  let ?kcs = "dict_get counts ?t []"
  define n where "n = dict_get ?kcs kind 0 + delta"
  define kcs' where "kcs' = (if n = 0 then AList.delete kind ?kcs else AList.update kind n ?kcs)"
  define c' where "c' = (if kcs' = [] then AList.delete ?t counts else AList.update ?t kcs' counts)"
  have n: "0 \<le> n" using low by (simp add: n_def scope_count_def)
  then have run: "apply_delta ((cluster, kind), delta) counts = Inr c'"
    using assms(2) by (simp add: apply_delta_def Let_def c'_def kcs'_def n_def)
  have good: "good_dict counts" by (rule valid_counts_good [OF valid])
  have kd: "distinct (map fst ?kcs)" by (rule good_dict_inner [OF good])
  have kpos: "\<forall>(k, m) \<in> set ?kcs. 0 < m"
    using valid by (auto simp: valid_counts_def valid_kind_counts_def dict_get_def split: option.splits dest!: map_of_SomeD)
  have d: "distinct (map fst counts)" using valid by (simp add: valid_counts_def)
  have pos: "\<forall>(k, m) \<in> set kcs'. 0 < m"
    using kpos n set_aupdate [of kind n ?kcs] set_adelete [of kind ?kcs] by (auto simp: kcs'_def)
  have vk: "valid_kind_counts kcs'" if "kcs' \<noteq> []"
    using that pos kd by (simp add: valid_kind_counts_def) (simp add: kcs'_def distinct_aupdate distinct_adelete)
  have scopes: "\<forall>(c, kcs) \<in> set c'. is_short_ref_token c \<and> valid_kind_counts kcs"
    using valid vk set_aupdate [of ?t kcs' counts] set_adelete [of ?t counts] short_token_hex
    by (auto simp: c'_def valid_counts_def lease_cluster_token_def)
  have inner: "sum_list (map snd kcs') = sum_list (map snd ?kcs) + delta"
  proof -
    have "sum_list (map snd kcs') = sum_list (map snd ?kcs) + n - dict_get ?kcs kind 0"
      using sum_aupdate [OF kd, of "\<lambda>m. m" kind n] sum_adelete [OF kd, of "\<lambda>m. m" kind]
      by (auto simp: kcs'_def dict_get_def case_prod_beta' split: option.splits)
    then show ?thesis by (simp add: n_def)
  qed
  have old: "sum_list (map snd ?kcs) = (case map_of counts ?t of None \<Rightarrow> 0 | Some kcs \<Rightarrow> sum_list (map snd kcs))"
    by (simp add: dict_get_def split: option.split)
  have total: "scope_total c' = scope_total counts + delta"
    using sum_aupdate [OF d, of "\<lambda>kcs. sum_list (map snd kcs)" ?t kcs']
      sum_adelete [OF d, of "\<lambda>kcs. sum_list (map snd kcs)" ?t] inner old
    by (cases "kcs' = []") (auto simp: c'_def scope_total_def)
  have "\<forall>(c, kcs) \<in> set c'. valid_kind_counts kcs" using scopes by fast
  from scopes_le_total [OF this] have "int (sum_list (map (\<lambda>(c, kcs). length kcs) c')) \<le> MAX_LEASE_CAPACITY_SCOPES"
    using high by (simp add: total MAX_LEASE_CAPACITY_SCOPES_def)
  with scopes total high d have "valid_counts c'"
    by (simp add: valid_counts_def) (simp add: c'_def distinct_aupdate distinct_adelete)
  with run total show ?thesis by blast
qed

lemma new_pair_total:
  "valid_counts counts \<Longrightarrow> \<exists>p. new_lease_capacity_pair counts epoch generation checkpoint = Inr p"
  by (simp add: new_lease_capacity_pair_def normalize_valid_counts Let_def)

lemma prepare_transition_total:
  assumes "bound_pair p" "delta \<noteq> 0"
    and "0 \<le> scope_count (ca_cluster_kind_counts (cp_aggregate p)) (lease_cluster_token cluster) kind + delta"
    and "scope_total (ca_cluster_kind_counts (cp_aggregate p)) + delta \<le> MAX_LIVE_LEASE_RECORDS"
  shows "\<exists>t. prepare_lease_capacity_transition fa fr [((cluster, kind), delta)] rollback (pair_files p)
    = (Inr t, pair_files p)"
proof -
  let ?c = "ca_cluster_kind_counts (cp_aggregate (canonical_pair p))"
  have c: "?c = canonical_counts (ca_cluster_kind_counts (cp_aggregate p))"
    by (simp add: canonical_pair_def canonical_aggregate_def)
  have v: "valid_counts ?c" by (rule bound_pair_counts [OF bound_pair_canonical [OF assms(1)]])
  obtain c' where c': "apply_delta ((cluster, kind), delta) ?c = Inr c'" "valid_counts c'"
    using apply_delta_total [OF v assms(2), of cluster kind] assms(3,4)
      scope_count_canonical [OF bound_pair_counts [OF assms(1)]]
    by (auto simp: c scope_total_canonical)
  let ?a = "cp_aggregate (canonical_pair p)"
  obtain q where q: "new_lease_capacity_pair c' (ca_epoch_id ?a) (ca_generation ?a + 1) fa = Inr q"
    using new_pair_total [OF c'(2)] by blast
  obtain r where r: "new_lease_capacity_pair ?c (ca_epoch_id ?a) (ca_generation (cp_aggregate q) + 1) fr = Inr r"
    using new_pair_total [OF v] by blast
  show ?thesis
    using c'(1) q r
    by (simp add: prepare_lease_capacity_transition_def read_pair_files [OF assms(1)] mbind_app Let_def)
qed

end
