(* ===== verification/LeaseIndexes.thy ===== *)
theory LeaseIndexes
  imports LeaseCapacity "HOL-Library.Product_Lexorder"
begin

text \<open>
  Lease operational indexes: \<^verbatim>\<open>queue_lease_indexes.py\<close>, with the write and unlink primitives it calls
  from \<^verbatim>\<open>queue_store_write.py\<close>. The state is the part of the storage root that holds the five index
  families, as a directory tree: a path is its list of components below the storage root, the
  empty path the root itself. An entry is a plain directory, an empty singly linked regular file
  (a reference), a regular file holding a JSON document within its size limit, or something the
  code refuses to touch. \<^verbatim>\<open>os.scandir\<close> gives the entries in the order of the list; a path in a
  message is relative to the storage root. The staging file of an atomic replacement is not in
  the tree: a write is one step.
\<close>

datatype lease_node = LDir | LRef | LDoc json | LUnsafe

type_synonym path = "string list"
type_synonym lease_fs = "(path \<times> lease_node) list"
type_synonym 'a index_op = "(lease_fs, py_error, 'a) op"

text \<open>\<^verbatim>\<open>datetime.isoformat\<close> and \<^verbatim>\<open>datetime.fromisoformat\<close>, as in the index document codec.\<close>

record iso_codec =
  iso_format :: "timestamp \<Rightarrow> string"
  iso_parse :: "string \<Rightarrow> timestamp option option"

definition path_text :: "path \<Rightarrow> string" where
  "path_text p = join_with ''/'' p"

definition directory_entries :: "lease_fs \<Rightarrow> path \<Rightarrow> (string \<times> lease_node) list" where
  "directory_entries fs d =
     map (\<lambda>(p, n). (last p, n)) (filter (\<lambda>(p, n). p \<noteq> [] \<and> butlast p = d) fs)"

section \<open>Filesystem primitives\<close>

fun walk_directories :: "string \<Rightarrow> bool \<Rightarrow> path \<Rightarrow> path \<Rightarrow> bool index_op" where
  "walk_directories message create current [] = mret True"
| "walk_directories message create current (part # parts) =
     (let here = current @ [part] in
      mbind mget (\<lambda>fs.
        case map_of fs here of
          None \<Rightarrow>
            if \<not> create then mret False
            else mbind (mupd (AList.update here LDir)) (\<lambda>_. walk_directories message create here parts)
        | Some LDir \<Rightarrow> walk_directories message create here parts
        | Some _ \<Rightarrow> mraise (QueueConflictError (message @ path_text here))))"

definition require_safe_write_directory :: "path \<Rightarrow> unit index_op" where
  "require_safe_write_directory d =
     mbind (mcheck (\<not> list_ex (\<lambda>part. part \<in> {'''', ''.'', ''..''}) d)
       (QueueConflictError (''write directory has unsafe ancestry: '' @ path_text d))) (\<lambda>_.
     mbind (walk_directories ''write directory ancestry is unsafe: '' True [] d) (\<lambda>_. mret ()))"

text \<open>
  \<^verbatim>\<open>write_text\<close>: the payload is \<open>len\<close> bytes and becomes the node \<open>n\<close>; \<^verbatim>\<open>os.replace\<close> refuses a
  directory and replaces any other entry.
\<close>

definition write_node :: "int \<Rightarrow> int \<Rightarrow> path \<Rightarrow> lease_node \<Rightarrow> unit index_op" where
  "write_node max_bytes len p n =
     mbind (mcheck (\<not> (max_bytes < 1 \<or> len > max_bytes))
       (QueueConflictError (''record exceeds the '' @ int_str max_bytes @ ''-byte limit: '' @ path_text p))) (\<lambda>_.
     mbind (require_safe_write_directory (butlast p)) (\<lambda>_.
     mbind mget (\<lambda>fs.
       if map_of fs p = Some LDir then mraise (OSError (''is a directory: '' @ path_text p))
       else mupd (AList.update p n))))"

definition unlink_durable_path :: "bool \<Rightarrow> path \<Rightarrow> unit index_op" where
  "unlink_durable_path missing_ok p =
     mbind mget (\<lambda>fs.
       case map_of fs p of
         None \<Rightarrow> if missing_ok then mret () else mraise (OSError (''no such file: '' @ path_text p))
       | Some LDir \<Rightarrow> mraise (OSError (''is a directory: '' @ path_text p))
       | Some _ \<Rightarrow> mupd (AList.delete p))"

text \<open>\<^verbatim>\<open>RECORD_FAMILY_MAX_BYTES["lease_indexes"]\<close> and \<^verbatim>\<open>DEFAULT_RECORD_MAX_BYTES\<close>\<close>

definition LEASE_INDEX_MAX_BYTES :: int where "LEASE_INDEX_MAX_BYTES = 65536"
definition DEFAULT_RECORD_MAX_BYTES :: int where "DEFAULT_RECORD_MAX_BYTES = 1048576"

section \<open>Identities and paths\<close>

definition lease_index_families :: "string list" where
  "lease_index_families =
     [''lease_indexes'', ''lease_identity_refs'', ''leases_by_endpoint'', ''leases_by_cluster_kind'',
      ''leases_by_expiry'']"

definition lease_index_identity :: "Lease \<Rightarrow> RelayJob \<Rightarrow> py_error + LeaseIndexIdentity" where
  "lease_index_identity lease job =
     (if le_job_id lease \<noteq> rj_job_id job
      then Inl (QueueConflictError (''lease job identity mismatch: '' @ le_lease_id lease @ ''/''
             @ rj_job_id job))
      else rbind (rall (\<lambda>(v, label). rbind (require_durable_record_id v label) (\<lambda>_. Inr ()))
               [(le_lease_id lease, ''lease_id''), (le_job_id lease, ''lease_job_id''),
                (le_endpoint_id lease, ''lease_endpoint_id'')]) (\<lambda>_.
             Inr \<lparr>li_lease_id = le_lease_id lease, li_job_id = le_job_id lease,
                  li_endpoint_id = le_endpoint_id lease, li_cluster = rj_cluster job,
                  li_job_kind = rj_kind job, li_expires_at = le_expires_at lease\<rparr>))"

definition lease_index_path_from_token :: "string \<Rightarrow> path" where
  "lease_index_path_from_token lease_token = [''lease_indexes'', lease_token @ ''.json'']"

definition lease_index_path :: "string \<Rightarrow> path" where
  "lease_index_path lease_id = lease_index_path_from_token (lease_index_token lease_id)"

definition lease_identity_ref_path_from_tokens :: "string \<Rightarrow> string \<Rightarrow> path" where
  "lease_identity_ref_path_from_tokens lease_token identity_token =
     [''lease_identity_refs'', join_with dot [lease_token, identity_token, ''ref'']]"

definition lease_identity_ref_path :: "LeaseIndexIdentity \<Rightarrow> path" where
  "lease_identity_ref_path i =
     (case lease_reference i of (lease_token, identity_token) \<Rightarrow>
        lease_identity_ref_path_from_tokens lease_token identity_token)"

definition lease_endpoint_directory_from_token :: "string \<Rightarrow> path" where
  "lease_endpoint_directory_from_token endpoint_token = [''leases_by_endpoint'', endpoint_token]"

definition lease_endpoint_directory :: "string \<Rightarrow> path" where
  "lease_endpoint_directory endpoint_id =
     lease_endpoint_directory_from_token (lease_endpoint_token endpoint_id)"

definition lease_cluster_kind_directory :: "string \<Rightarrow> JobKind \<Rightarrow> path" where
  "lease_cluster_kind_directory cluster kind =
     [''leases_by_cluster_kind'', lease_cluster_token cluster, JobKind_value kind]"

definition lease_endpoint_ref_path :: "LeaseIndexIdentity \<Rightarrow> path" where
  "lease_endpoint_ref_path i =
     lease_endpoint_directory (li_endpoint_id i)
     @ [lease_scope_ref_name i [''endpoint'', lease_endpoint_token (li_endpoint_id i)]]"

text \<open>\<^verbatim>\<open>Path.with_suffix\<close>: the text from the last dot on is replaced.\<close>

definition with_suffix :: "string \<Rightarrow> string \<Rightarrow> string" where
  "with_suffix suffix name = rev (tl (dropWhile (\<lambda>c. c \<noteq> CHR ''.'') (rev name))) @ suffix"

definition lease_endpoint_guard_path :: "LeaseIndexIdentity \<Rightarrow> path" where
  "lease_endpoint_guard_path i =
     (let p = lease_endpoint_ref_path i in butlast p @ [with_suffix ''.guard'' (last p)])"

definition lease_cluster_kind_ref_path :: "LeaseIndexIdentity \<Rightarrow> path" where
  "lease_cluster_kind_ref_path i =
     lease_cluster_kind_directory (li_cluster i) (li_job_kind i)
     @ [lease_scope_ref_name i [''cluster-kind'', lease_cluster_token (li_cluster i),
          JobKind_value (li_job_kind i)]]"

definition lease_expiry_ref_path :: "LeaseIndexIdentity \<Rightarrow> path" where
  "lease_expiry_ref_path i = [''leases_by_expiry'', lease_expiry_ref_name i]"

section \<open>Manifests\<close>

definition require_safe_lease_index_directory :: "bool \<Rightarrow> path \<Rightarrow> bool index_op" where
  "require_safe_lease_index_directory create d =
     (if d = [] \<or> hd d \<notin> set lease_index_families
      then mraise (QueueConflictError (''unsupported lease index directory: '' @ path_text d))
      else mbind mget (\<lambda>fs.
        case map_of fs [] of
          None \<Rightarrow> mraise (QueueConflictError ''queue root is missing'')
        | Some LDir \<Rightarrow> walk_directories ''lease index ancestry is unsafe: '' create [] d
        | Some _ \<Rightarrow> mraise (QueueConflictError ''queue root is unsafe'')))"

definition read_json_document :: "path \<Rightarrow> (json option) index_op" where
  "read_json_document p =
     mbind mget (\<lambda>fs.
       case map_of fs p of
         None \<Rightarrow> mret None
       | Some (LDoc d) \<Rightarrow> mret (Some d)
       | Some LRef \<Rightarrow> mraise (QueueConflictError (''invalid JSON record '' @ path_text p))
       | Some _ \<Rightarrow> mraise (QueueConflictError (''durable record is not a regular owned file: '' @ path_text p)))"

definition read_lease_index_identity_by_token ::
  "iso_codec \<Rightarrow> string \<Rightarrow> string option \<Rightarrow> LeaseIndexIdentity index_op" where
  "read_lease_index_identity_by_token codec lease_token identity_token =
     (let p = lease_index_path_from_token lease_token in
      mbind (require_safe_lease_index_directory False (butlast p)) (\<lambda>_.
      mbind (read_json_document p) (\<lambda>raw.
        case raw of
          None \<Rightarrow> mraise (QueueConflictError (''lease operational index is missing: '' @ lease_token))
        | Some doc \<Rightarrow>
            mbind (mlift (lease_index_identity_from_document (iso_parse codec) doc
                     (''lease operational index '' @ path_text p))) (\<lambda>i.
            mbind (mcheck (lease_index_token (li_lease_id i) = lease_token)
              (QueueConflictError (''lease operational index identity mismatch: '' @ path_text p))) (\<lambda>_.
            mbind (mcheck (case identity_token of None \<Rightarrow> True | Some t \<Rightarrow> lease_identity_token i = t)
              (QueueConflictError (''lease operational index binding mismatch: '' @ path_text p))) (\<lambda>_.
            mret i))))))"

definition read_lease_index_identity :: "iso_codec \<Rightarrow> string \<Rightarrow> LeaseIndexIdentity index_op" where
  "read_lease_index_identity codec lease_id =
     mbind (read_lease_index_identity_by_token codec (lease_index_token lease_id) None) (\<lambda>i.
     mbind (mcheck (li_lease_id i = lease_id)
       (QueueConflictError (''lease operational index identity mismatch: ''
          @ path_text (lease_index_path lease_id)))) (\<lambda>_. mret i))"

definition write_lease_index_identity :: "iso_codec \<Rightarrow> LeaseIndexIdentity \<Rightarrow> unit index_op" where
  "write_lease_index_identity codec i =
     (let p = lease_index_path (li_lease_id i); doc = lease_index_document (iso_format codec) i in
      mbind (require_safe_lease_index_directory True (butlast p)) (\<lambda>_.
      mbind mget (\<lambda>fs.
      mbind (if map_of fs p = None then mret ()
             else mbind (read_lease_index_identity_by_token codec (lease_index_token (li_lease_id i)) None)
                    (\<lambda>existing. mcheck (li_lease_id existing = li_lease_id i)
                       (QueueConflictError (''lease operational index token collision: '' @ li_lease_id i))))
        (\<lambda>_. write_node LEASE_INDEX_MAX_BYTES (int (length (dumps_plain doc))) p (LDoc doc)))))"

definition validate_lease_index_identity :: "Lease \<Rightarrow> LeaseIndexIdentity \<Rightarrow> py_error + unit" where
  "validate_lease_index_identity lease i =
     check (\<not> (le_lease_id lease \<noteq> li_lease_id i \<or> le_job_id lease \<noteq> li_job_id i
              \<or> le_endpoint_id lease \<noteq> li_endpoint_id i \<or> le_expires_at lease \<noteq> li_expires_at i))
       (QueueConflictError (''canonical lease and operational index disagree: '' @ le_lease_id lease))"

section \<open>Convergence\<close>

definition lease_ref_paths :: "LeaseIndexIdentity \<Rightarrow> path list" where
  "lease_ref_paths i =
     [lease_endpoint_ref_path i, lease_endpoint_guard_path i, lease_cluster_kind_ref_path i,
      lease_expiry_ref_path i, lease_identity_ref_path i]"

definition remove_stale_ref :: "LeaseIndexIdentity \<Rightarrow> path \<Rightarrow> unit index_op" where
  "remove_stale_ref i stale_path =
     (if stale_path \<in> set (lease_ref_paths i) then mret ()
      else mbind (require_safe_lease_index_directory False (butlast stale_path))
             (\<lambda>_. unlink_durable_path True stale_path))"

definition write_ref :: "path \<Rightarrow> unit index_op" where
  "write_ref p =
     mbind (require_safe_lease_index_directory True (butlast p))
       (\<lambda>_. write_node DEFAULT_RECORD_MAX_BYTES 0 p LRef)"

definition sync_operational_indexes ::
  "iso_codec \<Rightarrow> Lease \<Rightarrow> RelayJob \<Rightarrow> Lease option \<Rightarrow> LeaseIndexIdentity index_op" where
  "sync_operational_indexes codec lease job previous_lease =
     mbind (mlift (lease_index_identity lease job)) (\<lambda>i.
     mbind (case previous_lease of
              None \<Rightarrow> mret ()
            | Some prev \<Rightarrow>
                mbind (mlift (lease_index_identity prev job)) (\<lambda>previous.
                mbind (mcheck (\<not> (li_lease_id previous \<noteq> li_lease_id i \<or> li_job_id previous \<noteq> li_job_id i
                                  \<or> li_endpoint_id previous \<noteq> li_endpoint_id i))
                  (QueueConflictError (''lease renewal changed immutable identity: '' @ li_lease_id i))) (\<lambda>_.
                mseq (remove_stale_ref i) (lease_ref_paths previous)))) (\<lambda>_.
     mbind (write_lease_index_identity codec i) (\<lambda>_.
     mbind (mseq write_ref
              [lease_identity_ref_path i, lease_endpoint_ref_path i, lease_endpoint_guard_path i,
               lease_cluster_kind_ref_path i, lease_expiry_ref_path i]) (\<lambda>_.
     mret i))))"

text \<open>\<^verbatim>\<open>rmdir\<close> of the endpoint shard, when it exists and holds nothing.\<close>

definition remove_empty_directory :: "path \<Rightarrow> unit index_op" where
  "remove_empty_directory d =
     mupd (\<lambda>fs. if map_of fs d = Some LDir \<and> directory_entries fs d = [] then AList.delete d fs else fs)"

definition delete_ref :: "path \<Rightarrow> unit index_op" where
  "delete_ref p =
     mbind (require_safe_lease_index_directory False (butlast p)) (\<lambda>_. unlink_durable_path True p)"

definition delete_lease_operational_indexes ::
  "iso_codec \<Rightarrow> LeaseIndexIdentity \<Rightarrow> bool \<Rightarrow> unit index_op" where
  "delete_lease_operational_indexes codec i allow_foreign_manifest =
     (let index_path = lease_index_path (li_lease_id i) in
      mbind (require_safe_lease_index_directory False (butlast index_path)) (\<lambda>_.
      mbind mget (\<lambda>fs.
      mbind (if map_of fs index_path = None then mret False
             else mbind (read_lease_index_identity_by_token codec (lease_index_token (li_lease_id i)) None)
                    (\<lambda>indexed.
                      if indexed = i then mret True
                      else mbind (mcheck allow_foreign_manifest
                             (QueueConflictError (''lease operational index token is occupied: ''
                                @ li_lease_id i))) (\<lambda>_. mret False))) (\<lambda>owns_manifest.
      mbind (mseq delete_ref (lease_ref_paths i)) (\<lambda>_.
      mbind (remove_empty_directory (lease_endpoint_directory (li_endpoint_id i))) (\<lambda>_.
      mbind mget (\<lambda>fs'.
        if owns_manifest \<and> map_of fs' index_path \<noteq> None then unlink_durable_path False index_path
        else mret ())))))))"

section \<open>Bounded scans\<close>

text \<open>The loop the three reference scans share; \<open>unsafe\<close> is the message before the entry's path.\<close>

fun scan_ref_entries ::
  "(string \<Rightarrow> 'r option) \<Rightarrow> string \<Rightarrow> path \<Rightarrow> int \<Rightarrow> (string \<times> lease_node) list \<Rightarrow> 'r list
     \<Rightarrow> py_error + 'r list \<times> bool" where
  "scan_ref_entries parse unsafe d limit [] refs = Inr (refs, False)"
| "scan_ref_entries parse unsafe d limit ((name, n) # entries) refs =
     (if int (length refs) \<ge> limit then Inr (refs, True)
      else case parse name of
          None \<Rightarrow> Inl (QueueConflictError (unsafe @ path_text (d @ [name])))
        | Some r \<Rightarrow>
            if n \<noteq> LRef then Inl (QueueConflictError (unsafe @ path_text (d @ [name])))
            else scan_ref_entries parse unsafe d limit entries (refs @ [r]))"

definition scan_lease_scope_refs ::
  "path \<Rightarrow> string list \<Rightarrow> int \<Rightarrow> string \<Rightarrow> ((string \<times> string) list \<times> bool) index_op" where
  "scan_lease_scope_refs d scope limit label =
     mbind (mcheck (\<not> limit < 1) (ValueError ''lease reference scan limit must be at least 1'')) (\<lambda>_.
     mbind mget (\<lambda>fs.
       case map_of fs d of
         None \<Rightarrow> mret ([], False)
       | Some LDir \<Rightarrow>
           mbind (require_safe_lease_index_directory False d) (\<lambda>_.
           mbind (mlift (scan_ref_entries (\<lambda>name. lease_reference_from_scope_ref name scope)
                    (label @ '' contains an unsafe lease reference: '') d limit (directory_entries fs d) []))
             (\<lambda>(refs, truncated). mret (sort refs, truncated)))
       | Some _ \<Rightarrow> mraise (QueueConflictError (label @ '' is not a safe directory: '' @ path_text d))))"

definition expiry_sort_key :: "LeaseExpiryReference \<Rightarrow> int \<times> string \<times> string \<times> string \<times> string \<times> string \<times> string" where
  "expiry_sort_key r = (case r of (e, c, k, ep, j, l, i) \<Rightarrow> (e, c, JobKind_value k, ep, j, l, i))"

definition scan_expiry_refs :: "int \<Rightarrow> (LeaseExpiryReference list \<times> bool) index_op" where
  "scan_expiry_refs limit =
     (let d = [''leases_by_expiry''] in
      mbind (require_safe_lease_index_directory False d) (\<lambda>_.
      mbind mget (\<lambda>fs.
        case map_of fs d of
          None \<Rightarrow> mret ([], False)
        | Some LDir \<Rightarrow>
            mbind (mlift (scan_ref_entries parse_lease_expiry_ref_name
                     ''lease expiry index contains an unsafe reference: '' d limit (directory_entries fs d) []))
              (\<lambda>(refs, truncated). mret (sort_key expiry_sort_key refs, truncated))
        | Some _ \<Rightarrow> mraise (QueueConflictError (''lease expiry index is not a safe directory: '' @ path_text d)))))"

definition scan_lease_identity_refs :: "int \<Rightarrow> ((string \<times> string) list \<times> bool) index_op" where
  "scan_lease_identity_refs limit =
     (let d = [''lease_identity_refs''] in
      mbind (mcheck (\<not> limit < 1) (ValueError ''lease identity reference scan limit must be at least 1'')) (\<lambda>_.
      mbind mget (\<lambda>fs.
        case map_of fs d of
          None \<Rightarrow> mret ([], False)
        | Some LDir \<Rightarrow>
            mbind (require_safe_lease_index_directory False d) (\<lambda>_.
            mbind (mlift (scan_ref_entries parse_lease_identity_ref_name
                     ''lease identity reference index contains an unsafe reference: '' d limit
                     (directory_entries fs d) []))
              (\<lambda>(refs, truncated). mret (sort refs, truncated)))
        | Some _ \<Rightarrow> mraise (QueueConflictError
                     (''lease identity reference index is not a safe directory: '' @ path_text d)))))"

text \<open>
  One endpoint shard holds a reference and a guard per lease; \<open>seen\<close> counts the entries read.
  The result is the references, the guards, and whether the bound stopped the loop.
\<close>

fun scan_endpoint_entries ::
  "string \<Rightarrow> path \<Rightarrow> int \<Rightarrow> (string \<times> lease_node) list \<Rightarrow> int \<Rightarrow> (string \<times> string) list
     \<Rightarrow> (string \<times> string) list \<Rightarrow> py_error + (string \<times> string) list \<times> (string \<times> string) list \<times> bool" where
  "scan_endpoint_entries token d limit [] seen references guards = Inr (references, guards, False)"
| "scan_endpoint_entries token d limit ((name, n) # entries) seen references guards =
     (if seen + 1 > limit * 2 then Inr (references, guards, True)
      else
        let is_guard = ends_with ''.guard'' name;
            ref_name = (if is_guard then take (length name - 6) name @ ''.ref'' else name);
            target = (if is_guard then guards else references) in
        case lease_reference_from_scope_ref ref_name [''endpoint'', token] of
          None \<Rightarrow> Inl (QueueConflictError (''lease endpoint index contains an unsafe reference: ''
                    @ path_text (d @ [name])))
        | Some parsed \<Rightarrow>
            if n \<noteq> LRef \<or> parsed \<in> set target
            then Inl (QueueConflictError (''lease endpoint index contains an unsafe reference: ''
                    @ path_text (d @ [name])))
            else if is_guard
            then scan_endpoint_entries token d limit entries (seen + 1) references (guards @ [parsed])
            else scan_endpoint_entries token d limit entries (seen + 1) (references @ [parsed]) guards)"

definition scan_lease_endpoint_refs :: "string \<Rightarrow> int \<Rightarrow> ((string \<times> string) list \<times> bool) index_op" where
  "scan_lease_endpoint_refs endpoint_id limit =
     (let d = lease_endpoint_directory endpoint_id in
      mbind (mcheck (\<not> limit < 1) (ValueError ''lease endpoint reference scan limit must be at least 1'')) (\<lambda>_.
      mbind mget (\<lambda>fs.
        case map_of fs d of
          None \<Rightarrow> mret ([], False)
        | Some LDir \<Rightarrow>
            mbind (require_safe_lease_index_directory False d) (\<lambda>_.
            mbind (mlift (scan_endpoint_entries (lease_endpoint_token endpoint_id) d limit
                     (directory_entries fs d) 0 [] [])) (\<lambda>(references, guards, stopped).
              if stopped then mret (sort references, True)
              else mbind (mcheck (set references = set guards)
                     (QueueConflictError (''lease endpoint references and guards disagree: '' @ endpoint_id)))
                     (\<lambda>_. mret (sort references, False))))
        | Some _ \<Rightarrow> mraise (QueueConflictError
                     (''lease endpoint index is not a safe directory: '' @ path_text d)))))"

definition require_empty_lease_ref :: "path \<Rightarrow> string \<Rightarrow> unit index_op" where
  "require_empty_lease_ref p label =
     mbind (require_safe_lease_index_directory False (butlast p)) (\<lambda>_.
     mbind mget (\<lambda>fs.
       case map_of fs p of
         None \<Rightarrow> mraise (QueueConflictError (label @ '' is missing: '' @ path_text p))
       | Some n \<Rightarrow> mcheck (n = LRef) (QueueConflictError (label @ '' is unsafe: '' @ path_text p))))"

end
