(* ===== verification/LeaseIndexRefinement.thy ===== *)
theory LeaseIndexRefinement
  imports LeaseIndexes
begin

text \<open>
  The lease operational indexes implement a set of live lease identities. The tree is read
  through its file view, which forgets directories; \<open>represents\<close> says that the files are
  exactly the manifest and the five references of every identity of the set. Synchronization,
  renewal and deletion act on the set, and the bounded scans return it.
\<close>

section \<open>Well-formed trees\<close>

declare map_of_eq_Some_iff [simp del] Some_eq_map_of_iff [simp del]

definition is_index_dir :: "path \<Rightarrow> bool" where
  "is_index_dir p \<longleftrightarrow>
     \<not> list_ex (\<lambda>part. part \<in> {'''', ''.'', ''..''}) p
     \<and> (case p of [] \<Rightarrow> True
        | [f] \<Rightarrow> f \<in> set lease_index_families
        | [f, a] \<Rightarrow> f \<in> {''leases_by_endpoint'', ''leases_by_cluster_kind''}
        | [f, a, b] \<Rightarrow> f = ''leases_by_cluster_kind''
        | _ \<Rightarrow> False)"

definition index_file :: "path \<Rightarrow> bool" where
  "index_file p \<longleftrightarrow> \<not> is_index_dir p \<and> is_index_dir (butlast p) \<and> butlast p \<noteq> []"

definition fs_ok :: "lease_fs \<Rightarrow> bool" where
  "fs_ok fs \<longleftrightarrow>
     distinct (map fst fs) \<and> map_of fs [] = Some LDir
     \<and> (\<forall>p n. map_of fs p = Some n \<longrightarrow> (n = LDir \<longleftrightarrow> is_index_dir p))
     \<and> (\<forall>p. map_of fs p \<noteq> None \<longrightarrow> p \<noteq> [] \<longrightarrow> map_of fs (butlast p) = Some LDir)"

definition file_view :: "lease_fs \<Rightarrow> path \<rightharpoonup> lease_node" where
  "file_view fs p = (if is_index_dir p then None else map_of fs p)"

lemma is_index_dir_prefix: "is_index_dir (p @ [x]) \<Longrightarrow> is_index_dir p"
  by (auto simp: is_index_dir_def lease_index_families_def split: list.splits)

lemma is_index_dir_append: "is_index_dir (p @ q) \<Longrightarrow> is_index_dir p"
proof (induction q rule: rev_induct)
  case (snoc x q)
  then show ?case using is_index_dir_prefix [of "p @ q" x] by simp
qed simp

lemma is_index_dir_Nil [simp]: "is_index_dir []"
  by (simp add: is_index_dir_def)

lemma is_index_dir_butlast: "is_index_dir p \<Longrightarrow> is_index_dir (butlast p)"
  by (cases p rule: rev_cases) (auto dest: is_index_dir_prefix)

lemma is_index_dir_family: "is_index_dir p \<Longrightarrow> p \<noteq> [] \<Longrightarrow> hd p \<in> set lease_index_families"
  by (auto simp: is_index_dir_def lease_index_families_def split: list.splits)

lemma is_index_dir_parts:
  "is_index_dir p \<Longrightarrow> \<not> list_ex (\<lambda>part. part \<in> {'''', ''.'', ''..''}) p"
  by (simp add: is_index_dir_def)

lemma fs_ok_dir: "fs_ok fs \<Longrightarrow> is_index_dir p \<Longrightarrow> map_of fs p = Some n \<Longrightarrow> n = LDir"
  by (auto simp: fs_ok_def)

lemma fs_ok_root [simp]: "fs_ok fs \<Longrightarrow> map_of fs [] = Some LDir"
  by (simp add: fs_ok_def)

lemma fs_ok_mkdir:
  assumes "fs_ok fs" "is_index_dir p" "p \<noteq> []" "map_of fs (butlast p) = Some LDir"
  shows "fs_ok (AList.update p LDir fs)"
  using assms by (auto simp: fs_ok_def distinct_update)

lemma file_view_mkdir: "is_index_dir p \<Longrightarrow> file_view (AList.update p n fs) = file_view fs"
  by (auto simp: file_view_def)

lemma fs_ok_write:
  assumes "fs_ok fs" "index_file p" "n \<noteq> LDir" "map_of fs (butlast p) = Some LDir"
  shows "fs_ok (AList.update p n fs)"
proof -
  have "p \<noteq> []" "\<And>q. map_of fs q \<noteq> None \<Longrightarrow> q \<noteq> [] \<Longrightarrow> butlast q \<noteq> p"
    using assms by (auto simp: fs_ok_def index_file_def)
  then show ?thesis using assms by (auto simp: fs_ok_def distinct_update index_file_def)
qed

lemma file_view_write: "\<not> is_index_dir p \<Longrightarrow> file_view (AList.update p n fs) = (file_view fs)(p \<mapsto> n)"
  by (auto simp: file_view_def)

lemma fs_ok_unlink: "fs_ok fs \<Longrightarrow> \<not> is_index_dir p \<Longrightarrow> fs_ok (AList.delete p fs)"
  by (auto simp: fs_ok_def distinct_delete)

lemma file_view_unlink: "\<not> is_index_dir p \<Longrightarrow> file_view (AList.delete p fs) = (file_view fs)(p := None)"
  by (auto simp: file_view_def)

section \<open>Filesystem primitives on a well-formed tree\<close>

lemma walk_creates:
  assumes "fs_ok fs" "is_index_dir (current @ parts)" "map_of fs current = Some LDir"
  shows "\<exists>fs'. walk_directories m True current parts fs = (Inr True, fs') \<and> fs_ok fs'
    \<and> file_view fs' = file_view fs \<and> map_of fs' (current @ parts) = Some LDir"
  using assms
proof (induction parts arbitrary: current fs)
  case (Cons part parts)
  let ?here = "current @ [part]"
  have dir: "is_index_dir ?here"
    using Cons.prems(2) is_index_dir_append [of ?here parts] by simp
  show ?case
  proof (cases "map_of fs ?here")
    case None
    from Cons.IH [of "AList.update ?here LDir fs" ?here] Cons.prems dir
    show ?thesis by (auto simp: None fs_ok_mkdir file_view_mkdir Let_def)
  next
    case (Some n)
    then have "n = LDir" using fs_ok_dir Cons.prems(1) dir by blast
    with Some Cons.IH [of fs ?here] Cons.prems show ?thesis by (auto simp: Let_def)
  qed
qed auto

lemma walk_checks:
  assumes "fs_ok fs" "is_index_dir (current @ parts)"
  shows "\<exists>b. walk_directories m False current parts fs = (Inr b, fs)"
  using assms
proof (induction parts arbitrary: current)
  case (Cons part parts)
  let ?here = "current @ [part]"
  have dir: "is_index_dir ?here"
    using Cons.prems(2) is_index_dir_append [of ?here parts] by simp
  show ?case
  proof (cases "map_of fs ?here")
    case (Some n)
    then have "n = LDir" using fs_ok_dir Cons.prems(1) dir by blast
    with Some Cons.IH [of ?here] Cons.prems show ?thesis by (auto simp: Let_def)
  qed (auto simp: Let_def)
qed auto

lemma require_safe_checks:
  assumes "fs_ok fs" "is_index_dir d" "d \<noteq> []"
  shows "\<exists>b. require_safe_lease_index_directory False d fs = (Inr b, fs)"
  using walk_checks [of fs "[]" d] assms is_index_dir_family [of d]
  by (auto simp: require_safe_lease_index_directory_def)

lemma require_safe_creates:
  assumes "fs_ok fs" "is_index_dir d" "d \<noteq> []"
  shows "\<exists>fs'. require_safe_lease_index_directory True d fs = (Inr True, fs') \<and> fs_ok fs'
    \<and> file_view fs' = file_view fs \<and> map_of fs' d = Some LDir"
  using walk_creates [of fs "[]" d] assms is_index_dir_family [of d]
  by (auto simp: require_safe_lease_index_directory_def)

lemma write_node_ok:
  assumes "fs_ok fs" "index_file p" "n \<noteq> LDir" "len \<le> limit" "1 \<le> limit"
  shows "\<exists>fs'. write_node limit len p n fs = (Inr (), fs') \<and> fs_ok fs'
    \<and> file_view fs' = (file_view fs)(p \<mapsto> n)"
proof -
  have d: "is_index_dir (butlast p)" "\<not> is_index_dir p" using assms(2) by (auto simp: index_file_def)
  obtain fs1 where walk: "walk_directories ''write directory ancestry is unsafe: '' True [] (butlast p) fs = (Inr True, fs1)"
    and fs1: "fs_ok fs1" "file_view fs1 = file_view fs" "map_of fs1 (butlast p) = Some LDir"
    using walk_creates [of fs "[]" "butlast p"] assms(1) d(1) by auto
  have "map_of fs1 p \<noteq> Some LDir" using fs1(1) d(2) by (auto simp: fs_ok_def)
  then have "write_node limit len p n fs = (Inr (), AList.update p n fs1)"
    using walk is_index_dir_parts [OF d(1)] assms
    by (simp add: write_node_def require_safe_write_directory_def mbind_app)
  then show ?thesis
    using fs_ok_write [OF fs1(1) assms(2,3) fs1(3)] file_view_write [OF d(2), of n fs1] fs1(2) by simp
qed

lemma unlink_ok:
  assumes "fs_ok fs" "index_file p" "missing_ok \<or> map_of fs p \<noteq> None"
  shows "\<exists>fs'. unlink_durable_path missing_ok p fs = (Inr (), fs') \<and> fs_ok fs'
    \<and> file_view fs' = (file_view fs)(p := None)"
proof -
  have d: "\<not> is_index_dir p" using assms(2) by (auto simp: index_file_def)
  have "map_of fs p \<noteq> Some LDir" using assms(1) d by (auto simp: fs_ok_def)
  then show ?thesis
    using assms d fs_ok_unlink [OF assms(1) d] file_view_unlink [OF d, of fs]
    by (auto simp: unlink_durable_path_def file_view_def fun_eq_iff
        split: option.splits lease_node.splits)
qed

lemma write_ref_ok:
  assumes "fs_ok fs" "index_file p"
  shows "\<exists>fs'. write_ref p fs = (Inr (), fs') \<and> fs_ok fs' \<and> file_view fs' = (file_view fs)(p \<mapsto> LRef)"
proof -
  obtain fs1 where "require_safe_lease_index_directory True (butlast p) fs = (Inr True, fs1)"
    "fs_ok fs1" "file_view fs1 = file_view fs"
    using require_safe_creates [of fs "butlast p"] assms by (auto simp: index_file_def)
  with write_node_ok [of fs1 p LRef 0 DEFAULT_RECORD_MAX_BYTES] assms(2) show ?thesis
    by (auto simp: write_ref_def mbind_app DEFAULT_RECORD_MAX_BYTES_def)
qed

lemma delete_ref_ok:
  assumes "fs_ok fs" "index_file p"
  shows "\<exists>fs'. delete_ref p fs = (Inr (), fs') \<and> fs_ok fs' \<and> file_view fs' = (file_view fs)(p := None)"
proof -
  obtain b where "require_safe_lease_index_directory False (butlast p) fs = (Inr b, fs)"
    using require_safe_checks [of fs "butlast p"] assms by (auto simp: index_file_def)
  with unlink_ok [of fs p True] assms show ?thesis
    by (auto simp: delete_ref_def mbind_app)
qed

lemma remove_stale_ref_eq:
  "remove_stale_ref i p = (if p \<in> set (lease_ref_paths i) then mret () else delete_ref p)"
  by (simp add: remove_stale_ref_def delete_ref_def)

lemma write_refs_ok:
  assumes "fs_ok fs" "\<forall>p \<in> set ps. index_file p"
  shows "\<exists>fs'. mseq write_ref ps fs = (Inr (), fs') \<and> fs_ok fs'
    \<and> file_view fs' = (\<lambda>p. if p \<in> set ps then Some LRef else file_view fs p)"
  using assms
proof (induction ps arbitrary: fs)
  case (Cons p ps)
  obtain fs1 where 1: "write_ref p fs = (Inr (), fs1)" "fs_ok fs1" "file_view fs1 = (file_view fs)(p \<mapsto> LRef)"
    using write_ref_ok [of fs p] Cons.prems by auto
  with Cons.IH [of fs1] Cons.prems(2) show ?case by (auto simp: mbind_app fun_eq_iff)
qed auto

lemma delete_refs_ok:
  assumes "fs_ok fs" "\<forall>p \<in> set ps. index_file p"
  shows "\<exists>fs'. mseq delete_ref ps fs = (Inr (), fs') \<and> fs_ok fs'
    \<and> file_view fs' = (\<lambda>p. if p \<in> set ps then None else file_view fs p)"
  using assms
proof (induction ps arbitrary: fs)
  case (Cons p ps)
  obtain fs1 where 1: "delete_ref p fs = (Inr (), fs1)" "fs_ok fs1" "file_view fs1 = (file_view fs)(p := None)"
    using delete_ref_ok [of fs p] Cons.prems by auto
  with Cons.IH [of fs1] Cons.prems(2) show ?case by (auto simp: mbind_app fun_eq_iff)
qed auto

lemma remove_stale_refs_ok:
  assumes "fs_ok fs" "\<forall>p \<in> set ps. index_file p"
  shows "\<exists>fs'. mseq (remove_stale_ref i) ps fs = (Inr (), fs') \<and> fs_ok fs'
    \<and> file_view fs' = (\<lambda>p. if p \<in> set ps - set (lease_ref_paths i) then None else file_view fs p)"
  using assms
proof (induction ps arbitrary: fs)
  case (Cons p ps)
  obtain fs1 where 1: "delete_ref p fs = (Inr (), fs1)" "fs_ok fs1" "file_view fs1 = (file_view fs)(p := None)"
    using delete_ref_ok [of fs p] Cons.prems by auto
  with Cons.IH [of fs1] Cons.IH [of fs] Cons.prems show ?case
    by (auto simp: mbind_app fun_eq_iff remove_stale_ref_eq)
qed auto

lemma remove_empty_directory_ok:
  assumes "fs_ok fs" "is_index_dir d" "d \<noteq> []"
  shows "\<exists>fs'. remove_empty_directory d fs = (Inr (), fs') \<and> fs_ok fs' \<and> file_view fs' = file_view fs"
proof (cases "map_of fs d = Some LDir \<and> directory_entries fs d = []")
  case True
  have "butlast p \<noteq> d" if here: "map_of fs p \<noteq> None" "p \<noteq> []" for p
  proof
    assume "butlast p = d"
    obtain n where "(p, n) \<in> set fs" using here(1) by (cases "map_of fs p") (auto dest: map_of_SomeD)
    then have "directory_entries fs d \<noteq> []"
      using \<open>p \<noteq> []\<close> \<open>butlast p = d\<close> by (force simp: directory_entries_def filter_empty_conv)
    then show False using True by simp
  qed
  then have "fs_ok (AList.delete d fs)"
    using assms by (auto simp: fs_ok_def distinct_delete)
  moreover have "file_view (AList.delete d fs) = file_view fs" using assms(2) by (auto simp: file_view_def)
  ultimately show ?thesis using True by (simp add: remove_empty_directory_def)
qed (use assms in \<open>auto simp: remove_empty_directory_def\<close>)

section \<open>The files of one identity\<close>

definition wf_identity :: "iso_codec \<Rightarrow> LeaseIndexIdentity \<Rightarrow> bool" where
  "wf_identity codec i \<longleftrightarrow>
     durable_id (li_lease_id i) \<and> durable_id (li_job_id i) \<and> durable_id (li_endpoint_id i)
     \<and> li_cluster i \<noteq> [] \<and> 0 \<le> li_expires_at i \<and> li_expires_at i < 10 ^ 20
     \<and> iso_parse codec (iso_format codec (li_expires_at i)) = Some (Some (li_expires_at i))
     \<and> int (length (dumps_plain (lease_index_document (iso_format codec) i))) \<le> LEASE_INDEX_MAX_BYTES"

definition lease_files :: "iso_codec \<Rightarrow> LeaseIndexIdentity \<Rightarrow> path \<rightharpoonup> lease_node" where
  "lease_files codec i p =
     (if p \<in> set (lease_ref_paths i) then Some LRef
      else if p = lease_index_path (li_lease_id i)
      then Some (LDoc (lease_index_document (iso_format codec) i))
      else None)"

abbreviation lease_token :: "LeaseIndexIdentity \<Rightarrow> string" where
  "lease_token i \<equiv> lease_index_token (li_lease_id i)"

lemma token_part_ok: "is_short_ref_token t \<Longrightarrow> t \<notin> {'''', ''.'', ''..''}"
  by (auto simp: is_short_ref_token_def all_hex_def)

lemma kind_part_ok: "JobKind_value k \<notin> {'''', ''.'', ''..''}"
  by (cases k) simp_all

lemma short_token_length: "is_short_ref_token t \<Longrightarrow> length t = 16"
  by (simp add: is_short_ref_token_def all_hex_def)

lemma lease_token_length [simp]: "length (lease_index_token l) = 16"
  by (simp add: short_token_length)

lemma scope_ref_name_parts:
  "\<exists>t. is_short_ref_token t \<and> lease_scope_ref_name i scope =
     join_with dot [lease_token i, lease_identity_token i, t, ''ref'']"
  by (rule exI [of _ "take 16 (stable_ref_token ([''lease-scope'', lease_token i, lease_identity_token i] @ scope))"])
    (simp add: lease_scope_ref_name_def lease_scope_ref_name_from_tokens_def lease_reference_def short_token_hex)

lemma with_suffix_ref: "with_suffix suffix (name @ ''.ref'') = name @ suffix"
  by (simp add: with_suffix_def)

lemma scope_ref_name_stem:
  obtains t where "is_short_ref_token t"
    "lease_scope_ref_name i scope = join_with dot [lease_token i, lease_identity_token i, t] @ ''.ref''"
    "with_suffix ''.guard'' (lease_scope_ref_name i scope)
      = join_with dot [lease_token i, lease_identity_token i, t] @ ''.guard''"
proof -
  obtain t where t: "is_short_ref_token t"
    "lease_scope_ref_name i scope = join_with dot [lease_token i, lease_identity_token i, t, ''ref'']"
    using scope_ref_name_parts by blast
  from t(2) have name: "lease_scope_ref_name i scope
      = join_with dot [lease_token i, lease_identity_token i, t] @ ''.ref''"
    by (simp add: dot_def)
  show ?thesis using that [OF t(1) name] with_suffix_ref name by metis
qed

lemmas lease_path_defs = lease_endpoint_ref_path_def lease_endpoint_guard_path_def
  lease_cluster_kind_ref_path_def lease_expiry_ref_path_def lease_identity_ref_path_def
  lease_identity_ref_path_from_tokens_def lease_endpoint_directory_def
  lease_endpoint_directory_from_token_def lease_cluster_kind_directory_def lease_index_path_def
  lease_index_path_from_token_def

lemma endpoint_directory_ok: "is_index_dir (lease_endpoint_directory e)" "lease_endpoint_directory e \<noteq> []"
  using token_part_ok [of "lease_endpoint_token e"]
  by (simp_all add: is_index_dir_def lease_endpoint_directory_def lease_endpoint_directory_from_token_def)

lemma lease_paths_are_files:
  "index_file (lease_index_path l)" "\<forall>p \<in> set (lease_ref_paths i). index_file p"
  using token_part_ok [of "lease_endpoint_token (li_endpoint_id i)"]
    token_part_ok [of "lease_cluster_token (li_cluster i)"] kind_part_ok [of "li_job_kind i"]
  by (simp_all add: index_file_def is_index_dir_def lease_ref_paths_def lease_path_defs Let_def
      lease_index_families_def lease_reference_def)

lemma format_no_dot: "CHR ''.'' \<notin> set (format_020d k)"
proof -
  have "list_all is_digit (zero_pad n (nat_digits m))" for n m
    by (simp add: zero_pad_digits nat_digits_digits)
  moreover have "\<not> is_digit (CHR ''.'')" by (simp add: is_digit_def)
  ultimately have "CHR ''.'' \<notin> set (zero_pad n (nat_digits m))" for n m
    by (auto simp: list_all_iff)
  then show ?thesis by (simp add: format_020d_def)
qed

text \<open>Every file name carries the lease token of its identity.\<close>

definition path_token :: "path \<Rightarrow> string" where
  "path_token p =
     (if hd p = ''leases_by_expiry'' then split_char (CHR ''.'') (last p) ! 5 else take 16 (last p))"

lemma take_token [simp]: "take 16 (lease_index_token l @ x) = lease_index_token l"
  by (simp add: short_token_length)

lemma split_expiry_name:
  "split_char (CHR ''.'') (lease_expiry_ref_name i) =
     [format_020d (lease_expiry_key (li_expires_at i)), lease_cluster_token (li_cluster i),
      lease_kind_code (li_job_kind i), lease_endpoint_token (li_endpoint_id i),
      lease_job_token (li_job_id i), lease_token i, lease_identity_token i, ''ref'']"
  unfolding lease_expiry_ref_name_def lease_reference_def
  by (subst split_join_dot) (simp_all add: format_no_dot short_token_no_dot kind_code_no_dot)

lemma take_scope_name:
  "take 16 (lease_scope_ref_name i scope) = lease_token i"
  "take 16 (with_suffix ''.guard'' (lease_scope_ref_name i scope)) = lease_token i"
proof -
  obtain t where "lease_scope_ref_name i scope = join_with dot [lease_token i, lease_identity_token i, t] @ ''.ref''"
    "with_suffix ''.guard'' (lease_scope_ref_name i scope)
      = join_with dot [lease_token i, lease_identity_token i, t] @ ''.guard''"
    using scope_ref_name_stem by metis
  then show "take 16 (lease_scope_ref_name i scope) = lease_token i"
    "take 16 (with_suffix ''.guard'' (lease_scope_ref_name i scope)) = lease_token i"
    by simp_all
qed

lemma path_token_paths:
  "path_token (lease_index_path l) = lease_index_token l"
  "path_token (lease_endpoint_ref_path i) = lease_token i"
  "path_token (lease_endpoint_guard_path i) = lease_token i"
  "path_token (lease_cluster_kind_ref_path i) = lease_token i"
  "path_token (lease_expiry_ref_path i) = lease_token i"
  "path_token (lease_identity_ref_path i) = lease_token i"
  by (simp_all add: lease_path_defs path_token_def Let_def lease_reference_def take_scope_name
      split_expiry_name)

lemma path_token_lease_files: "lease_files codec i p = Some n \<Longrightarrow> path_token p = lease_token i"
  by (auto simp: lease_files_def lease_ref_paths_def path_token_paths split: if_splits)

lemma lease_files_disjoint:
  "lease_token i \<noteq> lease_token j \<Longrightarrow> lease_files codec i p = Some n \<Longrightarrow> lease_files codec j p = None"
  using path_token_lease_files by (metis option.exhaust)

lemma index_path_not_ref: "lease_index_path l \<notin> set (lease_ref_paths i)"
  by (simp add: lease_ref_paths_def lease_path_defs lease_reference_def Let_def)

section \<open>Manifests\<close>

lemma document_round_trip:
  assumes "wf_identity codec i"
  shows "lease_index_identity_from_document (iso_parse codec)
    (lease_index_document (iso_format codec) i) label = Inr i"
  using assms
  by (simp add: lease_index_identity_from_document_def lease_index_document_def wf_identity_def
      doc_get_def dict_get_def)

lemma file_view_index_path [simp]: "map_of fs (lease_index_path l) = file_view fs (lease_index_path l)"
  using lease_paths_are_files(1) [of l] by (simp add: file_view_def index_file_def)

lemma read_manifest:
  assumes "fs_ok fs" "wf_identity codec i"
    and "file_view fs (lease_index_path (li_lease_id i)) = Some (LDoc (lease_index_document (iso_format codec) i))"
  shows "read_lease_index_identity_by_token codec (lease_token i) None fs = (Inr i, fs)"
proof -
  have "index_file (lease_index_path (li_lease_id i))" by (rule lease_paths_are_files(1))
  then obtain b where "require_safe_lease_index_directory False
      (butlast (lease_index_path_from_token (lease_token i))) fs = (Inr b, fs)"
    using require_safe_checks [OF assms(1)] by (auto simp: index_file_def lease_index_path_def)
  moreover have "map_of fs (lease_index_path_from_token (lease_token i))
      = Some (LDoc (lease_index_document (iso_format codec) i))"
    using assms(3) file_view_index_path [of fs "li_lease_id i"] by (simp add: lease_index_path_def)
  ultimately show ?thesis
    using document_round_trip [OF assms(2)]
    by (simp add: read_lease_index_identity_by_token_def read_json_document_def mbind_app Let_def)
qed

lemma write_manifest_ok:
  assumes "fs_ok fs" "wf_identity codec i"
    and "\<And>n. file_view fs (lease_index_path (li_lease_id i)) = Some n \<Longrightarrow>
      \<exists>j. n = LDoc (lease_index_document (iso_format codec) j) \<and> wf_identity codec j \<and> li_lease_id j = li_lease_id i"
  shows "\<exists>fs'. write_lease_index_identity codec i fs = (Inr (), fs') \<and> fs_ok fs'
    \<and> file_view fs' = (file_view fs)(lease_index_path (li_lease_id i)
        \<mapsto> LDoc (lease_index_document (iso_format codec) i))"
proof -
  let ?p = "lease_index_path (li_lease_id i)"
  have idx: "index_file ?p" by (rule lease_paths_are_files(1))
  obtain fs1 where dir: "require_safe_lease_index_directory True (butlast ?p) fs = (Inr True, fs1)"
    and fs1: "fs_ok fs1" "file_view fs1 = file_view fs"
    using require_safe_creates [OF assms(1), of "butlast ?p"] idx by (auto simp: index_file_def)
  obtain fs2 where out: "write_node LEASE_INDEX_MAX_BYTES
      (int (length (dumps_plain (lease_index_document (iso_format codec) i)))) ?p
      (LDoc (lease_index_document (iso_format codec) i)) fs1 = (Inr (), fs2)"
    and fs2: "fs_ok fs2"
      "file_view fs2 = (file_view fs1)(?p \<mapsto> LDoc (lease_index_document (iso_format codec) i))"
    using write_node_ok [OF fs1(1) idx, of "LDoc (lease_index_document (iso_format codec) i)"
        "int (length (dumps_plain (lease_index_document (iso_format codec) i)))" LEASE_INDEX_MAX_BYTES] assms(2)
    by (auto simp: wf_identity_def LEASE_INDEX_MAX_BYTES_def)
  have "write_lease_index_identity codec i fs = (Inr (), fs2)"
  proof (cases "file_view fs ?p")
    case None
    then show ?thesis using dir out fs1(2) by (simp add: write_lease_index_identity_def mbind_app Let_def)
  next
    case (Some n)
    then obtain j where j: "n = LDoc (lease_index_document (iso_format codec) j)" "wf_identity codec j"
      "li_lease_id j = li_lease_id i" using assms(3) by blast
    have "read_lease_index_identity_by_token codec (lease_token i) None fs1 = (Inr j, fs1)"
      using read_manifest [OF fs1(1) j(2)] Some j fs1(2) by simp
    then show ?thesis using dir out fs1(2) Some j(3)
      by (simp add: write_lease_index_identity_def mbind_app Let_def)
  qed
  then show ?thesis using fs2 fs1(2) by simp
qed

section \<open>Representation of a set of live leases\<close>

definition represents :: "iso_codec \<Rightarrow> LeaseIndexIdentity set \<Rightarrow> lease_fs \<Rightarrow> bool" where
  "represents codec L fs \<longleftrightarrow>
     fs_ok fs \<and> finite L \<and> inj_on lease_token L \<and> (\<forall>i \<in> L. wf_identity codec i)
     \<and> (\<forall>p n. file_view fs p = Some n \<longleftrightarrow> (\<exists>i \<in> L. lease_files codec i p = Some n))"

lemma represents_empty: "represents codec {} [([], LDir)]"
  by (auto simp: represents_def fs_ok_def file_view_def)

lemma represents_manifest:
  "represents codec L fs \<Longrightarrow> i \<in> L \<Longrightarrow>
    file_view fs (lease_index_path (li_lease_id i)) = Some (LDoc (lease_index_document (iso_format codec) i))"
  unfolding represents_def using index_path_not_ref by (auto simp: lease_files_def)

lemma represents_token:
  assumes "represents codec L fs" "file_view fs p = Some n"
  obtains i where "i \<in> L" "lease_files codec i p = Some n" "path_token p = lease_token i"
  using assms path_token_lease_files unfolding represents_def by metis

lemma index_path_free:
  assumes "represents codec L fs" "lease_token i \<notin> lease_token ` L"
  shows "file_view fs (lease_index_path (li_lease_id i)) = None"
proof (rule ccontr)
  assume "file_view fs (lease_index_path (li_lease_id i)) \<noteq> None"
  then obtain n where "file_view fs (lease_index_path (li_lease_id i)) = Some n" by auto
  with assms(1) show False
    by (rule represents_token) (use assms(2) in \<open>auto simp: path_token_paths\<close>)
qed

text \<open>Replacing the files of \<open>P\<close> by those of \<open>i\<close> replaces \<open>P\<close> by \<open>i\<close> in the set.\<close>

lemma represents_update:
  assumes "represents codec L fs" "fs_ok fs'" "wf_identity codec i"
    and "lease_token i \<notin> lease_token ` (L - P)"
    and "\<And>p. file_view fs' p = (case lease_files codec i p of Some n \<Rightarrow> Some n
      | None \<Rightarrow> if \<exists>j \<in> P. lease_files codec j p \<noteq> None then None else file_view fs p)"
    and "P \<subseteq> L"
  shows "represents codec (insert i (L - P)) fs'"
proof -
  have inj: "inj_on lease_token L" using assms(1) by (simp add: represents_def)
  have kept: "\<not> (\<exists>j \<in> P. lease_files codec j p \<noteq> None) \<and> lease_files codec i p = None"
    if "k \<in> L - P" "lease_files codec k p = Some n" for k p n
  proof -
    have "lease_token k \<noteq> lease_token i" using assms(4) that(1) by (metis imageI)
    then have "lease_files codec i p = None" using lease_files_disjoint that(2) by metis
    moreover have "lease_files codec j p = None" if "j \<in> P" for j
    proof -
      have "lease_token k \<noteq> lease_token j" using inj_onD [OF inj, of k j] that \<open>k \<in> L - P\<close> assms(6) by auto
      then show ?thesis using lease_files_disjoint \<open>lease_files codec k p = Some n\<close> by metis
    qed
    ultimately show ?thesis by auto
  qed
  have "file_view fs' p = Some n \<longleftrightarrow> (\<exists>k \<in> insert i (L - P). lease_files codec k p = Some n)" for p n
  proof (cases "lease_files codec i p")
    case None
    have rep: "file_view fs p = Some n \<longleftrightarrow> (\<exists>k \<in> L. lease_files codec k p = Some n)"
      using assms(1) by (simp add: represents_def)
    show ?thesis
    proof (cases "\<exists>j \<in> P. lease_files codec j p \<noteq> None")
      case True
      then have "\<not> (\<exists>k \<in> L - P. lease_files codec k p = Some n)" using kept by blast
      then show ?thesis using None True assms(5) [of p] by simp
    next
      case False
      then have "(\<exists>k \<in> L. lease_files codec k p = Some n) \<longleftrightarrow> (\<exists>k \<in> L - P. lease_files codec k p = Some n)"
        by auto
      then show ?thesis using None False assms(5) [of p] rep by simp
    qed
  next
    case (Some m)
    then have "\<not> (\<exists>k \<in> L - P. lease_files codec k p = Some n)" using kept by fastforce
    then show ?thesis using Some assms(5) [of p] by simp
  qed
  moreover have "inj_on lease_token (insert i (L - P))"
    using inj assms(4) by (auto intro: inj_on_diff)
  ultimately show ?thesis using assms(1,2,3) unfolding represents_def by auto
qed

lemma represents_remove:
  assumes "represents codec L fs" "fs_ok fs'" "j \<in> L"
    and "\<And>p. file_view fs' p = (if lease_files codec j p \<noteq> None then None else file_view fs p)"
  shows "represents codec (L - {j}) fs'"
proof -
  have inj: "inj_on lease_token L" using assms(1) by (simp add: represents_def)
  have kept: "lease_files codec j p = None" if k: "k \<in> L - {j}" "lease_files codec k p = Some n" for k p n
  proof -
    have "lease_token k \<noteq> lease_token j" using inj_onD [OF inj, of k j] k(1) assms(3) by auto
    then show ?thesis using lease_files_disjoint k(2) by metis
  qed
  have "file_view fs' p = Some n \<longleftrightarrow> (\<exists>k \<in> L - {j}. lease_files codec k p = Some n)" for p n
  proof (cases "lease_files codec j p")
    case None
    then have "(\<exists>k \<in> L. lease_files codec k p = Some n) \<longleftrightarrow> (\<exists>k \<in> L - {j}. lease_files codec k p = Some n)"
      by auto
    then show ?thesis using None assms(1,4) by (simp add: represents_def)
  next
    case (Some m)
    then have "\<not> (\<exists>k \<in> L - {j}. lease_files codec k p = Some n)" using kept by fastforce
    then show ?thesis using Some assms(4) [of p] by simp
  qed
  moreover have "inj_on lease_token (L - {j})" using inj by (rule inj_on_diff)
  ultimately show ?thesis using assms(1,2) unfolding represents_def by auto
qed

section \<open>Synchronization and deletion\<close>

abbreviation sync_writes :: "iso_codec \<Rightarrow> LeaseIndexIdentity \<Rightarrow> LeaseIndexIdentity index_op" where
  "sync_writes codec i \<equiv>
     mbind (write_lease_index_identity codec i) (\<lambda>_.
     mbind (mseq write_ref
              [lease_identity_ref_path i, lease_endpoint_ref_path i, lease_endpoint_guard_path i,
               lease_cluster_kind_ref_path i, lease_expiry_ref_path i]) (\<lambda>_.
     mret i))"

lemma sync_writes_ok:
  assumes "fs_ok fs" "wf_identity codec i"
    and "\<And>n. file_view fs (lease_index_path (li_lease_id i)) = Some n \<Longrightarrow>
      \<exists>j. n = LDoc (lease_index_document (iso_format codec) j) \<and> wf_identity codec j \<and> li_lease_id j = li_lease_id i"
  shows "\<exists>fs'. sync_writes codec i fs = (Inr i, fs') \<and> fs_ok fs'
    \<and> file_view fs' = (\<lambda>p. case lease_files codec i p of Some n \<Rightarrow> Some n | None \<Rightarrow> file_view fs p)"
proof -
  let ?ps = "[lease_identity_ref_path i, lease_endpoint_ref_path i, lease_endpoint_guard_path i,
    lease_cluster_kind_ref_path i, lease_expiry_ref_path i]"
  have set_ps: "set ?ps = set (lease_ref_paths i)" by (auto simp: lease_ref_paths_def)
  obtain fs1 where 1: "write_lease_index_identity codec i fs = (Inr (), fs1)" "fs_ok fs1"
    "file_view fs1 = (file_view fs)(lease_index_path (li_lease_id i)
        \<mapsto> LDoc (lease_index_document (iso_format codec) i))"
    using write_manifest_ok [OF assms] by blast
  obtain fs2 where 2: "mseq write_ref ?ps fs1 = (Inr (), fs2)" "fs_ok fs2"
    "file_view fs2 = (\<lambda>p. if p \<in> set ?ps then Some LRef else file_view fs1 p)"
    using write_refs_ok [OF 1(2), of ?ps] lease_paths_are_files(2) [of i] unfolding set_ps by blast
  have "sync_writes codec i fs = (Inr i, fs2)" using 1(1) 2(1) by (simp add: mbind_app del: mseq.simps)
  moreover have "file_view fs2 = (\<lambda>p. case lease_files codec i p of Some n \<Rightarrow> Some n | None \<Rightarrow> file_view fs p)"
    unfolding 2(3) set_ps 1(3) lease_files_def by (rule ext) simp
  ultimately show ?thesis using 2(2) by blast
qed

lemma lease_identity_fields:
  assumes "lease_index_identity lease job = Inr i"
  shows "li_lease_id i = le_lease_id lease" "li_job_id i = le_job_id lease"
    "li_endpoint_id i = le_endpoint_id lease" "li_expires_at i = le_expires_at lease"
    "li_cluster i = rj_cluster job" "li_job_kind i = rj_kind job"
  using assms by (auto simp: lease_index_identity_def result_iff split: if_splits)

lemma sync_new:
  assumes "represents codec L fs" "lease_index_identity lease job = Inr i" "wf_identity codec i"
    and "lease_token i \<notin> lease_token ` (L - {i})"
  shows "\<exists>fs'. sync_operational_indexes codec lease job None fs = (Inr i, fs')
    \<and> represents codec (insert i L) fs'"
proof -
  have fs: "fs_ok fs" using assms(1) by (simp add: represents_def)
  have free: "\<exists>j. n = LDoc (lease_index_document (iso_format codec) j) \<and> wf_identity codec j
      \<and> li_lease_id j = li_lease_id i"
    if there: "file_view fs (lease_index_path (li_lease_id i)) = Some n" for n
    using assms(1) there
  proof (rule represents_token)
    fix k assume k: "k \<in> L" "path_token (lease_index_path (li_lease_id i)) = lease_token k"
    then have "k = i" using assms(4) by (auto simp: path_token_paths)
    then show ?thesis using represents_manifest [OF assms(1) k(1)] there assms(3) by auto
  qed
  obtain fs' where "sync_writes codec i fs = (Inr i, fs')" "fs_ok fs'"
    "file_view fs' = (\<lambda>p. case lease_files codec i p of Some n \<Rightarrow> Some n | None \<Rightarrow> file_view fs p)"
    using sync_writes_ok [OF fs assms(3) free] by blast
  moreover from this have "represents codec (insert i (L - ({i} \<inter> L))) fs'"
    by (intro represents_update [OF assms(1) _ assms(3)]) (use assms(4) in \<open>auto split: option.splits\<close>)
  moreover have "insert i (L - ({i} \<inter> L)) = insert i L" by auto
  ultimately show ?thesis using assms(2) by (auto simp: sync_operational_indexes_def mbind_app)
qed

lemma sync_renew:
  assumes "represents codec L fs" "lease_index_identity lease job = Inr i" "wf_identity codec i"
    and "lease_index_identity prev job = Inr j" "j \<in> L"
    and "le_lease_id lease = le_lease_id prev" "le_endpoint_id lease = le_endpoint_id prev"
  shows "\<exists>fs'. sync_operational_indexes codec lease job (Some prev) fs = (Inr i, fs')
    \<and> represents codec (insert i (L - {j})) fs'"
proof -
  have fs: "fs_ok fs" and inj: "inj_on lease_token L" using assms(1) by (simp_all add: represents_def)
  have jobs: "le_job_id lease = rj_job_id job" "le_job_id prev = rj_job_id job"
    using assms(2,4) by (auto simp: lease_index_identity_def split: if_splits)
  have same: "li_lease_id j = li_lease_id i" "li_job_id j = li_job_id i" "li_endpoint_id j = li_endpoint_id i"
    using lease_identity_fields [OF assms(2)] lease_identity_fields [OF assms(4)] assms(6,7) jobs by simp_all
  obtain fs1 where 1: "mseq (remove_stale_ref i) (lease_ref_paths j) fs = (Inr (), fs1)" "fs_ok fs1"
    "file_view fs1 = (\<lambda>p. if p \<in> set (lease_ref_paths j) - set (lease_ref_paths i) then None else file_view fs p)"
    using remove_stale_refs_ok [OF fs, of "lease_ref_paths j" i] lease_paths_are_files(2) by blast
  have "file_view fs1 (lease_index_path (li_lease_id i)) = Some (LDoc (lease_index_document (iso_format codec) j))"
    using represents_manifest [OF assms(1,5)] same(1) 1(3) index_path_not_ref by simp
  then obtain fs2 where 2: "sync_writes codec i fs1 = (Inr i, fs2)" "fs_ok fs2"
    "file_view fs2 = (\<lambda>p. case lease_files codec i p of Some n \<Rightarrow> Some n | None \<Rightarrow> file_view fs1 p)"
    using sync_writes_ok [OF 1(2) assms(3)] assms(1,5) same(1) by (force simp: represents_def)
  have "represents codec (insert i (L - {j})) fs2"
  proof (rule represents_update [OF assms(1) 2(2) assms(3)])
    show "lease_token i \<notin> lease_token ` (L - {j})"
      using inj_onD [OF inj, of _ j] assms(5) same(1) by force
    show "file_view fs2 p = (case lease_files codec i p of Some n \<Rightarrow> Some n
      | None \<Rightarrow> if \<exists>j \<in> {j}. lease_files codec j p \<noteq> None then None else file_view fs p)" for p
      using 1(3) 2(3) same(1) by (auto simp: lease_files_def)
  qed (use assms(5) in simp)
  then show ?thesis
    using 1(1) 2(1) assms(2,4) same
    by (auto simp: sync_operational_indexes_def mbind_app simp del: mseq.simps)
qed

lemma delete_indexes:
  assumes "represents codec L fs" "i \<in> L"
  shows "\<exists>fs'. delete_lease_operational_indexes codec i allow fs = (Inr (), fs')
    \<and> represents codec (L - {i}) fs'"
proof -
  let ?p = "lease_index_path (li_lease_id i)"
  have fs: "fs_ok fs" and wf: "wf_identity codec i" using assms by (simp_all add: represents_def)
  have man: "file_view fs ?p = Some (LDoc (lease_index_document (iso_format codec) i))"
    by (rule represents_manifest [OF assms])
  have idx: "index_file ?p" by (rule lease_paths_are_files(1))
  obtain b where 0: "require_safe_lease_index_directory False (butlast ?p) fs = (Inr b, fs)"
    using require_safe_checks [OF fs] idx by (auto simp: index_file_def)
  have read: "read_lease_index_identity_by_token codec (lease_token i) None fs = (Inr i, fs)"
    by (rule read_manifest [OF fs wf man])
  obtain fs1 where 1: "mseq delete_ref (lease_ref_paths i) fs = (Inr (), fs1)" "fs_ok fs1"
    "file_view fs1 = (\<lambda>p. if p \<in> set (lease_ref_paths i) then None else file_view fs p)"
    using delete_refs_ok [OF fs lease_paths_are_files(2)] by blast
  obtain fs2 where 2: "remove_empty_directory (lease_endpoint_directory (li_endpoint_id i)) fs1 = (Inr (), fs2)"
    "fs_ok fs2" "file_view fs2 = file_view fs1"
    using remove_empty_directory_ok [OF 1(2) endpoint_directory_ok] by blast
  have there: "map_of fs2 ?p \<noteq> None" using man 1(3) 2(3) index_path_not_ref by simp
  obtain fs3 where 3: "unlink_durable_path False ?p fs2 = (Inr (), fs3)" "fs_ok fs3"
    "file_view fs3 = (file_view fs2)(?p := None)"
    using unlink_ok [OF 2(2) idx] there by blast
  have "represents codec (L - {i}) fs3"
    using 1(3) 2(3) 3(3) by (intro represents_remove [OF assms(1) 3(2) assms(2)]) (auto simp: lease_files_def)
  moreover have "delete_lease_operational_indexes codec i allow fs = (Inr (), fs3)"
    using 0 read 1(1) 2(1) 3(1) man there
    by (simp add: delete_lease_operational_indexes_def mbind_app Let_def del: mseq.simps)
  ultimately show ?thesis by blast
qed

section \<open>Scans\<close>

lemma distinct_entries:
  assumes "distinct (map fst fs)"
  shows "distinct (map fst (directory_entries fs d))"
proof -
  have "distinct (map (last \<circ> fst) (filter (\<lambda>(p, n). p \<noteq> [] \<and> butlast p = d) fs))"
    using assms
    by (induction fs) (auto simp: image_iff, metis append_butlast_last_id fst_conv image_eqI)
  then show ?thesis by (simp add: directory_entries_def comp_def case_prod_beta)
qed

lemma represented_entries:
  assumes "represents codec L fs" "\<And>x. \<not> is_index_dir (d @ [x])"
  shows "set (directory_entries fs d) = {(x, n). \<exists>i \<in> L. lease_files codec i (d @ [x]) = Some n}"
proof -
  have dist: "distinct (map fst fs)" using assms(1) by (simp add: represents_def fs_ok_def)
  have "(x, n) \<in> set (directory_entries fs d) \<longleftrightarrow> (d @ [x], n) \<in> set fs" for x n
    by (force simp: directory_entries_def image_iff)
  then have "(x, n) \<in> set (directory_entries fs d) \<longleftrightarrow> file_view fs (d @ [x]) = Some n" for x n
    using dist assms(2) by (simp add: file_view_def map_of_eq_Some_iff)
  then show ?thesis using assms(1) by (auto simp: represents_def)
qed

lemma no_directory_no_entries:
  assumes "represents codec L fs" "map_of fs d = None"
  shows "directory_entries fs d = []"
proof -
  have "butlast p \<noteq> d" if "(p, n) \<in> set fs" "p \<noteq> []" for p n
  proof -
    have "map_of fs p \<noteq> None" using that(1) weak_map_of_SomeI by fastforce
    then show ?thesis using assms that(2) by (auto simp: represents_def fs_ok_def)
  qed
  then show ?thesis by (auto simp: directory_entries_def filter_empty_conv)
qed

lemma scan_ref_entries_ok:
  assumes "\<forall>(x, n) \<in> set es. n = LRef \<and> parse x = Some (f x)" "int (length acc) \<le> limit"
  shows "scan_ref_entries parse m d limit es acc =
    Inr (acc @ map (f \<circ> fst) (take (nat limit - length acc) es), limit < int (length acc + length es))"
  using assms
proof (induction es arbitrary: acc)
  case (Cons e es)
  obtain x n where e: "e = (x, n)" by fastforce
  show ?case
  proof (cases "int (length acc) = limit")
    case False
    then have "nat limit - length acc = Suc (nat limit - length (acc @ [f x]))" using Cons.prems(2) by simp
    with False show ?thesis using Cons.IH [of "acc @ [f x]"] Cons.prems e by simp
  qed (use e in simp)
qed simp

definition expiry_ref :: "LeaseIndexIdentity \<Rightarrow> LeaseExpiryReference" where
  "expiry_ref i = (lease_expiry_key (li_expires_at i), lease_cluster_token (li_cluster i), li_job_kind i,
     lease_endpoint_token (li_endpoint_id i), lease_job_token (li_job_id i), lease_token i,
     lease_identity_token i)"

lemma expiry_files:
  "lease_files codec i ([''leases_by_expiry''] @ [x]) = Some n \<longleftrightarrow> x = lease_expiry_ref_name i \<and> n = LRef"
  by (auto simp: lease_files_def lease_ref_paths_def lease_path_defs lease_reference_def Let_def)

lemma identity_files:
  "lease_files codec i ([''lease_identity_refs''] @ [x]) = Some n
    \<longleftrightarrow> x = join_with dot [lease_token i, lease_identity_token i, ''ref''] \<and> n = LRef"
  by (auto simp: lease_files_def lease_ref_paths_def lease_path_defs lease_reference_def Let_def)

text \<open>
  A directory that holds one reference per identity, with names the scan parses back.
\<close>

lemma scan_family:
  assumes "represents codec L fs" "\<And>x. \<not> is_index_dir (d @ [x])"
    and files: "\<And>i x n. lease_files codec i (d @ [x]) = Some n \<longleftrightarrow> x = name i \<and> n = LRef"
    and parse: "\<And>i. i \<in> L \<Longrightarrow> parse (name i) = Some (ref i)"
    and token: "\<And>i. path_token (d @ [name i]) = lease_token i"
    and "0 \<le> limit"
  obtains refs where
    "scan_ref_entries parse m d limit (directory_entries fs d) [] = Inr (refs, limit < int (card L))"
    "int (card L) \<le> limit \<Longrightarrow> set refs = ref ` L \<and> length refs = card L"
    "set refs \<subseteq> ref ` L"
proof -
  let ?es = "directory_entries fs d"
  have dist: "distinct (map fst ?es)" using assms(1) distinct_entries by (simp add: represents_def fs_ok_def)
  have es: "set ?es = {(x, n). \<exists>i \<in> L. x = name i \<and> n = LRef}"
    using represented_entries [OF assms(1,2)] files by simp
  then have names: "fst ` set ?es = name ` L" by force
  have inj: "inj_on name L"
    using assms(1) token unfolding represents_def inj_on_def by metis
  have len: "length ?es = card L"
    using card_image [OF inj] distinct_card [OF dist] names by simp
  have all: "\<forall>(x, n) \<in> set ?es. n = LRef \<and> parse x = Some (the (parse x))"
    using es parse by fastforce
  have scan: "scan_ref_entries parse m d limit ?es []
      = Inr (map ((\<lambda>x. the (parse x)) \<circ> fst) (take (nat limit) ?es), limit < int (card L))"
    using scan_ref_entries_ok [OF all, of "[]" limit m d] assms(6) len by simp
  have sub: "set (map ((\<lambda>x. the (parse x)) \<circ> fst) (take (nat limit) ?es)) \<subseteq> ref ` L"
    using es parse by (fastforce dest: in_set_takeD)
  have full: "set (map ((\<lambda>x. the (parse x)) \<circ> fst) ?es) = ref ` L"
  proof -
    have "set (map ((\<lambda>x. the (parse x)) \<circ> fst) ?es) = (\<lambda>x. the (parse x)) ` name ` L"
      using names by (metis image_comp list.set_map)
    also have "\<dots> = ref ` L" using parse by (auto simp: image_iff)
    finally show ?thesis .
  qed
  show ?thesis
  proof (rule that [OF scan])
    show "set (map ((\<lambda>x. the (parse x)) \<circ> fst) (take (nat limit) ?es)) = ref ` L
      \<and> length (map ((\<lambda>x. the (parse x)) \<circ> fst) (take (nat limit) ?es)) = card L"
      if "int (card L) \<le> limit"
    proof -
      have "take (nat limit) ?es = ?es" using that len by simp
      then show ?thesis using full len by simp
    qed
  qed (use sub in auto)
qed

lemma represents_dir:
  assumes "represents codec L fs" "is_index_dir d" "map_of fs d = Some n"
  shows "n = LDir"
  using assms fs_ok_dir by (auto simp: represents_def)

lemma scan_expiry_exact:
  assumes "represents codec L fs" "0 \<le> limit"
  obtains refs where "scan_expiry_refs limit fs = (Inr (refs, limit < int (card L)), fs)"
    "sorted (map expiry_sort_key refs)" "set refs \<subseteq> expiry_ref ` L"
    "int (card L) \<le> limit \<Longrightarrow> set refs = expiry_ref ` L \<and> length refs = card L"
proof -
  let ?d = "[''leases_by_expiry'']"
  let ?m = "''lease expiry index contains an unsafe reference: ''"
  have fs: "fs_ok fs" using assms(1) by (simp add: represents_def)
  have dir: "is_index_dir ?d" by (simp add: is_index_dir_def lease_index_families_def)
  obtain b where safe: "require_safe_lease_index_directory False ?d fs = (Inr b, fs)"
    using require_safe_checks [OF fs dir] by auto
  have nodir: "\<not> is_index_dir (?d @ [x])" for x by (simp add: is_index_dir_def)
  have token: "path_token (?d @ [lease_expiry_ref_name i]) = lease_token i" for i
    using path_token_paths(5) [of i] by (simp add: lease_expiry_ref_path_def)
  have parse: "parse_lease_expiry_ref_name (lease_expiry_ref_name i) = Some (expiry_ref i)" if "i \<in> L" for i
    using parse_expiry_ref_name [of i] assms(1) that
    by (auto simp: represents_def wf_identity_def expiry_ref_def lease_expiry_key_def)
  obtain refs where refs: "scan_ref_entries parse_lease_expiry_ref_name ?m ?d limit (directory_entries fs ?d) []
      = Inr (refs, limit < int (card L))" "set refs \<subseteq> expiry_ref ` L"
    "int (card L) \<le> limit \<Longrightarrow> set refs = expiry_ref ` L \<and> length refs = card L"
    using scan_family [where name = lease_expiry_ref_name and ref = expiry_ref and d = ?d
        and parse = parse_lease_expiry_ref_name and m = ?m,
        OF assms(1) nodir expiry_files parse token assms(2)] by force
  show ?thesis
  proof (cases "map_of fs ?d")
    case None
    then have "Inr (refs, limit < int (card L)) = (Inr ([], False) :: py_error + _)"
      using refs(1) no_directory_no_entries [OF assms(1) None] by simp
    then have "refs = []" "\<not> limit < int (card L)" by simp_all
    then show ?thesis using that [of "[]"] refs None safe by (simp add: scan_expiry_refs_def mbind_app Let_def)
  next
    case (Some n)
    then have "n = LDir" using represents_dir [OF assms(1) dir] by blast
    then have "scan_expiry_refs limit fs = (Inr (sort_key expiry_sort_key refs, limit < int (card L)), fs)"
      using Some refs(1) safe by (simp add: scan_expiry_refs_def mbind_app Let_def)
    then show ?thesis by (rule that) (use refs(2,3) in auto)
  qed
qed

lemma scan_identity_exact:
  assumes "represents codec L fs" "1 \<le> limit"
  obtains refs where "scan_lease_identity_refs limit fs = (Inr (refs, limit < int (card L)), fs)"
    "sorted refs" "set refs \<subseteq> lease_reference ` L"
    "int (card L) \<le> limit \<Longrightarrow> set refs = lease_reference ` L \<and> length refs = card L"
proof -
  let ?d = "[''lease_identity_refs'']"
  let ?m = "''lease identity reference index contains an unsafe reference: ''"
  have fs: "fs_ok fs" using assms(1) by (simp add: represents_def)
  have dir: "is_index_dir ?d" by (simp add: is_index_dir_def lease_index_families_def)
  obtain b where safe: "require_safe_lease_index_directory False ?d fs = (Inr b, fs)"
    using require_safe_checks [OF fs dir] by auto
  have nodir: "\<not> is_index_dir (?d @ [x])" for x by (simp add: is_index_dir_def)
  have token: "path_token (?d @ [join_with dot [lease_token i, lease_identity_token i, ''ref'']]) = lease_token i" for i
    using path_token_paths(6) [of i]
    by (simp add: lease_identity_ref_path_def lease_identity_ref_path_from_tokens_def lease_reference_def)
  have parse: "parse_lease_identity_ref_name (join_with dot [lease_token i, lease_identity_token i, ''ref''])
      = Some (lease_reference i)" for i
    by (simp only: parse_identity_ref_name lease_reference_def)
  obtain refs where refs: "scan_ref_entries parse_lease_identity_ref_name ?m ?d limit (directory_entries fs ?d) []
      = Inr (refs, limit < int (card L))" "set refs \<subseteq> lease_reference ` L"
    "int (card L) \<le> limit \<Longrightarrow> set refs = lease_reference ` L \<and> length refs = card L"
    using scan_family [where name = "\<lambda>i. join_with dot [lease_token i, lease_identity_token i, ''ref'']"
        and ref = lease_reference and d = ?d and parse = parse_lease_identity_ref_name and m = ?m
        and limit = limit, OF assms(1) nodir identity_files parse token] assms(2) by force
  show ?thesis
  proof (cases "map_of fs ?d")
    case None
    then have "Inr (refs, limit < int (card L)) = (Inr ([], False) :: py_error + _)"
      using refs(1) no_directory_no_entries [OF assms(1) None] by simp
    then have "refs = []" "\<not> limit < int (card L)" by simp_all
    then show ?thesis using that [of "[]"] refs None assms(2) by (simp add: scan_lease_identity_refs_def Let_def)
  next
    case (Some n)
    then have "n = LDir" using represents_dir [OF assms(1) dir] by blast
    then have "scan_lease_identity_refs limit fs = (Inr (sort refs, limit < int (card L)), fs)"
      using Some refs(1) safe assms(2) by (simp add: scan_lease_identity_refs_def mbind_app Let_def)
    then show ?thesis by (rule that) (use refs(2,3) in auto)
  qed
qed

definition entry_ref :: "string \<Rightarrow> string \<Rightarrow> (string \<times> string) option" where
  "entry_ref tok x = lease_reference_from_scope_ref
     (if ends_with ''.guard'' x then take (length x - 6) x @ ''.ref'' else x) [''endpoint'', tok]"

abbreviation is_guard :: "string \<times> lease_node \<Rightarrow> bool" where
  "is_guard e \<equiv> ends_with ''.guard'' (fst e)"

lemma scan_endpoint_entries_ok:
  assumes "\<forall>e \<in> set es. snd e = LRef \<and> entry_ref tok (fst e) = Some (r (fst e))"
    and "distinct (map (\<lambda>e. (is_guard e, r (fst e))) es)"
    and "\<forall>e \<in> set es. r (fst e) \<notin> set (if is_guard e then guards else references)"
    and "seen + int (length es) \<le> limit * 2"
  shows "scan_endpoint_entries tok d limit es seen references guards =
    Inr (references @ map (r \<circ> fst) (filter (\<lambda>e. \<not> is_guard e) es),
         guards @ map (r \<circ> fst) (filter is_guard es), False)"
  using assms
proof (induction es arbitrary: seen references guards)
  case (Cons e es)
  obtain x where e: "e = (x, LRef)" using Cons.prems(1) by (cases e) auto
  have ref: "entry_ref tok x = Some (r x)" using Cons.prems(1) e by simp
  have fresh: "\<forall>y \<in> set es. (is_guard y, r (fst y)) \<noteq> (is_guard e, r x)"
    using Cons.prems(2) e by (auto simp: image_iff)
  show ?case
  proof (cases "ends_with ''.guard'' x")
    case True
    have "scan_endpoint_entries tok d limit es (seen + 1) references (guards @ [r x]) =
      Inr (references @ map (r \<circ> fst) (filter (\<lambda>e. \<not> is_guard e) es),
        (guards @ [r x]) @ map (r \<circ> fst) (filter is_guard es), False)"
      using Cons.prems fresh True e by (intro Cons.IH) auto
    then show ?thesis using True e ref Cons.prems(3,4) by (simp add: entry_ref_def Let_def)
  next
    case False
    have "scan_endpoint_entries tok d limit es (seen + 1) (references @ [r x]) guards =
      Inr ((references @ [r x]) @ map (r \<circ> fst) (filter (\<lambda>e. \<not> is_guard e) es),
        guards @ map (r \<circ> fst) (filter is_guard es), False)"
      using Cons.prems fresh False e by (intro Cons.IH) auto
    then show ?thesis using False e ref Cons.prems(3,4) by (simp add: entry_ref_def Let_def)
  qed
qed simp

abbreviation ref_name :: "LeaseIndexIdentity \<Rightarrow> string" where
  "ref_name i \<equiv> lease_scope_ref_name i [''endpoint'', lease_endpoint_token (li_endpoint_id i)]"

abbreviation guard_name :: "LeaseIndexIdentity \<Rightarrow> string" where
  "guard_name i \<equiv> with_suffix ''.guard'' (ref_name i)"

lemma guard_suffix:
  "ends_with ''.guard'' (x @ ''.guard'')" "\<not> ends_with ''.guard'' (x @ ''.ref'')"
  "take (length (x @ ''.guard'') - 6) (x @ ''.guard'') = x"
proof -
  have "last y = CHR ''d''" if "ends_with ''.guard'' y" for y
  proof -
    have "y = take (length y - 6) y @ ''.guard''"
      using that append_take_drop_id [of "length y - 6" y] by (simp add: ends_with_def eval_nat_numeral)
    then have "last y = last (take (length y - 6) y @ ''.guard'')" by (rule arg_cong)
    then show ?thesis by simp
  qed
  from this [of "x @ ''.ref''"] show "\<not> ends_with ''.guard'' (x @ ''.ref'')" by auto
qed (simp_all add: ends_with_def)

lemma endpoint_names:
  "ends_with ''.guard'' (guard_name i)" "\<not> ends_with ''.guard'' (ref_name i)"
  "take (length (guard_name i) - 6) (guard_name i) @ ''.ref'' = ref_name i"
proof -
  obtain x where x: "ref_name i = x @ ''.ref''" "guard_name i = x @ ''.guard''"
    using scope_ref_name_stem by metis
  show "ends_with ''.guard'' (guard_name i)" using guard_suffix(1) [of x] x(2) by metis
  show "\<not> ends_with ''.guard'' (ref_name i)" using guard_suffix(2) [of x] x(1) by simp
  show "take (length (guard_name i) - 6) (guard_name i) @ ''.ref'' = ref_name i"
    using guard_suffix(3) [of x] x by metis
qed

lemma entry_ref_names:
  "entry_ref (lease_endpoint_token (li_endpoint_id i)) (ref_name i) = Some (lease_reference i)"
  "entry_ref (lease_endpoint_token (li_endpoint_id i)) (guard_name i) = Some (lease_reference i)"
  using endpoint_names [of i] parse_scope_ref_name [of i] by (simp_all add: entry_ref_def)

lemma endpoint_files:
  "lease_files codec i (lease_endpoint_directory e @ [x]) = Some n
    \<longleftrightarrow> lease_endpoint_token (li_endpoint_id i) = lease_endpoint_token e
      \<and> (x = ref_name i \<or> x = guard_name i) \<and> n = LRef"
  by (auto simp: lease_files_def lease_ref_paths_def lease_path_defs lease_reference_def Let_def)

lemma scan_endpoint_exact:
  assumes "represents codec L fs" "1 \<le> limit"
    and "E = {i \<in> L. lease_endpoint_token (li_endpoint_id i) = lease_endpoint_token e}" "int (card E) \<le> limit"
  obtains refs where "scan_lease_endpoint_refs e limit fs = (Inr (refs, False), fs)"
    "sorted refs" "set refs = lease_reference ` E" "length refs = card E"
proof -
  let ?d = "lease_endpoint_directory e" and ?tok = "lease_endpoint_token e"
  let ?es = "directory_entries fs ?d"
  define r where "r x = the (entry_ref ?tok x)" for x
  have fs: "fs_ok fs" and inj: "inj_on lease_token L" and fin: "finite E"
    using assms(1,3) by (auto simp: represents_def)
  have nodir: "\<not> is_index_dir (?d @ [x])" for x
    by (simp add: is_index_dir_def lease_endpoint_directory_def lease_endpoint_directory_from_token_def)
  have es: "set ?es = {(x, n). \<exists>i \<in> E. (x = ref_name i \<or> x = guard_name i) \<and> n = LRef}"
    using represented_entries [OF assms(1) nodir] endpoint_files assms(3) by auto
  have r_names: "r (ref_name i) = lease_reference i" "r (guard_name i) = lease_reference i"
    "entry_ref ?tok (ref_name i) = Some (lease_reference i)" "entry_ref ?tok (guard_name i) = Some (lease_reference i)"
    if "i \<in> E" for i using that entry_ref_names [of i] assms(3) by (auto simp: r_def)
  have same: "i = j" if "i \<in> E" "j \<in> E" "lease_reference i = lease_reference j" for i j
    using that inj_onD [OF inj, of i j] assms(3) by (auto simp: lease_reference_def)
  have dist: "distinct (map fst ?es)" using fs distinct_entries by (simp add: fs_ok_def)
  have "inj_on (\<lambda>e. (is_guard e, r (fst e))) (set ?es)"
  proof (rule inj_onI)
    fix a b assume "a \<in> set ?es" "b \<in> set ?es" and eq: "(is_guard a, r (fst a)) = (is_guard b, r (fst b))"
    then obtain i j where ij: "i \<in> E" "fst a = ref_name i \<or> fst a = guard_name i" "snd a = LRef"
      "j \<in> E" "fst b = ref_name j \<or> fst b = guard_name j" "snd b = LRef" unfolding es by fastforce
    have "r (fst a) = lease_reference i" using ij(1,2) r_names(1,2) by auto
    moreover have "r (fst b) = lease_reference j" using ij(4,5) r_names(1,2) by auto
    ultimately have "i = j" using eq same ij(1,4) by simp
    then have "fst a = fst b" using ij eq endpoint_names [of i] by auto
    then show "a = b" using ij by (simp add: prod_eq_iff)
  qed
  then have keys: "distinct (map (\<lambda>e. (is_guard e, r (fst e))) ?es)"
    using dist by (simp add: distinct_map)
  have "length ?es = card (fst ` set ?es)" using distinct_card [OF dist] by simp
  also have "\<dots> = card (ref_name ` E \<union> guard_name ` E)" unfolding es by (rule arg_cong [of _ _ card]) force
  also have "\<dots> \<le> card E + card E"
    using card_Un_le [of "ref_name ` E" "guard_name ` E"] card_image_le [OF fin, of ref_name]
      card_image_le [OF fin, of guard_name] by linarith
  finally have len: "int (length ?es) \<le> limit * 2" using assms(4) by simp
  let ?refs = "map (r \<circ> fst) (filter (\<lambda>e. \<not> is_guard e) ?es)"
  let ?guards = "map (r \<circ> fst) (filter is_guard ?es)"
  have each: "\<forall>e \<in> set ?es. snd e = LRef \<and> entry_ref ?tok (fst e) = Some (r (fst e))"
    unfolding es using r_names by force
  have scan: "scan_endpoint_entries ?tok ?d limit ?es 0 [] [] = Inr (?refs, ?guards, False)"
    using scan_endpoint_entries_ok [of ?es ?tok r "[]" "[]" 0 limit ?d] keys len each by simp
  have sets: "{e \<in> set ?es. \<not> is_guard e} = (\<lambda>i. (ref_name i, LRef)) ` E"
    "{e \<in> set ?es. is_guard e} = (\<lambda>i. (guard_name i, LRef)) ` E"
    unfolding es using endpoint_names by auto
  have refs: "set ?refs = lease_reference ` E" "set ?guards = lease_reference ` E"
    unfolding set_map set_filter sets image_image comp_def fst_conv
    by (rule image_cong [OF refl], simp add: r_names)+
  have "distinct ?refs" using keys by (auto simp: distinct_map inj_on_def)
  moreover have "inj_on lease_reference E" using same by (auto intro: inj_onI)
  ultimately have count: "length ?refs = card E"
    using distinct_card [of ?refs] refs(1) card_image [of lease_reference E] by simp
  obtain b where safe: "require_safe_lease_index_directory False ?d fs = (Inr b, fs)"
    using require_safe_checks [OF fs endpoint_directory_ok] by blast
  show ?thesis
  proof (cases "map_of fs ?d")
    case None
    then have "?refs = []" using no_directory_no_entries [OF assms(1) None] by simp
    then have "scan_lease_endpoint_refs e limit fs = (Inr (?refs, False), fs)"
      using None assms(2) by (simp add: scan_lease_endpoint_refs_def Let_def)
    then show ?thesis by (rule that) (use \<open>?refs = []\<close> refs(1) count in simp_all)
  next
    case (Some n)
    then have "n = LDir" using represents_dir [OF assms(1) endpoint_directory_ok(1)] by blast
    then have "scan_lease_endpoint_refs e limit fs = (Inr (sort ?refs, False), fs)"
      using Some assms(2) safe scan refs by (simp add: scan_lease_endpoint_refs_def Let_def mbind_app)
    then show ?thesis by (rule that) (use refs(1) count in simp_all)
  qed
qed

section \<open>Histories\<close>

fun run_steps :: "('r \<Rightarrow> 's \<Rightarrow> bool \<times> 's) \<Rightarrow> 'r list \<Rightarrow> 's \<Rightarrow> bool \<times> 's" where
  "run_steps step [] s = (True, s)"
| "run_steps step (r # rs) s = (case step r s of (False, s') \<Rightarrow> (False, s') | (True, s') \<Rightarrow> run_steps step rs s')"

fun ok_steps :: "('r \<Rightarrow> 'a \<Rightarrow> bool) \<Rightarrow> ('r \<Rightarrow> 'a \<Rightarrow> 'a) \<Rightarrow> 'r list \<Rightarrow> 'a \<Rightarrow> bool" where
  "ok_steps ok spec [] a \<longleftrightarrow> True"
| "ok_steps ok spec (r # rs) a \<longleftrightarrow> ok r a \<and> ok_steps ok spec rs (spec r a)"

text \<open>A store whose requests implement an abstract state, and one that can also be observed.\<close>

locale refined_store =
  fixes rep :: "'a \<Rightarrow> 's \<Rightarrow> bool"
    and step :: "'r \<Rightarrow> 's \<Rightarrow> bool \<times> 's"
    and spec :: "'r \<Rightarrow> 'a \<Rightarrow> 'a"
    and ok :: "'r \<Rightarrow> 'a \<Rightarrow> bool"
  assumes step_refines: "rep a s \<Longrightarrow> ok r a \<Longrightarrow> \<exists>s'. step r s = (True, s') \<and> rep (spec r a) s'"
begin

lemma history_refines:
  "rep a s \<Longrightarrow> ok_steps ok spec rs a \<Longrightarrow> \<exists>s'. run_steps step rs s = (True, s') \<and> rep (fold spec rs a) s'"
proof (induction rs arbitrary: a s)
  case (Cons r rs)
  then obtain s1 where "step r s = (True, s1)" "rep (spec r a) s1" using step_refines [of a s r] by auto
  then show ?case using Cons.IH [of "spec r a" s1] Cons.prems(2) by simp
qed simp

end

locale observed_store = refined_store rep step spec ok
  for rep :: "'a \<Rightarrow> 's \<Rightarrow> bool" and step :: "'r \<Rightarrow> 's \<Rightarrow> bool \<times> 's"
    and spec :: "'r \<Rightarrow> 'a \<Rightarrow> 'a" and ok :: "'r \<Rightarrow> 'a \<Rightarrow> bool" +
  fixes observe :: "'s \<Rightarrow> 'o option"
    and view :: "'a \<Rightarrow> 'o \<Rightarrow> bool"
    and bounded :: "'a \<Rightarrow> bool"
  assumes observe_view: "rep a s \<Longrightarrow> bounded a \<Longrightarrow> \<exists>out. observe s = Some out \<and> view a out"
begin

lemma history_observed:
  assumes "rep a s" "ok_steps ok spec rs a" "bounded (fold spec rs a)"
  shows "\<exists>s' out. run_steps step rs s = (True, s') \<and> observe s' = Some out \<and> view (fold spec rs a) out"
  using history_refines [OF assms(1,2)] observe_view [OF _ assms(3)] by blast

end

datatype index_request =
    AddLease Lease RelayJob
  | RenewLease Lease RelayJob Lease
  | DropLease LeaseIndexIdentity

definition succeeded :: "(py_error + 'a) \<times> lease_fs \<Rightarrow> bool \<times> lease_fs" where
  "succeeded out = (case out of (Inl _, fs) \<Rightarrow> (False, fs) | (Inr _, fs) \<Rightarrow> (True, fs))"

fun index_step :: "iso_codec \<Rightarrow> index_request \<Rightarrow> lease_fs \<Rightarrow> bool \<times> lease_fs" where
  "index_step codec (AddLease lease job) fs = succeeded (sync_operational_indexes codec lease job None fs)"
| "index_step codec (RenewLease lease job prev) fs =
     succeeded (sync_operational_indexes codec lease job (Some prev) fs)"
| "index_step codec (DropLease i) fs = succeeded (delete_lease_operational_indexes codec i False fs)"

definition identity_of :: "Lease \<Rightarrow> RelayJob \<Rightarrow> LeaseIndexIdentity" where
  "identity_of lease job =
     \<lparr>li_lease_id = le_lease_id lease, li_job_id = le_job_id lease, li_endpoint_id = le_endpoint_id lease,
      li_cluster = rj_cluster job, li_job_kind = rj_kind job, li_expires_at = le_expires_at lease\<rparr>"

fun index_spec :: "index_request \<Rightarrow> LeaseIndexIdentity set \<Rightarrow> LeaseIndexIdentity set" where
  "index_spec (AddLease lease job) L = insert (identity_of lease job) L"
| "index_spec (RenewLease lease job prev) L = insert (identity_of lease job) (L - {identity_of prev job})"
| "index_spec (DropLease i) L = L - {i}"

fun index_ok :: "iso_codec \<Rightarrow> index_request \<Rightarrow> LeaseIndexIdentity set \<Rightarrow> bool" where
  "index_ok codec (AddLease lease job) L \<longleftrightarrow>
     le_job_id lease = rj_job_id job \<and> wf_identity codec (identity_of lease job)
     \<and> lease_token (identity_of lease job) \<notin> lease_token ` L"
| "index_ok codec (RenewLease lease job prev) L \<longleftrightarrow>
     le_job_id lease = rj_job_id job \<and> wf_identity codec (identity_of lease job)
     \<and> le_lease_id lease = le_lease_id prev \<and> le_job_id lease = le_job_id prev
     \<and> le_endpoint_id lease = le_endpoint_id prev \<and> identity_of prev job \<in> L"
| "index_ok codec (DropLease i) L \<longleftrightarrow> i \<in> L"

definition index_scans :: "lease_fs \<Rightarrow> (LeaseExpiryReference list \<times> (string \<times> string) list) option" where
  "index_scans fs =
     (case (fst (scan_expiry_refs MAX_LIVE_LEASE_RECORDS fs),
            fst (scan_lease_identity_refs MAX_LIVE_LEASE_RECORDS fs)) of
        (Inr (refs, False), Inr (ids, False)) \<Rightarrow> Some (refs, ids)
      | _ \<Rightarrow> None)"

definition scans_of :: "LeaseIndexIdentity set \<Rightarrow> LeaseExpiryReference list \<times> (string \<times> string) list \<Rightarrow> bool" where
  "scans_of L out \<longleftrightarrow>
     set (fst out) = expiry_ref ` L \<and> length (fst out) = card L \<and> sorted (map expiry_sort_key (fst out))
     \<and> set (snd out) = lease_reference ` L \<and> length (snd out) = card L \<and> sorted (snd out)"

lemma lease_index_identity_eq:
  assumes "le_job_id lease = rj_job_id job" "wf_identity codec (identity_of lease job)"
  shows "lease_index_identity lease job = Inr (identity_of lease job)"
  using assms
  by (simp add: lease_index_identity_def identity_of_def wf_identity_def rbind_eq_Inr
      require_durable_record_id_Inr [THEN iffD2])

interpretation lease_index: observed_store "represents codec" "index_step codec" index_spec "index_ok codec"
  index_scans scans_of "\<lambda>L. int (card L) \<le> MAX_LIVE_LEASE_RECORDS"
proof
  fix L fs r assume rep: "represents codec L fs" and ok: "index_ok codec r L"
  show "\<exists>s'. index_step codec r fs = (True, s') \<and> represents codec (index_spec r L) s'"
  proof (cases r)
    case (AddLease lease job)
    then have "lease_token (identity_of lease job) \<notin> lease_token ` (L - {identity_of lease job})"
      using ok by auto
    with AddLease show ?thesis
      using sync_new [OF rep lease_index_identity_eq, of lease job codec] ok
      by (auto simp: succeeded_def)
  next
    case (RenewLease lease job prev)
    then have "wf_identity codec (identity_of prev job)" using rep ok by (simp add: represents_def)
    then show ?thesis
      using sync_renew [OF rep lease_index_identity_eq _ lease_index_identity_eq, of lease job codec prev codec]
        ok RenewLease by (auto simp: succeeded_def)
  next
    case (DropLease i)
    then show ?thesis using delete_indexes [OF rep, of i False] ok by (auto simp: succeeded_def)
  qed
next
  fix L fs assume rep: "represents codec L fs" and small: "int (card L) \<le> MAX_LIVE_LEASE_RECORDS"
  have bound: "0 \<le> MAX_LIVE_LEASE_RECORDS" "1 \<le> MAX_LIVE_LEASE_RECORDS"
    by (simp_all add: MAX_LIVE_LEASE_RECORDS_def MAX_ACTIVE_JOB_RECORDS_def)
  from rep bound(1) obtain refs where
    "scan_expiry_refs MAX_LIVE_LEASE_RECORDS fs = (Inr (refs, MAX_LIVE_LEASE_RECORDS < int (card L)), fs)"
    "sorted (map expiry_sort_key refs)" "set refs = expiry_ref ` L \<and> length refs = card L"
    by (rule scan_expiry_exact) (use small in blast)
  moreover from rep bound(2) obtain ids where
    "scan_lease_identity_refs MAX_LIVE_LEASE_RECORDS fs = (Inr (ids, MAX_LIVE_LEASE_RECORDS < int (card L)), fs)"
    "sorted ids" "set ids = lease_reference ` L \<and> length ids = card L"
    by (rule scan_identity_exact) (use small in blast)
  ultimately show "\<exists>out. index_scans fs = Some out \<and> scans_of L out"
    using small by (simp add: index_scans_def scans_of_def)
qed

lemma index_histories:
  assumes "ok_steps (index_ok codec) index_spec rs {}"
    and "int (card (fold index_spec rs {})) \<le> MAX_LIVE_LEASE_RECORDS"
  shows "\<exists>fs out. run_steps (index_step codec) rs [([], LDir)] = (True, fs)
    \<and> index_scans fs = Some out \<and> scans_of (fold index_spec rs {}) out"
  using lease_index.history_observed [OF represents_empty assms] .

text \<open>
  C22: the operational indexes implement the set of live leases. From an empty queue root, every
  admissible history of acquisitions, renewals and deletions succeeds, and the bounded expiry and
  identity scans then return exactly the references of the live identities, each once, in
  order: nothing stale, nothing missing. A request is admissible when the identity fits its
  records, a new lease has an unused index token, and a renewal or deletion names a live lease.
\<close>

theorem lease_index_history_exact:
  assumes "ok_steps (index_ok codec) index_spec rs {}"
    and "int (card (fold index_spec rs {})) \<le> MAX_LIVE_LEASE_RECORDS"
  shows "\<exists>fs refs ids. run_steps (index_step codec) rs [([], LDir)] = (True, fs)
    \<and> fst (scan_expiry_refs MAX_LIVE_LEASE_RECORDS fs) = Inr (refs, False)
    \<and> set refs = expiry_ref ` fold index_spec rs {} \<and> length refs = card (fold index_spec rs {})
    \<and> sorted (map expiry_sort_key refs)
    \<and> fst (scan_lease_identity_refs MAX_LIVE_LEASE_RECORDS fs) = Inr (ids, False)
    \<and> set ids = lease_reference ` fold index_spec rs {} \<and> length ids = card (fold index_spec rs {})
    \<and> sorted ids"
proof -
  obtain fs out where run: "run_steps (index_step codec) rs [([], LDir)] = (True, fs)"
    and out: "index_scans fs = Some out" "scans_of (fold index_spec rs {}) out"
    using index_histories [OF assms] by blast
  have "fst (scan_expiry_refs MAX_LIVE_LEASE_RECORDS fs) = Inr (fst out, False)
      \<and> fst (scan_lease_identity_refs MAX_LIVE_LEASE_RECORDS fs) = Inr (snd out, False)"
    using out(1) by (auto simp: index_scans_def split: sum.splits prod.splits bool.splits)
  then show ?thesis using run out(2) unfolding scans_of_def by blast
qed

lemma json_quote_length: "length (json_quote s) \<le> 6 * length s + 2"
proof -
  have "length (json_escape_char c) \<le> 6" for c by (simp add: json_escape_char_def Let_def)
  then have "sum_list (map (length \<circ> json_escape_char) s) \<le> 6 * length s"
    by (induction s) (auto simp: add_mono intro: order_trans)
  then show ?thesis by (simp add: json_quote_def length_concat comp_def)
qed

lemma document_length:
  "length (dumps_plain (lease_index_document f i)) \<le>
     6 * (length (li_lease_id i) + length (li_job_id i) + length (li_endpoint_id i) + length (li_cluster i)
       + length (f (li_expires_at i))) + 1000"
proof -
  have "length (JobKind_value (li_job_kind i)) \<le> 12" by (cases "li_job_kind i") simp_all
  then show ?thesis
    using json_quote_length [of "''schema_version''"] json_quote_length [of "''lease_id''"]
      json_quote_length [of "''job_id''"] json_quote_length [of "''endpoint_id''"]
      json_quote_length [of "''cluster''"] json_quote_length [of "''job_kind''"]
      json_quote_length [of "''expires_at''"] json_quote_length [of LEASE_OPERATIONAL_INDEX_SCHEMA]
      json_quote_length [of "li_lease_id i"] json_quote_length [of "li_job_id i"]
      json_quote_length [of "li_endpoint_id i"] json_quote_length [of "li_cluster i"]
      json_quote_length [of "JobKind_value (li_job_kind i)"] json_quote_length [of "f (li_expires_at i)"]
    by (simp add: lease_index_document_def LEASE_OPERATIONAL_INDEX_SCHEMA_def)
qed

definition demo_codec :: iso_codec where
  "demo_codec =
     \<lparr>iso_format = (\<lambda>t. if t = 300000000 then ''1970-01-01T00:05:00+00:00'' else ''1970-01-01T00:06:00+00:00''),
      iso_parse = (\<lambda>s. if s = ''1970-01-01T00:05:00+00:00'' then Some (Some 300000000)
                        else Some (Some 360000000))\<rparr>"

definition demo_lease :: "timestamp \<Rightarrow> Lease" where
  "demo_lease now = Lease_new now ''lease_a'' ''job_a'' ''worker_a'' 300"

lemma demo_lease_wf:
  assumes "now \<in> {0, 60000000}"
  shows "wf_identity demo_codec (identity_of (demo_lease now) demo_owned_job)"
proof -
  let ?i = "identity_of (demo_lease now) demo_owned_job"
  have "durable_id ''lease_a''" "durable_id ''job_a''" "durable_id ''worker_a''" by code_simp+
  moreover have "length (dumps_plain (lease_index_document (iso_format demo_codec) ?i)) \<le> 65536"
    using document_length [of "iso_format demo_codec" ?i]
    by (simp add: identity_of_def demo_lease_def Lease_new_def demo_owned_job_def demo_codec_def split: if_splits)
  moreover have "iso_parse demo_codec (iso_format demo_codec (li_expires_at ?i)) = Some (Some (li_expires_at ?i))"
    using assms by (auto simp: identity_of_def demo_lease_def Lease_new_def demo_codec_def)
  ultimately show ?thesis
    using assms by (auto simp: wf_identity_def identity_of_def demo_lease_def Lease_new_def
        demo_owned_job_def LEASE_INDEX_MAX_BYTES_def)
qed

lemma demo_lease_fields [simp]:
  "le_lease_id (demo_lease now) = ''lease_a''" "le_job_id (demo_lease now) = ''job_a''"
  "le_endpoint_id (demo_lease now) = ''worker_a''" "rj_job_id demo_owned_job = ''job_a''"
  by (simp_all add: demo_lease_def Lease_new_def demo_owned_job_def)

theorem lease_index_history_exact_witness:
  "\<exists>fs refs. run_steps (index_step demo_codec)
      [AddLease (demo_lease 0) demo_owned_job, RenewLease (demo_lease 60000000) demo_owned_job (demo_lease 0)]
      [([], LDir)] = (True, fs)
    \<and> fst (scan_expiry_refs MAX_LIVE_LEASE_RECORDS fs) = Inr (refs, False)
    \<and> set refs = {expiry_ref (identity_of (demo_lease 60000000) demo_owned_job)} \<and> length refs = 1"
proof -
  let ?rs = "[AddLease (demo_lease 0) demo_owned_job, RenewLease (demo_lease 60000000) demo_owned_job (demo_lease 0)]"
  let ?i = "\<lambda>now. identity_of (demo_lease now) demo_owned_job"
  have spec: "fold index_spec ?rs {} = {?i 60000000}" by simp
  have "ok_steps (index_ok demo_codec) index_spec ?rs {}"
    using demo_lease_wf by simp
  from lease_index_history_exact [OF this] spec show ?thesis
    by (force simp: MAX_LIVE_LEASE_RECORDS_def MAX_ACTIVE_JOB_RECORDS_def)
qed

text \<open>
  One endpoint shard lists the endpoint's live leases. When the tree holds exactly the
  indexes of the live leases \<open>L\<close>, the scan that reads only the shard of endpoint \<open>e\<close> and checks
  every reference against its guard returns, untruncated and in order, the references of the
  leases of \<open>L\<close> held under \<open>e\<close>'s token, each once, and changes nothing.
\<close>

theorem endpoint_scan_exact:
  assumes "represents codec L fs" and "1 \<le> limit"
    and "int (card {i \<in> L. lease_endpoint_token (li_endpoint_id i) = lease_endpoint_token e}) \<le> limit"
  shows "\<exists>refs. scan_lease_endpoint_refs e limit fs = (Inr (refs, False), fs) \<and> sorted refs
    \<and> set refs = lease_reference ` {i \<in> L. lease_endpoint_token (li_endpoint_id i) = lease_endpoint_token e}
    \<and> length refs = card {i \<in> L. lease_endpoint_token (li_endpoint_id i) = lease_endpoint_token e}"
proof -
  from assms(1,2) refl assms(3) obtain refs where "scan_lease_endpoint_refs e limit fs = (Inr (refs, False), fs)"
    "sorted refs"
    "set refs = lease_reference ` {i \<in> L. lease_endpoint_token (li_endpoint_id i) = lease_endpoint_token e}"
    "length refs = card {i \<in> L. lease_endpoint_token (li_endpoint_id i) = lease_endpoint_token e}"
    by (rule scan_endpoint_exact)
  then show ?thesis by blast
qed

lemma demo_represents:
  "\<exists>fs. represents demo_codec {identity_of (demo_lease 0) demo_owned_job} fs"
  using sync_new [OF represents_empty lease_index_identity_eq, of "demo_lease 0" demo_owned_job demo_codec demo_codec]
    demo_lease_wf [of 0] by auto

theorem endpoint_scan_exact_witness:
  "\<exists>fs refs. scan_lease_endpoint_refs ''worker_a'' 1 fs = (Inr (refs, False), fs)
    \<and> set refs = {lease_reference (identity_of (demo_lease 0) demo_owned_job)}"
proof -
  let ?i = "identity_of (demo_lease 0) demo_owned_job"
  obtain fs where fs: "represents demo_codec {?i} fs" using demo_represents by blast
  have "li_endpoint_id ?i = ''worker_a''" by (simp add: identity_of_def)
  then have "{i \<in> {?i}. lease_endpoint_token (li_endpoint_id i) = lease_endpoint_token ''worker_a''} = {?i}"
    by auto
  with endpoint_scan_exact [OF fs, of 1 "''worker_a''"] show ?thesis by auto
qed

text \<open>
  Deletion never removes another lease's manifest. When the manifest at the lease's index
  path belongs to a different identity of the same lease (a renewal moved it on), deleting the
  stale identity is refused with a conflict and leaves the tree as it was; with
  \<^verbatim>\<open>allow_foreign_manifest\<close> it removes only the stale identity's own references and keeps the
  manifest readable.
\<close>

theorem foreign_manifest_kept:
  assumes "represents codec L fs" and "j \<in> L" and "li_lease_id i = li_lease_id j" and "i \<noteq> j"
  shows "delete_lease_operational_indexes codec i False fs =
      (Inl (QueueConflictError (''lease operational index token is occupied: '' @ li_lease_id i)), fs)
    \<and> (\<exists>fs'. delete_lease_operational_indexes codec i True fs = (Inr (), fs')
        \<and> file_view fs' = (\<lambda>p. if p \<in> set (lease_ref_paths i) then None else file_view fs p)
        \<and> read_lease_index_identity codec (li_lease_id i) fs' = (Inr j, fs'))"
proof -
  let ?p = "lease_index_path (li_lease_id i)"
  have fs: "fs_ok fs" and wf: "wf_identity codec j" using assms by (simp_all add: represents_def)
  have man: "file_view fs ?p = Some (LDoc (lease_index_document (iso_format codec) j))"
    using represents_manifest [OF assms(1,2)] assms(3) by simp
  obtain b where 0: "require_safe_lease_index_directory False (butlast ?p) fs = (Inr b, fs)"
    using require_safe_checks [OF fs] lease_paths_are_files(1) [of "li_lease_id i"] by (auto simp: index_file_def)
  have read: "read_lease_index_identity_by_token codec (lease_token i) None fs = (Inr j, fs)"
    using read_manifest [OF fs wf] man assms(3) by simp
  have refused: "delete_lease_operational_indexes codec i False fs =
      (Inl (QueueConflictError (''lease operational index token is occupied: '' @ li_lease_id i)), fs)"
    using 0 read man assms(4) by (simp add: delete_lease_operational_indexes_def mbind_app Let_def)
  obtain fs1 where 1: "mseq delete_ref (lease_ref_paths i) fs = (Inr (), fs1)" "fs_ok fs1"
    "file_view fs1 = (\<lambda>p. if p \<in> set (lease_ref_paths i) then None else file_view fs p)"
    using delete_refs_ok [OF fs lease_paths_are_files(2)] by blast
  obtain fs2 where 2: "remove_empty_directory (lease_endpoint_directory (li_endpoint_id i)) fs1 = (Inr (), fs2)"
    "fs_ok fs2" "file_view fs2 = file_view fs1"
    using remove_empty_directory_ok [OF 1(2) endpoint_directory_ok] by blast
  have "file_view fs2 ?p = Some (LDoc (lease_index_document (iso_format codec) j))"
    using man 1(3) 2(3) index_path_not_ref by simp
  then have "read_lease_index_identity_by_token codec (lease_token i) None fs2 = (Inr j, fs2)"
    using read_manifest [OF 2(2) wf] assms(3) by simp
  then have "read_lease_index_identity codec (li_lease_id i) fs2 = (Inr j, fs2)"
    using assms(3) by (simp add: read_lease_index_identity_def mbind_app)
  moreover have "delete_lease_operational_indexes codec i True fs = (Inr (), fs2)"
    using 0 read 1(1) 2(1) man assms(4)
    by (simp add: delete_lease_operational_indexes_def mbind_app Let_def del: mseq.simps)
  ultimately show ?thesis using refused 1(3) 2(3) by auto
qed

theorem foreign_manifest_kept_witness:
  "\<exists>fs. delete_lease_operational_indexes demo_codec (identity_of (demo_lease 60000000) demo_owned_job) False fs =
     (Inl (QueueConflictError ''lease operational index token is occupied: lease_a''), fs)"
proof -
  obtain fs where fs: "represents demo_codec {identity_of (demo_lease 0) demo_owned_job} fs"
    using demo_represents by blast
  have "identity_of (demo_lease 60000000) demo_owned_job \<noteq> identity_of (demo_lease 0) demo_owned_job"
    by (simp add: identity_of_def demo_lease_def Lease_new_def)
  with foreign_manifest_kept [OF fs, of _ "identity_of (demo_lease 60000000) demo_owned_job"] show ?thesis
    by (auto simp: identity_of_def)
qed

end
