(* ===== verification/QueueStore.thy ===== *)
theory QueueStore
  imports LeaseIndexes WorkerConcurrency
begin

text \<open>
  The durable store the queue operations share, and the operations on it that are not about
  leases: canonical job records with their derived indexes (\<^verbatim>\<open>queue_jobs.py\<close>), the write-ahead
  intents (\<^verbatim>\<open>core_queue.py\<close>), job events (\<^verbatim>\<open>queue_events.py\<close>) and the per-job index document
  (\<^verbatim>\<open>queue_order_index.py\<close>).

  A record family is an association list from file name (without \<^verbatim>\<open>.json\<close>) to record, in the order
  a directory scan returns it. Every replacement and every unlink is one durable step. The state
  carries a budget of durable steps: \<open>None\<close> is an uninterrupted run, and when \<open>Some 0\<close> is reached
  the next step raises \<open>Crashed\<close> instead of happening, which no code catches: the process died there.
  Directory creation is part of the write that needs it.

  The families this library does not describe yet (owner-session membership, scheduler and
  gateway references, execution cleanup, the migration state) are the field
  \<open>qs_other\<close> of an arbitrary type, and the calls into them are the operations of a \<open>queue_env\<close>, each
  one durable step. The wall clock and \<^verbatim>\<open>uuid4\<close> are functions of the number of readings taken.
\<close>

datatype queue_exn = Raised py_error | Crashed

text \<open>
  The write-ahead intents of \<^verbatim>\<open>transition_intents\<close>, one constructor per kind with its payload; the
  payload's pydantic documents are the records themselves. \<open>BadIntent\<close> is a file the journal reader
  refuses, with the error it raises.
\<close>

datatype queue_intent =
    LeaseAcquireIntent string Lease RelayJob RelayJob string "json option"
  | LeaseSyncIntent Lease Lease RelayJob "json option"
  | LeaseDeleteIntent string string "Lease option" "json option" "json option"
  | StaleRecoveryIntent string RelayJob RelayJob "Lease list" RelayEvent "json option"
  | JobSyncIntent string
  | OtherIntent string json
  | BadIntent py_error

record 'x queue_state =
  qs_jobs :: "(string \<times> RelayJob) list"
  qs_active :: "(string \<times> RelayJob) list"
  qs_queued :: "(string \<times> RelayJob) list"
  qs_leases :: "(string \<times> Lease) list"
  qs_job_leases :: "((string \<times> string) \<times> Lease) list"
  qs_index :: lease_fs
  qs_capacity :: capacity_files
  qs_intents :: "(string \<times> queue_intent) list"
  qs_events :: "((string \<times> int) \<times> RelayEvent) list"
  qs_job_indexes :: "(string \<times> json) list"
  qs_docs :: "((string \<times> string) \<times> json) list"
  qs_other :: 'x
  qs_draws :: nat
  qs_budget :: "nat option"

type_synonym ('x, 'a) queue_op = "('x queue_state, queue_exn, 'a) op"

record 'x queue_env =
  qe_codec :: iso_codec
  qe_clock :: "nat \<Rightarrow> timestamp"
  qe_uuid :: "nat \<Rightarrow> string"
  qe_initialize :: "('x, py_error, unit) op"
  qe_require_migrated :: "'x \<Rightarrow> py_error + unit"
  qe_capacity_migrated :: "'x \<Rightarrow> py_error + bool"
  qe_migrate_cleanup :: "string \<Rightarrow> string \<Rightarrow> ('x, py_error, unit) op"
  qe_pending_cleanup :: "string \<Rightarrow> string \<Rightarrow> 'x \<Rightarrow> bool"
  qe_sync_membership :: "RelayJob \<Rightarrow> ('x, py_error, unit) op"
  qe_sync_scheduler :: "string \<Rightarrow> (string \<times> json) list \<Rightarrow> ('x, py_error, unit) op"
  qe_scheduler_refs :: "string \<Rightarrow> 'x \<Rightarrow> py_error + bool"
  qe_replay_other :: "string \<Rightarrow> json \<Rightarrow> ('x queue_state, queue_exn, unit) op"

section \<open>Steps\<close>

definition qlift :: "py_error + 'a \<Rightarrow> ('x, 'a) queue_op" where
  "qlift r = mlift (case r of Inl e \<Rightarrow> Inl (Raised e) | Inr x \<Rightarrow> Inr x)"

abbreviation qraise :: "py_error \<Rightarrow> ('x, 'a) queue_op" where
  "qraise e \<equiv> mraise (Raised e)"

abbreviation conflict :: "string \<Rightarrow> ('x, 'a) queue_op" where
  "conflict m \<equiv> mraise (Raised (QueueConflictError m))"

abbreviation qcheck :: "bool \<Rightarrow> py_error \<Rightarrow> ('x, unit) queue_op" where
  "qcheck ok e \<equiv> mcheck ok (Raised e)"

definition tick :: "('x, unit) queue_op" where
  "tick = (\<lambda>s. case qs_budget s of
       None \<Rightarrow> (Inr (), s)
     | Some 0 \<Rightarrow> (Inl Crashed, s)
     | Some (Suc n) \<Rightarrow> (Inr (), s\<lparr>qs_budget := Some n\<rparr>))"

definition durable :: "('x queue_state \<Rightarrow> 'x queue_state) \<Rightarrow> ('x, unit) queue_op" where
  "durable f = mbind tick (\<lambda>_. mupd f)"

text \<open>Code over one part of the store, run on the whole; the second form is one durable step.\<close>

definition on_part ::
  "('x queue_state \<Rightarrow> 'p) \<Rightarrow> ('p \<Rightarrow> 'x queue_state \<Rightarrow> 'x queue_state) \<Rightarrow> ('p, py_error, 'a) op
     \<Rightarrow> ('x, 'a) queue_op" where
  "on_part get put m = (\<lambda>s. case m (get s) of
       (Inl e, p) \<Rightarrow> (Inl (Raised e), put p s)
     | (Inr x, p) \<Rightarrow> (Inr x, put p s))"

abbreviation read_index :: "'a index_op \<Rightarrow> ('x, 'a) queue_op" where
  "read_index \<equiv> on_part qs_index (\<lambda>p. qs_index_update (\<lambda>_. p))"

abbreviation read_capacity :: "'a capacity_op \<Rightarrow> ('x, 'a) queue_op" where
  "read_capacity \<equiv> on_part qs_capacity (\<lambda>p. qs_capacity_update (\<lambda>_. p))"

abbreviation read_other :: "('x, py_error, 'a) op \<Rightarrow> ('x, 'a) queue_op" where
  "read_other \<equiv> on_part qs_other (\<lambda>p. qs_other_update (\<lambda>_. p))"

definition on_index :: "'a index_op \<Rightarrow> ('x, 'a) queue_op" where
  "on_index m = mbind tick (\<lambda>_. read_index m)"

definition on_capacity :: "'a capacity_op \<Rightarrow> ('x, 'a) queue_op" where
  "on_capacity m = mbind tick (\<lambda>_. read_capacity m)"

definition on_other :: "('x, py_error, 'a) op \<Rightarrow> ('x, 'a) queue_op" where
  "on_other m = mbind tick (\<lambda>_. read_other m)"

fun mmap :: "('a \<Rightarrow> ('s, 'e, 'b) op) \<Rightarrow> 'a list \<Rightarrow> ('s, 'e, 'b list) op" where
  "mmap f [] = mret []"
| "mmap f (x # xs) = mbind (f x) (\<lambda>y. mbind (mmap f xs) (\<lambda>ys. mret (y # ys)))"

text \<open>\<^verbatim>\<open>utc_now()\<close>, \<^verbatim>\<open>uuid4().hex\<close> and \<^verbatim>\<open>new_id(prefix)\<close>\<close>

definition utc_now :: "'x queue_env \<Rightarrow> ('x, timestamp) queue_op" where
  "utc_now env = (\<lambda>s. (Inr (qe_clock env (qs_draws s)), s\<lparr>qs_draws := Suc (qs_draws s)\<rparr>))"

definition uuid4_hex :: "'x queue_env \<Rightarrow> ('x, string) queue_op" where
  "uuid4_hex env = (\<lambda>s. (Inr (qe_uuid env (qs_draws s)), s\<lparr>qs_draws := Suc (qs_draws s)\<rparr>))"

definition new_id :: "'x queue_env \<Rightarrow> string \<Rightarrow> ('x, string) queue_op" where
  "new_id env prefix =
     mbind (uuid4_hex env) (\<lambda>u. qlift (validate_durable_record_id (JStr (prefix @ ''_'' @ u))))"

section \<open>Record families\<close>

definition record_path :: "string \<Rightarrow> string \<Rightarrow> string" where
  "record_path family name = family @ ''/'' @ name @ ''.json''"

text \<open>\<^verbatim>\<open>read_optional\<close> of a family whose file name is bound to the record's identity\<close>

definition read_bound :: "('a \<Rightarrow> string) \<Rightarrow> string \<Rightarrow> string \<Rightarrow> (string \<times> 'a) list \<Rightarrow> string \<Rightarrow> py_error + 'a option" where
  "read_bound identity family label entries name =
     (case map_of entries name of
        None \<Rightarrow> Inr None
      | Some record \<Rightarrow>
          if validate_durable_record_id (JStr name) \<noteq> Inr name
          then Inl (QueueConflictError (''canonical '' @ label @ '' filename identity is invalid: ''
                 @ record_path family name))
          else if identity record \<noteq> name
          then Inl (QueueConflictError (''canonical '' @ label @ '' identity mismatch: ''
                 @ record_path family name))
          else Inr (Some record))"

definition read_optional_job :: "string \<Rightarrow> ('x, RelayJob option) queue_op" where
  "read_optional_job job_id =
     mbind mget (\<lambda>s. qlift (read_bound rj_job_id ''jobs'' ''job'' (qs_jobs s) job_id))"

definition read_optional_lease :: "string \<Rightarrow> ('x, Lease option) queue_op" where
  "read_optional_lease lease_id =
     mbind mget (\<lambda>s. qlift (read_bound le_lease_id ''leases'' ''lease'' (qs_leases s) lease_id))"

definition get_job :: "string \<Rightarrow> ('x, RelayJob) queue_op" where
  "get_job job_id =
     mbind (qlift (require_durable_record_id job_id ''job_id'')) (\<lambda>job_id.
     mbind (read_optional_job job_id) (\<lambda>job.
       case job of
         None \<Rightarrow> qraise (NotFoundError (''job not found: '' @ job_id))
       | Some j \<Rightarrow>
           mbind (qcheck (rj_job_id j = job_id)
             (QueueConflictError (''canonical job identity mismatch: '' @ record_path ''jobs'' job_id)))
             (\<lambda>_. mret j)))"

text \<open>
  \<^verbatim>\<open>scan_many\<close>: at most \<open>limit\<close> records of a directory, each bound to its file name, and whether
  there were more.
\<close>

definition scan_many ::
  "('a \<Rightarrow> string) \<Rightarrow> string \<Rightarrow> int \<Rightarrow> (string \<times> 'a) list \<Rightarrow> py_error + 'a list \<times> bool" where
  "scan_many identity label limit entries =
     rbind (check (\<not> limit < 1) (ValueError ''record scan limit must be at least 1'')) (\<lambda>_.
     rbind (rmap (\<lambda>(name, record).
          if identity record \<noteq> name
          then Inl (QueueConflictError (''canonical '' @ label
                 @ '' filename/content identity mismatch: '' @ name @ ''.json''))
          else Inr record) (take (nat limit) entries)) (\<lambda>records.
     Inr (records, limit < int (length entries))))"

definition read_many :: "('a \<Rightarrow> string) \<Rightarrow> string \<Rightarrow> int \<Rightarrow> (string \<times> 'a) list \<Rightarrow> py_error + 'a list" where
  "read_many identity label bound entries =
     (if bound < int (length entries)
      then Inl (QueueConflictError (''canonical record family exceeds the bounded read limit of ''
             @ int_str bound))
      else rmap (\<lambda>(name, record).
          if identity record \<noteq> name
          then Inl (QueueConflictError (''canonical '' @ label
                 @ '' filename/content identity mismatch: '' @ name @ ''.json''))
          else Inr record) entries)"

definition write_job_record :: "RelayJob \<Rightarrow> ('x, unit) queue_op" where
  "write_job_record job = durable (qs_jobs_update (AList.update (rj_job_id job) job))"

definition write_active :: "RelayJob \<Rightarrow> ('x, unit) queue_op" where
  "write_active job = durable (qs_active_update (AList.update (rj_job_id job) job))"

definition write_queued :: "RelayJob \<Rightarrow> ('x, unit) queue_op" where
  "write_queued job = durable (qs_queued_update (AList.update (rj_job_id job) job))"

definition unlink_active :: "string \<Rightarrow> ('x, unit) queue_op" where
  "unlink_active job_id = durable (qs_active_update (AList.delete job_id))"

definition unlink_queued :: "string \<Rightarrow> ('x, unit) queue_op" where
  "unlink_queued job_id = durable (qs_queued_update (AList.delete job_id))"

text \<open>\<^verbatim>\<open>_job_record_path("leases_by_job", job_id, lease_id)\<close>\<close>

definition job_record_key :: "string \<Rightarrow> string \<Rightarrow> ('x, string \<times> string) queue_op" where
  "job_record_key job_id record_id =
     mbind (qlift (require_durable_record_id job_id ''record_id'')) (\<lambda>j.
     mbind (qlift (require_durable_record_id record_id ''record_id'')) (\<lambda>r. mret (j, r)))"

definition write_lease :: "Lease \<Rightarrow> ('x, unit) queue_op" where
  "write_lease lease = durable (qs_leases_update (AList.update (le_lease_id lease) lease))"

definition write_job_lease :: "Lease \<Rightarrow> ('x, unit) queue_op" where
  "write_job_lease lease =
     mbind (job_record_key (le_job_id lease) (le_lease_id lease)) (\<lambda>key.
     durable (qs_job_leases_update (AList.update key lease)))"

definition unlink_lease :: "string \<Rightarrow> ('x, unit) queue_op" where
  "unlink_lease lease_id = durable (qs_leases_update (AList.delete lease_id))"

definition unlink_job_lease :: "string \<Rightarrow> string \<Rightarrow> ('x, unit) queue_op" where
  "unlink_job_lease job_id lease_id =
     mbind (job_record_key job_id lease_id) (\<lambda>key.
     durable (qs_job_leases_update (AList.delete key)))"

text \<open>The JSON documents of the remaining families, by directory and file name.\<close>

definition read_document :: "string \<Rightarrow> string \<Rightarrow> ('x, json option) queue_op" where
  "read_document dir name = mbind mget (\<lambda>s. mret (map_of (qs_docs s) (dir, name)))"

definition write_document :: "string \<Rightarrow> string \<Rightarrow> (string \<times> json) list \<Rightarrow> ('x, unit) queue_op" where
  "write_document dir name doc = durable (qs_docs_update (AList.update (dir, name) (JObj doc)))"

section \<open>Write-ahead intents\<close>

definition intent_name :: "string \<Rightarrow> string \<Rightarrow> string" where
  "intent_name kind identity = kind @ ''-'' @ stable_ref_token [kind, identity]"

definition write_transition_intent ::
  "'x queue_env \<Rightarrow> string \<Rightarrow> string \<Rightarrow> queue_intent \<Rightarrow> ('x, string) queue_op" where
  "write_transition_intent env kind identity intent =
     mbind (utc_now env) (\<lambda>created_at.
     mbind (durable (qs_intents_update (AList.update (intent_name kind identity) intent))) (\<lambda>_.
     mret (intent_name kind identity)))"

definition unlink_intent :: "string \<Rightarrow> ('x, unit) queue_op" where
  "unlink_intent name = durable (qs_intents_update (AList.delete name))"

section \<open>Jobs\<close>

definition sync_job_derived :: "'x queue_env \<Rightarrow> RelayJob \<Rightarrow> ('x, unit) queue_op" where
  "sync_job_derived env job =
     mbind (on_other (qe_sync_membership env job)) (\<lambda>_.
     mbind (on_other (qe_sync_scheduler env (rj_job_id job) (rj_metadata job))) (\<lambda>_.
     if terminal (rj_state job)
     then mbind (unlink_active (rj_job_id job)) (\<lambda>_. unlink_queued (rj_job_id job))
     else mbind (write_active job) (\<lambda>_.
          if rj_state job = QUEUED then write_queued job else unlink_queued (rj_job_id job))))"

definition write_job :: "'x queue_env \<Rightarrow> RelayJob \<Rightarrow> ('x, unit) queue_op" where
  "write_job env job =
     mbind (on_other (qe_migrate_cleanup env (rj_cluster job) (rj_job_id job))) (\<lambda>_.
     mbind (write_transition_intent env ''job_sync'' (rj_job_id job) (JobSyncIntent (rj_job_id job))) (\<lambda>intent_path.
     mbind (write_job_record job) (\<lambda>_.
     mbind (sync_job_derived env job) (\<lambda>_.
     unlink_intent intent_path))))"

section \<open>Per-job index documents\<close>

definition JOB_INDEX_SCHEMA :: string where "JOB_INDEX_SCHEMA = ''clio-relay.job-index.v1''"
definition RETENTION_INDEX_SCHEMA :: string where
  "RETENTION_INDEX_SCHEMA = ''clio-relay.job-retention-index.v1''"
definition DEFAULT_EXACT_RECORD_LIMIT :: int where "DEFAULT_EXACT_RECORD_LIMIT = 1000"

type_synonym job_index = "(string \<times> json) list"

definition index_integer :: "job_index \<Rightarrow> string \<Rightarrow> py_error + int" where
  "index_integer index fld =
     (case as_int (doc_get index fld) of
        Some n \<Rightarrow> if n < 0 then Inl (QueueConflictError (''invalid job index integer: '' @ fld)) else Inr n
      | None \<Rightarrow> Inl (QueueConflictError (''invalid job index integer: '' @ fld)))"

definition parse_job_index :: "string \<Rightarrow> json \<Rightarrow> py_error + job_index" where
  "parse_job_index job_id raw =
     (let path = record_path ''job_indexes'' job_id in
      case as_obj raw of
        None \<Rightarrow> Inl (QueueConflictError (''job index is not an object: '' @ path))
      | Some index \<Rightarrow>
          if doc_get index ''schema_version'' \<noteq> JStr JOB_INDEX_SCHEMA \<or> doc_get index ''job_id'' \<noteq> JStr job_id
          then Inl (QueueConflictError (''job index identity mismatch: '' @ path))
          else rbind (rall (\<lambda>fld. rbind (index_integer index fld) (\<lambda>_. Inr ()))
                 [''task_count'', ''artifact_count'', ''progress_count'', ''latest_event_seq'']) (\<lambda>_.
               if doc_get index ''latest_progress_id'' \<noteq> JNull
                  \<and> as_str (doc_get index ''latest_progress_id'') = None
               then Inl (QueueConflictError (''invalid latest_progress_id in '' @ path))
               else Inr index))"

definition read_job_index :: "string \<Rightarrow> ('x, job_index option) queue_op" where
  "read_job_index job_id =
     mbind (qlift (require_durable_record_id job_id ''record_id'')) (\<lambda>key.
     mbind mget (\<lambda>s.
       case map_of (qs_job_indexes s) key of
         None \<Rightarrow> mret None
       | Some raw \<Rightarrow> mbind (qlift (parse_job_index job_id raw)) (\<lambda>index. mret (Some index))))"

definition write_job_index :: "string \<Rightarrow> job_index \<Rightarrow> ('x, unit) queue_op" where
  "write_job_index job_id index = durable (qs_job_indexes_update (AList.update job_id (JObj index)))"

definition update_job_index :: "string \<Rightarrow> (string \<times> json) list \<Rightarrow> ('x, unit) queue_op" where
  "update_job_index job_id updates =
     mbind (read_job_index job_id) (\<lambda>index.
       case index of
         None \<Rightarrow> mret ()
       | Some d \<Rightarrow> write_job_index job_id (fold (\<lambda>(k, v). AList.update k v) updates d))"

definition increment_job_index :: "string \<Rightarrow> string \<Rightarrow> (string \<times> json) list \<Rightarrow> ('x, unit) queue_op" where
  "increment_job_index job_id fld updates =
     mbind (read_job_index job_id) (\<lambda>index.
       case index of
         None \<Rightarrow> mret ()
       | Some d \<Rightarrow>
           mbind (qlift (index_integer d fld)) (\<lambda>n.
           write_job_index job_id
             (fold (\<lambda>(k, v). AList.update k v) updates (AList.update fld (JInt (n + 1)) d))))"

definition job_index_exists :: "string \<Rightarrow> ('x, bool) queue_op" where
  "job_index_exists job_id =
     mbind (qlift (require_durable_record_id job_id ''record_id'')) (\<lambda>key.
     mbind mget (\<lambda>s. mret (map_of (qs_job_indexes s) key \<noteq> None)))"

section \<open>Events\<close>

text \<open>
  The probe of \<^verbatim>\<open>_next_event_seq\<close>: the first sequence from \<open>candidate\<close> on whose file is absent, giving
  up past \<open>bound\<close>.
\<close>

function probe_event_seq :: "(int \<Rightarrow> bool) \<Rightarrow> int \<Rightarrow> int \<Rightarrow> int option" where
  "probe_event_seq exists_at bound candidate =
     (if \<not> exists_at candidate then Some candidate
      else if candidate + 1 > bound then None
      else probe_event_seq exists_at bound (candidate + 1))"
  by pat_completeness auto
termination by (relation "measure (\<lambda>(_, bound, candidate). nat (bound - candidate))") auto

declare probe_event_seq.simps [simp del]

definition next_event_seq :: "string \<Rightarrow> ('x, int) queue_op" where
  "next_event_seq job_id =
     mbind (read_job_index job_id) (\<lambda>index.
     mbind mget (\<lambda>s.
       let exists_at = (\<lambda>seq. map_of (qs_events s) (job_id, seq) \<noteq> None) in
       case index of
         Some d \<Rightarrow>
           mbind (qlift (index_integer d ''latest_event_seq'')) (\<lambda>indexed_seq.
             case probe_event_seq exists_at (DEFAULT_EXACT_RECORD_LIMIT + indexed_seq) (indexed_seq + 1) of
               Some seq \<Rightarrow> mret seq
             | None \<Rightarrow> conflict (''event head recovery exceeded bound: '' @ job_id))
       | None \<Rightarrow>
           (case probe_event_seq exists_at DEFAULT_EXACT_RECORD_LIMIT 1 of
              Some seq \<Rightarrow> mret seq
            | None \<Rightarrow> conflict (''legacy event sequence requires index migration: '' @ job_id))))"

definition read_optional_event :: "string \<Rightarrow> int \<Rightarrow> ('x, RelayEvent option) queue_op" where
  "read_optional_event job_id seq =
     mbind mget (\<lambda>s.
       case map_of (qs_events s) (job_id, seq) of
         None \<Rightarrow> mret None
       | Some event \<Rightarrow>
           mbind (qcheck (re_job_id event = job_id \<and> re_seq event = seq)
             (QueueConflictError (''canonical event identity mismatch: ''
                @ record_path (''events/'' @ job_id) (format_020d seq)))) (\<lambda>_. mret (Some event)))"

definition write_event :: "RelayEvent \<Rightarrow> ('x, unit) queue_op" where
  "write_event event = durable (qs_events_update (AList.update (re_job_id event, re_seq event) event))"

definition append_event ::
  "'x queue_env \<Rightarrow> string \<Rightarrow> string \<Rightarrow> string \<Rightarrow> (string \<times> json) list \<Rightarrow> ('x, RelayEvent) queue_op" where
  "append_event env job_id event_type message payload =
     mbind (qlift (require_durable_record_id job_id ''job_id'')) (\<lambda>job_id.
     mbind (next_event_seq job_id) (\<lambda>seq.
     mbind (utc_now env) (\<lambda>created_at.
     let event = \<lparr>re_job_id = job_id, re_seq = seq, re_event_type = event_type, re_message = message,
                  re_level = LevelInfo, re_created_at = created_at, re_payload = payload\<rparr> in
     mbind (write_event event) (\<lambda>_.
     mbind (increment_job_index job_id ''latest_event_seq'' [(''latest_event_seq'', JInt seq)]) (\<lambda>_.
     mret event)))))"

text \<open>The loop of \<^verbatim>\<open>read_event_page\<close>: \<open>n\<close> events may still be read.\<close>

fun read_events_from :: "nat \<Rightarrow> string \<Rightarrow> int \<Rightarrow> ('x, RelayEvent list \<times> int) queue_op" where
  "read_events_from 0 job_id seq = mret ([], seq)"
| "read_events_from (Suc n) job_id seq =
     mbind (read_optional_event job_id seq) (\<lambda>event.
       case event of
         None \<Rightarrow> mret ([], seq)
       | Some e \<Rightarrow>
           mbind (qcheck (re_job_id e = job_id \<and> re_seq e = seq)
             (QueueConflictError (''event filename/content identity mismatch: '' @ job_id))) (\<lambda>_.
           mbind (read_events_from n job_id (seq + 1)) (\<lambda>(es, next). mret (e # es, next))))"

definition read_event_page ::
  "'x queue_env \<Rightarrow> string \<Rightarrow> int \<Rightarrow> int \<Rightarrow> ('x, RelayEvent list \<times> int) queue_op" where
  "read_event_page env job_id next_seq limit =
     mbind (qlift (require_durable_record_id job_id ''job_id'')) (\<lambda>job_id.
     mbind (qcheck (\<not> next_seq < 1)
       (ValueError ''event sequence must be greater than or equal to 1'')) (\<lambda>_.
     mbind (qcheck (\<not> limit < 1)
       (ValueError ''event page limit must be greater than or equal to 1'')) (\<lambda>_.
     mbind (on_other (qe_initialize env)) (\<lambda>_.
     read_events_from (nat limit) job_id next_seq))))"

text \<open>The scan of \<^verbatim>\<open>latest_job_event\<close> for a job without an index document.\<close>

fun scan_event_heads ::
  "nat \<Rightarrow> string \<Rightarrow> int \<Rightarrow> RelayEvent option \<Rightarrow> ('x, RelayEvent option \<times> bool) queue_op" where
  "scan_event_heads 0 job_id seq latest =
     mbind mget (\<lambda>s. mret (latest, map_of (qs_events s) (job_id, seq) \<noteq> None))"
| "scan_event_heads (Suc n) job_id seq latest =
     mbind (read_optional_event job_id seq) (\<lambda>event.
       case event of
         None \<Rightarrow> mret (latest, False)
       | Some e \<Rightarrow>
           mbind (qcheck (re_job_id e = job_id \<and> re_seq e = seq)
             (QueueConflictError (''event filename/content identity mismatch: '' @ job_id)))
             (\<lambda>_. scan_event_heads n job_id (seq + 1) (Some e)))"

definition latest_job_event :: "string \<Rightarrow> ('x, RelayEvent option \<times> bool) queue_op" where
  "latest_job_event job_id =
     mbind (qlift (require_durable_record_id job_id ''job_id'')) (\<lambda>job_id.
     mbind (read_job_index job_id) (\<lambda>index.
       case index of
         Some d \<Rightarrow>
           mbind (qlift (index_integer d ''latest_event_seq'')) (\<lambda>latest_seq.
             if latest_seq = 0 then mret (None, False)
             else mbind (read_optional_event job_id latest_seq) (\<lambda>event.
               case event of
                 None \<Rightarrow> conflict (''event index points to a missing record: '' @ job_id)
               | Some e \<Rightarrow>
                   mbind (qcheck (re_job_id e = job_id \<and> re_seq e = latest_seq)
                     (QueueConflictError (''event index identity mismatch: '' @ job_id)))
                     (\<lambda>_. mret (Some e, False))))
       | None \<Rightarrow> scan_event_heads (nat DEFAULT_EXACT_RECORD_LIMIT) job_id 1 None))"

end
