(* ===== verification/LeaseLifecycle.thy ===== *)
theory LeaseLifecycle
  imports QueueStore
begin

text \<open>
  The lease lifecycle: acquisition, renewal, release, stale recovery and the replay of interrupted
  transitions (\<^verbatim>\<open>queue_leases.py\<close>, \<^verbatim>\<open>queue_lease_recovery.py\<close>, \<^verbatim>\<open>queue_lease_admission.py\<close>,
  \<^verbatim>\<open>queue_transitions.py\<close>). Every operation is the sequence of durable steps the code performs, so a
  budget of steps can stop it anywhere; the fault-injection seams of the code, which do nothing,
  are left out. The queue lock makes each operation atomic towards other processes, so the state
  between two operations is what the next one finds, crashes included.
\<close>

section \<open>Indexes and capacity, step by step\<close>

definition sync_lease_operational_indexes ::
  "'x queue_env \<Rightarrow> Lease \<Rightarrow> RelayJob \<Rightarrow> Lease option \<Rightarrow> ('x, LeaseIndexIdentity) queue_op" where
  "sync_lease_operational_indexes env lease job previous_lease =
     mbind (qlift (lease_index_identity lease job)) (\<lambda>i.
     mbind (case previous_lease of
              None \<Rightarrow> mret ()
            | Some prev \<Rightarrow>
                mbind (qlift (lease_index_identity prev job)) (\<lambda>previous.
                mbind (qcheck (\<not> (li_lease_id previous \<noteq> li_lease_id i \<or> li_job_id previous \<noteq> li_job_id i
                                  \<or> li_endpoint_id previous \<noteq> li_endpoint_id i))
                  (QueueConflictError (''lease renewal changed immutable identity: '' @ li_lease_id i))) (\<lambda>_.
                mseq (\<lambda>p. on_index (remove_stale_ref i p)) (lease_ref_paths previous)))) (\<lambda>_.
     mbind (on_index (write_lease_index_identity (qe_codec env) i)) (\<lambda>_.
     mbind (mseq (\<lambda>p. on_index (write_ref p))
              [lease_identity_ref_path i, lease_endpoint_ref_path i, lease_endpoint_guard_path i,
               lease_cluster_kind_ref_path i, lease_expiry_ref_path i]) (\<lambda>_.
     mret i))))"

definition delete_operational_indexes ::
  "'x queue_env \<Rightarrow> LeaseIndexIdentity \<Rightarrow> bool \<Rightarrow> ('x, unit) queue_op" where
  "delete_operational_indexes env i allow_foreign_manifest =
     (let index_path = lease_index_path (li_lease_id i) in
      mbind (read_index (require_safe_lease_index_directory False (butlast index_path))) (\<lambda>_.
      mbind mget (\<lambda>s.
      mbind (if map_of (qs_index s) index_path = None then mret False
             else mbind (read_index (read_lease_index_identity_by_token (qe_codec env)
                           (lease_index_token (li_lease_id i)) None))
                    (\<lambda>indexed.
                      if indexed = i then mret True
                      else mbind (qcheck allow_foreign_manifest
                             (QueueConflictError (''lease operational index token is occupied: ''
                                @ li_lease_id i))) (\<lambda>_. mret False))) (\<lambda>owns_manifest.
      mbind (mseq (\<lambda>p. on_index (delete_ref p)) (lease_ref_paths i)) (\<lambda>_.
      mbind (on_index (remove_empty_directory (lease_endpoint_directory (li_endpoint_id i)))) (\<lambda>_.
      mbind mget (\<lambda>s'.
        if owns_manifest \<and> map_of (qs_index s') index_path \<noteq> None
        then on_index (LeaseIndexes.unlink_durable_path False index_path)
        else mret ())))))))"

definition prepare_capacity_transition ::
  "'x queue_env \<Rightarrow> scope_deltas \<Rightarrow> bool \<Rightarrow> ('x, json) queue_op" where
  "prepare_capacity_transition env deltas include_rollback =
     mbind (uuid4_hex env) (\<lambda>fresh_after.
     mbind (if include_rollback then uuid4_hex env else mret '''') (\<lambda>fresh_rollback.
     read_capacity (prepare_lease_capacity_transition fresh_after fresh_rollback deltas include_rollback)))"

definition apply_capacity_transition ::
  "json \<Rightarrow> string \<Rightarrow> string \<Rightarrow> ('x, LeaseCapacityPair) queue_op" where
  "apply_capacity_transition transition_value target label =
     mbind (read_capacity (authorize_lease_capacity_transition transition_value target label)) (\<lambda>selected.
     mbind (qlift (validate_lease_capacity_pair selected ''lease capacity write'')) (\<lambda>_.
     mbind (on_capacity (write_aggregate_file (cp_aggregate selected))) (\<lambda>_.
     mbind (on_capacity (write_checkpoint_file (cp_checkpoint selected))) (\<lambda>_.
     mret selected))))"

text \<open>The last lines of every replay branch: converge the capacity pair, then drop the intent.\<close>

definition finish_capacity ::
  "'x queue_env \<Rightarrow> json option \<Rightarrow> string \<Rightarrow> string \<Rightarrow> string \<Rightarrow> ('x, unit) queue_op" where
  "finish_capacity env transition target label missing =
     (case transition of
        Some t \<Rightarrow> mbind (apply_capacity_transition t target label) (\<lambda>_. mret ())
      | None \<Rightarrow>
          mbind mget (\<lambda>s.
          mbind (qlift (qe_capacity_migrated env (qs_other s))) (\<lambda>complete.
          mcheck (\<not> complete) (Raised (QueueConflictError missing)))))"

section \<open>Acquisition\<close>

definition leased :: "RelayJob \<Rightarrow> string \<Rightarrow> timestamp \<Rightarrow> RelayJob" where
  "leased job endpoint_id now =
     job\<lparr>rj_state := LEASED, rj_leased_by := Some endpoint_id, rj_attempts := rj_attempts job + 1,
         rj_updated_at := now\<rparr>"

definition new_lease :: "'x queue_env \<Rightarrow> string \<Rightarrow> string \<Rightarrow> int \<Rightarrow> ('x, Lease) queue_op" where
  "new_lease env job_id endpoint_id ttl_seconds =
     mbind (utc_now env) (\<lambda>now.
     mbind (new_id env ''lease'') (\<lambda>lease_id.
     mret (Lease_new now lease_id job_id endpoint_id ttl_seconds)))"

definition lease_job ::
  "'x queue_env \<Rightarrow> RelayJob \<Rightarrow> string \<Rightarrow> int \<Rightarrow> int option \<Rightarrow> ('x, Lease) queue_op" where
  "lease_job env job endpoint_id ttl_seconds validated_global_total =
     mbind (qcheck (rj_kind job \<noteq> INPUT_INGEST)
       (QueueConflictError ''input ingest jobs are never worker-leased'')) (\<lambda>_.
     mbind (case validated_global_total of
              Some known \<Rightarrow> mret known
            | None \<Rightarrow> mbind (read_capacity (lease_capacity_snapshot (rj_cluster job)))
                       (\<lambda>(_, live). mret live)) (\<lambda>validated.
     mbind (qcheck (\<not> validated \<ge> MAX_LIVE_LEASE_RECORDS)
       (QueueConflictError (''active lease population reached its safety bound of ''
          @ int_str MAX_LIVE_LEASE_RECORDS @ '' records''))) (\<lambda>_.
     mbind (new_lease env (rj_job_id job) endpoint_id ttl_seconds) (\<lambda>lease.
     mbind (utc_now env) (\<lambda>now.
     let leased_job = leased job endpoint_id now in
     mbind (prepare_capacity_transition env [((rj_cluster job, rj_kind job), 1)] True) (\<lambda>transition.
     mbind (write_transition_intent env ''lease_acquire'' (le_lease_id lease)
              (LeaseAcquireIntent (rj_job_id job) lease job leased_job
                 (iso_format (qe_codec env) (rj_updated_at leased_job)) (Some transition))) (\<lambda>intent_path.
     mbind (write_job env leased_job) (\<lambda>_.
     mbind (write_lease lease) (\<lambda>_.
     mbind (write_job_lease lease) (\<lambda>_.
     mbind (sync_lease_operational_indexes env lease leased_job None) (\<lambda>_.
     mbind (apply_capacity_transition transition ''after'' (''lease acquisition '' @ le_lease_id lease)) (\<lambda>_.
     mbind (unlink_intent intent_path) (\<lambda>_.
     mbind (append_event env (rj_job_id job) ''job.leased'' (''Job leased by '' @ endpoint_id)
              [(''lease_id'', JStr (le_lease_id lease))]) (\<lambda>_.
     mret lease))))))))))))))"

text \<open>\<^verbatim>\<open>_reconcile_lease_acquire_intent_unlocked\<close>\<close>

definition reconcile_lease_acquire_intent ::
  "'x queue_env \<Rightarrow> string \<Rightarrow> Lease \<Rightarrow> RelayJob \<Rightarrow> RelayJob \<Rightarrow> string \<Rightarrow> json option \<Rightarrow> ('x, unit) queue_op" where
  "reconcile_lease_acquire_intent env path lease original target target_updated_at transition =
     mbind (qcheck (\<not> (le_job_id lease \<noteq> rj_job_id original \<or> rj_job_id target \<noteq> rj_job_id original
              \<or> rj_cluster target \<noteq> rj_cluster original \<or> rj_kind target \<noteq> rj_kind original
              \<or> rj_state target \<noteq> LEASED \<or> rj_leased_by target \<noteq> Some (le_endpoint_id lease)
              \<or> iso_format (qe_codec env) (rj_updated_at target) \<noteq> target_updated_at))
       (QueueConflictError (''lease acquisition intent identity mismatch: '' @ path))) (\<lambda>_.
     mbind (read_optional_job (le_job_id lease)) (\<lambda>current.
     let target_is_current = (case current of None \<Rightarrow> False | Some c \<Rightarrow>
           iso_format (qe_codec env) (rj_updated_at c) = target_updated_at
           \<and> rj_state c = LEASED \<and> rj_leased_by c = Some (le_endpoint_id lease)) in
     mbind (if target_is_current
            then mbind (write_job_record original) (\<lambda>_. sync_job_derived env original)
            else mret ()) (\<lambda>_.
     mbind (qlift (lease_index_identity lease original)) (\<lambda>i.
     let preserve_acquisition = (case current of None \<Rightarrow> False | Some c \<Rightarrow>
           \<not> target_is_current \<and> rj_state c \<in> {LEASED, RUNNING}
           \<and> rj_leased_by c = Some (le_endpoint_id lease)) in
     mbind (case (preserve_acquisition, current) of
              (True, Some c) \<Rightarrow>
                mbind (write_lease lease) (\<lambda>_.
                mbind (write_job_lease lease) (\<lambda>_.
                mbind (sync_lease_operational_indexes env lease c None) (\<lambda>_. mret ())))
            | _ \<Rightarrow>
                mbind (unlink_lease (le_lease_id lease)) (\<lambda>_.
                mbind (unlink_job_lease (le_job_id lease) (le_lease_id lease)) (\<lambda>_.
                delete_operational_indexes env i True))) (\<lambda>_.
     mbind (finish_capacity env transition (if preserve_acquisition then ''after'' else ''rollback'')
              (''lease acquisition recovery '' @ le_lease_id lease)
              (''lease acquisition intent has no capacity transition: '' @ path)) (\<lambda>_.
     unlink_intent path))))))"

section \<open>Deletion\<close>

definition resolve_lease_identity ::
  "'x queue_env \<Rightarrow> Lease \<Rightarrow> RelayJob option \<Rightarrow> LeaseIndexIdentity option \<Rightarrow> ('x, LeaseIndexIdentity) queue_op" where
  "resolve_lease_identity env lease job identity =
     (case (identity, job) of
        (Some i, _) \<Rightarrow> mret i
      | (None, Some j) \<Rightarrow> qlift (lease_index_identity lease j)
      | (None, None) \<Rightarrow> (\<lambda>s.
          case get_job (le_job_id lease) s of
            (Inl (Raised (NotFoundError m)), s') \<Rightarrow>
              read_index (read_lease_index_identity (qe_codec env) (le_lease_id lease)) s'
          | (Inl e, s') \<Rightarrow> (Inl e, s')
          | (Inr j, s') \<Rightarrow> qlift (lease_index_identity lease j) s'))"

text \<open>
  \<^verbatim>\<open>_delete_lease_unlocked\<close>: under an intent of the caller (\<open>Some path\<close>, not finalized here) or with an
  intent and a capacity transition of its own.
\<close>

definition delete_lease ::
  "'x queue_env \<Rightarrow> Lease \<Rightarrow> RelayJob option \<Rightarrow> string option \<Rightarrow> LeaseIndexIdentity option \<Rightarrow> bool
     \<Rightarrow> ('x, unit) queue_op" where
  "delete_lease env lease job intent_path identity finalize_intent =
     mbind (resolve_lease_identity env lease job identity) (\<lambda>i.
     mbind (qlift (validate_lease_index_identity lease i)) (\<lambda>_.
     mbind mget (\<lambda>s.
     mbind (if map_of (qs_index s) (lease_index_path (le_lease_id lease)) \<noteq> None
            then mbind (read_index (read_lease_index_identity (qe_codec env) (le_lease_id lease))) (\<lambda>indexed.
                   qcheck (indexed = i)
                     (QueueConflictError (''lease operational identity changed before deletion: ''
                        @ le_lease_id lease)))
            else qcheck (intent_path \<noteq> None)
                   (QueueConflictError (''lease operational index is missing before deletion: ''
                      @ le_lease_id lease))) (\<lambda>_.
     mbind (case intent_path of
              Some path \<Rightarrow> mret (path, None)
            | None \<Rightarrow>
                mbind (prepare_capacity_transition env [((li_cluster i, li_job_kind i), - 1)] False) (\<lambda>transition.
                mbind (write_transition_intent env ''lease_delete'' (le_lease_id lease)
                         (LeaseDeleteIntent (le_job_id lease) (le_lease_id lease) (Some lease)
                            (Some (lease_index_document (iso_format (qe_codec env)) i)) (Some transition)))
                  (\<lambda>path. mret (path, Some transition)))) (\<lambda>(owned_intent, transition).
     mbind (unlink_lease (le_lease_id lease)) (\<lambda>_.
     mbind (unlink_job_lease (le_job_id lease) (le_lease_id lease)) (\<lambda>_.
     mbind (delete_operational_indexes env i False) (\<lambda>_.
     if \<not> finalize_intent then mret ()
     else (case transition of
         None \<Rightarrow> conflict (''lease deletion has no capacity transition: '' @ le_lease_id lease)
       | Some t \<Rightarrow>
           mbind (apply_capacity_transition t ''after'' (''lease deletion '' @ le_lease_id lease)) (\<lambda>_.
           unlink_intent owned_intent))))))))))"

section \<open>Stale recovery\<close>

definition RETRY_LIMIT_ERROR :: string where
  "RETRY_LIMIT_ERROR = ''expired lease exceeded retry limit''"

definition recovered :: "RelayJob \<Rightarrow> int \<Rightarrow> timestamp \<Rightarrow> RelayJob" where
  "recovered job max_attempts now =
     (if rj_attempts job \<ge> max_attempts
      then job\<lparr>rj_state := FAILED, rj_leased_by := None, rj_updated_at := now,
               rj_last_error := Some RETRY_LIMIT_ERROR\<rparr>
      else job\<lparr>rj_state := QUEUED, rj_leased_by := None, rj_updated_at := now\<rparr>)"

definition recovery_event_type :: "JobState \<Rightarrow> string" where
  "recovery_event_type state = (if state = FAILED then ''job.failed'' else ''job.requeued'')"

definition recovery_event_message :: "JobState \<Rightarrow> string" where
  "recovery_event_message state =
     (if state = FAILED then ''Job failed after expired lease retry limit''
      else ''Job requeued after expired worker lease'')"

definition recovery_event_payload :: "JobState \<Rightarrow> Lease list \<Rightarrow> JobState \<Rightarrow> (string \<times> json) list" where
  "recovery_event_payload state leases previous =
     [(''state'', JStr (JobState_value state)),
      (''expired_lease_ids'', JArr (map (\<lambda>l. JStr (le_lease_id l)) leases)),
      (''previous_state'', JStr (JobState_value previous))]
     @ (if state = FAILED then [(''error'', JStr RETRY_LIMIT_ERROR)] else [])"

definition write_recovery_event :: "RelayEvent \<Rightarrow> ('x, unit) queue_op" where
  "write_recovery_event event =
     mbind (read_optional_event (re_job_id event) (re_seq event)) (\<lambda>existing.
     mbind (qcheck (existing = None \<or> existing = Some event)
       (QueueConflictError (''stale recovery event sequence changed: '' @ re_job_id event @ ''/''
          @ int_str (re_seq event)))) (\<lambda>_.
     mbind (if existing = None then write_event event else mret ()) (\<lambda>_.
     mbind (read_job_index (re_job_id event)) (\<lambda>index.
       case index of
         None \<Rightarrow> conflict (''stale recovery job index is missing: '' @ re_job_id event)
       | Some d \<Rightarrow>
           mbind (qlift (index_integer d ''latest_event_seq'')) (\<lambda>latest.
             if latest < re_seq event
             then update_job_index (re_job_id event) [(''latest_event_seq'', JInt (re_seq event))]
             else mret ())))))"

text \<open>The condition \<^verbatim>\<open>_apply_stale_lease_recovery_intent_unlocked\<close> puts on an intent's payload.\<close>

definition stale_intent_ok ::
  "string \<Rightarrow> RelayJob \<Rightarrow> RelayJob \<Rightarrow> Lease list \<Rightarrow> RelayEvent \<Rightarrow> bool" where
  "stale_intent_ok job_id original target leases event \<longleftrightarrow>
     job_id = rj_job_id original \<and> rj_job_id target = rj_job_id original
     \<and> rj_cluster target = rj_cluster original \<and> rj_kind target = rj_kind original
     \<and> rj_state original \<in> {LEASED, RUNNING} \<and> rj_state target \<in> {QUEUED, FAILED}
     \<and> rj_leased_by target = None
     \<and> target = (let base = original\<lparr>rj_state := rj_state target, rj_leased_by := None,
                              rj_updated_at := rj_updated_at target\<rparr> in
                 if rj_state target = FAILED then base\<lparr>rj_last_error := Some RETRY_LIMIT_ERROR\<rparr> else base)
     \<and> re_job_id event = rj_job_id original
     \<and> re_event_type event = recovery_event_type (rj_state target)
     \<and> re_message event = recovery_event_message (rj_state target)
     \<and> re_payload event = recovery_event_payload (rj_state target) leases (rj_state original)
     \<and> \<not> re_seq event < 1 \<and> leases \<noteq> [] \<and> distinct (map le_lease_id leases)
     \<and> list_all (\<lambda>l. le_job_id l = rj_job_id original) leases"

text \<open>What one lease of the intent has to look like before the replay changes anything.\<close>

definition check_stale_lease ::
  "'x queue_env \<Rightarrow> RelayJob \<Rightarrow> RelayJob option \<Rightarrow> Lease \<Rightarrow> ('x, unit) queue_op" where
  "check_stale_lease env original current lease =
     mbind (read_optional_lease (le_lease_id lease)) (\<lambda>canonical.
     mbind (qcheck (canonical = None \<or> canonical = Some lease)
       (QueueConflictError (''stale recovery canonical lease changed: '' @ le_lease_id lease))) (\<lambda>_.
     mbind (qcheck (\<not> (canonical = None \<and> current = Some original))
       (QueueConflictError (''stale recovery canonical lease is missing: '' @ le_lease_id lease))) (\<lambda>_.
     mbind mget (\<lambda>s.
       if map_of (qs_index s) (lease_index_path (le_lease_id lease)) \<noteq> None
       then mbind (qlift (lease_index_identity lease original)) (\<lambda>expected.
            mbind (read_index (read_lease_index_identity (qe_codec env) (le_lease_id lease))) (\<lambda>indexed.
            qcheck (indexed = expected)
              (QueueConflictError (''stale recovery lease index changed: '' @ le_lease_id lease))))
       else qcheck (canonical = None)
              (QueueConflictError (''stale recovery lease index is missing: '' @ le_lease_id lease))))))"

definition apply_stale_lease_recovery_intent ::
  "'x queue_env \<Rightarrow> string \<Rightarrow> string \<Rightarrow> RelayJob \<Rightarrow> RelayJob \<Rightarrow> Lease list \<Rightarrow> RelayEvent \<Rightarrow> json option
     \<Rightarrow> ('x, RelayJob) queue_op" where
  "apply_stale_lease_recovery_intent env intent_path job_id original target leases event transition =
     mbind (qcheck (stale_intent_ok job_id original target leases event)
       (QueueConflictError (''stale recovery intent identity mismatch: '' @ intent_path))) (\<lambda>_.
     mbind (read_optional_job (rj_job_id original)) (\<lambda>current.
     mbind (qcheck (current = Some original \<or> current = Some target)
       (QueueConflictError (''stale recovery job changed after intent creation: '' @ rj_job_id original))) (\<lambda>_.
     mbind (mseq (check_stale_lease env original current) leases) (\<lambda>_.
     mbind (write_job env target) (\<lambda>_.
     mbind (write_recovery_event event) (\<lambda>_.
     mbind (mseq (\<lambda>lease.
              mbind (qlift (lease_index_identity lease original)) (\<lambda>i.
              delete_lease env lease (Some original) (Some intent_path) (Some i) False)) leases) (\<lambda>_.
     mbind (finish_capacity env transition ''after'' (''stale lease recovery '' @ rj_job_id original)
              (''stale recovery intent has no capacity transition: '' @ intent_path)) (\<lambda>_.
     mbind (unlink_intent intent_path) (\<lambda>_.
     mret target)))))))))"

definition check_expired_lease_index ::
  "'x queue_env \<Rightarrow> RelayJob \<Rightarrow> Lease \<Rightarrow> ('x, unit) queue_op" where
  "check_expired_lease_index env job lease =
     mbind (qlift (lease_index_identity lease job)) (\<lambda>expected.
     mbind (read_index (read_lease_index_identity (qe_codec env) (le_lease_id lease))) (\<lambda>indexed.
     mbind (qlift (validate_lease_index_identity lease indexed)) (\<lambda>_.
     mbind (qcheck (indexed = expected)
       (QueueConflictError (''stale recovery lease index changed identity: '' @ le_lease_id lease))) (\<lambda>_.
     mseq (\<lambda>(p, label). read_index (require_empty_lease_ref p label))
       [(lease_identity_ref_path indexed, ''lease identity reference''),
        (lease_endpoint_ref_path indexed, ''lease endpoint reference''),
        (lease_endpoint_guard_path indexed, ''lease endpoint guard''),
        (lease_cluster_kind_ref_path indexed, ''lease cluster-kind reference''),
        (lease_expiry_ref_path indexed, ''lease expiry reference'')]))))"

definition recover_expired_leases ::
  "'x queue_env \<Rightarrow> RelayJob \<Rightarrow> Lease list \<Rightarrow> int \<Rightarrow> ('x, RelayJob) queue_op" where
  "recover_expired_leases env job expired max_attempts =
     mbind (qcheck (expired \<noteq> []) (ValueError ''stale recovery requires at least one expired lease'')) (\<lambda>_.
     mbind (qcheck (rj_state job \<in> {LEASED, RUNNING})
       (QueueConflictError (''job is not recoverable from a worker lease: '' @ rj_job_id job))) (\<lambda>_.
     mbind (utc_now env) (\<lambda>now.
     let updated = recovered job max_attempts now in
     mbind (qcheck (distinct (map le_lease_id expired) \<and> list_all (\<lambda>l. le_job_id l = rj_job_id job) expired)
       (QueueConflictError (''stale recovery lease identity mismatch: '' @ rj_job_id job))) (\<lambda>_.
     mbind (mseq (check_expired_lease_index env job) expired) (\<lambda>_.
     mbind (next_event_seq (rj_job_id job)) (\<lambda>seq.
     mbind (utc_now env) (\<lambda>created_at.
     let event = \<lparr>re_job_id = rj_job_id job, re_seq = seq,
                  re_event_type = recovery_event_type (rj_state updated),
                  re_message = recovery_event_message (rj_state updated),
                  re_level = LevelInfo, re_created_at = created_at,
                  re_payload = recovery_event_payload (rj_state updated) expired (rj_state job)\<rparr>;
         transition_identity = stable_ref_token
           (rj_job_id job # iso_format (qe_codec env) (rj_updated_at updated)
              # sort (map le_lease_id expired)) in
     mbind (prepare_capacity_transition env
              [((rj_cluster job, rj_kind job), - int (length expired))] False) (\<lambda>transition.
     mbind (write_transition_intent env ''stale_lease_recovery'' transition_identity
              (StaleRecoveryIntent (rj_job_id job) job updated expired event (Some transition))) (\<lambda>intent_path.
     apply_stale_lease_recovery_intent env intent_path (rj_job_id job) job updated expired event
       (Some transition))))))))))"

definition job_has_pending_cleanup_after_migration ::
  "'x queue_env \<Rightarrow> string \<Rightarrow> string \<Rightarrow> ('x, bool) queue_op" where
  "job_has_pending_cleanup_after_migration env cluster job_id =
     mbind (on_other (qe_migrate_cleanup env cluster job_id)) (\<lambda>_.
     mbind mget (\<lambda>s. mret (qe_pending_cleanup env cluster job_id (qs_other s))))"

definition job_has_scheduler_observation :: "'x queue_env \<Rightarrow> RelayJob \<Rightarrow> ('x, bool) queue_op" where
  "job_has_scheduler_observation env job =
     mbind (read_job_index (rj_job_id job)) (\<lambda>index.
     mbind (qcheck (case index of None \<Rightarrow> False
                     | Some d \<Rightarrow> doc_get d ''retention_schema_version'' = JStr RETENTION_INDEX_SCHEMA)
       (QueueConflictError (''scheduler observation index is unavailable for job: '' @ rj_job_id job))) (\<lambda>_.
     mbind mget (\<lambda>s. qlift (qe_scheduler_refs env (rj_job_id job) (qs_other s)))))"

text \<open>One reference of the expiry scan, as \<^verbatim>\<open>_due_expired_leases_unlocked\<close> resolves it.\<close>

definition due_lease ::
  "'x queue_env \<Rightarrow> string \<Rightarrow> timestamp \<Rightarrow> LeaseExpiryReference \<Rightarrow> ('x, Lease list) queue_op" where
  "due_lease env cluster now ref =
     (case ref of (expires_key, indexed_cluster, kind, endpoint_token, job_token, lease_token, identity_token) \<Rightarrow>
        if indexed_cluster \<noteq> lease_cluster_token cluster \<or> expires_key > lease_expiry_key now then mret []
        else
          mbind (read_index (read_lease_index_identity_by_token (qe_codec env) lease_token
                   (Some identity_token))) (\<lambda>i.
          mbind (read_optional_lease (li_lease_id i)) (\<lambda>lease.
            case lease of
              None \<Rightarrow> conflict (''lease expiry index is orphaned: '' @ li_lease_id i)
            | Some l \<Rightarrow>
                mbind (qlift (validate_lease_index_identity l i)) (\<lambda>_.
                mbind (qcheck (\<not> (li_cluster i \<noteq> cluster \<or> li_job_kind i \<noteq> kind
                         \<or> lease_endpoint_token (li_endpoint_id i) \<noteq> endpoint_token
                         \<or> lease_job_token (li_job_id i) \<noteq> job_token
                         \<or> lease_expiry_key (li_expires_at i) \<noteq> expires_key))
                  (QueueConflictError (''lease expiry index identity mismatch: '' @ li_lease_id i))) (\<lambda>_.
                mbind (mseq (\<lambda>(p, label). read_index (require_empty_lease_ref p label))
                  [(lease_identity_ref_path i, ''lease identity reference''),
                   (lease_endpoint_ref_path i, ''lease endpoint reference''),
                   (lease_endpoint_guard_path i, ''lease endpoint guard''),
                   (lease_cluster_kind_ref_path i, ''lease cluster-kind reference'')]) (\<lambda>_.
                mret (if is_expired l now then [l] else []))))))) "

definition due_expired_leases ::
  "'x queue_env \<Rightarrow> string \<Rightarrow> timestamp \<Rightarrow> LeaseExpiryReference list \<Rightarrow> ('x, Lease list) queue_op" where
  "due_expired_leases env cluster now refs =
     mbind (mmap (due_lease env cluster now) refs) (\<lambda>found.
     mret (sort_key (\<lambda>l. (le_expires_at l, le_lease_id l)) (concat found)))"

text \<open>\<^verbatim>\<open>leases_by_job.setdefault(lease.job_id, []).append(lease)\<close>, in order of first appearance.\<close>

definition group_by_job :: "Lease list \<Rightarrow> (string \<times> Lease list) list" where
  "group_by_job leases =
     fold (\<lambda>l groups. AList.update (le_job_id l) (dict_get groups (le_job_id l) [] @ [l]) groups) leases []"

definition recover_job_group ::
  "'x queue_env \<Rightarrow> string \<Rightarrow> int \<Rightarrow> string \<times> Lease list \<Rightarrow> ('x, RelayJob list \<times> bool) queue_op" where
  "recover_job_group env cluster max_attempts entry =
     (case entry of (job_id, leases) \<Rightarrow>
        mbind (read_optional_job job_id) (\<lambda>job.
          case job of
            None \<Rightarrow>
              mbind (mseq (\<lambda>l. delete_lease env l None None None True) leases) (\<lambda>_.
              mret ([], leases \<noteq> []))
          | Some j \<Rightarrow>
              mbind (qcheck (rj_cluster j = cluster)
                (QueueConflictError (''lease expiry cluster identity mismatch: '' @ rj_job_id j @ ''/''
                   @ cluster))) (\<lambda>_.
              if terminal (rj_state j) \<or> rj_state j \<notin> {LEASED, RUNNING}
              then mbind (mseq (\<lambda>l. delete_lease env l (Some j) None None True) leases) (\<lambda>_.
                   mret ([], leases \<noteq> []))
              else mbind (job_has_pending_cleanup_after_migration env cluster (rj_job_id j)) (\<lambda>pending.
                   if pending then mret ([], False)
                   else mbind (job_has_scheduler_observation env j) (\<lambda>observed.
                        if observed then mret ([], False)
                        else mbind (recover_expired_leases env j leases max_attempts) (\<lambda>updated.
                             mret ([updated], True)))))))"

definition recover_stale_jobs_from_refs ::
  "'x queue_env \<Rightarrow> string \<Rightarrow> int \<Rightarrow> LeaseExpiryReference list \<Rightarrow> ('x, RelayJob list \<times> bool) queue_op" where
  "recover_stale_jobs_from_refs env cluster max_attempts refs =
     mbind (utc_now env) (\<lambda>now.
     mbind (due_expired_leases env cluster now refs) (\<lambda>due.
     mbind (mmap (recover_job_group env cluster max_attempts) (group_by_job due)) (\<lambda>results.
     mret (concat (map fst results), list_ex snd results))))"

definition scan_all_expiry_refs :: "string \<Rightarrow> ('x, LeaseExpiryReference list) queue_op" where
  "scan_all_expiry_refs message =
     mbind (read_index (scan_expiry_refs MAX_LIVE_LEASE_RECORDS)) (\<lambda>(refs, truncated).
     mbind (qcheck (\<not> truncated) (QueueConflictError message)) (\<lambda>_. mret refs))"

definition recover_stale_jobs_unlocked ::
  "'x queue_env \<Rightarrow> string \<Rightarrow> int \<Rightarrow> ('x, RelayJob list) queue_op" where
  "recover_stale_jobs_unlocked env cluster max_attempts =
     mbind (scan_all_expiry_refs ''lease recovery index exceeded its safety bound'') (\<lambda>refs.
     mbind (recover_stale_jobs_from_refs env cluster max_attempts refs) (\<lambda>(jobs, _). mret jobs))"

definition recover_stale_jobs_for_admission ::
  "'x queue_env \<Rightarrow> string \<Rightarrow> int \<Rightarrow> ('x, LeaseExpiryReference list option) queue_op" where
  "recover_stale_jobs_for_admission env cluster max_attempts =
     mbind (scan_all_expiry_refs ''lease recovery index exceeded its safety bound'') (\<lambda>refs.
     mbind (recover_stale_jobs_from_refs env cluster max_attempts refs) (\<lambda>(_, changed).
     mret (if changed then None else Some refs)))"

section \<open>Replay of interrupted transitions\<close>

definition MAX_TRANSITION_INTENT_RECORDS :: int where "MAX_TRANSITION_INTENT_RECORDS = 10000"

fun intent_order :: "queue_intent \<Rightarrow> nat" where
  "intent_order (LeaseAcquireIntent _ _ _ _ _ _) = 1"
| "intent_order (LeaseSyncIntent _ _ _ _) = 2"
| "intent_order (LeaseDeleteIntent _ _ _ _ _) = 3"
| "intent_order (StaleRecoveryIntent _ _ _ _ _ _) = 4"
| "intent_order (JobSyncIntent _) = 5"
| "intent_order (OtherIntent kind _) =
     (if kind = ''lease_index_repair'' then 0 else if kind = ''task_sync'' then 6
      else if kind = ''gateway_sync'' then 7 else 99)"
| "intent_order (BadIntent _) = 99"

definition replay_lease_sync ::
  "'x queue_env \<Rightarrow> string \<Rightarrow> Lease \<Rightarrow> Lease \<Rightarrow> RelayJob \<Rightarrow> json option \<Rightarrow> ('x, unit) queue_op" where
  "replay_lease_sync env path lease previous job transition =
     mbind (qcheck (\<not> (le_job_id lease \<noteq> rj_job_id job \<or> le_lease_id previous \<noteq> le_lease_id lease))
       (QueueConflictError (''lease synchronization identity mismatch: '' @ path))) (\<lambda>_.
     mbind (write_lease lease) (\<lambda>_.
     mbind (write_job_lease lease) (\<lambda>_.
     mbind (sync_lease_operational_indexes env lease job (Some previous)) (\<lambda>_.
     mbind (finish_capacity env transition ''after'' (''lease synchronization '' @ le_lease_id lease)
              (''lease synchronization intent has no capacity transition: '' @ path)) (\<lambda>_.
     unlink_intent path)))))"

definition replay_lease_delete ::
  "'x queue_env \<Rightarrow> string \<Rightarrow> string \<Rightarrow> string \<Rightarrow> Lease option \<Rightarrow> json option \<Rightarrow> json option \<Rightarrow> ('x, unit) queue_op" where
  "replay_lease_delete env path job_id lease_id lease index transition =
     mbind (qcheck (lease_id \<noteq> [] \<and> job_id \<noteq> [])
       (QueueConflictError (''invalid lease deletion intent: '' @ path))) (\<lambda>_.
     mbind (case (lease, index) of
              (None, None) \<Rightarrow> mret None
            | (None, Some _) \<Rightarrow> qraise (ValueError ''Lease'')
            | (Some l, _) \<Rightarrow>
                mbind (qlift (lease_index_identity_from_document (iso_parse (qe_codec env))
                         (case index of None \<Rightarrow> JNull | Some d \<Rightarrow> d)
                         (''lease deletion index '' @ path))) (\<lambda>i.
                mbind (qlift (validate_lease_index_identity l i)) (\<lambda>_.
                mbind (qcheck (lease_id = le_lease_id l \<and> job_id = le_job_id l)
                  (QueueConflictError (''lease deletion intent identity mismatch: '' @ path))) (\<lambda>_.
                mret (Some i))))) (\<lambda>identity.
     mbind (unlink_lease lease_id) (\<lambda>_.
     mbind (unlink_job_lease job_id lease_id) (\<lambda>_.
     mbind (case identity of None \<Rightarrow> mret () | Some i \<Rightarrow> delete_operational_indexes env i False) (\<lambda>_.
     mbind (finish_capacity env transition ''after'' (''lease deletion '' @ lease_id)
              (''lease deletion intent has no capacity transition: '' @ path)) (\<lambda>_.
     unlink_intent path))))))"

definition replay_job_sync :: "'x queue_env \<Rightarrow> string \<Rightarrow> string \<Rightarrow> ('x, unit) queue_op" where
  "replay_job_sync env path job_id =
     mbind (qcheck (job_id \<noteq> []) (QueueConflictError (''invalid job transition intent: '' @ path))) (\<lambda>_.
     mbind (read_optional_job job_id) (\<lambda>job.
     mbind (case job of None \<Rightarrow> mret () | Some j \<Rightarrow> sync_job_derived env j) (\<lambda>_.
     unlink_intent path)))"

fun replay_intent :: "'x queue_env \<Rightarrow> string \<times> queue_intent \<Rightarrow> ('x, RelayJob list) queue_op" where
  "replay_intent env (path, LeaseAcquireIntent _ lease original target target_updated_at transition) =
     mbind (reconcile_lease_acquire_intent env path lease original target target_updated_at transition)
       (\<lambda>_. mret [])"
| "replay_intent env (path, LeaseSyncIntent lease previous job transition) =
     mbind (replay_lease_sync env path lease previous job transition) (\<lambda>_. mret [])"
| "replay_intent env (path, LeaseDeleteIntent job_id lease_id lease index transition) =
     mbind (replay_lease_delete env path job_id lease_id lease index transition) (\<lambda>_. mret [])"
| "replay_intent env (path, StaleRecoveryIntent job_id original target leases event transition) =
     mbind (apply_stale_lease_recovery_intent env path job_id original target leases event transition)
       (\<lambda>job. mret [job])"
| "replay_intent env (path, JobSyncIntent job_id) =
     mbind (replay_job_sync env path job_id) (\<lambda>_. mret [])"
| "replay_intent env (path, OtherIntent kind payload) =
     (if kind \<in> {''lease_index_repair'', ''task_sync'', ''gateway_sync''}
      then mbind (qe_replay_other env kind payload) (\<lambda>_. mbind (unlink_intent path) (\<lambda>_. mret []))
      else conflict (''unsupported queue transition intent kind '' @ kind @ '': '' @ path))"
| "replay_intent env (path, BadIntent e) = qraise e"

text \<open>\<^verbatim>\<open>_reconcile_transition_intents_unlocked\<close>: the whole bounded journal is read before any replay.\<close>

definition read_intents :: "('x, (string \<times> queue_intent) list) queue_op" where
  "read_intents =
     mbind mget (\<lambda>s.
     mbind (qcheck (\<not> int (length (qs_intents s)) > MAX_TRANSITION_INTENT_RECORDS)
       (QueueConflictError (''queue transition intent directory exceeded its safety bound of ''
          @ int_str MAX_TRANSITION_INTENT_RECORDS @ '' records''))) (\<lambda>_.
     mmap (\<lambda>(path, intent). case intent of BadIntent e \<Rightarrow> qraise e | _ \<Rightarrow> mret (path, intent))
       (qs_intents s)))"

definition reconcile_transition_intents :: "'x queue_env \<Rightarrow> ('x, RelayJob list) queue_op" where
  "reconcile_transition_intents env =
     mbind read_intents (\<lambda>intents.
     mbind (mmap (replay_intent env) (sort_key (\<lambda>(_, intent). intent_order intent) intents))
       (\<lambda>jobs. mret (concat jobs)))"

end
