(* ===== verification/GlobalOrder.thy ===== *)
theory GlobalOrder
  imports QueueStore
begin

text \<open>
  Durable submission order (\<^verbatim>\<open>queue_order_index.py\<close>, \<^verbatim>\<open>pagination.py\<close>). Every record of a family gets a
  sequence number for good: a head document with the last number given out, one document per
  record identifier, and one document per number. A process can die between the three writes.
\<close>

definition GLOBAL_ORDER_INDEX_SCHEMA :: string where
  "GLOBAL_ORDER_INDEX_SCHEMA = ''clio-relay.global-record-order.v1''"

definition GLOBAL_ORDER_FAMILIES :: "string list" where
  "GLOBAL_ORDER_FAMILIES = [''endpoints'', ''jobs'', ''gateway_sessions'', ''monitor_rules'']"

definition single_value_ref_token :: "string \<Rightarrow> string" where
  "single_value_ref_token v = take 32 (sha256_hexdigest (utf8_encode v))"

definition order_dir :: "string \<Rightarrow> string" where "order_dir family = ''global_order/'' @ family"
definition order_ids :: "string \<Rightarrow> string" where "order_ids family = order_dir family @ ''/by_id''"
definition order_entries :: "string \<Rightarrow> string" where "order_entries family = order_dir family @ ''/entries''"

definition order_document :: "string \<Rightarrow> string \<Rightarrow> int \<Rightarrow> (string \<times> json) list" where
  "order_document family record_id sequence =
     [(''schema_version'', JStr GLOBAL_ORDER_INDEX_SCHEMA), (''family'', JStr family),
      (''record_id'', JStr record_id), (''sequence'', JInt sequence)]"

definition head_document :: "string \<Rightarrow> int \<Rightarrow> (string \<times> json) list" where
  "head_document family latest =
     [(''schema_version'', JStr GLOBAL_ORDER_INDEX_SCHEMA), (''family'', JStr family),
      (''latest_sequence'', JInt latest)]"

definition sequence_ok :: "json \<Rightarrow> bool" where
  "sequence_ok v \<longleftrightarrow> (case as_int v of None \<Rightarrow> False | Some n \<Rightarrow> \<not> n < 1 \<and> \<not> n \<ge> 2 ^ 63)"

definition parse_global_record :: "string \<Rightarrow> string \<Rightarrow> json \<Rightarrow> py_error + string \<times> int" where
  "parse_global_record family path raw =
     (case as_obj raw of
        None \<Rightarrow> Inl (QueueConflictError (''global-order record is not an object: '' @ path))
      | Some document \<Rightarrow>
          (case (as_str (doc_get document ''record_id''), as_int (doc_get document ''sequence'')) of
             (Some record_id, Some sequence) \<Rightarrow>
               if doc_get document ''schema_version'' \<noteq> JStr GLOBAL_ORDER_INDEX_SCHEMA
                  \<or> doc_get document ''family'' \<noteq> JStr family
                  \<or> \<not> safe_global_record_id (JStr record_id) \<or> \<not> sequence_ok (JInt sequence)
               then Inl (QueueConflictError (''invalid global-order record: '' @ path))
               else Inr (record_id, sequence)
           | _ \<Rightarrow> Inl (QueueConflictError (''invalid global-order record: '' @ path))))"

definition read_global_record :: "string \<Rightarrow> string \<Rightarrow> string \<Rightarrow> ('x, (string \<times> int) option) queue_op" where
  "read_global_record dir name family =
     mbind (read_document dir name) (\<lambda>raw.
       case raw of
         None \<Rightarrow> mret None
       | Some r \<Rightarrow> mbind (qlift (parse_global_record family (record_path dir name) r)) (\<lambda>x. mret (Some x)))"

definition parse_global_head :: "string \<Rightarrow> json \<Rightarrow> py_error + int" where
  "parse_global_head family raw =
     (let path = record_path (order_dir family) ''head'' in
      case as_obj raw of
        None \<Rightarrow> Inl (QueueConflictError (''global-order head is not an object: '' @ path))
      | Some document \<Rightarrow>
          (case as_int (doc_get document ''latest_sequence'') of
             Some latest \<Rightarrow>
               if doc_get document ''schema_version'' \<noteq> JStr GLOBAL_ORDER_INDEX_SCHEMA
                  \<or> doc_get document ''family'' \<noteq> JStr family \<or> \<not> sequence_ok (JInt latest)
               then Inl (QueueConflictError (''invalid global-order head: '' @ path))
               else Inr latest
           | None \<Rightarrow> Inl (QueueConflictError (''invalid global-order head: '' @ path))))"

definition read_global_head :: "string \<Rightarrow> ('x, int) queue_op" where
  "read_global_head family =
     mbind (read_document (order_dir family) ''head'') (\<lambda>raw.
       case raw of None \<Rightarrow> mret 0 | Some r \<Rightarrow> qlift (parse_global_head family r))"

definition ensure_global_sequence :: "string \<Rightarrow> string \<Rightarrow> int \<Rightarrow> ('x, unit) queue_op" where
  "ensure_global_sequence family record_id sequence =
     mbind (read_global_record (order_entries family) (format_020d sequence) family) (\<lambda>existing.
       case existing of
         Some e \<Rightarrow> qcheck (e = (record_id, sequence))
           (QueueConflictError (''global-order sequence collision: '' @ family @ ''/'' @ int_str sequence))
       | None \<Rightarrow> write_document (order_entries family) (format_020d sequence)
                   (order_document family record_id sequence))"

definition ensure_global :: "string \<Rightarrow> string \<Rightarrow> ('x, int) queue_op" where
  "ensure_global family record_id =
     mbind (qcheck (family \<in> set GLOBAL_ORDER_FAMILIES)
       (QueueConflictError (''unsupported global-order family: '' @ family))) (\<lambda>_.
     mbind (qcheck (safe_global_record_id (JStr record_id))
       (QueueConflictError (''unsafe global-order record id: '' @ record_id))) (\<lambda>_.
     let token = single_value_ref_token record_id in
     mbind (read_global_record (order_ids family) token family) (\<lambda>mapping.
     mbind (read_global_head family) (\<lambda>latest.
       case mapping of
         Some (mapped_id, sequence) \<Rightarrow>
           mbind (qcheck (\<not> (mapped_id \<noteq> record_id \<or> sequence > latest))
             (QueueConflictError (''global-order mapping identity mismatch: '' @ family @ ''/'' @ record_id))) (\<lambda>_.
           mbind (ensure_global_sequence family record_id sequence) (\<lambda>_. mret sequence))
       | None \<Rightarrow>
           mbind (qcheck (\<not> latest \<ge> 2 ^ 63 - 1)
             (QueueConflictError (''global-order sequence exhausted: '' @ family))) (\<lambda>_.
           let sequence = latest + 1 in
           mbind (write_document (order_dir family) ''head'' (head_document family sequence)) (\<lambda>_.
           mbind (write_document (order_ids family) token (order_document family record_id sequence)) (\<lambda>_.
           mbind (ensure_global_sequence family record_id sequence) (\<lambda>_. mret sequence))))))))"

section \<open>The last member of a contiguous sequence\<close>

text \<open>
  \<^verbatim>\<open>last_contiguous_sequence\<close>: double the upper bound until its file is absent, then bisect. The first
  loop gives up past 2^63.
\<close>

function double_bound :: "(int \<Rightarrow> bool) \<Rightarrow> int \<Rightarrow> int \<Rightarrow> (int \<times> int) option" where
  "double_bound exists_at low high =
     (if high \<le> 0 \<or> \<not> exists_at high then Some (low, high)
      else if 2 * high > 2 ^ 63 then None
      else double_bound exists_at high (2 * high))"
  by pat_completeness auto
termination by (relation "measure (\<lambda>(_, low, high). nat (2 ^ 63 + 1 - high))") auto

function bisect :: "(int \<Rightarrow> bool) \<Rightarrow> int \<Rightarrow> int \<Rightarrow> int" where
  "bisect exists_at low high =
     (if low + 1 < high
      then let middle = (low + high) div 2 in
           if exists_at middle then bisect exists_at middle high else bisect exists_at low middle
      else low)"
  by pat_completeness auto
termination by (relation "measure (\<lambda>(_, low, high). nat (high - low))") auto

declare double_bound.simps [simp del] bisect.simps [simp del]

definition last_contiguous_sequence :: "string \<Rightarrow> (int \<Rightarrow> bool) \<Rightarrow> py_error + int" where
  "last_contiguous_sequence directory exists_at =
     (if \<not> exists_at 1 then Inr 0
      else case double_bound exists_at 1 2 of
             None \<Rightarrow> Inl (QueueConflictError (''record sequence exceeds supported range: '' @ directory))
           | Some (low, high) \<Rightarrow> Inr (bisect exists_at low high))"

section \<open>Pages\<close>

definition MAX_RESPONSE_PAGE_RECORDS :: int where "MAX_RESPONSE_PAGE_RECORDS = 500"

definition validate_response_page_limit :: "string \<Rightarrow> json \<Rightarrow> py_error + int" where
  "validate_response_page_limit field_name v =
     (case as_int v of
        None \<Rightarrow> Inl (ValueError (field_name @ '' must be an integer''))
      | Some n \<Rightarrow>
          if n < 1 \<or> n > MAX_RESPONSE_PAGE_RECORDS
          then Inl (ValueError (field_name @ '' must be between 1 and '' @ int_str MAX_RESPONSE_PAGE_RECORDS))
          else Inr n)"

definition validate_record_cursor :: "string \<Rightarrow> json \<Rightarrow> py_error + int" where
  "validate_record_cursor field_name v =
     (case as_int v of
        None \<Rightarrow> Inl (ValueError (field_name @ '' must be an integer''))
      | Some n \<Rightarrow> if n < 1 then Inl (ValueError (field_name @ '' must be greater than or equal to 1'')) else Inr n)"

text \<open>One position of the window of \<^verbatim>\<open>_read_global_order_page\<close>: the record there, if any.\<close>

definition read_order_position ::
  "string \<Rightarrow> (string \<Rightarrow> ('x, 'r option) queue_op) \<Rightarrow> ('r \<Rightarrow> string) \<Rightarrow> ('r \<Rightarrow> bool) \<Rightarrow> int \<Rightarrow> ('x, 'r list) queue_op" where
  "read_order_position family read_record identity predicate sequence =
     mbind (read_global_record (order_entries family) (format_020d sequence) family) (\<lambda>entry.
       case entry of
         None \<Rightarrow> mret []
       | Some (record_id, recorded_sequence) \<Rightarrow>
           mbind (qcheck (recorded_sequence = sequence)
             (QueueConflictError (''global-order sequence identity mismatch: '' @ family @ ''/'' @ int_str sequence))) (\<lambda>_.
           mbind (read_global_record (order_ids family) (single_value_ref_token record_id) family) (\<lambda>mapping.
           mbind (qcheck (mapping = entry)
             (QueueConflictError (''global-order reverse mapping mismatch: '' @ family @ ''/'' @ record_id))) (\<lambda>_.
           mbind (read_record record_id) (\<lambda>record.
             case record of
               None \<Rightarrow> mret []
             | Some r \<Rightarrow>
                 mbind (qcheck (identity r = record_id)
                   (QueueConflictError (''global-order target identity mismatch: '' @ family @ ''/'' @ record_id)))
                   (\<lambda>_. mret (if predicate r then [r] else [])))))))"

definition read_global_order_page ::
  "'x queue_env \<Rightarrow> string \<Rightarrow> (string \<Rightarrow> ('x, 'r option) queue_op) \<Rightarrow> ('r \<Rightarrow> string) \<Rightarrow> json \<Rightarrow> json
     \<Rightarrow> ('r \<Rightarrow> bool) \<Rightarrow> ('x, 'r list \<times> int option \<times> int) queue_op" where
  "read_global_order_page env family read_record identity cursor limit predicate =
     mbind (qlift (validate_record_cursor ''cursor'' cursor)) (\<lambda>cursor.
     mbind (qlift (validate_response_page_limit ''limit'' limit)) (\<lambda>limit.
     mbind (on_other (qe_initialize env)) (\<lambda>_.
     mbind mget (\<lambda>s.
     mbind (qlift (qe_require_migrated env (qs_other s))) (\<lambda>_.
     mbind (read_global_head family) (\<lambda>latest.
       if cursor > latest then mret ([], None, latest)
       else let stop = min (latest + 1) (cursor + limit) in
         mbind (mmap (read_order_position family read_record identity predicate) [cursor..stop - 1]) (\<lambda>records.
         mret (concat records, (if stop \<le> latest then Some stop else None), latest))))))))"

definition list_jobs_page ::
  "'x queue_env \<Rightarrow> json \<Rightarrow> json \<Rightarrow> string option \<Rightarrow> JobState option \<Rightarrow> JobKind option \<Rightarrow> bool
     \<Rightarrow> ('x, RelayJob list \<times> int option \<times> int) queue_op" where
  "list_jobs_page env cursor limit cluster state kind include_terminal =
     read_global_order_page env ''jobs'' read_optional_job rj_job_id cursor limit
       (\<lambda>job. (cluster = None \<or> Some (rj_cluster job) = cluster) \<and> (state = None \<or> Some (rj_state job) = state)
          \<and> (kind = None \<or> Some (rj_kind job) = kind) \<and> (include_terminal \<or> \<not> terminal (rj_state job)))"

end
