(* ===== verification/LeaseAdmission.thy ===== *)
theory LeaseAdmission
  imports LeaseLifecycle GlobalOrder
begin

text \<open>
  The public lease operations: renewal, release and the stale-recovery entry points of
  \<^verbatim>\<open>queue_leases.py\<close>, and the worker lanes of \<^verbatim>\<open>queue_lease_admission.py\<close>. Each one first replays the
  journal, so it starts from a settled store even after a crash.
\<close>

section \<open>Common openings\<close>

definition initialize_queue :: "'x queue_env \<Rightarrow> ('x, unit) queue_op" where
  "initialize_queue env = on_other (qe_initialize env)"

definition require_index_migration_complete :: "'x queue_env \<Rightarrow> ('x, unit) queue_op" where
  "require_index_migration_complete env = mbind mget (\<lambda>s. qlift (qe_require_migrated env (qs_other s)))"

definition MAX_BOUNDED_SCAN_RECORDS :: int where "MAX_BOUNDED_SCAN_RECORDS = 10000"

section \<open>Listing\<close>

text \<open>\<^verbatim>\<open>get_job\<close> of a lease, with \<^verbatim>\<open>NotFoundError\<close> read as no match.\<close>

definition lease_in_cluster :: "string option \<Rightarrow> Lease \<Rightarrow> ('x, Lease list) queue_op" where
  "lease_in_cluster cluster lease = (\<lambda>s.
     case cluster of
       None \<Rightarrow> (Inr [lease], s)
     | Some c \<Rightarrow>
         (case get_job (le_job_id lease) s of
            (Inl (Raised (NotFoundError m)), s') \<Rightarrow> (Inr [], s')
          | (Inl e, s') \<Rightarrow> (Inl e, s')
          | (Inr job, s') \<Rightarrow> (Inr (if rj_cluster job = c then [lease] else []), s')))"

definition list_leases :: "'x queue_env \<Rightarrow> string option \<Rightarrow> ('x, Lease list) queue_op" where
  "list_leases env cluster =
     mbind (initialize_queue env) (\<lambda>_.
     mbind (reconcile_transition_intents env) (\<lambda>_.
     mbind mget (\<lambda>s.
     mbind (qlift (read_many le_lease_id ''lease_id'' MAX_BOUNDED_SCAN_RECORDS (qs_leases s))) (\<lambda>leases.
     mbind (mmap (lease_in_cluster cluster) leases) (\<lambda>matched.
     mret (sort_key le_acquired_at (concat matched)))))))"

definition scan_leases :: "'x queue_env \<Rightarrow> int \<Rightarrow> string option \<Rightarrow> ('x, Lease list \<times> bool) queue_op" where
  "scan_leases env limit cluster =
     mbind (initialize_queue env) (\<lambda>_.
     mbind (reconcile_transition_intents env) (\<lambda>_.
     mbind mget (\<lambda>s.
     mbind (qlift (scan_many le_lease_id ''lease_id'' limit (qs_leases s))) (\<lambda>(leases, truncated).
     mbind (mmap (lease_in_cluster cluster) leases) (\<lambda>matched.
     mret (sort_key le_acquired_at (concat matched), truncated))))))"

definition scan_job_leases :: "'x queue_env \<Rightarrow> string \<Rightarrow> int \<Rightarrow> ('x, Lease list \<times> bool) queue_op" where
  "scan_job_leases env job_id limit =
     mbind (qlift (require_durable_record_id job_id ''job_id'')) (\<lambda>job_id.
     mbind (initialize_queue env) (\<lambda>_.
     mbind (reconcile_transition_intents env) (\<lambda>_.
     mbind (job_index_exists job_id) (\<lambda>indexed.
     mbind mget (\<lambda>s.
       if indexed
       then mbind (qlift (scan_many le_lease_id ''lease_id'' limit
                     (map (\<lambda>((j, l), lease). (l, lease))
                       (filter (\<lambda>((j, l), lease). j = job_id) (qs_job_leases s))))) (\<lambda>(leases, truncated).
              mret (sort_key le_acquired_at leases, truncated))
       else mbind (qlift (scan_many le_lease_id ''lease_id'' limit (qs_leases s))) (\<lambda>(leases, truncated).
              mret (filter (\<lambda>l. le_job_id l = job_id) leases, truncated)))))))"

section \<open>Renewal and release\<close>

definition renew_lease :: "'x queue_env \<Rightarrow> string \<Rightarrow> int \<Rightarrow> ('x, Lease option) queue_op" where
  "renew_lease env lease_id ttl_seconds =
     mbind (qlift (require_durable_record_id lease_id ''lease_id'')) (\<lambda>lease_id.
     mbind (initialize_queue env) (\<lambda>_.
     mbind (require_index_migration_complete env) (\<lambda>_.
     mbind (reconcile_transition_intents env) (\<lambda>_.
     mbind (read_optional_lease lease_id) (\<lambda>found.
       case found of
         None \<Rightarrow> mret None
       | Some lease \<Rightarrow>
           mbind (qcheck (le_lease_id lease = lease_id)
             (QueueConflictError (''canonical lease identity mismatch: '' @ record_path ''leases'' lease_id))) (\<lambda>_.
           mbind (get_job (le_job_id lease)) (\<lambda>job.
           mbind (new_lease env (le_job_id lease) (le_endpoint_id lease) ttl_seconds) (\<lambda>fresh.
           let renewed = fresh\<lparr>le_lease_id := le_lease_id lease\<rparr> in
           mbind (prepare_capacity_transition env [] False) (\<lambda>transition.
           mbind (write_transition_intent env ''lease_sync'' (le_lease_id renewed)
                    (LeaseSyncIntent renewed lease job (Some transition))) (\<lambda>intent_path.
           mbind (write_lease renewed) (\<lambda>_.
           mbind (write_job_lease renewed) (\<lambda>_.
           mbind (sync_lease_operational_indexes env renewed job (Some lease)) (\<lambda>_.
           mbind (apply_capacity_transition transition ''after''
                    (''lease renewal '' @ le_lease_id renewed)) (\<lambda>_.
           mbind (unlink_intent intent_path) (\<lambda>_.
           mret (Some renewed))))))))))))))))"

definition release_lease :: "'x queue_env \<Rightarrow> string \<Rightarrow> ('x, unit) queue_op" where
  "release_lease env lease_id =
     mbind (qlift (require_durable_record_id lease_id ''lease_id'')) (\<lambda>lease_id.
     mbind (initialize_queue env) (\<lambda>_.
     mbind (reconcile_transition_intents env) (\<lambda>_.
     mbind (read_optional_lease lease_id) (\<lambda>found.
       case found of
         None \<Rightarrow> mret ()
       | Some lease \<Rightarrow>
           mbind (qcheck (le_lease_id lease = lease_id)
             (QueueConflictError (''canonical lease identity mismatch: '' @ record_path ''leases'' lease_id))) (\<lambda>_.
           delete_lease env lease None None None True)))))"

section \<open>Stale recovery entry points\<close>

definition recover_stale_jobs :: "'x queue_env \<Rightarrow> string \<Rightarrow> int \<Rightarrow> ('x, RelayJob list) queue_op" where
  "recover_stale_jobs env cluster max_attempts =
     mbind (initialize_queue env) (\<lambda>_.
     mbind (require_index_migration_complete env) (\<lambda>_.
     mbind (reconcile_transition_intents env) (\<lambda>_.
     recover_stale_jobs_unlocked env cluster max_attempts)))"

definition recover_stale_job ::
  "'x queue_env \<Rightarrow> string \<Rightarrow> string \<Rightarrow> int \<Rightarrow> ('x, RelayJob option) queue_op" where
  "recover_stale_job env job_id cluster max_attempts =
     mbind (qlift (require_durable_record_id job_id ''job_id'')) (\<lambda>job_id.
     mbind (qcheck (\<not> max_attempts < 1) (ValueError ''max_attempts must be at least 1'')) (\<lambda>_.
     mbind (initialize_queue env) (\<lambda>_.
     mbind (require_index_migration_complete env) (\<lambda>_.
     mbind (reconcile_transition_intents env) (\<lambda>_.
     mbind (get_job job_id) (\<lambda>job.
     mbind (qcheck (rj_cluster job = cluster)
       (QueueConflictError (''job '' @ job_id @ '' belongs to cluster '' @ rj_cluster job
          @ '', not requested cluster '' @ cluster))) (\<lambda>_.
     mbind (scan_job_leases env job_id DEFAULT_EXACT_RECORD_LIMIT) (\<lambda>(job_leases, truncated).
     mbind (qcheck (\<not> truncated)
       (QueueConflictError (''job lease index exceeded its safety bound: '' @ job_id))) (\<lambda>_.
     mbind (mmap (\<lambda>l. mbind (utc_now env) (\<lambda>now. mret (if is_expired l now then [l] else []))) job_leases) (\<lambda>found.
     let expired = concat found in
     if expired = [] then mret None
     else if rj_state job \<notin> {LEASED, RUNNING}
     then mbind (mseq (\<lambda>l. delete_lease env l (Some job) None None True) expired) (\<lambda>_. mret None)
     else mbind (job_has_pending_cleanup_after_migration env cluster (rj_job_id job)) (\<lambda>pending.
       if pending then mret None
       else mbind (job_has_scheduler_observation env job) (\<lambda>observed.
         if observed then mret None
         else mbind (recover_expired_leases env job expired max_attempts) (\<lambda>updated.
              mret (Some updated))))))))))))))"

section \<open>Worker lanes\<close>

definition job_matches_mcp_admission_class :: "RelayJob \<Rightarrow> McpAdmissionClass \<Rightarrow> bool" where
  "job_matches_mcp_admission_class job admission_class =
     (case (rj_kind job, rj_spec job) of
        (MCP_CALL, McpCall spec) \<Rightarrow> mcs_admission_class spec = admission_class
      | _ \<Rightarrow> admission_class = WORKLOAD)"

text \<open>One lease of the endpoint's shard, as \<^verbatim>\<open>_active_lease_for_endpoint\<close> validates it.\<close>

definition endpoint_lease ::
  "'x queue_env \<Rightarrow> string \<Rightarrow> string \<times> string \<Rightarrow> ('x, Lease list) queue_op" where
  "endpoint_lease env endpoint_id ref =
     (case ref of (lease_tok, identity_tok) \<Rightarrow>
        mbind (read_index (read_lease_index_identity_by_token (qe_codec env) lease_tok (Some identity_tok))) (\<lambda>i.
        mbind (read_optional_lease (li_lease_id i)) (\<lambda>lease.
          case lease of
            None \<Rightarrow> conflict (''lease endpoint index is orphaned: '' @ li_lease_id i)
          | Some l \<Rightarrow>
              mbind (qlift (validate_lease_index_identity l i)) (\<lambda>_.
              mbind (qcheck (li_endpoint_id i = endpoint_id)
                (QueueConflictError (''lease endpoint index identity mismatch: '' @ li_lease_id i))) (\<lambda>_.
              mbind (mseq (\<lambda>(p, label). read_index (require_empty_lease_ref p label))
                [(lease_identity_ref_path i, ''lease identity reference''),
                 (lease_cluster_kind_ref_path i, ''lease cluster-kind reference''),
                 (lease_expiry_ref_path i, ''lease expiry reference'')]) (\<lambda>_.
              mbind (utc_now env) (\<lambda>now.
              mret (if is_expired l now then [] else [l]))))))))"

definition expiry_refs_or_scan :: "LeaseExpiryReference list option \<Rightarrow> ('x, LeaseExpiryReference list) queue_op" where
  "expiry_refs_or_scan expiry_refs =
     (case expiry_refs of
        Some refs \<Rightarrow> mret refs
      | None \<Rightarrow> scan_all_expiry_refs ''lease expiry index exceeded its safety bound'')"

definition active_lease_for_endpoint ::
  "'x queue_env \<Rightarrow> string \<Rightarrow> LeaseExpiryReference list option \<Rightarrow> ('x, Lease option) queue_op" where
  "active_lease_for_endpoint env endpoint_id expiry_refs =
     mbind (expiry_refs_or_scan expiry_refs) (\<lambda>refs.
     mbind (read_index (scan_lease_endpoint_refs endpoint_id MAX_LIVE_LEASE_RECORDS)) (\<lambda>(lease_refs, truncated).
     mbind (qcheck (\<not> truncated) (QueueConflictError ''lease endpoint index exceeded its safety bound'')) (\<lambda>_.
     let expected_refs = map (\<lambda>(_, _, _, _, _, lease_tok, identity_tok). (lease_tok, identity_tok))
           (filter (\<lambda>(_, _, _, endpoint_tok, _, _, _). endpoint_tok = lease_endpoint_token endpoint_id) refs) in
     mbind (qcheck (distinct expected_refs)
       (QueueConflictError (''lease expiry index duplicates endpoint identity: '' @ endpoint_id))) (\<lambda>_.
     mbind (qcheck (set lease_refs = set expected_refs)
       (QueueConflictError (''lease endpoint and expiry indexes disagree: '' @ endpoint_id))) (\<lambda>_.
     mbind (mmap (endpoint_lease env endpoint_id) lease_refs) (\<lambda>found.
     case concat found of
       [] \<Rightarrow> mret None
     | [l] \<Rightarrow> mret (Some l)
     | _ \<Rightarrow> conflict (''endpoint has multiple active durable leases: '' @ endpoint_id)))))))"

text \<open>One reference of the expiry scan, as \<^verbatim>\<open>_active_mcp_admission_count_unlocked\<close> counts it.\<close>

definition count_mcp_ref ::
  "'x queue_env \<Rightarrow> string \<Rightarrow> McpAdmissionClass \<Rightarrow> LeaseExpiryReference \<Rightarrow> ('x, int) queue_op" where
  "count_mcp_ref env cluster admission_class ref =
     (case ref of (expires_key, indexed_cluster, kind, endpoint_tok, job_tok, lease_tok, identity_tok) \<Rightarrow>
        if indexed_cluster \<noteq> lease_cluster_token cluster \<or> kind \<noteq> MCP_CALL then mret 0
        else
          mbind (read_index (read_lease_index_identity_by_token (qe_codec env) lease_tok (Some identity_tok))) (\<lambda>i.
          mbind (qcheck (\<not> (li_cluster i \<noteq> cluster \<or> li_job_kind i \<noteq> MCP_CALL
                   \<or> lease_endpoint_token (li_endpoint_id i) \<noteq> endpoint_tok
                   \<or> lease_job_token (li_job_id i) \<noteq> job_tok
                   \<or> lease_expiry_key (li_expires_at i) \<noteq> expires_key))
            (QueueConflictError (''lease expiry admission identity mismatch: '' @ li_lease_id i))) (\<lambda>_.
          mbind (read_optional_lease (li_lease_id i)) (\<lambda>lease.
            case lease of
              None \<Rightarrow> conflict (''lease expiry admission index is orphaned: '' @ li_lease_id i)
            | Some l \<Rightarrow>
                mbind (qlift (validate_lease_index_identity l i)) (\<lambda>_.
                mbind (get_job (li_job_id i)) (\<lambda>job.
                mbind (qcheck (\<not> (rj_cluster job \<noteq> cluster \<or> rj_kind job \<noteq> MCP_CALL
                         \<or> rj_leased_by job \<noteq> Some (li_endpoint_id i)))
                  (QueueConflictError (''active MCP admission lease changed job identity: '' @ li_lease_id i))) (\<lambda>_.
                mret (if job_matches_mcp_admission_class job admission_class then 1 else 0))))))))"

definition active_mcp_admission_count ::
  "'x queue_env \<Rightarrow> string \<Rightarrow> McpAdmissionClass \<Rightarrow> LeaseExpiryReference list option \<Rightarrow> ('x, int) queue_op" where
  "active_mcp_admission_count env cluster admission_class expiry_refs =
     mbind (expiry_refs_or_scan expiry_refs) (\<lambda>refs.
     mbind (mmap (count_mcp_ref env cluster admission_class) refs) (\<lambda>counts.
     mret (sum_list counts)))"

definition submission_order_key :: "RelayJob \<Rightarrow> ('x, (int \<times> timestamp \<times> string) \<times> RelayJob) queue_op" where
  "submission_order_key job =
     mbind (ensure_global ''jobs'' (rj_job_id job)) (\<lambda>seq.
     mret ((seq, rj_created_at job, rj_job_id job), job))"

record lane =
  ln_cluster :: string
  ln_kind_limits :: "(JobKind \<times> int) list"
  ln_class :: "McpAdmissionClass option"
  ln_class_full :: bool
  ln_counts :: kind_counts
  ln_expiry_refs :: "LeaseExpiryReference list option"

text \<open>The tests of the candidate loop before the kind limit.\<close>

definition lane_skips :: "lane \<Rightarrow> RelayJob \<Rightarrow> bool" where
  "lane_skips lane job \<longleftrightarrow>
     rj_cluster job \<noteq> ln_cluster lane \<or> rj_state job \<noteq> QUEUED \<or> rj_kind job = INPUT_INGEST
     \<or> (case ln_class lane of None \<Rightarrow> False | Some c \<Rightarrow> \<not> job_matches_mcp_admission_class job c)
     \<or> (ln_class_full lane \<and> rj_kind job = MCP_CALL)"

text \<open>
  The candidate loop of \<^verbatim>\<open>acquire_next_job\<close>, up to the job it leases; \<open>workload\<close> is the cached
  \<^verbatim>\<open>active_mcp_workload_count\<close>.
\<close>

fun select_candidate ::
  "'x queue_env \<Rightarrow> lane \<Rightarrow> int option \<Rightarrow> RelayJob list \<Rightarrow> ('x, RelayJob option) queue_op" where
  "select_candidate env lane workload [] = mret None"
| "select_candidate env lane workload (job # jobs) =
     (if lane_skips lane job then select_candidate env lane workload jobs
      else mbind mget (\<lambda>s.
        if qe_pending_cleanup env (rj_cluster job) (rj_job_id job) (qs_other s)
        then select_candidate env lane workload jobs
        else
          mbind (if rj_kind job = MCP_CALL \<and> ln_class lane = Some CONTROL_QUERY
                 then mret (None, 0, workload)
                 else if rj_kind job = MCP_CALL \<and> ln_class lane = Some WORKLOAD
                 then mbind (case workload of
                        Some n \<Rightarrow> mret n
                      | None \<Rightarrow> active_mcp_admission_count env (ln_cluster lane) WORKLOAD (ln_expiry_refs lane))
                        (\<lambda>n. mret (map_of (ln_kind_limits lane) MCP_CALL, n, Some n))
                 else mret (map_of (ln_kind_limits lane) (rj_kind job), dict_get (ln_counts lane) (rj_kind job) 0, workload))
            (\<lambda>(kind_limit, active_kind_count, workload').
               if (case kind_limit of None \<Rightarrow> False | Some n \<Rightarrow> active_kind_count \<ge> n)
               then select_candidate env lane workload' jobs
               else mret (Some job))))"

definition acquire_next_job ::
  "'x queue_env \<Rightarrow> string \<Rightarrow> string \<Rightarrow> int \<Rightarrow> int \<Rightarrow> (kind_key \<times> json) list option
     \<Rightarrow> McpAdmissionClass option \<Rightarrow> int option \<Rightarrow> ('x, Lease option) queue_op" where
  "acquire_next_job env endpoint_id cluster ttl_seconds max_attempts kind_concurrency
     mcp_admission_class mcp_admission_limit =
     mbind (qlift (require_durable_record_id endpoint_id ''endpoint_id'')) (\<lambda>endpoint_id.
     mbind (qlift (normalize_kind_concurrency kind_concurrency)) (\<lambda>limits.
     mbind (qcheck (mcp_admission_limit = None \<or> mcp_admission_class \<noteq> None)
       (ConfigurationError ''worker MCP admission limit requires an admission class'')) (\<lambda>_.
     mbind (qcheck (case mcp_admission_limit of None \<Rightarrow> True | Some n \<Rightarrow> \<not> n < 1)
       (ConfigurationError ''worker MCP admission limit must be at least 1'')) (\<lambda>_.
     mbind (initialize_queue env) (\<lambda>_.
     mbind (reconcile_transition_intents env) (\<lambda>_.
     mbind (require_index_migration_complete env) (\<lambda>_.
     mbind (recover_stale_jobs_for_admission env cluster max_attempts) (\<lambda>reusable.
     mbind (active_lease_for_endpoint env endpoint_id reusable) (\<lambda>active.
       case active of
         Some lease \<Rightarrow>
           mbind (get_job (le_job_id lease)) (\<lambda>active_job.
           mbind (qcheck (case mcp_admission_class of None \<Rightarrow> True
                           | Some c \<Rightarrow> job_matches_mcp_admission_class active_job c)
             (QueueConflictError (''endpoint active lease does not match its MCP admission lane: ''
                @ endpoint_id))) (\<lambda>_. mret (Some lease)))
       | None \<Rightarrow>
           mbind (read_capacity (lease_capacity_snapshot cluster)) (\<lambda>(active_counts, global_lease_total).
           if global_lease_total \<ge> MAX_LIVE_LEASE_RECORDS then mret None
           else
             mbind (case (mcp_admission_class, mcp_admission_limit) of
                      (Some c, Some limit) \<Rightarrow>
                        mbind (active_mcp_admission_count env cluster c reusable) (\<lambda>n. mret (n \<ge> limit))
                    | _ \<Rightarrow> mret False) (\<lambda>at_limit.
             mbind mget (\<lambda>s.
             mbind (qlift (scan_many rj_job_id ''job_id'' MAX_ACTIVE_JOB_RECORDS (qs_queued s))) (\<lambda>(queued_jobs, _).
             mbind (mmap submission_order_key queued_jobs) (\<lambda>keyed.
             mbind (select_candidate env
                      \<lparr>ln_cluster = cluster, ln_kind_limits = limits, ln_class = mcp_admission_class,
                       ln_class_full = at_limit, ln_counts = active_counts, ln_expiry_refs = reusable\<rparr>
                      None (map snd (sort_key fst keyed))) (\<lambda>candidate.
               case candidate of
                 None \<Rightarrow> mret None
               | Some job \<Rightarrow>
                   mbind (lease_job env job endpoint_id ttl_seconds (Some global_lease_total)) (\<lambda>lease.
                   mret (Some lease)))))))))))))))))"

definition acquire_job ::
  "'x queue_env \<Rightarrow> string \<Rightarrow> string \<Rightarrow> string \<Rightarrow> int \<Rightarrow> int \<Rightarrow> (kind_key \<times> json) list option
     \<Rightarrow> ('x, Lease option) queue_op" where
  "acquire_job env job_id endpoint_id cluster ttl_seconds max_attempts kind_concurrency =
     mbind (qlift (require_durable_record_id job_id ''job_id'')) (\<lambda>job_id.
     mbind (qlift (require_durable_record_id endpoint_id ''endpoint_id'')) (\<lambda>endpoint_id.
     mbind (qlift (normalize_kind_concurrency kind_concurrency)) (\<lambda>limits.
     mbind (initialize_queue env) (\<lambda>_.
     mbind (reconcile_transition_intents env) (\<lambda>_.
     mbind (require_index_migration_complete env) (\<lambda>_.
     mbind (recover_stale_jobs_for_admission env cluster max_attempts) (\<lambda>reusable.
     mbind (active_lease_for_endpoint env endpoint_id reusable) (\<lambda>active.
       case active of
         Some lease \<Rightarrow> mret (if le_job_id lease = job_id then Some lease else None)
       | None \<Rightarrow>
           mbind (get_job job_id) (\<lambda>job.
           if rj_cluster job \<noteq> cluster \<or> rj_state job \<noteq> QUEUED then mret None
           else if rj_kind job = INPUT_INGEST then mret None
           else mbind mget (\<lambda>s.
             if qe_pending_cleanup env (rj_cluster job) (rj_job_id job) (qs_other s) then mret None
             else
               mbind (read_capacity (lease_capacity_snapshot cluster)) (\<lambda>(active_counts, global_lease_total).
               if global_lease_total \<ge> MAX_LIVE_LEASE_RECORDS then mret None
               else if (case map_of limits (rj_kind job) of None \<Rightarrow> False
                         | Some n \<Rightarrow> dict_get active_counts (rj_kind job) 0 \<ge> n) then mret None
               else mbind (lease_job env job endpoint_id ttl_seconds (Some global_lease_total)) (\<lambda>lease.
                    mret (Some lease)))))))))))))"

end
