(* ===== verification/QueueRuns.thy ===== *)
theory QueueRuns
  imports LeaseAdmission LeaseIndexRefinement
begin

text \<open>
  Symbolic execution of queue operations with crashes. The durable content of a store is a map
  from cells (one per file) to values; every durable step changes one cell. \<open>runs P \<sigma> m Q\<close> says: from
  every well-formed store with content \<open>\<sigma>\<close>, \<open>m\<close> never raises, an uninterrupted run ends with a result
  and a content that satisfy \<open>Q\<close>, and a run that crashes leaves a content that satisfies \<open>P\<close>. The rules
  below compute with it backwards, one per primitive.
\<close>

section \<open>Content of a store\<close>

datatype cell =
    JobCell string | ActiveCell string | QueuedCell string | LeaseCell string
  | JobLeaseCell "string \<times> string" | IndexCell path | AggregateCell | CheckpointCell
  | IntentCell string | EventCell "string \<times> int" | JobIndexCell string | DocCell "string \<times> string"

datatype cell_value =
    JobV RelayJob | LeaseV Lease | NodeV lease_node | DocV json | IntentV queue_intent | EventV RelayEvent

type_synonym content = "cell \<Rightarrow> cell_value option"

fun cells :: "'x queue_state \<Rightarrow> content" where
  "cells s (JobCell k) = map_option JobV (map_of (qs_jobs s) k)"
| "cells s (ActiveCell k) = map_option JobV (map_of (qs_active s) k)"
| "cells s (QueuedCell k) = map_option JobV (map_of (qs_queued s) k)"
| "cells s (LeaseCell k) = map_option LeaseV (map_of (qs_leases s) k)"
| "cells s (JobLeaseCell k) = map_option LeaseV (map_of (qs_job_leases s) k)"
| "cells s (IndexCell p) = map_option NodeV (file_view (qs_index s) p)"
| "cells s AggregateCell = map_option DocV (cf_aggregate (qs_capacity s))"
| "cells s CheckpointCell = map_option DocV (cf_checkpoint (qs_capacity s))"
| "cells s (IntentCell k) = map_option IntentV (map_of (qs_intents s) k)"
| "cells s (EventCell k) = map_option EventV (map_of (qs_events s) k)"
| "cells s (JobIndexCell k) = map_option DocV (map_of (qs_job_indexes s) k)"
| "cells s (DocCell k) = map_option DocV (map_of (qs_docs s) k)"

definition wf_store :: "'x queue_state \<Rightarrow> bool" where
  "wf_store s \<longleftrightarrow> fs_ok (qs_index s) \<and> cf_fault (qs_capacity s) = None \<and> distinct (map fst (qs_intents s))
     \<and> distinct (map fst (qs_active s))"

definition holds :: "content \<Rightarrow> 'x queue_state \<Rightarrow> bool" where
  "holds \<sigma> s \<longleftrightarrow> wf_store s \<and> cells s = \<sigma>"

fun good_outcome ::
  "(content \<Rightarrow> bool) \<Rightarrow> ('a \<Rightarrow> content \<Rightarrow> bool) \<Rightarrow> nat option \<Rightarrow> queue_exn + 'a \<Rightarrow> 'x queue_state \<Rightarrow> bool" where
  "good_outcome P Q budget (Inr x) s' \<longleftrightarrow> wf_store s' \<and> Q x (cells s') \<and> (budget = None \<longrightarrow> qs_budget s' = None)"
| "good_outcome P Q budget (Inl Crashed) s' \<longleftrightarrow> wf_store s' \<and> P (cells s') \<and> budget \<noteq> None"
| "good_outcome P Q budget (Inl (Raised e)) s' \<longleftrightarrow> False"

definition runs ::
  "(content \<Rightarrow> bool) \<Rightarrow> content \<Rightarrow> ('x, 'a) queue_op \<Rightarrow> ('a \<Rightarrow> content \<Rightarrow> bool) \<Rightarrow> bool" where
  "runs P \<sigma> m Q \<longleftrightarrow> (\<forall>s. holds \<sigma> s \<longrightarrow> good_outcome P Q (qs_budget s) (fst (m s)) (snd (m s)))"

lemma runsI: "(\<And>s. holds \<sigma> s \<Longrightarrow> good_outcome P Q (qs_budget s) (fst (m s)) (snd (m s))) \<Longrightarrow> runs P \<sigma> m Q"
  by (simp add: runs_def)

lemma runsD: "runs P \<sigma> m Q \<Longrightarrow> holds \<sigma> s \<Longrightarrow> m s = (r, s') \<Longrightarrow> good_outcome P Q (qs_budget s) r s'"
  by (metis fst_conv runs_def snd_conv)

lemma good_outcome_cases:
  assumes "good_outcome P Q b r s'"
  obtains (finished) x where "r = Inr x" "wf_store s'" "Q x (cells s')" "b = None \<longrightarrow> qs_budget s' = None"
  | (crashed) "r = Inl Crashed" "wf_store s'" "P (cells s')" "b \<noteq> None"
  using assms by (cases "(P, Q, b, r, s')" rule: good_outcome.cases) auto

lemma holds_cells: "holds \<sigma> s \<Longrightarrow> \<sigma> c = cells s c"
  by (simp add: holds_def)

lemma cells_irrelevant [simp]:
  "cells (s\<lparr>qs_draws := n\<rparr>) = cells s"
  "cells (s\<lparr>qs_budget := b\<rparr>) = cells s"
  "cells (s\<lparr>qs_other := x\<rparr>) = cells s"
  by (rule ext, rename_tac c, case_tac c, simp_all)+

lemma wf_irrelevant [simp]:
  "wf_store (s\<lparr>qs_draws := n\<rparr>) = wf_store s"
  "wf_store (s\<lparr>qs_budget := b\<rparr>) = wf_store s"
  "wf_store (s\<lparr>qs_other := x\<rparr>) = wf_store s"
  by (simp_all add: wf_store_def)

text \<open>What a proved run says about a concrete execution.\<close>

lemma runs_uninterrupted:
  assumes "runs P \<sigma> m Q" "holds \<sigma> s" "qs_budget s = None"
  obtains x s' where "m s = (Inr x, s')" "wf_store s'" "Q x (cells s')" "qs_budget s' = None"
proof -
  obtain r s' where ms: "m s = (r, s')" by fastforce
  from runsD [OF assms(1,2) ms] show ?thesis
    by (cases rule: good_outcome_cases) (use ms assms(3) that in auto)
qed

lemma runs_outcome:
  assumes "runs P \<sigma> m Q" "holds \<sigma> s" "m s = (r, s')"
  shows "wf_store s' \<and> ((\<exists>x. r = Inr x \<and> Q x (cells s')) 
    \<or> r = Inl Crashed \<and> qs_budget s \<noteq> None \<and> P (cells s'))"
  by (rule good_outcome_cases [OF runsD [OF assms]]) auto

section \<open>Rules\<close>

lemma runs_mbind:
  fixes m :: "('x, 'a) queue_op"
  assumes "runs P \<sigma> m (\<lambda>x \<tau>. runs P \<tau> (f x) Q)"
  shows "runs P \<sigma> (mbind m f) Q"
proof (rule runsI)
  fix s :: "'x queue_state"
  assume h: "holds \<sigma> s"
  obtain r s' where ms: "m s = (r, s')" by fastforce
  from runsD [OF assms h ms] show "good_outcome P Q (qs_budget s) (fst (mbind m f s)) (snd (mbind m f s))"
  proof (cases rule: good_outcome_cases)
    case (finished x)
    obtain r2 s2 where f: "f x s' = (r2, s2)" by fastforce
    have "holds (cells s') s'" using finished(2) by (simp add: holds_def)
    from runsD [OF finished(3) this f] show ?thesis
      by (cases rule: good_outcome_cases) (use ms f finished in \<open>auto simp: mbind_app\<close>)
  qed (use ms in \<open>auto simp: mbind_app\<close>)
qed

lemma good_outcome_mono:
  "good_outcome P Q b r s \<Longrightarrow> (\<And>x \<tau>. Q x \<tau> \<Longrightarrow> Q' x \<tau>) \<Longrightarrow> (\<And>\<tau>. P \<tau> \<Longrightarrow> P' \<tau>) \<Longrightarrow> good_outcome P' Q' b r s"
  by (erule good_outcome_cases) auto

lemma runs_weaken: "runs P \<sigma> m R \<Longrightarrow> (\<And>x \<tau>. R x \<tau> \<Longrightarrow> Q x \<tau>) \<Longrightarrow> runs P \<sigma> m Q"
  unfolding runs_def by (blast intro: good_outcome_mono)

lemma runs_weaken_crash: "runs P \<sigma> m Q \<Longrightarrow> (\<And>\<tau>. P \<tau> \<Longrightarrow> P' \<tau>) \<Longrightarrow> runs P' \<sigma> m Q"
  unfolding runs_def by (blast intro: good_outcome_mono)

lemma runs_mret: "Q x \<sigma> \<Longrightarrow> runs P \<sigma> (mret x) Q"
  by (auto simp: runs_def holds_def)

lemma runs_mcheck: "ok \<Longrightarrow> Q () \<sigma> \<Longrightarrow> runs P \<sigma> (mcheck ok e) Q"
  by (auto simp: runs_def holds_def)

lemma runs_qlift: "r = Inr x \<Longrightarrow> Q x \<sigma> \<Longrightarrow> runs P \<sigma> (qlift r) Q"
  by (auto simp: runs_def qlift_def holds_def)

lemma runs_mget: "(\<And>s. holds \<sigma> s \<Longrightarrow> runs P \<sigma> (f s) Q) \<Longrightarrow> runs P \<sigma> (mbind mget f) Q"
  by (auto simp: runs_def)

lemma runs_utc_now: "(\<And>t. Q t \<sigma>) \<Longrightarrow> runs P \<sigma> (utc_now env) Q"
  by (auto simp: runs_def utc_now_def holds_def)

lemma runs_uuid4_hex: "(\<And>n. Q (qe_uuid env n) \<sigma>) \<Longrightarrow> runs P \<sigma> (uuid4_hex env) Q"
  by (auto simp: runs_def uuid4_hex_def holds_def)

text \<open>A durable step: the content before it satisfies the crash condition.\<close>

lemma runs_tick:
  assumes "P \<sigma>" "Q () \<sigma>"
  shows "runs P \<sigma> tick Q"
proof (rule runsI)
  fix s :: "'x queue_state"
  assume "holds \<sigma> s"
  then show "good_outcome P Q (qs_budget s) (fst (tick s)) (snd (tick s))"
    using assms by (cases "qs_budget s"; cases "the (qs_budget s)") (auto simp: tick_def holds_def)
qed

lemma runs_durable:
  assumes "P \<sigma>" "Q () \<tau>"
    and "\<And>s. holds \<sigma> s \<Longrightarrow> holds \<tau> (f s) \<and> qs_budget (f s) = qs_budget s"
  shows "runs P \<sigma> (durable f) Q"
  unfolding durable_def
  by (rule runs_mbind, rule runs_tick [of P, OF assms(1)]) (use assms in \<open>auto simp: runs_def holds_def\<close>)

lemma runs_on_part:
  fixes get :: "'x queue_state \<Rightarrow> 'p"
  assumes "\<And>s. holds \<sigma> s \<Longrightarrow> \<exists>x p. m (get s) = (Inr x, p) \<and> wf_store (put p s)
      \<and> Q x (cells (put p s)) \<and> qs_budget (put p s) = qs_budget s"
  shows "runs P \<sigma> (on_part get put m) Q"
proof (rule runsI)
  fix s :: "'x queue_state"
  assume "holds \<sigma> s"
  from assms [OF this] show
    "good_outcome P Q (qs_budget s) (fst (on_part get put m s)) (snd (on_part get put m s))"
    by (auto simp: on_part_def)
qed

section \<open>Steps on record families\<close>

lemma cells_update [simp]:
  "cells (qs_jobs_update (AList.update k j) s) = (cells s)(JobCell k \<mapsto> JobV j)"
  "cells (qs_active_update (AList.update k j) s) = (cells s)(ActiveCell k \<mapsto> JobV j)"
  "cells (qs_queued_update (AList.update k j) s) = (cells s)(QueuedCell k \<mapsto> JobV j)"
  "cells (qs_leases_update (AList.update k l) s) = (cells s)(LeaseCell k \<mapsto> LeaseV l)"
  "cells (qs_job_leases_update (AList.update kk l) s) = (cells s)(JobLeaseCell kk \<mapsto> LeaseV l)"
  "cells (qs_intents_update (AList.update k i) s) = (cells s)(IntentCell k \<mapsto> IntentV i)"
  "cells (qs_events_update (AList.update ke e) s) = (cells s)(EventCell ke \<mapsto> EventV e)"
  "cells (qs_job_indexes_update (AList.update k d) s) = (cells s)(JobIndexCell k \<mapsto> DocV d)"
  "cells (qs_docs_update (AList.update kk d) s) = (cells s)(DocCell kk \<mapsto> DocV d)"
  by (rule ext, rename_tac c, case_tac c, simp_all)+

lemma cells_delete [simp]:
  "cells (qs_active_update (AList.delete k) s) = (cells s)(ActiveCell k := None)"
  "cells (qs_queued_update (AList.delete k) s) = (cells s)(QueuedCell k := None)"
  "cells (qs_leases_update (AList.delete k) s) = (cells s)(LeaseCell k := None)"
  "cells (qs_job_leases_update (AList.delete kk) s) = (cells s)(JobLeaseCell kk := None)"
  "cells (qs_intents_update (AList.delete k) s) = (cells s)(IntentCell k := None)"
  by (rule ext, rename_tac c, case_tac c, simp_all)+

lemma wf_update [simp]:
  "wf_store s \<Longrightarrow> wf_store (qs_jobs_update f1 s)"
  "wf_store s \<Longrightarrow> wf_store (qs_active_update (AList.update k j) s)"
  "wf_store s \<Longrightarrow> wf_store (qs_active_update (AList.delete k) s)"
  "wf_store s \<Longrightarrow> wf_store (qs_queued_update f1 s)"
  "wf_store s \<Longrightarrow> wf_store (qs_leases_update f2 s)"
  "wf_store s \<Longrightarrow> wf_store (qs_job_leases_update f3 s)"
  "wf_store s \<Longrightarrow> wf_store (qs_events_update f4 s)"
  "wf_store s \<Longrightarrow> wf_store (qs_job_indexes_update f5 s)"
  "wf_store s \<Longrightarrow> wf_store (qs_docs_update f6 s)"
  "wf_store s \<Longrightarrow> wf_store (qs_intents_update (AList.update k i) s)"
  "wf_store s \<Longrightarrow> wf_store (qs_intents_update (AList.delete k) s)"
  by (simp_all add: wf_store_def distinct_aupdate distinct_adelete)

named_theorems run_rules \<open>backward rules for the primitives of the store\<close>

lemma runs_writes [run_rules]:
  "P \<sigma> \<Longrightarrow> Q () (\<sigma>(JobCell (rj_job_id j) \<mapsto> JobV j)) \<Longrightarrow> runs P \<sigma> (write_job_record j) Q"
  "P \<sigma> \<Longrightarrow> Q () (\<sigma>(ActiveCell (rj_job_id j) \<mapsto> JobV j)) \<Longrightarrow> runs P \<sigma> (write_active j) Q"
  "P \<sigma> \<Longrightarrow> Q () (\<sigma>(QueuedCell (rj_job_id j) \<mapsto> JobV j)) \<Longrightarrow> runs P \<sigma> (write_queued j) Q"
  "P \<sigma> \<Longrightarrow> Q () (\<sigma>(LeaseCell (le_lease_id l) \<mapsto> LeaseV l)) \<Longrightarrow> runs P \<sigma> (write_lease l) Q"
  "P \<sigma> \<Longrightarrow> Q () (\<sigma>(EventCell (re_job_id e, re_seq e) \<mapsto> EventV e)) \<Longrightarrow> runs P \<sigma> (write_event e) Q"
  "P \<sigma> \<Longrightarrow> Q () (\<sigma>(JobIndexCell k \<mapsto> DocV (JObj d))) \<Longrightarrow> runs P \<sigma> (write_job_index k d) Q"
  "P \<sigma> \<Longrightarrow> Q () (\<sigma>(ActiveCell k := None)) \<Longrightarrow> runs P \<sigma> (unlink_active k) Q"
  "P \<sigma> \<Longrightarrow> Q () (\<sigma>(QueuedCell k := None)) \<Longrightarrow> runs P \<sigma> (unlink_queued k) Q"
  "P \<sigma> \<Longrightarrow> Q () (\<sigma>(LeaseCell k := None)) \<Longrightarrow> runs P \<sigma> (unlink_lease k) Q"
  "P \<sigma> \<Longrightarrow> Q () (\<sigma>(IntentCell k := None)) \<Longrightarrow> runs P \<sigma> (unlink_intent k) Q"
  unfolding write_job_record_def write_active_def write_queued_def write_lease_def write_event_def
    write_job_index_def unlink_active_def unlink_queued_def unlink_lease_def unlink_intent_def
  by (erule runs_durable, assumption, simp add: holds_def)+

lemma runs_job_lease [run_rules]:
  "durable_id (le_job_id l) \<Longrightarrow> durable_id (le_lease_id l) \<Longrightarrow> P \<sigma>
     \<Longrightarrow> Q () (\<sigma>(JobLeaseCell (le_job_id l, le_lease_id l) \<mapsto> LeaseV l)) \<Longrightarrow> runs P \<sigma> (write_job_lease l) Q"
  "durable_id j \<Longrightarrow> durable_id k \<Longrightarrow> P \<sigma>
     \<Longrightarrow> Q () (\<sigma>(JobLeaseCell (j, k) := None)) \<Longrightarrow> runs P \<sigma> (unlink_job_lease j k) Q"
  unfolding write_job_lease_def unlink_job_lease_def job_record_key_def
  by (intro runs_mbind runs_qlift runs_mret runs_durable; simp add: holds_def)+

lemma runs_write_intent [run_rules]:
  "P \<sigma> \<Longrightarrow> Q (intent_name kind identity) (\<sigma>(IntentCell (intent_name kind identity) \<mapsto> IntentV i))
     \<Longrightarrow> runs P \<sigma> (write_transition_intent env kind identity i) Q"
  unfolding write_transition_intent_def
  by (intro runs_mbind runs_utc_now runs_durable runs_mret; simp add: holds_def)

lemma runs_on_other [run_rules]:
  assumes "P \<sigma>" "\<And>x. \<exists>x'. m x = (Inr v, x')" "Q v \<sigma>"
  shows "runs P \<sigma> (on_other m) Q"
proof -
  have "\<exists>x p. m (qs_other s) = (Inr x, p) \<and> wf_store (s\<lparr>qs_other := p\<rparr>)
      \<and> Q x (cells (s\<lparr>qs_other := p\<rparr>)) \<and> qs_budget (s\<lparr>qs_other := p\<rparr>) = qs_budget s"
    if "holds \<sigma> s" for s
    using assms(2) [of "qs_other s"] assms(3) that by (auto simp: holds_def)
  then show ?thesis
    unfolding on_other_def by (intro runs_mbind runs_tick runs_on_part) (use assms(1) in auto)
qed

lemma cell_value_eq [simp]:
  "map_option JobV a = map_option JobV b \<longleftrightarrow> a = b"
  "map_option LeaseV a' = map_option LeaseV b' \<longleftrightarrow> a' = b'"
  "map_option NodeV v = map_option NodeV w \<longleftrightarrow> v = w"
  "map_option DocV c = map_option DocV d \<longleftrightarrow> c = d"
  "map_option IntentV e = map_option IntentV f \<longleftrightarrow> e = f"
  "map_option EventV g = map_option EventV h \<longleftrightarrow> g = h"
  by (auto simp: option.inj_map_strong option.map_sel elim!: option.inj_map_strong [rotated])

lemma runs_read_job [run_rules]:
  assumes "\<sigma> (JobCell k) = map_option JobV r" "\<And>j. r = Some j \<Longrightarrow> rj_job_id j = k \<and> durable_id k" "Q r \<sigma>"
  shows "runs P \<sigma> (read_optional_job k) Q"
  unfolding read_optional_job_def
proof (rule runs_mget, rule runs_qlift)
  fix s :: "'x queue_state" assume "holds \<sigma> s"
  then have "map_of (qs_jobs s) k = r"
    using assms(1) by (auto dest!: holds_cells [of \<sigma> s "JobCell k"])
  then show "read_bound rj_job_id ''jobs'' ''job'' (qs_jobs s) k = Inr r"
    using assms(2) by (auto simp: read_bound_def validate_durable_id split: option.splits)
qed (rule assms(3))

lemma runs_read_lease [run_rules]:
  assumes "\<sigma> (LeaseCell k) = map_option LeaseV r" "\<And>l. r = Some l \<Longrightarrow> le_lease_id l = k \<and> durable_id k" "Q r \<sigma>"
  shows "runs P \<sigma> (read_optional_lease k) Q"
  unfolding read_optional_lease_def
proof (rule runs_mget, rule runs_qlift)
  fix s :: "'x queue_state" assume "holds \<sigma> s"
  then have "map_of (qs_leases s) k = r"
    using assms(1) by (auto dest!: holds_cells [of \<sigma> s "LeaseCell k"])
  then show "read_bound le_lease_id ''leases'' ''lease'' (qs_leases s) k = Inr r"
    using assms(2) by (auto simp: read_bound_def validate_durable_id split: option.splits)
qed (rule assms(3))

lemma runs_get_job [run_rules]:
  assumes "\<sigma> (JobCell k) = Some (JobV j)" "rj_job_id j = k" "durable_id k" "Q j \<sigma>"
  shows "runs P \<sigma> (get_job k) Q"
  unfolding get_job_def
  by (intro runs_mbind runs_qlift runs_read_job [where r = "Some j"]) (use assms in \<open>auto intro!: runs_mbind runs_mcheck runs_mret\<close>)

section \<open>Steps on the lease indexes\<close>

definition with_index :: "(path \<rightharpoonup> lease_node) \<Rightarrow> content \<Rightarrow> content" where
  "with_index v \<sigma> = (\<lambda>c. case c of IndexCell p \<Rightarrow> map_option NodeV (v p) | _ \<Rightarrow> \<sigma> c)"

lemma cells_index: "cells (s\<lparr>qs_index := fs\<rparr>) = with_index (file_view fs) (cells s)"
  by (rule ext, rename_tac c, case_tac c) (simp_all add: with_index_def)

lemma with_index_same: "file_view (qs_index s) = v \<Longrightarrow> with_index v (cells s) = cells s"
  by (rule ext, rename_tac c, case_tac c) (simp_all add: with_index_def)

lemma with_index_upd:
  "file_view (qs_index s) = v \<Longrightarrow> with_index (v(p := n)) (cells s) = (cells s)(IndexCell p := map_option NodeV n)"
  by (rule ext, rename_tac c, case_tac c) (auto simp: with_index_def)

lemma runs_read_index:
  assumes "\<And>fs. fs_ok fs \<Longrightarrow> (\<And>p. \<sigma> (IndexCell p) = map_option NodeV (file_view fs p)) \<Longrightarrow> \<exists>x fs'. m fs = (Inr x, fs')
      \<and> fs_ok fs' \<and> file_view fs' = file_view fs \<and> Q x \<sigma>"
  shows "runs P \<sigma> (read_index m) Q"
proof (rule runs_on_part)
  fix s :: "'x queue_state" assume h: "holds \<sigma> s"
  then have "fs_ok (qs_index s)" "\<And>p. \<sigma> (IndexCell p) = map_option NodeV (file_view (qs_index s) p)"
    by (auto simp: holds_def wf_store_def)
  from assms [OF this] obtain x fs' where "m (qs_index s) = (Inr x, fs')" "fs_ok fs'"
    "file_view fs' = file_view (qs_index s)" "Q x \<sigma>" by blast
  with h show "\<exists>x p. m (qs_index s) = (Inr x, p) \<and> wf_store (s\<lparr>qs_index := p\<rparr>)
      \<and> Q x (cells (s\<lparr>qs_index := p\<rparr>)) \<and> qs_budget (s\<lparr>qs_index := p\<rparr>) = qs_budget s"
    by (auto simp: holds_def wf_store_def cells_index with_index_same)
qed

lemma runs_on_index:
  assumes "P \<sigma>"
    and "\<And>fs. fs_ok fs \<Longrightarrow> (\<And>p. \<sigma> (IndexCell p) = map_option NodeV (file_view fs p)) \<Longrightarrow> \<exists>fs'. m fs = (Inr x, fs')
      \<and> fs_ok fs' \<and> file_view fs' = (file_view fs)(p := n)"
    and "Q x (\<sigma>(IndexCell p := map_option NodeV n))"
  shows "runs P \<sigma> (on_index m) Q"
  unfolding on_index_def
proof (intro runs_mbind runs_tick runs_on_part)
  fix s :: "'x queue_state" assume h: "holds \<sigma> s"
  then have "fs_ok (qs_index s)" "\<And>p. \<sigma> (IndexCell p) = map_option NodeV (file_view (qs_index s) p)"
    by (auto simp: holds_def wf_store_def)
  from assms(2) [OF this] obtain fs' where "m (qs_index s) = (Inr x, fs')" "fs_ok fs'"
    "file_view fs' = (file_view (qs_index s))(p := n)" by blast
  with h assms(3) show "\<exists>x p. m (qs_index s) = (Inr x, p) \<and> wf_store (s\<lparr>qs_index := p\<rparr>)
      \<and> Q x (cells (s\<lparr>qs_index := p\<rparr>)) \<and> qs_budget (s\<lparr>qs_index := p\<rparr>) = qs_budget s"
    by (auto simp: holds_def wf_store_def cells_index with_index_upd)
qed (rule assms(1))

lemma runs_write_ref [run_rules]:
  "index_file p \<Longrightarrow> P \<sigma> \<Longrightarrow> Q () (\<sigma>(IndexCell p \<mapsto> NodeV LRef)) \<Longrightarrow> runs P \<sigma> (on_index (write_ref p)) Q"
  by (rule runs_on_index [where p = p and n = "Some LRef"]) (auto dest: write_ref_ok)

lemma runs_delete_ref [run_rules]:
  "index_file p \<Longrightarrow> P \<sigma> \<Longrightarrow> Q () (\<sigma>(IndexCell p := None)) \<Longrightarrow> runs P \<sigma> (on_index (delete_ref p)) Q"
  by (rule runs_on_index [where p = p and n = None]) (auto dest: delete_ref_ok)

lemma runs_write_manifest [run_rules]:
  assumes "P \<sigma>" "wf_identity codec i"
    and "\<sigma> (IndexCell (lease_index_path (li_lease_id i))) = None \<or>
      (\<exists>j. \<sigma> (IndexCell (lease_index_path (li_lease_id i))) = Some (NodeV (LDoc (lease_index_document (iso_format codec) j)))
         \<and> wf_identity codec j \<and> li_lease_id j = li_lease_id i)"
    and "Q () (\<sigma>(IndexCell (lease_index_path (li_lease_id i)) \<mapsto> NodeV (LDoc (lease_index_document (iso_format codec) i))))"
  shows "runs P \<sigma> (on_index (write_lease_index_identity codec i)) Q"
proof (rule runs_on_index [where p = "lease_index_path (li_lease_id i)"
        and n = "Some (LDoc (lease_index_document (iso_format codec) i))"])
  fix fs assume fs: "fs_ok fs" and view: "\<And>p. \<sigma> (IndexCell p) = map_option NodeV (file_view fs p)"
  show "\<exists>fs'. write_lease_index_identity codec i fs = (Inr (), fs') \<and> fs_ok fs'
      \<and> file_view fs' = (file_view fs)(lease_index_path (li_lease_id i) := Some (LDoc (lease_index_document (iso_format codec) i)))"
    by (rule write_manifest_ok [OF fs assms(2)]) (use assms(3) view in auto)
qed (use assms in auto)

lemma runs_remove_empty [run_rules]:
  assumes "is_index_dir d" "d \<noteq> []" "P \<sigma>" "Q () \<sigma>"
  shows "runs P \<sigma> (on_index (remove_empty_directory d)) Q"
  unfolding on_index_def
  by (intro runs_mbind runs_tick runs_read_index) (use assms remove_empty_directory_ok in \<open>blast+\<close>)

lemma runs_unlink_manifest [run_rules]:
  assumes "index_file p" "\<sigma> (IndexCell p) \<noteq> None" "P \<sigma>" "Q () (\<sigma>(IndexCell p := None))"
  shows "runs P \<sigma> (on_index (LeaseIndexes.unlink_durable_path False p)) Q"
proof (rule runs_on_index [where p = p and n = None])
  fix fs assume fs: "fs_ok fs" and view: "\<And>p. \<sigma> (IndexCell p) = map_option NodeV (file_view fs p)"
  have "map_of fs p \<noteq> None"
    using view [of p] assms(1,2) by (auto simp: file_view_def index_file_def)
  with unlink_ok [OF fs assms(1), of False]
  show "\<exists>fs'. LeaseIndexes.unlink_durable_path False p fs = (Inr (), fs') \<and> fs_ok fs'
      \<and> file_view fs' = (file_view fs)(p := None)" by blast
qed (use assms in auto)

lemma runs_read_manifest [run_rules]:
  assumes "wf_identity codec i"
    and "\<sigma> (IndexCell (lease_index_path (li_lease_id i))) = Some (NodeV (LDoc (lease_index_document (iso_format codec) i)))"
    and "Q i \<sigma>"
  shows "runs P \<sigma> (read_index (read_lease_index_identity_by_token codec (lease_token i) None)) Q"
proof (rule runs_read_index)
  fix fs assume fs: "fs_ok fs" and view: "\<And>p. \<sigma> (IndexCell p) = map_option NodeV (file_view fs p)"
  have "file_view fs (lease_index_path (li_lease_id i)) = Some (LDoc (lease_index_document (iso_format codec) i))"
    using view assms(2) by simp
  from read_manifest [OF fs assms(1) this]
  show "\<exists>x fs'. read_lease_index_identity_by_token codec (lease_token i) None fs = (Inr x, fs')
      \<and> fs_ok fs' \<and> file_view fs' = file_view fs \<and> Q x \<sigma>" using fs assms(3) by blast
qed

section \<open>Mixtures of two contents\<close>

text \<open>\<open>between \<sigma> \<tau> \<rho>\<close>: every cell of \<open>\<rho>\<close> has its value in \<open>\<sigma>\<close> or its value in \<open>\<tau>\<close>.\<close>

definition between :: "content \<Rightarrow> content \<Rightarrow> content \<Rightarrow> bool" where
  "between \<sigma> \<tau> \<rho> \<longleftrightarrow> (\<forall>c. \<rho> c = \<sigma> c \<or> \<rho> c = \<tau> c)"

definition over :: "content \<Rightarrow> cell set \<Rightarrow> content \<Rightarrow> content" where
  "over \<sigma> A \<tau> = (\<lambda>c. if c \<in> A then \<tau> c else \<sigma> c)"

lemma between_left [simp]: "between \<sigma> \<tau> \<sigma>"
  and between_right [simp]: "between \<sigma> \<tau> \<tau>"
  and between_over [simp]: "between \<sigma> \<tau> (over \<sigma> A \<tau>)"
  by (simp_all add: between_def over_def)

lemma between_upd: "between \<sigma> \<tau> \<rho> \<Longrightarrow> v = \<sigma> c \<or> v = \<tau> c \<Longrightarrow> between \<sigma> \<tau> (\<rho>(c := v))"
  by (auto simp: between_def)

lemma between_trans: "between \<sigma> \<tau> \<rho> \<Longrightarrow> between \<sigma> \<tau> \<rho>' \<Longrightarrow> between \<rho> \<rho>' \<mu> \<Longrightarrow> between \<sigma> \<tau> \<mu>"
  unfolding between_def by metis

lemma runs_mseq:
  assumes "\<And>p \<rho> R. p \<in> set ps \<Longrightarrow> P \<rho> \<Longrightarrow> R () (\<rho>(C p := \<tau> (C p))) \<Longrightarrow> runs P \<rho> (f p) R"
    and "\<And>A. A \<subseteq> C ` set ps \<Longrightarrow> P (over \<sigma> A \<tau>)"
    and "Q () (over \<sigma> (C ` set ps) \<tau>)"
  shows "runs P \<sigma> (mseq f ps) Q"
  using assms
proof (induction ps arbitrary: \<sigma>)
  case Nil
  then show ?case by (simp only: mseq.simps) (rule runs_mret, simp add: over_def)
next
  case (Cons p ps)
  have step: "over (\<sigma>(C p := \<tau> (C p))) A \<tau> = over \<sigma> (insert (C p) A) \<tau>" for A
    by (auto simp: over_def)
  have start: "P \<sigma>" using Cons.prems(2) [of "{}"] by (simp add: over_def)
  have IH: "runs P (\<sigma>(C p := \<tau> (C p))) (mseq f ps) Q"
  proof (rule Cons.IH)
    show "P (over (\<sigma>(C p := \<tau> (C p))) A \<tau>)" if "A \<subseteq> C ` set ps" for A
      unfolding step using that by (intro Cons.prems(2)) auto
    show "Q () (over (\<sigma>(C p := \<tau> (C p))) (C ` set ps) \<tau>)"
      unfolding step using Cons.prems(3) by simp
  qed (auto intro: Cons.prems(1))
  show ?case
    by (simp only: mseq.simps, rule runs_mbind, rule Cons.prems(1) [OF _ start], simp, rule IH)
qed

section \<open>The index files of one lease\<close>

definition set_files :: "iso_codec \<Rightarrow> LeaseIndexIdentity \<Rightarrow> content \<Rightarrow> content" where
  "set_files codec i \<sigma> = (\<lambda>c. case c of
       IndexCell p \<Rightarrow> (case lease_files codec i p of Some n \<Rightarrow> Some (NodeV n) | None \<Rightarrow> \<sigma> c)
     | _ \<Rightarrow> \<sigma> c)"

definition clear_files :: "iso_codec \<Rightarrow> LeaseIndexIdentity \<Rightarrow> content \<Rightarrow> content" where
  "clear_files codec i \<sigma> = (\<lambda>c. case c of
       IndexCell p \<Rightarrow> (if lease_files codec i p \<noteq> None then None else \<sigma> c)
     | _ \<Rightarrow> \<sigma> c)"

definition no_index :: "content \<Rightarrow> content" where
  "no_index \<sigma> = (\<lambda>c. case c of IndexCell p \<Rightarrow> None | _ \<Rightarrow> \<sigma> c)"

lemma ref_path_in_files: "p \<in> set (lease_ref_paths i) \<Longrightarrow> lease_files codec i p = Some LRef"
  by (simp add: lease_files_def)

lemma manifest_in_files:
  "lease_files codec i (lease_index_path (li_lease_id i)) = Some (LDoc (lease_index_document (iso_format codec) i))"
  by (simp add: lease_files_def index_path_not_ref)

lemma clear_files_over:
  assumes "\<sigma> (IndexCell (lease_index_path (li_lease_id i))) = None \<or> IndexCell (lease_index_path (li_lease_id i)) \<in> A"
    and "IndexCell ` set (lease_ref_paths i) \<subseteq> A"
    and "A \<subseteq> IndexCell ` insert (lease_index_path (li_lease_id i)) (set (lease_ref_paths i))"
  shows "over \<sigma> A (no_index \<sigma>) = clear_files codec i \<sigma>"
  using assms
  by (auto simp: over_def clear_files_def no_index_def lease_files_def fun_eq_iff index_path_not_ref
      split: cell.splits)

lemma between_clear:
  assumes "A \<subseteq> IndexCell ` insert (lease_index_path (li_lease_id i)) (set (lease_ref_paths i))"
  shows "between \<sigma> (clear_files codec i \<sigma>) (over \<sigma> A (no_index \<sigma>))"
  using assms
  by (auto simp: between_def over_def clear_files_def no_index_def lease_files_def split: cell.splits)

lemma index_lookup:
  assumes "holds \<sigma> s"
  shows "map_of (qs_index s) (lease_index_path l) = None \<longleftrightarrow> \<sigma> (IndexCell (lease_index_path l)) = None"
  using holds_cells [OF assms, of "IndexCell (lease_index_path l)"] by simp

lemma runs_delete_indexes [run_rules]:
  fixes env :: "'x queue_env"
  assumes "wf_identity (qe_codec env) i"
    and "\<sigma> (IndexCell (lease_index_path (li_lease_id i))) \<in>
      {None, Some (NodeV (LDoc (lease_index_document (iso_format (qe_codec env)) i)))}"
    and "\<And>\<rho>. between \<sigma> (clear_files (qe_codec env) i \<sigma>) \<rho> \<Longrightarrow> P \<rho>"
    and "Q () (clear_files (qe_codec env) i \<sigma>)"
  shows "runs P \<sigma> (delete_operational_indexes env i allow) Q"
proof -
  let ?mp = "lease_index_path (li_lease_id i)"
  let ?refs = "IndexCell ` set (lease_ref_paths i)"
  let ?\<sigma>r = "over \<sigma> ?refs (no_index \<sigma>)"
  have files: "index_file ?mp" "\<And>p. p \<in> set (lease_ref_paths i) \<Longrightarrow> index_file p"
    using lease_paths_are_files by blast+
  have dir: "is_index_dir (butlast ?mp)" "butlast ?mp \<noteq> []"
    using files(1) by (simp_all add: index_file_def)
  have ends: "is_index_dir (lease_endpoint_directory (li_endpoint_id i))"
    "lease_endpoint_directory (li_endpoint_id i) \<noteq> []"
    by (rule endpoint_directory_ok)+
  have P: "A \<subseteq> IndexCell ` insert ?mp (set (lease_ref_paths i)) \<Longrightarrow> P (over \<sigma> A (no_index \<sigma>))" for A
    by (rule assms(3), rule between_clear)
  have mp: "?\<sigma>r (IndexCell ?mp) = \<sigma> (IndexCell ?mp)"
    by (auto simp: over_def index_path_not_ref)
  have tail: "runs P ?\<sigma>r (mbind (on_index (remove_empty_directory (lease_endpoint_directory (li_endpoint_id i))))
      (\<lambda>_. mbind mget (\<lambda>s' :: 'x queue_state. if owns \<and> map_of (qs_index s') ?mp \<noteq> None
         then on_index (LeaseIndexes.unlink_durable_path False ?mp) else mret ()))) Q"
    if owns: "owns = (\<sigma> (IndexCell ?mp) \<noteq> None)" for owns
  proof (rule runs_mbind, intro runs_remove_empty ends, goal_cases)
    case 1
    show ?case by (rule P) auto
  next
    case 2
    show ?case
    proof (rule runs_mget)
    fix s :: "'x queue_state" assume h: "holds ?\<sigma>r s"
    show "runs P ?\<sigma>r (if owns \<and> map_of (qs_index s) ?mp \<noteq> None
        then on_index (LeaseIndexes.unlink_durable_path False ?mp) else mret ()) Q"
    proof (cases owns)
      case True
      then have "\<sigma> (IndexCell ?mp) \<noteq> None" using owns by simp
      moreover have "?\<sigma>r(IndexCell ?mp := None) = clear_files (qe_codec env) i \<sigma>"
      proof -
        have "?\<sigma>r(IndexCell ?mp := None) = over \<sigma> (insert (IndexCell ?mp) ?refs) (no_index \<sigma>)"
          by (auto simp: over_def no_index_def)
        also have "\<dots> = clear_files (qe_codec env) i \<sigma>" by (rule clear_files_over) auto
        finally show ?thesis .
      qed
      ultimately show ?thesis
        using True index_lookup [OF h, of "li_lease_id i"] mp assms(4) P [of ?refs]
        by (auto intro!: runs_unlink_manifest files(1))
    next
      case False
      then have "?\<sigma>r = clear_files (qe_codec env) i \<sigma>"
        using owns by (intro clear_files_over) auto
      with False assms(4) show ?thesis by (auto intro: runs_mret)
    qed
    qed
  qed
  have refs: "runs P \<sigma> (mbind (mseq (\<lambda>p. on_index (delete_ref p)) (lease_ref_paths i)) (\<lambda>_.
      mbind (on_index (remove_empty_directory (lease_endpoint_directory (li_endpoint_id i))))
      (\<lambda>_. mbind mget (\<lambda>s' :: 'x queue_state. if owns \<and> map_of (qs_index s') ?mp \<noteq> None
         then on_index (LeaseIndexes.unlink_durable_path False ?mp) else mret ())))) Q"
    if "owns = (\<sigma> (IndexCell ?mp) \<noteq> None)" for owns
  proof (rule runs_mbind, rule runs_mseq [where C = IndexCell and \<tau> = "no_index \<sigma>"], goal_cases)
    case (1 p \<rho> R)
    then show ?case by (intro runs_delete_ref files(2)) (simp_all add: no_index_def)
  qed (use tail [OF that] P in auto)
  have read: "runs P \<sigma> (mbind mget (\<lambda>s. mbind
      (if map_of (qs_index s) ?mp = None then mret False
       else mbind (read_index (read_lease_index_identity_by_token (qe_codec env) (lease_token i) None))
              (\<lambda>indexed. if indexed = i then mret True
                 else mbind (qcheck allow (QueueConflictError (''lease operational index token is occupied: ''
                         @ li_lease_id i))) (\<lambda>_. mret False)))
      (\<lambda>owns. mbind (mseq (\<lambda>p. on_index (delete_ref p)) (lease_ref_paths i)) (\<lambda>_.
         mbind (on_index (remove_empty_directory (lease_endpoint_directory (li_endpoint_id i))))
         (\<lambda>_. mbind mget (\<lambda>s' :: 'x queue_state. if owns \<and> map_of (qs_index s') ?mp \<noteq> None
            then on_index (LeaseIndexes.unlink_durable_path False ?mp) else mret ())))))) Q"
  proof (rule runs_mget, goal_cases)
    case (1 s)
    show ?case
    proof (cases "\<sigma> (IndexCell ?mp)")
      case None
      then show ?thesis using index_lookup [OF 1, of "li_lease_id i"] refs [of False] by simp
    next
      case (Some v)
      then have here: "map_of (qs_index s) ?mp \<noteq> None"
        using index_lookup [OF 1, of "li_lease_id i"] by simp
      have doc: "\<sigma> (IndexCell ?mp) = Some (NodeV (LDoc (lease_index_document (iso_format (qe_codec env)) i)))"
        using Some assms(2) by simp
      show ?thesis
        by (simp only: here if_False, rule runs_mbind, rule runs_mbind,
            rule runs_read_manifest [where \<sigma> = \<sigma> and i = i, OF assms(1) doc], simp only: simp_thms if_True,
            rule runs_mret, rule refs, simp add: Some)
    qed
  qed
  have safe: "\<exists>b fs'. require_safe_lease_index_directory False (butlast ?mp) fs = (Inr b, fs')
      \<and> fs_ok fs' \<and> file_view fs' = file_view fs" if "fs_ok fs" for fs
    using require_safe_checks [OF that dir] that by blast
  show ?thesis
    unfolding delete_operational_indexes_def Let_def
    by (rule runs_mbind, rule runs_read_index, drule safe) (use read in blast)
qed

lemma set_files_over:
  assumes "IndexCell ` insert (lease_index_path (li_lease_id i)) (set (lease_ref_paths i)) \<subseteq> A"
    and "A \<subseteq> IndexCell ` insert (lease_index_path (li_lease_id i)) (set (lease_ref_paths i))"
  shows "over \<sigma> A (set_files codec i \<sigma>) = set_files codec i \<sigma>"
  using assms by (auto simp: over_def set_files_def lease_files_def fun_eq_iff split: cell.splits)

lemma runs_sync_writes:
  fixes env :: "'x queue_env"
  assumes "wf_identity (qe_codec env) i"
    and "\<sigma> (IndexCell (lease_index_path (li_lease_id i))) = None \<or>
      (\<exists>j. \<sigma> (IndexCell (lease_index_path (li_lease_id i))) =
           Some (NodeV (LDoc (lease_index_document (iso_format (qe_codec env)) j)))
         \<and> wf_identity (qe_codec env) j \<and> li_lease_id j = li_lease_id i)"
    and "\<And>\<rho>. between \<sigma> (set_files (qe_codec env) i \<sigma>) \<rho> \<Longrightarrow> P \<rho>"
    and "Q i (set_files (qe_codec env) i \<sigma>)"
  shows "runs P \<sigma> (mbind (on_index (write_lease_index_identity (qe_codec env) i)) (\<lambda>_.
     mbind (mseq (\<lambda>p. on_index (write_ref p))
              [lease_identity_ref_path i, lease_endpoint_ref_path i, lease_endpoint_guard_path i,
               lease_cluster_kind_ref_path i, lease_expiry_ref_path i]) (\<lambda>_ :: unit.
     (mret i :: ('x, LeaseIndexIdentity) queue_op)))) Q"
proof -
  let ?mp = "lease_index_path (li_lease_id i)"
  let ?\<tau> = "set_files (qe_codec env) i \<sigma>"
  let ?ps = "[lease_identity_ref_path i, lease_endpoint_ref_path i, lease_endpoint_guard_path i,
               lease_cluster_kind_ref_path i, lease_expiry_ref_path i]"
  let ?\<sigma>m = "\<sigma>(IndexCell ?mp \<mapsto> NodeV (LDoc (lease_index_document (iso_format (qe_codec env)) i)))"
  have ps: "set ?ps = set (lease_ref_paths i)" by (auto simp: lease_ref_paths_def)
  have files: "index_file p" if "p \<in> set ?ps" for p
    using that lease_paths_are_files(2) unfolding ps by blast
  have m: "?\<tau> (IndexCell ?mp) = Some (NodeV (LDoc (lease_index_document (iso_format (qe_codec env)) i)))"
    by (simp add: set_files_def manifest_in_files)
  have step: "over ?\<sigma>m A ?\<tau> = over \<sigma> (insert (IndexCell ?mp) A) ?\<tau>" for A
    by (auto simp: over_def m)
  have refs: "runs P ?\<sigma>m (mbind (mseq (\<lambda>p. on_index (write_ref p)) ?ps)
      (\<lambda>_ :: unit. (mret i :: ('x, LeaseIndexIdentity) queue_op))) Q"
  proof (rule runs_mbind, rule runs_mseq [where C = IndexCell and \<tau> = ?\<tau>], goal_cases)
    case (1 p \<rho> R)
    then have "?\<tau> (IndexCell p) = Some (NodeV LRef)"
      unfolding ps by (simp add: set_files_def ref_path_in_files)
    with 1 show ?case by (intro runs_write_ref files) simp_all
  next
    case (2 A)
    show ?case unfolding step by (rule assms(3)) simp
  next
    case 3
    have "over ?\<sigma>m (IndexCell ` set ?ps) ?\<tau> = ?\<tau>"
      unfolding step ps by (rule set_files_over) auto
    then show ?case using assms(4) by (auto intro: runs_mret)
  qed
  show ?thesis
    by (rule runs_mbind, rule runs_write_manifest) (use assms refs in auto)
qed

lemma runs_sync_new [run_rules]:
  fixes env :: "'x queue_env"
  assumes "lease_index_identity lease job = Inr i" "wf_identity (qe_codec env) i"
    and "\<sigma> (IndexCell (lease_index_path (li_lease_id i))) = None \<or>
      (\<exists>j. \<sigma> (IndexCell (lease_index_path (li_lease_id i))) =
           Some (NodeV (LDoc (lease_index_document (iso_format (qe_codec env)) j)))
         \<and> wf_identity (qe_codec env) j \<and> li_lease_id j = li_lease_id i)"
    and "\<And>\<rho>. between \<sigma> (set_files (qe_codec env) i \<sigma>) \<rho> \<Longrightarrow> P \<rho>"
    and "Q i (set_files (qe_codec env) i \<sigma>)"
  shows "runs P \<sigma> (sync_lease_operational_indexes env lease job None) Q"
  unfolding sync_lease_operational_indexes_def
  by (rule runs_mbind, rule runs_qlift [OF assms(1)], simp only: option.case mbind_mret)
     (rule runs_sync_writes [where \<sigma> = \<sigma> and i = i, OF assms(2,3)]; use assms(4,5) in blast)

text \<open>A renewal keeps the lease's manifest path and drops the references that move.\<close>

definition move_files :: "iso_codec \<Rightarrow> LeaseIndexIdentity \<Rightarrow> LeaseIndexIdentity \<Rightarrow> content \<Rightarrow> content" where
  "move_files codec j i \<sigma> = set_files codec i (over \<sigma> (IndexCell ` set (lease_ref_paths j)) (no_index \<sigma>))"

lemma runs_sync_renew [run_rules]:
  fixes env :: "'x queue_env"
  assumes ids: "lease_index_identity lease job = Inr i" "lease_index_identity prev job = Inr j"
    and wf: "wf_identity (qe_codec env) i"
    and same: "li_lease_id j = li_lease_id i" "li_job_id j = li_job_id i" "li_endpoint_id j = li_endpoint_id i"
    and manifest: "\<sigma> (IndexCell (lease_index_path (li_lease_id i))) = None \<or>
      (\<exists>k. \<sigma> (IndexCell (lease_index_path (li_lease_id i))) =
           Some (NodeV (LDoc (lease_index_document (iso_format (qe_codec env)) k)))
         \<and> wf_identity (qe_codec env) k \<and> li_lease_id k = li_lease_id i)"
    and P: "\<And>\<rho>. between \<sigma> (move_files (qe_codec env) j i \<sigma>) \<rho> \<Longrightarrow> P \<rho>"
    and Q: "Q i (move_files (qe_codec env) j i \<sigma>)"
  shows "runs P \<sigma> (sync_lease_operational_indexes env lease job (Some prev)) Q"
proof -
  let ?S = "IndexCell ` (set (lease_ref_paths j) - set (lease_ref_paths i))"
  let ?\<sigma>c = "over \<sigma> ?S (no_index \<sigma>)"
  have files: "index_file p" if "p \<in> set (lease_ref_paths j)" for p
    using that lease_paths_are_files(2) by blast
  have final: "set_files (qe_codec env) i ?\<sigma>c = move_files (qe_codec env) j i \<sigma>"
    by (auto simp: move_files_def set_files_def over_def lease_files_def fun_eq_iff split: cell.splits)
  have gone: "move_files (qe_codec env) j i \<sigma> c = None" if mem: "c \<in> ?S" for c
  proof -
    obtain p where p: "c = IndexCell p" "p \<in> set (lease_ref_paths j)" "p \<notin> set (lease_ref_paths i)"
      using mem by auto
    then have "p \<noteq> lease_index_path (li_lease_id i)" using index_path_not_ref by blast
    then show ?thesis
      using p by (auto simp: move_files_def set_files_def over_def no_index_def lease_files_def)
  qed
  have mixed: "P (over \<sigma> A (no_index \<sigma>))" if "A \<subseteq> ?S" for A
    using that gone by (intro P) (fastforce simp: between_def over_def no_index_def split: cell.splits)
  have "runs P \<sigma> (mseq (\<lambda>p. on_index (remove_stale_ref i p)) ps :: ('x, unit) queue_op) R"
    if "set ps \<subseteq> set (lease_ref_paths j)"
      and "\<And>A. A \<subseteq> IndexCell ` (set ps - set (lease_ref_paths i)) \<Longrightarrow> P (over \<sigma> A (no_index \<sigma>))"
      and "R () (over \<sigma> (IndexCell ` (set ps - set (lease_ref_paths i))) (no_index \<sigma>))"
    for ps R and \<sigma> :: content
    using that
  proof (induction ps arbitrary: \<sigma>)
    case Nil
    then show ?case by (simp only: mseq.simps) (rule runs_mret, simp add: over_def)
  next
    case (Cons p ps)
    have start: "P \<sigma>" using Cons.prems(2) [of "{}"] by (simp add: over_def)
    show ?case
    proof (cases "p \<in> set (lease_ref_paths i)")
      case True
      have idle: "runs P \<sigma> (on_index (mret ()) :: ('x, unit) queue_op) T" if "T () \<sigma>" for T
        unfolding on_index_def
        by (rule runs_mbind, rule runs_tick [of P, OF start], rule runs_read_index) (use that in auto)
      have "runs P \<sigma> (mseq (\<lambda>p. on_index (remove_stale_ref i p)) ps :: ('x, unit) queue_op) R"
        by (rule Cons.IH) (use Cons.prems True in auto)
      then show ?thesis
        by (simp only: mseq.simps remove_stale_ref_eq True if_True) (rule runs_mbind, rule idle)
    next
      case False
      let ?\<sigma>p = "\<sigma>(IndexCell p := None)"
      have step: "over ?\<sigma>p A (no_index ?\<sigma>p) = over \<sigma> (insert (IndexCell p) A) (no_index \<sigma>)"
        if "A \<subseteq> range IndexCell" for A
        using that by (auto simp: over_def no_index_def fun_eq_iff split: cell.splits)
      have "runs P ?\<sigma>p (mseq (\<lambda>p. on_index (remove_stale_ref i p)) ps :: ('x, unit) queue_op) R"
      proof (rule Cons.IH)
        show "set ps \<subseteq> set (lease_ref_paths j)" using Cons.prems(1) by simp
        show "P (over ?\<sigma>p A (no_index ?\<sigma>p))" if "A \<subseteq> IndexCell ` (set ps - set (lease_ref_paths i))" for A
        proof -
          have "A \<subseteq> range IndexCell" using that by blast
          from step [OF this] show ?thesis using that False by (simp only:) (rule Cons.prems(2), auto)
        qed
        have "insert (IndexCell p) (IndexCell ` (set ps - set (lease_ref_paths i)))
            = IndexCell ` (set (p # ps) - set (lease_ref_paths i))" using False by auto
        then show "R () (over ?\<sigma>p (IndexCell ` (set ps - set (lease_ref_paths i))) (no_index ?\<sigma>p))"
          using Cons.prems(3) by (simp add: step image_subset_iff)
      qed
      then show ?thesis
        using Cons.prems(1) False start
        by (simp only: mseq.simps remove_stale_ref_eq if_False)
           (rule runs_mbind, rule runs_delete_ref, auto intro: files)
    qed
  qed
  note stale = this [of "lease_ref_paths j"]
  have mp: "?\<sigma>c (IndexCell (lease_index_path (li_lease_id i))) = \<sigma> (IndexCell (lease_index_path (li_lease_id i)))"
    using index_path_not_ref by (fastforce simp: over_def)
  have tail: "runs P ?\<sigma>c (mbind (on_index (write_lease_index_identity (qe_codec env) i)) (\<lambda>_.
     mbind (mseq (\<lambda>p. on_index (write_ref p))
              [lease_identity_ref_path i, lease_endpoint_ref_path i, lease_endpoint_guard_path i,
               lease_cluster_kind_ref_path i, lease_expiry_ref_path i]) (\<lambda>_ :: unit.
     (mret i :: ('x, LeaseIndexIdentity) queue_op)))) Q"
  proof (rule runs_sync_writes [OF wf])
    show "P \<rho>" if "between ?\<sigma>c (set_files (qe_codec env) i ?\<sigma>c) \<rho>" for \<rho>
    proof (rule P, rule between_trans [OF _ _ that])
      show "between \<sigma> (move_files (qe_codec env) j i \<sigma>) ?\<sigma>c"
        using gone by (fastforce simp: between_def over_def no_index_def split: cell.splits)
      show "between \<sigma> (move_files (qe_codec env) j i \<sigma>) (set_files (qe_codec env) i ?\<sigma>c)"
        by (simp add: final)
    qed
  qed (use manifest mp final Q in auto)
  show ?thesis
    unfolding sync_lease_operational_indexes_def option.case
    by (rule runs_mbind, rule runs_qlift [OF ids(1)], rule runs_mbind, rule runs_mbind,
        rule runs_qlift [OF ids(2)], rule runs_mbind, rule runs_mcheck, simp add: same,
        rule stale, simp, rule mixed, assumption, rule tail)
qed

section \<open>Steps on the capacity pair\<close>

definition capacity_of :: "content \<Rightarrow> capacity_files" where
  "capacity_of \<sigma> = \<lparr>cf_fault = None,
     cf_aggregate = (case \<sigma> AggregateCell of Some (DocV d) \<Rightarrow> Some d | _ \<Rightarrow> None),
     cf_checkpoint = (case \<sigma> CheckpointCell of Some (DocV d) \<Rightarrow> Some d | _ \<Rightarrow> None)\<rparr>"

lemma holds_capacity: "holds \<sigma> s \<Longrightarrow> qs_capacity s = capacity_of \<sigma>"
  by (cases "qs_capacity s")
     (auto simp: holds_def wf_store_def capacity_of_def split: option.splits)

abbreviation aggregate_value :: "LeaseCapacityPair \<Rightarrow> cell_value" where
  "aggregate_value p \<equiv> DocV (lease_capacity_aggregate_document (cp_aggregate p))"

abbreviation checkpoint_value :: "LeaseCapacityPair \<Rightarrow> cell_value" where
  "checkpoint_value p \<equiv> DocV (lease_capacity_checkpoint_document (cp_checkpoint p))"

definition with_pair :: "LeaseCapacityPair \<Rightarrow> content \<Rightarrow> content" where
  "with_pair p \<sigma> = \<sigma>(AggregateCell \<mapsto> aggregate_value p, CheckpointCell \<mapsto> checkpoint_value p)"

lemma capacity_of_with_pair [simp]: "capacity_of (with_pair p \<sigma>) = pair_files p"
  by (simp add: capacity_of_def with_pair_def pair_files_def)

lemma capacity_of_pair_iff:
  "\<sigma> AggregateCell = Some (aggregate_value p) \<and> \<sigma> CheckpointCell = Some (checkpoint_value p)
     \<Longrightarrow> capacity_of \<sigma> = pair_files p"
  by (simp add: capacity_of_def pair_files_def)

lemma runs_read_capacity:
  assumes "m (capacity_of \<sigma>) = (Inr x, capacity_of \<sigma>)" "Q x \<sigma>"
  shows "runs P \<sigma> (read_capacity m) Q"
proof (rule runs_on_part)
  fix s :: "'x queue_state" assume h: "holds \<sigma> s"
  have eq: "s\<lparr>qs_capacity := capacity_of \<sigma>\<rparr> = s" using holds_capacity [OF h] by (cases s) simp
  show "\<exists>x p. m (qs_capacity s) = (Inr x, p) \<and> wf_store (s\<lparr>qs_capacity := p\<rparr>)
      \<and> Q x (cells (s\<lparr>qs_capacity := p\<rparr>)) \<and> qs_budget (s\<lparr>qs_capacity := p\<rparr>) = qs_budget s"
    by (rule exI [of _ x], rule exI [of _ "capacity_of \<sigma>"], unfold eq holds_capacity [OF h])
       (use h assms in \<open>simp add: holds_def\<close>)
qed

lemma cells_capacity:
  "cells (s\<lparr>qs_capacity := f\<rparr>) =
     (cells s)(AggregateCell := map_option DocV (cf_aggregate f), CheckpointCell := map_option DocV (cf_checkpoint f))"
  by (rule ext, rename_tac c, case_tac c) simp_all

lemma runs_write_capacity:
  "P \<sigma> \<Longrightarrow> Q () (\<sigma>(AggregateCell \<mapsto> DocV (lease_capacity_aggregate_document a)))
     \<Longrightarrow> runs P \<sigma> (on_capacity (write_aggregate_file a)) Q"
  "P \<sigma> \<Longrightarrow> Q () (\<sigma>(CheckpointCell \<mapsto> DocV (lease_capacity_checkpoint_document c)))
     \<Longrightarrow> runs P \<sigma> (on_capacity (write_checkpoint_file c)) Q"
  unfolding on_capacity_def
  by (rule runs_mbind, erule runs_tick, rule runs_on_part,
      auto simp: write_aggregate_file_def write_checkpoint_file_def holds_def wf_store_def cells_capacity
        fun_upd_idem fun_upd_twist)+

lemma runs_apply_capacity [run_rules]:
  assumes "transition_names ps" "\<forall>(name, p) \<in> set ps. bound_pair p" "distinct (map fst ps)"
    and "(target, q) \<in> set ps" "torn (map snd ps) (capacity_of \<sigma>)"
    and "P \<sigma>" "P (\<sigma>(AggregateCell \<mapsto> aggregate_value q))" "Q (canonical_pair q) (with_pair q \<sigma>)"
  shows "runs P \<sigma> (apply_capacity_transition (transition_json ps) target label) Q"
proof -
  have q: "bound_pair q" using assms(2,4) by auto
  have docs: "lease_capacity_aggregate_document (cp_aggregate (canonical_pair q)) =
      lease_capacity_aggregate_document (cp_aggregate q)"
    "cp_checkpoint (canonical_pair q) = cp_checkpoint q"
    using pair_files_canonical [of q] by (simp_all add: pair_files_def canonical_pair_def)
  have valid: "validate_lease_capacity_pair (canonical_pair q) ''lease capacity write'' = Inr ()"
    using bound_pair_canonical [OF q] by (simp add: validate_pair_Inr bound_pair_def)
  show ?thesis
    unfolding apply_capacity_transition_def
    by (rule runs_mbind, rule runs_read_capacity, rule authorize_transition_torn [OF assms(1-5)],
        rule runs_mbind, rule runs_qlift [OF valid], rule runs_mbind, rule runs_write_capacity(1) [of P, OF assms(6)],
        rule runs_mbind, rule runs_write_capacity(2))
       (use assms(7,8) docs in \<open>auto intro!: runs_mret simp: with_pair_def\<close>)
qed

section \<open>Reading the journal\<close>

lemma mmap_id: "(\<And>x. x \<in> set xs \<Longrightarrow> f x = mret x) \<Longrightarrow> mmap f xs = mret xs"
  by (induction xs) (simp_all add: mret_def mbind_def)

lemma runs_read_intents [run_rules]:
  assumes "\<And>n. \<sigma> (IntentCell n) \<noteq> None \<Longrightarrow> n \<in> set ns" "length ns \<le> 10000"
    and "\<And>n e. \<sigma> (IntentCell n) \<noteq> Some (IntentV (BadIntent e))"
    and "\<And>xs. distinct (map fst xs) \<Longrightarrow> (\<And>n. map_option IntentV (map_of xs n) = \<sigma> (IntentCell n)) \<Longrightarrow> Q xs \<sigma>"
  shows "runs P \<sigma> read_intents Q"
  unfolding read_intents_def
proof (rule runs_mget)
  fix s :: "'x queue_state" assume h: "holds \<sigma> s"
  have d: "distinct (map fst (qs_intents s))" using h by (simp add: holds_def wf_store_def)
  have m: "map_option IntentV (map_of (qs_intents s) n) = \<sigma> (IntentCell n)" for n
    using holds_cells [OF h, of "IntentCell n"] by simp
  have "set (map fst (qs_intents s)) \<subseteq> set ns"
  proof
    fix n assume "n \<in> set (map fst (qs_intents s))"
    then have "map_of (qs_intents s) n \<noteq> None" by (simp add: map_of_eq_None_iff)
    then have "\<sigma> (IntentCell n) \<noteq> None" unfolding m [of n, symmetric] by simp
    then show "n \<in> set ns" by (rule assms(1))
  qed
  then have "card (set (map fst (qs_intents s))) \<le> card (set ns)" by (intro card_mono) auto
  then have "length (qs_intents s) \<le> length ns"
    using distinct_card [OF d] card_length [of ns] by simp
  then have bound: "\<not> int (length (qs_intents s)) > MAX_TRANSITION_INTENT_RECORDS"
    using assms(2) by (simp add: MAX_TRANSITION_INTENT_RECORDS_def)
  have ids: "(case x of (path, intent) \<Rightarrow> case intent of BadIntent e \<Rightarrow> qraise e | _ \<Rightarrow> mret (path, intent)) = mret x"
    if x: "x \<in> set (qs_intents s)" for x :: "string \<times> queue_intent"
  proof -
    obtain n i where [simp]: "x = (n, i)" by fastforce
    have "map_of (qs_intents s) n = Some i" using x d by simp
    then have "i \<noteq> BadIntent e" for e using m [of n] assms(3) [of n e] by auto
    then show ?thesis by (auto split: queue_intent.splits)
  qed
  show "runs P \<sigma> (mbind (qcheck (\<not> int (length (qs_intents s)) > MAX_TRANSITION_INTENT_RECORDS)
       (QueueConflictError (''queue transition intent directory exceeded its safety bound of ''
          @ int_str MAX_TRANSITION_INTENT_RECORDS @ '' records''))) (\<lambda>_.
     mmap (\<lambda>(path, intent). case intent of BadIntent e \<Rightarrow> qraise e | _ \<Rightarrow> mret (path, intent))
       (qs_intents s))) Q"
    by (rule runs_mbind, rule runs_mcheck [OF bound], subst mmap_id, erule ids, rule runs_mret, rule assms(4) [OF d m])
qed

lemma one_intent:
  assumes "distinct (map fst xs)" "\<And>n. map_option IntentV (map_of xs n) = \<sigma> (IntentCell n)"
    and "\<And>n. \<sigma> (IntentCell n) = (if n = a then Some (IntentV x) else None)"
  shows "xs = [(a, x)]"
proof -
  have m: "map_of xs n = (if n = a then Some x else None)" for n
    using assms(2,3) [of n] by (auto split: if_splits)
  have keys: "fst ` set xs = {a}"
  proof (rule set_eqI)
    fix n
    have "n \<in> fst ` set xs \<longleftrightarrow> map_of xs n \<noteq> None" unfolding map_of_eq_None_iff by blast
    then show "n \<in> fst ` set xs \<longleftrightarrow> n \<in> {a}" by (simp add: m)
  qed
  have "length xs = card (fst ` set xs)"
    using assms(1) by (metis distinct_card length_map set_map)
  then have "length xs = 1" using keys by simp
  then obtain y where "xs = [y]" by (auto simp: length_Suc_conv)
  with m [of a] show ?thesis by (cases y) (auto split: if_splits)
qed

lemma two_intents:
  assumes "distinct (map fst xs)" "\<And>n. map_option IntentV (map_of xs n) = \<sigma> (IntentCell n)"
    and "\<And>n. \<sigma> (IntentCell n) = (if n = a then Some (IntentV x) else if n = b then Some (IntentV y) else None)"
    and "a \<noteq> b" "intent_order x < intent_order y"
  shows "sort_key (\<lambda>(_, intent). intent_order intent) xs = [(a, x), (b, y)]"
proof -
  have m: "map_of xs n = (if n = a then Some x else if n = b then Some y else None)" for n
    using assms(2,3) [of n] by (auto split: if_splits)
  have keys: "fst ` set xs = {a, b}"
  proof (rule set_eqI)
    fix n
    have "n \<in> fst ` set xs \<longleftrightarrow> map_of xs n \<noteq> None" unfolding map_of_eq_None_iff by blast
    then show "n \<in> fst ` set xs \<longleftrightarrow> n \<in> {a, b}" by (simp add: m)
  qed
  have "length xs = card (fst ` set xs)"
    using assms(1) by (metis distinct_card length_map set_map)
  then have "length xs = 2" using keys assms(4) by simp
  then obtain u v where uv: "xs = [u, v]" by (auto simp: length_Suc_conv numeral_2_eq_2)
  have "(a, x) \<in> set xs" "(b, y) \<in> set xs" using m [of a] m [of b] assms(4) by (auto dest: map_of_SomeD)
  then have "xs = [(a, x), (b, y)] \<or> xs = [(b, y), (a, x)]" using uv assms(4) by auto
  then show ?thesis using assms(5) by auto
qed

end
