(* ===== verification/QueueEvents.thy ===== *)
theory QueueEvents
  imports QueueRuns
begin

text \<open>
  Job events: the sequence probe of \<^verbatim>\<open>_next_event_seq\<close>, appending and paging. The event files of a job
  form a gap-free log; the index document's head equals the length of the log, or lags behind by
  one for every consecutive append a crash stopped between its two writes, and the next complete
  append catches up.
\<close>

section \<open>The sequence probe\<close>

lemma probe_event_seq_Some:
  "probe_event_seq ex bound c = Some q \<Longrightarrow> c \<le> q \<and> \<not> ex q \<and> (\<forall>k. c \<le> k \<and> k < q \<longrightarrow> ex k) \<and> (q = c \<or> q \<le> bound)"
proof (induction ex bound c rule: probe_event_seq.induct)
  case (1 ex bound c)
  show ?case
  proof (cases "ex c \<and> \<not> c + 1 > bound")
    case True
    then have "probe_event_seq ex bound (c + 1) = Some q"
      using "1.prems" by (subst (asm) probe_event_seq.simps) simp
    with 1 True have "c + 1 \<le> q \<and> \<not> ex q \<and> (\<forall>k. c + 1 \<le> k \<and> k < q \<longrightarrow> ex k) \<and> (q = c + 1 \<or> q \<le> bound)"
      by simp
    with True show ?thesis by (smt (verit, best))
  next
    case False
    with "1.prems" show ?thesis by (subst (asm) probe_event_seq.simps) (auto split: if_splits)
  qed
qed

lemma probe_event_seq_None:
  "probe_event_seq ex bound c = None \<Longrightarrow> c \<le> k \<Longrightarrow> k \<le> max c bound \<Longrightarrow> ex k"
proof (induction ex bound c rule: probe_event_seq.induct)
  case (1 ex bound c)
  have c: "ex c" using "1.prems"(1) by (subst (asm) probe_event_seq.simps) (auto split: if_splits)
  show ?case
  proof (cases "c + 1 > bound \<or> k = c")
    case True
    with "1.prems"(2,3) c show ?thesis by (auto simp: max_def split: if_splits)
  next
    case False
    then have "probe_event_seq ex bound (c + 1) = None"
      using "1.prems"(1) c by (subst (asm) probe_event_seq.simps) simp
    with 1 False c show ?thesis by (auto simp: max_def)
  qed
qed

text \<open>
  C35: the search for the next event sequence always ends. It returns the first sequence at or
  after the recorded head whose file is absent, and reports an overflow exactly when every
  sequence up to its bound is taken.
\<close>

theorem event_probe_terminates:
  "case probe_event_seq ex bound c of
     Some q \<Rightarrow> c \<le> q \<and> q \<le> max c bound \<and> \<not> ex q \<and> (\<forall>k. c \<le> k \<and> k < q \<longrightarrow> ex k)
   | None \<Rightarrow> (\<forall>k. c \<le> k \<and> k \<le> max c bound \<longrightarrow> ex k)"
proof (cases "probe_event_seq ex bound c")
  case None
  then show ?thesis using probe_event_seq_None [OF None] by auto
next
  case (Some q)
  then show ?thesis using probe_event_seq_Some [OF Some] by auto
qed

theorem event_probe_terminates_witness: "probe_event_seq (\<lambda>k. k < 3) 1000 1 = Some 3"
proof -
  have found: "case probe_event_seq (\<lambda>k. k < 3) 1000 1 of
      Some q \<Rightarrow> 1 \<le> q \<and> q \<le> max 1 1000 \<and> \<not> q < 3 \<and> (\<forall>k. 1 \<le> k \<and> k < q \<longrightarrow> k < (3 :: int))
    | None \<Rightarrow> (\<forall>k. 1 \<le> k \<and> k \<le> max 1 1000 \<longrightarrow> k < (3 :: int))"
    by (rule event_probe_terminates)
  then obtain q where q: "probe_event_seq (\<lambda>k. k < 3) 1000 1 = Some q"
    by (auto split: option.splits dest: spec [of _ 3])
  with found have "\<not> q < 3" "\<forall>k. 1 \<le> k \<and> k < q \<longrightarrow> k < 3" by simp_all
  then have "q = 3" by (auto dest: spec [of _ 3])
  with q show ?thesis by simp
qed

section \<open>Index documents\<close>

definition index_head :: "content \<Rightarrow> string \<Rightarrow> int \<Rightarrow> bool" where
  "index_head \<sigma> k n \<longleftrightarrow>
     (\<exists>d. \<sigma> (JobIndexCell k) = Some (DocV (JObj d)) \<and> parse_job_index k (JObj d) = Inr d
        \<and> index_integer d ''latest_event_seq'' = Inr n)"

lemma index_integer_update:
  "index_integer (AList.update f (JInt n) d) g =
     (if g = f then (if n < 0 then Inl (QueueConflictError (''invalid job index integer: '' @ g)) else Inr n)
      else index_integer d g)"
  by (simp add: index_integer_def doc_get_def dict_get_def)

lemma doc_get_update: "doc_get (AList.update f v d) g = (if g = f then v else doc_get d g)"
  by (simp add: doc_get_def dict_get_def)

lemma parse_index_update:
  assumes "parse_job_index k (JObj d) = Inr d" "0 \<le> n"
  shows "parse_job_index k (JObj (AList.update ''latest_event_seq'' (JInt n) d))
    = Inr (AList.update ''latest_event_seq'' (JInt n) d)"
  using assms
  by (auto simp: parse_job_index_def Let_def result_iff rbind_eq_Inr doc_get_update index_integer_update
      split: if_splits)

lemma index_integer_nonneg: "index_integer d f = Inr n \<Longrightarrow> 0 \<le> n"
  by (auto simp: index_integer_def split: option.splits if_splits)

lemma update_twice: "AList.update f v (AList.update f w d) = AList.update f v d"
  by (induction d) auto

lemma runs_read_job_index [run_rules]:
  assumes "durable_id k" "\<sigma> (JobIndexCell k) = Some (DocV (JObj d))" "parse_job_index k (JObj d) = Inr d"
    and "Q (Some d) \<sigma>"
  shows "runs P \<sigma> (read_job_index k) Q"
  unfolding read_job_index_def
proof (rule runs_mbind, rule runs_qlift, rule require_durable_id [OF assms(1)], rule runs_mget)
  fix s :: "'x queue_state" assume h: "holds \<sigma> s"
  have "map_of (qs_job_indexes s) k = Some (JObj d)"
    using holds_cells [OF h, of "JobIndexCell k"] assms(2) by (cases "map_of (qs_job_indexes s) k") auto
  then show "runs P \<sigma> (case map_of (qs_job_indexes s) k of None \<Rightarrow> mret None
      | Some raw \<Rightarrow> mbind (qlift (parse_job_index k raw)) (\<lambda>index. mret (Some index))) Q"
    using assms(3,4) by (auto intro!: runs_mbind runs_qlift runs_mret)
qed

lemma runs_increment_index:
  assumes "durable_id k" "index_head \<sigma> k n" "0 \<le> m" "P \<sigma>"
    and "\<And>d. index_head (\<sigma>(JobIndexCell k \<mapsto> DocV (JObj d))) k m \<Longrightarrow> Q () (\<sigma>(JobIndexCell k \<mapsto> DocV (JObj d)))"
  shows "runs P \<sigma> (increment_job_index k ''latest_event_seq'' [(''latest_event_seq'', JInt m)]) Q"
proof -
  obtain d where d: "\<sigma> (JobIndexCell k) = Some (DocV (JObj d))" "parse_job_index k (JObj d) = Inr d"
    "index_integer d ''latest_event_seq'' = Inr n" using assms(2) by (auto simp: index_head_def)
  let ?d = "AList.update ''latest_event_seq'' (JInt m) d"
  have "index_head (\<sigma>(JobIndexCell k \<mapsto> DocV (JObj ?d))) k m"
    using parse_index_update [OF d(2) assms(3)] assms(3)
    by (auto simp: index_head_def index_integer_update)
  from assms(5) [OF this] show ?thesis
    unfolding increment_job_index_def
    by (intro runs_mbind runs_read_job_index [where \<sigma> = \<sigma> and d = d, OF assms(1) d(1,2)])
       (use d(3) assms(4) in \<open>auto intro!: runs_mbind runs_qlift runs_writes simp: update_twice\<close>)
qed

lemma runs_update_index:
  assumes "durable_id k" "index_head \<sigma> k n" "0 \<le> m" "P \<sigma>"
    and "\<And>d. index_head (\<sigma>(JobIndexCell k \<mapsto> DocV (JObj d))) k m \<Longrightarrow> Q () (\<sigma>(JobIndexCell k \<mapsto> DocV (JObj d)))"
  shows "runs P \<sigma> (update_job_index k [(''latest_event_seq'', JInt m)]) Q"
proof -
  obtain d where d: "\<sigma> (JobIndexCell k) = Some (DocV (JObj d))" "parse_job_index k (JObj d) = Inr d"
    using assms(2) by (auto simp: index_head_def)
  let ?d = "AList.update ''latest_event_seq'' (JInt m) d"
  have "index_head (\<sigma>(JobIndexCell k \<mapsto> DocV (JObj ?d))) k m"
    using parse_index_update [OF d(2) assms(3)] assms(3)
    by (auto simp: index_head_def index_integer_update)
  from assms(5) [OF this] show ?thesis
    unfolding update_job_index_def
    by (intro runs_mbind runs_read_job_index [where \<sigma> = \<sigma> and d = d, OF assms(1) d]) (use assms(4) in \<open>auto intro!: runs_writes\<close>)
qed

section \<open>Gap-free logs\<close>

definition log_files :: "content \<Rightarrow> string \<Rightarrow> RelayEvent list \<Rightarrow> bool" where
  "log_files \<sigma> k es \<longleftrightarrow>
     (\<forall>q. \<sigma> (EventCell (k, q)) = (if 1 \<le> q \<and> q \<le> int (length es) then Some (EventV (es ! nat (q - 1))) else None))
     \<and> (\<forall>n < length es. re_job_id (es ! n) = k \<and> re_seq (es ! n) = int n + 1)"

definition event_log :: "int \<Rightarrow> content \<Rightarrow> string \<Rightarrow> RelayEvent list \<Rightarrow> bool" where
  "event_log lag \<sigma> k es \<longleftrightarrow>
     log_files \<sigma> k es \<and> (\<exists>n. index_head \<sigma> k n \<and> n \<le> int (length es) \<and> int (length es) \<le> n + lag)"

lemma probe_event_seq_first:
  "\<not> ex q \<Longrightarrow> (\<And>k. c \<le> k \<Longrightarrow> k < q \<Longrightarrow> ex k) \<Longrightarrow> c \<le> q \<Longrightarrow> q \<le> max c bound
    \<Longrightarrow> probe_event_seq ex bound c = Some q"
  by (metis linorder_less_linear option.exhaust order_le_less_trans probe_event_seq_None probe_event_seq_Some)

lemma runs_next_event_seq [run_rules]:
  assumes "durable_id k" "event_log lag \<sigma> k es" "lag < DEFAULT_EXACT_RECORD_LIMIT" "Q (int (length es) + 1) \<sigma>"
  shows "runs P \<sigma> (next_event_seq k) Q"
proof -
  obtain n where n: "index_head \<sigma> k n" "n \<le> int (length es)" "int (length es) \<le> n + lag"
    using assms(2) by (auto simp: event_log_def)
  then obtain d where d: "\<sigma> (JobIndexCell k) = Some (DocV (JObj d))" "parse_job_index k (JObj d) = Inr d"
    "index_integer d ''latest_event_seq'' = Inr n" by (auto simp: index_head_def)
  have n0: "0 \<le> n" by (rule index_integer_nonneg [OF d(3)])
  have found: "probe_event_seq (\<lambda>q. map_of (qs_events s) (k, q) \<noteq> None)
      (DEFAULT_EXACT_RECORD_LIMIT + n) (n + 1) = Some (int (length es) + 1)"
    if h: "holds \<sigma> s" for s :: "'x queue_state"
  proof -
    have ex: "map_of (qs_events s) (k, q) \<noteq> None \<longleftrightarrow> 1 \<le> q \<and> q \<le> int (length es)" for q
      using holds_cells [OF h, of "EventCell (k, q)"] assms(2)
      by (cases "map_of (qs_events s) (k, q)") (auto simp: event_log_def log_files_def split: if_splits)
    show ?thesis
      unfolding ex by (rule probe_event_seq_first) (use n n0 assms(3) in auto)
  qed
  show ?thesis
    unfolding next_event_seq_def Let_def
    by (rule runs_mbind, rule runs_read_job_index [where \<sigma> = \<sigma> and d = d, OF assms(1) d(1,2)], rule runs_mget,
        simp only: option.case, rule runs_mbind, rule runs_qlift [OF d(3)], simp only: found option.case)
       (rule runs_mret, rule assms(4))
qed

lemma log_files_append:
  assumes "log_files \<sigma> k es" "re_job_id e = k" "re_seq e = int (length es) + 1"
  shows "log_files (\<sigma>(EventCell (k, int (length es) + 1) \<mapsto> EventV e)) k (es @ [e])"
  using assms by (auto simp: log_files_def nth_append less_Suc_eq)

lemma log_files_frame:
  "log_files \<sigma> k es \<Longrightarrow> (\<And>q. \<tau> (EventCell (k, q)) = \<sigma> (EventCell (k, q))) \<Longrightarrow> log_files \<tau> k es"
  by (simp add: log_files_def)

lemma index_head_frame: "index_head \<sigma> k n \<Longrightarrow> \<tau> (JobIndexCell k) = \<sigma> (JobIndexCell k) \<Longrightarrow> index_head \<tau> k n"
  by (simp add: index_head_def)

lemma event_log_frame:
  "event_log lag \<sigma> k es \<Longrightarrow> (\<And>q. \<tau> (EventCell (k, q)) = \<sigma> (EventCell (k, q)))
     \<Longrightarrow> \<tau> (JobIndexCell k) = \<sigma> (JobIndexCell k) \<Longrightarrow> event_log lag \<tau> k es"
  unfolding event_log_def by (blast intro: log_files_frame index_head_frame)

lemma event_log_written:
  assumes "event_log lag \<sigma> k es" "re_job_id e = k" "re_seq e = int (length es) + 1"
  shows "event_log (lag + 1) (\<sigma>(EventCell (k, int (length es) + 1) \<mapsto> EventV e)) k (es @ [e])"
proof -
  obtain n where n: "index_head \<sigma> k n" "n \<le> int (length es)" "int (length es) \<le> n + lag" "log_files \<sigma> k es"
    using assms(1) by (auto simp: event_log_def)
  have "index_head (\<sigma>(EventCell (k, int (length es) + 1) \<mapsto> EventV e)) k n"
    using n(1) by (rule index_head_frame) simp
  then show ?thesis
    using n log_files_append [OF n(4) assms(2,3)] by (auto simp: event_log_def intro!: exI [of _ n])
qed

lemma event_log_indexed:
  assumes "log_files \<sigma> k es" "index_head (\<sigma>(JobIndexCell k \<mapsto> v)) k (int (length es))"
  shows "event_log 0 (\<sigma>(JobIndexCell k \<mapsto> v)) k es"
proof -
  have "log_files (\<sigma>(JobIndexCell k \<mapsto> v)) k es" using assms(1) by (rule log_files_frame) simp
  with assms(2) show ?thesis by (auto simp: event_log_def)
qed

text \<open>What an event of an append says.\<close>

definition appended :: "string \<Rightarrow> nat \<Rightarrow> string \<Rightarrow> string \<Rightarrow> (string \<times> json) list \<Rightarrow> RelayEvent \<Rightarrow> bool" where
  "appended k n etype message payload e \<longleftrightarrow>
     re_job_id e = k \<and> re_seq e = int n + 1 \<and> re_event_type e = etype \<and> re_message e = message
     \<and> re_payload e = payload"

text \<open>An append: the event becomes the last of the log, then the index head catches up.\<close>

lemma runs_record_event:
  assumes k: "durable_id k" and log: "event_log lag \<sigma> k es" and "P \<sigma>"
    and e: "appended k (length es) etype message payload e"
    and crash: "P (\<sigma>(EventCell (k, int (length es) + 1) \<mapsto> EventV e))"
    and finish: "\<And>d \<tau>. \<tau> = \<sigma>(EventCell (k, int (length es) + 1) \<mapsto> EventV e, JobIndexCell k \<mapsto> DocV (JObj d))
      \<Longrightarrow> event_log 0 \<tau> k (es @ [e]) \<Longrightarrow> Q e \<tau>"
  shows "runs P \<sigma> (mbind (write_event e) (\<lambda>_.
      mbind (increment_job_index k ''latest_event_seq'' [(''latest_event_seq'', JInt (int (length es) + 1))])
        (\<lambda>_. mret e :: ('x, RelayEvent) queue_op))) Q"
proof (rule runs_mbind, rule runs_writes)
  show "P \<sigma>" by fact
  let ?q = "int (length es) + 1" and ?\<sigma>e = "\<sigma>(EventCell (re_job_id e, re_seq e) \<mapsto> EventV e)"
  obtain n where n: "index_head \<sigma> k n" and files: "log_files \<sigma> k es"
    using log by (auto simp: event_log_def)
  have key: "re_job_id e = k" "re_seq e = ?q" using e by (simp_all add: appended_def)
  have head: "index_head ?\<sigma>e k n" using n by (rule index_head_frame) simp
  have pe: "P ?\<sigma>e" using crash key by simp
  have q0: "0 \<le> ?q" by simp
  show "runs P ?\<sigma>e (mbind (increment_job_index k ''latest_event_seq'' [(''latest_event_seq'', JInt ?q)])
      (\<lambda>_. mret e :: ('x, RelayEvent) queue_op)) Q"
  proof (rule runs_mbind, rule runs_increment_index [where P = P, OF k head q0 pe], rule runs_mret)
    fix d assume hd: "index_head (?\<sigma>e(JobIndexCell k \<mapsto> DocV (JObj d))) k ?q"
    have "log_files ?\<sigma>e k (es @ [e])" using log_files_append [OF files key] key by simp
    from event_log_indexed [OF this] hd
    have "event_log 0 (?\<sigma>e(JobIndexCell k \<mapsto> DocV (JObj d))) k (es @ [e])" by (simp add: add.commute)
    then show "Q e (?\<sigma>e(JobIndexCell k \<mapsto> DocV (JObj d)))"
      by (rule finish [rotated]) (use e key in auto)
  qed
qed

lemma runs_append_event:
  assumes k: "durable_id k" and log: "event_log lag \<sigma> k es" "lag < DEFAULT_EXACT_RECORD_LIMIT" and P: "P \<sigma>"
    and crash: "\<And>e. appended k (length es) etype message payload e
      \<Longrightarrow> P (\<sigma>(EventCell (k, int (length es) + 1) \<mapsto> EventV e))"
    and finish: "\<And>e d \<tau>. \<tau> = \<sigma>(EventCell (k, int (length es) + 1) \<mapsto> EventV e, JobIndexCell k \<mapsto> DocV (JObj d))
      \<Longrightarrow> event_log 0 \<tau> k (es @ [e]) \<Longrightarrow> appended k (length es) etype message payload e \<Longrightarrow> Q e \<tau>"
  shows "runs P \<sigma> (append_event env k etype message payload) Q"
proof -
  have tail: "runs P \<sigma> (mbind (write_event e) (\<lambda>_.
      mbind (increment_job_index k ''latest_event_seq'' [(''latest_event_seq'', JInt (int (length es) + 1))])
        (\<lambda>_. mret e :: ('x, RelayEvent) queue_op))) Q"
    if e: "appended k (length es) etype message payload e" for e
    by (rule runs_record_event [OF k log(1) P e crash [OF e]], rule finish, assumption+, rule e)
  show ?thesis
    unfolding append_event_def Let_def
    by (rule runs_mbind, rule runs_qlift, rule require_durable_id [OF k], rule runs_mbind,
        rule runs_next_event_seq [OF k log], rule runs_mbind, rule runs_utc_now, rule tail)
       (simp add: appended_def)
qed

section \<open>The byte limit of an event record\<close>

text \<open>
  The same append with the record limit of \<^verbatim>\<open>queue_store_write.write_bytes\<close> kept. The text of a record is
  what pydantic's \<^verbatim>\<open>model_dump_json(indent=2)\<close> prints, a parameter here; \<open>append_event\<close> above is this
  append where every record fits.
\<close>

definition EVENT_RECORD_MAX_BYTES :: nat where
  "EVENT_RECORD_MAX_BYTES = 262144"

definition event_fits :: "(RelayEvent \<Rightarrow> string) \<Rightarrow> RelayEvent \<Rightarrow> bool" where
  "event_fits model_dump_json event \<longleftrightarrow> \<not> length (utf8_encode (model_dump_json event)) > EVENT_RECORD_MAX_BYTES"

definition oversized_event :: "RelayEvent \<Rightarrow> py_error" where
  "oversized_event event = QueueConflictError (''events record exceeds the 262144-byte limit: ''
     @ record_path (''events/'' @ re_job_id event) (format_020d (re_seq event)))"

definition write_event_within :: "(RelayEvent \<Rightarrow> string) \<Rightarrow> RelayEvent \<Rightarrow> ('x, unit) queue_op" where
  "write_event_within model_dump_json event =
     mbind (qcheck (event_fits model_dump_json event) (oversized_event event)) (\<lambda>_. write_event event)"

definition append_event_within ::
  "(RelayEvent \<Rightarrow> string) \<Rightarrow> 'x queue_env \<Rightarrow> string \<Rightarrow> string \<Rightarrow> string \<Rightarrow> (string \<times> json) list \<Rightarrow> ('x, RelayEvent) queue_op" where
  "append_event_within model_dump_json env job_id event_type message payload =
     mbind (qlift (require_durable_record_id job_id ''job_id'')) (\<lambda>job_id.
     mbind (next_event_seq job_id) (\<lambda>seq.
     mbind (utc_now env) (\<lambda>created_at.
     let event = \<lparr>re_job_id = job_id, re_seq = seq, re_event_type = event_type, re_message = message,
                  re_level = LevelInfo, re_created_at = created_at, re_payload = payload\<rparr> in
     mbind (write_event_within model_dump_json event) (\<lambda>_.
     mbind (increment_job_index job_id ''latest_event_seq'' [(''latest_event_seq'', JInt seq)]) (\<lambda>_.
     mret event)))))"

lemma write_event_within_fits: "event_fits dump e \<Longrightarrow> write_event_within dump e = write_event e"
  by (rule ext) (simp add: write_event_within_def)

lemma append_event_within_fits:
  "(\<And>e. event_fits dump e) \<Longrightarrow> append_event_within dump env job_id etype message payload = append_event env job_id etype message payload"
  by (simp add: append_event_within_def append_event_def write_event_within_fits Let_def)

text \<open>What is appended, before it is written.\<close>

definition drafted_event ::
  "'x queue_env \<Rightarrow> string \<Rightarrow> string \<Rightarrow> string \<Rightarrow> (string \<times> json) list \<Rightarrow> ('x, RelayEvent) queue_op" where
  "drafted_event env job_id event_type message payload =
     mbind (qlift (require_durable_record_id job_id ''job_id'')) (\<lambda>job_id.
     mbind (next_event_seq job_id) (\<lambda>seq.
     mbind (utc_now env) (\<lambda>created_at.
     mret \<lparr>re_job_id = job_id, re_seq = seq, re_event_type = event_type, re_message = message,
           re_level = LevelInfo, re_created_at = created_at, re_payload = payload\<rparr>)))"

lemma append_event_within_drafted:
  "append_event_within dump env k etype message payload =
     mbind (drafted_event env k etype message payload) (\<lambda>e. mbind (write_event_within dump e) (\<lambda>_.
     mbind (increment_job_index (re_job_id e) ''latest_event_seq'' [(''latest_event_seq'', JInt (re_seq e))]) (\<lambda>_. mret e)))"
  by (simp add: append_event_within_def drafted_event_def mbind_assoc mbind_mret Let_def)

lemma runs_drafted_event:
  assumes k: "durable_id k" and log: "event_log lag \<sigma> k es" "lag < DEFAULT_EXACT_RECORD_LIMIT"
  shows "runs P \<sigma> (drafted_event env k etype message payload) (\<lambda>e \<tau>. \<tau> = \<sigma> \<and> appended k (length es) etype message payload e)"
  unfolding drafted_event_def
  by (rule runs_mbind, rule runs_qlift, rule require_durable_id [OF k], rule runs_mbind,
      rule runs_next_event_seq [OF k log], rule runs_mbind, rule runs_utc_now, rule runs_mret)
     (simp add: appended_def)

text \<open>
  C23: the event log of a job never has a gap or a duplicate, whatever crashes interrupt its
  appends. From a log \<open>es\<close> whose index head lags fewer than a thousand events behind, an append drafts
  the event with the next sequence, and: if the event's record is over the 262144-byte limit, the
  append is refused with the conflict error that says so and nothing durable has changed; if it fits, the
  append either completes, leaving the log extended by exactly this event and the head exact, or it
  crashes, leaving the log unchanged or extended by this event with the head one further behind.
  There is no other outcome.
\<close>

theorem event_log_crash_safe:
  assumes "durable_id k" and "holds \<sigma> s" and "event_log lag \<sigma> k es" and "lag < DEFAULT_EXACT_RECORD_LIMIT"
    and "append_event_within model_dump_json env k etype message payload s = (r, s')"
  shows "wf_store s' \<and> (\<exists>e. appended k (length es) etype message payload e
    \<and> (if event_fits model_dump_json e
       then r = Inr e \<and> event_log 0 (cells s') k (es @ [e])
         \<or> r = Inl Crashed \<and> qs_budget s \<noteq> None
           \<and> (event_log lag (cells s') k es \<or> event_log (lag + 1) (cells s') k (es @ [e]))
       else r = Inl (Raised (oversized_event e)) \<and> cells s' = \<sigma>))"
proof -
  obtain q t where draft: "drafted_event env k etype message payload s = (q, t)" by fastforce
  have "runs (\<lambda>_. False) \<sigma> (drafted_event env k etype message payload) (\<lambda>e \<tau>. \<tau> = \<sigma> \<and> appended k (length es) etype message payload e)"
    by (rule runs_drafted_event [OF assms(1,3,4)])
  from runsD [OF this assms(2) draft] obtain e where e: "q = Inr e" "holds \<sigma> t" "appended k (length es) etype message payload e"
    "qs_budget s = None \<longrightarrow> qs_budget t = None" by (cases rule: good_outcome_cases) (auto simp: holds_def)
  have key: "re_job_id e = k" "re_seq e = int (length es) + 1" using e(3) by (simp_all add: appended_def)
  let ?rest = "mbind (write_event e) (\<lambda>_.
      mbind (increment_job_index k ''latest_event_seq'' [(''latest_event_seq'', JInt (int (length es) + 1))]) (\<lambda>_. mret e))"
  have run: "(if event_fits model_dump_json e then ?rest t else (Inl (Raised (oversized_event e)), t)) = (r, s')"
    using assms(5) e(1) unfolding append_event_within_drafted
    by (simp add: mbind_app draft write_event_within_def key mcheck_def check_def split: if_splits)
  show ?thesis
  proof (cases "event_fits model_dump_json e")
    case True
    let ?P = "\<lambda>\<tau>. event_log lag \<tau> k es \<or> event_log (lag + 1) \<tau> k (es @ [e])"
    have "runs ?P \<sigma> ?rest (\<lambda>x \<tau>. x = e \<and> event_log 0 \<tau> k (es @ [e]))"
      by (rule runs_record_event [OF assms(1,3) _ e(3)]) (use assms(3) event_log_written [OF assms(3) key] in auto)
    from runs_outcome [OF this e(2)] run True e(3,4) show ?thesis by fastforce
  next
    case False
    then show ?thesis using run e(2,3) by (auto simp: holds_def)
  qed
qed

section \<open>Paging\<close>

lemma runs_read_event:
  assumes "log_files \<sigma> k es" "1 \<le> q"
    and "Q (if q \<le> int (length es) then Some (es ! nat (q - 1)) else None) \<sigma>"
  shows "runs P \<sigma> (read_optional_event k q) Q"
  unfolding read_optional_event_def
proof (rule runs_mget)
  fix s :: "'x queue_state" assume h: "holds \<sigma> s"
  show "runs P \<sigma> (case map_of (qs_events s) (k, q) of None \<Rightarrow> mret None
      | Some event \<Rightarrow> mbind (qcheck (re_job_id event = k \<and> re_seq event = q)
             (QueueConflictError (''canonical event identity mismatch: ''
                @ record_path (''events/'' @ k) (format_020d q)))) (\<lambda>_. mret (Some event))) Q"
  proof (cases "q \<le> int (length es)")
    case True
    then have m: "map_of (qs_events s) (k, q) = Some (es ! nat (q - 1))"
      using holds_cells [OF h, of "EventCell (k, q)"] assms(1,2)
      by (cases "map_of (qs_events s) (k, q)") (auto simp: log_files_def)
    have "nat (q - 1) < length es" using True assms(2) by linarith
    then have "re_job_id (es ! nat (q - 1)) = k \<and> re_seq (es ! nat (q - 1)) = q"
      using assms(1,2) by (auto simp: log_files_def)
    with m True assms(3) show ?thesis by (auto intro!: runs_mbind runs_mcheck runs_mret)
  next
    case False
    then have "map_of (qs_events s) (k, q) = None"
      using holds_cells [OF h, of "EventCell (k, q)"] assms(1) by (auto simp: log_files_def)
    with False assms(3) show ?thesis by (auto intro!: runs_mret)
  qed
qed

lemma runs_read_events:
  assumes "log_files \<sigma> k es" "1 \<le> q"
    and "Q (take n (drop (nat (q - 1)) es), q + int (length (take n (drop (nat (q - 1)) es)))) \<sigma>"
  shows "runs P \<sigma> (read_events_from n k q) Q"
  using assms(2,3)
proof (induction n arbitrary: q Q)
  case 0
  then show ?case by (simp only: read_events_from.simps) (rule runs_mret, simp)
next
  case (Suc n)
  show ?case
  proof (cases "q \<le> int (length es)")
    case True
    let ?e = "es ! nat (q - 1)"
    have len: "nat (q - 1) < length es" using True Suc.prems(1) by linarith
    then have id: "re_job_id ?e = k" "re_seq ?e = q"
      using assms(1) Suc.prems(1) by (auto simp: log_files_def)
    have step: "drop (nat (q - 1)) es = ?e # drop (nat (q + 1 - 1)) es"
      using len Suc.prems(1) by (subst Cons_nth_drop_Suc [symmetric]) (auto simp: nat_diff_distrib)
    show ?thesis
      by (simp only: read_events_from.simps, rule runs_mbind, rule runs_read_event [OF assms(1) Suc.prems(1)],
          simp only: True if_True option.case, rule runs_mbind, rule runs_mcheck, simp add: id, rule runs_mbind,
          rule Suc.IH, use Suc.prems(1) in simp, simp only: prod.case, rule runs_mret)
         (use Suc.prems step in \<open>simp add: add.assoc\<close>)
  next
    case False
    then have "drop (nat (q - 1)) es = []" using Suc.prems(1) by simp
    with False Suc.prems show ?thesis
      by (simp only: read_events_from.simps, intro runs_mbind runs_read_event [OF assms(1)])
         (auto intro!: runs_mret)
  qed
qed

text \<open>
  A page of events is exactly the requested slice of the job's log, in order, and the cursor it
  returns is the sequence after the last event read, so paging from 1 visits every event once.
\<close>

theorem event_page_exact:
  assumes "durable_id k" and "holds \<sigma> s" and "qs_budget s = None" and "log_files \<sigma> k es"
    and "1 \<le> next_seq" and "1 \<le> limit" and "\<And>x. \<exists>x'. qe_initialize env x = (Inr (), x')"
  shows "\<exists>s' page. read_event_page env k next_seq limit s = (Inr (page, next_seq + int (length page)), s')
    \<and> page = take (nat limit) (drop (nat (next_seq - 1)) es) \<and> cells s' = \<sigma>"
proof -
  let ?page = "take (nat limit) (drop (nat (next_seq - 1)) es)"
  have "runs (\<lambda>_. True) \<sigma> (read_event_page env k next_seq limit)
      (\<lambda>x \<tau>. x = (?page, next_seq + int (length ?page)) \<and> \<tau> = \<sigma>)"
    unfolding read_event_page_def
    by (rule runs_mbind, rule runs_qlift, rule require_durable_id [OF assms(1)], rule runs_mbind, rule runs_mcheck,
        use assms(5) in simp, rule runs_mbind, rule runs_mcheck, use assms(6) in simp, rule runs_mbind,
        rule runs_on_other, simp, rule assms(7), rule runs_read_events [OF assms(4,5)]) simp
  from runs_uninterrupted [OF this assms(2,3)] show ?thesis by metis
qed

section \<open>A concrete store\<close>

definition demo_index_doc :: job_index where
  "demo_index_doc =
     [(''schema_version'', JStr JOB_INDEX_SCHEMA), (''job_id'', JStr ''job_a''), (''task_count'', JInt 0),
      (''artifact_count'', JInt 0), (''progress_count'', JInt 0), (''latest_event_seq'', JInt 0),
      (''latest_progress_id'', JNull), (''retention_schema_version'', JStr RETENTION_INDEX_SCHEMA)]"

definition demo_env :: "unit queue_env" where
  "demo_env = \<lparr>qe_codec = demo_codec, qe_clock = (\<lambda>n. 0), qe_uuid = (\<lambda>n. demo_hex),
     qe_initialize = mret (), qe_require_migrated = (\<lambda>_. Inr ()), qe_capacity_migrated = (\<lambda>_. Inr True),
     qe_migrate_cleanup = (\<lambda>_ _. mret ()), qe_pending_cleanup = (\<lambda>_ _ _. False),
     qe_sync_membership = (\<lambda>_. mret ()), qe_sync_scheduler = (\<lambda>_ _. mret ()),
     qe_scheduler_refs = (\<lambda>_ _. Inr False), qe_replay_other = (\<lambda>_ _. mret ())\<rparr>"

text \<open>One queued job without leases, over a given capacity pair.\<close>

definition demo_state :: "LeaseCapacityPair \<Rightarrow> nat option \<Rightarrow> unit queue_state" where
  "demo_state p budget =
     \<lparr>qs_jobs = [(''job_a'', demo_owned_job)], qs_active = [(''job_a'', demo_owned_job)],
      qs_queued = [(''job_a'', demo_owned_job)], qs_leases = [], qs_job_leases = [], qs_index = [([], LDir)],
      qs_capacity = pair_files p, qs_intents = [], qs_events = [],
      qs_job_indexes = [(''job_a'', JObj demo_index_doc)],
      qs_docs = [], qs_other = (), qs_draws = 0, qs_budget = budget\<rparr>"

lemma demo_state_wf: "holds (cells (demo_state p b)) (demo_state p b)"
  using represents_empty by (auto simp: holds_def wf_store_def demo_state_def pair_files_def represents_def)

lemma demo_event_log: "event_log 0 (cells (demo_state p b)) ''job_a'' []"
proof -
  have "parse_job_index ''job_a'' (JObj demo_index_doc) = Inr demo_index_doc"
    "index_integer demo_index_doc ''latest_event_seq'' = Inr 0"
    by (simp_all add: parse_job_index_def demo_index_doc_def Let_def doc_get_def dict_get_def index_integer_def)
  then show ?thesis
    by (auto simp: event_log_def log_files_def index_head_def demo_state_def)
qed

lemma demo_event_job_id: "durable_id ''job_a''"
  by (simp add: durable_id_iff DURABLE_RECORD_ID_PATTERN_def durable_first_char_def durable_char_def
      WINDOWS_RESERVED_DEVICE_BASENAMES_def DURABLE_RECORD_ID_MAX_BYTES_def utf8_char_def)

text \<open>With the message as the record's text: a short event is appended, one a byte over the limit is refused.\<close>

theorem event_log_crash_safe_witness:
  "\<exists>p e s'. append_event_within re_message demo_env ''job_a'' ''job.note'' ''m'' [] (demo_state p None) = (Inr e, s')
     \<and> re_seq e = 1 \<and> event_log 0 (cells s') ''job_a'' [e]
     \<and> (\<exists>x s''. append_event_within re_message demo_env ''job_a'' ''job.note'' (replicate 262145 (CHR ''x'')) [] (demo_state p None)
          = (Inl (Raised x), s'') \<and> cells s'' = cells (demo_state p None))"
proof -
  obtain p r s' where run: "append_event_within re_message demo_env ''job_a'' ''job.note'' ''m'' [] (demo_state p None) = (r, s')"
    by fastforce
  let ?long = "replicate 262145 (CHR ''x'')"
  obtain q s'' where big: "append_event_within re_message demo_env ''job_a'' ''job.note'' ?long [] (demo_state p None) = (q, s'')"
    by fastforce
  have lag: "0 < DEFAULT_EXACT_RECORD_LIMIT" by (simp add: DEFAULT_EXACT_RECORD_LIMIT_def)
  have b: "qs_budget (demo_state p None) = None" by (simp add: demo_state_def)
  have "ascii ?long" unfolding ascii_def list_all_iff set_replicate_conv_if by simp
  then have "\<not> event_fits re_message e" if "re_message e = ?long" for e
    by (simp only: event_fits_def that utf8_encode_ascii length_replicate EVENT_RECORD_MAX_BYTES_def)
  with event_log_crash_safe [OF demo_event_job_id demo_state_wf demo_event_log lag big]
  have refused: "\<exists>x. q = Inl (Raised x) \<and> cells s'' = cells (demo_state p None)" unfolding appended_def by metis
  have "event_fits re_message e" if "re_message e = ''m''" for e
    by (simp add: event_fits_def that utf8_char_def EVENT_RECORD_MAX_BYTES_def)
  with event_log_crash_safe [OF demo_event_job_id demo_state_wf demo_event_log lag run] b
  obtain e where "r = Inr e" "re_seq e = 1" "event_log 0 (cells s') ''job_a'' [e]" by (auto simp: appended_def)
  with run big refused show ?thesis by blast
qed

theorem event_page_exact_witness:
  "\<exists>p s'. read_event_page demo_env ''job_a'' 1 100 (demo_state p None) = (Inr ([], 1), s')"
proof -
  obtain p :: LeaseCapacityPair where True by simp
  have "\<exists>x'. qe_initialize demo_env x = (Inr (), x')" for x by (simp add: demo_env_def)
  moreover have "log_files (cells (demo_state p None)) ''job_a'' []"
    using demo_event_log by (simp add: event_log_def)
  moreover have "qs_budget (demo_state p None) = None" by (simp add: demo_state_def)
  ultimately show ?thesis
    using event_page_exact [OF demo_event_job_id demo_state_wf, of p None "[]" 1 100 demo_env] by auto
qed

end
