(* ===== verification/LeaseAcquisition.thy ===== *)
theory LeaseAcquisition
  imports QueueEvents
begin

text \<open>
  Crash safety of lease acquisition. An \<open>acquisition\<close> collects what one call of \<^verbatim>\<open>_lease_job_unlocked\<close>
  works with: the content it starts from, the job, the lease it draws and the three capacity
  generations of its journal. From the moment the write-ahead intent is durable until it is
  removed, every cell holds its value from before, its value from after, or a value of the
  rollback, and replaying the journal from any such mixture restores the content from before.
\<close>

section \<open>The environment\<close>

text \<open>
  The calls into the families outside this model succeed, and \<^verbatim>\<open>uuid4().hex\<close> is 32 hexadecimal
  digits.
\<close>

definition env_ok :: "'x queue_env \<Rightarrow> bool" where
  "env_ok env \<longleftrightarrow>
     (\<forall>x. \<exists>x'. qe_initialize env x = (Inr (), x'))
     \<and> (\<forall>x. qe_require_migrated env x = Inr ())
     \<and> (\<forall>c j x. \<exists>x'. qe_migrate_cleanup env c j x = (Inr (), x'))
     \<and> (\<forall>j x. \<exists>x'. qe_sync_membership env j x = (Inr (), x'))
     \<and> (\<forall>j d x. \<exists>x'. qe_sync_scheduler env j d x = (Inr (), x'))
     \<and> (\<forall>n. all_hex 32 (qe_uuid env n))"

lemma demo_queue_env_ok: "env_ok demo_env"
  by (auto simp: env_ok_def demo_env_def demo_hex_ok)

lemma env_steps:
  assumes "env_ok env"
  shows "\<exists>x'. qe_initialize env x = (Inr (), x')"
    and "\<exists>x'. qe_migrate_cleanup env c k x = (Inr (), x')"
    and "\<exists>x'. qe_sync_membership env j x = (Inr (), x')"
    and "\<exists>x'. qe_sync_scheduler env k d x = (Inr (), x')"
    and "all_hex 32 (qe_uuid env n)"
  using assms by (auto simp: env_ok_def)

section \<open>Derived job indexes\<close>

definition synced_cells :: "RelayJob \<Rightarrow> content \<Rightarrow> content" where
  "synced_cells j \<sigma> = \<sigma>(
     ActiveCell (rj_job_id j) := (if terminal (rj_state j) then None else Some (JobV j)),
     QueuedCell (rj_job_id j) := (if rj_state j = QUEUED then Some (JobV j) else None))"

lemma not_terminal_queued: "\<not> terminal QUEUED" "\<not> terminal LEASED"
  by (simp_all add: TERMINAL_STATES_def)

lemma runs_sync_job_derived:
  assumes "env_ok env" "P \<sigma>"
    and "P (\<sigma>(ActiveCell (rj_job_id j) := (if terminal (rj_state j) then None else Some (JobV j))))"
    and "Q () (synced_cells j \<sigma>)"
  shows "runs P \<sigma> (sync_job_derived env j) Q"
proof -
  have qt: "rj_state j = QUEUED \<Longrightarrow> \<not> terminal (rj_state j)" by (simp add: not_terminal_queued)
  show ?thesis
    unfolding sync_job_derived_def
    by (rule runs_mbind, rule runs_on_other, rule assms(2), rule env_steps(3) [OF assms(1)], rule runs_mbind,
        rule runs_on_other, rule assms(2), rule env_steps(4) [OF assms(1)])
       (use assms(2-4) qt in \<open>auto simp: synced_cells_def intro!: runs_mbind runs_writes\<close>)
qed

lemma runs_write_job:
  assumes "env_ok env" "P \<sigma>"
    and "\<And>\<tau>. \<tau> = \<sigma>(IntentCell (intent_name ''job_sync'' (rj_job_id j)) \<mapsto> IntentV (JobSyncIntent (rj_job_id j)))
      \<Longrightarrow> P \<tau> \<and> P (\<tau>(JobCell (rj_job_id j) \<mapsto> JobV j))
        \<and> P (\<tau>(JobCell (rj_job_id j) \<mapsto> JobV j,
              ActiveCell (rj_job_id j) := (if terminal (rj_state j) then None else Some (JobV j))))
        \<and> P (synced_cells j (\<tau>(JobCell (rj_job_id j) \<mapsto> JobV j)))"
    and "Q () ((synced_cells j (\<sigma>(JobCell (rj_job_id j) \<mapsto> JobV j)))
      (IntentCell (intent_name ''job_sync'' (rj_job_id j)) := None))"
  shows "runs P \<sigma> (write_job env j) Q"
proof -
  let ?\<kappa> = "IntentCell (intent_name ''job_sync'' (rj_job_id j))"
  let ?\<tau> = "\<sigma>(?\<kappa> \<mapsto> IntentV (JobSyncIntent (rj_job_id j)))"
  note P = assms(3) [OF refl]
  have "(synced_cells j (?\<tau>(JobCell (rj_job_id j) \<mapsto> JobV j)))(?\<kappa> := None)
      = (synced_cells j (\<sigma>(JobCell (rj_job_id j) \<mapsto> JobV j)))(?\<kappa> := None)"
    by (rule ext) (simp add: synced_cells_def)
  then have final: "Q () ((synced_cells j (?\<tau>(JobCell (rj_job_id j) \<mapsto> JobV j)))(?\<kappa> := None))"
    using assms(4) by simp
  show ?thesis
    unfolding write_job_def
    by (rule runs_mbind, rule runs_on_other, rule assms(2), rule env_steps(2) [OF assms(1)], rule runs_mbind,
        rule runs_write_intent [of P, OF assms(2)], rule runs_mbind, rule runs_writes(1), use P in blast, rule runs_mbind,
        rule runs_sync_job_derived [OF assms(1)], use P in blast, use P in blast, rule runs_writes(10))
       (use P final in blast)+
qed

section \<open>One acquisition\<close>

record acquisition =
  aq_base :: content
  aq_job :: RelayJob
  aq_now :: timestamp
  aq_lease :: Lease
  aq_before :: LeaseCapacityPair
  aq_after :: LeaseCapacityPair
  aq_rollback :: LeaseCapacityPair

abbreviation aq_jid :: "acquisition \<Rightarrow> string" where "aq_jid a \<equiv> rj_job_id (aq_job a)"
abbreviation aq_lid :: "acquisition \<Rightarrow> string" where "aq_lid a \<equiv> le_lease_id (aq_lease a)"
abbreviation aq_identity :: "acquisition \<Rightarrow> LeaseIndexIdentity" where
  "aq_identity a \<equiv> identity_of (aq_lease a) (aq_job a)"
abbreviation aq_target :: "acquisition \<Rightarrow> RelayJob" where
  "aq_target a \<equiv> leased (aq_job a) (le_endpoint_id (aq_lease a)) (aq_now a)"
abbreviation aq_pairs :: "acquisition \<Rightarrow> (string \<times> LeaseCapacityPair) list" where
  "aq_pairs a \<equiv> [(''before'', aq_before a), (''after'', aq_after a), (''rollback'', aq_rollback a)]"
abbreviation aq_intent_cell :: "acquisition \<Rightarrow> cell" where
  "aq_intent_cell a \<equiv> IntentCell (intent_name ''lease_acquire'' (aq_lid a))"
abbreviation aq_sync_cell :: "acquisition \<Rightarrow> cell" where
  "aq_sync_cell a \<equiv> IntentCell (intent_name ''job_sync'' (aq_jid a))"

definition aq_intent :: "'x queue_env \<Rightarrow> acquisition \<Rightarrow> queue_intent" where
  "aq_intent env a = LeaseAcquireIntent (aq_jid a) (aq_lease a) (aq_job a) (aq_target a)
     (iso_format (qe_codec env) (aq_now a)) (Some (transition_json (aq_pairs a)))"

definition acquisition_ok :: "'x queue_env \<Rightarrow> acquisition \<Rightarrow> bool" where
  "acquisition_ok env a \<longleftrightarrow>
     env_ok env \<and> wf_identity (qe_codec env) (aq_identity a)
     \<and> le_job_id (aq_lease a) = aq_jid a \<and> rj_state (aq_job a) = QUEUED
     \<and> aq_base a (JobCell (aq_jid a)) = Some (JobV (aq_job a))
     \<and> aq_base a (ActiveCell (aq_jid a)) = Some (JobV (aq_job a))
     \<and> aq_base a (QueuedCell (aq_jid a)) = Some (JobV (aq_job a))
     \<and> aq_base a (LeaseCell (aq_lid a)) = None
     \<and> aq_base a (JobLeaseCell (aq_jid a, aq_lid a)) = None
     \<and> (\<forall>p n. lease_files (qe_codec env) (aq_identity a) p = Some n \<longrightarrow> aq_base a (IndexCell p) = None)
     \<and> (\<forall>n. aq_base a (IntentCell n) = None)
     \<and> bound_pair (aq_before a) \<and> bound_pair (aq_after a) \<and> bound_pair (aq_rollback a)
     \<and> aq_base a AggregateCell = Some (aggregate_value (aq_before a))
     \<and> aq_base a CheckpointCell = Some (checkpoint_value (aq_before a))"

text \<open>The content before, the content after (both with the intent), and what only a rollback writes.\<close>

definition aq_start :: "'x queue_env \<Rightarrow> acquisition \<Rightarrow> content" where
  "aq_start env a = (aq_base a)(aq_intent_cell a \<mapsto> IntentV (aq_intent env a))"

definition aq_granted :: "'x queue_env \<Rightarrow> acquisition \<Rightarrow> content" where
  "aq_granted env a = with_pair (aq_after a) (set_files (qe_codec env) (aq_identity a)
     ((aq_base a)(JobCell (aq_jid a) \<mapsto> JobV (aq_target a), ActiveCell (aq_jid a) \<mapsto> JobV (aq_target a),
        QueuedCell (aq_jid a) := None, LeaseCell (aq_lid a) \<mapsto> LeaseV (aq_lease a),
        JobLeaseCell (aq_jid a, aq_lid a) \<mapsto> LeaseV (aq_lease a))))"

definition aq_extra :: "'x queue_env \<Rightarrow> acquisition \<Rightarrow> content" where
  "aq_extra env a = with_pair (aq_rollback a)
     ((aq_start env a)(aq_sync_cell a \<mapsto> IntentV (JobSyncIntent (aq_jid a))))"

definition aq_mixed :: "'x queue_env \<Rightarrow> acquisition \<Rightarrow> content \<Rightarrow> bool" where
  "aq_mixed env a \<sigma> \<longleftrightarrow> \<sigma> (aq_intent_cell a) = Some (IntentV (aq_intent env a))
     \<and> (\<forall>c. \<sigma> c \<in> {aq_start env a c, aq_granted env a c, aq_extra env a c})"

text \<open>The derived indexes only run ahead of the canonical job record, never behind.\<close>

definition aq_in_step :: "acquisition \<Rightarrow> content \<Rightarrow> bool" where
  "aq_in_step a \<sigma> \<longleftrightarrow> (\<sigma> (JobCell (aq_jid a)) = Some (JobV (aq_job a)) \<longrightarrow>
     \<sigma> (ActiveCell (aq_jid a)) = Some (JobV (aq_job a)) \<and> \<sigma> (QueuedCell (aq_jid a)) = Some (JobV (aq_job a)))"

lemma intent_cells_differ [simp]:
  "intent_name ''lease_acquire'' x \<noteq> intent_name ''job_sync'' y"
  "intent_name ''job_sync'' y \<noteq> intent_name ''lease_acquire'' x"
  by (simp_all add: intent_name_def)

lemma set_files_other [simp]:
  "(\<And>p. c \<noteq> IndexCell p) \<Longrightarrow> set_files codec i \<sigma> c = \<sigma> c"
  "(\<And>p. c \<noteq> IndexCell p) \<Longrightarrow> clear_files codec i \<sigma> c = \<sigma> c"
  by (auto simp: set_files_def clear_files_def split: cell.splits)

lemma with_pair_other [simp]:
  "c \<noteq> AggregateCell \<Longrightarrow> c \<noteq> CheckpointCell \<Longrightarrow> with_pair p \<sigma> c = \<sigma> c"
  "with_pair p \<sigma> AggregateCell = Some (aggregate_value p)"
  "with_pair p \<sigma> CheckpointCell = Some (checkpoint_value p)"
  by (simp_all add: with_pair_def)

lemma leased_fields [simp]:
  "rj_job_id (leased j e t) = rj_job_id j" "rj_cluster (leased j e t) = rj_cluster j"
  "rj_kind (leased j e t) = rj_kind j" "rj_state (leased j e t) = LEASED"
  "rj_leased_by (leased j e t) = Some e" "rj_updated_at (leased j e t) = t"
  by (simp_all add: leased_def)

lemma identity_of_leased [simp]: "identity_of l (leased j e t) = identity_of l j"
  by (simp add: identity_of_def)

lemma aq_mixed_upd:
  "aq_mixed env a \<sigma> \<Longrightarrow> v \<in> {aq_start env a c, aq_granted env a c, aq_extra env a c} \<Longrightarrow> c \<noteq> aq_intent_cell a
     \<Longrightarrow> aq_mixed env a (\<sigma>(c := v))"
  by (auto simp: aq_mixed_def)

lemma aq_mixed_between:
  "aq_mixed env a \<sigma> \<Longrightarrow> aq_mixed env a \<tau> \<Longrightarrow> between \<sigma> \<tau> \<rho> \<Longrightarrow> aq_mixed env a \<rho>"
  unfolding aq_mixed_def between_def by metis

lemma aq_cells [simp]:
  "aq_start env a (JobCell k) = aq_base a (JobCell k)"
  "aq_start env a (ActiveCell k) = aq_base a (ActiveCell k)"
  "aq_start env a (QueuedCell k) = aq_base a (QueuedCell k)"
  "aq_start env a (LeaseCell k) = aq_base a (LeaseCell k)"
  "aq_start env a (JobLeaseCell kk) = aq_base a (JobLeaseCell kk)"
  "aq_start env a (IndexCell p) = aq_base a (IndexCell p)"
  "aq_start env a AggregateCell = aq_base a AggregateCell"
  "aq_start env a CheckpointCell = aq_base a CheckpointCell"
  "aq_start env a (EventCell ke) = aq_base a (EventCell ke)"
  "aq_start env a (JobIndexCell k) = aq_base a (JobIndexCell k)"
  "aq_start env a (DocCell kd) = aq_base a (DocCell kd)"
  by (simp_all add: aq_start_def)

lemma aq_granted_cells [simp]:
  "aq_granted env a (JobCell k) = (if k = aq_jid a then Some (JobV (aq_target a)) else aq_base a (JobCell k))"
  "aq_granted env a (ActiveCell k) = (if k = aq_jid a then Some (JobV (aq_target a)) else aq_base a (ActiveCell k))"
  "aq_granted env a (QueuedCell k) = (if k = aq_jid a then None else aq_base a (QueuedCell k))"
  "aq_granted env a (LeaseCell k) = (if k = aq_lid a then Some (LeaseV (aq_lease a)) else aq_base a (LeaseCell k))"
  "aq_granted env a (JobLeaseCell kk) =
     (if kk = (aq_jid a, aq_lid a) then Some (LeaseV (aq_lease a)) else aq_base a (JobLeaseCell kk))"
  "aq_granted env a (IndexCell p) = (case lease_files (qe_codec env) (aq_identity a) p of
     Some n \<Rightarrow> Some (NodeV n) | None \<Rightarrow> aq_base a (IndexCell p))"
  "aq_granted env a AggregateCell = Some (aggregate_value (aq_after a))"
  "aq_granted env a CheckpointCell = Some (checkpoint_value (aq_after a))"
  "aq_granted env a (IntentCell k) = aq_base a (IntentCell k)"
  "aq_granted env a (EventCell ke) = aq_base a (EventCell ke)"
  "aq_granted env a (JobIndexCell k) = aq_base a (JobIndexCell k)"
  "aq_granted env a (DocCell kd) = aq_base a (DocCell kd)"
  by (simp_all add: aq_granted_def set_files_def split: option.split)

lemma aq_extra_cells [simp]:
  "aq_extra env a (JobCell k) = aq_base a (JobCell k)"
  "aq_extra env a (ActiveCell k) = aq_base a (ActiveCell k)"
  "aq_extra env a (QueuedCell k) = aq_base a (QueuedCell k)"
  "aq_extra env a (LeaseCell k) = aq_base a (LeaseCell k)"
  "aq_extra env a (JobLeaseCell kk) = aq_base a (JobLeaseCell kk)"
  "aq_extra env a (IndexCell p) = aq_base a (IndexCell p)"
  "aq_extra env a AggregateCell = Some (aggregate_value (aq_rollback a))"
  "aq_extra env a CheckpointCell = Some (checkpoint_value (aq_rollback a))"
  "aq_extra env a (aq_sync_cell a) = Some (IntentV (JobSyncIntent (aq_jid a)))"
  "aq_extra env a (EventCell ke) = aq_base a (EventCell ke)"
  "aq_extra env a (JobIndexCell k) = aq_base a (JobIndexCell k)"
  "aq_extra env a (DocCell kd) = aq_base a (DocCell kd)"
  by (simp_all add: aq_extra_def)

lemma aq_pairs_ok:
  assumes "acquisition_ok env a"
  shows "transition_names (aq_pairs a)" "\<forall>(name, p) \<in> set (aq_pairs a). bound_pair p" "distinct (map fst (aq_pairs a))"
  using assms by (auto simp: acquisition_ok_def transition_names_def)

lemma aq_mixed_cell:
  "aq_mixed env a \<sigma> \<Longrightarrow> \<sigma> c = aq_start env a c \<or> \<sigma> c = aq_granted env a c \<or> \<sigma> c = aq_extra env a c"
  by (auto simp: aq_mixed_def)

lemma aq_mixed_torn:
  assumes "acquisition_ok env a" "aq_mixed env a \<sigma>"
  shows "torn (map snd (aq_pairs a)) (capacity_of \<sigma>)"
proof -
  have agg: "\<sigma> AggregateCell \<in> Some ` aggregate_value ` {aq_before a, aq_after a, aq_rollback a}"
    and chk: "\<sigma> CheckpointCell \<in> Some ` checkpoint_value ` {aq_before a, aq_after a, aq_rollback a}"
    using aq_mixed_cell [OF assms(2), of AggregateCell] aq_mixed_cell [OF assms(2), of CheckpointCell] assms(1)
    by (auto simp: acquisition_ok_def)
  then show ?thesis
    by (auto simp: torn_def capacity_of_def)
qed

section \<open>Rolling back\<close>

definition aq_unsynced :: "acquisition \<Rightarrow> content \<Rightarrow> content" where
  "aq_unsynced a \<sigma> = (if \<sigma> (JobCell (aq_jid a)) = Some (JobV (aq_target a))
     then synced_cells (aq_job a) (\<sigma>(JobCell (aq_jid a) \<mapsto> JobV (aq_job a))) else \<sigma>)"

definition aq_rolled_from :: "'x queue_env \<Rightarrow> acquisition \<Rightarrow> content \<Rightarrow> content" where
  "aq_rolled_from env a \<sigma> = (with_pair (aq_rollback a) (clear_files (qe_codec env) (aq_identity a)
     ((aq_unsynced a \<sigma>)(LeaseCell (aq_lid a) := None, JobLeaseCell (aq_jid a, aq_lid a) := None))))
       (aq_intent_cell a := None)"

lemma target_not_original:
  "acquisition_ok env a \<Longrightarrow> aq_target a \<noteq> aq_job a"
proof
  assume "acquisition_ok env a" "aq_target a = aq_job a"
  then have "rj_state (aq_target a) = QUEUED" by (simp add: acquisition_ok_def)
  then show False by simp
qed

lemma aq_job_cases:
  assumes "acquisition_ok env a" "aq_mixed env a \<sigma>"
  obtains (original) "\<sigma> (JobCell (aq_jid a)) = Some (JobV (aq_job a))"
  | (target) "\<sigma> (JobCell (aq_jid a)) = Some (JobV (aq_target a))"
  using aq_mixed_cell [OF assms(2), of "JobCell (aq_jid a)"] assms(1) that
  by (auto simp: acquisition_ok_def)

lemma aq_unsynced_mixed:
  assumes ok: "acquisition_ok env a" and mixed: "aq_mixed env a \<sigma>"
  shows "aq_mixed env a (aq_unsynced a \<sigma>)" "aq_unsynced a \<sigma> (JobCell (aq_jid a)) = Some (JobV (aq_job a))"
proof -
  have state: "rj_state (aq_job a) = QUEUED" and base: "aq_base a (JobCell (aq_jid a)) = Some (JobV (aq_job a))"
    "aq_base a (ActiveCell (aq_jid a)) = Some (JobV (aq_job a))"
    "aq_base a (QueuedCell (aq_jid a)) = Some (JobV (aq_job a))"
    using ok by (simp_all add: acquisition_ok_def)
  show "aq_mixed env a (aq_unsynced a \<sigma>)"
    using mixed base state
    by (auto simp: aq_unsynced_def synced_cells_def not_terminal_queued intro!: aq_mixed_upd)
  show "aq_unsynced a \<sigma> (JobCell (aq_jid a)) = Some (JobV (aq_job a))"
    by (rule aq_job_cases [OF ok mixed])
       (simp_all add: aq_unsynced_def synced_cells_def target_not_original [OF ok] state)
qed

lemma aq_manifest_cell:
  assumes ok: "acquisition_ok env a" and mixed: "aq_mixed env a \<sigma>"
  shows "\<sigma> (IndexCell (lease_index_path (li_lease_id (aq_identity a)))) \<in>
      {None, Some (NodeV (LDoc (lease_index_document (iso_format (qe_codec env)) (aq_identity a))))}"
proof -
  have m: "lease_files (qe_codec env) (aq_identity a) (lease_index_path (li_lease_id (aq_identity a)))
      = Some (LDoc (lease_index_document (iso_format (qe_codec env)) (aq_identity a)))"
    by (rule manifest_in_files)
  with ok have "aq_base a (IndexCell (lease_index_path (li_lease_id (aq_identity a)))) = None"
    by (auto simp: acquisition_ok_def)
  with aq_mixed_cell [OF mixed, of "IndexCell (lease_index_path (li_lease_id (aq_identity a)))"] m
  show ?thesis by auto
qed

lemma aq_clear_mixed:
  assumes ok: "acquisition_ok env a" and mixed: "aq_mixed env a \<sigma>"
  shows "aq_mixed env a (clear_files (qe_codec env) (aq_identity a) \<sigma>)"
  unfolding aq_mixed_def
proof (intro conjI allI)
  show "clear_files (qe_codec env) (aq_identity a) \<sigma> (aq_intent_cell a) = Some (IntentV (aq_intent env a))"
    using mixed by (simp add: aq_mixed_def)
  fix c
  show "clear_files (qe_codec env) (aq_identity a) \<sigma> c \<in> {aq_start env a c, aq_granted env a c, aq_extra env a c}"
    using aq_mixed_cell [OF mixed, of c] ok
    by (cases c) (auto simp: clear_files_def acquisition_ok_def simp del: aq_granted_cells)
qed

lemma identity_ok:
  assumes "acquisition_ok env a"
  shows "lease_index_identity (aq_lease a) (aq_job a) = Inr (aq_identity a)"
    "lease_index_identity (aq_lease a) (aq_target a) = Inr (aq_identity a)"
    "durable_id (aq_jid a)" "durable_id (aq_lid a)" "wf_identity (qe_codec env) (aq_identity a)"
proof -
  have wf: "wf_identity (qe_codec env) (aq_identity a)" and id: "le_job_id (aq_lease a) = aq_jid a"
    using assms by (simp_all add: acquisition_ok_def)
  show "lease_index_identity (aq_lease a) (aq_job a) = Inr (aq_identity a)"
    by (rule lease_index_identity_eq [OF id wf])
  show "lease_index_identity (aq_lease a) (aq_target a) = Inr (aq_identity a)"
    using lease_index_identity_eq [of "aq_lease a" "aq_target a" "qe_codec env"] id wf by simp
  show "durable_id (aq_jid a)" "durable_id (aq_lid a)" "wf_identity (qe_codec env) (aq_identity a)"
    using wf id by (simp_all add: wf_identity_def identity_of_def)
qed

lemma runs_reconcile_acquire:
  fixes env :: "'x queue_env"
  assumes ok: "acquisition_ok env a" and mixed: "aq_mixed env a \<sigma>"
    and Q: "Q () (aq_rolled_from env a \<sigma>)"
  shows "runs (aq_mixed env a) \<sigma> (reconcile_lease_acquire_intent env (intent_name ''lease_acquire'' (aq_lid a))
     (aq_lease a) (aq_job a) (aq_target a) (iso_format (qe_codec env) (aq_now a))
     (Some (transition_json (aq_pairs a)))) Q"
proof -
  note id = identity_ok [OF ok]
  have state: "rj_state (aq_job a) = QUEUED" and env: "env_ok env" and job: "le_job_id (aq_lease a) = aq_jid a"
    using ok by (simp_all add: acquisition_ok_def)
  let ?u = "aq_unsynced a \<sigma>"
  let ?v = "?u(LeaseCell (aq_lid a) := None)"
  let ?w = "?v(JobLeaseCell (aq_jid a, aq_lid a) := None)"
  let ?x = "clear_files (qe_codec env) (aq_identity a) ?w"
  let ?y = "?x(AggregateCell \<mapsto> aggregate_value (aq_rollback a))"
  have mu: "aq_mixed env a ?u" by (rule aq_unsynced_mixed(1) [OF ok mixed])
  have base: "aq_base a (LeaseCell (aq_lid a)) = None" "aq_base a (JobLeaseCell (aq_jid a, aq_lid a)) = None"
    using ok by (simp_all add: acquisition_ok_def)
  have mv: "aq_mixed env a ?v" by (rule aq_mixed_upd [OF mu]) (simp_all add: base)
  have mw: "aq_mixed env a ?w" by (rule aq_mixed_upd [OF mv]) (simp_all add: base)
  have mx: "aq_mixed env a ?x" by (rule aq_clear_mixed [OF ok mw])
  have my: "aq_mixed env a ?y" by (rule aq_mixed_upd [OF mx]) simp_all
  have mz: "aq_mixed env a (with_pair (aq_rollback a) ?x)"
    unfolding with_pair_def by (rule aq_mixed_upd [OF my]) simp_all
  have tail: "runs (aq_mixed env a) ?u (mbind (qlift (lease_index_identity (aq_lease a) (aq_job a))) (\<lambda>i.
      mbind (mbind (unlink_lease (aq_lid a)) (\<lambda>_.
             mbind (unlink_job_lease (le_job_id (aq_lease a)) (aq_lid a)) (\<lambda>_.
             delete_operational_indexes env i True))) (\<lambda>_.
      mbind (finish_capacity env (Some (transition_json (aq_pairs a))) ''rollback'' label missing) (\<lambda>_.
      unlink_intent (intent_name ''lease_acquire'' (aq_lid a)))))) Q" for label missing
    by (rule runs_mbind, rule runs_qlift [OF id(1)], rule runs_mbind, rule runs_mbind, rule runs_writes(9), rule mu,
        rule runs_mbind, unfold job, rule runs_job_lease(2) [OF id(3,4)], rule mv, rule runs_delete_indexes [OF id(5)],
        rule aq_manifest_cell [OF ok mw], erule aq_mixed_between [OF mw mx], unfold finish_capacity_def option.case,
        rule runs_mbind, rule runs_mbind, rule runs_apply_capacity [OF aq_pairs_ok [OF ok], of "''rollback''" "aq_rollback a"],
        simp, rule aq_mixed_torn [OF ok mx], rule mx, rule my, rule runs_mret, rule runs_writes(10), rule mz)
       (use Q in \<open>simp add: aq_rolled_from_def\<close>)
  have check: "\<not> (le_job_id (aq_lease a) \<noteq> aq_jid a \<or> rj_job_id (aq_target a) \<noteq> aq_jid a
      \<or> rj_cluster (aq_target a) \<noteq> rj_cluster (aq_job a) \<or> rj_kind (aq_target a) \<noteq> rj_kind (aq_job a)
      \<or> rj_state (aq_target a) \<noteq> LEASED \<or> rj_leased_by (aq_target a) \<noteq> Some (le_endpoint_id (aq_lease a))
      \<or> iso_format (qe_codec env) (rj_updated_at (aq_target a)) \<noteq> iso_format (qe_codec env) (aq_now a))"
    using job by simp
  show ?thesis
  proof (rule aq_job_cases [OF ok mixed])
    assume cur: "\<sigma> (JobCell (aq_jid a)) = Some (JobV (aq_job a))"
    then have u: "?u = \<sigma>" using target_not_original [OF ok] by (auto simp: aq_unsynced_def)
    show ?thesis
      unfolding reconcile_lease_acquire_intent_def Let_def
      by (rule runs_mbind, rule runs_mcheck [OF check], rule runs_mbind,
          rule runs_read_job [where r = "Some (aq_job a)"], simp add: cur job, simp add: job id,
          use tail in \<open>simp add: state u\<close>)
  next
    assume cur: "\<sigma> (JobCell (aq_jid a)) = Some (JobV (aq_target a))"
    let ?j = "\<sigma>(JobCell (aq_jid a) \<mapsto> JobV (aq_job a))"
    have b: "aq_base a (JobCell (aq_jid a)) = Some (JobV (aq_job a))"
      "aq_base a (ActiveCell (aq_jid a)) = Some (JobV (aq_job a))" using ok by (simp_all add: acquisition_ok_def)
    have mj: "aq_mixed env a ?j" by (rule aq_mixed_upd [OF mixed]) (simp_all add: b)
    have ma: "aq_mixed env a (?j(ActiveCell (aq_jid a) := Some (JobV (aq_job a))))"
      by (rule aq_mixed_upd [OF mj]) (simp_all add: b)
    have u: "?u = synced_cells (aq_job a) ?j" using cur by (simp add: aq_unsynced_def)
    have first: "runs (aq_mixed env a) \<sigma> (mbind (write_job_record (aq_job a)) (\<lambda>_. sync_job_derived env (aq_job a)))
        (\<lambda>_ \<tau>. \<tau> = ?u)"
      by (rule runs_mbind, rule runs_writes(1), rule mixed, rule runs_sync_job_derived [OF env], rule mj)
         (use ma state u in \<open>simp_all add: not_terminal_queued\<close>)
    show ?thesis
      unfolding reconcile_lease_acquire_intent_def Let_def
      by (rule runs_mbind, rule runs_mcheck [OF check], rule runs_mbind,
          rule runs_read_job [where r = "Some (aq_target a)"], simp add: cur job, simp add: job id,
          rule runs_mbind, simp, rule runs_weaken [OF first], use tail in simp)
  qed
qed

text \<open>The content from before the acquisition, up to the capacity generation and the derived job indexes.\<close>

definition aq_rolled :: "acquisition \<Rightarrow> content \<Rightarrow> bool" where
  "aq_rolled a \<sigma> \<longleftrightarrow>
     (\<forall>c. c \<notin> {ActiveCell (aq_jid a), QueuedCell (aq_jid a), AggregateCell, CheckpointCell, aq_sync_cell a}
        \<longrightarrow> \<sigma> c = aq_base a c)
     \<and> \<sigma> AggregateCell = Some (aggregate_value (aq_rollback a))
     \<and> \<sigma> CheckpointCell = Some (checkpoint_value (aq_rollback a))
     \<and> \<sigma> (aq_sync_cell a) \<in> {None, Some (IntentV (JobSyncIntent (aq_jid a)))}"

definition aq_indexed :: "acquisition \<Rightarrow> content \<Rightarrow> bool" where
  "aq_indexed a \<sigma> \<longleftrightarrow> \<sigma> (ActiveCell (aq_jid a)) = Some (JobV (aq_job a))
     \<and> \<sigma> (QueuedCell (aq_jid a)) = Some (JobV (aq_job a))"

lemma aq_sync_cell_cases:
  assumes "acquisition_ok env a" "aq_mixed env a \<sigma>"
  shows "\<sigma> (aq_sync_cell a) \<in> {None, Some (IntentV (JobSyncIntent (aq_jid a)))}"
proof -
  have "aq_base a (aq_sync_cell a) = None" using assms(1) by (simp add: acquisition_ok_def)
  then show ?thesis
    using aq_mixed_cell [OF assms(2), of "aq_sync_cell a"] by (auto simp: aq_start_def)
qed

lemma aq_intent_cells:
  assumes "acquisition_ok env a" "aq_mixed env a \<sigma>"
  shows "\<sigma> (IntentCell n) = (if n = intent_name ''lease_acquire'' (aq_lid a) then Some (IntentV (aq_intent env a))
     else if n = intent_name ''job_sync'' (aq_jid a) then \<sigma> (IntentCell n) else None)"
proof -
  have "aq_base a (IntentCell n) = None" using assms(1) by (simp add: acquisition_ok_def)
  then show ?thesis
    using aq_mixed_cell [OF assms(2), of "IntentCell n"] assms(2)
    by (auto simp: aq_start_def aq_extra_def aq_mixed_def)
qed

lemma aq_rolled_from_rolled:
  assumes ok: "acquisition_ok env a" and mixed: "aq_mixed env a \<sigma>"
  shows "aq_rolled a (aq_rolled_from env a \<sigma>)"
    "aq_rolled_from env a \<sigma> (aq_sync_cell a) = \<sigma> (aq_sync_cell a)"
    "aq_in_step a \<sigma> \<Longrightarrow> aq_indexed a (aq_rolled_from env a \<sigma>)"
proof -
  let ?u = "aq_unsynced a \<sigma>"
  have u: "aq_mixed env a ?u" "?u (JobCell (aq_jid a)) = Some (JobV (aq_job a))"
    by (rule aq_unsynced_mixed [OF ok mixed])+
  show sync: "aq_rolled_from env a \<sigma> (aq_sync_cell a) = \<sigma> (aq_sync_cell a)"
    by (simp add: aq_rolled_from_def aq_unsynced_def synced_cells_def)
  have "aq_rolled_from env a \<sigma> c = aq_base a c"
    if "c \<notin> {ActiveCell (aq_jid a), QueuedCell (aq_jid a), AggregateCell, CheckpointCell, aq_sync_cell a}" for c
  proof (cases c)
    case (IndexCell p)
    then show ?thesis
      using aq_mixed_cell [OF u(1), of c] ok
      by (auto simp: aq_rolled_from_def clear_files_def acquisition_ok_def)
  next
    case (IntentCell n)
    then show ?thesis
      using that aq_intent_cells [OF ok u(1), of n] ok
      by (auto simp: aq_rolled_from_def acquisition_ok_def split: if_splits)
  qed (use that aq_mixed_cell [OF u(1), of c] ok u(2) in
      \<open>auto simp: aq_rolled_from_def acquisition_ok_def split: if_splits\<close>)
  moreover have "\<sigma> (aq_sync_cell a) \<in> {None, Some (IntentV (JobSyncIntent (aq_jid a)))}"
    by (rule aq_sync_cell_cases [OF ok mixed])
  ultimately show "aq_rolled a (aq_rolled_from env a \<sigma>)"
    using sync by (simp add: aq_rolled_def) (simp add: aq_rolled_from_def)
  show "aq_indexed a (aq_rolled_from env a \<sigma>)" if "aq_in_step a \<sigma>"
  proof (rule aq_job_cases [OF ok mixed])
    assume "\<sigma> (JobCell (aq_jid a)) = Some (JobV (aq_job a))"
    with that show ?thesis
      using target_not_original [OF ok]
      by (auto simp: aq_in_step_def aq_indexed_def aq_rolled_from_def aq_unsynced_def)
  next
    assume "\<sigma> (JobCell (aq_jid a)) = Some (JobV (aq_target a))"
    then show ?thesis
      using ok by (simp add: aq_indexed_def aq_rolled_from_def aq_unsynced_def synced_cells_def
          acquisition_ok_def not_terminal_queued)
  qed
qed

lemma runs_replay_job_sync:
  fixes env :: "'x queue_env"
  assumes ok: "acquisition_ok env a" and rolled: "aq_rolled a \<sigma>"
    and Q: "\<And>\<tau>. aq_rolled a \<tau> \<Longrightarrow> \<tau> (aq_sync_cell a) = None \<Longrightarrow> aq_indexed a \<tau> \<Longrightarrow> Q () \<tau>"
  shows "runs (aq_rolled a) \<sigma> (replay_job_sync env (intent_name ''job_sync'' (aq_jid a)) (aq_jid a)) Q"
proof -
  have env: "env_ok env" and state: "rj_state (aq_job a) = QUEUED"
    and job: "\<sigma> (JobCell (aq_jid a)) = Some (JobV (aq_job a))"
    using ok rolled by (auto simp: acquisition_ok_def aq_rolled_def)
  have dur: "durable_id (aq_jid a)" by (rule identity_ok(3) [OF ok])
  then have ne: "aq_jid a \<noteq> []" by (auto simp: durable_id_pattern DURABLE_RECORD_ID_PATTERN_def)
  let ?s = "synced_cells (aq_job a) \<sigma>"
  have s: "aq_rolled a ?s" using rolled by (auto simp: aq_rolled_def synced_cells_def)
  have act: "aq_rolled a (\<sigma>(ActiveCell (aq_jid a) :=
      (if terminal (rj_state (aq_job a)) then None else Some (JobV (aq_job a)))))"
    using rolled by (auto simp: aq_rolled_def)
  have fin: "Q () (?s(aq_sync_cell a := None))"
    by (rule Q) (use s state in \<open>auto simp: aq_rolled_def aq_indexed_def synced_cells_def not_terminal_queued\<close>)
  show ?thesis
    unfolding replay_job_sync_def
    by (rule runs_mbind, rule runs_mcheck [OF ne], rule runs_mbind, rule runs_read_job [where r = "Some (aq_job a)"],
        simp add: job, simp add: dur, simp only: option.case, rule runs_mbind,
        rule runs_sync_job_derived [OF env], rule rolled, rule act, rule runs_writes(10), rule s, rule fin)
qed

text \<open>What a crash during the replay itself can leave.\<close>

definition aq_pending :: "'x queue_env \<Rightarrow> acquisition \<Rightarrow> content \<Rightarrow> bool" where
  "aq_pending env a \<sigma> \<longleftrightarrow> aq_mixed env a \<sigma> \<or> aq_rolled a \<sigma>"

definition aq_settled :: "acquisition \<Rightarrow> content \<Rightarrow> bool" where
  "aq_settled a \<sigma> \<longleftrightarrow> aq_rolled a \<sigma> \<and> \<sigma> (aq_sync_cell a) = None"

lemma map_of_nowhere: "(\<And>n. map_of xs n = None) \<Longrightarrow> xs = []"
proof (cases xs)
  case (Cons y ys)
  assume "\<And>n. map_of xs n = None"
  then have "map_of xs (fst y) = None" .
  with Cons show ?thesis by (cases y) simp
qed simp

lemma runs_replay_rolled:
  fixes env :: "'x queue_env"
  assumes ok: "acquisition_ok env a" and rolled: "aq_rolled a \<sigma>"
    and Q: "\<And>jobs \<tau>. aq_settled a \<tau> \<Longrightarrow> (aq_indexed a \<sigma> \<or> \<sigma> (aq_sync_cell a) \<noteq> None \<longrightarrow> aq_indexed a \<tau>) \<Longrightarrow> Q jobs \<tau>"
  shows "runs (aq_rolled a) \<sigma> (reconcile_transition_intents env) Q"
  unfolding reconcile_transition_intents_def
proof (rule runs_mbind, rule runs_read_intents [where ns = "[intent_name ''job_sync'' (aq_jid a)]"])
  have cells: "\<sigma> (IntentCell n) = (if n = intent_name ''job_sync'' (aq_jid a) then \<sigma> (aq_sync_cell a) else None)" for n
    using ok rolled by (auto simp: aq_rolled_def acquisition_ok_def)
  have sync: "\<sigma> (aq_sync_cell a) \<in> {None, Some (IntentV (JobSyncIntent (aq_jid a)))}"
    using rolled by (simp add: aq_rolled_def)
  show "n \<in> set [intent_name ''job_sync'' (aq_jid a)]" if "\<sigma> (IntentCell n) \<noteq> None" for n
    using that cells [of n] by (simp split: if_splits)
  show "length [intent_name ''job_sync'' (aq_jid a)] \<le> 10000" by simp
  show "\<sigma> (IntentCell n) \<noteq> Some (IntentV (BadIntent e))" for n e
    using cells [of n] sync by (auto split: if_splits)
  fix xs :: "(string \<times> queue_intent) list"
  assume d: "distinct (map fst xs)" and m: "\<And>n. map_option IntentV (map_of xs n) = \<sigma> (IntentCell n)"
  show "runs (aq_rolled a) \<sigma> (mbind (mmap (replay_intent env) (sort_key (\<lambda>(_, intent). intent_order intent) xs))
      (\<lambda>jobs. mret (concat jobs))) Q"
  proof (cases "\<sigma> (aq_sync_cell a) = None")
    case True
    have "map_of xs n = None" for n using m [of n] cells [of n] True by (auto split: if_splits)
    then have "xs = []" by (rule map_of_nowhere)
    then show ?thesis
      by (simp only: sort_key_simps mmap.simps mbind_mret concat.simps)
         (rule runs_mret, rule Q, use True rolled in \<open>auto simp: aq_settled_def\<close>)
  next
    case False
    then have s: "\<sigma> (aq_sync_cell a) = Some (IntentV (JobSyncIntent (aq_jid a)))" using sync by auto
    have "\<sigma> (IntentCell n) = (if n = intent_name ''job_sync'' (aq_jid a)
        then Some (IntentV (JobSyncIntent (aq_jid a))) else None)" for n
      using cells [of n] s by simp
    then have "xs = [(intent_name ''job_sync'' (aq_jid a), JobSyncIntent (aq_jid a))]"
      by (rule one_intent [OF d m])
    then show ?thesis
      by (simp only: sort_key_simps insort_key.simps mmap.simps replay_intent.simps)
         (intro runs_mbind runs_replay_job_sync [OF ok rolled] runs_mret Q; simp add: aq_settled_def)
  qed
qed

lemma runs_replay_mixed:
  fixes env :: "'x queue_env"
  assumes ok: "acquisition_ok env a" and mixed: "aq_mixed env a \<sigma>"
    and Q: "\<And>jobs \<tau>. aq_settled a \<tau> \<Longrightarrow> (aq_in_step a \<sigma> \<or> \<sigma> (aq_sync_cell a) \<noteq> None \<longrightarrow> aq_indexed a \<tau>)
      \<Longrightarrow> (\<sigma> (aq_sync_cell a) = None \<longrightarrow> \<tau> = aq_rolled_from env a \<sigma>) \<Longrightarrow> Q jobs \<tau>"
  shows "runs (aq_pending env a) \<sigma> (reconcile_transition_intents env) Q"
  unfolding reconcile_transition_intents_def
proof (rule runs_mbind, rule runs_read_intents
    [where ns = "[intent_name ''lease_acquire'' (aq_lid a), intent_name ''job_sync'' (aq_jid a)]"])
  let ?p = "intent_name ''lease_acquire'' (aq_lid a)" and ?q = "intent_name ''job_sync'' (aq_jid a)"
  let ?\<tau> = "aq_rolled_from env a \<sigma>"
  note cells = aq_intent_cells [OF ok mixed]
  note rolled = aq_rolled_from_rolled [OF ok mixed]
  have sync: "\<sigma> (aq_sync_cell a) \<in> {None, Some (IntentV (JobSyncIntent (aq_jid a)))}"
    by (rule aq_sync_cell_cases [OF ok mixed])
  show "n \<in> set [?p, ?q]" if "\<sigma> (IntentCell n) \<noteq> None" for n
    using that cells [of n] by (auto split: if_splits)
  show "length [?p, ?q] \<le> 10000" by simp
  show "\<sigma> (IntentCell n) \<noteq> Some (IntentV (BadIntent e))" for n e
    using cells [of n] sync by (auto simp: aq_intent_def split: if_splits)
  fix xs :: "(string \<times> queue_intent) list"
  assume d: "distinct (map fst xs)" and m: "\<And>n. map_option IntentV (map_of xs n) = \<sigma> (IntentCell n)"
  have acquire: "runs (aq_pending env a) \<sigma> (replay_intent env (?p, aq_intent env a)) R" if "R [] ?\<tau>" for R
  proof -
    have "runs (aq_mixed env a) \<sigma> (replay_intent env (?p, aq_intent env a)) R"
      unfolding aq_intent_def replay_intent.simps
      by (rule runs_mbind, rule runs_reconcile_acquire [OF ok mixed], rule runs_mret, rule that)
    then show ?thesis by (rule runs_weaken_crash) (simp add: aq_pending_def)
  qed
  show "runs (aq_pending env a) \<sigma> (mbind (mmap (replay_intent env) (sort_key (\<lambda>(_, intent). intent_order intent) xs))
      (\<lambda>jobs. mret (concat jobs))) Q"
  proof (cases "\<sigma> (aq_sync_cell a) = None")
    case True
    then have "\<sigma> (IntentCell n) = (if n = ?p then Some (IntentV (aq_intent env a)) else None)" for n
      using cells [of n] by (auto split: if_splits)
    then have "xs = [(?p, aq_intent env a)]" by (rule one_intent [OF d m])
    then show ?thesis
      by (simp only: sort_key_simps insort_key.simps mmap.simps)
         (intro runs_mbind acquire runs_mret Q; use True rolled in \<open>simp add: aq_settled_def\<close>)
  next
    case False
    then have s: "\<sigma> (aq_sync_cell a) = Some (IntentV (JobSyncIntent (aq_jid a)))" using sync by auto
    have "\<sigma> (IntentCell n) = (if n = ?p then Some (IntentV (aq_intent env a))
        else if n = ?q then Some (IntentV (JobSyncIntent (aq_jid a))) else None)" for n
      using cells [of n] s by auto
    then have sorted: "sort_key (\<lambda>(_, intent). intent_order intent) xs = [(?p, aq_intent env a), (?q, JobSyncIntent (aq_jid a))]"
      by (rule two_intents [OF d m]) (simp_all add: aq_intent_def)
    have job: "runs (aq_pending env a) ?\<tau> (replay_intent env (?q, JobSyncIntent (aq_jid a))) R"
      if "\<And>\<tau>. aq_settled a \<tau> \<Longrightarrow> aq_indexed a \<tau> \<Longrightarrow> R [] \<tau>" for R
    proof -
      have "runs (aq_rolled a) ?\<tau> (replay_intent env (?q, JobSyncIntent (aq_jid a))) R"
        unfolding replay_intent.simps
        by (rule runs_mbind, rule runs_replay_job_sync [OF ok rolled(1)], rule runs_mret, rule that)
           (simp_all add: aq_settled_def)
      then show ?thesis by (rule runs_weaken_crash) (simp add: aq_pending_def)
    qed
    show ?thesis
      unfolding sorted mmap.simps
      by (rule runs_mbind, rule runs_mbind, rule acquire, rule runs_mbind, rule runs_mbind, rule job,
          rule runs_mbind, rule runs_mret, rule runs_mret, rule runs_mret, rule runs_mret, rule Q) (use False in auto)
  qed
qed

section \<open>The run itself\<close>

definition aq_leased :: "'x queue_env \<Rightarrow> acquisition \<Rightarrow> content \<Rightarrow> bool" where
  "aq_leased env a \<sigma> \<longleftrightarrow> aq_mixed env a \<sigma> \<and> \<sigma> (JobCell (aq_jid a)) = Some (JobV (aq_target a))"

text \<open>Acquired, up to the event that follows.\<close>

definition aq_logged :: "acquisition \<Rightarrow> nat \<Rightarrow> RelayEvent \<Rightarrow> bool" where
  "aq_logged a n = appended (aq_jid a) n ''job.leased'' (''Job leased by '' @ le_endpoint_id (aq_lease a))
     [(''lease_id'', JStr (aq_lid a))]"

definition aq_done :: "'x queue_env \<Rightarrow> acquisition \<Rightarrow> content \<Rightarrow> bool" where
  "aq_done env a \<sigma> \<longleftrightarrow>
     (\<forall>c. c \<noteq> JobIndexCell (aq_jid a) \<and> (\<forall>q. c \<noteq> EventCell (aq_jid a, q)) \<longrightarrow> \<sigma> c = aq_granted env a c)"

definition aq_crashed :: "'x queue_env \<Rightarrow> acquisition \<Rightarrow> int \<Rightarrow> RelayEvent list \<Rightarrow> content \<Rightarrow> bool" where
  "aq_crashed env a lag es \<sigma> \<longleftrightarrow> \<sigma> = aq_base a \<or> aq_mixed env a \<sigma> \<and> aq_in_step a \<sigma>
     \<or> aq_done env a \<sigma> \<and> (event_log lag \<sigma> (aq_jid a) es
         \<or> (\<exists>e. aq_logged a (length es) e \<and> event_log (lag + 1) \<sigma> (aq_jid a) (es @ [e])))"

lemma aq_leased_crashed: "acquisition_ok env a \<Longrightarrow> aq_leased env a \<sigma> \<Longrightarrow> aq_crashed env a lag es \<sigma>"
  using target_not_original [of env a] by (auto simp: aq_leased_def aq_crashed_def aq_in_step_def)

lemma aq_leased_upd:
  "aq_leased env a \<sigma> \<Longrightarrow> v \<in> {aq_start env a c, aq_granted env a c, aq_extra env a c} \<Longrightarrow> c \<noteq> aq_intent_cell a
     \<Longrightarrow> c \<noteq> JobCell (aq_jid a) \<Longrightarrow> aq_leased env a (\<sigma>(c := v))"
  by (simp add: aq_leased_def aq_mixed_upd)

lemma aq_leased_between:
  "aq_leased env a \<sigma> \<Longrightarrow> aq_leased env a \<tau> \<Longrightarrow> between \<sigma> \<tau> \<rho> \<Longrightarrow> aq_leased env a \<rho>"
  using aq_mixed_between [of env a \<sigma> \<tau> \<rho>] by (auto simp: aq_leased_def between_def) metis

lemma aq_set_leased:
  assumes "aq_leased env a \<sigma>"
  shows "aq_leased env a (set_files (qe_codec env) (aq_identity a) \<sigma>)"
  unfolding aq_leased_def aq_mixed_def
proof (intro conjI allI)
  fix c
  show "set_files (qe_codec env) (aq_identity a) \<sigma> c \<in> {aq_start env a c, aq_granted env a c, aq_extra env a c}"
    using aq_mixed_cell [of env a \<sigma> c] assms
    by (cases c) (auto simp: set_files_def aq_leased_def split: option.split)
qed (use assms in \<open>simp_all add: aq_leased_def aq_mixed_def\<close>)

lemma aq_start_mixed:
  assumes "acquisition_ok env a"
  shows "aq_mixed env a (aq_start env a)" "aq_in_step a (aq_start env a)"
  using assms by (simp_all add: aq_mixed_def aq_in_step_def acquisition_ok_def) (simp add: aq_start_def)

lemma aq_job_leased:
  assumes "acquisition_ok env a"
  shows "aq_leased env a ((aq_start env a)(aq_sync_cell a \<mapsto> IntentV (JobSyncIntent (aq_jid a)),
    JobCell (aq_jid a) \<mapsto> JobV (aq_target a)))"
proof -
  have "aq_mixed env a ((aq_start env a)(aq_sync_cell a \<mapsto> IntentV (JobSyncIntent (aq_jid a))))"
    by (rule aq_mixed_upd [OF aq_start_mixed(1) [OF assms]]) simp_all
  then have "aq_mixed env a ((aq_start env a)(aq_sync_cell a \<mapsto> IntentV (JobSyncIntent (aq_jid a)),
    JobCell (aq_jid a) \<mapsto> JobV (aq_target a)))"
    by (rule aq_mixed_upd) simp_all
  then show ?thesis by (simp add: aq_leased_def)
qed

definition aq_acquired_job :: "'x queue_env \<Rightarrow> acquisition \<Rightarrow> content" where
  "aq_acquired_job env a = (aq_start env a)(JobCell (aq_jid a) \<mapsto> JobV (aq_target a),
     ActiveCell (aq_jid a) \<mapsto> JobV (aq_target a), QueuedCell (aq_jid a) := None)"

lemma aq_acquired_job_leased:
  assumes "acquisition_ok env a"
  shows "aq_leased env a (aq_acquired_job env a)"
proof -
  have "aq_mixed env a (aq_acquired_job env a)"
    unfolding aq_acquired_job_def
    by (intro aq_mixed_upd aq_start_mixed(1) [OF assms]) simp_all
  then show ?thesis by (simp add: aq_leased_def aq_acquired_job_def)
qed

lemma runs_write_target:
  assumes ok: "acquisition_ok env a" and Q: "Q () (aq_acquired_job env a)"
  shows "runs (aq_crashed env a lag es) (aq_start env a) (write_job env (aq_target a)) Q"
proof -
  let ?s = "(aq_start env a)(aq_sync_cell a \<mapsto> IntentV (JobSyncIntent (aq_jid a)))"
  let ?t = "?s(JobCell (aq_jid a) \<mapsto> JobV (aq_target a))"
  have env: "env_ok env" using ok by (simp add: acquisition_ok_def)
  have s0: "aq_crashed env a lag es (aq_start env a)" using aq_start_mixed [OF ok] by (simp add: aq_crashed_def)
  have s1: "aq_crashed env a lag es ?s"
    using aq_mixed_upd [OF aq_start_mixed(1) [OF ok], of "Some (IntentV (JobSyncIntent (aq_jid a)))" "aq_sync_cell a"]
      aq_start_mixed(2) [OF ok] by (simp add: aq_crashed_def aq_in_step_def)
  have t: "aq_leased env a ?t" by (rule aq_job_leased [OF ok])
  have u: "aq_leased env a (?t(ActiveCell (aq_jid a) \<mapsto> JobV (aq_target a)))"
    by (rule aq_leased_upd [OF t]) simp_all
  have v: "aq_leased env a (?t(ActiveCell (aq_jid a) \<mapsto> JobV (aq_target a), QueuedCell (aq_jid a) := None))"
    by (rule aq_leased_upd [OF u]) simp_all
  have none: "aq_start env a (aq_sync_cell a) = None" using ok by (simp add: aq_start_def acquisition_ok_def)
  have final: "(synced_cells (aq_target a) ((aq_start env a)(JobCell (aq_jid a) \<mapsto> JobV (aq_target a))))(aq_sync_cell a := None)
      = aq_acquired_job env a"
    using none by (auto simp: synced_cells_def aq_acquired_job_def not_terminal_queued)
  show ?thesis
    by (rule runs_write_job [OF env, of "aq_crashed env a lag es", OF s0])
       (use s1 t u v Q final in \<open>auto simp: synced_cells_def not_terminal_queued intro: aq_leased_crashed [OF ok]\<close>)
qed

lemma aq_granted_unfold:
  "(with_pair (aq_after a) (set_files (qe_codec env) (aq_identity a) ((aq_acquired_job env a)(
      LeaseCell (aq_lid a) \<mapsto> LeaseV (aq_lease a), JobLeaseCell (aq_jid a, aq_lid a) \<mapsto> LeaseV (aq_lease a)))))
    (aq_intent_cell a := None) = (aq_granted env a)(aq_intent_cell a := None)"
proof (rule ext)
  fix c show "((with_pair (aq_after a) (set_files (qe_codec env) (aq_identity a) ((aq_acquired_job env a)(
      LeaseCell (aq_lid a) \<mapsto> LeaseV (aq_lease a), JobLeaseCell (aq_jid a, aq_lid a) \<mapsto> LeaseV (aq_lease a)))))
    (aq_intent_cell a := None)) c = ((aq_granted env a)(aq_intent_cell a := None)) c"
    by (cases c) (auto simp: aq_acquired_job_def aq_start_def set_files_def aq_granted_def split: option.split)
qed

lemma aq_granted_done: "aq_done env a (aq_granted env a)"
  by (simp add: aq_done_def)

lemma aq_done_upd:
  "aq_done env a \<sigma> \<Longrightarrow> aq_done env a (\<sigma>(EventCell (aq_jid a, q) := v))"
  "aq_done env a \<sigma> \<Longrightarrow> aq_done env a (\<sigma>(JobIndexCell (aq_jid a) := v))"
  by (auto simp: aq_done_def)

text \<open>Everything \<^verbatim>\<open>_lease_job_unlocked\<close> does once its journal entry is prepared.\<close>

definition grant :: "'x queue_env \<Rightarrow> RelayJob \<Rightarrow> string \<Rightarrow> Lease \<Rightarrow> timestamp \<Rightarrow> json \<Rightarrow> ('x, Lease) queue_op" where
  "grant env job endpoint_id lease now transition =
     mbind (write_transition_intent env ''lease_acquire'' (le_lease_id lease)
              (LeaseAcquireIntent (rj_job_id job) lease job (leased job endpoint_id now)
                 (iso_format (qe_codec env) now) (Some transition))) (\<lambda>intent_path.
     mbind (write_job env (leased job endpoint_id now)) (\<lambda>_.
     mbind (write_lease lease) (\<lambda>_.
     mbind (write_job_lease lease) (\<lambda>_.
     mbind (sync_lease_operational_indexes env lease (leased job endpoint_id now) None) (\<lambda>_.
     mbind (apply_capacity_transition transition ''after'' (''lease acquisition '' @ le_lease_id lease)) (\<lambda>_.
     mbind (unlink_intent intent_path) (\<lambda>_.
     mbind (append_event env (rj_job_id job) ''job.leased'' (''Job leased by '' @ endpoint_id)
              [(''lease_id'', JStr (le_lease_id lease))]) (\<lambda>_.
     mret lease))))))))"

lemma runs_grant:
  fixes env :: "'x queue_env"
  assumes ok: "acquisition_ok env a" and log: "event_log lag (aq_base a) (aq_jid a) es" "lag < DEFAULT_EXACT_RECORD_LIMIT"
    and Q: "\<And>e \<tau>. aq_done env a \<tau> \<Longrightarrow> aq_logged a (length es) e \<Longrightarrow> event_log 0 \<tau> (aq_jid a) (es @ [e])
      \<Longrightarrow> Q (aq_lease a) \<tau>"
  shows "runs (aq_crashed env a lag es) (aq_base a) (grant env (aq_job a) (le_endpoint_id (aq_lease a)) (aq_lease a)
    (aq_now a) (transition_json (aq_pairs a))) Q"
proof -
  note id = identity_ok [OF ok] and crashed = aq_leased_crashed [OF ok]
  have job: "le_job_id (aq_lease a) = aq_jid a" using ok by (simp add: acquisition_ok_def)
  let ?t = "aq_acquired_job env a"
  let ?u = "?t(LeaseCell (aq_lid a) \<mapsto> LeaseV (aq_lease a))"
  let ?v = "?u(JobLeaseCell (aq_jid a, aq_lid a) \<mapsto> LeaseV (aq_lease a))"
  let ?w = "set_files (qe_codec env) (aq_identity a) ?v"
  let ?x = "?w(AggregateCell \<mapsto> aggregate_value (aq_after a))"
  have t: "aq_leased env a ?t" by (rule aq_acquired_job_leased [OF ok])
  have u: "aq_leased env a ?u" by (rule aq_leased_upd [OF t]) simp_all
  have v: "aq_leased env a ?v" by (rule aq_leased_upd [OF u]) simp_all
  have w: "aq_leased env a ?w" by (rule aq_set_leased [OF v])
  have x: "aq_leased env a ?x" by (rule aq_leased_upd [OF w]) simp_all
  have y: "aq_leased env a (with_pair (aq_after a) ?w)"
    unfolding with_pair_def by (rule aq_leased_upd [OF x]) simp_all
  have manifest: "?v (IndexCell (lease_index_path (li_lease_id (aq_identity a)))) = None"
    using ok manifest_in_files [of "qe_codec env" "aq_identity a"] by (auto simp: aq_acquired_job_def acquisition_ok_def)
  have torn: "torn (map snd (aq_pairs a)) (capacity_of ?w)"
    by (rule aq_mixed_torn [OF ok]) (use w in \<open>simp add: aq_leased_def\<close>)
  have z: "(with_pair (aq_after a) ?w)(aq_intent_cell a := None) = aq_granted env a"
    using aq_granted_unfold [of a env] ok by (simp add: acquisition_ok_def fun_upd_idem)
  have glog: "event_log lag (aq_granted env a) (aq_jid a) es" using log(1) by (rule event_log_frame) simp_all
  have gcrash: "aq_crashed env a lag es (aq_granted env a)"
    using glog aq_granted_done by (auto simp: aq_crashed_def)
  have event: "runs (aq_crashed env a lag es) (aq_granted env a)
      (mbind (append_event env (aq_jid a) ''job.leased'' (''Job leased by '' @ le_endpoint_id (aq_lease a))
        [(''lease_id'', JStr (aq_lid a))]) (\<lambda>_. mret (aq_lease a))) Q"
  proof (rule runs_mbind, rule runs_append_event [OF id(3) glog log(2), of "aq_crashed env a lag es", OF gcrash])
    fix e assume e: "appended (aq_jid a) (length es) ''job.leased'' (''Job leased by '' @ le_endpoint_id (aq_lease a))
        [(''lease_id'', JStr (aq_lid a))] e"
    show "aq_crashed env a lag es ((aq_granted env a)(EventCell (aq_jid a, int (length es) + 1) \<mapsto> EventV e))"
      using event_log_written [OF glog, of e] e aq_done_upd(1) [OF aq_granted_done]
      by (auto simp: aq_crashed_def aq_logged_def appended_def)
  next
    fix e d \<tau> assume "\<tau> = (aq_granted env a)(EventCell (aq_jid a, int (length es) + 1) \<mapsto> EventV e,
        JobIndexCell (aq_jid a) \<mapsto> DocV (JObj d))" "event_log 0 \<tau> (aq_jid a) (es @ [e])"
      "appended (aq_jid a) (length es) ''job.leased'' (''Job leased by '' @ le_endpoint_id (aq_lease a))
        [(''lease_id'', JStr (aq_lid a))] e"
    then show "runs (aq_crashed env a lag es) \<tau> (mret (aq_lease a)) Q"
      by (intro runs_mret Q) (simp_all add: aq_logged_def aq_done_upd aq_granted_done)
  qed
  have start: "(aq_base a)(aq_intent_cell a \<mapsto> IntentV (LeaseAcquireIntent (aq_jid a) (aq_lease a) (aq_job a)
      (aq_target a) (iso_format (qe_codec env) (aq_now a)) (Some (transition_json (aq_pairs a))))) = aq_start env a"
    by (simp add: aq_start_def aq_intent_def)
  have base: "aq_crashed env a lag es (aq_base a)" by (simp add: aq_crashed_def)
  show ?thesis
    unfolding grant_def
    by (rule runs_mbind, rule runs_write_intent, rule base, unfold start, rule runs_mbind,
        rule runs_write_target [OF ok], rule runs_mbind, rule runs_writes(4), rule crashed [OF t], rule runs_mbind,
        rule runs_job_lease(1), simp add: job id, rule id, rule crashed [OF u], unfold job, rule runs_mbind,
        rule runs_sync_new [OF id(2,5)], rule disjI1 [OF manifest], erule crashed [OF aq_leased_between [OF v w]],
        rule runs_mbind, rule runs_apply_capacity [OF aq_pairs_ok [OF ok], of "''after''" "aq_after a"], simp,
        rule torn, rule crashed [OF w], rule crashed [OF x], rule runs_mbind, rule runs_writes(10),
        rule crashed [OF y], unfold z, rule event)
qed

end
