(* ===== verification/LeaseInvariant.thy ===== *)
theory LeaseInvariant
  imports LeaseAcquisition
begin

text \<open>
  The invariant of the lease store between two operations, and acquisition against it. A settled
  store holds a set \<open>L\<close> of live leases: the lease records, the per-job copies, the operational index
  files and the capacity counts all describe exactly \<open>L\<close>, the derived job indexes agree with the
  canonical job records, and the journal is empty. Acquiring a lease takes a settled store to a
  settled store with one more lease, and so does a crash followed by the replay, unless the replay
  rolls the acquisition back.
\<close>

section \<open>Capacity\<close>

definition counts_of :: "LeaseIndexIdentity set \<Rightarrow> LeaseCapacityPair \<Rightarrow> bool" where
  "counts_of L p \<longleftrightarrow>
     scope_total (ca_cluster_kind_counts (cp_aggregate p)) = int (card L)
     \<and> (\<forall>t k. scope_count (ca_cluster_kind_counts (cp_aggregate p)) t k
          = int (card {i \<in> L. lease_cluster_token (li_cluster i) = t \<and> li_job_kind i = k}))"

definition capacity_ok :: "LeaseIndexIdentity set \<Rightarrow> LeaseCapacityPair \<Rightarrow> content \<Rightarrow> bool" where
  "capacity_ok L p \<sigma> \<longleftrightarrow> bound_pair p \<and> counts_of L p
     \<and> \<sigma> AggregateCell = Some (aggregate_value p) \<and> \<sigma> CheckpointCell = Some (checkpoint_value p)"

lemma capacity_files_of: "capacity_ok L p \<sigma> \<Longrightarrow> capacity_of \<sigma> = pair_files p"
  by (simp add: capacity_ok_def capacity_of_pair_iff)

lemma canonical_values:
  "aggregate_value (canonical_pair p) = aggregate_value p" "checkpoint_value (canonical_pair p) = checkpoint_value p"
  using pair_files_canonical [of p] by (simp_all add: pair_files_def)

lemma counts_of_canonical:
  assumes "bound_pair p"
  shows "counts_of L (canonical_pair p) = counts_of L p"
  using scope_count_canonical [OF bound_pair_counts [OF assms]]
  by (simp add: counts_of_def canonical_pair_def canonical_aggregate_def scope_total_canonical)

lemma card_scope:
  assumes "finite L" "i \<notin> L"
  shows "card {j \<in> insert i L. lease_cluster_token (li_cluster j) = t \<and> li_job_kind j = k}
    = card {j \<in> L. lease_cluster_token (li_cluster j) = t \<and> li_job_kind j = k}
      + (if lease_cluster_token (li_cluster i) = t \<and> li_job_kind i = k then 1 else 0)"
proof -
  have "{j \<in> insert i L. lease_cluster_token (li_cluster j) = t \<and> li_job_kind j = k}
      = (if lease_cluster_token (li_cluster i) = t \<and> li_job_kind i = k then insert i else id)
          {j \<in> L. lease_cluster_token (li_cluster j) = t \<and> li_job_kind j = k}"
    by auto
  with assms show ?thesis by auto
qed

lemma runs_utc_clock: "(\<And>n. Q (qe_clock env n) \<sigma>) \<Longrightarrow> runs P \<sigma> (utc_now env) Q"
  by (rule runsI) (simp add: utc_now_def holds_def)

text \<open>A prepared transition: generations of the journal that describe the set before and after.\<close>

lemma runs_prepare:
  fixes env :: "'x queue_env"
  assumes env: "env_ok env" and cap: "capacity_ok L p \<sigma>"
    and total: "\<exists>t. \<forall>fa fr. prepare_lease_capacity_transition fa fr deltas inc (pair_files p) = (Inr (t fa fr), pair_files p)"
    and counts: "\<And>c. rfold apply_delta deltas (ca_cluster_kind_counts (cp_aggregate (canonical_pair p))) = Inr c
      \<Longrightarrow> scope_total c = int (card L') \<and> (\<forall>t k. scope_count c t k
          = int (card {i \<in> L'. lease_cluster_token (li_cluster i) = t \<and> li_job_kind i = k}))"
    and Q: "\<And>before after rollback. bound_pair before \<Longrightarrow> bound_pair after \<Longrightarrow> (inc \<Longrightarrow> bound_pair rollback)
      \<Longrightarrow> aggregate_value before = aggregate_value p \<Longrightarrow> checkpoint_value before = checkpoint_value p
      \<Longrightarrow> counts_of L' after \<Longrightarrow> (inc \<Longrightarrow> counts_of L rollback)
      \<Longrightarrow> Q (transition_json ([(''before'', before), (''after'', after)]
             @ (if inc then [(''rollback'', rollback)] else []))) \<sigma>"
  shows "runs P \<sigma> (prepare_capacity_transition env deltas inc) Q"
proof -
  have p: "bound_pair p" and Lp: "counts_of L p" using cap by (simp_all add: capacity_ok_def)
  obtain t where t: "prepare_lease_capacity_transition fa fr deltas inc (pair_files p) = (Inr (t fa fr), pair_files p)"
    for fa fr using total by blast
  have step: "Q (t (qe_uuid env n) (if inc then qe_uuid env m else '''')) \<sigma>" for n m
  proof -
    let ?fr = "if inc then qe_uuid env m else qe_uuid env n"
    have "prepare_lease_capacity_transition (qe_uuid env n) ?fr deltas inc
        = prepare_lease_capacity_transition (qe_uuid env n) (if inc then qe_uuid env m else '''') deltas inc"
      by (simp add: prepare_lease_capacity_transition_def)
    then have run: "prepare_lease_capacity_transition (qe_uuid env n) ?fr deltas inc (pair_files p)
        = (Inr (t (qe_uuid env n) (if inc then qe_uuid env m else '''')), pair_files p)"
      using t by simp
    have hex: "all_hex 32 ?fr" using env_steps(5) [OF env] by simp
    show ?thesis
    proof (rule prepare_transition_Inr [OF p env_steps(5) [OF env] hex run], goal_cases)
      case (1 before after rollback)
      have "counts_of L' after" using counts 1 by (simp add: counts_of_def)
      moreover have "counts_of L rollback" if inc
        using 1 that counts_of_canonical [OF p, of L] Lp by (simp add: counts_of_def)
      ultimately show ?case unfolding 1(3) using 1 by (intro Q) (simp_all add: canonical_values)
    qed
  qed
  have final: "runs P \<sigma> (read_capacity (prepare_lease_capacity_transition (qe_uuid env n)
      (if inc then qe_uuid env m else '''') deltas inc)) Q" for n m
    by (rule runs_read_capacity, unfold capacity_files_of [OF cap], rule t, rule step)
  show ?thesis
    unfolding prepare_capacity_transition_def
  proof (rule runs_mbind, rule runs_uuid4_hex, rule runs_mbind)
    fix n
    show "runs P \<sigma> (if inc then uuid4_hex env else mret '''') (\<lambda>r \<tau>. runs P \<tau>
        (read_capacity (prepare_lease_capacity_transition (qe_uuid env n) r deltas inc)) Q)"
      using final [of n]
      by (cases inc) (simp_all only: if_True if_False, rule runs_uuid4_hex, assumption, rule runs_mret, assumption)
  qed
qed

text \<open>The transitions of the lifecycle: \<open>delta\<close> leases more in one scope, or none.\<close>

lemma runs_prepare_delta:
  fixes env :: "'x queue_env"
  assumes env: "env_ok env" and cap: "capacity_ok L p \<sigma>" and nz: "delta \<noteq> 0"
    and size: "int (card L') = int (card L) + delta" "int (card L') \<le> MAX_LIVE_LEASE_RECORDS"
    and scopes: "\<And>t k. int (card {i \<in> L'. lease_cluster_token (li_cluster i) = t \<and> li_job_kind i = k})
      = int (card {i \<in> L. lease_cluster_token (li_cluster i) = t \<and> li_job_kind i = k})
        + (if t = lease_cluster_token cluster \<and> k = kind then delta else 0)"
    and Q: "\<And>before after rollback. bound_pair before \<Longrightarrow> bound_pair after \<Longrightarrow> (inc \<Longrightarrow> bound_pair rollback)
      \<Longrightarrow> aggregate_value before = aggregate_value p \<Longrightarrow> checkpoint_value before = checkpoint_value p
      \<Longrightarrow> counts_of L' after \<Longrightarrow> (inc \<Longrightarrow> counts_of L rollback)
      \<Longrightarrow> Q (transition_json ([(''before'', before), (''after'', after)]
             @ (if inc then [(''rollback'', rollback)] else []))) \<sigma>"
  shows "runs P \<sigma> (prepare_capacity_transition env [((cluster, kind), delta)] inc) Q"
proof (rule runs_prepare [OF env cap, where L' = L'])
  have p: "bound_pair p" and Lp: "counts_of L p" using cap by (simp_all add: capacity_ok_def)
  have "\<exists>t. prepare_lease_capacity_transition fa fr [((cluster, kind), delta)] inc (pair_files p) = (Inr t, pair_files p)"
    for fa fr
    using prepare_transition_total [OF p nz, of cluster kind] Lp size scopes [of "lease_cluster_token cluster" kind]
    by (simp add: counts_of_def)
  then show "\<exists>t. \<forall>fa fr. prepare_lease_capacity_transition fa fr [((cluster, kind), delta)] inc (pair_files p)
      = (Inr (t fa fr), pair_files p)" by metis
  fix c assume "rfold apply_delta [((cluster, kind), delta)] (ca_cluster_kind_counts (cp_aggregate (canonical_pair p))) = Inr c"
  then have c: "apply_delta ((cluster, kind), delta) (ca_cluster_kind_counts (cp_aggregate (canonical_pair p))) = Inr c"
    by (simp add: rbind_eq_Inr)
  have b: "bound_pair (canonical_pair p)" by (rule bound_pair_canonical [OF p])
  have Lb: "counts_of L (canonical_pair p)" using Lp by (simp add: counts_of_canonical [OF p])
  have "scope_total c = scope_total (ca_cluster_kind_counts (cp_aggregate (canonical_pair p))) + delta"
    using apply_delta_total [OF bound_pair_counts [OF b] nz, of cluster kind] Lb size
      scopes [of "lease_cluster_token cluster" kind] c by (simp add: counts_of_def)
  then show "scope_total c = int (card L') \<and> (\<forall>t k. scope_count c t k
      = int (card {i \<in> L'. lease_cluster_token (li_cluster i) = t \<and> li_job_kind i = k}))"
    using apply_delta_Inr [OF c valid_counts_good [OF bound_pair_counts [OF b]]] Lb size scopes
    by (simp add: counts_of_def)
qed (rule Q)

lemma runs_prepare_same:
  fixes env :: "'x queue_env"
  assumes env: "env_ok env" and cap: "capacity_ok L p \<sigma>"
    and same: "card L' = card L" "\<And>t k. card {i \<in> L'. lease_cluster_token (li_cluster i) = t \<and> li_job_kind i = k}
      = card {i \<in> L. lease_cluster_token (li_cluster i) = t \<and> li_job_kind i = k}"
    and Q: "\<And>before after. bound_pair before \<Longrightarrow> bound_pair after
      \<Longrightarrow> aggregate_value before = aggregate_value p \<Longrightarrow> checkpoint_value before = checkpoint_value p
      \<Longrightarrow> counts_of L' after \<Longrightarrow> Q (transition_json [(''before'', before), (''after'', after)]) \<sigma>"
  shows "runs P \<sigma> (prepare_capacity_transition env [] False) Q"
proof (rule runs_prepare [OF env cap, where L' = L'])
  have p: "bound_pair p" and Lp: "counts_of L p" using cap by (simp_all add: capacity_ok_def)
  have v: "valid_counts (ca_cluster_kind_counts (cp_aggregate (canonical_pair p)))"
    by (rule bound_pair_counts [OF bound_pair_canonical [OF p]])
  have "\<exists>t. prepare_lease_capacity_transition fa fr [] False (pair_files p) = (Inr t, pair_files p)" for fa fr
    using new_pair_total [OF v, of "ca_epoch_id (cp_aggregate (canonical_pair p))"
        "ca_generation (cp_aggregate (canonical_pair p)) + 1" fa]
    by (auto simp: prepare_lease_capacity_transition_def read_pair_files [OF p] mbind_app Let_def)
  then show "\<exists>t. \<forall>fa fr. prepare_lease_capacity_transition fa fr [] False (pair_files p)
      = (Inr (t fa fr), pair_files p)" by metis
  fix c assume "rfold apply_delta [] (ca_cluster_kind_counts (cp_aggregate (canonical_pair p))) = Inr c"
  then show "scope_total c = int (card L') \<and> (\<forall>t k. scope_count c t k
      = int (card {i \<in> L'. lease_cluster_token (li_cluster i) = t \<and> li_job_kind i = k}))"
    using Lp same by (simp flip: counts_of_canonical [OF p]) (simp add: counts_of_def)
qed (simp add: Q)

section \<open>The settled store\<close>

definition records_ok :: "LeaseIndexIdentity set \<Rightarrow> content \<Rightarrow> bool" where
  "records_ok L \<sigma> \<longleftrightarrow>
     (\<forall>i \<in> L. \<exists>l j. \<sigma> (LeaseCell (li_lease_id i)) = Some (LeaseV l)
        \<and> \<sigma> (JobLeaseCell (li_job_id i, li_lease_id i)) = Some (LeaseV l)
        \<and> \<sigma> (JobCell (li_job_id i)) = Some (JobV j) \<and> identity_of l j = i)
     \<and> (\<forall>k. \<sigma> (LeaseCell k) \<noteq> None \<longrightarrow> (\<exists>i \<in> L. li_lease_id i = k))
     \<and> (\<forall>jk. \<sigma> (JobLeaseCell jk) \<noteq> None \<longrightarrow> (\<exists>i \<in> L. (li_job_id i, li_lease_id i) = jk))"

definition files_ok :: "iso_codec \<Rightarrow> LeaseIndexIdentity set \<Rightarrow> content \<Rightarrow> bool" where
  "files_ok codec L \<sigma> \<longleftrightarrow> finite L \<and> inj_on lease_token L \<and> (\<forall>i \<in> L. wf_identity codec i)
     \<and> (\<forall>p v. \<sigma> (IndexCell p) = Some v \<longleftrightarrow> (\<exists>i \<in> L. \<exists>n. lease_files codec i p = Some n \<and> v = NodeV n))"

definition synced :: "content \<Rightarrow> RelayJob \<Rightarrow> bool" where
  "synced \<sigma> j \<longleftrightarrow> \<sigma> (ActiveCell (rj_job_id j)) = (if terminal (rj_state j) then None else Some (JobV j))
     \<and> \<sigma> (QueuedCell (rj_job_id j)) = (if rj_state j = QUEUED then Some (JobV j) else None)"

text \<open>The derived indexes of the jobs outside \<open>D\<close>.\<close>

definition jobs_ok :: "string set \<Rightarrow> content \<Rightarrow> bool" where
  "jobs_ok D \<sigma> \<longleftrightarrow> (\<forall>k v. \<sigma> (JobCell k) = Some v \<longrightarrow> durable_id k
     \<and> (\<exists>j. v = JobV j \<and> rj_job_id j = k \<and> (k \<notin> D \<longrightarrow> synced \<sigma> j)))"

lemma jobs_okD:
  "jobs_ok D \<sigma> \<Longrightarrow> \<sigma> (JobCell k) = Some (JobV j) \<Longrightarrow> durable_id k \<and> rj_job_id j = k \<and> (k \<notin> D \<longrightarrow> synced \<sigma> j)"
  by (fastforce simp: jobs_ok_def)

lemma jobs_ok_upd:
  assumes "jobs_ok D \<sigma>" "\<tau> (JobCell k) = Some (JobV j)" "rj_job_id j = k" "durable_id k" "k \<notin> D' \<Longrightarrow> synced \<tau> j"
    and "\<And>k'. k' \<noteq> k \<Longrightarrow> \<tau> (JobCell k') = \<sigma> (JobCell k') \<and> \<tau> (ActiveCell k') = \<sigma> (ActiveCell k')
      \<and> \<tau> (QueuedCell k') = \<sigma> (QueuedCell k')" "D \<subseteq> insert k D'"
  shows "jobs_ok D' \<tau>"
  unfolding jobs_ok_def
proof (intro allI impI)
  fix k' v assume v: "\<tau> (JobCell k') = Some v"
  show "durable_id k' \<and> (\<exists>j. v = JobV j \<and> rj_job_id j = k' \<and> (k' \<notin> D' \<longrightarrow> synced \<tau> j))"
  proof (cases "k' = k")
    case False
    then have same: "\<tau> (JobCell k') = \<sigma> (JobCell k')" "\<tau> (ActiveCell k') = \<sigma> (ActiveCell k')"
      "\<tau> (QueuedCell k') = \<sigma> (QueuedCell k')" using assms(6) [of k'] by simp_all
    from v same(1) assms(1) obtain j' where "v = JobV j'" "rj_job_id j' = k'" "durable_id k'"
      "k' \<notin> D \<longrightarrow> synced \<sigma> j'" by (auto simp: jobs_ok_def)
    with same False assms(7) show ?thesis by (auto simp: synced_def)
  qed (use assms v in auto)
qed

definition settled :: "'x queue_env \<Rightarrow> LeaseIndexIdentity set \<Rightarrow> string set \<Rightarrow> content \<Rightarrow> bool" where
  "settled env L D \<sigma> \<longleftrightarrow> records_ok L \<sigma> \<and> files_ok (qe_codec env) L \<sigma> \<and> (\<exists>p. capacity_ok L p \<sigma>)
     \<and> jobs_ok D \<sigma> \<and> (\<forall>n. \<sigma> (IntentCell n) = None)"

lemma settled_finite: "settled env L D \<sigma> \<Longrightarrow> finite L"
  by (simp add: settled_def files_ok_def)

lemma files_ok_free:
  assumes "files_ok codec L \<sigma>" "lease_token i \<notin> lease_token ` L" "lease_files codec i p = Some n"
  shows "\<sigma> (IndexCell p) = None"
proof (rule ccontr)
  assume "\<sigma> (IndexCell p) \<noteq> None"
  then obtain j m where "j \<in> L" "lease_files codec j p = Some m" using assms(1) by (auto simp: files_ok_def)
  with assms(2,3) show False by (metis imageI path_token_lease_files)
qed

lemma files_ok_add:
  assumes "files_ok codec L \<sigma>" "lease_token i \<notin> lease_token ` L" "wf_identity codec i"
    and "\<And>p. \<tau> (IndexCell p) = (case lease_files codec i p of Some n \<Rightarrow> Some (NodeV n) | None \<Rightarrow> \<sigma> (IndexCell p))"
  shows "files_ok codec (insert i L) \<tau>"
  unfolding files_ok_def
proof (intro conjI allI)
  show "finite (insert i L)" "\<forall>i \<in> insert i L. wf_identity codec i" using assms(1,3) by (simp_all add: files_ok_def)
  show "inj_on lease_token (insert i L)" using assms(1,2) by (auto simp: files_ok_def)
  fix p v
  show "\<tau> (IndexCell p) = Some v \<longleftrightarrow> (\<exists>j \<in> insert i L. \<exists>n. lease_files codec j p = Some n \<and> v = NodeV n)"
  proof (cases "lease_files codec i p")
    case None
    then show ?thesis using assms(1,4) by (simp add: files_ok_def)
  next
    case (Some n)
    have "lease_files codec j p = None" if "j \<in> L" for j
      using lease_files_disjoint [OF _ Some, of j] assms(2) that by force
    with Some show ?thesis using assms(4) by auto
  qed
qed

lemma files_ok_remove:
  assumes "files_ok codec L \<sigma>" "E \<subseteq> L"
    and "\<And>p. \<tau> (IndexCell p) = (if \<exists>i \<in> E. lease_files codec i p \<noteq> None then None else \<sigma> (IndexCell p))"
  shows "files_ok codec (L - E) \<tau>"
  unfolding files_ok_def
proof (intro conjI allI)
  show "finite (L - E)" "\<forall>i \<in> L - E. wf_identity codec i" "inj_on lease_token (L - E)"
    using assms(1) by (auto simp: files_ok_def inj_on_def)
  fix p v
  have "lease_files codec j p = None" if "i \<in> E" "lease_files codec i p = Some n" "j \<in> L - E" for i j n
    using that assms(1,2) lease_files_disjoint [OF _ that(2), of j] by (auto simp: files_ok_def inj_on_def)
  then show "\<tau> (IndexCell p) = Some v \<longleftrightarrow> (\<exists>i \<in> L - E. \<exists>n. lease_files codec i p = Some n \<and> v = NodeV n)"
    using assms by (auto simp: files_ok_def)
qed

lemma records_ok_lease:
  assumes "records_ok L \<sigma>" "files_ok codec L \<sigma>" "i \<in> L"
  obtains l j where "\<sigma> (LeaseCell (li_lease_id i)) = Some (LeaseV l)"
    "\<sigma> (JobLeaseCell (li_job_id i, li_lease_id i)) = Some (LeaseV l)"
    "\<sigma> (JobCell (li_job_id i)) = Some (JobV j)" "identity_of l j = i" "le_lease_id l = li_lease_id i"
    "le_job_id l = li_job_id i" "wf_identity codec i"
proof -
  obtain l j where c: "\<sigma> (LeaseCell (li_lease_id i)) = Some (LeaseV l)"
    "\<sigma> (JobLeaseCell (li_job_id i, li_lease_id i)) = Some (LeaseV l)"
    "\<sigma> (JobCell (li_job_id i)) = Some (JobV j)" "identity_of l j = i"
    using assms(1,3) by (fastforce simp: records_ok_def)
  moreover have "le_lease_id l = li_lease_id i" "le_job_id l = li_job_id i"
    using c(4) by (auto simp: identity_of_def)
  moreover have "wf_identity codec i" using assms(2,3) by (simp add: files_ok_def)
  ultimately show ?thesis by (rule that)
qed

text \<open>Identities of a settled store are determined by their lease identifier.\<close>

lemma lease_id_determines:
  "files_ok codec L \<sigma> \<Longrightarrow> i \<in> L \<Longrightarrow> j \<in> L \<Longrightarrow> li_lease_id i = li_lease_id j \<Longrightarrow> i = j"
  by (auto simp: files_ok_def inj_on_def)

section \<open>Acquisition\<close>

definition acquires ::
  "'x queue_env \<Rightarrow> LeaseIndexIdentity set \<Rightarrow> content \<Rightarrow> RelayJob \<Rightarrow> string \<Rightarrow> acquisition \<Rightarrow> bool" where
  "acquires env L \<sigma> job endpoint_id a \<longleftrightarrow> acquisition_ok env a \<and> aq_base a = \<sigma> \<and> aq_job a = job
     \<and> le_endpoint_id (aq_lease a) = endpoint_id \<and> lease_token (aq_identity a) \<notin> lease_token ` L
     \<and> counts_of (insert (aq_identity a) L) (aq_after a) \<and> counts_of L (aq_rollback a)"

lemma aq_done_cells:
  assumes "aq_done env a \<tau>"
  shows "\<tau> (JobCell k) = aq_granted env a (JobCell k)" "\<tau> (ActiveCell k) = aq_granted env a (ActiveCell k)"
    "\<tau> (QueuedCell k) = aq_granted env a (QueuedCell k)" "\<tau> (LeaseCell k) = aq_granted env a (LeaseCell k)"
    "\<tau> (JobLeaseCell kk) = aq_granted env a (JobLeaseCell kk)" "\<tau> (IndexCell p) = aq_granted env a (IndexCell p)"
    "\<tau> AggregateCell = aq_granted env a AggregateCell" "\<tau> CheckpointCell = aq_granted env a CheckpointCell"
    "\<tau> (IntentCell n) = aq_granted env a (IntentCell n)"
  using assms by (simp_all add: aq_done_def del: aq_granted_cells)

lemma settled_granted:
  assumes \<sigma>: "settled env L {} \<sigma>" and a: "acquires env L \<sigma> job endpoint_id a" and fin: "aq_done env a \<tau>"
  shows "settled env (insert (aq_identity a) L) {} \<tau>"
proof -
  note cells = aq_done_cells [OF fin]
  have ok: "acquisition_ok env a" and base [simp]: "aq_base a = \<sigma>" and job [simp]: "aq_job a = job"
    and fresh: "lease_token (aq_identity a) \<notin> lease_token ` L"
    using a by (auto simp: acquires_def)
  have jid: "\<sigma> (JobCell (rj_job_id job)) = Some (JobV job)" "le_job_id (aq_lease a) = rj_job_id job"
    using ok by (auto simp: acquisition_ok_def)
  have other: "li_lease_id i \<noteq> aq_lid a" if "i \<in> L" for i
  proof
    assume "li_lease_id i = aq_lid a"
    then have "lease_token (aq_identity a) = lease_token i" by (simp add: identity_of_def)
    with fresh that show False by blast
  qed
  have files: "files_ok (qe_codec env) (insert (aq_identity a) L) \<tau>"
    using \<sigma> identity_ok(5) [OF ok] fresh by (intro files_ok_add) (auto simp: settled_def cells)
  have "records_ok (insert (aq_identity a) L) \<tau>"
    unfolding records_ok_def
  proof (intro conjI ballI allI impI)
    fix i assume i: "i \<in> insert (aq_identity a) L"
    show "\<exists>l j. \<tau> (LeaseCell (li_lease_id i)) = Some (LeaseV l)
        \<and> \<tau> (JobLeaseCell (li_job_id i, li_lease_id i)) = Some (LeaseV l)
        \<and> \<tau> (JobCell (li_job_id i)) = Some (JobV j) \<and> identity_of l j = i"
    proof (cases "i \<in> L")
      case True
      then obtain l j where "\<sigma> (LeaseCell (li_lease_id i)) = Some (LeaseV l)"
        "\<sigma> (JobLeaseCell (li_job_id i, li_lease_id i)) = Some (LeaseV l)"
        "\<sigma> (JobCell (li_job_id i)) = Some (JobV j)" "identity_of l j = i"
        using \<sigma> by (fastforce simp: settled_def records_ok_def)
      with other [OF True] jid show ?thesis by (auto simp: cells)
    next
      case False
      with i jid show ?thesis by (auto simp: cells identity_of_def)
    qed
  next
    fix k assume "\<tau> (LeaseCell k) \<noteq> None"
    then show "\<exists>i \<in> insert (aq_identity a) L. li_lease_id i = k"
      using \<sigma> by (auto simp: cells settled_def records_ok_def identity_of_def split: if_splits)
  next
    fix jk assume "\<tau> (JobLeaseCell jk) \<noteq> None"
    then show "\<exists>i \<in> insert (aq_identity a) L. (li_job_id i, li_lease_id i) = jk"
      using \<sigma> jid by (cases jk) (auto simp: cells settled_def records_ok_def identity_of_def split: if_splits)
  qed
  moreover have "capacity_ok (insert (aq_identity a) L) (aq_after a) \<tau>"
    using a ok by (simp add: capacity_ok_def acquires_def acquisition_ok_def cells)
  moreover have "jobs_ok {} \<tau>"
  proof (rule jobs_ok_upd [where \<sigma> = \<sigma> and D = "{}" and k = "rj_job_id job"])
    show "\<tau> (JobCell (rj_job_id job)) = Some (JobV (aq_target a))" by (simp add: cells)
  qed (use \<sigma> identity_ok(3) [OF ok] in \<open>simp_all add: cells settled_def synced_def not_terminal_queued\<close>)
  moreover have "\<tau> (IntentCell n) = None" for n using \<sigma> by (simp add: cells settled_def)
  ultimately show ?thesis using files by (auto simp: settled_def)
qed

lemma settled_rolled:
  assumes \<sigma>: "settled env L {} \<sigma>" and a: "acquires env L \<sigma> job endpoint_id a" and fin: "aq_settled a \<tau>"
  shows "settled env L {rj_job_id job} \<tau>" "aq_indexed a \<tau> \<Longrightarrow> settled env L {} \<tau>"
    "\<tau> (JobCell (rj_job_id job)) = Some (JobV job)"
proof -
  have ok: "acquisition_ok env a" and base [simp]: "aq_base a = \<sigma>" and job [simp]: "aq_job a = job"
    using a by (simp_all add: acquires_def)
  have none: "\<sigma> (IntentCell n) = None" for n using \<sigma> by (simp add: settled_def)
  have same: "\<tau> (JobCell k) = \<sigma> (JobCell k)" "\<tau> (LeaseCell k) = \<sigma> (LeaseCell k)"
    "\<tau> (JobLeaseCell kk) = \<sigma> (JobLeaseCell kk)" "\<tau> (IndexCell p) = \<sigma> (IndexCell p)"
    "k \<noteq> rj_job_id job \<Longrightarrow> \<tau> (ActiveCell k) = \<sigma> (ActiveCell k)"
    "k \<noteq> rj_job_id job \<Longrightarrow> \<tau> (QueuedCell k) = \<sigma> (QueuedCell k)" "\<tau> (IntentCell k) = None" for k kk p
    using fin none by (auto simp: aq_settled_def aq_rolled_def)
       (cases "k = intent_name ''job_sync'' (rj_job_id job)"; simp)
  have parts: "records_ok L \<tau>" "files_ok (qe_codec env) L \<tau>"
    using \<sigma> same(1-4) by (simp_all add: settled_def records_ok_def files_ok_def)
  have cap: "capacity_ok L (aq_rollback a) \<tau>"
    using fin a ok by (simp add: capacity_ok_def acquires_def acquisition_ok_def aq_settled_def aq_rolled_def)
  have j: "\<sigma> (JobCell (rj_job_id job)) = Some (JobV job)" "rj_state job = QUEUED"
    using ok by (auto simp: acquisition_ok_def)
  show "\<tau> (JobCell (rj_job_id job)) = Some (JobV job)" by (simp add: same j)
  have dur: "durable_id (rj_job_id job)" using identity_ok(3) [OF ok] by simp
  have jobs: "jobs_ok D \<tau>" if "rj_job_id job \<notin> D \<Longrightarrow> synced \<tau> job" for D
    by (rule jobs_ok_upd [where \<sigma> = \<sigma> and D = "{}" and k = "rj_job_id job" and j = job])
       (use \<sigma> same(1,5,6) j dur that in \<open>simp_all add: settled_def\<close>)
  have "jobs_ok {rj_job_id job} \<tau>" by (rule jobs) simp
  then show "settled env L {rj_job_id job} \<tau>" using parts cap same(7) by (auto simp: settled_def)
  have "jobs_ok {} \<tau>" if "aq_indexed a \<tau>"
    by (rule jobs) (use that j in \<open>simp add: synced_def aq_indexed_def not_terminal_queued\<close>)
  then show "settled env L {} \<tau>" if "aq_indexed a \<tau>" using that parts cap same(7) by (auto simp: settled_def)
qed

text \<open>
  What acquisition draws: the clock and the identifiers give well-formed identities, and \<^verbatim>\<open>uuid4\<close> never
  repeats the token of a live lease.
\<close>

definition draws_ok ::
  "'x queue_env \<Rightarrow> LeaseIndexIdentity set \<Rightarrow> RelayJob \<Rightarrow> string \<Rightarrow> int \<Rightarrow> bool" where
  "draws_ok env L job endpoint_id ttl_seconds \<longleftrightarrow> (\<forall>n m.
     let lease = Lease_new (qe_clock env n) (''lease_'' @ qe_uuid env m) (rj_job_id job) endpoint_id ttl_seconds in
     wf_identity (qe_codec env) (identity_of lease job)
     \<and> lease_index_token (le_lease_id lease) \<notin> lease_token ` L)"

lemma runs_new_lease:
  fixes env :: "'x queue_env"
  assumes draws: "draws_ok env L job endpoint_id ttl"
    and Q: "\<And>l. le_job_id l = rj_job_id job \<Longrightarrow> le_endpoint_id l = endpoint_id \<Longrightarrow> wf_identity (qe_codec env) (identity_of l job)
      \<Longrightarrow> lease_token (identity_of l job) \<notin> lease_token ` L \<Longrightarrow> Q l \<sigma>"
  shows "runs P \<sigma> (new_lease env (rj_job_id job) endpoint_id ttl) Q"
  unfolding new_lease_def new_id_def
proof (rule runs_mbind, rule runs_utc_clock, rule runs_mbind, rule runs_mbind, rule runs_uuid4_hex)
  fix n m
  let ?l = "Lease_new (qe_clock env n) (''lease_'' @ qe_uuid env m) (rj_job_id job) endpoint_id ttl"
  have l: "wf_identity (qe_codec env) (identity_of ?l job)" "lease_index_token (le_lease_id ?l) \<notin> lease_token ` L"
    using draws by (auto simp: draws_ok_def Let_def)
  have "durable_id (''lease'' @ ''_'' @ qe_uuid env m)"
    using l(1) by (simp add: wf_identity_def identity_of_def Lease_new_def)
  then have id: "validate_durable_record_id (JStr (''lease'' @ ''_'' @ qe_uuid env m)) = Inr (''lease_'' @ qe_uuid env m)"
    by (simp add: validate_durable_id)
  show "runs P \<sigma> (qlift (validate_durable_record_id (JStr (''lease'' @ ''_'' @ qe_uuid env m))))
      (\<lambda>x \<tau>. runs P \<tau> (mret (Lease_new (qe_clock env n) x (rj_job_id job) endpoint_id ttl)) Q)"
    by (rule runs_qlift [OF id], rule runs_mret, rule Q)
       (use l in \<open>simp_all add: Lease_new_def identity_of_def\<close>)
qed

text \<open>Everything \<^verbatim>\<open>_lease_job_unlocked\<close> does before its journal entry.\<close>

definition lease_draws ::
  "'x queue_env \<Rightarrow> RelayJob \<Rightarrow> string \<Rightarrow> int \<Rightarrow> int option \<Rightarrow> ('x, Lease \<times> timestamp \<times> json) queue_op" where
  "lease_draws env job endpoint_id ttl_seconds validated_global_total =
     mbind (qcheck (rj_kind job \<noteq> INPUT_INGEST)
       (QueueConflictError ''input ingest jobs are never worker-leased'')) (\<lambda>_.
     mbind (case validated_global_total of
              Some known \<Rightarrow> mret known
            | None \<Rightarrow> mbind (read_capacity (lease_capacity_snapshot (rj_cluster job)))
                       (\<lambda>(_, live). mret live)) (\<lambda>validated.
     mbind (qcheck (\<not> validated \<ge> MAX_LIVE_LEASE_RECORDS)
       (QueueConflictError (''active lease population reached its safety bound of ''
          @ int_str MAX_LIVE_LEASE_RECORDS @ '' records''))) (\<lambda>_.
     mbind (new_lease env (rj_job_id job) endpoint_id ttl_seconds) (\<lambda>lease.
     mbind (utc_now env) (\<lambda>now.
     mbind (prepare_capacity_transition env [((rj_cluster job, rj_kind job), 1)] True) (\<lambda>transition.
     mret (lease, now, transition)))))))"

lemma lease_job_grant:
  "lease_job env job endpoint_id ttl_seconds validated_global_total =
     mbind (lease_draws env job endpoint_id ttl_seconds validated_global_total)
       (\<lambda>(lease, now, transition). grant env job endpoint_id lease now transition)"
  by (simp add: lease_job_def lease_draws_def grant_def Let_def mbind_assoc)

lemma runs_live_total:
  assumes "capacity_ok L p \<sigma>" "v = None \<or> v = Some (int (card L))" "Q (int (card L)) \<sigma>"
  shows "runs P \<sigma> (case v of Some known \<Rightarrow> mret known
      | None \<Rightarrow> mbind (read_capacity (lease_capacity_snapshot cluster)) (\<lambda>(_, live). mret live)) Q"
proof -
  have p: "bound_pair p" and total: "ca_global_live_leases (cp_aggregate p) = int (card L)"
    using assms(1) by (auto simp: capacity_ok_def counts_of_def bound_pair_def wf_aggregate_def)
  have snap: "lease_capacity_snapshot cluster (capacity_of \<sigma>) =
      (Inr (dict_get (ca_cluster_kind_counts (cp_aggregate (canonical_pair p))) (lease_cluster_token cluster) [],
        int (card L)), capacity_of \<sigma>)"
    using total by (simp add: lease_capacity_snapshot_def capacity_files_of [OF assms(1)] mbind_app read_pair_files [OF p])
      (simp add: canonical_pair_def canonical_aggregate_def)
  show ?thesis
  proof (cases v)
    case None
    show ?thesis
      unfolding None option.case
      by (rule runs_mbind, rule runs_read_capacity, rule snap, simp only: prod.case, rule runs_mret, rule assms(3))
  next
    case (Some n)
    then show ?thesis using assms(2,3) by (simp only: option.case) (rule runs_mret, simp)
  qed
qed

lemma settled_acquires:
  assumes \<sigma>: "settled env L {} \<sigma>" and env: "env_ok env" and p: "capacity_ok L p \<sigma>"
    and job: "\<sigma> (JobCell (rj_job_id job)) = Some (JobV job)" "rj_state job = QUEUED"
    and l: "le_job_id l = rj_job_id job" "wf_identity (qe_codec env) (identity_of l job)"
      "lease_token (identity_of l job) \<notin> lease_token ` L"
    and pairs: "bound_pair before" "bound_pair after" "bound_pair rollback"
      "aggregate_value before = aggregate_value p" "checkpoint_value before = checkpoint_value p"
      "counts_of (insert (identity_of l job) L) after" "counts_of L rollback"
  shows "acquires env L \<sigma> job (le_endpoint_id l) \<lparr>aq_base = \<sigma>, aq_job = job, aq_now = now, aq_lease = l,
    aq_before = before, aq_after = after, aq_rollback = rollback\<rparr>"
proof -
  have fresh: "\<nexists>i. i \<in> L \<and> li_lease_id i = le_lease_id l"
    using l(3) by (auto simp: identity_of_def intro!: rev_image_eqI)
  have "synced \<sigma> job" using \<sigma> jobs_okD [of "{}" \<sigma> "rj_job_id job" job] job by (simp add: settled_def)
  then have derived: "\<sigma> (ActiveCell (rj_job_id job)) = Some (JobV job)" "\<sigma> (QueuedCell (rj_job_id job)) = Some (JobV job)"
    using job(2) by (simp_all add: synced_def not_terminal_queued)
  have rec: "records_ok L \<sigma>" using \<sigma> by (simp add: settled_def)
  have "\<sigma> (LeaseCell (le_lease_id l)) = None"
    using rec fresh unfolding records_ok_def by blast
  moreover have "\<sigma> (JobLeaseCell (rj_job_id job, le_lease_id l)) = None"
    using rec fresh unfolding records_ok_def by (metis prod.inject)
  moreover have "\<sigma> (IndexCell q) = None" if "lease_files (qe_codec env) (identity_of l job) q = Some n" for q n
    using files_ok_free [OF _ l(3) that] \<sigma> by (simp add: settled_def)
  ultimately show ?thesis
    using assms derived by (auto simp: acquires_def acquisition_ok_def settled_def capacity_ok_def)
qed

lemma runs_lease_draws:
  fixes env :: "'x queue_env"
  assumes env: "env_ok env" and \<sigma>: "settled env L {} \<sigma>" and bound: "int (card L) < MAX_LIVE_LEASE_RECORDS"
    and job: "\<sigma> (JobCell (rj_job_id job)) = Some (JobV job)" "rj_state job = QUEUED" "rj_kind job \<noteq> INPUT_INGEST"
    and draws: "draws_ok env L job endpoint_id ttl" and v: "v = None \<or> v = Some (int (card L))"
    and Q: "\<And>a. acquires env L \<sigma> job endpoint_id a \<Longrightarrow> Q (aq_lease a, aq_now a, transition_json (aq_pairs a)) \<sigma>"
  shows "runs P \<sigma> (lease_draws env job endpoint_id ttl v) Q"
proof -
  obtain p where p: "capacity_ok L p \<sigma>" using \<sigma> by (auto simp: settled_def)
  have fin: "finite L" by (rule settled_finite [OF \<sigma>])
  have go: "runs P \<sigma> (mbind (prepare_capacity_transition env [((rj_cluster job, rj_kind job), 1)] True)
      (\<lambda>transition. mret (l, now, transition))) Q"
    if l: "le_job_id l = rj_job_id job" "le_endpoint_id l = endpoint_id" "wf_identity (qe_codec env) (identity_of l job)"
      "lease_token (identity_of l job) \<notin> lease_token ` L" for l now
  proof (rule runs_mbind, rule runs_prepare_delta [OF env p, where L' = "insert (identity_of l job) L"])
    let ?i = "identity_of l job"
    have new: "?i \<notin> L" using l(4) by blast
    show "int (card (insert ?i L)) = int (card L) + 1" using fin new by simp
    show "int (card (insert ?i L)) \<le> MAX_LIVE_LEASE_RECORDS" using fin new bound by simp
    show "int (card {i \<in> insert ?i L. lease_cluster_token (li_cluster i) = t \<and> li_job_kind i = k}) =
        int (card {i \<in> L. lease_cluster_token (li_cluster i) = t \<and> li_job_kind i = k})
          + (if t = lease_cluster_token (rj_cluster job) \<and> k = rj_kind job then 1 else 0)" for t k
      using card_scope [OF fin new, of t k] by (auto simp: identity_of_def)
    fix before after rollback
    assume pairs: "bound_pair before" "bound_pair after" "True \<Longrightarrow> bound_pair rollback"
      "aggregate_value before = aggregate_value p" "checkpoint_value before = checkpoint_value p"
      "counts_of (insert ?i L) after" "True \<Longrightarrow> counts_of L rollback"
    define a where "a = \<lparr>aq_base = \<sigma>, aq_job = job, aq_now = now, aq_lease = l,
      aq_before = before, aq_after = after, aq_rollback = rollback\<rparr>"
    have a: "acquires env L \<sigma> job endpoint_id a"
      unfolding a_def l(2) [symmetric] by (rule settled_acquires [OF \<sigma> env p job(1,2) l(1,3,4)]) (use pairs in simp_all)
    show "runs P \<sigma> (mret (l, now, transition_json ([(''before'', before), (''after'', after)]
        @ (if True then [(''rollback'', rollback)] else [])))) Q"
      by (rule runs_mret) (use Q [OF a] in \<open>simp add: a_def\<close>)
  qed simp
  show ?thesis
    unfolding lease_draws_def
    by (rule runs_mbind, rule runs_mcheck, rule job(3), rule runs_mbind, rule runs_live_total [OF p v],
        rule runs_mbind, rule runs_mcheck, use bound in simp, rule runs_mbind, rule runs_new_lease [OF draws],
        rule runs_mbind, rule runs_utc_now, rule go)
qed

lemma runs_lease_job:
  fixes env :: "'x queue_env"
  assumes env: "env_ok env" and \<sigma>: "settled env L {} \<sigma>" and bound: "int (card L) < MAX_LIVE_LEASE_RECORDS"
    and job: "\<sigma> (JobCell (rj_job_id job)) = Some (JobV job)" "rj_state job = QUEUED" "rj_kind job \<noteq> INPUT_INGEST"
    and draws: "draws_ok env L job endpoint_id ttl"
    and log: "event_log lag \<sigma> (rj_job_id job) es" "lag < DEFAULT_EXACT_RECORD_LIMIT"
    and v: "v = None \<or> v = Some (int (card L))"
    and Q: "\<And>a e \<tau>. acquires env L \<sigma> job endpoint_id a \<Longrightarrow> aq_done env a \<tau> \<Longrightarrow> aq_logged a (length es) e
      \<Longrightarrow> event_log 0 \<tau> (rj_job_id job) (es @ [e]) \<Longrightarrow> Q (aq_lease a) \<tau>"
  shows "runs (\<lambda>\<tau>. \<exists>a. acquires env L \<sigma> job endpoint_id a \<and> aq_crashed env a lag es \<tau>) \<sigma>
    (lease_job env job endpoint_id ttl v) Q" (is "runs ?P _ _ _")
  unfolding lease_job_grant
proof (rule runs_mbind, rule runs_lease_draws [OF env \<sigma> bound job draws v])
  fix a assume a: "acquires env L \<sigma> job endpoint_id a"
  then have ok: "acquisition_ok env a" and fields: "aq_base a = \<sigma>" "aq_job a = job" "le_endpoint_id (aq_lease a) = endpoint_id"
    by (simp_all add: acquires_def)
  have "runs (aq_crashed env a lag es) (aq_base a) (grant env (aq_job a) (le_endpoint_id (aq_lease a)) (aq_lease a)
      (aq_now a) (transition_json (aq_pairs a))) Q"
    by (rule runs_grant [OF ok]) (use log Q [OF a] in \<open>simp_all add: fields\<close>)
  then have "runs ?P (aq_base a) (grant env (aq_job a) (le_endpoint_id (aq_lease a)) (aq_lease a)
      (aq_now a) (transition_json (aq_pairs a))) Q"
    by (rule runs_weaken_crash) (use a in blast)
  then show "runs ?P \<sigma> (case (aq_lease a, aq_now a, transition_json (aq_pairs a)) of
      (lease, now, transition) \<Rightarrow> grant env job endpoint_id lease now transition) Q"
    by (simp add: fields)
qed

section \<open>Restarts\<close>

text \<open>
  A process that replays the journal when it starts, crashing after \<open>b\<close> durable steps for each \<open>b\<close> of
  the list, and the restart that is not interrupted any more.
\<close>

fun restarts :: "'x queue_env \<Rightarrow> nat list \<Rightarrow> ('x, RelayJob list) queue_op" where
  "restarts env [] s = reconcile_transition_intents env (s\<lparr>qs_budget := None\<rparr>)"
| "restarts env (b # bs) s = (case reconcile_transition_intents env (s\<lparr>qs_budget := Some b\<rparr>) of
     (Inl Crashed, s') \<Rightarrow> restarts env bs s' | outcome \<Rightarrow> outcome)"

lemma restart_holds: "wf_store s \<Longrightarrow> holds (cells s) (s\<lparr>qs_budget := b\<rparr>)"
  by (simp add: holds_def)

lemma restart_once:
  assumes "runs P (cells s) m Q" "wf_store s"
  shows "\<exists>x s'. m (s\<lparr>qs_budget := None\<rparr>) = (Inr x, s') \<and> wf_store s' \<and> Q x (cells s')"
  by (rule runs_uninterrupted [OF assms(1) restart_holds [OF assms(2), where b = None]]) auto

text \<open>The contract of a journaled operation: from every content a crash can leave, a replay reaches the goal.\<close>

locale journaled =
  fixes env :: "'x queue_env" and pending :: "content \<Rightarrow> bool" and goal :: "content \<Rightarrow> bool"
  assumes replay: "pending \<sigma> \<Longrightarrow> runs pending \<sigma> (reconcile_transition_intents env) (\<lambda>_. goal)"
begin

lemma recovers:
  assumes "pending (cells s)" "wf_store s"
  shows "\<exists>jobs s'. restarts env bs s = (Inr jobs, s') \<and> wf_store s' \<and> goal (cells s')"
  using assms
proof (induction bs arbitrary: s)
  case Nil
  from restart_once [OF replay [OF Nil(1)] Nil(2)] show ?case by simp
next
  case (Cons b bs)
  obtain r s' where run: "reconcile_transition_intents env (s\<lparr>qs_budget := Some b\<rparr>) = (r, s')" by fastforce
  from runs_outcome [OF replay [OF Cons.prems(1)] restart_holds [OF Cons.prems(2)] run] Cons.IH [of s'] run
  show ?case by auto
qed

end

lemma runs_replay_one:
  fixes env :: "'x queue_env"
  assumes cells: "\<And>n. \<sigma> (IntentCell n) = (if n = p then Some (IntentV x) else None)" and good: "\<And>e. x \<noteq> BadIntent e"
    and run: "runs P \<sigma> (replay_intent env (p, x)) Q"
  shows "runs P \<sigma> (reconcile_transition_intents env) Q"
  unfolding reconcile_transition_intents_def
proof (rule runs_mbind, rule runs_read_intents [where ns = "[p]"])
  show "n \<in> set [p]" if "\<sigma> (IntentCell n) \<noteq> None" for n using that cells [of n] by (simp split: if_splits)
  show "\<sigma> (IntentCell n) \<noteq> Some (IntentV (BadIntent e))" for n e using cells [of n] good by simp
  fix xs :: "(string \<times> queue_intent) list"
  assume "distinct (map fst xs)" "\<And>n. map_option IntentV (map_of xs n) = \<sigma> (IntentCell n)"
  then have xs: "xs = [(p, x)]" by (rule one_intent) (rule cells)
  have sorted: "sort_key (\<lambda>(_, intent). intent_order intent) xs = [(p, x)]" by (simp add: xs)
  have one: "mbind (mmap (replay_intent env) [(p, x)]) (\<lambda>jobs. mret (concat jobs)) = mbind (replay_intent env (p, x)) mret"
    by (simp only: mmap.simps mbind_assoc mbind_mret concat.simps append_Nil2)
  show "runs P \<sigma> (mbind (mmap (replay_intent env) (sort_key (\<lambda>(_, intent). intent_order intent) xs))
      (\<lambda>jobs. mret (concat jobs))) Q"
    unfolding sorted one by (rule runs_mbind, rule runs_weaken [OF run], rule runs_mret)
qed simp

lemma runs_replay_none:
  fixes env :: "'x queue_env"
  assumes "\<And>n. \<sigma> (IntentCell n) = None" "Q [] \<sigma>"
  shows "runs P \<sigma> (reconcile_transition_intents env) Q"
  unfolding reconcile_transition_intents_def
proof (rule runs_mbind, rule runs_read_intents [where ns = "[]"])
  fix xs :: "(string \<times> queue_intent) list"
  assume "\<And>n. map_option IntentV (map_of xs n) = \<sigma> (IntentCell n)"
  then have "map_of xs n = None" for n using assms(1) by simp
  then have xs: "xs = []" by (rule map_of_nowhere)
  show "runs P \<sigma> (mbind (mmap (replay_intent env) (sort_key (\<lambda>(_, intent). intent_order intent) xs))
      (\<lambda>jobs. mret (concat jobs))) Q"
    unfolding xs by (simp only: sort_key_simps mmap.simps mbind_mret concat.simps) (rule runs_mret, rule assms(2))
qed (use assms(1) in simp_all)

text \<open>An empty journal changes nothing.\<close>

interpretation empty_journal: journaled env "\<lambda>\<tau>. \<tau> = \<sigma> \<and> (\<forall>n. \<sigma> (IntentCell n) = None)" "\<lambda>\<tau>. \<tau> = \<sigma>" for env \<sigma>
  by unfold_locales (rule runs_replay_none, auto)

text \<open>A half-finished acquisition is rolled back.\<close>

interpretation acquisition: journaled env "\<lambda>\<tau>. acquisition_ok env a \<and> aq_pending env a \<tau>" "aq_settled a" for env a
proof unfold_locales
  fix \<sigma> assume pending: "acquisition_ok env a \<and> aq_pending env a \<sigma>"
  have "runs (aq_pending env a) \<sigma> (reconcile_transition_intents env) (\<lambda>_. aq_settled a)"
  proof (cases "aq_mixed env a \<sigma>")
    case True
    with pending show ?thesis by (intro runs_replay_mixed) simp_all
  next
    case False
    then have "runs (aq_rolled a) \<sigma> (reconcile_transition_intents env) (\<lambda>_. aq_settled a)"
      using pending by (intro runs_replay_rolled [of env]) (simp_all add: aq_pending_def)
    then show ?thesis by (rule runs_weaken_crash) (simp add: aq_pending_def)
  qed
  then show "runs (\<lambda>\<tau>. acquisition_ok env a \<and> aq_pending env a \<tau>) \<sigma> (reconcile_transition_intents env) (\<lambda>_. aq_settled a)"
    by (rule runs_weaken_crash) (use pending in simp)
qed

section \<open>Operations that only roll forward\<close>

text \<open>
  While the intent in cell \<open>q\<close> is durable, every other cell has its value in \<open>base\<close>, the content from
  before, or its value in \<open>final\<close>, the content from after.
\<close>

definition rolling :: "cell \<Rightarrow> queue_intent \<Rightarrow> content \<Rightarrow> content \<Rightarrow> content \<Rightarrow> bool" where
  "rolling q x base final = between (base(q \<mapsto> IntentV x)) (final(q \<mapsto> IntentV x))"

lemma rolling_cell:
  "rolling q x base final \<sigma> \<Longrightarrow> \<sigma> q = Some (IntentV x)"
  "rolling q x base final \<sigma> \<Longrightarrow> c \<noteq> q \<Longrightarrow> \<sigma> c = base c \<or> \<sigma> c = final c"
  by (auto simp: rolling_def between_def) (metis fun_upd_apply)+

lemma rolling_start: "rolling q x base final (base(q \<mapsto> IntentV x))"
  by (simp add: rolling_def)

lemma rolling_upd:
  "rolling q x base final \<sigma> \<Longrightarrow> v = final c \<Longrightarrow> c \<noteq> q \<Longrightarrow> rolling q x base final (\<sigma>(c := v))"
  unfolding rolling_def by (rule between_upd) simp_all

lemma rolling_between:
  "rolling q x base final \<sigma> \<Longrightarrow> rolling q x base final \<tau> \<Longrightarrow> between \<sigma> \<tau> \<rho> \<Longrightarrow> rolling q x base final \<rho>"
  unfolding rolling_def by (rule between_trans)

lemma rolling_all:
  assumes "rolling q x base final \<sigma>" "\<tau> q = \<sigma> q" "\<And>c. c \<noteq> q \<Longrightarrow> \<tau> c = final c \<or> \<tau> c = \<sigma> c"
  shows "rolling q x base final \<tau>"
  unfolding rolling_def between_def
proof
  fix c show "\<tau> c = (base(q \<mapsto> IntentV x)) c \<or> \<tau> c = (final(q \<mapsto> IntentV x)) c"
    using rolling_cell [OF assms(1)] assms(2) assms(3) [of c] by (cases "c = q") fastforce+
qed

lemma rolling_torn:
  assumes "rolling q x base final \<sigma>" "q \<notin> {AggregateCell, CheckpointCell}"
    and "base AggregateCell = Some (aggregate_value p)" "base CheckpointCell = Some (checkpoint_value p)"
    and "final AggregateCell = Some (aggregate_value p')" "final CheckpointCell = Some (checkpoint_value p')"
  shows "torn [p, p'] (capacity_of \<sigma>)"
proof -
  have "\<sigma> AggregateCell \<in> Some ` aggregate_value ` {p, p'}" "\<sigma> CheckpointCell \<in> Some ` checkpoint_value ` {p, p'}"
    using rolling_cell(2) [OF assms(1), of AggregateCell] rolling_cell(2) [OF assms(1), of CheckpointCell] assms(2-6)
    by auto
  then show ?thesis by (auto simp: torn_def capacity_of_def)
qed

lemma rolling_intents:
  "rolling (IntentCell p) x base final \<sigma> \<Longrightarrow> (\<And>n. base (IntentCell n) = None) \<Longrightarrow> (\<And>n. final (IntentCell n) = None)
     \<Longrightarrow> \<sigma> (IntentCell n) = (if n = p then Some (IntentV x) else None)"
  using rolling_cell(1) [of "IntentCell p" x base final \<sigma>] rolling_cell(2) [of "IntentCell p" x base final \<sigma> "IntentCell n"]
  by auto

section \<open>Acquisition is crash-safe\<close>

definition granted ::
  "'x queue_env \<Rightarrow> LeaseIndexIdentity set \<Rightarrow> RelayJob \<Rightarrow> string \<Rightarrow> Lease \<Rightarrow> content \<Rightarrow> bool" where
  "granted env L job endpoint_id lease \<sigma> \<longleftrightarrow>
     settled env (insert (identity_of lease job) L) {} \<sigma> \<and> identity_of lease job \<notin> L
     \<and> le_job_id lease = rj_job_id job \<and> le_endpoint_id lease = endpoint_id
     \<and> \<sigma> (LeaseCell (le_lease_id lease)) = Some (LeaseV lease)
     \<and> (\<exists>now. \<sigma> (JobCell (rj_job_id job)) = Some (JobV (leased job endpoint_id now)))"

lemma acquires_granted:
  assumes "settled env L {} \<sigma>" "acquires env L \<sigma> job endpoint_id a" "aq_done env a \<tau>"
  shows "granted env L job endpoint_id (aq_lease a) \<tau>"
proof -
  have "settled env (insert (aq_identity a) L) {} \<tau>" by (rule settled_granted [OF assms])
  moreover have "aq_identity a \<notin> L" using assms(2) by (auto simp: acquires_def)
  ultimately show ?thesis
    using assms(2) by (auto simp: granted_def acquires_def acquisition_ok_def aq_done_cells [OF assms(3)])
qed

lemma acquires_restarts:
  fixes env :: "'x queue_env"
  assumes \<sigma>: "settled env L {} \<sigma>" and a: "acquires env L \<sigma> job endpoint_id a"
    and crashed: "aq_crashed env a lag es (cells s)" and wf: "wf_store s"
  shows "\<exists>jobs s'. restarts env bs s = (Inr jobs, s') \<and> wf_store s' \<and>
    (granted env L job endpoint_id (aq_lease a) (cells s')
     \<or> cells s' (JobCell (rj_job_id job)) = Some (JobV job)
       \<and> settled env L (if bs = [] then {} else {rj_job_id job}) (cells s'))"
proof -
  have ok: "acquisition_ok env a" and base: "aq_base a = \<sigma>" and job: "aq_job a = job"
    using a by (simp_all add: acquires_def)
  have unchanged: "\<exists>jobs s'. restarts env bs s = (Inr jobs, s') \<and> wf_store s' \<and> cells s' = cells s"
    if "\<And>n. cells s (IntentCell n) = None"
    using empty_journal.recovers [where \<sigma> = "cells s" and s = s and bs = bs and env = env] that wf by blast
  consider (before) "cells s = \<sigma>" | (mixed) "aq_mixed env a (cells s)" "aq_in_step a (cells s)"
    | (finished) "aq_done env a (cells s)"
    using crashed base by (auto simp: aq_crashed_def)
  then show ?thesis
  proof cases
    case before
    then have "cells s (JobCell (rj_job_id job)) = Some (JobV job)"
      using ok base job by (auto simp: acquisition_ok_def)
    moreover have "settled env L D \<sigma>" for D
      using \<sigma> by (fastforce simp: settled_def jobs_ok_def)
    moreover have "\<sigma> (IntentCell n) = None" for n using \<sigma> by (simp add: settled_def)
    ultimately show ?thesis using unchanged before by metis
  next
    case finished
    have "cells s (IntentCell n) = None" for n
      using aq_done_cells(9) [OF finished, of n] \<sigma> base by (simp add: settled_def del: cells.simps)
    from unchanged [OF this] acquires_granted [OF \<sigma> a finished] show ?thesis by metis
  next
    case mixed
    show ?thesis
    proof (cases bs)
      case Nil
      have "runs (aq_pending env a) (cells s) (reconcile_transition_intents env)
          (\<lambda>_ \<tau>. aq_settled a \<tau> \<and> aq_indexed a \<tau>)"
        by (rule runs_replay_mixed [OF ok mixed(1)]) (use mixed(2) in simp)
      from restart_once [OF this wf] obtain jobs s' where
        run: "restarts env bs s = (Inr jobs, s')" "wf_store s'" "aq_settled a (cells s')" "aq_indexed a (cells s')"
        by (auto simp: Nil)
      with settled_rolled(2,3) [OF \<sigma> a run(3)] Nil show ?thesis by (simp del: cells.simps)
    next
      case (Cons b bs')
      have "aq_pending env a (cells s)" using mixed(1) by (simp add: aq_pending_def)
      from acquisition.recovers [OF conjI [OF ok this] wf, of bs] obtain jobs s' where
        run: "restarts env bs s = (Inr jobs, s')" "wf_store s'" "aq_settled a (cells s')" by blast
      with settled_rolled(1,3) [OF \<sigma> a run(3)] Cons show ?thesis by (simp del: cells.simps)
    qed
  qed
qed

text \<open>
  C3: lease acquisition is crash-safe. From a settled store holding the leases \<open>L\<close>, leasing a queued
  job either completes, and the store is settled with exactly one lease more, the job leased to the
  endpoint and the event logged; or it crashes. After a crash, whatever number of restarts also
  crash while they replay the journal, the next complete replay leaves a store that is settled
  either with the new lease or, rolled back, with exactly \<open>L\<close> and the original job; only the
  derived index of that one job may then be stale, and it is not when the first replay completes.
\<close>

theorem lease_acquisition_crash_safe:
  fixes env :: "'x queue_env"
  assumes env: "env_ok env" and h: "holds \<sigma> s" and \<sigma>: "settled env L {} \<sigma>"
    and bound: "int (card L) < MAX_LIVE_LEASE_RECORDS"
    and job: "\<sigma> (JobCell (rj_job_id job)) = Some (JobV job)" "rj_state job = QUEUED" "rj_kind job \<noteq> INPUT_INGEST"
    and draws: "draws_ok env L job endpoint_id ttl"
    and log: "event_log lag \<sigma> (rj_job_id job) es" "lag < DEFAULT_EXACT_RECORD_LIMIT"
    and run: "lease_job env job endpoint_id ttl None s = (r, s')"
  shows "(\<exists>lease e. r = Inr lease \<and> granted env L job endpoint_id lease (cells s')
      \<and> event_log 0 (cells s') (rj_job_id job) (es @ [e]) \<and> re_event_type e = ''job.leased'')
    \<or> (r = Inl Crashed \<and> qs_budget s \<noteq> None \<and>
       (\<exists>lease. \<forall>bs. \<exists>jobs s''. restarts env bs s' = (Inr jobs, s'') \<and>
          (granted env L job endpoint_id lease (cells s'')
           \<or> cells s'' (JobCell (rj_job_id job)) = Some (JobV job)
             \<and> settled env L (if bs = [] then {} else {rj_job_id job}) (cells s''))))"
proof -
  let ?Q = "\<lambda>lease \<tau>. granted env L job endpoint_id lease \<tau>
    \<and> (\<exists>e. event_log 0 \<tau> (rj_job_id job) (es @ [e]) \<and> re_event_type e = ''job.leased'')"
  have "runs (\<lambda>\<tau>. \<exists>a. acquires env L \<sigma> job endpoint_id a \<and> aq_crashed env a lag es \<tau>) \<sigma>
      (lease_job env job endpoint_id ttl None) ?Q"
  proof (rule runs_lease_job [OF env \<sigma> bound job draws log])
    fix a e \<tau> assume a: "acquires env L \<sigma> job endpoint_id a" "aq_done env a \<tau>" "aq_logged a (length es) e"
      "event_log 0 \<tau> (rj_job_id job) (es @ [e])"
    then have "re_event_type e = ''job.leased''" by (simp add: aq_logged_def appended_def)
    with acquires_granted [OF \<sigma> a(1,2)] a(4) show "?Q (aq_lease a) \<tau>" by blast
  qed simp
  from runs_outcome [OF this h run] have wf: "wf_store s'"
    and out: "(\<exists>lease. r = Inr lease \<and> ?Q lease (cells s')) \<or> (r = Inl Crashed \<and> qs_budget s \<noteq> None
      \<and> (\<exists>a. acquires env L \<sigma> job endpoint_id a \<and> aq_crashed env a lag es (cells s')))" by auto
  from out show ?thesis
  proof
    assume "\<exists>lease. r = Inr lease \<and> ?Q lease (cells s')"
    then show ?thesis by metis
  next
    assume "r = Inl Crashed \<and> qs_budget s \<noteq> None
      \<and> (\<exists>a. acquires env L \<sigma> job endpoint_id a \<and> aq_crashed env a lag es (cells s'))"
    then obtain a where "r = Inl Crashed" "qs_budget s \<noteq> None" "acquires env L \<sigma> job endpoint_id a"
      "aq_crashed env a lag es (cells s')" by blast
    with acquires_restarts [OF \<sigma> this(3,4) wf] show ?thesis by metis
  qed
qed

lemma demo_draws: "draws_ok demo_env {} demo_owned_job ''worker_a'' 300"
proof -
  define i where "i = identity_of (Lease_new 0 (''lease_'' @ demo_hex) ''job_a'' ''worker_a'' 300) demo_owned_job"
  have ids: "durable_id (''lease_'' @ demo_hex)" "durable_id ''job_a''" "durable_id ''worker_a''"
    by code_simp+
  have fields: "li_lease_id i = ''lease_'' @ demo_hex" "li_job_id i = ''job_a''" "li_endpoint_id i = ''worker_a''"
    "li_cluster i = ''ares''" "li_expires_at i = 300000000"
    by (simp_all add: i_def identity_of_def Lease_new_def demo_owned_job_def)
  have hex: "length demo_hex = 32" by (simp add: demo_hex_def)
  have time: "iso_format demo_codec 300000000 = ''1970-01-01T00:05:00+00:00''"
    "iso_parse demo_codec ''1970-01-01T00:05:00+00:00'' = Some (Some 300000000)" by (simp_all add: demo_codec_def)
  have "length (dumps_plain (lease_index_document (iso_format demo_codec) i)) \<le> 65536"
    using document_length [of "iso_format demo_codec" i] by (simp add: fields hex time)
  then have "wf_identity demo_codec i"
    using ids by (simp add: wf_identity_def fields LEASE_INDEX_MAX_BYTES_def time)
  then show ?thesis by (simp add: draws_ok_def demo_env_def i_def)
qed

lemma demo_settled:
  assumes "bound_pair p" "ca_cluster_kind_counts (cp_aggregate p) = []"
  shows "settled demo_env {} {} (cells (demo_state p b))"
proof -
  have "counts_of {} p" using assms(2) by (simp add: counts_of_def scope_total_def scope_count_def dict_get_def)
  then have "capacity_ok {} p (cells (demo_state p b))"
    using assms(1) by (simp add: capacity_ok_def demo_state_def pair_files_def)
  moreover have "jobs_ok {} (cells (demo_state p b))"
    using demo_event_job_id by (simp add: jobs_ok_def demo_state_def synced_def)
      (simp add: demo_owned_job_def not_terminal_queued)
  ultimately show ?thesis
    by (auto simp: settled_def records_ok_def files_ok_def demo_state_def file_view_def)
qed

theorem lease_acquisition_crash_safe_witness:
  "\<exists>p lease s'. lease_job demo_env demo_owned_job ''worker_a'' 300 None (demo_state p None) = (Inr lease, s')
     \<and> granted demo_env {} demo_owned_job ''worker_a'' lease (cells s')"
proof -
  obtain p where p: "bound_pair p" "ca_cluster_kind_counts (cp_aggregate p) = []" using empty_pair by auto
  obtain r s' where run: "lease_job demo_env demo_owned_job ''worker_a'' 300 None (demo_state p None) = (r, s')"
    by fastforce
  have job: "cells (demo_state p None) (JobCell (rj_job_id demo_owned_job)) = Some (JobV demo_owned_job)"
    "rj_state demo_owned_job = QUEUED" "rj_kind demo_owned_job \<noteq> INPUT_INGEST"
    by (simp_all add: demo_state_def demo_owned_job_def)
  have bound: "int (card ({} :: LeaseIndexIdentity set)) < MAX_LIVE_LEASE_RECORDS"
    by (simp add: MAX_LIVE_LEASE_RECORDS_def MAX_ACTIVE_JOB_RECORDS_def)
  have lag: "0 < DEFAULT_EXACT_RECORD_LIMIT" by (simp add: DEFAULT_EXACT_RECORD_LIMIT_def)
  have log: "event_log 0 (cells (demo_state p None)) (rj_job_id demo_owned_job) []"
    using demo_event_log by (simp del: cells.simps)
  have "qs_budget (demo_state p None) = None" by (simp add: demo_state_def)
  with lease_acquisition_crash_safe [OF demo_queue_env_ok demo_state_wf demo_settled [OF p] bound job demo_draws log lag run] run
  show ?thesis by (metis sum.distinct(1))
qed

end
