(* ===== verification/LeaseRollback.thy ===== *)
theory LeaseRollback
  imports LeaseInvariant
begin

text \<open>
  A rollback that is itself interrupted. The replay of a half-finished acquisition rewrites the
  canonical job record and then its derived indexes, without a journal entry of its own for the
  second step; a crash between the two loses it, because the next replay finds the original job
  and does not look at the derived indexes again.
\<close>

section \<open>A replay stopped after its first step\<close>

lemma store_intents:
  assumes "holds \<sigma> s" "\<And>n. \<sigma> (IntentCell n) = (if n = a then Some (IntentV x) else None)"
  shows "qs_intents s = [(a, x)]"
proof (rule one_intent)
  show "distinct (map fst (qs_intents s))" using assms(1) by (simp add: holds_def wf_store_def)
  show "map_option IntentV (map_of (qs_intents s) n) = \<sigma> (IntentCell n)" for n
    using holds_cells [OF assms(1), of "IntentCell n"] by simp
qed (rule assms(2))

lemma replay_stops_after_job:
  fixes env :: "'x queue_env"
  assumes ok: "acquisition_ok env a" and h: "holds \<sigma> s" and budget: "qs_budget s = Some 1"
    and mixed: "aq_mixed env a \<sigma>" and sync: "\<sigma> (aq_sync_cell a) = None"
    and job: "\<sigma> (JobCell (aq_jid a)) = Some (JobV (aq_target a))"
  shows "reconcile_transition_intents env s =
    (Inl Crashed, qs_jobs_update (AList.update (aq_jid a) (aq_job a)) (s\<lparr>qs_budget := Some 0\<rparr>))"
proof -
  let ?p = "intent_name ''lease_acquire'' (aq_lid a)"
  have "\<sigma> (IntentCell n) = (if n = ?p then Some (IntentV (aq_intent env a)) else None)" for n
    using aq_intent_cells [OF ok mixed, of n] sync by (auto split: if_splits)
  then have i: "qs_intents s = [(?p, aq_intent env a)]" by (rule store_intents [OF h])
  have j: "map_of (qs_jobs s) (aq_jid a) = Some (aq_target a)"
    using holds_cells [OF h, of "JobCell (aq_jid a)"] job by (cases "map_of (qs_jobs s) (aq_jid a)") simp_all
  have read: "read_intents s = (Inr [(?p, aq_intent env a)], s)"
    by (simp add: read_intents_def i mbind_app MAX_TRANSITION_INTENT_RECORDS_def aq_intent_def)
  have dur: "durable_id (aq_jid a)" by (rule identity_ok(3) [OF ok])
  have current: "read_optional_job (aq_jid a) s = (Inr (Some (aq_target a)), s)"
    using dur by (simp add: read_optional_job_def mbind_app qlift_def read_bound_def j validate_durable_id)
  have lj: "le_job_id (aq_lease a) = aq_jid a" using ok by (simp add: acquisition_ok_def)
  have "reconcile_lease_acquire_intent env ?p (aq_lease a) (aq_job a) (aq_target a)
      (iso_format (qe_codec env) (aq_now a)) (Some (transition_json (aq_pairs a))) s
      = (Inl Crashed, qs_jobs_update (AList.update (aq_jid a) (aq_job a)) (s\<lparr>qs_budget := Some 0\<rparr>))"
    by (simp add: reconcile_lease_acquire_intent_def mbind_app lj current Let_def write_job_record_def durable_def
        sync_job_derived_def on_other_def tick_def budget)
  then show ?thesis
    by (simp add: reconcile_transition_intents_def mbind_app read) (simp add: aq_intent_def mbind_app)
qed

lemma rollback_stops_unqueued:
  fixes env :: "'x queue_env"
  assumes ok: "acquisition_ok env a" and h: "holds (aq_acquired_job env a) s"
  shows "\<exists>jobs s'. restarts env [1] s = (Inr jobs, s') \<and> (\<forall>n. cells s' (IntentCell n) = None)
    \<and> cells s' (JobCell (aq_jid a)) = Some (JobV (aq_job a))
    \<and> cells s' (QueuedCell (aq_jid a)) = None"
proof -
  let ?\<sigma> = "aq_acquired_job env a"
  let ?s = "s\<lparr>qs_budget := Some 1\<rparr>"
  let ?s1 = "qs_jobs_update (AList.update (aq_jid a) (aq_job a)) (?s\<lparr>qs_budget := Some 0\<rparr>)"
  let ?\<sigma>1 = "?\<sigma>(JobCell (aq_jid a) \<mapsto> JobV (aq_job a))"
  have base: "aq_base a (JobCell (aq_jid a)) = Some (JobV (aq_job a))" "\<And>n. aq_base a (IntentCell n) = None"
    using ok by (simp_all add: acquisition_ok_def)
  have mixed: "aq_mixed env a ?\<sigma>" using aq_acquired_job_leased [OF ok] by (simp add: aq_leased_def)
  have mixed1: "aq_mixed env a ?\<sigma>1" by (rule aq_mixed_upd [OF mixed]) (simp_all add: base)
  have sync: "?\<sigma> (aq_sync_cell a) = None" using base by (simp add: aq_acquired_job_def aq_start_def)
  have h1: "holds ?\<sigma> ?s" using h by (simp add: holds_def)
  have stop: "reconcile_transition_intents env ?s = (Inl Crashed, ?s1)"
    by (rule replay_stops_after_job [OF ok h1 _ mixed sync]) (simp_all add: aq_acquired_job_def)
  have c1: "cells ?s1 = ?\<sigma>1" "wf_store ?s1" using h1 by (simp_all add: holds_def)
  have "runs (aq_pending env a) (cells ?s1) (reconcile_transition_intents env)
      (\<lambda>_ \<tau>. aq_settled a \<tau> \<and> \<tau> = aq_rolled_from env a ?\<sigma>1)"
    unfolding c1 by (rule runs_replay_mixed [OF ok mixed1]) (use sync in simp)
  from restart_once [OF this c1(2)] obtain jobs s' where
    run: "restarts env [] ?s1 = (Inr jobs, s')" "aq_settled a (cells s')" "cells s' = aq_rolled_from env a ?\<sigma>1"
    by auto
  have "restarts env [1] s = (Inr jobs, s')" unfolding restarts.simps stop using run(1) by simp
  moreover have "cells s' (IntentCell n) = None" for n
    using run(2) base by (cases "IntentCell n = aq_sync_cell a") (auto simp: aq_settled_def aq_rolled_def simp del: cells.simps)
  moreover have "cells s' (QueuedCell (aq_jid a)) = None"
    using target_not_original [OF ok]
    by (auto simp: run(3) aq_rolled_from_def aq_unsynced_def simp del: cells.simps) (simp add: aq_acquired_job_def)
  moreover have "cells s' (JobCell (aq_jid a)) = Some (JobV (aq_job a))"
    using run(2) base by (simp add: aq_settled_def aq_rolled_def del: cells.simps)
  ultimately show ?thesis by blast
qed

section \<open>An acquisition stopped after its job write\<close>

definition keeps_budget :: "('x, 'a) queue_op \<Rightarrow> bool" where
  "keeps_budget m \<longleftrightarrow> (\<forall>s. qs_budget (snd (m s)) = qs_budget s)"

lemma keeps_budget_mbind: "keeps_budget m \<Longrightarrow> (\<And>x. keeps_budget (f x)) \<Longrightarrow> keeps_budget (mbind m f)"
  by (auto simp: keeps_budget_def mbind_app split: sum.splits prod.splits) (metis snd_conv)+

lemma keeps_budget_steps:
  "keeps_budget (mret x)" "keeps_budget (mcheck ok e)" "keeps_budget (qlift r)" "keeps_budget (utc_now env)"
  "keeps_budget (uuid4_hex env)" "keeps_budget (read_capacity c)"
  by (auto simp: keeps_budget_def mret_def mcheck_def mraise_def qlift_def mlift_def utc_now_def uuid4_hex_def
      on_part_def split: sum.splits prod.splits)

lemma lease_draws_keeps_budget: "keeps_budget (lease_draws env job endpoint_id ttl v)"
  unfolding lease_draws_def new_lease_def new_id_def prepare_capacity_transition_def
  by (intro keeps_budget_mbind keeps_budget_steps; cases v; simp)
     (auto intro!: keeps_budget_mbind keeps_budget_steps)

text \<open>\<open>write_job\<close> is eight durable steps.\<close>

lemma write_job_steps:
  assumes env: "env_ok env" and budget: "qs_budget s = Some (8 + n)"
  shows "\<exists>s'. write_job env j s = (Inr (), s') \<and> qs_budget s' = Some n"
proof -
  obtain x where x: "qe_migrate_cleanup env (rj_cluster j) (rj_job_id j) (qs_other s) = (Inr (), x)"
    using env_steps(2) [OF env] by blast
  obtain y where y: "qe_sync_membership env j x = (Inr (), y)" using env_steps(3) [OF env] by blast
  obtain z where z: "qe_sync_scheduler env (rj_job_id j) (rj_metadata j) y = (Inr (), z)"
    using env_steps(4) [OF env] by blast
  show ?thesis
    using budget
    by (simp add: write_job_def sync_job_derived_def on_other_def on_part_def tick_def mbind_app x y z durable_def
        write_transition_intent_def utc_now_def write_job_record_def write_active_def write_queued_def
        unlink_active_def unlink_queued_def unlink_intent_def numeral_eq_Suc)
qed

lemma grant_stops_after_job:
  fixes env :: "'x queue_env"
  assumes ok: "acquisition_ok env a" and h: "holds (aq_base a) s" and budget: "qs_budget s = Some 9"
  shows "\<exists>s'. grant env (aq_job a) (le_endpoint_id (aq_lease a)) (aq_lease a) (aq_now a)
      (transition_json (aq_pairs a)) s = (Inl Crashed, s') \<and> holds (aq_acquired_job env a) s'"
proof -
  let ?w = "write_transition_intent env ''lease_acquire'' (aq_lid a) (aq_intent env a)"
  let ?p = "intent_name ''lease_acquire'' (aq_lid a)"
  have env: "env_ok env" using ok by (simp add: acquisition_ok_def)
  obtain s1 where s1: "?w s = (Inr ?p, s1)" "qs_budget s1 = Some (8 + 0)"
    using budget by (simp add: write_transition_intent_def mbind_app durable_def tick_def utc_now_def numeral_eq_Suc)
  have "runs (\<lambda>_. True) (aq_base a) ?w (\<lambda>_ \<tau>. \<tau> = aq_start env a)"
    by (rule runs_write_intent) (simp_all add: aq_start_def)
  from runsD [OF this h s1(1)] have h1: "holds (aq_start env a) s1" by (simp add: holds_def)
  from write_job_steps [OF env s1(2)] obtain s2 where
    s2: "write_job env (aq_target a) s1 = (Inr (), s2)" "qs_budget s2 = Some 0" by blast
  have "runs (aq_crashed env a 0 []) (aq_start env a) (write_job env (aq_target a)) (\<lambda>_ \<tau>. \<tau> = aq_acquired_job env a)"
    by (rule runs_write_target [OF ok]) simp
  from runsD [OF this h1 s2(1)] have h2: "holds (aq_acquired_job env a) s2" by (simp add: holds_def)
  have "write_lease (aq_lease a) s2 = (Inl Crashed, s2)"
    using s2(2) by (simp add: write_lease_def durable_def mbind_app tick_def)
  then show ?thesis
    using s1(1) s2(1) h2 by (simp add: grant_def mbind_app aq_intent_def)
qed

text \<open>
  C28: an interrupted rollback can leave a queued job out of the queue. For every settled store and
  every queued job a worker may lease: when the acquisition crashes after its job write (nine
  durable steps) and the replay of the next start crashes after its first step, the replay of the
  start after that completes with an empty journal and the original job queued again in the
  canonical record, but with no entry for it in \<^verbatim>\<open>jobs_queued\<close>, the only directory
  \<^verbatim>\<open>acquire_next_job\<close> takes candidates from.
\<close>

theorem interrupted_rollback_unqueues:
  fixes env :: "'x queue_env"
  assumes env: "env_ok env" and h: "holds \<sigma> s" and \<sigma>: "settled env L {} \<sigma>"
    and bound: "int (card L) < MAX_LIVE_LEASE_RECORDS"
    and job: "\<sigma> (JobCell (rj_job_id job)) = Some (JobV job)" "rj_state job = QUEUED" "rj_kind job \<noteq> INPUT_INGEST"
    and draws: "draws_ok env L job endpoint_id ttl"
  shows "\<exists>s1 jobs s2. lease_job env job endpoint_id ttl None (s\<lparr>qs_budget := Some 9\<rparr>) = (Inl Crashed, s1)
    \<and> restarts env [1] s1 = (Inr jobs, s2) \<and> (\<forall>n. cells s2 (IntentCell n) = None)
    \<and> cells s2 (JobCell (rj_job_id job)) = Some (JobV job) \<and> cells s2 (QueuedCell (rj_job_id job)) = None"
proof -
  let ?s = "s\<lparr>qs_budget := Some 9\<rparr>"
  let ?m = "lease_draws env job endpoint_id ttl None"
  have hs: "holds \<sigma> ?s" using h by (simp add: holds_def)
  obtain x s0 where m: "?m ?s = (x, s0)" by fastforce
  have "runs (\<lambda>_. False) \<sigma> ?m (\<lambda>x \<tau>. \<tau> = \<sigma> \<and> (\<exists>a. acquires env L \<sigma> job endpoint_id a
      \<and> x = (aq_lease a, aq_now a, transition_json (aq_pairs a))))"
    by (rule runs_lease_draws [OF env \<sigma> bound job draws]) auto
  from runs_outcome [OF this hs m] obtain a where
    a: "acquires env L \<sigma> job endpoint_id a" "x = Inr (aq_lease a, aq_now a, transition_json (aq_pairs a))"
    and h0: "holds \<sigma> s0" by (auto simp: holds_def)
  have b0: "qs_budget s0 = Some 9"
    using lease_draws_keeps_budget [of env job endpoint_id ttl None, unfolded keeps_budget_def, rule_format, of ?s] m
    by simp
  have ok: "acquisition_ok env a" and fields: "aq_base a = \<sigma>" "aq_job a = job" "le_endpoint_id (aq_lease a) = endpoint_id"
    using a(1) by (simp_all add: acquires_def)
  obtain s1 where s1: "lease_job env job endpoint_id ttl None ?s = (Inl Crashed, s1)" "holds (aq_acquired_job env a) s1"
    using grant_stops_after_job [OF ok _ b0] h0 m a(2) by (auto simp: lease_job_grant mbind_app fields)
  from rollback_stops_unqueued [OF ok s1(2)] s1(1) show ?thesis unfolding fields by blast
qed

theorem interrupted_rollback_unqueues_witness:
  "\<exists>p s1 jobs s2. lease_job demo_env demo_owned_job ''worker_a'' 300 None ((demo_state p None)\<lparr>qs_budget := Some 9\<rparr>)
      = (Inl Crashed, s1) \<and> restarts demo_env [1] s1 = (Inr jobs, s2) \<and> cells s2 (QueuedCell ''job_a'') = None"
proof -
  obtain p where p: "bound_pair p" "ca_cluster_kind_counts (cp_aggregate p) = []" using empty_pair by auto
  have job: "cells (demo_state p None) (JobCell (rj_job_id demo_owned_job)) = Some (JobV demo_owned_job)"
    "rj_state demo_owned_job = QUEUED" "rj_kind demo_owned_job \<noteq> INPUT_INGEST"
    by (simp_all add: demo_state_def demo_owned_job_def)
  have bound: "int (card ({} :: LeaseIndexIdentity set)) < MAX_LIVE_LEASE_RECORDS"
    by (simp add: MAX_LIVE_LEASE_RECORDS_def MAX_ACTIVE_JOB_RECORDS_def)
  from interrupted_rollback_unqueues [OF demo_queue_env_ok demo_state_wf demo_settled [OF p] bound job demo_draws]
  show ?thesis by (simp only: demo_lease_fields) blast
qed

end
