(* ===== verification/LeaseDeletion.thy ===== *)
theory LeaseDeletion
  imports LeaseInvariant
begin

text \<open>
  Crash safety of lease deletion and release. A deletion only rolls forward: from the moment its
  intent is durable every cell holds its value from before or its value from after, and a replay
  reaches the content from after.
\<close>

section \<open>One deletion\<close>

record deletion =
  dl_base :: content
  dl_job :: RelayJob
  dl_lease :: Lease
  dl_before :: LeaseCapacityPair
  dl_after :: LeaseCapacityPair

abbreviation dl_lid :: "deletion \<Rightarrow> string" where "dl_lid d \<equiv> le_lease_id (dl_lease d)"
abbreviation dl_jid :: "deletion \<Rightarrow> string" where "dl_jid d \<equiv> le_job_id (dl_lease d)"
abbreviation dl_identity :: "deletion \<Rightarrow> LeaseIndexIdentity" where
  "dl_identity d \<equiv> identity_of (dl_lease d) (dl_job d)"
abbreviation dl_pairs :: "deletion \<Rightarrow> (string \<times> LeaseCapacityPair) list" where
  "dl_pairs d \<equiv> [(''before'', dl_before d), (''after'', dl_after d)]"
abbreviation dl_path :: "deletion \<Rightarrow> string" where "dl_path d \<equiv> intent_name ''lease_delete'' (dl_lid d)"

definition dl_intent :: "'x queue_env \<Rightarrow> deletion \<Rightarrow> queue_intent" where
  "dl_intent env d = LeaseDeleteIntent (dl_jid d) (dl_lid d) (Some (dl_lease d))
     (Some (lease_index_document (iso_format (qe_codec env)) (dl_identity d))) (Some (transition_json (dl_pairs d)))"

definition deletion_ok :: "'x queue_env \<Rightarrow> deletion \<Rightarrow> bool" where
  "deletion_ok env d \<longleftrightarrow>
     env_ok env \<and> wf_identity (qe_codec env) (dl_identity d) \<and> dl_jid d = rj_job_id (dl_job d)
     \<and> (\<forall>n. dl_base d (IntentCell n) = None)
     \<and> dl_base d (IndexCell (lease_index_path (dl_lid d))) =
          Some (NodeV (LDoc (lease_index_document (iso_format (qe_codec env)) (dl_identity d))))
     \<and> bound_pair (dl_before d) \<and> bound_pair (dl_after d)
     \<and> dl_base d AggregateCell = Some (aggregate_value (dl_before d))
     \<and> dl_base d CheckpointCell = Some (checkpoint_value (dl_before d))"

definition dl_removed :: "'x queue_env \<Rightarrow> deletion \<Rightarrow> content" where
  "dl_removed env d = with_pair (dl_after d) (clear_files (qe_codec env) (dl_identity d)
     ((dl_base d)(LeaseCell (dl_lid d) := None, JobLeaseCell (dl_jid d, dl_lid d) := None)))"

abbreviation dl_mixed :: "'x queue_env \<Rightarrow> deletion \<Rightarrow> content \<Rightarrow> bool" where
  "dl_mixed env d \<equiv> rolling (IntentCell (dl_path d)) (dl_intent env d) (dl_base d) (dl_removed env d)"

lemma dl_removed_cells [simp]:
  "dl_removed env d (JobCell k) = dl_base d (JobCell k)"
  "dl_removed env d (ActiveCell k) = dl_base d (ActiveCell k)"
  "dl_removed env d (QueuedCell k) = dl_base d (QueuedCell k)"
  "dl_removed env d (LeaseCell k) = (if k = dl_lid d then None else dl_base d (LeaseCell k))"
  "dl_removed env d (JobLeaseCell kk) = (if kk = (dl_jid d, dl_lid d) then None else dl_base d (JobLeaseCell kk))"
  "dl_removed env d (IndexCell p) =
     (if lease_files (qe_codec env) (dl_identity d) p \<noteq> None then None else dl_base d (IndexCell p))"
  "dl_removed env d AggregateCell = Some (aggregate_value (dl_after d))"
  "dl_removed env d CheckpointCell = Some (checkpoint_value (dl_after d))"
  "dl_removed env d (IntentCell k) = dl_base d (IntentCell k)"
  "dl_removed env d (EventCell ke) = dl_base d (EventCell ke)"
  "dl_removed env d (JobIndexCell k) = dl_base d (JobIndexCell k)"
  "dl_removed env d (DocCell kd) = dl_base d (DocCell kd)"
  by (simp_all add: dl_removed_def clear_files_def)

lemma dl_clear_mixed:
  assumes "dl_mixed env d \<sigma>"
  shows "dl_mixed env d (clear_files (qe_codec env) (dl_identity d) \<sigma>)"
proof (rule rolling_all [OF assms])
  fix c
  show "clear_files (qe_codec env) (dl_identity d) \<sigma> c = dl_removed env d c
      \<or> clear_files (qe_codec env) (dl_identity d) \<sigma> c = \<sigma> c"
    by (cases c) (auto simp: clear_files_def)
qed simp

lemma dl_manifest:
  assumes "deletion_ok env d" "dl_mixed env d \<sigma>"
  shows "\<sigma> (IndexCell (lease_index_path (li_lease_id (dl_identity d)))) \<in>
    {None, Some (NodeV (LDoc (lease_index_document (iso_format (qe_codec env)) (dl_identity d))))}"
proof -
  have id: "li_lease_id (dl_identity d) = dl_lid d" by (simp add: identity_of_def)
  have "lease_files (qe_codec env) (dl_identity d) (lease_index_path (dl_lid d)) \<noteq> None"
    using manifest_in_files [of "qe_codec env" "dl_identity d"] by (simp add: id)
  then show ?thesis
    using rolling_cell(2) [OF assms(2), of "IndexCell (lease_index_path (dl_lid d))"] assms(1)
    by (auto simp: id deletion_ok_def)
qed

lemma dl_torn:
  assumes "deletion_ok env d" "dl_mixed env d \<sigma>"
  shows "torn (map snd (dl_pairs d)) (capacity_of \<sigma>)"
  using rolling_torn [OF assms(2), of "dl_before d" "dl_after d"] assms(1) by (simp add: deletion_ok_def)

lemma dl_pairs_ok:
  assumes "deletion_ok env d"
  shows "transition_names (dl_pairs d)" "\<forall>(name, p) \<in> set (dl_pairs d). bound_pair p" "distinct (map fst (dl_pairs d))"
  using assms by (auto simp: deletion_ok_def transition_names_def)

text \<open>From every mixture the remaining steps reach the content from after.\<close>

lemma dl_converges:
  assumes "dl_mixed env d \<sigma>"
  shows "(with_pair (dl_after d) (clear_files (qe_codec env) (dl_identity d)
      (\<sigma>(LeaseCell (dl_lid d) := None, JobLeaseCell (dl_jid d, dl_lid d) := None))))
      (IntentCell (dl_path d) := dl_base d (IntentCell (dl_path d))) = dl_removed env d" (is "?l = _")
proof (rule ext)
  fix c
  show "?l c = dl_removed env d c"
  proof (cases "c = IntentCell (dl_path d)")
    case False
    from rolling_cell(2) [OF assms False] False show ?thesis
      by (cases c) (auto simp: clear_files_def split: if_splits)
  qed simp
qed

lemma runs_delete_steps:
  fixes env :: "'x queue_env"
  assumes ok: "deletion_ok env d" and mixed: "dl_mixed env d \<sigma>"
    and P: "\<And>\<rho>. dl_mixed env d \<rho> \<Longrightarrow> P \<rho>" and Q: "Q () (dl_removed env d)"
  shows "runs P \<sigma> (mbind (unlink_lease (dl_lid d)) (\<lambda>_. mbind (unlink_job_lease (dl_jid d) (dl_lid d)) (\<lambda>_.
    mbind (delete_operational_indexes env (dl_identity d) False) (\<lambda>_.
    mbind (apply_capacity_transition (transition_json (dl_pairs d)) ''after'' label) (\<lambda>_.
    unlink_intent (dl_path d)))))) Q"
proof -
  let ?u = "\<sigma>(LeaseCell (dl_lid d) := None)"
  let ?v = "?u(JobLeaseCell (dl_jid d, dl_lid d) := None)"
  let ?w = "clear_files (qe_codec env) (dl_identity d) ?v"
  let ?x = "?w(AggregateCell \<mapsto> aggregate_value (dl_after d))"
  have wf: "wf_identity (qe_codec env) (dl_identity d)" using ok by (simp add: deletion_ok_def)
  then have dur: "durable_id (dl_jid d)" "durable_id (dl_lid d)" by (simp_all add: wf_identity_def identity_of_def)
  have u: "dl_mixed env d ?u" by (rule rolling_upd [OF mixed]) simp_all
  have v: "dl_mixed env d ?v" by (rule rolling_upd [OF u]) simp_all
  have w: "dl_mixed env d ?w" by (rule dl_clear_mixed [OF v])
  have x: "dl_mixed env d ?x" by (rule rolling_upd [OF w]) simp_all
  have y: "dl_mixed env d (with_pair (dl_after d) ?w)"
    unfolding with_pair_def by (rule rolling_upd [OF x]) simp_all
  have z: "(with_pair (dl_after d) ?w)(IntentCell (dl_path d) := None) = dl_removed env d"
    using dl_converges [OF mixed] ok by (simp add: deletion_ok_def)
  show ?thesis
    by (rule runs_mbind, rule runs_writes(9), rule P [OF mixed], rule runs_mbind, rule runs_job_lease(2) [OF dur],
        rule P [OF u], rule runs_mbind, rule runs_delete_indexes [OF wf], rule dl_manifest [OF ok v],
        erule P [OF rolling_between [OF v w]], rule runs_mbind,
        rule runs_apply_capacity [OF dl_pairs_ok [OF ok], of "''after''" "dl_after d"], simp, rule dl_torn [OF ok w],
        rule P [OF w], rule P [OF x], rule runs_writes(10), rule P [OF y], unfold z, rule Q)
qed

section \<open>Replay\<close>

lemma validate_identity_of: "validate_lease_index_identity l (identity_of l j) = Inr ()"
  by (simp add: validate_lease_index_identity_def identity_of_def check_def)

lemma durable_nonempty: "durable_id k \<Longrightarrow> k \<noteq> []"
  by (auto simp: durable_id_pattern DURABLE_RECORD_ID_PATTERN_def)

lemma runs_replay_delete:
  fixes env :: "'x queue_env"
  assumes ok: "deletion_ok env d" and mixed: "dl_mixed env d \<sigma>" and Q: "\<And>jobs. Q jobs (dl_removed env d)"
  shows "runs (dl_mixed env d) \<sigma> (reconcile_transition_intents env) Q"
proof (rule runs_replay_one)
  have wf: "wf_identity (qe_codec env) (dl_identity d)" using ok by (simp add: deletion_ok_def)
  then have dur: "durable_id (dl_jid d)" "durable_id (dl_lid d)" by (simp_all add: wf_identity_def identity_of_def)
  show "\<sigma> (IntentCell n) = (if n = dl_path d then Some (IntentV (dl_intent env d)) else None)" for n
    by (rule rolling_intents [OF mixed]) (use ok in \<open>simp_all add: deletion_ok_def\<close>)
  show "dl_intent env d \<noteq> BadIntent e" for e by (simp add: dl_intent_def)
  have doc: "lease_index_identity_from_document (iso_parse (qe_codec env))
      (lease_index_document (iso_format (qe_codec env)) (dl_identity d)) label = Inr (dl_identity d)" for label
    by (rule document_round_trip [OF wf])
  have ne: "dl_lid d \<noteq> [] \<and> dl_jid d \<noteq> []" using dur durable_nonempty by blast
  define P where "P = dl_mixed env d"
  have core: "runs P \<sigma> (mbind (unlink_lease (dl_lid d)) (\<lambda>_. mbind (unlink_job_lease (dl_jid d) (dl_lid d)) (\<lambda>_.
      mbind (delete_operational_indexes env (dl_identity d) False) (\<lambda>_.
      mbind (apply_capacity_transition (transition_json (dl_pairs d)) ''after'' label) (\<lambda>_.
      unlink_intent (dl_path d)))))) (\<lambda>_ \<tau>. \<tau> = dl_removed env d)" for label
    by (rule runs_delete_steps [OF ok mixed]) (simp_all add: P_def)
  have "runs P \<sigma> (mbind (mbind (unlink_lease (dl_lid d)) (\<lambda>_. mbind (unlink_job_lease (dl_jid d) (dl_lid d)) (\<lambda>_.
      mbind (delete_operational_indexes env (dl_identity d) False) (\<lambda>_.
      mbind (apply_capacity_transition (transition_json (dl_pairs d)) ''after'' label) (\<lambda>_.
      unlink_intent (dl_path d)))))) (\<lambda>_. mret [])) Q" for label
    by (rule runs_mbind, rule runs_weaken [OF core], rule runs_mret, use Q in simp)
  note steps = this [unfolded mbind_assoc]
  show "runs (dl_mixed env d) \<sigma> (replay_intent env (dl_path d, dl_intent env d)) Q"
    unfolding P_def [symmetric] unfolding dl_intent_def replay_intent.simps replay_lease_delete_def finish_capacity_def option.case prod.case
      mbind_assoc mbind_mret
    by (rule runs_mbind, rule runs_mcheck, rule ne, rule runs_mbind, rule runs_qlift, rule doc, rule runs_mbind,
        rule runs_qlift, rule validate_identity_of, rule runs_mbind, rule runs_mcheck, simp, rule steps)
qed

interpretation deletion: journaled env "\<lambda>\<tau>. deletion_ok env d \<and> dl_mixed env d \<tau>" "\<lambda>\<tau>. \<tau> = dl_removed env d" for env d
proof unfold_locales
  fix \<sigma> assume *: "deletion_ok env d \<and> dl_mixed env d \<sigma>"
  then have "runs (dl_mixed env d) \<sigma> (reconcile_transition_intents env) (\<lambda>_ \<tau>. \<tau> = dl_removed env d)"
    by (intro runs_replay_delete) simp_all
  then show "runs (\<lambda>\<tau>. deletion_ok env d \<and> dl_mixed env d \<tau>) \<sigma> (reconcile_transition_intents env)
      (\<lambda>_ \<tau>. \<tau> = dl_removed env d)"
    by (rule runs_weaken_crash) (use * in simp)
qed

section \<open>Deleting one lease of a settled store\<close>

definition deletes ::
  "'x queue_env \<Rightarrow> LeaseIndexIdentity set \<Rightarrow> content \<Rightarrow> LeaseIndexIdentity \<Rightarrow> deletion \<Rightarrow> bool" where
  "deletes env L \<sigma> i d \<longleftrightarrow> deletion_ok env d \<and> dl_base d = \<sigma> \<and> dl_identity d = i \<and> counts_of (L - {i}) (dl_after d)"

lemma settled_removed:
  assumes \<sigma>: "settled env L D \<sigma>" and i: "i \<in> L" and d: "deletes env L \<sigma> i d"
  shows "settled env (L - {i}) D (dl_removed env d)"
proof -
  have base [simp]: "dl_base d = \<sigma>" and id: "dl_identity d = i" using d by (simp_all add: deletes_def)
  have ids: "dl_lid d = li_lease_id i" "dl_jid d = li_job_id i" using id by (auto simp: identity_of_def)
  have rec: "records_ok L \<sigma>" and files: "files_ok (qe_codec env) L \<sigma>" using \<sigma> by (simp_all add: settled_def)
  have other: "li_lease_id j \<noteq> li_lease_id i" if "j \<in> L - {i}" for j
    using lease_id_determines [OF files, of j i] i that by auto
  have "files_ok (qe_codec env) (L - {i}) (dl_removed env d)"
    by (rule files_ok_remove [OF files]) (use i in \<open>auto simp: id\<close>)
  moreover have "records_ok (L - {i}) (dl_removed env d)"
    unfolding records_ok_def
  proof (intro conjI ballI allI impI)
    fix j assume j: "j \<in> L - {i}"
    then show "\<exists>l b. dl_removed env d (LeaseCell (li_lease_id j)) = Some (LeaseV l)
        \<and> dl_removed env d (JobLeaseCell (li_job_id j, li_lease_id j)) = Some (LeaseV l)
        \<and> dl_removed env d (JobCell (li_job_id j)) = Some (JobV b) \<and> identity_of l b = j"
      using rec other [OF j] by (auto simp: ids records_ok_def)
  next
    fix k assume "dl_removed env d (LeaseCell k) \<noteq> None"
    then show "\<exists>j \<in> L - {i}. li_lease_id j = k"
      using rec unfolding records_ok_def by (auto simp: ids split: if_splits)
  next
    fix jk assume "dl_removed env d (JobLeaseCell jk) \<noteq> None"
    then show "\<exists>j \<in> L - {i}. (li_job_id j, li_lease_id j) = jk"
      using rec unfolding records_ok_def by (cases jk) (fastforce simp: ids split: if_splits)
  qed
  moreover have "capacity_ok (L - {i}) (dl_after d) (dl_removed env d)"
    using d by (simp add: capacity_ok_def deletes_def deletion_ok_def)
  moreover have "jobs_ok D (dl_removed env d)" using \<sigma> by (simp add: settled_def jobs_ok_def synced_def)
  moreover have "dl_removed env d (IntentCell n) = None" for n using \<sigma> by (simp add: settled_def)
  ultimately show ?thesis by (auto simp: settled_def)
qed

lemma runs_read_identity:
  assumes "wf_identity codec i" "li_lease_id i = k"
    and "\<sigma> (IndexCell (lease_index_path k)) = Some (NodeV (LDoc (lease_index_document (iso_format codec) i)))"
    and "Q i \<sigma>"
  shows "runs P \<sigma> (read_index (read_lease_index_identity codec k)) Q"
proof (rule runs_read_index)
  fix fs assume fs: "fs_ok fs" and view: "\<And>p. \<sigma> (IndexCell p) = map_option NodeV (file_view fs p)"
  have "file_view fs (lease_index_path (li_lease_id i)) = Some (LDoc (lease_index_document (iso_format codec) i))"
    using view assms(2,3) by simp
  from read_manifest [OF fs assms(1) this] fs assms(2,4)
  show "\<exists>x fs'. read_lease_index_identity codec k fs = (Inr x, fs') \<and> fs_ok fs' \<and> file_view fs' = file_view fs \<and> Q x \<sigma>"
    by (auto simp: read_lease_index_identity_def mbind_app)
qed

lemma runs_resolve_identity:
  fixes env :: "'x queue_env"
  assumes "job = None \<and> \<sigma> (JobCell (le_job_id l)) = Some (JobV j) \<or> job = Some j"
    and "rj_job_id j = le_job_id l" "wf_identity (qe_codec env) (identity_of l j)" "Q (identity_of l j) \<sigma>"
  shows "runs P \<sigma> (resolve_lease_identity env l job None) Q"
proof -
  have id: "lease_index_identity l j = Inr (identity_of l j)"
    using lease_index_identity_eq [of l j "qe_codec env"] assms(2,3) by simp
  have dur: "durable_id (le_job_id l)" using assms(3) by (simp add: wf_identity_def identity_of_def)
  show ?thesis
  proof (cases job)
    case (Some j')
    then have "job = Some j" using assms(1) by simp
    then show ?thesis
      unfolding resolve_lease_identity_def by (simp only: option.case prod.case) (rule runs_qlift [OF id], rule assms(4))
  next
    case None
    then have cell: "\<sigma> (JobCell (le_job_id l)) = Some (JobV j)" using assms(1) by simp
    have get: "runs P \<sigma> (get_job (le_job_id l)) (\<lambda>x \<tau>. x = j \<and> \<tau> = \<sigma>)"
      by (rule runs_get_job, rule cell, rule assms(2), rule dur) simp
    show ?thesis
    proof (rule runsI)
      fix s :: "'x queue_state" assume h: "holds \<sigma> s"
      obtain r s' where g: "get_job (le_job_id l) s = (r, s')" by fastforce
      show "good_outcome P Q (qs_budget s) (fst (resolve_lease_identity env l job None s))
          (snd (resolve_lease_identity env l job None s))"
        using runsD [OF get h g] assms(4)
        by (cases r; cases "projl r")
           (auto simp: None resolve_lease_identity_def g id qlift_def mlift_def)
    qed
  qed
qed

definition dl_crashed ::
  "'x queue_env \<Rightarrow> LeaseIndexIdentity set \<Rightarrow> content \<Rightarrow> LeaseIndexIdentity \<Rightarrow> content \<Rightarrow> bool" where
  "dl_crashed env L \<sigma> i \<tau> \<longleftrightarrow> \<tau> = \<sigma> \<or> (\<exists>d. deletes env L \<sigma> i d \<and> (dl_mixed env d \<tau> \<or> \<tau> = dl_removed env d))"

lemma card_scope_remove:
  assumes "finite L" "i \<in> L"
  shows "int (card {j \<in> L - {i}. lease_cluster_token (li_cluster j) = t \<and> li_job_kind j = k})
    = int (card {j \<in> L. lease_cluster_token (li_cluster j) = t \<and> li_job_kind j = k})
      + (if t = lease_cluster_token (li_cluster i) \<and> k = li_job_kind i then - 1 else 0)"
  using card_scope [of "L - {i}" i t k] assms by (auto simp: insert_absorb)

lemma settled_lease:
  assumes "settled env L D \<sigma>" "i \<in> L"
  obtains l j where "\<sigma> (LeaseCell (li_lease_id i)) = Some (LeaseV l)"
    "\<sigma> (JobLeaseCell (li_job_id i, li_lease_id i)) = Some (LeaseV l)"
    "\<sigma> (JobCell (le_job_id l)) = Some (JobV j)" "identity_of l j = i" "le_lease_id l = li_lease_id i"
    "le_job_id l = li_job_id i" "wf_identity (qe_codec env) i" "rj_job_id j = le_job_id l"
    "\<sigma> (IndexCell (lease_index_path (le_lease_id l))) = Some (NodeV (LDoc (lease_index_document (iso_format (qe_codec env)) i)))"
proof -
  have rec: "records_ok L \<sigma>" and files: "files_ok (qe_codec env) L \<sigma>" and jobs: "jobs_ok D \<sigma>"
    using assms(1) by (simp_all add: settled_def)
  from records_ok_lease [OF rec files assms(2)] obtain l j where
    c: "\<sigma> (LeaseCell (li_lease_id i)) = Some (LeaseV l)" "\<sigma> (JobLeaseCell (li_job_id i, li_lease_id i)) = Some (LeaseV l)"
      "\<sigma> (JobCell (li_job_id i)) = Some (JobV j)" "identity_of l j = i" "le_lease_id l = li_lease_id i"
      "le_job_id l = li_job_id i" "wf_identity (qe_codec env) i" by blast
  have "\<sigma> (IndexCell (lease_index_path (li_lease_id i))) =
      Some (NodeV (LDoc (lease_index_document (iso_format (qe_codec env)) i)))"
    using files assms(2) manifest_in_files [of "qe_codec env" i] unfolding files_ok_def by blast
  moreover have "rj_job_id j = li_job_id i" using jobs_okD [OF jobs c(3)] by simp
  ultimately show ?thesis using c by (intro that [of l j]) simp_all
qed

lemma runs_delete_lease:
  fixes env :: "'x queue_env"
  assumes env: "env_ok env" and \<sigma>: "settled env L D \<sigma>" and i: "i \<in> L"
    and l: "\<sigma> (LeaseCell (li_lease_id i)) = Some (LeaseV l)"
    and job: "job = None \<or> (\<exists>j. job = Some j \<and> \<sigma> (JobCell (le_job_id l)) = Some (JobV j))"
    and Q: "\<And>d. deletes env L \<sigma> i d \<Longrightarrow> Q () (dl_removed env d)"
  shows "runs (dl_crashed env L \<sigma> i) \<sigma> (delete_lease env l job None None True) Q" (is "runs ?P _ _ _")
proof -
  from settled_lease [OF \<sigma> i] l obtain j where
    c: "\<sigma> (JobCell (le_job_id l)) = Some (JobV j)" "identity_of l j = i" "le_lease_id l = li_lease_id i"
      "le_job_id l = li_job_id i" "wf_identity (qe_codec env) i" "rj_job_id j = le_job_id l"
      "\<sigma> (IndexCell (lease_index_path (le_lease_id l))) = Some (NodeV (LDoc (lease_index_document (iso_format (qe_codec env)) i)))"
    by (metis cell_value.inject(2) option.inject)
  have job': "job = None \<and> \<sigma> (JobCell (le_job_id l)) = Some (JobV j) \<or> job = Some j" using job c(1) by auto
  obtain p where p: "capacity_ok L p \<sigma>" using \<sigma> by (auto simp: settled_def)
  have fin: "finite L" by (rule settled_finite [OF \<sigma>])
  have small: "int (card L) \<le> MAX_LIVE_LEASE_RECORDS"
    using p bound_pair_counts [of p] by (auto simp: capacity_ok_def counts_of_def valid_counts_def)
  have valid: "validate_lease_index_identity l i = Inr ()" using validate_identity_of [of l j] c(2) by simp
  have size: "int (card (L - {i})) = int (card L) + - 1" using fin i by (simp add: card_Diff_singleton card_gt_0_iff of_nat_diff)
       (metis One_nat_def Suc_leI card_gt_0_iff empty_iff of_nat_1 of_nat_diff)
  have tail: "runs ?P \<sigma> (mbind (write_transition_intent env ''lease_delete'' (le_lease_id l)
        (LeaseDeleteIntent (le_job_id l) (le_lease_id l) (Some l)
           (Some (lease_index_document (iso_format (qe_codec env)) i)) (Some t))) (\<lambda>path.
      mbind (unlink_lease (le_lease_id l)) (\<lambda>_. mbind (unlink_job_lease (le_job_id l) (le_lease_id l)) (\<lambda>_.
      mbind (delete_operational_indexes env i False) (\<lambda>_.
      mbind (apply_capacity_transition t ''after'' (''lease deletion '' @ le_lease_id l)) (\<lambda>_. unlink_intent path)))))) Q"
    if t: "t = transition_json [(''before'', before), (''after'', after)]" and pairs: "bound_pair before" "bound_pair after"
      "aggregate_value before = aggregate_value p" "checkpoint_value before = checkpoint_value p"
      "counts_of (L - {i}) after" for t before after
  proof -
    define d where "d = \<lparr>dl_base = \<sigma>, dl_job = j, dl_lease = l, dl_before = before, dl_after = after\<rparr>"
    have d: "deletes env L \<sigma> i d" and ok: "deletion_ok env d"
      using env c pairs p \<sigma> by (simp_all add: d_def deletes_def deletion_ok_def settled_def capacity_ok_def)
    have fields: "dl_lease d = l" "dl_job d = j" "dl_before d = before" "dl_after d = after" by (simp_all add: d_def)
    have start: "\<sigma>(IntentCell (intent_name ''lease_delete'' (le_lease_id l)) \<mapsto> IntentV (LeaseDeleteIntent (le_job_id l)
        (le_lease_id l) (Some l) (Some (lease_index_document (iso_format (qe_codec env)) i)) (Some t)))
        = (dl_base d)(IntentCell (dl_path d) \<mapsto> IntentV (dl_intent env d))" (is "?\<sigma> = _")
      by (simp add: d_def dl_intent_def c(2) t)
    have mixed: "dl_mixed env d ?\<sigma>" unfolding start by (rule rolling_start)
    have P: "?P \<rho>" if "dl_mixed env d \<rho>" for \<rho> using d that by (auto simp: dl_crashed_def)
    have steps: "runs ?P ?\<sigma> (mbind (unlink_lease (dl_lid d)) (\<lambda>_. mbind (unlink_job_lease (dl_jid d) (dl_lid d)) (\<lambda>_.
        mbind (delete_operational_indexes env (dl_identity d) False) (\<lambda>_.
        mbind (apply_capacity_transition (transition_json (dl_pairs d)) ''after'' label) (\<lambda>_.
        unlink_intent (dl_path d)))))) Q" for label
      by (rule runs_delete_steps [OF ok mixed], erule P, rule Q [OF d])
    show ?thesis
      by (rule runs_mbind, rule runs_write_intent, simp add: dl_crashed_def, rule steps [unfolded fields c(2) t [symmetric]])
  qed
  have prep: "runs ?P \<sigma> (mbind (prepare_capacity_transition env [((li_cluster i, li_job_kind i), - 1)] False) (\<lambda>t.
      mbind (write_transition_intent env ''lease_delete'' (le_lease_id l)
        (LeaseDeleteIntent (le_job_id l) (le_lease_id l) (Some l)
           (Some (lease_index_document (iso_format (qe_codec env)) i)) (Some t))) (\<lambda>path.
      mbind (unlink_lease (le_lease_id l)) (\<lambda>_. mbind (unlink_job_lease (le_job_id l) (le_lease_id l)) (\<lambda>_.
      mbind (delete_operational_indexes env i False) (\<lambda>_.
      mbind (apply_capacity_transition t ''after'' (''lease deletion '' @ le_lease_id l)) (\<lambda>_. unlink_intent path))))))) Q"
  proof (rule runs_mbind, rule runs_prepare_delta [OF env p, where L' = "L - {i}"])
    show "int (card (L - {i})) = int (card L) + - 1" by (rule size)
    show "int (card (L - {i})) \<le> MAX_LIVE_LEASE_RECORDS" using small size by simp
  qed (simp, rule card_scope_remove [OF fin i], simp only: if_False append_Nil2, rule tail, rule refl, assumption+)
  show ?thesis
    unfolding delete_lease_def option.case prod.case mbind_assoc mbind_mret not_True_eq_False if_False
  proof (rule runs_mbind, rule runs_resolve_identity, rule job', rule c(6), simp add: c, unfold c(2), rule runs_mbind,
      rule runs_qlift, rule valid, rule runs_mget, goal_cases)
    case (1 s)
    have present: "map_of (qs_index s) (lease_index_path (le_lease_id l)) \<noteq> None" using index_lookup [OF 1] c(7) by simp
    show ?case
      unfolding if_P [OF present] mbind_assoc
      by (rule runs_mbind, rule runs_read_identity [OF c(5) c(3) [symmetric]], rule c(7), rule runs_mbind,
          rule runs_mcheck, rule refl, rule prep)
  qed
qed

section \<open>Release is crash-safe\<close>

definition released ::
  "'x queue_env \<Rightarrow> LeaseIndexIdentity set \<Rightarrow> LeaseIndexIdentity \<Rightarrow> content \<Rightarrow> content \<Rightarrow> bool" where
  "released env L i \<sigma> \<tau> \<longleftrightarrow> settled env (L - {i}) {} \<tau>
     \<and> (\<forall>k. \<tau> (JobCell k) = \<sigma> (JobCell k)) \<and> (\<forall>ke. \<tau> (EventCell ke) = \<sigma> (EventCell ke))
     \<and> (\<forall>k. \<tau> (LeaseCell k) = (if k = li_lease_id i then None else \<sigma> (LeaseCell k)))"

lemma deletes_released:
  assumes "settled env L {} \<sigma>" "i \<in> L" "deletes env L \<sigma> i d"
  shows "released env L i \<sigma> (dl_removed env d)"
  using settled_removed [OF assms] assms(3) by (auto simp: released_def deletes_def identity_of_def)

lemma dl_recovers:
  fixes env :: "'x queue_env"
  assumes \<sigma>: "settled env L {} \<sigma>" and i: "i \<in> L" and crashed: "dl_crashed env L \<sigma> i (cells s)" and wf: "wf_store s"
  shows "\<exists>jobs s'. restarts env bs s = (Inr jobs, s') \<and> (cells s' = \<sigma> \<or> released env L i \<sigma> (cells s'))"
proof -
  have none: "\<sigma> (IntentCell n) = None" for n using \<sigma> by (simp add: settled_def)
  consider (before) "cells s = \<sigma>" | (mixed) d where "deletes env L \<sigma> i d" "dl_mixed env d (cells s)"
    | (finished) d where "deletes env L \<sigma> i d" "cells s = dl_removed env d"
    using crashed by (auto simp: dl_crashed_def)
  then show ?thesis
  proof cases
    case before
    with empty_journal.recovers [where \<sigma> = \<sigma> and s = s and env = env and bs = bs] none wf show ?thesis by metis
  next
    case (mixed d)
    then have "deletion_ok env d \<and> dl_mixed env d (cells s)" by (simp add: deletes_def)
    from deletion.recovers [OF this wf, of bs] deletes_released [OF \<sigma> i mixed(1)] show ?thesis by metis
  next
    case (finished d)
    have "dl_removed env d (IntentCell n) = None" for n using finished(1) none by (simp add: deletes_def)
    with empty_journal.recovers [where \<sigma> = "dl_removed env d" and s = s and env = env and bs = bs] finished wf
      deletes_released [OF \<sigma> i finished(1)] show ?thesis by metis
  qed
qed

lemma runs_opening:
  fixes env :: "'x queue_env"
  assumes "env_ok env" "\<And>n. \<sigma> (IntentCell n) = None" "P \<sigma>" "runs P \<sigma> m Q"
  shows "runs P \<sigma> (mbind (initialize_queue env) (\<lambda>_. mbind (reconcile_transition_intents env) (\<lambda>_. m))) Q"
  unfolding initialize_queue_def
  by (rule runs_mbind, rule runs_on_other, rule assms(3), rule env_steps(1) [OF assms(1)], rule runs_mbind,
      rule runs_replay_none, rule assms(2), rule assms(4))

text \<open>
  C5: releasing a lease is crash-safe. From a settled store holding the leases \<open>L\<close>, releasing the
  lease of \<open>i \<in> L\<close> either completes, and the store is settled with exactly the other leases, every
  job and event untouched; or it crashes, and after any number of interrupted restarts the next
  complete replay leaves either the content from before, unchanged, or the completed release.
  Releasing a lease that does not exist changes nothing.
\<close>

theorem lease_release_crash_safe:
  fixes env :: "'x queue_env"
  assumes env: "env_ok env" and h: "holds \<sigma> s" and \<sigma>: "settled env L {} \<sigma>" and k: "durable_id k"
    and run: "release_lease env k s = (r, s')"
  shows "if \<exists>i \<in> L. li_lease_id i = k
    then \<exists>i \<in> L. li_lease_id i = k \<and> (r = Inr () \<and> released env L i \<sigma> (cells s')
      \<or> r = Inl Crashed \<and> qs_budget s \<noteq> None \<and> (\<forall>bs. \<exists>jobs s''. restarts env bs s' = (Inr jobs, s'')
          \<and> (cells s'' = \<sigma> \<or> released env L i \<sigma> (cells s''))))
    else (r = Inr () \<or> r = Inl Crashed \<and> qs_budget s \<noteq> None) \<and> cells s' = \<sigma>"
proof (cases "\<exists>i \<in> L. li_lease_id i = k")
  case True
  then obtain i where i: "i \<in> L" "li_lease_id i = k" by blast
  from settled_lease [OF \<sigma> i(1)] obtain l where l: "\<sigma> (LeaseCell (li_lease_id i)) = Some (LeaseV l)"
    "le_lease_id l = li_lease_id i" by metis
  have "runs (dl_crashed env L \<sigma> i) \<sigma> (release_lease env k) (\<lambda>_. released env L i \<sigma>)"
    unfolding release_lease_def
    by (rule runs_mbind, rule runs_qlift, rule require_durable_id [OF k], rule runs_opening [OF env],
        use \<sigma> in \<open>simp add: settled_def\<close>, simp add: dl_crashed_def, rule runs_mbind,
        rule runs_read_lease [where r = "Some l"], simp add: l flip: i(2), simp add: l k i(2), simp only: option.case,
        rule runs_mbind, rule runs_mcheck, simp add: l i(2), rule runs_delete_lease [OF env \<sigma> i(1) l(1)], simp,
        rule deletes_released [OF \<sigma> i(1)])
  from runs_outcome [OF this h run] dl_recovers [OF \<sigma> i(1), of s'] i show ?thesis by auto
next
  case False
  then have none: "\<sigma> (LeaseCell k) = None" using \<sigma> by (auto simp: settled_def records_ok_def)
  have "runs (\<lambda>\<tau>. \<tau> = \<sigma>) \<sigma> (release_lease env k) (\<lambda>_ \<tau>. \<tau> = \<sigma>)"
    unfolding release_lease_def
    by (rule runs_mbind, rule runs_qlift, rule require_durable_id [OF k], rule runs_opening [OF env],
        use \<sigma> in \<open>simp add: settled_def\<close>, simp, rule runs_mbind, rule runs_read_lease [where r = None],
        simp add: none, simp, simp only: option.case, rule runs_mret, simp)
  from runs_outcome [OF this h run] False show ?thesis by auto
qed

lemma demo_granted:
  "\<exists>p lease s. lease_job demo_env demo_owned_job ''worker_a'' 300 None (demo_state p None) = (Inr lease, s)
     \<and> wf_store s \<and> qs_budget s = None \<and> granted demo_env {} demo_owned_job ''worker_a'' lease (cells s)
     \<and> (\<exists>e. event_log 0 (cells s) ''job_a'' [e])"
proof -
  obtain p where p: "bound_pair p" "ca_cluster_kind_counts (cp_aggregate p) = []" using empty_pair by auto
  have job: "cells (demo_state p None) (JobCell (rj_job_id demo_owned_job)) = Some (JobV demo_owned_job)"
    "rj_state demo_owned_job = QUEUED" "rj_kind demo_owned_job \<noteq> INPUT_INGEST"
    by (simp_all add: demo_state_def demo_owned_job_def)
  have bound: "int (card ({} :: LeaseIndexIdentity set)) < MAX_LIVE_LEASE_RECORDS"
    by (simp add: MAX_LIVE_LEASE_RECORDS_def MAX_ACTIVE_JOB_RECORDS_def)
  have lag: "0 < DEFAULT_EXACT_RECORD_LIMIT" by (simp add: DEFAULT_EXACT_RECORD_LIMIT_def)
  have log: "event_log 0 (cells (demo_state p None)) (rj_job_id demo_owned_job) []"
    using demo_event_log by (simp del: cells.simps)
  note settled = demo_settled [OF p, of None]
  have "runs (\<lambda>\<tau>. \<exists>a. acquires demo_env {} (cells (demo_state p None)) demo_owned_job ''worker_a'' a \<and> aq_crashed demo_env a 0 [] \<tau>)
      (cells (demo_state p None)) (lease_job demo_env demo_owned_job ''worker_a'' 300 None)
      (\<lambda>lease \<tau>. granted demo_env {} demo_owned_job ''worker_a'' lease \<tau> \<and> (\<exists>e. event_log 0 \<tau> ''job_a'' [e]))"
    by (rule runs_lease_job [OF demo_queue_env_ok settled bound job demo_draws log lag])
       (use acquires_granted [OF settled] in auto)
  then show ?thesis
    by (rule runs_uninterrupted [OF _ demo_state_wf]) (simp add: demo_state_def, blast)
qed

theorem lease_release_crash_safe_witness:
  "\<exists>p lease s s' i. lease_job demo_env demo_owned_job ''worker_a'' 300 None (demo_state p None) = (Inr lease, s)
     \<and> release_lease demo_env (le_lease_id lease) s = (Inr (), s') \<and> released demo_env {i} i (cells s) (cells s')"
proof -
  obtain p lease s where s: "lease_job demo_env demo_owned_job ''worker_a'' 300 None (demo_state p None) = (Inr lease, s)"
    "wf_store s" "qs_budget s = None" "granted demo_env {} demo_owned_job ''worker_a'' lease (cells s)"
    using demo_granted by blast
  let ?i = "identity_of lease demo_owned_job"
  obtain r s' where run: "release_lease demo_env (le_lease_id lease) s = (r, s')" by fastforce
  have h: "holds (cells s) s" using s(2) by (simp add: holds_def)
  have settled: "settled demo_env {?i} {} (cells s)" using s(4) by (simp add: granted_def)
  have id: "li_lease_id ?i = le_lease_id lease" by (simp add: identity_of_def)
  then have k: "durable_id (le_lease_id lease)"
    using settled by (auto simp: settled_def files_ok_def wf_identity_def)
  have "r = Inr () \<and> released demo_env {?i} ?i (cells s) (cells s')"
    using lease_release_crash_safe [OF demo_queue_env_ok h settled k run] s(3) id by auto
  with s(1) run show ?thesis by blast
qed

end
