(* ===== verification/LeaseRenewal.thy ===== *)
theory LeaseRenewal
  imports LeaseDeletion
begin

text \<open>
  Crash safety of lease renewal. A renewal replaces the record of one lease by one with a later
  expiry and moves the index references whose names carry the expiry; like a deletion it only
  rolls forward.
\<close>

section \<open>One renewal\<close>

record renewal =
  rn_base :: content
  rn_job :: RelayJob
  rn_old :: Lease
  rn_new :: Lease
  rn_before :: LeaseCapacityPair
  rn_after :: LeaseCapacityPair

abbreviation rn_lid :: "renewal \<Rightarrow> string" where "rn_lid n \<equiv> le_lease_id (rn_new n)"
abbreviation rn_jid :: "renewal \<Rightarrow> string" where "rn_jid n \<equiv> le_job_id (rn_new n)"
abbreviation rn_from :: "renewal \<Rightarrow> LeaseIndexIdentity" where "rn_from n \<equiv> identity_of (rn_old n) (rn_job n)"
abbreviation rn_to :: "renewal \<Rightarrow> LeaseIndexIdentity" where "rn_to n \<equiv> identity_of (rn_new n) (rn_job n)"
abbreviation rn_pairs :: "renewal \<Rightarrow> (string \<times> LeaseCapacityPair) list" where
  "rn_pairs n \<equiv> [(''before'', rn_before n), (''after'', rn_after n)]"
abbreviation rn_path :: "renewal \<Rightarrow> string" where "rn_path n \<equiv> intent_name ''lease_sync'' (rn_lid n)"

definition rn_intent :: "renewal \<Rightarrow> queue_intent" where
  "rn_intent n = LeaseSyncIntent (rn_new n) (rn_old n) (rn_job n) (Some (transition_json (rn_pairs n)))"

definition renewal_ok :: "'x queue_env \<Rightarrow> renewal \<Rightarrow> bool" where
  "renewal_ok env n \<longleftrightarrow>
     env_ok env \<and> wf_identity (qe_codec env) (rn_from n) \<and> wf_identity (qe_codec env) (rn_to n)
     \<and> rn_jid n = rj_job_id (rn_job n) \<and> le_lease_id (rn_old n) = rn_lid n \<and> le_job_id (rn_old n) = rn_jid n
     \<and> le_endpoint_id (rn_old n) = le_endpoint_id (rn_new n)
     \<and> (\<forall>k. rn_base n (IntentCell k) = None)
     \<and> rn_base n (IndexCell (lease_index_path (rn_lid n))) =
          Some (NodeV (LDoc (lease_index_document (iso_format (qe_codec env)) (rn_from n))))
     \<and> bound_pair (rn_before n) \<and> bound_pair (rn_after n)
     \<and> rn_base n AggregateCell = Some (aggregate_value (rn_before n))
     \<and> rn_base n CheckpointCell = Some (checkpoint_value (rn_before n))"

definition rn_moved :: "'x queue_env \<Rightarrow> renewal \<Rightarrow> content" where
  "rn_moved env n = with_pair (rn_after n) (move_files (qe_codec env) (rn_from n) (rn_to n)
     ((rn_base n)(LeaseCell (rn_lid n) \<mapsto> LeaseV (rn_new n), JobLeaseCell (rn_jid n, rn_lid n) \<mapsto> LeaseV (rn_new n))))"

abbreviation rn_mixed :: "'x queue_env \<Rightarrow> renewal \<Rightarrow> content \<Rightarrow> bool" where
  "rn_mixed env n \<equiv> rolling (IntentCell (rn_path n)) (rn_intent n) (rn_base n) (rn_moved env n)"

lemma move_files_cells [simp]:
  "move_files codec j i \<sigma> (IndexCell p) = (case lease_files codec i p of Some n \<Rightarrow> Some (NodeV n)
     | None \<Rightarrow> if p \<in> set (lease_ref_paths j) then None else \<sigma> (IndexCell p))"
  "(\<And>p. c \<noteq> IndexCell p) \<Longrightarrow> move_files codec j i \<sigma> c = \<sigma> c"
  by (auto simp: move_files_def set_files_def over_def no_index_def split: option.splits cell.splits)

lemma rn_moved_cells [simp]:
  "rn_moved env n (JobCell k) = rn_base n (JobCell k)"
  "rn_moved env n (ActiveCell k) = rn_base n (ActiveCell k)"
  "rn_moved env n (QueuedCell k) = rn_base n (QueuedCell k)"
  "rn_moved env n (LeaseCell k) = (if k = rn_lid n then Some (LeaseV (rn_new n)) else rn_base n (LeaseCell k))"
  "rn_moved env n (JobLeaseCell kk) =
     (if kk = (rn_jid n, rn_lid n) then Some (LeaseV (rn_new n)) else rn_base n (JobLeaseCell kk))"
  "rn_moved env n (IndexCell p) = (case lease_files (qe_codec env) (rn_to n) p of Some m \<Rightarrow> Some (NodeV m)
     | None \<Rightarrow> if p \<in> set (lease_ref_paths (rn_from n)) then None else rn_base n (IndexCell p))"
  "rn_moved env n AggregateCell = Some (aggregate_value (rn_after n))"
  "rn_moved env n CheckpointCell = Some (checkpoint_value (rn_after n))"
  "rn_moved env n (IntentCell k) = rn_base n (IntentCell k)"
  "rn_moved env n (EventCell ke) = rn_base n (EventCell ke)"
  "rn_moved env n (JobIndexCell k) = rn_base n (JobIndexCell k)"
  "rn_moved env n (DocCell kd) = rn_base n (DocCell kd)"
  by (simp_all add: rn_moved_def split: option.split)

lemma rn_move_mixed:
  assumes "rn_mixed env n \<sigma>"
  shows "rn_mixed env n (move_files (qe_codec env) (rn_from n) (rn_to n) \<sigma>)"
proof (rule rolling_all [OF assms])
  fix c
  show "move_files (qe_codec env) (rn_from n) (rn_to n) \<sigma> c = rn_moved env n c
      \<or> move_files (qe_codec env) (rn_from n) (rn_to n) \<sigma> c = \<sigma> c"
    by (cases c) (auto split: option.splits)
qed simp

lemma rn_manifest:
  assumes "renewal_ok env n" "rn_mixed env n \<sigma>"
  shows "\<exists>k. \<sigma> (IndexCell (lease_index_path (li_lease_id (rn_to n)))) =
      Some (NodeV (LDoc (lease_index_document (iso_format (qe_codec env)) k)))
    \<and> wf_identity (qe_codec env) k \<and> li_lease_id k = li_lease_id (rn_to n)"
proof -
  have ids: "li_lease_id (rn_to n) = rn_lid n" "li_lease_id (rn_from n) = rn_lid n"
    using assms(1) by (simp_all add: identity_of_def renewal_ok_def)
  have "rn_moved env n (IndexCell (lease_index_path (rn_lid n))) =
      Some (NodeV (LDoc (lease_index_document (iso_format (qe_codec env)) (rn_to n))))"
    using manifest_in_files [of "qe_codec env" "rn_to n"] by (simp add: ids)
  with rolling_cell(2) [OF assms(2), of "IndexCell (lease_index_path (rn_lid n))"] assms(1) show ?thesis
    by (auto simp: ids renewal_ok_def simp del: rn_moved_cells)
qed

lemma rn_torn:
  assumes "renewal_ok env n" "rn_mixed env n \<sigma>"
  shows "torn (map snd (rn_pairs n)) (capacity_of \<sigma>)"
  using rolling_torn [OF assms(2), of "rn_before n" "rn_after n"] assms(1) by (simp add: renewal_ok_def)

lemma rn_pairs_ok:
  assumes "renewal_ok env n"
  shows "transition_names (rn_pairs n)" "\<forall>(name, p) \<in> set (rn_pairs n). bound_pair p" "distinct (map fst (rn_pairs n))"
  using assms by (auto simp: renewal_ok_def transition_names_def)

lemma rn_converges:
  assumes "rn_mixed env n \<sigma>"
  shows "(with_pair (rn_after n) (move_files (qe_codec env) (rn_from n) (rn_to n)
      (\<sigma>(LeaseCell (rn_lid n) \<mapsto> LeaseV (rn_new n), JobLeaseCell (rn_jid n, rn_lid n) \<mapsto> LeaseV (rn_new n)))))
      (IntentCell (rn_path n) := rn_base n (IntentCell (rn_path n))) = rn_moved env n" (is "?l = _")
proof (rule ext)
  fix c
  show "?l c = rn_moved env n c"
  proof (cases "c = IntentCell (rn_path n)")
    case False
    from rolling_cell(2) [OF assms False] False show ?thesis
      by (cases c) (auto split: if_splits option.splits)
  qed simp
qed

lemma runs_renew_steps:
  fixes env :: "'x queue_env"
  assumes ok: "renewal_ok env n" and mixed: "rn_mixed env n \<sigma>"
    and P: "\<And>\<rho>. rn_mixed env n \<rho> \<Longrightarrow> P \<rho>" and Q: "Q () (rn_moved env n)"
  shows "runs P \<sigma> (mbind (write_lease (rn_new n)) (\<lambda>_. mbind (write_job_lease (rn_new n)) (\<lambda>_.
    mbind (sync_lease_operational_indexes env (rn_new n) (rn_job n) (Some (rn_old n))) (\<lambda>_.
    mbind (apply_capacity_transition (transition_json (rn_pairs n)) ''after'' label) (\<lambda>_.
    unlink_intent (rn_path n)))))) Q"
proof -
  let ?u = "\<sigma>(LeaseCell (rn_lid n) \<mapsto> LeaseV (rn_new n))"
  let ?v = "?u(JobLeaseCell (rn_jid n, rn_lid n) \<mapsto> LeaseV (rn_new n))"
  let ?w = "move_files (qe_codec env) (rn_from n) (rn_to n) ?v"
  let ?x = "?w(AggregateCell \<mapsto> aggregate_value (rn_after n))"
  have wf: "wf_identity (qe_codec env) (rn_to n)" "wf_identity (qe_codec env) (rn_from n)"
    and jid: "rn_jid n = rj_job_id (rn_job n)" and same: "le_lease_id (rn_old n) = rn_lid n" "le_job_id (rn_old n) = rn_jid n"
      "le_endpoint_id (rn_old n) = le_endpoint_id (rn_new n)" using ok by (simp_all add: renewal_ok_def)
  have dur: "durable_id (rn_jid n)" "durable_id (rn_lid n)" using wf(1) by (simp_all add: wf_identity_def identity_of_def)
  have ids: "lease_index_identity (rn_new n) (rn_job n) = Inr (rn_to n)"
    "lease_index_identity (rn_old n) (rn_job n) = Inr (rn_from n)"
    using lease_index_identity_eq [OF jid wf(1)] lease_index_identity_eq [OF _ wf(2)] jid same by simp_all
  have im: "li_lease_id (rn_from n) = li_lease_id (rn_to n)" "li_job_id (rn_from n) = li_job_id (rn_to n)"
    "li_endpoint_id (rn_from n) = li_endpoint_id (rn_to n)" using same by (simp_all add: identity_of_def)
  have u: "rn_mixed env n ?u" by (rule rolling_upd [OF mixed]) simp_all
  have v: "rn_mixed env n ?v" by (rule rolling_upd [OF u]) simp_all
  have w: "rn_mixed env n ?w" by (rule rn_move_mixed [OF v])
  have x: "rn_mixed env n ?x" by (rule rolling_upd [OF w]) simp_all
  have y: "rn_mixed env n (with_pair (rn_after n) ?w)"
    unfolding with_pair_def by (rule rolling_upd [OF x]) simp_all
  have z: "(with_pair (rn_after n) ?w)(IntentCell (rn_path n) := None) = rn_moved env n"
    using rn_converges [OF mixed] ok by (simp add: renewal_ok_def)
  show ?thesis
    by (rule runs_mbind, rule runs_writes(4), rule P [OF mixed], rule runs_mbind, rule runs_job_lease(1) [OF dur],
        rule P [OF u], rule runs_mbind, rule runs_sync_renew [OF ids wf(1) im], rule disjI2 [OF rn_manifest [OF ok v]],
        erule P [OF rolling_between [OF v w]], rule runs_mbind,
        rule runs_apply_capacity [OF rn_pairs_ok [OF ok], of "''after''" "rn_after n"], simp, rule rn_torn [OF ok w],
        rule P [OF w], rule P [OF x], rule runs_writes(10), rule P [OF y], unfold z, rule Q)
qed

section \<open>Replay\<close>

lemma runs_replay_renew:
  fixes env :: "'x queue_env"
  assumes ok: "renewal_ok env n" and mixed: "rn_mixed env n \<sigma>" and Q: "\<And>jobs. Q jobs (rn_moved env n)"
  shows "runs (rn_mixed env n) \<sigma> (reconcile_transition_intents env) Q"
proof (rule runs_replay_one)
  show "\<sigma> (IntentCell k) = (if k = rn_path n then Some (IntentV (rn_intent n)) else None)" for k
    by (rule rolling_intents [OF mixed]) (use ok in \<open>simp_all add: renewal_ok_def\<close>)
  show "rn_intent n \<noteq> BadIntent e" for e by (simp add: rn_intent_def)
  have check: "\<not> (rn_jid n \<noteq> rj_job_id (rn_job n) \<or> le_lease_id (rn_old n) \<noteq> rn_lid n)"
    using ok by (simp add: renewal_ok_def)
  define P where "P = rn_mixed env n"
  have core: "runs P \<sigma> (mbind (write_lease (rn_new n)) (\<lambda>_. mbind (write_job_lease (rn_new n)) (\<lambda>_.
      mbind (sync_lease_operational_indexes env (rn_new n) (rn_job n) (Some (rn_old n))) (\<lambda>_.
      mbind (apply_capacity_transition (transition_json (rn_pairs n)) ''after'' label) (\<lambda>_.
      unlink_intent (rn_path n)))))) (\<lambda>_ \<tau>. \<tau> = rn_moved env n)" for label
    by (rule runs_renew_steps [OF ok mixed]) (simp_all add: P_def)
  have "runs P \<sigma> (mbind (mbind (write_lease (rn_new n)) (\<lambda>_. mbind (write_job_lease (rn_new n)) (\<lambda>_.
      mbind (sync_lease_operational_indexes env (rn_new n) (rn_job n) (Some (rn_old n))) (\<lambda>_.
      mbind (apply_capacity_transition (transition_json (rn_pairs n)) ''after'' label) (\<lambda>_.
      unlink_intent (rn_path n)))))) (\<lambda>_. mret [])) Q" for label
    by (rule runs_mbind, rule runs_weaken [OF core], rule runs_mret, use Q in simp)
  note steps = this [unfolded mbind_assoc]
  show "runs (rn_mixed env n) \<sigma> (replay_intent env (rn_path n, rn_intent n)) Q"
    unfolding P_def [symmetric] unfolding rn_intent_def replay_intent.simps replay_lease_sync_def finish_capacity_def
      option.case mbind_assoc mbind_mret
    by (rule runs_mbind, rule runs_mcheck, rule check, rule steps)
qed

interpretation renewal: journaled env "\<lambda>\<tau>. renewal_ok env n \<and> rn_mixed env n \<tau>" "\<lambda>\<tau>. \<tau> = rn_moved env n" for env n
proof unfold_locales
  fix \<sigma> assume *: "renewal_ok env n \<and> rn_mixed env n \<sigma>"
  then have "runs (rn_mixed env n) \<sigma> (reconcile_transition_intents env) (\<lambda>_ \<tau>. \<tau> = rn_moved env n)"
    by (intro runs_replay_renew) simp_all
  then show "runs (\<lambda>\<tau>. renewal_ok env n \<and> rn_mixed env n \<tau>) \<sigma> (reconcile_transition_intents env)
      (\<lambda>_ \<tau>. \<tau> = rn_moved env n)"
    by (rule runs_weaken_crash) (use * in simp)
qed

section \<open>Renewing one lease of a settled store\<close>

definition renews ::
  "'x queue_env \<Rightarrow> Lease \<Rightarrow> LeaseIndexIdentity set \<Rightarrow> content \<Rightarrow> LeaseIndexIdentity \<Rightarrow> renewal \<Rightarrow> bool" where
  "renews env lease L \<sigma> i n \<longleftrightarrow> renewal_ok env n \<and> rn_base n = \<sigma> \<and> rn_from n = i \<and> lease = rn_new n
     \<and> \<sigma> (JobCell (rn_jid n)) = Some (JobV (rn_job n)) \<and> counts_of (insert (rn_to n) (L - {i})) (rn_after n)"

lemma settled_moved:
  assumes \<sigma>: "settled env L D \<sigma>" and i: "i \<in> L" and n: "renews env lease L \<sigma> i n"
  shows "settled env (insert (rn_to n) (L - {i})) D (rn_moved env n)"
proof -
  have base [simp]: "rn_base n = \<sigma>" and frm: "rn_from n = i" and ok: "renewal_ok env n"
    and job: "\<sigma> (JobCell (rn_jid n)) = Some (JobV (rn_job n))" using n by (simp_all add: renews_def)
  have ids: "rn_lid n = li_lease_id i" "rn_jid n = li_job_id i" using frm ok by (auto simp: identity_of_def renewal_ok_def)
  have to: "li_lease_id (rn_to n) = li_lease_id i" "li_job_id (rn_to n) = li_job_id i" using ids by (simp_all add: identity_of_def)
  have rec: "records_ok L \<sigma>" and files: "files_ok (qe_codec env) L \<sigma>" using \<sigma> by (simp_all add: settled_def)
  have other: "li_lease_id j \<noteq> li_lease_id i" if "j \<in> L - {i}" for j
    using lease_id_determines [OF files, of j i] i that by auto
  define \<rho> where "\<rho> = clear_files (qe_codec env) i \<sigma>"
  have "files_ok (qe_codec env) (L - {i}) \<rho>"
    by (rule files_ok_remove [OF files]) (use i in \<open>auto simp: \<rho>_def clear_files_def\<close>)
  then have "files_ok (qe_codec env) (insert (rn_to n) (L - {i})) (rn_moved env n)"
  proof (rule files_ok_add)
    have "inj_on lease_token L" using files by (simp add: files_ok_def)
    then show "lease_token (rn_to n) \<notin> lease_token ` (L - {i})" using i by (auto simp: to inj_on_def)
    show "wf_identity (qe_codec env) (rn_to n)" using ok by (simp add: renewal_ok_def)
    show "rn_moved env n (IndexCell p) = (case lease_files (qe_codec env) (rn_to n) p of
        Some m \<Rightarrow> Some (NodeV m) | None \<Rightarrow> \<rho> (IndexCell p))" for p
      by (auto simp: frm \<rho>_def clear_files_def lease_files_def to split: if_splits option.splits)
  qed
  moreover have "records_ok (insert (rn_to n) (L - {i})) (rn_moved env n)"
    unfolding records_ok_def
  proof (intro conjI ballI allI impI)
    fix j assume j: "j \<in> insert (rn_to n) (L - {i})"
    show "\<exists>l b. rn_moved env n (LeaseCell (li_lease_id j)) = Some (LeaseV l)
        \<and> rn_moved env n (JobLeaseCell (li_job_id j, li_lease_id j)) = Some (LeaseV l)
        \<and> rn_moved env n (JobCell (li_job_id j)) = Some (JobV b) \<and> identity_of l b = j"
    proof (cases "j \<in> L - {i}")
      case True
      then show ?thesis using rec other [OF True] by (auto simp: ids records_ok_def)
    next
      case False
      then show ?thesis using j job by (auto simp: to ids)
    qed
  next
    fix k assume "rn_moved env n (LeaseCell k) \<noteq> None"
    then show "\<exists>j \<in> insert (rn_to n) (L - {i}). li_lease_id j = k"
      using rec to unfolding records_ok_def by (auto simp: ids split: if_splits)
  next
    fix jk assume "rn_moved env n (JobLeaseCell jk) \<noteq> None"
    then show "\<exists>j \<in> insert (rn_to n) (L - {i}). (li_job_id j, li_lease_id j) = jk"
      using rec to unfolding records_ok_def by (cases jk) (fastforce simp: ids split: if_splits)
  qed
  moreover have "capacity_ok (insert (rn_to n) (L - {i})) (rn_after n) (rn_moved env n)"
    using n by (simp add: capacity_ok_def renews_def renewal_ok_def)
  moreover have "jobs_ok D (rn_moved env n)" using \<sigma> by (simp add: settled_def jobs_ok_def synced_def)
  moreover have "rn_moved env n (IntentCell k) = None" for k using \<sigma> by (simp add: settled_def)
  ultimately show ?thesis by (auto simp: settled_def)
qed

text \<open>What a renewal draws is well formed.\<close>

definition renew_draws_ok :: "'x queue_env \<Rightarrow> RelayJob \<Rightarrow> Lease \<Rightarrow> int \<Rightarrow> bool" where
  "renew_draws_ok env job lease ttl_seconds \<longleftrightarrow> (\<forall>n m. durable_id (''lease_'' @ qe_uuid env m)
     \<and> wf_identity (qe_codec env) (identity_of
         ((Lease_new (qe_clock env n) (''lease_'' @ qe_uuid env m) (le_job_id lease) (le_endpoint_id lease) ttl_seconds)
            \<lparr>le_lease_id := le_lease_id lease\<rparr>) job))"

definition rn_crashed ::
  "'x queue_env \<Rightarrow> Lease \<Rightarrow> LeaseIndexIdentity set \<Rightarrow> content \<Rightarrow> LeaseIndexIdentity \<Rightarrow> content \<Rightarrow> bool" where
  "rn_crashed env lease L \<sigma> i \<tau> \<longleftrightarrow> \<tau> = \<sigma> \<or> (\<exists>n. renews env lease L \<sigma> i n \<and> (rn_mixed env n \<tau> \<or> \<tau> = rn_moved env n))"

lemma card_scope_move:
  assumes "finite L" "i \<in> L" "i' \<notin> L - {i}" "li_cluster i' = li_cluster i" "li_job_kind i' = li_job_kind i"
  shows "card (insert i' (L - {i})) = card L"
    "card {j \<in> insert i' (L - {i}). lease_cluster_token (li_cluster j) = t \<and> li_job_kind j = k}
      = card {j \<in> L. lease_cluster_token (li_cluster j) = t \<and> li_job_kind j = k}"
  using card_scope [of "L - {i}" i' t k] card_scope [of "L - {i}" i t k] assms
    card.insert_remove [of L i] by (simp_all add: insert_absorb)

text \<open>
  Runs from a state that has drawn \<open>d\<close> values so far: which clock reading an operation takes is
  fixed by what runs before it, as long as that draws nothing.
\<close>

definition runs_at ::
  "nat \<Rightarrow> (content \<Rightarrow> bool) \<Rightarrow> content \<Rightarrow> ('x, 'a) queue_op \<Rightarrow> ('a \<Rightarrow> content \<Rightarrow> bool) \<Rightarrow> bool" where
  "runs_at d P \<sigma> m Q \<longleftrightarrow>
     (\<forall>s. holds \<sigma> s \<and> qs_draws s = d \<longrightarrow> good_outcome P Q (qs_budget s) (fst (m s)) (snd (m s)))"

definition draws_nothing :: "content \<Rightarrow> ('x, 'a) queue_op \<Rightarrow> bool" where
  "draws_nothing \<sigma> m \<longleftrightarrow> (\<forall>s. holds \<sigma> s \<longrightarrow> qs_draws (snd (m s)) = qs_draws s)"

lemma runs_at_outcome:
  assumes "runs_at (qs_draws s) P \<sigma> m Q" "holds \<sigma> s" "m s = (r, s')"
  shows "wf_store s' \<and> ((\<exists>x. r = Inr x \<and> Q x (cells s')) \<or> r = Inl Crashed \<and> qs_budget s \<noteq> None \<and> P (cells s'))"
proof -
  have "good_outcome P Q (qs_budget s) r s'" using assms by (metis fst_conv runs_at_def snd_conv)
  then show ?thesis by (cases rule: good_outcome_cases) auto
qed

lemma runs_at_mbind:
  fixes m :: "('x, 'a) queue_op"
  assumes "draws_nothing \<sigma> m" "runs P \<sigma> m (\<lambda>x \<tau>. runs_at d P \<tau> (f x) Q)"
  shows "runs_at d P \<sigma> (mbind m f) Q"
  unfolding runs_at_def
proof (intro allI impI)
  fix s :: "'x queue_state"
  assume s: "holds \<sigma> s \<and> qs_draws s = d"
  obtain r s' where ms: "m s = (r, s')" by fastforce
  have d: "qs_draws s' = d" using assms(1) s ms by (metis draws_nothing_def snd_conv)
  from runsD [OF assms(2) conjunct1 [OF s] ms]
  show "good_outcome P Q (qs_budget s) (fst (mbind m f s)) (snd (mbind m f s))"
  proof (cases rule: good_outcome_cases)
    case (finished x)
    obtain r2 s2 where f: "f x s' = (r2, s2)" by fastforce
    have "holds (cells s') s' \<and> qs_draws s' = d" using finished(2) d by (simp add: holds_def)
    with finished(3) f have "good_outcome P Q (qs_budget s') r2 s2" by (metis fst_conv runs_at_def snd_conv)
    then show ?thesis
      by (cases rule: good_outcome_cases) (use ms f finished in \<open>auto simp: mbind_app\<close>)
  qed (use ms in \<open>auto simp: mbind_app\<close>)
qed

lemma runs_at_clock:
  assumes "runs P \<sigma> (f (qe_clock env d)) Q"
  shows "runs_at d P \<sigma> (mbind (utc_now env) f) Q"
  unfolding runs_at_def
proof (intro allI impI)
  fix s :: "'a queue_state" assume "holds \<sigma> s \<and> qs_draws s = d"
  then show "good_outcome P Q (qs_budget s) (fst (mbind (utc_now env) f s)) (snd (mbind (utc_now env) f s))"
    using assms unfolding runs_def by (auto simp: utc_now_def mbind_app holds_def dest!: spec [of _ "s\<lparr>qs_draws := Suc d\<rparr>"])
qed

lemma runs_at_mget:
  assumes "\<And>s. runs_at d P \<sigma> (f s) Q"
  shows "runs_at d P \<sigma> (mbind mget f) Q"
  using assms by (simp add: runs_at_def mbind_app mget_def)

lemma draws_nothing_ops:
  "draws_nothing \<sigma> (qlift r)"
  "draws_nothing \<sigma> (qcheck ok e)"
  "draws_nothing \<sigma> (on_other m)"
  "draws_nothing \<sigma> (read_optional_lease k)"
  "draws_nothing \<sigma> (get_job k)"
  by (auto simp: draws_nothing_def mbind_app mlift_def qlift_def mcheck_def mget_def on_other_def tick_def on_part_def
      read_optional_lease_def get_job_def read_optional_job_def mret_def mraise_def split: option.splits sum.splits nat.splits prod.splits)

lemma draws_nothing_replay:
  assumes "\<And>n. \<sigma> (IntentCell n) = None"
  shows "draws_nothing \<sigma> (reconcile_transition_intents env)"
  unfolding draws_nothing_def
proof (intro allI impI)
  fix s :: "'a queue_state" assume "holds \<sigma> s"
  then have "map_of (qs_intents s) n = None" for n using assms [of n] by (simp add: holds_cells)
  then have "qs_intents s = []" by (rule map_of_nowhere)
  then show "qs_draws (snd (reconcile_transition_intents env s)) = qs_draws s"
    by (simp add: reconcile_transition_intents_def read_intents_def mbind_app mget_def mcheck_def mlift_def mret_def check_def)
qed

definition renewal_lease :: "timestamp \<Rightarrow> Lease \<Rightarrow> int \<Rightarrow> Lease" where
  "renewal_lease now lease ttl_seconds =
     lease\<lparr>le_acquired_at := now, le_expires_at := now + ttl_seconds * 1000000\<rparr>"

lemma runs_renewed_lease:
  fixes env :: "'x queue_env"
  assumes draws: "renew_draws_ok env job l ttl"
    and Q: "wf_identity (qe_codec env) (identity_of (renewal_lease (qe_clock env d) l ttl) job)
      \<Longrightarrow> runs P \<sigma> (m (renewal_lease (qe_clock env d) l ttl)) Q"
  shows "runs_at d P \<sigma> (mbind (new_lease env (le_job_id l) (le_endpoint_id l) ttl)
    (\<lambda>fresh. m (fresh\<lparr>le_lease_id := le_lease_id l\<rparr>))) Q"
  unfolding new_lease_def new_id_def mbind_assoc mbind_mret
proof (rule runs_at_clock, rule runs_mbind, rule runs_uuid4_hex, rule runs_mbind)
  fix u
  let ?id = "''lease_'' @ qe_uuid env u"
  let ?l = "Lease_new (qe_clock env d) ?id (le_job_id l) (le_endpoint_id l) ttl"
  have eq: "?l\<lparr>le_lease_id := le_lease_id l\<rparr> = renewal_lease (qe_clock env d) l ttl"
    by (simp add: Lease_new_def renewal_lease_def)
  have dur: "durable_id (''lease'' @ ''_'' @ qe_uuid env u)" using draws by (simp add: renew_draws_ok_def)
  have wf: "wf_identity (qe_codec env) (identity_of (?l\<lparr>le_lease_id := le_lease_id l\<rparr>) job)"
    using draws unfolding renew_draws_ok_def by blast
  have id: "validate_durable_record_id (JStr (''lease'' @ ''_'' @ qe_uuid env u)) = Inr ?id"
    using validate_durable_id [OF dur] by simp
  show "runs P \<sigma> (qlift (validate_durable_record_id (JStr (''lease'' @ ''_'' @ qe_uuid env u))))
      (\<lambda>x \<tau>. runs P \<tau> (m ((Lease_new (qe_clock env d) x (le_job_id l) (le_endpoint_id l) ttl)
        \<lparr>le_lease_id := le_lease_id l\<rparr>)) Q)"
    by (rule runs_qlift, rule id) (use Q wf in \<open>simp only: eq\<close>)
qed

text \<open>The part of \<^verbatim>\<open>renew_lease\<close> after the new lease is drawn.\<close>

definition renew_with :: "'x queue_env \<Rightarrow> RelayJob \<Rightarrow> Lease \<Rightarrow> Lease \<Rightarrow> ('x, Lease option) queue_op" where
  "renew_with env j l l' = mbind (prepare_capacity_transition env [] False) (\<lambda>t.
      mbind (write_transition_intent env ''lease_sync'' (le_lease_id l') (LeaseSyncIntent l' l j (Some t))) (\<lambda>path.
      mbind (write_lease l') (\<lambda>_. mbind (write_job_lease l') (\<lambda>_.
      mbind (sync_lease_operational_indexes env l' j (Some l)) (\<lambda>_.
      mbind (apply_capacity_transition t ''after'' (''lease renewal '' @ le_lease_id l')) (\<lambda>_.
      mbind (unlink_intent path) (\<lambda>_. mret (Some l'))))))))"

lemma renew_lease_with:
  "renew_lease env lease_id ttl_seconds =
     mbind (qlift (require_durable_record_id lease_id ''lease_id'')) (\<lambda>lease_id.
     mbind (initialize_queue env) (\<lambda>_.
     mbind (require_index_migration_complete env) (\<lambda>_.
     mbind (reconcile_transition_intents env) (\<lambda>_.
     mbind (read_optional_lease lease_id) (\<lambda>found.
       case found of
         None \<Rightarrow> mret None
       | Some lease \<Rightarrow>
           mbind (qcheck (le_lease_id lease = lease_id)
             (QueueConflictError (''canonical lease identity mismatch: '' @ record_path ''leases'' lease_id))) (\<lambda>_.
           mbind (get_job (le_job_id lease)) (\<lambda>job.
           mbind (new_lease env (le_job_id lease) (le_endpoint_id lease) ttl_seconds)
             (\<lambda>fresh. renew_with env job lease (fresh\<lparr>le_lease_id := le_lease_id lease\<rparr>)))))))))"
  unfolding renew_lease_def renew_with_def Let_def by (rule refl)

lemma runs_renew_lease:
  fixes env :: "'x queue_env"
  assumes env: "env_ok env" and \<sigma>: "settled env L {} \<sigma>" and i: "i \<in> L"
    and l: "\<sigma> (LeaseCell (li_lease_id i)) = Some (LeaseV l)" and j: "\<sigma> (JobCell (li_job_id i)) = Some (JobV j)"
    and draws: "renew_draws_ok env j l ttl" and lease: "lease = renewal_lease (qe_clock env d) l ttl"
    and Q: "\<And>n. renews env lease L \<sigma> i n \<Longrightarrow> Q (Some (rn_new n)) (rn_moved env n)"
  shows "runs_at d (rn_crashed env lease L \<sigma> i) \<sigma> (renew_lease env (li_lease_id i) ttl) Q" (is "runs_at _ ?P _ _ _")
proof -
  from settled_lease [OF \<sigma> i] l j obtain
    c: "identity_of l j = i" "le_lease_id l = li_lease_id i" "le_job_id l = li_job_id i" "wf_identity (qe_codec env) i"
      "rj_job_id j = le_job_id l"
      "\<sigma> (IndexCell (lease_index_path (le_lease_id l))) = Some (NodeV (LDoc (lease_index_document (iso_format (qe_codec env)) i)))"
    by (metis cell_value.inject(1,2) option.inject)
  obtain p where p: "capacity_ok L p \<sigma>" using \<sigma> by (auto simp: settled_def)
  have fin: "finite L" by (rule settled_finite [OF \<sigma>])
  have files: "files_ok (qe_codec env) L \<sigma>" using \<sigma> by (simp add: settled_def)
  have k: "durable_id (li_lease_id i)" "durable_id (li_job_id i)" using c(4) by (simp_all add: wf_identity_def)
  have mig: "\<exists>x'. qe_initialize env x = (Inr (), x')" "qe_require_migrated env x = Inr ()" for x
    using env by (auto simp: env_ok_def)
  have none: "\<sigma> (IntentCell m) = None" for m using \<sigma> by (simp add: settled_def)
  have here: "?P \<sigma>" by (simp add: rn_crashed_def)
  have go: "runs ?P \<sigma> (renew_with env j l l') Q"
    if l': "l' = lease" "wf_identity (qe_codec env) (identity_of l' j)" for l'
  proof -
    let ?i' = "identity_of l' j"
    have same_ids: "le_lease_id l' = le_lease_id l" "le_job_id l' = le_job_id l" "le_endpoint_id l' = le_endpoint_id l"
      by (simp_all add: l'(1) lease renewal_lease_def)
    have scope: "li_cluster ?i' = li_cluster i" "li_job_kind ?i' = li_job_kind i" "li_lease_id ?i' = li_lease_id i"
      using c(1) same_ids(1) by (auto simp: identity_of_def)
    have notin: "?i' \<notin> L - {i}" using lease_id_determines [OF files _ i, of ?i'] scope(3) by auto
    note same = card_scope_move [OF fin i notin scope(1,2)]
    show ?thesis
      unfolding renew_with_def
    proof (rule runs_mbind, rule runs_prepare_same [OF env p same])
      fix before after assume pairs: "bound_pair before" "bound_pair after"
        "aggregate_value before = aggregate_value p" "checkpoint_value before = checkpoint_value p"
        "counts_of (insert ?i' (L - {i})) after"
      define n where "n = \<lparr>rn_base = \<sigma>, rn_job = j, rn_old = l, rn_new = l', rn_before = before, rn_after = after\<rparr>"
      have n: "renews env lease L \<sigma> i n" and ok: "renewal_ok env n"
        using env c pairs p \<sigma> j l' same_ids by (simp_all add: n_def renews_def renewal_ok_def settled_def capacity_ok_def)
      have fields: "rn_old n = l" "rn_new n = l'" "rn_job n = j" "rn_before n = before" "rn_after n = after"
        by (simp_all add: n_def)
      have start: "\<sigma>(IntentCell (intent_name ''lease_sync'' (le_lease_id l')) \<mapsto> IntentV (LeaseSyncIntent l' l j
          (Some (transition_json [(''before'', before), (''after'', after)]))))
          = (rn_base n)(IntentCell (rn_path n) \<mapsto> IntentV (rn_intent n))" (is "?\<sigma> = _")
        by (simp add: n_def rn_intent_def)
      have mixed: "rn_mixed env n ?\<sigma>" unfolding start by (rule rolling_start)
      have P: "?P \<rho>" if "rn_mixed env n \<rho>" for \<rho> using n that by (auto simp: rn_crashed_def)
      have end_: "?P (rn_moved env n)" using n by (auto simp: rn_crashed_def)
      have core: "runs ?P ?\<sigma> (mbind (write_lease (rn_new n)) (\<lambda>_. mbind (write_job_lease (rn_new n)) (\<lambda>_.
          mbind (sync_lease_operational_indexes env (rn_new n) (rn_job n) (Some (rn_old n))) (\<lambda>_.
          mbind (apply_capacity_transition (transition_json (rn_pairs n)) ''after'' label) (\<lambda>_.
          unlink_intent (rn_path n)))))) (\<lambda>_ \<tau>. \<tau> = rn_moved env n)" for label
        by (rule runs_renew_steps [OF ok mixed], erule P, simp)
      have "runs ?P ?\<sigma> (mbind (mbind (write_lease (rn_new n)) (\<lambda>_. mbind (write_job_lease (rn_new n)) (\<lambda>_.
          mbind (sync_lease_operational_indexes env (rn_new n) (rn_job n) (Some (rn_old n))) (\<lambda>_.
          mbind (apply_capacity_transition (transition_json (rn_pairs n)) ''after'' label) (\<lambda>_.
          unlink_intent (rn_path n)))))) (\<lambda>_. mret (Some (rn_new n)))) Q" for label
        by (rule runs_mbind, rule runs_weaken [OF core], rule runs_mret, use Q [OF n] in simp)
      note steps = this [unfolded mbind_assoc fields]
      show "runs ?P \<sigma> (mbind (write_transition_intent env ''lease_sync'' (le_lease_id l') (LeaseSyncIntent l' l j
            (Some (transition_json [(''before'', before), (''after'', after)])))) (\<lambda>path.
          mbind (write_lease l') (\<lambda>_. mbind (write_job_lease l') (\<lambda>_.
          mbind (sync_lease_operational_indexes env l' j (Some l)) (\<lambda>_.
          mbind (apply_capacity_transition (transition_json [(''before'', before), (''after'', after)]) ''after''
             (''lease renewal '' @ le_lease_id l')) (\<lambda>_.
          mbind (unlink_intent path) (\<lambda>_. mret (Some l')))))))) Q"
        by (rule runs_mbind, rule runs_write_intent, rule here, rule steps)
    qed
  qed
  have jc: "\<sigma> (JobCell (le_job_id l)) = Some (JobV j)" using j c(3) by simp
  show ?thesis
    unfolding renew_lease_with initialize_queue_def require_index_migration_complete_def mbind_assoc
    by (rule runs_at_mbind, rule draws_nothing_ops, rule runs_qlift, rule require_durable_id [OF k(1)],
        rule runs_at_mbind, rule draws_nothing_ops, rule runs_on_other, rule here, rule mig(1),
        rule runs_at_mget,
        rule runs_at_mbind, rule draws_nothing_ops, rule runs_qlift, rule mig(2),
        rule runs_at_mbind, rule draws_nothing_replay, rule none, rule runs_replay_none, rule none,
        rule runs_at_mbind, rule draws_nothing_ops, rule runs_read_lease [where r = "Some l"], simp add: l,
        (auto simp: c(2) k)[1], simp only: option.case, rule runs_at_mbind, rule draws_nothing_ops, rule runs_mcheck,
        simp add: c, rule runs_at_mbind, rule draws_nothing_ops, rule runs_get_job, rule jc, rule c(5), simp add: c k,
        rule runs_renewed_lease [OF draws], rule go, simp add: lease)
qed

section \<open>Renewal is crash-safe\<close>

definition renewed ::
  "'x queue_env \<Rightarrow> LeaseIndexIdentity set \<Rightarrow> LeaseIndexIdentity \<Rightarrow> content \<Rightarrow> Lease \<Rightarrow> content \<Rightarrow> bool" where
  "renewed env L i \<sigma> lease \<tau> \<longleftrightarrow>
     settled env (insert (i\<lparr>li_expires_at := le_expires_at lease\<rparr>) (L - {i})) {} \<tau>
     \<and> le_lease_id lease = li_lease_id i \<and> le_job_id lease = li_job_id i \<and> le_endpoint_id lease = li_endpoint_id i
     \<and> (\<forall>k. \<tau> (JobCell k) = \<sigma> (JobCell k)) \<and> (\<forall>ke. \<tau> (EventCell ke) = \<sigma> (EventCell ke))
     \<and> (\<forall>k. \<tau> (LeaseCell k) = (if k = li_lease_id i then Some (LeaseV lease) else \<sigma> (LeaseCell k)))"

lemma renews_renewed:
  assumes "settled env L {} \<sigma>" "i \<in> L" "renews env lease L \<sigma> i n"
  shows "renewed env L i \<sigma> lease (rn_moved env n)"
proof -
  have [simp]: "rn_new n = lease" using assms(3) by (simp add: renews_def)
  have "rn_to n = i\<lparr>li_expires_at := le_expires_at (rn_new n)\<rparr>"
    using assms(3) by (auto simp: renews_def renewal_ok_def identity_of_def)
  then show ?thesis
    using settled_moved [OF assms] assms(3) by (auto simp: renewed_def renews_def renewal_ok_def identity_of_def)
qed

lemma rn_recovers:
  fixes env :: "'x queue_env"
  assumes \<sigma>: "settled env L {} \<sigma>" and i: "i \<in> L" and crashed: "rn_crashed env lease L \<sigma> i (cells s)" and wf: "wf_store s"
  shows "\<exists>jobs s'. restarts env bs s = (Inr jobs, s') \<and> (cells s' = \<sigma> \<or> renewed env L i \<sigma> lease (cells s'))"
proof -
  have none: "\<sigma> (IntentCell n) = None" for n using \<sigma> by (simp add: settled_def)
  consider (before) "cells s = \<sigma>" | (mixed) n where "renews env lease L \<sigma> i n" "rn_mixed env n (cells s)"
    | (finished) n where "renews env lease L \<sigma> i n" "cells s = rn_moved env n"
    using crashed by (auto simp: rn_crashed_def)
  then show ?thesis
  proof cases
    case before
    with empty_journal.recovers [where \<sigma> = \<sigma> and s = s and env = env] none wf show ?thesis by metis
  next
    case (mixed n)
    then have "renewal_ok env n \<and> rn_mixed env n (cells s)" by (simp add: renews_def)
    from renewal.recovers [OF this wf] renews_renewed [OF \<sigma> i mixed(1)] show ?thesis by metis
  next
    case (finished n)
    have "rn_moved env n (IntentCell m) = None" for m using finished(1) none by (simp add: renews_def)
    with empty_journal.recovers [where \<sigma> = "rn_moved env n" and s = s and env = env] finished wf
      renews_renewed [OF \<sigma> i finished(1)] show ?thesis by metis
  qed
qed

text \<open>
  C6: renewing a lease is crash-safe and extends it by the time asked for. From a settled store holding
  the leases \<open>L\<close>, renewing the lease \<open>l\<close> of \<open>i \<in> L\<close> for \<open>ttl\<close> seconds either completes and returns \<open>l\<close>
  with its acquisition time moved to the clock reading the renewal takes and its expiry to exactly
  \<open>ttl\<close> seconds after that reading, and the store is settled with the same leases except that this
  one has the new expiry in its record and in every index, under the same identifier, job and endpoint, with
  every job and event untouched; or it crashes, and after any number of interrupted restarts the
  next complete replay leaves either the content from before, unchanged, or that same completed
  renewal. The lease is then no longer expired at any time before the new expiry, whatever the old one was.
\<close>

theorem lease_renewal_crash_safe:
  fixes env :: "'x queue_env"
  assumes env: "env_ok env" and h: "holds \<sigma> s" and \<sigma>: "settled env L {} \<sigma>" and i: "i \<in> L"
    and l: "\<sigma> (LeaseCell (li_lease_id i)) = Some (LeaseV l)" and j: "\<sigma> (JobCell (li_job_id i)) = Some (JobV j)"
    and draws: "renew_draws_ok env j l ttl"
    and run: "renew_lease env (li_lease_id i) ttl s = (r, s')"
    and now: "now = qe_clock env (qs_draws s)"
    and lease: "lease = l\<lparr>le_acquired_at := now, le_expires_at := now + ttl * 1000000\<rparr>"
  shows "(r = Inr (Some lease) \<and> renewed env L i \<sigma> lease (cells s')
      \<or> r = Inl Crashed \<and> qs_budget s \<noteq> None \<and> (\<forall>bs. \<exists>jobs s''. restarts env bs s' = (Inr jobs, s'')
          \<and> (cells s'' = \<sigma> \<or> renewed env L i \<sigma> lease (cells s''))))
    \<and> (\<forall>t. is_expired lease t \<longleftrightarrow> now + ttl * 1000000 \<le> t)"
proof -
  have lease': "lease = renewal_lease (qe_clock env (qs_draws s)) l ttl" by (simp add: lease now renewal_lease_def)
  have "runs_at (qs_draws s) (rn_crashed env lease L \<sigma> i) \<sigma> (renew_lease env (li_lease_id i) ttl)
      (\<lambda>x \<tau>. x = Some lease \<and> renewed env L i \<sigma> lease \<tau>)"
    by (rule runs_renew_lease [OF env \<sigma> i l j draws lease'])
      (use renews_renewed [OF \<sigma> i] in \<open>auto simp: renews_def\<close>)
  from runs_at_outcome [OF this h run] rn_recovers [OF \<sigma> i, of lease s'] show ?thesis
    by (auto simp: is_expired_def lease)
qed

lemma demo_renew_draws:
  assumes "durable_id k"
  shows "durable_id (''lease_'' @ qe_uuid demo_env m) \<and> wf_identity (qe_codec demo_env) (identity_of
    ((Lease_new (qe_clock demo_env n) (''lease_'' @ qe_uuid demo_env m) ''job_a'' ''worker_a'' 360)
       \<lparr>le_lease_id := k\<rparr>) demo_owned_job)"
proof -
  define i where "i = identity_of ((Lease_new 0 (''lease_'' @ demo_hex) ''job_a'' ''worker_a'' 360)\<lparr>le_lease_id := k\<rparr>)
    demo_owned_job"
  have ids: "durable_id (''lease_'' @ demo_hex)" "durable_id ''job_a''" "durable_id ''worker_a''"
    by code_simp+
  have fields: "li_lease_id i = k" "li_job_id i = ''job_a''" "li_endpoint_id i = ''worker_a''"
    "li_cluster i = ''ares''" "li_expires_at i = 360000000"
    by (simp_all add: i_def identity_of_def Lease_new_def demo_owned_job_def)
  have len: "length k \<le> 128" using assms by (auto simp: durable_id_pattern DURABLE_RECORD_ID_PATTERN_def split: list.splits)
  have time: "iso_format demo_codec 360000000 = ''1970-01-01T00:06:00+00:00''"
    "iso_parse demo_codec ''1970-01-01T00:06:00+00:00'' = Some (Some 360000000)" by (simp_all add: demo_codec_def)
  have "length (dumps_plain (lease_index_document (iso_format demo_codec) i)) \<le> 65536"
    using document_length [of "iso_format demo_codec" i] len by (simp add: fields time)
  then have "wf_identity demo_codec i"
    using ids assms by (simp add: wf_identity_def fields LEASE_INDEX_MAX_BYTES_def time)
  then show ?thesis using ids by (simp add: demo_env_def i_def)
qed

theorem lease_renewal_crash_safe_witness:
  "\<exists>p l s l' s' i. lease_job demo_env demo_owned_job ''worker_a'' 300 None (demo_state p None) = (Inr l, s)
     \<and> renew_lease demo_env (le_lease_id l) 360 s = (Inr (Some l'), s') \<and> le_expires_at l' = 360000000
     \<and> renewed demo_env {i} i (cells s) l' (cells s')"
proof -
  obtain p l s where s: "lease_job demo_env demo_owned_job ''worker_a'' 300 None (demo_state p None) = (Inr l, s)"
    "wf_store s" "qs_budget s = None" "granted demo_env {} demo_owned_job ''worker_a'' l (cells s)"
    using demo_granted by blast
  let ?i = "identity_of l demo_owned_job"
  obtain r s' where run: "renew_lease demo_env (li_lease_id ?i) 360 s = (r, s')" by fastforce
  have h: "holds (cells s) s" using s(2) by (simp add: holds_def)
  have settled: "settled demo_env {?i} {} (cells s)" using s(4) by (simp add: granted_def)
  have id: "li_lease_id ?i = le_lease_id l" "li_job_id ?i = ''job_a''" "le_job_id l = ''job_a''" "le_endpoint_id l = ''worker_a''"
    using s(4) by (simp_all add: identity_of_def granted_def)
  obtain now where cells: "cells s (LeaseCell (li_lease_id ?i)) = Some (LeaseV l)"
    "cells s (JobCell (li_job_id ?i)) = Some (JobV (leased demo_owned_job ''worker_a'' now))"
    using s(4) id by (auto simp: granted_def simp del: cells.simps)
  have lid: "durable_id (le_lease_id l)" using settled id by (auto simp: settled_def files_ok_def wf_identity_def)
  have draws: "renew_draws_ok demo_env (leased demo_owned_job ''worker_a'' now) l 360"
    using demo_renew_draws [OF lid] id by (simp add: renew_draws_ok_def)
  from lease_renewal_crash_safe [OF demo_queue_env_ok h settled _ cells draws run refl refl] s(3)
  obtain l' where "r = Inr (Some l')" "renewed demo_env {?i} ?i (cells s) l' (cells s')" "le_expires_at l' = 360000000"
    by (fastforce simp: demo_env_def)
  with s(1) run id(1) show ?thesis by metis
qed

end
