(* ===== verification/LeaseRecovery.thy ===== *)
theory LeaseRecovery
  imports LeaseRenewal
begin

text \<open>
  Crash safety of stale recovery. A job whose leases have expired is requeued, or failed when its
  attempts are used up: one journal entry covers the job record, the recovery event, the deletion
  of all its expired leases and the capacity counts. The replay repeats the whole transition, so it
  only rolls forward; what it checks first holds because the entry's steps are done in order.
\<close>

section \<open>Deleting several leases under one intent\<close>

lemma runs_require_ref:
  assumes "index_file p" "\<sigma> (IndexCell p) = Some (NodeV LRef)" "Q () \<sigma>"
  shows "runs P \<sigma> (read_index (require_empty_lease_ref p label)) Q"
proof (rule runs_read_index)
  fix fs assume fs: "fs_ok fs" and view: "\<And>p. \<sigma> (IndexCell p) = map_option NodeV (file_view fs p)"
  have dir: "is_index_dir (butlast p)" "butlast p \<noteq> []" using assms(1) by (simp_all add: index_file_def)
  obtain b where b: "require_safe_lease_index_directory False (butlast p) fs = (Inr b, fs)"
    using require_safe_checks [OF fs dir] by blast
  have "map_of fs p = Some LRef"
    using view [of p] assms(2) by (cases "map_of fs p") (auto simp: file_view_def split: if_splits)
  with b fs assms(3) show "\<exists>x fs'. require_empty_lease_ref p label fs = (Inr x, fs') \<and> fs_ok fs' \<and> file_view fs' = file_view fs \<and> Q x \<sigma>"
    by (simp add: require_empty_lease_ref_def mbind_app)
qed

definition without_lease :: "iso_codec \<Rightarrow> RelayJob \<Rightarrow> Lease \<Rightarrow> content \<Rightarrow> content" where
  "without_lease codec job l \<sigma> = clear_files codec (identity_of l job)
     (\<sigma>(LeaseCell (le_lease_id l) := None, JobLeaseCell (le_job_id l, le_lease_id l) := None))"

definition without_leases :: "iso_codec \<Rightarrow> RelayJob \<Rightarrow> Lease list \<Rightarrow> content \<Rightarrow> content" where
  "without_leases codec job ls \<sigma> = (\<lambda>c. case c of
       LeaseCell k \<Rightarrow> if k \<in> le_lease_id ` set ls then None else \<sigma> c
     | JobLeaseCell jk \<Rightarrow> if jk \<in> (\<lambda>l. (le_job_id l, le_lease_id l)) ` set ls then None else \<sigma> c
     | IndexCell p \<Rightarrow> if \<exists>l \<in> set ls. lease_files codec (identity_of l job) p \<noteq> None then None else \<sigma> c
     | _ \<Rightarrow> \<sigma> c)"

lemma without_leases_simps:
  "without_leases codec job [] \<sigma> = \<sigma>"
  "without_leases codec job (l # ls) \<sigma> = without_leases codec job ls (without_lease codec job l \<sigma>)"
proof -
  show "without_leases codec job [] \<sigma> = \<sigma>"
    by (rule ext) (simp add: without_leases_def split: cell.split)
  show "without_leases codec job (l # ls) \<sigma> = without_leases codec job ls (without_lease codec job l \<sigma>)"
    by (rule ext) (auto simp: without_leases_def without_lease_def clear_files_def split: cell.split)
qed

lemma without_lease_between:
  assumes "between \<sigma> (without_lease codec job l \<sigma>) \<rho>"
  shows "(\<forall>c. \<rho> c = \<sigma> c \<or> \<rho> c = None \<and> (c = LeaseCell (le_lease_id l) \<or> c = JobLeaseCell (le_job_id l, le_lease_id l)
      \<or> (\<exists>p. c = IndexCell p \<and> lease_files codec (identity_of l job) p \<noteq> None)))"
proof
  fix c
  from assms have "\<rho> c = \<sigma> c \<or> \<rho> c = without_lease codec job l \<sigma> c" by (simp add: between_def)
  then show "\<rho> c = \<sigma> c \<or> \<rho> c = None \<and> (c = LeaseCell (le_lease_id l) \<or> c = JobLeaseCell (le_job_id l, le_lease_id l)
      \<or> (\<exists>p. c = IndexCell p \<and> lease_files codec (identity_of l job) p \<noteq> None))"
    by (cases c) (auto simp: without_lease_def clear_files_def split: if_splits)
qed

text \<open>Under the caller's intent the lease record goes first and its index files last.\<close>

lemma runs_delete_under:
  fixes env :: "'x queue_env"
  assumes wf: "wf_identity (qe_codec env) (identity_of l job)"
    and manifest: "\<sigma> (IndexCell (lease_index_path (le_lease_id l))) \<in>
      {None, Some (NodeV (LDoc (lease_index_document (iso_format (qe_codec env)) (identity_of l job))))}"
    and P: "P \<sigma>" "\<And>\<rho>. between \<sigma> (without_lease (qe_codec env) job l \<sigma>) \<rho> \<Longrightarrow> \<rho> (LeaseCell (le_lease_id l)) = None \<Longrightarrow> P \<rho>"
    and Q: "Q () (without_lease (qe_codec env) job l \<sigma>)"
  shows "runs P \<sigma> (delete_lease env l (Some job) (Some path) (Some (identity_of l job)) False) Q"
proof -
  let ?i = "identity_of l job" and ?m = "lease_index_path (le_lease_id l)"
  let ?u = "\<sigma>(LeaseCell (le_lease_id l) := None)"
  let ?v = "?u(JobLeaseCell (le_job_id l, le_lease_id l) := None)"
  have id: "li_lease_id ?i = le_lease_id l" by (simp add: identity_of_def)
  have dur: "durable_id (le_job_id l)" "durable_id (le_lease_id l)"
    using wf by (simp_all add: wf_identity_def identity_of_def)
  have mv: "?v (IndexCell (lease_index_path (li_lease_id ?i))) \<in>
      {None, Some (NodeV (LDoc (lease_index_document (iso_format (qe_codec env)) ?i)))}" using manifest id by simp
  have u: "between \<sigma> (without_lease (qe_codec env) job l \<sigma>) ?u"
    by (rule between_upd) (simp_all add: without_lease_def)
  have v: "between \<sigma> (without_lease (qe_codec env) job l \<sigma>) ?v"
    by (rule between_upd [OF u]) (simp_all add: without_lease_def)
  have w: "between \<sigma> (without_lease (qe_codec env) job l \<sigma>) \<rho>" "\<rho> (LeaseCell (le_lease_id l)) = None"
    if "between ?v (clear_files (qe_codec env) ?i ?v) \<rho>" for \<rho>
  proof -
    have "between \<sigma> (without_lease (qe_codec env) job l \<sigma>) (clear_files (qe_codec env) ?i ?v)"
      by (simp add: without_lease_def between_def)
    from between_trans [OF v this that] show "between \<sigma> (without_lease (qe_codec env) job l \<sigma>) \<rho>" .
    show "\<rho> (LeaseCell (le_lease_id l)) = None" using that by (auto simp: between_def dest: spec [of _ "LeaseCell (le_lease_id l)"])
  qed
  have steps: "runs P \<sigma> (mbind (unlink_lease (le_lease_id l)) (\<lambda>_. mbind (unlink_job_lease (le_job_id l) (le_lease_id l)) (\<lambda>_.
      mbind (delete_operational_indexes env ?i False) (\<lambda>_. mret ())))) Q"
    by (rule runs_mbind, rule runs_writes(9), rule P(1), rule runs_mbind, rule runs_job_lease(2) [OF dur], rule P(2) [OF u],
        simp, rule runs_mbind, rule runs_delete_indexes [OF wf], rule mv, rule P(2) [OF w(1)], assumption, erule w(2), rule runs_mret)
       (use Q in \<open>simp add: without_lease_def\<close>)
  show ?thesis
    unfolding delete_lease_def resolve_lease_identity_def option.case prod.case mbind_assoc mbind_mret if_True not_False_eq_True
  proof (rule runs_mbind, rule runs_qlift, rule validate_identity_of, rule runs_mget, goal_cases)
    case (1 s)
    show ?case
    proof (cases "map_of (qs_index s) ?m = None")
      case True
      then show ?thesis by (simp add: mbind_assoc) (rule runs_mbind, rule runs_mcheck, simp, use steps in simp)
    next
      case False
      then have doc: "\<sigma> (IndexCell ?m) = Some (NodeV (LDoc (lease_index_document (iso_format (qe_codec env)) ?i)))"
        using index_lookup [OF 1, of "le_lease_id l"] manifest by auto
      show ?thesis
        unfolding if_P [OF False] mbind_assoc
        by (rule runs_mbind, rule runs_read_identity [OF wf id], rule doc, rule runs_mbind, rule runs_mcheck,
            rule refl, rule steps)
    qed
  qed
qed

section \<open>One recovery\<close>

record recovery =
  sr_base :: content
  sr_job :: RelayJob
  sr_target :: RelayJob
  sr_leases :: "Lease list"
  sr_event :: RelayEvent
  sr_doc :: job_index
  sr_before :: LeaseCapacityPair
  sr_after :: LeaseCapacityPair
  sr_token :: string

abbreviation sr_jid :: "recovery \<Rightarrow> string" where "sr_jid r \<equiv> rj_job_id (sr_job r)"
abbreviation sr_identity :: "recovery \<Rightarrow> Lease \<Rightarrow> LeaseIndexIdentity" where
  "sr_identity r l \<equiv> identity_of l (sr_job r)"
abbreviation sr_pairs :: "recovery \<Rightarrow> (string \<times> LeaseCapacityPair) list" where
  "sr_pairs r \<equiv> [(''before'', sr_before r), (''after'', sr_after r)]"
abbreviation sr_path :: "recovery \<Rightarrow> string" where "sr_path r \<equiv> intent_name ''stale_lease_recovery'' (sr_token r)"
abbreviation sr_sync :: "recovery \<Rightarrow> string" where "sr_sync r \<equiv> intent_name ''job_sync'' (sr_jid r)"
abbreviation sr_manifest :: "Lease \<Rightarrow> cell" where "sr_manifest l \<equiv> IndexCell (lease_index_path (le_lease_id l))"

definition sr_intent :: "recovery \<Rightarrow> queue_intent" where
  "sr_intent r = StaleRecoveryIntent (sr_jid r) (sr_job r) (sr_target r) (sr_leases r) (sr_event r)
     (Some (transition_json (sr_pairs r)))"

abbreviation sr_new_doc :: "recovery \<Rightarrow> job_index" where
  "sr_new_doc r \<equiv> AList.update ''latest_event_seq'' (JInt (re_seq (sr_event r))) (sr_doc r)"

definition recovery_ok :: "'x queue_env \<Rightarrow> recovery \<Rightarrow> bool" where
  "recovery_ok env r \<longleftrightarrow>
     env_ok env \<and> stale_intent_ok (sr_jid r) (sr_job r) (sr_target r) (sr_leases r) (sr_event r) \<and> durable_id (sr_jid r)
     \<and> (\<forall>n. sr_base r (IntentCell n) = None)
     \<and> sr_base r (JobCell (sr_jid r)) = Some (JobV (sr_job r))
     \<and> (\<forall>l \<in> set (sr_leases r). wf_identity (qe_codec env) (sr_identity r l)
          \<and> sr_base r (LeaseCell (le_lease_id l)) = Some (LeaseV l)
          \<and> sr_base r (sr_manifest l) =
               Some (NodeV (LDoc (lease_index_document (iso_format (qe_codec env)) (sr_identity r l)))))
     \<and> sr_base r (EventCell (sr_jid r, re_seq (sr_event r))) = None
     \<and> sr_base r (JobIndexCell (sr_jid r)) = Some (DocV (JObj (sr_doc r)))
     \<and> parse_job_index (sr_jid r) (JObj (sr_doc r)) = Inr (sr_doc r)
     \<and> (\<exists>n < re_seq (sr_event r). index_integer (sr_doc r) ''latest_event_seq'' = Inr n)
     \<and> bound_pair (sr_before r) \<and> bound_pair (sr_after r)
     \<and> sr_base r AggregateCell = Some (aggregate_value (sr_before r))
     \<and> sr_base r CheckpointCell = Some (checkpoint_value (sr_before r))"

definition sr_final :: "'x queue_env \<Rightarrow> recovery \<Rightarrow> content" where
  "sr_final env r = with_pair (sr_after r) (without_leases (qe_codec env) (sr_job r) (sr_leases r)
     ((synced_cells (sr_target r) ((sr_base r)(JobCell (sr_jid r) \<mapsto> JobV (sr_target r))))
       (EventCell (sr_jid r, re_seq (sr_event r)) \<mapsto> EventV (sr_event r),
        JobIndexCell (sr_jid r) \<mapsto> DocV (JObj (sr_new_doc r)))))"

text \<open>The entry's steps are in order: the job record first, each lease record before its index files.\<close>

definition sr_mixed :: "'x queue_env \<Rightarrow> recovery \<Rightarrow> content \<Rightarrow> bool" where
  "sr_mixed env r \<sigma> \<longleftrightarrow>
     rolling (IntentCell (sr_path r)) (sr_intent r) (sr_base r) (sr_final env r) (\<sigma>(IntentCell (sr_sync r) := None))
     \<and> \<sigma> (IntentCell (sr_sync r)) \<in> {None, Some (IntentV (JobSyncIntent (sr_jid r)))}
     \<and> (\<forall>l \<in> set (sr_leases r). \<sigma> (LeaseCell (le_lease_id l)) = None \<longrightarrow> \<sigma> (JobCell (sr_jid r)) = Some (JobV (sr_target r)))
     \<and> (\<forall>l \<in> set (sr_leases r). \<sigma> (sr_manifest l) = None \<longrightarrow> \<sigma> (LeaseCell (le_lease_id l)) = None)"

lemma sr_intent_names [simp]:
  "intent_name ''stale_lease_recovery'' x \<noteq> intent_name ''job_sync'' y"
  "intent_name ''job_sync'' y \<noteq> intent_name ''stale_lease_recovery'' x"
  by (simp_all add: intent_name_def)

lemma recovery_target:
  assumes "recovery_ok env r"
  shows "rj_job_id (sr_target r) = sr_jid r" "re_job_id (sr_event r) = sr_jid r" "sr_target r \<noteq> sr_job r"
    "distinct (map le_lease_id (sr_leases r))" "l \<in> set (sr_leases r) \<Longrightarrow> le_job_id l = sr_jid r"
    "1 \<le> re_seq (sr_event r)"
proof -
  have ok: "stale_intent_ok (sr_jid r) (sr_job r) (sr_target r) (sr_leases r) (sr_event r)"
    using assms by (simp add: recovery_ok_def)
  then show "rj_job_id (sr_target r) = sr_jid r" "re_job_id (sr_event r) = sr_jid r"
    "distinct (map le_lease_id (sr_leases r))" "l \<in> set (sr_leases r) \<Longrightarrow> le_job_id l = sr_jid r"
    "1 \<le> re_seq (sr_event r)"
    by (simp_all add: stale_intent_ok_def list_all_iff)
  have "rj_state (sr_job r) \<in> {LEASED, RUNNING}" "rj_state (sr_target r) \<in> {QUEUED, FAILED}"
    using ok by (simp_all add: stale_intent_ok_def)
  then show "sr_target r \<noteq> sr_job r" by auto
qed

lemma without_leases_cells [simp]:
  "without_leases codec job ls \<sigma> (JobCell k) = \<sigma> (JobCell k)"
  "without_leases codec job ls \<sigma> (ActiveCell k) = \<sigma> (ActiveCell k)"
  "without_leases codec job ls \<sigma> (QueuedCell k) = \<sigma> (QueuedCell k)"
  "without_leases codec job ls \<sigma> (LeaseCell k) = (if k \<in> le_lease_id ` set ls then None else \<sigma> (LeaseCell k))"
  "without_leases codec job ls \<sigma> (JobLeaseCell jk) =
     (if jk \<in> (\<lambda>l. (le_job_id l, le_lease_id l)) ` set ls then None else \<sigma> (JobLeaseCell jk))"
  "without_leases codec job ls \<sigma> (IndexCell p) =
     (if \<exists>l \<in> set ls. lease_files codec (identity_of l job) p \<noteq> None then None else \<sigma> (IndexCell p))"
  "without_leases codec job ls \<sigma> AggregateCell = \<sigma> AggregateCell"
  "without_leases codec job ls \<sigma> CheckpointCell = \<sigma> CheckpointCell"
  "without_leases codec job ls \<sigma> (IntentCell n) = \<sigma> (IntentCell n)"
  "without_leases codec job ls \<sigma> (EventCell ke) = \<sigma> (EventCell ke)"
  "without_leases codec job ls \<sigma> (JobIndexCell k) = \<sigma> (JobIndexCell k)"
  "without_leases codec job ls \<sigma> (DocCell k2) = \<sigma> (DocCell k2)"
  by (simp_all add: without_leases_def)

lemma sr_final_cells:
  assumes "recovery_ok env r"
  shows "sr_final env r (JobCell k) = (if k = sr_jid r then Some (JobV (sr_target r)) else sr_base r (JobCell k))"
    "sr_final env r (ActiveCell k) = (if k = sr_jid r then if terminal (rj_state (sr_target r)) then None
       else Some (JobV (sr_target r)) else sr_base r (ActiveCell k))"
    "sr_final env r (QueuedCell k) = (if k = sr_jid r then if rj_state (sr_target r) = QUEUED
       then Some (JobV (sr_target r)) else None else sr_base r (QueuedCell k))"
    "sr_final env r (LeaseCell k) = (if k \<in> le_lease_id ` set (sr_leases r) then None else sr_base r (LeaseCell k))"
    "sr_final env r (JobLeaseCell jk) =
       (if jk \<in> (\<lambda>l. (le_job_id l, le_lease_id l)) ` set (sr_leases r) then None else sr_base r (JobLeaseCell jk))"
    "sr_final env r (IndexCell p) = (if \<exists>l \<in> set (sr_leases r). lease_files (qe_codec env) (sr_identity r l) p \<noteq> None
       then None else sr_base r (IndexCell p))"
    "sr_final env r AggregateCell = Some (aggregate_value (sr_after r))"
    "sr_final env r CheckpointCell = Some (checkpoint_value (sr_after r))"
    "sr_final env r (IntentCell n) = None"
    "sr_final env r (EventCell ke) = (if ke = (sr_jid r, re_seq (sr_event r)) then Some (EventV (sr_event r))
       else sr_base r (EventCell ke))"
    "sr_final env r (JobIndexCell k) = (if k = sr_jid r then Some (DocV (JObj (sr_new_doc r))) else sr_base r (JobIndexCell k))"
    "sr_final env r (DocCell kd) = sr_base r (DocCell kd)"
  using assms recovery_target(1) [OF assms]
  by (simp_all add: sr_final_def synced_cells_def recovery_ok_def)

section \<open>Mixtures of a recovery\<close>

lemma sr_mixed_cell:
  assumes "sr_mixed env r \<sigma>" "c \<noteq> IntentCell (sr_path r)" "c \<noteq> IntentCell (sr_sync r)"
  shows "\<sigma> c = sr_base r c \<or> \<sigma> c = sr_final env r c"
  using assms rolling_cell(2) [of "IntentCell (sr_path r)" "sr_intent r" "sr_base r" "sr_final env r"
      "\<sigma>(IntentCell (sr_sync r) := None)" c]
  by (simp add: sr_mixed_def)

lemma sr_mixed_upd:
  assumes "sr_mixed env r \<sigma>" "v = sr_final env r c" "c \<noteq> IntentCell (sr_path r)" "c \<noteq> IntentCell (sr_sync r)"
    and "\<forall>l \<in> set (sr_leases r). c \<noteq> LeaseCell (le_lease_id l) \<and> c \<noteq> sr_manifest l"
    and "c = JobCell (sr_jid r) \<Longrightarrow> v = Some (JobV (sr_target r))"
  shows "sr_mixed env r (\<sigma>(c := v))"
proof -
  have "rolling (IntentCell (sr_path r)) (sr_intent r) (sr_base r) (sr_final env r) ((\<sigma>(IntentCell (sr_sync r) := None))(c := v))"
    by (rule rolling_upd) (use assms in \<open>simp_all add: sr_mixed_def\<close>)
  then show ?thesis
    using assms by (auto simp: sr_mixed_def fun_upd_twist [of c])
qed

lemma sr_mixed_sync:
  "sr_mixed env r \<sigma> \<Longrightarrow> v \<in> {None, Some (IntentV (JobSyncIntent (sr_jid r)))} \<Longrightarrow> sr_mixed env r (\<sigma>(IntentCell (sr_sync r) := v))"
  by (simp add: sr_mixed_def)

lemma document_injective:
  assumes "wf_identity codec i" "wf_identity codec j"
    and "lease_index_document (iso_format codec) i = lease_index_document (iso_format codec) j"
  shows "i = j"
proof -
  have "lease_index_identity_from_document (iso_parse codec) (lease_index_document (iso_format codec) i) label = Inr i"
    "lease_index_identity_from_document (iso_parse codec) (lease_index_document (iso_format codec) i) label = Inr j" for label
    using document_round_trip [OF assms(1)] document_round_trip [OF assms(2)] unfolding assms(3) by blast+
  then show ?thesis by (metis sum.inject(2))
qed

lemma distinct_manifests:
  assumes ok: "recovery_ok env r" and k: "k \<in> set (sr_leases r)" and l: "l \<in> set (sr_leases r)"
    and same: "lease_index_path (le_lease_id k) = lease_index_path (le_lease_id l)"
  shows "le_lease_id k = le_lease_id l"
proof -
  have wf: "wf_identity (qe_codec env) (sr_identity r k)" "wf_identity (qe_codec env) (sr_identity r l)"
    and cells: "sr_base r (sr_manifest k) = Some (NodeV (LDoc (lease_index_document (iso_format (qe_codec env)) (sr_identity r k))))"
      "sr_base r (sr_manifest l) = Some (NodeV (LDoc (lease_index_document (iso_format (qe_codec env)) (sr_identity r l))))"
    using ok k l by (auto simp: recovery_ok_def)
  have eq: "lease_index_document (iso_format (qe_codec env)) (sr_identity r k) =
      lease_index_document (iso_format (qe_codec env)) (sr_identity r l)"
    using cells unfolding same by simp
  have "sr_identity r k = sr_identity r l"
    by (rule document_injective [OF wf eq])
  then show ?thesis by (simp add: identity_of_def)
qed

lemma sr_mixed_delete:
  assumes ok: "recovery_ok env r" and mixed: "sr_mixed env r \<sigma>" and job: "\<sigma> (JobCell (sr_jid r)) = Some (JobV (sr_target r))"
    and l: "l \<in> set (sr_leases r)"
    and \<rho>: "between \<sigma> (without_lease (qe_codec env) (sr_job r) l \<sigma>) \<rho>" "\<rho> (LeaseCell (le_lease_id l)) = None"
  shows "sr_mixed env r \<rho> \<and> \<rho> (JobCell (sr_jid r)) = Some (JobV (sr_target r))"
proof -
  note cells = without_lease_between [OF \<rho>(1)]
  have j: "\<rho> (JobCell (sr_jid r)) = Some (JobV (sr_target r))" using cells [rule_format, of "JobCell (sr_jid r)"] job by auto
  have sync: "\<rho> (IntentCell n) = \<sigma> (IntentCell n)" for n using cells [rule_format, of "IntentCell n"] by auto
  have "rolling (IntentCell (sr_path r)) (sr_intent r) (sr_base r) (sr_final env r) (\<rho>(IntentCell (sr_sync r) := None))"
  proof (rule rolling_all)
    show "rolling (IntentCell (sr_path r)) (sr_intent r) (sr_base r) (sr_final env r) (\<sigma>(IntentCell (sr_sync r) := None))"
      using mixed by (simp add: sr_mixed_def)
    fix c
    show "(\<rho>(IntentCell (sr_sync r) := None)) c = sr_final env r c
        \<or> (\<rho>(IntentCell (sr_sync r) := None)) c = (\<sigma>(IntentCell (sr_sync r) := None)) c"
    proof (cases "\<rho> c = \<sigma> c")
      case False
      then have none: "\<rho> c = None" and c: "c = LeaseCell (le_lease_id l) \<or> c = JobLeaseCell (le_job_id l, le_lease_id l)
          \<or> (\<exists>p. c = IndexCell p \<and> lease_files (qe_codec env) (sr_identity r l) p \<noteq> None)"
        using cells [rule_format, of c] by simp_all
      from c l have "sr_final env r c = None"
        by (elim disjE exE conjE) (simp_all only: sr_final_cells [OF ok], auto)
      with none c show ?thesis by auto
    qed simp
  qed (simp add: sync)
  moreover have "\<rho> (LeaseCell (le_lease_id k)) = None" if k: "k \<in> set (sr_leases r)" and none: "\<rho> (sr_manifest k) = None" for k
  proof (cases "le_lease_id k = le_lease_id l")
    case False
    have "lease_files (qe_codec env) (sr_identity r l) (lease_index_path (le_lease_id k)) = None"
    proof -
      have "lease_index_path (le_lease_id k) \<noteq> lease_index_path (le_lease_id l)"
        using False distinct_manifests [OF ok k l] by auto
      then show ?thesis using index_path_not_ref [of "le_lease_id k" "sr_identity r l"] by (auto simp: lease_files_def identity_of_def)
    qed
    then have "\<rho> (sr_manifest k) = \<sigma> (sr_manifest k)" using cells [rule_format, of "sr_manifest k"] by auto
    then have "\<sigma> (LeaseCell (le_lease_id k)) = None" using none mixed k by (auto simp: sr_mixed_def)
    then show ?thesis using cells [rule_format, of "LeaseCell (le_lease_id k)"] by auto
  qed (use \<rho>(2) in simp)
  ultimately show ?thesis using j sync mixed by (simp add: sr_mixed_def)
qed

section \<open>The transition from any mixture\<close>

lemma runs_mseq_same:
  fixes f :: "'b \<Rightarrow> ('x, unit) queue_op"
  assumes "\<And>x R. x \<in> set xs \<Longrightarrow> R () \<sigma> \<Longrightarrow> runs P \<sigma> (f x) R" "Q () \<sigma>"
  shows "runs P \<sigma> (mseq f xs) Q"
  using assms
proof (induction xs)
  case Nil
  show ?case unfolding mseq.simps by (rule runs_mret, rule Nil(2))
next
  case (Cons x xs)
  have rest: "runs P \<sigma> (mseq f xs) Q"
  proof (rule Cons.IH)
    fix y R assume "y \<in> set xs" "R () \<sigma>"
    then show "runs P \<sigma> (f y) R" by (intro Cons.prems(1)) simp_all
  qed (rule Cons.prems(2))
  show ?case unfolding mseq.simps by (rule runs_mbind, rule Cons.prems(1), simp, rule rest)
qed

lemma sr_job_cell:
  assumes "recovery_ok env r" "sr_mixed env r \<sigma>"
  shows "\<sigma> (JobCell (sr_jid r)) = Some (JobV (sr_job r)) \<or> \<sigma> (JobCell (sr_jid r)) = Some (JobV (sr_target r))"
  using sr_mixed_cell [OF assms(2), of "JobCell (sr_jid r)"] assms(1) by (auto simp: sr_final_cells [OF assms(1)] recovery_ok_def)

lemma sr_lease_cells:
  assumes ok: "recovery_ok env r" and mixed: "sr_mixed env r \<sigma>" and l: "l \<in> set (sr_leases r)"
  shows "\<sigma> (LeaseCell (le_lease_id l)) = None \<or> \<sigma> (LeaseCell (le_lease_id l)) = Some (LeaseV l)"
    "\<sigma> (sr_manifest l) \<in> {None, Some (NodeV (LDoc (lease_index_document (iso_format (qe_codec env)) (sr_identity r l))))}"
proof -
  have lf: "lease_files (qe_codec env) (sr_identity r l) (lease_index_path (le_lease_id l)) \<noteq> None"
    using manifest_in_files [of "qe_codec env" "sr_identity r l"] by (simp add: identity_of_def)
  have base: "sr_base r (LeaseCell (le_lease_id l)) = Some (LeaseV l)"
    "sr_base r (sr_manifest l) = Some (NodeV (LDoc (lease_index_document (iso_format (qe_codec env)) (sr_identity r l))))"
    using ok l by (auto simp: recovery_ok_def)
  have final: "sr_final env r (LeaseCell (le_lease_id l)) = None" "sr_final env r (sr_manifest l) = None"
    using l lf unfolding sr_final_cells [OF ok] by auto
  show "\<sigma> (LeaseCell (le_lease_id l)) = None \<or> \<sigma> (LeaseCell (le_lease_id l)) = Some (LeaseV l)"
    using sr_mixed_cell [OF mixed, of "LeaseCell (le_lease_id l)"] base(1) final(1) by auto
  show "\<sigma> (sr_manifest l) \<in> {None, Some (NodeV (LDoc (lease_index_document (iso_format (qe_codec env)) (sr_identity r l))))}"
    using sr_mixed_cell [OF mixed, of "sr_manifest l"] base(2) final(2) by auto
qed

lemma runs_check_stale:
  fixes env :: "'x queue_env"
  assumes ok: "recovery_ok env r" and mixed: "sr_mixed env r \<sigma>" and l: "l \<in> set (sr_leases r)"
    and current: "\<sigma> (JobCell (sr_jid r)) = Some (JobV c)" and R: "R () \<sigma>"
  shows "runs P \<sigma> (check_stale_lease env (sr_job r) (Some c) l) R"
proof -
  let ?x = "case \<sigma> (LeaseCell (le_lease_id l)) of Some (LeaseV k) \<Rightarrow> Some k | _ \<Rightarrow> None"
  note cells = sr_lease_cells [OF ok mixed l]
  have wf: "wf_identity (qe_codec env) (sr_identity r l)" using ok l by (simp add: recovery_ok_def)
  then have dur: "durable_id (le_lease_id l)" by (simp add: wf_identity_def identity_of_def)
  have lid: "li_lease_id (sr_identity r l) = le_lease_id l" by (simp add: identity_of_def)
  have id: "lease_index_identity l (sr_job r) = Inr (sr_identity r l)"
    by (rule lease_index_identity_eq [OF recovery_target(5) [OF ok l] wf])
  have x: "\<sigma> (LeaseCell (le_lease_id l)) = map_option LeaseV ?x" "?x = None \<or> ?x = Some l"
    using cells(1) by auto
  have c1: "\<not> (?x = None \<and> Some c = Some (sr_job r))"
    using mixed l current x recovery_target(3) [OF ok] by (auto simp: sr_mixed_def)
  have c2: "\<sigma> (sr_manifest l) = None \<Longrightarrow> ?x = None" using mixed l by (auto simp: sr_mixed_def)
  show ?thesis
    unfolding check_stale_lease_def
  proof (rule runs_mbind, rule runs_read_lease [where r = ?x], rule x(1), goal_cases)
    case (1 k)
    then show ?case using x(2) dur by auto
  next
    case 2
    show ?case
    proof (rule runs_mbind, rule runs_mcheck, rule x(2), rule runs_mbind, rule runs_mcheck, rule c1, rule runs_mget, goal_cases)
      case (1 s)
      show ?case
      proof (cases "map_of (qs_index s) (lease_index_path (le_lease_id l)) = None")
        case True
        then have absent: "?x = None" using c2 index_lookup [OF 1, of "le_lease_id l"] by simp
        have n: "\<not> map_of (qs_index s) (lease_index_path (le_lease_id l)) \<noteq> None" using True by simp
        show ?thesis unfolding if_not_P [OF n] by (rule runs_mcheck, rule absent, rule R)
      next
        case False
        then have doc: "\<sigma> (sr_manifest l) = Some (NodeV (LDoc (lease_index_document (iso_format (qe_codec env)) (sr_identity r l))))"
          using index_lookup [OF 1, of "le_lease_id l"] cells(2) by auto
        show ?thesis
          unfolding if_P [OF False]
          by (rule runs_mbind, rule runs_qlift, rule id, rule runs_mbind, rule runs_read_identity [OF wf lid], rule doc,
              rule runs_mcheck, rule refl, rule R)
      qed
    qed
  qed
qed

lemma runs_recovery_event:
  fixes env :: "'x queue_env" and r :: recovery
  assumes ok: "recovery_ok env r" and mixed: "sr_mixed env r \<sigma>"
    and P: "\<And>\<rho>. sr_mixed env r \<rho> \<Longrightarrow> P \<rho>"
    and Q: "Q () (\<sigma>(EventCell (sr_jid r, re_seq (sr_event r)) \<mapsto> EventV (sr_event r),
      JobIndexCell (sr_jid r) \<mapsto> DocV (JObj (sr_new_doc r))))"
  shows "runs P \<sigma> (write_recovery_event (sr_event r)) Q"
proof -
  let ?e = "sr_event r" and ?k = "sr_jid r" and ?q = "re_seq (sr_event r)"
  let ?ec = "EventCell (?k, ?q)"
  let ?\<sigma>e = "\<sigma>(?ec \<mapsto> EventV ?e)"
  note final = sr_final_cells [OF ok] and rt = recovery_target [OF ok]
  have dur: "durable_id ?k" using ok by (simp add: recovery_ok_def)
  obtain n where n: "n < ?q" "index_integer (sr_doc r) ''latest_event_seq'' = Inr n"
    and doc: "sr_base r (JobIndexCell ?k) = Some (DocV (JObj (sr_doc r)))" "parse_job_index ?k (JObj (sr_doc r)) = Inr (sr_doc r)"
    and none: "sr_base r ?ec = None"
    using ok by (auto simp: recovery_ok_def)
  have q0: "0 \<le> ?q" using rt(6) by simp
  have ev: "\<sigma> ?ec = None \<or> \<sigma> ?ec = Some (EventV ?e)"
    using sr_mixed_cell [OF mixed, of ?ec] none by (auto simp: final)
  have me: "sr_mixed env r ?\<sigma>e" by (rule sr_mixed_upd [OF mixed]) (simp_all add: final)
  have parse': "parse_job_index ?k (JObj (sr_new_doc r)) = Inr (sr_new_doc r)"
    by (rule parse_index_update [OF doc(2) q0])
  have latest': "index_integer (sr_new_doc r) ''latest_event_seq'' = Inr ?q" using q0 by (simp add: index_integer_update)
  have idx: "\<sigma> (JobIndexCell ?k) = Some (DocV (JObj (sr_doc r))) \<or> \<sigma> (JobIndexCell ?k) = Some (DocV (JObj (sr_new_doc r)))"
    using sr_mixed_cell [OF mixed, of "JobIndexCell ?k"] doc(1) by (auto simp: final)
  have catch_up: "runs P ?\<sigma>e (mbind (read_job_index ?k) (\<lambda>index. case index of
         None \<Rightarrow> conflict (''stale recovery job index is missing: '' @ ?k)
       | Some d \<Rightarrow> mbind (qlift (index_integer d ''latest_event_seq'')) (\<lambda>latest.
             if latest < ?q then update_job_index ?k [(''latest_event_seq'', JInt ?q)] else mret ()))) Q"
    using idx
  proof
    assume old: "\<sigma> (JobIndexCell ?k) = Some (DocV (JObj (sr_doc r)))"
    then have old': "?\<sigma>e (JobIndexCell ?k) = Some (DocV (JObj (sr_doc r)))" by simp
    have upd: "runs P ?\<sigma>e (update_job_index ?k [(''latest_event_seq'', JInt ?q)]) Q"
      unfolding update_job_index_def
      by (intro runs_mbind runs_read_job_index [where \<sigma> = ?\<sigma>e and d = "sr_doc r", OF dur old' doc(2)])
         (use P [OF me] Q in \<open>auto intro!: runs_writes\<close>)
    show ?thesis
      by (rule runs_mbind, rule runs_read_job_index [where \<sigma> = ?\<sigma>e and d = "sr_doc r", OF dur old' doc(2)],
          simp only: option.case, rule runs_mbind, rule runs_qlift, rule n(2), simp only: n(1) if_True, rule upd)
  next
    assume new: "\<sigma> (JobIndexCell ?k) = Some (DocV (JObj (sr_new_doc r)))"
    then have new': "?\<sigma>e (JobIndexCell ?k) = Some (DocV (JObj (sr_new_doc r)))" by simp
    have same: "?\<sigma>e(JobIndexCell ?k \<mapsto> DocV (JObj (sr_new_doc r))) = ?\<sigma>e" using new' by (simp add: fun_upd_idem)
    show ?thesis
      by (rule runs_mbind, rule runs_read_job_index [where \<sigma> = ?\<sigma>e and d = "sr_new_doc r", OF dur new' parse'],
          simp only: option.case, rule runs_mbind, rule runs_qlift, rule latest', simp only: less_irrefl if_False,
          rule runs_mret, use Q same in simp)
  qed
  have read: "runs P \<sigma> (read_optional_event ?k ?q) R"
    if "R (if \<sigma> ?ec = None then None else Some ?e) \<sigma>" for R
    unfolding read_optional_event_def
  proof (rule runs_mget, goal_cases)
    case (1 s)
    have "map_option EventV (map_of (qs_events s) (?k, ?q)) = \<sigma> ?ec" using holds_cells [OF 1, of ?ec] by simp
    then have "map_of (qs_events s) (?k, ?q) = (if \<sigma> ?ec = None then None else Some ?e)"
      using ev by (cases "map_of (qs_events s) (?k, ?q)") auto
    then show ?case using that rt(2) by (cases "\<sigma> ?ec = None") (auto intro!: runs_mret runs_mbind runs_mcheck)
  qed
  have store: "runs P \<sigma> (if (if \<sigma> ?ec = None then None else Some ?e) = None then write_event ?e else mret ()) R"
    if R: "R () ?\<sigma>e" for R
  proof (cases "\<sigma> ?ec = None")
    case True
    then show ?thesis using R P [OF mixed] rt(2) by (auto intro!: runs_writes)
  next
    case False
    then have "?\<sigma>e = \<sigma>" using ev by (auto simp: fun_upd_idem)
    with False R show ?thesis by (simp only: if_False option.distinct) (rule runs_mret, simp)
  qed
  show ?thesis
    unfolding write_recovery_event_def rt(2)
    by (rule runs_mbind, rule read, rule runs_mbind, rule runs_mcheck, simp, rule runs_mbind, rule store, rule catch_up)
qed

lemma runs_delete_all:
  fixes env :: "'x queue_env"
  assumes ok: "recovery_ok env r" and P: "\<And>\<rho>. sr_mixed env r \<rho> \<Longrightarrow> P \<rho>"
    and "set ls \<subseteq> set (sr_leases r)" "sr_mixed env r \<sigma>" "\<sigma> (JobCell (sr_jid r)) = Some (JobV (sr_target r))"
    and "sr_mixed env r (without_leases (qe_codec env) (sr_job r) ls \<sigma>) \<Longrightarrow> Q () (without_leases (qe_codec env) (sr_job r) ls \<sigma>)"
  shows "runs P \<sigma> (mseq (\<lambda>lease. mbind (qlift (lease_index_identity lease (sr_job r))) (\<lambda>i.
      delete_lease env lease (Some (sr_job r)) (Some path) (Some i) False)) ls) Q"
  using assms(3-6)
proof (induction ls arbitrary: \<sigma>)
  case Nil
  show ?case unfolding mseq.simps by (rule runs_mret) (use Nil in \<open>simp add: without_leases_simps\<close>)
next
  case (Cons l ls)
  have l: "l \<in> set (sr_leases r)" using Cons.prems(1) by simp
  have wf: "wf_identity (qe_codec env) (sr_identity r l)" using ok l by (simp add: recovery_ok_def)
  have id: "lease_index_identity l (sr_job r) = Inr (sr_identity r l)"
    by (rule lease_index_identity_eq [OF recovery_target(5) [OF ok l] wf])
  let ?\<tau> = "without_lease (qe_codec env) (sr_job r) l \<sigma>"
  note mixed = sr_mixed_delete [OF ok Cons.prems(2,3) l]
  have "?\<tau> (LeaseCell (le_lease_id l)) = None" by (simp add: without_lease_def)
  with mixed [of ?\<tau>] have \<tau>: "sr_mixed env r ?\<tau>" "?\<tau> (JobCell (sr_jid r)) = Some (JobV (sr_target r))"
    by (simp_all add: between_def)
  have rest: "runs P ?\<tau> (mseq (\<lambda>lease. mbind (qlift (lease_index_identity lease (sr_job r))) (\<lambda>i.
      delete_lease env lease (Some (sr_job r)) (Some path) (Some i) False)) ls) Q"
    by (rule Cons.IH [OF _ \<tau>]) (use Cons.prems in \<open>simp_all add: without_leases_simps\<close>)
  show ?case
    unfolding mseq.simps mbind_assoc
    by (rule runs_mbind, rule runs_qlift, rule id, rule runs_mbind, rule runs_delete_under [OF wf],
        rule sr_lease_cells(2) [OF ok Cons.prems(2) l], rule P [OF Cons.prems(2)])
       (use mixed P rest in blast)+
qed

definition sr_written :: "recovery \<Rightarrow> content \<Rightarrow> content" where
  "sr_written r \<sigma> = (synced_cells (sr_target r) (\<sigma>(JobCell (sr_jid r) \<mapsto> JobV (sr_target r))))(IntentCell (sr_sync r) := None)"

lemma sr_job_steps:
  assumes ok: "recovery_ok env r" and mixed: "sr_mixed env r \<sigma>" and v: "v \<in> {None, Some (IntentV (JobSyncIntent (sr_jid r)))}"
  defines "\<tau> \<equiv> \<sigma>(IntentCell (sr_sync r) := v)"
  shows "sr_mixed env r \<tau>" "sr_mixed env r (\<tau>(JobCell (sr_jid r) \<mapsto> JobV (sr_target r)))"
    "sr_mixed env r (\<tau>(JobCell (sr_jid r) \<mapsto> JobV (sr_target r), ActiveCell (sr_jid r) :=
      (if terminal (rj_state (sr_target r)) then None else Some (JobV (sr_target r)))))"
    "sr_mixed env r (synced_cells (sr_target r) (\<tau>(JobCell (sr_jid r) \<mapsto> JobV (sr_target r))))"
proof -
  note final = sr_final_cells [OF ok]
  show t: "sr_mixed env r \<tau>" unfolding \<tau>_def by (rule sr_mixed_sync [OF mixed v])
  show j: "sr_mixed env r (\<tau>(JobCell (sr_jid r) \<mapsto> JobV (sr_target r)))"
    by (rule sr_mixed_upd [OF t]) (simp_all add: final)
  show a: "sr_mixed env r (\<tau>(JobCell (sr_jid r) \<mapsto> JobV (sr_target r), ActiveCell (sr_jid r) :=
      (if terminal (rj_state (sr_target r)) then None else Some (JobV (sr_target r)))))"
    by (rule sr_mixed_upd [OF j]) (simp_all add: final)
  show "sr_mixed env r (synced_cells (sr_target r) (\<tau>(JobCell (sr_jid r) \<mapsto> JobV (sr_target r))))"
    unfolding synced_cells_def recovery_target(1) [OF ok] by (rule sr_mixed_upd [OF a]) (simp_all add: final)
qed

lemma sr_converges:
  assumes ok: "recovery_ok env r" and mixed: "sr_mixed env r \<sigma>"
  shows "(with_pair (sr_after r) (without_leases (qe_codec env) (sr_job r) (sr_leases r) ((sr_written r \<sigma>)
      (EventCell (sr_jid r, re_seq (sr_event r)) \<mapsto> EventV (sr_event r), JobIndexCell (sr_jid r) \<mapsto> DocV (JObj (sr_new_doc r))))))
      (IntentCell (sr_path r) := None) = sr_final env r" (is "?l = _")
proof (rule ext)
  fix c
  have base: "sr_base r (IntentCell n) = None" for n using ok by (simp add: recovery_ok_def)
  show "?l c = sr_final env r c"
  proof (cases "c = IntentCell (sr_path r) \<or> c = IntentCell (sr_sync r)")
    case True
    then show ?thesis by (auto simp: sr_final_cells [OF ok] sr_written_def)
  next
    case False
    with sr_mixed_cell [OF mixed, of c] base show ?thesis
      by (cases c) (auto simp: sr_final_cells [OF ok] sr_written_def synced_cells_def recovery_target(1) [OF ok] split: if_splits)
  qed
qed

lemma sr_pairs_ok:
  assumes "recovery_ok env r"
  shows "transition_names (sr_pairs r)" "\<forall>(name, p) \<in> set (sr_pairs r). bound_pair p" "distinct (map fst (sr_pairs r))"
  using assms by (auto simp: recovery_ok_def transition_names_def)

lemma sr_torn:
  assumes ok: "recovery_ok env r" and mixed: "sr_mixed env r \<sigma>"
  shows "torn (map snd (sr_pairs r)) (capacity_of \<sigma>)"
proof -
  have "torn [sr_before r, sr_after r] (capacity_of (\<sigma>(IntentCell (sr_sync r) := None)))"
    by (rule rolling_torn [of "IntentCell (sr_path r)" "sr_intent r" "sr_base r" "sr_final env r"])
       (use ok mixed in \<open>simp_all add: sr_mixed_def sr_final_cells [OF ok] recovery_ok_def\<close>)
  then show ?thesis by (simp add: capacity_of_def)
qed

lemma runs_apply_recovery:
  fixes env :: "'x queue_env"
  assumes ok: "recovery_ok env r" and mixed: "sr_mixed env r \<sigma>"
    and P: "\<And>\<rho>. sr_mixed env r \<rho> \<Longrightarrow> P \<rho>" and Q: "Q (sr_target r) (sr_final env r)"
  shows "runs P \<sigma> (apply_stale_lease_recovery_intent env (sr_path r) (sr_jid r) (sr_job r) (sr_target r) (sr_leases r)
    (sr_event r) (Some (transition_json (sr_pairs r)))) Q"
proof -
  note rt = recovery_target [OF ok] and final = sr_final_cells [OF ok]
  have env: "env_ok env" and stale: "stale_intent_ok (sr_jid r) (sr_job r) (sr_target r) (sr_leases r) (sr_event r)"
    and dur: "durable_id (sr_jid r)" using ok by (simp_all add: recovery_ok_def)
  obtain c where c: "\<sigma> (JobCell (sr_jid r)) = Some (JobV c)" "c = sr_job r \<or> c = sr_target r"
    using sr_job_cell [OF ok mixed] by auto
  let ?w = "sr_written r \<sigma>"
  let ?e = "?w(EventCell (sr_jid r, re_seq (sr_event r)) \<mapsto> EventV (sr_event r))"
  let ?x = "?e(JobIndexCell (sr_jid r) \<mapsto> DocV (JObj (sr_new_doc r)))"
  let ?d = "without_leases (qe_codec env) (sr_job r) (sr_leases r) ?x"
  let ?g = "?d(AggregateCell \<mapsto> aggregate_value (sr_after r))"
  have w: "sr_mixed env r ?w"
    unfolding sr_written_def by (rule sr_mixed_sync [OF sr_job_steps(4) [OF ok mixed, of "\<sigma> (IntentCell (sr_sync r))", simplified]])
       (use mixed in \<open>simp_all add: sr_mixed_def\<close>)
  have e: "sr_mixed env r ?e" by (rule sr_mixed_upd [OF w]) (simp_all add: final)
  have x: "sr_mixed env r ?x" by (rule sr_mixed_upd [OF e]) (simp_all add: final)
  have xj: "?x (JobCell (sr_jid r)) = Some (JobV (sr_target r))" by (simp add: sr_written_def synced_cells_def)
  have wjob: "runs P \<sigma> (write_job env (sr_target r)) R" if "R () ?w" for R
  proof (rule runs_write_job [OF env, of P, OF P [OF mixed]], goal_cases)
    case (1 \<tau>)
    with sr_job_steps [OF ok mixed, of "Some (IntentV (JobSyncIntent (sr_jid r)))"] P show ?case
      unfolding rt(1) by simp
  next
    case 2
    show ?case using that by (simp add: sr_written_def rt(1))
  qed
  have tail: "runs P ?d (mbind (apply_capacity_transition (transition_json (sr_pairs r)) ''after'' label) (\<lambda>_.
      mbind (unlink_intent (sr_path r)) (\<lambda>_. mret (sr_target r)))) Q" if d: "sr_mixed env r ?d" for label
  proof -
    have g: "sr_mixed env r ?g" by (rule sr_mixed_upd [OF d]) (simp_all add: final)
    have h: "sr_mixed env r (with_pair (sr_after r) ?d)"
      unfolding with_pair_def by (rule sr_mixed_upd [OF g]) (simp_all add: final)
    show ?thesis
      by (rule runs_mbind, rule runs_apply_capacity [OF sr_pairs_ok [OF ok], of "''after''" "sr_after r"], simp,
          rule sr_torn [OF ok d], rule P [OF d], rule P [OF g], rule runs_mbind, rule runs_writes(10), rule P [OF h],
          rule runs_mret, unfold sr_converges [OF ok mixed], rule Q)
  qed
  show ?thesis
    unfolding apply_stale_lease_recovery_intent_def finish_capacity_def option.case mbind_assoc mbind_mret
    by (rule runs_mbind, rule runs_mcheck, rule stale, rule runs_mbind, rule runs_read_job [where r = "Some c"],
        simp add: c, (use c(2) rt(1) dur in \<open>auto\<close>)[1], rule runs_mbind, rule runs_mcheck, use c(2) in simp,
        rule runs_mbind, rule runs_mseq_same, rule runs_check_stale [OF ok mixed], assumption, rule c(1), assumption,
        rule runs_mbind, rule wjob, rule runs_mbind, rule runs_recovery_event [OF ok w], erule P, rule runs_mbind,
        rule runs_delete_all [OF ok], erule P, rule subset_refl, rule x, rule xj, erule tail)
qed

section \<open>Replay\<close>

lemma runs_replay_two:
  fixes env :: "'x queue_env"
  assumes cells: "\<And>n. \<sigma> (IntentCell n) = (if n = p then Some (IntentV x) else if n = q then Some (IntentV y) else None)"
    and pq: "p \<noteq> q" "intent_order x < intent_order y" and good: "\<And>e. x \<noteq> BadIntent e" "\<And>e. y \<noteq> BadIntent e"
    and run: "runs P \<sigma> (replay_intent env (p, x)) (\<lambda>js \<tau>. runs P \<tau> (replay_intent env (q, y)) (\<lambda>ks \<rho>. Q (js @ ks) \<rho>))"
  shows "runs P \<sigma> (reconcile_transition_intents env) Q"
  unfolding reconcile_transition_intents_def
proof (rule runs_mbind, rule runs_read_intents [where ns = "[p, q]"])
  show "n \<in> set [p, q]" if "\<sigma> (IntentCell n) \<noteq> None" for n using that cells [of n] by (auto split: if_splits)
  show "\<sigma> (IntentCell n) \<noteq> Some (IntentV (BadIntent e))" for n e using cells [of n] good by auto
  fix xs :: "(string \<times> queue_intent) list"
  assume "distinct (map fst xs)" "\<And>n. map_option IntentV (map_of xs n) = \<sigma> (IntentCell n)"
  then have sorted: "sort_key (\<lambda>(_, intent). intent_order intent) xs = [(p, x), (q, y)]"
    by (rule two_intents) (rule cells, rule pq, rule pq)
  have both: "mbind (mmap (replay_intent env) [(p, x), (q, y)]) (\<lambda>jobs. mret (concat jobs)) =
      mbind (replay_intent env (p, x)) (\<lambda>js. mbind (replay_intent env (q, y)) (\<lambda>ks. mret (js @ ks)))"
    by (simp only: mmap.simps mbind_assoc mbind_mret concat.simps append_Nil2)
  show "runs P \<sigma> (mbind (mmap (replay_intent env) (sort_key (\<lambda>(_, intent). intent_order intent) xs))
      (\<lambda>jobs. mret (concat jobs))) Q"
    unfolding sorted both
    by (rule runs_mbind, rule runs_weaken [OF run], rule runs_mbind, erule runs_weaken, rule runs_mret)
qed simp

definition sr_pending :: "'x queue_env \<Rightarrow> recovery \<Rightarrow> content \<Rightarrow> bool" where
  "sr_pending env r \<sigma> \<longleftrightarrow> sr_mixed env r \<sigma> \<or> \<sigma> = sr_final env r"

lemma runs_resync_final:
  fixes env :: "'x queue_env"
  assumes ok: "recovery_ok env r" and Q: "Q [] (sr_final env r)"
  shows "runs (sr_pending env r) (sr_final env r) (replay_intent env (sr_sync r, JobSyncIntent (sr_jid r))) Q"
proof -
  note final = sr_final_cells [OF ok] and rt = recovery_target [OF ok]
  have env: "env_ok env" and dur: "durable_id (sr_jid r)" using ok by (simp_all add: recovery_ok_def)
  have active: "(sr_final env r)(ActiveCell (sr_jid r) := (if terminal (rj_state (sr_target r)) then None
      else Some (JobV (sr_target r)))) = sr_final env r" by (rule fun_upd_idem) (simp add: final)
  have queued: "(sr_final env r)(QueuedCell (sr_jid r) := (if rj_state (sr_target r) = QUEUED
      then Some (JobV (sr_target r)) else None)) = sr_final env r" by (rule fun_upd_idem) (simp add: final)
  have s: "synced_cells (sr_target r) (sr_final env r) = sr_final env r"
    unfolding synced_cells_def rt(1) active queued ..
  have u: "(sr_final env r)(IntentCell (sr_sync r) := None) = sr_final env r" by (rule fun_upd_idem) (simp add: final)
  have here: "sr_pending env r (sr_final env r)" by (simp add: sr_pending_def)
  show ?thesis
    unfolding replay_intent.simps replay_job_sync_def mbind_assoc
    by (rule runs_mbind, rule runs_mcheck, rule durable_nonempty [OF dur], rule runs_mbind,
        rule runs_read_job [where r = "Some (sr_target r)"], simp add: final, (use rt(1) dur in \<open>auto\<close>)[1],
        simp only: option.case, rule runs_mbind, rule runs_sync_job_derived [OF env], rule here,
        unfold rt(1) active s, rule here, rule runs_mbind, rule runs_writes(10), rule here, unfold u, rule runs_mret, rule Q)
qed

interpretation recovery: journaled env "\<lambda>\<tau>. recovery_ok env r \<and> sr_pending env r \<tau>" "\<lambda>\<tau>. \<tau> = sr_final env r" for env r
proof unfold_locales
  fix \<sigma> assume *: "recovery_ok env r \<and> sr_pending env r \<sigma>"
  then have ok: "recovery_ok env r" by simp
  have base: "sr_base r (IntentCell n) = None" "sr_final env r (IntentCell n) = None" for n
    using ok by (simp_all add: recovery_ok_def sr_final_cells)
  have "runs (sr_pending env r) \<sigma> (reconcile_transition_intents env) (\<lambda>_ \<tau>. \<tau> = sr_final env r)"
  proof (cases "\<sigma> = sr_final env r")
    case True
    then show ?thesis by (intro runs_replay_none) (simp_all add: base)
  next
    case False
    then have mixed: "sr_mixed env r \<sigma>" using * by (simp add: sr_pending_def)
    have roll: "rolling (IntentCell (sr_path r)) (sr_intent r) (sr_base r) (sr_final env r) (\<sigma>(IntentCell (sr_sync r) := None))"
      and sync: "\<sigma> (IntentCell (sr_sync r)) \<in> {None, Some (IntentV (JobSyncIntent (sr_jid r)))}"
      using mixed by (simp_all add: sr_mixed_def)
    have cells: "\<sigma> (IntentCell n) = (if n = sr_path r then Some (IntentV (sr_intent r)) else None)" if "n \<noteq> sr_sync r" for n
      using rolling_intents [OF roll base, of n] that by simp
    have apply_: "runs (sr_pending env r) \<sigma> (replay_intent env (sr_path r, sr_intent r)) R"
      if "R [sr_target r] (sr_final env r)" for R
      unfolding sr_intent_def replay_intent.simps
      by (rule runs_mbind, rule runs_apply_recovery [OF ok mixed], simp add: sr_pending_def, rule runs_mret, rule that)
    show ?thesis
    proof (cases "\<sigma> (IntentCell (sr_sync r)) = None")
      case True
      then have "\<sigma> (IntentCell n) = (if n = sr_path r then Some (IntentV (sr_intent r)) else None)" for n
        using cells [of n] by (cases "n = sr_sync r") auto
      then show ?thesis by (rule runs_replay_one) (simp add: sr_intent_def, rule apply_, simp)
    next
      case False
      then have s: "\<sigma> (IntentCell (sr_sync r)) = Some (IntentV (JobSyncIntent (sr_jid r)))" using sync by auto
      have "\<sigma> (IntentCell n) = (if n = sr_path r then Some (IntentV (sr_intent r))
          else if n = sr_sync r then Some (IntentV (JobSyncIntent (sr_jid r))) else None)" for n
        using cells [of n] s by (cases "n = sr_sync r") auto
      then show ?thesis
        by (rule runs_replay_two) (simp, simp add: sr_intent_def, simp add: sr_intent_def, simp, rule apply_,
          rule runs_resync_final [OF ok], simp)
    qed
  qed
  then show "runs (\<lambda>\<tau>. recovery_ok env r \<and> sr_pending env r \<tau>) \<sigma> (reconcile_transition_intents env)
      (\<lambda>_ \<tau>. \<tau> = sr_final env r)"
    by (rule runs_weaken_crash) (use ok in simp)
qed

section \<open>Recovering a job of a settled store\<close>

definition recovers_to ::
  "'x queue_env \<Rightarrow> LeaseIndexIdentity set \<Rightarrow> content \<Rightarrow> RelayJob \<Rightarrow> Lease list \<Rightarrow> int \<Rightarrow> RelayEvent list \<Rightarrow> recovery \<Rightarrow> bool" where
  "recovers_to env L \<sigma> job expired max_attempts es r \<longleftrightarrow> recovery_ok env r \<and> sr_base r = \<sigma> \<and> sr_job r = job
     \<and> sr_leases r = expired \<and> (\<exists>now. sr_target r = recovered job max_attempts now)
     \<and> re_seq (sr_event r) = int (length es) + 1
     \<and> counts_of (L - (\<lambda>l. identity_of l job) ` set expired) (sr_after r)"

definition recovered_store ::
  "'x queue_env \<Rightarrow> LeaseIndexIdentity set \<Rightarrow> RelayJob \<Rightarrow> Lease list \<Rightarrow> int \<Rightarrow> RelayEvent list \<Rightarrow> RelayJob \<Rightarrow> content \<Rightarrow> bool" where
  "recovered_store env L job expired max_attempts es target \<sigma> \<longleftrightarrow>
     settled env (L - (\<lambda>l. identity_of l job) ` set expired) {} \<sigma>
     \<and> (\<exists>now. target = recovered job max_attempts now) \<and> \<sigma> (JobCell (rj_job_id job)) = Some (JobV target)
     \<and> (\<exists>e. event_log 0 \<sigma> (rj_job_id job) (es @ [e]) \<and> re_event_type e = recovery_event_type (rj_state target)
          \<and> re_payload e = recovery_event_payload (rj_state target) expired (rj_state job))"

lemma settled_recovered:
  assumes \<sigma>: "settled env L {} \<sigma>" and r: "recovers_to env L \<sigma> job expired max_attempts es r"
    and E: "(\<lambda>l. identity_of l job) ` set expired \<subseteq> L"
  shows "settled env (L - (\<lambda>l. identity_of l job) ` set expired) {} (sr_final env r)"
proof -
  let ?E = "(\<lambda>l. identity_of l job) ` set expired"
  have ok: "recovery_ok env r" and fields: "sr_base r = \<sigma>" "sr_job r = job" "sr_leases r = expired"
    using r by (simp_all add: recovers_to_def)
  note final = sr_final_cells [OF ok, unfolded fields] and rt = recovery_target [OF ok, unfolded fields]
  have rec: "records_ok L \<sigma>" and files: "files_ok (qe_codec env) L \<sigma>" and jobs: "jobs_ok {} \<sigma>" using \<sigma> by (simp_all add: settled_def)
  have scope: "rj_cluster (sr_target r) = rj_cluster job" "rj_kind (sr_target r) = rj_kind job"
    using ok by (simp_all add: recovery_ok_def stale_intent_ok_def fields)
  have jc: "\<sigma> (JobCell (rj_job_id job)) = Some (JobV job)" using ok by (simp add: recovery_ok_def fields)
  have other: "li_lease_id i \<notin> le_lease_id ` set expired" if "i \<in> L - ?E" for i
  proof
    assume "li_lease_id i \<in> le_lease_id ` set expired"
    then obtain l where l: "l \<in> set expired" "li_lease_id i = li_lease_id (identity_of l job)" by (auto simp: identity_of_def)
    with lease_id_determines [OF files, of i "identity_of l job"] E that show False by auto
  qed
  have "files_ok (qe_codec env) (L - ?E) (sr_final env r)"
    by (rule files_ok_remove [OF files E]) (auto simp: final)
  moreover have "records_ok (L - ?E) (sr_final env r)"
    unfolding records_ok_def
  proof (intro conjI ballI allI impI)
    fix i assume i: "i \<in> L - ?E"
    then obtain l j where "\<sigma> (LeaseCell (li_lease_id i)) = Some (LeaseV l)"
      "\<sigma> (JobLeaseCell (li_job_id i, li_lease_id i)) = Some (LeaseV l)"
      "\<sigma> (JobCell (li_job_id i)) = Some (JobV j)" "identity_of l j = i"
      using rec by (fastforce simp: records_ok_def)
    with other [OF i] jc scope show "\<exists>l j. sr_final env r (LeaseCell (li_lease_id i)) = Some (LeaseV l)
        \<and> sr_final env r (JobLeaseCell (li_job_id i, li_lease_id i)) = Some (LeaseV l)
        \<and> sr_final env r (JobCell (li_job_id i)) = Some (JobV j) \<and> identity_of l j = i"
      by (auto simp: final identity_of_def)
  next
    fix k assume "sr_final env r (LeaseCell k) \<noteq> None"
    then have k: "k \<notin> le_lease_id ` set expired" "\<sigma> (LeaseCell k) \<noteq> None" by (auto simp: final split: if_splits)
    then obtain i where "i \<in> L" "li_lease_id i = k" using rec by (auto simp: records_ok_def)
    with k(1) show "\<exists>i \<in> L - ?E. li_lease_id i = k" by (auto simp: identity_of_def)
  next
    fix jk assume "sr_final env r (JobLeaseCell jk) \<noteq> None"
    then have k: "jk \<notin> (\<lambda>l. (le_job_id l, le_lease_id l)) ` set expired" "\<sigma> (JobLeaseCell jk) \<noteq> None"
      by (auto simp: final split: if_splits)
    then obtain i where "i \<in> L" "(li_job_id i, li_lease_id i) = jk" using rec unfolding records_ok_def by blast
    with k(1) show "\<exists>i \<in> L - ?E. (li_job_id i, li_lease_id i) = jk" by (auto simp: identity_of_def)
  qed
  moreover have "capacity_ok (L - ?E) (sr_after r) (sr_final env r)"
    using r ok by (simp add: capacity_ok_def recovers_to_def recovery_ok_def final)
  moreover have "jobs_ok {} (sr_final env r)"
    by (rule jobs_ok_upd [where \<sigma> = \<sigma> and D = "{}" and k = "rj_job_id job" and j = "sr_target r"])
       (use jobs rt(1) ok in \<open>simp_all add: final synced_def recovery_ok_def fields\<close>)
  moreover have "sr_final env r (IntentCell n) = None" for n by (simp add: final)
  ultimately show ?thesis by (auto simp: settled_def)
qed

lemma recovered_log:
  assumes r: "recovers_to env L \<sigma> job expired max_attempts es r" and log: "event_log lag \<sigma> (rj_job_id job) es"
  shows "event_log 0 (sr_final env r) (rj_job_id job) (es @ [sr_event r])"
proof -
  let ?k = "rj_job_id job" and ?e = "sr_event r"
  have ok: "recovery_ok env r" and fields: "sr_base r = \<sigma>" "sr_job r = job" "re_seq ?e = int (length es) + 1"
    using r by (simp_all add: recovers_to_def)
  note final = sr_final_cells [OF ok, unfolded fields] and rt = recovery_target [OF ok, unfolded fields]
  have "log_files \<sigma> ?k es" using log by (simp add: event_log_def)
  from log_files_append [OF this rt(2)] fields(3)
  have "log_files (\<sigma>(EventCell (?k, int (length es) + 1) \<mapsto> EventV ?e)) ?k (es @ [?e])" by simp
  then have files: "log_files (sr_final env r) ?k (es @ [?e])"
    by (rule log_files_frame) (simp add: final)
  have doc: "parse_job_index ?k (JObj (sr_doc r)) = Inr (sr_doc r)" using ok by (simp add: recovery_ok_def fields)
  have "index_head (sr_final env r) ?k (int (length (es @ [?e])))"
    unfolding index_head_def
    by (rule exI [of _ "sr_new_doc r"]) (use parse_index_update [OF doc, of "re_seq ?e"] fields(3) in
        \<open>simp add: final index_integer_update add.commute\<close>)
  with files show ?thesis by (auto simp: event_log_def)
qed

lemma recovers_to_store:
  assumes "settled env L {} \<sigma>" "recovers_to env L \<sigma> job expired max_attempts es r"
    "(\<lambda>l. identity_of l job) ` set expired \<subseteq> L" "event_log lag \<sigma> (rj_job_id job) es"
  shows "recovered_store env L job expired max_attempts es (sr_target r) (sr_final env r)"
proof -
  have ok: "recovery_ok env r" using assms(2) by (simp add: recovers_to_def)
  have "re_event_type (sr_event r) = recovery_event_type (rj_state (sr_target r))"
    "re_payload (sr_event r) = recovery_event_payload (rj_state (sr_target r)) expired (rj_state job)"
    using ok assms(2) by (simp_all add: recovery_ok_def stale_intent_ok_def recovers_to_def)
  then show ?thesis
    using settled_recovered [OF assms(1-3)] recovered_log [OF assms(2,4)] assms(2)
    by (auto simp: recovered_store_def recovers_to_def sr_final_cells)
qed

lemma card_scope_diff:
  assumes "finite L" "E \<subseteq> L" "\<And>i. i \<in> E \<Longrightarrow> li_cluster i = cluster \<and> li_job_kind i = kind"
  shows "int (card {i \<in> L - E. lease_cluster_token (li_cluster i) = t \<and> li_job_kind i = k})
    = int (card {i \<in> L. lease_cluster_token (li_cluster i) = t \<and> li_job_kind i = k})
      + (if t = lease_cluster_token cluster \<and> k = kind then - int (card E) else 0)"
proof -
  let ?S = "{i \<in> L. lease_cluster_token (li_cluster i) = t \<and> li_job_kind i = k}"
  have fin: "finite ?S" "finite E" using assms(1,2) finite_subset by auto
  have eq: "{i \<in> L - E. lease_cluster_token (li_cluster i) = t \<and> li_job_kind i = k} = ?S - E" by auto
  show ?thesis
  proof (cases "t = lease_cluster_token cluster \<and> k = kind")
    case True
    then have sub: "E \<subseteq> ?S" using assms(2,3) by auto
    from card_Diff_subset [OF fin(2) sub] card_mono [OF fin(1) sub] show ?thesis
      unfolding eq if_P [OF True] by linarith
  next
    case False
    then have "?S - E = ?S" using assms(3) by auto
    then show ?thesis unfolding eq if_not_P [OF False] by simp
  qed
qed

lemma runs_check_expired:
  fixes env :: "'x queue_env"
  assumes \<sigma>: "settled env L D \<sigma>" and i: "identity_of l job \<in> L" and jid: "le_job_id l = rj_job_id job" and R: "R () \<sigma>"
  shows "runs P \<sigma> (check_expired_lease_index env job l) R"
proof -
  let ?i = "identity_of l job"
  have files: "files_ok (qe_codec env) L \<sigma>" using \<sigma> by (simp add: settled_def)
  have wf: "wf_identity (qe_codec env) ?i" using files i by (simp add: files_ok_def)
  have id: "lease_index_identity l job = Inr ?i" by (rule lease_index_identity_eq [OF jid wf])
  have lid: "li_lease_id ?i = le_lease_id l" by (simp add: identity_of_def)
  have doc: "\<sigma> (IndexCell (lease_index_path (le_lease_id l))) = Some (NodeV (LDoc (lease_index_document (iso_format (qe_codec env)) ?i)))"
    using files i manifest_in_files [of "qe_codec env" ?i] unfolding files_ok_def lid by blast
  have ref: "\<sigma> (IndexCell p) = Some (NodeV LRef)" "index_file p" if "p \<in> set (lease_ref_paths ?i)" for p
    using files i ref_path_in_files [OF that] lease_paths_are_files(2) that unfolding files_ok_def by blast+
  have refs: "runs P \<sigma> (mseq (\<lambda>(p, label). read_index (require_empty_lease_ref p label))
      [(lease_identity_ref_path ?i, ''lease identity reference''), (lease_endpoint_ref_path ?i, ''lease endpoint reference''),
       (lease_endpoint_guard_path ?i, ''lease endpoint guard''),
       (lease_cluster_kind_ref_path ?i, ''lease cluster-kind reference''),
       (lease_expiry_ref_path ?i, ''lease expiry reference'')]) R"
  proof (rule runs_mseq_same)
    fix x :: "path \<times> string" and R' :: "unit \<Rightarrow> content \<Rightarrow> bool"
    assume x: "x \<in> set [(lease_identity_ref_path ?i, ''lease identity reference''), (lease_endpoint_ref_path ?i, ''lease endpoint reference''),
       (lease_endpoint_guard_path ?i, ''lease endpoint guard''),
       (lease_cluster_kind_ref_path ?i, ''lease cluster-kind reference''),
       (lease_expiry_ref_path ?i, ''lease expiry reference'')]" and R': "R' () \<sigma>"
    then have "fst x \<in> set (lease_ref_paths ?i)" by (auto simp: lease_ref_paths_def)
    from runs_require_ref [OF ref(2) [OF this], of \<sigma> R' P "snd x"] ref(1) [OF this] R'
    show "runs P \<sigma> (case x of (p, label) \<Rightarrow> read_index (require_empty_lease_ref p label)) R'" by (simp add: case_prod_beta)
  qed (rule R)
  show ?thesis
    unfolding check_expired_lease_index_def
    by (rule runs_mbind, rule runs_qlift, rule id, rule runs_mbind, rule runs_read_identity [OF wf lid], rule doc,
        rule runs_mbind, rule runs_qlift, rule validate_identity_of, rule runs_mbind, rule runs_mcheck, rule refl, rule refs)
qed

lemma recovered_intent_ok:
  assumes "rj_state job \<in> {LEASED, RUNNING}" "expired \<noteq> []" "distinct (map le_lease_id expired)"
    "list_all (\<lambda>l. le_job_id l = rj_job_id job) expired" "1 \<le> seq"
  shows "stale_intent_ok (rj_job_id job) job (recovered job n now) expired
    \<lparr>re_job_id = rj_job_id job, re_seq = seq, re_event_type = recovery_event_type (rj_state (recovered job n now)),
     re_message = recovery_event_message (rj_state (recovered job n now)), re_level = LevelInfo, re_created_at = t,
     re_payload = recovery_event_payload (rj_state (recovered job n now)) expired (rj_state job)\<rparr>"
  using assms by (auto simp: stale_intent_ok_def recovered_def Let_def)

definition sr_crashed ::
  "'x queue_env \<Rightarrow> LeaseIndexIdentity set \<Rightarrow> content \<Rightarrow> RelayJob \<Rightarrow> Lease list \<Rightarrow> int \<Rightarrow> RelayEvent list \<Rightarrow> content \<Rightarrow> bool" where
  "sr_crashed env L \<sigma> job expired max_attempts es \<tau> \<longleftrightarrow>
     \<tau> = \<sigma> \<or> (\<exists>r. recovers_to env L \<sigma> job expired max_attempts es r \<and> sr_pending env r \<tau>)"

lemma sr_mixed_start:
  assumes ok: "recovery_ok env r"
  shows "sr_mixed env r ((sr_base r)(IntentCell (sr_path r) \<mapsto> IntentV (sr_intent r)))"
proof -
  have none: "sr_base r (IntentCell n) = None" for n using ok by (simp add: recovery_ok_def)
  have "((sr_base r)(IntentCell (sr_path r) \<mapsto> IntentV (sr_intent r)))(IntentCell (sr_sync r) := None)
      = (sr_base r)(IntentCell (sr_path r) \<mapsto> IntentV (sr_intent r))"
    by (rule fun_upd_idem) (simp add: none)
  then show ?thesis
    using ok none rolling_start [of "IntentCell (sr_path r)" "sr_intent r" "sr_base r" "sr_final env r"]
    by (simp add: sr_mixed_def recovery_ok_def)
qed

text \<open>The expired leases of a job, as the scan of the expiry index hands them over.\<close>

definition stale_leases :: "content \<Rightarrow> RelayJob \<Rightarrow> Lease list \<Rightarrow> bool" where
  "stale_leases \<sigma> job expired \<longleftrightarrow> expired \<noteq> [] \<and> distinct (map le_lease_id expired)
     \<and> (\<forall>l \<in> set expired. le_job_id l = rj_job_id job \<and> \<sigma> (LeaseCell (le_lease_id l)) = Some (LeaseV l))"

lemma stale_leases_indexed:
  assumes \<sigma>: "settled env L D \<sigma>" and stale: "stale_leases \<sigma> job expired"
    and job: "\<sigma> (JobCell (rj_job_id job)) = Some (JobV job)" and l: "l \<in> set expired"
  shows "identity_of l job \<in> L"
proof -
  have cell: "le_job_id l = rj_job_id job" "\<sigma> (LeaseCell (le_lease_id l)) = Some (LeaseV l)"
    using stale l by (simp_all add: stale_leases_def)
  then obtain i where i: "i \<in> L" "li_lease_id i = le_lease_id l"
    using \<sigma> by (auto simp: settled_def records_ok_def)
  from settled_lease [OF \<sigma> i(1)] obtain l' j where
    c: "\<sigma> (LeaseCell (li_lease_id i)) = Some (LeaseV l')" "\<sigma> (JobCell (le_job_id l')) = Some (JobV j)" "identity_of l' j = i"
    by metis
  with cell i job have "l' = l" "j = job" by auto
  with c(3) i(1) show ?thesis by simp
qed

lemma stale_leases_card:
  assumes "stale_leases \<sigma> job expired"
  shows "card ((\<lambda>l. identity_of l job) ` set expired) = length expired"
proof -
  have ids: "distinct (map le_lease_id expired)" using assms by (simp add: stale_leases_def)
  then have "inj_on (\<lambda>l. identity_of l job) (set expired)"
    by (auto simp: distinct_map inj_on_def identity_of_def)
  from card_image [OF this] ids show ?thesis by (simp add: distinct_map distinct_card)
qed

text \<open>The part of \<^verbatim>\<open>_recover_expired_leases_unlocked\<close> after the checks and the draws.\<close>

lemma runs_recover_tail:
  fixes env :: "'x queue_env"
  assumes env: "env_ok env" and \<sigma>: "settled env L {} \<sigma>" and stale: "stale_leases \<sigma> job expired"
    and job: "\<sigma> (JobCell (rj_job_id job)) = Some (JobV job)" "rj_state job \<in> {LEASED, RUNNING}" "durable_id (rj_job_id job)"
    and log: "event_log lag \<sigma> (rj_job_id job) es"
    and e: "e = \<lparr>re_job_id = rj_job_id job, re_seq = int (length es) + 1,
      re_event_type = recovery_event_type (rj_state (recovered job n now)),
      re_message = recovery_event_message (rj_state (recovered job n now)), re_level = LevelInfo, re_created_at = t,
      re_payload = recovery_event_payload (rj_state (recovered job n now)) expired (rj_state job)\<rparr>"
    and Q: "\<And>r. recovers_to env L \<sigma> job expired n es r \<Longrightarrow> Q (sr_target r) (sr_final env r)"
  shows "runs (sr_crashed env L \<sigma> job expired n es) \<sigma>
    (mbind (prepare_capacity_transition env [((rj_cluster job, rj_kind job), - int (length expired))] False) (\<lambda>transition.
     mbind (write_transition_intent env ''stale_lease_recovery'' token
              (StaleRecoveryIntent (rj_job_id job) job (recovered job n now) expired e (Some transition))) (\<lambda>intent_path.
     apply_stale_lease_recovery_intent env intent_path (rj_job_id job) job (recovered job n now) expired e
       (Some transition)))) Q"
proof -
  let ?E = "(\<lambda>l. identity_of l job) ` set expired"
  obtain p where p: "capacity_ok L p \<sigma>" using \<sigma> by (auto simp: settled_def)
  have fin: "finite L" by (rule settled_finite [OF \<sigma>])
  have E: "?E \<subseteq> L" using stale_leases_indexed [OF \<sigma> stale job(1)] by auto
  have scoped: "li_cluster i = rj_cluster job \<and> li_job_kind i = rj_kind job" if "i \<in> ?E" for i
    using that by (auto simp: identity_of_def)
  have cardE: "card ?E = length expired" by (rule stale_leases_card [OF stale])
  have small: "int (card L) \<le> MAX_LIVE_LEASE_RECORDS"
    using p bound_pair_counts [of p] by (auto simp: capacity_ok_def counts_of_def valid_counts_def)
  have size: "int (card (L - ?E)) = int (card L) + - int (length expired)"
    using card_Diff_subset [OF finite_imageI [OF finite_set] E] card_mono [OF fin E] cardE by simp
  have nz: "- int (length expired) \<noteq> 0" using stale by (simp add: stale_leases_def)
  have bound: "int (card (L - ?E)) \<le> MAX_LIVE_LEASE_RECORDS" using size small by linarith
  have scopes: "int (card {i \<in> L - ?E. lease_cluster_token (li_cluster i) = t \<and> li_job_kind i = k})
      = int (card {i \<in> L. lease_cluster_token (li_cluster i) = t \<and> li_job_kind i = k})
        + (if t = lease_cluster_token (rj_cluster job) \<and> k = rj_kind job then - int (length expired) else 0)" for t k
    using card_scope_diff [OF fin E scoped] unfolding cardE by blast
  obtain d m where d: "\<sigma> (JobIndexCell (rj_job_id job)) = Some (DocV (JObj d))"
    "parse_job_index (rj_job_id job) (JObj d) = Inr d" "index_integer d ''latest_event_seq'' = Inr m" "m \<le> int (length es)"
    using log by (auto simp: event_log_def index_head_def)
  have fresh: "\<sigma> (EventCell (rj_job_id job, int (length es) + 1)) = None" using log by (simp add: event_log_def log_files_def)
  have here: "sr_crashed env L \<sigma> job expired n es \<sigma>" by (simp add: sr_crashed_def)
  show ?thesis
  proof (rule runs_mbind, rule runs_prepare_delta [OF env p nz size bound scopes])
    fix before after rollback assume pairs: "bound_pair before" "bound_pair after"
      "aggregate_value before = aggregate_value p" "checkpoint_value before = checkpoint_value p"
      "counts_of (L - ?E) after"
    define r where "r = \<lparr>sr_base = \<sigma>, sr_job = job, sr_target = recovered job n now, sr_leases = expired,
      sr_event = e, sr_doc = d, sr_before = before, sr_after = after, sr_token = token\<rparr>"
    have fields: "sr_base r = \<sigma>" "sr_job r = job" "sr_target r = recovered job n now" "sr_leases r = expired"
      "sr_event r = e" "sr_before r = before" "sr_after r = after" "sr_token r = token" "sr_doc r = d" by (simp_all add: r_def)
    have seq: "re_seq e = int (length es) + 1" by (simp add: e)
    have leases: "wf_identity (qe_codec env) (identity_of l job) \<and> \<sigma> (LeaseCell (le_lease_id l)) = Some (LeaseV l)
        \<and> \<sigma> (sr_manifest l) = Some (NodeV (LDoc (lease_index_document (iso_format (qe_codec env)) (identity_of l job))))"
      if "l \<in> set expired" for l
    proof (rule settled_lease [OF \<sigma> stale_leases_indexed [OF \<sigma> stale job(1) that]])
      fix l' j
      assume wf: "wf_identity (qe_codec env) (identity_of l job)" and id: "le_lease_id l' = li_lease_id (identity_of l job)"
        and doc: "\<sigma> (sr_manifest l') =
          Some (NodeV (LDoc (lease_index_document (iso_format (qe_codec env)) (identity_of l job))))"
      have "le_lease_id l' = le_lease_id l" using id by (simp add: identity_of_def)
      with wf doc stale that show ?thesis by (simp add: stale_leases_def)
    qed
    have intent: "stale_intent_ok (rj_job_id job) job (recovered job n now) expired e"
      unfolding e by (rule recovered_intent_ok [OF job(2)]) (use stale in \<open>simp_all add: stale_leases_def list_all_iff\<close>)
    have ok: "recovery_ok env r"
      unfolding recovery_ok_def fields seq
      using env intent job \<sigma> leases fresh d pairs(1-4) p by (auto simp: settled_def capacity_ok_def)
    then have to: "recovers_to env L \<sigma> job expired n es r"
      using pairs(5) seq unfolding recovers_to_def fields by blast
    have start: "\<sigma>(IntentCell (intent_name ''stale_lease_recovery'' token) \<mapsto> IntentV (StaleRecoveryIntent (rj_job_id job) job
        (recovered job n now) expired e (Some (transition_json [(''before'', before), (''after'', after)]))))
        = (sr_base r)(IntentCell (sr_path r) \<mapsto> IntentV (sr_intent r))"
      by (simp add: sr_intent_def fields)
    have steps: "runs (sr_crashed env L \<sigma> job expired n es) ((sr_base r)(IntentCell (sr_path r) \<mapsto> IntentV (sr_intent r)))
        (apply_stale_lease_recovery_intent env (sr_path r) (sr_jid r) (sr_job r) (sr_target r) (sr_leases r)
          (sr_event r) (Some (transition_json (sr_pairs r)))) Q"
      by (rule runs_apply_recovery [OF ok sr_mixed_start [OF ok]]) (use to Q in \<open>auto simp: sr_crashed_def sr_pending_def\<close>)
    show "runs (sr_crashed env L \<sigma> job expired n es) \<sigma> (mbind (write_transition_intent env ''stale_lease_recovery'' token
          (StaleRecoveryIntent (rj_job_id job) job (recovered job n now) expired e
            (Some (transition_json ([(''before'', before), (''after'', after)] @ (if False then [(''rollback'', rollback)] else []))))))
        (\<lambda>intent_path. apply_stale_lease_recovery_intent env intent_path (rj_job_id job) job (recovered job n now) expired e
          (Some (transition_json ([(''before'', before), (''after'', after)] @ (if False then [(''rollback'', rollback)] else [])))))) Q"
      unfolding if_False append_Nil2
      by (rule runs_mbind, rule runs_write_intent, rule here, subst start)
         (use steps in \<open>simp only: fields\<close>)
  qed
qed

lemma runs_recover_expired:
  fixes env :: "'x queue_env"
  assumes env: "env_ok env" and \<sigma>: "settled env L {} \<sigma>" and stale: "stale_leases \<sigma> job expired"
    and job: "\<sigma> (JobCell (rj_job_id job)) = Some (JobV job)" "rj_state job \<in> {LEASED, RUNNING}" "durable_id (rj_job_id job)"
    and log: "event_log lag \<sigma> (rj_job_id job) es" "lag < DEFAULT_EXACT_RECORD_LIMIT"
    and Q: "\<And>r. recovers_to env L \<sigma> job expired n es r \<Longrightarrow> Q (sr_target r) (sr_final env r)"
  shows "runs (sr_crashed env L \<sigma> job expired n es) \<sigma> (recover_expired_leases env job expired n) Q"
proof -
  have ids: "distinct (map le_lease_id expired) \<and> list_all (\<lambda>l. le_job_id l = rj_job_id job) expired" and ne: "expired \<noteq> []"
    using stale by (simp_all add: stale_leases_def list_all_iff)
  have checked: "runs P \<sigma> (check_expired_lease_index env job l) R" if "l \<in> set expired" "R () \<sigma>" for l P R
    by (rule runs_check_expired [OF \<sigma> stale_leases_indexed [OF \<sigma> stale job(1) that(1)]], use stale that(1) in
        \<open>simp add: stale_leases_def\<close>, rule that(2))
  show ?thesis
    unfolding recover_expired_leases_def Let_def
    by (rule runs_mbind, rule runs_mcheck, rule ne, rule runs_mbind, rule runs_mcheck, rule job(2), rule runs_mbind,
        rule runs_utc_now, rule runs_mbind, rule runs_mcheck, rule ids, rule runs_mbind, rule runs_mseq_same,
        erule checked, assumption, rule runs_mbind, rule runs_next_event_seq [OF job(3) log], rule runs_mbind,
        rule runs_utc_now, rule runs_recover_tail [OF env \<sigma> stale job log(1)], rule refl, erule Q)
qed

section \<open>Stale recovery is crash-safe\<close>

lemma sr_recovers:
  fixes env :: "'x queue_env"
  assumes \<sigma>: "settled env L {} \<sigma>" and stale: "stale_leases \<sigma> job expired"
    and job: "\<sigma> (JobCell (rj_job_id job)) = Some (JobV job)" and log: "event_log lag \<sigma> (rj_job_id job) es"
    and crashed: "sr_crashed env L \<sigma> job expired n es (cells s)" and wf: "wf_store s"
  shows "\<exists>target. \<forall>bs. \<exists>jobs s'. restarts env bs s = (Inr jobs, s')
    \<and> (cells s' = \<sigma> \<or> recovered_store env L job expired n es target (cells s'))"
proof (cases "cells s = \<sigma>")
  case True
  have none: "\<sigma> (IntentCell n) = None" for n using \<sigma> by (simp add: settled_def)
  from empty_journal.recovers [where \<sigma> = \<sigma> and s = s and env = env] none True wf show ?thesis by metis
next
  case False
  then obtain r where r: "recovers_to env L \<sigma> job expired n es r" "sr_pending env r (cells s)"
    using crashed by (auto simp: sr_crashed_def simp del: cells.simps)
  have E: "(\<lambda>l. identity_of l job) ` set expired \<subseteq> L" using stale_leases_indexed [OF \<sigma> stale job] by auto
  have "recovery_ok env r \<and> sr_pending env r (cells s)" using r by (simp add: recovers_to_def del: cells.simps)
  from recovery.recovers [OF this wf] recovers_to_store [OF \<sigma> r(1) E log] show ?thesis by metis
qed

text \<open>
  C4: recovering a job from expired worker leases is crash-safe. From a settled store holding the
  leases \<open>L\<close>, recovering a leased or running job from its expired leases either completes, and the
  store is settled with exactly those leases gone, the job requeued, or failed when its attempts
  reach the limit, and exactly the matching event appended to the job's log; or it crashes, and
  after any number of interrupted restarts the next complete replay leaves either the content from
  before, unchanged, or the completed recovery.
\<close>

theorem stale_recovery_crash_safe:
  fixes env :: "'x queue_env"
  assumes env: "env_ok env" and h: "holds \<sigma> s" and \<sigma>: "settled env L {} \<sigma>" and stale: "stale_leases \<sigma> job expired"
    and job: "\<sigma> (JobCell (rj_job_id job)) = Some (JobV job)" "rj_state job \<in> {LEASED, RUNNING}" "durable_id (rj_job_id job)"
    and log: "event_log lag \<sigma> (rj_job_id job) es" "lag < DEFAULT_EXACT_RECORD_LIMIT"
    and run: "recover_expired_leases env job expired max_attempts s = (r, s')"
  shows "(\<exists>target. r = Inr target \<and> recovered_store env L job expired max_attempts es target (cells s'))
    \<or> r = Inl Crashed \<and> qs_budget s \<noteq> None \<and> (\<exists>target. \<forall>bs. \<exists>jobs s''. restarts env bs s' = (Inr jobs, s'')
        \<and> (cells s'' = \<sigma> \<or> recovered_store env L job expired max_attempts es target (cells s'')))"
proof -
  have E: "(\<lambda>l. identity_of l job) ` set expired \<subseteq> L" using stale_leases_indexed [OF \<sigma> stale job(1)] by auto
  have "runs (sr_crashed env L \<sigma> job expired max_attempts es) \<sigma> (recover_expired_leases env job expired max_attempts)
      (\<lambda>target \<tau>. recovered_store env L job expired max_attempts es target \<tau>)"
    by (rule runs_recover_expired [OF env \<sigma> stale job log]) (rule recovers_to_store [OF \<sigma> _ E log(1)])
  from runs_outcome [OF this h run] sr_recovers [OF \<sigma> stale job(1) log(1), where s = s' and n = max_attempts] show ?thesis by metis
qed

theorem stale_recovery_crash_safe_witness:
  "\<exists>p l s job target s' e. lease_job demo_env demo_owned_job ''worker_a'' 300 None (demo_state p None) = (Inr l, s)
     \<and> recover_expired_leases demo_env job [l] 3 s = (Inr target, s')
     \<and> rj_state target = QUEUED \<and> recovered_store demo_env {identity_of l job} job [l] 3 [e] target (cells s')"
proof -
  obtain p l s e where s: "lease_job demo_env demo_owned_job ''worker_a'' 300 None (demo_state p None) = (Inr l, s)"
    "wf_store s" "qs_budget s = None" "granted demo_env {} demo_owned_job ''worker_a'' l (cells s)"
    and log: "event_log 0 (cells s) ''job_a'' [e]"
    using demo_granted by blast
  obtain now where cells: "cells s (LeaseCell (le_lease_id l)) = Some (LeaseV l)"
    "cells s (JobCell ''job_a'') = Some (JobV (leased demo_owned_job ''worker_a'' now))"
    using s(4) by (auto simp: granted_def demo_owned_job_def simp del: cells.simps)
  define job where "job = leased demo_owned_job ''worker_a'' now"
  have job: "rj_job_id job = ''job_a''" "rj_state job = LEASED" "rj_attempts job = 1" "identity_of l job = identity_of l demo_owned_job"
    by (simp_all add: job_def leased_def demo_owned_job_def identity_of_def)
  obtain r s' where run: "recover_expired_leases demo_env job [l] 3 s = (r, s')" by fastforce
  have h: "holds (cells s) s" using s(2) by (simp add: holds_def)
  have settled: "settled demo_env {identity_of l job} {} (cells s)" using s(4) by (simp add: granted_def job del: cells.simps)
  have stale: "stale_leases (cells s) job [l]"
    using s(4) cells(1) by (simp add: stale_leases_def granted_def job demo_owned_job_def del: cells.simps)
  have "durable_id (rj_job_id job)" unfolding job by code_simp
  from stale_recovery_crash_safe [OF demo_queue_env_ok h settled stale _ _ this _ _ run, where lag = 0 and es = "[e]"] s(3) cells(2) log
  obtain target where t: "r = Inr target" "recovered_store demo_env {identity_of l job} job [l] 3 [e] target (cells s')"
    by (auto simp: job DEFAULT_EXACT_RECORD_LIMIT_def simp flip: job_def simp del: cells.simps)
  then have "rj_state target = QUEUED" using job by (auto simp: recovered_store_def recovered_def simp del: cells.simps)
  with s(1) run t show ?thesis by blast
qed

end
