(* ===== verification/JobOrder.thy ===== *)
theory JobOrder
  imports LeaseInvariant
begin

text \<open>
  What the durable submission order promises. \<open>order_ok family pos latest\<close> says that the documents of a
  family give the identifiers in \<open>dom pos\<close> the numbers \<open>pos\<close>, all different and at most \<open>latest\<close>. A number
  may lack its own document, when a process died before writing it; nothing else may be missing.
\<close>

section \<open>The last member of a contiguous sequence\<close>

lemma double_bound_contiguous:
  assumes "\<And>k. 1 \<le> k \<Longrightarrow> ex k \<longleftrightarrow> k \<le> n" "n < 2 ^ 63" "1 \<le> low" "low \<le> n" "low < high" "high = 2 ^ e" "1 \<le> e" "e \<le> 63"
  shows "\<exists>l h. double_bound ex low high = Some (l, h) \<and> 1 \<le> l \<and> l \<le> n \<and> n < h"
  using assms(3-)
proof (induction "nat (63 - int e)" arbitrary: low high e rule: less_induct)
  case less
  show ?case
  proof (cases "high \<le> n")
    case False
    with less.prems assms(1) [of high] show ?thesis by (subst double_bound.simps) auto
  next
    case True
    have e: "e < 63"
    proof (rule ccontr)
      assume "\<not> e < 63"
      then have "e = 63" using less.prems(6) by simp
      with less.prems(4) True assms(2) show False by simp
    qed
    have "(2 :: int) ^ Suc e \<le> 2 ^ 63" using e by (intro power_increasing) auto
    then have small: "\<not> 2 * high > 2 ^ 63" using less.prems(4) by simp
    have "\<exists>l h. double_bound ex high (2 * high) = Some (l, h) \<and> 1 \<le> l \<and> l \<le> n \<and> n < h"
      by (rule less.hyps [of "Suc e"]) (use less.prems e True in auto)
    moreover have "ex high" using assms(1) [of high] less.prems True by simp
    ultimately show ?thesis using less.prems small by (subst double_bound.simps) simp
  qed
qed

lemma bisect_contiguous:
  assumes "\<And>k. 1 \<le> k \<Longrightarrow> ex k \<longleftrightarrow> k \<le> n" "1 \<le> low" "low \<le> n" "n < high"
  shows "bisect ex low high = n"
  using assms(2-)
proof (induction "nat (high - low)" arbitrary: low high rule: less_induct)
  case less
  let ?m = "(low + high) div 2"
  show ?case
  proof (cases "low + 1 < high")
    case False
    with less.prems show ?thesis by (subst bisect.simps) simp
  next
    case True
    then have m: "low < ?m" "?m < high" by linarith+
    show ?thesis
    proof (cases "?m \<le> n")
      case False
      then have "bisect ex low ?m = n" using less.prems m by (intro less.hyps) auto
      moreover have "\<not> ex ?m" using assms(1) [of ?m] False m less.prems by simp
      ultimately show ?thesis using True by (subst bisect.simps) (simp add: Let_def)
    next
      case le: True
      then have "bisect ex ?m high = n" using less.prems m by (intro less.hyps) auto
      moreover have "ex ?m" using assms(1) [of ?m] le m less.prems by simp
      ultimately show ?thesis using True by (subst bisect.simps) (simp add: Let_def)
    qed
  qed
qed

text \<open>
  C26: counting a contiguous directory by doubling and bisection finds exactly its length. When the
  files present are those numbered 1 to \<open>n\<close>, and \<open>n\<close> is below 2^63, the search returns \<open>n\<close>, from
  an empty directory on; it inspects no other information than which files exist.
\<close>

theorem last_contiguous_sequence_exact:
  assumes "\<And>k. 1 \<le> k \<Longrightarrow> ex k \<longleftrightarrow> k \<le> n" "0 \<le> n" "n < 2 ^ 63"
  shows "last_contiguous_sequence directory ex = Inr n"
proof (cases "n = 0")
  case True
  then show ?thesis using assms(1) [of 1] by (simp add: last_contiguous_sequence_def)
next
  case False
  then have one: "1 \<le> n" using assms(2) by simp
  obtain l h where "double_bound ex 1 2 = Some (l, h)" "1 \<le> l" "l \<le> n" "n < h"
    using double_bound_contiguous [OF assms(1,3), where low = 1 and high = 2 and e = 1] one by auto
  then show ?thesis using bisect_contiguous [OF assms(1)] assms(1) [of 1] one by (simp add: last_contiguous_sequence_def)
qed

theorem last_contiguous_sequence_exact_witness:
  "last_contiguous_sequence ''events/job_a'' (\<lambda>k. k \<le> 1000000) = Inr 1000000"
  by (rule last_contiguous_sequence_exact) simp_all

section \<open>Documents\<close>

lemma order_dirs_differ [simp]:
  "order_dir family \<noteq> order_ids family" "order_ids family \<noteq> order_dir family"
  "order_dir family \<noteq> order_entries family" "order_entries family \<noteq> order_dir family"
  "order_ids family \<noteq> order_entries family" "order_entries family \<noteq> order_ids family"
  by (simp_all add: order_ids_def order_entries_def)

lemma runs_read_document [run_rules]:
  assumes "\<sigma> (DocCell (dir, name)) = map_option DocV r" "Q r \<sigma>"
  shows "runs P \<sigma> (read_document dir name) Q"
  unfolding read_document_def
proof (rule runs_mget)
  fix s :: "'x queue_state" assume "holds \<sigma> s"
  then have "map_of (qs_docs s) (dir, name) = r"
    using assms(1) holds_cells [of \<sigma> s "DocCell (dir, name)"] by simp
  then show "runs P \<sigma> (mret (map_of (qs_docs s) (dir, name))) Q" using assms(2) by (simp only: runs_mret)
qed

lemma runs_write_document [run_rules]:
  "P \<sigma> \<Longrightarrow> Q () (\<sigma>(DocCell (dir, name) \<mapsto> DocV (JObj doc))) \<Longrightarrow> runs P \<sigma> (write_document dir name doc) Q"
  unfolding write_document_def by (erule runs_durable, assumption, simp add: holds_def)

abbreviation head_cell :: "string \<Rightarrow> cell" where "head_cell family \<equiv> DocCell (order_dir family, ''head'')"
abbreviation id_cell :: "string \<Rightarrow> string \<Rightarrow> cell" where "id_cell family token \<equiv> DocCell (order_ids family, token)"
abbreviation entry_cell :: "string \<Rightarrow> int \<Rightarrow> cell" where
  "entry_cell family q \<equiv> DocCell (order_entries family, format_020d q)"
abbreviation order_value :: "string \<Rightarrow> string \<Rightarrow> int \<Rightarrow> cell_value" where
  "order_value family k q \<equiv> DocV (JObj (order_document family k q))"
abbreviation head_value :: "string \<Rightarrow> int \<Rightarrow> cell_value" where
  "head_value family n \<equiv> DocV (JObj (head_document family n))"

lemma parse_order_document:
  assumes "durable_id k" "1 \<le> q" "q < 2 ^ 63"
  shows "parse_global_record family path (JObj (order_document family k q)) = Inr (k, q)"
  using assms by (simp add: parse_global_record_def order_document_def doc_get_def dict_get_def sequence_ok_def)

lemma runs_read_global_record:
  assumes "\<sigma> (DocCell (dir, name)) = map_option (\<lambda>(k, q). order_value family k q) r"
    and "\<And>k q. r = Some (k, q) \<Longrightarrow> durable_id k \<and> 1 \<le> q \<and> q < 2 ^ 63" and "Q r \<sigma>"
  shows "runs P \<sigma> (read_global_record dir name family) Q"
proof (cases r)
  case None
  then have "\<sigma> (DocCell (dir, name)) = map_option DocV None" using assms(1) by simp
  then show ?thesis
    unfolding read_global_record_def
    by (rule runs_mbind [OF runs_read_document]) (simp only: option.case, rule runs_mret, use assms(3) None in simp)
next
  case (Some p)
  obtain k q where p: "p = (k, q)" by fastforce
  have "\<sigma> (DocCell (dir, name)) = map_option DocV (Some (JObj (order_document family k q)))" using assms(1) Some p by simp
  then show ?thesis
    unfolding read_global_record_def
    by (rule runs_mbind [OF runs_read_document]) (simp only: option.case, rule runs_mbind, rule runs_qlift,
        rule parse_order_document, use assms(2,3) Some p in \<open>auto intro!: runs_mret\<close>)
qed

lemma parse_head_document:
  "1 \<le> n \<Longrightarrow> n < 2 ^ 63 \<Longrightarrow> parse_global_head family (JObj (head_document family n)) = Inr n"
  by (simp add: parse_global_head_def head_document_def doc_get_def dict_get_def sequence_ok_def Let_def)

lemma runs_read_head:
  assumes "\<sigma> (head_cell family) = (if n = 0 then None else Some (head_value family n))" "0 \<le> n" "n < 2 ^ 63" "Q n \<sigma>"
  shows "runs P \<sigma> (read_global_head family) Q"
proof (cases "n = 0")
  case True
  then have "\<sigma> (head_cell family) = map_option DocV None" using assms(1) by simp
  then show ?thesis
    unfolding read_global_head_def
    by (rule runs_mbind [OF runs_read_document]) (simp only: option.case, rule runs_mret, use assms(4) True in simp)
next
  case False
  then have "\<sigma> (head_cell family) = map_option DocV (Some (JObj (head_document family n)))" using assms(1) by simp
  then show ?thesis
    unfolding read_global_head_def
    by (rule runs_mbind [OF runs_read_document]) (simp only: option.case, rule runs_qlift, rule parse_head_document,
        use assms(2-) False in simp_all)
qed

lemma format_020d_inject:
  assumes "0 \<le> p" "p < 2 ^ 63" "0 \<le> q" "q < 2 ^ 63" "format_020d p = format_020d q"
  shows "p = q"
proof -
  have "int (digits_value (format_020d k)) = k" if "0 \<le> k" "k < 2 ^ 63" for k
  proof (rule format_020d_nonneg(3) [OF that(1)])
    have "(2 :: int) ^ 63 \<le> 10 ^ 20" by simp
    with that(2) show "k < 10 ^ 20" by (rule less_le_trans)
  qed
  from this [of p] this [of q] assms show ?thesis by argo
qed

section \<open>Assigned numbers\<close>

definition order_pos :: "(string \<rightharpoonup> int) \<Rightarrow> int \<Rightarrow> bool" where
  "order_pos pos latest \<longleftrightarrow> 0 \<le> latest \<and> latest < 2 ^ 63
     \<and> (\<forall>k q. pos k = Some q \<longrightarrow> durable_id k \<and> 1 \<le> q \<and> q \<le> latest)
     \<and> inj_on pos (dom pos) \<and> inj_on single_value_ref_token (dom pos)"

definition order_ok :: "string \<Rightarrow> (string \<rightharpoonup> int) \<Rightarrow> int \<Rightarrow> content \<Rightarrow> bool" where
  "order_ok family pos latest \<sigma> \<longleftrightarrow> order_pos pos latest
     \<and> \<sigma> (head_cell family) = (if latest = 0 then None else Some (head_value family latest))
     \<and> (\<forall>t v. \<sigma> (id_cell family t) = Some v \<longleftrightarrow>
          (\<exists>k q. pos k = Some q \<and> t = single_value_ref_token k \<and> v = order_value family k q))
     \<and> (\<forall>q v. 1 \<le> q \<and> q < 2 ^ 63 \<and> \<sigma> (entry_cell family q) = Some v \<longrightarrow>
          (\<exists>k. pos k = Some q \<and> v = order_value family k q))"

lemma order_posD:
  assumes "order_pos pos latest" "pos k = Some q"
  shows "durable_id k" "1 \<le> q" "q \<le> latest" "q < 2 ^ 63" "0 \<le> q" "pos i = Some q \<longleftrightarrow> i = k"
proof -
  have *: "durable_id k \<and> 1 \<le> q \<and> q \<le> latest" "latest < 2 ^ 63" "inj_on pos (dom pos)"
    using assms unfolding order_pos_def by blast+
  then show "durable_id k" "1 \<le> q" "q \<le> latest" "q < 2 ^ 63" "0 \<le> q" by linarith+
  show "pos i = Some q \<longleftrightarrow> i = k" using *(3) assms(2) by (metis domI inj_on_def)
qed

lemma order_pos_add:
  assumes ok: "order_pos pos latest" and k: "durable_id k" "pos k = None" and q: "1 \<le> q" "q \<le> latest"
    and fresh: "q \<notin> ran pos" "single_value_ref_token k \<notin> single_value_ref_token ` dom pos"
  shows "order_pos (pos(k \<mapsto> q)) latest"
  unfolding order_pos_def
proof (intro conjI)
  show "inj_on (pos(k \<mapsto> q)) (dom (pos(k \<mapsto> q)))"
    using ok k(2) fresh(1) by (auto simp: order_pos_def inj_on_def ran_def split: if_splits)
  show "inj_on single_value_ref_token (dom (pos(k \<mapsto> q)))" using ok fresh(2) k(2) by (auto simp: order_pos_def)
qed (use ok k q in \<open>auto simp: order_pos_def\<close>)

definition extends :: "(string \<rightharpoonup> int) \<Rightarrow> int \<Rightarrow> (string \<rightharpoonup> int) \<Rightarrow> int \<Rightarrow> bool" where
  "extends pos latest pos' latest' \<longleftrightarrow> pos \<subseteq>\<^sub>m pos' \<and> latest \<le> latest' \<and> latest' \<le> latest + 1
     \<and> (\<forall>k q. pos k = None \<and> pos' k = Some q \<longrightarrow> latest < q)"

text \<open>Only documents of the family differ, and no document of a number disappears.\<close>

definition order_frame :: "string \<Rightarrow> content \<Rightarrow> content \<Rightarrow> bool" where
  "order_frame family \<sigma> \<tau> \<longleftrightarrow>
     (\<forall>c. (\<forall>d n. c = DocCell (d, n) \<longrightarrow> d \<notin> {order_dir family, order_ids family, order_entries family}) \<longrightarrow> \<tau> c = \<sigma> c)
     \<and> (\<forall>q. \<sigma> (entry_cell family q) \<noteq> None \<longrightarrow> \<tau> (entry_cell family q) = \<sigma> (entry_cell family q))"

lemma extends_refl [simp]: "extends pos latest pos latest"
  by (auto simp: extends_def)

lemma order_frame_refl [simp]: "order_frame family \<sigma> \<sigma>"
  by (simp add: order_frame_def)

lemma order_ok_head:
  assumes "order_ok family pos latest \<sigma>" "latest < 2 ^ 63 - 1"
  shows "order_ok family pos (latest + 1) (\<sigma>(head_cell family \<mapsto> head_value family (latest + 1)))"
proof -
  have "order_pos pos latest" using assms(1) by (simp add: order_ok_def)
  then have "order_pos pos (latest + 1)" "latest + 1 \<noteq> 0"
    using assms(2) by (auto simp: order_pos_def) force
  then show ?thesis using assms(1) by (simp add: order_ok_def)
qed

lemma order_ok_id:
  assumes ok: "order_ok family pos latest \<sigma>" and k: "durable_id k" "pos k = None" and q: "1 \<le> q" "q \<le> latest"
    and fresh: "q \<notin> ran pos" "single_value_ref_token k \<notin> single_value_ref_token ` dom pos"
  shows "order_ok family (pos(k \<mapsto> q)) latest (\<sigma>(id_cell family (single_value_ref_token k) \<mapsto> order_value family k q))"
  (is "order_ok family ?pos latest ?\<sigma>")
  unfolding order_ok_def
proof (intro conjI allI impI)
  show "order_pos ?pos latest" using ok order_pos_add [OF _ k q fresh] by (simp add: order_ok_def)
  show "?\<sigma> (head_cell family) = (if latest = 0 then None else Some (head_value family latest))"
    using ok by (simp add: order_ok_def)
next
  fix t v
  show "?\<sigma> (id_cell family t) = Some v \<longleftrightarrow>
      (\<exists>i p. ?pos i = Some p \<and> t = single_value_ref_token i \<and> v = order_value family i p)"
  proof (cases "t = single_value_ref_token k")
    case True
    have only: "i = k" if "?pos i = Some p" "single_value_ref_token k = single_value_ref_token i" for i p
      using that fresh(2) by (metis domI fun_upd_apply imageI)
    show ?thesis
    proof
      assume "?\<sigma> (id_cell family t) = Some v"
      then show "\<exists>i p. ?pos i = Some p \<and> t = single_value_ref_token i \<and> v = order_value family i p"
        using True by (intro exI [of _ k] exI [of _ q]) simp
    next
      assume "\<exists>i p. ?pos i = Some p \<and> t = single_value_ref_token i \<and> v = order_value family i p"
      then obtain i p where i: "?pos i = Some p" "t = single_value_ref_token i" "v = order_value family i p" by blast
      moreover have "i = k" using only [OF i(1)] i(2) True by simp
      ultimately show "?\<sigma> (id_cell family t) = Some v" by simp
    qed
  next
    case False
    then have "?\<sigma> (id_cell family t) = Some v \<longleftrightarrow>
        (\<exists>i p. pos i = Some p \<and> t = single_value_ref_token i \<and> v = order_value family i p)"
      using ok by (simp add: order_ok_def)
    also have "\<dots> \<longleftrightarrow> (\<exists>i p. ?pos i = Some p \<and> t = single_value_ref_token i \<and> v = order_value family i p)"
      using False by (metis fun_upd_apply)
    finally show ?thesis .
  qed
next
  fix p v assume p: "1 \<le> p \<and> p < 2 ^ 63 \<and> ?\<sigma> (entry_cell family p) = Some v"
  then have "\<sigma> (entry_cell family p) = Some v" by simp
  with p ok obtain i where "pos i = Some p" "v = order_value family i p" unfolding order_ok_def by blast
  with k(2) show "\<exists>i. ?pos i = Some p \<and> v = order_value family i p" by (metis fun_upd_apply option.distinct(1))
qed

lemma order_ok_entry:
  assumes "order_ok family pos latest \<sigma>" "pos k = Some q"
  shows "order_ok family pos latest (\<sigma>(entry_cell family q \<mapsto> order_value family k q))" (is "order_ok _ _ _ ?\<sigma>")
  unfolding order_ok_def
proof (intro conjI allI impI)
  have pos: "order_pos pos latest" using assms(1) by (simp add: order_ok_def)
  fix p v assume p: "1 \<le> p \<and> p < 2 ^ 63 \<and> ?\<sigma> (entry_cell family p) = Some v"
  show "\<exists>i. pos i = Some p \<and> v = order_value family i p"
  proof (cases "format_020d p = format_020d q")
    case True
    have "p = q" by (rule format_020d_inject [OF _ _ order_posD(5,4) [OF pos assms(2)] True]) (use p in simp_all)
    with p assms(2) show ?thesis by auto
  next
    case False
    with p have "\<sigma> (entry_cell family p) = Some v" by simp
    with p assms(1) show ?thesis unfolding order_ok_def by blast
  qed
qed (use assms in \<open>simp_all add: order_ok_def\<close>)

lemma order_id_cell:
  assumes "order_ok family pos latest \<sigma>" "\<And>i. i \<in> dom pos \<Longrightarrow> single_value_ref_token i = single_value_ref_token k \<Longrightarrow> i = k"
  shows "\<sigma> (id_cell family (single_value_ref_token k)) = map_option (\<lambda>q. order_value family k q) (pos k)"
proof (cases "pos k")
  case None
  have "\<sigma> (id_cell family (single_value_ref_token k)) \<noteq> Some v" for v
    using assms None unfolding order_ok_def by (metis domI option.distinct(1))
  then show ?thesis using None by (cases "\<sigma> (id_cell family (single_value_ref_token k))") auto
qed (use assms(1) in \<open>auto simp: order_ok_def\<close>)

lemma order_entry_cell:
  assumes "order_ok family pos latest \<sigma>" "pos k = Some q"
  shows "\<sigma> (entry_cell family q) \<in> {None, Some (order_value family k q)}"
proof (cases "\<sigma> (entry_cell family q)")
  case (Some v)
  have pos: "order_pos pos latest" using assms(1) by (simp add: order_ok_def)
  obtain i where "pos i = Some q" "v = order_value family i q"
    using assms(1) Some order_posD [OF pos assms(2)] unfolding order_ok_def by blast
  with order_posD(6) [OF pos assms(2)] Some show ?thesis by simp
qed simp

section \<open>One call\<close>

definition order_reaches ::
  "string \<Rightarrow> string \<Rightarrow> (string \<rightharpoonup> int) \<Rightarrow> int \<Rightarrow> content \<Rightarrow> (string \<rightharpoonup> int) \<Rightarrow> int \<Rightarrow> content \<Rightarrow> bool" where
  "order_reaches family k pos latest \<sigma> pos' latest' \<tau> \<longleftrightarrow> order_ok family pos' latest' \<tau>
     \<and> extends pos latest pos' latest' \<and> dom pos' \<subseteq> insert k (dom pos) \<and> order_frame family \<sigma> \<tau>"

lemma runs_ensure_sequence:
  assumes "order_ok family pos latest \<sigma>" "pos k = Some q" "P \<sigma>"
    and "Q () (\<sigma>(entry_cell family q \<mapsto> order_value family k q))"
  shows "runs P \<sigma> (ensure_global_sequence family k q) Q"
proof -
  have pos: "order_pos pos latest" using assms(1) by (simp add: order_ok_def)
  note q = order_posD(1,2,4) [OF pos assms(2)]
  consider (absent) "\<sigma> (entry_cell family q) = None" | (present) "\<sigma> (entry_cell family q) = Some (order_value family k q)"
    using order_entry_cell [OF assms(1,2)] by auto
  then show ?thesis
  proof cases
    case absent
    then have "\<sigma> (entry_cell family q) = map_option (\<lambda>(k, q). order_value family k q) None" by simp
    then show ?thesis
      unfolding ensure_global_sequence_def
      by (intro runs_mbind, elim runs_read_global_record) (simp, simp only: option.case, rule runs_write_document, rule assms(3), rule assms(4))
  next
    case present
    then have same: "\<sigma>(entry_cell family q \<mapsto> order_value family k q) = \<sigma>" by (rule fun_upd_idem)
    have "\<sigma> (entry_cell family q) = map_option (\<lambda>(k, q). order_value family k q) (Some (k, q))" using present by simp
    then show ?thesis
      unfolding ensure_global_sequence_def
      by (intro runs_mbind, elim runs_read_global_record)
         (use q in simp, simp only: option.case, rule runs_mcheck, rule refl, use assms(4) same in simp)
  qed
qed

lemma order_frame_upd:
  assumes "order_frame family \<sigma> \<tau>" "d \<in> {order_dir family, order_ids family}"
  shows "order_frame family \<sigma> (\<tau>(DocCell (d, n) := v))"
  using assms by (auto simp: order_frame_def)

lemma order_frame_entry:
  assumes "order_frame family \<sigma> \<tau>" "order_ok family pos latest \<tau>" "pos k = Some q"
  shows "order_frame family \<sigma> (\<tau>(entry_cell family q \<mapsto> order_value family k q))"
proof -
  have "\<tau> (entry_cell family p) = Some (order_value family k q)"
    if "format_020d p = format_020d q" "\<sigma> (entry_cell family p) \<noteq> None" for p
    using order_entry_cell [OF assms(2,3)] assms(1) that by (auto simp: order_frame_def)
  with assms(1) show ?thesis by (auto simp: order_frame_def)
qed

lemma runs_ensure_global:
  assumes family: "family \<in> set GLOBAL_ORDER_FAMILIES" and k: "durable_id k"
    and ok: "order_ok family pos latest \<sigma>" "latest < 2 ^ 63 - 1"
    and fresh: "\<And>i. i \<in> dom pos \<Longrightarrow> single_value_ref_token i = single_value_ref_token k \<Longrightarrow> i = k"
    and P: "\<And>pos' latest' \<tau>. order_reaches family k pos latest \<sigma> pos' latest' \<tau> \<Longrightarrow> P \<tau>"
    and Q: "\<And>q pos' latest' \<tau>. order_reaches family k pos latest \<sigma> pos' latest' \<tau> \<Longrightarrow> pos' k = Some q
      \<Longrightarrow> \<tau> (entry_cell family q) = Some (order_value family k q) \<Longrightarrow> Q q \<tau>"
  shows "runs P \<sigma> (ensure_global family k) Q"
proof -
  let ?t = "single_value_ref_token k"
  have pos: "order_pos pos latest" and head: "\<sigma> (head_cell family) = (if latest = 0 then None else Some (head_value family latest))"
    using ok(1) by (simp_all add: order_ok_def)
  have l: "0 \<le> latest" "latest < 2 ^ 63" using pos by (simp_all add: order_pos_def)
  have refl: "order_reaches family k pos latest \<sigma> pos latest \<sigma>" using ok(1) by (auto simp: order_reaches_def)
  have mapping: "\<sigma> (id_cell family ?t) = map_option (\<lambda>(k, q). order_value family k q) (map_option (Pair k) (pos k))"
    using order_id_cell [OF ok(1) fresh] by (simp add: option.map_comp comp_def)
  have body: "runs P \<sigma> (case map_option (Pair k) (pos k) of
         Some (mapped_id, sequence) \<Rightarrow>
           mbind (qcheck (\<not> (mapped_id \<noteq> k \<or> sequence > latest))
             (QueueConflictError (''global-order mapping identity mismatch: '' @ family @ ''/'' @ k))) (\<lambda>_.
           mbind (ensure_global_sequence family k sequence) (\<lambda>_. mret sequence))
       | None \<Rightarrow>
           mbind (qcheck (\<not> latest \<ge> 2 ^ 63 - 1)
             (QueueConflictError (''global-order sequence exhausted: '' @ family))) (\<lambda>_.
           let sequence = latest + 1 in
           mbind (write_document (order_dir family) ''head'' (head_document family sequence)) (\<lambda>_.
           mbind (write_document (order_ids family) ?t (order_document family k sequence)) (\<lambda>_.
           mbind (ensure_global_sequence family k sequence) (\<lambda>_. mret sequence))))) Q"
  proof (cases "pos k")
    case (Some q)
    let ?\<tau> = "\<sigma>(entry_cell family q \<mapsto> order_value family k q)"
    have "order_reaches family k pos latest \<sigma> pos latest ?\<tau>"
      using order_ok_entry [OF ok(1) Some] order_frame_entry [OF order_frame_refl ok(1) Some] by (auto simp: order_reaches_def)
    then have final: "Q q ?\<tau>" by (rule Q) (use Some in simp_all)
    show ?thesis
      unfolding Some option.map option.case prod.case
      by (rule runs_mbind, rule runs_mcheck, use order_posD(3) [OF pos Some] in simp, rule runs_mbind,
          rule runs_ensure_sequence [OF ok(1) Some], rule P [OF refl], rule runs_mret, rule final)
  next
    case None
    let ?q = "latest + 1" and ?pos = "pos(k \<mapsto> latest + 1)"
    let ?h = "\<sigma>(head_cell family \<mapsto> head_value family ?q)"
    let ?i = "?h(id_cell family ?t \<mapsto> order_value family k ?q)"
    let ?e = "?i(entry_cell family ?q \<mapsto> order_value family k ?q)"
    have hok: "order_ok family pos ?q ?h" by (rule order_ok_head [OF ok])
    have unused: "?q \<notin> ran pos" using order_posD(3) [OF pos] by (force simp: ran_def)
    have tok: "?t \<notin> single_value_ref_token ` dom pos" using fresh None by (metis domIff imageE)
    have iok: "order_ok family ?pos ?q ?i" using order_ok_id [OF hok k None _ _ unused tok] l(1) by simp
    have ext: "extends pos latest pos ?q" "extends pos latest ?pos ?q" using None by (auto simp: extends_def map_le_def)
    have fr: "order_frame family \<sigma> ?h" "order_frame family \<sigma> ?i" by (intro order_frame_upd; simp)+
    have "order_reaches family k pos latest \<sigma> pos ?q ?h" using hok ext fr by (auto simp: order_reaches_def)
    note ph = P [OF this]
    have "order_reaches family k pos latest \<sigma> ?pos ?q ?i" using iok ext fr by (auto simp: order_reaches_def)
    note pi = P [OF this]
    have mine: "?pos k = Some ?q" by simp
    have eok: "order_ok family ?pos ?q ?e" by (rule order_ok_entry [OF iok]) simp
    have "order_reaches family k pos latest \<sigma> ?pos ?q ?e"
      using eok ext order_frame_entry [OF fr(2) iok mine] by (auto simp: order_reaches_def)
    then have final: "Q ?q ?e" by (rule Q) simp_all
    show ?thesis
      unfolding None option.map option.case Let_def
      by (rule runs_mbind, rule runs_mcheck, use ok(2) in simp, rule runs_mbind, rule runs_write_document, rule P [OF refl],
          rule runs_mbind, rule runs_write_document, rule ph, rule runs_mbind, rule runs_ensure_sequence [OF iok mine],
          rule pi, rule runs_mret, rule final)
  qed
  have valid: "durable_id i \<and> 1 \<le> q \<and> q < 2 ^ 63" if "map_option (Pair k) (pos k) = Some (i, q)" for i q
    using that order_posD [OF pos, of k q] by auto
  show ?thesis
    unfolding ensure_global_def Let_def
    by (rule runs_mbind, rule runs_mcheck, rule family, rule runs_mbind, rule runs_mcheck, rule k, rule runs_mbind,
        rule runs_read_global_record, rule mapping, erule valid, rule runs_mbind, rule runs_read_head, rule head, rule l(1), rule l(2), rule body [unfolded Let_def])
qed

section \<open>Histories\<close>

text \<open>
  Calls one after another, each in a process that dies after the given number of durable steps
  (\<open>None\<close>: not at all), with the outcome of each.
\<close>

fun order_calls ::
  "string \<Rightarrow> (string \<times> nat option) list \<Rightarrow> 'x queue_state \<Rightarrow> (string \<times> (queue_exn + int)) list \<times> 'x queue_state" where
  "order_calls family [] s = ([], s)"
| "order_calls family ((k, b) # calls) s =
     (let (r, s') = ensure_global family k (s\<lparr>qs_budget := b\<rparr>); (rs, s'') = order_calls family calls s'
      in ((k, r) # rs, s''))"

definition crashed_or_assigned :: "(string \<rightharpoonup> int) \<Rightarrow> string \<times> (queue_exn + int) \<Rightarrow> bool" where
  "crashed_or_assigned pos = (\<lambda>(k, r). r = Inl Crashed \<or> (\<exists>q. r = Inr q \<and> pos k = Some q))"

lemma crashed_or_assigned_mono: "crashed_or_assigned pos x \<Longrightarrow> pos \<subseteq>\<^sub>m pos' \<Longrightarrow> crashed_or_assigned pos' x"
  by (auto simp: crashed_or_assigned_def map_le_def split: prod.splits) (metis domI)

lemma order_calls_ok:
  fixes s :: "'x queue_state"
  assumes family: "family \<in> set GLOBAL_ORDER_FAMILIES" and ids: "\<And>k. k \<in> fst ` set calls \<Longrightarrow> durable_id k"
    and tokens: "inj_on single_value_ref_token (dom pos \<union> fst ` set calls)"
    and s: "wf_store s" "order_ok family pos latest (cells s)" "latest + int (length calls) < 2 ^ 63"
    and run: "order_calls family calls s = (rs, s')"
  shows "\<exists>pos' latest'. wf_store s' \<and> order_ok family pos' latest' (cells s') \<and> pos \<subseteq>\<^sub>m pos'
    \<and> (\<forall>x \<in> set rs. crashed_or_assigned pos' x)"
  using ids tokens s run
proof (induction calls arbitrary: pos latest s rs)
  case Nil
  then show ?case by auto
next
  case (Cons c calls)
  obtain k b where c [simp]: "c = (k, b)" by fastforce
  obtain r t where r: "ensure_global family k (s\<lparr>qs_budget := b\<rparr>) = (r, t)" by fastforce
  obtain rs' where rs': "order_calls family calls t = (rs', s')" "rs = (k, r) # rs'"
    using Cons.prems(6) r by (auto split: prod.splits)
  have fresh: "i = k" if "i \<in> dom pos" "single_value_ref_token i = single_value_ref_token k" for i
    using Cons.prems(2) that by (auto simp: inj_on_def)
  let ?P = "\<lambda>\<tau>. \<exists>pos' latest'. order_reaches family k pos latest (cells s) pos' latest' \<tau>"
  let ?Q = "\<lambda>q \<tau>. \<exists>pos' latest'. order_reaches family k pos latest (cells s) pos' latest' \<tau> \<and> pos' k = Some q"
  have room: "latest < 2 ^ 63 - 1" using Cons.prems(5) by simp
  have k: "durable_id k" using Cons.prems(1) by simp
  have "runs ?P (cells s) (ensure_global family k) ?Q"
    by (rule runs_ensure_global [OF family k Cons.prems(4) room fresh]) blast+
  from runs_outcome [OF this restart_holds [OF Cons.prems(3)] r] obtain pos1 latest1 where
    t: "wf_store t" "order_reaches family k pos latest (cells s) pos1 latest1 (cells t)" "crashed_or_assigned pos1 (k, r)"
    by (auto simp: crashed_or_assigned_def simp del: cells.simps)
  have t2: "order_ok family pos1 latest1 (cells t)" "pos \<subseteq>\<^sub>m pos1" "latest1 \<le> latest + 1" "dom pos1 \<subseteq> insert k (dom pos)"
    using t(2) by (simp_all add: order_reaches_def extends_def)
  have "\<exists>pos' latest'. wf_store s' \<and> order_ok family pos' latest' (cells s') \<and> pos1 \<subseteq>\<^sub>m pos'
      \<and> (\<forall>x \<in> set rs'. crashed_or_assigned pos' x)"
  proof (rule Cons.IH [OF _ _ t(1) t2(1) _ rs'(1)])
    show "inj_on single_value_ref_token (dom pos1 \<union> fst ` set calls)"
      by (rule inj_on_subset [OF Cons.prems(2)]) (use t2(4) in auto)
  qed (use Cons.prems(1,5) t2(3) in auto)
  then obtain pos' latest' where "wf_store s'" "order_ok family pos' latest' (cells s')" "pos1 \<subseteq>\<^sub>m pos'"
    "\<forall>x \<in> set rs'. crashed_or_assigned pos' x" by blast
  with t(3) t2(2) rs'(2) crashed_or_assigned_mono map_le_trans show ?case
    by (auto simp del: cells.simps) blast
qed

text \<open>
  C16: a record's place in the durable order is given once and kept. However many calls ask for the
  numbers of however many records, in whatever order, and wherever the processes making the calls
  die, no call fails: it crashes or returns a number; two calls return the same number exactly when
  they ask for the same record; and the documents on disk at the end still give every record its
  number.
\<close>

theorem submission_order_stable:
  fixes s :: "'x queue_state"
  assumes "family \<in> set GLOBAL_ORDER_FAMILIES" "\<And>k. k \<in> fst ` set calls \<Longrightarrow> durable_id k"
    and "inj_on single_value_ref_token (dom pos \<union> fst ` set calls)"
    and "wf_store s" "order_ok family pos latest (cells s)" "latest + int (length calls) < 2 ^ 63"
    and "order_calls family calls s = (rs, s')"
  shows "\<exists>pos' latest'. order_ok family pos' latest' (cells s') \<and> pos \<subseteq>\<^sub>m pos'
    \<and> (\<forall>k r. (k, r) \<in> set rs \<longrightarrow> r = Inl Crashed \<or> (\<exists>q. r = Inr q \<and> pos' k = Some q))
    \<and> (\<forall>k q i p. (k, Inr q) \<in> set rs \<and> (i, Inr p) \<in> set rs \<longrightarrow> (q = p \<longleftrightarrow> k = i))"
proof -
  obtain pos' latest' where ok: "order_ok family pos' latest' (cells s')" "pos \<subseteq>\<^sub>m pos'"
    and all: "\<forall>x \<in> set rs. crashed_or_assigned pos' x"
    using order_calls_ok [OF assms] by blast
  have pos: "order_pos pos' latest'" using ok(1) by (simp add: order_ok_def)
  have given: "pos' k = Some q" if "(k, Inr q) \<in> set rs" for k q using all that by (auto simp: crashed_or_assigned_def)
  have "q = p \<longleftrightarrow> k = i" if "(k, Inr q) \<in> set rs" "(i, Inr p) \<in> set rs" for k q i p
    using given [OF that(1)] given [OF that(2)] order_posD(6) [OF pos, of k q i] by auto
  with ok all show ?thesis unfolding crashed_or_assigned_def by (intro exI [of _ pos'] exI [of _ latest']) auto
qed

lemma empty_order: "order_ok family Map.empty 0 (cells (demo_state p b))"
  by (simp add: order_ok_def order_pos_def demo_state_def)

theorem submission_order_stable_witness:
  "\<exists>p rs s' pos latest. order_calls ''jobs'' [(''job_a'', Some 2), (''job_a'', None)] (demo_state p None) = (rs, s')
     \<and> map fst rs = [''job_a'', ''job_a''] \<and> order_ok ''jobs'' pos latest (cells s')
     \<and> (snd (rs ! 1) = Inl Crashed \<or> (\<exists>q. snd (rs ! 1) = Inr q \<and> pos ''job_a'' = Some q))"
proof -
  obtain p :: LeaseCapacityPair where True by simp
  let ?calls = "[(''job_a'', Some 2), (''job_a'', None)] :: (string \<times> nat option) list"
  obtain rs s' where run: "order_calls ''jobs'' ?calls (demo_state p None) = (rs, s')" by fastforce
  have names: "map fst rs = [''job_a'', ''job_a'']" using run by (auto simp: Let_def split: prod.splits)
  have ids: "durable_id ''job_a''" by (rule demo_event_job_id)
  have family: "''jobs'' \<in> set GLOBAL_ORDER_FAMILIES" by (simp add: GLOBAL_ORDER_FAMILIES_def)
  have wf: "wf_store (demo_state p None)" using demo_state_wf [of p None] by (simp add: holds_def)
  have "\<exists>pos' latest'. order_ok ''jobs'' pos' latest' (cells s') \<and> Map.empty \<subseteq>\<^sub>m pos'
    \<and> (\<forall>k r. (k, r) \<in> set rs \<longrightarrow> r = Inl Crashed \<or> (\<exists>q. r = Inr q \<and> pos' k = Some q))
    \<and> (\<forall>k q i p. (k, Inr q) \<in> set rs \<and> (i, Inr p) \<in> set rs \<longrightarrow> (q = p \<longleftrightarrow> k = i))"
    by (rule submission_order_stable [OF family _ _ wf empty_order _ run]) (use ids in auto)
  then obtain pos latest where ok: "order_ok ''jobs'' pos latest (cells s')"
    and given: "\<And>r. (''job_a'', r) \<in> set rs \<Longrightarrow> r = Inl Crashed \<or> (\<exists>q. r = Inr q \<and> pos ''job_a'' = Some q)" by blast
  obtain a b where "rs = [(''job_a'', a), (''job_a'', b)]" using names by auto
  with given [of b] have "snd (rs ! 1) = Inl Crashed \<or> (\<exists>q. snd (rs ! 1) = Inr q \<and> pos ''job_a'' = Some q)" by simp
  with names run ok show ?thesis
    by (intro exI [of _ p] exI [of _ rs] exI [of _ s'] exI [of _ pos] exI [of _ latest] conjI)
qed

section \<open>Pages\<close>

lemma runs_mmap_read:
  fixes f :: "'b \<Rightarrow> ('x, 'c) queue_op"
  assumes "\<And>x R. x \<in> set xs \<Longrightarrow> R (g x) \<sigma> \<Longrightarrow> runs P \<sigma> (f x) R" "Q (map g xs) \<sigma>"
  shows "runs P \<sigma> (mmap f xs) Q"
  using assms
proof (induction xs arbitrary: Q)
  case Nil
  show ?case unfolding mmap.simps by (rule runs_mret) (use Nil in simp)
next
  case (Cons x xs)
  have "Q (g x # map g xs) \<sigma>" using Cons.prems(2) by simp
  then have "runs P \<sigma> (mmap f xs) (\<lambda>ys \<tau>. runs P \<tau> (mret (g x # ys)) Q)"
    by (intro Cons.IH, intro Cons.prems(1)) (simp_all only: list.set_intros runs_mret)
  then have "runs P \<sigma> (mbind (mmap f xs) (\<lambda>ys. mret (g x # ys))) Q" by (rule runs_mbind)
  then show ?case unfolding mmap.simps by (intro runs_mbind, intro Cons.prems(1)) (simp_all only: list.set_intros)
qed

text \<open>The key at a position, and what a window over the positions shows of the job records.\<close>

definition key_at :: "(string \<rightharpoonup> int) \<Rightarrow> int \<Rightarrow> string option" where
  "key_at pos q = (if q \<in> ran pos then Some (SOME k. pos k = Some q) else None)"

lemma key_at_iff:
  assumes "order_pos pos latest"
  shows "key_at pos q = Some k \<longleftrightarrow> pos k = Some q"
proof
  assume "key_at pos q = Some k"
  then have "\<exists>k. pos k = Some q" "k = (SOME k. pos k = Some q)" by (auto simp: key_at_def ran_def split: if_splits)
  then show "pos k = Some q" using someI_ex [of "\<lambda>k. pos k = Some q"] by simp
next
  assume k: "pos k = Some q"
  have "(SOME i. pos i = Some q) = k" by (rule some_equality, rule k) (use order_posD(6) [OF assms k] in blast)
  moreover have "q \<in> ran pos" using k by (rule ranI)
  ultimately show "key_at pos q = Some k" by (simp add: key_at_def)
qed

definition shown :: "content \<Rightarrow> (RelayJob \<Rightarrow> bool) \<Rightarrow> string option \<Rightarrow> RelayJob list" where
  "shown \<sigma> matches k = (case k of None \<Rightarrow> [] | Some k \<Rightarrow>
     (case \<sigma> (JobCell k) of Some (JobV j) \<Rightarrow> if matches j then [j] else [] | _ \<Rightarrow> []))"

lemma job_cell:
  assumes "jobs_ok D \<sigma>"
  obtains r where "\<sigma> (JobCell k) = map_option JobV r" "\<And>j. r = Some j \<Longrightarrow> rj_job_id j = k \<and> durable_id k"
proof (cases "\<sigma> (JobCell k)")
  case None
  then show ?thesis using that [of None] by simp
next
  case (Some v)
  then obtain j where "v = JobV j" "rj_job_id j = k" "durable_id k" using assms unfolding jobs_ok_def by blast
  then show ?thesis using that [of "Some j"] Some by simp
qed

lemma runs_order_position:
  assumes ok: "order_ok ''jobs'' pos latest \<sigma>" and jobs: "jobs_ok UNIV \<sigma>" and q: "1 \<le> q" "q \<le> latest"
    and full: "\<And>k q. pos k = Some q \<Longrightarrow> \<sigma> (entry_cell ''jobs'' q) \<noteq> None"
    and Q: "Q (shown \<sigma> matches (key_at pos q)) \<sigma>"
  shows "runs P \<sigma> (read_order_position ''jobs'' read_optional_job rj_job_id matches q) Q"
proof -
  have pos: "order_pos pos latest" using ok by (simp add: order_ok_def)
  have small: "q < 2 ^ 63" using q pos by (simp add: order_pos_def)
  show ?thesis
  proof (cases "key_at pos q")
    case None
    then have "pos k \<noteq> Some q" for k using key_at_iff [OF pos, of q k] by simp
    then have "\<sigma> (entry_cell ''jobs'' q) = None" using ok q(1) small unfolding order_ok_def by (metis option.exhaust)
    then have "\<sigma> (entry_cell ''jobs'' q) = map_option (\<lambda>(k, q). order_value ''jobs'' k q) None" by simp
    then show ?thesis
      unfolding read_order_position_def
      by (intro runs_mbind, elim runs_read_global_record)
         (simp, simp only: option.case, rule runs_mret, use Q None in \<open>simp add: shown_def\<close>)
  next
    case (Some k)
    then have k: "pos k = Some q" using key_at_iff [OF pos] by simp
    note kd = order_posD(1,2,4) [OF pos k]
    have entry: "\<sigma> (entry_cell ''jobs'' q) = map_option (\<lambda>(k, q). order_value ''jobs'' k q) (Some (k, q))"
      using order_entry_cell [OF ok k] full [OF k] by auto
    have "i = k" if "single_value_ref_token i = single_value_ref_token k" "i \<in> dom pos" for i
      using pos that inj_onD [of single_value_ref_token "dom pos" i k] domI [of pos k q] k by (simp add: order_pos_def)
    then have mapping: "\<sigma> (id_cell ''jobs'' (single_value_ref_token k))
        = map_option (\<lambda>(k, q). order_value ''jobs'' k q) (Some (k, q))"
      using order_id_cell [OF ok, of k] k by simp
    have valid: "durable_id i \<and> 1 \<le> p \<and> p < 2 ^ 63" if "Some (k, q) = Some (i, p)" for i p using that kd by simp
    obtain r where r: "\<sigma> (JobCell k) = map_option JobV r" "\<And>j. r = Some j \<Longrightarrow> rj_job_id j = k \<and> durable_id k"
      using job_cell [OF jobs, of k] by blast
    have tail: "runs P \<sigma> (case r of None \<Rightarrow> mret [] | Some j \<Rightarrow>
        mbind (qcheck (rj_job_id j = k) (QueueConflictError (''global-order target identity mismatch: '' @ ''jobs'' @ ''/'' @ k)))
          (\<lambda>_. mret (if matches j then [j] else []))) Q"
    proof (cases r)
      case None
      then show ?thesis using Q r(1) Some by (simp only: option.case) (rule runs_mret, simp add: shown_def)
    next
      case (Some j)
      have "rj_job_id j = k" using r(2) Some by simp
      then show ?thesis unfolding Some option.case
        by (intro runs_mbind runs_mcheck runs_mret) (use Q r(1) Some \<open>key_at pos q = Some k\<close> in \<open>simp_all add: shown_def\<close>)
    qed
    show ?thesis
      unfolding read_order_position_def
      by (rule runs_mbind, rule runs_read_global_record, rule entry, erule valid, simp only: option.case prod.case,
          rule runs_mbind, rule runs_mcheck, rule refl, rule runs_mbind, rule runs_read_global_record, rule mapping,
          erule valid, rule runs_mbind, rule runs_mcheck, rule refl, rule runs_mbind, rule runs_read_job, rule r(1),
          erule r(2), rule tail)
  qed
qed

lemma shown_window:
  fixes matches :: "RelayJob \<Rightarrow> bool"
  assumes pos: "order_pos pos latest" and jobs: "jobs_ok D \<sigma>"
  defines "window \<equiv> \<lambda>c n. concat (map (\<lambda>q. shown \<sigma> matches (key_at pos q)) [c..n])"
  shows "set (window c n) = {j. \<exists>k q. pos k = Some q \<and> c \<le> q \<and> q \<le> n \<and> \<sigma> (JobCell k) = Some (JobV j) \<and> matches j}"
    and "sorted_wrt (\<lambda>i j. the (pos (rj_job_id i)) < the (pos (rj_job_id j))) (window c n)"
proof -
  have at: "j \<in> set (shown \<sigma> matches (key_at pos q)) \<longleftrightarrow>
      (\<exists>k. pos k = Some q \<and> \<sigma> (JobCell k) = Some (JobV j) \<and> matches j)" for j q
    unfolding key_at_iff [OF pos, of q, symmetric]
    by (cases "key_at pos q") (auto simp: shown_def split: option.splits cell_value.splits if_splits)
  have "j \<in> set (window c n) \<longleftrightarrow> (\<exists>q. (c \<le> q \<and> q \<le> n) \<and> j \<in> set (shown \<sigma> matches (key_at pos q)))" for j
    unfolding window_def by auto
  then show "set (window c n) = {j. \<exists>k q. pos k = Some q \<and> c \<le> q \<and> q \<le> n \<and> \<sigma> (JobCell k) = Some (JobV j) \<and> matches j}"
    unfolding at by blast
  have num: "pos (rj_job_id j) = Some q" if "j \<in> set (shown \<sigma> matches (key_at pos q))" for j q
    using that jobs_okD [OF jobs] unfolding at by blast
  have one: "sorted_wrt R (shown \<sigma> matches x)" for R x by (auto simp: shown_def split: option.splits cell_value.splits)
  show "sorted_wrt (\<lambda>i j. the (pos (rj_job_id i)) < the (pos (rj_job_id j))) (window c n)"
  proof (induction "nat (n + 1 - c)" arbitrary: c)
    case 0
    then show ?case by (simp add: window_def)
  next
    case (Suc m)
    then have step: "window c n = shown \<sigma> matches (key_at pos c) @ window (c + 1) n"
      by (simp add: window_def upto_rec1)
    have "the (pos (rj_job_id i)) < the (pos (rj_job_id j))"
      if i: "i \<in> set (shown \<sigma> matches (key_at pos c))" and j: "j \<in> set (window (c + 1) n)" for i j
    proof -
      from j obtain q where "c + 1 \<le> q" "j \<in> set (shown \<sigma> matches (key_at pos q))" by (auto simp: window_def)
      with num [OF i] num [of j q] show ?thesis by simp
    qed
    moreover have "sorted_wrt (\<lambda>i j. the (pos (rj_job_id i)) < the (pos (rj_job_id j))) (window (c + 1) n)"
      using Suc by (intro Suc.hyps(1)) simp
    ultimately show ?case unfolding step by (auto simp: sorted_wrt_append one)
  qed
qed

text \<open>
  C25: a page of the job listing is exact. On a store whose order documents are complete, a page
  from cursor \<open>c\<close> with limit \<open>l\<close> returns precisely the jobs that match the filters and whose number
  lies in the window \<open>c \<le> q < c + l\<close>, each once, by increasing number; the next cursor is where the
  window ends, as long as numbers remain, so following the cursors visits every job exactly once.
\<close>

theorem job_page_exact:
  fixes env :: "'x queue_env"
  assumes env: "env_ok env" and h: "holds \<sigma> s" and ok: "order_ok ''jobs'' pos latest \<sigma>" and jobs: "jobs_ok D \<sigma>"
    and full: "\<forall>k q. pos k = Some q \<longrightarrow> \<sigma> (entry_cell ''jobs'' q) \<noteq> None"
    and c: "1 \<le> c" and l: "1 \<le> l" "l \<le> MAX_RESPONSE_PAGE_RECORDS"
    and run: "list_jobs_page env (JInt c) (JInt l) cluster state kind terminals s = (r, s')"
  shows "r = Inl Crashed \<and> qs_budget s \<noteq> None \<and> cells s' = \<sigma> \<or>
    (\<exists>js. r = Inr (js, if c + l \<le> latest then Some (c + l) else None, latest) \<and> cells s' = \<sigma>
      \<and> set js = {j. \<exists>k q. pos k = Some q \<and> c \<le> q \<and> q < c + l \<and> \<sigma> (JobCell k) = Some (JobV j)
            \<and> (cluster = None \<or> cluster = Some (rj_cluster j)) \<and> (state = None \<or> state = Some (rj_state j))
            \<and> (kind = None \<or> kind = Some (rj_kind j)) \<and> (terminals \<or> \<not> terminal (rj_state j))}
      \<and> sorted_wrt (\<lambda>i j. the (pos (rj_job_id i)) < the (pos (rj_job_id j))) js)"
proof -
  let ?m = "\<lambda>job. (cluster = None \<or> Some (rj_cluster job) = cluster) \<and> (state = None \<or> Some (rj_state job) = state)
    \<and> (kind = None \<or> Some (rj_kind job) = kind) \<and> (terminals \<or> \<not> terminal (rj_state job))"
  let ?js = "\<lambda>n. concat (map (\<lambda>q. shown \<sigma> ?m (key_at pos q)) [c..n])"
  let ?stop = "min (latest + 1) (c + l)"
  let ?next = "if c + l \<le> latest then Some (c + l) else None"
  have pos: "order_pos pos latest" and head: "\<sigma> (head_cell ''jobs'') = (if latest = 0 then None else Some (head_value ''jobs'' latest))"
    using ok by (simp_all add: order_ok_def)
  have lat: "0 \<le> latest" "latest < 2 ^ 63" using pos by (simp_all add: order_pos_def)
  have any: "jobs_ok UNIV \<sigma>" using jobs unfolding jobs_ok_def by blast
  have small: "q \<le> latest" if "pos k = Some q" for k q using order_posD(3) [OF pos that] .
  have valid: "validate_record_cursor ''cursor'' (JInt c) = Inr c" "validate_response_page_limit ''limit'' (JInt l) = Inr l"
    using c l by (simp_all add: validate_record_cursor_def validate_response_page_limit_def)
  let ?Q = "\<lambda>x \<tau>. \<tau> = \<sigma> \<and> x = (?js (?stop - 1), ?next, latest)"
  have empty: "?js (latest) = []" if "c > latest" using that by simp
  have body: "runs (\<lambda>\<tau>. \<tau> = \<sigma>) \<sigma> (if c > latest then mret ([], None, latest)
       else let stop = ?stop in
         mbind (mmap (read_order_position ''jobs'' read_optional_job rj_job_id ?m) [c..stop - 1]) (\<lambda>records.
         mret (concat records, (if stop \<le> latest then Some stop else None), latest))) ?Q"
  proof (cases "c > latest")
    case True
    have "?js (?stop - 1) = []" using True l by (simp add: min_def)
    then have "?Q ([], None, latest) \<sigma>" using True l by simp
    then show ?thesis unfolding if_P [OF True] by (rule runs_mret)
  next
    case False
    have nxt: "(if ?stop \<le> latest then Some ?stop else None) = ?next" by (simp add: min_def)
    show ?thesis
      unfolding if_not_P [OF False] Let_def nxt
      by (rule runs_mbind, rule runs_mmap_read [where g = "\<lambda>q. shown \<sigma> ?m (key_at pos q)"],
          rule runs_order_position [OF ok any], use c in simp, simp, erule full [rule_format], assumption, rule runs_mret, simp)
  qed
  have "runs (\<lambda>\<tau>. \<tau> = \<sigma>) \<sigma> (list_jobs_page env (JInt c) (JInt l) cluster state kind terminals) ?Q"
    unfolding list_jobs_page_def read_global_order_page_def
    by (rule runs_mbind, rule runs_qlift, rule valid(1), rule runs_mbind, rule runs_qlift, rule valid(2), rule runs_mbind,
        rule runs_on_other, rule refl, rule env_steps(1) [OF env], rule runs_mget, rule runs_mbind, rule runs_qlift,
        use env in \<open>simp add: env_ok_def\<close>, rule runs_mbind, rule runs_read_head, rule head, rule lat(1), rule lat(2), rule body)
  from runs_outcome [OF this h run]
  consider "r = Inl Crashed" "qs_budget s \<noteq> None" "cells s' = \<sigma>" | "r = Inr (?js (?stop - 1), ?next, latest)" "cells s' = \<sigma>"
    by (auto simp del: cells.simps)
  then show ?thesis
  proof cases
    case 2
    have eq: "{j. \<exists>k q. pos k = Some q \<and> c \<le> q \<and> q \<le> ?stop - 1 \<and> \<sigma> (JobCell k) = Some (JobV j) \<and> ?m j}
        = {j. \<exists>k q. pos k = Some q \<and> c \<le> q \<and> q < c + l \<and> \<sigma> (JobCell k) = Some (JobV j)
            \<and> (cluster = None \<or> cluster = Some (rj_cluster j)) \<and> (state = None \<or> state = Some (rj_state j))
            \<and> (kind = None \<or> kind = Some (rj_kind j)) \<and> (terminals \<or> \<not> terminal (rj_state j))}"
      using small by fastforce
    show ?thesis
      using 2 shown_window [OF pos jobs, where matches = ?m and c = c and n = "?stop - 1"] unfolding eq by blast
  qed simp
qed

theorem job_page_exact_witness:
  "\<exists>p q s s' latest. ensure_global ''jobs'' ''job_a'' (demo_state p None) = (Inr q, s)
     \<and> list_jobs_page demo_env (JInt 1) (JInt 500) (Some ''ares'') None None True s = (Inr ([demo_owned_job], None, latest), s')"
proof -
  obtain p :: LeaseCapacityPair where True by simp
  let ?\<sigma> = "cells (demo_state p None)"
  have family: "''jobs'' \<in> set GLOBAL_ORDER_FAMILIES" by (simp add: GLOBAL_ORDER_FAMILIES_def)
  let ?Q = "\<lambda>q \<tau>. \<exists>pos latest. order_reaches ''jobs'' ''job_a'' Map.empty 0 ?\<sigma> pos latest \<tau> \<and> pos ''job_a'' = Some q
    \<and> \<tau> (entry_cell ''jobs'' q) = Some (order_value ''jobs'' ''job_a'' q)"
  have "runs (\<lambda>_. True) ?\<sigma> (ensure_global ''jobs'' ''job_a'' :: (unit, int) queue_op) ?Q"
    by (rule runs_ensure_global [OF family demo_event_job_id empty_order]) auto
  from runs_uninterrupted [OF this demo_state_wf] obtain q s where
    s: "ensure_global ''jobs'' ''job_a'' (demo_state p None) = (Inr q, s)" "wf_store s" "?Q q (cells s)" "qs_budget s = None"
    by (metis (no_types, lifting) demo_state_def queue_state.select_convs(14))
  then obtain pos latest where reach: "order_reaches ''jobs'' ''job_a'' Map.empty 0 ?\<sigma> pos latest (cells s)"
    and mine: "pos ''job_a'' = Some q" "cells s (entry_cell ''jobs'' q) = Some (order_value ''jobs'' ''job_a'' q)" by blast
  have ok: "order_ok ''jobs'' pos latest (cells s)" and head: "latest \<le> 1" and keys: "dom pos \<subseteq> {''job_a''}"
    using reach by (simp_all add: order_reaches_def extends_def del: cells.simps)
  have dom: "k = ''job_a'' \<and> n = q" if "pos k = Some n" for k n using keys mine(1) that by auto
  have same: "cells s (JobCell k) = ?\<sigma> (JobCell k)" for k
    using reach by (simp add: order_reaches_def order_frame_def del: cells.simps)
  have job: "cells s (JobCell k) = (if k = ''job_a'' then Some (JobV demo_owned_job) else None)" for k
    unfolding same by (simp add: demo_state_def)
  have jobs: "jobs_ok UNIV (cells s)"
    unfolding jobs_ok_def job using demo_event_job_id by (simp add: demo_owned_job_def)
  have pos: "order_pos pos latest" using ok by (simp add: order_ok_def)
  note q = order_posD(2,3) [OF pos mine(1)]
  have full: "\<forall>k n. pos k = Some n \<longrightarrow> cells s (entry_cell ''jobs'' n) \<noteq> None" using dom mine(2) by fastforce
  have h: "holds (cells s) s" using s(2) by (simp add: holds_def)
  obtain r s' where run: "list_jobs_page demo_env (JInt 1) (JInt 500) (Some ''ares'') None None True s = (r, s')" by fastforce
  have fields: "rj_cluster demo_owned_job = ''ares''" "rj_job_id demo_owned_job = ''job_a''" by (simp_all add: demo_owned_job_def)
  have size: "(1 :: int) \<le> 500" "500 \<le> MAX_RESPONSE_PAGE_RECORDS" by (simp_all add: MAX_RESPONSE_PAGE_RECORDS_def)
  note page = job_page_exact [OF demo_queue_env_ok h ok jobs full order_refl size run]
  from page s(4) head obtain js where r: "r = Inr (js, None, latest)" and js: "set js = {j. \<exists>k n. pos k = Some n \<and> 1 \<le> n \<and> n < 501
      \<and> cells s (JobCell k) = Some (JobV j) \<and> ''ares'' = rj_cluster j}"
    and sorted: "sorted_wrt (\<lambda>i j. the (pos (rj_job_id i)) < the (pos (rj_job_id j))) js"
    by (auto simp del: cells.simps)
  have q501: "1 \<le> q \<and> q < 501" using q head by linarith
  have "set js \<subseteq> {demo_owned_job}" unfolding js job by (auto split: if_splits)
  moreover have "demo_owned_job \<in> set js" unfolding js job mem_Collect_eq
    by (rule exI [of _ "''job_a''"], rule exI [of _ q]) (simp add: mine(1) q501 fields)
  ultimately have only: "set js = {demo_owned_job}" by blast
  have "length js \<le> 1"
  proof (rule ccontr)
    assume "\<not> length js \<le> 1"
    then obtain a b rest where "js = a # b # rest" by (metis One_nat_def Suc_le_mono le0 length_Cons list.exhaust list.size(3))
    with sorted only show False by auto
  qed
  then have "js = [demo_owned_job]" using only by (cases js) auto
  with s(1) run r show ?thesis by blast
qed

end
