(* ===== verification/JobRecords.thy ===== *)
theory JobRecords
  imports LeaseAdmission
begin

text \<open>
  Job records after submission (\<^verbatim>\<open>queue_jobs.py\<close>, with the owner identity of
  \<^verbatim>\<open>queue_owner_session_records.py\<close> and the first index document of \<^verbatim>\<open>queue_order_index.py\<close>): the state
  transitions, the cancellation protocol, the repair of the active index and the admission bound.
  The durable cancellation work a scheduler needs is the subject of \<open>SchedulerCancel\<close>; here the call that
  prepares it is an argument of the operations that make it.
\<close>

section \<open>Owner identity in metadata\<close>

definition owner_session_identity ::
  "(string \<times> json) list \<Rightarrow> bool \<Rightarrow> py_error + (string \<times> string option) option" where
  "owner_session_identity metadata allow_legacy =
     (let owner_session_id = doc_get metadata ''owner_session_id'';
          generation_id = doc_get metadata ''owner_session_generation_id'';
          admission_session_id = doc_get metadata ''owner_session_admission_id'' in
      if owner_session_id = JNull
      then if generation_id \<noteq> JNull \<or> admission_session_id \<noteq> JNull
           then Inl (QueueConflictError (''owner_session_generation_id and owner_session_admission_id require ''
                  @ ''owner_session_id''))
           else Inr None
      else case as_str owner_session_id of
        None \<Rightarrow> Inl (QueueConflictError ''owner_session_id must be a non-empty string'')
      | Some owner \<Rightarrow>
          if owner = [] then Inl (QueueConflictError ''owner_session_id must be a non-empty string'')
          else if admission_session_id \<noteq> JNull \<and> \<not> safe_global_record_id admission_session_id
          then Inl (QueueConflictError ''owner_session_admission_id must be a safe identifier'')
          else if generation_id = JNull \<and> allow_legacy then Inr (Some (owner, None))
          else case as_str generation_id of
            None \<Rightarrow> Inl (QueueConflictError ''new owner-session records require owner_session_generation_id'')
          | Some generation \<Rightarrow>
              (case validate_durable_record_id generation_id of
                 Inl _ \<Rightarrow> Inl (QueueConflictError
                   ''owner_session_generation_id must be a portable durable identifier'')
               | Inr _ \<Rightarrow> Inr (Some (owner, Some generation))))"

definition validate_owner_session_identity_metadata :: "(string \<times> json) list \<Rightarrow> bool \<Rightarrow> py_error + unit" where
  "validate_owner_session_identity_metadata metadata allow_legacy =
     rbind (owner_session_identity metadata allow_legacy) (\<lambda>_. Inr ())"

definition validate_new_owner_session_metadata :: "(string \<times> json) list \<Rightarrow> py_error + unit" where
  "validate_new_owner_session_metadata metadata = validate_owner_session_identity_metadata metadata False"

section \<open>State transitions\<close>

definition dict_update :: "('k \<times> 'v) list \<Rightarrow> ('k \<times> 'v) list \<Rightarrow> ('k \<times> 'v) list" where
  "dict_update d updates = fold (\<lambda>(k, v). AList.update k v) updates d"

definition with_metadata :: "RelayJob \<Rightarrow> (string \<times> json) list \<Rightarrow> timestamp \<Rightarrow> RelayJob" where
  "with_metadata job metadata now = job\<lparr>rj_updated_at := now, rj_metadata := metadata\<rparr>"

definition update_job_metadata ::
  "'x queue_env \<Rightarrow> string \<Rightarrow> (string \<times> json) list \<Rightarrow> ('x, RelayJob) queue_op" where
  "update_job_metadata env job_id metadata =
     mbind (qlift (require_durable_record_id job_id ''job_id'')) (\<lambda>job_id.
     mbind (initialize_queue env) (\<lambda>_.
     mbind (reconcile_transition_intents env) (\<lambda>_.
     mbind (get_job job_id) (\<lambda>job.
     let updated_metadata = dict_update (rj_metadata job) metadata in
     mbind (if doc_get (rj_metadata job) ''owner_session_id'' = JNull
            then qlift (validate_new_owner_session_metadata updated_metadata) else mret ()) (\<lambda>_.
     mbind (utc_now env) (\<lambda>now.
     let updated = with_metadata job updated_metadata now in
     mbind (write_job env updated) (\<lambda>_. mret updated)))))))"

text \<open>\<^verbatim>\<open>leased_by\<close> is \<open>None\<close> for the sentinel \<^verbatim>\<open>_UNSET\<close>.\<close>

definition with_state :: "RelayJob \<Rightarrow> JobState \<Rightarrow> string option \<Rightarrow> string option option \<Rightarrow> timestamp \<Rightarrow> RelayJob" where
  "with_state job state error leased_by now =
     job\<lparr>rj_state := state, rj_updated_at := now, rj_last_error := error,
         rj_leased_by := (case leased_by of None \<Rightarrow> rj_leased_by job | Some v \<Rightarrow> v)\<rparr>"

definition update_job_state ::
  "'x queue_env \<Rightarrow> string \<Rightarrow> JobState \<Rightarrow> string option \<Rightarrow> string option \<Rightarrow> string option option
     \<Rightarrow> ('x, RelayJob) queue_op" where
  "update_job_state env job_id state message error leased_by =
     mbind (qlift (require_durable_record_id job_id ''job_id'')) (\<lambda>job_id.
     mbind (case leased_by of
              Some (Some endpoint) \<Rightarrow> mbind (qlift (require_durable_record_id endpoint ''leased_by'')) (\<lambda>_. mret ())
            | _ \<Rightarrow> mret ()) (\<lambda>_.
     mbind (initialize_queue env) (\<lambda>_.
     mbind (reconcile_transition_intents env) (\<lambda>_.
     mbind (get_job job_id) (\<lambda>job.
     mbind (qcheck (\<not> (terminal (rj_state job) \<and> state \<noteq> rj_state job))
       (QueueConflictError (''cannot change terminal job '' @ job_id @ '' from '' @ JobState_value (rj_state job)
          @ '' to '' @ JobState_value state))) (\<lambda>_.
     mbind (utc_now env) (\<lambda>now.
     let job = with_state job state error leased_by now in
     mbind (write_job env job) (\<lambda>_.
     mbind (append_event env job_id (''job.'' @ JobState_value state)
              (if message = None \<or> message = Some [] then ''Job '' @ JobState_value state else the message)
              [(''state'', JStr (JobState_value state)),
               (''error'', (case error of None \<Rightarrow> JNull | Some e \<Rightarrow> JStr e))]) (\<lambda>_.
     mret job)))))))))"

text \<open>
  \<^verbatim>\<open>cancel_job_if_active\<close>: a queued job is canceled at once; a job a worker holds keeps its state and
  carries the request until the worker acknowledges it.
\<close>

definition cancellation_request :: "'x queue_env \<Rightarrow> RelayJob \<Rightarrow> bool \<Rightarrow> timestamp \<Rightarrow> (string \<times> json) list" where
  "cancellation_request env job cancel_scheduler requested_at =
     [(''schema_version'', JStr ''clio-relay.cancellation-request.v1''),
      (''requested_at'', JStr (iso_format (qe_codec env) requested_at)),
      (''previous_state'', JStr (JobState_value (rj_state job))),
      (''cancel_scheduler'', JBool cancel_scheduler)]"

definition acknowledged :: "'x queue_env \<Rightarrow> timestamp \<Rightarrow> (string \<times> json) list \<Rightarrow> (string \<times> json) list" where
  "acknowledged env moment request =
     AList.update ''cleanup_acknowledged'' (JBool True)
       (AList.update ''acknowledged_at'' (JStr (iso_format (qe_codec env) moment)) request)"

definition cancel_requested :: "'x queue_env \<Rightarrow> RelayJob \<Rightarrow> bool \<Rightarrow> timestamp \<Rightarrow> RelayJob" where
  "cancel_requested env job cancel_scheduler requested_at =
     (let request = cancellation_request env job cancel_scheduler requested_at;
          requested = job\<lparr>rj_updated_at := requested_at,
            rj_metadata := AList.update ''cancellation_request'' (JObj request) (rj_metadata job)\<rparr> in
      if rj_state job = QUEUED
      then requested\<lparr>rj_state := CANCELED, rj_leased_by := None, rj_last_error := None,
             rj_metadata := AList.update ''cancellation_request'' (JObj (acknowledged env requested_at request))
               (rj_metadata job)\<rparr>
      else requested)"

definition canceled_payload :: "(string \<times> json) list" where
  "canceled_payload =
     [(''state'', JStr (JobState_value CANCELED)), (''error'', JNull), (''cleanup_acknowledged'', JBool True)]"

definition cancel_job_if_active ::
  "'x queue_env \<Rightarrow> (RelayJob \<Rightarrow> timestamp \<Rightarrow> string \<Rightarrow> ('x, py_error, unit) op) \<Rightarrow> string \<Rightarrow> bool
     \<Rightarrow> JobState option \<Rightarrow> timestamp option \<Rightarrow> ('x, RelayJob \<times> bool) queue_op" where
  "cancel_job_if_active env ensure_scheduler_cancel_pending job_id cancel_scheduler expected_state expected_updated_at =
     mbind (qlift (require_durable_record_id job_id ''job_id'')) (\<lambda>job_id.
     mbind (initialize_queue env) (\<lambda>_.
     mbind (reconcile_transition_intents env) (\<lambda>_.
     mbind (get_job job_id) (\<lambda>job.
     if terminal (rj_state job) then mret (job, False)
     else if expected_state \<noteq> None \<and> Some (rj_state job) \<noteq> expected_state then mret (job, False)
     else if expected_updated_at \<noteq> None \<and> Some (rj_updated_at job) \<noteq> expected_updated_at then mret (job, False)
     else mbind (utc_now env) (\<lambda>requested_at.
       let cancellation_requested = cancel_requested env job cancel_scheduler requested_at in
       mbind (if cancel_scheduler
              then on_other (ensure_scheduler_cancel_pending
                (job\<lparr>rj_updated_at := requested_at, rj_metadata := AList.update ''cancellation_request''
                   (JObj (cancellation_request env job cancel_scheduler requested_at)) (rj_metadata job)\<rparr>)
                requested_at ''operator_request'')
              else mret ()) (\<lambda>_.
       mbind (write_job env cancellation_requested) (\<lambda>_.
       mbind (append_event env job_id ''job.cancel_requested'' ''Cancellation requested''
                [(''previous_state'', JStr (JobState_value (rj_state job))),
                 (''cancel_scheduler'', JBool cancel_scheduler)]) (\<lambda>_.
       mbind (if rj_state cancellation_requested = CANCELED
              then mbind (append_event env job_id ''job.canceled'' ''Job canceled'' canceled_payload) (\<lambda>_. mret ())
              else mret ()) (\<lambda>_.
       mret (cancellation_requested, True))))))))))"

definition cancel_acknowledged :: "'x queue_env \<Rightarrow> RelayJob \<Rightarrow> (string \<times> json) list \<Rightarrow> timestamp \<Rightarrow> RelayJob" where
  "cancel_acknowledged env job request acknowledged_at =
     job\<lparr>rj_state := CANCELED, rj_leased_by := None, rj_updated_at := acknowledged_at, rj_last_error := None,
         rj_metadata := AList.update ''cancellation_request'' (JObj (acknowledged env acknowledged_at request))
           (rj_metadata job)\<rparr>"

definition acknowledge_job_cancellation :: "'x queue_env \<Rightarrow> string \<Rightarrow> ('x, RelayJob) queue_op" where
  "acknowledge_job_cancellation env job_id =
     mbind (qlift (require_durable_record_id job_id ''job_id'')) (\<lambda>job_id.
     mbind (initialize_queue env) (\<lambda>_.
     mbind (reconcile_transition_intents env) (\<lambda>_.
     mbind (get_job job_id) (\<lambda>job.
     if rj_state job = CANCELED then mret job
     else if terminal (rj_state job)
     then conflict (''cannot acknowledge cancellation for terminal job '' @ job_id @ '': '' @ JobState_value (rj_state job))
     else case as_obj (doc_get (rj_metadata job) ''cancellation_request'') of
       None \<Rightarrow> conflict (''job '' @ job_id @ '' has no durable cancellation request'')
     | Some request \<Rightarrow>
         mbind (utc_now env) (\<lambda>acknowledged_at.
         let canceled = cancel_acknowledged env job request acknowledged_at in
         mbind (write_job env canceled) (\<lambda>_.
         mbind (append_event env job_id ''job.canceled'' ''Job cancellation cleanup acknowledged'' canceled_payload) (\<lambda>_.
         mret canceled)))))))"

section \<open>The active index\<close>

text \<open>
  \<^verbatim>\<open>_repair_active_job_index_unlocked\<close>: one entry of \<^verbatim>\<open>jobs_active\<close>. The entry is read under its own file
  name and the canonical record under the identifier it carries.
\<close>

definition write_active_at :: "string \<Rightarrow> RelayJob \<Rightarrow> ('x, unit) queue_op" where
  "write_active_at name job = durable (qs_active_update (AList.update name job))"

definition repair_active_entry :: "string \<Rightarrow> ('x, unit) queue_op" where
  "repair_active_entry name =
     mbind mget (\<lambda>s.
       case map_of (qs_active s) name of
         None \<Rightarrow> qraise (OSError (''No such file or directory: '' @ record_path ''jobs_active'' name))
       | Some indexed \<Rightarrow>
           mbind (read_optional_job (rj_job_id indexed)) (\<lambda>canonical.
             case canonical of
               None \<Rightarrow> mbind (unlink_active name) (\<lambda>_. unlink_queued (rj_job_id indexed))
             | Some job \<Rightarrow>
                 if terminal (rj_state job)
                 then mbind (unlink_active name) (\<lambda>_. unlink_queued (rj_job_id indexed))
                 else mbind (write_active_at name job) (\<lambda>_.
                      if rj_state job = QUEUED then write_queued job else unlink_queued (rj_job_id job))))"

definition bounded_json_record_paths :: "int \<Rightarrow> string \<Rightarrow> (string \<times> 'a) list \<Rightarrow> py_error + string list" where
  "bounded_json_record_paths limit label entries =
     (if int (length entries) > limit
      then Inl (QueueConflictError (label @ '' exceeded its safety bound of '' @ int_str limit @ '' records''))
      else Inr (map fst entries))"

definition repair_active_job_index :: "('x, unit) queue_op" where
  "repair_active_job_index =
     mbind mget (\<lambda>s.
     mbind (qlift (bounded_json_record_paths MAX_ACTIVE_JOB_RECORDS ''active job index'' (qs_active s))) (\<lambda>paths.
     mseq repair_active_entry paths))"

definition bounded_regular_json_count :: "int \<Rightarrow> (string \<times> 'a) list \<Rightarrow> int \<times> bool" where
  "bounded_regular_json_count limit entries =
     (if int (length entries) > limit then (limit, True) else (int (length entries), False))"

text \<open>\<^verbatim>\<open>except (QueueConflictError, ValueError)\<close>\<close>

fun conflict_or_value :: "queue_exn \<Rightarrow> bool" where
  "conflict_or_value (Raised (QueueConflictError _)) = True"
| "conflict_or_value (Raised (ValueError _)) = True"
| "conflict_or_value _ = False"

definition mtry :: "('x, 'a) queue_op \<Rightarrow> (queue_exn \<Rightarrow> ('x, 'b) queue_op) \<Rightarrow> ('a \<Rightarrow> ('x, 'b) queue_op) \<Rightarrow> ('x, 'b) queue_op" where
  "mtry m handler rest = (\<lambda>s. case m s of
       (Inl e, s') \<Rightarrow> if conflict_or_value e then handler e s' else (Inl e, s')
     | (Inr x, s') \<Rightarrow> rest x s')"

definition ensure_active_job_capacity :: "RelayJob \<Rightarrow> ('x, unit) queue_op" where
  "ensure_active_job_capacity job =
     (if rj_state job \<noteq> QUEUED then mret ()
      else mbind mget (\<lambda>s.
        let (initial_count, _) = bounded_regular_json_count MAX_ACTIVE_JOB_RECORDS (qs_active s) in
        mtry repair_active_job_index
          (\<lambda>e. if initial_count \<ge> MAX_ACTIVE_JOB_RECORDS
               then conflict (''active_job_capacity_reached: active job capacity '' @ int_str MAX_ACTIVE_JOB_RECORDS
                      @ '' reached and the index could not be safely reconciled'')
               else mraise e)
          (\<lambda>_. mbind mget (\<lambda>s'.
             qcheck (\<not> int (length (qs_active s')) \<ge> MAX_ACTIVE_JOB_RECORDS)
               (QueueConflictError (''active_job_capacity_reached: active job capacity '' @ int_str MAX_ACTIVE_JOB_RECORDS
                  @ '' reached; cancel or drain active work before submitting another job''))))))"

definition active_job_capacity :: "'x queue_env \<Rightarrow> ('x, int \<times> int \<times> int \<times> bool) queue_op" where
  "active_job_capacity env =
     mbind (initialize_queue env) (\<lambda>_.
     mbind (reconcile_transition_intents env) (\<lambda>_.
     mbind mget (\<lambda>s.
     mbind (mtry repair_active_job_index
        (\<lambda>_. mret (bounded_regular_json_count MAX_ACTIVE_JOB_RECORDS (qs_active s)))
        (\<lambda>_. mbind mget (\<lambda>s'. mret (bounded_regular_json_count MAX_ACTIVE_JOB_RECORDS (qs_active s'))))) (\<lambda>(count, over_capacity).
     mret (MAX_ACTIVE_JOB_RECORDS, count, max 0 (MAX_ACTIVE_JOB_RECORDS - count), over_capacity)))))"

definition scan_active_jobs :: "'x queue_env \<Rightarrow> int \<Rightarrow> ('x, RelayJob list \<times> bool) queue_op" where
  "scan_active_jobs env limit =
     mbind (initialize_queue env) (\<lambda>_.
     mbind (reconcile_transition_intents env) (\<lambda>_.
     mbind repair_active_job_index (\<lambda>_.
     mbind mget (\<lambda>s.
     mbind (qlift (scan_many rj_job_id ''job_id'' limit (qs_active s))) (\<lambda>(indexed_jobs, truncated).
     mbind (mmap (\<lambda>indexed. get_job (rj_job_id indexed)) indexed_jobs) (\<lambda>jobs.
     mbind (mmap submission_order_key jobs) (\<lambda>keyed.
     mret (map snd (sort_key fst keyed), truncated))))))))"

section \<open>Whole listings\<close>

definition list_jobs :: "'x queue_env \<Rightarrow> ('x, RelayJob list) queue_op" where
  "list_jobs env =
     mbind (initialize_queue env) (\<lambda>_.
     mbind mget (\<lambda>s.
     mbind (qlift (read_many rj_job_id ''job_id'' MAX_BOUNDED_SCAN_RECORDS (qs_jobs s))) (\<lambda>jobs.
     mbind (mmap submission_order_key jobs) (\<lambda>keyed.
     mret (map snd (sort_key fst keyed))))))"

text \<open>\<^verbatim>\<open>scan_jobs\<close>: pages until the limit of source positions is used up.\<close>

function scan_job_pages ::
  "'x queue_env \<Rightarrow> int \<Rightarrow> int \<Rightarrow> ('x, RelayJob list \<times> bool) queue_op" where
  "scan_job_pages env cursor remaining =
     (if remaining \<le> 0 then mret ([], True)
      else let page_limit = min MAX_RESPONSE_PAGE_RECORDS remaining in
        mbind (list_jobs_page env (JInt cursor) (JInt page_limit) None None None True) (\<lambda>(page, next_cursor, _).
          case next_cursor of
            None \<Rightarrow> mret (page, False)
          | Some c \<Rightarrow> mbind (scan_job_pages env c (remaining - page_limit)) (\<lambda>(jobs, more). mret (page @ jobs, more))))"
  by pat_completeness auto
termination by (relation "measure (\<lambda>(_, _, remaining). nat remaining)") (auto simp: MAX_RESPONSE_PAGE_RECORDS_def)

declare scan_job_pages.simps [simp del]

definition scan_jobs :: "'x queue_env \<Rightarrow> int \<Rightarrow> ('x, RelayJob list \<times> bool) queue_op" where
  "scan_jobs env limit =
     mbind (qcheck (\<not> limit < 1) (ValueError ''job scan limit must be at least 1'')) (\<lambda>_.
     scan_job_pages env 1 limit)"

section \<open>The index document and the first event of a job\<close>

definition ORDER_INDEX_SCHEMA :: string where "ORDER_INDEX_SCHEMA = ''clio-relay.job-record-order.v1''"

definition initial_job_index :: "string \<Rightarrow> job_index" where
  "initial_job_index job_id =
     [(''schema_version'', JStr JOB_INDEX_SCHEMA), (''order_schema_version'', JStr ORDER_INDEX_SCHEMA),
      (''retention_schema_version'', JStr RETENTION_INDEX_SCHEMA), (''job_id'', JStr job_id),
      (''task_count'', JInt 0), (''artifact_count'', JInt 0), (''progress_count'', JInt 0),
      (''latest_progress_id'', JNull), (''latest_event_seq'', JInt 0)]"

definition initialize_job_index :: "string \<Rightarrow> ('x, unit) queue_op" where
  "initialize_job_index job_id =
     mbind (job_index_exists job_id) (\<lambda>exists.
       if exists then mret () else write_job_index job_id (initial_job_index job_id))"

definition ensure_job_queued_event :: "'x queue_env \<Rightarrow> RelayJob \<Rightarrow> ('x, unit) queue_op" where
  "ensure_job_queued_event env job =
     mbind mget (\<lambda>s.
       if map_of (qs_events s) (rj_job_id job, 1) \<noteq> None then mret ()
       else mbind (update_job_index (rj_job_id job) [(''latest_event_seq'', JInt 0)]) (\<lambda>_.
            mbind (append_event env (rj_job_id job) ''job.queued'' ''Job queued'' []) (\<lambda>_. mret ())))"

end
