(* ===== verification/JobUpdates.thy ===== *)
theory JobUpdates
  imports JobRecords LeaseDeletion
begin

text \<open>
  Crash safety of the job state transitions. Every transition is one canonical job write, with the
  derived indexes converged under a \<^verbatim>\<open>job_sync\<close> intent, followed by its events. A replay of the
  intent converges the indexes to whichever canonical record is durable, so the transition is
  atomic; an event can be lost by a crash after the job write, but never precedes it.
\<close>

section \<open>One job write\<close>

definition job_written :: "RelayJob \<Rightarrow> content \<Rightarrow> content" where
  "job_written j \<sigma> = synced_cells j (\<sigma>(JobCell (rj_job_id j) \<mapsto> JobV j))"

abbreviation sync_path :: "string \<Rightarrow> string" where "sync_path k \<equiv> intent_name ''job_sync'' k"

abbreviation syncing :: "RelayJob \<Rightarrow> content \<Rightarrow> content \<Rightarrow> bool" where
  "syncing j \<sigma> \<equiv> rolling (IntentCell (sync_path (rj_job_id j))) (JobSyncIntent (rj_job_id j))
     (\<sigma>(JobCell (rj_job_id j) \<mapsto> JobV j)) (job_written j \<sigma>)"

lemma job_written_cells [simp]:
  "job_written j \<sigma> (JobCell k) = (if k = rj_job_id j then Some (JobV j) else \<sigma> (JobCell k))"
  "job_written j \<sigma> (ActiveCell k) =
     (if k = rj_job_id j then (if terminal (rj_state j) then None else Some (JobV j)) else \<sigma> (ActiveCell k))"
  "job_written j \<sigma> (QueuedCell k) =
     (if k = rj_job_id j then (if rj_state j = QUEUED then Some (JobV j) else None) else \<sigma> (QueuedCell k))"
  "job_written j \<sigma> (LeaseCell k) = \<sigma> (LeaseCell k)"
  "job_written j \<sigma> (JobLeaseCell kk) = \<sigma> (JobLeaseCell kk)"
  "job_written j \<sigma> (IndexCell p) = \<sigma> (IndexCell p)"
  "job_written j \<sigma> AggregateCell = \<sigma> AggregateCell"
  "job_written j \<sigma> CheckpointCell = \<sigma> CheckpointCell"
  "job_written j \<sigma> (IntentCell n) = \<sigma> (IntentCell n)"
  "job_written j \<sigma> (EventCell ke) = \<sigma> (EventCell ke)"
  "job_written j \<sigma> (JobIndexCell k) = \<sigma> (JobIndexCell k)"
  "job_written j \<sigma> (DocCell kd) = \<sigma> (DocCell kd)"
  by (simp_all add: job_written_def synced_cells_def)

lemma job_written_same:
  assumes "\<sigma> (JobCell (rj_job_id j)) = Some (JobV j)" "synced \<sigma> j"
  shows "job_written j \<sigma> = \<sigma>"
proof (rule ext)
  fix c show "job_written j \<sigma> c = \<sigma> c" using assms by (cases c) (auto simp: synced_def)
qed

lemma syncing_steps:
  assumes "syncing j \<sigma> \<tau>"
  shows "\<tau> (JobCell (rj_job_id j)) = Some (JobV j)"
    and "syncing j \<sigma> (\<tau>(ActiveCell (rj_job_id j) := (if terminal (rj_state j) then None else Some (JobV j))))"
    and "syncing j \<sigma> (synced_cells j \<tau>)"
    and "\<sigma> (IntentCell (sync_path (rj_job_id j))) = None
      \<Longrightarrow> (synced_cells j \<tau>)(IntentCell (sync_path (rj_job_id j)) := None) = job_written j \<sigma>"
proof -
  show "\<tau> (JobCell (rj_job_id j)) = Some (JobV j)"
    using rolling_cell(2) [OF assms, of "JobCell (rj_job_id j)"] by simp
  show a: "syncing j \<sigma> (\<tau>(ActiveCell (rj_job_id j) := (if terminal (rj_state j) then None else Some (JobV j))))"
    by (rule rolling_upd [OF assms]) simp_all
  show "syncing j \<sigma> (synced_cells j \<tau>)"
    unfolding synced_cells_def by (rule rolling_upd [OF a]) simp_all
  assume none: "\<sigma> (IntentCell (sync_path (rj_job_id j))) = None"
  show "(synced_cells j \<tau>)(IntentCell (sync_path (rj_job_id j)) := None) = job_written j \<sigma>"
  proof (rule ext)
    fix c
    show "((synced_cells j \<tau>)(IntentCell (sync_path (rj_job_id j)) := None)) c = job_written j \<sigma> c"
      using rolling_cell(2) [OF assms, of c] none
      by (cases c) (auto simp: synced_cells_def split: if_splits)
  qed
qed

lemma runs_replay_syncing:
  fixes env :: "'x queue_env"
  assumes env: "env_ok env" and k: "durable_id (rj_job_id j)" and none: "\<And>n. \<sigma> (IntentCell n) = None"
    and mixed: "syncing j \<sigma> \<tau>" and Q: "Q [] (job_written j \<sigma>)"
  shows "runs (syncing j \<sigma>) \<tau> (reconcile_transition_intents env) Q"
proof (rule runs_replay_one)
  show "\<tau> (IntentCell n) = (if n = sync_path (rj_job_id j) then Some (IntentV (JobSyncIntent (rj_job_id j))) else None)"
    for n by (rule rolling_intents [OF mixed]) (simp_all add: none)
  have ne: "rj_job_id j \<noteq> []" using k by (auto simp: durable_id_pattern DURABLE_RECORD_ID_PATTERN_def)
  note steps = syncing_steps [OF mixed]
  show "runs (syncing j \<sigma>) \<tau> (replay_intent env (sync_path (rj_job_id j), JobSyncIntent (rj_job_id j))) Q"
    unfolding replay_intent.simps replay_job_sync_def mbind_assoc
    by (rule runs_mbind, rule runs_mcheck [OF ne], rule runs_mbind, rule runs_read_job [where r = "Some j"],
        simp add: steps(1), simp add: k, simp only: option.case, rule runs_mbind,
        rule runs_sync_job_derived [OF env], rule mixed, rule steps(2), rule runs_mbind, rule runs_writes(10),
        rule steps(3), rule runs_mret, simp add: steps(4) none Q)
qed simp

interpretation job_sync: journaled env
  "\<lambda>\<tau>. env_ok env \<and> durable_id (rj_job_id j) \<and> (\<forall>n. \<sigma> (IntentCell n) = None) \<and> syncing j \<sigma> \<tau>"
  "\<lambda>\<tau>. \<tau> = job_written j \<sigma>" for env j \<sigma>
proof unfold_locales
  fix \<tau> assume pending: "env_ok env \<and> durable_id (rj_job_id j) \<and> (\<forall>n. \<sigma> (IntentCell n) = None) \<and> syncing j \<sigma> \<tau>"
  then have "runs (syncing j \<sigma>) \<tau> (reconcile_transition_intents env) (\<lambda>_ \<tau>. \<tau> = job_written j \<sigma>)"
    by (intro runs_replay_syncing) auto
  then show "runs (\<lambda>\<tau>. env_ok env \<and> durable_id (rj_job_id j) \<and> (\<forall>n. \<sigma> (IntentCell n) = None) \<and> syncing j \<sigma> \<tau>) \<tau>
      (reconcile_transition_intents env) (\<lambda>_ \<tau>. \<tau> = job_written j \<sigma>)"
    by (rule runs_weaken_crash) (use pending in simp)
qed

section \<open>The write of a new version of a job\<close>

text \<open>A job write is interrupted before it, with the old record durable, or with the new one.\<close>

definition replaces :: "RelayJob \<Rightarrow> RelayJob \<Rightarrow> content \<Rightarrow> bool" where
  "replaces j j' \<sigma> \<longleftrightarrow> \<sigma> (JobCell (rj_job_id j)) = Some (JobV j) \<and> rj_job_id j' = rj_job_id j
     \<and> rj_cluster j' = rj_cluster j \<and> rj_kind j' = rj_kind j"

definition writing :: "RelayJob \<Rightarrow> RelayJob \<Rightarrow> content \<Rightarrow> content \<Rightarrow> bool" where
  "writing j j' \<sigma> \<tau> \<longleftrightarrow> \<tau> = \<sigma> \<or> syncing j \<sigma> \<tau> \<or> syncing j' \<sigma> \<tau>"

lemma runs_write_version:
  fixes env :: "'x queue_env"
  assumes env: "env_ok env" and r: "replaces j j' \<sigma>" and none: "\<And>n. \<sigma> (IntentCell n) = None"
    and P: "\<And>\<tau>. writing j j' \<sigma> \<tau> \<Longrightarrow> P \<tau>" and Q: "Q () (job_written j' \<sigma>)"
  shows "runs P \<sigma> (write_job env j') Q"
proof (rule runs_write_job [OF env])
  let ?k = "rj_job_id j'"
  let ?q = "IntentCell (sync_path ?k)"
  show "P \<sigma>" by (rule P) (simp add: writing_def)
  have k: "rj_job_id j = ?k" and same: "\<sigma>(JobCell ?k \<mapsto> JobV j) = \<sigma>"
    using r by (auto simp: replaces_def fun_upd_idem)
  fix \<tau> assume \<tau>: "\<tau> = \<sigma>(?q \<mapsto> IntentV (JobSyncIntent ?k))"
  have old: "syncing j \<sigma> \<tau>" unfolding \<tau> k same by (rule rolling_start)
  have "\<tau>(JobCell ?k \<mapsto> JobV j') = (\<sigma>(JobCell ?k \<mapsto> JobV j'))(?q \<mapsto> IntentV (JobSyncIntent ?k))"
    unfolding \<tau> by (rule fun_upd_twist) simp
  then have new: "syncing j' \<sigma> (\<tau>(JobCell ?k \<mapsto> JobV j'))" by (simp only: rolling_start)
  show "P \<tau> \<and> P (\<tau>(JobCell ?k \<mapsto> JobV j'))
      \<and> P (\<tau>(JobCell ?k \<mapsto> JobV j', ActiveCell ?k := (if terminal (rj_state j') then None else Some (JobV j'))))
      \<and> P (synced_cells j' (\<tau>(JobCell ?k \<mapsto> JobV j')))"
    using old new syncing_steps(2,3) [OF new] by (intro conjI P) (simp_all only: writing_def simp_thms)
next
  have "(synced_cells j' (\<sigma>(JobCell (rj_job_id j') \<mapsto> JobV j')))(IntentCell (sync_path (rj_job_id j')) := None)
      = job_written j' \<sigma>"
    unfolding job_written_def by (rule ext) (simp add: synced_cells_def none)
  then show "Q () ((synced_cells j' (\<sigma>(JobCell (rj_job_id j') \<mapsto> JobV j')))
      (IntentCell (sync_path (rj_job_id j')) := None))" using Q by simp
qed

lemma settled_job_written:
  assumes "settled env L D \<sigma>" "replaces j j' \<sigma>"
  shows "settled env L (D - {rj_job_id j}) (job_written j' \<sigma>)"
proof -
  have id: "identity_of l j' = identity_of l j" for l using assms(2) by (simp add: replaces_def identity_of_def)
  have records: "records_ok L (job_written j' \<sigma>)"
    unfolding records_ok_def
  proof (intro conjI ballI)
    fix i assume "i \<in> L"
    then obtain l m where c: "\<sigma> (LeaseCell (li_lease_id i)) = Some (LeaseV l)"
      "\<sigma> (JobLeaseCell (li_job_id i, li_lease_id i)) = Some (LeaseV l)"
      "\<sigma> (JobCell (li_job_id i)) = Some (JobV m)" "identity_of l m = i"
      using assms(1) by (fastforce simp: settled_def records_ok_def)
    show "\<exists>l m. job_written j' \<sigma> (LeaseCell (li_lease_id i)) = Some (LeaseV l)
        \<and> job_written j' \<sigma> (JobLeaseCell (li_job_id i, li_lease_id i)) = Some (LeaseV l)
        \<and> job_written j' \<sigma> (JobCell (li_job_id i)) = Some (JobV m) \<and> identity_of l m = i"
    proof (cases "li_job_id i = rj_job_id j'")
      case True
      then have "m = j" using c(3) assms(2) by (simp add: replaces_def)
      then show ?thesis using c True id by (intro exI [of _ l] exI [of _ j']) simp
    qed (use c in auto)
  qed (use assms(1) in \<open>simp_all add: settled_def records_ok_def\<close>)
  have dur: "durable_id (rj_job_id j)"
    using assms jobs_okD [of D \<sigma> "rj_job_id j" j] by (simp add: settled_def replaces_def)
  have "jobs_ok D \<sigma>" using assms(1) by (simp add: settled_def)
  then have "jobs_ok (D - {rj_job_id j}) (job_written j' \<sigma>)"
    by (rule jobs_ok_upd [of _ _ _ "rj_job_id j'" j'])
       (use assms(2) dur in \<open>auto simp: replaces_def synced_def not_terminal_queued\<close>)
  with records show ?thesis
    using assms(1) by (simp add: settled_def files_ok_def capacity_ok_def)
qed

section \<open>Events after the write\<close>

text \<open>Two contents that differ at most in the event log of job \<open>k\<close>.\<close>

definition noted :: "string \<Rightarrow> content \<Rightarrow> content \<Rightarrow> bool" where
  "noted k \<sigma> \<tau> \<longleftrightarrow> (\<forall>c. c \<noteq> JobIndexCell k \<and> (\<forall>q. c \<noteq> EventCell (k, q)) \<longrightarrow> \<tau> c = \<sigma> c)"

lemma noted_refl [simp]: "noted k \<sigma> \<sigma>"
  by (simp add: noted_def)

lemma noted_upd:
  "noted k \<sigma> \<tau> \<Longrightarrow> noted k \<sigma> (\<tau>(EventCell (k, q) \<mapsto> v))"
  "noted k \<sigma> \<tau> \<Longrightarrow> noted k \<sigma> (\<tau>(JobIndexCell k \<mapsto> v))"
  by (simp_all add: noted_def)

lemma notedD:
  assumes "noted k \<sigma> \<tau>"
  shows "\<tau> (JobCell n) = \<sigma> (JobCell n)" "\<tau> (ActiveCell n) = \<sigma> (ActiveCell n)" "\<tau> (QueuedCell n) = \<sigma> (QueuedCell n)"
    "\<tau> (LeaseCell n) = \<sigma> (LeaseCell n)" "\<tau> (JobLeaseCell nn) = \<sigma> (JobLeaseCell nn)" "\<tau> (IndexCell p) = \<sigma> (IndexCell p)"
    "\<tau> AggregateCell = \<sigma> AggregateCell" "\<tau> CheckpointCell = \<sigma> CheckpointCell" "\<tau> (IntentCell n) = \<sigma> (IntentCell n)"
    "\<tau> (DocCell nn) = \<sigma> (DocCell nn)"
  using assms by (simp_all add: noted_def)

lemma settled_noted: "settled env L D \<sigma> \<Longrightarrow> noted k \<sigma> \<tau> \<Longrightarrow> settled env L D \<tau>"
  by (simp add: settled_def records_ok_def files_ok_def capacity_ok_def jobs_ok_def synced_def notedD)

lemma event_log_lag: "event_log lag \<sigma> k es \<Longrightarrow> lag \<le> lag' \<Longrightarrow> event_log lag' \<sigma> k es"
  by (force simp: event_log_def)

lemma event_log_lag_nonneg: "event_log lag \<sigma> k es \<Longrightarrow> 0 \<le> lag"
  by (auto simp: event_log_def)

text \<open>
  The store with version \<open>j\<close> of a job in force: settled with the same leases, every other job
  untouched, the index head at most \<open>lag\<close> behind, and events of the given types added to the log \<open>es\<close>.
\<close>

definition version ::
  "'x queue_env \<Rightarrow> LeaseIndexIdentity set \<Rightarrow> content \<Rightarrow> int \<Rightarrow> RelayEvent list \<Rightarrow> RelayJob \<Rightarrow> string list \<Rightarrow> content \<Rightarrow> bool" where
  "version env L \<sigma> lag es j types \<tau> \<longleftrightarrow>
     settled env L {} \<tau> \<and> noted (rj_job_id j) (job_written j \<sigma>) \<tau>
     \<and> (\<exists>fs. map re_event_type fs = types \<and> event_log lag \<tau> (rj_job_id j) (es @ fs))"

lemma version_lag: "version env L \<sigma> lag es j types \<tau> \<Longrightarrow> lag \<le> lag' \<Longrightarrow> version env L \<sigma> lag' es j types \<tau>"
  unfolding version_def using event_log_lag by blast

lemma version_written:
  assumes "settled env L {} \<sigma>" "replaces j j' \<sigma>" "event_log lag \<sigma> (rj_job_id j) es"
  shows "version env L \<sigma> lag es j' [] (job_written j' \<sigma>)"
proof -
  have k: "rj_job_id j' = rj_job_id j" using assms(2) by (simp add: replaces_def)
  have "event_log lag (job_written j' \<sigma>) (rj_job_id j') (es @ [])"
    unfolding k append_Nil2 by (rule event_log_frame [OF assms(3)]) simp_all
  then show ?thesis using settled_job_written [OF assms(1,2)] by (auto simp: version_def)
qed

lemma runs_append_version:
  fixes env :: "'x queue_env"
  assumes k: "durable_id (rj_job_id j)" and v: "version env L \<sigma> lag es j types \<tau>" "lag < DEFAULT_EXACT_RECORD_LIMIT"
    and P: "P \<tau>" "\<And>\<rho>. version env L \<sigma> (lag + 1) es j (types @ [etype]) \<rho> \<Longrightarrow> P \<rho>"
    and Q: "\<And>e \<rho>. version env L \<sigma> 0 es j (types @ [etype]) \<rho> \<Longrightarrow> Q e \<rho>"
  shows "runs P \<tau> (append_event env (rj_job_id j) etype message payload) Q"
proof -
  obtain fs where settled: "settled env L {} \<tau>" and frame: "noted (rj_job_id j) (job_written j \<sigma>) \<tau>"
    and fs: "map re_event_type fs = types" "event_log lag \<tau> (rj_job_id j) (es @ fs)"
    using v(1) by (auto simp: version_def)
  have grown: "version env L \<sigma> n es j (types @ [etype]) \<rho>"
    if "noted (rj_job_id j) \<tau> \<rho>" "event_log n \<rho> (rj_job_id j) ((es @ fs) @ [e])"
      "appended (rj_job_id j) (length (es @ fs)) etype message payload e" for \<rho> n e
    unfolding version_def
  proof (intro conjI exI)
    show "settled env L {} \<rho>" by (rule settled_noted [OF settled that(1)])
    show "noted (rj_job_id j) (job_written j \<sigma>) \<rho>" using frame that(1) by (simp add: noted_def)
    show "map re_event_type (fs @ [e]) = types @ [etype]" using fs(1) that(3) by (simp add: appended_def)
    show "event_log n \<rho> (rj_job_id j) (es @ fs @ [e])" using that(2) by simp
  qed
  show ?thesis
  proof (rule runs_append_event [where P = P, OF k fs(2) v(2) P(1)])
    fix e assume e: "appended (rj_job_id j) (length (es @ fs)) etype message payload e"
    then have id: "re_job_id e = rj_job_id j" "re_seq e = int (length (es @ fs)) + 1" by (simp_all add: appended_def)
    show "P (\<tau>(EventCell (rj_job_id j, int (length (es @ fs)) + 1) \<mapsto> EventV e))"
      by (rule P(2), rule grown [OF noted_upd(1) [OF noted_refl] event_log_written [OF fs(2) id] e])
  next
    fix e d \<rho> assume \<rho>: "\<rho> = \<tau>(EventCell (rj_job_id j, int (length (es @ fs)) + 1) \<mapsto> EventV e,
        JobIndexCell (rj_job_id j) \<mapsto> DocV (JObj d))"
      and log: "event_log 0 \<rho> (rj_job_id j) ((es @ fs) @ [e])"
      and e: "appended (rj_job_id j) (length (es @ fs)) etype message payload e"
    have "noted (rj_job_id j) \<tau> \<rho>" unfolding \<rho> by (intro noted_upd noted_refl)
    then show "Q e \<rho>" by (rule Q [OF grown [OF _ log e]])
  qed
qed

section \<open>Atomic transitions\<close>

text \<open>What a crash leaves: a half-written version, or the new version with some of its events.\<close>

definition interrupted ::
  "'x queue_env \<Rightarrow> LeaseIndexIdentity set \<Rightarrow> content \<Rightarrow> int \<Rightarrow> RelayEvent list \<Rightarrow> RelayJob \<Rightarrow> RelayJob \<Rightarrow> string list
     \<Rightarrow> content \<Rightarrow> bool" where
  "interrupted env L \<sigma> lag es j j' types \<tau> \<longleftrightarrow> writing j j' \<sigma> \<tau>
     \<or> (\<exists>pre rest. types = pre @ rest \<and> version env L \<sigma> (lag + 1) es j' pre \<tau>)"

lemma interrupted_recovers:
  fixes env :: "'x queue_env"
  assumes env: "env_ok env" and \<sigma>: "settled env L {} \<sigma>" and r: "replaces j j' \<sigma>"
    and log: "event_log lag \<sigma> (rj_job_id j) es"
    and crashed: "interrupted env L \<sigma> lag es j j' types (cells s)" and wf: "wf_store s"
  shows "\<exists>jobs s'. restarts env bs s = (Inr jobs, s') \<and>
    (cells s' = \<sigma> \<or> (\<exists>pre rest. types = pre @ rest \<and> version env L \<sigma> (lag + 1) es j' pre (cells s')))"
proof -
  have none: "\<forall>n. \<sigma> (IntentCell n) = None" using \<sigma> by (simp add: settled_def)
  have job: "\<sigma> (JobCell (rj_job_id j)) = Some (JobV j)" "rj_job_id j' = rj_job_id j" using r by (simp_all add: replaces_def)
  have k: "durable_id (rj_job_id j)" and sync: "synced \<sigma> j"
    using \<sigma> jobs_okD [of "{}" \<sigma> "rj_job_id j" j] job(1) by (auto simp: settled_def)
  have quiet: "\<exists>jobs s'. restarts env bs s = (Inr jobs, s') \<and> cells s' = cells s" if "\<forall>n. cells s (IntentCell n) = None"
    using empty_journal.recovers [where \<sigma> = "cells s" and s = s and env = env and bs = bs] that wf by blast
  have written: "version env L \<sigma> (lag + 1) es j' [] (job_written j' \<sigma>)"
    by (rule version_lag [OF version_written [OF \<sigma> r log]]) simp
  consider "cells s = \<sigma>" | "syncing j \<sigma> (cells s)" | "syncing j' \<sigma> (cells s)"
    | pre rest where "types = pre @ rest" "version env L \<sigma> (lag + 1) es j' pre (cells s)"
    using crashed by (auto simp: interrupted_def writing_def)
  then show ?thesis
  proof cases
    case 1
    then show ?thesis using quiet none by metis
  next
    case 2
    from job_sync.recovers [OF conjI [OF env conjI [OF k conjI [OF none 2]]] wf, of bs]
    show ?thesis unfolding job_written_same [OF job(1) sync] by blast
  next
    case 3
    have k': "durable_id (rj_job_id j')" using k job(2) by simp
    from job_sync.recovers [OF conjI [OF env conjI [OF k' conjI [OF none 3]]] wf, of bs] written
    show ?thesis by (metis append_Nil)
  next
    case 4
    then have "\<forall>n. cells s (IntentCell n) = None" by (auto simp: version_def settled_def simp del: cells.simps)
    from quiet [OF this] 4 show ?thesis by metis
  qed
qed

text \<open>
  An operation \<open>m\<close> on one job is an atomic transition: it completes with the new version in force and
  all events logged, or it crashes, and after any number of interrupted restarts the next complete
  replay leaves the old content or the new version with the first of its events. \<open>new\<close> relates the
  result to the new version and the types of its events.
\<close>

definition atomic_transition ::
  "'x queue_env \<Rightarrow> LeaseIndexIdentity set \<Rightarrow> content \<Rightarrow> int \<Rightarrow> RelayEvent list \<Rightarrow> 'x queue_state
     \<Rightarrow> ('x, 'a) queue_op \<Rightarrow> ('a \<Rightarrow> RelayJob \<Rightarrow> string list \<Rightarrow> bool) \<Rightarrow> bool" where
  "atomic_transition env L \<sigma> lag es s m new \<longleftrightarrow> (\<exists>x j types s'. new x j types \<and> wf_store s' \<and>
     (m s = (Inr x, s') \<and> version env L \<sigma> lag es j types (cells s')
      \<or> m s = (Inl Crashed, s') \<and> qs_budget s \<noteq> None \<and> (\<forall>bs. \<exists>jobs s''. restarts env bs s' = (Inr jobs, s'') \<and>
          (cells s'' = \<sigma> \<or> (\<exists>pre rest. types = pre @ rest \<and> version env L \<sigma> (lag + 1) es j pre (cells s''))))))"

lemma atomic_transitionI:
  fixes env :: "'x queue_env"
  assumes env: "env_ok env" and h: "holds \<sigma> s" and \<sigma>: "settled env L {} \<sigma>" and log: "event_log lag \<sigma> (rj_job_id j) es"
    and new: "\<And>x j' types. new x j' types \<Longrightarrow> replaces j j' \<sigma>" and some: "\<exists>x j' types. new x j' types"
    and run: "runs (\<lambda>\<tau>. \<tau> = \<sigma> \<or> (\<exists>x j' types. new x j' types \<and> interrupted env L \<sigma> lag es j j' types \<tau>)) \<sigma> m
      (\<lambda>x \<tau>. \<exists>j' types. new x j' types \<and> version env L \<sigma> lag es j' types \<tau>)"
  shows "atomic_transition env L \<sigma> lag es s m new"
proof -
  obtain r s' where m: "m s = (r, s')" by fastforce
  from runs_outcome [OF run h m] have wf: "wf_store s'" and
    out: "(\<exists>x j' types. r = Inr x \<and> new x j' types \<and> version env L \<sigma> lag es j' types (cells s'))
      \<or> r = Inl Crashed \<and> qs_budget s \<noteq> None \<and>
        (cells s' = \<sigma> \<or> (\<exists>x j' types. new x j' types \<and> interrupted env L \<sigma> lag es j j' types (cells s')))" by auto
  from out show ?thesis
  proof
    assume "\<exists>x j' types. r = Inr x \<and> new x j' types \<and> version env L \<sigma> lag es j' types (cells s')"
    with m wf show ?thesis unfolding atomic_transition_def by blast
  next
    assume c: "r = Inl Crashed \<and> qs_budget s \<noteq> None \<and>
        (cells s' = \<sigma> \<or> (\<exists>x j' types. new x j' types \<and> interrupted env L \<sigma> lag es j j' types (cells s')))"
    have "interrupted env L \<sigma> lag es j j' types \<sigma>" for j' types by (simp add: interrupted_def writing_def)
    with c some obtain x j' types where n: "new x j' types" "interrupted env L \<sigma> lag es j j' types (cells s')" by metis
    from interrupted_recovers [OF env \<sigma> new [OF n(1)] log n(2) wf] n(1) m c wf show ?thesis
      unfolding atomic_transition_def by blast
  qed
qed

text \<open>The points of a transition where a crash can find the store.\<close>

lemma interrupted_points:
  assumes "settled env L {} \<sigma>" "replaces j j' \<sigma>" "event_log lag \<sigma> (rj_job_id j) es"
  shows "writing j j' \<sigma> \<tau> \<Longrightarrow> interrupted env L \<sigma> lag es j j' types \<tau>"
    and "interrupted env L \<sigma> lag es j j' types (job_written j' \<sigma>)"
    and "version env L \<sigma> (lag + 1) es j' [etype] \<rho> \<Longrightarrow> interrupted env L \<sigma> lag es j j' (etype # later) \<rho>"
proof -
  show "writing j j' \<sigma> \<tau> \<Longrightarrow> interrupted env L \<sigma> lag es j j' types \<tau>" by (simp add: interrupted_def)
  have "version env L \<sigma> (lag + 1) es j' [] (job_written j' \<sigma>)" by (rule version_lag [OF version_written [OF assms]]) simp
  then show "interrupted env L \<sigma> lag es j j' types (job_written j' \<sigma>)" unfolding interrupted_def by blast
  have "etype # later = [etype] @ later" by simp
  then show "version env L \<sigma> (lag + 1) es j' [etype] \<rho> \<Longrightarrow> interrupted env L \<sigma> lag es j j' (etype # later) \<rho>"
    unfolding interrupted_def by blast
qed

text \<open>One job write with one event, the shape of most transitions.\<close>

lemma runs_transition:
  fixes env :: "'x queue_env"
  assumes env: "env_ok env" and \<sigma>: "settled env L {} \<sigma>" and r: "replaces j j' \<sigma>"
    and log: "event_log lag \<sigma> (rj_job_id j) es" "lag < DEFAULT_EXACT_RECORD_LIMIT"
    and P: "\<And>\<tau>. interrupted env L \<sigma> lag es j j' (etype # later) \<tau> \<Longrightarrow> P \<tau>"
    and Q: "\<And>e \<tau>. version env L \<sigma> 0 es j' [etype] \<tau> \<Longrightarrow> runs P \<tau> (f e) Q"
  shows "runs P \<sigma> (mbind (write_job env j') (\<lambda>_. mbind (append_event env (rj_job_id j) etype message payload) f)) Q"
proof -
  have none: "\<sigma> (IntentCell n) = None" for n using \<sigma> by (simp add: settled_def)
  have k: "rj_job_id j' = rj_job_id j" using r by (simp add: replaces_def)
  have dur: "durable_id (rj_job_id j')"
    using \<sigma> jobs_okD [of "{}" \<sigma> "rj_job_id j" j] r by (auto simp: settled_def replaces_def)
  note v = version_written [OF \<sigma> r log(1)] and points = interrupted_points [OF \<sigma> r log(1)]
  have P2: "P \<rho>" if "version env L \<sigma> (lag + 1) es j' ([] @ [etype]) \<rho>" for \<rho> by (rule P, rule points(3)) (use that in simp)
  show ?thesis
    unfolding k [symmetric]
    by (rule runs_mbind, rule runs_write_version [OF env r none], rule P, erule points(1), rule runs_mbind,
        rule runs_append_version [OF dur v log(2)], rule P, rule points(2), erule P2, rule Q, simp)
qed

lemma runs_opened:
  fixes env :: "'x queue_env"
  assumes env: "env_ok env" and \<sigma>: "settled env L {} \<sigma>" and job: "\<sigma> (JobCell k) = Some (JobV j)"
    and P: "P \<sigma>" and Q: "runs P \<sigma> (m j) Q"
  shows "runs P \<sigma> (mbind (initialize_queue env) (\<lambda>_. mbind (reconcile_transition_intents env) (\<lambda>_. mbind (get_job k) m))) Q"
proof -
  have none: "\<sigma> (IntentCell n) = None" for n using \<sigma> by (simp add: settled_def)
  have k: "durable_id k" "rj_job_id j = k"
    using \<sigma> jobs_okD [of "{}" \<sigma> k j] job by (auto simp: settled_def)
  show ?thesis
    by (rule runs_opening [OF env], rule none, rule P, rule runs_mbind, rule runs_get_job, rule job, rule k(2), rule k(1), rule Q)
qed

text \<open>A transition whose new version depends only on the clock.\<close>

lemma atomic_now:
  fixes env :: "'x queue_env"
  assumes env: "env_ok env" and h: "holds \<sigma> s" and \<sigma>: "settled env L {} \<sigma>" and log: "event_log lag \<sigma> (rj_job_id j) es"
    and r: "\<And>now. replaces j (f now) \<sigma>"
    and run: "\<And>P Q. P \<sigma> \<Longrightarrow> (\<And>now \<tau>. interrupted env L \<sigma> lag es j (f now) types \<tau> \<Longrightarrow> P \<tau>)
      \<Longrightarrow> (\<And>now \<tau>. version env L \<sigma> 0 es (f now) types \<tau> \<Longrightarrow> Q (g (f now)) \<tau>) \<Longrightarrow> runs P \<sigma> m Q"
  shows "atomic_transition env L \<sigma> lag es s m (\<lambda>x j' ts. (\<exists>now. j' = f now) \<and> x = g j' \<and> ts = types)"
    (is "atomic_transition _ _ _ _ _ _ _ ?new")
proof (rule atomic_transitionI [OF env h \<sigma> log])
  show "\<exists>x j' ts. ?new x j' ts" by blast
  show "replaces j j' \<sigma>" if "?new x j' ts" for x j' ts using that r by blast
  have Q: "\<exists>j' ts. ?new (g (f now)) j' ts \<and> version env L \<sigma> lag es j' ts \<tau>" if "version env L \<sigma> 0 es (f now) types \<tau>" for now \<tau>
    using version_lag [OF that event_log_lag_nonneg [OF log]] by blast
  show "runs (\<lambda>\<tau>. \<tau> = \<sigma> \<or> (\<exists>x j' ts. ?new x j' ts \<and> interrupted env L \<sigma> lag es j j' ts \<tau>)) \<sigma> m
      (\<lambda>x \<tau>. \<exists>j' ts. ?new x j' ts \<and> version env L \<sigma> lag es j' ts \<tau>)"
    by (rule run) (use Q in blast)+
qed

lemma with_state_replaces:
  assumes "settled env L {} \<sigma>" "\<sigma> (JobCell k) = Some (JobV job)"
  shows "replaces job (with_state job state error leased_by now) \<sigma>" "durable_id k" "rj_job_id job = k"
  using assms jobs_okD [of "{}" \<sigma> k job] by (auto simp: settled_def replaces_def with_state_def)

lemma runs_update_job_state:
  fixes env :: "'x queue_env"
  assumes env: "env_ok env" and \<sigma>: "settled env L {} \<sigma>"
    and job: "\<sigma> (JobCell k) = Some (JobV job)" and open_: "\<not> terminal (rj_state job) \<or> state = rj_state job"
    and endpoint: "\<forall>e. leased_by = Some (Some e) \<longrightarrow> durable_id e"
    and log: "event_log lag \<sigma> k es" "lag < DEFAULT_EXACT_RECORD_LIMIT"
    and P: "P \<sigma>" "\<And>now \<tau>. interrupted env L \<sigma> lag es job (with_state job state error leased_by now)
        [''job.'' @ JobState_value state] \<tau> \<Longrightarrow> P \<tau>"
    and Q: "\<And>now \<tau>. version env L \<sigma> 0 es (with_state job state error leased_by now) [''job.'' @ JobState_value state] \<tau>
        \<Longrightarrow> Q (with_state job state error leased_by now) \<tau>"
  shows "runs P \<sigma> (update_job_state env k state message error leased_by) Q"
proof -
  note k = with_state_replaces [OF \<sigma> job]
  have log': "event_log lag \<sigma> (rj_job_id job) es" using log(1) k(3) by simp
  have lease: "runs P \<sigma> (case leased_by of
      Some (Some endpoint) \<Rightarrow> mbind (qlift (require_durable_record_id endpoint ''leased_by'')) (\<lambda>_. mret ())
      | _ \<Rightarrow> mret ()) R" if "R () \<sigma>" for R
    using endpoint that require_durable_id by (auto split: option.splits intro!: runs_mbind runs_qlift runs_mret)
  show ?thesis
    unfolding update_job_state_def Let_def
    by (rule runs_mbind, rule runs_qlift, rule require_durable_id [OF k(2)], rule runs_mbind, rule lease,
        rule runs_opened [OF env \<sigma> job], rule P(1), rule runs_mbind, rule runs_mcheck, use open_ in blast,
        rule runs_mbind, rule runs_utc_now, subst (1) k(3) [symmetric],
        rule runs_transition [OF env \<sigma> k(1) log' log(2)], erule P(2), rule runs_mret, erule Q)
qed



section \<open>Cancellation\<close>

lemma runs_transition_pair:
  fixes env :: "'x queue_env"
  assumes env: "env_ok env" and \<sigma>: "settled env L {} \<sigma>" and r: "replaces j j' \<sigma>"
    and log: "event_log lag \<sigma> (rj_job_id j) es" "lag < DEFAULT_EXACT_RECORD_LIMIT"
    and P: "\<And>\<tau>. interrupted env L \<sigma> lag es j j' [etype, etype'] \<tau> \<Longrightarrow> P \<tau>"
    and Q: "\<And>e \<tau>. version env L \<sigma> 0 es j' [etype, etype'] \<tau> \<Longrightarrow> Q e \<tau>"
  shows "runs P \<sigma> (mbind (write_job env j') (\<lambda>_. mbind (append_event env (rj_job_id j) etype message payload)
    (\<lambda>_. append_event env (rj_job_id j) etype' message' payload'))) Q"
proof (rule runs_transition [OF env \<sigma> r log, where later = "[etype']"])
  have k: "rj_job_id j = rj_job_id j'" using r by (simp add: replaces_def)
  have dur: "durable_id (rj_job_id j')"
    using \<sigma> jobs_okD [of "{}" \<sigma> "rj_job_id j" j] r by (auto simp: settled_def replaces_def)
  have lag: "(0::int) < DEFAULT_EXACT_RECORD_LIMIT" by (simp add: DEFAULT_EXACT_RECORD_LIMIT_def)
  have lag0: "0 \<le> lag" by (rule event_log_lag_nonneg [OF log(1)])
  have P': "P \<rho>" if "version env L \<sigma> n es j' pre \<rho>" "n \<le> lag + 1" "[etype, etype'] = pre @ rest" for \<rho> n pre rest
    using version_lag [OF that(1,2)] that(3) P unfolding interrupted_def by blast
  fix e \<tau> assume v: "version env L \<sigma> 0 es j' [etype] \<tau>"
  show "runs P \<tau> (append_event env (rj_job_id j) etype' message' payload') Q"
    unfolding k
    by (rule runs_append_version [OF dur v lag], rule P' [OF v], use lag0 in simp, simp, erule P' [where rest = "[]"],
        use lag0 in simp, simp, rule Q, simp)
qed (use P in simp)

lemma runs_skip: "P \<sigma> \<Longrightarrow> (c \<Longrightarrow> \<forall>x. \<exists>x'. m x = (Inr (), x')) \<Longrightarrow> Q () \<sigma> \<Longrightarrow> runs P \<sigma> (if c then on_other m else mret ()) Q"
  by (auto intro!: runs_on_other runs_mret)

lemma runs_cancel:
  fixes env :: "'x queue_env"
  assumes env: "env_ok env" and \<sigma>: "settled env L {} \<sigma>" and r: "replaces job j' \<sigma>"
    and log: "event_log lag \<sigma> (rj_job_id job) es" "lag < DEFAULT_EXACT_RECORD_LIMIT"
    and state: "rj_state j' = CANCELED \<longleftrightarrow> later = [''job.canceled'']" "later = [] \<or> later = [''job.canceled'']"
    and P: "\<And>\<tau>. interrupted env L \<sigma> lag es job j' (''job.cancel_requested'' # later) \<tau> \<Longrightarrow> P \<tau>"
    and Q: "\<And>\<tau>. version env L \<sigma> 0 es j' (''job.cancel_requested'' # later) \<tau> \<Longrightarrow> Q (j', True) \<tau>"
  shows "runs P \<sigma> (mbind (write_job env j') (\<lambda>_.
       mbind (append_event env (rj_job_id job) ''job.cancel_requested'' message payload) (\<lambda>_.
       mbind (if rj_state j' = CANCELED
              then mbind (append_event env (rj_job_id job) ''job.canceled'' message' payload') (\<lambda>_. mret ())
              else mret ()) (\<lambda>_. mret (j', True))))) Q"
proof (cases "rj_state j' = CANCELED")
  case True
  then have later: "later = [''job.canceled'']" using state by simp
  have split: "mbind (write_job env j') (\<lambda>_. mbind (append_event env (rj_job_id job) ''job.cancel_requested'' message payload) (\<lambda>_.
       mbind (mbind (append_event env (rj_job_id job) ''job.canceled'' message' payload') (\<lambda>_. mret ())) (\<lambda>_. mret (j', True))))
     = mbind (mbind (write_job env j') (\<lambda>_. mbind (append_event env (rj_job_id job) ''job.cancel_requested'' message payload)
         (\<lambda>_. append_event env (rj_job_id job) ''job.canceled'' message' payload'))) (\<lambda>_. mret (j', True))"
    by (simp only: mbind_assoc mbind_mret)
  show ?thesis
    unfolding if_P [OF True] split
    by (rule runs_mbind, rule runs_transition_pair [OF env \<sigma> r log], rule P, simp only: later, rule runs_mret, rule Q,
        simp only: later)
next
  case False
  then have later: "later = []" using state by simp
  show ?thesis
    unfolding if_not_P [OF False] mbind_mret
    by (rule runs_transition [OF env \<sigma> r log, where later = later], erule P, rule runs_mret, rule Q, simp only: later)
qed

text \<open>What either side of the protocol makes of a job, and the runs of both.\<close>

lemma cancel_versions:
  assumes "settled env L {} \<sigma>" "\<sigma> (JobCell k) = Some (JobV job)"
  shows "durable_id k" "rj_job_id job = k" "replaces job (cancel_requested env job cancel_scheduler now) \<sigma>"
    "replaces job (cancel_acknowledged env job request now) \<sigma>"
proof -
  show k: "durable_id k" "rj_job_id job = k" using assms jobs_okD [of "{}" \<sigma> k job] by (auto simp: settled_def)
  show "replaces job (cancel_requested env job cancel_scheduler now) \<sigma>" "replaces job (cancel_acknowledged env job request now) \<sigma>"
    using assms(2) k(2) by (simp_all add: replaces_def cancel_requested_def cancel_acknowledged_def Let_def)
qed

abbreviation cancel_events :: "RelayJob \<Rightarrow> string list" where
  "cancel_events job \<equiv> ''job.cancel_requested'' # (if rj_state job = QUEUED then [''job.canceled''] else [])"

lemma runs_cancel_job_if_active:
  fixes env :: "'x queue_env"
  assumes env: "env_ok env" and \<sigma>: "settled env L {} \<sigma>"
    and job: "\<sigma> (JobCell k) = Some (JobV job)" "\<not> terminal (rj_state job)"
    and expected: "expected_state \<in> {None, Some (rj_state job)}" "expected_updated_at \<in> {None, Some (rj_updated_at job)}"
    and pending: "\<forall>j t m x. \<exists>x'. ensure_pending j t m x = (Inr (), x')"
    and log: "event_log lag \<sigma> k es" "lag < DEFAULT_EXACT_RECORD_LIMIT"
    and P: "P \<sigma>" "\<And>now \<tau>. interrupted env L \<sigma> lag es job (cancel_requested env job cancel_scheduler now) (cancel_events job) \<tau> \<Longrightarrow> P \<tau>"
    and Q: "\<And>now \<tau>. version env L \<sigma> 0 es (cancel_requested env job cancel_scheduler now) (cancel_events job) \<tau>
        \<Longrightarrow> Q (cancel_requested env job cancel_scheduler now, True) \<tau>"
  shows "runs P \<sigma> (cancel_job_if_active env ensure_pending k cancel_scheduler expected_state expected_updated_at) Q"
proof -
  note k = cancel_versions [OF \<sigma> job(1)]
  have log': "event_log lag \<sigma> (rj_job_id job) es" using log(1) k by simp
  let ?later = "if rj_state job = QUEUED then [''job.canceled''] else []"
  have state: "rj_state (cancel_requested env job cancel_scheduler now) = CANCELED \<longleftrightarrow> ?later = [''job.canceled'']" for now
    using job(2) by (auto simp: cancel_requested_def Let_def TERMINAL_STATES_def)
  have fresh: "\<not> (expected_state \<noteq> None \<and> Some (rj_state job) \<noteq> expected_state)"
    "\<not> (expected_updated_at \<noteq> None \<and> Some (rj_updated_at job) \<noteq> expected_updated_at)" using expected by auto
  show ?thesis
    unfolding cancel_job_if_active_def Let_def
    by (rule runs_mbind, rule runs_qlift, rule require_durable_id [OF k(1)], rule runs_opened [OF env \<sigma> job(1)], rule P(1),
        unfold if_not_P [OF job(2)] if_not_P [OF fresh(1)] if_not_P [OF fresh(2)], rule runs_mbind, rule runs_utc_now,
        rule runs_mbind, rule runs_skip, rule P(1), use pending in blast, unfold k(2) [symmetric],
        rule runs_cancel [OF env \<sigma> k(3) log' log(2) state], simp, erule P(2), erule Q)
qed

lemma runs_acknowledge_job_cancellation:
  fixes env :: "'x queue_env"
  assumes env: "env_ok env" and \<sigma>: "settled env L {} \<sigma>"
    and job: "\<sigma> (JobCell k) = Some (JobV job)" "\<not> terminal (rj_state job)"
    and log: "event_log lag \<sigma> k es" "lag < DEFAULT_EXACT_RECORD_LIMIT"
    and req: "as_obj (doc_get (rj_metadata job) ''cancellation_request'') = Some request"
    and P: "P \<sigma>" "\<And>now \<tau>. interrupted env L \<sigma> lag es job (cancel_acknowledged env job request now) [''job.canceled''] \<tau> \<Longrightarrow> P \<tau>"
    and Q: "\<And>now \<tau>. version env L \<sigma> 0 es (cancel_acknowledged env job request now) [''job.canceled''] \<tau>
        \<Longrightarrow> Q (cancel_acknowledged env job request now) \<tau>"
  shows "runs P \<sigma> (acknowledge_job_cancellation env k) Q"
proof -
  note k = cancel_versions [OF \<sigma> job(1)]
  have log': "event_log lag \<sigma> (rj_job_id job) es" using log(1) k by simp
  have nc: "rj_state job \<noteq> CANCELED" using job(2) by (auto simp: TERMINAL_STATES_def)
  show ?thesis
    unfolding acknowledge_job_cancellation_def Let_def
    by (rule runs_mbind, rule runs_qlift, rule require_durable_id [OF k(1)], rule runs_opened [OF env \<sigma> job(1)], rule P(1),
        unfold if_not_P [OF nc] if_not_P [OF job(2)] req option.case, rule runs_mbind, rule runs_utc_now,
        unfold k(2) [symmetric], rule runs_transition [OF env \<sigma> k(4) log' log(2)], erule P(2), rule runs_mret, erule Q)
qed

lemma cancel_atomic:
  fixes env :: "'x queue_env"
  assumes env: "env_ok env" and h: "holds \<sigma> s" and \<sigma>: "settled env L {} \<sigma>"
    and job: "\<sigma> (JobCell k) = Some (JobV job)" "\<not> terminal (rj_state job)"
    and expected: "expected_state \<in> {None, Some (rj_state job)}" "expected_updated_at \<in> {None, Some (rj_updated_at job)}"
    and pending: "\<forall>j t m x. \<exists>x'. ensure_pending j t m x = (Inr (), x')"
    and log: "event_log lag \<sigma> k es" "lag < DEFAULT_EXACT_RECORD_LIMIT"
  shows "atomic_transition env L \<sigma> lag es s
      (cancel_job_if_active env ensure_pending k cancel_scheduler expected_state expected_updated_at)
      (\<lambda>x j' types. (\<exists>now. j' = cancel_requested env job cancel_scheduler now) \<and> x = (j', True) \<and> types = cancel_events job)"
proof -
  note k = cancel_versions [OF \<sigma> job(1)]
  have log': "event_log lag \<sigma> (rj_job_id job) es" using log(1) k by simp
  show ?thesis
    by (rule atomic_now [OF env h \<sigma> log' k(3), where g = "\<lambda>j. (j, True)"])
       (rule runs_cancel_job_if_active [OF env \<sigma> job expected pending log])
qed

lemma acknowledge_atomic:
  fixes env :: "'x queue_env"
  assumes env: "env_ok env" and h: "holds \<sigma> s" and \<sigma>: "settled env L {} \<sigma>"
    and job: "\<sigma> (JobCell k) = Some (JobV job)" "\<not> terminal (rj_state job)"
    and log: "event_log lag \<sigma> k es" "lag < DEFAULT_EXACT_RECORD_LIMIT"
    and req: "as_obj (doc_get (rj_metadata job) ''cancellation_request'') = Some request"
  shows "atomic_transition env L \<sigma> lag es s (acknowledge_job_cancellation env k)
    (\<lambda>x j' types. (\<exists>now. j' = cancel_acknowledged env job request now) \<and> x = j' \<and> types = [''job.canceled''])"
proof -
  note k = cancel_versions [OF \<sigma> job(1)]
  have log': "event_log lag \<sigma> (rj_job_id job) es" using log(1) k by simp
  show ?thesis
    by (rule atomic_now [OF env h \<sigma> log' k(4), where g = "\<lambda>j. j"])
       (rule runs_acknowledge_job_cancellation [OF env \<sigma> job log req])
qed

text \<open>
  C8: cancellation is atomic on both sides of the protocol. For a job that is not terminal and that
  still matches the caller's snapshot, a cancellation request either completes or, whatever crashes,
  is in force entirely or not at all: a queued job is canceled and leaves both indexes, a job a
  worker holds keeps its state and carries the request. When the job carries a request, the
  worker's acknowledgement cancels it in the same atomic way; a completed request on a held job
  is one that can be acknowledged.
\<close>

theorem cancellation_atomic:
  fixes env :: "'x queue_env"
  assumes env: "env_ok env" and h: "holds \<sigma> s" and \<sigma>: "settled env L {} \<sigma>"
    and job: "\<sigma> (JobCell k) = Some (JobV job)" "\<not> terminal (rj_state job)"
    and expected: "expected_state \<in> {None, Some (rj_state job)}" "expected_updated_at \<in> {None, Some (rj_updated_at job)}"
    and pending: "\<forall>j t m x. \<exists>x'. ensure_pending j t m x = (Inr (), x')"
    and log: "event_log lag \<sigma> k es" "lag < DEFAULT_EXACT_RECORD_LIMIT"
  shows "atomic_transition env L \<sigma> lag es s
      (cancel_job_if_active env ensure_pending k cancel_scheduler expected_state expected_updated_at)
      (\<lambda>x j' types. (\<exists>now. j' = cancel_requested env job cancel_scheduler now) \<and> x = (j', True)
        \<and> types = ''job.cancel_requested'' # (if rj_state job = QUEUED then [''job.canceled''] else []))
    \<and> (\<forall>request. as_obj (doc_get (rj_metadata job) ''cancellation_request'') = Some request \<longrightarrow>
        atomic_transition env L \<sigma> lag es s (acknowledge_job_cancellation env k)
          (\<lambda>x j' types. (\<exists>now. j' = cancel_acknowledged env job request now) \<and> x = j' \<and> types = [''job.canceled'']))
    \<and> (\<forall>now. rj_state job \<noteq> QUEUED \<longrightarrow> rj_state (cancel_requested env job cancel_scheduler now) = rj_state job
        \<and> (\<exists>request. as_obj (doc_get (rj_metadata (cancel_requested env job cancel_scheduler now)) ''cancellation_request'') = Some request))"
  using cancel_atomic [OF env h \<sigma> job expected pending log] acknowledge_atomic [OF env h \<sigma> job log]
  by (intro conjI allI impI) (simp_all add: cancel_requested_def Let_def doc_get_def dict_get_def)

theorem cancellation_atomic_witness:
  "\<exists>p j' s'. cancel_job_if_active demo_env (\<lambda>_ _ _ x. (Inr (), x)) ''job_a'' True (Some QUEUED) None (demo_state p None)
       = (Inr (j', True), s')
     \<and> rj_state j' = CANCELED \<and> cells s' (JobCell ''job_a'') = Some (JobV j')
     \<and> cells s' (ActiveCell ''job_a'') = None \<and> cells s' (QueuedCell ''job_a'') = None"
proof -
  obtain p where p: "bound_pair p" "ca_cluster_kind_counts (cp_aggregate p) = []" using empty_pair by auto
  have job: "cells (demo_state p None) (JobCell ''job_a'') = Some (JobV demo_owned_job)" by (simp add: demo_state_def)
  have st: "rj_state demo_owned_job = QUEUED" "rj_job_id demo_owned_job = ''job_a''" by (simp_all add: demo_owned_job_def)
  have live: "\<not> terminal (rj_state demo_owned_job)" by (simp add: st TERMINAL_STATES_def)
  have expected: "Some QUEUED \<in> {None, Some (rj_state demo_owned_job)}" "None \<in> {None, Some (rj_updated_at demo_owned_job)}"
    by (simp_all add: st)
  have pending: "\<forall>(j :: RelayJob) (t :: timestamp) (m :: string) (x :: unit). \<exists>x'. (\<lambda>_ _ _ x. (Inr (), x)) j t m x = (Inr () :: py_error + unit, x')"
    by simp
  have lag: "0 < DEFAULT_EXACT_RECORD_LIMIT" by (simp add: DEFAULT_EXACT_RECORD_LIMIT_def)
  have budget: "qs_budget (demo_state p None) = None" by (simp add: demo_state_def)
  from cancellation_atomic [OF demo_queue_env_ok demo_state_wf demo_settled [OF p] job live expected pending demo_event_log lag,
      where cancel_scheduler = True]
  obtain now s' types where
    run: "cancel_job_if_active demo_env (\<lambda>_ _ _ x. (Inr (), x)) ''job_a'' True (Some QUEUED) None (demo_state p None)
      = (Inr (cancel_requested demo_env demo_owned_job True now, True), s')"
    and v: "version demo_env {} (cells (demo_state p None)) 0 [] (cancel_requested demo_env demo_owned_job True now) types (cells s')"
    using budget unfolding atomic_transition_def by blast
  let ?j = "cancel_requested demo_env demo_owned_job True now"
  have j: "rj_state ?j = CANCELED" "rj_job_id ?j = ''job_a''" by (simp_all add: cancel_requested_def Let_def st)
  have "noted ''job_a'' (job_written ?j (cells (demo_state p None))) (cells s')" using v by (simp add: version_def j del: cells.simps)
  note n = notedD [OF this]
  have "cells s' (JobCell ''job_a'') = Some (JobV ?j)" "cells s' (ActiveCell ''job_a'') = None"
    "cells s' (QueuedCell ''job_a'') = None" unfolding n by (simp_all add: j TERMINAL_STATES_def)
  with run j(1) show ?thesis by blast
qed

section \<open>Terminal jobs\<close>

text \<open>The common opening of a transition: it crashes with nothing changed, or reaches the body with the job read.\<close>

lemma opened_then:
  fixes env :: "'x queue_env"
  assumes env: "env_ok env" and h: "holds \<sigma> s" and \<sigma>: "settled env L {} \<sigma>" and job: "\<sigma> (JobCell k) = Some (JobV j)"
    and run: "mbind (initialize_queue env) (\<lambda>_. mbind (reconcile_transition_intents env) (\<lambda>_. mbind (get_job k) m)) s = (r, s')"
  shows "r = Inl Crashed \<and> qs_budget s \<noteq> None \<and> cells s' = \<sigma> \<or> (\<exists>s1. holds \<sigma> s1 \<and> m j s1 = (r, s'))"
proof -
  let ?open = "mbind (initialize_queue env) (\<lambda>_. mbind (reconcile_transition_intents env) (\<lambda>_. mbind (get_job k) mret))"
  have split: "mbind (initialize_queue env) (\<lambda>_. mbind (reconcile_transition_intents env) (\<lambda>_. mbind (get_job k) m)) = mbind ?open m"
    by (simp only: mbind_assoc mbind_mret)
  obtain r1 s1 where o: "?open s = (r1, s1)" by fastforce
  have "runs (\<lambda>\<tau>. \<tau> = \<sigma>) \<sigma> ?open (\<lambda>x \<tau>. x = j \<and> \<tau> = \<sigma>)"
    by (rule runs_opened [OF env \<sigma> job]) (simp, rule runs_mret, simp)
  from runs_outcome [OF this h o] have
    "wf_store s1 \<and> (r1 = Inr j \<and> cells s1 = \<sigma> \<or> r1 = Inl Crashed \<and> qs_budget s \<noteq> None \<and> cells s1 = \<sigma>)" by auto
  with run o show ?thesis unfolding split by (auto simp: mbind_app holds_def)
qed

text \<open>
  C27: a terminal state is final. For a job that has succeeded, failed or been canceled, moving it to
  another state and acknowledging a cancellation it did not end in raise the conflict error, a
  cancellation request returns the job untouched with \<^verbatim>\<open>False\<close>, an acknowledgement of a canceled job
  returns it; none of them changes a single durable record, crashes included.
\<close>

theorem terminal_jobs_final:
  fixes env :: "'x queue_env"
  assumes env: "env_ok env" and h: "holds \<sigma> s" and \<sigma>: "settled env L {} \<sigma>"
    and job: "\<sigma> (JobCell k) = Some (JobV job)" "terminal (rj_state job)"
    and runs: "update_job_state env k state message error None s = (ru, su)" "state \<noteq> rj_state job"
      "cancel_job_if_active env ensure_pending k cancel_scheduler expected_state expected_updated_at s = (rc, sc)"
      "acknowledge_job_cancellation env k s = (ra, sa)"
  shows "cells su = \<sigma> \<and> ru \<in> {Inl Crashed, Inl (Raised (QueueConflictError (''cannot change terminal job '' @ k @ '' from ''
        @ JobState_value (rj_state job) @ '' to '' @ JobState_value state)))}
    \<and> cells sc = \<sigma> \<and> rc \<in> {Inl Crashed, Inr (job, False)}
    \<and> cells sa = \<sigma> \<and> ra \<in> {Inl Crashed, if rj_state job = CANCELED then Inr job
        else Inl (Raised (QueueConflictError (''cannot acknowledge cancellation for terminal job '' @ k @ '': ''
          @ JobState_value (rj_state job))))}"
proof -
  have k: "durable_id k" using \<sigma> jobs_okD [of "{}" \<sigma> k job] job by (auto simp: settled_def)
  have id: "qlift (require_durable_record_id k f) = mret k" for f
    by (simp add: qlift_def require_durable_id [OF k] fun_eq_iff)
  note opened = opened_then [OF env h \<sigma> job(1)]
  note update = runs(1) [unfolded update_job_state_def id option.case mbind_mret]
  note cancel = runs(3) [unfolded cancel_job_if_active_def id mbind_mret]
  note ack = runs(4) [unfolded acknowledge_job_cancellation_def id mbind_mret]
  from opened [OF update] runs(2) job(2) have
    "cells su = \<sigma> \<and> ru \<in> {Inl Crashed, Inl (Raised (QueueConflictError (''cannot change terminal job '' @ k @ '' from ''
        @ JobState_value (rj_state job) @ '' to '' @ JobState_value state)))}"
    by (auto simp: mbind_app holds_def simp del: cells.simps)
  moreover from opened [OF cancel] job(2) have "cells sc = \<sigma> \<and> rc \<in> {Inl Crashed, Inr (job, False)}"
    by (auto simp: holds_def simp del: cells.simps)
  moreover from opened [OF ack] job(2) have "cells sa = \<sigma> \<and> ra \<in> {Inl Crashed, if rj_state job = CANCELED then Inr job
        else Inl (Raised (QueueConflictError (''cannot acknowledge cancellation for terminal job '' @ k @ '': ''
          @ JobState_value (rj_state job))))}"
    by (auto simp: holds_def simp del: cells.simps split: if_splits)
  ultimately show ?thesis by (simp only: simp_thms)
qed

lemma demo_canceled:
  obtains p j' s' where "cancel_job_if_active demo_env (\<lambda>_ _ _ x. (Inr (), x)) ''job_a'' True (Some QUEUED) None (demo_state p None)
      = (Inr (j', True), s')" "wf_store s'" "settled demo_env {} {} (cells s')"
    "cells s' (JobCell ''job_a'') = Some (JobV j')" "rj_state j' = CANCELED"
proof -
  obtain p where p: "bound_pair p" "ca_cluster_kind_counts (cp_aggregate p) = []" using empty_pair by auto
  have job: "cells (demo_state p None) (JobCell ''job_a'') = Some (JobV demo_owned_job)" by (simp add: demo_state_def)
  have st: "rj_state demo_owned_job = QUEUED" "rj_job_id demo_owned_job = ''job_a''" by (simp_all add: demo_owned_job_def)
  have live: "\<not> terminal (rj_state demo_owned_job)" by (simp add: st TERMINAL_STATES_def)
  have expected: "Some QUEUED \<in> {None, Some (rj_state demo_owned_job)}" "None \<in> {None, Some (rj_updated_at demo_owned_job)}"
    by (simp_all add: st)
  have pending: "\<forall>(j :: RelayJob) (t :: timestamp) (m :: string) (x :: unit). \<exists>x'. (\<lambda>_ _ _ x. (Inr (), x)) j t m x = (Inr () :: py_error + unit, x')"
    by simp
  have lag: "0 < DEFAULT_EXACT_RECORD_LIMIT" by (simp add: DEFAULT_EXACT_RECORD_LIMIT_def)
  have budget: "qs_budget (demo_state p None) = None" by (simp add: demo_state_def)
  from cancel_atomic [OF demo_queue_env_ok demo_state_wf demo_settled [OF p] job live expected pending demo_event_log lag,
      where cancel_scheduler = True] budget
  obtain now s' types where
    run: "cancel_job_if_active demo_env (\<lambda>_ _ _ x. (Inr (), x)) ''job_a'' True (Some QUEUED) None (demo_state p None)
      = (Inr (cancel_requested demo_env demo_owned_job True now, True), s')" and wf: "wf_store s'"
    and v: "version demo_env {} (cells (demo_state p None)) 0 [] (cancel_requested demo_env demo_owned_job True now) types (cells s')"
    unfolding atomic_transition_def by blast
  let ?j = "cancel_requested demo_env demo_owned_job True now"
  have j: "rj_state ?j = CANCELED" "rj_job_id ?j = ''job_a''" by (simp_all add: cancel_requested_def Let_def st)
  have n: "noted ''job_a'' (job_written ?j (cells (demo_state p None))) (cells s')" and settled: "settled demo_env {} {} (cells s')"
    using v by (simp_all add: version_def j del: cells.simps)
  have "cells s' (JobCell ''job_a'') = Some (JobV ?j)" unfolding notedD [OF n] by (simp add: j)
  from that [OF run wf settled this j(1)] show thesis .
qed

theorem terminal_jobs_final_witness:
  "\<exists>j' s' su ru. rj_state j' = CANCELED \<and> update_job_state demo_env ''job_a'' QUEUED None None None s' = (ru, su)
     \<and> cells s' (JobCell ''job_a'') = Some (JobV j') \<and> cells su (JobCell ''job_a'') = Some (JobV j')
     \<and> ru \<in> {Inl Crashed, Inl (Raised (QueueConflictError ''cannot change terminal job job_a from canceled to queued''))}"
proof (rule demo_canceled)
  fix p j' and s' :: "unit queue_state" assume s': "wf_store s'" "settled demo_env {} {} (cells s')"
    "cells s' (JobCell ''job_a'') = Some (JobV j')" "rj_state j' = CANCELED"
  have h: "holds (cells s') s'" using s'(1) by (simp add: holds_def)
  have t: "terminal (rj_state j')" "QUEUED \<noteq> rj_state j'" by (simp_all add: s'(4) TERMINAL_STATES_def)
  obtain ru su where u: "update_job_state demo_env ''job_a'' QUEUED None None None s' = (ru, su)" by fastforce
  obtain rc sc where c: "cancel_job_if_active demo_env (\<lambda>_ _ _ x. (Inr (), x)) ''job_a'' True None None s' = (rc, sc)" by fastforce
  obtain ra sa where a: "acknowledge_job_cancellation demo_env ''job_a'' s' = (ra, sa)" by fastforce
  from terminal_jobs_final [OF demo_queue_env_ok h s'(2,3) t(1) u t(2) c a]
  have "cells su = cells s'" "ru \<in> {Inl Crashed, Inl (Raised (QueueConflictError ''cannot change terminal job job_a from canceled to queued''))}"
    by (simp_all add: s'(4) del: cells.simps)
  with u s'(3,4) show ?thesis by metis
qed

end
