(* ===== verification/JobRepair.thy ===== *)
theory JobRepair
  imports JobUpdates
begin

text \<open>
  The repair of the active job index (\<^verbatim>\<open>_repair_active_job_index_unlocked\<close>), which every submission and
  every listing of active jobs runs first: it heals the derived indexes of every job it still
  lists, and so also the one an interrupted rollback leaves behind.
\<close>

definition live_value :: "content \<Rightarrow> string \<Rightarrow> cell_value option" where
  "live_value \<sigma> k = (case \<sigma> (JobCell k) of Some (JobV j) \<Rightarrow> if terminal (rj_state j) then None else Some (JobV j) | _ \<Rightarrow> None)"

definition queued_value :: "content \<Rightarrow> string \<Rightarrow> cell_value option" where
  "queued_value \<sigma> k = (case \<sigma> (JobCell k) of Some (JobV j) \<Rightarrow> if rj_state j = QUEUED then Some (JobV j) else None | _ \<Rightarrow> None)"

definition repaired :: "content \<Rightarrow> content" where
  "repaired \<sigma> c = (case c of
     ActiveCell k \<Rightarrow> if \<sigma> c = None then None else live_value \<sigma> k
   | QueuedCell k \<Rightarrow> if \<sigma> (ActiveCell k) = None then \<sigma> c else queued_value \<sigma> k
   | _ \<Rightarrow> \<sigma> c)"

lemma repaired_cells [simp]:
  "repaired \<sigma> (JobCell k) = \<sigma> (JobCell k)"
  "repaired \<sigma> (ActiveCell k) = (if \<sigma> (ActiveCell k) = None then None else live_value \<sigma> k)"
  "repaired \<sigma> (QueuedCell k) = (if \<sigma> (ActiveCell k) = None then \<sigma> (QueuedCell k) else queued_value \<sigma> k)"
  "repaired \<sigma> (LeaseCell k) = \<sigma> (LeaseCell k)"
  "repaired \<sigma> (JobLeaseCell kk) = \<sigma> (JobLeaseCell kk)"
  "repaired \<sigma> (IndexCell p) = \<sigma> (IndexCell p)"
  "repaired \<sigma> AggregateCell = \<sigma> AggregateCell"
  "repaired \<sigma> CheckpointCell = \<sigma> CheckpointCell"
  "repaired \<sigma> (IntentCell k) = \<sigma> (IntentCell k)"
  by (simp_all add: repaired_def)

definition well_named :: "content \<Rightarrow> bool" where
  "well_named \<sigma> \<longleftrightarrow> (\<forall>k j. \<sigma> (ActiveCell k) = Some (JobV j) \<longrightarrow> rj_job_id j = k)"

lemma runs_write_active_at:
  "P \<sigma> \<Longrightarrow> Q () (\<sigma>(ActiveCell k \<mapsto> JobV j)) \<Longrightarrow> runs P \<sigma> (write_active_at k j) Q"
  unfolding write_active_at_def by (erule runs_durable, assumption, simp add: holds_def)

text \<open>One entry: from any mixture of the contents before and after in which it is still listed as before.\<close>

lemma runs_repair_entry:
  fixes Q :: "unit \<Rightarrow> content \<Rightarrow> bool"
  assumes jobs: "jobs_ok UNIV \<sigma>" and names: "well_named \<sigma>" and \<rho>: "between \<sigma> (repaired \<sigma>) \<rho>"
    and here: "\<rho> (ActiveCell k) = \<sigma> (ActiveCell k)" "\<sigma> (ActiveCell k) \<noteq> None"
    and P: "\<And>\<tau>. between \<sigma> (repaired \<sigma>) \<tau> \<Longrightarrow> P \<tau>"
    and Q: "Q () (\<rho>(ActiveCell k := live_value \<sigma> k, QueuedCell k := queued_value \<sigma> k))"
  shows "runs P \<rho> (repair_active_entry k :: ('x, unit) queue_op) Q"
  unfolding repair_active_entry_def
proof (rule runs_mget)
  fix s :: "'x queue_state" assume h: "holds \<rho> s"
  obtain indexed where i: "map_of (qs_active s) k = Some indexed"
    using holds_cells [OF h, of "ActiveCell k"] here by (cases "map_of (qs_active s) k") auto
  then have "\<sigma> (ActiveCell k) = Some (JobV indexed)" using holds_cells [OF h, of "ActiveCell k"] here by simp
  then have id: "rj_job_id indexed = k" using names by (simp add: well_named_def)
  have job: "\<rho> (JobCell k) = \<sigma> (JobCell k)" using \<rho> by (auto simp: between_def dest: spec [of _ "JobCell k"])
  have v: "repaired \<sigma> (ActiveCell k) = live_value \<sigma> k" "repaired \<sigma> (QueuedCell k) = queued_value \<sigma> k" using here(2) by auto
  have mid: "between \<sigma> (repaired \<sigma>) (\<rho>(ActiveCell k := live_value \<sigma> k))"
    by (rule between_upd [OF \<rho>]) (use v in metis)
  have P0: "P \<rho>" "P (\<rho>(ActiveCell k := live_value \<sigma> k))" using P \<rho> mid by blast+
  show "runs P \<rho> (case map_of (qs_active s) k of
      None \<Rightarrow> qraise (OSError (''No such file or directory: '' @ record_path ''jobs_active'' k))
    | Some indexed \<Rightarrow> mbind (read_optional_job (rj_job_id indexed)) (\<lambda>canonical. case canonical of
        None \<Rightarrow> mbind (unlink_active k) (\<lambda>_. unlink_queued (rj_job_id indexed))
      | Some job \<Rightarrow> if terminal (rj_state job) then mbind (unlink_active k) (\<lambda>_. unlink_queued (rj_job_id indexed))
          else mbind (write_active_at k job) (\<lambda>_. if rj_state job = QUEUED then write_queued job
                 else unlink_queued (rj_job_id job)))) Q"
  proof (cases "\<sigma> (JobCell k)")
    case None
    then have "live_value \<sigma> k = None" "queued_value \<sigma> k = None" by (simp_all add: live_value_def queued_value_def)
    with P0 Q None i id job show ?thesis
      by (auto intro!: runs_mbind runs_read_job [where r = None] runs_writes)
  next
    case (Some w)
    then obtain j where j: "w = JobV j" "rj_job_id j = k" "durable_id k" using jobs by (auto simp: jobs_ok_def)
    have val: "live_value \<sigma> k = (if terminal (rj_state j) then None else Some (JobV j))"
      "queued_value \<sigma> k = (if rj_state j = QUEUED then Some (JobV j) else None)"
      using Some j by (simp_all add: live_value_def queued_value_def)
    have qt: "terminal (rj_state j) \<Longrightarrow> rj_state j \<noteq> QUEUED" by (auto simp: TERMINAL_STATES_def)
    show ?thesis
      unfolding i option.case id
      by (rule runs_mbind, rule runs_read_job [where r = "Some j"], simp add: job Some j, simp add: j, unfold option.case)
         (use P0 Q val qt j in \<open>auto intro!: runs_mbind runs_writes runs_write_active_at\<close>)
  qed
qed

lemma runs_repair_entries:
  assumes jobs: "jobs_ok UNIV \<sigma>" and names: "well_named \<sigma>" and P: "\<And>\<tau>. between \<sigma> (repaired \<sigma>) \<tau> \<Longrightarrow> P \<tau>"
    and "distinct ks" "between \<sigma> (repaired \<sigma>) \<rho>" "\<And>k. k \<in> set ks \<Longrightarrow> \<rho> (ActiveCell k) = \<sigma> (ActiveCell k) \<and> \<sigma> (ActiveCell k) \<noteq> None"
    and "Q () (over \<rho> (ActiveCell ` set ks \<union> QueuedCell ` set ks) (repaired \<sigma>))"
  shows "runs P \<rho> (mseq repair_active_entry ks :: ('x, unit) queue_op) Q"
  using assms(4-)
proof (induction ks arbitrary: \<rho>)
  case Nil
  then show ?case by (simp only: mseq.simps) (rule runs_mret, simp add: over_def)
next
  case (Cons k ks)
  let ?\<rho> = "\<rho>(ActiveCell k := live_value \<sigma> k, QueuedCell k := queued_value \<sigma> k)"
  have here: "\<rho> (ActiveCell k) = \<sigma> (ActiveCell k)" "\<sigma> (ActiveCell k) \<noteq> None" using Cons.prems(3) [of k] by simp_all
  have v: "repaired \<sigma> (ActiveCell k) = live_value \<sigma> k" "repaired \<sigma> (QueuedCell k) = queued_value \<sigma> k" using here(2) by auto
  have next_: "between \<sigma> (repaired \<sigma>) ?\<rho>" by (intro between_upd) (use Cons.prems(2) v in auto)
  have same: "over ?\<rho> (ActiveCell ` set ks \<union> QueuedCell ` set ks) (repaired \<sigma>)
      = over \<rho> (ActiveCell ` set (k # ks) \<union> QueuedCell ` set (k # ks)) (repaired \<sigma>)"
    using here(2) by (intro ext) (auto simp: over_def)
  have "runs P ?\<rho> (mseq repair_active_entry ks :: ('x, unit) queue_op) Q"
  proof (rule Cons.IH)
    show "distinct ks" using Cons.prems(1) by simp
    show "between \<sigma> (repaired \<sigma>) ?\<rho>" by (rule next_)
    show "?\<rho> (ActiveCell k') = \<sigma> (ActiveCell k') \<and> \<sigma> (ActiveCell k') \<noteq> None" if "k' \<in> set ks" for k'
      using Cons.prems(1) Cons.prems(3) [of k'] that by auto
    show "Q () (over ?\<rho> (ActiveCell ` set ks \<union> QueuedCell ` set ks) (repaired \<sigma>))"
      unfolding same by (rule Cons.prems(4))
  qed
  then show ?case
    by (simp only: mseq.simps, intro runs_mbind runs_repair_entry [OF jobs names Cons.prems(2) here P])
qed

lemma active_listed:
  assumes "holds \<sigma> s"
  shows "k \<in> set (map fst (qs_active s)) \<longleftrightarrow> \<sigma> (ActiveCell k) \<noteq> None"
proof -
  have "map_of (qs_active s) k \<noteq> None \<longleftrightarrow> k \<in> fst ` set (qs_active s)" unfolding map_of_eq_None_iff by blast
  moreover have "\<sigma> (ActiveCell k) = map_option JobV (map_of (qs_active s) k)" using holds_cells [OF assms] by simp
  ultimately show ?thesis by simp
qed

lemma active_length:
  assumes "holds \<sigma> s"
  shows "length (qs_active s) = card {k. \<sigma> (ActiveCell k) \<noteq> None}"
proof -
  have "{k. \<sigma> (ActiveCell k) \<noteq> None} = set (map fst (qs_active s))" using active_listed [OF assms] by blast
  moreover have "distinct (map fst (qs_active s))" using assms by (simp add: holds_def wf_store_def)
  ultimately show ?thesis using distinct_card [of "map fst (qs_active s)"] by simp
qed

lemma runs_repair_index:
  assumes jobs: "jobs_ok UNIV \<sigma>" and names: "well_named \<sigma>"
    and bound: "int (card {k. \<sigma> (ActiveCell k) \<noteq> None}) \<le> MAX_ACTIVE_JOB_RECORDS"
    and P: "\<And>\<tau>. between \<sigma> (repaired \<sigma>) \<tau> \<Longrightarrow> P \<tau>" and Q: "Q () (repaired \<sigma>)"
  shows "runs P \<sigma> (repair_active_job_index :: ('x, unit) queue_op) Q"
  unfolding repair_active_job_index_def
proof (rule runs_mget, rule runs_mbind, rule runs_qlift)
  fix s :: "'x queue_state" assume h: "holds \<sigma> s"
  let ?ks = "map fst (qs_active s)"
  show "bounded_json_record_paths MAX_ACTIVE_JOB_RECORDS ''active job index'' (qs_active s) = Inr ?ks"
    using bound active_length [OF h] by (simp add: bounded_json_record_paths_def)
  have final: "over \<sigma> (ActiveCell ` set ?ks \<union> QueuedCell ` set ?ks) (repaired \<sigma>) = repaired \<sigma>" (is "?l = _")
  proof (rule ext)
    fix c show "?l c = repaired \<sigma> c"
      using active_listed [OF h] by (cases c) (auto simp: over_def repaired_def image_iff simp del: set_map)
  qed
  have d: "distinct ?ks" using h by (simp add: holds_def wf_store_def)
  show "runs P \<sigma> (mseq repair_active_entry ?ks) Q"
    by (rule runs_repair_entries [OF jobs names], erule P, rule d) (use active_listed [OF h] final Q in auto)
qed

section \<open>Repair settles the store\<close>

lemma settled_repair:
  assumes \<sigma>: "settled env L D \<sigma>" and \<rho>: "between \<sigma> (repaired \<sigma>) \<rho>" and heal: "D' \<noteq> D \<Longrightarrow> \<rho> = repaired \<sigma>"
    and listed: "D' \<noteq> D \<Longrightarrow> \<forall>k \<in> D. \<sigma> (ActiveCell k) \<noteq> None" and files: "\<And>k v. \<sigma> (ActiveCell k) = Some v \<Longrightarrow> \<exists>j. v = JobV j"
  shows "settled env L D' \<rho>"
proof -
  have same: "\<rho> (JobCell k) = \<sigma> (JobCell k)" "\<rho> (LeaseCell k) = \<sigma> (LeaseCell k)" "\<rho> (JobLeaseCell kk) = \<sigma> (JobLeaseCell kk)"
    "\<rho> (IndexCell p) = \<sigma> (IndexCell p)" "\<rho> AggregateCell = \<sigma> AggregateCell" "\<rho> CheckpointCell = \<sigma> CheckpointCell"
    "\<rho> (IntentCell k) = \<sigma> (IntentCell k)" for k kk p
    using \<rho> unfolding between_def by (metis repaired_cells)+
  have "jobs_ok D' \<rho>"
    unfolding jobs_ok_def same
  proof (intro allI impI)
    fix k v assume "\<sigma> (JobCell k) = Some v"
    then obtain j where j: "v = JobV j" "rj_job_id j = k" "durable_id k" "k \<notin> D \<longrightarrow> synced \<sigma> j" "\<sigma> (JobCell k) = Some (JobV j)"
      using \<sigma> by (auto simp: settled_def jobs_ok_def)
    have val: "live_value \<sigma> k = (if terminal (rj_state j) then None else Some (JobV j))"
      "queued_value \<sigma> k = (if rj_state j = QUEUED then Some (JobV j) else None)"
      using j by (simp_all add: live_value_def queued_value_def)
    have cells: "\<rho> (ActiveCell k) \<in> {\<sigma> (ActiveCell k), repaired \<sigma> (ActiveCell k)}"
      "\<rho> (QueuedCell k) \<in> {\<sigma> (QueuedCell k), repaired \<sigma> (QueuedCell k)}" using \<rho> unfolding between_def by (metis insertCI)+
    have clean: "synced \<rho> j" if "k \<notin> D" using cells j that val by (auto simp: synced_def split: if_splits)
    have healed: "synced \<rho> j" if "k \<in> D" "k \<notin> D'"
    proof -
      have D: "D' \<noteq> D" using that by blast
      then have "\<rho> = repaired \<sigma>" "\<sigma> (ActiveCell k) \<noteq> None" using heal listed that(1) by blast+
      then show ?thesis using val j(2) by (auto simp: synced_def)
    qed
    show "durable_id k \<and> (\<exists>j. v = JobV j \<and> rj_job_id j = k \<and> (k \<notin> D' \<longrightarrow> synced \<rho> j))"
      using j clean healed by blast
  qed
  with \<sigma> show ?thesis by (simp add: settled_def records_ok_def files_ok_def capacity_ok_def same)
qed

text \<open>
  C24: the repair of the active index heals derived indexes. From a store that is settled except
  for the derived indexes of the jobs \<open>D\<close>, each of which \<^verbatim>\<open>jobs_active\<close> still lists in some version, a
  repair that completes leaves a fully settled store, every canonical record untouched, in which
  the active index lists exactly the jobs that are not terminal; one that crashes leaves a store
  no worse than before. In particular the next submission or listing puts a job that an
  interrupted rollback dropped from the queue back into it.
\<close>

theorem active_index_repair_heals:
  assumes h: "holds \<sigma> s" and \<sigma>: "settled env L D \<sigma>" and names: "well_named \<sigma>"
    and listed: "\<forall>k \<in> D. \<sigma> (ActiveCell k) \<noteq> None"
    and files: "int (length (qs_active s)) \<le> MAX_ACTIVE_JOB_RECORDS"
    and run: "repair_active_job_index s = (r, s')"
  shows "r = Inr () \<and> settled env L {} (cells s') \<and> (\<forall>k. cells s' (JobCell k) = \<sigma> (JobCell k))
      \<and> (\<forall>k. cells s' (ActiveCell k) \<noteq> None \<longleftrightarrow> (\<exists>j. \<sigma> (JobCell k) = Some (JobV j) \<and> \<not> terminal (rj_state j)))
    \<or> r = Inl Crashed \<and> qs_budget s \<noteq> None \<and> settled env L D (cells s')"
proof -
  have any: "jobs_ok UNIV \<sigma>" and ok: "jobs_ok D \<sigma>" using \<sigma> by (auto simp: settled_def jobs_ok_def)
  have jobv: "\<exists>j. v = JobV j" if "\<sigma> (ActiveCell k) = Some v" for k v
    using holds_cells [OF h, of "ActiveCell k"] that by (cases "map_of (qs_active s) k") auto
  have exact: "repaired \<sigma> (ActiveCell k) \<noteq> None \<longleftrightarrow> (\<exists>j. \<sigma> (JobCell k) = Some (JobV j) \<and> \<not> terminal (rj_state j))" for k
  proof
    assume "repaired \<sigma> (ActiveCell k) \<noteq> None"
    then show "\<exists>j. \<sigma> (JobCell k) = Some (JobV j) \<and> \<not> terminal (rj_state j)"
      by (auto simp: live_value_def split: if_splits option.splits cell_value.splits)
  next
    assume "\<exists>j. \<sigma> (JobCell k) = Some (JobV j) \<and> \<not> terminal (rj_state j)"
    then obtain j where j: "\<sigma> (JobCell k) = Some (JobV j)" "\<not> terminal (rj_state j)" by blast
    then have "\<sigma> (ActiveCell k) \<noteq> None" using jobs_okD [OF ok j(1)] listed by (auto simp: synced_def)
    then show "repaired \<sigma> (ActiveCell k) \<noteq> None" using j by (simp add: live_value_def)
  qed
  have "runs (between \<sigma> (repaired \<sigma>)) \<sigma> repair_active_job_index (\<lambda>_ \<tau>. \<tau> = repaired \<sigma>)"
    by (rule runs_repair_index [OF any names]) (use files active_length [OF h] in simp_all)
  from runs_outcome [OF this h run] have "r = Inr () \<and> cells s' = repaired \<sigma>
      \<or> r = Inl Crashed \<and> qs_budget s \<noteq> None \<and> between \<sigma> (repaired \<sigma>) (cells s')" by auto
  then show ?thesis
  proof (elim conjE disjE)
    assume r: "r = Inr ()" and s': "cells s' = repaired \<sigma>"
    have "settled env L {} (cells s')" by (rule settled_repair [OF \<sigma>, where D' = "{}"]) (use s' listed jobv in auto)
    with r exact show ?thesis by (simp add: s' del: cells.simps)
  next
    assume "r = Inl Crashed" "qs_budget s \<noteq> None" and b: "between \<sigma> (repaired \<sigma>) (cells s')"
    moreover have "settled env L D (cells s')" by (rule settled_repair [OF \<sigma> b, where D' = D]) (use jobv in auto)
    ultimately show ?thesis by blast
  qed
qed

theorem active_index_repair_heals_witness:
  "\<exists>p s'. repair_active_job_index ((demo_state p None)\<lparr>qs_queued := []\<rparr>) = (Inr (), s')
     \<and> cells s' (QueuedCell ''job_a'') = Some (JobV demo_owned_job)"
proof -
  obtain p where p: "bound_pair p" "ca_cluster_kind_counts (cp_aggregate p) = []" using empty_pair by auto
  let ?s = "(demo_state p None)\<lparr>qs_queued := []\<rparr>"
  have job: "cells ?s (JobCell k) = cells (demo_state p None) (JobCell k)" for k by simp
  have id: "rj_job_id demo_owned_job = ''job_a''" "rj_state demo_owned_job = QUEUED" by (simp_all add: demo_owned_job_def)
  have base: "settled demo_env {} {} (cells (demo_state p None))" by (rule demo_settled [OF p])
  have "jobs_ok {''job_a''} (cells ?s)"
    using demo_event_job_id by (auto simp: jobs_ok_def demo_state_def id split: if_splits)
  then have settled: "settled demo_env {} {''job_a''} (cells ?s)"
    using base by (simp add: settled_def records_ok_def files_ok_def capacity_ok_def)
  have h: "holds (cells ?s) ?s" using demo_state_wf [of p None] by (simp add: holds_def wf_store_def)
  have named: "well_named (cells ?s)" by (auto simp: well_named_def demo_state_def id)
  have listed: "\<forall>k \<in> {''job_a''}. cells ?s (ActiveCell k) \<noteq> None" by (simp add: demo_state_def)
  have files: "int (length (qs_active ?s)) \<le> MAX_ACTIVE_JOB_RECORDS"
    by (simp add: demo_state_def MAX_ACTIVE_JOB_RECORDS_def)
  obtain r s' where run: "repair_active_job_index ?s = (r, s')" by fastforce
  have "qs_budget ?s = None" by (simp add: demo_state_def)
  with active_index_repair_heals [OF h settled named listed files run] have r: "r = Inr ()" "settled demo_env {} {} (cells s')"
    "cells s' (JobCell ''job_a'') = Some (JobV demo_owned_job)" by (auto simp: demo_state_def simp del: cells.simps) simp
  then have "synced (cells s') demo_owned_job" using jobs_okD [of "{}" "cells s'"] by (auto simp: settled_def simp del: cells.simps)
  with run r(1) show ?thesis by (auto simp: synced_def id simp del: cells.simps)
qed

end
