(* ===== verification/JobSubmission.thy ===== *)
theory JobSubmission
  imports JobRecords
begin

text \<open>
  Idempotent submission (\<^verbatim>\<open>submit_job\<close> of \<^verbatim>\<open>queue_jobs.py\<close>, \<^verbatim>\<open>queue_idempotency.py\<close>). A submission first
  reserves its idempotency key for a job identifier, then assigns the submission order, writes the
  index document and the canonical job, commits the key and logs the first event; a repeated
  submission of the same key resumes wherever the earlier one stopped.

  \<open>submit_calls\<close> holds what a submission asks of code outside this model: pydantic's
  \<^verbatim>\<open>model_dump(mode="json")\<close> of a job, \<^verbatim>\<open>datetime.fromisoformat\<close> with a naive time read as UTC, and the
  calls into the tombstone, artifact-lineage, owner-session, input-quota and scheduler families.
\<close>

datatype JobGcPhase = GC_PREPARED | IDEMPOTENCY_RETIRED | RECORDS_TRASHED | REFERENCES_TRASHED | PURGING | GC_COMPLETE

fun JobGcPhase_value :: "JobGcPhase \<Rightarrow> string" where
  "JobGcPhase_value GC_PREPARED = ''prepared''"
| "JobGcPhase_value IDEMPOTENCY_RETIRED = ''idempotency_retired''"
| "JobGcPhase_value RECORDS_TRASHED = ''records_trashed''"
| "JobGcPhase_value REFERENCES_TRASHED = ''references_trashed''"
| "JobGcPhase_value PURGING = ''purging''"
| "JobGcPhase_value GC_COMPLETE = ''complete''"

record JobTombstone =
  jt_schema_version :: string
  jt_job_id :: string
  jt_cluster :: string
  jt_kind :: JobKind
  jt_final_state :: JobState
  jt_idempotency_key :: string
  jt_job_digest :: string
  jt_created_at :: timestamp
  jt_updated_at :: timestamp
  jt_attempts :: int
  jt_last_error :: "string option"
  jt_external_quarantine_id :: string
  jt_phase :: JobGcPhase
  jt_gc_started_at :: timestamp
  jt_gc_updated_at :: timestamp
  jt_removed_records :: int
  jt_records_trash_started :: bool
  jt_monitor_cursor :: "string option"
  jt_monitor_scan_complete :: bool

record 'x submit_calls =
  sc_model_dump :: "RelayJob \<Rightarrow> (string \<times> json) list"
  sc_fromisoformat :: "string \<Rightarrow> timestamp option"
  sc_tombstone :: "string \<Rightarrow> 'x \<Rightarrow> JobTombstone option"
  sc_artifact_use_records :: "RelayJob \<Rightarrow> 'x queue_state \<Rightarrow> py_error + unit"
  sc_ensure_artifact_use_indexes :: "RelayJob \<Rightarrow> ('x, py_error, unit) op"
  sc_assert_intake_open :: "(string \<times> json) list \<Rightarrow> 'x \<Rightarrow> py_error + unit"
  sc_assert_input_quota :: "RelayJob \<Rightarrow> 'x queue_state \<Rightarrow> py_error + unit"
  sc_ensure_cancel_pending :: "RelayJob \<Rightarrow> timestamp \<Rightarrow> string \<Rightarrow> ('x, py_error, unit) op"

section \<open>The payload digest\<close>

fun ArtifactUseEvidence_value :: "ArtifactUseEvidence \<Rightarrow> string" where
  "ArtifactUseEvidence_value SCHEMA_ARG = ''schema-arg''"
| "ArtifactUseEvidence_value HASH_PAIR = ''hash-pair''"
| "ArtifactUseEvidence_value LEASE_WINDOW = ''lease-window''"
| "ArtifactUseEvidence_value AUTHORITY = ''authority''"
| "ArtifactUseEvidence_value ASSERTION = ''assertion''"

definition artifact_use_payload :: "ArtifactUse \<Rightarrow> json" where
  "artifact_use_payload u = JObj (
     [(''artifact_id'', JStr (au_artifact_id u)), (''sha256'', JStr (au_sha256 u))]
     @ (case au_provenance u of
          None \<Rightarrow> []
        | Some p \<Rightarrow> [(''provenance'', JObj
            [(''schema_version'', JStr ''clio-relay.artifact-use-provenance.v1''),
             (''evidence'', JStr (ArtifactUseEvidence_value (aup_evidence p))),
             (''authority'', JStr (aup_authority p)), (''external_ref'', JStr (aup_external_ref p)),
             (''arg'', JStr (aup_arg p)), (''note'', JStr (aup_note p))])]))"

definition dict_pop :: "string list \<Rightarrow> (string \<times> json) list \<Rightarrow> (string \<times> json) list" where
  "dict_pop ks d = fold AList.delete ks d"

fun falsy :: "json \<Rightarrow> bool" where
  "falsy JNull = True"
| "falsy (JBool b) = (\<not> b)"
| "falsy (JInt n) = (n = 0)"
| "falsy (JFloat r) = (r \<in> {''0.0'', ''-0.0''})"
| "falsy (JStr s) = (s = [])"
| "falsy (JArr xs) = (xs = [])"
| "falsy (JObj d) = (d = [])"

definition GENERATED_FIELDS :: "string list" where
  "GENERATED_FIELDS = [''job_id'', ''state'', ''created_at'', ''updated_at'', ''leased_by'', ''attempts'', ''last_error'',
     ''submission_digest'']"

definition INPUT_INGEST_POLICY_KEYS :: "string list" where
  "INPUT_INGEST_POLICY_KEYS = [''input_ingest_policy'', ''input_ingest_original_policy'', ''input_ingest_attempt'']"

definition spec_payload :: "RelayJob \<Rightarrow> (string \<times> json) list \<Rightarrow> (string \<times> json) list" where
  "spec_payload job spec =
     (let spec1 = (if doc_get spec ''expected_jarvis_cd_lock_binding'' = JNull
                   then dict_pop [''expected_jarvis_cd_lock_binding''] spec else spec);
          spec2 = (case rj_spec job of
                     McpCall s \<Rightarrow> if rj_kind job = MCP_CALL \<and> mcs_admission_class s = WORKLOAD
                                  then dict_pop [''admission_class''] spec1 else spec1
                   | _ \<Rightarrow> spec1) in
      if is_owned_jarvis_run_spec (rj_kind job) (rj_spec job)
      then case doc_get spec2 ''arguments'' of
             JObj arguments \<Rightarrow> AList.update ''arguments'' (JObj (dict_pop [''execution_id''] arguments)) spec2
           | _ \<Rightarrow> spec2
      else spec2)"

definition idempotency_payload :: "(RelayJob \<Rightarrow> (string \<times> json) list) \<Rightarrow> RelayJob \<Rightarrow> (string \<times> json) list" where
  "idempotency_payload model_dump job =
     (let payload = dict_pop GENERATED_FIELDS (model_dump job);
          payload = (if falsy (doc_get payload ''used_artifact_refs'')
                     then dict_pop [''used_artifact_refs''] payload
                     else AList.update ''used_artifact_refs'' (JArr (map artifact_use_payload (rj_used_artifact_refs job))) payload);
          payload = (case doc_get payload ''metadata'' of
                       JObj metadata \<Rightarrow> if rj_kind job = INPUT_INGEST
                         then AList.update ''metadata'' (JObj (dict_pop INPUT_INGEST_POLICY_KEYS metadata)) payload else payload
                     | _ \<Rightarrow> payload) in
      case doc_get payload ''spec'' of
        JObj spec \<Rightarrow> AList.update ''spec'' (JObj (spec_payload job spec)) payload
      | _ \<Rightarrow> payload)"

definition job_idempotency_digest :: "(RelayJob \<Rightarrow> (string \<times> json) list) \<Rightarrow> RelayJob \<Rightarrow> string" where
  "job_idempotency_digest model_dump job =
     sha256_hexdigest (utf8_encode (dumps_canonical (JObj (idempotency_payload model_dump job))))"

definition idempotency_key_filename :: "string \<Rightarrow> string" where
  "idempotency_key_filename key = ''key_'' @ sha256_hexdigest (utf8_encode key)"

definition committed_idempotency_record :: "'x queue_env \<Rightarrow> RelayJob \<Rightarrow> string \<Rightarrow> timestamp \<Rightarrow> (string \<times> json) list" where
  "committed_idempotency_record env job job_digest now =
     [(''state'', JStr ''committed''), (''job_id'', JStr (rj_job_id job)),
      (''idempotency_key'', JStr (rj_idempotency_key job)), (''job_digest'', JStr job_digest),
      (''created_at'', JStr (iso_format (qe_codec env) (rj_created_at job))),
      (''committed_at'', JStr (iso_format (qe_codec env) now))]"

definition reserved_idempotency_record :: "'x queue_env \<Rightarrow> RelayJob \<Rightarrow> string \<Rightarrow> timestamp \<Rightarrow> (string \<times> json) list" where
  "reserved_idempotency_record env job job_digest now =
     [(''state'', JStr ''reserved''), (''job_id'', JStr (rj_job_id job)),
      (''idempotency_key'', JStr (rj_idempotency_key job)), (''job_digest'', JStr job_digest),
      (''created_at'', JStr (iso_format (qe_codec env) now))]"

section \<open>Submission\<close>

text \<open>The job a submission stands for: prepared, with its digest; a digest the caller supplied must match.\<close>

definition bind_submission :: "'x submit_calls \<Rightarrow> RelayJob \<Rightarrow> py_error + RelayJob \<times> string" where
  "bind_submission calls job =
     rbind (prepare_owned_jarvis_run_submission job) (\<lambda>job.
     let job_digest = job_idempotency_digest (sc_model_dump calls) job in
     rbind (check (rj_submission_digest job \<in> {None, Some job_digest})
       (QueueConflictError ''submitted job carries a mismatched submission_digest'')) (\<lambda>_.
     Inr (job\<lparr>rj_submission_digest := Some job_digest\<rparr>, job_digest)))"

definition write_committed_idempotency_record ::
  "'x queue_env \<Rightarrow> string \<Rightarrow> RelayJob \<Rightarrow> string \<Rightarrow> ('x, unit) queue_op" where
  "write_committed_idempotency_record env key_name job job_digest =
     mbind (utc_now env) (\<lambda>now.
     write_document ''idempotency'' key_name (committed_idempotency_record env job job_digest now))"

definition admit_submission :: "'x submit_calls \<Rightarrow> RelayJob \<Rightarrow> ('x, unit) queue_op" where
  "admit_submission calls job =
     mbind mget (\<lambda>s.
     mbind (qlift (sc_assert_intake_open calls (rj_metadata job) (qs_other s))) (\<lambda>_.
     mbind (qlift (sc_assert_input_quota calls job s)) (\<lambda>_.
     ensure_active_job_capacity job)))"

definition finish_submission ::
  "'x queue_env \<Rightarrow> 'x submit_calls \<Rightarrow> string \<Rightarrow> RelayJob \<Rightarrow> string \<Rightarrow> ('x, RelayJob) queue_op" where
  "finish_submission env calls key_name job job_digest =
     mbind (ensure_global ''jobs'' (rj_job_id job)) (\<lambda>_.
     mbind (initialize_job_index (rj_job_id job)) (\<lambda>_.
     mbind (on_other (sc_ensure_artifact_use_indexes calls job)) (\<lambda>_.
     mbind (write_job env job) (\<lambda>_.
     mbind (write_committed_idempotency_record env key_name job job_digest) (\<lambda>_.
     mbind (append_event env (rj_job_id job) ''job.queued'' ''Job queued'' []) (\<lambda>_.
     mret job))))))"

definition submit_new ::
  "'x queue_env \<Rightarrow> 'x submit_calls \<Rightarrow> string \<Rightarrow> RelayJob \<Rightarrow> ('x, RelayJob) queue_op" where
  "submit_new env calls key_name job =
     mbind (qlift (bind_submission calls job)) (\<lambda>(job, job_digest).
     mbind mget (\<lambda>s.
     mbind (qlift (sc_artifact_use_records calls job s)) (\<lambda>_.
     mbind (admit_submission calls job) (\<lambda>_.
     mbind (utc_now env) (\<lambda>now.
     mbind (write_document ''idempotency'' key_name (reserved_idempotency_record env job job_digest now)) (\<lambda>_.
     finish_submission env calls key_name job job_digest))))))"

definition idempotency_record_ok :: "(string \<times> json) list \<Rightarrow> RelayJob \<Rightarrow> bool" where
  "idempotency_record_ok existing job \<longleftrightarrow>
     safe_global_record_id (doc_get existing ''job_id'')
     \<and> doc_get existing ''idempotency_key'' = JStr (rj_idempotency_key job)
     \<and> doc_get existing ''state'' \<in> {JStr ''reserved'', JStr ''committed'', JStr ''retired''}"

definition replay_retired_job ::
  "'x queue_env \<Rightarrow> 'x submit_calls \<Rightarrow> RelayJob \<Rightarrow> (string \<times> json) list \<Rightarrow> string \<Rightarrow> ('x, RelayJob) queue_op" where
  "replay_retired_job env calls submitted idempotency_record job_digest =
     (case as_str (doc_get idempotency_record ''job_id'') of
        None \<Rightarrow> conflict ''retired idempotency record has no job_id''
      | Some job_id \<Rightarrow>
          if job_id = [] then conflict ''retired idempotency record has no job_id''
          else mbind (qlift (require_durable_record_id job_id ''record_id'')) (\<lambda>key.
            mbind mget (\<lambda>s.
              case sc_tombstone calls key (qs_other s) of
                None \<Rightarrow> conflict (''retired idempotency record points to a missing tombstone: '' @ job_id)
              | Some t \<Rightarrow>
                  mbind (qcheck (\<not> (jt_job_digest t \<noteq> job_digest \<or> jt_idempotency_key t \<noteq> rj_idempotency_key submitted))
                    (QueueConflictError (''retired idempotency identity mismatch: '' @ job_id))) (\<lambda>_.
                  mret (submitted\<lparr>rj_job_id := jt_job_id t, rj_cluster := jt_cluster t, rj_kind := jt_kind t,
                    rj_state := jt_final_state t, rj_created_at := jt_created_at t, rj_updated_at := jt_updated_at t,
                    rj_attempts := jt_attempts t, rj_last_error := jt_last_error t, rj_leased_by := None,
                    rj_metadata := AList.update ''retired_job'' (JObj
                      [(''schema_version'', JStr (jt_schema_version t)), (''phase'', JStr (JobGcPhase_value (jt_phase t))),
                       (''gc_started_at'', JStr (iso_format (qe_codec env) (jt_gc_started_at t)))]) (rj_metadata submitted)\<rparr>)))))"

text \<open>\<^verbatim>\<open>queue_scheduler_cancel_records\<close>: the cancellation request of a job and its time.\<close>

definition scheduler_cancellation_request :: "RelayJob \<Rightarrow> (string \<times> json) list option" where
  "scheduler_cancellation_request job =
     (case as_obj (doc_get (rj_metadata job) ''cancellation_request'') of
        None \<Rightarrow> None
      | Some request \<Rightarrow>
          if doc_get request ''schema_version'' \<noteq> JStr ''clio-relay.cancellation-request.v1'' then None else Some request)"

definition cancellation_requested_at :: "'x submit_calls \<Rightarrow> (string \<times> json) list \<Rightarrow> timestamp option" where
  "cancellation_requested_at calls request =
     (case as_str (doc_get request ''requested_at'') of None \<Rightarrow> None | Some raw \<Rightarrow> sc_fromisoformat calls raw)"

definition renew_cancel_pending :: "'x submit_calls \<Rightarrow> RelayJob \<Rightarrow> ('x, unit) queue_op" where
  "renew_cancel_pending calls job =
     (case scheduler_cancellation_request job of
        None \<Rightarrow> mret ()
      | Some request \<Rightarrow>
          if doc_get request ''cancel_scheduler'' = JBool True
          then on_other (sc_ensure_cancel_pending calls job
                 (case cancellation_requested_at calls request of None \<Rightarrow> rj_updated_at job | Some t \<Rightarrow> t) ''operator_request'')
          else mret ())"

text \<open>The rest of a repeated submission whose job exists already.\<close>

definition resume_existing ::
  "'x queue_env \<Rightarrow> 'x submit_calls \<Rightarrow> string \<Rightarrow> json \<Rightarrow> RelayJob \<Rightarrow> string \<Rightarrow> ('x, RelayJob) queue_op" where
  "resume_existing env calls key_name existing_state existing_job job_digest =
     mbind (ensure_global ''jobs'' (rj_job_id existing_job)) (\<lambda>_.
     mbind (initialize_job_index (rj_job_id existing_job)) (\<lambda>_.
     mbind (on_other (sc_ensure_artifact_use_indexes calls existing_job)) (\<lambda>_.
     mbind (write_job env existing_job) (\<lambda>_.
     mbind (renew_cancel_pending calls existing_job) (\<lambda>_.
     mbind (ensure_job_queued_event env existing_job) (\<lambda>_.
     mbind (if existing_state = JStr ''reserved''
            then write_committed_idempotency_record env key_name existing_job job_digest else mret ()) (\<lambda>_.
     mret existing_job)))))))"

definition reused :: "RelayJob \<Rightarrow> py_error" where
  "reused job = QueueConflictError (''idempotency key was reused with a different job payload: '' @ rj_idempotency_key job)"

definition resubmit ::
  "'x queue_env \<Rightarrow> 'x submit_calls \<Rightarrow> string \<Rightarrow> (string \<times> json) list \<Rightarrow> RelayJob \<Rightarrow> ('x, RelayJob) queue_op" where
  "resubmit env calls key_name existing submitted =
     mbind (qcheck (idempotency_record_ok existing submitted)
       (QueueConflictError (''invalid idempotency record for key: '' @ rj_idempotency_key submitted))) (\<lambda>_.
     let existing_job_id = the (as_str (doc_get existing ''job_id''));
         existing_state = doc_get existing ''state'';
         existing_digest = doc_get existing ''job_digest'' in
     mbind (qlift (bind_submission calls (submitted\<lparr>rj_job_id := existing_job_id\<rparr>))) (\<lambda>(job, job_digest).
     mbind (qcheck (idempotency_record_ok existing job)
       (QueueConflictError (''invalid idempotency record for key: '' @ rj_idempotency_key job))) (\<lambda>_.
     mbind (if existing_digest = JNull \<and> existing_state = JStr ''reserved''
            then mbind (write_document ''idempotency'' key_name (AList.update ''job_digest'' (JStr job_digest) existing))
                   (\<lambda>_. mret (JStr job_digest))
            else mbind (qcheck (is_sha256_digest existing_digest) (reused job)) (\<lambda>_. mret existing_digest)) (\<lambda>existing_digest.
     mbind (qcheck (existing_digest = JStr job_digest) (reused job)) (\<lambda>_.
     if existing_state = JStr ''retired''
     then replay_retired_job env calls job (AList.update ''job_digest'' existing_digest existing) job_digest
     else mbind (read_optional_job existing_job_id) (\<lambda>found.
       case found of
         Some existing_job \<Rightarrow>
           mbind (qcheck (\<not> (rj_idempotency_key existing_job \<noteq> rj_idempotency_key job
                     \<or> rj_submission_digest existing_job \<noteq> None \<and> rj_submission_digest existing_job \<noteq> Some job_digest))
             (QueueConflictError (''idempotency target identity mismatch: '' @ existing_job_id))) (\<lambda>_.
           resume_existing env calls key_name existing_state existing_job job_digest)
       | None \<Rightarrow>
           mbind (qcheck (existing_state = JStr ''reserved'')
             (QueueConflictError (''idempotency key points to missing job: '' @ rj_idempotency_key job))) (\<lambda>_.
           mbind (admit_submission calls job) (\<lambda>_.
           finish_submission env calls key_name (job\<lparr>rj_job_id := existing_job_id\<rparr>) job_digest))))))))"

definition submit_job :: "'x queue_env \<Rightarrow> 'x submit_calls \<Rightarrow> RelayJob \<Rightarrow> ('x, RelayJob) queue_op" where
  "submit_job env calls job =
     mbind (qlift (require_durable_record_id (rj_job_id job) ''job_id'')) (\<lambda>_.
     mbind (qlift (validate_new_owner_session_metadata (rj_metadata job))) (\<lambda>_.
     mbind (initialize_queue env) (\<lambda>_.
     mbind (require_index_migration_complete env) (\<lambda>_.
     mbind (reconcile_transition_intents env) (\<lambda>_.
     let key_name = idempotency_key_filename (rj_idempotency_key job) in
     mbind (read_document ''idempotency'' key_name) (\<lambda>raw.
       case raw of
         None \<Rightarrow> submit_new env calls key_name job
       | Some document \<Rightarrow>
           (case as_obj document of
              None \<Rightarrow> conflict (''idempotency record is not an object: '' @ record_path ''idempotency'' key_name)
            | Some existing \<Rightarrow> resubmit env calls key_name existing job)))))))"

section \<open>Resolution without writes\<close>

datatype IdempotentSubmissionResolution =
  IdempotentSubmissionResolution (sr_state: string) (sr_canonical_job_id: string) (sr_existing_job: "RelayJob option")

definition reused_or_invalid :: "RelayJob \<Rightarrow> py_error" where
  "reused_or_invalid job = QueueConflictError
     (''idempotency key was reused with a different or invalid job payload: '' @ rj_idempotency_key job)"

definition resolve_idempotent_submission ::
  "'x queue_env \<Rightarrow> 'x submit_calls \<Rightarrow> RelayJob \<Rightarrow> ('x, IdempotentSubmissionResolution) queue_op" where
  "resolve_idempotent_submission env calls job =
     mbind (qlift (require_durable_record_id (rj_job_id job) ''job_id'')) (\<lambda>_.
     mbind (qlift (validate_new_owner_session_metadata (rj_metadata job))) (\<lambda>_.
     mbind (initialize_queue env) (\<lambda>_.
     mbind (require_index_migration_complete env) (\<lambda>_.
     let key_name = idempotency_key_filename (rj_idempotency_key job) in
     mbind (read_document ''idempotency'' key_name) (\<lambda>raw.
       case raw of
         None \<Rightarrow> mbind (qlift (bind_submission calls job)) (\<lambda>_.
                 mret (IdempotentSubmissionResolution ''new'' (rj_job_id job) None))
       | Some document \<Rightarrow>
           (case as_obj document of
              None \<Rightarrow> conflict (''idempotency record is not an object: '' @ record_path ''idempotency'' key_name)
            | Some record \<Rightarrow>
                mbind (qcheck (idempotency_record_ok record job) (reused_or_invalid job)) (\<lambda>_.
                let canonical_job_id = the (as_str (doc_get record ''job_id''));
                    recorded_digest = doc_get record ''job_digest'';
                    state = doc_get record ''state'' in
                mbind (qlift (bind_submission calls (job\<lparr>rj_job_id := canonical_job_id\<rparr>))) (\<lambda>(submitted, job_digest).
                mbind (qcheck (is_sha256_digest recorded_digest \<and> recorded_digest = JStr job_digest)
                  (reused_or_invalid submitted)) (\<lambda>_.
                if state = JStr ''retired''
                then mbind (replay_retired_job env calls submitted record job_digest) (\<lambda>retired.
                     mret (IdempotentSubmissionResolution ''retired'' canonical_job_id (Some retired)))
                else mbind (read_optional_job canonical_job_id) (\<lambda>existing.
                  case existing of
                    Some existing_job \<Rightarrow>
                      mbind (qcheck (\<not> (rj_idempotency_key existing_job \<noteq> rj_idempotency_key submitted
                                \<or> rj_submission_digest existing_job \<noteq> None
                                  \<and> rj_submission_digest existing_job \<noteq> Some job_digest))
                        (QueueConflictError (''idempotency target identity mismatch: '' @ canonical_job_id))) (\<lambda>_.
                      mret (IdempotentSubmissionResolution ''existing'' canonical_job_id (Some existing_job)))
                  | None \<Rightarrow>
                      mbind (qcheck (state \<noteq> JStr ''committed'')
                        (QueueConflictError (''idempotency key points to missing job: '' @ rj_idempotency_key submitted))) (\<lambda>_.
                      mret (IdempotentSubmissionResolution ''reserved'' canonical_job_id None))))))))))))"

end
