(* ===== verification/SubmissionDigest.thy ===== *)
theory SubmissionDigest
  imports JobSubmission
begin

text \<open>
  The payload digest that identifies a submission. \<open>RelayJob_dump\<close> is pydantic's
  \<^verbatim>\<open>model_dump(mode="json")\<close> of a job, one entry per field in the order the class declares them; the
  format of times and the dump of a specification are parameters.
\<close>

definition str_or_null :: "string option \<Rightarrow> json" where
  "str_or_null v = (case v of None \<Rightarrow> JNull | Some s \<Rightarrow> JStr s)"

definition provenance_dump :: "ArtifactUseProvenance option \<Rightarrow> json" where
  "provenance_dump p = (case p of
       None \<Rightarrow> JNull
     | Some p \<Rightarrow> JObj [(''schema_version'', JStr ''clio-relay.artifact-use-provenance.v1''),
         (''evidence'', JStr (ArtifactUseEvidence_value (aup_evidence p))), (''authority'', JStr (aup_authority p)),
         (''external_ref'', JStr (aup_external_ref p)), (''arg'', JStr (aup_arg p)), (''note'', JStr (aup_note p))])"

definition ArtifactUse_dump :: "ArtifactUse \<Rightarrow> json" where
  "ArtifactUse_dump u = JObj [(''artifact_id'', JStr (au_artifact_id u)), (''sha256'', JStr (au_sha256 u)),
     (''provenance'', provenance_dump (au_provenance u))]"

definition reservation_dump :: "StorageReservationEstimate option \<Rightarrow> json" where
  "reservation_dump r = (case r of
       None \<Rightarrow> JNull
     | Some r \<Rightarrow> JObj [(''core_bytes'', JInt (sre_core_bytes r)), (''spool_bytes'', JInt (sre_spool_bytes r))])"

definition RelayJob_dump ::
  "(timestamp \<Rightarrow> string) \<Rightarrow> (JobSpec \<Rightarrow> (string \<times> json) list) \<Rightarrow> RelayJob \<Rightarrow> (string \<times> json) list" where
  "RelayJob_dump time spec_dump j =
     [(''job_id'', JStr (rj_job_id j)), (''cluster'', JStr (rj_cluster j)), (''kind'', JStr (JobKind_value (rj_kind j))),
      (''state'', JStr (JobState_value (rj_state j))), (''spec'', JObj (spec_dump (rj_spec j))),
      (''idempotency_key'', JStr (rj_idempotency_key j)), (''owner_session_id'', str_or_null (rj_owner_session_id j)),
      (''owner_session_generation_id'', str_or_null (rj_owner_session_generation_id j)),
      (''used_artifact_refs'', JArr (map ArtifactUse_dump (rj_used_artifact_refs j))),
      (''submission_digest'', str_or_null (rj_submission_digest j)), (''created_at'', JStr (time (rj_created_at j))),
      (''updated_at'', JStr (time (rj_updated_at j))), (''leased_by'', str_or_null (rj_leased_by j)),
      (''attempts'', JInt (rj_attempts j)), (''last_error'', str_or_null (rj_last_error j)),
      (''storage_reservation'', reservation_dump (rj_storage_reservation j)), (''metadata'', JObj (rj_metadata j))]"

text \<open>A specification's dump shows the arguments of a call as they are.\<close>

definition dumps_arguments :: "(JobSpec \<Rightarrow> (string \<times> json) list) \<Rightarrow> bool" where
  "dumps_arguments spec_dump \<longleftrightarrow> (\<forall>s a. spec_dump (McpCall (s\<lparr>mcs_arguments := a\<rparr>))
     = AList.update ''arguments'' (JObj a) (spec_dump (McpCall s)))"

text \<open>The fields a queue generates: every other field is the client's.\<close>

definition regenerated :: "RelayJob \<Rightarrow> RelayJob \<Rightarrow> bool" where
  "regenerated job job' \<longleftrightarrow> rj_cluster job' = rj_cluster job \<and> rj_kind job' = rj_kind job \<and> rj_spec job' = rj_spec job
     \<and> rj_idempotency_key job' = rj_idempotency_key job \<and> rj_owner_session_id job' = rj_owner_session_id job
     \<and> rj_owner_session_generation_id job' = rj_owner_session_generation_id job
     \<and> rj_used_artifact_refs job' = rj_used_artifact_refs job \<and> rj_storage_reservation job' = rj_storage_reservation job
     \<and> rj_metadata job' = rj_metadata job"

section \<open>The digest forgets what the queue generates\<close>

lemma client_fields:
  "dict_pop GENERATED_FIELDS (RelayJob_dump time spec_dump j) =
     [(''cluster'', JStr (rj_cluster j)), (''kind'', JStr (JobKind_value (rj_kind j))), (''spec'', JObj (spec_dump (rj_spec j))),
      (''idempotency_key'', JStr (rj_idempotency_key j)), (''owner_session_id'', str_or_null (rj_owner_session_id j)),
      (''owner_session_generation_id'', str_or_null (rj_owner_session_generation_id j)),
      (''used_artifact_refs'', JArr (map ArtifactUse_dump (rj_used_artifact_refs j))),
      (''storage_reservation'', reservation_dump (rj_storage_reservation j)), (''metadata'', JObj (rj_metadata j))]"
  by (simp add: dict_pop_def GENERATED_FIELDS_def RelayJob_dump_def)

lemma dict_pop_one [simp]: "dict_pop [k] d = AList.delete k d"
  by (simp add: dict_pop_def)

lemma payload_fields:
  "idempotency_payload (RelayJob_dump time spec_dump) j =
     [(''cluster'', JStr (rj_cluster j)), (''kind'', JStr (JobKind_value (rj_kind j))),
      (''spec'', JObj (spec_payload j (spec_dump (rj_spec j)))), (''idempotency_key'', JStr (rj_idempotency_key j)),
      (''owner_session_id'', str_or_null (rj_owner_session_id j)),
      (''owner_session_generation_id'', str_or_null (rj_owner_session_generation_id j))]
     @ (if rj_used_artifact_refs j = [] then []
        else [(''used_artifact_refs'', JArr (map artifact_use_payload (rj_used_artifact_refs j)))])
     @ [(''storage_reservation'', reservation_dump (rj_storage_reservation j)),
        (''metadata'', JObj (if rj_kind j = INPUT_INGEST then dict_pop INPUT_INGEST_POLICY_KEYS (rj_metadata j) else rj_metadata j))]"
  unfolding idempotency_payload_def client_fields
  by (simp add: Let_def doc_get_def dict_get_def)

text \<open>Whatever execution identity a trusted run was bound to, its specification's payload is the same.\<close>

lemma spec_payload_bound:
  assumes dump: "dumps_arguments spec_dump" and owned: "is_owned_jarvis_run_spec (rj_kind j) (McpCall s)" "rj_kind j' = rj_kind j"
    and j: "rj_spec j = McpCall (s\<lparr>mcs_arguments := AList.update ''execution_id'' v (mcs_arguments s)\<rparr>)"
    and j': "rj_spec j' = McpCall (s\<lparr>mcs_arguments := AList.update ''execution_id'' v' (mcs_arguments s)\<rparr>)"
  shows "spec_payload j (spec_dump (rj_spec j)) = spec_payload j' (spec_dump (rj_spec j'))"
proof -
  have get: "doc_get (AList.update ''arguments'' x d) ''expected_jarvis_cd_lock_binding'' = doc_get d ''expected_jarvis_cd_lock_binding''"
    "doc_get (AList.update ''arguments'' x d) ''arguments'' = x" for x d
    by (simp_all add: doc_get_def dict_get_def update_conv')
  have kind: "rj_kind j = MCP_CALL" using owned(1) by (simp add: is_owned_jarvis_run_spec_def split: if_splits)
  have dumps: "spec_dump (rj_spec j) = AList.update ''arguments'' (JObj (AList.update ''execution_id'' v (mcs_arguments s))) (spec_dump (McpCall s))"
    "spec_dump (rj_spec j') = AList.update ''arguments'' (JObj (AList.update ''execution_id'' v' (mcs_arguments s))) (spec_dump (McpCall s))"
    using dump by (simp_all add: dumps_arguments_def j j')
  have yes: "is_owned_jarvis_run_spec MCP_CALL (McpCall (s\<lparr>mcs_arguments := a\<rparr>))" for a
    using owned(1) unfolding owned_spec_arguments kind .
  show ?thesis
    unfolding spec_payload_def dumps by (simp add: j j' owned(2) kind yes get delete_update delete_update_same Let_def)
qed

text \<open>
  A trusted run that names its own execution identity is tied to the identifier that identity was
  derived from: under another one the execution identity differs.
\<close>

definition names_execution :: "RelayJob \<Rightarrow> bool" where
  "names_execution job \<longleftrightarrow> is_owned_jarvis_run_spec (rj_kind job) (rj_spec job)
     \<and> (case rj_spec job of McpCall s \<Rightarrow> doc_get (mcs_arguments s) ''execution_id'' \<noteq> JNull | _ \<Rightarrow> False)"

definition execution_moves :: "RelayJob \<Rightarrow> RelayJob \<Rightarrow> bool" where
  "execution_moves job job' \<longleftrightarrow> names_execution job
     \<and> deterministic_jarvis_execution_id (rj_cluster job') (rj_idempotency_key job') (rj_job_id job')
       \<noteq> deterministic_jarvis_execution_id (rj_cluster job) (rj_idempotency_key job) (rj_job_id job)"

lemma moved_execution_refused:
  assumes bound: "bind_submission calls job = Inr (j, d)" and same: "regenerated job job'" and moves: "execution_moves job job'"
  shows "bind_submission calls job' = Inl (ValueError
    ''trusted jarvis_run execution_id must match the relay-owned cluster and idempotency identity'')"
proof -
  obtain p where p: "prepare_owned_jarvis_run_submission job = Inr p" using bound by (auto simp: bind_submission_def rbind_eq_Inr)
  have owned: "is_owned_jarvis_run_spec (rj_kind job) (rj_spec job)" using moves by (simp add: execution_moves_def names_execution_def)
  then obtain s where s: "rj_spec job = McpCall s" by (blast dest: owned_McpCall)
  from prepare_owned_Inr [OF p owned [unfolded s] s refl] moves s
  have "doc_get (mcs_arguments s) ''execution_id''
      = JStr (deterministic_jarvis_execution_id (rj_cluster job) (rj_idempotency_key job) (rj_job_id job))"
    "map_of (mcs_arguments s) ''wait'' = None"
    by (auto simp: execution_moves_def names_execution_def)
  with same owned moves s show ?thesis
    by (simp add: bind_submission_def prepare_owned_jarvis_run_submission_def regenerated_def execution_moves_def
        deterministic_execution_id_valid check_def Let_def not_sym)
qed

lemma digest_regenerated:
  assumes calls: "sc_model_dump calls = RelayJob_dump time spec_dump" and dump: "dumps_arguments spec_dump"
    and bound: "bind_submission calls job = Inr (j, d)" and same: "regenerated job job'"
    and free: "\<not> execution_moves job job'"
  shows "\<exists>j'. bind_submission calls job' = (if rj_submission_digest job' \<in> {None, Some d} then Inr (j', d)
      else Inl (QueueConflictError ''submitted job carries a mismatched submission_digest''))
    \<and> rj_job_id j' = rj_job_id job' \<and> rj_submission_digest j' = Some d"
proof -
  obtain p where p: "prepare_owned_jarvis_run_submission job = Inr p" "d = job_idempotency_digest (RelayJob_dump time spec_dump) p"
    using bound calls by (auto simp: bind_submission_def rbind_eq_Inr Let_def check_def split: if_splits)
  have "\<exists>p'. prepare_owned_jarvis_run_submission job' = Inr p' \<and> rj_submission_digest p' = rj_submission_digest job' \<and> rj_job_id p' = rj_job_id job'
    \<and> idempotency_payload (RelayJob_dump time spec_dump) p' = idempotency_payload (RelayJob_dump time spec_dump) p"
  proof (cases "is_owned_jarvis_run_spec (rj_kind job) (rj_spec job)")
    case False
    then have "p = job" using p(1) by (simp add: prepare_owned_jarvis_run_submission_def)
    moreover have eq: "rj_kind job' = rj_kind job" "rj_spec job' = rj_spec job" using same by (simp_all add: regenerated_def)
    then have "spec_payload job' = spec_payload job" by (intro ext) (simp only: spec_payload_def)
    ultimately show ?thesis using False same
      by (simp add: prepare_owned_jarvis_run_submission_def regenerated_def payload_fields)
  next
    case True
    then obtain s where s: "rj_spec job = McpCall s" by (blast dest: owned_McpCall)
    let ?id = "\<lambda>k. JStr (deterministic_jarvis_execution_id (rj_cluster job) (rj_idempotency_key job) k)"
    let ?spec = "\<lambda>k. McpCall (s\<lparr>mcs_arguments := AList.update ''execution_id'' (?id k) (mcs_arguments s)\<rparr>)"
    let ?p = "job'\<lparr>rj_spec := ?spec (rj_job_id job')\<rparr>"
    note r = prepare_owned_Inr [OF p(1) True [unfolded s] s refl]
    then have p_eq: "p = job\<lparr>rj_spec := ?spec (rj_job_id job)\<rparr>" by blast
    have p': "prepare_owned_jarvis_run_submission job' = Inr ?p"
      using True r same free
      by (auto simp: prepare_owned_jarvis_run_submission_def regenerated_def s execution_moves_def names_execution_def
          deterministic_execution_id_valid check_def)
    have kinds: "is_owned_jarvis_run_spec (rj_kind ?p) (McpCall s)" "rj_kind p = rj_kind ?p"
      using True same by (simp_all add: p_eq s regenerated_def)
    have specs: "rj_spec ?p = ?spec (rj_job_id job')" "rj_spec p = ?spec (rj_job_id job)" by (simp_all add: p_eq)
    have "idempotency_payload (RelayJob_dump time spec_dump) ?p = idempotency_payload (RelayJob_dump time spec_dump) p"
      unfolding payload_fields spec_payload_bound [OF dump kinds specs] using same by (simp add: p_eq regenerated_def)
    then show ?thesis using p' by (intro exI [of _ ?p] conjI) simp_all
  qed
  then obtain p' where "prepare_owned_jarvis_run_submission job' = Inr p'" "rj_submission_digest p' = rj_submission_digest job'"
    "rj_job_id p' = rj_job_id job'" "job_idempotency_digest (RelayJob_dump time spec_dump) p' = d"
    by (auto simp: p(2) job_idempotency_digest_def simp del: dumps_canonical.simps)
  then show ?thesis
    by (intro exI [of _ "p'\<lparr>rj_submission_digest := Some d\<rparr>"]) (simp add: bind_submission_def calls check_def)
qed

text \<open>
  C17: the digest that identifies a submission depends on nothing the queue generates. Take a job whose
  submission is bound to the digest \<open>d\<close>, and the same request with any other identifier, state,
  times, lease owner, attempt count and error. The second is bound to \<open>d\<close> too, under its own
  identifier, even where the request is a trusted JARVIS run and the identifier changes the execution
  identity in its arguments; if it already carries a digest, it is refused unless that is \<open>d\<close>. The one
  exception is a trusted run whose caller named the execution identity itself: that identity is
  derived from the job identifier, so under an identifier with another derived identity the
  request is refused as not matching.
\<close>

theorem submission_digest_stable:
  assumes "sc_model_dump calls = RelayJob_dump time spec_dump" "dumps_arguments spec_dump"
    and "bind_submission calls job = Inr (j, d)" "regenerated job job'"
  shows "if execution_moves job job'
    then bind_submission calls job' = Inl (ValueError
      ''trusted jarvis_run execution_id must match the relay-owned cluster and idempotency identity'')
    else \<exists>j'. bind_submission calls job' = (if rj_submission_digest job' \<in> {None, Some d} then Inr (j', d)
        else Inl (QueueConflictError ''submitted job carries a mismatched submission_digest''))
      \<and> rj_job_id j' = rj_job_id job' \<and> rj_submission_digest j' = Some d"
  using moved_execution_refused [OF assms(3,4)] digest_regenerated [OF assms] by (cases "execution_moves job job'") simp_all

definition demo_spec_dump :: "JobSpec \<Rightarrow> (string \<times> json) list" where
  "demo_spec_dump spec = (case spec of
       McpCall s \<Rightarrow> [(''server'', JStr (mcs_server s)), (''tool'', str_or_null (mcs_tool s)), (''arguments'', JObj (mcs_arguments s))]
     | _ \<Rightarrow> [])"

definition demo_calls :: "unit submit_calls" where
  "demo_calls = \<lparr>sc_model_dump = RelayJob_dump int_str demo_spec_dump,
     sc_fromisoformat = (\<lambda>_. None), sc_tombstone = (\<lambda>_ _. None), sc_artifact_use_records = (\<lambda>_ _. Inr ()),
     sc_ensure_artifact_use_indexes = (\<lambda>_. mret ()), sc_assert_intake_open = (\<lambda>_ _. Inr ()),
     sc_assert_input_quota = (\<lambda>_ _. Inr ()), sc_ensure_cancel_pending = (\<lambda>_ _ _. mret ())\<rparr>"

lemma demo_dump: "sc_model_dump demo_calls = RelayJob_dump int_str demo_spec_dump" "dumps_arguments demo_spec_dump"
  by (simp_all add: demo_calls_def dumps_arguments_def demo_spec_dump_def)

lemma demo_bound: "\<exists>j d. bind_submission demo_calls demo_owned_job = Inr (j, d)"
proof -
  have "\<exists>p. prepare_owned_jarvis_run_submission demo_owned_job = Inr p \<and> rj_submission_digest p = None"
    by (simp add: prepare_owned_jarvis_run_submission_def demo_owned_job_def doc_get_def dict_get_def)
  then show ?thesis by (auto simp: bind_submission_def check_def Let_def)
qed

lemma demo_arguments: "\<not> execution_moves demo_owned_job job'"
  by (simp add: execution_moves_def names_execution_def) (simp add: demo_owned_job_def doc_get_def dict_get_def)

theorem submission_digest_stable_witness:
  "\<exists>j j' d. bind_submission demo_calls demo_owned_job = Inr (j, d)
     \<and> bind_submission demo_calls (demo_owned_job\<lparr>rj_job_id := ''job_b'', rj_created_at := 7\<rparr>) = Inr (j', d) \<and> rj_job_id j' = ''job_b''"
proof -
  obtain j d where j: "bind_submission demo_calls demo_owned_job = Inr (j, d)" using demo_bound by blast
  let ?job = "demo_owned_job\<lparr>rj_job_id := ''job_b'', rj_created_at := 7\<rparr>"
  have same: "regenerated demo_owned_job ?job" and none: "rj_submission_digest ?job \<in> {None, Some d}"
    by (simp_all add: regenerated_def) (simp add: demo_owned_job_def)
  have "\<exists>j'. bind_submission demo_calls ?job = (if rj_submission_digest ?job \<in> {None, Some d} then Inr (j', d)
      else Inl (QueueConflictError ''submitted job carries a mismatched submission_digest''))
    \<and> rj_job_id j' = rj_job_id ?job \<and> rj_submission_digest j' = Some d"
    using submission_digest_stable [OF demo_dump j same] unfolding if_not_P [OF demo_arguments] .
  then show ?thesis unfolding if_P [OF none] using j by auto
qed

end
