(* ===== verification/SubmissionSafety.thy ===== *)
theory SubmissionSafety
  imports SubmissionDigest JobRepair JobOrder
begin

text \<open>
  Submission is exactly-once. Between the reservation of an idempotency key and the last event of
  the submission the store passes through stages; every stage holds the reserved identifier, and a
  repeated submission completes from each of them, interrupted or not.
\<close>

section \<open>Stages\<close>

record submission =
  su_base :: content
  su_id :: string
  su_key :: string
  su_digest :: string
  su_reservation :: "StorageReservationEstimate option"
  su_pos :: "string \<rightharpoonup> int"
  su_latest :: int

abbreviation key_cell :: "string \<Rightarrow> cell" where "key_cell key \<equiv> DocCell (''idempotency'', idempotency_key_filename key)"
abbreviation job_order_dirs :: "string set" where
  "job_order_dirs \<equiv> {order_dir ''jobs'', order_ids ''jobs'', order_entries ''jobs''}"

lemma idempotency_dir [simp]:
  "''idempotency'' \<noteq> order_dir family" "''idempotency'' \<noteq> order_ids family" "''idempotency'' \<noteq> order_entries family"
  by (simp_all add: order_dir_def order_ids_def order_entries_def)

definition order_cells :: "cell set" where
  "order_cells = {DocCell (d, n) |d n. d \<in> job_order_dirs}"

lemma order_cells_iff [simp]:
  "DocCell (d, n) \<in> order_cells \<longleftrightarrow> d \<in> job_order_dirs" "key_cell key \<notin> order_cells"
  "JobCell k \<notin> order_cells" "ActiveCell k \<notin> order_cells" "QueuedCell k \<notin> order_cells" "IntentCell k \<notin> order_cells"
  "EventCell ke \<notin> order_cells" "JobIndexCell k \<notin> order_cells"
  by (auto simp: order_cells_def order_dir_def order_ids_def order_entries_def)

definition su_touched :: "submission \<Rightarrow> cell set" where
  "su_touched u = {JobCell (su_id u), ActiveCell (su_id u), QueuedCell (su_id u), JobIndexCell (su_id u),
      IntentCell (sync_path (su_id u)), key_cell (su_key u)}
    \<union> range (\<lambda>q. EventCell (su_id u, q)) \<union> order_cells"

definition su_frame :: "submission \<Rightarrow> content \<Rightarrow> bool" where
  "su_frame u \<tau> \<longleftrightarrow> (\<forall>c. c \<notin> su_touched u \<longrightarrow> \<tau> c = su_base u c)"

text \<open>The idempotency record names the identifier, the key and the digest.\<close>

definition key_state :: "bool \<Rightarrow> string" where
  "key_state committed = (if committed then ''committed'' else ''reserved'')"

definition su_keyed :: "submission \<Rightarrow> bool \<Rightarrow> content \<Rightarrow> bool" where
  "su_keyed u st \<tau> \<longleftrightarrow> (\<exists>doc. \<tau> (key_cell (su_key u)) = Some (DocV (JObj doc)) \<and> doc_get doc ''state'' = JStr (key_state st)
     \<and> doc_get doc ''job_id'' = JStr (su_id u) \<and> doc_get doc ''idempotency_key'' = JStr (su_key u)
     \<and> doc_get doc ''job_digest'' = JStr (su_digest u))"

text \<open>After \<open>n\<close> attempts at most \<open>n\<close> numbers of the submission order are used up; \<open>b\<close>: one is the job's.\<close>

definition su_ordered :: "submission \<Rightarrow> nat \<Rightarrow> bool \<Rightarrow> content \<Rightarrow> bool" where
  "su_ordered u n b \<tau> \<longleftrightarrow> (\<exists>pos latest. order_ok ''jobs'' pos latest \<tau> \<and> su_pos u \<subseteq>\<^sub>m pos
     \<and> dom pos \<subseteq> insert (su_id u) (dom (su_pos u)) \<and> su_latest u \<le> latest \<and> latest \<le> su_latest u + int n
     \<and> (b \<longrightarrow> su_id u \<in> dom pos))"

text \<open>No index document yet, or a lg of at most the one event.\<close>

definition su_logged :: "submission \<Rightarrow> RelayEvent list option \<Rightarrow> content \<Rightarrow> bool" where
  "su_logged u lg \<tau> \<longleftrightarrow> (case lg of
       None \<Rightarrow> \<tau> (JobIndexCell (su_id u)) = None \<and> log_files \<tau> (su_id u) []
     | Some es \<Rightarrow> event_log 1 \<tau> (su_id u) es \<and> length es \<le> 1 \<and> (\<forall>e \<in> set es. re_event_type e = ''job.queued''))"

definition su_version :: "submission \<Rightarrow> RelayJob \<Rightarrow> bool" where
  "su_version u J \<longleftrightarrow> rj_job_id J = su_id u \<and> rj_state J = QUEUED \<and> rj_idempotency_key J = su_key u
     \<and> rj_submission_digest J = Some (su_digest u) \<and> rj_storage_reservation J = su_reservation u"

definition su_job :: "submission \<Rightarrow> RelayJob option \<Rightarrow> content \<Rightarrow> bool" where
  "su_job u jo \<tau> \<longleftrightarrow> (case jo of
       None \<Rightarrow> \<tau> (JobCell (su_id u)) = None \<and> \<tau> (ActiveCell (su_id u)) = None \<and> \<tau> (QueuedCell (su_id u)) = None
     | Some J \<Rightarrow> su_version u J \<and> \<tau> (JobCell (su_id u)) = Some (JobV J)
         \<and> \<tau> (ActiveCell (su_id u)) \<in> {None, Some (JobV J)} \<and> \<tau> (QueuedCell (su_id u)) \<in> {None, Some (JobV J)})"

definition su_journal :: "submission \<Rightarrow> RelayJob option \<Rightarrow> content \<Rightarrow> bool" where
  "su_journal u jo \<tau> \<longleftrightarrow>
     \<tau> (IntentCell (sync_path (su_id u))) \<in> {None, Some (IntentV (JobSyncIntent (su_id u)))}
     \<and> (\<tau> (IntentCell (sync_path (su_id u))) = None \<longrightarrow> (\<forall>J. jo = Some J \<longrightarrow>
          \<tau> (ActiveCell (su_id u)) = Some (JobV J) \<and> \<tau> (QueuedCell (su_id u)) = Some (JobV J)))"

definition at_stage ::
  "submission \<Rightarrow> nat \<Rightarrow> bool \<Rightarrow> bool \<Rightarrow> RelayEvent list option \<Rightarrow> RelayJob option \<Rightarrow> content \<Rightarrow> bool" where
  "at_stage u n st b lg jo \<tau> \<longleftrightarrow> (st \<or> lg \<notin> {None, Some []} \<longrightarrow> jo \<noteq> None)
     \<and> su_frame u \<tau> \<and> su_keyed u st \<tau> \<and> su_ordered u n b \<tau> \<and> su_logged u lg \<tau> \<and> su_job u jo \<tau> \<and> su_journal u jo \<tau>"

definition staged :: "submission \<Rightarrow> nat \<Rightarrow> RelayJob option \<Rightarrow> content \<Rightarrow> bool" where
  "staged u n jo \<tau> \<longleftrightarrow> (\<exists>st b lg. at_stage u n st b lg jo \<tau>)"

definition quiet :: "content \<Rightarrow> bool" where
  "quiet \<tau> \<longleftrightarrow> (\<forall>m. \<tau> (IntentCell m) = None)"

lemma stagedI: "at_stage u n st b lg jo \<tau> \<Longrightarrow> staged u n jo \<tau>"
  by (auto simp: staged_def)

named_theorems su_frames \<open>what an update of one cell leaves alone\<close>

lemma su_frame_upd: "su_frame u \<tau> \<Longrightarrow> c \<in> su_touched u \<Longrightarrow> su_frame u (\<tau>(c := v))"
  by (auto simp: su_frame_def)

lemma su_keyed_upd [su_frames]: "c \<noteq> key_cell (su_key u) \<Longrightarrow> su_keyed u st (\<tau>(c := v)) = su_keyed u st \<tau>"
  by (simp add: su_keyed_def)

lemma order_ok_cong:
  assumes "\<And>d n. d \<in> {order_dir family, order_ids family, order_entries family} \<Longrightarrow> \<tau> (DocCell (d, n)) = \<sigma> (DocCell (d, n))"
  shows "order_ok family pos latest \<tau> = order_ok family pos latest \<sigma>"
  using assms by (simp add: order_ok_def)

lemma su_ordered_upd [su_frames]:
  "c \<notin> order_cells \<Longrightarrow> su_ordered u n b (\<tau>(c := v)) = su_ordered u n b \<tau>"
  unfolding su_ordered_def by (subst order_ok_cong [of "''jobs''" "\<tau>(c := v)" \<tau>]) auto

lemma su_logged_cong:
  "\<tau> (JobIndexCell (su_id u)) = \<sigma> (JobIndexCell (su_id u)) \<Longrightarrow> (\<And>q. \<tau> (EventCell (su_id u, q)) = \<sigma> (EventCell (su_id u, q)))
     \<Longrightarrow> su_logged u lg \<tau> = su_logged u lg \<sigma>"
  by (simp add: su_logged_def event_log_def log_files_def index_head_def split: option.splits)

lemma su_logged_upd [su_frames]:
  "c \<noteq> JobIndexCell (su_id u) \<Longrightarrow> (\<And>q. c \<noteq> EventCell (su_id u, q)) \<Longrightarrow> su_logged u lg (\<tau>(c := v)) = su_logged u lg \<tau>"
  by (rule su_logged_cong) (simp_all add: fun_upd_def, metis)

lemma su_job_upd [su_frames]:
  "c \<notin> {JobCell (su_id u), ActiveCell (su_id u), QueuedCell (su_id u)} \<Longrightarrow> su_job u jo (\<tau>(c := v)) = su_job u jo \<tau>"
  by (auto simp: su_job_def split: option.splits)

lemma su_journal_upd [su_frames]:
  "c \<notin> {IntentCell (sync_path (su_id u)), ActiveCell (su_id u), QueuedCell (su_id u)}
     \<Longrightarrow> su_journal u jo (\<tau>(c := v)) = su_journal u jo \<tau>"
  by (auto simp: su_journal_def)

lemma su_touched_cells [simp]:
  "JobCell (su_id u) \<in> su_touched u" "ActiveCell (su_id u) \<in> su_touched u" "QueuedCell (su_id u) \<in> su_touched u"
  "JobIndexCell (su_id u) \<in> su_touched u" "IntentCell (sync_path (su_id u)) \<in> su_touched u"
  "key_cell (su_key u) \<in> su_touched u" "EventCell (su_id u, q) \<in> su_touched u"
  by (auto simp: su_touched_def)

lemma su_ordered_mono: "su_ordered u n b \<tau> \<Longrightarrow> n \<le> m \<Longrightarrow> (b' \<Longrightarrow> b) \<Longrightarrow> su_ordered u m b' \<tau>"
  unfolding su_ordered_def by fastforce

lemma at_stage_mono: "at_stage u n st b lg jo \<tau> \<Longrightarrow> n \<le> m \<Longrightarrow> at_stage u m st b lg jo \<tau>"
  using su_ordered_mono by (auto simp: at_stage_def)

lemma staged_mono: "staged u n jo \<tau> \<Longrightarrow> n \<le> m \<Longrightarrow> staged u m jo \<tau>"
  unfolding staged_def using at_stage_mono by blast

text \<open>Where a submission can start.\<close>

definition unused :: "content \<Rightarrow> (string \<rightharpoonup> int) \<Rightarrow> string \<Rightarrow> bool" where
  "unused \<sigma> pos k \<longleftrightarrow> durable_id k \<and> \<sigma> (JobCell k) = None \<and> \<sigma> (ActiveCell k) = None \<and> \<sigma> (QueuedCell k) = None
     \<and> \<sigma> (JobIndexCell k) = None \<and> (\<forall>q. \<sigma> (EventCell (k, q)) = None) \<and> pos k = None
     \<and> single_value_ref_token k \<notin> single_value_ref_token ` dom pos"

definition accepting :: "'x queue_env \<Rightarrow> LeaseIndexIdentity set \<Rightarrow> (string \<rightharpoonup> int) \<Rightarrow> int \<Rightarrow> content \<Rightarrow> bool" where
  "accepting env L pos latest \<sigma> \<longleftrightarrow> settled env L {} \<sigma> \<and> well_named \<sigma> \<and> order_ok ''jobs'' pos latest \<sigma>
     \<and> (\<forall>k. \<sigma> (ActiveCell k) \<noteq> None \<longrightarrow> \<sigma> (JobCell k) \<noteq> None)
     \<and> int (card {k. \<sigma> (ActiveCell k) \<noteq> None}) < MAX_ACTIVE_JOB_RECORDS"

definition submission_ok :: "'x queue_env \<Rightarrow> LeaseIndexIdentity set \<Rightarrow> submission \<Rightarrow> bool" where
  "submission_ok env L u \<longleftrightarrow> env_ok env \<and> accepting env L (su_pos u) (su_latest u) (su_base u)
     \<and> unused (su_base u) (su_pos u) (su_id u) \<and> all_hex 64 (su_digest u)"

section \<open>Steps inside a stage\<close>

abbreviation su_intent :: "submission \<Rightarrow> cell" where "su_intent u \<equiv> IntentCell (sync_path (su_id u))"
abbreviation su_sync :: "submission \<Rightarrow> cell_value" where "su_sync u \<equiv> IntentV (JobSyncIntent (su_id u))"

lemma at_stage_intent: "at_stage u n st b lg jo \<tau> \<Longrightarrow> at_stage u n st b lg jo (\<tau>(su_intent u \<mapsto> su_sync u))"
  by (simp add: at_stage_def su_frame_upd su_frames) (simp add: su_journal_def)

lemma at_stage_drop:
  "at_stage u n st b lg jo \<tau> \<Longrightarrow> (\<And>J. jo = Some J \<Longrightarrow> \<tau> (ActiveCell (su_id u)) = Some (JobV J) \<and> \<tau> (QueuedCell (su_id u)) = Some (JobV J))
     \<Longrightarrow> at_stage u n st b lg jo (\<tau>(su_intent u := None))"
  by (simp add: at_stage_def su_frame_upd su_frames) (simp add: su_journal_def)

lemma at_stage_write:
  assumes "at_stage u n st b lg jo \<tau>" "\<tau> (su_intent u) = Some (su_sync u)" "jo \<in> {None, Some J}" "su_version u J"
  shows "at_stage u n st b lg (Some J) (\<tau>(JobCell (su_id u) \<mapsto> JobV J))"
proof -
  have "su_job u (Some J) (\<tau>(JobCell (su_id u) \<mapsto> JobV J))"
    using assms by (auto simp: at_stage_def su_job_def split: option.splits)
  moreover have "su_journal u (Some J) (\<tau>(JobCell (su_id u) \<mapsto> JobV J))" using assms(2) by (simp add: su_journal_def)
  ultimately show ?thesis using assms(1) by (simp add: at_stage_def su_frame_upd su_frames)
qed

lemma at_stage_derived:
  assumes "at_stage u n st b lg (Some J) \<tau>" "\<tau> (su_intent u) = Some (su_sync u)" "c \<in> {ActiveCell (su_id u), QueuedCell (su_id u)}"
  shows "at_stage u n st b lg (Some J) (\<tau>(c \<mapsto> JobV J))"
proof -
  have "su_job u (Some J) (\<tau>(c \<mapsto> JobV J))" "su_journal u (Some J) (\<tau>(c \<mapsto> JobV J))"
    using assms by (auto simp: at_stage_def su_job_def su_journal_def)
  then show ?thesis using assms(1,3) by (auto simp: at_stage_def su_frame_upd su_frames)
qed

text \<open>The derived indexes of a queued job.\<close>

lemma synced_cells_queued:
  "su_version u J \<Longrightarrow> synced_cells J \<tau> = \<tau>(ActiveCell (su_id u) \<mapsto> JobV J, QueuedCell (su_id u) \<mapsto> JobV J)"
  by (simp add: synced_cells_def su_version_def not_terminal_queued)

lemma stage_intents:
  assumes "submission_ok env L u" "at_stage u n st b lg jo \<tau>"
  shows "m \<noteq> sync_path (su_id u) \<Longrightarrow> \<tau> (IntentCell m) = None"
    and "\<tau> (su_intent u) \<in> {None, Some (su_sync u)}"
    and "quiet \<tau> \<longleftrightarrow> \<tau> (su_intent u) = None"
proof -
  have base: "su_base u (IntentCell m) = None" for m
    using assms(1) by (simp add: submission_ok_def accepting_def settled_def)
  have frame: "\<tau> (IntentCell m) = None" if "m \<noteq> sync_path (su_id u)" for m
    using assms(2) that base by (auto simp: at_stage_def su_frame_def su_touched_def)
  then show "m \<noteq> sync_path (su_id u) \<Longrightarrow> \<tau> (IntentCell m) = None" .
  show "\<tau> (su_intent u) \<in> {None, Some (su_sync u)}" using assms(2) by (simp add: at_stage_def su_journal_def)
  show "quiet \<tau> \<longleftrightarrow> \<tau> (su_intent u) = None" unfolding quiet_def using frame by metis
qed

lemma stage_version: "at_stage u n st b lg (Some J) \<tau> \<Longrightarrow> su_version u J \<and> \<tau> (JobCell (su_id u)) = Some (JobV J)"
  by (simp add: at_stage_def su_job_def)

lemma stage_no_job: "at_stage u n st b lg None \<tau> \<Longrightarrow> \<tau> (JobCell (su_id u)) = None"
  by (simp add: at_stage_def su_job_def)

text \<open>From a stage with the intent durable and the job written, the indexes and the intent follow.\<close>

lemma runs_stage_sync:
  fixes env :: "'x queue_env"
  assumes env: "env_ok env" and st: "at_stage u n st b lg (Some J) \<tau>" "\<tau> (su_intent u) = Some (su_sync u)"
    and P: "\<And>\<rho>. at_stage u n st b lg (Some J) \<rho> \<Longrightarrow> P \<rho>"
    and Q: "\<And>\<rho>. at_stage u n st b lg (Some J) \<rho> \<Longrightarrow> \<rho> (su_intent u) = None \<Longrightarrow> Q () \<rho>"
  shows "runs P \<tau> (mbind (sync_job_derived env J) (\<lambda>_. unlink_intent (sync_path (su_id u)))) Q"
proof -
  have v: "su_version u J" using stage_version [OF st(1)] by simp
  let ?a = "\<tau>(ActiveCell (su_id u) \<mapsto> JobV J)"
  let ?q = "?a(QueuedCell (su_id u) \<mapsto> JobV J)"
  have a: "at_stage u n st b lg (Some J) ?a" "?a (su_intent u) = Some (su_sync u)"
    by (rule at_stage_derived [OF st], simp) (use st(2) in simp)
  have q: "at_stage u n st b lg (Some J) ?q" by (rule at_stage_derived [OF a]) simp
  have d: "at_stage u n st b lg (Some J) (?q(su_intent u := None))" by (rule at_stage_drop [OF q]) simp
  have act: "\<tau>(ActiveCell (rj_job_id J) := (if terminal (rj_state J) then None else Some (JobV J))) = ?a"
    using v by (simp add: su_version_def not_terminal_queued)
  show ?thesis
    by (rule runs_mbind, rule runs_sync_job_derived [OF env], rule P [OF st(1)], unfold act, rule P [OF a(1)],
        unfold synced_cells_queued [OF v], rule runs_writes(10), rule P [OF q], rule Q [OF d], simp)
qed

lemma runs_stage_reconcile:
  fixes env :: "'x queue_env"
  assumes ok: "submission_ok env L u" and st: "at_stage u n st b lg jo \<tau>"
    and P: "\<And>\<rho>. at_stage u n st b lg jo \<rho> \<Longrightarrow> P \<rho>" and Q: "\<And>xs \<rho>. at_stage u n st b lg jo \<rho> \<Longrightarrow> quiet \<rho> \<Longrightarrow> Q xs \<rho>"
  shows "runs P \<tau> (reconcile_transition_intents env) Q"
proof (cases "\<tau> (su_intent u) = None")
  case True
  then have "quiet \<tau>" using stage_intents(3) [OF ok st] by simp
  then show ?thesis by (intro runs_replay_none) (use Q [OF st] in \<open>auto simp: quiet_def\<close>)
next
  case False
  then have here: "\<tau> (su_intent u) = Some (su_sync u)" using stage_intents(2) [OF ok st] by auto
  have env: "env_ok env" and k: "durable_id (su_id u)" using ok by (simp_all add: submission_ok_def unused_def)
  have ne: "su_id u \<noteq> []" using k by (auto simp: durable_id_pattern DURABLE_RECORD_ID_PATTERN_def)
  have done_: "Q xs \<rho>" if "at_stage u n st b lg jo \<rho>" "\<rho> (su_intent u) = None" for xs \<rho>
    using Q that stage_intents(3) [OF ok that(1)] by simp
  have "runs P \<tau> (replay_job_sync env (sync_path (su_id u)) (su_id u)) (\<lambda>_ \<rho>. at_stage u n st b lg jo \<rho> \<and> \<rho> (su_intent u) = None)"
  proof (cases jo)
    case None
    have "at_stage u n st b lg jo (\<tau>(su_intent u := None))" by (rule at_stage_drop [OF st]) (simp add: None)
    then show ?thesis
      unfolding replay_job_sync_def
      by (intro runs_mbind runs_mcheck ne runs_read_job [where r = None])
         (use stage_no_job st None in \<open>auto intro!: runs_mbind runs_mret runs_writes P\<close>)
  next
    case (Some J)
    note v = stage_version [OF st [unfolded Some]]
    have job: "\<tau> (JobCell (su_id u)) = map_option JobV (Some J)" "rj_job_id J = su_id u" using v by (simp_all add: su_version_def)
    show ?thesis
      unfolding replay_job_sync_def
      by (rule runs_mbind, rule runs_mcheck [OF ne], rule runs_mbind, rule runs_read_job, rule job(1), simp add: job k,
          unfold option.case, rule runs_stage_sync [OF env st [unfolded Some] here])
         (use P in \<open>simp_all add: Some\<close>)
  qed
  then have run: "runs P \<tau> (replay_intent env (sync_path (su_id u), JobSyncIntent (su_id u))) Q"
    unfolding replay_intent.simps by (intro runs_mbind, elim runs_weaken) (rule runs_mret, use done_ in blast)
  show ?thesis
    by (rule runs_replay_one [OF _ _ run]) (use here stage_intents(1) [OF ok st] in auto)
qed

section \<open>Order, index document, job, commitment, event\<close>

lemma at_stage_order:
  assumes st: "at_stage u n st b lg jo \<tau>" and pos: "su_pos u \<subseteq>\<^sub>m pos" "dom pos \<subseteq> insert (su_id u) (dom (su_pos u))"
      "su_latest u \<le> latest" "latest \<le> su_latest u + int n"
    and r: "order_reaches ''jobs'' (su_id u) pos latest \<tau> pos' latest' \<rho>"
  shows "at_stage u (Suc n) st (su_id u \<in> dom pos') lg jo \<rho>" "\<rho> (IntentCell m) = \<tau> (IntentCell m)"
proof -
  have same: "\<rho> c = \<tau> c" if "c \<notin> order_cells" for c
    using r that by (cases c) (auto simp: order_reaches_def order_frame_def order_cells_def)
  then show "\<rho> (IntentCell m) = \<tau> (IntentCell m)" by simp
  have "su_ordered u (Suc n) (su_id u \<in> dom pos') \<rho>"
    unfolding su_ordered_def
  proof (intro exI [of _ pos'] exI [of _ latest'] conjI)
    show "order_ok ''jobs'' pos' latest' \<rho>" using r by (simp add: order_reaches_def)
    show "su_pos u \<subseteq>\<^sub>m pos'" using pos(1) r by (auto simp: order_reaches_def extends_def intro: map_le_trans)
    show "dom pos' \<subseteq> insert (su_id u) (dom (su_pos u))" using pos(2) r unfolding order_reaches_def by blast
    show "su_latest u \<le> latest'" "latest' \<le> su_latest u + int (Suc n)"
      using pos(3,4) r by (auto simp: order_reaches_def extends_def)
  qed simp
  moreover have "su_frame u \<rho>"
    using st same by (auto simp: at_stage_def su_frame_def su_touched_def)
  moreover have "su_keyed u st \<rho>" "su_job u jo \<rho>" "su_journal u jo \<rho>" "su_logged u lg \<rho>"
    using st su_logged_cong [of \<rho> u \<tau> lg] by (simp_all add: at_stage_def su_keyed_def su_job_def su_journal_def same split: option.splits)
  ultimately show "at_stage u (Suc n) st (su_id u \<in> dom pos') lg jo \<rho>" using st by (simp add: at_stage_def)
qed

lemma runs_stage_order:
  assumes ok: "submission_ok env L u" and st: "at_stage u n st b lg jo \<tau>" "quiet \<tau>"
    and bound: "su_latest u + int n < 2 ^ 63 - 1"
    and P: "\<And>b \<rho>. at_stage u (Suc n) st b lg jo \<rho> \<Longrightarrow> P \<rho>"
    and Q: "\<And>q \<rho>. at_stage u (Suc n) st True lg jo \<rho> \<Longrightarrow> quiet \<rho> \<Longrightarrow> Q q \<rho>"
  shows "runs P \<tau> (ensure_global ''jobs'' (su_id u)) Q"
proof -
  obtain pos latest where o: "order_ok ''jobs'' pos latest \<tau>" "su_pos u \<subseteq>\<^sub>m pos"
    "dom pos \<subseteq> insert (su_id u) (dom (su_pos u))" "su_latest u \<le> latest" "latest \<le> su_latest u + int n"
    using st(1) by (auto simp: at_stage_def su_ordered_def)
  have unused: "unused (su_base u) (su_pos u) (su_id u)" using ok by (simp add: submission_ok_def)
  have fresh: "i = su_id u" if "i \<in> dom pos" "single_value_ref_token i = single_value_ref_token (su_id u)" for i
    using that o(3) unused by (auto simp: unused_def image_iff) (metis domI subsetD insertE)
  note reach = at_stage_order [OF st(1) o(2-5)]
  show ?thesis
  proof (rule runs_ensure_global [OF _ _ o(1)])
    show "''jobs'' \<in> set GLOBAL_ORDER_FAMILIES" by (simp add: GLOBAL_ORDER_FAMILIES_def)
    show "durable_id (su_id u)" using unused by (simp add: unused_def)
    show "latest < 2 ^ 63 - 1" using o(5) bound by simp
    show "i = su_id u" if "i \<in> dom pos" "single_value_ref_token i = single_value_ref_token (su_id u)" for i
      using fresh that .
    show "P \<rho>" if "order_reaches ''jobs'' (su_id u) pos latest \<tau> pos' latest' \<rho>" for pos' latest' \<rho>
      by (rule P [OF reach(1) [OF that]])
    show "Q q \<rho>" if r: "order_reaches ''jobs'' (su_id u) pos latest \<tau> pos' latest' \<rho>" and q: "pos' (su_id u) = Some q" for q pos' latest' \<rho>
    proof (rule Q)
      have "su_id u \<in> dom pos'" using q by blast
      with reach(1) [OF r] show "at_stage u (Suc n) st True lg jo \<rho>" by simp
      show "quiet \<rho>" using st(2) reach(2) [OF r] by (simp add: quiet_def)
    qed
  qed
qed

lemma initial_index_head:
  assumes "\<tau> (JobIndexCell k) = Some (DocV (JObj (initial_job_index k)))"
  shows "index_head \<tau> k 0"
  using assms
  by (simp add: index_head_def initial_job_index_def parse_job_index_def Let_def doc_get_def dict_get_def index_integer_def
      JOB_INDEX_SCHEMA_def)

lemma runs_index_exists:
  assumes "durable_id k" "Q (\<tau> (JobIndexCell k) \<noteq> None) \<tau>"
  shows "runs P \<tau> (job_index_exists k) Q"
  unfolding job_index_exists_def
proof (rule runs_mbind, rule runs_qlift, rule require_durable_id [OF assms(1)], rule runs_mget)
  fix s :: "'x queue_state" assume h: "holds \<tau> s"
  have "(map_of (qs_job_indexes s) k \<noteq> None) = (\<tau> (JobIndexCell k) \<noteq> None)" using holds_cells [OF h, of "JobIndexCell k"] by simp
  then show "runs P \<tau> (mret (map_of (qs_job_indexes s) k \<noteq> None)) Q" using assms(2) by (simp only:) (rule runs_mret)
qed

lemma runs_stage_index:
  assumes k: "durable_id (su_id u)" and st: "at_stage u n st b lg jo \<tau>" "quiet \<tau>"
    and P: "\<And>\<rho>. at_stage u n st b lg jo \<rho> \<Longrightarrow> P \<rho>"
    and Q: "\<And>\<rho>. at_stage u n st b (Some (case lg of None \<Rightarrow> [] | Some es \<Rightarrow> es)) jo \<rho> \<Longrightarrow> quiet \<rho> \<Longrightarrow> Q () \<rho>"
  shows "runs P \<tau> (initialize_job_index (su_id u)) Q"
proof (cases lg)
  case None
  let ?\<rho> = "\<tau>(JobIndexCell (su_id u) \<mapsto> DocV (JObj (initial_job_index (su_id u))))"
  have files: "log_files \<tau> (su_id u) []" and absent: "\<tau> (JobIndexCell (su_id u)) = None"
    using st(1) None by (simp_all add: at_stage_def su_logged_def)
  have head: "index_head ?\<rho> (su_id u) 0" by (rule initial_index_head) simp
  have "event_log 1 ?\<rho> (su_id u) []"
    using files head unfolding event_log_def by (intro conjI exI [of _ 0]) (simp_all add: log_files_def)
  then have "at_stage u n st b (Some []) jo ?\<rho>"
    using st(1) None by (auto simp: at_stage_def su_frame_upd su_frames su_logged_def)
  then have "Q () ?\<rho>" by (rule Q [unfolded None option.case]) (use st(2) in \<open>simp add: quiet_def\<close>)
  then show ?thesis
    unfolding initialize_job_index_def
    by (intro runs_mbind runs_index_exists k) (use absent P [OF st(1)] in \<open>auto intro: runs_writes\<close>)
next
  case (Some es)
  then have "\<tau> (JobIndexCell (su_id u)) \<noteq> None" using st(1) by (auto simp: at_stage_def su_logged_def event_log_def index_head_def)
  then show ?thesis
    unfolding initialize_job_index_def
    by (intro runs_mbind runs_index_exists k) (use Q [OF _ st(2)] st(1) Some in \<open>auto intro: runs_mret\<close>)
qed

lemma runs_stage_write:
  fixes env :: "'x queue_env"
  assumes ok: "submission_ok env L u" and st: "at_stage u n st b lg jo \<tau>" and jo: "jo \<in> {None, Some J}" "su_version u J"
    and P: "\<And>jo' \<rho>. at_stage u n st b lg jo' \<rho> \<Longrightarrow> jo' \<in> {jo, Some J} \<Longrightarrow> P \<rho>"
    and Q: "\<And>\<rho>. at_stage u n st b lg (Some J) \<rho> \<Longrightarrow> quiet \<rho> \<Longrightarrow> Q () \<rho>"
  shows "runs P \<tau> (write_job env J) Q"
proof -
  have env: "env_ok env" using ok by (simp add: submission_ok_def)
  have id: "rj_job_id J = su_id u" using jo(2) by (simp add: su_version_def)
  let ?i = "\<tau>(su_intent u \<mapsto> su_sync u)"
  let ?j = "?i(JobCell (su_id u) \<mapsto> JobV J)"
  have i: "at_stage u n st b lg jo ?i" by (rule at_stage_intent [OF st])
  have j: "at_stage u n st b lg (Some J) ?j" by (rule at_stage_write [OF i _ jo]) simp
  have P0: "P \<rho>" if "at_stage u n st b lg jo \<rho>" for \<rho> using P that by simp
  have P1: "P \<rho>" if "at_stage u n st b lg (Some J) \<rho>" for \<rho> using P that by simp
  have tail: "runs P ?j (mbind (sync_job_derived env J) (\<lambda>_. unlink_intent (sync_path (su_id u)))) Q"
    by (rule runs_stage_sync [OF env j]) (use P1 Q stage_intents(3) [OF ok] in auto)
  show ?thesis
    unfolding write_job_def id
    by (rule runs_mbind, rule runs_on_other, rule P0 [OF st], rule env_steps(2) [OF env], rule runs_mbind,
        rule runs_write_intent, rule P0 [OF st], rule runs_mbind, rule runs_writes(1), rule P0 [OF i], unfold id, rule tail)
qed

lemma runs_stage_commit:
  assumes st: "at_stage u n st b lg (Some J) \<tau>" "quiet \<tau>" and d: "d = su_digest u"
    and P: "\<And>\<rho>. at_stage u n st b lg (Some J) \<rho> \<Longrightarrow> P \<rho>"
    and Q: "\<And>\<rho>. at_stage u n True b lg (Some J) \<rho> \<Longrightarrow> quiet \<rho> \<Longrightarrow> Q () \<rho>"
  shows "runs P \<tau> (write_committed_idempotency_record env (idempotency_key_filename (su_key u)) J d) Q"
proof -
  have v: "su_version u J" using stage_version [OF st(1)] by simp
  have "at_stage u n True b lg (Some J) (\<tau>(key_cell (su_key u) \<mapsto> DocV (JObj (committed_idempotency_record env J d now))))" for now
  proof -
    have "su_keyed u True (\<tau>(key_cell (su_key u) \<mapsto> DocV (JObj (committed_idempotency_record env J d now))))"
      using v by (simp add: su_keyed_def committed_idempotency_record_def doc_get_def dict_get_def key_state_def su_version_def d)
    then show ?thesis using st(1) by (simp add: at_stage_def su_frame_upd su_frames)
  qed
  then show ?thesis
    unfolding write_committed_idempotency_record_def
    by (intro runs_mbind runs_utc_now runs_write_document P [OF st(1)] Q) (use st(2) in \<open>simp_all add: quiet_def\<close>)
qed

lemma short_log:
  assumes "event_log 1 \<tau> k []"
  shows "event_log 0 \<tau> k []" "index_head \<tau> k 0"
proof -
  obtain m where m: "index_head \<tau> k m" "m \<le> 0" "log_files \<tau> k []" using assms by (auto simp: event_log_def)
  moreover have "0 \<le> m" using m(1) index_integer_nonneg by (auto simp: index_head_def)
  ultimately show "event_log 0 \<tau> k []" "index_head \<tau> k 0" by (auto simp: event_log_def)
qed

lemma runs_stage_event:
  fixes env :: "'x queue_env"
  assumes k: "durable_id (su_id u)" and st: "at_stage u n st b (Some []) (Some J) \<tau>" "quiet \<tau>"
    and P: "\<And>lg \<rho>. at_stage u n st b lg (Some J) \<rho> \<Longrightarrow> P \<rho>"
    and Q: "\<And>e es \<rho>. at_stage u n st b (Some [e]) (Some J) \<rho> \<Longrightarrow> quiet \<rho> \<Longrightarrow> Q e \<rho>"
  shows "runs P \<tau> (append_event env (su_id u) ''job.queued'' message payload) Q"
proof -
  have log: "event_log 0 \<tau> (su_id u) []" using st(1) short_log by (simp add: at_stage_def su_logged_def)
  have lag: "(0 :: int) < DEFAULT_EXACT_RECORD_LIMIT" by (simp add: DEFAULT_EXACT_RECORD_LIMIT_def)
  have keep: "at_stage u n st b (Some [e]) (Some J) \<rho>" "quiet \<rho>"
    if "event_log 1 \<rho> (su_id u) [e]" "re_event_type e = ''job.queued''"
      "\<rho> \<in> {\<tau>(EventCell (su_id u, q) \<mapsto> EventV e), \<tau>(EventCell (su_id u, q) \<mapsto> EventV e, JobIndexCell (su_id u) \<mapsto> v)}" for \<rho> e q v
  proof -
    show "quiet \<rho>" using that(3) st(2) by (auto simp: quiet_def)
    have "su_logged u (Some [e]) \<rho>" using that by (simp add: su_logged_def)
    moreover have "su_frame u \<rho>" using that(3) st(1) by (auto simp: at_stage_def intro!: su_frame_upd)
    ultimately show "at_stage u n st b (Some [e]) (Some J) \<rho>" using that(3) st(1) by (auto simp: at_stage_def su_frames)
  qed
  show ?thesis
  proof (rule runs_append_event [where P = P, OF k log lag])
    show "P \<tau>" by (rule P [OF st(1)])
  next
    fix e assume e: "appended (su_id u) (length ([] :: RelayEvent list)) ''job.queued'' message payload e"
    then have id: "re_job_id e = su_id u" "re_seq e = int (length ([] :: RelayEvent list)) + 1" "re_event_type e = ''job.queued''"
      by (simp_all add: appended_def)
    have "event_log 1 (\<tau>(EventCell (su_id u, int (length ([] :: RelayEvent list)) + 1) \<mapsto> EventV e)) (su_id u) [e]"
      using event_log_written [OF log id(1,2)] by simp
    from keep(1) [OF this id(3)] show "P (\<tau>(EventCell (su_id u, int (length ([] :: RelayEvent list)) + 1) \<mapsto> EventV e))"
      by (intro P) blast
  next
    fix e d \<rho> assume \<rho>: "\<rho> = \<tau>(EventCell (su_id u, int (length ([] :: RelayEvent list)) + 1) \<mapsto> EventV e, JobIndexCell (su_id u) \<mapsto> DocV (JObj d))"
      and l: "event_log 0 \<rho> (su_id u) ([] @ [e])" and e: "appended (su_id u) (length ([] :: RelayEvent list)) ''job.queued'' message payload e"
    have "event_log 1 \<rho> (su_id u) [e]" using event_log_lag [OF l] by simp
    from keep [OF this] e \<rho> show "Q e \<rho>" by (intro Q) (auto simp: appended_def)
  qed
qed

lemma runs_stage_queued_event:
  fixes env :: "'x queue_env"
  assumes k: "durable_id (su_id u)" and J: "rj_job_id J = su_id u" and st: "at_stage u n st b (Some es) (Some J) \<tau>" "quiet \<tau>"
    and P: "\<And>lg \<rho>. at_stage u n st b lg (Some J) \<rho> \<Longrightarrow> P \<rho>"
    and Q: "\<And>e \<rho>. at_stage u n st b (Some [e]) (Some J) \<rho> \<Longrightarrow> quiet \<rho> \<Longrightarrow> Q () \<rho>"
  shows "runs P \<tau> (ensure_job_queued_event env J) Q"
  unfolding ensure_job_queued_event_def J
proof (rule runs_mget)
  fix s :: "'x queue_state" assume h: "holds \<tau> s"
  have ev: "map_of (qs_events s) (su_id u, 1) \<noteq> None \<longleftrightarrow> \<tau> (EventCell (su_id u, 1)) \<noteq> None"
    using holds_cells [OF h, of "EventCell (su_id u, 1)"] by simp
  have log: "event_log 1 \<tau> (su_id u) es" "length es \<le> 1" using st(1) by (simp_all add: at_stage_def su_logged_def)
  then have files: "log_files \<tau> (su_id u) es" by (simp add: event_log_def)
  consider "es = []" | e where "es = [e]" using log(2) by (cases es) auto
  then show "runs P \<tau> (if map_of (qs_events s) (su_id u, 1) \<noteq> None then mret ()
      else mbind (update_job_index (su_id u) [(''latest_event_seq'', JInt 0)]) (\<lambda>_.
        mbind (append_event env (su_id u) ''job.queued'' ''Job queued'' []) (\<lambda>_. mret ()))) Q"
  proof cases
    case 1
    have absent: "\<tau> (EventCell (su_id u, 1)) = None" using files 1 by (simp add: log_files_def)
    have head: "index_head \<tau> (su_id u) 0" using short_log log(1) 1 by simp
    have next_: "at_stage u n st b (Some []) (Some J) (\<tau>(JobIndexCell (su_id u) \<mapsto> DocV (JObj d)))"
      if d: "index_head (\<tau>(JobIndexCell (su_id u) \<mapsto> DocV (JObj d))) (su_id u) 0" for d
    proof -
      have "event_log 1 (\<tau>(JobIndexCell (su_id u) \<mapsto> DocV (JObj d))) (su_id u) []"
        using files d 1 unfolding event_log_def by (intro conjI exI [of _ 0]) (simp_all add: log_files_def)
      then show ?thesis using st(1) by (simp add: at_stage_def su_frame_upd su_frames) (simp add: su_logged_def)
    qed
    have event: "runs P \<rho> (mbind (append_event env (su_id u) ''job.queued'' ''Job queued'' []) (\<lambda>_. mret ())) Q"
      if "at_stage u n st b (Some []) (Some J) \<rho>" "quiet \<rho>" for \<rho>
      by (rule runs_mbind, rule runs_stage_event [OF k that], erule P, rule runs_mret, erule Q, assumption)
    have no: "\<not> map_of (qs_events s) (su_id u, 1) \<noteq> None" using ev absent by simp
    show ?thesis
      unfolding if_not_P [OF no]
      by (rule runs_mbind, rule runs_update_index [OF k head order_refl], rule P [OF st(1)], rule event, erule next_)
         (use st(2) in \<open>simp add: quiet_def\<close>)
  next
    case 2
    have "\<tau> (EventCell (su_id u, 1)) \<noteq> None" using files 2 by (simp add: log_files_def)
    then have yes: "map_of (qs_events s) (su_id u, 1) \<noteq> None" using ev by simp
    show ?thesis
      unfolding if_P [OF yes] by (rule runs_mret, rule Q [OF _ st(2)]) (use st(1) 2 in simp)
  qed
qed

section \<open>The two ways to the end\<close>

text \<open>What the calls of a submission into other families do: they accept and leave this model's families alone.\<close>

definition calls_ok :: "'x submit_calls \<Rightarrow> bool" where
  "calls_ok calls \<longleftrightarrow> (\<forall>j s. sc_artifact_use_records calls j s = Inr ())
     \<and> (\<forall>j x. \<exists>x'. sc_ensure_artifact_use_indexes calls j x = (Inr (), x'))
     \<and> (\<forall>m x. sc_assert_intake_open calls m x = Inr ()) \<and> (\<forall>j s. sc_assert_input_quota calls j s = Inr ())
     \<and> (\<forall>j t m x. \<exists>x'. sc_ensure_cancel_pending calls j t m x = (Inr (), x'))"

text \<open>The end of a submission: the key is committed to a queued job with an order number and its first event.\<close>

definition completed :: "submission \<Rightarrow> nat \<Rightarrow> RelayJob \<Rightarrow> content \<Rightarrow> bool" where
  "completed u n J \<tau> \<longleftrightarrow> (\<exists>e. at_stage u n True True (Some [e]) (Some J) \<tau>) \<and> quiet \<tau>"

lemma runs_finish:
  fixes env :: "'x queue_env"
  assumes ok: "submission_ok env L u" and calls: "calls_ok calls" and J: "su_version u J" and d: "d = su_digest u"
    and st: "at_stage u n st b lg None \<tau>" "quiet \<tau>" and bound: "su_latest u + int n < 2 ^ 63 - 1"
    and P: "\<And>jo \<rho>. staged u (Suc n) jo \<rho> \<Longrightarrow> jo \<in> {None, Some J} \<Longrightarrow> P \<rho>"
    and Q: "\<And>\<rho>. completed u (Suc n) J \<rho> \<Longrightarrow> Q J \<rho>"
  shows "runs P \<tau> (finish_submission env calls (idempotency_key_filename (su_key u)) J d) Q"
proof -
  have k: "durable_id (su_id u)" using ok by (simp add: submission_ok_def unused_def)
  have id: "rj_job_id J = su_id u" using J by (simp add: su_version_def)
  have P0: "P \<rho>" if "at_stage u (Suc n) st b lg None \<rho>" for st b lg \<rho> using P stagedI that by blast
  have P1: "P \<rho>" if "at_stage u (Suc n) st b lg (Some J) \<rho>" for st b lg \<rho> using P stagedI that by blast
  have P2: "P \<rho>" if "at_stage u (Suc n) st b lg jo \<rho>" "jo \<in> {None, Some J}" for st b lg jo \<rho> using P stagedI that by blast
  have calls': "\<exists>x'. sc_ensure_artifact_use_indexes calls J x = (Inr (), x')" for x using calls by (simp add: calls_ok_def)
  have empty: "(case lg of None \<Rightarrow> [] | Some es \<Rightarrow> es) = []"
    using st(1) by (auto simp: at_stage_def split: option.splits)
  show ?thesis
    unfolding finish_submission_def id
    by (rule runs_mbind, rule runs_stage_order [OF ok st bound], erule P0, rule runs_mbind,
        rule runs_stage_index [OF k], assumption, assumption, erule P0, unfold empty, rule runs_mbind, rule runs_on_other,
        erule P0, rule calls', rule runs_mbind, rule runs_stage_write [OF ok], assumption, simp, rule J, erule P2, simp,
        rule runs_mbind, rule runs_stage_commit, assumption, assumption, rule d, erule P1, rule runs_mbind,
        rule runs_stage_event [OF k], assumption, assumption, erule P1, rule runs_mret, rule Q)
       (auto simp: completed_def)
qed

lemma runs_resume:
  fixes env :: "'x queue_env"
  assumes ok: "submission_ok env L u" and calls: "calls_ok calls" and d: "d = su_digest u" and state: "estate = JStr (key_state st)"
    and st: "at_stage u n st b lg (Some J) \<tau>" "quiet \<tau>" and bound: "su_latest u + int n < 2 ^ 63 - 1"
    and P: "\<And>\<rho>. staged u (Suc n) (Some J) \<rho> \<Longrightarrow> P \<rho>"
    and Q: "\<And>\<rho>. completed u (Suc n) J \<rho> \<Longrightarrow> Q J \<rho>"
  shows "runs P \<tau> (resume_existing env calls (idempotency_key_filename (su_key u)) estate J d) Q"
proof -
  have k: "durable_id (su_id u)" using ok by (simp add: submission_ok_def unused_def)
  have J: "su_version u J" using stage_version [OF st(1)] by simp
  have id: "rj_job_id J = su_id u" using J by (simp add: su_version_def)
  have P1: "P \<rho>" if "at_stage u (Suc n) st b lg (Some J) \<rho>" for st b lg \<rho> using P stagedI that by blast
  have P2: "P \<rho>" if "at_stage u (Suc n) st b lg jo \<rho>" "jo \<in> {Some J, Some J}" for st b lg jo \<rho> using P stagedI that by blast
  have calls': "\<exists>x'. sc_ensure_artifact_use_indexes calls J x = (Inr (), x')" for x using calls by (simp add: calls_ok_def)
  have cancel: "runs P \<rho> (renew_cancel_pending calls J) R" if "P \<rho>" "R () \<rho>" for \<rho> R
    unfolding renew_cancel_pending_def using that calls
    by (auto split: option.splits simp: calls_ok_def intro!: runs_mret runs_on_other)
  have commit: "runs P \<rho> (mbind (if estate = JStr ''reserved''
        then write_committed_idempotency_record env (idempotency_key_filename (su_key u)) J d else mret ()) (\<lambda>_. mret J)) Q"
    if \<rho>: "at_stage u (Suc n) st True (Some [e]) (Some J) \<rho>" "quiet \<rho>" for \<rho> e
  proof (cases st)
    case True
    then have no: "\<not> estate = JStr ''reserved''" by (simp add: state key_state_def)
    have "completed u (Suc n) J \<rho>" using \<rho> True by (auto simp: completed_def)
    then show ?thesis unfolding if_not_P [OF no] mbind_mret by (intro runs_mret Q)
  next
    case False
    then have yes: "estate = JStr ''reserved''" by (simp add: state key_state_def)
    show ?thesis
      unfolding if_P [OF yes]
      by (rule runs_mbind, rule runs_stage_commit [OF \<rho> d], erule P1, rule runs_mret, rule Q) (auto simp: completed_def)
  qed
  show ?thesis
    unfolding resume_existing_def id
    by (rule runs_mbind, rule runs_stage_order [OF ok st bound], erule P1, rule runs_mbind,
        rule runs_stage_index [OF k], assumption, assumption, erule P1, rule runs_mbind, rule runs_on_other,
        erule P1, rule calls', rule runs_mbind, rule runs_stage_write [OF ok], assumption, simp, rule J, erule P2, simp,
        rule runs_mbind, rule cancel, erule P1, rule runs_mbind, rule runs_stage_queued_event [OF k id], assumption, assumption,
        erule P1, rule commit)
qed

section \<open>Admission\<close>

text \<open>The active index of a settled store needs no repair and has room.\<close>

definition tidy :: "content \<Rightarrow> bool" where
  "tidy \<sigma> \<longleftrightarrow> jobs_ok {} \<sigma> \<and> well_named \<sigma> \<and> (\<forall>k. \<sigma> (ActiveCell k) \<noteq> None \<longrightarrow> \<sigma> (JobCell k) \<noteq> None)
     \<and> int (card {k. \<sigma> (ActiveCell k) \<noteq> None}) < MAX_ACTIVE_JOB_RECORDS"

lemma tidy_cong:
  assumes "\<And>k. \<tau> (JobCell k) = \<sigma> (JobCell k)" "\<And>k. \<tau> (ActiveCell k) = \<sigma> (ActiveCell k)" "\<And>k. \<tau> (QueuedCell k) = \<sigma> (QueuedCell k)"
  shows "tidy \<tau> = tidy \<sigma>"
  by (simp add: tidy_def jobs_ok_def well_named_def synced_def assms)

lemma tidy_repaired: "tidy \<sigma> \<Longrightarrow> repaired \<sigma> = \<sigma>"
proof (rule ext)
  fix c assume tidy: "tidy \<sigma>"
  have val: "live_value \<sigma> k = \<sigma> (ActiveCell k) \<and> queued_value \<sigma> k = \<sigma> (QueuedCell k)" if listed: "\<sigma> (ActiveCell k) \<noteq> None" for k
  proof -
    obtain v where v: "\<sigma> (JobCell k) = Some v" using tidy listed unfolding tidy_def by blast
    then obtain j where j: "v = JobV j" "rj_job_id j = k" "synced \<sigma> j" using tidy by (auto simp: tidy_def jobs_ok_def)
    then show ?thesis using v listed by (auto simp: live_value_def queued_value_def synced_def)
  qed
  show "repaired \<sigma> c = \<sigma> c" using val by (cases c) (simp_all add: repaired_def)
qed

lemma accepting_tidy: "accepting env L pos latest \<sigma> \<Longrightarrow> tidy \<sigma>"
  by (simp add: accepting_def settled_def tidy_def)

lemma stage_tidy:
  assumes ok: "submission_ok env L u" and st: "at_stage u n st b lg None \<tau>"
  shows "tidy \<tau>"
proof -
  have base: "tidy (su_base u)" using ok accepting_tidy by (auto simp: submission_ok_def)
  have new: "unused (su_base u) (su_pos u) (su_id u)" using ok by (simp add: submission_ok_def)
  have same: "\<tau> c = su_base u c" if "c \<in> range JobCell \<union> range ActiveCell \<union> range QueuedCell" for c
    using st new that by (cases "c \<in> su_touched u")
      (auto simp: at_stage_def su_job_def unused_def su_frame_def su_touched_def order_cells_def)
  show ?thesis using base by (simp add: tidy_cong [of \<tau> "su_base u"] same)
qed

lemma runs_mtry:
  fixes m :: "('x, 'a) queue_op"
  assumes m: "runs P \<sigma> m (\<lambda>x \<tau>. runs P \<tau> (rest x) Q)"
  shows "runs P \<sigma> (mtry m handler rest) Q"
proof (rule runsI)
  fix s :: "'x queue_state" assume h: "holds \<sigma> s"
  obtain r s' where ms: "m s = (r, s')" by fastforce
  have "(\<exists>x. r = Inr x) \<or> r = Inl Crashed" using runs_outcome [OF m h ms] by blast
  then have same: "mtry m handler rest s = mbind m rest s" by (auto simp: mtry_def mbind_def ms)
  show "good_outcome P Q (qs_budget s) (fst (mtry m handler rest s)) (snd (mtry m handler rest s))"
    unfolding same using runs_mbind [OF m] h unfolding runs_def by blast
qed

lemma runs_capacity:
  assumes tidy: "tidy \<sigma>" and P: "P \<sigma>" and Q: "Q () \<sigma>"
  shows "runs P \<sigma> (ensure_active_job_capacity job :: ('x, unit) queue_op) Q"
proof (cases "rj_state job = QUEUED")
  case True
  have ok: "jobs_ok UNIV \<sigma>" "well_named \<sigma>" "int (card {k. \<sigma> (ActiveCell k) \<noteq> None}) < MAX_ACTIVE_JOB_RECORDS"
    using tidy unfolding tidy_def jobs_ok_def by blast+
  have room: "\<not> int (length (qs_active s)) \<ge> MAX_ACTIVE_JOB_RECORDS" if "holds \<sigma> s" for s :: "'x queue_state"
    unfolding active_length [OF that] using ok(3) by linarith
  have check: "runs P \<sigma> (mbind mget (\<lambda>s'. qcheck (\<not> int (length (qs_active s')) \<ge> MAX_ACTIVE_JOB_RECORDS) e) :: ('x, unit) queue_op) Q" for e
    by (rule runs_mget, rule runs_mcheck, erule room, rule Q)
  have same: "between \<sigma> (repaired \<sigma>) \<tau> \<Longrightarrow> \<tau> = \<sigma>" for \<tau>
    unfolding tidy_repaired [OF tidy] between_def by (rule ext) blast
  have repair: "runs P \<sigma> (repair_active_job_index :: ('x, unit) queue_op) (\<lambda>_ \<tau>. \<tau> = \<sigma>)"
    by (rule runs_repair_index [OF ok(1,2)]) (use ok(3) P same tidy_repaired [OF tidy] in auto)
  have attempt: "runs P \<sigma> (mtry repair_active_job_index handler (\<lambda>_. mbind mget (\<lambda>s'.
      qcheck (\<not> int (length (qs_active s')) \<ge> MAX_ACTIVE_JOB_RECORDS) e)) :: ('x, unit) queue_op) Q" for handler e
    by (rule runs_mtry, rule runs_weaken [OF repair]) (use check in blast)
  have queued: "\<not> rj_state job \<noteq> QUEUED" using True by simp
  show ?thesis
    unfolding ensure_active_job_capacity_def if_not_P [OF queued]
    by (rule runs_mget, unfold Let_def case_prod_unfold, rule attempt)
next
  case False
  then show ?thesis unfolding ensure_active_job_capacity_def by (auto intro: runs_mret Q)
qed

lemma runs_admit:
  assumes calls: "calls_ok calls" and tidy: "tidy \<sigma>" and P: "P \<sigma>" and Q: "Q () \<sigma>"
  shows "runs P \<sigma> (admit_submission calls job) Q"
  unfolding admit_submission_def
  by (rule runs_mget, rule runs_mbind, rule runs_qlift, use calls in \<open>simp add: calls_ok_def\<close>, rule runs_mbind, rule runs_qlift,
      use calls in \<open>simp add: calls_ok_def\<close>, rule runs_capacity [OF tidy], rule P, rule Q)

section \<open>One attempt\<close>

text \<open>
  What a job submitted under the key carries: it passes the checks of a submission, and its payload
  digest does not depend on the identifier the queue gives it.
\<close>

definition submits ::
  "'x submit_calls \<Rightarrow> string \<Rightarrow> string \<Rightarrow> StorageReservationEstimate option \<Rightarrow> RelayJob \<Rightarrow> bool" where
  "submits calls key d r job \<longleftrightarrow> rj_storage_reservation job = r \<and> durable_id (rj_job_id job) \<and> rj_state job = QUEUED \<and> rj_idempotency_key job = key
     \<and> validate_new_owner_session_metadata (rj_metadata job) = Inr ()
     \<and> (\<forall>k. durable_id k \<longrightarrow> (\<exists>j. bind_submission calls (job\<lparr>rj_job_id := k\<rparr>) = Inr (j, d)))"

lemma prepared_fields:
  assumes "prepare_owned_jarvis_run_submission j = Inr j'"
  shows "rj_job_id j' = rj_job_id j \<and> rj_state j' = rj_state j \<and> rj_idempotency_key j' = rj_idempotency_key j
    \<and> rj_storage_reservation j' = rj_storage_reservation j"
proof (cases "is_owned_jarvis_run_spec (rj_kind j) (rj_spec j)")
  case True
  then obtain s where s: "rj_spec j = McpCall s" by (blast dest: owned_McpCall)
  from prepare_owned_Inr [OF assms True [unfolded s] s refl] show ?thesis by simp
qed (use assms in \<open>simp add: prepare_owned_jarvis_run_submission_def\<close>)

lemma bound_fields:
  assumes "bind_submission calls job = Inr (j, d)"
  shows "rj_job_id j = rj_job_id job" "rj_state j = rj_state job" "rj_idempotency_key j = rj_idempotency_key job"
    "rj_submission_digest j = Some d" "rj_storage_reservation j = rj_storage_reservation job" "all_hex 64 d"
proof -
  obtain j' where j': "prepare_owned_jarvis_run_submission job = Inr j'" "d = job_idempotency_digest (sc_model_dump calls) j'"
    "j = j'\<lparr>rj_submission_digest := Some d\<rparr>"
    using assms by (auto simp: bind_submission_def rbind_eq_Inr Let_def check_def split: if_splits)
  show "all_hex 64 d" unfolding j'(2) job_idempotency_digest_def by (rule sha256_hexdigest_hex)
  show "rj_job_id j = rj_job_id job" "rj_state j = rj_state job" "rj_idempotency_key j = rj_idempotency_key job"
    "rj_submission_digest j = Some d" "rj_storage_reservation j = rj_storage_reservation job" using prepared_fields [OF j'(1)] j'(3) by simp_all
qed

lemma submits_bound:
  assumes "submits calls key d r job" "durable_id k"
  obtains J where "bind_submission calls (job\<lparr>rj_job_id := k\<rparr>) = Inr (J, d)" "all_hex 64 d"
    "\<And>u. su_id u = k \<Longrightarrow> su_key u = key \<Longrightarrow> su_digest u = d \<Longrightarrow> su_reservation u = r \<Longrightarrow> su_version u J"
proof -
  obtain J where J: "bind_submission calls (job\<lparr>rj_job_id := k\<rparr>) = Inr (J, d)" using assms by (auto simp: submits_def)
  from J bound_fields [OF J] assms(1) show thesis by (intro that [of J]) (auto simp: su_version_def submits_def)
qed

lemma at_stage_reserved:
  assumes ok: "submission_ok env L u" and J: "su_version u J" and d: "d = su_digest u"
  shows "at_stage u 0 False False None None ((su_base u)(key_cell (su_key u) \<mapsto> DocV (JObj (reserved_idempotency_record env J d now))))"
    (is "at_stage u 0 False False None None ?\<tau>")
proof -
  have new: "unused (su_base u) (su_pos u) (su_id u)" and acc: "accepting env L (su_pos u) (su_latest u) (su_base u)"
    using ok by (simp_all add: submission_ok_def)
  have keyed: "su_keyed u False ?\<tau>"
    using J by (simp add: su_keyed_def reserved_idempotency_record_def doc_get_def dict_get_def key_state_def su_version_def d)
  have "su_ordered u 0 False (su_base u)"
    unfolding su_ordered_def using acc by (intro exI [of _ "su_pos u"] exI [of _ "su_latest u"]) (simp add: accepting_def subset_insertI)
  then have "su_ordered u 0 False ?\<tau>" by (rule iffD2 [OF su_ordered_upd [OF order_cells_iff(2)]])
  moreover have "su_frame u ?\<tau>" by (rule su_frame_upd) (simp_all add: su_frame_def)
  moreover have "su_logged u None ?\<tau>" "su_job u None ?\<tau>" using new by (simp_all add: su_logged_def su_job_def unused_def log_files_def)
  moreover have "su_journal u None ?\<tau>" using acc by (simp add: su_journal_def accepting_def settled_def)
  ultimately show ?thesis using keyed by (simp add: at_stage_def)
qed

lemma runs_submit_new:
  fixes env :: "'x queue_env"
  assumes ok: "submission_ok env L u" and calls: "calls_ok calls" and job: "submits calls (su_key u) (su_digest u) (su_reservation u) job"
    and id: "rj_job_id job = su_id u" and bound: "su_latest u < 2 ^ 63 - 1"
    and P: "P (su_base u)" "\<And>jo \<rho>. staged u 1 jo \<rho> \<Longrightarrow> P \<rho>" and Q: "\<And>J \<rho>. completed u 1 J \<rho> \<Longrightarrow> Q J \<rho>"
  shows "runs P (su_base u) (submit_new env calls (idempotency_key_filename (su_key u)) job) Q"
proof -
  have acc: "accepting env L (su_pos u) (su_latest u) (su_base u)" and k: "durable_id (su_id u)"
    using ok by (simp_all add: submission_ok_def unused_def)
  note tidy = accepting_tidy [OF acc]
  have quiet: "quiet (su_base u)" using acc by (simp add: accepting_def settled_def quiet_def)
  obtain J where J: "bind_submission calls job = Inr (J, su_digest u)" "su_version u J"
    using submits_bound [OF job k] id by (metis RelayJob.surjective RelayJob.update_convs(1))
  have finish: "runs P ((su_base u)(key_cell (su_key u) \<mapsto> DocV (JObj (reserved_idempotency_record env J (su_digest u) now))))
      (finish_submission env calls (idempotency_key_filename (su_key u)) J (su_digest u)) Q" for now
    by (rule runs_finish [OF ok calls J(2) refl at_stage_reserved [OF ok J(2) refl]])
       (use quiet bound P(2) Q in \<open>auto simp: quiet_def\<close>)
  show ?thesis
    unfolding submit_new_def
    by (rule runs_mbind, rule runs_qlift, rule J(1), unfold prod.case, rule runs_mget, rule runs_mbind, rule runs_qlift,
        use calls in \<open>simp add: calls_ok_def\<close>, rule runs_mbind, rule runs_admit [OF calls tidy], rule P(1), rule runs_mbind,
        rule runs_utc_now, rule runs_mbind, rule runs_write_document, rule P(1), rule finish)
qed

lemma runs_resubmit:
  fixes env :: "'x queue_env"
  assumes ok: "submission_ok env L u" and calls: "calls_ok calls" and job: "submits calls (su_key u) (su_digest u) (su_reservation u) job"
    and st: "at_stage u n st b lg jo \<tau>" "quiet \<tau>" and bound: "su_latest u + int n < 2 ^ 63 - 1"
    and P: "\<And>jo' \<rho>. staged u (Suc n) jo' \<rho> \<Longrightarrow> jo \<noteq> None \<longrightarrow> jo' = jo \<Longrightarrow> P \<rho>"
    and Q: "\<And>J \<rho>. completed u (Suc n) J \<rho> \<Longrightarrow> jo \<in> {None, Some J} \<Longrightarrow> Q J \<rho>"
    and doc: "\<tau> (key_cell (su_key u)) = Some (DocV (JObj existing))"
  shows "runs P \<tau> (resubmit env calls (idempotency_key_filename (su_key u)) existing job) Q"
proof -
  have k: "durable_id (su_id u)" and hex: "all_hex 64 (su_digest u)" using ok by (simp_all add: submission_ok_def unused_def)
  have fields: "doc_get existing ''state'' = JStr (key_state st)" "doc_get existing ''job_id'' = JStr (su_id u)"
    "doc_get existing ''idempotency_key'' = JStr (su_key u)" "doc_get existing ''job_digest'' = JStr (su_digest u)"
    using st(1) doc by (auto simp: at_stage_def su_keyed_def)
  obtain J where J: "bind_submission calls (job\<lparr>rj_job_id := su_id u\<rparr>) = Inr (J, su_digest u)" "su_version u J"
    using submits_bound [OF job k] by metis
  have valid: "idempotency_record_ok existing j" if "rj_idempotency_key j = su_key u" for j
    unfolding idempotency_record_ok_def fields that using k by (simp add: key_state_def)
  have keys: "rj_idempotency_key job = su_key u" "rj_idempotency_key J = su_key u" using job J(2) by (simp_all add: submits_def su_version_def)
  have here: "P \<tau>" by (rule P [OF stagedI [OF at_stage_mono [OF st(1)]]]) simp_all
  have digest: "\<not> (JStr (su_digest u) = JNull \<and> JStr (key_state st) = JStr ''reserved'')" "is_sha256_digest (JStr (su_digest u))"
    "\<not> JStr (key_state st) = JStr ''retired''" using hex by (simp_all add: is_sha256_digest_def key_state_def)
  have J': "J\<lparr>rj_job_id := su_id u\<rparr> = J" using J(2) by (simp add: su_version_def)
  have rest: "runs P \<tau> (mbind (read_optional_job (su_id u)) (\<lambda>found. case found of
         Some existing_job \<Rightarrow>
           mbind (qcheck (\<not> (rj_idempotency_key existing_job \<noteq> rj_idempotency_key J
                     \<or> rj_submission_digest existing_job \<noteq> None \<and> rj_submission_digest existing_job \<noteq> Some (su_digest u))) e1) (\<lambda>_.
           resume_existing env calls (idempotency_key_filename (su_key u)) (JStr (key_state st)) existing_job (su_digest u))
       | None \<Rightarrow> mbind (qcheck (JStr (key_state st) = JStr ''reserved'') e2) (\<lambda>_.
           mbind (admit_submission calls J) (\<lambda>_.
           finish_submission env calls (idempotency_key_filename (su_key u)) (J\<lparr>rj_job_id := su_id u\<rparr>) (su_digest u))))) Q" for e1 e2
  proof (cases jo)
    case None
    note st' = st(1) [unfolded None]
    have reserved: "JStr (key_state st) = JStr ''reserved''" using st' by (auto simp: at_stage_def key_state_def)
    have finish: "runs P \<tau> (finish_submission env calls (idempotency_key_filename (su_key u)) J (su_digest u)) Q"
      by (rule runs_finish [OF ok calls J(2) refl st' st(2) bound]) (use P Q None in auto)
    show ?thesis
      unfolding J'
      by (rule runs_mbind, rule runs_read_job [where r = None], simp add: stage_no_job [OF st'], simp, unfold option.case,
          rule runs_mbind, rule runs_mcheck, rule reserved, rule runs_mbind, rule runs_admit [OF calls stage_tidy [OF ok st']],
          rule here, rule finish)
  next
    case (Some E)
    note st' = st(1) [unfolded Some]
    have E: "\<tau> (JobCell (su_id u)) = map_option JobV (Some E)" "rj_job_id E = su_id u"
      "\<not> (rj_idempotency_key E \<noteq> rj_idempotency_key J
          \<or> rj_submission_digest E \<noteq> None \<and> rj_submission_digest E \<noteq> Some (su_digest u))"
      using stage_version [OF st'] keys by (simp_all add: su_version_def)
    have resume: "runs P \<tau> (resume_existing env calls (idempotency_key_filename (su_key u)) (JStr (key_state st)) E (su_digest u)) Q"
      by (rule runs_resume [OF ok calls refl refl st' st(2) bound]) (use P Q Some in auto)
    show ?thesis
      by (rule runs_mbind, rule runs_read_job, rule E(1), use E(2) k in simp, unfold option.case,
          rule runs_mbind, rule runs_mcheck, rule E(3), rule resume)
  qed
  have id: "the (as_str (JStr (su_id u))) = su_id u" by simp
  show ?thesis
    unfolding resubmit_def Let_def fields id if_not_P [OF digest(1)] if_not_P [OF digest(3)]
    by (rule runs_mbind, rule runs_mcheck, rule valid, rule keys(1), rule runs_mbind, rule runs_qlift, rule J(1), unfold prod.case,
        rule runs_mbind, rule runs_mcheck, rule valid, rule keys(2), rule runs_mbind, rule runs_mbind, rule runs_mcheck,
        rule digest(2), rule runs_mret, rule runs_mbind, rule runs_mcheck, rule refl, rule rest)
qed

lemma runs_submission_opening:
  fixes env :: "'x queue_env"
  assumes env: "env_ok env" and job: "submits calls key d r job" and P: "P \<tau>"
    and replay: "runs P \<tau> (reconcile_transition_intents env) (\<lambda>_ \<rho>. runs P \<rho> (m (idempotency_key_filename key)) Q)"
  shows "runs P \<tau> (mbind (qlift (require_durable_record_id (rj_job_id job) ''job_id'')) (\<lambda>_.
     mbind (qlift (validate_new_owner_session_metadata (rj_metadata job))) (\<lambda>_.
     mbind (initialize_queue env) (\<lambda>_. mbind (require_index_migration_complete env) (\<lambda>_.
     mbind (reconcile_transition_intents env) (\<lambda>_. m (idempotency_key_filename (rj_idempotency_key job)))))))) Q"
proof -
  have ok: "durable_id (rj_job_id job)" "validate_new_owner_session_metadata (rj_metadata job) = Inr ()"
    "rj_idempotency_key job = key" using job by (simp_all add: submits_def)
  have migrated: "qe_require_migrated env x = Inr ()" for x using env by (simp add: env_ok_def)
  show ?thesis
    unfolding initialize_queue_def require_index_migration_complete_def ok(3)
    by (rule runs_mbind, rule runs_qlift, rule require_durable_id [OF ok(1)], rule runs_mbind, rule runs_qlift, rule ok(2),
        rule runs_mbind, rule runs_on_other, rule P, rule env_steps(1) [OF env], rule runs_mbind, rule runs_mget, rule runs_qlift,
        rule migrated, rule runs_mbind, rule replay)
qed

text \<open>
  Attempts under one key may carry different identifiers \<open>K\<close>. Before one of them reserves the key the
  store is the one they started from; afterwards it is at a stage of the reserved identifier.
\<close>

definition underway :: "submission \<Rightarrow> string set \<Rightarrow> nat \<Rightarrow> RelayJob option \<Rightarrow> content \<Rightarrow> bool" where
  "underway u K n jo \<tau> \<longleftrightarrow> \<tau> = su_base u \<and> jo = None \<or> (\<exists>k \<in> K. staged (u\<lparr>su_id := k\<rparr>) n jo \<tau>)"

definition finished :: "submission \<Rightarrow> string set \<Rightarrow> nat \<Rightarrow> RelayJob \<Rightarrow> content \<Rightarrow> bool" where
  "finished u K n J \<tau> \<longleftrightarrow> (\<exists>k \<in> K. completed (u\<lparr>su_id := k\<rparr>) n J \<tau>)"

lemma completed_mono: "completed u n J \<tau> \<Longrightarrow> n \<le> m \<Longrightarrow> completed u m J \<tau>"
  unfolding completed_def using at_stage_mono by blast

lemma finished_underway: "finished u K n J \<tau> \<Longrightarrow> underway u K n (Some J) \<tau>"
  unfolding finished_def completed_def underway_def using stagedI by blast

lemma runs_attempt:
  fixes env :: "'x queue_env"
  assumes ok: "\<And>k. k \<in> K \<Longrightarrow> submission_ok env L (u\<lparr>su_id := k\<rparr>)" and calls: "calls_ok calls"
    and new: "su_base u (key_cell (su_key u)) = None" and job: "submits calls (su_key u) (su_digest u) (su_reservation u) job" "rj_job_id job \<in> K"
    and \<tau>: "underway u K n jo \<tau>" and bound: "su_latest u + int n < 2 ^ 63 - 1"
  shows "runs (\<lambda>\<rho>. \<exists>jo'. underway u K (Suc n) jo' \<rho> \<and> (jo \<noteq> None \<longrightarrow> jo' = jo)) \<tau> (submit_job env calls job)
    (\<lambda>J \<rho>. finished u K (Suc n) J \<rho> \<and> jo \<in> {None, Some J})" (is "runs ?P _ _ ?Q")
proof -
  let ?key = "idempotency_key_filename (su_key u)"
  have env: "env_ok env" using ok [OF job(2)] by (simp add: submission_ok_def)
  have P: "?P \<rho>" if "k \<in> K" "staged (u\<lparr>su_id := k\<rparr>) m jo' \<rho>" "m \<le> Suc n" "jo \<noteq> None \<longrightarrow> jo' = jo" for k m jo' \<rho>
    using that staged_mono unfolding underway_def by blast
  have Q: "?Q J \<rho>" if "k \<in> K" "completed (u\<lparr>su_id := k\<rparr>) m J \<rho>" "m \<le> Suc n" "jo \<in> {None, Some J}" for k m J \<rho>
    using that completed_mono unfolding finished_def by blast
  consider (start) "\<tau> = su_base u" "jo = None" | (stage) k st b lg where "k \<in> K" "at_stage (u\<lparr>su_id := k\<rparr>) n st b lg jo \<tau>"
    using \<tau> by (auto simp: underway_def staged_def)
  then show ?thesis
  proof cases
    case start
    let ?u = "u\<lparr>su_id := rj_job_id job\<rparr>"
    note ok' = ok [OF job(2)]
    have none: "\<tau> (IntentCell m) = None" for m using ok' start by (simp add: submission_ok_def accepting_def settled_def)
    have here: "?P \<tau>" using start by (auto simp: underway_def)
    have submit: "runs ?P \<tau> (submit_new env calls ?key job) ?Q"
      using runs_submit_new [OF ok' calls, of job ?P ?Q] job bound P [OF job(2)] Q [OF job(2)] here start by simp
    have read: "\<tau> (key_cell (su_key u)) = map_option DocV None" using new start by simp
    show ?thesis
      unfolding submit_job_def Let_def
      by (rule runs_submission_opening [OF env job(1)], rule here, rule runs_replay_none, rule none, rule runs_mbind,
          rule runs_read_document, rule read, unfold option.case, rule submit)
  next
    case stage
    let ?u = "u\<lparr>su_id := k\<rparr>"
    note ok' = ok [OF stage(1)]
    have rest: "runs ?P \<rho> (mbind (read_document ''idempotency'' ?key) (\<lambda>raw. case raw of
         None \<Rightarrow> submit_new env calls ?key job
       | Some document \<Rightarrow> (case as_obj document of
              None \<Rightarrow> conflict (''idempotency record is not an object: '' @ record_path ''idempotency'' ?key)
            | Some existing \<Rightarrow> resubmit env calls ?key existing job))) ?Q"
      if \<rho>: "at_stage ?u n st b lg jo \<rho>" "quiet \<rho>" for \<rho>
    proof -
      obtain existing where doc: "\<rho> (key_cell (su_key u)) = map_option DocV (Some (JObj existing))"
        using \<rho>(1) by (auto simp: at_stage_def su_keyed_def)
      have "runs ?P \<rho> (resubmit env calls ?key existing job) ?Q"
        using runs_resubmit [OF ok' calls _ \<rho>, of job ?P ?Q existing] job(1) bound P [OF stage(1)] Q [OF stage(1)] doc by auto
      then show ?thesis
        by (rule_tac runs_mbind, rule_tac runs_read_document, rule_tac doc) (simp only: option.case as_obj.simps)
    qed
    have here: "?P \<rho>" if "at_stage ?u n st b lg jo \<rho>" for \<rho> by (rule P [OF stage(1) stagedI [OF that]]) simp_all
    show ?thesis
      unfolding submit_job_def Let_def
      by (rule runs_submission_opening [OF env job(1)], rule here [OF stage(2)], rule runs_stage_reconcile [OF ok' stage(2)],
          erule here, rule rest)
  qed
qed

section \<open>Exactly once\<close>

text \<open>
  A client that repeats its submission: each attempt is a process that may stop after a number of
  durable steps, and the next one follows whatever became of it.
\<close>

fun submit_all ::
  "'x queue_env \<Rightarrow> 'x submit_calls \<Rightarrow> (nat option \<times> RelayJob) list \<Rightarrow> 'x queue_state
     \<Rightarrow> (queue_exn + RelayJob) list \<times> 'x queue_state" where
  "submit_all env calls [] s = ([], s)"
| "submit_all env calls ((budget, job) # attempts) s =
     (let (r, s') = submit_job env calls job (s\<lparr>qs_budget := budget\<rparr>); (rs, s'') = submit_all env calls attempts s' in (r # rs, s''))"

lemma submit_all_length: "submit_all env calls attempts s = (rs, s') \<Longrightarrow> length rs = length attempts"
  by (induction attempts arbitrary: s rs) (auto split: prod.splits)

definition submitted ::
  "'x queue_env \<Rightarrow> LeaseIndexIdentity set \<Rightarrow> content \<Rightarrow> (string \<rightharpoonup> int) \<Rightarrow> string \<Rightarrow> string \<Rightarrow> RelayJob \<Rightarrow> content \<Rightarrow> bool" where
  "submitted env L \<sigma> pos key d J \<tau> \<longleftrightarrow> settled env L {} \<tau>
     \<and> rj_state J = QUEUED \<and> rj_idempotency_key J = key \<and> rj_submission_digest J = Some d
     \<and> (\<forall>k. \<tau> (JobCell k) = (if k = rj_job_id J then Some (JobV J) else \<sigma> (JobCell k)))
     \<and> (\<exists>pos' latest'. order_ok ''jobs'' pos' latest' \<tau> \<and> pos \<subseteq>\<^sub>m pos' \<and> dom pos' = insert (rj_job_id J) (dom pos))
     \<and> (\<exists>doc. \<tau> (key_cell key) = Some (DocV (JObj doc)) \<and> doc_get doc ''state'' = JStr ''committed''
          \<and> doc_get doc ''job_id'' = JStr (rj_job_id J) \<and> doc_get doc ''job_digest'' = JStr d)
     \<and> (\<exists>e. event_log 1 \<tau> (rj_job_id J) [e] \<and> re_event_type e = ''job.queued'')"

lemma completed_submitted:
  assumes ok: "submission_ok env L u" and done_: "completed u n J \<tau>"
  shows "submitted env L (su_base u) (su_pos u) (su_key u) (su_digest u) J \<tau>" "rj_job_id J = su_id u"
proof -
  obtain e where st: "at_stage u n True True (Some [e]) (Some J) \<tau>" and quiet: "quiet \<tau>" using done_ by (auto simp: completed_def)
  have v: "su_version u J" "\<tau> (JobCell (su_id u)) = Some (JobV J)" using stage_version [OF st] by simp_all
  then show id: "rj_job_id J = su_id u" by (simp add: su_version_def)
  have base: "settled env L {} (su_base u)" and k: "durable_id (su_id u)"
    using ok by (simp_all add: submission_ok_def accepting_def unused_def)
  have same: "\<tau> (LeaseCell x) = su_base u (LeaseCell x)" "\<tau> (JobLeaseCell xx) = su_base u (JobLeaseCell xx)"
    "\<tau> (IndexCell p) = su_base u (IndexCell p)" "\<tau> AggregateCell = su_base u AggregateCell"
    "\<tau> CheckpointCell = su_base u CheckpointCell" for x xx p
    using st by (auto simp: at_stage_def su_frame_def su_touched_def order_cells_def)
  have others: "\<tau> (JobCell k') = su_base u (JobCell k') \<and> \<tau> (ActiveCell k') = su_base u (ActiveCell k')
      \<and> \<tau> (QueuedCell k') = su_base u (QueuedCell k')" if "k' \<noteq> su_id u" for k'
    using st that by (auto simp: at_stage_def su_frame_def su_touched_def order_cells_def)
  have "synced \<tau> J" using st quiet v(1) by (simp add: at_stage_def su_journal_def quiet_def synced_def id su_version_def not_terminal_queued)
  then have "jobs_ok {} \<tau>" by (intro jobs_ok_upd [of "{}" "su_base u" \<tau> "su_id u" J]) (use base v id k others in \<open>auto simp: settled_def\<close>)
  moreover have "records_ok L \<tau>"
  proof -
    have recs: "records_ok L (su_base u)" and absent: "su_base u (JobCell (su_id u)) = None"
      using base ok by (simp_all add: settled_def submission_ok_def unused_def)
    then have "\<tau> (JobCell (li_job_id i)) = su_base u (JobCell (li_job_id i))" if "i \<in> L" for i
      using others [of "li_job_id i"] that by (cases "li_job_id i = su_id u") (auto simp: records_ok_def)
    with recs show ?thesis by (simp add: records_ok_def same)
  qed
  ultimately have "settled env L {} \<tau>"
    using base quiet by (simp add: settled_def files_ok_def capacity_ok_def same quiet_def)
  moreover have "\<exists>pos' latest'. order_ok ''jobs'' pos' latest' \<tau> \<and> su_pos u \<subseteq>\<^sub>m pos' \<and> dom pos' = insert (su_id u) (dom (su_pos u))"
  proof -
    obtain pos' latest' where "order_ok ''jobs'' pos' latest' \<tau>" and le: "su_pos u \<subseteq>\<^sub>m pos'"
      and d: "dom pos' \<subseteq> insert (su_id u) (dom (su_pos u))" "su_id u \<in> dom pos'" using st by (auto simp: at_stage_def su_ordered_def)
    moreover have "dom pos' = insert (su_id u) (dom (su_pos u))" using d map_le_implies_dom_le [OF le] by blast
    ultimately show ?thesis by blast
  qed
  moreover have "\<tau> (JobCell k') = (if k' = su_id u then Some (JobV J) else su_base u (JobCell k'))" for k' using others v by simp
  ultimately show "submitted env L (su_base u) (su_pos u) (su_key u) (su_digest u) J \<tau>"
    using st v(1) unfolding submitted_def id by (auto simp: at_stage_def su_version_def su_keyed_def su_logged_def key_state_def)
qed

lemma submit_all_underway:
  fixes env :: "'x queue_env"
  assumes ok: "\<And>k. k \<in> K \<Longrightarrow> submission_ok env L (u\<lparr>su_id := k\<rparr>)" and calls: "calls_ok calls"
    and new: "su_base u (key_cell (su_key u)) = None"
    and "\<forall>(b, job) \<in> set attempts. submits calls (su_key u) (su_digest u) (su_reservation u) job \<and> rj_job_id job \<in> K"
    and "wf_store s" "underway u K n jo (cells s)" "su_latest u + int (n + length attempts) < 2 ^ 63"
    and "submit_all env calls attempts s = (rs, s')"
  shows "wf_store s' \<and> (\<exists>jo'. underway u K (n + length attempts) jo' (cells s') \<and> (jo \<noteq> None \<longrightarrow> jo' = jo)
    \<and> set rs \<subseteq> insert (Inl Crashed) (Inr ` set_option jo')
    \<and> (attempts \<noteq> [] \<and> fst (last attempts) = None
       \<longrightarrow> (\<exists>J. jo' = Some J \<and> last rs = Inr J \<and> finished u K (n + length attempts) J (cells s'))))"
  using assms(4-)
proof (induction attempts arbitrary: s n jo rs)
  case Nil
  then show ?case by auto
next
  case (Cons a attempts)
  obtain b job where a: "a = (b, job)" by fastforce
  obtain r s1 rs1 where one: "submit_job env calls job (s\<lparr>qs_budget := b\<rparr>) = (r, s1)"
    and rest: "submit_all env calls attempts s1 = (rs1, s')" and rs: "rs = r # rs1"
    using Cons.prems(5) by (auto simp: a split: prod.splits)
  have job: "submits calls (su_key u) (su_digest u) (su_reservation u) job" "rj_job_id job \<in> K" using Cons.prems(1) by (auto simp: a)
  have h: "holds (cells s) (s\<lparr>qs_budget := b\<rparr>)" using Cons.prems(2) by (simp add: holds_def wf_store_def)
  have "su_latest u + int n < 2 ^ 63 - 1" using Cons.prems(4) by simp
  note run = runs_outcome [OF runs_attempt [OF ok calls new job Cons.prems(3) this] h one]
  then obtain jo1 where jo1: "wf_store s1" "underway u K (Suc n) jo1 (cells s1)" "jo \<noteq> None \<longrightarrow> jo1 = jo"
    "r = Inl Crashed \<and> b \<noteq> None \<or> (\<exists>J. r = Inr J \<and> jo1 = Some J \<and> finished u K (Suc n) J (cells s1))"
    using finished_underway by fastforce
  have IH: "wf_store s' \<and> (\<exists>jo'. underway u K (Suc n + length attempts) jo' (cells s') \<and> (jo1 \<noteq> None \<longrightarrow> jo' = jo1)
    \<and> set rs1 \<subseteq> insert (Inl Crashed) (Inr ` set_option jo')
    \<and> (attempts \<noteq> [] \<and> fst (last attempts) = None
       \<longrightarrow> (\<exists>J. jo' = Some J \<and> last rs1 = Inr J \<and> finished u K (Suc n + length attempts) J (cells s'))))"
    by (rule Cons.IH [OF _ jo1(1,2) _ rest]) (use Cons.prems in auto)
  note len = submit_all_length [OF rest]
  show ?case
  proof (cases "attempts = []")
    case True
    then show ?thesis using IH jo1 rest by (auto simp: rs a)
  next
    case False
    then show ?thesis using IH jo1 len by (auto simp: rs a)
  qed
qed

text \<open>
  C1: submission is exactly-once. From a settled store that does not know the idempotency key, let a
  client submit the same payload under that key any number of times, each time with a fresh
  identifier of its own and each time possibly stopped after any number of durable steps, and let
  the last attempt run to its end. Then that attempt succeeds and every attempt that returned, however
  many there were, returned the very same job; the store is settled again and holds that one new
  job, queued, every other job untouched, with the one number the submission order gained, the key
  committed to it and exactly one \<^verbatim>\<open>job.queued\<close> event.
\<close>

theorem submission_exactly_once:
  fixes env :: "'x queue_env"
  assumes env: "env_ok env" and calls: "calls_ok calls" and h: "holds \<sigma> s" and acc: "accepting env L pos latest \<sigma>"
    and new: "\<sigma> (key_cell key) = None" and bound: "latest + int (length attempts) < 2 ^ 63"
    and jobs: "\<forall>(b, job) \<in> set attempts. submits calls key d r job \<and> unused \<sigma> pos (rj_job_id job)"
    and last: "attempts \<noteq> []" "fst (last attempts) = None"
    and run: "submit_all env calls attempts s = (rs, s')"
  shows "\<exists>J. last rs = Inr J \<and> set rs \<subseteq> {Inl Crashed, Inr J} \<and> rj_job_id J \<in> rj_job_id ` snd ` set attempts
    \<and> submitted env L \<sigma> pos key d J (cells s')"
proof -
  let ?K = "rj_job_id ` snd ` set attempts"
  let ?u = "\<lparr>su_base = \<sigma>, su_id = [], su_key = key, su_digest = d, su_reservation = r, su_pos = pos, su_latest = latest\<rparr>"
  obtain job where "submits calls key d r job" using last(1) jobs by (cases attempts) auto
  then have hex: "all_hex 64 d" using submits_bound [of calls key d r job "rj_job_id job"] by (auto simp: submits_def)
  have ok: "submission_ok env L (?u\<lparr>su_id := k\<rparr>)" if "k \<in> ?K" for k
    using that env acc jobs hex by (auto simp: submission_ok_def)
  have "underway ?u ?K 0 None (cells s)" using h by (simp add: underway_def holds_def)
  moreover have "wf_store s" using h by (simp add: holds_def)
  moreover have "\<forall>(b, job) \<in> set attempts. submits calls (su_key ?u) (su_digest ?u) (su_reservation ?u) job \<and> rj_job_id job \<in> ?K" using jobs by force
  moreover have "su_base ?u (key_cell (su_key ?u)) = None" "su_latest ?u + int (0 + length attempts) < 2 ^ 63" using new bound by simp_all
  ultimately have "wf_store s' \<and> (\<exists>jo'. underway ?u ?K (0 + length attempts) jo' (cells s') \<and> (None \<noteq> None \<longrightarrow> jo' = None)
    \<and> set rs \<subseteq> insert (Inl Crashed) (Inr ` set_option jo')
    \<and> (attempts \<noteq> [] \<and> fst (last attempts) = None
       \<longrightarrow> (\<exists>J. jo' = Some J \<and> last rs = Inr J \<and> finished ?u ?K (0 + length attempts) J (cells s'))))"
    using submit_all_underway [of ?K env L ?u calls attempts s 0 None rs s', OF ok calls _ _ _ _ _ run] by blast
  with last obtain J where J: "last rs = Inr J" "set rs \<subseteq> {Inl Crashed, Inr J}" "finished ?u ?K (length attempts) J (cells s')" by auto
  then obtain k where k: "k \<in> ?K" and "completed (?u\<lparr>su_id := k\<rparr>) (length attempts) J (cells s')" by (auto simp: finished_def)
  from completed_submitted [OF ok [OF k] this(2)] have "submitted env L \<sigma> pos key d J (cells s')" "rj_job_id J = k" by simp_all
  with J k show ?thesis by blast
qed

lemma demo_submits:
  assumes "bind_submission demo_calls demo_owned_job = Inr (j, d)" "durable_id k"
  shows "submits demo_calls ''k'' d None (demo_owned_job\<lparr>rj_job_id := k\<rparr>)"
proof -
  have "\<exists>j'. bind_submission demo_calls (demo_owned_job\<lparr>rj_job_id := i\<rparr>) = Inr (j', d)" for i
  proof -
    have "regenerated demo_owned_job (demo_owned_job\<lparr>rj_job_id := i\<rparr>)" by (simp add: regenerated_def)
    from digest_regenerated [OF demo_dump assms(1) this demo_arguments] show ?thesis by (auto simp: demo_owned_job_def)
  qed
  then show ?thesis using assms(2)
    by (simp add: submits_def) (simp add: demo_owned_job_def validate_new_owner_session_metadata_def
        validate_owner_session_identity_metadata_def owner_session_identity_def doc_get_def dict_get_def)
qed

text \<open>Three attempts under different identifiers, the first two interrupted.\<close>

theorem submission_exactly_once_witness:
  "\<exists>p d rs s' J. submit_all demo_env demo_calls [(Some 3, demo_owned_job\<lparr>rj_job_id := ''job_b''\<rparr>),
       (Some 6, demo_owned_job\<lparr>rj_job_id := ''job_c''\<rparr>), (None, demo_owned_job\<lparr>rj_job_id := ''job_d''\<rparr>)] (demo_state p None) = (rs, s')
     \<and> last rs = Inr J \<and> submitted demo_env {} (cells (demo_state p None)) Map.empty ''k'' d J (cells s')"
proof -
  obtain p where p: "bound_pair p" "ca_cluster_kind_counts (cp_aggregate p) = []" using empty_pair by auto
  let ?s = "demo_state p None"
  let ?attempts = "[(Some 3, demo_owned_job\<lparr>rj_job_id := ''job_b''\<rparr>), (Some 6, demo_owned_job\<lparr>rj_job_id := ''job_c''\<rparr>),
    (None, demo_owned_job\<lparr>rj_job_id := ''job_d''\<rparr>)]"
  obtain j d where j: "bind_submission demo_calls demo_owned_job = Inr (j, d)" using demo_bound by blast
  have ids: "durable_id ''job_b''" "durable_id ''job_c''" "durable_id ''job_d''" by code_simp+
  have active: "{k. cells ?s (ActiveCell k) \<noteq> None} = {''job_a''}" by (auto simp: demo_state_def split: if_splits)
  have "accepting demo_env {} Map.empty 0 (cells ?s)"
    unfolding accepting_def active
    using demo_settled [OF p] empty_order
    by (auto simp: well_named_def demo_state_def MAX_ACTIVE_JOB_RECORDS_def demo_owned_job_def split: if_splits)
  moreover have "\<forall>(b, job) \<in> set ?attempts. submits demo_calls ''k'' d None job \<and> unused (cells ?s) Map.empty (rj_job_id job)"
    using demo_submits [OF j] ids by (simp add: unused_def demo_state_def)
  moreover have "calls_ok demo_calls" by (simp add: calls_ok_def demo_calls_def mret_def)
  moreover have "cells ?s (key_cell ''k'') = None" by (simp add: demo_state_def)
  moreover obtain rs s' where run: "submit_all demo_env demo_calls ?attempts ?s = (rs, s')" by fastforce
  ultimately obtain J where "last rs = Inr J" "submitted demo_env {} (cells ?s) Map.empty ''k'' d J (cells s')"
    using submission_exactly_once [OF demo_queue_env_ok _ demo_state_wf, of demo_calls "{}" Map.empty 0 p None "''k''" ?attempts d None rs s']
    by (auto simp del: submit_all.simps)
  with run show ?thesis by blast
qed

end
