(* ===== verification/ManagedQueue.thy ===== *)
theory ManagedQueue
  imports StorageRuntime JobSubmission
begin

text \<open>
  The storage-managed queue: \<^verbatim>\<open>storage_managed_queue.py\<close>, \<^verbatim>\<open>storage_managed_queue_admission.py\<close> and
  \<^verbatim>\<open>storage_managed_queue_leasing.py\<close>. It joins the storage runtime and the queue: a genuinely new job is
  reserved before it is admitted, and a job that became terminal gives its reservation back.

  Each call into the policy observes the machine anew, so the environment gives the storage
  environment and the admission lock's outcome by the number of the call. A crash ends the process
  and runs no handler; every other exception does.
\<close>

section \<open>Decisions as documents\<close>

fun StorageReason_value :: "StorageReason \<Rightarrow> string" where
  "StorageReason_value HEALTHY = ''healthy''"
| "StorageReason_value RESERVED = ''reserved''"
| "StorageReason_value RESERVATION_IDEMPOTENT = ''reservation_idempotent''"
| "StorageReason_value RESERVATION_RELEASED = ''reservation_released''"
| "StorageReason_value RESERVATION_ABSENT = ''reservation_absent''"
| "StorageReason_value RECONCILED = ''reconciled''"
| "StorageReason_value JOB_RESERVATION_EXCEEDED = ''job_reservation_exceeded''"
| "StorageReason_value INVALID_REQUEST = ''invalid_request''"
| "StorageReason_value RESERVATION_CONFLICT = ''reservation_conflict''"
| "StorageReason_value PER_JOB_LIMIT = ''per_job_limit''"
| "StorageReason_value CORE_HIGH_WATER = ''core_high_water''"
| "StorageReason_value SPOOL_HIGH_WATER = ''spool_high_water''"
| "StorageReason_value TOTAL_HIGH_WATER = ''total_high_water''"
| "StorageReason_value FILESYSTEM_FREE_RESERVE = ''filesystem_free_reserve''"
| "StorageReason_value LEDGER_MALFORMED = ''ledger_malformed''"
| "StorageReason_value LEDGER_OVERSIZED = ''ledger_oversized''"
| "StorageReason_value LEDGER_UNSAFE = ''ledger_unsafe''"
| "StorageReason_value LEDGER_CAPACITY = ''ledger_capacity''"
| "StorageReason_value LOCK_TIMEOUT = ''lock_timeout''"
| "StorageReason_value PERSISTENCE_FAILURE = ''persistence_failure''"
| "StorageReason_value SCAN_ROOT_INVALID = ''scan_root_invalid''"
| "StorageReason_value SCAN_UNSAFE_ENTRY = ''scan_unsafe_entry''"
| "StorageReason_value SCAN_CHANGED = ''scan_changed''"
| "StorageReason_value SCAN_IO_ERROR = ''scan_io_error''"
| "StorageReason_value SCAN_ENTRY_LIMIT = ''scan_entry_limit''"
| "StorageReason_value SCAN_DEPTH_LIMIT = ''scan_depth_limit''"
| "StorageReason_value SCAN_BYTE_LIMIT = ''scan_byte_limit''"
| "StorageReason_value FILESYSTEM_QUERY_FAILED = ''filesystem_query_failed''"

definition VolumeStatus_to_dict :: "VolumeStatus \<Rightarrow> json" where
  "VolumeStatus_to_dict v =
     JObj [(''volume_id'', JStr (vs_volume_id v)), (''storage_families'', JArr (map JStr (vs_storage_families v))),
           (''free_bytes'', JInt (vs_free_bytes v)), (''reserved_bytes'', JInt (vs_reserved_bytes v)),
           (''available_after_reservations_bytes'', JInt (vs_available_after_reservations_bytes v)),
           (''minimum_free_bytes'', JInt (vs_minimum_free_bytes v)), (''healthy'', JBool (VolumeStatus_healthy v))]"

text \<open>\<open>float_repr\<close> is Python's text of a float.\<close>

definition StorageLimits_to_dict :: "(rat \<Rightarrow> string) \<Rightarrow> StorageLimits \<Rightarrow> json" where
  "StorageLimits_to_dict float_repr l =
     JObj [(''core_high_water_bytes'', JInt (core_high_water_bytes l)),
           (''spool_high_water_bytes'', JInt (spool_high_water_bytes l)),
           (''total_high_water_bytes'', JInt (total_high_water_bytes l)),
           (''minimum_free_bytes'', JInt (minimum_free_bytes l)),
           (''max_job_reservation_bytes'', JInt (max_job_reservation_bytes l)),
           (''max_scan_entries'', JInt (max_scan_entries l)), (''max_scan_depth'', JInt (max_scan_depth l)),
           (''max_scan_accounted_bytes'', JInt (max_scan_accounted_bytes l)),
           (''max_ledger_bytes'', JInt (max_ledger_bytes l)), (''max_reservations'', JInt (max_reservations l)),
           (''lock_timeout_seconds'', JFloat (float_repr (lock_timeout_seconds l)))]"

definition StorageStatus_to_dict :: "(rat \<Rightarrow> string) \<Rightarrow> StorageStatus \<Rightarrow> json" where
  "StorageStatus_to_dict float_repr s =
     JObj [(''schema'', JStr ''clio-relay.storage-status.v1''), (''healthy'', JBool (ss_healthy s)),
           (''reason'', JStr (StorageReason_value (ss_reason s))), (''core'', TreeUsage_to_dict (ss_core s)),
           (''spool'', TreeUsage_to_dict (ss_spool s)), (''reserved_core_bytes'', JInt (ss_reserved_core_bytes s)),
           (''reserved_spool_bytes'', JInt (ss_reserved_spool_bytes s)),
           (''reserved_total_bytes'', JInt (ss_reserved_core_bytes s + ss_reserved_spool_bytes s)),
           (''reservation_count'', JInt (int (ss_reservation_count s))),
           (''ledger_generation'', JInt (ss_ledger_generation s)),
           (''volumes'', JArr (map VolumeStatus_to_dict (ss_volumes s))),
           (''limits'', StorageLimits_to_dict float_repr (ss_limits s))]"

definition StorageDecision_to_dict :: "(rat \<Rightarrow> string) \<Rightarrow> StorageDecision \<Rightarrow> (string \<times> json) list" where
  "StorageDecision_to_dict float_repr d =
     [(''schema'', JStr ''clio-relay.storage-decision.v1''), (''allowed'', JBool (sd_allowed d)),
      (''reason'', JStr (StorageReason_value (sd_reason d))), (''message'', JStr (sd_message d)),
      (''details'', JObj (sd_details d))]
     @ (case sd_status d of None \<Rightarrow> [] | Some s \<Rightarrow> [(''status'', StorageStatus_to_dict float_repr s)])"

section \<open>The managed store\<close>

record managed_env =
  me_config :: StorageRuntimeConfig
  me_storage :: "nat \<Rightarrow> storage_env"
  me_admission_lock :: "nat \<Rightarrow> StoragePolicyError option"
  me_float_repr :: "rat \<Rightarrow> string"

record 'x managed_state =
  mq_runtime :: runtime_state
  mq_queue :: "'x queue_state"
  mq_calls :: nat
  mq_closed :: bool

datatype managed_exn = RuntimeExn runtime_exn | QueueExn queue_exn

type_synonym ('x, 'a) managed_op = "('x managed_state, managed_exn, 'a) op"

definition on_runtime :: "'a runtime_op \<Rightarrow> ('x, 'a) managed_op" where
  "on_runtime m = (\<lambda>s. case m (mq_runtime s) of
       (Inl e, r) \<Rightarrow> (Inl (RuntimeExn e), s\<lparr>mq_runtime := r\<rparr>)
     | (Inr x, r) \<Rightarrow> (Inr x, s\<lparr>mq_runtime := r\<rparr>))"

definition on_queue :: "('x, 'a) queue_op \<Rightarrow> ('x, 'a) managed_op" where
  "on_queue m = (\<lambda>s. case m (mq_queue s) of
       (Inl e, q) \<Rightarrow> (Inl (QueueExn e), s\<lparr>mq_queue := q\<rparr>)
     | (Inr x, q) \<Rightarrow> (Inr x, s\<lparr>mq_queue := q\<rparr>))"

definition next_call :: "('x, nat) managed_op" where
  "next_call = (\<lambda>s. (Inr (mq_calls s), s\<lparr>mq_calls := Suc (mq_calls s)\<rparr>))"

abbreviation denied :: "StorageDecision \<Rightarrow> ('x, 'a) managed_op" where
  "denied d \<equiv> mraise (RuntimeExn (StorageAdmissionError d))"

definition policy_call :: "managed_env \<Rightarrow> (storage_env \<Rightarrow> 'a ledger_op) \<Rightarrow> ('x, 'a) managed_op" where
  "policy_call menv f = mbind next_call (\<lambda>n. on_runtime (on_ledger (f (me_storage menv n))))"

definition admission_lock :: "managed_env \<Rightarrow> ('x, 'a) managed_op \<Rightarrow> ('x, 'a) managed_op" where
  "admission_lock menv body = mbind next_call (\<lambda>n.
     case me_admission_lock menv n of
       None \<Rightarrow> body
     | Some e \<Rightarrow> mraise (RuntimeExn (LedgerExn (PolicyExn e))))"

definition policy_error_decision :: "StoragePolicyError \<Rightarrow> StorageDecision" where
  "policy_error_decision e = decision False (spe_reason e) (spe_message e) None (spe_details e)"

text \<open>\<^verbatim>\<open>except StoragePolicyError as exc: raise StorageAdmissionError(_policy_error_decision(exc))\<close>\<close>

definition as_admission_error :: "('x, 'a) managed_op \<Rightarrow> ('x, 'a) managed_op" where
  "as_admission_error m = (\<lambda>s. case m s of
       (Inl (RuntimeExn (LedgerExn (PolicyExn e))), s') \<Rightarrow> denied (policy_error_decision e) s'
     | r \<Rightarrow> r)"

text \<open>\<^verbatim>\<open>except BaseException: handler(); raise\<close>, which a process that dies never reaches.\<close>

definition on_failure :: "('x, 'a) managed_op \<Rightarrow> ('x, unit) managed_op \<Rightarrow> ('x, 'a) managed_op" where
  "on_failure m handler = (\<lambda>s. case m s of
       (Inl e, s') \<Rightarrow> if e = QueueExn Crashed then (Inl e, s') else mbind handler (\<lambda>_. mraise e) s'
     | r \<Rightarrow> r)"

text \<open>\<^verbatim>\<open>RelayError\<close>\<close>

fun relay_error :: "managed_exn \<Rightarrow> bool" where
  "relay_error (QueueExn (Raised (QueueConflictError _))) = True"
| "relay_error (QueueExn (Raised (ConfigurationError _))) = True"
| "relay_error (QueueExn (Raised (NotFoundError _))) = True"
| "relay_error (RuntimeExn (StorageAdmissionError _)) = True"
| "relay_error _ = False"

definition ignoring_relay_error :: "('x, unit) managed_op \<Rightarrow> ('x, unit) managed_op" where
  "ignoring_relay_error m = (\<lambda>s. case m s of
       (Inl e, s') \<Rightarrow> if relay_error e then (Inr (), s') else (Inl e, s')
     | r \<Rightarrow> r)"

text \<open>Public attributes of a closed queue raise.\<close>

definition guarded :: "('x, 'a) managed_op \<Rightarrow> ('x, 'a) managed_op" where
  "guarded m = mbind mget (\<lambda>s.
     if mq_closed s
     then mraise (QueueExn (Raised (ConfigurationError ''managed queue is closed and cannot perform operations'')))
     else m)"

definition close_managed :: "('x, unit) managed_op" where
  "close_managed = mupd (\<lambda>s. s\<lparr>mq_closed := True\<rparr>)"

section \<open>Reservations\<close>

definition release_reservation :: "managed_env \<Rightarrow> 'x queue_env \<Rightarrow> string \<Rightarrow> RelayJob option \<Rightarrow> ('x, unit) managed_op" where
  "release_reservation menv env job_id terminal_job =
     mbind (policy_call menv (\<lambda>e. release e job_id)) (\<lambda>decision.
       if sd_allowed decision then mret ()
       else mbind (on_runtime (block_new_intake decision)) (\<lambda>_.
         case terminal_job of
           None \<Rightarrow> denied decision
         | Some job \<Rightarrow> ignoring_relay_error (mbind (on_queue (append_event env (rj_job_id job)
               ''storage.reservation_release_failed'' ''Terminal job storage reservation could not be released''
               (StorageDecision_to_dict (me_float_repr menv) decision))) (\<lambda>_. mret ()))))"

definition release_failed_admission :: "managed_env \<Rightarrow> 'x queue_env \<Rightarrow> string \<Rightarrow> ('x, unit) managed_op" where
  "release_failed_admission menv env job_id = (\<lambda>s. case on_queue (get_job job_id) s of
       (Inl (QueueExn (Raised (NotFoundError _))), s') \<Rightarrow> release_reservation menv env job_id None s'
     | (Inl e, s') \<Rightarrow> (Inl e, s')
     | (Inr existing, s') \<Rightarrow>
         if terminal (rj_state existing) then release_reservation menv env job_id (Some existing) s' else (Inr (), s'))"

definition verify_existing_reservation :: "managed_env \<Rightarrow> 'x queue_env \<Rightarrow> RelayJob \<Rightarrow> ('x, RelayJob) managed_op" where
  "verify_existing_reservation menv env job =
     (if terminal (rj_state job)
      then mbind (release_reservation menv env (rj_job_id job) (Some job)) (\<lambda>_. mret job)
      else mbind (on_runtime (mlift (estimate (me_config menv) job))) (\<lambda>e.
        mbind (policy_call menv (\<lambda>se. verify_reservation se (rj_job_id job) (sre_core_bytes e) (sre_spool_bytes e))) (\<lambda>decision.
        if sd_allowed decision then mret job
        else mbind (on_runtime (block_new_intake decision)) (\<lambda>_. denied decision))))"

definition release_if_terminal :: "managed_env \<Rightarrow> 'x queue_env \<Rightarrow> RelayJob \<Rightarrow> ('x, unit) managed_op" where
  "release_if_terminal menv env saved =
     (if terminal (rj_state saved) then release_reservation menv env (rj_job_id saved) (Some saved) else mret ())"

section \<open>Admission\<close>

text \<open>
  The body of either admission lock in \<^verbatim>\<open>submit_job\<close>: the saved job of a known submission, or the job
  under its canonical identifier.
\<close>

definition resolve_admission ::
  "managed_env \<Rightarrow> 'x queue_env \<Rightarrow> 'x submit_calls \<Rightarrow> RelayJob \<Rightarrow> ('x, RelayJob + RelayJob) managed_op" where
  "resolve_admission menv env calls job =
     mbind (on_queue (resolve_idempotent_submission env calls job)) (\<lambda>resolution.
     let canonical = job\<lparr>rj_job_id := sr_canonical_job_id resolution\<rparr> in
     if sr_state resolution \<in> {''existing'', ''retired''}
     then mbind (on_queue (submit_job env calls canonical)) (\<lambda>saved.
          mbind (verify_existing_reservation menv env saved) (\<lambda>saved. mret (Inl saved)))
     else if sr_state resolution \<notin> {''new'', ''reserved''}
     then denied (denied_decision INVALID_REQUEST ''queue returned an unsupported idempotency resolution state''
            [(''state'', JStr (sr_state resolution))])
     else mret (Inr canonical))"

definition admit_reserved ::
  "managed_env \<Rightarrow> 'x queue_env \<Rightarrow> 'x submit_calls \<Rightarrow> RelayJob \<Rightarrow> ('x, RelayJob) managed_op" where
  "admit_reserved menv env calls canonical =
     mbind (on_failure (on_queue (submit_job env calls canonical))
              (release_failed_admission menv env (rj_job_id canonical))) (\<lambda>saved.
     if rj_job_id saved \<noteq> rj_job_id canonical
     then mbind (release_reservation menv env (rj_job_id canonical) None) (\<lambda>_.
          verify_existing_reservation menv env saved)
     else mbind (release_if_terminal menv env saved) (\<lambda>_. mret saved))"

definition reserve_and_admit ::
  "managed_env \<Rightarrow> 'x queue_env \<Rightarrow> 'x submit_calls \<Rightarrow> StorageReservationEstimate \<Rightarrow> StorageTreeSnapshot \<Rightarrow> RelayJob
     \<Rightarrow> ('x, RelayJob) managed_op" where
  "reserve_and_admit menv env calls e tree_snapshot canonical =
     mbind (on_runtime ensure_new_intake_allowed) (\<lambda>_.
     mbind (policy_call menv (\<lambda>se. reserve se (rj_job_id canonical) (sre_core_bytes e) (sre_spool_bytes e)
              (Some tree_snapshot))) (\<lambda>decision.
     if \<not> sd_allowed decision then denied decision
     else admit_reserved menv env calls canonical))"

definition managed_submit_job ::
  "managed_env \<Rightarrow> 'x queue_env \<Rightarrow> 'x submit_calls \<Rightarrow> RelayJob \<Rightarrow> ('x, RelayJob) managed_op" where
  "managed_submit_job menv env calls job = guarded (
     mbind (on_runtime (mlift (estimate (me_config menv) job))) (\<lambda>e.
     as_admission_error (
       mbind (admission_lock menv (resolve_admission menv env calls job)) (\<lambda>first.
       case first of
         Inl saved \<Rightarrow> mret saved
       | Inr _ \<Rightarrow>
           mbind (policy_call menv (\<lambda>se. mlift (capture_admission_snapshot se))) (\<lambda>tree_snapshot.
           admission_lock menv (
             mbind (resolve_admission menv env calls job) (\<lambda>second.
             case second of
               Inl saved \<Rightarrow> mret saved
             | Inr canonical \<Rightarrow> reserve_and_admit menv env calls e tree_snapshot canonical)))))))"

section \<open>Transitions, recovery and leasing\<close>

definition managed_update_job_state ::
  "managed_env \<Rightarrow> 'x queue_env \<Rightarrow> string \<Rightarrow> JobState \<Rightarrow> string option \<Rightarrow> string option \<Rightarrow> string option option
     \<Rightarrow> ('x, RelayJob) managed_op" where
  "managed_update_job_state menv env job_id state message error leased_by = guarded (
     mbind (on_queue (update_job_state env job_id state message error leased_by)) (\<lambda>saved.
     mbind (release_if_terminal menv env saved) (\<lambda>_. mret saved)))"

definition managed_cancel_job_if_active ::
  "managed_env \<Rightarrow> 'x queue_env \<Rightarrow> (RelayJob \<Rightarrow> timestamp \<Rightarrow> string \<Rightarrow> ('x, py_error, unit) op) \<Rightarrow> string \<Rightarrow> bool
     \<Rightarrow> JobState option \<Rightarrow> timestamp option \<Rightarrow> ('x, RelayJob \<times> bool) managed_op" where
  "managed_cancel_job_if_active menv env ensure_pending job_id cancel_scheduler expected_state expected_updated_at = guarded (
     mbind (on_queue (cancel_job_if_active env ensure_pending job_id cancel_scheduler expected_state expected_updated_at))
       (\<lambda>(saved, changed). mbind (release_if_terminal menv env saved) (\<lambda>_. mret (saved, changed))))"

definition managed_acknowledge_job_cancellation ::
  "managed_env \<Rightarrow> 'x queue_env \<Rightarrow> string \<Rightarrow> ('x, RelayJob) managed_op" where
  "managed_acknowledge_job_cancellation menv env job_id = guarded (
     mbind (on_queue (acknowledge_job_cancellation env job_id)) (\<lambda>saved.
     mbind (release_if_terminal menv env saved) (\<lambda>_. mret saved)))"

definition managed_recover_stale_jobs ::
  "managed_env \<Rightarrow> 'x queue_env \<Rightarrow> string \<Rightarrow> int \<Rightarrow> ('x, RelayJob list) managed_op" where
  "managed_recover_stale_jobs menv env cluster max_attempts = guarded (
     mbind (on_queue (recover_stale_jobs env cluster max_attempts)) (\<lambda>recovered.
     mbind (mseq (release_if_terminal menv env) recovered) (\<lambda>_. mret recovered)))"

definition managed_recover_stale_job ::
  "managed_env \<Rightarrow> 'x queue_env \<Rightarrow> string \<Rightarrow> string \<Rightarrow> int \<Rightarrow> ('x, RelayJob option) managed_op" where
  "managed_recover_stale_job menv env job_id cluster max_attempts = guarded (
     mbind (on_queue (recover_stale_job env job_id cluster max_attempts)) (\<lambda>recovered.
     mbind (case recovered of None \<Rightarrow> mret () | Some job \<Rightarrow> release_if_terminal menv env job) (\<lambda>_. mret recovered)))"

text \<open>
  \<^verbatim>\<open>_acquire_lock_with_replay\<close>: the journal is replayed before the body, and the reservations of the jobs
  the replay found terminal are released after it, whatever the body did.
\<close>

definition with_replay :: "managed_env \<Rightarrow> 'x queue_env \<Rightarrow> ('x, 'a) queue_op \<Rightarrow> ('x, 'a) managed_op" where
  "with_replay menv env body =
     mbind (on_queue (reconcile_transition_intents env)) (\<lambda>replayed.
     mbind (on_failure (on_queue body) (mseq (release_if_terminal menv env) replayed)) (\<lambda>x.
     mbind (mseq (release_if_terminal menv env) replayed) (\<lambda>_. mret x)))"

definition lease_admission_snapshot ::
  "'x queue_env \<Rightarrow> string \<Rightarrow> string \<Rightarrow> ('x, Lease option \<times> kind_counts \<times> int) queue_op" where
  "lease_admission_snapshot env endpoint_id cluster =
     mbind (scan_all_expiry_refs ''lease expiry index exceeded its safety bound'') (\<lambda>refs.
     mbind (active_lease_for_endpoint env endpoint_id (Some refs)) (\<lambda>active.
     mbind (read_capacity (lease_capacity_snapshot cluster)) (\<lambda>(counts, global_total).
     mret (active, counts, global_total))))"

definition kind_at_limit :: "(JobKind \<times> int) list \<Rightarrow> kind_counts \<Rightarrow> JobKind \<Rightarrow> bool" where
  "kind_at_limit limits counts kind \<longleftrightarrow>
     (case map_of limits kind of None \<Rightarrow> False | Some n \<Rightarrow> dict_get counts kind 0 \<ge> n)"

definition acquire_from_lane ::
  "'x queue_env \<Rightarrow> string \<Rightarrow> string \<Rightarrow> int \<Rightarrow> (JobKind \<times> int) list \<Rightarrow> McpAdmissionClass option \<Rightarrow> int option
     \<Rightarrow> ('x, Lease option) queue_op" where
  "acquire_from_lane env endpoint_id cluster ttl_seconds limits mcp_admission_class mcp_admission_limit =
     mbind (require_index_migration_complete env) (\<lambda>_.
     mbind (lease_admission_snapshot env endpoint_id cluster) (\<lambda>(active, active_counts, global_lease_total).
       case active of
         Some lease \<Rightarrow>
           mbind (get_job (le_job_id lease)) (\<lambda>active_job.
           mbind (qcheck (case mcp_admission_class of None \<Rightarrow> True
                           | Some c \<Rightarrow> job_matches_mcp_admission_class active_job c)
             (QueueConflictError (''endpoint active lease does not match its MCP admission lane: '' @ endpoint_id))) (\<lambda>_.
           mret (Some lease)))
       | None \<Rightarrow>
           if global_lease_total \<ge> MAX_LIVE_LEASE_RECORDS then mret None
           else
             mbind (case (mcp_admission_class, mcp_admission_limit) of
                      (Some c, Some limit) \<Rightarrow>
                        mbind (active_mcp_admission_count env cluster c None) (\<lambda>n. mret (n \<ge> limit))
                    | _ \<Rightarrow> mret False) (\<lambda>at_limit.
             mbind mget (\<lambda>s.
             mbind (qlift (scan_many rj_job_id ''job_id'' MAX_ACTIVE_JOB_RECORDS (qs_queued s))) (\<lambda>(queued_jobs, truncated).
             mbind (qcheck (\<not> truncated) (QueueConflictError ''queued job index exceeded its safety bound'')) (\<lambda>_.
             mbind (mmap submission_order_key queued_jobs) (\<lambda>keyed.
             mbind (select_candidate env
                      \<lparr>ln_cluster = cluster, ln_kind_limits = limits, ln_class = mcp_admission_class,
                       ln_class_full = at_limit, ln_counts = active_counts, ln_expiry_refs = None\<rparr>
                      None (map snd (sort_key fst keyed))) (\<lambda>candidate.
               case candidate of
                 None \<Rightarrow> mret None
               | Some job \<Rightarrow>
                   mbind (lease_job env job endpoint_id ttl_seconds (Some global_lease_total)) (\<lambda>lease.
                   mret (Some lease))))))))))"

definition managed_acquire_next_job ::
  "managed_env \<Rightarrow> 'x queue_env \<Rightarrow> string \<Rightarrow> string \<Rightarrow> int \<Rightarrow> int \<Rightarrow> (kind_key \<times> json) list option
     \<Rightarrow> McpAdmissionClass option \<Rightarrow> int option \<Rightarrow> ('x, Lease option) managed_op" where
  "managed_acquire_next_job menv env endpoint_id cluster ttl_seconds max_attempts kind_concurrency
     mcp_admission_class mcp_admission_limit = guarded (
     mbind (on_queue (qlift (normalize_kind_concurrency kind_concurrency))) (\<lambda>limits.
     mbind (on_queue (qcheck (mcp_admission_limit = None \<or> mcp_admission_class \<noteq> None)
       (ConfigurationError ''worker MCP admission limit requires an admission class''))) (\<lambda>_.
     mbind (on_queue (qcheck (case mcp_admission_limit of None \<Rightarrow> True | Some n \<Rightarrow> \<not> n < 1)
       (ConfigurationError ''worker MCP admission limit must be at least 1''))) (\<lambda>_.
     mbind (managed_recover_stale_jobs menv env cluster max_attempts) (\<lambda>_.
     mbind (on_queue (initialize_queue env)) (\<lambda>_.
     with_replay menv env
       (acquire_from_lane env endpoint_id cluster ttl_seconds limits mcp_admission_class mcp_admission_limit)))))))"

text \<open>The lease of one exact queued job, once no other lease of the endpoint stands in the way.\<close>

definition lease_exact ::
  "'x queue_env \<Rightarrow> RelayJob \<Rightarrow> string \<Rightarrow> int \<Rightarrow> (JobKind \<times> int) list \<Rightarrow> kind_counts \<Rightarrow> int \<Rightarrow> ('x, Lease option) queue_op" where
  "lease_exact env job endpoint_id ttl_seconds limits active_counts global_lease_total =
     mbind mget (\<lambda>s.
       if qe_pending_cleanup env (rj_cluster job) (rj_job_id job) (qs_other s) then mret None
       else if global_lease_total \<ge> MAX_LIVE_LEASE_RECORDS then mret None
       else if kind_at_limit limits active_counts (rj_kind job) then mret None
       else mbind (lease_job env job endpoint_id ttl_seconds (Some global_lease_total)) (\<lambda>lease. mret (Some lease)))"

definition managed_acquire_job ::
  "managed_env \<Rightarrow> 'x queue_env \<Rightarrow> string \<Rightarrow> string \<Rightarrow> string \<Rightarrow> int \<Rightarrow> int \<Rightarrow> (kind_key \<times> json) list option
     \<Rightarrow> ('x, Lease option) managed_op" where
  "managed_acquire_job menv env job_id endpoint_id cluster ttl_seconds max_attempts kind_concurrency = guarded (
     mbind (on_queue (qlift (normalize_kind_concurrency kind_concurrency))) (\<lambda>limits.
     mbind (managed_recover_stale_jobs menv env cluster max_attempts) (\<lambda>_.
     mbind (on_queue (initialize_queue env)) (\<lambda>_.
     with_replay menv env (
       mbind (require_index_migration_complete env) (\<lambda>_.
       mbind (lease_admission_snapshot env endpoint_id cluster) (\<lambda>(active, active_counts, global_lease_total).
         case active of
           Some lease \<Rightarrow> mret (if le_job_id lease = job_id then Some lease else None)
         | None \<Rightarrow>
             mbind (get_job job_id) (\<lambda>job.
             if rj_cluster job \<noteq> cluster \<or> rj_state job \<noteq> QUEUED then mret None
             else if rj_kind job = INPUT_INGEST then mret None
             else lease_exact env job endpoint_id ttl_seconds limits active_counts global_lease_total))))))))"

definition managed_submit_and_acquire_job ::
  "managed_env \<Rightarrow> 'x queue_env \<Rightarrow> 'x submit_calls \<Rightarrow> RelayJob \<Rightarrow> string \<Rightarrow> int \<Rightarrow> int \<Rightarrow> (kind_key \<times> json) list option
     \<Rightarrow> ('x, RelayJob \<times> Lease option) managed_op" where
  "managed_submit_and_acquire_job menv env calls job endpoint_id ttl_seconds max_attempts kind_concurrency = guarded (
     mbind (on_queue (qlift (normalize_kind_concurrency kind_concurrency))) (\<lambda>limits.
     mbind (managed_submit_job menv env calls job) (\<lambda>submitted.
     if rj_kind submitted = INPUT_INGEST then mret (submitted, None)
     else
       mbind (managed_recover_stale_jobs menv env (rj_cluster submitted) max_attempts) (\<lambda>_.
       with_replay menv env (
         mbind (require_index_migration_complete env) (\<lambda>_.
         mbind (lease_admission_snapshot env endpoint_id (rj_cluster submitted)) (\<lambda>(active, active_counts, global_lease_total).
           case active of
             Some lease \<Rightarrow> mret (submitted, if le_job_id lease = rj_job_id submitted then Some lease else None)
           | None \<Rightarrow>
               mbind (get_job (rj_job_id submitted)) (\<lambda>current.
               if rj_state current \<noteq> QUEUED then mret (current, None)
               else
                 mbind (lease_exact env current endpoint_id ttl_seconds limits active_counts global_lease_total) (\<lambda>lease.
                   case lease of
                     None \<Rightarrow> mret (current, None)
                   | Some lease \<Rightarrow>
                       mbind (get_job (rj_job_id current)) (\<lambda>refreshed. mret (refreshed, Some lease)))))))))))"

end
