(* ===== verification/ManagedSafety.thy ===== *)
theory ManagedSafety
  imports ManagedQueue SubmissionSafety
begin

text \<open>
  The promise of the storage-managed queue: a job that is not terminal has a reservation of exactly
  its estimate in the ledger, whatever storage refuses and wherever a process stops. The proofs join
  the ledger's refinement lemmas and the stages of a submission through a judgement over both stores.
\<close>

section \<open>A judgement over both stores\<close>

text \<open>
  \<open>mruns b \<chi> \<phi> m \<psi>\<close>: from a ledger file and a queue content that satisfy \<open>\<phi>\<close>, the operation \<open>m\<close> returns in
  \<open>\<psi>\<close>, or storage refuses, or the process stops, which takes a budget \<open>b\<close>; then they satisfy \<open>\<chi>\<close>.
\<close>

definition stands :: "nat option \<Rightarrow> (ledger_file \<Rightarrow> content \<Rightarrow> bool) \<Rightarrow> 'x managed_state \<Rightarrow> bool" where
  "stands b \<phi> s \<longleftrightarrow> \<not> mq_closed s \<and> wf_store (mq_queue s) \<and> (b = None \<longrightarrow> qs_budget (mq_queue s) = None)
     \<and> \<phi> (rts_ledger (mq_runtime s)) (cells (mq_queue s))"

definition refused :: "nat option \<Rightarrow> managed_exn \<Rightarrow> bool" where
  "refused b e \<longleftrightarrow> e = QueueExn Crashed \<and> b \<noteq> None \<or> (\<exists>x. e = RuntimeExn x)"

text \<open>A process that stops may leave any budget behind.\<close>

definition rests :: "(ledger_file \<Rightarrow> content \<Rightarrow> bool) \<Rightarrow> 'x managed_state \<Rightarrow> bool" where
  "rests \<chi> s \<longleftrightarrow> \<not> mq_closed s \<and> wf_store (mq_queue s) \<and> \<chi> (rts_ledger (mq_runtime s)) (cells (mq_queue s))"

fun settles ::
  "nat option \<Rightarrow> (ledger_file \<Rightarrow> content \<Rightarrow> bool) \<Rightarrow> ('a \<Rightarrow> ledger_file \<Rightarrow> content \<Rightarrow> bool)
     \<Rightarrow> (managed_exn + 'a) \<times> 'x managed_state \<Rightarrow> bool" where
  "settles b \<chi> \<psi> (Inr x, s') \<longleftrightarrow> stands b (\<psi> x) s'"
| "settles b \<chi> \<psi> (Inl e, s') \<longleftrightarrow> refused b e \<and> rests \<chi> s'"

definition mruns ::
  "nat option \<Rightarrow> (ledger_file \<Rightarrow> content \<Rightarrow> bool) \<Rightarrow> (ledger_file \<Rightarrow> content \<Rightarrow> bool) \<Rightarrow> ('x, 'a) managed_op
     \<Rightarrow> ('a \<Rightarrow> ledger_file \<Rightarrow> content \<Rightarrow> bool) \<Rightarrow> bool" where
  "mruns b \<chi> \<phi> m \<psi> \<longleftrightarrow> (\<forall>s. stands b \<phi> s \<longrightarrow> settles b \<chi> \<psi> (m s))"

named_theorems mruns_rules \<open>rules of the judgement over both stores\<close>

lemma mruns_mbind:
  fixes m :: "('x, 'a) managed_op"
  shows "mruns b \<chi> \<phi> m \<xi> \<Longrightarrow> (\<And>x. mruns b \<chi> (\<xi> x) (f x) \<psi>) \<Longrightarrow> mruns b \<chi> \<phi> (mbind m f) \<psi>"
  unfolding mruns_def
proof (intro allI impI)
  fix s :: "'x managed_state" assume m: "\<forall>s. stands b \<phi> s \<longrightarrow> settles b \<chi> \<xi> (m s)" and f: "\<And>x. \<forall>s. stands b (\<xi> x) s \<longrightarrow> settles b \<chi> \<psi> (f x s)"
    and "stands b \<phi> s"
  then have "settles b \<chi> \<xi> (m s)" by blast
  then show "settles b \<chi> \<psi> (mbind m f s)" using f by (cases "m s"; cases "fst (m s)") (auto simp: mbind_def)
qed

lemma mruns_mret: "(\<And>file \<tau>. \<phi> file \<tau> \<Longrightarrow> \<psi> x file \<tau>) \<Longrightarrow> mruns b \<chi> \<phi> (mret x) \<psi>"
  by (auto simp: mruns_def mret_def stands_def)

lemma stands_rests: "stands b \<phi> s \<Longrightarrow> (\<And>file \<tau>. \<phi> file \<tau> \<Longrightarrow> \<chi> file \<tau>) \<Longrightarrow> rests \<chi> s"
  by (auto simp: stands_def rests_def)

lemma mruns_refuse: "(\<And>file \<tau>. \<phi> file \<tau> \<Longrightarrow> \<chi> file \<tau>) \<Longrightarrow> mruns b \<chi> \<phi> (mraise (RuntimeExn x)) \<psi>"
  by (auto simp: mruns_def mraise_def refused_def intro: stands_rests)

lemma mruns_pre: "mruns b \<chi> \<phi> m \<psi> \<Longrightarrow> (\<And>file \<tau>. \<phi>' file \<tau> \<Longrightarrow> \<phi> file \<tau>) \<Longrightarrow> mruns b \<chi> \<phi>' m \<psi>"
  by (auto simp: mruns_def stands_def)

lemma mruns_ex: "(\<And>y. mruns b \<chi> (\<phi> y) m \<psi>) \<Longrightarrow> mruns b \<chi> (\<lambda>file \<tau>. \<exists>y. \<phi> y file \<tau>) m \<psi>"
  by (auto simp: mruns_def stands_def)

lemma mruns_cond: "(c \<Longrightarrow> mruns b \<chi> \<phi> m \<psi>) \<Longrightarrow> mruns b \<chi> (\<lambda>file \<tau>. c \<and> \<phi> file \<tau>) m \<psi>"
  by (auto simp: mruns_def stands_def)

lemma mruns_guarded: "mruns b \<chi> \<phi> m \<psi> \<Longrightarrow> mruns b \<chi> \<phi> (guarded m) \<psi>"
  by (auto simp: mruns_def guarded_def mbind_def mget_def stands_def)

lemma mruns_queue:
  fixes m :: "('x, 'a) queue_op"
  assumes "\<And>file \<tau>. \<phi> file \<tau> \<Longrightarrow> runs (\<chi> file) \<tau> m (\<lambda>x. \<psi> x file)"
  shows "mruns b \<chi> \<phi> (on_queue m) \<psi>"
  unfolding mruns_def
proof (intro allI impI)
  fix s :: "'x managed_state" assume s: "stands b \<phi> s"
  obtain r q where m: "m (mq_queue s) = (r, q)" by fastforce
  have h: "holds (cells (mq_queue s)) (mq_queue s)" using s by (simp add: stands_def holds_def)
  have "good_outcome (\<chi> (rts_ledger (mq_runtime s))) (\<lambda>x. \<psi> x (rts_ledger (mq_runtime s))) (qs_budget (mq_queue s)) r q"
    by (rule runsD [OF assms h m]) (use s in \<open>simp add: stands_def\<close>)
  then show "settles b \<chi> \<psi> (on_queue m s)"
    by (cases rule: good_outcome_cases) (use s m in \<open>auto simp: on_queue_def stands_def rests_def refused_def\<close>)
qed

lemma mruns_on_failure:
  fixes m :: "('x, 'a) queue_op"
  assumes "\<And>file \<tau>. \<phi> file \<tau> \<Longrightarrow> runs (\<chi> file) \<tau> m (\<lambda>x. \<psi> x file)"
  shows "mruns b \<chi> \<phi> (on_failure (on_queue m) handler) \<psi>"
proof -
  have crash: "e = QueueExn Crashed" if s: "stands b \<phi> s" and e: "on_queue m s = (Inl e, s')" for s s' :: "'x managed_state" and e
  proof -
    obtain r q where m: "m (mq_queue s) = (r, q)" by fastforce
    have h: "holds (cells (mq_queue s)) (mq_queue s)" using s by (simp add: stands_def holds_def)
    have "runs (\<chi> (rts_ledger (mq_runtime s))) (cells (mq_queue s)) m (\<lambda>x. \<psi> x (rts_ledger (mq_runtime s)))"
      by (rule assms) (use s in \<open>simp add: stands_def\<close>)
    from runs_outcome [OF this h m] have "(\<exists>x. r = Inr x) \<or> r = Inl Crashed" by blast
    then have "\<forall>e'. fst (on_queue m s) = Inl e' \<longrightarrow> e' = QueueExn Crashed"
      unfolding on_queue_def m by (elim disjE exE) simp_all
    then show ?thesis unfolding e by simp
  qed
  have plain: "mruns b \<chi> \<phi> (on_queue m) \<psi>" by (rule mruns_queue) (rule assms)
  show ?thesis
    unfolding mruns_def
  proof (intro allI impI)
    fix s :: "'x managed_state" assume s: "stands b \<phi> s"
    have "on_failure (on_queue m) handler s = on_queue m s"
      using crash [OF s] by (cases "on_queue m s"; cases "fst (on_queue m s)") (auto simp: on_failure_def)
    moreover have "settles b \<chi> \<psi> (on_queue m s)" by (rule plain [unfolded mruns_def, rule_format, OF s])
    ultimately show "settles b \<chi> \<psi> (on_failure (on_queue m) handler s)" by simp
  qed
qed

lemma mruns_policy:
  fixes f :: "storage_env \<Rightarrow> 'a ledger_op"
  assumes "\<And>n file \<tau> x file'. \<phi> file \<tau> \<Longrightarrow> f (me_storage menv n) file = (Inr x, file') \<Longrightarrow> \<psi> x file' \<tau>"
    and "\<And>n file \<tau> e file'. \<phi> file \<tau> \<Longrightarrow> f (me_storage menv n) file = (Inl e, file') \<Longrightarrow> \<chi> file' \<tau>"
  shows "mruns b \<chi> \<phi> (policy_call menv f :: ('x, 'a) managed_op) \<psi>"
  unfolding mruns_def
proof (intro allI impI)
  fix s :: "'x managed_state" assume s: "stands b \<phi> s"
  obtain r file' where f: "f (me_storage menv (mq_calls s)) (rts_ledger (mq_runtime s)) = (r, file')" by fastforce
  show "settles b \<chi> \<psi> (policy_call menv f s)"
    using s f assms
    by (cases r) (auto simp: policy_call_def next_call_def mbind_def on_runtime_def on_ledger_def stands_def rests_def refused_def)
qed

text \<open>Steps of the runtime that leave the ledger alone.\<close>

lemma mruns_runtime:
  fixes m :: "'a runtime_op"
  assumes "\<And>st r st'. m st = (r, st') \<Longrightarrow> rts_ledger st' = rts_ledger st"
    and "\<And>x file \<tau> st st'. \<phi> file \<tau> \<Longrightarrow> m st = (Inr x, st') \<Longrightarrow> \<psi> x file \<tau>" "\<And>file \<tau>. \<phi> file \<tau> \<Longrightarrow> \<chi> file \<tau>"
  shows "mruns b \<chi> \<phi> (on_runtime m :: ('x, 'a) managed_op) \<psi>"
  unfolding mruns_def
proof (intro allI impI)
  fix s :: "'x managed_state" assume s: "stands b \<phi> s"
  obtain r st where m: "m (mq_runtime s) = (r, st)" by fastforce
  then show "settles b \<chi> \<psi> (on_runtime m s)"
    using s assms(1) [OF m] assms(2,3) by (cases r) (auto simp: on_runtime_def stands_def rests_def refused_def)
qed

lemma mruns_lock: "mruns b \<chi> \<phi> m \<psi> \<Longrightarrow> (\<And>file \<tau>. \<phi> file \<tau> \<Longrightarrow> \<chi> file \<tau>) \<Longrightarrow> mruns b \<chi> \<phi> (admission_lock menv m) \<psi>"
  by (auto simp: mruns_def admission_lock_def next_call_def mbind_def stands_def rests_def refused_def mraise_def split: option.splits)

lemma mruns_as_admission:
  fixes m :: "('x, 'a) managed_op"
  shows "mruns b \<chi> \<phi> m \<psi> \<Longrightarrow> mruns b \<chi> \<phi> (as_admission_error m) \<psi>"
  unfolding mruns_def as_admission_error_def
proof (intro allI impI)
  fix s :: "'x managed_state" assume "\<forall>s. stands b \<phi> s \<longrightarrow> settles b \<chi> \<psi> (m s)" "stands b \<phi> s"
  then have "settles b \<chi> \<psi> (m s)" by blast
  then show "settles b \<chi> \<psi> (case m s of
      (Inl (RuntimeExn (LedgerExn (PolicyExn e))), s') \<Rightarrow> denied (policy_error_decision e) s' | r \<Rightarrow> r)"
    by (cases "m s"; cases "fst (m s)")
       (auto simp: refused_def mraise_def split: managed_exn.splits runtime_exn.splits storage_exn.splits)
qed

section \<open>Coverage\<close>

text \<open>Every policy call sees the configured limits and a sound machine.\<close>

definition managed_ok :: "iso_parser \<Rightarrow> StorageRuntimeConfig \<Rightarrow> managed_env \<Rightarrow> bool" where
  "managed_ok fiso cfg menv \<longleftrightarrow> me_config menv = cfg \<and> (\<forall>n. StorageReservations.env_ok (me_storage menv n)
     \<and> se_limits (me_storage menv n) = src_limits cfg \<and> se_fromisoformat (me_storage menv n) = fiso)"

definition covers :: "StorageRuntimeConfig \<Rightarrow> (string \<Rightarrow> (int \<times> int) option) \<Rightarrow> content \<Rightarrow> bool" where
  "covers cfg amounts \<sigma> \<longleftrightarrow> (\<forall>k J. \<sigma> (JobCell k) = Some (JobV J) \<and> \<not> terminal (rj_state J)
     \<longrightarrow> (\<exists>e. estimate cfg J = Inr e \<and> amounts k = Some (sre_core_bytes e, sre_spool_bytes e)))"

lemma estimate_cong: "rj_storage_reservation j = rj_storage_reservation j' \<Longrightarrow> estimate cfg j = estimate cfg j'"
  by (simp add: estimate_def)

lemma policy_reserve:
  assumes "managed_ok fiso cfg menv" "reserve (me_storage menv n) k c s ts file = (x, file')"
  shows "reserved_in fiso (src_limits cfg) file' = (case x of
      Inr d \<Rightarrow> if sd_allowed d then (reserved_in fiso (src_limits cfg) file)(k \<mapsto> (c, s)) else reserved_in fiso (src_limits cfg) file
    | Inl _ \<Rightarrow> reserved_in fiso (src_limits cfg) file)"
proof -
  let ?e = "me_storage menv n"
  have ok: "StorageReservations.env_ok ?e" "se_limits ?e = src_limits cfg" "se_fromisoformat ?e = fiso"
    using assms(1) by (simp_all add: managed_ok_def)
  then have atomic: "atomic_writes ?e" by (simp add: StorageReservations.env_ok_def)
  show ?thesis
  proof (cases "\<exists>d. x = Inr d \<and> sd_allowed d")
    case True
    then obtain d where d: "x = Inr d" "sd_allowed d" by blast
    from reserve_allowed [OF assms(2) [unfolded d(1)] d(2) ok(1)] d show ?thesis
      by (auto simp: reserved_in_def ok)
  next
    case False
    then have "file' = file" using reserve_denied [OF assms(2) _ atomic] by blast
    with False show ?thesis by (auto split: sum.splits)
  qed
qed

lemma policy_verify: "verify_reservation e k c s file = (x, file') \<Longrightarrow> file' = file"
  unfolding verify_reservation_def catch_policy_def ledger_lock_def read_ledger_def
  by (auto simp: mbind_def mlift_def mret_def mraise_def split: prod.splits sum.splits storage_exn.splits option.splits if_splits)

section \<open>Resolution\<close>

definition resolved :: "submission \<Rightarrow> string set \<Rightarrow> nat \<Rightarrow> RelayJob option \<Rightarrow> content \<Rightarrow> IdempotentSubmissionResolution \<Rightarrow> bool" where
  "resolved u K n jo \<tau> res \<longleftrightarrow> sr_canonical_job_id res \<in> K \<and> underway u {sr_canonical_job_id res} n jo \<tau>
     \<and> (if jo = None then sr_state res \<in> {''new'', ''reserved''} else sr_state res = ''existing'')"

lemma runs_resolve_opening:
  fixes env :: "'x queue_env"
  assumes env: "LeaseAcquisition.env_ok env" and job: "submits calls key d r job" and P: "P \<tau>"
    and m: "runs P \<tau> (m (idempotency_key_filename key)) Q"
  shows "runs P \<tau> (mbind (qlift (require_durable_record_id (rj_job_id job) ''job_id'')) (\<lambda>_.
     mbind (qlift (validate_new_owner_session_metadata (rj_metadata job))) (\<lambda>_.
     mbind (initialize_queue env) (\<lambda>_. mbind (require_index_migration_complete env) (\<lambda>_.
     m (idempotency_key_filename (rj_idempotency_key job))))))) Q"
proof -
  have ok: "durable_id (rj_job_id job)" "validate_new_owner_session_metadata (rj_metadata job) = Inr ()"
    "rj_idempotency_key job = key" using job by (simp_all add: submits_def)
  have migrated: "qe_require_migrated env x = Inr ()" for x using env by (simp add: LeaseAcquisition.env_ok_def)
  show ?thesis
    unfolding initialize_queue_def require_index_migration_complete_def ok(3)
    by (rule runs_mbind, rule runs_qlift, rule require_durable_id [OF ok(1)], rule runs_mbind, rule runs_qlift, rule ok(2),
        rule runs_mbind, rule runs_on_other, rule P, rule env_steps(1) [OF env], rule runs_mbind, rule runs_mget, rule runs_qlift,
        rule migrated, rule m)
qed

lemma runs_resolve:
  fixes env :: "'x queue_env"
  assumes ok: "\<And>k. k \<in> K \<Longrightarrow> submission_ok env L (u\<lparr>su_id := k\<rparr>)"
    and new: "su_base u (key_cell (su_key u)) = None" and job: "submits calls (su_key u) (su_digest u) (su_reservation u) job" "rj_job_id job \<in> K"
    and \<tau>: "underway u K n jo \<tau>" and P: "P \<tau>" and Q: "\<And>res. resolved u K n jo \<tau> res \<Longrightarrow> Q res \<tau>"
  shows "runs P \<tau> (resolve_idempotent_submission env calls job) Q"
proof -
  let ?key = "idempotency_key_filename (su_key u)"
  have env: "LeaseAcquisition.env_ok env" using ok [OF job(2)] by (simp add: submission_ok_def)
  have keys: "rj_idempotency_key job = su_key u" using job(1) by (simp add: submits_def)
  consider (start) "\<tau> = su_base u" "jo = None" | (stage) k st b lg where "k \<in> K" "at_stage (u\<lparr>su_id := k\<rparr>) n st b lg jo \<tau>"
    using \<tau> by (auto simp: underway_def staged_def)
  then show ?thesis
  proof cases
    case start
    have "durable_id (rj_job_id job)" using job(1) by (simp add: submits_def)
    from submits_bound [OF job(1) this] obtain J where J: "bind_submission calls job = Inr (J, su_digest u)" by auto
    have read: "\<tau> (key_cell (su_key u)) = map_option DocV None" using new start by simp
    have Q': "Q (IdempotentSubmissionResolution ''new'' (rj_job_id job) None) \<tau>"
      by (rule Q) (use start job(2) in \<open>simp add: resolved_def underway_def\<close>)
    show ?thesis
      unfolding resolve_idempotent_submission_def Let_def
      by (rule runs_resolve_opening [OF env job(1)], rule P, rule runs_mbind, rule runs_read_document, rule read, unfold option.case,
          rule runs_mbind, rule runs_qlift, rule J, rule runs_mret, rule Q')
  next
    case stage
    let ?u = "u\<lparr>su_id := k\<rparr>"
    have k: "durable_id k" and hex: "all_hex 64 (su_digest u)" using ok [OF stage(1)] by (simp_all add: submission_ok_def unused_def)
    obtain entry where doc: "\<tau> (key_cell (su_key u)) = map_option DocV (Some (JObj entry))"
      and fields: "doc_get entry ''state'' = JStr (key_state st)" "doc_get entry ''job_id'' = JStr k"
        "doc_get entry ''idempotency_key'' = JStr (su_key u)" "doc_get entry ''job_digest'' = JStr (su_digest u)"
      using stage(2) by (auto simp: at_stage_def su_keyed_def)
    obtain J where J: "bind_submission calls (job\<lparr>rj_job_id := k\<rparr>) = Inr (J, su_digest u)" "su_version ?u J"
      using submits_bound [OF job(1) k] by (metis submission.select_convs(2-5) submission.update_convs(2) submission.surjective)
    have valid: "idempotency_record_ok entry job"
      unfolding idempotency_record_ok_def fields keys using k by (simp add: key_state_def)
    have digest: "is_sha256_digest (JStr (su_digest u)) \<and> JStr (su_digest u) = JStr (su_digest u)"
      "\<not> JStr (key_state st) = JStr ''retired''" using hex by (simp_all add: is_sha256_digest_def key_state_def)
    have id: "the (as_str (JStr k)) = k" by simp
    have under: "underway u {k} n jo \<tau>" using stage(2) by (auto simp: underway_def staged_def)
    have rest: "runs P \<tau> (mbind (read_optional_job k) (\<lambda>existing. case existing of
          Some existing_job \<Rightarrow>
            mbind (qcheck (\<not> (rj_idempotency_key existing_job \<noteq> rj_idempotency_key J
                      \<or> rj_submission_digest existing_job \<noteq> None \<and> rj_submission_digest existing_job \<noteq> Some (su_digest u))) e1) (\<lambda>_.
            mret (IdempotentSubmissionResolution ''existing'' k (Some existing_job)))
        | None \<Rightarrow> mbind (qcheck (JStr (key_state st) \<noteq> JStr ''committed'') e2) (\<lambda>_.
            mret (IdempotentSubmissionResolution ''reserved'' k None)))) Q" for e1 e2
    proof (cases jo)
      case None
      have reserved: "JStr (key_state st) \<noteq> JStr ''committed''" using stage(2) None by (auto simp: at_stage_def key_state_def)
      have "Q (IdempotentSubmissionResolution ''reserved'' k None) \<tau>"
        by (rule Q) (use None stage(1) under in \<open>simp add: resolved_def\<close>)
      then show ?thesis
        by (intro runs_mbind runs_read_job [where r = None])
           (use stage_no_job [OF stage(2) [unfolded None]] reserved in \<open>auto intro!: runs_mbind runs_mcheck runs_mret\<close>)
    next
      case (Some E)
      have E: "\<tau> (JobCell k) = map_option JobV (Some E)" "rj_job_id E = k"
        "\<not> (rj_idempotency_key E \<noteq> rj_idempotency_key J
            \<or> rj_submission_digest E \<noteq> None \<and> rj_submission_digest E \<noteq> Some (su_digest u))"
        using stage_version [OF stage(2) [unfolded Some]] J(2) by (simp_all add: su_version_def)
      have done_: "Q (IdempotentSubmissionResolution ''existing'' k (Some E)) \<tau>"
        by (rule Q) (use Some stage(1) under in \<open>simp add: resolved_def\<close>)
      show ?thesis
        by (rule runs_mbind, rule runs_read_job, rule E(1), use E(2) k in simp, unfold option.case,
            rule runs_mbind, rule runs_mcheck, rule E(3), rule runs_mret, rule done_)
    qed
    have obj: "as_obj (JObj entry) = Some entry" by simp
    show ?thesis
      unfolding resolve_idempotent_submission_def Let_def
      by (rule runs_resolve_opening [OF env job(1)], rule P, rule runs_mbind, rule runs_read_document, rule doc,
          unfold option.case obj fields id if_not_P [OF digest(2)], rule runs_mbind, rule runs_mcheck, rule valid, rule runs_mbind,
          rule runs_qlift, rule J(1), unfold prod.case, rule runs_mbind, rule runs_mcheck, rule digest(1), rule rest)
  qed
qed

section \<open>One managed attempt\<close>

lemma mruns_fact: "(\<And>file \<tau>. \<phi> file \<tau> \<Longrightarrow> c) \<Longrightarrow> (c \<Longrightarrow> mruns b \<chi> \<phi> m \<psi>) \<Longrightarrow> mruns b \<chi> \<phi> m \<psi>"
  by (auto simp: mruns_def stands_def)

abbreviation amounts :: "iso_parser \<Rightarrow> StorageRuntimeConfig \<Rightarrow> ledger_file \<Rightarrow> string \<Rightarrow> (int \<times> int) option" where
  "amounts fiso cfg file \<equiv> reserved_in fiso (src_limits cfg) file"

text \<open>The ledger holds the estimates of the jobs that were there and of the submitted job, once it exists.\<close>

definition banked :: "iso_parser \<Rightarrow> StorageRuntimeConfig \<Rightarrow> submission \<Rightarrow> RelayJob option \<Rightarrow> ledger_file \<Rightarrow> bool" where
  "banked fiso cfg u jo file \<longleftrightarrow> covers cfg (amounts fiso cfg file) (su_base u)
     \<and> (\<forall>J. jo = Some J \<longrightarrow> (\<exists>e. estimate cfg J = Inr e \<and> amounts fiso cfg file (rj_job_id J) = Some (sre_core_bytes e, sre_spool_bytes e)))"

definition kept :: "iso_parser \<Rightarrow> StorageRuntimeConfig \<Rightarrow> submission \<Rightarrow> string set \<Rightarrow> nat \<Rightarrow> RelayJob option \<Rightarrow> ledger_file \<Rightarrow> content \<Rightarrow> bool" where
  "kept fiso cfg u K n jo file \<tau> \<longleftrightarrow> underway u K n jo \<tau> \<and> banked fiso cfg u jo file"

definition stopped :: "iso_parser \<Rightarrow> StorageRuntimeConfig \<Rightarrow> submission \<Rightarrow> string set \<Rightarrow> nat \<Rightarrow> RelayJob option \<Rightarrow> ledger_file \<Rightarrow> content \<Rightarrow> bool" where
  "stopped fiso cfg u K n jo file \<tau> \<longleftrightarrow> (\<exists>jo'. (jo \<noteq> None \<longrightarrow> jo' = jo) \<and> kept fiso cfg u K (Suc n) jo' file \<tau>)"

definition attempt_ok ::
  "iso_parser \<Rightarrow> StorageRuntimeConfig \<Rightarrow> 'x queue_env \<Rightarrow> LeaseIndexIdentity set \<Rightarrow> 'x submit_calls \<Rightarrow> submission \<Rightarrow> string set
     \<Rightarrow> managed_env \<Rightarrow> RelayJob \<Rightarrow> bool" where
  "attempt_ok fiso cfg env L calls u K menv job \<longleftrightarrow> (\<forall>k \<in> K. submission_ok env L (u\<lparr>su_id := k\<rparr>)) \<and> calls_ok calls
     \<and> su_base u (key_cell (su_key u)) = None \<and> submits calls (su_key u) (su_digest u) (su_reservation u) job \<and> rj_job_id job \<in> K
     \<and> managed_ok fiso cfg menv"

lemma underway_mono: "underway u {c} n jo \<tau> \<Longrightarrow> c \<in> K \<Longrightarrow> n \<le> m \<Longrightarrow> underway u K m jo \<tau>"
  unfolding underway_def using staged_mono by blast

lemma underway_job:
  assumes "underway u {c} n (Some J) \<tau>"
  shows "rj_job_id J = c" "rj_storage_reservation J = su_reservation u" "\<not> terminal (rj_state J)" "\<tau> (JobCell c) = Some (JobV J)"
  using assms stage_version [of "u\<lparr>su_id := c\<rparr>" n _ _ _ J \<tau>]
  by (auto simp: underway_def staged_def su_version_def not_terminal_queued)

lemma submits_canonical: "submits calls key d r job \<Longrightarrow> durable_id c \<Longrightarrow> submits calls key d r (job\<lparr>rj_job_id := c\<rparr>)"
  by (simp add: submits_def)

lemma kept_stopped: "kept fiso cfg u K n jo file \<tau> \<Longrightarrow> stopped fiso cfg u K n jo file \<tau>"
proof -
  assume k: "kept fiso cfg u K n jo file \<tau>"
  then have "underway u K (Suc n) jo \<tau>" unfolding kept_def underway_def using staged_mono [of _ n jo \<tau> "Suc n"] by auto
  with k have "kept fiso cfg u K (Suc n) jo file \<tau>" by (simp add: kept_def)
  then show ?thesis unfolding stopped_def by blast
qed

text \<open>The queue's part, from a ledger that already holds what the job will need.\<close>

lemma runs_managed_submit:
  fixes env :: "'x queue_env"
  assumes ok: "attempt_ok fiso cfg env L calls u K menv job" and c: "c \<in> K" and bound: "su_latest u + int n < 2 ^ 63 - 1"
    and \<tau>: "underway u {c} n jo \<tau>" and base: "banked fiso cfg u None file" and est: "estimate cfg job = Inr e"
    and here: "amounts fiso cfg file c = Some (sre_core_bytes e, sre_spool_bytes e)"
  shows "runs (stopped fiso cfg u K n jo file) \<tau> (submit_job env calls (job\<lparr>rj_job_id := c\<rparr>))
    (\<lambda>J \<rho>. jo \<in> {None, Some J} \<and> underway u {c} (Suc n) (Some J) \<rho> \<and> banked fiso cfg u (Some J) file)"
proof -
  have sub: "submission_ok env L (u\<lparr>su_id := k\<rparr>)" if "k \<in> {c}" for k using ok c that by (simp add: attempt_ok_def)
  have calls: "calls_ok calls" and new: "su_base u (key_cell (su_key u)) = None" using ok by (simp_all add: attempt_ok_def)
  have dur: "durable_id c" using sub [of c] by (simp add: submission_ok_def unused_def)
  have job: "submits calls (su_key u) (su_digest u) (su_reservation u) (job\<lparr>rj_job_id := c\<rparr>)"
    by (rule submits_canonical [OF _ dur]) (use ok in \<open>simp add: attempt_ok_def\<close>)
  have r: "rj_storage_reservation job = su_reservation u" using ok by (simp add: attempt_ok_def submits_def)
  have bank: "banked fiso cfg u jo' file" if "underway u {c} m jo' \<rho>" for jo' m \<rho>
  proof -
    have "\<exists>e. estimate cfg J = Inr e \<and> amounts fiso cfg file (rj_job_id J) = Some (sre_core_bytes e, sre_spool_bytes e)" if J: "jo' = Some J" for J
    proof -
      note f = underway_job [OF \<open>underway u {c} m jo' \<rho>\<close> [unfolded J]]
      have "estimate cfg J = Inr e" using est estimate_cong [of J job cfg] f(2) r by simp
      with here f(1) show ?thesis by simp
    qed
    with base show ?thesis by (simp add: banked_def)
  qed
  have stop: "stopped fiso cfg u K n jo file \<rho>" if "underway u {c} (Suc n) jo' \<rho>" "jo \<noteq> None \<longrightarrow> jo' = jo" for jo' \<rho>
    unfolding stopped_def kept_def using that bank [OF that(1)] underway_mono [OF that(1) c order_refl] by blast
  have run: "runs (\<lambda>\<rho>. \<exists>jo'. underway u {c} (Suc n) jo' \<rho> \<and> (jo \<noteq> None \<longrightarrow> jo' = jo)) \<tau> (submit_job env calls (job\<lparr>rj_job_id := c\<rparr>))
      (\<lambda>J \<rho>. finished u {c} (Suc n) J \<rho> \<and> jo \<in> {None, Some J})"
    by (rule runs_attempt [OF sub calls new job _ \<tau> bound]) simp_all
  show ?thesis
  proof (rule runs_weaken [OF runs_weaken_crash [OF run]])
    show "stopped fiso cfg u K n jo file \<rho>" if "\<exists>jo'. underway u {c} (Suc n) jo' \<rho> \<and> (jo \<noteq> None \<longrightarrow> jo' = jo)" for \<rho>
      using that stop by blast
    show "jo \<in> {None, Some J} \<and> underway u {c} (Suc n) (Some J) \<rho> \<and> banked fiso cfg u (Some J) file"
      if "finished u {c} (Suc n) J \<rho> \<and> jo \<in> {None, Some J}" for J \<rho>
      using that bank finished_underway by blast
  qed
qed

lemma runtime_ledger:
  "mlift r st = (x, st') \<Longrightarrow> rts_ledger st' = rts_ledger st"
  "block_new_intake d st = (y, st') \<Longrightarrow> rts_ledger st' = rts_ledger st"
  "ensure_new_intake_allowed st = (y, st') \<Longrightarrow> rts_ledger st' = rts_ledger st"
  by (auto simp: mlift_def block_new_intake_def ensure_new_intake_allowed_def mraise_def mupd_def mget_def mret_def mbind_def
      split: if_splits option.splits)

lemma mruns_verify:
  assumes live: "\<not> terminal (rj_state J)" and keep: "\<And>file \<tau>. \<phi> file \<tau> \<Longrightarrow> \<chi> file \<tau>" "\<And>file \<tau>. \<phi> file \<tau> \<Longrightarrow> \<psi> J file \<tau>"
  shows "mruns b \<chi> \<phi> (verify_existing_reservation menv env J) \<psi>"
  unfolding verify_existing_reservation_def if_not_P [OF live]
proof (rule mruns_mbind, rule mruns_runtime [where \<psi> = "\<lambda>_. \<phi>"])
  fix e :: StorageReservationEstimate
  show "mruns b \<chi> \<phi> (mbind (policy_call menv (\<lambda>se. verify_reservation se (rj_job_id J) (sre_core_bytes e) (sre_spool_bytes e)))
      (\<lambda>decision. if sd_allowed decision then mret J else mbind (on_runtime (block_new_intake decision)) (\<lambda>_. denied decision))) \<psi>"
  proof (rule mruns_mbind, rule mruns_policy [where \<psi> = "\<lambda>_. \<phi>"])
    show "mruns b \<chi> \<phi> (if sd_allowed d then mret J else mbind (on_runtime (block_new_intake d)) (\<lambda>_. denied d)) \<psi>" for d
    proof (cases "sd_allowed d")
      case False
      then show ?thesis
        by (simp, rule_tac mruns_mbind, rule_tac mruns_runtime [where \<psi> = "\<lambda>_. \<phi>"], erule_tac runtime_ledger(2))
           (auto intro: keep mruns_refuse)
    qed (simp add: mruns_mret keep)
  qed (use keep in \<open>auto dest: policy_verify\<close>)
qed (use keep in \<open>auto dest: runtime_ledger\<close>)

definition admission ::
  "iso_parser \<Rightarrow> StorageRuntimeConfig \<Rightarrow> submission \<Rightarrow> string set \<Rightarrow> nat \<Rightarrow> RelayJob option \<Rightarrow> RelayJob
     \<Rightarrow> RelayJob + RelayJob \<Rightarrow> ledger_file \<Rightarrow> content \<Rightarrow> bool" where
  "admission fiso cfg u K n jo job r fl \<tau> \<longleftrightarrow> (case r of
       Inl saved \<Rightarrow> jo = Some saved \<and> kept fiso cfg u K (Suc n) (Some saved) fl \<tau>
     | Inr canonical \<Rightarrow> jo = None \<and> rj_job_id canonical \<in> K \<and> canonical = job\<lparr>rj_job_id := rj_job_id canonical\<rparr>
         \<and> underway u {rj_job_id canonical} n None \<tau> \<and> banked fiso cfg u None fl)"

lemma banked_None: "banked fiso cfg u jo fl \<Longrightarrow> banked fiso cfg u None fl"
  by (simp add: banked_def)

lemma mruns_resolve_admission:
  fixes env :: "'x queue_env"
  assumes ok: "attempt_ok fiso cfg env L calls u K menv job" and bound: "su_latest u + int n < 2 ^ 63 - 1" and est: "estimate cfg job = Inr e"
  shows "mruns b (stopped fiso cfg u K n jo) (kept fiso cfg u K n jo) (resolve_admission menv env calls job) (admission fiso cfg u K n jo job)"
proof -
  have sub: "\<And>k. k \<in> K \<Longrightarrow> submission_ok env L (u\<lparr>su_id := k\<rparr>)" and new: "su_base u (key_cell (su_key u)) = None"
    and job: "submits calls (su_key u) (su_digest u) (su_reservation u) job" "rj_job_id job \<in> K"
    using ok by (simp_all add: attempt_ok_def)
  let ?stop = "stopped fiso cfg u K n jo"
  let ?found = "\<lambda>res fl \<tau>. (sr_canonical_job_id res \<in> K
      \<and> (if jo = None then sr_state res \<in> {''new'', ''reserved''} else sr_state res = ''existing''))
    \<and> underway u {sr_canonical_job_id res} n jo \<tau> \<and> banked fiso cfg u jo fl"
  show ?thesis
    unfolding resolve_admission_def
  proof (rule mruns_mbind [where \<xi> = ?found], rule mruns_queue)
    fix fl \<tau> assume k: "kept fiso cfg u K n jo fl \<tau>"
    show "runs (?stop fl) \<tau> (resolve_idempotent_submission env calls job) (\<lambda>res. ?found res fl)"
      by (rule runs_resolve [OF sub new job]) (use k kept_stopped in \<open>auto simp: kept_def resolved_def\<close>)
  next
    fix res
    let ?c = "sr_canonical_job_id res"
    let ?can = "job\<lparr>rj_job_id := ?c\<rparr>"
    show "mruns b ?stop (?found res) (let canonical = ?can in
        if sr_state res \<in> {''existing'', ''retired''}
        then mbind (on_queue (submit_job env calls canonical)) (\<lambda>saved.
             mbind (verify_existing_reservation menv env saved) (\<lambda>saved. mret (Inl saved)))
        else if sr_state res \<notin> {''new'', ''reserved''}
        then denied (denied_decision INVALID_REQUEST ''queue returned an unsupported idempotency resolution state''
               [(''state'', JStr (sr_state res))])
        else mret (Inr canonical)) (admission fiso cfg u K n jo job)"
    proof (rule mruns_cond)
      assume pure: "?c \<in> K \<and> (if jo = None then sr_state res \<in> {''new'', ''reserved''} else sr_state res = ''existing'')"
      show "mruns b ?stop (\<lambda>fl \<tau>. underway u {?c} n jo \<tau> \<and> banked fiso cfg u jo fl) (let canonical = ?can in
          if sr_state res \<in> {''existing'', ''retired''}
          then mbind (on_queue (submit_job env calls canonical)) (\<lambda>saved.
               mbind (verify_existing_reservation menv env saved) (\<lambda>saved. mret (Inl saved)))
          else if sr_state res \<notin> {''new'', ''reserved''}
          then denied (denied_decision INVALID_REQUEST ''queue returned an unsupported idempotency resolution state''
                 [(''state'', JStr (sr_state res))])
          else mret (Inr canonical)) (admission fiso cfg u K n jo job)"
      proof (cases jo)
        case None
        then have branch: "\<not> sr_state res \<in> {''existing'', ''retired''}" "\<not> sr_state res \<notin> {''new'', ''reserved''}" using pure by auto
        show ?thesis
          unfolding Let_def if_not_P [OF branch(1)] if_not_P [OF branch(2)]
          by (rule mruns_mret) (use None pure in \<open>simp add: admission_def\<close>)
      next
        case (Some J)
        then have branch: "sr_state res \<in> {''existing'', ''retired''}" using pure by simp
        let ?saved = "\<lambda>saved fl \<tau>. jo = Some saved \<and> underway u {?c} (Suc n) (Some saved) \<tau> \<and> banked fiso cfg u (Some saved) fl"
        have submit: "mruns b ?stop (\<lambda>fl \<tau>. underway u {?c} n jo \<tau> \<and> banked fiso cfg u jo fl)
            (on_queue (submit_job env calls ?can)) ?saved"
        proof (rule mruns_queue)
          fix fl \<tau> assume k: "underway u {?c} n jo \<tau> \<and> banked fiso cfg u jo fl"
          then have u: "underway u {?c} n (Some J) \<tau>" and bk: "banked fiso cfg u (Some J) fl" using Some by simp_all
          have "rj_storage_reservation job = su_reservation u" using job(1) by (simp add: submits_def)
          then have "estimate cfg J = Inr e" using est estimate_cong [of J job cfg] underway_job(2) [OF u] by simp
          then have "amounts fiso cfg fl ?c = Some (sre_core_bytes e, sre_spool_bytes e)"
            using bk underway_job(1) [OF u] by (simp add: banked_def)
          from runs_managed_submit [OF ok conjunct1 [OF pure] bound u banked_None [OF bk] est this]
          show "runs (?stop fl) \<tau> (submit_job env calls ?can) (\<lambda>saved. ?saved saved fl)"
            unfolding Some by (rule runs_weaken) simp
        qed
        have verify: "mruns b ?stop (?saved saved) (mbind (verify_existing_reservation menv env saved) (\<lambda>saved. mret (Inl saved)))
            (admission fiso cfg u K n jo job)" for saved
        proof (rule mruns_fact [of _ "\<not> terminal (rj_state saved)"])
          show "\<not> terminal (rj_state saved)" if "?saved saved fl \<tau>" for fl \<tau> using underway_job(3) that by blast
          assume live: "\<not> terminal (rj_state saved)"
          have keep: "kept fiso cfg u K (Suc n) (Some saved) fl \<tau>" if "?saved saved fl \<tau>" for fl \<tau>
            using that underway_mono pure unfolding kept_def by blast
          show "mruns b ?stop (?saved saved) (mbind (verify_existing_reservation menv env saved) (\<lambda>saved. mret (Inl saved)))
              (admission fiso cfg u K n jo job)"
          proof (rule mruns_mbind [where \<xi> = "\<lambda>x fl \<tau>. x = saved \<and> ?saved saved fl \<tau>"], rule mruns_verify [OF live])
            show "?stop fl \<tau>" if "?saved saved fl \<tau>" for fl \<tau>
              using keep [OF that] that unfolding stopped_def by blast
            show "mruns b ?stop (\<lambda>fl \<tau>. x = saved \<and> ?saved saved fl \<tau>) (mret (Inl x)) (admission fiso cfg u K n jo job)" for x
              by (rule mruns_mret) (use keep in \<open>auto simp: admission_def\<close>)
          qed simp
        qed
        show ?thesis unfolding Let_def if_P [OF branch] by (rule mruns_mbind [OF submit verify])
      qed
    qed
  qed
qed

lemma banked_reserved:
  assumes ok: "submission_ok env L (u\<lparr>su_id := c\<rparr>)" and "banked fiso cfg u None fl" "amounts fiso cfg fl' = (amounts fiso cfg fl)(c \<mapsto> v)"
  shows "banked fiso cfg u None fl'"
proof -
  have "su_base u (JobCell c) = None" using ok by (simp add: submission_ok_def unused_def)
  with assms(2,3) show ?thesis by (auto simp: banked_def covers_def)
qed

lemma mruns_admit_reserved:
  fixes env :: "'x queue_env"
  assumes ok: "attempt_ok fiso cfg env L calls u K menv job" and bound: "su_latest u + int n < 2 ^ 63 - 1" and est: "estimate cfg job = Inr e"
    and c: "c \<in> K"
  shows "mruns b (stopped fiso cfg u K n None)
    (\<lambda>fl \<tau>. underway u {c} n None \<tau> \<and> banked fiso cfg u None fl \<and> amounts fiso cfg fl c = Some (sre_core_bytes e, sre_spool_bytes e))
    (admit_reserved menv env calls (job\<lparr>rj_job_id := c\<rparr>)) (\<lambda>J. kept fiso cfg u K (Suc n) (Some J))"
proof -
  let ?stop = "stopped fiso cfg u K n None"
  let ?saved = "\<lambda>J fl \<rho>. underway u {c} (Suc n) (Some J) \<rho> \<and> banked fiso cfg u (Some J) fl"
  have last: "mruns b ?stop (?saved J) (if rj_job_id J \<noteq> rj_job_id (job\<lparr>rj_job_id := c\<rparr>)
        then mbind (release_reservation menv env (rj_job_id (job\<lparr>rj_job_id := c\<rparr>)) None) (\<lambda>_. verify_existing_reservation menv env J)
        else mbind (release_if_terminal menv env J) (\<lambda>_. mret J)) (\<lambda>J. kept fiso cfg u K (Suc n) (Some J))" for J
  proof (rule mruns_fact [of _ "rj_job_id J = c \<and> \<not> terminal (rj_state J)"])
    show "rj_job_id J = c \<and> \<not> terminal (rj_state J)" if "?saved J fl \<tau>" for fl \<tau> using underway_job that by blast
    assume J: "rj_job_id J = c \<and> \<not> terminal (rj_state J)"
    have keep: "kept fiso cfg u K (Suc n) (Some J) fl \<tau>" if "?saved J fl \<tau>" for fl \<tau>
      using that underway_mono c unfolding kept_def by blast
    have same: "(if rj_job_id J \<noteq> rj_job_id (job\<lparr>rj_job_id := c\<rparr>)
        then mbind (release_reservation menv env (rj_job_id (job\<lparr>rj_job_id := c\<rparr>)) None) (\<lambda>_. verify_existing_reservation menv env J)
        else mbind (release_if_terminal menv env J) (\<lambda>_. mret J)) = mret J"
      using J by (intro ext) (simp add: release_if_terminal_def mbind_mret)
    show "mruns b ?stop (?saved J) (if rj_job_id J \<noteq> rj_job_id (job\<lparr>rj_job_id := c\<rparr>)
        then mbind (release_reservation menv env (rj_job_id (job\<lparr>rj_job_id := c\<rparr>)) None) (\<lambda>_. verify_existing_reservation menv env J)
        else mbind (release_if_terminal menv env J) (\<lambda>_. mret J)) (\<lambda>J. kept fiso cfg u K (Suc n) (Some J))"
      unfolding same by (rule mruns_mret, erule keep)
  qed
  show ?thesis
    unfolding admit_reserved_def
  proof (rule mruns_mbind [OF _ last], rule mruns_on_failure)
    fix fl \<tau> assume pre: "underway u {c} n None \<tau> \<and> banked fiso cfg u None fl \<and> amounts fiso cfg fl c = Some (sre_core_bytes e, sre_spool_bytes e)"
    from runs_managed_submit [OF ok c bound _ _ est] pre
    have "runs (?stop fl) \<tau> (submit_job env calls (job\<lparr>rj_job_id := c\<rparr>))
        (\<lambda>J \<rho>. None \<in> {None, Some J} \<and> underway u {c} (Suc n) (Some J) \<rho> \<and> banked fiso cfg u (Some J) fl)" by blast
    then show "runs (?stop fl) \<tau> (submit_job env calls (job\<lparr>rj_job_id := c\<rparr>)) (\<lambda>J. ?saved J fl)"
      by (rule runs_weaken) simp
  qed
qed

lemma admission_known:
  "admission fiso cfg u K n jo job (Inl saved) fl \<tau> \<Longrightarrow> jo = Some saved \<and> kept fiso cfg u K (Suc n) (Some saved) fl \<tau>"
  "admission fiso cfg u K n jo job (Inr canonical) fl \<tau> \<Longrightarrow> jo = None \<and> kept fiso cfg u K n None fl \<tau>"
  using underway_mono [OF _ _ order_refl] by (auto simp: admission_def kept_def)

text \<open>Under the second lock: a reservation is taken before the queue is asked.\<close>

lemma mruns_reserve_and_admit:
  fixes env :: "'x queue_env"
  assumes ok: "attempt_ok fiso cfg env L calls u K menv job" and bound: "su_latest u + int n < 2 ^ 63 - 1" and est: "estimate cfg job = Inr e"
  shows "mruns b (stopped fiso cfg u K n None) (admission fiso cfg u K n None job (Inr canonical))
    (reserve_and_admit menv env calls e tree canonical) (\<lambda>J. kept fiso cfg u K (Suc n) (Some J))" (is "mruns b ?stop ?adm _ ?post")
proof (rule mruns_fact [of _ "rj_job_id canonical \<in> K \<and> canonical = job\<lparr>rj_job_id := rj_job_id canonical\<rparr>"])
  show "rj_job_id canonical \<in> K \<and> canonical = job\<lparr>rj_job_id := rj_job_id canonical\<rparr>" if "?adm fl \<tau>" for fl \<tau>
    using that by (simp add: admission_def)
  assume can: "rj_job_id canonical \<in> K \<and> canonical = job\<lparr>rj_job_id := rj_job_id canonical\<rparr>"
  let ?c = "rj_job_id canonical"
  have menv: "managed_ok fiso cfg menv" and sub: "submission_ok env L (u\<lparr>su_id := ?c\<rparr>)" using ok can by (simp_all add: attempt_ok_def)
  have stop: "?stop fl \<tau>" if "?adm fl \<tau>" for fl \<tau> using admission_known(2) [OF that] kept_stopped by blast
  let ?granted = "\<lambda>fl \<tau>. underway u {?c} n None \<tau> \<and> banked fiso cfg u None fl
    \<and> amounts fiso cfg fl ?c = Some (sre_core_bytes e, sre_spool_bytes e)"
  let ?decided = "\<lambda>d fl \<tau>. if sd_allowed d then ?granted fl \<tau> else ?stop fl \<tau>"
  have call: "mruns b ?stop ?adm (policy_call menv (\<lambda>se. reserve se ?c (sre_core_bytes e) (sre_spool_bytes e) (Some tree))) ?decided"
  proof (rule mruns_policy)
    fix n' fl \<tau> d fl' assume adm: "?adm fl \<tau>" and r: "reserve (me_storage menv n') ?c (sre_core_bytes e) (sre_spool_bytes e) (Some tree) fl = (Inr d, fl')"
    note new = policy_reserve [OF menv r, unfolded sum.case]
    show "?decided d fl' \<tau>"
    proof (cases "sd_allowed d")
      case True
      then have "amounts fiso cfg fl' = (amounts fiso cfg fl)(?c \<mapsto> (sre_core_bytes e, sre_spool_bytes e))" using new by simp
      with True adm banked_reserved [OF sub _ this] show ?thesis by (simp add: admission_def)
    next
      case False
      then have "banked fiso cfg u jo' fl' = banked fiso cfg u jo' fl" for jo' using new by (simp add: banked_def)
      with False stop [OF adm] show ?thesis by (simp add: stopped_def kept_def)
    qed
  next
    fix n' fl \<tau> x fl' assume adm: "?adm fl \<tau>" and r: "reserve (me_storage menv n') ?c (sre_core_bytes e) (sre_spool_bytes e) (Some tree) fl = (Inl x, fl')"
    have "banked fiso cfg u jo' fl' = banked fiso cfg u jo' fl" for jo' using policy_reserve [OF menv r] by (simp add: banked_def)
    with stop [OF adm] show "?stop fl' \<tau>" by (simp add: stopped_def kept_def)
  qed
  have admit: "mruns b ?stop (?decided d) (if \<not> sd_allowed d then denied d else admit_reserved menv env calls canonical) ?post" for d
  proof (cases "sd_allowed d")
    case True
    have "mruns b ?stop ?granted (admit_reserved menv env calls canonical) ?post"
      using mruns_admit_reserved [OF ok bound est conjunct1 [OF can], of b] unfolding conjunct2 [OF can, symmetric] .
    with True show ?thesis by simp
  qed (simp add: mruns_refuse)
  show "mruns b ?stop ?adm (reserve_and_admit menv env calls e tree canonical) ?post"
    unfolding reserve_and_admit_def
    by (rule mruns_mbind, rule mruns_runtime [where \<psi> = "\<lambda>_. ?adm"], erule runtime_ledger(3), assumption, erule stop,
        rule mruns_mbind [OF call admit])
qed

lemma mruns_second_lock:
  fixes env :: "'x queue_env"
  assumes ok: "attempt_ok fiso cfg env L calls u K menv job" and bound: "su_latest u + int n < 2 ^ 63 - 1" and est: "estimate cfg job = Inr e"
  shows "mruns b (stopped fiso cfg u K n None) (kept fiso cfg u K n None) (admission_lock menv (
      mbind (resolve_admission menv env calls job) (\<lambda>second. case second of
        Inl saved \<Rightarrow> mret saved
      | Inr canonical \<Rightarrow> reserve_and_admit menv env calls e tree canonical))) (\<lambda>J. kept fiso cfg u K (Suc n) (Some J))"
proof (rule mruns_lock, rule mruns_mbind, rule mruns_resolve_admission [OF ok bound est])
  fix second :: "RelayJob + RelayJob"
  show "mruns b (stopped fiso cfg u K n None) (admission fiso cfg u K n None job second) (case second of
      Inl saved \<Rightarrow> mret saved | Inr canonical \<Rightarrow> reserve_and_admit menv env calls e tree canonical)
    (\<lambda>J. kept fiso cfg u K (Suc n) (Some J))"
  proof (cases second)
    case (Inl saved)
    show ?thesis unfolding Inl sum.case by (rule mruns_mret, drule admission_known(1)) simp
  next
    case (Inr canonical)
    show ?thesis unfolding Inr sum.case by (rule mruns_reserve_and_admit [OF ok bound est])
  qed
qed (erule kept_stopped)

lemma mruns_managed_submit:
  fixes env :: "'x queue_env"
  assumes ok: "attempt_ok fiso cfg env L calls u K menv job" and bound: "su_latest u + int n < 2 ^ 63 - 1"
  shows "mruns b (stopped fiso cfg u K n jo) (kept fiso cfg u K n jo) (managed_submit_job menv env calls job)
    (\<lambda>J fl \<tau>. jo \<in> {None, Some J} \<and> kept fiso cfg u K (Suc n) (Some J) fl \<tau>)"
    (is "mruns b ?stop ?kept _ ?post")
proof -
  have cfg: "me_config menv = cfg" using ok by (simp add: attempt_ok_def managed_ok_def)
  note stop = kept_stopped [of fiso cfg u K n jo]
  have main: "mruns b ?stop ?kept (mbind (admission_lock menv (resolve_admission menv env calls job)) (\<lambda>first. case first of
         Inl saved \<Rightarrow> mret saved
       | Inr _ \<Rightarrow> mbind (policy_call menv (\<lambda>se. mlift (capture_admission_snapshot se))) (\<lambda>tree_snapshot.
           admission_lock menv (
             mbind (resolve_admission menv env calls job) (\<lambda>second. case second of
               Inl saved \<Rightarrow> mret saved
             | Inr canonical \<Rightarrow> reserve_and_admit menv env calls e tree_snapshot canonical))))) ?post"
    if est: "estimate cfg job = Inr e" for e
  proof (rule mruns_mbind, rule mruns_lock, rule mruns_resolve_admission [OF ok bound est], erule stop, rename_tac first)
    fix first :: "RelayJob + RelayJob"
    show "mruns b ?stop (admission fiso cfg u K n jo job first) (case first of
         Inl saved \<Rightarrow> mret saved
       | Inr _ \<Rightarrow> mbind (policy_call menv (\<lambda>se. mlift (capture_admission_snapshot se))) (\<lambda>tree_snapshot.
           admission_lock menv (
             mbind (resolve_admission menv env calls job) (\<lambda>second. case second of
               Inl saved \<Rightarrow> mret saved
             | Inr canonical \<Rightarrow> reserve_and_admit menv env calls e tree_snapshot canonical)))) ?post"
    proof (cases first)
      case (Inl saved)
      show ?thesis unfolding Inl sum.case by (rule mruns_mret, drule admission_known(1)) simp
    next
      case (Inr canonical)
      have known: "jo = None \<and> kept fiso cfg u K n None fl \<tau>" if "admission fiso cfg u K n jo job (Inr canonical) fl \<tau>" for fl \<tau>
        by (rule admission_known(2) [OF that])
      have "mruns b ?stop (\<lambda>fl \<tau>. jo = None \<and> kept fiso cfg u K n None fl \<tau>)
          (mbind (policy_call menv (\<lambda>se. mlift (capture_admission_snapshot se))) (\<lambda>tree_snapshot.
           admission_lock menv (
             mbind (resolve_admission menv env calls job) (\<lambda>second. case second of
               Inl saved \<Rightarrow> mret saved
             | Inr canonical \<Rightarrow> reserve_and_admit menv env calls e tree_snapshot canonical)))) ?post"
      proof (rule mruns_cond, rule mruns_mbind, rule mruns_policy [where \<psi> = "\<lambda>_. kept fiso cfg u K n None"])
        assume none: "jo = None"
        show "mruns b ?stop (kept fiso cfg u K n None) (admission_lock menv (
             mbind (resolve_admission menv env calls job) (\<lambda>second. case second of
               Inl saved \<Rightarrow> mret saved
             | Inr canonical \<Rightarrow> reserve_and_admit menv env calls e tree canonical))) ?post" for tree
          using mruns_second_lock [OF ok bound est, of b tree] by (simp add: none)
      qed (use stop in \<open>auto simp: mlift_def\<close>)
      then show ?thesis unfolding Inr sum.case by (rule mruns_pre) (rule known)
    qed
  qed
  show ?thesis
    unfolding managed_submit_job_def cfg
    by (rule mruns_guarded, rule mruns_mbind, rule mruns_runtime [where \<psi> = "\<lambda>e fl \<tau>. estimate cfg job = Inr e \<and> ?kept fl \<tau>"],
        erule runtime_ledger(1), simp add: mlift_def, erule stop, rule mruns_cond, rule mruns_as_admission, rule main)
qed

section \<open>Any number of attempts\<close>

text \<open>
  A client that repeats its submission: each attempt is a process of its own, whose policy calls
  observe their own machine and which may stop after a number of durable steps.
\<close>

fun managed_attempts ::
  "'x queue_env \<Rightarrow> 'x submit_calls \<Rightarrow> (managed_env \<times> nat option \<times> RelayJob) list \<Rightarrow> 'x managed_state
     \<Rightarrow> (managed_exn + RelayJob) list \<times> 'x managed_state" where
  "managed_attempts env calls [] s = ([], s)"
| "managed_attempts env calls ((menv, budget, job) # attempts) s =
     (let (r, s') = managed_submit_job menv env calls job (s\<lparr>mq_queue := (mq_queue s)\<lparr>qs_budget := budget\<rparr>\<rparr>);
          (rs, s'') = managed_attempts env calls attempts s' in (r # rs, s''))"

definition outcome :: "RelayJob option \<Rightarrow> managed_env \<times> nat option \<times> RelayJob \<Rightarrow> managed_exn + RelayJob \<Rightarrow> bool" where
  "outcome jo attempt r \<longleftrightarrow> (case r of Inr J \<Rightarrow> jo = Some J | Inl e \<Rightarrow> refused (fst (snd attempt)) e)"

lemma outcome_known: "outcome jo a r \<Longrightarrow> (jo \<noteq> None \<longrightarrow> jo' = jo) \<Longrightarrow> outcome jo' a r"
  by (auto simp: outcome_def split: sum.splits)

lemma rests_queue:
  "rests \<chi> s \<Longrightarrow> stands b \<chi> (s\<lparr>mq_queue := (mq_queue s)\<lparr>qs_budget := b\<rparr>\<rparr>)"
  by (auto simp: rests_def stands_def wf_store_def)

lemma managed_attempts_kept:
  fixes env :: "'x queue_env"
  assumes "\<forall>(menv, b, job) \<in> set attempts. attempt_ok fiso cfg env L calls u K menv job"
    and "rests (kept fiso cfg u K n jo) s" "su_latest u + int (n + length attempts) < 2 ^ 63"
    and "managed_attempts env calls attempts s = (rs, s')"
  shows "\<exists>jo'. rests (kept fiso cfg u K (n + length attempts) jo') s' \<and> (jo \<noteq> None \<longrightarrow> jo' = jo) \<and> list_all2 (outcome jo') attempts rs"
  using assms
proof (induction attempts arbitrary: s n jo rs)
  case Nil
  then show ?case by auto
next
  case (Cons a attempts)
  obtain menv b job where a: "a = (menv, b, job)" by (cases a)
  let ?s = "s\<lparr>mq_queue := (mq_queue s)\<lparr>qs_budget := b\<rparr>\<rparr>"
  obtain r s1 rs1 where one: "managed_submit_job menv env calls job ?s = (r, s1)"
    and rest: "managed_attempts env calls attempts s1 = (rs1, s')" and rs: "rs = r # rs1"
    using Cons.prems(4) by (auto simp: a split: prod.splits)
  have ok: "attempt_ok fiso cfg env L calls u K menv job" using Cons.prems(1) by (auto simp: a)
  have "su_latest u + int n < 2 ^ 63 - 1" using Cons.prems(3) by simp
  from mruns_managed_submit [OF ok this, of b jo, unfolded mruns_def, rule_format, OF rests_queue [OF Cons.prems(2)]]
  have after: "settles b (stopped fiso cfg u K n jo) (\<lambda>J fl \<tau>. jo \<in> {None, Some J} \<and> kept fiso cfg u K (Suc n) (Some J) fl \<tau>) (r, s1)"
    unfolding one .
  obtain jo1 where jo1: "rests (kept fiso cfg u K (Suc n) jo1) s1" "jo \<noteq> None \<longrightarrow> jo1 = jo" "outcome jo1 a r"
  proof (cases r)
    case (Inl e)
    with after have "refused b e" "rests (stopped fiso cfg u K n jo) s1" by simp_all
    then show ?thesis using that Inl by (auto simp: rests_def stopped_def outcome_def a)
  next
    case (Inr J)
    then have "rests (kept fiso cfg u K (Suc n) (Some J)) s1" "jo \<noteq> None \<longrightarrow> Some J = jo"
      using after by (auto simp: stands_def rests_def)
    then show ?thesis using that Inr by (auto simp: outcome_def)
  qed
  have "\<forall>(menv, b, job) \<in> set attempts. attempt_ok fiso cfg env L calls u K menv job"
    "su_latest u + int (Suc n + length attempts) < 2 ^ 63" using Cons.prems(1,3) by simp_all
  from Cons.IH [OF this(1) jo1(1) this(2) rest]
  obtain jo' where jo': "rests (kept fiso cfg u K (Suc n + length attempts) jo') s'" "jo1 \<noteq> None \<longrightarrow> jo' = jo1"
    "list_all2 (outcome jo') attempts rs1" by blast
  have "list_all2 (outcome jo') (a # attempts) rs" unfolding rs using outcome_known [OF jo1(3) jo'(2)] jo'(3) by simp
  moreover have "jo \<noteq> None \<longrightarrow> jo' = jo" using jo1(2) jo'(2) by auto
  ultimately show ?case using jo'(1) by (intro exI [of _ jo']) simp
qed

text \<open>A submission under way adds at most its own job, and what is banked covers it.\<close>

lemma underway_jobs:
  assumes ok: "\<And>k. k \<in> K \<Longrightarrow> submission_ok env L (u\<lparr>su_id := k\<rparr>)" and \<tau>: "underway u K n jo \<tau>"
  shows "\<tau> (JobCell k) = (case jo of Some J \<Rightarrow> if k = rj_job_id J then Some (JobV J) else su_base u (JobCell k) | None \<Rightarrow> su_base u (JobCell k))"
proof (cases "\<tau> = su_base u \<and> jo = None")
  case False
  then obtain c where c: "c \<in> K" "staged (u\<lparr>su_id := c\<rparr>) n jo \<tau>" using \<tau> by (auto simp: underway_def)
  have base: "su_base u (JobCell c) = None" using ok [OF c(1)] by (simp add: submission_ok_def unused_def)
  have frame: "\<tau> (JobCell k) = su_base u (JobCell k)" if "k \<noteq> c"
    using c(2) that by (auto simp: staged_def at_stage_def su_frame_def su_touched_def order_cells_def)
  show ?thesis
  proof (cases jo)
    case None
    then have "\<tau> (JobCell c) = None" using c(2) stage_no_job [of "u\<lparr>su_id := c\<rparr>"] by (auto simp: staged_def)
    with base frame None show ?thesis by (cases "k = c") simp_all
  next
    case (Some J)
    have "underway u {c} n (Some J) \<tau>" using c(2) Some by (simp add: underway_def)
    from underway_job [OF this] Some frame show ?thesis by auto
  qed
qed auto

lemma kept_covers:
  assumes ok: "\<And>k. k \<in> K \<Longrightarrow> submission_ok env L (u\<lparr>su_id := k\<rparr>)" and kept: "kept fiso cfg u K n jo file \<tau>"
  shows "covers cfg (amounts fiso cfg file) \<tau>"
  unfolding covers_def
proof (intro allI impI, elim conjE)
  fix k J assume J: "\<tau> (JobCell k) = Some (JobV J)" "\<not> terminal (rj_state J)"
  have "underway u K n jo \<tau>" and bank: "banked fiso cfg u jo file" using kept by (simp_all add: kept_def)
  from underway_jobs [OF ok this(1), of k] J
  have "jo = Some J \<and> k = rj_job_id J \<or> su_base u (JobCell k) = Some (JobV J)" by (auto split: option.splits if_splits)
  with bank J(2) show "\<exists>e. estimate cfg J = Inr e \<and> amounts fiso cfg file k = Some (sre_core_bytes e, sre_spool_bytes e)"
    by (auto simp: banked_def covers_def)
qed

text \<open>
  C2: no job without its reservation. Let every job of a settled store that is not terminal have its
  estimate reserved in the ledger, and let a client submit the same payload through the
  storage-managed queue any number of times, each attempt under a fresh identifier, on a machine
  that grants or refuses as it likes, possibly stopped after any number of durable steps. Whatever
  happened, at the end every job that is not terminal has exactly its estimate reserved; each attempt
  either returned the one job of this submission or was refused by storage, or stopped because its
  process did; a job that was returned is in the store, and no other job changed.
\<close>

theorem managed_submission_reserved:
  fixes env :: "'x queue_env"
  assumes env: "LeaseAcquisition.env_ok env" and calls: "calls_ok calls" and h: "holds \<sigma> (mq_queue s)" "\<not> mq_closed s"
    and acc: "accepting env L pos latest \<sigma>" and new: "\<sigma> (key_cell key) = None"
    and cov: "covers cfg (amounts fiso cfg (rts_ledger (mq_runtime s))) \<sigma>" and bound: "latest + int (length attempts) < 2 ^ 63"
    and jobs: "\<forall>(menv, b, job) \<in> set attempts. managed_ok fiso cfg menv \<and> submits calls key d r job \<and> unused \<sigma> pos (rj_job_id job)"
    and run: "managed_attempts env calls attempts s = (rs, s')"
  shows "covers cfg (amounts fiso cfg (rts_ledger (mq_runtime s'))) (cells (mq_queue s'))
    \<and> (\<exists>jo. list_all2 (outcome jo) attempts rs
         \<and> (\<forall>k. cells (mq_queue s') (JobCell k) = (case jo of
              Some J \<Rightarrow> if k = rj_job_id J then Some (JobV J) else \<sigma> (JobCell k) | None \<Rightarrow> \<sigma> (JobCell k))))"
proof -
  let ?K = "(\<lambda>(menv, b, job). rj_job_id job) ` set attempts"
  let ?u = "\<lparr>su_base = \<sigma>, su_id = [], su_key = key, su_digest = d, su_reservation = r, su_pos = pos, su_latest = latest\<rparr>"
  have hex: "all_hex 64 d" if k: "k \<in> ?K" for k
  proof -
    obtain job where "submits calls key d r job" using k jobs by auto
    then show ?thesis using submits_bound [of calls key d r job "rj_job_id job"] by (auto simp: submits_def)
  qed
  have ok: "submission_ok env L (?u\<lparr>su_id := k\<rparr>)" if "k \<in> ?K" for k
    using that env acc jobs hex [OF that] by (auto simp: submission_ok_def)
  have att: "\<forall>(menv, b, job) \<in> set attempts. attempt_ok fiso cfg env L calls ?u ?K menv job"
  proof (rule ballI, clarify)
    fix menv b job assume a: "(menv, b, job) \<in> set attempts"
    have "managed_ok fiso cfg menv \<and> submits calls key d r job" using bspec [OF jobs a] by simp
    moreover have "rj_job_id job \<in> ?K" using a by force
    ultimately show "attempt_ok fiso cfg env L calls ?u ?K menv job" using ok calls new by (simp add: attempt_ok_def)
  qed
  have start: "rests (kept fiso cfg ?u ?K 0 None) s" using h cov by (simp add: rests_def holds_def kept_def underway_def banked_def)
  have "su_latest ?u + int (0 + length attempts) < 2 ^ 63" using bound by simp
  from managed_attempts_kept [OF att start this run] obtain jo where
    fin: "rests (kept fiso cfg ?u ?K (0 + length attempts) jo) s'" and all: "list_all2 (outcome jo) attempts rs" by blast
  then have kept: "kept fiso cfg ?u ?K (0 + length attempts) jo (rts_ledger (mq_runtime s')) (cells (mq_queue s'))" by (simp add: rests_def)
  then have "underway ?u ?K (0 + length attempts) jo (cells (mq_queue s'))" by (simp add: kept_def)
  note cells' = underway_jobs [OF ok this, unfolded submission.select_convs]
  from kept_covers [OF ok kept] all show ?thesis by (intro conjI exI [of _ jo] allI cells')
qed

text \<open>Two attempts at a second job, the first of them interrupted.\<close>

definition demo_managed_env :: managed_env where
  "demo_managed_env = \<lparr>me_config = demo_config, me_storage = \<lambda>_. StorageReservations.demo_env,
     me_admission_lock = \<lambda>_. None, me_float_repr = \<lambda>_. ''30.0''\<rparr>"

lemma demo_managed_ok: "managed_ok (se_fromisoformat StorageReservations.demo_env) demo_config demo_managed_env"
  using StorageReservations.demo_env_ok by (simp add: managed_ok_def demo_managed_env_def demo_config_def StorageReservations.demo_env_def)

lemma demo_estimate: "estimate demo_config demo_owned_job = Inr \<lparr>sre_core_bytes = 10, sre_spool_bytes = 20\<rparr>"
  by (simp add: estimate_Inr demo_owned_job_def demo_config_def default_core_bytes_def default_spool_bytes_def default_limits_def GIB_def)

definition demo_managed_state :: "LeaseCapacityPair \<Rightarrow> unit managed_state" where
  "demo_managed_state p = \<lparr>mq_runtime = \<lparr>rts_ledger = LedgerDoc (ledger_envelope demo_ledger), rts_startup = None, rts_last_job_check = []\<rparr>,
     mq_queue = demo_state p None, mq_calls = 0, mq_closed = False\<rparr>"

lemma demo_amounts: "amounts (se_fromisoformat StorageReservations.demo_env) demo_config (LedgerDoc (ledger_envelope demo_ledger)) = [''job_a'' \<mapsto> (10, 20)]"
proof -
  obtain d where d: "reserve (me_storage demo_managed_env 0) ''job_a'' 10 20 (Some demo_tree) LedgerAbsent = (Inr d, LedgerDoc (ledger_envelope demo_ledger))"
    "sd_allowed d" using demo_reserve by (auto simp: demo_managed_env_def)
  from policy_reserve [OF demo_managed_ok d(1)] d(2) show ?thesis by (simp add: ledger_absent)
qed

theorem managed_submission_reserved_witness:
  "\<exists>p rs s' jo. managed_attempts demo_env demo_calls [(demo_managed_env, Some 4, demo_owned_job\<lparr>rj_job_id := ''job_b''\<rparr>),
       (demo_managed_env, None, demo_owned_job\<lparr>rj_job_id := ''job_c''\<rparr>)] (demo_managed_state p) = (rs, s')
     \<and> covers demo_config (amounts (se_fromisoformat StorageReservations.demo_env) demo_config (rts_ledger (mq_runtime s'))) (cells (mq_queue s'))
     \<and> list_all2 (outcome jo) [(demo_managed_env, Some 4, demo_owned_job\<lparr>rj_job_id := ''job_b''\<rparr>),
       (demo_managed_env, None, demo_owned_job\<lparr>rj_job_id := ''job_c''\<rparr>)] rs"
proof -
  obtain p where p: "bound_pair p" "ca_cluster_kind_counts (cp_aggregate p) = []" using empty_pair by auto
  let ?s = "demo_managed_state p" and ?q = "demo_state p None"
  let ?attempts = "[(demo_managed_env, Some 4, demo_owned_job\<lparr>rj_job_id := ''job_b''\<rparr>),
       (demo_managed_env, None, demo_owned_job\<lparr>rj_job_id := ''job_c''\<rparr>)]"
  obtain j d where j: "bind_submission demo_calls demo_owned_job = Inr (j, d)" using demo_bound by blast
  have ids: "durable_id ''job_b''" "durable_id ''job_c''" by code_simp+
  have active: "{k. cells ?q (ActiveCell k) \<noteq> None} = {''job_a''}" by (auto simp: demo_state_def split: if_splits)
  have acc: "accepting demo_env {} Map.empty 0 (cells ?q)"
    unfolding accepting_def active
    using demo_settled [OF p] empty_order
    by (auto simp: well_named_def demo_state_def MAX_ACTIVE_JOB_RECORDS_def demo_owned_job_def split: if_splits)
  have jobs: "\<forall>(menv, b, job) \<in> set ?attempts. managed_ok (se_fromisoformat StorageReservations.demo_env) demo_config menv
      \<and> submits demo_calls ''k'' d None job \<and> unused (cells ?q) Map.empty (rj_job_id job)"
    using demo_submits [OF j] ids demo_managed_ok by (simp add: unused_def demo_state_def)
  have calls: "calls_ok demo_calls" by (simp add: calls_ok_def demo_calls_def mret_def)
  have new: "cells ?q (key_cell ''k'') = None" by (simp add: demo_state_def)
  have cov: "covers demo_config (amounts (se_fromisoformat StorageReservations.demo_env) demo_config (rts_ledger (mq_runtime ?s))) (cells ?q)"
    by (auto simp: covers_def demo_managed_state_def demo_amounts demo_estimate demo_state_def split: if_splits)
  have h: "holds (cells ?q) (mq_queue ?s)" "\<not> mq_closed ?s" using demo_state_wf [of p None] by (simp_all add: demo_managed_state_def)
  obtain rs s' where run: "managed_attempts demo_env demo_calls ?attempts ?s = (rs, s')" by fastforce
  from managed_submission_reserved [OF demo_queue_env_ok calls h acc new cov _ jobs run] run show ?thesis
    by (fastforce simp del: managed_attempts.simps cells.simps)
qed

end
