(* ===== verification/ManagedTransitions.thy ===== *)
theory ManagedTransitions
  imports ManagedSafety
begin

text \<open>
  The other end of a reservation: a job that a transition made terminal gives it back, and only
  then. One lemma serves every transition of the storage-managed queue that returns the saved job.
\<close>

section \<open>Releasing\<close>

lemma policy_release:
  assumes "managed_ok fiso cfg menv" "release (me_storage menv n) k file = (x, file')"
  shows "reserved_in fiso (src_limits cfg) file' = (case x of
      Inr d \<Rightarrow> if sd_allowed d then (reserved_in fiso (src_limits cfg) file)(k := None) else reserved_in fiso (src_limits cfg) file
    | Inl _ \<Rightarrow> reserved_in fiso (src_limits cfg) file)"
proof -
  let ?e = "me_storage menv n"
  have ok: "StorageReservations.env_ok ?e" "se_limits ?e = src_limits cfg" "se_fromisoformat ?e = fiso"
    using assms(1) by (simp_all add: managed_ok_def)
  then have atomic: "atomic_writes ?e" by (simp add: StorageReservations.env_ok_def)
  show ?thesis
  proof (cases "\<exists>d. x = Inr d \<and> sd_allowed d")
    case True
    then obtain d where d: "x = Inr d" "sd_allowed d" by blast
    from release_allowed [OF assms(2) [unfolded d(1)] d(2) ok(1)] d show ?thesis
      by (auto simp: reserved_in_def ok)
  next
    case False
    then have "file' = file" using release_denied [OF assms(2) _ atomic] by blast
    with False show ?thesis by (auto split: sum.splits)
  qed
qed

text \<open>New submissions are refused until a startup reconciliation succeeds.\<close>

definition intake_blocked :: "runtime_state \<Rightarrow> bool" where
  "intake_blocked st \<longleftrightarrow> (\<exists>d. ensure_new_intake_allowed st = (Inl (StorageAdmissionError d), st))"

lemma release_returns:
  assumes "managed_ok fiso cfg menv" "release_reservation menv env k (Some J) s = (Inr (), s')"
  shows "amounts fiso cfg (rts_ledger (mq_runtime s')) k = None \<or> intake_blocked (mq_runtime s')"
proof -
  obtain x file' where r: "release (me_storage menv (mq_calls s)) k (rts_ledger (mq_runtime s)) = (x, file')" by fastforce
  note new = policy_release [OF assms(1) r]
  have quiet: "mq_runtime t' = mq_runtime t"
    if "ignoring_relay_error (mbind (on_queue m) (\<lambda>_. mret ())) t = (y, t')" for m and t t' :: "'a managed_state" and y
    using that by (auto simp: ignoring_relay_error_def mbind_def mret_def on_queue_def split: prod.splits sum.splits if_splits)
  show ?thesis
  proof (cases x)
    case (Inl e)
    then show ?thesis using assms(2) r
      by (simp add: release_reservation_def policy_call_def next_call_def mbind_def on_runtime_def on_ledger_def)
  next
    case (Inr d)
    show ?thesis
    proof (cases "sd_allowed d")
      case True
      then show ?thesis using assms(2) r Inr new
        by (simp add: release_reservation_def policy_call_def next_call_def mbind_def on_runtime_def on_ledger_def mret_def) auto
    next
      case False
      have "rts_startup (mq_runtime s') = Some d"
        using assms(2) r Inr False
        by (auto simp: release_reservation_def policy_call_def next_call_def mbind_app on_runtime_def on_ledger_def block_new_intake_def mupd_def
            dest!: quiet)
      with False show ?thesis by (simp add: intake_blocked_def ensure_new_intake_allowed_def mbind_def mget_def mraise_def)
    qed
  qed
qed

section \<open>Coverage across a transition\<close>

lemma covers_replaced:
  assumes "covers cfg A \<sigma>" "\<sigma> (JobCell k) = Some (JobV job)"
    and "\<And>n. \<tau> (JobCell n) = (if n = k then Some (JobV J) else \<sigma> (JobCell n))"
    and "rj_storage_reservation J = rj_storage_reservation job" "terminal (rj_state job) \<longrightarrow> terminal (rj_state J)"
    and "A' = A \<or> terminal (rj_state J) \<and> A' = A(k := None)"
  shows "covers cfg A' \<tau>"
  unfolding covers_def
proof (intro allI impI, elim conjE)
  fix n I assume I: "\<tau> (JobCell n) = Some (JobV I)" "\<not> terminal (rj_state I)"
  have old: "\<exists>e. estimate cfg H = Inr e \<and> A n = Some (sre_core_bytes e, sre_spool_bytes e)"
    if "\<sigma> (JobCell n) = Some (JobV H)" "\<not> terminal (rj_state H)" for H using assms(1) that by (simp add: covers_def)
  show "\<exists>e. estimate cfg I = Inr e \<and> A' n = Some (sre_core_bytes e, sre_spool_bytes e)"
  proof (cases "n = k")
    case True
    then have J: "I = J" using I(1) assms(3) by simp
    have "A' = A" using assms(6) I(2) J by blast
    moreover have "\<not> terminal (rj_state job)" using assms(5) I(2) J by blast
    ultimately show ?thesis using old [of job] assms(2) True J estimate_cong [OF assms(4), of cfg] by simp
  next
    case False
    then have "\<sigma> (JobCell n) = Some (JobV I)" "A' n = A n" using I(1) assms(3,6) by auto
    with old I(2) show ?thesis by simp
  qed
qed

lemma version_jobs: "version env L \<sigma> lag es J types \<tau> \<Longrightarrow> \<tau> (JobCell n) = (if n = rj_job_id J then Some (JobV J) else \<sigma> (JobCell n))"
  unfolding version_def by (elim conjE, drule notedD(1) [of _ _ _ n]) simp

lemma interrupted_jobs:
  assumes "interrupted env L \<sigma> lag es j j' types \<tau>" "replaces j j' \<sigma>"
  shows "\<exists>J \<in> {j, j'}. \<forall>n. \<tau> (JobCell n) = (if n = rj_job_id j then Some (JobV J) else \<sigma> (JobCell n))"
proof -
  have k: "rj_job_id j' = rj_job_id j" "\<sigma> (JobCell (rj_job_id j)) = Some (JobV j)" using assms(2) by (simp_all add: replaces_def)
  have rolled: "\<tau> (JobCell n) = (if n = rj_job_id J then Some (JobV J) else \<sigma> (JobCell n))" if "syncing J \<sigma> \<tau>" for J n
    using rolling_cell(2) [OF that, of "JobCell n"] by auto
  consider "\<tau> = \<sigma>" | "syncing j \<sigma> \<tau>" | "syncing j' \<sigma> \<tau>" | pre where "version env L \<sigma> (lag + 1) es j' pre \<tau>"
    using assms(1) by (auto simp: interrupted_def writing_def)
  then show ?thesis
  proof cases
    case 1
    then show ?thesis using k by (intro bexI [of _ j]) simp_all
  next
    case 2
    then show ?thesis using rolled by (intro bexI [of _ j]) simp_all
  next
    case 3
    then show ?thesis using rolled [OF 3] k by (intro bexI [of _ j']) simp_all
  next
    case 4
    then show ?thesis using version_jobs [OF 4] k by (intro bexI [of _ j']) simp_all
  qed
qed

lemma mruns_weaken_crash:
  fixes m :: "('x, 'a) managed_op"
  shows "mruns b \<chi> \<phi> m \<psi> \<Longrightarrow> (\<And>file \<tau>. \<chi> file \<tau> \<Longrightarrow> \<chi>' file \<tau>) \<Longrightarrow> mruns b \<chi>' \<phi> m \<psi>"
  unfolding mruns_def
proof (intro allI impI)
  fix s :: "'x managed_state" assume "\<forall>s. stands b \<phi> s \<longrightarrow> settles b \<chi> \<psi> (m s)" "\<And>file \<tau>. \<chi> file \<tau> \<Longrightarrow> \<chi>' file \<tau>" "stands b \<phi> s"
  then show "settles b \<chi>' \<psi> (m s)" by (cases "m s"; cases "fst (m s)") (auto simp: rests_def)
qed

lemma mruns_ignoring:
  fixes m :: "('x, 'a) queue_op"
  assumes "\<And>file \<tau>. \<phi> file \<tau> \<Longrightarrow> runs (\<chi> file) \<tau> m (\<lambda>x. \<psi> file)"
  shows "mruns b \<chi> \<phi> (ignoring_relay_error (mbind (on_queue m) (\<lambda>_. mret ()))) (\<lambda>_. \<psi>)"
  unfolding mruns_def
proof (intro allI impI)
  fix s :: "'x managed_state" assume s: "stands b \<phi> s"
  obtain r q where m: "m (mq_queue s) = (r, q)" by fastforce
  have h: "holds (cells (mq_queue s)) (mq_queue s)" using s by (simp add: stands_def holds_def)
  have "good_outcome (\<chi> (rts_ledger (mq_runtime s))) (\<lambda>x. \<psi> (rts_ledger (mq_runtime s))) (qs_budget (mq_queue s)) r q"
    by (rule runsD [OF assms h m]) (use s in \<open>simp add: stands_def\<close>)
  then show "settles b \<chi> (\<lambda>_. \<psi>) (ignoring_relay_error (mbind (on_queue m) (\<lambda>_. mret ())) s)"
    by (cases rule: good_outcome_cases)
       (use s m in \<open>auto simp: ignoring_relay_error_def mbind_def mret_def on_queue_def stands_def rests_def refused_def\<close>)
qed

text \<open>
  The stage between a transition and its release: the new version is in the queue, and the ledger
  holds what it held, or that without the reservation of a job that is now terminal.
\<close>

definition handed ::
  "iso_parser \<Rightarrow> StorageRuntimeConfig \<Rightarrow> (string \<Rightarrow> (int \<times> int) option) \<Rightarrow> content \<Rightarrow> RelayJob \<Rightarrow> ledger_file \<Rightarrow> content \<Rightarrow> bool" where
  "handed fiso cfg A \<sigma> J fl \<tau> \<longleftrightarrow>
     (\<forall>n. \<tau> (JobCell n) = (if n = rj_job_id J then Some (JobV J) else \<sigma> (JobCell n)))
     \<and> (amounts fiso cfg fl = A \<or> terminal (rj_state J) \<and> amounts fiso cfg fl = A(rj_job_id J := None))"

lemma mruns_release:
  fixes env :: "'x queue_env"
  assumes menv: "managed_ok fiso cfg menv" and J: "terminal (rj_state J)" "durable_id (rj_job_id J)"
  shows "mruns b (handed fiso cfg A \<sigma> J) (\<lambda>fl \<tau>. version env L \<sigma> 0 es J types \<tau> \<and> amounts fiso cfg fl = A)
    (release_reservation menv env (rj_job_id J) (Some J)) (\<lambda>_. handed fiso cfg A \<sigma> J)"
proof -
  let ?mid = "\<lambda>fl \<tau>. version env L \<sigma> 0 es J types \<tau> \<and> handed fiso cfg A \<sigma> J fl \<tau>"
  have policy: "?mid fl' \<tau>" if "version env L \<sigma> 0 es J types \<tau> \<and> amounts fiso cfg fl = A"
    "release (me_storage menv n) (rj_job_id J) fl = (x, fl')" for n fl \<tau> x fl'
    using that J version_jobs [of env L \<sigma> 0 es J types \<tau>] policy_release [OF menv that(2)]
    by (auto simp: handed_def split: sum.splits if_splits)
  have event: "runs (handed fiso cfg A \<sigma> J fl) \<tau> (append_event env (rj_job_id J) etype message payload) (\<lambda>_. handed fiso cfg A \<sigma> J fl)"
    if mid: "?mid fl \<tau>" for fl \<tau> etype message payload
  proof -
    obtain fs where log: "event_log 0 \<tau> (rj_job_id J) (es @ fs)" using mid by (auto simp: version_def)
    show ?thesis
      by (rule runs_append_event [OF J(2) log]) (use mid in \<open>auto simp: handed_def DEFAULT_EXACT_RECORD_LIMIT_def\<close>)
  qed
  have rest: "mruns b (handed fiso cfg A \<sigma> J) ?mid (if sd_allowed d then mret () else mbind (on_runtime (block_new_intake d)) (\<lambda>_.
      case Some J of None \<Rightarrow> denied d
      | Some job \<Rightarrow> ignoring_relay_error (mbind (on_queue (append_event env (rj_job_id job)
               ''storage.reservation_release_failed'' ''Terminal job storage reservation could not be released''
               (StorageDecision_to_dict (me_float_repr menv) d))) (\<lambda>_. mret ())))) (\<lambda>_. handed fiso cfg A \<sigma> J)" for d
  proof (cases "sd_allowed d")
    case False
    show ?thesis
      unfolding if_not_P [OF False] option.case
      by (rule mruns_mbind, rule mruns_runtime [where \<psi> = "\<lambda>_. ?mid"], erule runtime_ledger(2), assumption, erule conjunct2,
          rule mruns_ignoring, erule event)
  qed (simp, rule mruns_mret, erule conjunct2)
  show ?thesis
    unfolding release_reservation_def
    by (rule mruns_mbind [OF _ rest], rule mruns_policy) (use policy in blast)+
qed

section \<open>Transitions\<close>

definition successor :: "RelayJob \<Rightarrow> RelayJob \<Rightarrow> bool" where
  "successor job J \<longleftrightarrow> rj_job_id J = rj_job_id job \<and> rj_storage_reservation J = rj_storage_reservation job
     \<and> (terminal (rj_state job) \<longrightarrow> terminal (rj_state J))"

lemma handed_covers:
  assumes "covers cfg A \<sigma>" "\<sigma> (JobCell (rj_job_id job)) = Some (JobV job)" "successor job J" "handed fiso cfg A \<sigma> J fl \<tau>"
  shows "covers cfg (amounts fiso cfg fl) \<tau>"
  by (rule covers_replaced [OF assms(1,2), where J = J]) (use assms(3,4) in \<open>auto simp: handed_def successor_def\<close>)

text \<open>The body every transition of the managed queue has; \<open>rel\<close> is the release of the saved job.\<close>

abbreviation then_release :: "('x, 'a) queue_op \<Rightarrow> (RelayJob \<Rightarrow> ('x, unit) managed_op) \<Rightarrow> ('a \<Rightarrow> RelayJob) \<Rightarrow> ('x, 'a) managed_op" where
  "then_release m rel sel \<equiv> mbind (on_queue m) (\<lambda>x. mbind (rel (sel x)) (\<lambda>_. mret x))"

lemma mruns_then_release:
  fixes env :: "'x queue_env" and m :: "('x, 'a) queue_op"
  assumes menv: "managed_ok fiso cfg menv" and \<sigma>: "settled env L {} \<sigma>" and job: "\<sigma> (JobCell k) = Some (JobV job)"
    and f: "\<And>now. replaces job (f now) \<sigma>" "\<And>now. successor job (f now)" and sel: "\<And>j. sel (g j) = j"
    and rel: "\<And>now. rel (f now) = release_if_terminal menv env (f now)"
    and run: "\<And>P Q. P \<sigma> \<Longrightarrow> (\<And>now \<tau>. interrupted env L \<sigma> lag es job (f now) types \<tau> \<Longrightarrow> P \<tau>)
      \<Longrightarrow> (\<And>now \<tau>. version env L \<sigma> 0 es (f now) types \<tau> \<Longrightarrow> Q (g (f now)) \<tau>) \<Longrightarrow> runs P \<sigma> m Q"
  shows "mruns b (\<lambda>fl \<tau>. \<exists>J. successor job J \<and> handed fiso cfg A \<sigma> J fl \<tau>) (\<lambda>fl \<tau>. \<tau> = \<sigma> \<and> amounts fiso cfg fl = A)
    (then_release m rel sel) (\<lambda>x fl \<tau>. (\<exists>now. x = g (f now)) \<and> successor job (sel x) \<and> handed fiso cfg A \<sigma> (sel x) fl \<tau>)"
    (is "mruns b ?stop _ _ ?post")
proof -
  have k: "durable_id k" "rj_job_id job = k" using \<sigma> jobs_okD [of "{}" \<sigma> k job] job by (auto simp: settled_def)
  have fk: "rj_job_id (f now) = k" for now using f(2) [of now] k by (simp add: successor_def)
  let ?mid = "\<lambda>x fl \<tau>. (\<exists>now. x = g (f now)) \<and> version env L \<sigma> 0 es (sel x) types \<tau> \<and> amounts fiso cfg fl = A"
  have start: "?stop fl \<sigma>" if "amounts fiso cfg fl = A" for fl
    using that job k by (intro exI [of _ job]) (simp add: handed_def successor_def)
  have cut: "?stop fl \<tau>" if i: "interrupted env L \<sigma> lag es job (f now) types \<tau>" and A: "amounts fiso cfg fl = A" for fl \<tau> now
  proof -
    obtain J where J: "J \<in> {job, f now}" "\<forall>n. \<tau> (JobCell n) = (if n = rj_job_id job then Some (JobV J) else \<sigma> (JobCell n))"
      using interrupted_jobs [OF i f(1)] by blast
    have "successor job J" using J(1) f(2) by (auto simp: successor_def)
    with J A show ?thesis by (intro exI [of _ J]) (simp add: handed_def successor_def)
  qed
  have queue: "mruns b ?stop (\<lambda>fl \<tau>. \<tau> = \<sigma> \<and> amounts fiso cfg fl = A) (on_queue m) ?mid"
  proof (rule mruns_queue)
    fix fl \<tau> assume A: "\<tau> = \<sigma> \<and> amounts fiso cfg fl = A"
    have "runs (?stop fl) \<sigma> m (\<lambda>x. ?mid x fl)"
    proof (rule run)
      show "?stop fl \<sigma>" using start A by blast
      show "?stop fl \<rho>" if "interrupted env L \<sigma> lag es job (f now) types \<rho>" for now \<rho> using cut that A by blast
      show "?mid (g (f now)) fl \<rho>" if "version env L \<sigma> 0 es (f now) types \<rho>" for now \<rho> using that A by (auto simp: sel)
    qed
    with A show "runs (?stop fl) \<tau> m (\<lambda>x. ?mid x fl)" by simp
  qed
  have "mruns b ?stop (?mid x) (mbind (rel (sel x)) (\<lambda>_. mret x)) ?post" for x
  proof (rule mruns_fact [of _ "(\<exists>now. x = g (f now)) \<and> successor job (sel x) \<and> rj_job_id (sel x) = k"])
    show "(\<exists>now. x = g (f now)) \<and> successor job (sel x) \<and> rj_job_id (sel x) = k" if "?mid x fl \<tau>" for fl \<tau>
      using that f(2) fk sel by auto
    assume x: "(\<exists>now. x = g (f now)) \<and> successor job (sel x) \<and> rj_job_id (sel x) = k"
    then have same: "rel (sel x) = release_if_terminal menv env (sel x)" using rel sel by auto
    have "mruns b (handed fiso cfg A \<sigma> (sel x)) (\<lambda>fl \<tau>. version env L \<sigma> 0 es (sel x) types \<tau> \<and> amounts fiso cfg fl = A)
        (release_if_terminal menv env (sel x)) (\<lambda>_. handed fiso cfg A \<sigma> (sel x))"
    proof (cases "terminal (rj_state (sel x))")
      case True
      then show ?thesis using mruns_release [OF menv True] x k by (simp add: release_if_terminal_def)
    next
      case False
      then show ?thesis using version_jobs [of env L \<sigma> 0 es "sel x" types]
        by (simp add: release_if_terminal_def) (rule mruns_mret, simp add: handed_def)
    qed
    then have "mruns b ?stop (\<lambda>fl \<tau>. version env L \<sigma> 0 es (sel x) types \<tau> \<and> amounts fiso cfg fl = A)
        (release_if_terminal menv env (sel x)) (\<lambda>_. handed fiso cfg A \<sigma> (sel x))" by (rule mruns_weaken_crash) (use x in blast)
    then have "mruns b ?stop (?mid x) (release_if_terminal menv env (sel x)) (\<lambda>_. handed fiso cfg A \<sigma> (sel x))"
      by (rule mruns_pre) blast
    then show "mruns b ?stop (?mid x) (mbind (rel (sel x)) (\<lambda>_. mret x)) ?post"
      unfolding same by (rule mruns_mbind) (rule mruns_mret, use x in simp)
  qed
  then show ?thesis by (rule mruns_mbind [OF queue])
qed

text \<open>
  What the managed queue puts around such a body: nothing of the durable state changes before it,
  and a result is the body's.
\<close>

definition wraps :: "('x, 'a) managed_op \<Rightarrow> ('x, 'a) managed_op \<Rightarrow> bool" where
  "wraps w m \<longleftrightarrow> (\<forall>b \<chi> \<phi> \<psi>. mruns b \<chi> \<phi> m \<psi> \<and> (\<forall>fl \<tau>. \<phi> fl \<tau> \<longrightarrow> \<chi> fl \<tau>) \<longrightarrow> mruns b \<chi> \<phi> w \<psi>)
     \<and> (\<forall>s x s'. w s = (Inr x, s') \<longrightarrow> (\<exists>t. m t = (Inr x, s')))"

lemma wraps_guarded: "wraps w m \<Longrightarrow> wraps (guarded w) m"
proof -
  assume w: "wraps w m"
  have "\<exists>t. m t = (Inr x, s')" if "guarded w s = (Inr x, s')" for s x s'
    using that w by (auto simp: wraps_def guarded_def mbind_def mget_def split: if_splits)
  moreover have "mruns b \<chi> \<phi> (guarded w) \<psi>" if "mruns b \<chi> \<phi> m \<psi>" "\<forall>fl \<tau>. \<phi> fl \<tau> \<longrightarrow> \<chi> fl \<tau>" for b \<chi> \<phi> \<psi>
    using that w by (intro mruns_guarded) (simp add: wraps_def)
  ultimately show ?thesis by (simp add: wraps_def)
qed

lemma wraps_locked: "wraps (as_admission_error (admission_lock menv m)) m"
proof -
  have "\<exists>t. m t = (Inr x, s')" if "as_admission_error (admission_lock menv m) s = (Inr x, s')" for s x s'
    using that
    by (auto simp: as_admission_error_def admission_lock_def next_call_def mbind_def mraise_def
        split: prod.splits sum.splits managed_exn.splits runtime_exn.splits storage_exn.splits option.splits)
  moreover have "mruns b \<chi> \<phi> (as_admission_error (admission_lock menv m)) \<psi>"
    if "mruns b \<chi> \<phi> m \<psi>" "\<forall>fl \<tau>. \<phi> fl \<tau> \<longrightarrow> \<chi> fl \<tau>" for b \<chi> \<phi> \<psi>
    using that by (intro mruns_as_admission mruns_lock) blast+
  ultimately show ?thesis by (simp add: wraps_def)
qed

lemma wraps_refl: "wraps m m"
  by (auto simp: wraps_def)

text \<open>What a transition of the job \<open>k\<close> may do to the ledger.\<close>

definition gives_back ::
  "iso_parser \<Rightarrow> StorageRuntimeConfig \<Rightarrow> string \<Rightarrow> 'x managed_state \<Rightarrow> ('a \<Rightarrow> RelayJob) \<Rightarrow> (managed_exn + 'a) \<times> 'x managed_state \<Rightarrow> bool" where
  "gives_back fiso cfg k s sel r \<longleftrightarrow> (let A = amounts fiso cfg (rts_ledger (mq_runtime s));
       A' = amounts fiso cfg (rts_ledger (mq_runtime (snd r))); \<tau> = cells (mq_queue (snd r)) in
     covers cfg A' \<tau> \<and> A' \<in> {A, A(k := None)}
     \<and> (case fst r of
          Inl e \<Rightarrow> refused (qs_budget (mq_queue s)) e
        | Inr x \<Rightarrow> \<tau> (JobCell k) = Some (JobV (sel x))
            \<and> (if terminal (rj_state (sel x)) then A' k = None \<or> intake_blocked (mq_runtime (snd r)) else A' = A)))"

lemma gives_back_result:
  fixes env :: "'x queue_env" and m :: "('x, 'a) queue_op"
  assumes menv: "managed_ok fiso cfg menv" and h: "holds \<sigma> (mq_queue s)" "\<not> mq_closed s"
    and \<sigma>: "settled env L {} \<sigma>" and job: "\<sigma> (JobCell k) = Some (JobV job)"
    and cov: "covers cfg (amounts fiso cfg (rts_ledger (mq_runtime s))) \<sigma>"
    and w: "wraps w (then_release m rel sel)"
    and f: "\<And>now. replaces job (f now) \<sigma>" "\<And>now. successor job (f now)" and sel: "\<And>j. sel (g j) = j"
    and rel: "\<And>now. rel (f now) = release_if_terminal menv env (f now)"
    and run: "\<And>P Q. P \<sigma> \<Longrightarrow> (\<And>now \<tau>. interrupted env L \<sigma> lag es job (f now) types \<tau> \<Longrightarrow> P \<tau>)
      \<Longrightarrow> (\<And>now \<tau>. version env L \<sigma> 0 es (f now) types \<tau> \<Longrightarrow> Q (g (f now)) \<tau>) \<Longrightarrow> runs P \<sigma> m Q"
  shows "gives_back fiso cfg k s sel (w s) \<and> (\<forall>x. fst (w s) = Inr x \<longrightarrow> (\<exists>now. x = g (f now)))"
proof -
  let ?A = "amounts fiso cfg (rts_ledger (mq_runtime s))" and ?b = "qs_budget (mq_queue s)"
  let ?stop = "\<lambda>fl \<tau>. \<exists>J. successor job J \<and> handed fiso cfg ?A \<sigma> J fl \<tau>"
  let ?post = "\<lambda>x fl \<tau>. (\<exists>now. x = g (f now)) \<and> successor job (sel x) \<and> handed fiso cfg ?A \<sigma> (sel x) fl \<tau>"
  have k: "rj_job_id job = k" using \<sigma> jobs_okD [of "{}" \<sigma> k job] job by (auto simp: settled_def)
  obtain r s' where out: "w s = (r, s')" by fastforce
  have "mruns ?b ?stop (\<lambda>fl \<tau>. \<tau> = \<sigma> \<and> amounts fiso cfg fl = ?A) (then_release m rel sel) ?post"
    by (rule mruns_then_release [where f = f and g = g and rel = rel, OF menv \<sigma> job f sel rel]) (rule run)
  moreover have "?stop fl \<tau>" if "\<tau> = \<sigma> \<and> amounts fiso cfg fl = ?A" for fl \<tau>
    using that job k by (intro exI [of _ job]) (simp add: handed_def successor_def)
  ultimately have "mruns ?b ?stop (\<lambda>fl \<tau>. \<tau> = \<sigma> \<and> amounts fiso cfg fl = ?A) w ?post" using w unfolding wraps_def by blast
  moreover have "stands ?b (\<lambda>fl \<tau>. \<tau> = \<sigma> \<and> amounts fiso cfg fl = ?A) s" using h by (simp add: stands_def holds_def)
  ultimately have after: "settles ?b ?stop ?post (r, s')" unfolding mruns_def out [symmetric] by blast
  note base = cov job [folded k]
  show ?thesis
  proof (cases r)
    case (Inl e)
    with after obtain J where J: "refused ?b e" "successor job J" "handed fiso cfg ?A \<sigma> J (rts_ledger (mq_runtime s')) (cells (mq_queue s'))"
      by (auto simp: rests_def)
    have "rj_job_id J = k" using J(2) k by (simp add: successor_def)
    with J handed_covers [OF base J(2,3)] show ?thesis
      by (auto simp: gives_back_def out Inl Let_def handed_def)
  next
    case (Inr x)
    with after have J: "successor job (sel x)" "handed fiso cfg ?A \<sigma> (sel x) (rts_ledger (mq_runtime s')) (cells (mq_queue s'))"
      and new: "\<exists>now. x = g (f now)" by (auto simp: stands_def)
    have id: "rj_job_id (sel x) = k" using J(1) k by (simp add: successor_def)
    have released: "amounts fiso cfg (rts_ledger (mq_runtime s')) k = None \<or> intake_blocked (mq_runtime s')" if "terminal (rj_state (sel x))"
    proof -
      obtain t0 where "then_release m rel sel t0 = (Inr x, s')" using w out Inr unfolding wraps_def by blast
      then obtain t where "rel (sel x) t = (Inr (), s')" by (auto simp: mbind_eq_Inr mret_def)
      moreover have "rel (sel x) = release_if_terminal menv env (sel x)" using new rel sel by auto
      ultimately show ?thesis using release_returns [OF menv, of env k "sel x" t s'] that id by (simp add: release_if_terminal_def)
    qed
    from J id handed_covers [OF base J] released new show ?thesis
      by (auto simp: gives_back_def out Inr Let_def handed_def simp del: cells.simps)
  qed
qed

lemmas gives_back_intro = gives_back_result [THEN conjunct1]

lemma managed_cancel_split:
  "managed_cancel_job_if_active menv env ensure_pending k cancel_scheduler expected_state expected_updated_at
     = guarded (then_release (cancel_job_if_active env ensure_pending k cancel_scheduler expected_state expected_updated_at)
         (release_if_terminal menv env) fst)"
  unfolding managed_cancel_job_if_active_def by (simp add: case_prod_unfold)

text \<open>
  C9: a reservation lives exactly as long as its job. Let every job of a settled store that is not
  terminal have its estimate reserved. Then, through the storage-managed queue, a state update of one
  job, a cancellation request and its acknowledgement, wherever the process stops and whatever the
  ledger answers, leave every job that is not terminal with its reservation and no other
  job's reservation touched; a transition that returns a job still running changed the ledger in
  nothing, and one that returns a terminal job has given its reservation back, or, when the ledger
  could not be written, has closed the intake of new jobs.
\<close>

theorem terminal_jobs_give_back:
  fixes env :: "'x queue_env"
  assumes env: "LeaseAcquisition.env_ok env" and menv: "managed_ok fiso cfg menv" and h: "holds \<sigma> (mq_queue s)" "\<not> mq_closed s"
    and \<sigma>: "settled env L {} \<sigma>" and job: "\<sigma> (JobCell k) = Some (JobV job)" "\<not> terminal (rj_state job)"
    and cov: "covers cfg (amounts fiso cfg (rts_ledger (mq_runtime s))) \<sigma>"
    and endpoint: "\<forall>e. leased_by = Some (Some e) \<longrightarrow> durable_id e"
    and expected: "expected_state \<in> {None, Some (rj_state job)}" "expected_updated_at \<in> {None, Some (rj_updated_at job)}"
    and pending: "\<forall>j t m x. \<exists>x'. ensure_pending j t m x = (Inr (), x')"
    and log: "event_log lag \<sigma> k es" "lag < DEFAULT_EXACT_RECORD_LIMIT"
  shows "gives_back fiso cfg k s (\<lambda>J. J) (managed_update_job_state menv env k state message error leased_by s)
    \<and> gives_back fiso cfg k s fst
        (managed_cancel_job_if_active menv env ensure_pending k cancel_scheduler expected_state expected_updated_at s)
    \<and> (\<forall>request. as_obj (doc_get (rj_metadata job) ''cancellation_request'') = Some request \<longrightarrow>
        gives_back fiso cfg k s (\<lambda>J. J) (managed_acknowledge_job_cancellation menv env k s))"
proof (intro conjI allI impI)
  note goal = gives_back_intro [OF menv h \<sigma> job(1) cov wraps_guarded [OF wraps_refl], where rel = "release_if_terminal menv env"]
  have open_: "\<not> terminal (rj_state job) \<or> state = rj_state job" using job(2) by blast
  note k = cancel_versions [OF \<sigma> job(1)] and w = with_state_replaces [OF \<sigma> job(1)]
  show "gives_back fiso cfg k s (\<lambda>J. J) (managed_update_job_state menv env k state message error leased_by s)"
    unfolding managed_update_job_state_def
    by (rule goal [where g = "\<lambda>j. j" and f = "with_state job state error leased_by"], rule w(1),
        use job(2) in \<open>simp add: successor_def with_state_def\<close>, rule refl, rule refl, rule runs_update_job_state [OF env \<sigma> job(1) open_ endpoint log])
  show "gives_back fiso cfg k s fst
      (managed_cancel_job_if_active menv env ensure_pending k cancel_scheduler expected_state expected_updated_at s)"
    unfolding managed_cancel_split
    by (rule goal [where g = "\<lambda>j. (j, True)" and f = "cancel_requested env job cancel_scheduler"], rule k(3),
        use job(2) in \<open>simp add: successor_def cancel_requested_def Let_def\<close>, rule fst_conv, rule refl,
        rule runs_cancel_job_if_active [OF env \<sigma> job expected pending log])
  fix request assume req: "as_obj (doc_get (rj_metadata job) ''cancellation_request'') = Some request"
  show "gives_back fiso cfg k s (\<lambda>J. J) (managed_acknowledge_job_cancellation menv env k s)"
    unfolding managed_acknowledge_job_cancellation_def
    by (rule goal [where g = "\<lambda>j. j" and f = "cancel_acknowledged env job request"], rule k(4),
        use job(2) in \<open>simp add: successor_def cancel_acknowledged_def\<close>, rule refl, rule refl,
        rule runs_acknowledge_job_cancellation [OF env \<sigma> job log req])
qed

text \<open>A queued job is canceled and its reservation is released.\<close>

theorem terminal_jobs_give_back_witness:
  "\<exists>p. gives_back (se_fromisoformat StorageReservations.demo_env) demo_config ''job_a'' (demo_managed_state p) (\<lambda>J. J)
       (managed_update_job_state demo_managed_env demo_env ''job_a'' SUCCEEDED None None None (demo_managed_state p))
     \<and> gives_back (se_fromisoformat StorageReservations.demo_env) demo_config ''job_a'' (demo_managed_state p) fst
       (managed_cancel_job_if_active demo_managed_env demo_env (\<lambda>_ _ _ x. (Inr (), x)) ''job_a'' True (Some QUEUED) None (demo_managed_state p))"
proof -
  obtain p where p: "bound_pair p" "ca_cluster_kind_counts (cp_aggregate p) = []" using empty_pair by auto
  let ?s = "demo_managed_state p" and ?q = "demo_state p None"
  have job: "cells ?q (JobCell ''job_a'') = Some (JobV demo_owned_job)" by (simp add: demo_state_def)
  have st: "rj_state demo_owned_job = QUEUED" by (simp add: demo_owned_job_def)
  have live: "\<not> terminal (rj_state demo_owned_job)" by (simp add: st TERMINAL_STATES_def)
  have cov: "covers demo_config (amounts (se_fromisoformat StorageReservations.demo_env) demo_config (rts_ledger (mq_runtime ?s))) (cells ?q)"
    by (auto simp: covers_def demo_managed_state_def demo_amounts demo_estimate demo_state_def split: if_splits)
  have h: "holds (cells ?q) (mq_queue ?s)" "\<not> mq_closed ?s" using demo_state_wf [of p None] by (simp_all add: demo_managed_state_def)
  have expected: "Some QUEUED \<in> {None, Some (rj_state demo_owned_job)}" "None \<in> {None, Some (rj_updated_at demo_owned_job)}"
    by (simp_all add: st)
  have pending: "\<forall>(j :: RelayJob) (t :: timestamp) (m :: string) (x :: unit). \<exists>x'. (\<lambda>_ _ _ x. (Inr (), x)) j t m x = (Inr () :: py_error + unit, x')"
    by simp
  have lag: "0 < DEFAULT_EXACT_RECORD_LIMIT" by (simp add: DEFAULT_EXACT_RECORD_LIMIT_def)
  have none: "\<forall>e. (None :: string option option) = Some (Some e) \<longrightarrow> durable_id e" by simp
  from terminal_jobs_give_back [OF demo_queue_env_ok demo_managed_ok h demo_settled [OF p] job live cov none expected pending demo_event_log lag]
  show ?thesis by blast
qed

end
