(* ===== verification/ErrorDetail.thy ===== *)
theory ErrorDetail
  imports WorkerConcurrency "HOL-Library.Product_Lexorder"
begin

text \<open>
  Bounded error details (\<^verbatim>\<open>bounded_error_detail\<close> of \<^verbatim>\<open>command_evidence.py\<close>): a diagnostic kept in a durable record is cut to
  a number of bytes, with the first diagnostic at its head and the last bytes at its tail. Here text is what a
  Python \<^verbatim>\<open>str\<close> is, a list of Unicode code points, lone surrogates included, and UTF-8 has one to four bytes a character;
  \<open>error_detail\<close> at the end is the same function on the Latin-1 text of the other theories.
\<close>

section \<open>Code points and UTF-8\<close>

type_synonym codepoints = "nat list"
type_synonym bytes = "nat list"

definition surrogate :: "nat \<Rightarrow> bool" where
  "surrogate c \<longleftrightarrow> 55296 \<le> c \<and> c < 57344"

definition scalar :: "nat \<Rightarrow> bool" where
  "scalar c \<longleftrightarrow> c < 1114112 \<and> \<not> surrogate c"

definition text_of :: "string \<Rightarrow> codepoints" where
  "text_of s = map of_char s"

text \<open>\<^verbatim>\<open>str.encode("utf-8")\<close>, of text without surrogates, and with \<^verbatim>\<open>errors="replace"\<close>\<close>

definition utf8_bytes :: "nat \<Rightarrow> bytes" where
  "utf8_bytes c =
     (if c < 128 then [c]
      else if c < 2048 then [192 + c div 64, 128 + c mod 64]
      else if c < 65536 then [224 + c div 4096, 128 + c div 64 mod 64, 128 + c mod 64]
      else [240 + c div 262144, 128 + c div 4096 mod 64, 128 + c div 64 mod 64, 128 + c mod 64])"

definition utf8_text :: "codepoints \<Rightarrow> bytes" where
  "utf8_text t = concat (map utf8_bytes t)"

definition utf8_replace :: "codepoints \<Rightarrow> bytes" where
  "utf8_replace t = concat (map (\<lambda>c. if surrogate c then [63] else utf8_bytes c) t)"

text \<open>
  \<^verbatim>\<open>bytes.decode("utf-8", errors="ignore")\<close>: a sequence is decoded only if it is the encoding of a character, and
  otherwise its lead byte is dropped; the continuation bytes left then are no lead bytes and go one by one. On
  the encoding of a text this is \<^verbatim>\<open>bytes.decode("utf-8")\<close>.
\<close>

definition utf8_length :: "nat \<Rightarrow> nat" where
  "utf8_length b = (if 194 \<le> b \<and> b < 224 then 1 else if 224 \<le> b \<and> b < 240 then 2 else if 240 \<le> b \<and> b < 245 then 3 else 0)"

definition utf8_value :: "nat \<Rightarrow> bytes \<Rightarrow> nat" where
  "utf8_value b s = foldl (\<lambda>a c. a * 64 + (c - 128))
     (if b < 128 then b else if b < 224 then b - 192 else if b < 240 then b - 224 else b - 240) (take (utf8_length b) s)"

function utf8_decode :: "bytes \<Rightarrow> codepoints" where
  "utf8_decode [] = []"
| "utf8_decode (b # s) =
     (let c = utf8_value b s; n = utf8_length b in
      if scalar c \<and> utf8_bytes c = b # take n s then c # utf8_decode (drop n s) else utf8_decode s)"
  by pat_completeness auto

termination by (relation "measure length") auto

section \<open>Text\<close>

definition ERROR_DETAIL_MAX_BYTES :: nat where "ERROR_DETAIL_MAX_BYTES = 4096"
definition ERROR_DETAIL_SUMMARY_TAIL_BYTES :: nat where "ERROR_DETAIL_SUMMARY_TAIL_BYTES = 1024"

definition TRACEBACK_MARKER :: string where "TRACEBACK_MARKER = ''Traceback (most recent call last):''"

text \<open>
  The line boundaries of \<^verbatim>\<open>str.splitlines\<close>, the white space of \<^verbatim>\<open>str.strip\<close>, and \<^verbatim>\<open>str.casefold\<close> as far as it meets one of the two
  words it is compared with: besides the ASCII capitals only the long s folds into a letter of theirs,
  and no character folds into two adjacent ones.
\<close>

definition line_break :: "nat \<Rightarrow> bool" where
  "line_break c \<longleftrightarrow> c \<in> {10, 11, 12, 13, 28, 29, 30, 133, 8232, 8233}"

definition white_space :: "nat \<Rightarrow> bool" where
  "white_space c \<longleftrightarrow> 9 \<le> c \<and> c \<le> 13 \<or> 28 \<le> c \<and> c \<le> 32 \<or> 8192 \<le> c \<and> c \<le> 8202
     \<or> c \<in> {133, 160, 5760, 8232, 8233, 8239, 8287, 12288}"

definition casefold :: "codepoints \<Rightarrow> codepoints" where
  "casefold t = map (\<lambda>c. if 65 \<le> c \<and> c \<le> 90 then c + 32 else if c = 383 then 115 else c) t"

fun splitlines :: "codepoints \<Rightarrow> codepoints list" where
  "splitlines [] = []"
| "splitlines (c # s) =
     (if c = 13 \<and> (case s of [] \<Rightarrow> False | d # _ \<Rightarrow> d = 10) then [c, hd s] # splitlines (tl s)
      else if line_break c then [c] # splitlines s
      else case splitlines s of [] \<Rightarrow> [[c]] | l # ls \<Rightarrow> (c # l) # ls)"

definition strip_where :: "(nat \<Rightarrow> bool) \<Rightarrow> codepoints \<Rightarrow> codepoints" where
  "strip_where p s = rev (dropWhile p (rev (dropWhile p s)))"

fun py_find :: "codepoints \<Rightarrow> nat \<Rightarrow> codepoints \<Rightarrow> nat option" where
  "py_find sub i s = (if take (length sub) s = sub then Some i else case s of [] \<Rightarrow> None | _ # t \<Rightarrow> py_find sub (Suc i) t)"

section \<open>The excerpt\<close>

fun pytest_headings :: "nat \<Rightarrow> codepoints list \<Rightarrow> (nat \<times> string) list" where
  "pytest_headings offset [] = []"
| "pytest_headings offset (line # rest) =
     (let heading = casefold (strip_where white_space (strip_where ((=) 61) (strip_where white_space line))) in
      (if heading = text_of ''failures'' then [(offset, ''pytest_failures'')]
       else if heading = text_of ''errors'' then [(offset, ''pytest_errors'')] else [])
        @ pytest_headings (offset + length line) rest)"

definition first_diagnostic :: "codepoints \<Rightarrow> (string \<times> nat) option" where
  "first_diagnostic output =
     (case pytest_headings 0 (splitlines output)
         @ (case py_find (text_of TRACEBACK_MARKER) 0 output of None \<Rightarrow> [] | Some i \<Rightarrow> [(i, TRACEBACK_MARKER)]) of
        [] \<Rightarrow> None
      | m # ms \<Rightarrow> let (offset, marker) = foldl min m ms in Some (marker, offset))"

definition utf8_prefix :: "bytes \<Rightarrow> nat \<Rightarrow> codepoints" where
  "utf8_prefix v limit = utf8_decode (if length v \<le> limit then v else take limit v)"

definition utf8_suffix :: "bytes \<Rightarrow> nat \<Rightarrow> codepoints" where
  "utf8_suffix v limit = utf8_decode (if length v \<le> limit \<or> limit = 0 then v else drop (length v - limit) v)"

definition omitted :: "nat \<Rightarrow> nat \<Rightarrow> codepoints" where
  "omitted prefix_bytes middle_bytes =
     [10, 10] @ text_of (''[... '' @ nat_digits prefix_bytes @ '' prefix bytes and '' @ nat_digits middle_bytes
       @ '' middle bytes omitted ...]'') @ [10, 10]"

definition placeholder :: codepoints where
  "placeholder = [10, 10] @ text_of ''[... command output omitted ...]'' @ [10, 10]"

abbreviation utf8_size :: "codepoints \<Rightarrow> nat" where
  "utf8_size t \<equiv> length (utf8_text t)"

lemma utf8_text_simps [simp]:
  "utf8_text [] = []"
  "utf8_text (c # t) = utf8_bytes c @ utf8_text t"
  "utf8_text (t @ u) = utf8_text t @ utf8_text u"
  by (simp_all add: utf8_text_def)

lemma utf8_decode_size: "utf8_size (utf8_decode v) \<le> length v"
proof (induction v rule: utf8_decode.induct)
  case (2 b s)
  let ?c = "utf8_value b s" and ?n = "utf8_length b"
  show ?case
  proof (cases "scalar ?c \<and> utf8_bytes ?c = b # take ?n s")
    case True
    have "utf8_size (utf8_decode (drop ?n s)) \<le> length (drop ?n s)" using "2.IH"(1) True by simp
    moreover have "length (utf8_bytes ?c) = Suc (length (take ?n s))" using True by simp
    ultimately show ?thesis using True by (simp add: Let_def)
  next
    case False
    with "2.IH"(2) have "utf8_size (utf8_decode s) \<le> length s" by simp
    with False show ?thesis by (auto simp: Let_def)
  qed
qed simp

lemma utf8_prefix_size: "utf8_size (utf8_prefix v limit) \<le> limit"
  using utf8_decode_size [of v] utf8_decode_size [of "take limit v"] by (simp add: utf8_prefix_def)

lemma utf8_size_pos: "t \<noteq> [] \<Longrightarrow> 0 < utf8_size t"
  by (cases t) (simp_all add: utf8_bytes_def)

text \<open>The head shrinks until the excerpt fits.\<close>

function shrink_head :: "nat \<Rightarrow> nat \<Rightarrow> nat \<Rightarrow> codepoints \<Rightarrow> codepoints \<Rightarrow> codepoints \<Rightarrow> codepoints \<times> codepoints" where
  "shrink_head max_bytes prefix_bytes tail_start tail head excerpt =
     (if utf8_size excerpt > max_bytes \<and> head \<noteq> []
      then let excess = utf8_size excerpt - max_bytes;
               head' = utf8_prefix (utf8_text head) (utf8_size head - excess);
               middle_bytes = tail_start - prefix_bytes - utf8_size head' in
           shrink_head max_bytes prefix_bytes tail_start tail head' (head' @ omitted prefix_bytes middle_bytes @ tail)
      else (head, excerpt))"
  by pat_completeness auto

termination
proof (relation "measure (\<lambda>(_, _, _, _, head, _). utf8_size head)")
  fix max_bytes :: nat and head excerpt :: codepoints and excess head'
  assume "max_bytes < utf8_size excerpt \<and> head \<noteq> []" and "excess = utf8_size excerpt - max_bytes"
    and h: "head' = utf8_prefix (utf8_text head) (utf8_size head - excess)"
  then have "utf8_size head - excess < utf8_size head" using utf8_size_pos [of head] by linarith
  then show "((max_bytes, p, t, tail, head', x), (max_bytes, p, t, tail, head, excerpt)) \<in> measure (\<lambda>(_, _, _, _, head, _). utf8_size head)" for p t tail x
    using utf8_prefix_size [of "utf8_text head" "utf8_size head - excess"] unfolding h by simp
qed simp

declare shrink_head.simps [simp del]

text \<open>The excerpt with the numbers of bytes left out before its head and between head and tail, and whether any were.\<close>

definition bounded_diagnostic_text :: "codepoints \<Rightarrow> nat \<Rightarrow> nat \<Rightarrow> nat option \<Rightarrow> codepoints \<times> nat \<times> nat \<times> bool" where
  "bounded_diagnostic_text output max_bytes tail_bytes diagnostic_offset =
     (let encoded = utf8_text output in
      if length encoded \<le> max_bytes then (output, 0, 0, False)
      else
        let head_start = (case diagnostic_offset of None \<Rightarrow> 0 | Some i \<Rightarrow> i);
            tail = utf8_suffix encoded (min tail_bytes (max_bytes div 2));
            tail_size = utf8_size tail;
            tail_start = length encoded - tail_size;
            prefix_bytes = min (utf8_size (take head_start output)) tail_start;
            diagnostic_bytes = take (tail_start - prefix_bytes) (drop prefix_bytes encoded);
            head = utf8_prefix diagnostic_bytes (max_bytes - tail_size - utf8_size placeholder);
            middle_bytes = tail_start - prefix_bytes - utf8_size head;
            note = omitted prefix_bytes middle_bytes;
            head = utf8_prefix diagnostic_bytes (max_bytes - tail_size - utf8_size note);
            (head, excerpt) = shrink_head max_bytes prefix_bytes tail_start tail head (head @ note @ tail) in
        (excerpt, prefix_bytes, tail_start - prefix_bytes - utf8_size head, True))"

definition bounded_error_detail :: "codepoints \<Rightarrow> codepoints" where
  "bounded_error_detail value =
     (let normalized = utf8_decode (utf8_replace value) in
      fst (bounded_diagnostic_text normalized ERROR_DETAIL_MAX_BYTES ERROR_DETAIL_SUMMARY_TAIL_BYTES
        (map_option snd (first_diagnostic normalized))))"

text \<open>The same on Latin-1 text.\<close>

definition error_detail :: "string \<Rightarrow> string" where
  "error_detail value = map char_of (bounded_error_detail (text_of value))"

section \<open>Decoding\<close>

lemma utf8_decode_next:
  assumes "scalar c"
  shows "utf8_decode (utf8_bytes c @ v) = c # utf8_decode v"
proof -
  obtain b s where bs: "utf8_bytes c = b # s" by (cases "utf8_bytes c") (auto simp: utf8_bytes_def split: if_splits)
  have c: "c < 1114112" using assms by (simp add: scalar_def)
  have q: "c div 64 mod 64 + 64 * (c div 4096) = c div 64" using mod_mult_div_eq [of "c div 64" 64] by (simp add: div_mult2_eq [symmetric])
  have r: "c div 4096 mod 64 + 64 * (c div 262144) = c div 4096" using mod_mult_div_eq [of "c div 4096" 64] by (simp add: div_mult2_eq [symmetric])
  have "4096 * (c div 4096) + c div 64 mod 64 * 64 + c mod 64 = c" using q mod_mult_div_eq [of c 64] by linarith
  moreover have "262144 * (c div 262144) + 4096 * (c div 4096 mod 64) + c div 64 mod 64 * 64 + c mod 64 = c"
    using q r mod_mult_div_eq [of c 64] by linarith
  moreover have "c \<ge> 128 \<Longrightarrow> 2 \<le> c div 64" "c < 2048 \<Longrightarrow> c div 64 < 32" "c < 65536 \<Longrightarrow> c div 4096 < 16" "c div 262144 < 5"
    using c by (auto simp: div_less_iff_less_mult less_eq_div_iff_mult_less_eq)
  ultimately have "utf8_length b = length s \<and> utf8_value b (s @ v) = c"
    using bs by (auto simp: utf8_bytes_def utf8_length_def utf8_value_def split: if_splits)
  then show ?thesis using assms bs by (simp add: Let_def)
qed

lemma utf8_decode_text: "list_all scalar t \<Longrightarrow> utf8_decode (utf8_text t) = t"
  by (induction t) (simp_all add: utf8_decode_next)

lemma utf8_decode_scalar: "list_all scalar (utf8_decode v)"
  by (induction v rule: utf8_decode.induct) (simp_all add: Let_def)

definition replace_surrogates :: "codepoints \<Rightarrow> codepoints" where
  "replace_surrogates t = map (\<lambda>c. if surrogate c then 63 else c) t"

lemma replaced_scalar: "\<forall>c \<in> set t. c < 1114112 \<Longrightarrow> list_all scalar (replace_surrogates t)"
  by (auto simp: replace_surrogates_def list_all_iff scalar_def surrogate_def)

text \<open>Encoding with replacement and decoding puts a question mark for each lone surrogate and changes nothing else.\<close>

lemma normalized:
  assumes "\<forall>c \<in> set t. c < 1114112"
  shows "utf8_decode (utf8_replace t) = replace_surrogates t"
proof -
  have "utf8_replace t = utf8_text (replace_surrogates t)"
    by (induction t) (simp_all add: utf8_replace_def replace_surrogates_def utf8_bytes_def)
  then show ?thesis using utf8_decode_text [OF replaced_scalar [OF assms]] by simp
qed

section \<open>The bound\<close>

lemma utf8_ascii: "ascii s \<Longrightarrow> utf8_text (text_of s) = text_of s"
  by (induction s) (simp_all add: ascii_def text_of_def utf8_bytes_def)

lemma digits_ascii: "ascii (nat_digits n)"
  using nat_digits_digits [of n] by (auto simp: ascii_def list_all_iff is_digit_def)

lemma omitted_size:
  assumes "p < 10 ^ 100" "m < 10 ^ 100"
  shows "utf8_size (omitted p m) \<le> 253"
proof -
  have "length (nat_digits n) \<le> 100" if "n < 10 ^ 100" for n using length_nat_digits [OF that] by simp
  with assms have "length (nat_digits p) \<le> 100" "length (nat_digits m) \<le> 100" by blast+
  moreover have "ascii (''[... '' @ nat_digits p @ '' prefix bytes and '' @ nat_digits m @ '' middle bytes omitted ...]'')"
    using digits_ascii [of p] digits_ascii [of m] by (simp add: ascii_def)
  ultimately show ?thesis by (simp add: omitted_def utf8_ascii utf8_bytes_def) (simp add: text_of_def)
qed

text \<open>Shrinking keeps the shape of the excerpt and reaches the bound.\<close>

definition excerpt_of :: "nat \<Rightarrow> codepoints \<Rightarrow> codepoints \<Rightarrow> bool" where
  "excerpt_of max_bytes tail excerpt \<longleftrightarrow> utf8_size excerpt \<le> max_bytes \<and> list_all scalar excerpt \<and> (\<exists>h. excerpt = h @ tail)"

lemma scalar_byte: "c < 256 \<Longrightarrow> scalar c"
  by (simp add: scalar_def surrogate_def)

lemma omitted_scalar: "list_all scalar (omitted p m)"
proof -
  have "scalar (of_char c)" for c by (rule scalar_byte) simp
  then show ?thesis by (auto simp: omitted_def text_of_def list_all_iff scalar_byte)
qed

lemma shrink_head_bound:
  assumes "m < 10 ^ 100" "p < 10 ^ 100" "tail_start < 10 ^ 100" "253 + utf8_size tail \<le> max_bytes" "excerpt = head @ omitted p m @ tail"
    and "list_all scalar head" "list_all scalar tail"
  shows "excerpt_of max_bytes tail (snd (shrink_head max_bytes p tail_start tail head excerpt))"
  using assms
proof (induction max_bytes p tail_start tail head excerpt arbitrary: m rule: shrink_head.induct)
  case (1 max_bytes p tail_start tail head excerpt)
  show ?case
  proof (cases "utf8_size excerpt > max_bytes \<and> head \<noteq> []")
    case True
    let ?head = "utf8_prefix (utf8_text head) (utf8_size head - (utf8_size excerpt - max_bytes))"
    have "tail_start - p - utf8_size ?head < 10 ^ 100" using "1.prems"(3) by linarith
    moreover have "list_all scalar ?head" by (simp add: utf8_prefix_def utf8_decode_scalar)
    ultimately show ?thesis
      using "1.IH" [OF True refl refl refl _ "1.prems"(2-4) refl _ "1.prems"(7)] True by (subst shrink_head.simps) (simp add: Let_def)
  next
    case False
    then show ?thesis
      using "1.prems" omitted_size [of p m] omitted_scalar [of p m] by (subst shrink_head.simps) (auto simp: excerpt_of_def)
  qed
qed

text \<open>
  C36: an error kept in a durable record is bounded and valid UTF-8. Take any Python string, lone surrogates included, and let
  its normal form have a question mark in place of each surrogate. The detail of the string contains no surrogate and takes
  at most 4096 bytes in UTF-8; if the normal form takes at most 4096 bytes, the detail is exactly the normal
  form; otherwise the detail ends with what the last 1024 bytes of the normal form decode to, the character
  cut in two left out.
\<close>

theorem error_detail_bounded:
  assumes "\<forall>c \<in> set text. c < 1114112" "utf8_size (replace_surrogates text) < 10 ^ 100"
  shows "utf8_size (bounded_error_detail text) \<le> 4096 \<and> list_all scalar (bounded_error_detail text)
    \<and> (if utf8_size (replace_surrogates text) \<le> 4096 then bounded_error_detail text = replace_surrogates text
       else \<exists>h. bounded_error_detail text = h @ utf8_decode (drop (utf8_size (replace_surrogates text) - 1024) (utf8_text (replace_surrogates text))))"
proof (cases "utf8_size (replace_surrogates text) \<le> 4096")
  case True
  then show ?thesis using replaced_scalar [OF assms(1)]
    by (simp add: bounded_error_detail_def normalized [OF assms(1)] bounded_diagnostic_text_def ERROR_DETAIL_MAX_BYTES_def Let_def)
next
  case False
  let ?t = "replace_surrogates text"
  let ?tail = "utf8_suffix (utf8_text ?t) 1024"
  have eq: "?tail = utf8_decode (drop (utf8_size ?t - 1024) (utf8_text ?t))" using False by (simp add: utf8_suffix_def)
  have tail: "utf8_size ?tail \<le> 1024"
    using utf8_decode_size [of "drop (utf8_size ?t - 1024) (utf8_text ?t)"] False unfolding eq by simp
  have half: "min 1024 (4096 div 2) = (1024 :: nat)" by simp
  have "excerpt_of 4096 ?tail (fst (bounded_diagnostic_text ?t 4096 1024 i))" for i
    unfolding bounded_diagnostic_text_def Let_def if_not_P [OF False] case_prod_unfold fst_conv half
    by (rule shrink_head_bound [OF _ _ _ _ refl], use assms(2) in linarith, use assms(2) in linarith, use assms(2) in linarith,
        use tail in linarith, unfold utf8_prefix_def utf8_suffix_def, rule utf8_decode_scalar, rule utf8_decode_scalar)
  then show ?thesis using False
    by (simp add: bounded_error_detail_def normalized [OF assms(1)] ERROR_DETAIL_MAX_BYTES_def ERROR_DETAIL_SUMMARY_TAIL_BYTES_def
        Let_def eq excerpt_of_def)
qed

text \<open>A lone surrogate at the end of a short error and at the start of a long one.\<close>

theorem error_detail_bounded_witness:
  "bounded_error_detail (text_of ''cause '' @ [55296]) = text_of ''cause ?''
   \<and> utf8_size (bounded_error_detail (55296 # replicate 5000 120)) \<le> 4096"
proof -
  have short: "\<forall>c \<in> set (text_of ''cause '' @ [55296]). c < 1114112"
    "replace_surrogates (text_of ''cause '' @ [55296]) = text_of ''cause ?''" "utf8_size (text_of ''cause ?'') = 7"
    by (simp_all add: text_of_def replace_surrogates_def surrogate_def utf8_bytes_def)
  have "utf8_size (replicate n 120) = n" for n by (induction n) (simp_all add: utf8_bytes_def)
  moreover have "replace_surrogates (55296 # replicate 5000 120) = 63 # replicate 5000 120"
    by (simp add: replace_surrogates_def surrogate_def)
  ultimately have long: "\<forall>c \<in> set (55296 # replicate 5000 120). c < (1114112 :: nat)"
    "utf8_size (replace_surrogates (55296 # replicate 5000 120)) < 10 ^ 100" by (simp_all add: utf8_bytes_def)
  from error_detail_bounded [OF short(1)] short(2,3) have "bounded_error_detail (text_of ''cause '' @ [55296]) = text_of ''cause ?''" by simp
  with error_detail_bounded [OF long] show ?thesis by blast
qed

section \<open>Latin-1 text\<close>

text \<open>The detail of a Latin-1 text is Latin-1, so \<open>error_detail\<close> loses nothing.\<close>

abbreviation latin1 :: "codepoints \<Rightarrow> bool" where
  "latin1 t \<equiv> list_all (\<lambda>c. c < 256) t"

abbreviation latin1_bytes :: "bytes \<Rightarrow> bool" where
  "latin1_bytes v \<equiv> list_all (\<lambda>b. b < 196) v"

lemma utf8_latin1: "latin1 t \<Longrightarrow> latin1_bytes (utf8_text t)"
proof (induction t)
  case (Cons c t)
  have "c div 64 < 4" using Cons.prems by (simp add: div_less_iff_less_mult)
  moreover have "c mod 64 < 68" using mod_less_divisor [of 64 c] by linarith
  ultimately show ?case using Cons by (simp add: utf8_bytes_def)
qed simp

lemma utf8_lead_latin1: "utf8_bytes c = b # s \<Longrightarrow> b < 196 \<Longrightarrow> c < 256"
  by (auto simp: utf8_bytes_def div_less_iff_less_mult split: if_splits)

lemma utf8_decode_latin1: "latin1_bytes v \<Longrightarrow> latin1 (utf8_decode v)"
proof (induction v rule: utf8_decode.induct)
  case (2 b s)
  let ?c = "utf8_value b s" and ?n = "utf8_length b"
  have s: "latin1_bytes s" "latin1_bytes (drop ?n s)" "b < 196" using "2.prems" by (auto simp: list_all_iff dest: in_set_dropD)
  show ?case
  proof (cases "scalar ?c \<and> utf8_bytes ?c = b # take ?n s")
    case True
    then have "?c < 256" using utf8_lead_latin1 s(3) by blast
    with "2.IH"(1) [OF refl refl True s(2)] True show ?thesis by (simp add: Let_def)
  next
    case False
    with "2.IH"(2) [OF refl refl False s(1)] show ?thesis by (auto simp: Let_def)
  qed
qed simp

lemma latin1_parts: "latin1_bytes v \<Longrightarrow> latin1_bytes (take n v) \<and> latin1_bytes (drop n v)"
  by (auto simp: list_all_iff dest: in_set_dropD in_set_takeD)

lemma utf8_parts_latin1: "latin1_bytes v \<Longrightarrow> latin1 (utf8_prefix v n) \<and> latin1 (utf8_suffix v n)"
  using latin1_parts [of v] by (simp add: utf8_prefix_def utf8_suffix_def utf8_decode_latin1)

lemma text_of_latin1: "latin1 (text_of s)"
  by (simp add: text_of_def list_all_iff)

lemma omitted_latin1: "latin1 (omitted p m)"
  using text_of_latin1 unfolding omitted_def by simp

lemma shrink_head_latin1:
  "latin1 head \<Longrightarrow> latin1 tail \<Longrightarrow> latin1 excerpt \<Longrightarrow> latin1 (snd (shrink_head max_bytes p tail_start tail head excerpt))"
proof (induction max_bytes p tail_start tail head excerpt rule: shrink_head.induct)
  case (1 max_bytes p tail_start tail head excerpt)
  show ?case
  proof (cases "utf8_size excerpt > max_bytes \<and> head \<noteq> []")
    case True
    have "latin1 (utf8_prefix (utf8_text head) n)" for n using utf8_parts_latin1 [OF utf8_latin1 [OF "1.prems"(1)]] by blast
    with "1.IH" [OF True refl refl refl] "1.prems"(2) omitted_latin1 True show ?thesis by (subst shrink_head.simps) (simp add: Let_def)
  next
    case False
    then show ?thesis using "1.prems" by (subst shrink_head.simps) auto
  qed
qed

lemma bounded_latin1:
  assumes "latin1 t"
  shows "latin1 (fst (bounded_diagnostic_text t max_bytes tail_bytes i))"
proof -
  have p: "latin1 (utf8_suffix (utf8_text t) n)" "latin1 (utf8_prefix (take m (drop k (utf8_text t))) n)" for n m k
    using utf8_parts_latin1 latin1_parts utf8_latin1 [OF assms] by blast+
  show ?thesis
    unfolding bounded_diagnostic_text_def Let_def case_prod_unfold
    by (cases "utf8_size t \<le> max_bytes")
       (simp_all only: if_True if_False fst_conv assms shrink_head_latin1 p omitted_latin1 list_all_append simp_thms)
qed

lemma error_detail_exact: "text_of (error_detail s) = bounded_error_detail (text_of s)"
proof -
  have *: "list_all scalar (text_of s)"
    using text_of_latin1 [of s] by (simp add: list_all_iff scalar_byte)
  then have "replace_surrogates (text_of s) = text_of s"
    by (auto simp: replace_surrogates_def list_all_iff scalar_def intro: map_idI)
  with * have "utf8_decode (utf8_replace (text_of s)) = text_of s"
    using normalized [of "text_of s"] by (simp add: list_all_iff scalar_def)
  then have "latin1 (bounded_error_detail (text_of s))"
    using bounded_latin1 [OF text_of_latin1] by (simp add: bounded_error_detail_def Let_def)
  then have "map (\<lambda>c. of_char (char_of c :: char)) (bounded_error_detail (text_of s)) = bounded_error_detail (text_of s)"
    by (simp add: map_idI list_all_iff)
  then show ?thesis by (simp add: error_detail_def text_of_def comp_def)
qed

end
