(* ===== verification/InputIngest.thy ===== *)
theory InputIngest
  imports JobRecords ErrorDetail
begin

text \<open>
  Synchronous input ingestion (\<^verbatim>\<open>queue_input_ingest.py\<close> and the quota of \<^verbatim>\<open>core_queue.py\<close>). An ingest job
  is never leased: a request claims it under an attempt identifier, and the same attempt completes
  or fails it; a job whose request died is failed by a bounded recovery.

  \<open>ingest_calls\<close> holds what the lifecycle reads of families outside this model, the generation
  memberships of owner sessions and the canonical artifacts, with the error a read raises, and
  \<^verbatim>\<open>datetime.fromisoformat\<close>, with whether its result is aware.
\<close>

section \<open>Records\<close>

record ArtifactRef =
  af_artifact_id :: string
  af_job_id :: string
  af_sequence :: "int option"
  af_uri :: string
  af_kind :: string
  af_size_bytes :: "int option"
  af_sha256 :: "string option"
  af_created_at :: timestamp
  af_metadata :: "(string \<times> json) list"

record OwnerSessionJobMembership =
  om_owner_session_id :: string
  om_session_generation_id :: "string option"
  om_job_id :: string
  om_cluster :: string
  om_state :: JobState
  om_created_at :: timestamp
  om_updated_at :: timestamp

record 'x ingest_calls =
  ic_fromisoformat :: "string \<Rightarrow> (timestamp \<times> bool) option"
  ic_memberships :: "string \<Rightarrow> string \<Rightarrow> 'x \<Rightarrow> (string \<times> (py_error + OwnerSessionJobMembership)) list"
  ic_artifact :: "string \<Rightarrow> 'x \<Rightarrow> py_error + ArtifactRef option"

record InputArtifactIngestPolicy =
  ip_max_file_count :: int
  ip_max_total_bytes :: int

definition INPUT_INGEST_POLICY_SCHEMA :: string where
  "INPUT_INGEST_POLICY_SCHEMA = ''clio-relay.input-artifact-ingest-policy.v1''"

text \<open>\<^verbatim>\<open>model_validate\<close> of the strict model, which forbids other fields; \<open>None\<close> is its \<^verbatim>\<open>ValidationError\<close>.\<close>

definition InputArtifactIngestPolicy_validate :: "json \<Rightarrow> InputArtifactIngestPolicy option" where
  "InputArtifactIngestPolicy_validate raw =
     (case as_obj raw of
        None \<Rightarrow> None
      | Some d \<Rightarrow>
          if \<not> list_all (\<lambda>k. k \<in> {''schema_version'', ''max_file_count'', ''max_total_bytes''}) (map fst d) then None
          else if dict_get d ''schema_version'' (JStr INPUT_INGEST_POLICY_SCHEMA) \<noteq> JStr INPUT_INGEST_POLICY_SCHEMA then None
          else case (as_int (doc_get d ''max_file_count''), as_int (doc_get d ''max_total_bytes'')) of
            (Some n, Some b) \<Rightarrow>
              if 1 \<le> n \<and> n \<le> 1000 \<and> 1 \<le> b then Some \<lparr>ip_max_file_count = n, ip_max_total_bytes = b\<rparr> else None
          | _ \<Rightarrow> None)"

definition InputArtifactIngestPolicy_dump :: "InputArtifactIngestPolicy \<Rightarrow> json" where
  "InputArtifactIngestPolicy_dump p =
     JObj [(''schema_version'', JStr INPUT_INGEST_POLICY_SCHEMA), (''max_file_count'', JInt (ip_max_file_count p)),
           (''max_total_bytes'', JInt (ip_max_total_bytes p))]"

definition input_spec :: "RelayJob \<Rightarrow> InputArtifactSpec option" where
  "input_spec job = (case rj_spec job of InputArtifact s \<Rightarrow> Some s | _ \<Rightarrow> None)"

definition is_input_ingest :: "RelayJob \<Rightarrow> bool" where
  "is_input_ingest job \<longleftrightarrow> rj_kind job = INPUT_INGEST \<and> input_spec job \<noteq> None"

definition INPUT_INGEST_ATTEMPT_SCHEMA :: string where
  "INPUT_INGEST_ATTEMPT_SCHEMA = ''clio-relay.input-ingest-attempt.v1''"
definition MAX_INPUT_INGEST_RECOVERY_BATCH :: int where "MAX_INPUT_INGEST_RECOVERY_BATCH = 256"
definition DEFAULT_INPUT_INGEST_ABANDONED_AFTER_SECONDS :: int where
  "DEFAULT_INPUT_INGEST_ABANDONED_AFTER_SECONDS = 300"

section \<open>The attempt of a job\<close>

text \<open>Membership in a set hashes the value first, which a list or a dictionary refuses.\<close>

fun hashable :: "json \<Rightarrow> bool" where
  "hashable (JArr _) = False"
| "hashable (JObj _) = False"
| "hashable _ = True"

definition attempt_invalid :: "RelayJob \<Rightarrow> py_error" where
  "attempt_invalid job = QueueConflictError (''input ingest attempt metadata is invalid: '' @ rj_job_id job)"

definition attempt_optional_field :: "RelayJob \<Rightarrow> (string \<times> json) list \<Rightarrow> string \<Rightarrow> py_error + (string \<times> string) list" where
  "attempt_optional_field job attempt fld =
     (case doc_get attempt fld of JNull \<Rightarrow> Inr [] | JStr v \<Rightarrow> Inr [(fld, v)] | _ \<Rightarrow> Inl (attempt_invalid job))"

definition input_ingest_attempt :: "'x ingest_calls \<Rightarrow> RelayJob \<Rightarrow> py_error + (string \<times> string) list option" where
  "input_ingest_attempt calls job =
     (case doc_get (rj_metadata job) ''input_ingest_attempt'' of
        JNull \<Rightarrow> Inr None
      | JObj attempt \<Rightarrow>
          if doc_get attempt ''schema_version'' \<noteq> JStr INPUT_INGEST_ATTEMPT_SCHEMA then Inl (attempt_invalid job)
          else case (as_str (doc_get attempt ''attempt_id''), as_str (doc_get attempt ''started_at'')) of
            (Some attempt_id, Some started_at) \<Rightarrow>
              rbind (check (hashable (doc_get attempt ''outcome'')) (TypeError ''unhashable type'')) (\<lambda>_.
              case as_str (doc_get attempt ''outcome'') of
                None \<Rightarrow> Inl (attempt_invalid job)
              | Some attempt_outcome \<Rightarrow>
                  rbind (check (attempt_outcome \<in> {''running'', ''succeeded'', ''failed'', ''abandoned''}) (attempt_invalid job)) (\<lambda>_.
                  rbind (check (validate_durable_record_id (JStr attempt_id) = Inr attempt_id) (attempt_invalid job)) (\<lambda>_.
                  case ic_fromisoformat calls started_at of
                    None \<Rightarrow> Inl (attempt_invalid job)
                  | Some (_, aware) \<Rightarrow>
                      rbind (check aware (QueueConflictError (''input ingest attempt timestamp is naive: '' @ rj_job_id job))) (\<lambda>_.
                      rbind (attempt_optional_field job attempt ''completed_at'') (\<lambda>completed_at.
                      rbind (attempt_optional_field job attempt ''error'') (\<lambda>error.
                      Inr (Some ([(''schema_version'', INPUT_INGEST_ATTEMPT_SCHEMA), (''attempt_id'', attempt_id),
                        (''started_at'', started_at), (''outcome'', attempt_outcome)] @ completed_at @ error))))))))
          | _ \<Rightarrow> Inl (attempt_invalid job)
      | _ \<Rightarrow> Inl (attempt_invalid job))"

definition attempt_is :: "(string \<times> string) list option \<Rightarrow> string \<Rightarrow> bool" where
  "attempt_is attempt attempt_id = (case attempt of None \<Rightarrow> False | Some a \<Rightarrow> dict_get a ''attempt_id'' [] = attempt_id)"

definition attempt_running :: "RelayJob \<Rightarrow> (string \<times> string) list option \<Rightarrow> string \<Rightarrow> bool" where
  "attempt_running job attempt attempt_id \<longleftrightarrow> rj_state job = RUNNING \<and> (case attempt of None \<Rightarrow> False
     | Some a \<Rightarrow> dict_get a ''attempt_id'' [] = attempt_id \<and> dict_get a ''outcome'' [] = ''running'')"

text \<open>\<^verbatim>\<open>{**attempt, ...}\<close>\<close>

definition attempt_updated :: "(string \<times> string) list \<Rightarrow> (string \<times> json) list \<Rightarrow> json" where
  "attempt_updated attempt updates = JObj (dict_update (map (\<lambda>(k, v). (k, JStr v)) attempt) updates)"

definition with_attempt :: "RelayJob \<Rightarrow> json \<Rightarrow> (string \<times> json) list" where
  "with_attempt job attempt = AList.update ''input_ingest_attempt'' attempt (rj_metadata job)"

section \<open>The quota of an owner-session generation\<close>

definition input_ingest_consumes_quota :: "'x ingest_calls \<Rightarrow> RelayJob \<Rightarrow> ('x, bool) queue_op" where
  "input_ingest_consumes_quota calls job =
     (if rj_kind job \<noteq> INPUT_INGEST then conflict (''input ingest quota producer is invalid: '' @ rj_job_id job)
      else case input_spec job of
        None \<Rightarrow> conflict (''input ingest quota producer is invalid: '' @ rj_job_id job)
      | Some spec \<Rightarrow>
          if rj_state job \<notin> {FAILED, CANCELED} then mret True
          else mbind (qlift (deterministic_input_artifact_id (rj_job_id job))) (\<lambda>artifact_id.
            mbind mget (\<lambda>s.
            mbind (qlift (ic_artifact calls artifact_id (qs_other s))) (\<lambda>found.
              case found of
                None \<Rightarrow> mret False
              | Some artifact \<Rightarrow>
                  mbind (qcheck (af_artifact_id artifact = artifact_id \<and> af_job_id artifact = rj_job_id job
                      \<and> af_kind artifact = ''input'' \<and> af_size_bytes artifact = Some (ias_size_bytes spec)
                      \<and> af_sha256 artifact = Some (ias_sha256 spec)
                      \<and> doc_get (af_metadata artifact) ''schema_version'' = JStr ''clio-relay.input-artifact.v1''
                      \<and> doc_get (af_metadata artifact) ''logical_name'' = JStr (ias_logical_name spec))
                    (QueueConflictError (''terminal input ingest artifact identity changed: '' @ rj_job_id job))) (\<lambda>_.
                  mret True)))))"

definition file_count_limit :: "InputArtifactIngestPolicy \<Rightarrow> py_error" where
  "file_count_limit policy = QueueConflictError (''input_ingest_file_count_limit_reached: owner-session generation limit is ''
     @ int_str (ip_max_file_count policy))"

definition total_bytes_limit :: "InputArtifactIngestPolicy \<Rightarrow> py_error" where
  "total_bytes_limit policy = QueueConflictError (''input_ingest_total_bytes_limit_reached: owner-session generation limit is ''
     @ int_str (ip_max_total_bytes policy) @ '' bytes'')"

text \<open>One step of the loop: whether the producer of a membership counts, and its bytes.\<close>

definition quota_producer ::
  "'x ingest_calls \<Rightarrow> RelayJob \<Rightarrow> string \<Rightarrow> string \<Rightarrow> string \<times> (py_error + OwnerSessionJobMembership) \<Rightarrow> ('x, int option) queue_op" where
  "quota_producer calls job owner generation entry =
     (let (path, read) = entry in
      mbind (qlift read) (\<lambda>membership.
      mbind (qcheck (om_owner_session_id membership = owner \<and> om_session_generation_id membership = Some generation)
        (QueueConflictError (''input ingest quota membership identity mismatch: '' @ path))) (\<lambda>_.
      mbind (read_optional_job (om_job_id membership)) (\<lambda>found.
        case found of
          None \<Rightarrow> conflict (''input ingest quota membership has no producer: '' @ om_job_id membership)
        | Some existing \<Rightarrow>
            mbind (qcheck (doc_get (rj_metadata existing) ''owner_session_id'' = JStr owner
                \<and> doc_get (rj_metadata existing) ''owner_session_generation_id'' = JStr generation)
              (QueueConflictError (''input ingest quota producer identity changed: '' @ om_job_id membership))) (\<lambda>_.
            if rj_kind existing \<noteq> INPUT_INGEST then mret None
            else case input_spec existing of
              None \<Rightarrow> conflict (''input ingest quota producer has an invalid spec: '' @ om_job_id membership)
            | Some spec \<Rightarrow>
                if rj_job_id existing = rj_job_id job then mret None
                else mbind (input_ingest_consumes_quota calls existing) (\<lambda>consumes.
                  mret (if consumes then Some (ias_size_bytes spec) else None)))))))"

fun quota_loop ::
  "'x ingest_calls \<Rightarrow> RelayJob \<Rightarrow> int \<Rightarrow> InputArtifactIngestPolicy \<Rightarrow> string \<Rightarrow> string
     \<Rightarrow> (string \<times> (py_error + OwnerSessionJobMembership)) list \<Rightarrow> int \<times> int \<Rightarrow> ('x, int \<times> int) queue_op" where
  "quota_loop calls job bytes policy owner generation [] counts = mret counts"
| "quota_loop calls job bytes policy owner generation (entry # entries) counts =
     mbind (quota_producer calls job owner generation entry) (\<lambda>consumed.
       case consumed of
         None \<Rightarrow> quota_loop calls job bytes policy owner generation entries counts
       | Some n \<Rightarrow>
           let file_count = fst counts + 1; total_bytes = snd counts + n in
           mbind (qcheck (\<not> file_count \<ge> ip_max_file_count policy) (file_count_limit policy)) (\<lambda>_.
           mbind (qcheck (\<not> total_bytes + bytes > ip_max_total_bytes policy) (total_bytes_limit policy)) (\<lambda>_.
           quota_loop calls job bytes policy owner generation entries (file_count, total_bytes))))"

definition quota_of_generation ::
  "'x ingest_calls \<Rightarrow> RelayJob \<Rightarrow> int \<Rightarrow> InputArtifactIngestPolicy \<Rightarrow> string \<Rightarrow> string \<Rightarrow> ('x, unit) queue_op" where
  "quota_of_generation calls job bytes policy owner generation =
     mbind mget (\<lambda>s.
     let entries = ic_memberships calls owner generation (qs_other s) in
     mbind (qlift (bounded_json_record_paths MAX_ACTIVE_JOB_RECORDS ''owner-session input ingest quota membership'' entries)) (\<lambda>_.
     mbind (quota_loop calls job bytes policy owner generation entries (0, 0)) (\<lambda>(file_count, total_bytes).
     mbind (qcheck (\<not> file_count + 1 > ip_max_file_count policy) (file_count_limit policy)) (\<lambda>_.
     qcheck (\<not> total_bytes + bytes > ip_max_total_bytes policy) (total_bytes_limit policy)))))"

definition assert_input_ingest_quota ::
  "'x ingest_calls \<Rightarrow> RelayJob \<Rightarrow> InputArtifactIngestPolicy option \<Rightarrow> ('x, unit) queue_op" where
  "assert_input_ingest_quota calls job policy =
     (if rj_kind job \<noteq> INPUT_INGEST then mret ()
      else case input_spec job of
        None \<Rightarrow> conflict ''input ingest job has an invalid specification''
      | Some spec \<Rightarrow>
          mbind (qlift (owner_session_identity (rj_metadata job) False)) (\<lambda>identity.
          mbind (qcheck (identity \<noteq> None \<and> doc_get (rj_metadata job) ''owner'' = JStr ''clio-relay'')
            (QueueConflictError ''input ingest requires exact relay owner-session identity'')) (\<lambda>_.
          case snd (the identity) of
            None \<Rightarrow> conflict ''input ingest requires an owner-session generation''
          | Some generation \<Rightarrow>
              mbind (case policy of
                  Some p \<Rightarrow> mret p
                | None \<Rightarrow> (case InputArtifactIngestPolicy_validate (doc_get (rj_metadata job) ''input_ingest_policy'') of
                    None \<Rightarrow> conflict ''input ingest has no valid server quota policy''
                  | Some p \<Rightarrow> mret p)) (\<lambda>policy.
              quota_of_generation calls job (ias_size_bytes spec) policy (fst (the identity)) generation))))"

section \<open>The lifecycle\<close>

definition not_an_ingest :: "string \<Rightarrow> py_error" where
  "not_an_ingest job_id = QueueConflictError (''job is not an input ingest: '' @ job_id)"

definition ingest_started ::
  "'x queue_env \<Rightarrow> RelayJob \<Rightarrow> string \<Rightarrow> InputArtifactIngestPolicy \<Rightarrow> InputArtifactIngestPolicy \<Rightarrow> timestamp \<Rightarrow> RelayJob" where
  "ingest_started env job attempt_id stored effective now =
     (let original = (if effective \<noteq> stored \<and> map_of (rj_metadata job) ''input_ingest_original_policy'' = None
            then AList.update ''input_ingest_original_policy'' (InputArtifactIngestPolicy_dump stored) (rj_metadata job)
            else rj_metadata job);
          attempt = JObj [(''schema_version'', JStr INPUT_INGEST_ATTEMPT_SCHEMA), (''attempt_id'', JStr attempt_id),
            (''started_at'', JStr (iso_format (qe_codec env) now)), (''outcome'', JStr ''running'')] in
      job\<lparr>rj_state := RUNNING, rj_updated_at := now, rj_last_error := None, rj_leased_by := None,
          rj_metadata := AList.update ''input_ingest_attempt'' attempt
            (AList.update ''input_ingest_policy'' (InputArtifactIngestPolicy_dump effective) original)\<rparr>)"

definition claim_ingest ::
  "'x queue_env \<Rightarrow> 'x ingest_calls \<Rightarrow> RelayJob \<Rightarrow> string \<Rightarrow> InputArtifactIngestPolicy option \<Rightarrow> ('x, RelayJob \<times> bool) queue_op" where
  "claim_ingest env calls job attempt_id policy =
     (case InputArtifactIngestPolicy_validate (doc_get (rj_metadata job) ''input_ingest_policy'') of
        None \<Rightarrow> conflict ''input ingest has no valid server quota policy''
      | Some stored \<Rightarrow>
          let effective = (case policy of None \<Rightarrow> stored | Some p \<Rightarrow> p);
              original = doc_get (rj_metadata job) ''input_ingest_original_policy'' in
          mbind (assert_input_ingest_quota calls job (Some effective)) (\<lambda>_.
          mbind (utc_now env) (\<lambda>now.
          mbind (qcheck (original = JNull \<or> InputArtifactIngestPolicy_validate original \<noteq> None)
            (QueueConflictError ''input ingest original quota policy is invalid'')) (\<lambda>_.
          let started = ingest_started env job attempt_id stored effective now in
          mbind (write_job env started) (\<lambda>_.
          mbind (append_event env (rj_job_id job) ''input_ingest.started'' ''Input artifact ingest attempt started''
            [(''attempt_id'', JStr attempt_id), (''retry'', JBool (rj_state job = FAILED)),
             (''policy_changed'', JBool (effective \<noteq> stored))]) (\<lambda>_.
          mret (started, True)))))))"

definition begin_input_ingest ::
  "'x queue_env \<Rightarrow> 'x ingest_calls \<Rightarrow> string \<Rightarrow> string \<Rightarrow> InputArtifactIngestPolicy option \<Rightarrow> ('x, RelayJob \<times> bool) queue_op" where
  "begin_input_ingest env calls job_id attempt_id policy =
     mbind (qlift (require_durable_record_id job_id ''job_id'')) (\<lambda>job_id.
     mbind (qlift (require_durable_record_id attempt_id ''attempt_id'')) (\<lambda>attempt_id.
     mbind (initialize_queue env) (\<lambda>_.
     mbind (reconcile_transition_intents env) (\<lambda>_.
     mbind (get_job job_id) (\<lambda>job.
     mbind (qcheck (is_input_ingest job) (not_an_ingest job_id)) (\<lambda>_.
     if rj_state job = SUCCEEDED then mret (job, False)
     else mbind (qlift (input_ingest_attempt calls job)) (\<lambda>existing_attempt.
       if rj_state job = RUNNING
       then if attempt_is existing_attempt attempt_id then mret (job, False)
            else conflict (''input ingest already has an active attempt: '' @ job_id)
       else if rj_state job \<notin> {QUEUED, FAILED}
       then conflict (''input ingest cannot begin from state '' @ JobState_value (rj_state job) @ '': '' @ job_id)
       else claim_ingest env calls job attempt_id policy)))))))"

definition ingest_failed :: "RelayJob \<Rightarrow> json \<Rightarrow> string \<Rightarrow> timestamp \<Rightarrow> RelayJob" where
  "ingest_failed job attempt error now =
     job\<lparr>rj_state := FAILED, rj_updated_at := now, rj_last_error := Some error, rj_leased_by := None,
         rj_metadata := with_attempt job attempt\<rparr>"

definition fail_input_ingest ::
  "'x queue_env \<Rightarrow> 'x ingest_calls \<Rightarrow> string \<Rightarrow> string \<Rightarrow> string \<Rightarrow> ('x, RelayJob \<times> bool) queue_op" where
  "fail_input_ingest env calls job_id attempt_id error =
     mbind (qlift (require_durable_record_id job_id ''job_id'')) (\<lambda>job_id.
     mbind (qlift (require_durable_record_id attempt_id ''attempt_id'')) (\<lambda>attempt_id.
     let detail = error_detail error;
         bounded_error = (if detail = [] then ''input artifact ingest failed'' else detail) in
     mbind (initialize_queue env) (\<lambda>_.
     mbind (reconcile_transition_intents env) (\<lambda>_.
     mbind (get_job job_id) (\<lambda>job.
     mbind (qcheck (is_input_ingest job) (not_an_ingest job_id)) (\<lambda>_.
     mbind (qlift (input_ingest_attempt calls job)) (\<lambda>attempt.
     if rj_state job = SUCCEEDED then mret (job, False)
     else if rj_state job = FAILED
     then if attempt_is attempt attempt_id then mret (job, False)
          else conflict (''input ingest failed under another attempt: '' @ job_id)
     else
       mbind (qcheck (attempt_running job attempt attempt_id)
         (QueueConflictError (''input ingest attempt identity changed: '' @ job_id))) (\<lambda>_.
       mbind (utc_now env) (\<lambda>now.
       let failed = ingest_failed job (attempt_updated (the attempt)
             [(''completed_at'', JStr (iso_format (qe_codec env) now)), (''outcome'', JStr ''failed''),
              (''error'', JStr bounded_error)]) bounded_error now in
       mbind (write_job env failed) (\<lambda>_.
       mbind (append_event env job_id ''job.failed'' ''Input artifact ingest failed''
         [(''state'', JStr (JobState_value FAILED)), (''attempt_id'', JStr attempt_id), (''error'', JStr bounded_error)]) (\<lambda>_.
       mret (failed, True))))))))))))"

definition ABANDONED_ERROR :: string where
  "ABANDONED_ERROR = ''input ingest attempt ended without terminal reconciliation''"

definition abandoned_attempt ::
  "'x queue_env \<Rightarrow> RelayJob \<Rightarrow> (string \<times> string) list option \<Rightarrow> string \<Rightarrow> timestamp \<Rightarrow> json" where
  "abandoned_attempt env job existing attempt_id now =
     JObj [(''schema_version'', JStr INPUT_INGEST_ATTEMPT_SCHEMA), (''attempt_id'', JStr attempt_id),
       (''started_at'', JStr (case existing of Some a \<Rightarrow> dict_get a ''started_at'' []
          | None \<Rightarrow> iso_format (qe_codec env) (rj_updated_at job))),
       (''completed_at'', JStr (iso_format (qe_codec env) now)), (''outcome'', JStr ''abandoned''),
       (''error'', JStr ABANDONED_ERROR)]"

definition abandon_ingest :: "'x queue_env \<Rightarrow> 'x ingest_calls \<Rightarrow> RelayJob \<Rightarrow> ('x, RelayJob) queue_op" where
  "abandon_ingest env calls job =
     mbind (utc_now env) (\<lambda>now.
     mbind (qlift (input_ingest_attempt calls job)) (\<lambda>existing.
     mbind (case existing of
         Some a \<Rightarrow> mret (dict_get a ''attempt_id'' [])
       | None \<Rightarrow> mbind (uuid4_hex env) (\<lambda>u. mret (''ingest_recovery_'' @ u))) (\<lambda>attempt_id.
     let failed = ingest_failed job (abandoned_attempt env job existing attempt_id now) ABANDONED_ERROR now in
     mbind (write_job env failed) (\<lambda>_.
     mbind (append_event env (rj_job_id job) ''job.failed'' ''Abandoned input artifact ingest recovered''
       [(''state'', JStr (JobState_value FAILED)), (''attempt_id'', JStr attempt_id),
        (''previous_state'', JStr (JobState_value (rj_state job))), (''error'', JStr ABANDONED_ERROR)]) (\<lambda>_.
     mret failed)))))"

fun recover_ingests ::
  "'x queue_env \<Rightarrow> 'x ingest_calls \<Rightarrow> string \<Rightarrow> timestamp \<Rightarrow> int \<Rightarrow> RelayJob list \<Rightarrow> RelayJob list \<Rightarrow> ('x, RelayJob list) queue_op" where
  "recover_ingests env calls cluster cutoff limit [] failures = mret failures"
| "recover_ingests env calls cluster cutoff limit (indexed # rest) failures =
     (if int (length failures) \<ge> limit then mret failures
      else mbind (get_job (rj_job_id indexed)) (\<lambda>job.
        if rj_cluster job \<noteq> cluster \<or> rj_kind job \<noteq> INPUT_INGEST \<or> rj_state job \<notin> {QUEUED, RUNNING} \<or> rj_updated_at job > cutoff
        then recover_ingests env calls cluster cutoff limit rest failures
        else mbind (abandon_ingest env calls job) (\<lambda>failed.
          recover_ingests env calls cluster cutoff limit rest (failures @ [failed]))))"

definition recover_abandoned_input_ingests ::
  "'x queue_env \<Rightarrow> 'x ingest_calls \<Rightarrow> string \<Rightarrow> timestamp option \<Rightarrow> int \<Rightarrow> ('x, RelayJob list) queue_op" where
  "recover_abandoned_input_ingests env calls cluster stale_before limit =
     mbind (qcheck (\<not> (limit < 1 \<or> limit > MAX_INPUT_INGEST_RECOVERY_BATCH))
       (ValueError (''input ingest recovery limit must be between 1 and '' @ int_str MAX_INPUT_INGEST_RECOVERY_BATCH))) (\<lambda>_.
     mbind (case stale_before of
         Some t \<Rightarrow> mret t
       | None \<Rightarrow> mbind (utc_now env) (\<lambda>now. mret (now - DEFAULT_INPUT_INGEST_ABANDONED_AFTER_SECONDS * 1000000))) (\<lambda>cutoff.
     mbind (initialize_queue env) (\<lambda>_.
     mbind (reconcile_transition_intents env) (\<lambda>_.
     mbind repair_active_job_index (\<lambda>_.
     mbind mget (\<lambda>s.
     mbind (qlift (scan_many rj_job_id ''job_id'' MAX_ACTIVE_JOB_RECORDS (qs_active s))) (\<lambda>(active, truncated).
     mbind (qcheck (\<not> truncated) (QueueConflictError ''active job index exceeded its safety bound'')) (\<lambda>_.
     mbind (mmap submission_order_key active) (\<lambda>keyed.
     recover_ingests env calls cluster cutoff limit (map snd (sort_key fst keyed)) [])))))))))"

text \<open>The events of a job up to the indexed head; each must be there under its own number.\<close>

fun event_in_history :: "string \<Rightarrow> (RelayEvent \<Rightarrow> bool) \<Rightarrow> int list \<Rightarrow> ('x, bool) queue_op" where
  "event_in_history job_id p [] = mret False"
| "event_in_history job_id p (q # qs) =
     mbind (read_optional_event job_id q) (\<lambda>event.
       case event of
         None \<Rightarrow> conflict (''input ingest event history is incomplete: '' @ job_id)
       | Some e \<Rightarrow>
           mbind (qcheck (re_job_id e = job_id \<and> re_seq e = q)
             (QueueConflictError (''input ingest event history is incomplete: '' @ job_id))) (\<lambda>_.
           if p e then mret True else event_in_history job_id p qs))"

definition ingest_event_exists :: "string \<Rightarrow> (RelayEvent \<Rightarrow> bool) \<Rightarrow> ('x, bool) queue_op" where
  "ingest_event_exists job_id p =
     mbind (read_job_index job_id) (\<lambda>index.
       case index of
         None \<Rightarrow> conflict (''input ingest job index is missing: '' @ job_id)
       | Some d \<Rightarrow>
           mbind (qlift (index_integer d ''latest_event_seq'')) (\<lambda>latest_event_seq.
           mbind (qcheck (\<not> latest_event_seq > DEFAULT_EXACT_RECORD_LIMIT)
             (QueueConflictError (''input ingest event history exceeds its reconciliation bound: '' @ job_id))) (\<lambda>_.
           event_in_history job_id p (map int [1..<Suc (nat latest_event_seq)]))))"

definition input_artifact_event_exists :: "ArtifactRef \<Rightarrow> ('x, bool) queue_op" where
  "input_artifact_event_exists artifact =
     ingest_event_exists (af_job_id artifact) (\<lambda>e. re_event_type e = ''artifact.created''
       \<and> doc_get (re_payload e) ''artifact_id'' = JStr (af_artifact_id artifact))"

definition input_ingest_succeeded_event_exists :: "string \<Rightarrow> ('x, bool) queue_op" where
  "input_ingest_succeeded_event_exists job_id = ingest_event_exists job_id (\<lambda>e. re_event_type e = ''job.succeeded'')"

definition ingest_succeeded :: "RelayJob \<Rightarrow> (string \<times> json) list \<Rightarrow> timestamp \<Rightarrow> RelayJob" where
  "ingest_succeeded job metadata now =
     job\<lparr>rj_state := SUCCEEDED, rj_updated_at := now, rj_last_error := None, rj_leased_by := None, rj_metadata := metadata\<rparr>"

definition succeed_ingest :: "'x queue_env \<Rightarrow> RelayJob \<Rightarrow> (string \<times> string) list option \<Rightarrow> ('x, RelayJob) queue_op" where
  "succeed_ingest env job attempt =
     mbind (case attempt of
         None \<Rightarrow> mret (rj_metadata job)
       | Some a \<Rightarrow> mbind (utc_now env) (\<lambda>completed. mret (with_attempt job (attempt_updated a
           [(''completed_at'', JStr (iso_format (qe_codec env) completed)), (''outcome'', JStr ''succeeded'')])))) (\<lambda>metadata.
     mbind (utc_now env) (\<lambda>now.
     let saved = ingest_succeeded job metadata now in
     mbind (write_job env saved) (\<lambda>_. mret saved)))"

definition complete_input_ingest ::
  "'x queue_env \<Rightarrow> 'x ingest_calls \<Rightarrow> string \<Rightarrow> string option \<Rightarrow> ('x, RelayJob \<times> bool) queue_op" where
  "complete_input_ingest env calls job_id attempt_id =
     mbind (qlift (require_durable_record_id job_id ''job_id'')) (\<lambda>job_id.
     mbind (initialize_queue env) (\<lambda>_.
     mbind (reconcile_transition_intents env) (\<lambda>_.
     mbind (get_job job_id) (\<lambda>job.
     mbind (qcheck (is_input_ingest job) (not_an_ingest job_id)) (\<lambda>_.
     mbind (qcheck (rj_state job \<in> {QUEUED, RUNNING, SUCCEEDED})
       (QueueConflictError (''input ingest job has unexpected state: '' @ JobState_value (rj_state job)))) (\<lambda>_.
     mbind (qlift (input_ingest_attempt calls job)) (\<lambda>attempt.
     mbind (case attempt_id of
         None \<Rightarrow> mret ()
       | Some a \<Rightarrow> mbind (qlift (require_durable_record_id a ''attempt_id'')) (\<lambda>a.
           qcheck (attempt_running job attempt a)
             (QueueConflictError (''input ingest attempt identity changed before completion: '' @ job_id)))) (\<lambda>_.
     mbind (qlift (deterministic_input_artifact_id (rj_job_id job))) (\<lambda>artifact_id.
     mbind mget (\<lambda>s.
     mbind (qlift (ic_artifact calls artifact_id (qs_other s))) (\<lambda>artifact.
     mbind (qcheck (case artifact of
           None \<Rightarrow> False
         | Some a \<Rightarrow> af_job_id a = rj_job_id job \<and> af_kind a = ''input''
             \<and> af_size_bytes a = map_option ias_size_bytes (input_spec job) \<and> af_sha256 a = map_option ias_sha256 (input_spec job))
       (QueueConflictError (''input ingest cannot complete without its exact artifact: '' @ job_id))) (\<lambda>_.
     let changed = (rj_state job \<in> {QUEUED, RUNNING}) in
     mbind (if changed then succeed_ingest env job attempt else mret job) (\<lambda>saved.
     mbind (input_ingest_succeeded_event_exists (rj_job_id saved)) (\<lambda>exists.
     mbind (if exists then mret ()
            else mbind (append_event env (rj_job_id saved) ''job.succeeded'' ''Input artifact ingested''
              [(''state'', JStr (JobState_value SUCCEEDED)), (''error'', JNull)]) (\<lambda>_. mret ())) (\<lambda>_.
     mret (saved, changed))))))))))))))))"

end
