(* ===== verification/InputQuota.thy ===== *)
theory InputQuota
  imports InputIngest QueueEvents
begin

text \<open>
  The quota of input ingestion in closed form. The code counts producers one by one and stops at the
  first that breaks a limit; on a readable generation this decides exactly whether the files and
  bytes of all other consuming ingests, plus the candidate, fit the policy.
\<close>

text \<open>What a membership must name for the count not to raise.\<close>

definition terminal_artifact_ok :: "'x ingest_calls \<Rightarrow> 'x \<Rightarrow> RelayJob \<Rightarrow> InputArtifactSpec \<Rightarrow> bool" where
  "terminal_artifact_ok calls x job spec \<longleftrightarrow> (\<exists>artifact_id. deterministic_input_artifact_id (rj_job_id job) = Inr artifact_id
     \<and> (ic_artifact calls artifact_id x = Inr None \<or> (\<exists>a. ic_artifact calls artifact_id x = Inr (Some a)
          \<and> af_artifact_id a = artifact_id \<and> af_job_id a = rj_job_id job \<and> af_kind a = ''input''
          \<and> af_size_bytes a = Some (ias_size_bytes spec) \<and> af_sha256 a = Some (ias_sha256 spec)
          \<and> doc_get (af_metadata a) ''schema_version'' = JStr ''clio-relay.input-artifact.v1''
          \<and> doc_get (af_metadata a) ''logical_name'' = JStr (ias_logical_name spec))))"

definition countable_producer ::
  "'x ingest_calls \<Rightarrow> 'x queue_state \<Rightarrow> string \<Rightarrow> string \<Rightarrow> string \<times> (py_error + OwnerSessionJobMembership) \<Rightarrow> bool" where
  "countable_producer calls s owner generation entry \<longleftrightarrow> (\<exists>m existing. snd entry = Inr m
     \<and> om_owner_session_id m = owner \<and> om_session_generation_id m = Some generation
     \<and> durable_id (om_job_id m) \<and> map_of (qs_jobs s) (om_job_id m) = Some existing \<and> rj_job_id existing = om_job_id m
     \<and> doc_get (rj_metadata existing) ''owner_session_id'' = JStr owner
     \<and> doc_get (rj_metadata existing) ''owner_session_generation_id'' = JStr generation
     \<and> (rj_kind existing = INPUT_INGEST \<longrightarrow> (\<exists>spec. input_spec existing = Some spec \<and> 0 \<le> ias_size_bytes spec
          \<and> (rj_state existing \<in> {FAILED, CANCELED} \<longrightarrow> terminal_artifact_ok calls (qs_other s) existing spec))))"

text \<open>
  The bytes one membership stands for: another ingest job of the generation that is still able to
  create its artifact, or that ended and left one behind.
\<close>

definition abandoned :: "'x ingest_calls \<Rightarrow> 'x \<Rightarrow> RelayJob \<Rightarrow> bool" where
  "abandoned calls x job \<longleftrightarrow> rj_state job \<in> {FAILED, CANCELED}
     \<and> (case deterministic_input_artifact_id (rj_job_id job) of Inr i \<Rightarrow> ic_artifact calls i x = Inr None | Inl _ \<Rightarrow> False)"

definition charged ::
  "'x ingest_calls \<Rightarrow> 'x queue_state \<Rightarrow> RelayJob \<Rightarrow> string \<times> (py_error + OwnerSessionJobMembership) \<Rightarrow> int option" where
  "charged calls s job entry = (case snd entry of
       Inl _ \<Rightarrow> None
     | Inr m \<Rightarrow> (case map_of (qs_jobs s) (om_job_id m) of
         None \<Rightarrow> None
       | Some existing \<Rightarrow>
           if rj_kind existing \<noteq> INPUT_INGEST \<or> rj_job_id existing = rj_job_id job \<or> abandoned calls (qs_other s) existing
           then None else map_option ias_size_bytes (input_spec existing)))"

lemma consumes_quota_exact:
  assumes "rj_kind job = INPUT_INGEST" "input_spec job = Some spec"
    "rj_state job \<in> {FAILED, CANCELED} \<longrightarrow> terminal_artifact_ok calls (qs_other s) job spec"
  shows "input_ingest_consumes_quota calls job s = (Inr (\<not> abandoned calls (qs_other s) job), s)"
  using assms
  by (auto simp: input_ingest_consumes_quota_def abandoned_def terminal_artifact_ok_def mret_def mbind_def mget_def qlift_def mlift_def
      mcheck_def)

lemma read_job_exact:
  "durable_id k \<Longrightarrow> map_of (qs_jobs s) k = Some j \<Longrightarrow> rj_job_id j = k \<Longrightarrow> read_optional_job k s = (Inr (Some j), s)"
  by (simp add: read_optional_job_def read_bound_def mbind_def mget_def qlift_def mlift_def validate_durable_record_id_Inr)

lemma quota_producer_exact:
  assumes "countable_producer calls s owner generation entry"
  shows "quota_producer calls job owner generation entry s = (Inr (charged calls s job entry), s)"
proof -
  obtain m existing where e: "snd entry = Inr m" and ids: "om_owner_session_id m = owner" "om_session_generation_id m = Some generation"
    and found: "durable_id (om_job_id m)" "map_of (qs_jobs s) (om_job_id m) = Some existing" "rj_job_id existing = om_job_id m"
    and meta: "doc_get (rj_metadata existing) ''owner_session_id'' = JStr owner"
      "doc_get (rj_metadata existing) ''owner_session_generation_id'' = JStr generation"
    and valid: "rj_kind existing = INPUT_INGEST \<longrightarrow> (\<exists>spec. input_spec existing = Some spec \<and> 0 \<le> ias_size_bytes spec
        \<and> (rj_state existing \<in> {FAILED, CANCELED} \<longrightarrow> terminal_artifact_ok calls (qs_other s) existing spec))"
    using assms unfolding countable_producer_def by blast
  note job = read_job_exact [OF found] found(2)
  show ?thesis
  proof (cases "rj_kind existing = INPUT_INGEST")
    case True
    obtain sp where sp: "input_spec existing = Some sp"
      "rj_state existing \<in> {FAILED, CANCELED} \<longrightarrow> terminal_artifact_ok calls (qs_other s) existing sp" using valid True by blast
    show ?thesis
      using True sp(1) ids job meta consumes_quota_exact [OF True sp]
      by (simp add: e quota_producer_def case_prod_unfold charged_def mbind_def qlift_def mlift_def mcheck_def mret_def)
  qed (use ids job meta in \<open>simp add: e quota_producer_def case_prod_unfold charged_def mbind_def qlift_def mlift_def mcheck_def mret_def\<close>)
qed

lemma charged_nonneg:
  "countable_producer calls s owner generation entry \<Longrightarrow> charged calls s job entry = Some n \<Longrightarrow> 0 \<le> n"
  by (auto simp: countable_producer_def charged_def split: if_splits)

definition fits :: "InputArtifactIngestPolicy \<Rightarrow> int \<Rightarrow> int \<Rightarrow> bool" where
  "fits policy files bytes \<longleftrightarrow> files \<le> ip_max_file_count policy \<and> bytes \<le> ip_max_total_bytes policy"

abbreviation charges ::
  "'x ingest_calls \<Rightarrow> 'x queue_state \<Rightarrow> RelayJob \<Rightarrow> (string \<times> (py_error + OwnerSessionJobMembership)) list \<Rightarrow> int list" where
  "charges calls s job entries \<equiv> List.map_filter (charged calls s job) entries"

definition over_quota :: "InputArtifactIngestPolicy \<Rightarrow> queue_exn set" where
  "over_quota policy = {Raised (file_count_limit policy), Raised (total_bytes_limit policy)}"

lemma charges_nonneg:
  "list_all (countable_producer calls s owner generation) entries \<Longrightarrow> 0 \<le> sum_list (charges calls s job entries)"
  by (induction entries) (auto simp: map_filter_simps charged_nonneg split: option.splits intro: add_nonneg_nonneg)

lemma quota_loop_exact:
  assumes "list_all (countable_producer calls s owner generation) entries"
  shows "(if charges calls s job entries = [] \<or> fits policy (n + int (length (charges calls s job entries)) + 1)
            (t + sum_list (charges calls s job entries) + bytes)
     then quota_loop calls job bytes policy owner generation entries (n, t) s
       = (Inr (n + int (length (charges calls s job entries)), t + sum_list (charges calls s job entries)), s)
     else \<exists>e \<in> over_quota policy. quota_loop calls job bytes policy owner generation entries (n, t) s = (Inl e, s))"
  using assms
proof (induction entries arbitrary: n t)
  case Nil
  then show ?case by (simp add: map_filter_simps mret_def)
next
  case (Cons e entries)
  have ok: "countable_producer calls s owner generation e" and rest: "list_all (countable_producer calls s owner generation) entries"
    using Cons.prems by simp_all
  note one = quota_producer_exact [OF ok, of job]
  show ?case
  proof (cases "charged calls s job e")
    case None
    then show ?thesis using Cons.IH [OF rest, of n t] one by (simp add: map_filter_simps mbind_def)
  next
    case (Some c)
    let ?cs = "charges calls s job entries"
    have c: "0 \<le> c" "0 \<le> sum_list ?cs" using charged_nonneg [OF ok Some] charges_nonneg [OF rest] by simp_all
    have step: "quota_loop calls job bytes policy owner generation (e # entries) (n, t) s =
      (if \<not> n + 1 < ip_max_file_count policy then (Inl (Raised (file_count_limit policy)), s)
       else if \<not> t + c + bytes \<le> ip_max_total_bytes policy then (Inl (Raised (total_bytes_limit policy)), s)
       else quota_loop calls job bytes policy owner generation entries (n + 1, t + c) s)"
      using one Some by (simp add: mbind_def mcheck_def mret_def mraise_def)
    show ?thesis
      using Cons.IH [OF rest, of "n + 1" "t + c"] c
      by (cases "?cs = []") (auto simp: step Some map_filter_simps fits_def over_quota_def algebra_simps simp del: quota_loop.simps)
  qed
qed

text \<open>
  C18: the quota admits exactly what fits. For an ingest job of an owner-session generation whose
  memberships are readable and name existing producers, the check, which counts producers one at a
  time and stops early, accepts if and only if the number of other consuming ingests plus this one,
  and their bytes plus its own, stay within the policy; otherwise it raises one of its two limit
  errors, and in either case it changes nothing.
\<close>

theorem input_quota_exact:
  assumes job: "rj_kind job = INPUT_INGEST" "input_spec job = Some sp"
    and owner: "owner_session_identity (rj_metadata job) False = Inr (Some (owner, Some generation))"
      "doc_get (rj_metadata job) ''owner'' = JStr ''clio-relay''"
    and entries: "ic_memberships calls owner generation (qs_other s) = entries" "int (length entries) \<le> MAX_ACTIVE_JOB_RECORDS"
      "list_all (countable_producer calls s owner generation) entries"
  shows "if fits policy (int (length (charges calls s job entries)) + 1) (sum_list (charges calls s job entries) + ias_size_bytes sp)
    then assert_input_ingest_quota calls job (Some policy) s = (Inr (), s)
    else \<exists>e \<in> over_quota policy. assert_input_ingest_quota calls job (Some policy) s = (Inl e, s)"
proof -
  let ?bytes = "ias_size_bytes sp" and ?cs = "charges calls s job entries"
  have paths: "bounded_json_record_paths MAX_ACTIVE_JOB_RECORDS label entries = Inr (map fst entries)" for label
    using entries(2) by (simp add: bounded_json_record_paths_def)
  have start: "assert_input_ingest_quota calls job (Some policy) s = quota_of_generation calls job ?bytes policy owner generation s"
    using job owner by (simp add: assert_input_ingest_quota_def mbind_def qlift_def mlift_def mcheck_def mret_def)
  have body: "quota_of_generation calls job ?bytes policy owner generation s =
      (case quota_loop calls job ?bytes policy owner generation entries (0, 0) s of
         (Inl e, s') \<Rightarrow> (Inl e, s')
       | (Inr (files, total_), s') \<Rightarrow>
           if \<not> files + 1 \<le> ip_max_file_count policy then (Inl (Raised (file_count_limit policy)), s')
           else if \<not> total_ + ?bytes \<le> ip_max_total_bytes policy then (Inl (Raised (total_bytes_limit policy)), s') else (Inr (), s'))"
    using entries(1) paths
    by (auto simp: quota_of_generation_def Let_def mbind_def mget_def qlift_def mlift_def mcheck_def mret_def mraise_def
        split: prod.splits sum.splits)
  note counted = quota_loop_exact [OF entries(3), of job policy 0 0 ?bytes]
  show ?thesis
  proof (cases "fits policy (int (length ?cs) + 1) (sum_list ?cs + ?bytes)")
    case True
    then have "quota_loop calls job ?bytes policy owner generation entries (0, 0) s = (Inr (int (length ?cs), sum_list ?cs), s)"
      using counted by simp
    with True show ?thesis by (simp add: start body fits_def)
  next
    case False
    show ?thesis
    proof (cases "?cs = []")
      case True
      then have "quota_loop calls job ?bytes policy owner generation entries (0, 0) s = (Inr (0, 0), s)" using counted by simp
      with False True show ?thesis by (auto simp: start body fits_def over_quota_def)
    next
      case some: False
      then obtain e where "e \<in> over_quota policy" "quota_loop calls job ?bytes policy owner generation entries (0, 0) s = (Inl e, s)"
        using counted False by auto
      with False show ?thesis by (auto simp: start body)
    qed
  qed
qed

text \<open>A generation with one running ingest of five bytes, and a candidate of seven.\<close>

definition demo_ingest_job :: "string \<Rightarrow> int \<Rightarrow> JobState \<Rightarrow> RelayJob" where
  "demo_ingest_job k bytes state = demo_owned_job\<lparr>rj_job_id := k, rj_kind := INPUT_INGEST, rj_state := state,
     rj_spec := InputArtifact \<lparr>ias_logical_name = ''input.dat'', ias_size_bytes = bytes, ias_sha256 = replicate 64 (CHR ''0'')\<rparr>,
     rj_metadata := [(''owner'', JStr ''clio-relay''), (''owner_session_id'', JStr ''session''),
       (''owner_session_generation_id'', JStr ''gen_1''),
       (''input_ingest_policy'', JObj [(''max_file_count'', JInt 2), (''max_total_bytes'', JInt 12)])]\<rparr>"

definition demo_ingest_calls :: "string list \<Rightarrow> unit ingest_calls" where
  "demo_ingest_calls members = \<lparr>ic_fromisoformat = \<lambda>_. Some (0, True),
     ic_memberships = \<lambda>owner generation _. map (\<lambda>k. (k, Inr \<lparr>om_owner_session_id = owner, om_session_generation_id = Some generation,
       om_job_id = k, om_cluster = ''cluster'', om_state = RUNNING, om_created_at = 0, om_updated_at = 0\<rparr>)) members,
     ic_artifact = \<lambda>_ _. Inr None\<rparr>"

lemma demo_ingest_identity:
  "owner_session_identity (rj_metadata (demo_ingest_job k n st)) False = Inr (Some (''session'', Some ''gen_1''))"
proof -
  have "validate_durable_record_id (JStr ''gen_1'') = Inr ''gen_1''" by code_simp
  then show ?thesis by (simp add: demo_ingest_job_def owner_session_identity_def doc_get_def dict_get_def Let_def)
qed

theorem input_quota_exact_witness:
  "\<forall>p b. assert_input_ingest_quota (demo_ingest_calls [''job_a'']) (demo_ingest_job ''job_b'' 7 QUEUED)
     (Some \<lparr>ip_max_file_count = 2, ip_max_total_bytes = 12\<rparr>) (demo_state p b\<lparr>qs_jobs := [(''job_a'', demo_ingest_job ''job_a'' 5 RUNNING)]\<rparr>)
     = (Inr (), demo_state p b\<lparr>qs_jobs := [(''job_a'', demo_ingest_job ''job_a'' 5 RUNNING)]\<rparr>)"
proof (intro allI)
  fix p b
  let ?s = "demo_state p b\<lparr>qs_jobs := [(''job_a'', demo_ingest_job ''job_a'' 5 RUNNING)]\<rparr>" and ?job = "demo_ingest_job ''job_b'' 7 QUEUED"
  let ?calls = "demo_ingest_calls [''job_a'']"
  define entries where "entries = ic_memberships ?calls ''session'' ''gen_1'' (qs_other ?s)"
  have id: "durable_id ''job_a''" by code_simp
  have ok: "list_all (countable_producer ?calls ?s ''session'' ''gen_1'') entries"
    using id by (simp add: entries_def demo_ingest_calls_def countable_producer_def demo_ingest_job_def input_spec_def doc_get_def dict_get_def)
  have cs: "charges ?calls ?s ?job entries = [5]"
    by (simp add: entries_def demo_ingest_calls_def map_filter_simps charged_def demo_ingest_job_def abandoned_def input_spec_def)
  have job: "rj_kind ?job = INPUT_INGEST" "doc_get (rj_metadata ?job) ''owner'' = JStr ''clio-relay''"
    "input_spec ?job = Some \<lparr>ias_logical_name = ''input.dat'', ias_size_bytes = 7, ias_sha256 = replicate 64 (CHR ''0'')\<rparr>"
    by (simp_all add: demo_ingest_job_def input_spec_def doc_get_def dict_get_def)
  have few: "int (length entries) \<le> MAX_ACTIVE_JOB_RECORDS" by (simp add: entries_def demo_ingest_calls_def MAX_ACTIVE_JOB_RECORDS_def)
  from input_quota_exact [OF job(1,3) demo_ingest_identity job(2) entries_def [symmetric] few ok,
      where policy = "\<lparr>ip_max_file_count = 2, ip_max_total_bytes = 12\<rparr>"]
  show "assert_input_ingest_quota ?calls ?job (Some \<lparr>ip_max_file_count = 2, ip_max_total_bytes = 12\<rparr>) ?s = (Inr (), ?s)"
    unfolding cs by (simp add: fits_def)
qed

end
