(* ===== verification/IngestSafety.thy ===== *)
theory IngestSafety
  imports InputQuota JobUpdates
begin

text \<open>
  The lifecycle of an ingest job under crashes and competing requests: each step is an atomic
  transition, and a job that runs under one attempt is closed to every other.
\<close>

section \<open>Transitions\<close>

lemma runs_reads: "(\<And>s. holds \<sigma> s \<Longrightarrow> m s = (Inr x, s)) \<Longrightarrow> Q x \<sigma> \<Longrightarrow> runs P \<sigma> m Q"
  by (auto simp: runs_def holds_def)

text \<open>A request that the queue accepts: the stored policy is valid, and so is a kept original; the quota admits it.\<close>

definition claimable :: "'x ingest_calls \<Rightarrow> RelayJob \<Rightarrow> InputArtifactIngestPolicy \<Rightarrow> InputArtifactIngestPolicy \<Rightarrow> content \<Rightarrow> bool" where
  "claimable calls job stored effective \<sigma> \<longleftrightarrow> is_input_ingest job \<and> rj_state job \<in> {QUEUED, FAILED}
     \<and> (\<exists>a. input_ingest_attempt calls job = Inr a)
     \<and> InputArtifactIngestPolicy_validate (doc_get (rj_metadata job) ''input_ingest_policy'') = Some stored
     \<and> (doc_get (rj_metadata job) ''input_ingest_original_policy'' = JNull
        \<or> InputArtifactIngestPolicy_validate (doc_get (rj_metadata job) ''input_ingest_original_policy'') \<noteq> None)
     \<and> (\<forall>s. holds \<sigma> s \<longrightarrow> assert_input_ingest_quota calls job (Some effective) s = (Inr (), s))"

lemma ingest_versions:
  assumes "settled env L {} \<sigma>" "\<sigma> (JobCell k) = Some (JobV job)"
  shows "durable_id k" "rj_job_id job = k" "replaces job (ingest_started env job attempt_id stored effective now) \<sigma>"
    "replaces job (ingest_failed job attempt error now) \<sigma>" "replaces job (ingest_succeeded job metadata now) \<sigma>"
proof -
  show k: "durable_id k" "rj_job_id job = k" using assms jobs_okD [of "{}" \<sigma> k job] by (auto simp: settled_def)
  show "replaces job (ingest_started env job attempt_id stored effective now) \<sigma>" "replaces job (ingest_failed job attempt error now) \<sigma>"
    "replaces job (ingest_succeeded job metadata now) \<sigma>"
    using assms(2) k(2) by (simp_all add: replaces_def ingest_started_def ingest_failed_def ingest_succeeded_def Let_def)
qed

lemma runs_begin_input_ingest:
  fixes env :: "'x queue_env"
  assumes env: "env_ok env" and \<sigma>: "settled env L {} \<sigma>" and job: "\<sigma> (JobCell k) = Some (JobV job)" and a: "durable_id attempt_id"
    and claim: "claimable calls job stored (case policy of None \<Rightarrow> stored | Some p \<Rightarrow> p) \<sigma>"
    and log: "event_log lag \<sigma> k es" "lag < DEFAULT_EXACT_RECORD_LIMIT"
    and P: "P \<sigma>" "\<And>now \<tau>. interrupted env L \<sigma> lag es job
        (ingest_started env job attempt_id stored (case policy of None \<Rightarrow> stored | Some p \<Rightarrow> p) now) [''input_ingest.started''] \<tau> \<Longrightarrow> P \<tau>"
    and Q: "\<And>now \<tau>. version env L \<sigma> 0 es (ingest_started env job attempt_id stored (case policy of None \<Rightarrow> stored | Some p \<Rightarrow> p) now)
        [''input_ingest.started''] \<tau>
      \<Longrightarrow> Q (ingest_started env job attempt_id stored (case policy of None \<Rightarrow> stored | Some p \<Rightarrow> p) now, True) \<tau>"
  shows "runs P \<sigma> (begin_input_ingest env calls k attempt_id policy) Q"
proof -
  note k = ingest_versions [OF \<sigma> job]
  have log': "event_log lag \<sigma> (rj_job_id job) es" using log(1) k by simp
  obtain att where att: "input_ingest_attempt calls job = Inr att" using claim by (auto simp: claimable_def)
  have facts: "is_input_ingest job" "InputArtifactIngestPolicy_validate (doc_get (rj_metadata job) ''input_ingest_policy'') = Some stored"
    "doc_get (rj_metadata job) ''input_ingest_original_policy'' = JNull
        \<or> InputArtifactIngestPolicy_validate (doc_get (rj_metadata job) ''input_ingest_original_policy'') \<noteq> None"
    using claim by (simp_all add: claimable_def)
  have st: "rj_state job \<noteq> SUCCEEDED" "rj_state job \<noteq> RUNNING" "\<not> rj_state job \<notin> {QUEUED, FAILED}"
    using claim by (auto simp: claimable_def)
  have quota: "assert_input_ingest_quota calls job (Some (case policy of None \<Rightarrow> stored | Some p \<Rightarrow> p)) s = (Inr (), s)" if "holds \<sigma> s" for s
    using claim that by (simp add: claimable_def)
  have "runs P \<sigma> (claim_ingest env calls job attempt_id policy) Q"
    unfolding claim_ingest_def facts(2) option.case Let_def
    by (rule runs_mbind, rule runs_reads, erule quota, rule runs_mbind, rule runs_utc_now, rule runs_mbind, rule runs_mcheck,
        rule facts(3), rule runs_transition [OF env \<sigma> k(3) log' log(2)], erule P(2), rule runs_mret, erule Q)
  then show ?thesis
    unfolding begin_input_ingest_def
    by (intro runs_mbind [OF runs_qlift [OF require_durable_id [OF k(1)]]] runs_mbind [OF runs_qlift [OF require_durable_id [OF a]]]
        runs_opened [OF env \<sigma> job] P(1) runs_mbind [OF runs_mcheck [OF facts(1)]])
       (unfold if_not_P [OF st(1)], intro runs_mbind [OF runs_qlift [OF att]],
        unfold if_not_P [OF st(2)] if_not_P [OF st(3)])
qed

abbreviation bounded_error :: "string \<Rightarrow> string" where
  "bounded_error error \<equiv> if error_detail error = [] then ''input artifact ingest failed'' else error_detail error"

definition failed_version :: "'x queue_env \<Rightarrow> RelayJob \<Rightarrow> (string \<times> string) list \<Rightarrow> string \<Rightarrow> timestamp \<Rightarrow> RelayJob" where
  "failed_version env job att error now = ingest_failed job (attempt_updated att
     [(''completed_at'', JStr (iso_format (qe_codec env) now)), (''outcome'', JStr ''failed''), (''error'', JStr (bounded_error error))])
     (bounded_error error) now"

lemma runs_fail_input_ingest:
  fixes env :: "'x queue_env"
  assumes env: "env_ok env" and \<sigma>: "settled env L {} \<sigma>" and job: "\<sigma> (JobCell k) = Some (JobV job)" and a: "durable_id attempt_id"
    and run: "is_input_ingest job" "input_ingest_attempt calls job = Inr (Some att)" "attempt_running job (Some att) attempt_id"
    and log: "event_log lag \<sigma> k es" "lag < DEFAULT_EXACT_RECORD_LIMIT"
    and P: "P \<sigma>" "\<And>now \<tau>. interrupted env L \<sigma> lag es job (failed_version env job att error now) [''job.failed''] \<tau> \<Longrightarrow> P \<tau>"
    and Q: "\<And>now \<tau>. version env L \<sigma> 0 es (failed_version env job att error now) [''job.failed''] \<tau>
      \<Longrightarrow> Q (failed_version env job att error now, True) \<tau>"
  shows "runs P \<sigma> (fail_input_ingest env calls k attempt_id error) Q"
proof -
  note k = ingest_versions [OF \<sigma> job]
  have log': "event_log lag \<sigma> (rj_job_id job) es" using log(1) k by simp
  have st: "rj_state job \<noteq> SUCCEEDED" "rj_state job \<noteq> FAILED" using run(3) by (auto simp: attempt_running_def)
  have body: "runs P \<sigma> (mbind (utc_now env) (\<lambda>now. mbind (write_job env (failed_version env job att error now)) (\<lambda>_.
      mbind (append_event env (rj_job_id job) ''job.failed'' message payload) (\<lambda>_. mret (failed_version env job att error now, True))))) Q"
    for message payload
    by (rule runs_mbind, rule runs_utc_now, rule runs_transition [OF env \<sigma> _ log' log(2), where later = "[]"],
        simp only: failed_version_def k(4), erule P(2), rule runs_mret, erule Q)
  show ?thesis
    unfolding fail_input_ingest_def Let_def
    by (rule runs_mbind, rule runs_qlift, rule require_durable_id [OF k(1)], rule runs_mbind, rule runs_qlift, rule require_durable_id [OF a],
        rule runs_opened [OF env \<sigma> job], rule P(1), rule runs_mbind, rule runs_mcheck, rule run(1), rule runs_mbind, rule runs_qlift, rule run(2),
        unfold if_not_P [OF st(1)] if_not_P [OF st(2)] option.sel, rule runs_mbind, rule runs_mcheck, rule run(3),
        rule body [unfolded failed_version_def k(2)])
qed

lemma runs_event_in_history:
  assumes "log_files \<sigma> k es" "\<forall>q \<in> set qs. 1 \<le> q \<and> q \<le> int (length es)" "list_all (\<lambda>e. \<not> p e) es" "Q False \<sigma>"
  shows "runs P \<sigma> (event_in_history k p qs :: ('x, bool) queue_op) Q"
  using assms(2)
proof (induction qs)
  case Nil
  show ?case unfolding event_in_history.simps by (rule runs_mret) (rule assms(4))
next
  case (Cons q qs)
  then have q: "1 \<le> q" "q \<le> int (length es)" and rest: "runs P \<sigma> (event_in_history k p qs :: ('x, bool) queue_op) Q" by simp_all
  let ?e = "es ! nat (q - 1)"
  have n: "nat (q - 1) < length es" using q by linarith
  have id: "re_job_id ?e = k \<and> re_seq ?e = q" using assms(1) n q(1) by (auto simp: log_files_def)
  have no: "\<not> p ?e" using assms(3) n by (simp add: list_all_length)
  show ?case
    by (simp only: event_in_history.simps, rule runs_mbind, rule runs_read_event [OF assms(1) q(1)],
        simp only: q(2) if_True option.case, rule runs_mbind, rule runs_mcheck, rule id, simp only: no if_False, rule rest)
qed

lemma runs_ingest_event_exists:
  assumes k: "durable_id k" and log: "event_log lag \<sigma> k es" and few: "int (length es) \<le> DEFAULT_EXACT_RECORD_LIMIT"
    and none: "list_all (\<lambda>e. \<not> p e) es" and Q: "Q False \<sigma>"
  shows "runs P \<sigma> (ingest_event_exists k p) Q"
proof -
  obtain n d where files: "log_files \<sigma> k es" and n: "n \<le> int (length es)" and d: "\<sigma> (JobIndexCell k) = Some (DocV (JObj d))"
    "parse_job_index k (JObj d) = Inr d" "index_integer d ''latest_event_seq'' = Inr n"
    using log by (auto simp: event_log_def index_head_def)
  have range: "\<forall>q \<in> set (map int [1..<Suc (nat n)]). 1 \<le> q \<and> q \<le> int (length es)" using n by auto
  show ?thesis
    unfolding ingest_event_exists_def
    by (rule runs_mbind, rule runs_read_job_index [where \<sigma> = \<sigma> and d = d, OF k d(1,2)], simp only: option.case, rule runs_mbind, rule runs_qlift, rule d(3),
        rule runs_mbind, rule runs_mcheck, use n few in simp, rule runs_event_in_history [OF files range none], rule Q)
qed

definition succeeded_version :: "'x queue_env \<Rightarrow> RelayJob \<Rightarrow> (string \<times> string) list option \<Rightarrow> timestamp \<times> timestamp \<Rightarrow> RelayJob" where
  "succeeded_version env job attempt now = ingest_succeeded job
     (case attempt of None \<Rightarrow> rj_metadata job
      | Some a \<Rightarrow> with_attempt job (attempt_updated a
          [(''completed_at'', JStr (iso_format (qe_codec env) (fst now))), (''outcome'', JStr ''succeeded'')])) (snd now)"

text \<open>A completion that the queue accepts: the exact artifact is durable, and no success has been logged.\<close>

definition completable :: "'x ingest_calls \<Rightarrow> RelayJob \<Rightarrow> string option \<Rightarrow> (string \<times> string) list option \<Rightarrow> RelayEvent list \<Rightarrow> bool" where
  "completable calls job attempt_id attempt es \<longleftrightarrow> is_input_ingest job \<and> rj_state job \<in> {QUEUED, RUNNING}
     \<and> input_ingest_attempt calls job = Inr attempt
     \<and> (case attempt_id of None \<Rightarrow> True | Some a \<Rightarrow> durable_id a \<and> attempt_running job attempt a)
     \<and> (\<exists>artifact_id. deterministic_input_artifact_id (rj_job_id job) = Inr artifact_id
        \<and> (\<forall>x. \<exists>a. ic_artifact calls artifact_id x = Inr (Some a) \<and> af_job_id a = rj_job_id job \<and> af_kind a = ''input''
             \<and> af_size_bytes a = map_option ias_size_bytes (input_spec job) \<and> af_sha256 a = map_option ias_sha256 (input_spec job)))
     \<and> list_all (\<lambda>e. re_event_type e \<noteq> ''job.succeeded'') es \<and> int (length es) \<le> DEFAULT_EXACT_RECORD_LIMIT"

lemma runs_succeed_ingest:
  assumes "\<And>now. runs P \<sigma> (mbind (write_job env (succeeded_version env job attempt now)) (\<lambda>_. f (succeeded_version env job attempt now))) Q"
  shows "runs P \<sigma> (mbind (succeed_ingest env job attempt) f) Q"
proof -
  have go: "runs P \<sigma> (mbind (utc_now env) (\<lambda>now. mbind (write_job env (g now)) (\<lambda>_. f (g now)))) Q"
    if "\<And>now. g now = succeeded_version env job attempt (c, now)" for g c
    using assms unfolding that by (blast intro: runs_mbind runs_utc_now)
  show ?thesis
  proof (cases attempt)
    case None
    show ?thesis unfolding succeed_ingest_def None option.case mbind_mret mbind_assoc Let_def
      by (rule go [where c = 0]) (simp add: succeeded_version_def None)
  next
    case (Some a)
    show ?thesis unfolding succeed_ingest_def Some option.case mbind_mret mbind_assoc Let_def
      by (rule runs_mbind, rule runs_utc_now, rule go) (simp add: succeeded_version_def Some)
  qed
qed

lemma runs_complete_input_ingest:
  fixes env :: "'x queue_env"
  assumes env: "env_ok env" and \<sigma>: "settled env L {} \<sigma>" and job: "\<sigma> (JobCell k) = Some (JobV job)"
    and done_: "completable calls job attempt_id attempt es"
    and log: "event_log lag \<sigma> k es" "lag < DEFAULT_EXACT_RECORD_LIMIT"
    and P: "P \<sigma>" "\<And>now \<tau>. interrupted env L \<sigma> lag es job (succeeded_version env job attempt now) [''job.succeeded''] \<tau> \<Longrightarrow> P \<tau>"
    and Q: "\<And>now \<tau>. version env L \<sigma> 0 es (succeeded_version env job attempt now) [''job.succeeded''] \<tau>
      \<Longrightarrow> Q (succeeded_version env job attempt now, True) \<tau>"
  shows "runs P \<sigma> (complete_input_ingest env calls k attempt_id) Q"
proof -
  note k = ingest_versions [OF \<sigma> job]
  have log': "event_log lag \<sigma> (rj_job_id job) es" using log(1) k by simp
  have none: "\<sigma> (IntentCell n) = None" for n using \<sigma> by (simp add: settled_def)
  obtain artifact_id where aid: "deterministic_input_artifact_id (rj_job_id job) = Inr artifact_id"
    and art: "\<And>x. \<exists>a. ic_artifact calls artifact_id x = Inr (Some a) \<and> af_job_id a = rj_job_id job \<and> af_kind a = ''input''
             \<and> af_size_bytes a = map_option ias_size_bytes (input_spec job) \<and> af_sha256 a = map_option ias_sha256 (input_spec job)"
    using done_ unfolding completable_def by blast
  have facts: "is_input_ingest job" "rj_state job \<in> {QUEUED, RUNNING, SUCCEEDED}" "input_ingest_attempt calls job = Inr attempt"
    "rj_state job \<in> {QUEUED, RUNNING}" "list_all (\<lambda>e. \<not> re_event_type e = ''job.succeeded'') es" "int (length es) \<le> DEFAULT_EXACT_RECORD_LIMIT"
    using done_ by (auto simp: completable_def)
  have held: "runs P \<sigma> (case attempt_id of None \<Rightarrow> mret () | Some a \<Rightarrow> mbind (qlift (require_durable_record_id a ''attempt_id'')) (\<lambda>a.
      qcheck (attempt_running job attempt a) e)) R" if "R () \<sigma>" for R e
    using done_ that require_durable_id by (auto simp: completable_def split: option.splits intro!: runs_mbind runs_qlift runs_mcheck runs_mret)
  have body: "runs P \<sigma> (mbind (succeed_ingest env job attempt) (\<lambda>saved.
     mbind (input_ingest_succeeded_event_exists (rj_job_id saved)) (\<lambda>exists.
     mbind (if exists then mret ()
            else mbind (append_event env (rj_job_id saved) ''job.succeeded'' message payload) (\<lambda>_. mret ())) (\<lambda>_.
     mret (saved, True))))) Q" for message payload
  proof (rule runs_succeed_ingest)
    fix now
    let ?j = "succeeded_version env job attempt now"
    have r: "replaces job ?j \<sigma>" unfolding succeeded_version_def by (rule k(5))
    have id: "durable_id (rj_job_id ?j)" using r k by (simp add: replaces_def)
    note v = version_written [OF \<sigma> r log'] and points = interrupted_points [OF \<sigma> r log']
    have log2: "event_log lag (job_written ?j \<sigma>) (rj_job_id ?j) es" using v by (simp add: version_def)
    have P2: "P \<rho>" if "version env L \<sigma> (lag + 1) es ?j ([] @ [''job.succeeded'']) \<rho>" for \<rho>
      by (rule P(2), rule points(3)) (use that in simp)
    show "runs P \<sigma> (mbind (write_job env ?j) (\<lambda>_.
       mbind (input_ingest_succeeded_event_exists (rj_job_id ?j)) (\<lambda>exists.
       mbind (if exists then mret ()
              else mbind (append_event env (rj_job_id ?j) ''job.succeeded'' message payload) (\<lambda>_. mret ())) (\<lambda>_.
       mret (?j, True))))) Q"
      unfolding input_ingest_succeeded_event_exists_def
      by (rule runs_mbind, rule runs_write_version [OF env r none], rule P(2), erule points(1), rule runs_mbind,
          rule runs_ingest_event_exists [OF id log2 facts(6,5)], simp only: if_False mbind_assoc mbind_mret, rule runs_mbind,
          rule runs_append_version [OF id v log(2)], rule P(2), rule points(2), erule P2, rule runs_mret, rule Q, simp)
  qed
  have ok: "runs P \<sigma> (mbind mget (\<lambda>s. mbind (qlift (ic_artifact calls artifact_id (qs_other s))) (\<lambda>artifact.
      mbind (qcheck (case artifact of None \<Rightarrow> False
         | Some a \<Rightarrow> af_job_id a = rj_job_id job \<and> af_kind a = ''input''
             \<and> af_size_bytes a = map_option ias_size_bytes (input_spec job) \<and> af_sha256 a = map_option ias_sha256 (input_spec job)) e) f))) Q"
    if "runs P \<sigma> (f ()) Q" for f :: "unit \<Rightarrow> ('x, RelayJob \<times> bool) queue_op" and e
  proof (rule runs_mget)
    fix s :: "'x queue_state"
    obtain a where a: "ic_artifact calls artifact_id (qs_other s) = Inr (Some a)" "af_job_id a = rj_job_id job \<and> af_kind a = ''input''
             \<and> af_size_bytes a = map_option ias_size_bytes (input_spec job) \<and> af_sha256 a = map_option ias_sha256 (input_spec job)"
      using art by blast
    show "runs P \<sigma> (mbind (qlift (ic_artifact calls artifact_id (qs_other s))) (\<lambda>artifact.
      mbind (qcheck (case artifact of None \<Rightarrow> False
         | Some a \<Rightarrow> af_job_id a = rj_job_id job \<and> af_kind a = ''input''
             \<and> af_size_bytes a = map_option ias_size_bytes (input_spec job) \<and> af_sha256 a = map_option ias_sha256 (input_spec job)) e) f)) Q"
      by (rule runs_mbind, rule runs_qlift, rule a(1), rule runs_mbind, rule runs_mcheck) (use a(2) that in simp_all)
  qed
  show ?thesis
    unfolding complete_input_ingest_def Let_def
    by (rule runs_mbind, rule runs_qlift, rule require_durable_id [OF k(1)],
        rule runs_opened [OF env \<sigma> job], rule P(1), rule runs_mbind, rule runs_mcheck, rule facts(1),
        rule runs_mbind, rule runs_mcheck, rule facts(2), rule runs_mbind, rule runs_qlift, rule facts(3), rule runs_mbind, rule held,
        rule runs_mbind, rule runs_qlift, rule aid, rule ok, unfold eqTrueI [OF facts(4)] if_True, rule body)
qed

text \<open>
  C11: the lifecycle of an input ingest is atomic. From a settled store, claiming a queued or failed
  ingest that the generation's quota admits, failing the attempt that runs, and completing an ingest
  whose exact artifact is durable each return the new version of the job (running under the attempt,
  failed with the bounded error, succeeded) with its event logged and nothing else touched; or crash, and
  after any number of interrupted restarts the next complete replay leaves the old content, or the new
  version with or without its event.
\<close>

theorem input_ingest_atomic:
  fixes env :: "'x queue_env"
  assumes env: "env_ok env" and h: "holds \<sigma> s" and \<sigma>: "settled env L {} \<sigma>" and job: "\<sigma> (JobCell k) = Some (JobV job)"
    and log: "event_log lag \<sigma> k es" "lag < DEFAULT_EXACT_RECORD_LIMIT"
  shows "(durable_id attempt_id \<and> claimable calls job stored (case policy of None \<Rightarrow> stored | Some p \<Rightarrow> p) \<sigma> \<longrightarrow>
      atomic_transition env L \<sigma> lag es s (begin_input_ingest env calls k attempt_id policy)
        (\<lambda>x j' types. (\<exists>now. j' = ingest_started env job attempt_id stored (case policy of None \<Rightarrow> stored | Some p \<Rightarrow> p) now)
          \<and> x = (j', True) \<and> types = [''input_ingest.started'']))
    \<and> (durable_id attempt_id \<and> is_input_ingest job \<and> input_ingest_attempt calls job = Inr (Some att)
       \<and> attempt_running job (Some att) attempt_id \<longrightarrow>
      atomic_transition env L \<sigma> lag es s (fail_input_ingest env calls k attempt_id error)
        (\<lambda>x j' types. (\<exists>now. j' = failed_version env job att error now) \<and> x = (j', True) \<and> types = [''job.failed'']))
    \<and> (completable calls job caller attempt es \<longrightarrow>
      atomic_transition env L \<sigma> lag es s (complete_input_ingest env calls k caller)
        (\<lambda>x j' types. (\<exists>now. j' = succeeded_version env job attempt now) \<and> x = (j', True) \<and> types = [''job.succeeded'']))"
proof -
  note k = ingest_versions [OF \<sigma> job]
  have log': "event_log lag \<sigma> (rj_job_id job) es" using log(1) k by simp
  note now = atomic_now [OF env h \<sigma> log', where g = "\<lambda>j. (j, True)"]
  have r: "replaces job (failed_version env job att error n) \<sigma>" "replaces job (succeeded_version env job attempt m) \<sigma>" for n m
    by (simp_all only: failed_version_def succeeded_version_def k)
  show ?thesis
  proof (intro conjI impI)
    assume a: "durable_id attempt_id \<and> claimable calls job stored (case policy of None \<Rightarrow> stored | Some p \<Rightarrow> p) \<sigma>"
    show "atomic_transition env L \<sigma> lag es s (begin_input_ingest env calls k attempt_id policy)
        (\<lambda>x j' types. (\<exists>now. j' = ingest_started env job attempt_id stored (case policy of None \<Rightarrow> stored | Some p \<Rightarrow> p) now)
          \<and> x = (j', True) \<and> types = [''input_ingest.started''])"
      by (rule now, rule k(3)) (rule runs_begin_input_ingest [OF env \<sigma> job conjunct1 [OF a] conjunct2 [OF a] log])
  next
    assume a: "durable_id attempt_id \<and> is_input_ingest job \<and> input_ingest_attempt calls job = Inr (Some att)
       \<and> attempt_running job (Some att) attempt_id"
    then have att: "durable_id attempt_id" "is_input_ingest job" "input_ingest_attempt calls job = Inr (Some att)"
      "attempt_running job (Some att) attempt_id" by simp_all
    show "atomic_transition env L \<sigma> lag es s (fail_input_ingest env calls k attempt_id error)
        (\<lambda>x j' types. (\<exists>now. j' = failed_version env job att error now) \<and> x = (j', True) \<and> types = [''job.failed''])"
      by (rule now, rule r(1)) (rule runs_fail_input_ingest [OF env \<sigma> job att log])
  next
    assume a: "completable calls job caller attempt es"
    show "atomic_transition env L \<sigma> lag es s (complete_input_ingest env calls k caller)
        (\<lambda>x j' types. (\<exists>now. j' = succeeded_version env job attempt now) \<and> x = (j', True) \<and> types = [''job.succeeded''])"
      by (rule now, rule r(2)) (rule runs_complete_input_ingest [OF env \<sigma> job a log])
  qed
qed

text \<open>A store with one job \<open>J\<close>.\<close>

definition demo_job_state :: "RelayJob \<Rightarrow> LeaseCapacityPair \<Rightarrow> nat option \<Rightarrow> unit queue_state" where
  "demo_job_state J p budget = demo_state p budget\<lparr>qs_jobs := [(''job_a'', J)],
     qs_active := (if terminal (rj_state J) then [] else [(''job_a'', J)]),
     qs_queued := (if rj_state J = QUEUED then [(''job_a'', J)] else [])\<rparr>"

lemma demo_job_state_facts:
  assumes J: "rj_job_id J = ''job_a''" and p: "bound_pair p" "ca_cluster_kind_counts (cp_aggregate p) = []"
  shows "holds (cells (demo_job_state J p b)) (demo_job_state J p b)" "settled demo_env {} {} (cells (demo_job_state J p b))"
    "event_log 0 (cells (demo_job_state J p b)) ''job_a'' []" "cells (demo_job_state J p b) (JobCell ''job_a'') = Some (JobV J)"
proof -
  let ?s = "demo_job_state J p b"
  show "holds (cells ?s) ?s"
    using represents_empty by (auto simp: holds_def wf_store_def demo_job_state_def demo_state_def pair_files_def represents_def)
  have "counts_of {} p" using p(2) by (simp add: counts_of_def scope_total_def scope_count_def dict_get_def)
  then have "capacity_ok {} p (cells ?s)" using p(1) by (simp add: capacity_ok_def demo_job_state_def demo_state_def pair_files_def)
  moreover have "jobs_ok {} (cells ?s)"
    using demo_event_job_id J by (auto simp: jobs_ok_def demo_job_state_def demo_state_def synced_def TERMINAL_STATES_def)
  ultimately show "settled demo_env {} {} (cells ?s)"
    by (auto simp: settled_def records_ok_def files_ok_def demo_job_state_def demo_state_def file_view_def)
  show "event_log 0 (cells ?s) ''job_a'' []"
    by (rule event_log_frame [OF demo_event_log [of p b]]) (simp_all add: demo_job_state_def)
  show "cells ?s (JobCell ''job_a'') = Some (JobV J)" by (simp add: demo_job_state_def)
qed

lemma demo_claimable:
  assumes "st \<in> {QUEUED, FAILED}"
  shows "claimable (demo_ingest_calls []) (demo_ingest_job ''job_a'' 5 st) \<lparr>ip_max_file_count = 2, ip_max_total_bytes = 12\<rparr>
    \<lparr>ip_max_file_count = 2, ip_max_total_bytes = 12\<rparr> \<sigma>"
proof -
  let ?job = "demo_ingest_job ''job_a'' 5 st" and ?p = "\<lparr>ip_max_file_count = 2, ip_max_total_bytes = 12\<rparr>"
  have policy: "InputArtifactIngestPolicy_validate (doc_get (rj_metadata ?job) ''input_ingest_policy'') = Some ?p"
    by (simp add: demo_ingest_job_def doc_get_def dict_get_def InputArtifactIngestPolicy_validate_def)
  have "assert_input_ingest_quota (demo_ingest_calls []) ?job (Some ?p) s = (Inr (), s)" for s
  proof -
    have job: "rj_kind ?job = INPUT_INGEST" "doc_get (rj_metadata ?job) ''owner'' = JStr ''clio-relay''"
      "input_spec ?job = Some \<lparr>ias_logical_name = ''input.dat'', ias_size_bytes = 5, ias_sha256 = replicate 64 (CHR ''0'')\<rparr>"
      by (simp_all add: demo_ingest_job_def input_spec_def doc_get_def dict_get_def)
    show ?thesis
      by (simp add: assert_input_ingest_quota_def job demo_ingest_identity quota_of_generation_def demo_ingest_calls_def mbind_def
          mget_def qlift_def bounded_json_record_paths_def mcheck_def MAX_ACTIVE_JOB_RECORDS_def)
  qed
  with assms policy show ?thesis
    by (simp add: claimable_def is_input_ingest_def)
       (auto simp: demo_ingest_job_def input_spec_def input_ingest_attempt_def doc_get_def dict_get_def)
qed

theorem input_ingest_atomic_witness:
  "\<exists>p j' s'. begin_input_ingest demo_env (demo_ingest_calls []) ''job_a'' ''attempt_a'' None
       (demo_job_state (demo_ingest_job ''job_a'' 5 QUEUED) p None) = (Inr (j', True), s')
     \<and> rj_state j' = RUNNING \<and> cells s' (JobCell ''job_a'') = Some (JobV j') \<and> cells s' (QueuedCell ''job_a'') = None"
proof -
  obtain p where p: "bound_pair p" "ca_cluster_kind_counts (cp_aggregate p) = []" using empty_pair by auto
  let ?J = "demo_ingest_job ''job_a'' 5 QUEUED" and ?p = "\<lparr>ip_max_file_count = 2, ip_max_total_bytes = 12\<rparr>"
  let ?s = "demo_job_state ?J p None"
  have J: "rj_job_id ?J = ''job_a''" by (simp add: demo_ingest_job_def)
  note s = demo_job_state_facts [OF J p, where b = None]
  have lag: "0 < DEFAULT_EXACT_RECORD_LIMIT" by (simp add: DEFAULT_EXACT_RECORD_LIMIT_def)
  have a: "durable_id ''attempt_a''" by code_simp
  have claim: "claimable (demo_ingest_calls []) ?J ?p (case None of None \<Rightarrow> ?p | Some q \<Rightarrow> q) (cells ?s)"
    unfolding option.case by (rule demo_claimable) simp
  have budget: "qs_budget ?s = None" by (simp add: demo_job_state_def demo_state_def)
  from input_ingest_atomic [THEN conjunct1, THEN mp, OF demo_queue_env_ok s(1,2,4,3) lag conjI [OF a claim]] budget
  obtain now s' where
    run: "begin_input_ingest demo_env (demo_ingest_calls []) ''job_a'' ''attempt_a'' None ?s
      = (Inr (ingest_started demo_env ?J ''attempt_a'' ?p ?p now, True), s')"
    and v: "version demo_env {} (cells ?s) 0 [] (ingest_started demo_env ?J ''attempt_a'' ?p ?p now) [''input_ingest.started''] (cells s')"
    unfolding atomic_transition_def option.case by blast
  let ?j = "ingest_started demo_env ?J ''attempt_a'' ?p ?p now"
  have j: "rj_state ?j = RUNNING" "rj_job_id ?j = ''job_a''" by (simp_all add: ingest_started_def J Let_def)
  have "noted ''job_a'' (job_written ?j (cells ?s)) (cells s')" using v by (simp add: version_def j del: cells.simps)
  note n = notedD [OF this]
  have "cells s' (JobCell ''job_a'') = Some (JobV ?j)" "cells s' (QueuedCell ''job_a'') = None"
    unfolding n by (simp_all add: j TERMINAL_STATES_def)
  with run j(1) show ?thesis by blast
qed

section \<open>Attempts exclude each other\<close>

lemma ingest_started_attempt:
  assumes a: "durable_id attempt_id" and now: "ic_fromisoformat calls (iso_format (qe_codec env) now) = Some (t, True)"
  shows "\<exists>att. input_ingest_attempt calls (ingest_started env job attempt_id stored effective now) = Inr (Some att)
    \<and> attempt_running (ingest_started env job attempt_id stored effective now) (Some att) attempt_id"
proof -
  have v: "validate_durable_record_id (JStr attempt_id) = Inr attempt_id" using a by (simp add: validate_durable_record_id_Inr)
  show ?thesis
    by (simp add: ingest_started_def Let_def input_ingest_attempt_def attempt_running_def doc_get_def dict_get_def
        update_conv attempt_optional_field_def now v)
qed

text \<open>
  C31: one attempt at a time. While an ingest job runs under an attempt, beginning, failing and
  completing it under another attempt identifier raise the conflict error of each call, beginning it again
  under its own identifier returns the job with \<^verbatim>\<open>False\<close>, and no durable record changes in any of
  them, crashes included.
\<close>

theorem ingest_attempt_exclusive:
  fixes env :: "'x queue_env"
  assumes env: "env_ok env" and h: "holds \<sigma> s" and \<sigma>: "settled env L {} \<sigma>" and job: "\<sigma> (JobCell k) = Some (JobV job)"
    and run: "is_input_ingest job" "input_ingest_attempt calls job = Inr (Some att)" "attempt_running job (Some att) a"
    and ids: "durable_id a" "durable_id b" "b \<noteq> a"
    and calls: "begin_input_ingest env calls k a policy s = (r1, s1)" "begin_input_ingest env calls k b policy s = (r2, s2)"
      "fail_input_ingest env calls k b error s = (r3, s3)" "complete_input_ingest env calls k (Some b) s = (r4, s4)"
  shows "cells s1 = \<sigma> \<and> r1 \<in> {Inl Crashed, Inr (job, False)}
    \<and> cells s2 = \<sigma> \<and> r2 \<in> {Inl Crashed, Inl (Raised (QueueConflictError (''input ingest already has an active attempt: '' @ k)))}
    \<and> cells s3 = \<sigma> \<and> r3 \<in> {Inl Crashed, Inl (Raised (QueueConflictError (''input ingest attempt identity changed: '' @ k)))}
    \<and> cells s4 = \<sigma> \<and> r4 \<in> {Inl Crashed,
        Inl (Raised (QueueConflictError (''input ingest attempt identity changed before completion: '' @ k)))}"
proof -
  have k: "durable_id k" using \<sigma> jobs_okD [of "{}" \<sigma> k job] job by (auto simp: settled_def)
  have id: "qlift (require_durable_record_id i f) = mret i" if "durable_id i" for i f
    by (simp add: qlift_def require_durable_id [OF that] fun_eq_iff)
  have att: "rj_state job = RUNNING" "dict_get att ''attempt_id'' [] = a" using run(3) by (simp_all add: attempt_running_def)
  note opened = opened_then [OF env h \<sigma> job]
  note steps = calls [unfolded begin_input_ingest_def fail_input_ingest_def complete_input_ingest_def Let_def
      id [OF k] id [OF ids(1)] id [OF ids(2)] mbind_mret]
  note eval = mbind_app holds_def qlift_def run att attempt_is_def attempt_running_def require_durable_id [OF ids(2)]
  from opened [OF steps(1)] have "cells s1 = \<sigma> \<and> r1 \<in> {Inl Crashed, Inr (job, False)}"
    by (auto simp: eval simp del: cells.simps)
  moreover from opened [OF steps(2)] ids(3) have
    "cells s2 = \<sigma> \<and> r2 \<in> {Inl Crashed, Inl (Raised (QueueConflictError (''input ingest already has an active attempt: '' @ k)))}"
    by (auto simp: eval simp del: cells.simps)
  moreover from opened [OF steps(3)] ids(3) have
    "cells s3 = \<sigma> \<and> r3 \<in> {Inl Crashed, Inl (Raised (QueueConflictError (''input ingest attempt identity changed: '' @ k)))}"
    by (auto simp: eval simp del: cells.simps)
  moreover from opened [OF steps(4)] ids(3) have "cells s4 = \<sigma> \<and> r4 \<in> {Inl Crashed,
        Inl (Raised (QueueConflictError (''input ingest attempt identity changed before completion: '' @ k)))}"
    by (auto simp: eval simp del: cells.simps)
  ultimately show ?thesis by (simp only: simp_thms)
qed

theorem ingest_attempt_exclusive_witness:
  "\<exists>J p s2 r2. rj_state J = RUNNING \<and> attempt_running J (case input_ingest_attempt (demo_ingest_calls []) J of Inr x \<Rightarrow> x | Inl _ \<Rightarrow> None) ''attempt_a''
     \<and> begin_input_ingest demo_env (demo_ingest_calls []) ''job_a'' ''attempt_b'' None (demo_job_state J p None) = (r2, s2)
     \<and> cells s2 (JobCell ''job_a'') = Some (JobV J)
     \<and> r2 \<in> {Inl Crashed, Inl (Raised (QueueConflictError ''input ingest already has an active attempt: job_a''))}"
proof -
  obtain p where p: "bound_pair p" "ca_cluster_kind_counts (cp_aggregate p) = []" using empty_pair by auto
  let ?p = "\<lparr>ip_max_file_count = 2, ip_max_total_bytes = 12\<rparr>" and ?calls = "demo_ingest_calls []"
  define J where "J = ingest_started demo_env (demo_ingest_job ''job_a'' 5 QUEUED) ''attempt_a'' ?p ?p 0"
  let ?s = "demo_job_state J p None"
  have a: "durable_id ''attempt_a''" "durable_id ''attempt_b''" "''attempt_b'' \<noteq> ''attempt_a''" by code_simp+
  have J: "rj_job_id J = ''job_a''" "is_input_ingest J" "rj_state J = RUNNING"
    by (simp_all add: J_def ingest_started_def demo_ingest_job_def Let_def is_input_ingest_def input_spec_def)
  have iso_ok: "ic_fromisoformat ?calls (iso_format (qe_codec demo_env) 0) = Some (0, True)" by (simp add: demo_ingest_calls_def)
  obtain att where att: "input_ingest_attempt ?calls J = Inr (Some att)" "attempt_running J (Some att) ''attempt_a''"
    using ingest_started_attempt [OF a(1) iso_ok] unfolding J_def by blast
  note s = demo_job_state_facts [OF J(1) p, where b = None]
  obtain r1 s1 where c1: "begin_input_ingest demo_env ?calls ''job_a'' ''attempt_a'' None ?s = (r1, s1)" by fastforce
  obtain r2 s2 where c2: "begin_input_ingest demo_env ?calls ''job_a'' ''attempt_b'' None ?s = (r2, s2)" by fastforce
  obtain r3 s3 where c3: "fail_input_ingest demo_env ?calls ''job_a'' ''attempt_b'' [] ?s = (r3, s3)" by fastforce
  obtain r4 s4 where c4: "complete_input_ingest demo_env ?calls ''job_a'' (Some ''attempt_b'') ?s = (r4, s4)" by fastforce
  from ingest_attempt_exclusive [OF demo_queue_env_ok s(1,2,4) J(2) att a c1 c2 c3 c4]
  have "cells s2 = cells ?s" "r2 \<in> {Inl Crashed, Inl (Raised (QueueConflictError ''input ingest already has an active attempt: job_a''))}"
    by (simp_all del: cells.simps)
  with c2 s(4) J(3) att show ?thesis
    by (intro exI [of _ J] exI [of _ p] exI [of _ s2] exI [of _ r2]) (simp del: cells.simps)
qed

end
