(* ===== verification/ManagedIngest.thy ===== *)
theory ManagedIngest
  imports ManagedQueue InputIngest
begin

text \<open>
  The input-ingest lifecycle of the storage-managed queue (\<^verbatim>\<open>storage_managed_queue_admission.py\<close>). A failed
  ingest gave its reservation back, so a retry reserves again before the queue claims the job.
\<close>

text \<open>The body both admission locks of \<^verbatim>\<open>begin_input_ingest\<close> share: the result, or the failed job to retry.\<close>

definition begin_unless_failed ::
  "managed_env \<Rightarrow> 'x queue_env \<Rightarrow> 'x ingest_calls \<Rightarrow> string \<Rightarrow> string \<Rightarrow> InputArtifactIngestPolicy option
     \<Rightarrow> ('x, RelayJob \<times> bool + RelayJob) managed_op" where
  "begin_unless_failed menv env calls job_id attempt_id policy =
     mbind (on_queue (get_job job_id)) (\<lambda>current.
     if rj_state current \<noteq> FAILED
     then mbind (if terminal (rj_state current) then mret ()
                 else mbind (verify_existing_reservation menv env current) (\<lambda>_. mret ())) (\<lambda>_.
          mbind (on_queue (begin_input_ingest env calls job_id attempt_id policy)) (\<lambda>result. mret (Inl result)))
     else mret (Inr current))"

definition retry_failed_ingest ::
  "managed_env \<Rightarrow> 'x queue_env \<Rightarrow> 'x ingest_calls \<Rightarrow> string \<Rightarrow> string \<Rightarrow> InputArtifactIngestPolicy option
     \<Rightarrow> StorageTreeSnapshot \<Rightarrow> RelayJob \<Rightarrow> ('x, RelayJob \<times> bool) managed_op" where
  "retry_failed_ingest menv env calls job_id attempt_id policy tree_snapshot current =
     mbind (on_runtime (mlift (estimate (me_config menv) current))) (\<lambda>e.
     mbind (on_runtime ensure_new_intake_allowed) (\<lambda>_.
     mbind (policy_call menv (\<lambda>se. reserve se (rj_job_id current) (sre_core_bytes e) (sre_spool_bytes e)
              (Some tree_snapshot))) (\<lambda>decision.
     if \<not> sd_allowed decision then denied decision
     else mbind (on_failure (on_queue (begin_input_ingest env calls job_id attempt_id policy))
                   (release_reservation menv env (rj_job_id current) None)) (\<lambda>(saved, changed).
          mbind (release_if_terminal menv env saved) (\<lambda>_. mret (saved, changed))))))"

definition managed_begin_input_ingest ::
  "managed_env \<Rightarrow> 'x queue_env \<Rightarrow> 'x ingest_calls \<Rightarrow> string \<Rightarrow> string \<Rightarrow> InputArtifactIngestPolicy option
     \<Rightarrow> ('x, RelayJob \<times> bool) managed_op" where
  "managed_begin_input_ingest menv env calls job_id attempt_id policy = guarded (as_admission_error (
     mbind (admission_lock menv (begin_unless_failed menv env calls job_id attempt_id policy)) (\<lambda>first.
     case first of
       Inl result \<Rightarrow> mret result
     | Inr _ \<Rightarrow>
         mbind (policy_call menv (\<lambda>se. mlift (capture_admission_snapshot se))) (\<lambda>tree_snapshot.
         admission_lock menv (
           mbind (begin_unless_failed menv env calls job_id attempt_id policy) (\<lambda>second.
           case second of
             Inl result \<Rightarrow> mret result
           | Inr current \<Rightarrow> retry_failed_ingest menv env calls job_id attempt_id policy tree_snapshot current))))))"

definition managed_fail_input_ingest ::
  "managed_env \<Rightarrow> 'x queue_env \<Rightarrow> 'x ingest_calls \<Rightarrow> string \<Rightarrow> string \<Rightarrow> string \<Rightarrow> ('x, RelayJob \<times> bool) managed_op" where
  "managed_fail_input_ingest menv env calls job_id attempt_id error = guarded (as_admission_error (admission_lock menv (
     mbind (on_queue (fail_input_ingest env calls job_id attempt_id error)) (\<lambda>(saved, changed).
     mbind (release_if_terminal menv env saved) (\<lambda>_. mret (saved, changed))))))"

definition managed_recover_abandoned_input_ingests ::
  "managed_env \<Rightarrow> 'x queue_env \<Rightarrow> 'x ingest_calls \<Rightarrow> string \<Rightarrow> timestamp option \<Rightarrow> int \<Rightarrow> ('x, RelayJob list) managed_op" where
  "managed_recover_abandoned_input_ingests menv env calls cluster stale_before limit =
     guarded (as_admission_error (admission_lock menv (
       mbind (on_queue (recover_abandoned_input_ingests env calls cluster stale_before limit)) (\<lambda>recovered.
       mbind (mseq (release_if_terminal menv env) recovered) (\<lambda>_. mret recovered)))))"

definition managed_complete_input_ingest ::
  "managed_env \<Rightarrow> 'x queue_env \<Rightarrow> 'x ingest_calls \<Rightarrow> string \<Rightarrow> string option \<Rightarrow> ('x, RelayJob \<times> bool) managed_op" where
  "managed_complete_input_ingest menv env calls job_id attempt_id = guarded (as_admission_error (admission_lock menv (
     mbind (on_queue (complete_input_ingest env calls job_id attempt_id)) (\<lambda>(saved, changed).
     mbind (release_reservation menv env (rj_job_id saved) (Some saved)) (\<lambda>_. mret (saved, changed))))))"

end
