(* ===== verification/ManagedIngestSafety.thy ===== *)
theory ManagedIngestSafety
  imports ManagedIngest IngestSafety ManagedTransitions
begin

text \<open>
  Reservations along the input-ingest lifecycle: an attempt that ends gives its reservation back, and a
  claim, retries of a failed ingest included, never leaves a running ingest without one.
\<close>

section \<open>The end of an attempt\<close>

lemma managed_ingest_split:
  "managed_fail_input_ingest menv env calls k attempt_id error = guarded (as_admission_error (admission_lock menv
     (then_release (fail_input_ingest env calls k attempt_id error) (release_if_terminal menv env) fst)))"
  "managed_complete_input_ingest menv env calls k caller = guarded (as_admission_error (admission_lock menv
     (then_release (complete_input_ingest env calls k caller) (\<lambda>j. release_reservation menv env (rj_job_id j) (Some j)) fst)))"
  unfolding managed_fail_input_ingest_def managed_complete_input_ingest_def by (simp_all add: case_prod_unfold)

text \<open>
  What ending the ingest of the job \<open>k\<close> promises: the job is left in the given state, and its
  reservation is released unless the intake is closed.
\<close>

definition ends_as ::
  "iso_parser \<Rightarrow> StorageRuntimeConfig \<Rightarrow> string \<Rightarrow> 'x managed_state \<Rightarrow> JobState \<Rightarrow> ('t \<Rightarrow> RelayJob)
     \<Rightarrow> (managed_exn + RelayJob \<times> bool) \<times> 'x managed_state \<Rightarrow> bool" where
  "ends_as fiso cfg k s state f r \<longleftrightarrow> gives_back fiso cfg k s fst r
     \<and> (\<forall>x. fst r = Inr x \<longrightarrow> (\<exists>now. x = (f now, True)) \<and> rj_state (fst x) = state
         \<and> cells (mq_queue (snd r)) (JobCell k) = Some (JobV (fst x))
         \<and> (amounts fiso cfg (rts_ledger (mq_runtime (snd r))) k = None \<or> intake_blocked (mq_runtime (snd r))))"

lemma ends_as_intro:
  assumes "gives_back fiso cfg k s fst r \<and> (\<forall>x. fst r = Inr x \<longrightarrow> (\<exists>now. x = (f now, True)))"
    and "\<And>now. rj_state (f now) = state" "terminal state"
  shows "ends_as fiso cfg k s state f r"
  using assms by (auto simp: ends_as_def gives_back_def Let_def simp del: cells.simps)

text \<open>
  C12: an ingest attempt that ends gives its reservation back. Through the storage-managed queue, failing
  the running attempt and completing an ingest whose exact artifact is durable, wherever the process
  stops and whatever the ledger answers, leave every job that is not terminal with its reservation and
  no other job's reservation touched; when they return, the job returned and recorded is the failed
  version (state \<open>FAILED\<close>, with the error) or the succeeded version (state \<open>SUCCEEDED\<close>) of the job,
  and its reservation is released or, when the ledger could not be written, the intake of new jobs is closed.
\<close>

theorem ended_ingests_give_back:
  fixes env :: "'x queue_env"
  assumes env: "LeaseAcquisition.env_ok env" and menv: "managed_ok fiso cfg menv" and h: "holds \<sigma> (mq_queue s)" "\<not> mq_closed s"
    and \<sigma>: "settled env L {} \<sigma>" and job: "\<sigma> (JobCell k) = Some (JobV job)"
    and cov: "covers cfg (amounts fiso cfg (rts_ledger (mq_runtime s))) \<sigma>"
    and log: "event_log lag \<sigma> k es" "lag < DEFAULT_EXACT_RECORD_LIMIT"
  shows "(durable_id attempt_id \<and> is_input_ingest job \<and> input_ingest_attempt calls job = Inr (Some att)
       \<and> attempt_running job (Some att) attempt_id \<longrightarrow>
      ends_as fiso cfg k s FAILED (failed_version env job att error) (managed_fail_input_ingest menv env calls k attempt_id error s))
    \<and> (completable calls job caller attempt es \<longrightarrow>
      ends_as fiso cfg k s SUCCEEDED (succeeded_version env job attempt) (managed_complete_input_ingest menv env calls k caller s))"
proof (intro conjI impI)
  note goal = gives_back_result [OF menv h \<sigma> job cov wraps_guarded [OF wraps_locked], where g = "\<lambda>j. (j, True)"]
  note k = ingest_versions [OF \<sigma> job]
  assume "durable_id attempt_id \<and> is_input_ingest job \<and> input_ingest_attempt calls job = Inr (Some att)
       \<and> attempt_running job (Some att) attempt_id"
  then have att: "durable_id attempt_id" "is_input_ingest job" "input_ingest_attempt calls job = Inr (Some att)"
      "attempt_running job (Some att) attempt_id" by simp_all
  show "ends_as fiso cfg k s FAILED (failed_version env job att error) (managed_fail_input_ingest menv env calls k attempt_id error s)"
    unfolding managed_ingest_split
    by (rule ends_as_intro, rule goal [where f = "failed_version env job att error"], simp only: failed_version_def k(4),
        simp add: successor_def failed_version_def ingest_failed_def TERMINAL_STATES_def, rule fst_conv, rule refl,
        rule runs_fail_input_ingest [OF env \<sigma> job att log], assumption+,
        simp_all add: failed_version_def ingest_failed_def TERMINAL_STATES_def)
next
  note goal = gives_back_result [OF menv h \<sigma> job cov wraps_guarded [OF wraps_locked], where g = "\<lambda>j. (j, True)"]
  note k = ingest_versions [OF \<sigma> job]
  assume a: "completable calls job caller attempt es"
  show "ends_as fiso cfg k s SUCCEEDED (succeeded_version env job attempt) (managed_complete_input_ingest menv env calls k caller s)"
    unfolding managed_ingest_split
    by (rule ends_as_intro, rule goal [where f = "succeeded_version env job attempt"], simp only: succeeded_version_def k(5),
        simp add: successor_def succeeded_version_def ingest_succeeded_def TERMINAL_STATES_def, rule fst_conv,
        simp add: release_if_terminal_def succeeded_version_def ingest_succeeded_def TERMINAL_STATES_def,
        rule runs_complete_input_ingest [OF env \<sigma> job a log], assumption+,
        simp_all add: succeeded_version_def ingest_succeeded_def TERMINAL_STATES_def)
qed

definition demo_ingest_managed :: "RelayJob \<Rightarrow> ledger_file \<Rightarrow> LeaseCapacityPair \<Rightarrow> unit managed_state" where
  "demo_ingest_managed J fl p = \<lparr>mq_runtime = \<lparr>rts_ledger = fl, rts_startup = Some (decision True HEALTHY [] None []), rts_last_job_check = []\<rparr>,
     mq_queue = demo_job_state J p None, mq_calls = 0, mq_closed = False\<rparr>"

text \<open>A running attempt fails with its reservation in the ledger.\<close>

theorem ended_ingests_give_back_witness:
  "\<exists>J att p. rj_state J = RUNNING \<and> ends_as (se_fromisoformat StorageReservations.demo_env) demo_config ''job_a''
     (demo_ingest_managed J (LedgerDoc (ledger_envelope demo_ledger)) p) FAILED (failed_version demo_env J att ''broken'')
     (managed_fail_input_ingest demo_managed_env demo_env (demo_ingest_calls []) ''job_a'' ''attempt_a'' ''broken''
       (demo_ingest_managed J (LedgerDoc (ledger_envelope demo_ledger)) p))"
proof -
  obtain p where p: "bound_pair p" "ca_cluster_kind_counts (cp_aggregate p) = []" using empty_pair by auto
  let ?p = "\<lparr>ip_max_file_count = 2, ip_max_total_bytes = 12\<rparr>" and ?calls = "demo_ingest_calls []"
  define J where "J = ingest_started demo_env (demo_ingest_job ''job_a'' 5 QUEUED) ''attempt_a'' ?p ?p 0"
  let ?s = "demo_ingest_managed J (LedgerDoc (ledger_envelope demo_ledger)) p" and ?q = "demo_job_state J p None"
  have a: "durable_id ''attempt_a''" by code_simp
  have J: "rj_job_id J = ''job_a''" "is_input_ingest J" "rj_state J = RUNNING" "rj_storage_reservation J = rj_storage_reservation demo_owned_job"
    by (simp_all add: J_def ingest_started_def demo_ingest_job_def Let_def is_input_ingest_def input_spec_def)
  have iso_ok: "ic_fromisoformat ?calls (iso_format (qe_codec demo_env) 0) = Some (0, True)" by (simp add: demo_ingest_calls_def)
  obtain att where att: "input_ingest_attempt ?calls J = Inr (Some att)" "attempt_running J (Some att) ''attempt_a''"
    using ingest_started_attempt [OF a iso_ok] unfolding J_def by blast
  note q = demo_job_state_facts [OF J(1) p, where b = None]
  have h: "holds (cells ?q) (mq_queue ?s)" "\<not> mq_closed ?s" using q(1) by (simp_all add: demo_ingest_managed_def)
  have "estimate demo_config J = Inr \<lparr>sre_core_bytes = 10, sre_spool_bytes = 20\<rparr>" using estimate_cong [OF J(4), of demo_config] demo_estimate by simp
  then have cov: "covers demo_config (amounts (se_fromisoformat StorageReservations.demo_env) demo_config (rts_ledger (mq_runtime ?s))) (cells ?q)"
    by (auto simp: covers_def demo_ingest_managed_def demo_amounts demo_job_state_def split: if_splits)
  have lag: "0 < DEFAULT_EXACT_RECORD_LIMIT" by (simp add: DEFAULT_EXACT_RECORD_LIMIT_def)
  from ended_ingests_give_back [THEN conjunct1, THEN mp, OF demo_queue_env_ok demo_managed_ok h q(2,4) cov q(3) lag conjI [OF a conjI [OF J(2) conjI [OF att]]]] J(3)
  show ?thesis by blast
qed

section \<open>A claim\<close>

text \<open>What a claim of the job \<open>k\<close> keeps: the reservations and records of the other jobs, and the coverage.\<close>

definition reclaims :: "iso_parser \<Rightarrow> StorageRuntimeConfig \<Rightarrow> (string \<Rightarrow> (int \<times> int) option) \<Rightarrow> content \<Rightarrow> string \<Rightarrow> ledger_file \<Rightarrow> content \<Rightarrow> bool" where
  "reclaims fiso cfg A \<sigma> k fl \<tau> \<longleftrightarrow> covers cfg (amounts fiso cfg fl) \<tau> \<and> (\<forall>i. i \<noteq> k \<longrightarrow> amounts fiso cfg fl i = A i)
     \<and> (\<forall>n. n \<noteq> k \<longrightarrow> \<tau> (JobCell n) = \<sigma> (JobCell n))"

lemma reclaims_started:
  assumes "reclaims fiso cfg A \<sigma> k fl \<sigma>" "estimate cfg job = Inr e" "amounts fiso cfg fl k = Some (sre_core_bytes e, sre_spool_bytes e)"
    and "rj_storage_reservation J = rj_storage_reservation job" "\<forall>n. \<tau> (JobCell n) = (if n = k then Some (JobV J) else \<sigma> (JobCell n))"
  shows "reclaims fiso cfg A \<sigma> k fl \<tau>"
proof -
  have "\<exists>e. estimate cfg J' = Inr e \<and> amounts fiso cfg fl n = Some (sre_core_bytes e, sre_spool_bytes e)"
    if "\<tau> (JobCell n) = Some (JobV J')" "\<not> terminal (rj_state J')" for n J'
    using that assms estimate_cong [OF assms(4), of cfg] unfolding reclaims_def covers_def by (metis option.inject cell_value.inject(1))
  then have "covers cfg (amounts fiso cfg fl) \<tau>" unfolding covers_def by blast
  with assms(1,5) show ?thesis by (simp add: reclaims_def)
qed

text \<open>The queue's claim of an ingest whose reservation is in place.\<close>

lemma runs_reserved_claim:
  fixes env :: "'x queue_env"
  assumes env: "LeaseAcquisition.env_ok env" and \<sigma>: "settled env L {} \<sigma>" and job: "\<sigma> (JobCell k) = Some (JobV job)" and a: "durable_id attempt_id"
    and claim: "claimable calls job stored (case policy of None \<Rightarrow> stored | Some p \<Rightarrow> p) \<sigma>"
    and log: "event_log lag \<sigma> k es" "lag < DEFAULT_EXACT_RECORD_LIMIT"
    and res: "reclaims fiso cfg A \<sigma> k fl \<sigma>" "estimate cfg job = Inr e" "amounts fiso cfg fl k = Some (sre_core_bytes e, sre_spool_bytes e)"
  shows "runs (reclaims fiso cfg A \<sigma> k fl) \<sigma> (begin_input_ingest env calls k attempt_id policy)
    (\<lambda>x \<tau>. (\<exists>now. x = (ingest_started env job attempt_id stored (case policy of None \<Rightarrow> stored | Some p \<Rightarrow> p) now, True))
       \<and> reclaims fiso cfg A \<sigma> k fl \<tau> \<and> \<tau> (JobCell k) = Some (JobV (fst x)))"
proof -
  let ?f = "ingest_started env job attempt_id stored (case policy of None \<Rightarrow> stored | Some p \<Rightarrow> p)"
  note k = ingest_versions [OF \<sigma> job]
  have same: "rj_storage_reservation (?f now) = rj_storage_reservation job" "rj_job_id (?f now) = k" for now
    using k(2) by (simp_all add: ingest_started_def Let_def)
  have cut: "reclaims fiso cfg A \<sigma> k fl \<tau>" if i: "interrupted env L \<sigma> lag es job (?f now) [''input_ingest.started''] \<tau>" for now \<tau>
    using interrupted_jobs [OF i k(3)] reclaims_started [OF res] same(1) [of now] k(2) by blast
  have "reclaims fiso cfg A \<sigma> k fl \<tau> \<and> \<tau> (JobCell k) = Some (JobV (?f now))"
    if v: "version env L \<sigma> 0 es (?f now) [''input_ingest.started''] \<tau>" for now \<tau>
    using version_jobs [OF v] reclaims_started [OF res same(1)] same(2) by auto
  then show ?thesis
    by (intro runs_begin_input_ingest [OF env \<sigma> job a claim log] res(1)) (erule cut, simp only: fst_conv, blast)
qed

lemma mruns_begin_unless_failed:
  fixes env :: "'x queue_env"
  assumes env: "LeaseAcquisition.env_ok env" and \<sigma>: "settled env L {} \<sigma>" and job: "\<sigma> (JobCell k) = Some (JobV job)" and a: "durable_id attempt_id"
    and claim: "claimable calls job stored (case policy of None \<Rightarrow> stored | Some p \<Rightarrow> p) \<sigma>"
    and log: "event_log lag \<sigma> k es" "lag < DEFAULT_EXACT_RECORD_LIMIT" and cov: "covers cfg A \<sigma>"
  shows "mruns b (reclaims fiso cfg A \<sigma> k) (\<lambda>fl \<tau>. \<tau> = \<sigma> \<and> amounts fiso cfg fl = A)
    (begin_unless_failed menv env calls k attempt_id policy)
    (\<lambda>r fl \<tau>. case r of
       Inl x \<Rightarrow> (\<exists>now. x = (ingest_started env job attempt_id stored (case policy of None \<Rightarrow> stored | Some p \<Rightarrow> p) now, True))
          \<and> reclaims fiso cfg A \<sigma> k fl \<tau> \<and> \<tau> (JobCell k) = Some (JobV (fst x))
     | Inr current \<Rightarrow> current = job \<and> \<tau> = \<sigma> \<and> amounts fiso cfg fl = A)" (is "mruns b ?stop ?pre _ ?post")
proof -
  note k = ingest_versions [OF \<sigma> job]
  have start: "?stop fl \<tau>" if "?pre fl \<tau>" for fl \<tau> using that cov by (simp add: reclaims_def)
  have get: "mruns b ?stop ?pre (on_queue (get_job k)) (\<lambda>x fl \<tau>. x = job \<and> ?pre fl \<tau>)"
    by (rule mruns_queue, elim conjE, hypsubst) (rule runs_get_job [where \<sigma> = \<sigma>, OF job k(2,1)], simp)
  have rest: "mruns b ?stop ?pre (if rj_state job \<noteq> FAILED
     then mbind (if terminal (rj_state job) then mret () else mbind (verify_existing_reservation menv env job) (\<lambda>_. mret ())) (\<lambda>_.
          mbind (on_queue (begin_input_ingest env calls k attempt_id policy)) (\<lambda>result. mret (Inl result)))
     else mret (Inr job)) ?post"
  proof (cases "rj_state job = FAILED")
    case True
    then show ?thesis by (simp add: mruns_mret)
  next
    case False
    then have live: "\<not> terminal (rj_state job)" using claim by (auto simp: claimable_def TERMINAL_STATES_def)
    obtain e where e: "estimate cfg job = Inr e" "A k = Some (sre_core_bytes e, sre_spool_bytes e)"
      using cov job live unfolding covers_def by blast
    have "mruns b ?stop ?pre (on_queue (begin_input_ingest env calls k attempt_id policy)) (\<lambda>x fl \<tau>. ?post (Inl x) fl \<tau>)"
      unfolding sum.case
    proof (rule mruns_queue)
      fix fl \<tau> assume pre: "?pre fl \<tau>"
      have "amounts fiso cfg fl k = Some (sre_core_bytes e, sre_spool_bytes e)" using pre e(2) by simp
      from runs_reserved_claim [OF env \<sigma> job a claim log _ e(1) this, of A] start [OF pre] pre
      show "runs (?stop fl) \<tau> (begin_input_ingest env calls k attempt_id policy)
        (\<lambda>x \<tau>. (\<exists>now. x = (ingest_started env job attempt_id stored (case policy of None \<Rightarrow> stored | Some p \<Rightarrow> p) now, True))
          \<and> ?stop fl \<tau> \<and> \<tau> (JobCell k) = Some (JobV (fst x)))" by simp
    qed
    then have "mruns b ?stop ?pre (mbind (on_queue (begin_input_ingest env calls k attempt_id policy)) (\<lambda>result. mret (Inl result))) ?post"
      by (rule mruns_mbind) (rule mruns_mret)
    moreover have "mruns b ?stop ?pre (mbind (verify_existing_reservation menv env job) (\<lambda>_. mret ())) (\<lambda>_. ?pre)"
      by (rule mruns_mbind, rule mruns_verify [OF live, where \<psi> = "\<lambda>_. ?pre"], erule start, assumption, rule mruns_mret)
    ultimately show ?thesis using False live by (simp add: mruns_mbind)
  qed
  show ?thesis
    unfolding begin_unless_failed_def
    by (rule mruns_mbind [OF get], rule mruns_cond) (simp only: rest)
qed

text \<open>The retry of a failed ingest reserves first, then claims.\<close>

lemma mruns_retry:
  fixes env :: "'x queue_env"
  assumes env: "LeaseAcquisition.env_ok env" and menv: "managed_ok fiso cfg menv"
    and \<sigma>: "settled env L {} \<sigma>" and job: "\<sigma> (JobCell k) = Some (JobV job)" and a: "durable_id attempt_id"
    and claim: "claimable calls job stored (case policy of None \<Rightarrow> stored | Some p \<Rightarrow> p) \<sigma>"
    and log: "event_log lag \<sigma> k es" "lag < DEFAULT_EXACT_RECORD_LIMIT" and cov: "covers cfg A \<sigma>"
  shows "mruns b (reclaims fiso cfg A \<sigma> k) (\<lambda>fl \<tau>. \<tau> = \<sigma> \<and> amounts fiso cfg fl = A)
    (retry_failed_ingest menv env calls k attempt_id policy tree job)
    (\<lambda>x fl \<tau>. (\<exists>now. x = (ingest_started env job attempt_id stored (case policy of None \<Rightarrow> stored | Some p \<Rightarrow> p) now, True))
       \<and> reclaims fiso cfg A \<sigma> k fl \<tau> \<and> \<tau> (JobCell k) = Some (JobV (fst x)))" (is "mruns b ?stop ?pre _ ?post")
proof -
  note k = ingest_versions [OF \<sigma> job]
  have cfg: "me_config menv = cfg" using menv by (simp add: managed_ok_def)
  have start: "?stop fl \<tau>" if "?pre fl \<tau>" for fl \<tau> using that cov by (simp add: reclaims_def)
  let ?saved = "on_failure (on_queue (begin_input_ingest env calls k attempt_id policy)) (release_reservation menv env (rj_job_id job) None)"
  have go: "mruns b ?stop ?pre (mbind (policy_call menv (\<lambda>se. reserve se (rj_job_id job) (sre_core_bytes e) (sre_spool_bytes e) (Some tree)))
      (\<lambda>decision. if \<not> sd_allowed decision then denied decision
       else mbind ?saved (\<lambda>(saved, changed). mbind (release_if_terminal menv env saved) (\<lambda>_. mret (saved, changed))))) ?post"
    if e: "estimate cfg job = Inr e" for e
  proof -
    let ?granted = "\<lambda>fl \<tau>. \<tau> = \<sigma> \<and> ?stop fl \<sigma> \<and> amounts fiso cfg fl k = Some (sre_core_bytes e, sre_spool_bytes e)"
    let ?decided = "\<lambda>d fl \<tau>. if sd_allowed d then ?granted fl \<tau> else ?stop fl \<tau>"
    have call: "mruns b ?stop ?pre (policy_call menv (\<lambda>se. reserve se (rj_job_id job) (sre_core_bytes e) (sre_spool_bytes e) (Some tree))) ?decided"
    proof (rule mruns_policy)
      fix n fl \<tau> d fl' assume pre: "?pre fl \<tau>" and r: "reserve (me_storage menv n) (rj_job_id job) (sre_core_bytes e) (sre_spool_bytes e) (Some tree) fl = (Inr d, fl')"
      have new: "amounts fiso cfg fl' = (if sd_allowed d then A(k \<mapsto> (sre_core_bytes e, sre_spool_bytes e)) else A)"
        using policy_reserve [OF menv r] pre k(2) by simp
      have "covers cfg (A(k \<mapsto> (sre_core_bytes e, sre_spool_bytes e))) \<sigma>" using cov job e by (auto simp: covers_def)
      with new pre cov show "?decided d fl' \<tau>" by (simp add: reclaims_def)
    next
      fix n fl \<tau> x fl' assume pre: "?pre fl \<tau>" and r: "reserve (me_storage menv n) (rj_job_id job) (sre_core_bytes e) (sre_spool_bytes e) (Some tree) fl = (Inl x, fl')"
      show "?stop fl' \<tau>" using policy_reserve [OF menv r] pre start [OF pre] by (simp add: reclaims_def)
    qed
    have saved: "mruns b ?stop ?granted ?saved ?post"
    proof (rule mruns_on_failure, elim conjE, hypsubst)
      fix fl assume "?stop fl \<sigma>" "amounts fiso cfg fl k = Some (sre_core_bytes e, sre_spool_bytes e)"
      then show "runs (?stop fl) \<sigma> (begin_input_ingest env calls k attempt_id policy) (\<lambda>x. ?post x fl)"
        by (intro runs_reserved_claim [OF env \<sigma> job a claim log _ e])
    qed
    have kept: "mruns b ?stop (?post x) (case x of (saved, changed) \<Rightarrow> mbind (release_if_terminal menv env saved) (\<lambda>_. mret (saved, changed))) ?post" for x
    proof (rule mruns_fact [of _ "\<not> terminal (rj_state (fst x))"])
      show "\<not> terminal (rj_state (fst x))" if "?post x fl \<tau>" for fl \<tau>
        using that by (auto simp: ingest_started_def Let_def TERMINAL_STATES_def)
      assume "\<not> terminal (rj_state (fst x))"
      then have none: "release_if_terminal menv env (fst x) = mret ()" by (simp add: release_if_terminal_def)
      show "mruns b ?stop (?post x) (case x of (saved, changed) \<Rightarrow> mbind (release_if_terminal menv env saved) (\<lambda>_. mret (saved, changed))) ?post"
        unfolding case_prod_unfold none mbind_mret prod.collapse by (rule mruns_mret)
    qed
    show ?thesis
    proof (rule mruns_mbind [OF call])
      fix d
      show "mruns b ?stop (?decided d) (if \<not> sd_allowed d then denied d
       else mbind ?saved (\<lambda>(saved, changed). mbind (release_if_terminal menv env saved) (\<lambda>_. mret (saved, changed)))) ?post"
        using mruns_mbind [OF saved kept] by (cases "sd_allowed d") (simp_all add: mruns_refuse)
    qed
  qed
  show ?thesis
    unfolding retry_failed_ingest_def cfg
    by (rule mruns_mbind, rule mruns_runtime [where \<psi> = "\<lambda>e fl \<tau>. estimate cfg job = Inr e \<and> ?pre fl \<tau>"],
        erule runtime_ledger(1), simp add: mlift_def, erule start, rule mruns_cond, rule mruns_mbind,
        rule mruns_runtime [where \<psi> = "\<lambda>_. ?pre"], erule runtime_ledger(3), assumption, erule start, erule go)
qed

lemma mruns_managed_begin:
  fixes env :: "'x queue_env"
  assumes env: "LeaseAcquisition.env_ok env" and menv: "managed_ok fiso cfg menv"
    and \<sigma>: "settled env L {} \<sigma>" and job: "\<sigma> (JobCell k) = Some (JobV job)" and a: "durable_id attempt_id"
    and claim: "claimable calls job stored (case policy of None \<Rightarrow> stored | Some p \<Rightarrow> p) \<sigma>"
    and log: "event_log lag \<sigma> k es" "lag < DEFAULT_EXACT_RECORD_LIMIT" and cov: "covers cfg A \<sigma>"
  shows "mruns b (reclaims fiso cfg A \<sigma> k) (\<lambda>fl \<tau>. \<tau> = \<sigma> \<and> amounts fiso cfg fl = A)
    (managed_begin_input_ingest menv env calls k attempt_id policy)
    (\<lambda>x fl \<tau>. (\<exists>now. x = (ingest_started env job attempt_id stored (case policy of None \<Rightarrow> stored | Some p \<Rightarrow> p) now, True))
       \<and> reclaims fiso cfg A \<sigma> k fl \<tau> \<and> \<tau> (JobCell k) = Some (JobV (fst x)))" (is "mruns b ?stop ?pre _ ?post")
proof -
  have start: "?stop fl \<tau>" if "?pre fl \<tau>" for fl \<tau> using that cov by (simp add: reclaims_def)
  note first = mruns_begin_unless_failed [OF env \<sigma> job a claim log cov, where b = b and menv = menv and fiso = fiso]
  note retry = mruns_retry [OF env menv \<sigma> job a claim log cov, where b = b]
  let ?second = "\<lambda>tree. mbind (begin_unless_failed menv env calls k attempt_id policy) (\<lambda>second. case second of
       Inl result \<Rightarrow> mret result | Inr current \<Rightarrow> retry_failed_ingest menv env calls k attempt_id policy tree current)"
  have second: "mruns b ?stop ?pre (?second tree) ?post" for tree
  proof (rule mruns_mbind [OF first])
    fix r :: "RelayJob \<times> bool + RelayJob"
    show "mruns b ?stop (\<lambda>fl \<tau>. case r of Inl x \<Rightarrow> ?post x fl \<tau> | Inr current \<Rightarrow> current = job \<and> ?pre fl \<tau>)
      (case r of Inl result \<Rightarrow> mret result | Inr current \<Rightarrow> retry_failed_ingest menv env calls k attempt_id policy tree current) ?post"
    proof (cases r)
      case (Inr c)
      have "c = job \<Longrightarrow> mruns b ?stop ?pre (retry_failed_ingest menv env calls k attempt_id policy tree c) ?post" using retry by simp
      then show ?thesis unfolding Inr sum.case by (rule mruns_cond)
    qed (simp only: sum.case, rule mruns_mret)
  qed
  have main: "mruns b ?stop ?pre (mbind (admission_lock menv (begin_unless_failed menv env calls k attempt_id policy)) (\<lambda>first. case first of
       Inl result \<Rightarrow> mret result
     | Inr _ \<Rightarrow> mbind (policy_call menv (\<lambda>se. mlift (capture_admission_snapshot se))) (\<lambda>tree. admission_lock menv (?second tree)))) ?post"
  proof (rule mruns_mbind, rule mruns_lock [OF first start], assumption, rename_tac r)
    fix r :: "RelayJob \<times> bool + RelayJob"
    have snap: "mruns b ?stop ?pre (mbind (policy_call menv (\<lambda>se. mlift (capture_admission_snapshot se))) (\<lambda>tree. admission_lock menv (?second tree))) ?post"
      by (rule mruns_mbind, rule mruns_policy [where \<psi> = "\<lambda>_. ?pre"], simp add: mlift_def, rule start, simp add: mlift_def,
          rule mruns_lock [OF second], erule start)
    show "mruns b ?stop (\<lambda>fl \<tau>. case r of Inl x \<Rightarrow> ?post x fl \<tau> | Inr current \<Rightarrow> current = job \<and> ?pre fl \<tau>)
      (case r of Inl result \<Rightarrow> mret result
       | Inr _ \<Rightarrow> mbind (policy_call menv (\<lambda>se. mlift (capture_admission_snapshot se))) (\<lambda>tree. admission_lock menv (?second tree))) ?post"
    proof (cases r)
      case (Inr c)
      show ?thesis unfolding Inr sum.case by (rule mruns_pre [OF snap]) simp
    qed (simp only: sum.case, rule mruns_mret)
  qed
  show ?thesis unfolding managed_begin_input_ingest_def by (rule mruns_guarded, rule mruns_as_admission, rule main)
qed

text \<open>
  C10: a claim never leaves a running ingest without its reservation. Let every job of a settled store
  that is not terminal have its estimate reserved, and let a queued or failed ingest be claimable. Then
  beginning it through the storage-managed queue, wherever the process stops and whatever the ledger
  answers, leaves every job that is not terminal with its reservation, and the records and
  reservations of all other jobs as they were; when it returns, the job runs under the attempt. A failed
  ingest, whose reservation was given back, is reserved again before it runs.
\<close>

theorem claimed_ingests_reserved:
  fixes env :: "'x queue_env"
  assumes env: "LeaseAcquisition.env_ok env" and menv: "managed_ok fiso cfg menv" and h: "holds \<sigma> (mq_queue s)" "\<not> mq_closed s"
    and \<sigma>: "settled env L {} \<sigma>" and job: "\<sigma> (JobCell k) = Some (JobV job)" and a: "durable_id attempt_id"
    and claim: "claimable calls job stored (case policy of None \<Rightarrow> stored | Some p \<Rightarrow> p) \<sigma>"
    and log: "event_log lag \<sigma> k es" "lag < DEFAULT_EXACT_RECORD_LIMIT"
    and cov: "covers cfg (amounts fiso cfg (rts_ledger (mq_runtime s))) \<sigma>"
    and run: "managed_begin_input_ingest menv env calls k attempt_id policy s = (r, s')"
  shows "covers cfg (amounts fiso cfg (rts_ledger (mq_runtime s'))) (cells (mq_queue s'))
    \<and> (\<forall>i. i \<noteq> k \<longrightarrow> amounts fiso cfg (rts_ledger (mq_runtime s')) i = amounts fiso cfg (rts_ledger (mq_runtime s)) i)
    \<and> (\<forall>n. n \<noteq> k \<longrightarrow> cells (mq_queue s') (JobCell n) = \<sigma> (JobCell n))
    \<and> (case r of
        Inl e \<Rightarrow> refused (qs_budget (mq_queue s)) e
      | Inr x \<Rightarrow> (\<exists>now. x = (ingest_started env job attempt_id stored (case policy of None \<Rightarrow> stored | Some p \<Rightarrow> p) now, True))
          \<and> cells (mq_queue s') (JobCell k) = Some (JobV (fst x)))"
proof -
  let ?A = "amounts fiso cfg (rts_ledger (mq_runtime s))"
  have "stands (qs_budget (mq_queue s)) (\<lambda>fl \<tau>. \<tau> = \<sigma> \<and> amounts fiso cfg fl = ?A) s" using h by (simp add: stands_def holds_def)
  from mruns_managed_begin [OF env menv \<sigma> job a claim log cov, unfolded mruns_def, rule_format, OF this] show ?thesis
    unfolding run by (cases r) (auto simp: stands_def rests_def reclaims_def simp del: cells.simps)
qed

text \<open>A failed ingest is retried from an empty ledger.\<close>

theorem claimed_ingests_reserved_witness:
  "\<exists>p r s'. managed_begin_input_ingest demo_managed_env demo_env (demo_ingest_calls []) ''job_a'' ''attempt_a'' None
       (demo_ingest_managed (demo_ingest_job ''job_a'' 5 FAILED) LedgerAbsent p) = (r, s')
     \<and> covers demo_config (amounts (se_fromisoformat StorageReservations.demo_env) demo_config (rts_ledger (mq_runtime s'))) (cells (mq_queue s'))
     \<and> (\<forall>e. r = Inl e \<longrightarrow> (\<exists>x. e = RuntimeExn x))
     \<and> (\<forall>x. r = Inr x \<longrightarrow> rj_state (fst x) = RUNNING \<and> cells (mq_queue s') (JobCell ''job_a'') = Some (JobV (fst x)))"
proof -
  obtain p where p: "bound_pair p" "ca_cluster_kind_counts (cp_aggregate p) = []" using empty_pair by auto
  let ?J = "demo_ingest_job ''job_a'' 5 FAILED" and ?p = "\<lparr>ip_max_file_count = 2, ip_max_total_bytes = 12\<rparr>"
  let ?s = "demo_ingest_managed ?J LedgerAbsent p" and ?q = "demo_job_state ?J p None"
  have a: "durable_id ''attempt_a''" by code_simp
  have J: "rj_job_id ?J = ''job_a''" "rj_state ?J = FAILED" by (simp_all add: demo_ingest_job_def)
  note q = demo_job_state_facts [OF J(1) p, where b = None]
  have claim: "claimable (demo_ingest_calls []) ?J ?p (case None of None \<Rightarrow> ?p | Some q \<Rightarrow> q) (cells ?q)"
    unfolding option.case by (rule demo_claimable) simp
  have h: "holds (cells ?q) (mq_queue ?s)" "\<not> mq_closed ?s" using q(1) by (simp_all add: demo_ingest_managed_def)
  have cov: "covers demo_config (amounts (se_fromisoformat StorageReservations.demo_env) demo_config (rts_ledger (mq_runtime ?s))) (cells ?q)"
    by (auto simp: covers_def demo_job_state_def J(2) TERMINAL_STATES_def split: if_splits)
  have lag: "0 < DEFAULT_EXACT_RECORD_LIMIT" by (simp add: DEFAULT_EXACT_RECORD_LIMIT_def)
  have budget: "qs_budget (mq_queue ?s) = None" by (simp add: demo_ingest_managed_def demo_job_state_def demo_state_def)
  obtain r s' where run: "managed_begin_input_ingest demo_managed_env demo_env (demo_ingest_calls []) ''job_a'' ''attempt_a'' None ?s = (r, s')" by fastforce
  from claimed_ingests_reserved [OF demo_queue_env_ok demo_managed_ok h q(2,4) a claim q(3) lag cov run]
  have "covers demo_config (amounts (se_fromisoformat StorageReservations.demo_env) demo_config (rts_ledger (mq_runtime s'))) (cells (mq_queue s'))"
    and out: "case r of Inl e \<Rightarrow> refused None e
      | Inr x \<Rightarrow> (\<exists>now. x = (ingest_started demo_env ?J ''attempt_a'' ?p ?p now, True)) \<and> cells (mq_queue s') (JobCell ''job_a'') = Some (JobV (fst x))"
    unfolding budget by (simp_all only: option.case simp_thms)
  moreover have "\<exists>x. e = RuntimeExn x" if "r = Inl e" for e using out that by (simp add: refused_def)
  moreover have "rj_state (fst x) = RUNNING \<and> cells (mq_queue s') (JobCell ''job_a'') = Some (JobV (fst x))" if "r = Inr x" for x
    using out that by (auto simp: ingest_started_def Let_def simp del: cells.simps)
  ultimately show ?thesis using run by blast
qed

section \<open>A claim whose event cannot be logged\<close>

lemma begin_event_refused:
  fixes env :: "'x queue_env"
  assumes env: "LeaseAcquisition.env_ok env" and h: "holds \<sigma> s" "qs_budget s = None" and \<sigma>: "settled env L {} \<sigma>"
    and job: "\<sigma> (JobCell k) = Some (JobV job)" and a: "durable_id attempt_id"
    and claim: "claimable calls job stored (case policy of None \<Rightarrow> stored | Some p \<Rightarrow> p) \<sigma>"
    and index: "\<sigma> (JobIndexCell k) = Some (DocV raw)" "parse_job_index k raw = Inl e"
  obtains now s' where "begin_input_ingest env calls k attempt_id policy s = (Inl (Raised e), s')"
    "cells s' = job_written (ingest_started env job attempt_id stored (case policy of None \<Rightarrow> stored | Some p \<Rightarrow> p) now) \<sigma>"
proof -
  let ?f = "ingest_started env job attempt_id stored (case policy of None \<Rightarrow> stored | Some p \<Rightarrow> p)"
  let ?open = "mbind (initialize_queue env) (\<lambda>_. mbind (reconcile_transition_intents env) (\<lambda>_. mbind (get_job k) mret))"
  note k = ingest_versions [OF \<sigma> job]
  have none: "\<sigma> (IntentCell n) = None" for n using \<sigma> by (simp add: settled_def)
  have "runs (\<lambda>\<tau>. True) \<sigma> ?open (\<lambda>x \<tau>. x = job \<and> \<tau> = \<sigma>)"
    by (rule runs_opened [OF env \<sigma> job]) (simp, rule runs_mret, simp)
  from runs_uninterrupted [OF this h] obtain s1 where s1: "?open s = (Inr job, s1)" "holds \<sigma> s1" "qs_budget s1 = None" by (auto simp: holds_def)
  have "runs (\<lambda>\<tau>. True) \<sigma> (utc_now env) (\<lambda>x \<tau>. \<tau> = \<sigma>)" by (rule runs_utc_now) simp
  from runs_uninterrupted [OF this s1(2,3)] obtain now s2 where s2: "utc_now env s1 = (Inr now, s2)" "holds \<sigma> s2" "qs_budget s2 = None"
    unfolding holds_def by blast
  have "runs (\<lambda>\<tau>. True) \<sigma> (write_job env (?f now)) (\<lambda>x \<tau>. \<tau> = job_written (?f now) \<sigma>)"
    by (rule runs_write_version [OF env k(3) none]) simp_all
  from runs_uninterrupted [OF this s2(2,3)] obtain s3 where s3: "write_job env (?f now) s2 = (Inr (), s3)" "cells s3 = job_written (?f now) \<sigma>" by auto
  have "map_of (qs_job_indexes s3) k = Some raw" using fun_cong [OF s3(2), of "JobIndexCell k"] index(1) by (simp add: cells.simps)
  then have ev: "append_event env (rj_job_id job) ty msg pl s3 = (Inl (Raised e), s3)" for ty msg pl
    using require_durable_id [OF k(1)] index(2)
    by (simp add: k(2) append_event_def next_event_seq_def read_job_index_def mbind_app qlift_def mget_def)
  obtain att where att: "input_ingest_attempt calls job = Inr att" using claim by (auto simp: claimable_def)
  have quota: "assert_input_ingest_quota calls job (Some (case policy of None \<Rightarrow> stored | Some p \<Rightarrow> p)) s1 = (Inr (), s1)"
    using claim s1(2) by (simp add: claimable_def)
  have claimed: "claim_ingest env calls job attempt_id policy s1 = (Inl (Raised e), s3)"
    using claim quota s2(1) s3(1) ev by (simp add: claim_ingest_def claimable_def mbind_app Let_def mcheck_def)
  have id: "qlift (require_durable_record_id i fld) = mret i" if "durable_id i" for i fld
    by (simp add: qlift_def require_durable_id [OF that] fun_eq_iff)
  have split: "begin_input_ingest env calls k attempt_id policy = mbind ?open (\<lambda>job.
     mbind (qcheck (is_input_ingest job) (not_an_ingest k)) (\<lambda>_.
     if rj_state job = SUCCEEDED then mret (job, False)
     else mbind (qlift (input_ingest_attempt calls job)) (\<lambda>existing_attempt.
       if rj_state job = RUNNING
       then if attempt_is existing_attempt attempt_id then mret (job, False)
            else conflict (''input ingest already has an active attempt: '' @ k)
       else if rj_state job \<notin> {QUEUED, FAILED}
       then conflict (''input ingest cannot begin from state '' @ JobState_value (rj_state job) @ '': '' @ k)
       else claim_ingest env calls job attempt_id policy)))"
    by (simp only: begin_input_ingest_def id [OF k(1)] id [OF a] mbind_assoc mbind_mret)
  have "begin_input_ingest env calls k attempt_id policy s = (Inl (Raised e), s3)"
    unfolding split using claim claimed s1(1) att by (auto simp: mbind_app claimable_def qlift_def mcheck_def)
  from that [OF this s3(2)] show thesis .
qed

definition demo_scanned :: StorageTreeSnapshot where
  "demo_scanned = \<lparr>sts_core = \<lparr>tu_root = ''/core'', tu_bytes = 0, tu_files = 0, tu_links = 0, tu_directories = 1, tu_entries = 0\<rparr>,
     sts_spool = \<lparr>tu_root = ''/spool'', tu_bytes = 0, tu_files = 0, tu_links = 0, tu_directories = 1, tu_entries = 0\<rparr>\<rparr>"

lemma demo_capture: "capture_admission_snapshot StorageReservations.demo_env = Inr demo_scanned"
  by (simp add: capture_admission_snapshot_def stable_tree_snapshot_def demo_scan demo_scanned_def STORAGE_SNAPSHOT_SCAN_ATTEMPTS_def eval_nat_numeral)

lemma demo_reserve_scanned:
  "\<exists>d. reserve StorageReservations.demo_env ''job_a'' 10 20 (Some demo_scanned) LedgerAbsent
         = (Inr d, LedgerDoc (ledger_envelope demo_ledger)) \<and> sd_allowed d"
  by (rule demo_reserve_from)
     (simp add: snapshot_def demo_ledger_def demo_scanned_def StorageReservations.demo_env_def reserved_core_of_def
      reserved_spool_of_def volume_status_def group_volumes_def roots_of_def dict_get_def Let_def
      disk_free_def snapshot_reason_def VolumeStatus_healthy_def default_limits_def GIB_def, simp)

text \<open>
  C29: a claim whose event is refused strands its job. When the event of a retried ingest cannot be logged
  (here the job's index document does not parse), the queue has already committed the job as
  running; the managed queue then releases the reservation without looking at the job, and leaves a
  running ingest that no reservation covers. The failure path of a submission, \<^verbatim>\<open>_release_failed_admission\<close>,
  reads the job first and keeps the reservation of one that was committed.
\<close>

theorem refused_claim_unreserves:
  "\<exists>s e s' J. settled demo_env {} {} (cells (mq_queue s))
     \<and> covers demo_config (amounts (se_fromisoformat StorageReservations.demo_env) demo_config (rts_ledger (mq_runtime s))) (cells (mq_queue s))
     \<and> managed_begin_input_ingest demo_managed_env demo_env (demo_ingest_calls []) ''job_a'' ''attempt_a'' None s = (Inl (QueueExn (Raised e)), s')
     \<and> cells (mq_queue s') (JobCell ''job_a'') = Some (JobV J) \<and> rj_state J = RUNNING
     \<and> amounts (se_fromisoformat StorageReservations.demo_env) demo_config (rts_ledger (mq_runtime s')) ''job_a'' = None
     \<and> \<not> covers demo_config (amounts (se_fromisoformat StorageReservations.demo_env) demo_config (rts_ledger (mq_runtime s'))) (cells (mq_queue s'))"
proof -
  obtain p where p: "bound_pair p" "ca_cluster_kind_counts (cp_aggregate p) = []" using empty_pair by auto
  let ?J = "demo_ingest_job ''job_a'' 5 FAILED" and ?p = "\<lparr>ip_max_file_count = 2, ip_max_total_bytes = 12\<rparr>"
  let ?start = "decision True HEALTHY [] None []" and ?fiso = "se_fromisoformat StorageReservations.demo_env"
  define q where "q = (demo_job_state ?J p None)\<lparr>qs_job_indexes := [(''job_a'', JNull)]\<rparr>"
  define st where "st fl n = \<lparr>mq_runtime = \<lparr>rts_ledger = fl, rts_startup = Some ?start, rts_last_job_check = []\<rparr>,
     mq_queue = q, mq_calls = n, mq_closed = False\<rparr>" for fl n
  have J: "rj_job_id ?J = ''job_a''" "rj_state ?J = FAILED" "rj_storage_reservation ?J = rj_storage_reservation demo_owned_job"
    by (simp_all add: demo_ingest_job_def)
  note base = demo_job_state_facts [OF J(1) p, where b = None]
  have h: "holds (cells q) q" "qs_budget q = None" using base(1) by (simp_all add: q_def holds_def wf_store_def demo_job_state_def demo_state_def)
  have \<sigma>: "settled demo_env {} {} (cells q)"
  proof (rule settled_noted [OF base(2), where k = "''job_a''"])
    have "cells q c = cells (demo_job_state ?J p None) c" if "c \<noteq> JobIndexCell ''job_a''" for c
      using that by (cases c) (auto simp: q_def demo_job_state_def demo_state_def)
    then show "noted ''job_a'' (cells (demo_job_state ?J p None)) (cells q)" by (simp add: noted_def)
  qed
  have job: "cells q (JobCell ''job_a'') = Some (JobV ?J)" "cells q (JobIndexCell ''job_a'') = Some (DocV JNull)"
    by (simp_all add: q_def demo_job_state_def)
  have a: "durable_id ''attempt_a''" "durable_id ''job_a''" by code_simp+
  have claim: "claimable (demo_ingest_calls []) ?J ?p (case None of None \<Rightarrow> ?p | Some q \<Rightarrow> q) (cells q)"
    unfolding option.case by (rule demo_claimable) simp
  obtain e where e: "parse_job_index ''job_a'' JNull = Inl e" by (simp add: parse_job_index_def)
  from begin_event_refused [OF demo_queue_env_ok h \<sigma> job(1) a(1) claim job(2) e]
  obtain now q' where begin_: "begin_input_ingest demo_env (demo_ingest_calls []) ''job_a'' ''attempt_a'' None q = (Inl (Raised e), q')"
    and q': "cells q' = job_written (ingest_started demo_env ?J ''attempt_a'' ?p ?p now) (cells q)"
    unfolding option.case by blast
  let ?f = "ingest_started demo_env ?J ''attempt_a'' ?p ?p now"
  have f: "rj_state ?f = RUNNING" "rj_job_id ?f = ''job_a''" by (simp_all add: ingest_started_def J Let_def)
  have get: "get_job ''job_a'' q = (Inr ?J, q)" 
  proof -
    have "map_of (qs_jobs q) ''job_a'' = Some ?J" by (simp add: q_def demo_job_state_def)
    then show ?thesis using a(2) by (simp add: validate_durable_record_id_Inr get_job_def read_optional_job_def read_bound_def mbind_app qlift_def mget_def J(1))
  qed
  have est: "estimate demo_config ?J = Inr \<lparr>sre_core_bytes = 10, sre_spool_bytes = 20\<rparr>"
    using estimate_cong [OF J(3), of demo_config] demo_estimate by simp
  obtain d where d: "reserve StorageReservations.demo_env ''job_a'' 10 20 (Some demo_scanned) LedgerAbsent = (Inr d, LedgerDoc (ledger_envelope demo_ledger))"
    "sd_allowed d" using demo_reserve_scanned by blast
  let ?gone = "LedgerDoc (ledger_envelope \<lparr>ls_generation = 2, ls_reservations = []\<rparr>)"
  obtain d' where d': "release StorageReservations.demo_env ''job_a'' (LedgerDoc (ledger_envelope demo_ledger)) = (Inr d', ?gone)" "sd_allowed d'"
    using demo_release by blast
  have first: "begin_unless_failed demo_managed_env demo_env (demo_ingest_calls []) ''job_a'' ''attempt_a'' None (st fl n) = (Inr (Inr ?J), st fl n)" for fl n
    by (simp add: begin_unless_failed_def on_queue_def st_def get mbind_app J(2))
  have locked: "admission_lock demo_managed_env m (st fl n) = m (st fl (Suc n))" for m :: "(unit, 'a) managed_op" and fl n
    by (simp add: admission_lock_def next_call_def mbind_app demo_managed_env_def st_def)
  have captured: "policy_call demo_managed_env (\<lambda>se. mlift (capture_admission_snapshot se)) (st fl n) = (Inr demo_scanned, st fl (Suc n))" for fl n
    using demo_capture by (simp add: policy_call_def next_call_def mbind_app on_runtime_def on_ledger_def mlift_def demo_managed_env_def st_def)
  have opened: "\<not> mq_closed (st fl n)" for fl n by (simp add: st_def)
  let ?last = "(st ?gone 5)\<lparr>mq_queue := q'\<rparr>"
  have retry: "retry_failed_ingest demo_managed_env demo_env (demo_ingest_calls []) ''job_a'' ''attempt_a'' None demo_scanned ?J (st LedgerAbsent (Suc (Suc (Suc 0))))
      = (Inl (QueueExn (Raised e)), ?last)"
    using d d' begin_ est
    by (simp add: retry_failed_ingest_def st_def mbind_app on_runtime_def on_queue_def on_failure_def policy_call_def next_call_def on_ledger_def
        mlift_def ensure_new_intake_allowed_def release_reservation_def demo_managed_env_def J(1) mraise_def mget_def decision_def)
  have run: "managed_begin_input_ingest demo_managed_env demo_env (demo_ingest_calls []) ''job_a'' ''attempt_a'' None (st LedgerAbsent 0)
      = (Inl (QueueExn (Raised e)), ?last)"
    by (simp add: managed_begin_input_ingest_def guarded_def as_admission_error_def mbind_app locked captured first retry mget_def opened)
  have amounts: "amounts ?fiso demo_config ?gone = Map.empty"
    using policy_release [OF demo_managed_ok, of 0] d' demo_amounts by (auto simp: demo_managed_env_def)
  have before: "covers demo_config (amounts ?fiso demo_config LedgerAbsent) (cells q)"
    by (auto simp: covers_def q_def demo_job_state_def J(2) TERMINAL_STATES_def split: if_splits)
  have saved: "cells q' (JobCell ''job_a'') = Some (JobV ?f)" unfolding q' by (simp add: f(2))
  have after: "\<not> covers demo_config (amounts ?fiso demo_config ?gone) (cells q')"
  proof -
    have "\<not> terminal (rj_state ?f)" by (simp add: f(1) TERMINAL_STATES_def)
    with saved show ?thesis unfolding covers_def amounts by blast
  qed
  show ?thesis
    by (intro exI [of _ "st LedgerAbsent 0"] exI [of _ e] exI [of _ ?last] exI [of _ ?f] conjI run)
       (use \<sigma> before saved f(1) amounts after in \<open>simp_all add: st_def del: cells.simps\<close>)
qed

end
