(* ===== verification/SchedulerCancel.thy ===== *)
theory SchedulerCancel
  imports JobRecords ErrorDetail
begin

text \<open>
  Scheduler cancellation (\<^verbatim>\<open>queue_scheduler_cancel_records.py\<close>, \<^verbatim>\<open>queue_scheduler_cancel_state.py\<close>,
  \<^verbatim>\<open>queue_scheduler_cancel_claims.py\<close>, with the records of \<^verbatim>\<open>models_scheduling.py\<close>). A job whose cancellation reaches
  an external scheduler has one pending record with a disposition per scheduler identity; workers claim
  one attempt or one confirmation poll at a time under a lease, and a record whose dispositions are all
  final moves to a second family.

  A stored file is the record it was written from, without its constant schema version; a read validates it as
  pydantic does, with one error for every field check. A number of seconds is a rational, rounded half to even to microseconds as \<^verbatim>\<open>timedelta\<close> does.
\<close>

section \<open>Records\<close>

datatype SchedulerCancelDispositionState = SC_PENDING | SC_RETRY_WAIT | SC_CANCEL_REQUESTED | SC_CANCELED | SC_TERMINAL
  | SC_NOT_FOUND | SC_REFUSED | SC_EXHAUSTED

datatype SchedulerPhase = PH_SUBMITTED | PH_PENDING | PH_ALLOCATED | PH_RUNNING | PH_COMPLETED | PH_FAILED | PH_CANCELED | PH_UNKNOWN

fun SchedulerPhase_value :: "SchedulerPhase \<Rightarrow> string" where
  "SchedulerPhase_value PH_SUBMITTED = ''submitted''"
| "SchedulerPhase_value PH_PENDING = ''pending''"
| "SchedulerPhase_value PH_ALLOCATED = ''allocated''"
| "SchedulerPhase_value PH_RUNNING = ''running''"
| "SchedulerPhase_value PH_COMPLETED = ''completed''"
| "SchedulerPhase_value PH_FAILED = ''failed''"
| "SchedulerPhase_value PH_CANCELED = ''canceled''"
| "SchedulerPhase_value PH_UNKNOWN = ''unknown''"

record SchedulerCancelDisposition =
  cd_scheduler_job_id :: string
  cd_provider :: "string option"
  cd_state :: SchedulerCancelDispositionState
  cd_attempts :: int
  cd_confirmation_attempts :: int
  cd_next_attempt_at :: "timestamp option"
  cd_last_error :: "string option"
  cd_attempt_claim_id :: "string option"
  cd_attempt_claimed_at :: "timestamp option"
  cd_attempt_claim_expires_at :: "timestamp option"
  cd_confirmation_claim_id :: "string option"
  cd_confirmation_claimed_at :: "timestamp option"
  cd_confirmation_claim_expires_at :: "timestamp option"
  cd_updated_at :: timestamp

datatype IdentityResolution = IdentityPending | IdentityResolved | IdentityNone | IdentitySuperseded

record SchedulerCancelPending =
  sp_job_id :: string
  sp_cluster :: string
  sp_requested_at :: timestamp
  sp_reason :: string
  sp_identity_resolution :: IdentityResolution
  sp_dispositions :: "SchedulerCancelDisposition list"
  sp_updated_at :: timestamp

definition FINAL_DISPOSITIONS :: "SchedulerCancelDispositionState set" where
  "FINAL_DISPOSITIONS = {SC_CANCELED, SC_TERMINAL, SC_NOT_FOUND, SC_REFUSED, SC_EXHAUSTED}"

definition SchedulerCancelPending_complete :: "SchedulerCancelPending \<Rightarrow> bool" where
  "SchedulerCancelPending_complete r \<longleftrightarrow> sp_identity_resolution r \<in> {IdentityNone, IdentitySuperseded}
     \<or> sp_identity_resolution r = IdentityResolved \<and> sp_dispositions r \<noteq> []
        \<and> list_all (\<lambda>d. cd_state d \<in> FINAL_DISPOSITIONS) (sp_dispositions r)"

text \<open>A claim is absent or complete, and expires after it was made.\<close>

definition claim_ok :: "string option \<Rightarrow> timestamp option \<Rightarrow> timestamp option \<Rightarrow> bool \<Rightarrow> string \<Rightarrow> string \<Rightarrow> string \<Rightarrow> py_error + unit" where
  "claim_ok claim_id claimed_at expires_at state_ok incomplete wrong_state not_after =
     (let populated = length (filter id [claim_id \<noteq> None, claimed_at \<noteq> None, expires_at \<noteq> None]) in
      rbind (check (populated \<in> {0, 3}) (ValueError incomplete)) (\<lambda>_.
      case claim_id of
        None \<Rightarrow> Inr ()
      | Some _ \<Rightarrow>
          rbind (check state_ok (ValueError wrong_state)) (\<lambda>_.
          check (case (claimed_at, expires_at) of (Some c, Some e) \<Rightarrow> \<not> e \<le> c | _ \<Rightarrow> False) (ValueError not_after))))"

definition validate_attempt_claim :: "SchedulerCancelDisposition \<Rightarrow> py_error + unit" where
  "validate_attempt_claim d = claim_ok (cd_attempt_claim_id d) (cd_attempt_claimed_at d) (cd_attempt_claim_expires_at d)
     (cd_state d \<in> {SC_PENDING, SC_RETRY_WAIT})
     ''scheduler cancellation attempt claim must be complete''
     ''scheduler cancellation attempt claim requires retryable state''
     ''scheduler cancellation attempt claim must expire after acquisition''"

definition validate_confirmation_claim :: "SchedulerCancelDisposition \<Rightarrow> py_error + unit" where
  "validate_confirmation_claim d = claim_ok (cd_confirmation_claim_id d) (cd_confirmation_claimed_at d) (cd_confirmation_claim_expires_at d)
     (cd_state d = SC_CANCEL_REQUESTED)
     ''scheduler cancellation confirmation claim must be complete''
     ''scheduler cancellation confirmation claim requires cancel-requested state''
     ''scheduler cancellation confirmation claim must expire after acquisition''"

definition length_within :: "nat \<Rightarrow> nat \<Rightarrow> string option \<Rightarrow> bool" where
  "length_within low high v = (case v of None \<Rightarrow> True | Some s \<Rightarrow> low \<le> length s \<and> length s \<le> high)"

definition disposition_fields_ok :: "SchedulerCancelDisposition \<Rightarrow> bool" where
  "disposition_fields_ok d \<longleftrightarrow> length_within 1 256 (Some (cd_scheduler_job_id d)) \<and> length_within 1 128 (cd_provider d)
     \<and> 0 \<le> cd_attempts d \<and> cd_attempts d \<le> 100 \<and> 0 \<le> cd_confirmation_attempts d \<and> cd_confirmation_attempts d \<le> 100
     \<and> length_within 0 16384 (cd_last_error d)
     \<and> (\<forall>i \<in> set_option (cd_attempt_claim_id d). durable_id i) \<and> (\<forall>i \<in> set_option (cd_confirmation_claim_id d). durable_id i)"

definition invalid_record :: py_error where
  "invalid_record = ValueError ''scheduler cancellation record failed validation''"

definition SchedulerCancelDisposition_validate :: "SchedulerCancelDisposition \<Rightarrow> py_error + SchedulerCancelDisposition" where
  "SchedulerCancelDisposition_validate d =
     rbind (check (disposition_fields_ok d) invalid_record) (\<lambda>_.
     rbind (validate_attempt_claim d) (\<lambda>_.
     rbind (validate_confirmation_claim d) (\<lambda>_. Inr d)))"

definition SchedulerCancelPending_validate :: "SchedulerCancelPending \<Rightarrow> py_error + SchedulerCancelPending" where
  "SchedulerCancelPending_validate r =
     rbind (check (durable_id (sp_job_id r) \<and> length_within 1 256 (Some (sp_cluster r)) \<and> length_within 1 256 (Some (sp_reason r))
       \<and> length (sp_dispositions r) \<le> 1000) invalid_record) (\<lambda>_.
     rbind (rmap SchedulerCancelDisposition_validate (sp_dispositions r)) (\<lambda>_. Inr r))"

section \<open>Due work\<close>

definition claim_live :: "string option \<Rightarrow> timestamp option \<Rightarrow> timestamp \<Rightarrow> bool" where
  "claim_live claim_id expires_at now \<longleftrightarrow> claim_id \<noteq> None \<and> (case expires_at of None \<Rightarrow> False | Some t \<Rightarrow> t > now)"

definition attempt_due :: "SchedulerCancelDisposition \<Rightarrow> timestamp \<Rightarrow> bool" where
  "attempt_due d now = (case cd_next_attempt_at d of None \<Rightarrow> True | Some t \<Rightarrow> t \<le> now)"

definition scheduler_cancel_disposition_is_due :: "SchedulerCancelDisposition \<Rightarrow> timestamp \<Rightarrow> bool" where
  "scheduler_cancel_disposition_is_due d now =
     (if cd_state d \<in> {SC_PENDING, SC_RETRY_WAIT}
      then if claim_live (cd_attempt_claim_id d) (cd_attempt_claim_expires_at d) now then False else attempt_due d now
      else if cd_state d \<noteq> SC_CANCEL_REQUESTED then False
      else if claim_live (cd_confirmation_claim_id d) (cd_confirmation_claim_expires_at d) now then False
      else attempt_due d now)"

definition scheduler_cancel_record_is_due :: "SchedulerCancelPending \<Rightarrow> timestamp \<Rightarrow> bool" where
  "scheduler_cancel_record_is_due r now =
     (if SchedulerCancelPending_complete r then False
      else if sp_identity_resolution r = IdentityPending then True
      else list_ex (\<lambda>d. scheduler_cancel_disposition_is_due d now) (sp_dispositions r))"

definition due_time :: "SchedulerCancelPending \<Rightarrow> SchedulerCancelDisposition \<Rightarrow> timestamp" where
  "due_time r d = (case cd_attempt_claim_expires_at d of Some t \<Rightarrow> t | None \<Rightarrow>
     case cd_confirmation_claim_expires_at d of Some t \<Rightarrow> t | None \<Rightarrow>
     case cd_next_attempt_at d of Some t \<Rightarrow> t | None \<Rightarrow> sp_requested_at r)"

definition scheduler_cancel_due_sort_key :: "SchedulerCancelPending \<Rightarrow> timestamp \<times> string" where
  "scheduler_cancel_due_sort_key r =
     (case map (due_time r) (filter (\<lambda>d. cd_state d \<in> {SC_PENDING, SC_RETRY_WAIT, SC_CANCEL_REQUESTED}) (sp_dispositions r)) of
        [] \<Rightarrow> sp_requested_at r
      | t # ts \<Rightarrow> foldl min t ts, sp_job_id r)"

section \<open>The two families\<close>

record cancel_files =
  cf_pending :: "((string \<times> string) \<times> SchedulerCancelPending) list"
  cf_completed :: "((string \<times> string) \<times> SchedulerCancelPending) list"

type_synonym 'a cancel_op = "(cancel_files, 'a) queue_op"

definition scheduler_cancel_record_path :: "string \<Rightarrow> string \<Rightarrow> py_error + string \<times> string" where
  "scheduler_cancel_record_path cluster job_id =
     rbind (require_durable_record_id job_id ''record_id'') (\<lambda>key. Inr (stable_ref_token [cluster], key))"

definition cancel_path :: "string \<Rightarrow> string \<times> string \<Rightarrow> string" where
  "cancel_path family key = record_path (family @ ''/'' @ fst key) (snd key)"

definition read_cancel :: "((string \<times> string) \<times> SchedulerCancelPending) list \<Rightarrow> string \<times> string \<Rightarrow> py_error + SchedulerCancelPending option" where
  "read_cancel entries key =
     (case map_of entries key of
        None \<Rightarrow> Inr None
      | Some r \<Rightarrow> rbind (SchedulerCancelPending_validate r) (\<lambda>r. Inr (Some r)))"

definition read_pending :: "string \<times> string \<Rightarrow> SchedulerCancelPending option cancel_op" where
  "read_pending key = mbind mget (\<lambda>s. qlift (read_cancel (cf_pending (qs_other s)) key))"

definition read_completed :: "string \<times> string \<Rightarrow> SchedulerCancelPending option cancel_op" where
  "read_completed key = mbind mget (\<lambda>s. qlift (read_cancel (cf_completed (qs_other s)) key))"

definition write_pending :: "string \<times> string \<Rightarrow> SchedulerCancelPending \<Rightarrow> unit cancel_op" where
  "write_pending key r = durable (qs_other_update (cf_pending_update (AList.update key r)))"

definition write_completed :: "string \<times> string \<Rightarrow> SchedulerCancelPending \<Rightarrow> unit cancel_op" where
  "write_completed key r = durable (qs_other_update (cf_completed_update (AList.update key r)))"

definition unlink_pending :: "string \<times> string \<Rightarrow> unit cancel_op" where
  "unlink_pending key = durable (qs_other_update (cf_pending_update (AList.delete key)))"

definition identity_mismatch :: "string \<times> string \<Rightarrow> py_error" where
  "identity_mismatch key = QueueConflictError (''scheduler cancellation identity mismatch: '' @ cancel_path ''scheduler_cancel_pending'' key)"

definition disposition_mismatch :: "string \<times> string \<Rightarrow> py_error" where
  "disposition_mismatch key = QueueConflictError
     (''scheduler cancellation disposition identity mismatch: '' @ cancel_path ''scheduler_cancel_dispositions'' key)"

definition not_pending :: "string \<Rightarrow> py_error" where
  "not_pending job_id = QueueConflictError (''scheduler cancellation is not pending: '' @ job_id)"

definition owned_record :: "string \<Rightarrow> string \<Rightarrow> SchedulerCancelPending \<Rightarrow> bool" where
  "owned_record job_id cluster r \<longleftrightarrow> sp_job_id r = job_id \<and> sp_cluster r = cluster"

text \<open>A complete record is written to its family before the pending one is removed.\<close>

definition persist_scheduler_cancel_record :: "SchedulerCancelPending \<Rightarrow> SchedulerCancelPending cancel_op" where
  "persist_scheduler_cancel_record r =
     mbind (qlift (scheduler_cancel_record_path (sp_cluster r) (sp_job_id r))) (\<lambda>key.
     if \<not> SchedulerCancelPending_complete r
     then mbind (write_pending key r) (\<lambda>_. mret r)
     else mbind (write_completed key r) (\<lambda>_. mbind (unlink_pending key) (\<lambda>_. mret r)))"

definition require_scheduler_cancel_pending :: "string \<Rightarrow> string \<Rightarrow> SchedulerCancelPending cancel_op" where
  "require_scheduler_cancel_pending job_id cluster =
     mbind (qlift (scheduler_cancel_record_path cluster job_id)) (\<lambda>key.
     mbind (read_pending key) (\<lambda>found.
       case found of
         None \<Rightarrow> qraise (not_pending job_id)
       | Some r \<Rightarrow> mbind (qcheck (owned_record job_id cluster r) (identity_mismatch key)) (\<lambda>_. mret r)))"

text \<open>\<open>updated_at\<close> is the reading of the clock that a new record takes as its default.\<close>

definition ensure_pending_files :: "timestamp \<Rightarrow> RelayJob \<Rightarrow> timestamp \<Rightarrow> string \<Rightarrow> (cancel_files, py_error, SchedulerCancelPending) op" where
  "ensure_pending_files updated_at job requested_at reason =
     mbind (mlift (scheduler_cancel_record_path (rj_cluster job) (rj_job_id job))) (\<lambda>key.
     mbind mget (\<lambda>f.
     mbind (mlift (read_cancel (cf_pending f) key)) (\<lambda>existing.
       case existing of
         Some r \<Rightarrow> mbind (mcheck (owned_record (rj_job_id job) (rj_cluster job) r) (identity_mismatch key)) (\<lambda>_. mret r)
       | None \<Rightarrow>
           mbind (mlift (read_cancel (cf_completed f) key)) (\<lambda>completed.
             case completed of
               Some r \<Rightarrow> mbind (mcheck (owned_record (rj_job_id job) (rj_cluster job) r) (disposition_mismatch key)) (\<lambda>_. mret r)
             | None \<Rightarrow>
                 mbind (mcheck (\<not> int (length (filter (\<lambda>(k, _). fst k = fst key) (cf_pending f))) \<ge> MAX_ACTIVE_JOB_RECORDS)
                   (QueueConflictError ''scheduler cancellation capacity reached for cluster; retry after pending cancellation work drains'')) (\<lambda>_.
                 let r = \<lparr>sp_job_id = rj_job_id job, sp_cluster = rj_cluster job, sp_requested_at = requested_at, sp_reason = reason,
                       sp_identity_resolution = IdentityPending, sp_dispositions = [], sp_updated_at = updated_at\<rparr> in
                 mbind (mlift (SchedulerCancelPending_validate r)) (\<lambda>r.
                 mbind (mupd (cf_pending_update (AList.update key r))) (\<lambda>_. mret r)))))))"

definition ensure_scheduler_cancel_pending :: "cancel_files queue_env \<Rightarrow> string \<Rightarrow> string \<Rightarrow> SchedulerCancelPending cancel_op" where
  "ensure_scheduler_cancel_pending env job_id reason =
     mbind (qlift (require_durable_record_id job_id ''job_id'')) (\<lambda>job_id.
     mbind (initialize_queue env) (\<lambda>_.
     mbind (require_index_migration_complete env) (\<lambda>_.
     mbind (get_job job_id) (\<lambda>job.
     mbind (utc_now env) (\<lambda>requested_at.
     mbind (utc_now env) (\<lambda>updated_at.
     on_other (ensure_pending_files updated_at job requested_at reason)))))))"

definition get_scheduler_cancel_pending :: "string \<Rightarrow> string \<Rightarrow> SchedulerCancelPending option cancel_op" where
  "get_scheduler_cancel_pending job_id cluster =
     mbind (qlift (require_durable_record_id job_id ''job_id'')) (\<lambda>job_id.
     mbind (qlift (scheduler_cancel_record_path cluster job_id)) (\<lambda>key.
     mbind (read_pending key) (\<lambda>found.
     mbind (qcheck (case found of None \<Rightarrow> True | Some r \<Rightarrow> owned_record job_id cluster r) (identity_mismatch key)) (\<lambda>_.
     mret found))))"

definition get_scheduler_cancel_disposition :: "string \<Rightarrow> string \<Rightarrow> SchedulerCancelPending option cancel_op" where
  "get_scheduler_cancel_disposition job_id cluster =
     mbind (qlift (require_durable_record_id job_id ''job_id'')) (\<lambda>job_id.
     mbind (qlift (scheduler_cancel_record_path cluster job_id)) (\<lambda>key.
     mbind (read_completed key) (\<lambda>found.
     mbind (qcheck (case found of None \<Rightarrow> True | Some r \<Rightarrow> owned_record job_id cluster r \<and> SchedulerCancelPending_complete r)
       (disposition_mismatch key)) (\<lambda>_.
     mret found))))"

section \<open>The due batch\<close>

fun drop_completed :: "SchedulerCancelPending list \<Rightarrow> SchedulerCancelPending list cancel_op" where
  "drop_completed [] = mret []"
| "drop_completed (r # rs) =
     mbind (qlift (scheduler_cancel_record_path (sp_cluster r) (sp_job_id r))) (\<lambda>key.
     mbind (read_completed key) (\<lambda>completed.
       case completed of
         Some c \<Rightarrow>
           mbind (qcheck (SchedulerCancelPending_complete c) (QueueConflictError
             (''scheduler cancellation disposition is not terminal: '' @ cancel_path ''scheduler_cancel_dispositions'' key))) (\<lambda>_.
           mbind (unlink_pending key) (\<lambda>_. drop_completed rs))
       | None \<Rightarrow> mbind (drop_completed rs) (\<lambda>rest. mret (r # rest))))"

definition cluster_entries :: "string \<Rightarrow> ((string \<times> string) \<times> SchedulerCancelPending) list \<Rightarrow> (string \<times> SchedulerCancelPending) list" where
  "cluster_entries cluster entries = map (\<lambda>((_, name), r). (name, r)) (filter (\<lambda>(k, _). fst k = stable_ref_token [cluster]) entries)"

definition read_listed :: "string \<times> SchedulerCancelPending \<Rightarrow> py_error + SchedulerCancelPending" where
  "read_listed = (\<lambda>(name, r). rbind (SchedulerCancelPending_validate r) (\<lambda>r.
     if sp_job_id r \<noteq> name
     then Inl (QueueConflictError (''canonical job_id filename/content identity mismatch: '' @ name @ ''.json''))
     else Inr r))"

definition scan_due_scheduler_cancellations ::
  "cancel_files queue_env \<Rightarrow> string \<Rightarrow> int \<Rightarrow> timestamp option \<Rightarrow> (SchedulerCancelPending list \<times> bool) cancel_op" where
  "scan_due_scheduler_cancellations env cluster limit now =
     mbind (qcheck (\<not> (limit < 1 \<or> limit > DEFAULT_EXACT_RECORD_LIMIT))
       (ValueError (''scheduler cancellation batch limit must be between 1 and '' @ int_str DEFAULT_EXACT_RECORD_LIMIT))) (\<lambda>_.
     mbind (initialize_queue env) (\<lambda>_.
     mbind (require_index_migration_complete env) (\<lambda>_.
     mbind mget (\<lambda>s.
     let entries = cluster_entries cluster (cf_pending (qs_other s)) in
     mbind (qlift (rmap read_listed (take (nat MAX_ACTIVE_JOB_RECORDS) entries))) (\<lambda>records.
     let index_truncated = MAX_ACTIVE_JOB_RECORDS < int (length entries) in
     mbind (drop_completed records) (\<lambda>active.
     mbind (case now of Some t \<Rightarrow> mret t | None \<Rightarrow> utc_now env) (\<lambda>observed_at.
     let due = sort_key scheduler_cancel_due_sort_key (filter (\<lambda>r. scheduler_cancel_record_is_due r observed_at) active) in
     mret (take (nat limit) due, index_truncated \<or> int (length due) > limit))))))))"

section \<open>Identities\<close>

fun position_of :: "string \<Rightarrow> SchedulerCancelDisposition list \<Rightarrow> nat option" where
  "position_of scheduler_job_id [] = None"
| "position_of scheduler_job_id (d # ds) =
     (if cd_scheduler_job_id d = scheduler_job_id then Some 0 else map_option Suc (position_of scheduler_job_id ds))"

definition new_disposition :: "string \<Rightarrow> string option \<Rightarrow> bool \<Rightarrow> timestamp \<Rightarrow> SchedulerCancelDisposition" where
  "new_disposition scheduler_job_id provider ownership_verified updated_at =
     \<lparr>cd_scheduler_job_id = scheduler_job_id, cd_provider = provider,
      cd_state = (if ownership_verified then SC_PENDING else SC_REFUSED), cd_attempts = 0, cd_confirmation_attempts = 0,
      cd_next_attempt_at = None,
      cd_last_error = (if ownership_verified then None else Some ''scheduler identity ownership unverified''),
      cd_attempt_claim_id = None, cd_attempt_claimed_at = None, cd_attempt_claim_expires_at = None,
      cd_confirmation_claim_id = None, cd_confirmation_claimed_at = None, cd_confirmation_claim_expires_at = None,
      cd_updated_at = updated_at\<rparr>"

record SchedulerCancelIdentityRegistration =
  ir_record :: SchedulerCancelPending
  ir_disposition_created :: bool

definition save_registration ::
  "cancel_files queue_env \<Rightarrow> SchedulerCancelPending \<Rightarrow> SchedulerCancelDisposition list \<Rightarrow> bool \<Rightarrow> SchedulerCancelIdentityRegistration cancel_op" where
  "save_registration env r dispositions created =
     mbind (utc_now env) (\<lambda>updated_at.
     mbind (persist_scheduler_cancel_record (r\<lparr>sp_dispositions := dispositions, sp_updated_at := updated_at\<rparr>)) (\<lambda>persisted.
     mret \<lparr>ir_record = persisted, ir_disposition_created = created\<rparr>))"

definition register_scheduler_cancel_identity_once ::
  "cancel_files queue_env \<Rightarrow> string \<Rightarrow> string \<Rightarrow> string \<Rightarrow> string option \<Rightarrow> bool \<Rightarrow> SchedulerCancelIdentityRegistration cancel_op" where
  "register_scheduler_cancel_identity_once env job_id cluster scheduler_job_id provider ownership_verified =
     mbind (qlift (require_durable_record_id job_id ''job_id'')) (\<lambda>job_id.
     mbind (initialize_queue env) (\<lambda>_.
     mbind (require_scheduler_cancel_pending job_id cluster) (\<lambda>r.
     mbind (utc_now env) (\<lambda>created_at.
     mbind (qlift (SchedulerCancelDisposition_validate (new_disposition scheduler_job_id provider ownership_verified created_at))) (\<lambda>candidate.
     case position_of scheduler_job_id (sp_dispositions r) of
       None \<Rightarrow> save_registration env r (sp_dispositions r @ [candidate]) True
     | Some i \<Rightarrow>
         let existing = sp_dispositions r ! i in
         if cd_state existing \<noteq> SC_REFUSED \<or> \<not> ownership_verified
         then mret \<lparr>ir_record = r, ir_disposition_created = False\<rparr>
         else mbind (utc_now env) (\<lambda>verified_at.
           save_registration env r ((sp_dispositions r)[i := candidate\<lparr>cd_attempts := cd_attempts existing,
             cd_confirmation_attempts := cd_confirmation_attempts existing, cd_updated_at := verified_at\<rparr>]) False))))))"

definition register_scheduler_cancel_identity ::
  "cancel_files queue_env \<Rightarrow> string \<Rightarrow> string \<Rightarrow> string \<Rightarrow> string option \<Rightarrow> bool \<Rightarrow> SchedulerCancelPending cancel_op" where
  "register_scheduler_cancel_identity env job_id cluster scheduler_job_id provider ownership_verified =
     mbind (register_scheduler_cancel_identity_once env job_id cluster scheduler_job_id provider ownership_verified) (\<lambda>x. mret (ir_record x))"

definition finalize_scheduler_cancel_identities :: "cancel_files queue_env \<Rightarrow> string \<Rightarrow> string \<Rightarrow> SchedulerCancelPending cancel_op" where
  "finalize_scheduler_cancel_identities env job_id cluster =
     mbind (qlift (require_durable_record_id job_id ''job_id'')) (\<lambda>job_id.
     mbind (initialize_queue env) (\<lambda>_.
     mbind (require_scheduler_cancel_pending job_id cluster) (\<lambda>r.
     mbind (qcheck (sp_dispositions r \<noteq> []) (QueueConflictError (''scheduler cancellation has no identities to finalize: '' @ job_id))) (\<lambda>_.
     mbind (utc_now env) (\<lambda>now.
     persist_scheduler_cancel_record (r\<lparr>sp_identity_resolution := IdentityResolved, sp_updated_at := now\<rparr>))))))"

definition without_claims :: "SchedulerCancelDisposition \<Rightarrow> SchedulerCancelDisposition" where
  "without_claims d = d\<lparr>cd_attempt_claim_id := None, cd_attempt_claimed_at := None, cd_attempt_claim_expires_at := None,
     cd_confirmation_claim_id := None, cd_confirmation_claimed_at := None, cd_confirmation_claim_expires_at := None\<rparr>"

definition complete_scheduler_cancel_identity_scan ::
  "cancel_files queue_env \<Rightarrow> string \<Rightarrow> string \<Rightarrow> bool \<Rightarrow> SchedulerCancelPending cancel_op" where
  "complete_scheduler_cancel_identity_scan env job_id cluster superseded =
     mbind (qlift (require_durable_record_id job_id ''job_id'')) (\<lambda>job_id.
     mbind (initialize_queue env) (\<lambda>_.
     mbind (require_scheduler_cancel_pending job_id cluster) (\<lambda>r.
     if sp_dispositions r \<noteq> [] \<and> \<not> superseded then mret r
     else
       let dispositions = (if superseded then map without_claims (sp_dispositions r) else sp_dispositions r) in
       mbind (utc_now env) (\<lambda>now.
       persist_scheduler_cancel_record (r\<lparr>sp_identity_resolution := (if superseded then IdentitySuperseded else IdentityNone),
         sp_dispositions := dispositions, sp_updated_at := now\<rparr>)))))"

section \<open>Claims\<close>

definition timedelta_us :: "rat \<Rightarrow> int" where
  "timedelta_us seconds =
     (let us = seconds * 1000000; low = \<lfloor>us\<rfloor>; rest = us - of_int low in
      if rest < 1 / 2 \<or> rest = 1 / 2 \<and> even low then low else low + 1)"

definition MIN_SCHEDULER_CANCEL_CLAIM_LEASE_SECONDS :: rat where "MIN_SCHEDULER_CANCEL_CLAIM_LEASE_SECONDS = 1"
definition MAX_SCHEDULER_CANCEL_CLAIM_LEASE_SECONDS :: rat where "MAX_SCHEDULER_CANCEL_CLAIM_LEASE_SECONDS = 300"

text \<open>Both kinds of claim have the same fields.\<close>

record SchedulerCancelClaim =
  sc_claim_id :: string
  sc_scheduler_job_id :: string
  sc_provider :: string
  sc_attempt :: int
  sc_claimed_at :: timestamp
  sc_expires_at :: timestamp

text \<open>The common opening: nothing when the cancellation has completed, after removing what it left pending.\<close>

definition open_cancellation :: "string \<Rightarrow> string \<Rightarrow> SchedulerCancelPending option cancel_op" where
  "open_cancellation job_id cluster =
     mbind (qlift (scheduler_cancel_record_path cluster job_id)) (\<lambda>key.
     mbind (read_completed key) (\<lambda>completed.
       case completed of
         Some c \<Rightarrow>
           mbind (qcheck (owned_record job_id cluster c \<and> SchedulerCancelPending_complete c) (disposition_mismatch key)) (\<lambda>_.
           mbind (unlink_pending key) (\<lambda>_. mret None))
       | None \<Rightarrow>
           mbind (read_pending key) (\<lambda>found.
             case found of
               None \<Rightarrow> qraise (not_pending job_id)
             | Some r \<Rightarrow> mbind (qcheck (owned_record job_id cluster r) (identity_mismatch key)) (\<lambda>_. mret (Some r)))))"

definition find_disposition :: "SchedulerCancelPending \<Rightarrow> string \<Rightarrow> nat cancel_op" where
  "find_disposition r scheduler_job_id =
     (case position_of scheduler_job_id (sp_dispositions r) of
        None \<Rightarrow> conflict (''scheduler cancellation identity is not registered: '' @ scheduler_job_id)
      | Some i \<Rightarrow> mret i)"

definition same_provider :: "SchedulerCancelDisposition \<Rightarrow> string \<Rightarrow> unit cancel_op" where
  "same_provider current provider =
     (case cd_provider current of
        None \<Rightarrow> mret ()
      | Some p \<Rightarrow> qcheck (p = provider) (QueueConflictError (''scheduler cancellation provider changed for ''
          @ cd_scheduler_job_id current @ '': '' @ p @ '' != '' @ provider)))"

definition with_disposition :: "SchedulerCancelPending \<Rightarrow> nat \<Rightarrow> SchedulerCancelDisposition \<Rightarrow> timestamp \<Rightarrow> SchedulerCancelPending" where
  "with_disposition r i d now = r\<lparr>sp_dispositions := (sp_dispositions r)[i := d], sp_updated_at := now\<rparr>"

definition observed :: "cancel_files queue_env \<Rightarrow> timestamp option \<Rightarrow> timestamp cancel_op" where
  "observed env now = (case now of Some t \<Rightarrow> mret t | None \<Rightarrow> utc_now env)"

definition lease_in_bounds :: "rat \<Rightarrow> bool" where
  "lease_in_bounds lease_seconds \<longleftrightarrow> MIN_SCHEDULER_CANCEL_CLAIM_LEASE_SECONDS \<le> lease_seconds
     \<and> lease_seconds \<le> MAX_SCHEDULER_CANCEL_CLAIM_LEASE_SECONDS"

definition attempt_claimed :: "SchedulerCancelDisposition \<Rightarrow> string \<Rightarrow> string \<Rightarrow> timestamp \<Rightarrow> timestamp \<Rightarrow> SchedulerCancelDisposition" where
  "attempt_claimed current provider claim_id observed_at expires_at =
     current\<lparr>cd_provider := Some provider, cd_attempt_claim_id := Some claim_id, cd_attempt_claimed_at := Some observed_at,
       cd_attempt_claim_expires_at := Some expires_at, cd_updated_at := observed_at\<rparr>"

definition confirmation_claimed :: "SchedulerCancelDisposition \<Rightarrow> string \<Rightarrow> string \<Rightarrow> timestamp \<Rightarrow> timestamp \<Rightarrow> SchedulerCancelDisposition" where
  "confirmation_claimed current provider claim_id observed_at expires_at =
     current\<lparr>cd_provider := Some provider, cd_confirmation_claim_id := Some claim_id, cd_confirmation_claimed_at := Some observed_at,
       cd_confirmation_claim_expires_at := Some expires_at, cd_updated_at := observed_at\<rparr>"

definition claim_attempt_of ::
  "cancel_files queue_env \<Rightarrow> SchedulerCancelPending \<Rightarrow> string \<Rightarrow> string \<Rightarrow> rat \<Rightarrow> timestamp \<Rightarrow> SchedulerCancelClaim option cancel_op" where
  "claim_attempt_of env r scheduler_job_id provider lease_seconds observed_at =
     (if sp_identity_resolution r \<noteq> IdentityResolved then mret None
      else mbind (find_disposition r scheduler_job_id) (\<lambda>i.
        let current = sp_dispositions r ! i in
        if cd_state current \<notin> {SC_PENDING, SC_RETRY_WAIT} then mret None
        else if \<not> attempt_due current observed_at then mret None
        else if claim_live (cd_attempt_claim_id current) (cd_attempt_claim_expires_at current) observed_at then mret None
        else mbind (same_provider current provider) (\<lambda>_.
          mbind (new_id env ''cancelclaim'') (\<lambda>claim_id.
          let expires_at = observed_at + timedelta_us lease_seconds in
          mbind (persist_scheduler_cancel_record (with_disposition r i
            (attempt_claimed current provider claim_id observed_at expires_at) observed_at)) (\<lambda>_.
          mret (Some \<lparr>sc_claim_id = claim_id, sc_scheduler_job_id = scheduler_job_id, sc_provider = provider,
            sc_attempt = cd_attempts current + 1, sc_claimed_at = observed_at, sc_expires_at = expires_at\<rparr>))))))"

definition claim_scheduler_cancel_attempt ::
  "cancel_files queue_env \<Rightarrow> string \<Rightarrow> string \<Rightarrow> string \<Rightarrow> string \<Rightarrow> rat \<Rightarrow> timestamp option \<Rightarrow> SchedulerCancelClaim option cancel_op" where
  "claim_scheduler_cancel_attempt env job_id cluster scheduler_job_id provider lease_seconds now =
     mbind (qlift (require_durable_record_id job_id ''job_id'')) (\<lambda>job_id.
     mbind (qcheck (provider \<noteq> []) (ValueError ''scheduler cancellation provider must not be empty'')) (\<lambda>_.
     mbind (qcheck (lease_in_bounds lease_seconds) (ValueError ''scheduler cancellation claim lease must be between 1 and 300 seconds'')) (\<lambda>_.
     mbind (observed env now) (\<lambda>observed_at.
     mbind (initialize_queue env) (\<lambda>_.
     mbind (open_cancellation job_id cluster) (\<lambda>found.
       case found of
         None \<Rightarrow> mret None
       | Some r \<Rightarrow> claim_attempt_of env r scheduler_job_id provider lease_seconds observed_at))))))"

definition or_default :: "string option \<Rightarrow> string \<Rightarrow> string" where
  "or_default v d = (case v of None \<Rightarrow> d | Some s \<Rightarrow> if s = [] then d else s)"

text \<open>The disposition after an attempt that the scheduler accepted or refused.\<close>

definition attempted ::
  "SchedulerCancelDisposition \<Rightarrow> string \<Rightarrow> bool \<Rightarrow> string option \<Rightarrow> int \<Rightarrow> rat \<Rightarrow> timestamp \<Rightarrow> SchedulerCancelDisposition" where
  "attempted current provider accepted bounded_error max_attempts retry_delay_seconds observed_at =
     (let attempts = cd_attempts current + 1;
          (state, next_attempt_at, last_error) =
            (if accepted then (SC_CANCEL_REQUESTED, Some observed_at, None)
             else if attempts \<ge> max_attempts
             then (SC_EXHAUSTED, None, Some (or_default bounded_error ''scheduler cancellation failed''))
             else (SC_RETRY_WAIT, Some (observed_at + timedelta_us retry_delay_seconds),
               Some (or_default bounded_error ''scheduler cancellation failed''))) in
      current\<lparr>cd_provider := Some provider, cd_state := state, cd_attempts := attempts, cd_next_attempt_at := next_attempt_at,
        cd_last_error := last_error, cd_attempt_claim_id := None, cd_attempt_claimed_at := None,
        cd_attempt_claim_expires_at := None, cd_updated_at := observed_at\<rparr>)"

definition record_attempt_of ::
  "SchedulerCancelPending \<Rightarrow> string \<Rightarrow> string \<Rightarrow> string \<Rightarrow> bool \<Rightarrow> string option \<Rightarrow> int \<Rightarrow> rat \<Rightarrow> timestamp
     \<Rightarrow> SchedulerCancelPending option cancel_op" where
  "record_attempt_of r scheduler_job_id provider claim_id accepted error max_attempts retry_delay_seconds observed_at =
     mbind (find_disposition r scheduler_job_id) (\<lambda>i.
     let current = sp_dispositions r ! i in
     if cd_attempt_claim_id current \<noteq> Some claim_id then mret None
     else mbind (same_provider current provider) (\<lambda>_.
       mbind (qlift (SchedulerCancelDisposition_validate (attempted current provider accepted
         (map_option error_detail error) max_attempts retry_delay_seconds observed_at))) (\<lambda>d.
       mbind (persist_scheduler_cancel_record (with_disposition r i d observed_at)) (\<lambda>saved. mret (Some saved)))))"

definition record_scheduler_cancel_attempt ::
  "cancel_files queue_env \<Rightarrow> string \<Rightarrow> string \<Rightarrow> string \<Rightarrow> string \<Rightarrow> string \<Rightarrow> bool \<Rightarrow> string option \<Rightarrow> int \<Rightarrow> rat
     \<Rightarrow> timestamp option \<Rightarrow> SchedulerCancelPending option cancel_op" where
  "record_scheduler_cancel_attempt env job_id cluster scheduler_job_id provider claim_id accepted error
     max_attempts retry_delay_seconds now =
     mbind (qlift (require_durable_record_id job_id ''job_id'')) (\<lambda>job_id.
     mbind (qlift (validate_durable_record_id (JStr claim_id))) (\<lambda>claim_id.
     mbind (observed env now) (\<lambda>observed_at.
     mbind (initialize_queue env) (\<lambda>_.
     mbind (open_cancellation job_id cluster) (\<lambda>found.
       case found of
         None \<Rightarrow> mret None
       | Some r \<Rightarrow> record_attempt_of r scheduler_job_id provider claim_id accepted error max_attempts retry_delay_seconds observed_at)))))"

definition claim_confirmation_of ::
  "cancel_files queue_env \<Rightarrow> SchedulerCancelPending \<Rightarrow> string \<Rightarrow> string \<Rightarrow> rat \<Rightarrow> timestamp \<Rightarrow> SchedulerCancelClaim option cancel_op" where
  "claim_confirmation_of env r scheduler_job_id provider lease_seconds observed_at =
     (if sp_identity_resolution r \<noteq> IdentityResolved then mret None
      else mbind (find_disposition r scheduler_job_id) (\<lambda>i.
        let current = sp_dispositions r ! i in
        if cd_state current \<noteq> SC_CANCEL_REQUESTED then mret None
        else if \<not> attempt_due current observed_at then mret None
        else if claim_live (cd_confirmation_claim_id current) (cd_confirmation_claim_expires_at current) observed_at then mret None
        else mbind (same_provider current provider) (\<lambda>_.
          mbind (new_id env ''confirmclaim'') (\<lambda>claim_id.
          let expires_at = observed_at + timedelta_us lease_seconds in
          mbind (persist_scheduler_cancel_record (with_disposition r i
            (confirmation_claimed current provider claim_id observed_at expires_at) observed_at)) (\<lambda>_.
          mret (Some \<lparr>sc_claim_id = claim_id, sc_scheduler_job_id = scheduler_job_id, sc_provider = provider,
            sc_attempt = cd_confirmation_attempts current + 1, sc_claimed_at = observed_at, sc_expires_at = expires_at\<rparr>))))))"

definition claim_scheduler_cancel_confirmation ::
  "cancel_files queue_env \<Rightarrow> string \<Rightarrow> string \<Rightarrow> string \<Rightarrow> string \<Rightarrow> rat \<Rightarrow> timestamp option \<Rightarrow> SchedulerCancelClaim option cancel_op" where
  "claim_scheduler_cancel_confirmation env job_id cluster scheduler_job_id provider lease_seconds now =
     mbind (qlift (require_durable_record_id job_id ''job_id'')) (\<lambda>job_id.
     mbind (qcheck (provider \<noteq> []) (ValueError ''scheduler cancellation provider must not be empty'')) (\<lambda>_.
     mbind (qcheck (lease_in_bounds lease_seconds)
       (ValueError ''scheduler cancellation confirmation claim lease must be between 1 and 300 seconds'')) (\<lambda>_.
     mbind (observed env now) (\<lambda>observed_at.
     mbind (initialize_queue env) (\<lambda>_.
     mbind (open_cancellation job_id cluster) (\<lambda>found.
       case found of
         None \<Rightarrow> mret None
       | Some r \<Rightarrow> claim_confirmation_of env r scheduler_job_id provider lease_seconds observed_at))))))"

text \<open>The disposition after a poll of the scheduler.\<close>

definition confirmed ::
  "SchedulerCancelDisposition \<Rightarrow> SchedulerPhase \<Rightarrow> bool \<Rightarrow> string option \<Rightarrow> int \<Rightarrow> rat \<Rightarrow> timestamp \<Rightarrow> SchedulerCancelDisposition" where
  "confirmed current phase not_found bounded_error max_confirmation_attempts retry_delay_seconds observed_at =
     (let confirmations = cd_confirmation_attempts current + 1;
          (state, next_attempt_at, last_error) =
            (if phase = PH_CANCELED then (SC_CANCELED, None, None)
             else if phase \<in> {PH_COMPLETED, PH_FAILED} then (SC_TERMINAL, None, None)
             else if not_found then (SC_NOT_FOUND, None, None)
             else if confirmations \<ge> max_confirmation_attempts
             then (SC_EXHAUSTED, None, Some (or_default bounded_error
               (''scheduler cancellation was not confirmed terminal: '' @ SchedulerPhase_value phase)))
             else (SC_CANCEL_REQUESTED, Some (observed_at + timedelta_us retry_delay_seconds), bounded_error)) in
      current\<lparr>cd_state := state, cd_confirmation_attempts := confirmations, cd_next_attempt_at := next_attempt_at,
        cd_last_error := last_error, cd_confirmation_claim_id := None, cd_confirmation_claimed_at := None,
        cd_confirmation_claim_expires_at := None, cd_updated_at := observed_at\<rparr>)"

definition record_observation_of ::
  "SchedulerCancelPending \<Rightarrow> string \<Rightarrow> string \<Rightarrow> string \<Rightarrow> SchedulerPhase \<Rightarrow> bool \<Rightarrow> string option \<Rightarrow> int \<Rightarrow> rat \<Rightarrow> timestamp
     \<Rightarrow> SchedulerCancelPending option cancel_op" where
  "record_observation_of r scheduler_job_id provider claim_id phase not_found error max_confirmation_attempts retry_delay_seconds observed_at =
     mbind (find_disposition r scheduler_job_id) (\<lambda>i.
     let current = sp_dispositions r ! i in
     if cd_confirmation_claim_id current \<noteq> Some claim_id then mret None
     else mbind (same_provider current provider) (\<lambda>_.
       mbind (qlift (SchedulerCancelDisposition_validate (confirmed current phase not_found
         (map_option error_detail error) max_confirmation_attempts retry_delay_seconds observed_at))) (\<lambda>d.
       mbind (persist_scheduler_cancel_record (with_disposition r i d observed_at)) (\<lambda>saved. mret (Some saved)))))"

definition record_scheduler_cancel_observation ::
  "cancel_files queue_env \<Rightarrow> string \<Rightarrow> string \<Rightarrow> string \<Rightarrow> string \<Rightarrow> string \<Rightarrow> SchedulerPhase \<Rightarrow> bool \<Rightarrow> string option
     \<Rightarrow> int \<Rightarrow> rat \<Rightarrow> timestamp option \<Rightarrow> SchedulerCancelPending option cancel_op" where
  "record_scheduler_cancel_observation env job_id cluster scheduler_job_id provider claim_id phase not_found error
     max_confirmation_attempts retry_delay_seconds now =
     mbind (qlift (require_durable_record_id job_id ''job_id'')) (\<lambda>job_id.
     mbind (qlift (validate_durable_record_id (JStr claim_id))) (\<lambda>claim_id.
     mbind (observed env now) (\<lambda>observed_at.
     mbind (initialize_queue env) (\<lambda>_.
     mbind (open_cancellation job_id cluster) (\<lambda>found.
       case found of
         None \<Rightarrow> mret None
       | Some r \<Rightarrow> record_observation_of r scheduler_job_id provider claim_id phase not_found error max_confirmation_attempts retry_delay_seconds observed_at)))))"

end
