(* ===== verification/SchedulerCancelRuns.thy ===== *)
theory SchedulerCancelRuns
  imports SchedulerCancel
begin

text \<open>
  Invariants of the scheduler-cancellation families. One interface, \<open>cancel_invariant\<close>, says how an invariant
  meets the few writes the operations make; every operation is proved against it once.
\<close>

section \<open>A judgement over the two families\<close>

text \<open>
  \<open>creaches C P m Q\<close>: from files that satisfy \<open>P\<close>, the operation \<open>m\<close> returns with files in \<open>Q\<close>, or raises or
  stops with files in \<open>C\<close>.
\<close>

definition creaches ::
  "(cancel_files \<Rightarrow> bool) \<Rightarrow> (cancel_files \<Rightarrow> bool) \<Rightarrow> 'a cancel_op \<Rightarrow> ('a \<Rightarrow> cancel_files \<Rightarrow> bool) \<Rightarrow> bool" where
  "creaches C P m Q \<longleftrightarrow> (\<forall>s r s'. P (qs_other s) \<longrightarrow> m s = (r, s') \<longrightarrow>
     (case r of Inl _ \<Rightarrow> C (qs_other s') | Inr x \<Rightarrow> Q x (qs_other s')))"

lemma creaches_mbind:
  assumes "creaches C P m R" "\<And>x. creaches C (R x) (f x) Q"
  shows "creaches C P (mbind m f) Q"
  unfolding creaches_def
proof (intro allI impI)
  fix s r s' assume p: "P (qs_other s)" and run: "mbind m f s = (r, s')"
  obtain r1 s1 where m: "m s = (r1, s1)" by fastforce
  have 1: "case r1 of Inl _ \<Rightarrow> C (qs_other s1) | Inr x \<Rightarrow> R x (qs_other s1)" using assms(1) p m unfolding creaches_def by blast
  show "case r of Inl _ \<Rightarrow> C (qs_other s') | Inr x \<Rightarrow> Q x (qs_other s')"
  proof (cases r1)
    case (Inl e)
    with run m 1 show ?thesis by (auto simp: mbind_def)
  next
    case (Inr x)
    with run m have "f x s1 = (r, s')" by (simp add: mbind_def)
    with 1 Inr assms(2) [of x] show ?thesis unfolding creaches_def by fastforce
  qed
qed

lemma mbind_chain: "mbind (mbind m f) g = mbind m (\<lambda>x. mbind (f x) g)"
  by (rule ext) (simp add: mbind_def split: sum.splits prod.splits)

lemma creaches_pre: "creaches C P m Q \<Longrightarrow> (\<And>f. P' f \<Longrightarrow> P f) \<Longrightarrow> creaches C P' m Q"
  unfolding creaches_def by blast

lemma creaches_mret: "(\<And>f. P f \<Longrightarrow> Q x f) \<Longrightarrow> creaches C P (mret x) Q"
  by (simp add: creaches_def mret_def)

lemma creaches_raise: "(\<And>f. P f \<Longrightarrow> C f) \<Longrightarrow> creaches C P (mraise e) Q"
  by (simp add: creaches_def mraise_def)

lemma creaches_qlift: "(\<And>f. P f \<Longrightarrow> C f) \<Longrightarrow> (\<And>x f. r = Inr x \<Longrightarrow> P f \<Longrightarrow> Q x f) \<Longrightarrow> creaches C P (qlift r) Q"
  by (cases r) (auto simp: creaches_def qlift_def)

lemma creaches_check: "(\<And>f. P f \<Longrightarrow> C f) \<Longrightarrow> (\<And>f. ok \<Longrightarrow> P f \<Longrightarrow> Q () f) \<Longrightarrow> creaches C P (mcheck ok e) Q"
  by (cases ok) (auto simp: creaches_def mcheck_def check_def)

lemma creaches_mget: "(\<And>s. creaches C (\<lambda>f. f = qs_other s \<and> P f) (g s) Q) \<Longrightarrow> creaches C P (mbind mget g) Q"
  unfolding creaches_def mbind_def mget_def by auto

lemma creaches_quiet:
  assumes "\<And>s r s'. m s = (r, s') \<Longrightarrow> qs_other s' = qs_other s" "\<And>f. P f \<Longrightarrow> C f" "\<And>x s s' f. m s = (Inr x, s') \<Longrightarrow> P f \<Longrightarrow> Q x f"
  shows "creaches C P m Q"
  unfolding creaches_def using assms by (fastforce split: sum.splits)

lemma creaches_cond: "(c \<Longrightarrow> creaches C P m Q) \<Longrightarrow> creaches C (\<lambda>f. c \<and> P f) m Q"
  by (auto simp: creaches_def)

lemma creaches_if: "(c \<Longrightarrow> creaches C P m Q) \<Longrightarrow> (\<not> c \<Longrightarrow> creaches C P m' Q) \<Longrightarrow> creaches C P (if c then m else m') Q"
  by simp

lemma creaches_durable:
  "(\<And>f. P f \<Longrightarrow> C f) \<Longrightarrow> (\<And>f. P f \<Longrightarrow> Q () (g f)) \<Longrightarrow> creaches C P (durable (qs_other_update g)) Q"
  by (auto simp: creaches_def durable_def tick_def mbind_def mupd_def split: option.splits nat.splits)

lemma creaches_other:
  assumes "\<And>f. P f \<Longrightarrow> C f" "\<And>f x f'. P f \<Longrightarrow> m f = (Inr x, f') \<Longrightarrow> Q x f'" "\<And>f e f'. P f \<Longrightarrow> m f = (Inl e, f') \<Longrightarrow> C f'"
  shows "creaches C P (on_other m) Q"
  using assms
  by (auto simp: creaches_def on_other_def tick_def on_part_def mbind_def split: option.splits nat.splits prod.splits sum.splits)

lemma creaches_weaken: "creaches C P m Q \<Longrightarrow> (\<And>x f. Q x f \<Longrightarrow> Q' x f) \<Longrightarrow> creaches C P m Q'"
  unfolding creaches_def by (fastforce split: sum.splits)

lemma creaches_then: "creaches C P m (\<lambda>_. I) \<Longrightarrow> creaches C P (mbind m (\<lambda>x. mret (g x))) (\<lambda>_. I)"
  by (erule creaches_mbind) (rule creaches_mret)

text \<open>The clock, fresh identifiers and reads of the queue leave the two families alone.\<close>

lemma creaches_draws:
  "(\<And>f. P f \<Longrightarrow> C f) \<Longrightarrow> (\<And>t f. P f \<Longrightarrow> Q t f) \<Longrightarrow> creaches C P (utc_now env) Q"
  "(\<And>f. P f \<Longrightarrow> C f) \<Longrightarrow> (\<And>i f. durable_id i \<Longrightarrow> P f \<Longrightarrow> R i f) \<Longrightarrow> creaches C P (new_id env prefix) R"
proof -
  show "(\<And>f. P f \<Longrightarrow> C f) \<Longrightarrow> (\<And>t f. P f \<Longrightarrow> Q t f) \<Longrightarrow> creaches C P (utc_now env) Q"
    by (rule creaches_quiet) (auto simp: utc_now_def)
  show "creaches C P (new_id env prefix) R" if c: "\<And>f. P f \<Longrightarrow> C f" and r: "\<And>i f. durable_id i \<Longrightarrow> P f \<Longrightarrow> R i f"
    unfolding new_id_def
    by (rule creaches_mbind, rule creaches_quiet [where Q = "\<lambda>_. P"], simp add: uuid4_hex_def, erule c, simp,
        rule creaches_qlift, erule c, rule r) (auto simp: validate_durable_record_id_Inr)
qed

definition observes :: "cancel_files queue_env \<Rightarrow> timestamp option \<Rightarrow> timestamp \<Rightarrow> bool" where
  "observes env now t \<longleftrightarrow> (case now of Some u \<Rightarrow> t = u | None \<Rightarrow> \<exists>n. t = qe_clock env n)"

lemma creaches_observed:
  "(\<And>f. P f \<Longrightarrow> C f) \<Longrightarrow> creaches C P (observed env now) (\<lambda>t f. observes env now t \<and> P f)"
  unfolding observed_def
  by (cases now) (auto intro!: creaches_mret creaches_quiet simp: observes_def utc_now_def)

lemma creaches_initialize:
  assumes "\<forall>f. qe_initialize env f = (Inr (), f)" "\<And>f. P f \<Longrightarrow> C f"
  shows "creaches C P (initialize_queue env) (\<lambda>_. P)"
  unfolding initialize_queue_def using assms by (intro creaches_other) auto

lemma creaches_migrated: "(\<And>f. P f \<Longrightarrow> C f) \<Longrightarrow> creaches C P (require_index_migration_complete env) (\<lambda>_. P)"
  unfolding require_index_migration_complete_def
  by (rule creaches_mget, rule creaches_qlift) auto

lemma creaches_get_job: "(\<And>f. P f \<Longrightarrow> C f) \<Longrightarrow> creaches C P (get_job k) (\<lambda>_. P)"
  by (rule creaches_quiet)
     (auto simp: get_job_def read_optional_job_def mbind_def qlift_def mlift_def mget_def mcheck_def mraise_def mret_def check_def
       split: sum.splits option.splits if_splits prod.splits)

section \<open>The interface\<close>

definition cancel_key :: "string \<Rightarrow> string \<Rightarrow> string \<times> string" where
  "cancel_key job_id cluster = (stable_ref_token [cluster], job_id)"

definition valid_record :: "SchedulerCancelPending \<Rightarrow> bool" where
  "valid_record r \<longleftrightarrow> SchedulerCancelPending_validate r = Inr r"

definition stored :: "string \<Rightarrow> string \<Rightarrow> SchedulerCancelPending \<Rightarrow> cancel_files \<Rightarrow> bool" where
  "stored job_id cluster r f \<longleftrightarrow> map_of (cf_pending f) (cancel_key job_id cluster) = Some r \<and> valid_record r \<and> owned_record job_id cluster r"

lemma record_path_Inr: "scheduler_cancel_record_path cluster job_id = Inr key \<longleftrightarrow> durable_id job_id \<and> key = cancel_key job_id cluster"
  by (auto simp: scheduler_cancel_record_path_def cancel_key_def rbind_eq_Inr result_iff)

lemma validate_Inr: "SchedulerCancelPending_validate r = Inr x \<longleftrightarrow> x = r \<and> valid_record r"
  by (auto simp: valid_record_def SchedulerCancelPending_validate_def rbind_eq_Inr)

lemma read_cancel_Inr: "read_cancel entries key = Inr x \<longleftrightarrow> x = map_of entries key \<and> (\<forall>r. x = Some r \<longrightarrow> valid_record r)"
  by (auto simp: read_cancel_def rbind_eq_Inr validate_Inr split: option.splits)

lemma creaches_reads:
  assumes "\<And>f. P f \<Longrightarrow> C f"
  shows "creaches C P (read_pending key) (\<lambda>x f. P f \<and> x = map_of (cf_pending f) key \<and> (\<forall>r. x = Some r \<longrightarrow> valid_record r))"
    and "creaches C P (read_completed key) (\<lambda>x f. P f \<and> x = map_of (cf_completed f) key \<and> (\<forall>r. x = Some r \<longrightarrow> valid_record r))"
  unfolding read_pending_def read_completed_def
  by (rule creaches_mget, rule creaches_qlift, use assms in \<open>auto simp: read_cancel_Inr\<close>)+

text \<open>
  The writes of the operations: a record replaces a stored one, is completed, or is removed once its
  completed copy exists; a new record takes a free place. \<open>allowed\<close> relates a record to its replacements.
\<close>

locale cancel_invariant =
  fixes I :: "cancel_files \<Rightarrow> bool" and allowed :: "SchedulerCancelPending \<Rightarrow> SchedulerCancelPending \<Rightarrow> bool"
  assumes unlinked: "I f \<Longrightarrow> map_of (cf_completed f) key = Some c \<Longrightarrow> I (cf_pending_update (AList.delete key) f)"
    and replaced: "I f \<Longrightarrow> stored k cl r f \<Longrightarrow> allowed r r' \<Longrightarrow> owned_record k cl r' \<Longrightarrow> \<not> SchedulerCancelPending_complete r'
      \<Longrightarrow> I (cf_pending_update (AList.update (cancel_key k cl) r') f)"
    and completed: "I f \<Longrightarrow> stored k cl r f \<Longrightarrow> allowed r r' \<Longrightarrow> owned_record k cl r' \<Longrightarrow> SchedulerCancelPending_complete r'
      \<Longrightarrow> I (cf_completed_update (AList.update (cancel_key k cl) r') f)"
    and created: "I f \<Longrightarrow> map_of (cf_pending f) (cancel_key k cl) = None \<Longrightarrow> map_of (cf_completed f) (cancel_key k cl) = None
      \<Longrightarrow> valid_record r \<Longrightarrow> owned_record k cl r \<Longrightarrow> sp_dispositions r = [] \<Longrightarrow> sp_identity_resolution r = IdentityPending
      \<Longrightarrow> I (cf_pending_update (AList.update (cancel_key k cl) r) f)"
begin

abbreviation holding :: "string \<Rightarrow> string \<Rightarrow> SchedulerCancelPending \<Rightarrow> cancel_files \<Rightarrow> bool" where
  "holding k cl r f \<equiv> I f \<and> stored k cl r f"

lemma unlink: "creaches I (\<lambda>f. I f \<and> map_of (cf_completed f) key \<noteq> None) (unlink_pending key) (\<lambda>_. I)"
  unfolding unlink_pending_def by (rule creaches_durable) (use unlinked [where key = key] in blast)+

lemma persist:
  assumes "allowed r r'" "owned_record k cl r'"
  shows "creaches I (holding k cl r) (persist_scheduler_cancel_record r') (\<lambda>_. I)"
proof (cases "SchedulerCancelPending_complete r'")
  case False
  show ?thesis
    unfolding persist_scheduler_cancel_record_def if_P [OF False]
    by (rule creaches_mbind, rule creaches_qlift [where Q = "\<lambda>key f. key = cancel_key k cl \<and> holding k cl r f"], simp,
        use assms(2) in \<open>simp add: record_path_Inr owned_record_def\<close>, rule creaches_cond, rule creaches_mbind, unfold write_pending_def,
        rule creaches_durable [where Q = "\<lambda>_. I"], simp, use replaced [OF _ _ assms False] in blast, rule creaches_mret)
next
  case True
  then have no: "\<not> \<not> SchedulerCancelPending_complete r'" by simp
  let ?done = "\<lambda>f. I f \<and> map_of (cf_completed f) (cancel_key k cl) \<noteq> None"
  have w: "creaches I (holding k cl r) (write_completed (cancel_key k cl) r') (\<lambda>_. ?done)"
    unfolding write_completed_def
    by (rule creaches_durable) (use completed [OF _ _ assms True] in \<open>auto simp: update_conv\<close>)
  show ?thesis
    unfolding persist_scheduler_cancel_record_def if_not_P [OF no]
    by (rule creaches_mbind, rule creaches_qlift [where Q = "\<lambda>key f. key = cancel_key k cl \<and> holding k cl r f"], simp,
        use assms(2) in \<open>simp add: record_path_Inr owned_record_def\<close>, rule creaches_cond, hypsubst,
        rule creaches_mbind [OF w], rule creaches_mbind [OF unlink], rule creaches_mret)
qed

lemma required: "creaches I (\<lambda>f. I f \<and> X f) (require_scheduler_cancel_pending k cl) (\<lambda>r f. holding k cl r f \<and> X f)"
proof -
  have body: "creaches I (\<lambda>f. (I f \<and> X f) \<and> x = map_of (cf_pending f) (cancel_key k cl) \<and> (\<forall>r. x = Some r \<longrightarrow> valid_record r))
      (case x of None \<Rightarrow> qraise (not_pending k)
       | Some r \<Rightarrow> mbind (qcheck (owned_record k cl r) (identity_mismatch (cancel_key k cl))) (\<lambda>_. mret r)) (\<lambda>r f. holding k cl r f \<and> X f)" for x
  proof (cases x)
    case (Some r)
    show ?thesis unfolding Some option.case
      by (rule creaches_mbind, rule creaches_check [where Q = "\<lambda>_ f. holding k cl r f \<and> X f"], simp, simp add: stored_def, rule creaches_mret)
  qed (simp, rule creaches_raise, simp)
  show ?thesis
    unfolding require_scheduler_cancel_pending_def
    by (rule creaches_mbind, rule creaches_qlift [where Q = "\<lambda>key f. key = cancel_key k cl \<and> I f \<and> X f"], simp, simp add: record_path_Inr,
        rule creaches_cond, hypsubst, rule creaches_mbind, rule creaches_reads(1), simp, rule body)
qed

lemma opened: "creaches I I (open_cancellation k cl) (\<lambda>found f. case found of None \<Rightarrow> I f | Some r \<Rightarrow> holding k cl r f)"
proof -
  have left: "creaches I (\<lambda>f. I f \<and> x = map_of (cf_pending f) (cancel_key k cl) \<and> (\<forall>r. x = Some r \<longrightarrow> valid_record r))
      (case x of None \<Rightarrow> qraise (not_pending k)
       | Some r \<Rightarrow> mbind (qcheck (owned_record k cl r) (identity_mismatch (cancel_key k cl))) (\<lambda>_. mret (Some r)))
      (\<lambda>found f. case found of None \<Rightarrow> I f | Some r \<Rightarrow> holding k cl r f)" for x
  proof (cases x)
    case (Some r)
    show ?thesis unfolding Some option.case
      by (rule creaches_mbind, rule creaches_check [where Q = "\<lambda>_ f. holding k cl r f"], simp, simp add: stored_def, rule creaches_mret, simp)
  qed (simp, rule creaches_raise, simp)
  have body: "creaches I (\<lambda>f. I f \<and> x = map_of (cf_completed f) (cancel_key k cl) \<and> (\<forall>r. x = Some r \<longrightarrow> valid_record r))
      (case x of
         Some c \<Rightarrow> mbind (qcheck (owned_record k cl c \<and> SchedulerCancelPending_complete c) (disposition_mismatch (cancel_key k cl))) (\<lambda>_.
           mbind (unlink_pending (cancel_key k cl)) (\<lambda>_. mret None))
       | None \<Rightarrow> mbind (read_pending (cancel_key k cl)) (\<lambda>found. case found of
               None \<Rightarrow> qraise (not_pending k)
             | Some r \<Rightarrow> mbind (qcheck (owned_record k cl r) (identity_mismatch (cancel_key k cl))) (\<lambda>_. mret (Some r))))
      (\<lambda>found f. case found of None \<Rightarrow> I f | Some r \<Rightarrow> holding k cl r f)" for x
  proof (cases x)
    case None
    show ?thesis unfolding None option.case
      by (rule creaches_mbind, rule creaches_pre [OF creaches_reads(1) [where P = I]], simp, simp, rule left)
  next
    case (Some c)
    show ?thesis unfolding Some option.case
      by (rule creaches_mbind, rule creaches_check [where Q = "\<lambda>_ f. I f \<and> map_of (cf_completed f) (cancel_key k cl) \<noteq> None"], simp, metis option.distinct(1),
          rule creaches_mbind [OF unlink], rule creaches_mret, simp)
  qed
  show ?thesis
    unfolding open_cancellation_def
    by (rule creaches_mbind, rule creaches_qlift [where Q = "\<lambda>key f. key = cancel_key k cl \<and> I f"], simp, simp add: record_path_Inr,
        rule creaches_cond, hypsubst, rule creaches_mbind, rule creaches_reads(2), simp, rule body)
qed

text \<open>The operations that claim and record; each replacement they make must be allowed.\<close>

lemma find: "creaches I (holding k cl r) (find_disposition r sid) (\<lambda>i f. position_of sid (sp_dispositions r) = Some i \<and> holding k cl r f)"
  unfolding find_disposition_def
  by (cases "position_of sid (sp_dispositions r)") (simp_all, rule creaches_raise, simp, rule creaches_mret, simp)

lemma provider:
  "creaches I (holding k cl r) (same_provider d provider) (\<lambda>_ f. cd_provider d \<in> {None, Some provider} \<and> holding k cl r f)"
  unfolding same_provider_def
  by (cases "cd_provider d") (simp_all, rule creaches_mret, simp, rule creaches_check, simp_all)

lemma saved:
  assumes "allowed r (with_disposition r i d t)"
  shows "creaches I (holding k cl r) (mbind (persist_scheduler_cancel_record (with_disposition r i d t)) (\<lambda>x. mret (g x))) (\<lambda>_. I)"
proof -
  have "creaches I (\<lambda>f. owned_record k cl r \<and> holding k cl r f) (persist_scheduler_cancel_record (with_disposition r i d t)) (\<lambda>_. I)"
    by (rule creaches_cond, rule persist [OF assms]) (simp add: owned_record_def with_disposition_def)
  then have "creaches I (holding k cl r) (persist_scheduler_cancel_record (with_disposition r i d t)) (\<lambda>_. I)"
    by (rule creaches_pre) (simp add: stored_def)
  then show ?thesis by (rule creaches_then)
qed

lemma skip: "creaches I (holding k cl r) (mret x) (\<lambda>_. I)"
  by (rule creaches_mret) simp

lemma granted:
  assumes "\<And>claim_id. durable_id claim_id \<Longrightarrow> allowed r (with_disposition r i (d claim_id) t)"
  shows "creaches I (holding k cl r) (mbind (same_provider current provider) (\<lambda>_. mbind (new_id env prefix) (\<lambda>claim_id.
    mbind (persist_scheduler_cancel_record (with_disposition r i (d claim_id) t)) (\<lambda>_. mret (g claim_id))))) (\<lambda>_. I)"
  by (rule creaches_mbind, rule provider, rule creaches_cond, rule creaches_mbind,
      rule creaches_draws(2) [where R = "\<lambda>claim_id f. durable_id claim_id \<and> holding k cl r f"], simp, simp, rule creaches_cond,
      rule saved, rule assms)

lemma reported:
  assumes "\<And>d. SchedulerCancelDisposition_validate d' = Inr d \<Longrightarrow> allowed r (with_disposition r i d t)"
  shows "creaches I (holding k cl r) (mbind (same_provider current provider) (\<lambda>_. mbind (qlift (SchedulerCancelDisposition_validate d')) (\<lambda>d.
    mbind (persist_scheduler_cancel_record (with_disposition r i d t)) (\<lambda>x. mret (g x))))) (\<lambda>_. I)"
  by (rule creaches_mbind, rule provider, rule creaches_cond, rule creaches_mbind,
      rule creaches_qlift [where Q = "\<lambda>d f. SchedulerCancelDisposition_validate d' = Inr d \<and> holding k cl r f"], simp, simp,
      rule creaches_cond, rule saved, rule assms)

text \<open>Where every one of the four stands once it has opened the cancellation.\<close>

lemma entered:
  assumes init: "\<forall>f. qe_initialize env f = (Inr (), f)"
    and body: "\<And>r t. valid_record r \<Longrightarrow> owned_record k cl r \<Longrightarrow> observes env now t \<Longrightarrow> creaches I (holding k cl r) (m r t) (\<lambda>_. I)"
  shows "creaches I I (mbind (observed env now) (\<lambda>t. mbind (initialize_queue env) (\<lambda>_. mbind (open_cancellation k cl) (\<lambda>found.
    case found of None \<Rightarrow> mret None | Some r \<Rightarrow> m r t)))) (\<lambda>_. I)"
proof -
  have "creaches I (\<lambda>f. case found of None \<Rightarrow> I f | Some r \<Rightarrow> holding k cl r f)
      (case found of None \<Rightarrow> mret None | Some r \<Rightarrow> m r t) (\<lambda>_. I)" if "observes env now t" for found t
  proof (cases found)
    case (Some r)
    have "creaches I (\<lambda>f. (valid_record r \<and> owned_record k cl r) \<and> holding k cl r f) (m r t) (\<lambda>_. I)"
      by (rule creaches_cond) (rule body, use that in auto)
    then show ?thesis unfolding Some option.case by (rule creaches_pre) (simp add: stored_def)
  qed (simp, rule creaches_mret, simp)
  then show ?thesis
    by (intro creaches_mbind [OF creaches_observed] creaches_cond creaches_mbind [OF creaches_initialize [OF init]] creaches_mbind [OF opened])
qed

lemma named: "(\<And>f. P f \<Longrightarrow> C f) \<Longrightarrow> creaches C P (m k) Q \<Longrightarrow> creaches C P (mbind (qlift (require_durable_record_id k fld)) m) Q"
  by (rule creaches_mbind, rule creaches_qlift [where Q = "\<lambda>x f. x = k \<and> P f"], simp, simp add: result_iff, rule creaches_cond, simp)

lemma claim_attempt:
  assumes init: "\<forall>f. qe_initialize env f = (Inr (), f)"
    and grant: "\<And>r i t claim_id. valid_record r \<Longrightarrow> owned_record k cl r \<Longrightarrow> position_of sid (sp_dispositions r) = Some i
      \<Longrightarrow> cd_state (sp_dispositions r ! i) \<in> {SC_PENDING, SC_RETRY_WAIT}
      \<Longrightarrow> \<not> claim_live (cd_attempt_claim_id (sp_dispositions r ! i)) (cd_attempt_claim_expires_at (sp_dispositions r ! i)) t
      \<Longrightarrow> provider \<noteq> [] \<Longrightarrow> lease_in_bounds lease \<Longrightarrow> observes env now t \<Longrightarrow> durable_id claim_id
      \<Longrightarrow> allowed r (with_disposition r i (attempt_claimed (sp_dispositions r ! i) provider claim_id t (t + timedelta_us lease)) t)"
  shows "creaches I I (claim_scheduler_cancel_attempt env k cl sid provider lease now) (\<lambda>_. I)"
proof -
  have "creaches I (holding k cl r) (claim_attempt_of env r sid provider lease t) (\<lambda>_. I)"
    if p: "provider \<noteq> []" "lease_in_bounds lease" and r: "valid_record r" "owned_record k cl r" and t: "observes env now t" for r t
    unfolding claim_attempt_of_def Let_def
    by (intro creaches_if skip creaches_mbind [OF find] creaches_cond granted grant [OF r _ _ _ p t]) simp_all
  then show ?thesis
    unfolding claim_scheduler_cancel_attempt_def
    by (intro named creaches_mbind [OF creaches_check [where Q = "\<lambda>_ f. provider \<noteq> [] \<and> I f"]]
        creaches_mbind [OF creaches_check [where Q = "\<lambda>_ f. lease_in_bounds lease \<and> I f"]] creaches_cond entered [OF init]) simp_all
qed

lemma claim_confirmation:
  assumes init: "\<forall>f. qe_initialize env f = (Inr (), f)"
    and grant: "\<And>r i t claim_id. valid_record r \<Longrightarrow> owned_record k cl r \<Longrightarrow> position_of sid (sp_dispositions r) = Some i
      \<Longrightarrow> cd_state (sp_dispositions r ! i) = SC_CANCEL_REQUESTED
      \<Longrightarrow> \<not> claim_live (cd_confirmation_claim_id (sp_dispositions r ! i)) (cd_confirmation_claim_expires_at (sp_dispositions r ! i)) t
      \<Longrightarrow> provider \<noteq> [] \<Longrightarrow> lease_in_bounds lease \<Longrightarrow> observes env now t \<Longrightarrow> durable_id claim_id
      \<Longrightarrow> allowed r (with_disposition r i (confirmation_claimed (sp_dispositions r ! i) provider claim_id t (t + timedelta_us lease)) t)"
  shows "creaches I I (claim_scheduler_cancel_confirmation env k cl sid provider lease now) (\<lambda>_. I)"
proof -
  have "creaches I (holding k cl r) (claim_confirmation_of env r sid provider lease t) (\<lambda>_. I)"
    if p: "provider \<noteq> []" "lease_in_bounds lease" and r: "valid_record r" "owned_record k cl r" and t: "observes env now t" for r t
    unfolding claim_confirmation_of_def Let_def
    by (intro creaches_if skip creaches_mbind [OF find] creaches_cond granted grant [OF r _ _ _ p t]) simp_all
  then show ?thesis
    unfolding claim_scheduler_cancel_confirmation_def
    by (intro named creaches_mbind [OF creaches_check [where Q = "\<lambda>_ f. provider \<noteq> [] \<and> I f"]]
        creaches_mbind [OF creaches_check [where Q = "\<lambda>_ f. lease_in_bounds lease \<and> I f"]] creaches_cond entered [OF init]) simp_all
qed

lemma record_attempt:
  assumes init: "\<forall>f. qe_initialize env f = (Inr (), f)"
    and report: "\<And>r i t d. valid_record r \<Longrightarrow> owned_record k cl r \<Longrightarrow> position_of sid (sp_dispositions r) = Some i
      \<Longrightarrow> cd_attempt_claim_id (sp_dispositions r ! i) = Some claim_id \<Longrightarrow> SchedulerCancelDisposition_validate (attempted (sp_dispositions r ! i)
        provider accepted (map_option error_detail error) max_attempts delay t) = Inr d \<Longrightarrow> allowed r (with_disposition r i d t)"
  shows "creaches I I (record_scheduler_cancel_attempt env k cl sid provider claim_id accepted error max_attempts delay now) (\<lambda>_. I)"
proof -
  have "creaches I (holding k cl r) (record_attempt_of r sid provider claim_id accepted error max_attempts delay t) (\<lambda>_. I)"
    if r: "valid_record r" "owned_record k cl r" for r t
    unfolding record_attempt_of_def Let_def
    by (intro creaches_mbind [OF find] creaches_cond creaches_if skip reported report [OF r]) simp_all
  then show ?thesis
    unfolding record_scheduler_cancel_attempt_def
    by (intro named creaches_mbind [OF creaches_qlift [where Q = "\<lambda>x f. x = claim_id \<and> I f"]] creaches_cond)
       (simp_all add: result_iff entered [OF init])
qed

lemma record_observation:
  assumes init: "\<forall>f. qe_initialize env f = (Inr (), f)"
    and report: "\<And>r i t d. valid_record r \<Longrightarrow> owned_record k cl r \<Longrightarrow> position_of sid (sp_dispositions r) = Some i
      \<Longrightarrow> cd_confirmation_claim_id (sp_dispositions r ! i) = Some claim_id \<Longrightarrow> SchedulerCancelDisposition_validate (confirmed (sp_dispositions r ! i)
        phase not_found (map_option error_detail error) max_attempts delay t) = Inr d \<Longrightarrow> allowed r (with_disposition r i d t)"
  shows "creaches I I (record_scheduler_cancel_observation env k cl sid provider claim_id phase not_found error max_attempts delay now) (\<lambda>_. I)"
proof -
  have "creaches I (holding k cl r) (record_observation_of r sid provider claim_id phase not_found error max_attempts delay t) (\<lambda>_. I)"
    if r: "valid_record r" "owned_record k cl r" for r t
    unfolding record_observation_of_def Let_def
    by (intro creaches_mbind [OF find] creaches_cond creaches_if skip reported report [OF r]) simp_all
  then show ?thesis
    unfolding record_scheduler_cancel_observation_def
    by (intro named creaches_mbind [OF creaches_qlift [where Q = "\<lambda>x f. x = claim_id \<and> I f"]] creaches_cond)
       (simp_all add: result_iff entered [OF init])
qed

text \<open>The operations on the pending record alone.\<close>

lemma required_then:
  assumes init: "\<forall>f. qe_initialize env f = (Inr (), f)"
    and body: "\<And>r. valid_record r \<Longrightarrow> owned_record k cl r \<Longrightarrow> creaches I (\<lambda>f. holding k cl r f \<and> X f) (m r) (\<lambda>_. I)"
  shows "creaches I (\<lambda>f. I f \<and> X f) (mbind (initialize_queue env) (\<lambda>_. mbind (require_scheduler_cancel_pending k cl) m)) (\<lambda>_. I)"
proof -
  have "creaches I (\<lambda>f. (valid_record r \<and> owned_record k cl r) \<and> holding k cl r f \<and> X f) (m r) (\<lambda>_. I)" for r
    by (rule creaches_cond) (rule body, auto)
  then have "creaches I (\<lambda>f. holding k cl r f \<and> X f) (m r) (\<lambda>_. I)" for r by (rule creaches_pre) (simp add: stored_def)
  then show ?thesis by (intro creaches_mbind [OF creaches_initialize [OF init]] creaches_mbind [OF required]) simp_all
qed

lemmas required_only = required_then [where X = "\<lambda>_. True", simplified]

lemma timed:
  assumes "\<And>t. allowed r (g t)" "\<And>t. owned_record k cl (g t)"
  shows "creaches I (holding k cl r) (mbind (utc_now env) (\<lambda>t. persist_scheduler_cancel_record (g t))) (\<lambda>_. I)"
  by (rule creaches_mbind, rule creaches_draws(1) [where Q = "\<lambda>_. holding k cl r"], simp_all add: persist assms)

lemma save_registration:
  assumes "\<And>t. allowed r (r\<lparr>sp_dispositions := ds, sp_updated_at := t\<rparr>)" "owned_record k cl r"
  shows "creaches I (holding k cl r) (save_registration env r ds created) (\<lambda>_. I)"
proof -
  have "creaches I (holding k cl r) (mbind (utc_now env) (\<lambda>t. persist_scheduler_cancel_record (r\<lparr>sp_dispositions := ds, sp_updated_at := t\<rparr>))) (\<lambda>_. I)"
    by (rule timed) (use assms in \<open>simp_all add: owned_record_def\<close>)
  then have "creaches I (holding k cl r) (mbind (mbind (utc_now env) (\<lambda>t. persist_scheduler_cancel_record (r\<lparr>sp_dispositions := ds, sp_updated_at := t\<rparr>)))
      (\<lambda>persisted. mret \<lparr>ir_record = persisted, ir_disposition_created = created\<rparr>)) (\<lambda>_. I)" by (rule creaches_then)
  then show ?thesis by (simp add: save_registration_def mbind_chain)
qed

text \<open>A registration may rely on a bound on the record it extends.\<close>

lemma registers:
  assumes init: "\<forall>f. qe_initialize env f = (Inr (), f)"
    and new: "\<And>r d t u. valid_record r \<Longrightarrow> owned_record k cl r \<Longrightarrow> room r \<Longrightarrow> position_of sid (sp_dispositions r) = None
      \<Longrightarrow> SchedulerCancelDisposition_validate (new_disposition sid provider verified u) = Inr d
      \<Longrightarrow> allowed r (r\<lparr>sp_dispositions := sp_dispositions r @ [d], sp_updated_at := t\<rparr>)"
    and again: "\<And>r i d t u v. valid_record r \<Longrightarrow> owned_record k cl r \<Longrightarrow> room r \<Longrightarrow> position_of sid (sp_dispositions r) = Some i
      \<Longrightarrow> cd_state (sp_dispositions r ! i) = SC_REFUSED \<Longrightarrow> SchedulerCancelDisposition_validate (new_disposition sid provider verified u) = Inr d
      \<Longrightarrow> verified \<Longrightarrow> allowed r (r\<lparr>sp_dispositions := (sp_dispositions r)[i := d\<lparr>cd_attempts := cd_attempts (sp_dispositions r ! i),
        cd_confirmation_attempts := cd_confirmation_attempts (sp_dispositions r ! i), cd_updated_at := v\<rparr>], sp_updated_at := t\<rparr>)"
  shows "creaches I (\<lambda>f. I f \<and> (\<forall>r. stored k cl r f \<longrightarrow> room r)) (register_scheduler_cancel_identity_once env k cl sid provider verified) (\<lambda>_. I)"
proof -
  have body: "creaches I (holding k cl r) (case position_of sid (sp_dispositions r) of
       None \<Rightarrow> save_registration env r (sp_dispositions r @ [d]) True
     | Some i \<Rightarrow>
         let existing = sp_dispositions r ! i in
         if cd_state existing \<noteq> SC_REFUSED \<or> \<not> verified
         then mret \<lparr>ir_record = r, ir_disposition_created = False\<rparr>
         else mbind (utc_now env) (\<lambda>verified_at.
           save_registration env r ((sp_dispositions r)[i := d\<lparr>cd_attempts := cd_attempts existing,
             cd_confirmation_attempts := cd_confirmation_attempts existing, cd_updated_at := verified_at\<rparr>]) False)) (\<lambda>_. I)"
    if r: "valid_record r" "owned_record k cl r" "room r"
      and d: "SchedulerCancelDisposition_validate (new_disposition sid provider verified u) = Inr d" for r d u
  proof (cases "position_of sid (sp_dispositions r)")
    case None
    then show ?thesis using new [OF r None d] r(2) by (simp add: save_registration)
  next
    case (Some i)
    show ?thesis
      unfolding Some option.case Let_def
      by (intro creaches_if skip creaches_mbind [OF creaches_draws(1) [where Q = "\<lambda>_. holding k cl r"]] save_registration
          again [OF r Some _ d] r(2)) simp_all
  qed
  have drawn: "creaches I (holding k cl r) (mbind (utc_now env) (\<lambda>created_at.
      mbind (qlift (SchedulerCancelDisposition_validate (new_disposition sid provider verified created_at))) (\<lambda>candidate.
        case position_of sid (sp_dispositions r) of
          None \<Rightarrow> save_registration env r (sp_dispositions r @ [candidate]) True
        | Some i \<Rightarrow> let existing = sp_dispositions r ! i in
            if cd_state existing \<noteq> SC_REFUSED \<or> \<not> verified
            then mret \<lparr>ir_record = r, ir_disposition_created = False\<rparr>
            else mbind (utc_now env) (\<lambda>verified_at.
              save_registration env r ((sp_dispositions r)[i := candidate\<lparr>cd_attempts := cd_attempts existing,
                cd_confirmation_attempts := cd_confirmation_attempts existing, cd_updated_at := verified_at\<rparr>]) False)))) (\<lambda>_. I)"
    if r: "valid_record r" "owned_record k cl r" "room r" for r
  proof (rule creaches_mbind, rule creaches_draws(1) [where Q = "\<lambda>_. holding k cl r"], simp, assumption, rule creaches_mbind)
    fix u
    show "creaches I (holding k cl r) (qlift (SchedulerCancelDisposition_validate (new_disposition sid provider verified u)))
        (\<lambda>d f. SchedulerCancelDisposition_validate (new_disposition sid provider verified u) = Inr d \<and> holding k cl r f)"
      by (rule creaches_qlift) simp_all
  qed (rule creaches_cond, rule body [OF r])
  have "creaches I (\<lambda>f. room r \<and> holding k cl r f \<and> (\<forall>r. stored k cl r f \<longrightarrow> room r)) (mbind (utc_now env) (m r)) (\<lambda>_. I)"
    if "room r \<Longrightarrow> creaches I (holding k cl r) (mbind (utc_now env) (m r)) (\<lambda>_. I)" for r and m :: "SchedulerCancelPending \<Rightarrow> timestamp \<Rightarrow> SchedulerCancelIdentityRegistration cancel_op"
    by (rule creaches_cond) (rule creaches_pre [OF that], simp_all)
  then have roomy: "creaches I (\<lambda>f. holding k cl r f \<and> (\<forall>r. stored k cl r f \<longrightarrow> room r)) (mbind (utc_now env) (m r)) (\<lambda>_. I)"
    if "room r \<Longrightarrow> creaches I (holding k cl r) (mbind (utc_now env) (m r)) (\<lambda>_. I)" for r and m :: "SchedulerCancelPending \<Rightarrow> timestamp \<Rightarrow> SchedulerCancelIdentityRegistration cancel_op"
    using that by (blast intro: creaches_pre)
  show ?thesis
    unfolding register_scheduler_cancel_identity_once_def
    by (rule named, simp, rule required_then [OF init], rule roomy, rule drawn)
qed

lemma finalizes:
  assumes init: "\<forall>f. qe_initialize env f = (Inr (), f)"
    and final: "\<And>r t. valid_record r \<Longrightarrow> owned_record k cl r \<Longrightarrow> sp_dispositions r \<noteq> []
      \<Longrightarrow> allowed r (r\<lparr>sp_identity_resolution := IdentityResolved, sp_updated_at := t\<rparr>)"
  shows "creaches I I (finalize_scheduler_cancel_identities env k cl) (\<lambda>_. I)"
  unfolding finalize_scheduler_cancel_identities_def
proof (rule named, assumption, rule required_only [OF init], rule creaches_mbind)
  fix r assume r: "valid_record r" "owned_record k cl r"
  show "creaches I (\<lambda>f. sp_dispositions r \<noteq> [] \<and> holding k cl r f)
      (mbind (utc_now env) (\<lambda>now. persist_scheduler_cancel_record (r\<lparr>sp_identity_resolution := IdentityResolved, sp_updated_at := now\<rparr>))) (\<lambda>_. I)"
    by (rule creaches_cond, rule timed, rule final [OF r]) (use r(2) in \<open>simp_all add: owned_record_def\<close>)
qed (rule creaches_check, simp_all)

lemma closes:
  assumes init: "\<forall>f. qe_initialize env f = (Inr (), f)"
    and close: "\<And>r t. valid_record r \<Longrightarrow> owned_record k cl r \<Longrightarrow> sp_dispositions r = [] \<or> superseded
      \<Longrightarrow> allowed r (r\<lparr>sp_identity_resolution := (if superseded then IdentitySuperseded else IdentityNone),
        sp_dispositions := (if superseded then map without_claims (sp_dispositions r) else sp_dispositions r), sp_updated_at := t\<rparr>)"
  shows "creaches I I (complete_scheduler_cancel_identity_scan env k cl superseded) (\<lambda>_. I)"
  unfolding complete_scheduler_cancel_identity_scan_def Let_def
  by (rule named, assumption, rule required_only [OF init], rule creaches_if, rule skip, rule timed, rule close, assumption, assumption, blast)
     (auto simp: owned_record_def)

text \<open>Listing due work only removes what is complete; a request for cancellation takes a free place.\<close>

lemma drops: "creaches I I (drop_completed rs) (\<lambda>_. I)"
proof (induction rs)
  case (Cons r rs)
  have body: "creaches I (\<lambda>f. I f \<and> x = map_of (cf_completed f) key \<and> (\<forall>c. x = Some c \<longrightarrow> valid_record c)) (case x of
       Some c \<Rightarrow> mbind (qcheck (SchedulerCancelPending_complete c) e) (\<lambda>_. mbind (unlink_pending key) (\<lambda>_. drop_completed rs))
     | None \<Rightarrow> mbind (drop_completed rs) (\<lambda>rest. mret (r # rest))) (\<lambda>_. I)" for x key e
  proof (cases x)
    case None
    show ?thesis unfolding None option.case
      by (rule creaches_mbind, rule creaches_pre [OF Cons.IH], simp, rule creaches_mret)
  next
    case (Some c)
    show ?thesis unfolding Some option.case
      by (rule creaches_mbind, rule creaches_check [where Q = "\<lambda>_ f. I f \<and> map_of (cf_completed f) key \<noteq> None"], simp, metis option.distinct(1),
          rule creaches_mbind [OF unlink Cons.IH])
  qed
  show ?case unfolding drop_completed.simps
    by (rule creaches_mbind, rule creaches_qlift [where Q = "\<lambda>_. I"], assumption, assumption,
        rule creaches_mbind, rule creaches_reads(2), assumption, rule body)
qed (simp only: drop_completed.simps, rule creaches_mret)

lemma scans:
  assumes init: "\<forall>f. qe_initialize env f = (Inr (), f)"
  shows "creaches I I (scan_due_scheduler_cancellations env cluster limit now) (\<lambda>_. I)"
  unfolding scan_due_scheduler_cancellations_def Let_def
proof (intro creaches_mbind [OF creaches_check [where Q = "\<lambda>_. I"]] creaches_mbind [OF creaches_initialize [OF init]]
    creaches_mbind [OF creaches_migrated] creaches_mget creaches_mbind [OF creaches_qlift [where Q = "\<lambda>_. I"]] creaches_mbind [OF drops] creaches_mret)
  show "creaches I I (mbind (case now of Some t \<Rightarrow> mret t | None \<Rightarrow> utc_now env) (\<lambda>t. mret (g t))) (\<lambda>_. I)" for g :: "timestamp \<Rightarrow> SchedulerCancelPending list \<times> bool"
    by (rule creaches_mbind [OF creaches_observed [unfolded observed_def]]) (assumption, rule creaches_mret, simp)
qed simp_all

lemma ensures:
  assumes init: "\<forall>f. qe_initialize env f = (Inr (), f)"
  shows "creaches I I (ensure_scheduler_cancel_pending env k reason) (\<lambda>_. I)"
proof -
  have "creaches I I (on_other (ensure_pending_files u job t reason)) (\<lambda>_. I)" for u job t
  proof (rule creaches_other)
    fix f x f' assume f: "I f" and run: "ensure_pending_files u job t reason f = (Inr x, f')"
    show "I f'" using run f
      by (auto simp: ensure_pending_files_def mbind_def mlift_def mget_def mcheck_def check_def mret_def mupd_def Let_def
          record_path_Inr read_cancel_Inr validate_Inr owned_record_def intro!: created split: sum.splits option.splits if_splits)
  next
    fix f e f' assume "I f" "ensure_pending_files u job t reason f = (Inl e, f')"
    then show "I f'"
      by (auto simp: ensure_pending_files_def mbind_def mlift_def mget_def mcheck_def check_def mret_def mupd_def Let_def
          split: sum.splits option.splits if_splits)
  qed
  then show ?thesis
    unfolding ensure_scheduler_cancel_pending_def
    by (intro named creaches_mbind [OF creaches_initialize [OF init]] creaches_mbind [OF creaches_migrated] creaches_mbind [OF creaches_get_job]
        creaches_mbind [OF creaches_draws(1) [where Q = "\<lambda>_. I"]])
qed

end

end
