(* ===== verification/SchedulerCancelSafety.thy ===== *)
theory SchedulerCancelSafety
  imports SchedulerCancelRuns QueueEvents
begin

text \<open>
  What the scheduler-cancellation families promise to the workers that share them: whoever holds the
  claim on an attempt is alone with it until it expires, and the records on disk stay readable. Both are
  interpretations of \<open>cancel_invariant\<close>; the second shows where the code lets a record grow past what it can read.
\<close>

section \<open>Requests\<close>

text \<open>
  A request is one call of an operation by some process, which may stop before any of its durable writes:
  the number beside it is how many it makes, none meaning that it runs to its end.
\<close>

datatype cancel_request =
    EnsureCancel string string
  | ScanCancel string int "timestamp option"
  | RegisterCancel string string string "string option" bool
  | FinalizeCancel string string
  | CloseCancel string string bool
  | ClaimAttempt string string string string rat "timestamp option"
  | RecordAttempt string string string string string bool "string option" int rat "timestamp option"
  | ClaimConfirmation string string string string rat "timestamp option"
  | RecordObservation string string string string string SchedulerPhase bool "string option" int rat "timestamp option"

fun serve_cancel :: "cancel_files queue_env \<Rightarrow> cancel_request \<Rightarrow> unit cancel_op" where
  "serve_cancel env (EnsureCancel k reason) = mbind (ensure_scheduler_cancel_pending env k reason) (\<lambda>_. mret ())"
| "serve_cancel env (ScanCancel cl limit now) = mbind (scan_due_scheduler_cancellations env cl limit now) (\<lambda>_. mret ())"
| "serve_cancel env (RegisterCancel k cl sid p verified) = mbind (register_scheduler_cancel_identity env k cl sid p verified) (\<lambda>_. mret ())"
| "serve_cancel env (FinalizeCancel k cl) = mbind (finalize_scheduler_cancel_identities env k cl) (\<lambda>_. mret ())"
| "serve_cancel env (CloseCancel k cl superseded) = mbind (complete_scheduler_cancel_identity_scan env k cl superseded) (\<lambda>_. mret ())"
| "serve_cancel env (ClaimAttempt k cl sid p lease now) = mbind (claim_scheduler_cancel_attempt env k cl sid p lease now) (\<lambda>_. mret ())"
| "serve_cancel env (RecordAttempt k cl sid p c accepted err most delay now) =
     mbind (record_scheduler_cancel_attempt env k cl sid p c accepted err most delay now) (\<lambda>_. mret ())"
| "serve_cancel env (ClaimConfirmation k cl sid p lease now) = mbind (claim_scheduler_cancel_confirmation env k cl sid p lease now) (\<lambda>_. mret ())"
| "serve_cancel env (RecordObservation k cl sid p c phase not_found err most delay now) =
     mbind (record_scheduler_cancel_observation env k cl sid p c phase not_found err most delay now) (\<lambda>_. mret ())"

fun serve_cancels ::
  "cancel_files queue_env \<Rightarrow> (cancel_request \<times> nat option) list \<Rightarrow> cancel_files queue_state \<Rightarrow> cancel_files queue_state" where
  "serve_cancels env [] s = s"
| "serve_cancels env ((q, b) # qs) s = serve_cancels env qs (snd (serve_cancel env q (s\<lparr>qs_budget := b\<rparr>)))"

lemma creaches_step: "creaches I P m (\<lambda>_. I) \<Longrightarrow> P (qs_other s) \<Longrightarrow> I (qs_other (snd (mbind m (\<lambda>_. mret ()) (s\<lparr>qs_budget := b\<rparr>))))"
proof -
  assume m: "creaches I P m (\<lambda>_. I)" and s: "P (qs_other s)"
  obtain r s' where run: "mbind m (\<lambda>_. mret ()) (s\<lparr>qs_budget := b\<rparr>) = (r, s')" by fastforce
  have "creaches I P (mbind m (\<lambda>_. mret ())) (\<lambda>_. I)" by (rule creaches_then [OF m])
  from this [unfolded creaches_def, rule_format, OF _ run] s have "case r of Inl _ \<Rightarrow> I (qs_other s') | Inr _ \<Rightarrow> I (qs_other s')" by simp
  then show ?thesis unfolding run by (cases r) simp_all
qed

section \<open>A claim is held by one worker\<close>

definition claims :: "string \<Rightarrow> timestamp \<Rightarrow> SchedulerCancelDisposition \<Rightarrow> bool" where
  "claims c e d \<longleftrightarrow> cd_attempt_claim_id d = Some c \<and> cd_attempt_claim_expires_at d = Some e \<and> cd_state d \<in> {SC_PENDING, SC_RETRY_WAIT}"

definition claims_in :: "string \<Rightarrow> string \<Rightarrow> timestamp \<Rightarrow> SchedulerCancelPending \<Rightarrow> bool" where
  "claims_in sid c e r \<longleftrightarrow> sp_identity_resolution r = IdentityResolved
     \<and> (case position_of sid (sp_dispositions r) of None \<Rightarrow> False | Some i \<Rightarrow> claims c e (sp_dispositions r ! i))"

definition claim_held :: "string \<Rightarrow> string \<Rightarrow> string \<Rightarrow> string \<Rightarrow> timestamp \<Rightarrow> cancel_files \<Rightarrow> bool" where
  "claim_held k cl sid c e f \<longleftrightarrow> map_of (cf_completed f) (cancel_key k cl) = None
     \<and> (\<exists>r. map_of (cf_pending f) (cancel_key k cl) = Some r \<and> owned_record k cl r \<and> claims_in sid c e r)"

lemma position_of_Some: "position_of sid ds = Some i \<Longrightarrow> i < length ds \<and> cd_scheduler_job_id (ds ! i) = sid"
  by (induction sid ds arbitrary: i rule: position_of.induct) (auto split: if_splits)

lemma position_of_update: "i < length ds \<Longrightarrow> cd_scheduler_job_id d = cd_scheduler_job_id (ds ! i) \<Longrightarrow> position_of sid (ds[i := d]) = position_of sid ds"
  by (induction sid ds arbitrary: i rule: position_of.induct) (auto split: nat.splits)

lemma position_of_append: "position_of sid ds = Some i \<Longrightarrow> position_of sid (ds @ ds') = Some i"
  by (induction sid ds arbitrary: i rule: position_of.induct) (auto split: if_splits)

lemma position_of_map: "(\<And>d. cd_scheduler_job_id (g d) = cd_scheduler_job_id d) \<Longrightarrow> position_of sid (map g ds) = position_of sid ds"
  by (induction sid ds rule: position_of.induct) auto

lemma claims_in_update:
  assumes "position_of sid' (sp_dispositions r) = Some i" "cd_scheduler_job_id d = sid'"
  shows "claims_in sid c e (r\<lparr>sp_dispositions := (sp_dispositions r)[i := d], sp_updated_at := t\<rparr>)
    \<longleftrightarrow> sp_identity_resolution r = IdentityResolved \<and> (if sid' = sid then claims c e d else claims_in sid c e r)"
  using position_of_Some [OF assms(1)] assms
  by (auto simp: claims_in_def position_of_update nth_list_update split: option.splits if_splits dest: position_of_Some)

lemma claims_in_not_complete: "claims_in sid c e r \<Longrightarrow> \<not> SchedulerCancelPending_complete r"
proof -
  assume r: "claims_in sid c e r"
  then obtain i where i: "position_of sid (sp_dispositions r) = Some i" "claims c e (sp_dispositions r ! i)"
    by (auto simp: claims_in_def split: option.splits)
  then have "sp_dispositions r ! i \<in> set (sp_dispositions r)" by (auto dest: position_of_Some)
  moreover have "cd_state (sp_dispositions r ! i) \<notin> FINAL_DISPOSITIONS" using i(2) by (auto simp: claims_def FINAL_DISPOSITIONS_def)
  ultimately show ?thesis using r by (auto simp: claims_in_def SchedulerCancelPending_complete_def list_all_iff)
qed

definition keeps_claim :: "string \<Rightarrow> string \<Rightarrow> string \<Rightarrow> string \<Rightarrow> timestamp \<Rightarrow> SchedulerCancelPending \<Rightarrow> SchedulerCancelPending \<Rightarrow> bool" where
  "keeps_claim k cl sid c e r r' \<longleftrightarrow> (owned_record k cl r \<and> claims_in sid c e r \<longrightarrow> claims_in sid c e r')"

interpretation held: cancel_invariant "claim_held k cl sid c e" "keeps_claim k cl sid c e"
proof unfold_locales
  fix f key r
  assume "claim_held k cl sid c e f" "map_of (cf_completed f) key = Some r"
  then show "claim_held k cl sid c e (cf_pending_update (AList.delete key) f)" by (auto simp: claim_held_def)
next
  fix f k' cl' r r'
  assume "claim_held k cl sid c e f" "stored k' cl' r f" "keeps_claim k cl sid c e r r'" "owned_record k' cl' r'"
  then show "claim_held k cl sid c e (cf_pending_update (AList.update (cancel_key k' cl') r') f)"
    by (auto simp: claim_held_def stored_def keeps_claim_def owned_record_def)
next
  fix f k' cl' r r'
  assume "claim_held k cl sid c e f" "stored k' cl' r f" "keeps_claim k cl sid c e r r'" "owned_record k' cl' r'" "SchedulerCancelPending_complete r'"
  then show "claim_held k cl sid c e (cf_completed_update (AList.update (cancel_key k' cl') r') f)"
    by (auto simp: claim_held_def stored_def keeps_claim_def owned_record_def dest: claims_in_not_complete)
next
  fix f k' cl' r
  assume "claim_held k cl sid c e f" "map_of (cf_pending f) (cancel_key k' cl') = None"
  then show "claim_held k cl sid c e (cf_pending_update (AList.update (cancel_key k' cl') r) f)" by (auto simp: claim_held_def)
qed

text \<open>
  The requests that leave a claim alone: all but its holder's report, the supersession of the job's
  cancellation, and a claim on the same identity that sees the lease expired.
\<close>

fun leaves_claim :: "cancel_files queue_env \<Rightarrow> string \<Rightarrow> string \<Rightarrow> string \<Rightarrow> string \<Rightarrow> timestamp \<Rightarrow> cancel_request \<Rightarrow> bool" where
  "leaves_claim env k cl sid c e (CloseCancel k' cl' superseded) \<longleftrightarrow> \<not> (superseded \<and> (k', cl') = (k, cl))"
| "leaves_claim env k cl sid c e (ClaimAttempt k' cl' sid' p lease now) \<longleftrightarrow> ((k', cl', sid') = (k, cl, sid) \<longrightarrow> (\<forall>t. observes env now t \<longrightarrow> t < e))"
| "leaves_claim env k cl sid c e (RecordAttempt k' cl' sid' p c' accepted err most delay now) \<longleftrightarrow> (k', cl', sid', c') \<noteq> (k, cl, sid, c)"
| "leaves_claim env k cl sid c e _ \<longleftrightarrow> True"

text \<open>What the disposition and record validators say of a claim.\<close>

lemma validated: "SchedulerCancelDisposition_validate d = Inr d' \<longleftrightarrow> d' = d \<and> disposition_fields_ok d
    \<and> validate_attempt_claim d = Inr () \<and> validate_confirmation_claim d = Inr ()"
  by (auto simp: SchedulerCancelDisposition_validate_def rbind_eq_Inr split: if_splits)

lemma rmap_id: "(\<And>x y. f x = Inr y \<Longrightarrow> y = x) \<Longrightarrow> rmap f xs = Inr ys \<longleftrightarrow> ys = xs \<and> (\<forall>x \<in> set xs. f x = Inr x)"
  by (induction xs arbitrary: ys) (auto simp: rbind_eq_Inr)

lemma claim_ok_Inr: "claim_ok c t u state_ok m1 m2 m3 = Inr () \<longleftrightarrow>
    c = None \<and> t = None \<and> u = None \<or> state_ok \<and> (\<exists>i x y. c = Some i \<and> t = Some x \<and> u = Some y \<and> x < y)"
  by (cases c; cases t; cases u) (auto simp: claim_ok_def check_eq_Inr)

lemma valid_record_iff: "valid_record r \<longleftrightarrow> durable_id (sp_job_id r) \<and> length_within 1 256 (Some (sp_cluster r)) \<and> length_within 1 256 (Some (sp_reason r))
    \<and> length (sp_dispositions r) \<le> 1000 \<and> (\<forall>d \<in> set (sp_dispositions r). SchedulerCancelDisposition_validate d = Inr d)"
proof -
  have "rmap SchedulerCancelDisposition_validate ds = Inr ys \<longleftrightarrow> ys = ds \<and> (\<forall>d \<in> set ds. SchedulerCancelDisposition_validate d = Inr d)" for ds ys
    by (rule rmap_id) (simp add: validated)
  then show ?thesis unfolding valid_record_def SchedulerCancelPending_validate_def by (auto simp: rbind_eq_Inr)
qed

lemma valid_confirmation:
  assumes "valid_record r" "position_of sid (sp_dispositions r) = Some i" "cd_confirmation_claim_id (sp_dispositions r ! i) = Some c"
  shows "cd_state (sp_dispositions r ! i) = SC_CANCEL_REQUESTED"
proof -
  have "validate_confirmation_claim (sp_dispositions r ! i) = Inr ()"
    using assms position_of_Some [OF assms(2)] nth_mem by (auto simp: valid_record_iff validated)
  then show ?thesis using assms(3) by (auto simp: validate_confirmation_claim_def claim_ok_Inr)
qed

lemma keeps_claim_with:
  assumes "position_of sid' (sp_dispositions r) = Some i" "cd_scheduler_job_id d = cd_scheduler_job_id (sp_dispositions r ! i)"
    "owned_record k' cl' r" "(k', cl', sid') = (k, cl, sid) \<Longrightarrow> \<not> claims c e (sp_dispositions r ! i)"
  shows "keeps_claim k cl sid c e r (with_disposition r i d t)"
proof -
  have d: "cd_scheduler_job_id d = sid'" using position_of_Some [OF assms(1)] assms(2) by simp
  show ?thesis using assms(1, 3, 4) unfolding keeps_claim_def with_disposition_def claims_in_update [OF assms(1) d]
    by (auto simp: owned_record_def claims_in_def)
qed

lemma disposition_ids [simp]:
  "cd_scheduler_job_id (attempt_claimed d p c t u) = cd_scheduler_job_id d"
  "cd_scheduler_job_id (confirmation_claimed d p c t u) = cd_scheduler_job_id d"
  "cd_scheduler_job_id (attempted d p accepted err most delay t) = cd_scheduler_job_id d"
  "cd_scheduler_job_id (confirmed d phase not_found err most delay t) = cd_scheduler_job_id d"
  "cd_scheduler_job_id (without_claims d) = cd_scheduler_job_id d"
  "cd_scheduler_job_id (new_disposition sid provider verified t) = sid"
  by (simp_all add: attempt_claimed_def confirmation_claimed_def attempted_def confirmed_def without_claims_def new_disposition_def Let_def case_prod_unfold)

lemma claim_kept:
  assumes init: "\<forall>f. qe_initialize env f = (Inr (), f)" and held: "claim_held k cl sid c e (qs_other s)" and q: "leaves_claim env k cl sid c e q"
  shows "claim_held k cl sid c e (qs_other (snd (serve_cancel env q (s\<lparr>qs_budget := b\<rparr>))))"
proof (cases q)
  case (EnsureCancel k' reason)
  show ?thesis unfolding EnsureCancel serve_cancel.simps by (rule creaches_step [OF held.ensures [OF init] held])
next
  case (ScanCancel cl' limit now)
  show ?thesis unfolding ScanCancel serve_cancel.simps by (rule creaches_step [OF held.scans [OF init] held])
next
  case (RegisterCancel k' cl' sid' p verified)
  have "creaches (claim_held k cl sid c e) (claim_held k cl sid c e) (register_scheduler_cancel_identity_once env k' cl' sid' p verified) (\<lambda>_. claim_held k cl sid c e)"
  proof (rule held.registers [OF init, where room = "\<lambda>_. True", simplified])
    fix r d t
    show "keeps_claim k cl sid c e r (r\<lparr>sp_dispositions := sp_dispositions r @ [d], sp_updated_at := t\<rparr>)"
      by (auto simp: keeps_claim_def claims_in_def position_of_append nth_append split: option.splits dest: position_of_Some)
  next
    fix r i d t u v
    assume r: "owned_record k' cl' r" and i: "position_of sid' (sp_dispositions r) = Some i" and refused: "cd_state (sp_dispositions r ! i) = SC_REFUSED"
      and "SchedulerCancelDisposition_validate (new_disposition sid' p verified u) = Inr d"
    then have d: "cd_scheduler_job_id d = sid'" by (simp add: validated)
    show "keeps_claim k cl sid c e r (r\<lparr>sp_dispositions := (sp_dispositions r)[i := d\<lparr>cd_attempts := cd_attempts (sp_dispositions r ! i),
        cd_confirmation_attempts := cd_confirmation_attempts (sp_dispositions r ! i), cd_updated_at := v\<rparr>], sp_updated_at := t\<rparr>)"
      by (rule keeps_claim_with [OF i _ r, unfolded with_disposition_def]) (simp add: d position_of_Some [OF i], simp add: claims_def refused)
  qed
  from creaches_step [OF creaches_then [OF this] held] show ?thesis
    unfolding RegisterCancel serve_cancel.simps register_scheduler_cancel_identity_def .
next
  case (FinalizeCancel k' cl')
  show ?thesis unfolding FinalizeCancel serve_cancel.simps
    by (rule creaches_step [OF held.finalizes [OF init] held]) (simp add: keeps_claim_def claims_in_def split: option.splits)
next
  case (CloseCancel k' cl' superseded)
  show ?thesis unfolding CloseCancel serve_cancel.simps
    by (rule creaches_step [OF held.closes [OF init] held]) (use q CloseCancel in \<open>auto simp: keeps_claim_def claims_in_def owned_record_def\<close>)
next
  case (ClaimAttempt k' cl' sid' p lease now)
  show ?thesis unfolding ClaimAttempt serve_cancel.simps
    by (rule creaches_step [OF held.claim_attempt [OF init] held], erule keeps_claim_with, simp, assumption)
       (use q ClaimAttempt in \<open>auto simp: claims_def claim_live_def\<close>)
next
  case (RecordAttempt k' cl' sid' p c' accepted err most delay now)
  show ?thesis unfolding RecordAttempt serve_cancel.simps
    by (rule creaches_step [OF held.record_attempt [OF init] held], erule keeps_claim_with)
       (use q RecordAttempt in \<open>auto simp: claims_def validated\<close>)
next
  case (ClaimConfirmation k' cl' sid' p lease now)
  show ?thesis unfolding ClaimConfirmation serve_cancel.simps
    by (rule creaches_step [OF held.claim_confirmation [OF init] held], erule keeps_claim_with) (auto simp: claims_def)
next
  case (RecordObservation k' cl' sid' p c' phase not_found err most delay now)
  show ?thesis unfolding RecordObservation serve_cancel.simps
    by (rule creaches_step [OF held.record_observation [OF init] held], frule (2) valid_confirmation, erule keeps_claim_with)
       (auto simp: claims_def validated)
qed

lemma claim_kept_along:
  assumes "\<forall>f. qe_initialize env f = (Inr (), f)" "claim_held k cl sid c e (qs_other s)" "\<forall>(q, b) \<in> set qs. leaves_claim env k cl sid c e q"
  shows "claim_held k cl sid c e (qs_other (serve_cancels env qs s))"
  using assms(2, 3)
proof (induction qs arbitrary: s)
  case (Cons x qs)
  then show ?case using claim_kept [OF assms(1)] by (cases x) simp
qed simp

text \<open>What a claim that is granted has read and written.\<close>

lemma observed_Inr: "observed env now s = (Inr t, s') \<Longrightarrow> observes env now t \<and> qs_other s' = qs_other s"
  by (auto simp: observed_def observes_def utc_now_def split: option.splits)

lemma initialize_Inr: "\<forall>f. qe_initialize env f = (Inr (), f) \<Longrightarrow> initialize_queue env s = (Inr u, s') \<Longrightarrow> qs_other s' = qs_other s"
  by (auto simp: initialize_queue_def on_other_def on_part_def tick_def result_iff split: option.splits nat.splits)

lemma qlift_Inr: "qlift r s = (Inr x, s') \<longleftrightarrow> r = Inr x \<and> s' = s"
  by (auto simp: qlift_def split: sum.splits)

lemma read_Inr:
  "read_pending key s = (Inr x, s') \<longleftrightarrow> s' = s \<and> x = map_of (cf_pending (qs_other s)) key \<and> (\<forall>r. x = Some r \<longrightarrow> valid_record r)"
  "read_completed key s = (Inr x, s') \<longleftrightarrow> s' = s \<and> x = map_of (cf_completed (qs_other s)) key \<and> (\<forall>r. x = Some r \<longrightarrow> valid_record r)"
  by (auto simp: read_pending_def read_completed_def qlift_Inr read_cancel_Inr)

lemma open_Inr: "open_cancellation k cl s = (Inr (Some r), s') \<Longrightarrow> s' = s \<and> map_of (cf_completed (qs_other s)) (cancel_key k cl) = None
    \<and> stored k cl r (qs_other s)"
  by (auto simp: open_cancellation_def mbind_eq_Inr read_Inr qlift_Inr record_path_Inr stored_def split: option.splits if_splits)

lemma new_id_Inr: "new_id env prefix s = (Inr c, s') \<Longrightarrow> qs_other s' = qs_other s"
  by (auto simp: new_id_def uuid4_hex_def result_iff qlift_def split: sum.splits)

lemma persist_Inr:
  "\<not> SchedulerCancelPending_complete r \<Longrightarrow> persist_scheduler_cancel_record r s = (Inr x, s') \<Longrightarrow> x = r \<and>
     qs_other s' = cf_pending_update (AList.update (cancel_key (sp_job_id r) (sp_cluster r)) r) (qs_other s)"
  by (auto simp: persist_scheduler_cancel_record_def result_iff qlift_def record_path_Inr write_pending_def durable_def tick_def
      split: sum.splits option.splits nat.splits)

lemma find_Inr: "find_disposition r sid s = (Inr i, s') \<Longrightarrow> s' = s \<and> position_of sid (sp_dispositions r) = Some i"
  by (auto simp: find_disposition_def split: option.splits)

lemma same_provider_Inr: "same_provider d p s = (Inr u, s') \<Longrightarrow> s' = s"
  by (auto simp: same_provider_def split: option.splits)

lemma claim_attempt_Some:
  assumes init: "\<forall>f. qe_initialize env f = (Inr (), f)" and run: "claim_scheduler_cancel_attempt env k cl sid provider lease now s = (Inr (Some c), s')"
  obtains r i t where "observes env now t" "map_of (cf_completed (qs_other s)) (cancel_key k cl) = None" "stored k cl r (qs_other s)"
    "sp_identity_resolution r = IdentityResolved" "position_of sid (sp_dispositions r) = Some i" "cd_state (sp_dispositions r ! i) \<in> {SC_PENDING, SC_RETRY_WAIT}"
    "\<not> claim_live (cd_attempt_claim_id (sp_dispositions r ! i)) (cd_attempt_claim_expires_at (sp_dispositions r ! i)) t"
    "sc_expires_at c = t + timedelta_us lease"
    "qs_other s' = cf_pending_update (AList.update (cancel_key k cl)
       (with_disposition r i (attempt_claimed (sp_dispositions r ! i) provider (sc_claim_id c) t (sc_expires_at c)) t)) (qs_other s)"
proof -
  from run obtain t s1 s2 s3 r where t: "observed env now s = (Inr t, s1)" and i: "initialize_queue env s1 = (Inr (), s2)"
      and o: "open_cancellation k cl s2 = (Inr (Some r), s3)" and c: "claim_attempt_of env r sid provider lease t s3 = (Inr (Some c), s')"
    unfolding claim_scheduler_cancel_attempt_def by (auto simp: result_iff qlift_def split: sum.splits option.splits if_splits)
  note t = observed_Inr [OF t] and i = initialize_Inr [OF init i] and o = open_Inr [OF o]
  from c obtain j where r: "sp_identity_resolution r = IdentityResolved" and j: "position_of sid (sp_dispositions r) = Some j"
      and d: "cd_state (sp_dispositions r ! j) \<in> {SC_PENDING, SC_RETRY_WAIT}"
        "\<not> claim_live (cd_attempt_claim_id (sp_dispositions r ! j)) (cd_attempt_claim_expires_at (sp_dispositions r ! j)) t"
      and w: "mbind (same_provider (sp_dispositions r ! j) provider) (\<lambda>_. mbind (new_id env ''cancelclaim'') (\<lambda>claim_id.
          mbind (persist_scheduler_cancel_record (with_disposition r j
            (attempt_claimed (sp_dispositions r ! j) provider claim_id t (t + timedelta_us lease)) t)) (\<lambda>_.
          mret (Some \<lparr>sc_claim_id = claim_id, sc_scheduler_job_id = sid, sc_provider = provider,
            sc_attempt = cd_attempts (sp_dispositions r ! j) + 1, sc_claimed_at = t, sc_expires_at = t + timedelta_us lease\<rparr>)))) s3 = (Inr (Some c), s')"
    unfolding claim_attempt_of_def Let_def by (auto simp: mbind_eq_Inr [of "find_disposition r sid"] dest!: find_Inr split: if_splits)
  from w obtain s4 x where n: "new_id env ''cancelclaim'' s3 = (Inr (sc_claim_id c), s4)" and e: "sc_expires_at c = t + timedelta_us lease"
      and p: "persist_scheduler_cancel_record (with_disposition r j (attempt_claimed (sp_dispositions r ! j) provider (sc_claim_id c) t (sc_expires_at c)) t) s4 = (Inr x, s')"
    by (auto simp: result_iff dest!: same_provider_Inr)
  let ?r = "with_disposition r j (attempt_claimed (sp_dispositions r ! j) provider (sc_claim_id c) t (sc_expires_at c)) t"
  have "claims_in sid (sc_claim_id c) (sc_expires_at c) ?r"
    unfolding with_disposition_def using d(1) r by (subst claims_in_update [OF j]) (auto simp: position_of_Some [OF j] claims_def attempt_claimed_def)
  from persist_Inr [OF claims_in_not_complete [OF this] p] new_id_Inr [OF n] o i t
  have "qs_other s' = cf_pending_update (AList.update (cancel_key k cl) ?r) (qs_other s)" by (simp add: with_disposition_def stored_def owned_record_def)
  with that [of t r j] t i o r j d e show ?thesis by simp
qed

text \<open>
  C13: one worker at a time attempts to cancel a scheduler identity. Once a claim is granted, any sequence of requests of
  other processes, each of which may stop before any of its writes, leaves it in place, unless the job's
  cancellation is superseded or a claim on the same identity sees the lease expired; and no further claim on the identity is
  granted at a time before the lease expires.
\<close>

theorem cancel_claim_exclusive:
  assumes init: "\<forall>f. qe_initialize env f = (Inr (), f)"
    and claim: "claim_scheduler_cancel_attempt env k cl sid provider lease now s = (Inr (Some c), s1)"
    and others: "\<forall>(q, b) \<in> set qs. leaves_claim env k cl sid (sc_claim_id c) (sc_expires_at c) q"
    and early: "\<forall>t. observes env now' t \<longrightarrow> t < sc_expires_at c"
  shows "claim_held k cl sid (sc_claim_id c) (sc_expires_at c) (qs_other (serve_cancels env qs s1))
    \<and> (\<forall>c'. fst (claim_scheduler_cancel_attempt env k cl sid provider' lease' now' (serve_cancels env qs s1)) \<noteq> Inr (Some c'))"
proof -
  let ?s = "serve_cancels env qs s1"
  have held: "claim_held k cl sid (sc_claim_id c) (sc_expires_at c) (qs_other s1)"
  proof (rule claim_attempt_Some [OF init claim])
    fix r i t
    assume none: "map_of (cf_completed (qs_other s)) (cancel_key k cl) = None" and r: "stored k cl r (qs_other s)" "sp_identity_resolution r = IdentityResolved"
      and i: "position_of sid (sp_dispositions r) = Some i" and d: "cd_state (sp_dispositions r ! i) \<in> {SC_PENDING, SC_RETRY_WAIT}"
      and f: "qs_other s1 = cf_pending_update (AList.update (cancel_key k cl)
        (with_disposition r i (attempt_claimed (sp_dispositions r ! i) provider (sc_claim_id c) t (sc_expires_at c)) t)) (qs_other s)"
    have "claims_in sid (sc_claim_id c) (sc_expires_at c)
        (with_disposition r i (attempt_claimed (sp_dispositions r ! i) provider (sc_claim_id c) t (sc_expires_at c)) t)"
      unfolding with_disposition_def using d r(2) by (subst claims_in_update [OF i]) (auto simp: position_of_Some [OF i] claims_def attempt_claimed_def)
    then show ?thesis using none r(1) by (simp add: f claim_held_def stored_def owned_record_def with_disposition_def)
  qed
  have held: "claim_held k cl sid (sc_claim_id c) (sc_expires_at c) (qs_other ?s)" by (rule claim_kept_along [OF init held others])
  have False if second: "claim_scheduler_cancel_attempt env k cl sid provider' lease' now' ?s = (Inr (Some c'), s')" for c' s'
    by (rule claim_attempt_Some [OF init second]) (use held early in \<open>auto simp: claim_held_def stored_def claims_in_def claims_def claim_live_def\<close>)
  then show ?thesis using held by (metis prod.collapse)
qed

definition demo_cancel_env :: "cancel_files queue_env" where
  "demo_cancel_env = \<lparr>qe_codec = demo_codec, qe_clock = int, qe_uuid = (\<lambda>_. demo_hex), qe_initialize = mret (),
     qe_require_migrated = (\<lambda>_. Inr ()), qe_capacity_migrated = (\<lambda>_. Inr True), qe_migrate_cleanup = (\<lambda>_ _. mret ()),
     qe_pending_cleanup = (\<lambda>_ _ _. False), qe_sync_membership = (\<lambda>_. mret ()), qe_sync_scheduler = (\<lambda>_ _. mret ()),
     qe_scheduler_refs = (\<lambda>_ _. Inr False), qe_replay_other = (\<lambda>_ _. mret ())\<rparr>"

definition demo_disposition :: SchedulerCancelDisposition where
  "demo_disposition = new_disposition ''4711'' (Some ''slurm'') True 0"

definition demo_pending :: "SchedulerCancelDisposition list \<Rightarrow> SchedulerCancelPending" where
  "demo_pending ds = \<lparr>sp_job_id = ''job_a'', sp_cluster = ''ares'', sp_requested_at = 0, sp_reason = ''cancel'',
     sp_identity_resolution = IdentityResolved, sp_dispositions = ds, sp_updated_at = 0\<rparr>"

definition demo_cancel_state :: "SchedulerCancelPending \<Rightarrow> cancel_files queue_state" where
  "demo_cancel_state r = \<lparr>qs_jobs = [], qs_active = [], qs_queued = [], qs_leases = [], qs_job_leases = [], qs_index = [],
     qs_capacity = \<lparr>cf_fault = None, cf_aggregate = None, cf_checkpoint = None\<rparr>, qs_intents = [], qs_events = [], qs_job_indexes = [], qs_docs = [],
     qs_other = \<lparr>cf_pending = [(cancel_key ''job_a'' ''ares'', r)], cf_completed = []\<rparr>, qs_draws = 0, qs_budget = None\<rparr>"

lemma demo_cancel_ids: "durable_id ''job_a''" "durable_id (''cancelclaim_'' @ demo_hex)"
  by code_simp+

lemma demo_pending_valid:
  assumes "length ds \<le> 1000" "\<forall>d \<in> set ds. SchedulerCancelDisposition_validate d = Inr d"
  shows "valid_record (demo_pending ds)"
  using assms demo_cancel_ids by (simp add: valid_record_iff demo_pending_def length_within_def)

lemma demo_disposition_valid: "SchedulerCancelDisposition_validate demo_disposition = Inr demo_disposition"
  by code_simp

lemma demo_claimed:
  "\<exists>c s. claim_scheduler_cancel_attempt demo_cancel_env ''job_a'' ''ares'' ''4711'' ''slurm'' 60 (Some 0) (demo_cancel_state (demo_pending [demo_disposition]))
     = (Inr (Some c), s) \<and> sc_claim_id c = ''cancelclaim_'' @ demo_hex \<and> sc_expires_at c = 60000000"
proof -
  have valid: "SchedulerCancelPending_validate (demo_pending [demo_disposition]) = Inr (demo_pending [demo_disposition])"
    using demo_pending_valid [of "[demo_disposition]"] demo_disposition_valid by (simp add: valid_record_def)
  have path: "scheduler_cancel_record_path ''ares'' ''job_a'' = Inr (cancel_key ''job_a'' ''ares'')"
    using demo_cancel_ids by (simp add: record_path_Inr)
  have fresh: "validate_durable_record_id (JStr (''cancelclaim_'' @ demo_hex)) = Inr (''cancelclaim_'' @ demo_hex)"
    using demo_cancel_ids by (simp add: validate_durable_record_id_Inr)
  show ?thesis using valid path demo_cancel_ids fresh
    by (simp add: claim_scheduler_cancel_attempt_def mbind_def qlift_def demo_cancel_env_def observed_def
      initialize_queue_def on_other_def on_part_def tick_def demo_cancel_state_def open_cancellation_def read_completed_def read_pending_def
      read_cancel_def claim_attempt_of_def find_disposition_def same_provider_def new_id_def uuid4_hex_def persist_scheduler_cancel_record_def
      write_pending_def durable_def lease_in_bounds_def MIN_SCHEDULER_CANCEL_CLAIM_LEASE_SECONDS_def MAX_SCHEDULER_CANCEL_CLAIM_LEASE_SECONDS_def
      timedelta_us_def with_disposition_def attempt_claimed_def SchedulerCancelPending_complete_def FINAL_DISPOSITIONS_def attempt_due_def claim_live_def
      demo_pending_def demo_disposition_def new_disposition_def owned_record_def Let_def)
qed

text \<open>A second worker asks during the lease, and a third process stops before it writes anything.\<close>

theorem cancel_claim_exclusive_witness:
  "\<exists>c s. claim_scheduler_cancel_attempt demo_cancel_env ''job_a'' ''ares'' ''4711'' ''slurm'' 60 (Some 0) (demo_cancel_state (demo_pending [demo_disposition]))
       = (Inr (Some c), s)
     \<and> (let s' = serve_cancels demo_cancel_env [(ClaimAttempt ''job_a'' ''ares'' ''4711'' ''slurm'' 60 (Some 10000000), None),
          (FinalizeCancel ''job_a'' ''ares'', Some 0)] s in
        claim_held ''job_a'' ''ares'' ''4711'' (sc_claim_id c) 60000000 (qs_other s')
        \<and> (\<forall>c'. fst (claim_scheduler_cancel_attempt demo_cancel_env ''job_a'' ''ares'' ''4711'' ''slurm'' 60 (Some 59000000) s') \<noteq> Inr (Some c')))"
proof -
  obtain c s where c: "claim_scheduler_cancel_attempt demo_cancel_env ''job_a'' ''ares'' ''4711'' ''slurm'' 60 (Some 0) (demo_cancel_state (demo_pending [demo_disposition]))
      = (Inr (Some c), s)" "sc_expires_at c = 60000000" using demo_claimed by blast
  have "\<forall>f. qe_initialize demo_cancel_env f = (Inr (), f)" by (simp add: demo_cancel_env_def)
  from cancel_claim_exclusive [OF this c(1), where now' = "Some 59000000" and provider' = "''slurm''" and lease' = 60
      and qs = "[(ClaimAttempt ''job_a'' ''ares'' ''4711'' ''slurm'' 60 (Some 10000000), None), (FinalizeCancel ''job_a'' ''ares'', Some 0)]"]
  show ?thesis using c by (simp add: observes_def)
qed

section \<open>Records stay readable\<close>

definition pending_ok :: "nat \<Rightarrow> (string \<times> string) \<times> SchedulerCancelPending \<Rightarrow> bool" where
  "pending_ok n = (\<lambda>(key, r). valid_record r \<and> key = cancel_key (sp_job_id r) (sp_cluster r) \<and> \<not> SchedulerCancelPending_complete r
     \<and> length (sp_dispositions r) \<le> n)"

definition completed_ok :: "(string \<times> string) \<times> SchedulerCancelPending \<Rightarrow> bool" where
  "completed_ok = (\<lambda>(key, r). valid_record r \<and> key = cancel_key (sp_job_id r) (sp_cluster r) \<and> SchedulerCancelPending_complete r)"

definition cancel_files_ok :: "nat \<Rightarrow> cancel_files \<Rightarrow> bool" where
  "cancel_files_ok n f \<longleftrightarrow> (\<forall>x \<in> set (cf_pending f). pending_ok n x) \<and> (\<forall>x \<in> set (cf_completed f). completed_ok x)"

definition fits :: "nat \<Rightarrow> SchedulerCancelPending \<Rightarrow> SchedulerCancelPending \<Rightarrow> bool" where
  "fits n r r' \<longleftrightarrow> (length (sp_dispositions r) \<le> n \<longrightarrow> valid_record r' \<and> length (sp_dispositions r') \<le> n)"

lemma cancel_files_ok_stored: "cancel_files_ok n f \<Longrightarrow> stored k cl r f \<Longrightarrow> length (sp_dispositions r) \<le> n"
  by (auto simp: cancel_files_ok_def pending_ok_def stored_def dest!: map_of_SomeD)

lemma pending_new: "pending_ok n (key, r) \<longleftrightarrow> valid_record r \<and> key = cancel_key (sp_job_id r) (sp_cluster r)
    \<and> \<not> SchedulerCancelPending_complete r \<and> length (sp_dispositions r) \<le> n"
  by (simp add: pending_ok_def)

lemma completed_new: "completed_ok (key, r) \<longleftrightarrow> valid_record r \<and> key = cancel_key (sp_job_id r) (sp_cluster r) \<and> SchedulerCancelPending_complete r"
  by (simp add: completed_ok_def)

lemma cancel_files_ok_writes:
  assumes "cancel_files_ok n f"
  shows "pending_ok n (key, r) \<Longrightarrow> cancel_files_ok n (cf_pending_update (AList.update key r) f)"
    and "completed_ok (key, r) \<Longrightarrow> cancel_files_ok n (cf_completed_update (AList.update key r) f)"
    and "cancel_files_ok n (cf_pending_update (AList.delete key) f)"
  using assms set_aupdate [of key r "cf_pending f"] set_aupdate [of key r "cf_completed f"] set_adelete [of key "cf_pending f"]
  by (auto simp: cancel_files_ok_def)

interpretation readable: cancel_invariant "cancel_files_ok n" "fits n"
proof unfold_locales
  fix f key assume "cancel_files_ok n f"
  then show "cancel_files_ok n (cf_pending_update (AList.delete key) f)" by (rule cancel_files_ok_writes)
next
  fix f k cl r r'
  assume f: "cancel_files_ok n f" "stored k cl r f" and r': "fits n r r'" "owned_record k cl r'" "\<not> SchedulerCancelPending_complete r'"
  then show "cancel_files_ok n (cf_pending_update (AList.update (cancel_key k cl) r') f)"
    using cancel_files_ok_stored [OF f] by (intro cancel_files_ok_writes(1)) (auto simp: pending_new fits_def owned_record_def)
next
  fix f k cl r r'
  assume f: "cancel_files_ok n f" "stored k cl r f" and r': "fits n r r'" "owned_record k cl r'" "SchedulerCancelPending_complete r'"
  then show "cancel_files_ok n (cf_completed_update (AList.update (cancel_key k cl) r') f)"
    using cancel_files_ok_stored [OF f] by (intro cancel_files_ok_writes(2)) (auto simp: completed_new fits_def owned_record_def)
next
  fix f k cl r
  assume "cancel_files_ok n f" "valid_record r" "owned_record k cl r" "sp_dispositions r = []" "sp_identity_resolution r = IdentityPending"
  then show "cancel_files_ok n (cf_pending_update (AList.update (cancel_key k cl) r) f)"
    by (intro cancel_files_ok_writes(1)) (auto simp: pending_new owned_record_def SchedulerCancelPending_complete_def)
qed

text \<open>The dispositions that the operations write are valid.\<close>

lemma fits_with:
  assumes "valid_record r" "SchedulerCancelDisposition_validate d = Inr d"
  shows "fits n r (with_disposition r i d t)"
  using assms set_update_subset_insert [of "sp_dispositions r" i d] by (auto simp: fits_def valid_record_iff with_disposition_def)

lemma timedelta_pos: "lease_in_bounds lease \<Longrightarrow> 0 < timedelta_us lease"
proof -
  assume "lease_in_bounds lease"
  then have "1000000 \<le> lease * 1000000" by (simp add: lease_in_bounds_def MIN_SCHEDULER_CANCEL_CLAIM_LEASE_SECONDS_def)
  then have "1000000 \<le> \<lfloor>lease * 1000000\<rfloor>" by (simp add: le_floor_iff)
  then show ?thesis by (simp add: timedelta_us_def Let_def)
qed

lemma valid_claimed:
  assumes r: "valid_record r" "position_of sid (sp_dispositions r) = Some i"
    and p: "provider \<noteq> []" "length provider \<le> 128" "durable_id c" "0 < lease"
  shows "cd_state (sp_dispositions r ! i) \<in> {SC_PENDING, SC_RETRY_WAIT} \<Longrightarrow>
      fits n r (with_disposition r i (attempt_claimed (sp_dispositions r ! i) provider c t (t + lease)) t)"
    and "cd_state (sp_dispositions r ! i) = SC_CANCEL_REQUESTED \<Longrightarrow>
      fits n r (with_disposition r i (confirmation_claimed (sp_dispositions r ! i) provider c t (t + lease)) t)"
proof -
  have "SchedulerCancelDisposition_validate (sp_dispositions r ! i) = Inr (sp_dispositions r ! i)"
    using r position_of_Some [OF r(2)] nth_mem by (auto simp: valid_record_iff)
  moreover have "1 \<le> length provider" using p(1) by (cases provider) simp_all
  ultimately show "cd_state (sp_dispositions r ! i) \<in> {SC_PENDING, SC_RETRY_WAIT} \<Longrightarrow>
      fits n r (with_disposition r i (attempt_claimed (sp_dispositions r ! i) provider c t (t + lease)) t)"
    and "cd_state (sp_dispositions r ! i) = SC_CANCEL_REQUESTED \<Longrightarrow>
      fits n r (with_disposition r i (confirmation_claimed (sp_dispositions r ! i) provider c t (t + lease)) t)"
    using p by (auto intro!: fits_with [OF r(1)] simp: validated disposition_fields_ok_def validate_attempt_claim_def validate_confirmation_claim_def
        claim_ok_Inr attempt_claimed_def confirmation_claimed_def length_within_def)
qed

fun short_provider :: "cancel_request \<Rightarrow> bool" where
  "short_provider (ClaimAttempt k cl sid p lease now) \<longleftrightarrow> length p \<le> 128"
| "short_provider (ClaimConfirmation k cl sid p lease now) \<longleftrightarrow> length p \<le> 128"
| "short_provider _ \<longleftrightarrow> True"

fun registrations :: "cancel_request \<Rightarrow> nat" where
  "registrations (RegisterCancel k cl sid p verified) = 1"
| "registrations _ = 0"

lemma cancel_files_ok_mono: "cancel_files_ok n f \<Longrightarrow> n \<le> m \<Longrightarrow> cancel_files_ok m f"
  by (fastforce simp: cancel_files_ok_def pending_ok_def)

lemma without_claims_valid: "SchedulerCancelDisposition_validate d = Inr d \<Longrightarrow> SchedulerCancelDisposition_validate (without_claims d) = Inr (without_claims d)"
  by (auto simp: validated disposition_fields_ok_def validate_attempt_claim_def validate_confirmation_claim_def claim_ok_Inr without_claims_def)

lemma readable_registers:
  assumes init: "\<forall>f. qe_initialize env f = (Inr (), f)" and n: "n < 1000"
  shows "creaches (cancel_files_ok (Suc n)) (cancel_files_ok n) (register_scheduler_cancel_identity_once env k cl sid p verified) (\<lambda>_. cancel_files_ok (Suc n))"
proof -
  have "creaches (cancel_files_ok (Suc n)) (\<lambda>f. cancel_files_ok (Suc n) f \<and> (\<forall>r. stored k cl r f \<longrightarrow> length (sp_dispositions r) \<le> n))
      (register_scheduler_cancel_identity_once env k cl sid p verified) (\<lambda>_. cancel_files_ok (Suc n))"
  proof (rule readable.registers [OF init])
    fix r d t u
    assume "valid_record r" "length (sp_dispositions r) \<le> n" "SchedulerCancelDisposition_validate (new_disposition sid p verified u) = Inr d"
    then show "fits (Suc n) r (r\<lparr>sp_dispositions := sp_dispositions r @ [d], sp_updated_at := t\<rparr>)"
      using n by (auto simp: fits_def valid_record_iff validated)
  next
    fix r i d t u v
    assume r: "valid_record r" and i: "position_of sid (sp_dispositions r) = Some i" and "SchedulerCancelDisposition_validate (new_disposition sid p verified u) = Inr d"
    then have d: "d = new_disposition sid p verified u" "SchedulerCancelDisposition_validate d = Inr d" by (simp_all add: validated)
    have "SchedulerCancelDisposition_validate (sp_dispositions r ! i) = Inr (sp_dispositions r ! i)"
      using r position_of_Some [OF i] nth_mem by (auto simp: valid_record_iff)
    with d(2) have "SchedulerCancelDisposition_validate (d\<lparr>cd_attempts := cd_attempts (sp_dispositions r ! i),
        cd_confirmation_attempts := cd_confirmation_attempts (sp_dispositions r ! i), cd_updated_at := v\<rparr>) = Inr (d\<lparr>cd_attempts := cd_attempts (sp_dispositions r ! i),
        cd_confirmation_attempts := cd_confirmation_attempts (sp_dispositions r ! i), cd_updated_at := v\<rparr>)"
      by (auto simp: validated disposition_fields_ok_def validate_attempt_claim_def validate_confirmation_claim_def)
    from fits_with [OF r this] show "fits (Suc n) r (r\<lparr>sp_dispositions := (sp_dispositions r)[i := d\<lparr>cd_attempts := cd_attempts (sp_dispositions r ! i),
        cd_confirmation_attempts := cd_confirmation_attempts (sp_dispositions r ! i), cd_updated_at := v\<rparr>], sp_updated_at := t\<rparr>)"
      by (simp add: with_disposition_def)
  qed
  then show ?thesis by (rule creaches_pre) (auto intro: cancel_files_ok_mono cancel_files_ok_stored)
qed

lemma readable_step:
  assumes init: "\<forall>f. qe_initialize env f = (Inr (), f)" and ok: "cancel_files_ok n (qs_other s)" and q: "short_provider q" "n + registrations q \<le> 1000"
  shows "cancel_files_ok (n + registrations q) (qs_other (snd (serve_cancel env q (s\<lparr>qs_budget := b\<rparr>))))"
proof (cases q)
  case (EnsureCancel k reason)
  show ?thesis unfolding EnsureCancel serve_cancel.simps registrations.simps add_0_right by (rule creaches_step [OF readable.ensures [OF init] ok])
next
  case (ScanCancel cl limit now)
  show ?thesis unfolding ScanCancel serve_cancel.simps registrations.simps add_0_right by (rule creaches_step [OF readable.scans [OF init] ok])
next
  case (RegisterCancel k cl sid p verified)
  then have "n < 1000" using q by simp
  from creaches_step [OF creaches_then [OF readable_registers [OF init this]] ok] show ?thesis
    unfolding RegisterCancel serve_cancel.simps register_scheduler_cancel_identity_def by simp
next
  case (FinalizeCancel k cl)
  show ?thesis unfolding FinalizeCancel serve_cancel.simps registrations.simps add_0_right
    by (rule creaches_step [OF readable.finalizes [OF init] ok]) (simp add: fits_def valid_record_iff)
next
  case (CloseCancel k cl superseded)
  show ?thesis unfolding CloseCancel serve_cancel.simps registrations.simps add_0_right
    by (rule creaches_step [OF readable.closes [OF init] ok]) (auto simp: fits_def valid_record_iff without_claims_valid)
next
  case (ClaimAttempt k cl sid p lease now)
  show ?thesis unfolding ClaimAttempt serve_cancel.simps registrations.simps add_0_right
    by (rule creaches_step [OF readable.claim_attempt [OF init] ok], rule valid_claimed(1)) (use q ClaimAttempt in \<open>simp_all add: timedelta_pos\<close>)
next
  case (RecordAttempt k cl sid p c accepted err most delay now)
  show ?thesis unfolding RecordAttempt serve_cancel.simps registrations.simps add_0_right
    by (rule creaches_step [OF readable.record_attempt [OF init] ok], erule fits_with) (simp add: validated)
next
  case (ClaimConfirmation k cl sid p lease now)
  show ?thesis unfolding ClaimConfirmation serve_cancel.simps registrations.simps add_0_right
    by (rule creaches_step [OF readable.claim_confirmation [OF init] ok], rule valid_claimed(2)) (use q ClaimConfirmation in \<open>simp_all add: timedelta_pos\<close>)
next
  case (RecordObservation k cl sid p c phase not_found err most delay now)
  show ?thesis unfolding RecordObservation serve_cancel.simps registrations.simps add_0_right
    by (rule creaches_step [OF readable.record_observation [OF init] ok], erule fits_with) (simp add: validated)
qed

text \<open>
  C14: the records of scheduler cancellations stay readable. From records that validate, with at most \<open>n\<close> identities
  each, any requests that register at most as many identities as keep them within a thousand and that name
  providers of at most 128 characters, each stopping where it may, leave records that validate: every read
  succeeds, a pending record is under its own key and unfinished, a completed one finished.
\<close>

theorem cancel_records_readable:
  assumes init: "\<forall>f. qe_initialize env f = (Inr (), f)" and ok: "cancel_files_ok n (qs_other s)"
    and qs: "\<forall>(q, b) \<in> set qs. short_provider q" "n + sum_list (map (registrations \<circ> fst) qs) \<le> 1000"
  shows "cancel_files_ok (n + sum_list (map (registrations \<circ> fst) qs)) (qs_other (serve_cancels env qs s))
    \<and> (\<forall>key. \<exists>x y. read_pending key (serve_cancels env qs s) = (Inr x, serve_cancels env qs s)
        \<and> read_completed key (serve_cancels env qs s) = (Inr y, serve_cancels env qs s))"
proof -
  have run: "cancel_files_ok (n + sum_list (map (registrations \<circ> fst) qs)) (qs_other (serve_cancels env qs s))"
    using ok qs
  proof (induction qs arbitrary: n s)
    case (Cons x qs)
    obtain q b where x: "x = (q, b)" by fastforce
    with Cons.prems have "cancel_files_ok (n + registrations q) (qs_other (snd (serve_cancel env q (s\<lparr>qs_budget := b\<rparr>))))"
      by (intro readable_step [OF init]) simp_all
    from Cons.IH [OF this] Cons.prems x show ?case by (simp add: add.assoc)
  qed simp
  then have "\<exists>x y. read_pending key (serve_cancels env qs s) = (Inr x, serve_cancels env qs s)
      \<and> read_completed key (serve_cancels env qs s) = (Inr y, serve_cancels env qs s)" for key
    unfolding read_Inr by (auto simp: cancel_files_ok_def pending_ok_def completed_ok_def dest!: map_of_SomeD)
  with run show ?thesis by blast
qed

text \<open>The demo record takes a second identity and a claim.\<close>

theorem cancel_records_readable_witness:
  "cancel_files_ok 2 (qs_other (serve_cancels demo_cancel_env [(RegisterCancel ''job_a'' ''ares'' ''4712'' None True, None),
     (ClaimAttempt ''job_a'' ''ares'' ''4711'' ''slurm'' 60 None, Some 0)] (demo_cancel_state (demo_pending [demo_disposition]))))"
proof -
  have init: "\<forall>f. qe_initialize demo_cancel_env f = (Inr (), f)" by (simp add: demo_cancel_env_def)
  have "\<not> SchedulerCancelPending_complete (demo_pending [demo_disposition])" by code_simp
  then have "cancel_files_ok 1 (qs_other (demo_cancel_state (demo_pending [demo_disposition])))"
    using demo_pending_valid [of "[demo_disposition]"] demo_disposition_valid
    by (simp add: cancel_files_ok_def demo_cancel_state_def pending_new) (simp add: demo_pending_def)
  from cancel_records_readable [OF init this, where qs = "[(RegisterCancel ''job_a'' ''ares'' ''4712'' None True, None),
     (ClaimAttempt ''job_a'' ''ares'' ''4711'' ''slurm'' 60 None, Some 0)]"]
  show ?thesis by (simp add: numeral_2_eq_2 del: serve_cancels.simps)
qed

section \<open>One identity too many\<close>

lemma rmap_Inl: "x \<in> set xs \<Longrightarrow> f x = Inl e \<Longrightarrow> rmap f xs \<noteq> Inr ys"
  by (induction xs arbitrary: ys) (auto simp: rbind_eq_Inr)

lemma length_aupdate: "key \<in> fst ` set al \<Longrightarrow> length (AList.update key v al) = length al"
  by (induction al) auto

lemma read_required: "stored k cl r (qs_other s) \<Longrightarrow> require_scheduler_cancel_pending k cl s = (Inr r, s)"
proof -
  assume s: "stored k cl r (qs_other s)"
  then have "durable_id k" by (auto simp: stored_def owned_record_def valid_record_iff)
  with s have "require_scheduler_cancel_pending k cl s = (Inr r, s) \<longleftrightarrow> True"
    by (auto simp: require_scheduler_cancel_pending_def mbind_eq_Inr qlift_Inr record_path_Inr read_Inr stored_def)
  then show ?thesis by simp
qed

text \<open>A scan reads every record of the cluster, so one that does not validate stops it.\<close>

lemma scan_stopped:
  assumes init: "\<forall>f. qe_initialize env f = (Inr (), f)" and r: "(cancel_key k cl, r) \<in> set (cf_pending (qs_other s))" "\<not> valid_record r"
    and few: "int (length (cf_pending (qs_other s))) \<le> MAX_ACTIVE_JOB_RECORDS"
  shows "fst (scan_due_scheduler_cancellations env cl limit now s) \<noteq> Inr y"
proof
  let ?entries = "cluster_entries cl (cf_pending (qs_other s))"
  assume "fst (scan_due_scheduler_cancellations env cl limit now s) = Inr y"
  then obtain s' where run: "scan_due_scheduler_cancellations env cl limit now s = (Inr y, s')" by (metis prod.collapse)
  then obtain s1 s2 records where s: "initialize_queue env s = (Inr (), s1)" "require_index_migration_complete env s1 = (Inr (), s2)"
      and records: "rmap read_listed (take (nat MAX_ACTIVE_JOB_RECORDS) (cluster_entries cl (cf_pending (qs_other s2)))) = Inr records"
    unfolding scan_due_scheduler_cancellations_def Let_def by (simp add: mbind_eq_Inr qlift_Inr split: if_splits) blast
  have "qs_other s2 = qs_other s"
    using initialize_Inr [OF init s(1)] s(2) by (auto simp: require_index_migration_complete_def qlift_Inr)
  moreover have "length ?entries \<le> nat MAX_ACTIVE_JOB_RECORDS"
    using few length_filter_le [of "\<lambda>(key, _). fst key = stable_ref_token [cl]" "cf_pending (qs_other s)"] unfolding cluster_entries_def length_map by linarith
  ultimately have all: "rmap read_listed ?entries = Inr records" using records by simp
  have "(k, r) \<in> set ?entries" unfolding cluster_entries_def set_map
    by (rule image_eqI [of _ _ "(cancel_key k cl, r)"]) (use r(1) in \<open>simp_all add: cancel_key_def\<close>)
  moreover have "read_listed (k, r) \<noteq> Inr x" for x using r(2) by (simp add: read_listed_def rbind_eq_Inr validate_Inr)
  then obtain e where "read_listed (k, r) = Inl e" by (cases "read_listed (k, r)") auto
  ultimately show False using rmap_Inl [of "(k, r)" ?entries read_listed e records] all by simp
qed

text \<open>
  C30: a record may hold a thousand identities, but the registration of one more is accepted and stored: the
  record is copied without validation. From then on every read of the record is refused, and so is every scan for
  due cancellations of its cluster, those of other jobs included.
\<close>

theorem overfull_cancellation_unreadable:
  assumes init: "\<forall>f. qe_initialize env f = (Inr (), f)" and b: "qs_budget s = None"
    and r: "stored k cl r (qs_other s)" "sp_identity_resolution r = IdentityPending" "length (sp_dispositions r) = 1000"
    and sid: "position_of sid (sp_dispositions r) = None" "length_within 1 256 (Some sid)" "length_within 1 128 provider"
    and few: "int (length (cf_pending (qs_other s))) \<le> MAX_ACTIVE_JOB_RECORDS"
  shows "\<exists>x s'. register_scheduler_cancel_identity_once env k cl sid provider verified s = (Inr x, s') \<and> ir_disposition_created x
    \<and> get_scheduler_cancel_pending k cl s' = (Inl (Raised invalid_record), s')
    \<and> (\<forall>limit now y. fst (scan_due_scheduler_cancellations env cl limit now s') \<noteq> Inr y)"
proof -
  have k: "durable_id k" "sp_job_id r = k" "sp_cluster r = cl" using r(1) by (auto simp: stored_def owned_record_def valid_record_iff)
  let ?n = "qs_draws s"
  let ?d = "new_disposition sid provider verified (qe_clock env ?n)"
  let ?r = "r\<lparr>sp_dispositions := sp_dispositions r @ [?d], sp_updated_at := qe_clock env (Suc ?n)\<rparr>"
  let ?s = "s\<lparr>qs_draws := Suc (Suc ?n), qs_other := cf_pending_update (AList.update (cancel_key k cl) ?r) (qs_other s)\<rparr>"
  have d: "SchedulerCancelDisposition_validate ?d = Inr ?d"
    using sid by (auto simp: validated disposition_fields_ok_def validate_attempt_claim_def validate_confirmation_claim_def claim_ok_Inr
        new_disposition_def length_within_def)
  have open_r: "\<not> SchedulerCancelPending_complete ?r" using r(2) by (simp add: SchedulerCancelPending_complete_def)
  have bad: "\<not> valid_record ?r" using r(3) by (simp add: valid_record_iff)
  have i: "initialize_queue env s = (Inr (), s)" using init b by (simp add: initialize_queue_def on_other_def on_part_def tick_def mbind_def)
  have path: "scheduler_cancel_record_path cl k = Inr (cancel_key k cl)" using k(1) by (simp add: record_path_Inr)
  have run: "register_scheduler_cancel_identity_once env k cl sid provider verified s = (Inr \<lparr>ir_record = ?r, ir_disposition_created = True\<rparr>, ?s)"
    using k b d sid(1) open_r path read_required [OF r(1)]
    by (simp add: register_scheduler_cancel_identity_once_def mbind_def qlift_def i utc_now_def save_registration_def
        persist_scheduler_cancel_record_def write_pending_def durable_def tick_def)
  have "get_scheduler_cancel_pending k cl ?s = (Inl (Raised invalid_record), ?s)"
    using k r(3) path by (simp add: get_scheduler_cancel_pending_def mbind_def qlift_def read_pending_def read_cancel_def SchedulerCancelPending_validate_def)
  moreover have "fst (scan_due_scheduler_cancellations env cl limit now ?s) \<noteq> Inr y" for limit now y
  proof (rule scan_stopped [OF init _ bad])
    show "(cancel_key k cl, ?r) \<in> set (cf_pending (qs_other ?s))" by (auto intro!: map_of_SomeD)
    have "cancel_key k cl \<in> fst ` set (cf_pending (qs_other s))" using r(1) by (force simp: stored_def dest: map_of_SomeD)
    then show "int (length (cf_pending (qs_other ?s))) \<le> MAX_ACTIVE_JOB_RECORDS" using few by (simp add: length_aupdate)
  qed
  ultimately show ?thesis using run by (intro exI [of _ "\<lparr>ir_record = ?r, ir_disposition_created = True\<rparr>"] exI [of _ ?s]) simp
qed

definition demo_full :: SchedulerCancelPending where
  "demo_full = (demo_pending (replicate 1000 demo_disposition))\<lparr>sp_identity_resolution := IdentityPending\<rparr>"

lemma position_of_replicate: "cd_scheduler_job_id d \<noteq> sid \<Longrightarrow> position_of sid (replicate n d) = None"
  by (induction n) simp_all

theorem overfull_cancellation_unreadable_witness:
  "\<exists>x s'. register_scheduler_cancel_identity_once demo_cancel_env ''job_a'' ''ares'' ''4712'' None True (demo_cancel_state demo_full) = (Inr x, s')
     \<and> ir_disposition_created x \<and> get_scheduler_cancel_pending ''job_a'' ''ares'' s' = (Inl (Raised invalid_record), s')
     \<and> (\<forall>limit now y. fst (scan_due_scheduler_cancellations demo_cancel_env ''ares'' limit now s') \<noteq> Inr y)"
proof (rule overfull_cancellation_unreadable)
  have "valid_record (demo_pending (replicate 1000 demo_disposition))"
    by (rule demo_pending_valid) (use demo_disposition_valid in \<open>auto simp: set_replicate_conv_if\<close>)
  then show "stored ''job_a'' ''ares'' demo_full (qs_other (demo_cancel_state demo_full))"
    by (simp add: stored_def demo_cancel_state_def demo_full_def owned_record_def valid_record_iff) (simp add: demo_pending_def)
  show "position_of ''4712'' (sp_dispositions demo_full) = None"
    by (simp add: demo_full_def demo_pending_def position_of_replicate demo_disposition_def)
qed (simp_all add: demo_cancel_env_def demo_cancel_state_def demo_full_def demo_pending_def length_within_def MAX_ACTIVE_JOB_RECORDS_def)

section \<open>An abandoned claim\<close>

lemma open_stored:
  assumes "map_of (cf_completed (qs_other s)) (cancel_key k cl) = None" "stored k cl r (qs_other s)"
  shows "open_cancellation k cl s = (Inr (Some r), s)"
proof -
  have "durable_id k" using assms(2) by (auto simp: stored_def owned_record_def valid_record_iff)
  with assms have "open_cancellation k cl s = (Inr (Some r), s) \<longleftrightarrow> True"
    by (auto simp: open_cancellation_def mbind_eq_Inr qlift_Inr record_path_Inr read_Inr stored_def)
  then show ?thesis by simp
qed

text \<open>The report of a worker whose claim is no longer the one on record is dropped.\<close>

lemma stale_report_dropped:
  assumes init: "\<forall>f. qe_initialize env f = (Inr (), f)" and b: "qs_budget s = None" and held: "claim_held k cl sid c e (qs_other s)"
    and valid: "\<forall>r. map_of (cf_pending (qs_other s)) (cancel_key k cl) = Some r \<longrightarrow> valid_record r" and old: "c0 \<noteq> c" "durable_id c0"
  shows "record_scheduler_cancel_attempt env k cl sid p c0 accepted err most delay (Some t) s = (Inr None, s)"
proof -
  from held valid obtain r i where r: "stored k cl r (qs_other s)" "position_of sid (sp_dispositions r) = Some i" "claims c e (sp_dispositions r ! i)"
      and none: "map_of (cf_completed (qs_other s)) (cancel_key k cl) = None"
    by (auto simp: claim_held_def claims_in_def stored_def split: option.splits)
  have k: "durable_id k" using r(1) by (auto simp: stored_def owned_record_def valid_record_iff)
  have i: "initialize_queue env s = (Inr (), s)" using init b by (simp add: initialize_queue_def on_other_def on_part_def tick_def mbind_def)
  have v: "validate_durable_record_id (JStr c0) = Inr c0" using old by (simp add: validate_durable_record_id_Inr)
  show ?thesis using k v r(2, 3) old(1) open_stored [OF none r(1)]
    by (simp add: record_scheduler_cancel_attempt_def mbind_def qlift_def i observed_def record_attempt_of_def find_disposition_def claims_def)
qed

text \<open>
  C15: a cancellation attempt is never stuck behind a worker that died, and that worker cannot interfere later. When the
  lease of a claim has expired, the next claim on the due identity is granted and held until its own lease
  expires; the report of the old holder is answered with nothing and changes nothing.
\<close>

theorem abandoned_cancel_claim_retaken:
  assumes init: "\<forall>f. qe_initialize env f = (Inr (), f)" and b: "qs_budget s = None" and fresh: "durable_id (''cancelclaim_'' @ qe_uuid env (qs_draws s))"
    and r: "stored k cl r (qs_other s)" "map_of (cf_completed (qs_other s)) (cancel_key k cl) = None" "sp_identity_resolution r = IdentityResolved"
    and i: "position_of sid (sp_dispositions r) = Some i" "cd_state (sp_dispositions r ! i) \<in> {SC_PENDING, SC_RETRY_WAIT}"
    and due: "attempt_due (sp_dispositions r ! i) t" "\<not> claim_live (cd_attempt_claim_id (sp_dispositions r ! i)) (cd_attempt_claim_expires_at (sp_dispositions r ! i)) t"
    and p: "provider \<noteq> []" "length provider \<le> 128" "cd_provider (sp_dispositions r ! i) \<in> {None, Some provider}" "lease_in_bounds lease"
  shows "\<exists>c s'. claim_scheduler_cancel_attempt env k cl sid provider lease (Some t) s = (Inr (Some c), s')
    \<and> sc_attempt c = cd_attempts (sp_dispositions r ! i) + 1 \<and> sc_expires_at c = t + timedelta_us lease
    \<and> claim_held k cl sid (sc_claim_id c) (sc_expires_at c) (qs_other s')
    \<and> (\<forall>old accepted err most delay u. durable_id old \<and> old \<noteq> sc_claim_id c \<longrightarrow>
        record_scheduler_cancel_attempt env k cl sid provider old accepted err most delay (Some u) s' = (Inr None, s'))"
proof -
  let ?n = "qs_draws s"
  define c where "c = ''cancelclaim_'' @ qe_uuid env ?n"
  let ?e = "t + timedelta_us lease"
  let ?r = "with_disposition r i (attempt_claimed (sp_dispositions r ! i) provider c t ?e) t"
  let ?s = "s\<lparr>qs_draws := Suc ?n, qs_other := cf_pending_update (AList.update (cancel_key k cl) ?r) (qs_other s)\<rparr>"
  let ?claim = "\<lparr>sc_claim_id = c, sc_scheduler_job_id = sid, sc_provider = provider, sc_attempt = cd_attempts (sp_dispositions r ! i) + 1,
    sc_claimed_at = t, sc_expires_at = ?e\<rparr>"
  have k: "durable_id k" "valid_record r" "sp_job_id r = k" "sp_cluster r = cl" using r(1) by (auto simp: stored_def owned_record_def valid_record_iff)
  have in_r: "claims_in sid c ?e ?r"
    unfolding with_disposition_def using i(2) r(3) by (subst claims_in_update [OF i(1)]) (auto simp: position_of_Some [OF i(1)] claims_def attempt_claimed_def)
  have r': "sp_job_id ?r = k" "sp_cluster ?r = cl" using k by (simp_all add: with_disposition_def)
  have start: "initialize_queue env s = (Inr (), s)" using init b by (simp add: initialize_queue_def on_other_def on_part_def tick_def mbind_def)
  have path: "scheduler_cancel_record_path cl k = Inr (cancel_key k cl)" using k(1) by (simp add: record_path_Inr)
  have id: "validate_durable_record_id (JStr c) = Inr c" using fresh by (simp add: validate_durable_record_id_Inr c_def)
  have persist: "persist_scheduler_cancel_record ?r (s\<lparr>qs_draws := Suc ?n\<rparr>) = (Inr ?r, ?s)"
    using claims_in_not_complete [OF in_r] b path unfolding persist_scheduler_cancel_record_def r'
    by (simp add: mbind_def qlift_def write_pending_def durable_def tick_def)
  have draw: "new_id env ''cancelclaim'' s = (Inr c, s\<lparr>qs_draws := Suc ?n\<rparr>)"
    using id by (simp add: new_id_def uuid4_hex_def mbind_def qlift_def c_def)
  have prov: "same_provider (sp_dispositions r ! i) provider s = (Inr (), s)" using p(3) by (auto simp: same_provider_def)
  have run: "claim_scheduler_cancel_attempt env k cl sid provider lease (Some t) s = (Inr (Some ?claim), ?s)"
    using k(1) p(1, 4) r(3) i due open_stored [OF r(2, 1)]
    by (auto simp: claim_scheduler_cancel_attempt_def mbind_def qlift_def observed_def start claim_attempt_of_def find_disposition_def prov draw persist Let_def)
  have held: "claim_held k cl sid c ?e (qs_other ?s)" using r(2) in_r r' by (simp add: claim_held_def owned_record_def)
  have "fits 1000 r ?r" by (rule valid_claimed(1) [OF k(2) i(1) p(1, 2) fresh [folded c_def] timedelta_pos [OF p(4)] i(2)])
  then have "valid_record ?r" using k(2) by (simp add: fits_def valid_record_iff)
  then have "record_scheduler_cancel_attempt env k cl sid provider old accepted err most delay (Some u) ?s = (Inr None, ?s)"
    if "durable_id old" "old \<noteq> c" for old accepted err most delay u
    using that b by (intro stale_report_dropped [OF init _ held]) simp_all
  then show ?thesis using run held by (intro exI [of _ ?claim] exI [of _ ?s]) simp
qed

definition demo_abandoned :: SchedulerCancelDisposition where
  "demo_abandoned = attempt_claimed demo_disposition ''slurm'' ''cancelclaim_old'' 0 60000000"

theorem abandoned_cancel_claim_retaken_witness:
  "\<exists>c s'. claim_scheduler_cancel_attempt demo_cancel_env ''job_a'' ''ares'' ''4711'' ''slurm'' 60 (Some 60000000)
       (demo_cancel_state (demo_pending [demo_abandoned])) = (Inr (Some c), s')
     \<and> sc_attempt c = 1 \<and> sc_expires_at c = 60000000 + timedelta_us 60 \<and> claim_held ''job_a'' ''ares'' ''4711'' (sc_claim_id c) (sc_expires_at c) (qs_other s')
     \<and> (\<forall>old accepted err most delay u. durable_id old \<and> old \<noteq> sc_claim_id c \<longrightarrow>
        record_scheduler_cancel_attempt demo_cancel_env ''job_a'' ''ares'' ''4711'' ''slurm'' old accepted err most delay (Some u) s' = (Inr None, s'))"
proof -
  let ?s = "demo_cancel_state (demo_pending [demo_abandoned])"
  have "SchedulerCancelDisposition_validate demo_abandoned = Inr demo_abandoned" by code_simp
  then have "stored ''job_a'' ''ares'' (demo_pending [demo_abandoned]) (qs_other ?s)"
    using demo_pending_valid [of "[demo_abandoned]"] by (simp add: stored_def demo_cancel_state_def) (simp add: demo_pending_def owned_record_def)
  then show ?thesis
    using abandoned_cancel_claim_retaken [where env = demo_cancel_env and s = ?s and k = "''job_a''" and cl = "''ares''" and sid = "''4711''" and i = 0
        and r = "demo_pending [demo_abandoned]" and t = 60000000 and provider = "''slurm''" and lease = 60] demo_cancel_ids(2)
    by (simp add: demo_cancel_env_def demo_cancel_state_def demo_pending_def demo_abandoned_def attempt_claimed_def demo_disposition_def new_disposition_def
        attempt_due_def claim_live_def lease_in_bounds_def MIN_SCHEDULER_CANCEL_CLAIM_LEASE_SECONDS_def MAX_SCHEDULER_CANCEL_CLAIM_LEASE_SECONDS_def)
qed

end
