(* ===== verification/Spec2Isabelle.thy ===== *)
theory Spec2Isabelle
  imports
    Prelude PyStdlib Identifiers StorageTypes StorageScan StorageLedgerCodec StorageLedger
    StorageReservations Models WorkerConcurrency StorageRuntime LeaseRecords LeaseRecordsCodec
    LeaseCapacity LeaseIndexes LeaseIndexRefinement QueueStore LeaseLifecycle LeaseAdmission
    QueueRuns QueueEvents LeaseAcquisition LeaseInvariant LeaseRollback LeaseDeletion LeaseRenewal
    LeaseRecovery GlobalOrder JobOrder JobRecords JobUpdates JobRepair JobSubmission SubmissionDigest
    SubmissionSafety ManagedQueue ManagedSafety ManagedTransitions InputIngest InputQuota IngestSafety
    ManagedIngest ManagedIngestSafety ErrorDetail SchedulerCancel SchedulerCancelRuns SchedulerCancelSafety
begin

text \<open>
  A verification library for the core of clio-relay, the durable job relay under
  \<^verbatim>\<open>src/src/clio_relay\<close>. Paths below are relative to that directory.

  \<^bold>\<open>The program.\<close> The relay accepts jobs for HPC clusters, keeps them as JSON records below a
  queue root, and hands them to workers under leases. Two subsystems carry its guarantees. The
  storage subsystem admits work only while the core and spool trees, plus everything promised to
  admitted jobs, stay under configured thresholds; its promises live in one checksummed ledger
  file. The lease subsystem gives a queued job to one worker at a time and keeps, beside each
  lease record, an index manifest, five zero-byte references and a two-file capacity aggregate,
  so that workers can enforce limits without reading every lease; every change to them goes
  through a journaled intent that a later process replays after a crash.

  \<^bold>\<open>The library.\<close>

  \<^item> \<open>Prelude\<close>: fallible results (\<open>rbind\<close>), operations over durable state whose exceptions keep
    earlier writes (\<open>mbind\<close>), association lists as dictionaries, digits. \<open>PyStdlib\<close>: JSON values
    and encodings, SHA-256 computed in full.
  \<^item> \<open>Identifiers\<close> (\<^verbatim>\<open>identifiers.py\<close>, \<^verbatim>\<open>queue_layout.py\<close>): record identifiers and filesystem keys.
    A key is always a portable record identifier, and two different labels of a domain share one only if
    their two different key materials have the same SHA-256 digest.
  \<^item> \<open>StorageTypes\<close> (\<^verbatim>\<open>storage_policy_types.py\<close>), \<open>StorageScan\<close> (\<^verbatim>\<open>scan_tree\<close> of \<^verbatim>\<open>storage_policy.py\<close>):
    limits, decisions, and the bounded traversal, which equals a recursive reference count on
    every tree that fits its bounds.
  \<^item> \<open>StorageLedgerCodec\<close> (\<^verbatim>\<open>storage_ledger_codec.py\<close>), \<open>StorageLedger\<close> (\<^verbatim>\<open>storage_snapshot.py\<close>,
    \<^verbatim>\<open>storage_reservation_ledger.py\<close>, the ledger writer of \<^verbatim>\<open>storage_policy.py\<close>): the durable ledger and
    its operations. \<open>StorageReservations\<close> proves them against a map of reservations through the
    interface \<open>reservation_store\<close>, also where a replacement happened and is reported as failed because
    reading back or syncing the directory failed. A damaged checksum is denied, unless it has a
    character outside ASCII: then \<^verbatim>\<open>hmac.compare_digest\<close> raises.
  \<^item> \<open>StorageRuntime\<close> (\<^verbatim>\<open>storage_runtime_core.py\<close>, \<^verbatim>\<open>storage_runtime_errors.py\<close>, \<^verbatim>\<open>check_runtime_job\<close>): estimates,
    startup reconciliation, the intake gate, shut before the first reconciliation, and the guard on running jobs.
  \<^item> \<open>Models\<close> (\<^verbatim>\<open>models_*.py\<close>), \<open>WorkerConcurrency\<close> (\<^verbatim>\<open>worker_concurrency.py\<close>): job records with their
    validators, and job-kind limits.
  \<^item> \<open>LeaseRecords\<close>, \<open>LeaseRecordsCodec\<close> (\<^verbatim>\<open>queue_lease_records.py\<close>): tokens, reference names and
    documents, with their round trips. \<open>LeaseCapacity\<close> (\<^verbatim>\<open>queue_lease_capacity_state.py\<close>): the capacity
    pair and its transitions, safe under a crash between the two file replacements.
  \<^item> \<open>LeaseIndexes\<close> (\<^verbatim>\<open>queue_lease_indexes.py\<close> with the primitives of \<^verbatim>\<open>queue_store_write.py\<close>), and
    \<open>LeaseIndexRefinement\<close>: the index tree implements the set of live lease identities, through
    the interfaces \<open>refined_store\<close> and \<open>observed_store\<close>.
  \<^item> \<open>QueueStore\<close> (\<^verbatim>\<open>queue_store_read.py\<close>, \<^verbatim>\<open>queue_jobs.py\<close>, \<^verbatim>\<open>queue_events.py\<close>, \<^verbatim>\<open>queue_order_index.py\<close>, the
    intent writer of \<^verbatim>\<open>core_queue.py\<close>): the durable queue as record families, every replacement and
    unlink one step that a crash can precede. \<open>LeaseLifecycle\<close>, \<open>LeaseAdmission\<close>
    (\<^verbatim>\<open>queue_leases.py\<close>, \<^verbatim>\<open>queue_lease_recovery.py\<close>, \<^verbatim>\<open>queue_lease_admission.py\<close>, \<^verbatim>\<open>queue_transitions.py\<close>):
    acquisition, worker lanes, renewal, release, stale recovery and the replay of the journal.
  \<^item> \<open>QueueRuns\<close>: the content of a store cell by cell, and the judgement \<open>runs P \<sigma> m Q\<close>: from content
    \<open>\<sigma>\<close> the operation \<open>m\<close> ends in \<open>Q\<close> or crashes in a content that satisfies \<open>P\<close>, with a rule for each step.
    \<open>QueueEvents\<close>: the event log of a job has no gap or duplicate whatever crashes interrupt it, and an event
    over the byte limit of its record is refused without a trace (\<open>append_event_within\<close>).
  \<^item> \<open>LeaseAcquisition\<close>, \<open>LeaseInvariant\<close>, \<open>LeaseDeletion\<close>, \<open>LeaseRenewal\<close>, \<open>LeaseRecovery\<close>: a settled store
    holds, for one set of lease identities, exactly their records, index files and counts. Each
    operation takes a settled store to a settled store, and a crash anywhere inside it is undone or
    completed by the next full replay (a renewed lease expires exactly the requested time after the clock
    reading of its renewal), through the interface \<open>journaled\<close> interpreted on every kind of
    intent. \<open>LeaseRollback\<close> shows the one promise the replay misses: a rollback that is itself
    interrupted can leave the job out of the queued index.
  \<^item> \<open>GlobalOrder\<close>, \<open>JobOrder\<close> (\<^verbatim>\<open>queue_order_index.py\<close>, \<^verbatim>\<open>pagination.py\<close>, \<^verbatim>\<open>list_jobs_page\<close>): the submission order.
    Numbers are never reassigned and never shared, whatever crashes interrupt their assignment; a
    page is exactly the records of its range; the doubling search finds the end of a sequence.
  \<^item> \<open>JobRecords\<close>, \<open>JobUpdates\<close>, \<open>JobRepair\<close> (\<^verbatim>\<open>queue_jobs.py\<close>): listings, updates, cancellation, the capacity
    gate and the repair of the active index. A state change or a cancellation is atomic under
    crashes, a terminal job is final, and a repair heals every derived index it still lists, the
    ones of an interrupted rollback included.
  \<^item> \<open>JobSubmission\<close> (\<^verbatim>\<open>submit_job\<close>, \<^verbatim>\<open>queue_idempotency.py\<close>), \<open>SubmissionDigest\<close>, \<open>SubmissionSafety\<close>: idempotent
    submission. The payload digest depends on nothing the queue generates (a trusted run that names its own
    execution identity is refused under another job identifier instead), and a client that repeats
    its submission through any number of crashes ends with exactly one job. The proof passes through
    the stages a submission can be stopped at (\<open>at_stage\<close>); from each of them a further attempt
    either completes or stops at a stage again.
  \<^item> \<open>ManagedQueue\<close> (\<^verbatim>\<open>storage_managed_queue*.py\<close>): the composition of the two subsystems, a reservation before
    every admission and a release after every terminal transition, in a state that holds both stores.
    \<open>ManagedSafety\<close> and \<open>ManagedTransitions\<close> prove its promise through the judgement \<open>mruns\<close> over both stores: a job
    that is not terminal always has exactly its estimate in the ledger, and a job that became
    terminal gives it back.
  \<^item> \<open>InputIngest\<close> (\<^verbatim>\<open>queue_input_ingest.py\<close>, the quota of \<^verbatim>\<open>core_queue.py\<close>): input files that a request
    ingests itself, under an attempt identifier instead of a lease. \<open>InputQuota\<close> shows that the quota loop
    with its early exits decides exactly whether the generation's files and bytes fit; \<open>IngestSafety\<close>
    that claiming, failing and completing are atomic and that one attempt excludes every other.
    \<open>ManagedIngest\<close>, \<open>ManagedIngestSafety\<close> (\<^verbatim>\<open>storage_managed_queue_admission.py\<close>): the same lifecycle under
    reservations, a failed ingest reserving again before its retry. One failure path breaks the promise:
    a claim whose event is refused gives back the reservation of a job that already runs.
  \<^item> \<open>SchedulerCancel\<close> (\<^verbatim>\<open>queue_scheduler_cancel_*.py\<close>, \<^verbatim>\<open>models_scheduling.py\<close>): cancellation carried to external
    schedulers, one pending record per job with a disposition per scheduler identity, which workers claim
    under short leases. \<open>SchedulerCancelRuns\<close> proves every operation once against the interface \<open>cancel_invariant\<close>;
    \<open>SchedulerCancelSafety\<close> interprets it twice, for a claim, which excludes all other workers until its lease
    expires and can be taken over after, and for the readability of the records, which one
    registration too many destroys. Their hypothesis on \<open>qe_initialize\<close> is that creating the store's directories
    succeeds and leaves the records alone.
  \<^item> \<open>ErrorDetail\<close> (\<^verbatim>\<open>bounded_error_detail\<close> of \<^verbatim>\<open>command_evidence.py\<close>): the error text of a durable record, cut to a
    number of bytes that it never exceeds. This theory works on Unicode code points, with surrogates and UTF-8 of
    up to four bytes; \<open>error_detail\<close> is its Latin-1 form for the other theories.

  \<^bold>\<open>Conventions.\<close> A Python exception is an \<open>Inl\<close> value; an aware UTC \<^verbatim>\<open>datetime\<close> is its number of
  microseconds since the epoch; a string is a list of Latin-1 characters (of code points in
  \<open>ErrorDetail\<close>). Values the program
  draws or observes (clock readings, \<^verbatim>\<open>uuid4\<close>, the lock outcome, the trees on disk, free space, the
  outcome of a file replacement) are arguments, so each operation is a function of the durable
  state and of what it observed. \<^verbatim>\<open>datetime.fromisoformat\<close> and \<^verbatim>\<open>isoformat\<close> are arguments of the two
  codecs that use them, with their documented round trip as a hypothesis.

  \<^bold>\<open>Termination and bounds.\<close> All definitions are total. The directory traversal terminates by the
  size of the trees still to visit, the event probe by the distance to its bound, the excerpt of an error by the bytes of its head, a scan of jobs by
  the positions left, the search for the end of a sequence by its distance from the largest number
  (\<open>double_bound\<close> also stops at a bound below one, which the code never passes); snapshot retries
  are bounded by the source's constant. No definition uses fuel: the budget of a queue state is not
  a bound on a computation but the number of durable steps before a crash, and \<open>None\<close> is no crash.

  \<^bold>\<open>Not modelled.\<close> Processes, sockets, protocol servers, the command line and host provisioning
  are outside the library. In the queue, the families a lease operation only touches on its way
  (owner-session membership, scheduler references, execution cleanup, the migration state) are one
  field of an arbitrary type with the calls into them as operations of
  \<open>queue_env\<close>; the hypothesis \<open>env_ok\<close> says that these calls succeed and leave the modelled families
  alone. A submission calls further into tombstones, artifact lineage, owner sessions, input quotas
  and scheduler cancellation: these calls are the record \<open>submit_calls\<close>, and \<open>calls_ok\<close> says that they
  accept. The byte limits of typed records other than events are left out: \<open>write_job_record\<close>, \<open>write_pending\<close> and \<open>write_event\<close> write a
  record of any size, and the composed operations append with \<open>append_event\<close>, which is \<open>append_event_within\<close>
  where every event fits (\<open>append_event_within_fits\<close>). The text of a record is what pydantic prints, a parameter of
  \<open>append_event_within\<close>. The ledger is read from its parsed JSON document, with unreadable and unparsable files as
  outcomes of reading. The hypothesis \<open>env_ok\<close> of \<open>StorageReservations\<close>, which the theorems on the managed queue use too, says that a
  ledger replacement either happens or does not; the refinement of the ledger needs only that the file
  read back is not a foreign one. The types of fields, which \<^verbatim>\<open>__post_init__\<close> of the limits checks, are the types of the records. The fault-injection seams, the unmanaged \<^verbatim>\<open>submit_and_acquire_job\<close>
  and the replay of index repair, task and gateway intents are left out, as is the quoting Python's
  \<^verbatim>\<open>repr\<close> adds inside one error message of \<open>ensure_global\<close>. Of the managed queue the constructor's checks and
  the writer lifetime lock are left out. Of the input ingest, \<^verbatim>\<open>reconcile_input_artifact\<close>, which writes the artifact
  families, is left out; the generation memberships and artifacts it reads and \<^verbatim>\<open>datetime.fromisoformat\<close>
  are the record \<open>ingest_calls\<close>. Of scheduler cancellation the refusal of files that are no records is left out, and the
  job operations reach it as one of their parameters. Owner sessions, artifacts and
  garbage collection, record families over the same store primitives, are not modelled.
\<close>

end
